(* ===== verification/Prelude.thy ===== *)
theory Prelude
  imports Main "HOL-Library.Char_ord" "HOL-Library.List_Lexorder" "HOL-Library.Sublist"
begin

text \<open>
  Shared vocabulary of the development: the exceptions the modelled Python raises, the result
  type of a fallible operation, the string predicates of the Python standard library the code
  uses, and the generic lemmas on results and tables that the component theories rest on.

  A Python \<open>str\<close> is a \<^typ>\<open>string\<close> whose characters are its code points. The type
  \<^typ>\<open>char\<close> holds the code points 0 to 255 (Latin-1), and the predicates below are those of
  CPython on exactly that range; code points above 255 are outside the model.
\<close>

section \<open>Exceptions and results\<close>

text \<open>
  One constructor per exception class raised by the modelled modules; the argument is the
  \<open>code\<close> (or message) the exception carries.
\<close>

datatype py_exn =
    OwnershipRefused string
  | ControlStoreRefused string
  | RunPolicyRefused string
  | ResourceObservationRefused string
  | ManagedAdmissionRefused string
  | ResourceGroupRefused string
  | MigrationRawMutationRefused string
  | UnknownRunError string
  | JournalError string
  | ValueError string
  | TypeError string
  | OtherException string

type_synonym 'a res = "py_exn + 'a"

text \<open>\<open>bindR m k\<close> runs \<open>k\<close> on the value of \<open>m\<close>; an exception of \<open>m\<close> propagates.\<close>

definition bindR :: "'a res \<Rightarrow> ('a \<Rightarrow> 'b res) \<Rightarrow> 'b res" where
  "bindR m k = (case m of Inl e \<Rightarrow> Inl e | Inr x \<Rightarrow> k x)"

text \<open>A list of checks in source order: the first exception wins.\<close>

fun mapR :: "('a \<Rightarrow> 'b res) \<Rightarrow> 'a list \<Rightarrow> 'b list res" where
  "mapR f [] = Inr []"
| "mapR f (x # xs) = bindR (f x) (\<lambda>y. bindR (mapR f xs) (\<lambda>ys. Inr (y # ys)))"

lemma bindR_Inl [simp]: "bindR (Inl e) k = Inl e"
  by (simp add: bindR_def)

lemma bindR_Inr [simp]: "bindR (Inr x) k = k x"
  by (simp add: bindR_def)

lemma bindR_eq_Inr [simp]: "bindR m k = Inr y \<longleftrightarrow> (\<exists>x. m = Inr x \<and> k x = Inr y)"
  by (cases m) simp_all

lemma bindR_eq_Inl: "bindR m k = Inl e \<longleftrightarrow> m = Inl e \<or> (\<exists>x. m = Inr x \<and> k x = Inl e)"
  by (cases m) simp_all

lemma bindR_assoc: "bindR (bindR m f) g = bindR m (\<lambda>x. bindR (f x) g)"
  by (cases m) simp_all

lemma raise_if_Inr [simp]: "(if c then Inl e else r) = Inr y \<longleftrightarrow> \<not> c \<and> r = Inr y"
  by simp

lemma raise_unless_Inr [simp]: "(if c then r else Inl e) = Inr y \<longleftrightarrow> c \<and> r = Inr y"
  by simp

lemma isl_not_Inr: "isl r \<longleftrightarrow> (\<forall>y. r \<noteq> Inr y)"
  by (cases r) simp_all

lemma mapR_Inr_length: "mapR f xs = Inr ys \<Longrightarrow> length ys = length xs"
  by (induction xs arbitrary: ys) auto

lemma mapR_Inr_all: "mapR f xs = Inr ys \<Longrightarrow> x \<in> set xs \<Longrightarrow> \<exists>y \<in> set ys. f x = Inr y"
  by (induction xs arbitrary: ys) auto

lemma mapR_Inr_id:
  "(\<And>x y. x \<in> set xs \<Longrightarrow> f x = Inr y \<Longrightarrow> y = g x) \<Longrightarrow> mapR f xs = Inr ys \<Longrightarrow> ys = map g xs"
proof (induction xs arbitrary: ys)
  case Nil
  then show ?case by simp
next
  case (Cons x xs)
  then obtain y zs where yz: "f x = Inr y" "mapR f xs = Inr zs" "ys = y # zs"
    by auto
  have "y = g x"
    using Cons.prems(1) yz(1) by (metis list.set_intros(1))
  moreover have "zs = map g xs"
    using Cons.IH Cons.prems(1) yz(2) by (metis list.set_intros(2))
  ultimately show ?case
    using yz(3) by simp
qed

section \<open>Facts the components share\<close>

named_theorems row_simps \<open>how the operations read and write the tables\<close>
named_theorems op_defs \<open>the bodies of the operations of the control store\<close>

section \<open>Strings\<close>

text \<open>\<open>str.isspace\<close>, \<open>str.isprintable\<close> and \<open>str.lower\<close> on the code points 0 to 255.\<close>

definition py_space :: "char \<Rightarrow> bool" where
  "py_space c = (let n = (of_char c :: nat) in
     (9 \<le> n \<and> n \<le> 13) \<or> (28 \<le> n \<and> n \<le> 32) \<or> n = 133 \<or> n = 160)"

definition py_strip :: "string \<Rightarrow> string" where
  "py_strip s = rev (dropWhile py_space (rev (dropWhile py_space s)))"

definition py_printable :: "char \<Rightarrow> bool" where
  "py_printable c = (let n = (of_char c :: nat) in
     (32 \<le> n \<and> n \<le> 126) \<or> (161 \<le> n \<and> n \<noteq> 173))"

definition py_isprintable :: "string \<Rightarrow> bool" where
  "py_isprintable s = list_all py_printable s"

definition py_lower_char :: "char \<Rightarrow> char" where
  "py_lower_char c = (let n = (of_char c :: nat) in
     if (65 \<le> n \<and> n \<le> 90) \<or> (192 \<le> n \<and> n \<le> 222 \<and> n \<noteq> 215) then char_of (n + 32) else c)"

definition py_lower :: "string \<Rightarrow> string" where
  "py_lower s = map py_lower_char s"

text \<open>\<open>len(s.encode("utf-8"))\<close>: one byte below 128, two from 128 to 255.\<close>

definition utf8_length :: "string \<Rightarrow> nat" where
  "utf8_length s = sum_list (map (\<lambda>c. if (of_char c :: nat) < 128 then 1 else 2) s)"

definition hex_char :: "char \<Rightarrow> bool" where
  "hex_char c = (c \<in> set ''0123456789abcdef'')"

definition digit_char :: "char \<Rightarrow> bool" where
  "digit_char c = (let n = (of_char c :: nat) in 48 \<le> n \<and> n \<le> 57)"

text \<open>\<open>s.startswith(p)\<close> and \<open>s.endswith(p)\<close>.\<close>

definition py_startswith :: "string \<Rightarrow> string \<Rightarrow> bool" where
  "py_startswith s p = (take (length p) s = p)"

definition py_endswith :: "string \<Rightarrow> string \<Rightarrow> bool" where
  "py_endswith s p = (length p \<le> length s \<and> drop (length s - length p) s = p)"

lemma hex_char_lower [simp]: "hex_char c \<Longrightarrow> py_lower_char c = c"
  by (auto simp: hex_char_def py_lower_char_def)

lemma utf8_length_ge: "length s \<le> utf8_length s"
  unfolding utf8_length_def by (induction s) auto

lemma strip_fixed_first: "py_strip (c # s) = c # s \<Longrightarrow> \<not> py_space c"
proof
  assume eq: "py_strip (c # s) = c # s" and sp: "py_space c"
  have "length (dropWhile py_space (rev (dropWhile py_space s))) \<le> length (dropWhile py_space s)"
    by (metis length_dropWhile_le length_rev)
  also have "\<dots> \<le> length s"
    by (rule length_dropWhile_le)
  finally have "length (py_strip (c # s)) \<le> length s"
    unfolding py_strip_def using sp by simp
  with eq show False by simp
qed

section \<open>Tables\<close>

text \<open>
  A table is the list of its rows in rowid order. \<open>SELECT ... fetchone()\<close> is
  \<^const>\<open>List.find\<close>, \<open>UPDATE ... WHERE\<close> is \<open>update_where\<close> and \<open>INSERT\<close> appends a row. An
  \<open>INSERT\<close> that breaks a uniqueness constraint raises \<open>sqlite3.IntegrityError\<close>, which
  \<open>ControlStore.transaction\<close> turns into the refusal \<open>STORE_IO\<close>.
\<close>

definition update_where :: "('r \<Rightarrow> bool) \<Rightarrow> ('r \<Rightarrow> 'r) \<Rightarrow> 'r list \<Rightarrow> 'r list" where
  "update_where P f rs = map (\<lambda>r. if P r then f r else r) rs"

definition count_where :: "('r \<Rightarrow> bool) \<Rightarrow> 'r list \<Rightarrow> nat" where
  "count_where P rs = length (filter P rs)"

definition insert_row :: "('r \<Rightarrow> 'r \<Rightarrow> bool) \<Rightarrow> 'r \<Rightarrow> 'r list \<Rightarrow> 'r list res" where
  "insert_row clash r rs =
     (if list_ex (clash r) rs then Inl (ControlStoreRefused ''STORE_IO'') else Inr (rs @ [r]))"

lemma find_Some_in: "List.find P xs = Some x \<Longrightarrow> x \<in> set xs \<and> P x"
  by (induction xs) (auto split: if_splits)

lemma find_Some_in_set: "List.find P xs = Some x \<Longrightarrow> x \<in> set xs"
  by (simp add: find_Some_in)

lemma find_Some_pred: "List.find P xs = Some x \<Longrightarrow> P x"
  by (simp add: find_Some_in)

lemma find_None_all: "List.find P xs = None \<longleftrightarrow> (\<forall>x \<in> set xs. \<not> P x)"
  by (induction xs) auto

lemma find_unique:
  "\<lbrakk>x \<in> set xs; P x; \<And>y. y \<in> set xs \<Longrightarrow> P y \<Longrightarrow> y = x\<rbrakk> \<Longrightarrow> List.find P xs = Some x"
  by (cases "List.find P xs") (blast dest: find_None_all [THEN iffD1], metis find_Some_in)

lemma find_append: "List.find P (xs @ ys) =
    (case List.find P xs of Some x \<Rightarrow> Some x | None \<Rightarrow> List.find P ys)"
  by (induction xs) auto

lemma insert_row_Inr [simp]:
  "insert_row clash r rs = Inr rs' \<longleftrightarrow> (\<forall>x \<in> set rs. \<not> clash r x) \<and> rs' = rs @ [r]"
  by (auto simp: insert_row_def list_ex_iff)

lemma length_update_where [simp]: "length (update_where P f rs) = length rs"
  by (simp add: update_where_def)

lemma set_update_where: "set (update_where P f rs) = (\<lambda>r. if P r then f r else r) ` set rs"
  by (simp add: update_where_def)

lemma map_update_where: "(\<And>r. g (f r) = g r) \<Longrightarrow> map g (update_where P f rs) = map g rs"
  by (simp add: update_where_def)

lemma update_where_Nil [simp]: "update_where P f [] = []"
  by (simp add: update_where_def)

lemma update_where_Cons [simp]:
  "update_where P f (r # rs) = (if P r then f r else r) # update_where P f rs"
  by (simp add: update_where_def)

text \<open>The first row a statement selects after an update that keeps its key.\<close>

lemma find_update: "(\<And>r. P (f r) = P r) \<Longrightarrow> List.find P (update_where P f rs) = map_option f (List.find P rs)"
  by (induction rs) auto

lemma count_where_append [simp]: "count_where P (xs @ ys) = count_where P xs + count_where P ys"
  by (simp add: count_where_def)

lemma count_where_simps [simp]:
  "count_where P [] = 0"
  "count_where P (x # xs) = (if P x then Suc (count_where P xs) else count_where P xs)"
  by (simp_all add: count_where_def)

lemma count_where_mono:
  "(\<And>x. x \<in> set xs \<Longrightarrow> P x \<Longrightarrow> Q x) \<Longrightarrow> count_where P xs \<le> count_where Q xs"
  by (induction xs) auto

lemma count_where_pos: "0 < count_where P xs \<longleftrightarrow> (\<exists>x \<in> set xs. P x)"
  by (induction xs) auto

lemma distinct_map_find:
  assumes "distinct (map f xs)" and "x \<in> set xs"
  shows "List.find (\<lambda>y. f y = f x) xs = Some x"
  using assms by (intro find_unique) (auto simp: distinct_map inj_on_def)

end
