(* ===== verification/Json.thy ===== *)
theory Json
  imports Prelude
begin

text \<open>
  Dynamically typed Python values as the validators of the code see them (the results of
  \<open>json.loads\<close>), and the canonical encoder
  \<open>json.dumps(value, sort_keys=True, separators=(",", ":"), allow_nan=False)\<close> whose output the
  code hashes to bind receipts, requests and events. The main result of this theory is that
  the canonical encoding is injective up to the order of dictionary keys: equal encodings
  (hence, for a collision-free hash, equal digests) mean equal values.

  A \<open>dict\<close> is the list of its items in insertion order; a \<open>float\<close> is kept as its text, and
  the injectivity results are about values without floats (no validator of the code admits one
  into hashed material).
\<close>

datatype pyval =
    PNone
  | PBool bool
  | PInt int
  | PFloat string
  | PStr string
  | PList "pyval list"
  | PDict "(string \<times> pyval) list"

type_synonym pydict = "(string \<times> pyval) list"

section \<open>Dictionaries and type tests\<close>

definition dict_keys :: "pydict \<Rightarrow> string set" where
  "dict_keys d = set (map fst d)"

text \<open>\<open>d.get(k)\<close>: the value, or \<open>None\<close>.\<close>

definition dict_get :: "pydict \<Rightarrow> string \<Rightarrow> pyval" where
  "dict_get d k = (case map_of d k of None \<Rightarrow> PNone | Some v \<Rightarrow> v)"

text \<open>\<open>set(d) == {...}\<close>: the closed-schema test of the validators.\<close>

definition dict_has_keys :: "pydict \<Rightarrow> string list \<Rightarrow> bool" where
  "dict_has_keys d ks = (dict_keys d = set ks)"

definition is_int :: "pyval \<Rightarrow> bool" where
  "is_int v = (case v of PInt _ \<Rightarrow> True | _ \<Rightarrow> False)"

definition int_of :: "pyval \<Rightarrow> int" where
  "int_of v = (case v of PInt i \<Rightarrow> i | _ \<Rightarrow> 0)"

definition str_of :: "pyval \<Rightarrow> string" where
  "str_of v = (case v of PStr s \<Rightarrow> s | _ \<Rightarrow> [])"

definition dict_of :: "pyval \<Rightarrow> pydict" where
  "dict_of v = (case v of PDict d \<Rightarrow> d | _ \<Rightarrow> [])"

definition list_of :: "pyval \<Rightarrow> pyval list" where
  "list_of v = (case v of PList xs \<Rightarrow> xs | _ \<Rightarrow> [])"

text \<open>\<open>bool(v)\<close>, as an \<open>if v\<close> or \<open>not v\<close> of the code sees it.\<close>

definition truthy :: "pyval \<Rightarrow> bool" where
  "truthy v = (case v of PNone \<Rightarrow> False | PBool b \<Rightarrow> b | PInt i \<Rightarrow> i \<noteq> 0
     | PFloat s \<Rightarrow> s \<noteq> ''0.0'' \<and> s \<noteq> ''-0.0'' | PStr s \<Rightarrow> s \<noteq> []
     | PList xs \<Rightarrow> xs \<noteq> [] | PDict d \<Rightarrow> d \<noteq> [])"

lemma int_of_PInt [simp]: "int_of (PInt i) = i"
  by (simp add: int_of_def)

lemma str_of_PStr [simp]: "str_of (PStr s) = s"
  by (simp add: str_of_def)

lemma dict_of_PDict [simp]: "dict_of (PDict d) = d"
  by (simp add: dict_of_def)

lemma list_of_PList [simp]: "list_of (PList xs) = xs"
  by (simp add: list_of_def)

lemma is_int_iff: "is_int v \<longleftrightarrow> (\<exists>i. v = PInt i)"
  by (cases v) (simp_all add: is_int_def)

section \<open>The canonical encoder\<close>

fun nat_str :: "nat \<Rightarrow> string" where
  "nat_str n = (if n < 10 then [char_of (48 + n)] else nat_str (n div 10) @ [char_of (48 + n mod 10)])"

declare nat_str.simps [simp del]

definition int_str :: "int \<Rightarrow> string" where
  "int_str i = (if i < 0 then CHR ''-'' # nat_str (nat (- i)) else nat_str (nat i))"

definition hex_digit :: "nat \<Rightarrow> char" where
  "hex_digit n = ''0123456789abcdef'' ! n"

text \<open>One character of a JSON string literal, with \<open>ensure_ascii=True\<close>.\<close>

definition json_char :: "char \<Rightarrow> string" where
  "json_char c = (let n = (of_char c :: nat) in
     if n = 34 then [CHR 0x5C, CHR 0x22]
     else if n = 92 then [CHR 0x5C, CHR 0x5C]
     else if n = 8 then [CHR 0x5C, CHR ''b'']
     else if n = 9 then [CHR 0x5C, CHR ''t'']
     else if n = 10 then [CHR 0x5C, CHR ''n'']
     else if n = 12 then [CHR 0x5C, CHR ''f'']
     else if n = 13 then [CHR 0x5C, CHR ''r'']
     else if n < 32 \<or> 127 \<le> n then
       [CHR 0x5C, CHR ''u'', CHR ''0'', CHR ''0'', hex_digit (n div 16), hex_digit (n mod 16)]
     else [c])"

definition json_string :: "string \<Rightarrow> string" where
  "json_string s = CHR 0x22 # concat (map json_char s) @ [CHR 0x22]"

fun join :: "string \<Rightarrow> string list \<Rightarrow> string" where
  "join sep [] = []"
| "join sep [x] = x"
| "join sep (x # y # ys) = x @ sep @ join sep (y # ys)"

fun json_raw :: "pyval \<Rightarrow> string" where
  "json_raw PNone = ''null''"
| "json_raw (PBool b) = (if b then ''true'' else ''false'')"
| "json_raw (PInt i) = int_str i"
| "json_raw (PFloat s) = s"
| "json_raw (PStr s) = json_string s"
| "json_raw (PList xs) = ''['' @ join '','' (map json_raw xs) @ '']''"
| "json_raw (PDict d) =
     ''{'' @ join '','' (map (\<lambda>kv. json_string (fst kv) @ '':'' @ json_raw (snd kv)) d) @ ''}''"

text \<open>\<open>sort_keys=True\<close> orders every dictionary by its keys.\<close>

fun sort_keys :: "pyval \<Rightarrow> pyval" where
  "sort_keys (PList xs) = PList (map sort_keys xs)"
| "sort_keys (PDict d) = PDict (sort_key fst (map (\<lambda>kv. (fst kv, sort_keys (snd kv))) d))"
| "sort_keys v = v"

definition json_dumps :: "pyval \<Rightarrow> string" where
  "json_dumps v = json_raw (sort_keys v)"

text \<open>
  Python's \<open>==\<close> on such values: \<open>True == 1\<close>, and dictionaries are equal whatever the order of
  their items.
\<close>

fun bools_as_ints :: "pyval \<Rightarrow> pyval" where
  "bools_as_ints (PBool b) = PInt (if b then 1 else 0)"
| "bools_as_ints (PList xs) = PList (map bools_as_ints xs)"
| "bools_as_ints (PDict d) = PDict (map (\<lambda>kv. (fst kv, bools_as_ints (snd kv))) d)"
| "bools_as_ints v = v"

definition py_eq :: "pyval \<Rightarrow> pyval \<Rightarrow> bool" where
  "py_eq v w = (sort_keys (bools_as_ints v) = sort_keys (bools_as_ints w))"

lemma py_eq_refl [simp]: "py_eq v v"
  by (simp add: py_eq_def)

lemma py_eq_sym: "py_eq v w = py_eq w v"
  by (auto simp: py_eq_def)

fun float_free :: "pyval \<Rightarrow> bool" where
  "float_free (PFloat s) = False"
| "float_free (PList xs) = list_all float_free xs"
| "float_free (PDict d) = list_all (\<lambda>kv. float_free (snd kv)) d"
| "float_free v = True"

text \<open>The text \<open>repr\<close> gives a finite float: digits and signs, with a point or an exponent.\<close>

definition number_char :: "char \<Rightarrow> bool" where
  "number_char c = (digit_char c \<or> c \<in> set ''+-.e'')"

definition float_text :: "string \<Rightarrow> bool" where
  "float_text s = (s \<noteq> [] \<and> (hd s = CHR ''-'' \<or> digit_char (hd s)) \<and> list_all number_char s
     \<and> (CHR ''.'' \<in> set s \<or> CHR ''e'' \<in> set s))"

fun finite_floats :: "pyval \<Rightarrow> bool" where
  "finite_floats (PFloat s) = float_text s"
| "finite_floats (PList xs) = list_all finite_floats xs"
| "finite_floats (PDict d) = list_all (\<lambda>kv. finite_floats (snd kv)) d"
| "finite_floats v = True"

lemma float_free_finite: "float_free v \<Longrightarrow> finite_floats v"
  by (induction v) (auto simp: list_all_iff)

section \<open>The encoder is injective\<close>

subsection \<open>Numbers\<close>

definition digits_val :: "string \<Rightarrow> nat" where
  "digits_val s = foldl (\<lambda>a c. 10 * a + (of_char c - 48)) 0 s"

lemma digit_char_of: "(d :: nat) < 10 \<Longrightarrow> digit_char (char_of (48 + d))"
  by (simp add: digit_char_def)

lemma nat_str_digits: "nat_str n \<noteq> [] \<and> list_all digit_char (nat_str n)"
proof (induction n rule: nat_str.induct)
  case (1 n)
  show ?case
  proof (cases "n < 10")
    case True
    then have "nat_str n = [char_of (48 + n)]" by (subst nat_str.simps) simp
    then show ?thesis using True by (simp add: digit_char_of)
  next
    case False
    then have "nat_str n = nat_str (n div 10) @ [char_of (48 + n mod 10)]" by (subst nat_str.simps) simp
    then show ?thesis using False 1 by (simp add: digit_char_of)
  qed
qed

lemma digits_val_snoc: "digits_val (s @ [c]) = 10 * digits_val s + (of_char c - 48)"
  by (simp add: digits_val_def)

lemma digits_val_nat_str [simp]: "digits_val (nat_str n) = n"
proof (induction n rule: nat_str.induct)
  case (1 n)
  show ?case
  proof (cases "n < 10")
    case True
    then show ?thesis
      by (subst nat_str.simps) (simp add: digits_val_def)
  next
    case False
    with "1.IH" have "digits_val (nat_str (n div 10)) = n div 10" by simp
    moreover have "nat_str n = nat_str (n div 10) @ [char_of (48 + n mod 10)]"
      using False by (subst nat_str.simps) simp
    ultimately show ?thesis by (simp add: digits_val_snoc)
  qed
qed

text \<open>What may follow a value: the end of the text or one of the separators.\<close>

definition json_end :: "string \<Rightarrow> bool" where
  "json_end r = (case r of [] \<Rightarrow> True | c # _ \<Rightarrow> c \<in> set '',]}:'')"

lemma json_end_not_digit: "json_end (c # r) \<Longrightarrow> \<not> digit_char c"
  by (auto simp: json_end_def digit_char_def)

lemma digits_split:
  "list_all digit_char s \<Longrightarrow> json_end r \<Longrightarrow> takeWhile digit_char (s @ r) = s \<and> dropWhile digit_char (s @ r) = r"
proof (induction s)
  case Nil
  then show ?case by (cases r) (auto dest: json_end_not_digit)
qed simp

lemma nat_str_prefix:
  assumes eq: "nat_str m @ r = nat_str n @ r'" and ends: "json_end r" "json_end r'"
  shows "m = n \<and> r = r'"
proof -
  have "nat_str m = nat_str n \<and> r = r'"
    using digits_split [of "nat_str m" r] digits_split [of "nat_str n" r'] nat_str_digits ends eq
    by metis
  then show ?thesis
    by (metis digits_val_nat_str)
qed

lemma nat_str_hd: "digit_char (hd (nat_str n @ r))"
  using nat_str_digits [of n] by (cases "nat_str n") auto

lemma int_str_prefix:
  assumes eq: "int_str i @ r = int_str j @ r'" and ends: "json_end r" "json_end r'"
  shows "i = j \<and> r = r'"
proof -
  have minus: "\<not> digit_char (CHR ''-'')" by (simp add: digit_char_def)
  have nn: "nat_str k @ s \<noteq> CHR ''-'' # s'" for k s s'
    using nat_str_hd [of k s] minus by auto
  show ?thesis
  proof (cases "i < 0"; cases "j < 0")
    assume "i < 0" "j < 0"
    with eq have "nat_str (nat (- i)) @ r = nat_str (nat (- j)) @ r'" by (simp add: int_str_def)
    from nat_str_prefix [OF this ends] \<open>i < 0\<close> \<open>j < 0\<close> show ?thesis by auto
  next
    assume "\<not> i < 0" "\<not> j < 0"
    with eq have "nat_str (nat i) @ r = nat_str (nat j) @ r'" by (simp add: int_str_def)
    from nat_str_prefix [OF this ends] \<open>\<not> i < 0\<close> \<open>\<not> j < 0\<close> show ?thesis by auto
  next
    assume "i < 0" "\<not> j < 0"
    with eq nn show ?thesis by (metis append_Cons int_str_def)
  next
    assume "\<not> i < 0" "j < 0"
    with eq nn show ?thesis by (metis append_Cons int_str_def)
  qed
qed

subsection \<open>Strings\<close>

lemma hex_digit_inj: "m < 16 \<Longrightarrow> n < 16 \<Longrightarrow> hex_digit m = hex_digit n \<Longrightarrow> m = n"
proof -
  assume "m < 16" "n < 16" "hex_digit m = hex_digit n"
  moreover have "distinct ''0123456789abcdef''" by simp
  ultimately show "m = n"
    unfolding hex_digit_def by (subst (asm) nth_eq_iff_index_eq) simp_all
qed

lemma of_char_nat_eq: "(of_char c :: nat) = of_char d \<Longrightarrow> c = d"
  by simp

lemma json_char_first: "json_char c = x # t \<Longrightarrow> x \<noteq> CHR 0x22"
  by (auto simp: json_char_def Let_def split: if_splits)

lemma json_char_nonempty: "json_char c \<noteq> []"
  by (auto simp: json_char_def Let_def)

text \<open>The escapes that are not \<open>\u00xy\<close>, by their second character.\<close>

definition json_simple :: "char \<Rightarrow> char option" where
  "json_simple e = (if e = CHR 0x22 then Some (CHR 0x22) else if e = CHR 0x5C then Some (CHR 0x5C)
     else if e = CHR ''b'' then Some (CHR 0x08) else if e = CHR ''t'' then Some (CHR 0x09)
     else if e = CHR ''n'' then Some (CHR 0x0A) else if e = CHR ''f'' then Some (CHR 0x0C)
     else if e = CHR ''r'' then Some (CHR 0x0D) else None)"

lemma json_char_cases:
  obtains (plain) "json_char c = [c]" "c \<noteq> CHR 0x5C"
  | (simple) e where "json_char c = [CHR 0x5C, e]" "json_simple e = Some c" "e \<noteq> CHR ''u''"
  | (hex) "json_char c = [CHR 0x5C, CHR ''u'', CHR ''0'', CHR ''0'',
        hex_digit (of_char c div 16), hex_digit (of_char c mod 16)]"
proof -
  have code: "(of_char c :: nat) = k \<Longrightarrow> c = char_of k" for k
    by (metis char_of_char)
  define n where "n = (of_char c :: nat)"
  have c: "c = char_of n" by (simp add: n_def)
  consider "n \<in> {34, 92, 8, 9, 10, 12, 13}"
    | "n < 32 \<or> 127 \<le> n" "n \<notin> {34, 92, 8, 9, 10, 12, 13}" | "32 \<le> n" "n < 127" "n \<noteq> 34" "n \<noteq> 92"
    by fastforce
  then show thesis
  proof cases
    case 1
    have lit: "char_of (34 :: nat) = CHR 0x22" "char_of (92 :: nat) = CHR 0x5C"
        "char_of (8 :: nat) = CHR 0x08" "char_of (9 :: nat) = CHR 0x09" "char_of (10 :: nat) = CHR 0x0A"
        "char_of (12 :: nat) = CHR 0x0C" "char_of (13 :: nat) = CHR 0x0D"
      by (simp_all add: char_of_def bit_0)
    from 1 have "c \<in> {CHR 0x22, CHR 0x5C, CHR 0x08, CHR 0x09, CHR 0x0A, CHR 0x0C, CHR 0x0D}"
      unfolding c by (auto simp only: lit insert_iff empty_iff)
    then show thesis
      using simple [of "CHR 0x22"] simple [of "CHR 0x5C"] simple [of "CHR ''b''"] simple [of "CHR ''t''"] simple [of "CHR ''n''"] simple [of "CHR ''f''"] simple [of "CHR ''r''"]
      by (elim insertE) (simp_all add: json_char_def json_simple_def)
  next
    case 2
    then have "json_char c = [CHR 0x5C, CHR ''u'', CHR ''0'', CHR ''0'',
        hex_digit (of_char c div 16), hex_digit (of_char c mod 16)]"
      by (simp add: json_char_def Let_def n_def [symmetric])
    then show thesis by (rule hex)
  next
    case 3
    then have "json_char c = [c]" by (simp add: json_char_def Let_def n_def [symmetric])
    moreover have "c \<noteq> CHR 0x5C" using 3(4) by (auto simp: n_def)
    ultimately show thesis by (rule plain)
  qed
qed

lemma json_char_prefix:
  assumes "json_char c @ r = json_char d @ r'"
  shows "c = d \<and> r = r'"
proof (cases c rule: json_char_cases)
  case plain
  then show ?thesis
    using assms by (cases d rule: json_char_cases) auto
next
  case (simple e)
  then show ?thesis
    using assms by (cases d rule: json_char_cases) auto
next
  case hex
  note c = hex
  show ?thesis
  proof (cases d rule: json_char_cases)
    case hex
    have lt: "(of_char x :: nat) div 16 < 16" "(of_char x :: nat) mod 16 < 16" for x :: char
      by (simp_all add: less_mult_imp_div_less)
    have "(of_char c :: nat) div 16 = of_char d div 16" "(of_char c :: nat) mod 16 = of_char d mod 16"
      using assms c hex lt by (auto intro: hex_digit_inj)
    then have "(of_char c :: nat) = of_char d"
      by (metis div_mult_mod_eq)
    then show ?thesis
      using assms c hex by simp
  qed (use assms c in auto)
qed

lemma json_char_not_quote: "json_char c @ r \<noteq> CHR 0x22 # r'"
  using json_char_first [of c] json_char_nonempty [of c] by (cases "json_char c") auto

lemma json_body_prefix:
  "concat (map json_char s) @ CHR 0x22 # r = concat (map json_char s') @ CHR 0x22 # r' \<Longrightarrow> s = s' \<and> r = r'"
proof (induction s arbitrary: s')
  case Nil
  then show ?case
  proof (cases s')
    case (Cons d t)
    with Nil have "json_char d @ (concat (map json_char t) @ CHR 0x22 # r') = CHR 0x22 # r" by simp
    then show ?thesis by (simp add: json_char_not_quote)
  qed simp
next
  case (Cons c s)
  show ?case
  proof (cases s')
    case Nil
    with Cons.prems have "json_char c @ (concat (map json_char s) @ CHR 0x22 # r) = CHR 0x22 # r'" by simp
    then show ?thesis by (simp add: json_char_not_quote)
  next
    case (Cons d t)
    with Cons.prems have "json_char c @ (concat (map json_char s) @ CHR 0x22 # r) =
        json_char d @ (concat (map json_char t) @ CHR 0x22 # r')" by simp
    from json_char_prefix [OF this] Cons.IH Cons show ?thesis by auto
  qed
qed

lemma json_string_prefix:
  assumes "json_string s @ r = json_string s' @ r'"
  shows "s = s' \<and> r = r'"
proof (rule json_body_prefix)
  show "concat (map json_char s) @ CHR 0x22 # r = concat (map json_char s') @ CHR 0x22 # r'"
    using assms by (simp add: json_string_def)
qed

subsection \<open>Values\<close>

lemma int_str_head: "int_str i @ r = c # r' \<Longrightarrow> c = CHR ''-'' \<or> digit_char c"
  using nat_str_hd [of "nat i" r] by (auto simp: int_str_def split: if_splits)

lemma json_end_simps [simp]:
  "json_end []" "json_end (CHR '','' # r)" "json_end (CHR '']'' # r)" "json_end (CHR ''}'' # r)"
  by (simp_all add: json_end_def)

lemma not_digits [simp]:
  "\<not> digit_char CHR ''n''" "\<not> digit_char CHR ''t''" "\<not> digit_char CHR ''f''" "\<not> digit_char CHR ''[''"
  "\<not> digit_char CHR ''{''" "\<not> digit_char CHR 0x22" "\<not> digit_char CHR '']''" "\<not> digit_char CHR ''}''"
  by (simp_all add: digit_char_def)

text \<open>Floats: the longest prefix of number characters.\<close>

lemma json_end_not_number: "json_end (c # r) \<Longrightarrow> \<not> number_char c"
  by (auto simp: json_end_def digit_char_def number_char_def)

lemma number_split:
  "list_all number_char s \<Longrightarrow> json_end r \<Longrightarrow> takeWhile number_char (s @ r) = s \<and> dropWhile number_char (s @ r) = r"
proof (induction s)
  case Nil
  then show ?case by (cases r) (auto dest: json_end_not_number)
qed simp

lemma number_prefix:
  "s @ r = s' @ r' \<Longrightarrow> list_all number_char s \<Longrightarrow> list_all number_char s' \<Longrightarrow> json_end r \<Longrightarrow> json_end r' \<Longrightarrow> s = s' \<and> r = r'"
  using number_split [of s r] number_split [of s' r'] by metis

lemma float_prefix:
  "s @ r = s' @ r' \<Longrightarrow> float_text s \<Longrightarrow> float_text s' \<Longrightarrow> json_end r \<Longrightarrow> json_end r' \<Longrightarrow> s = s' \<and> r = r'"
  using number_prefix [of s r s' r'] by (simp add: float_text_def)

lemma int_str_chars: "list_all (\<lambda>c. digit_char c \<or> c = CHR ''-'') (int_str i)"
  using nat_str_digits [of "nat i"] nat_str_digits [of "nat (- i)"] by (auto simp: int_str_def list_all_iff)

lemma int_float_prefix:
  assumes "int_str i @ r = s @ r'" and "float_text s" and "json_end r" "json_end r'"
  shows False
proof -
  have "list_all number_char (int_str i)" using int_str_chars [of i] by (auto simp: list_all_iff number_char_def)
  then have "int_str i = s" using number_prefix [OF assms(1)] assms(2-4) by (simp add: float_text_def)
  moreover have "CHR ''.'' \<notin> set (int_str i)" "CHR ''e'' \<notin> set (int_str i)"
    using int_str_chars [of i] by (auto simp: list_all_iff digit_char_def)
  ultimately show False using assms(2) by (simp add: float_text_def)
qed

lemma float_head: "s @ r = c # r' \<Longrightarrow> float_text s \<Longrightarrow> c = CHR ''-'' \<or> digit_char c"
  by (cases s) (auto simp: float_text_def)

text \<open>A value never starts with a closing bracket.\<close>

lemma json_raw_not_close:
  "finite_floats v \<Longrightarrow> c = CHR '']'' \<or> c = CHR ''}'' \<Longrightarrow> json_raw v @ r \<noteq> c # r'"
  by (cases v) (auto simp: json_string_def dest: int_str_head float_head)

lemma join_prefix:
  assumes "\<And>x y r r'. x \<in> set xs \<Longrightarrow> y \<in> set ys \<Longrightarrow> enc x @ r = enc y @ r' \<Longrightarrow> json_end r \<Longrightarrow>
      json_end r' \<Longrightarrow> x = y \<and> r = r'"
    and "\<And>x r r'. x \<in> set xs \<union> set ys \<Longrightarrow> enc x @ r \<noteq> c # r'"
    and "c = CHR '']'' \<or> c = CHR ''}''"
    and "join '','' (map enc xs) @ c # r = join '','' (map enc ys) @ c # r'"
  shows "xs = ys \<and> r = r'"
  using assms
proof (induction xs arbitrary: ys)
  case Nil
  then show ?case
  proof (cases ys)
    case (Cons y zs)
    then have "\<exists>s. join '','' (map enc ys) @ c # r' = enc y @ s"
      by (cases zs) auto
    with Nil Cons show ?thesis
      by (metis Un_iff append_Nil join.simps(1) list.set_intros(1) list.simps(8))
  qed simp
next
  case (Cons x xs)
  show ?case
  proof (cases ys)
    case Nil
    have "\<exists>s. join '','' (map enc (x # xs)) @ c # r = enc x @ s"
      by (cases xs) auto
    with Cons.prems Nil show ?thesis
      by (metis Un_iff append_Nil join.simps(1) list.set_intros(1) list.simps(8))
  next
    case ys: (Cons y zs)
    define rest where "rest ws s = (case ws of [] \<Rightarrow> c # s | w # vs \<Rightarrow> CHR '','' # join '','' (map enc ws) @ c # s)"
      for ws s
    have unf: "join '','' (map enc (w # ws)) @ c # s = enc w @ rest ws s" for w ws s
      by (cases ws) (simp_all add: rest_def)
    have ends: "json_end (rest ws s)" for ws s
      using Cons.prems(3) by (cases ws) (auto simp: rest_def)
    have eq: "enc x @ rest xs r = enc y @ rest zs r'"
      using Cons.prems(4) unfolding ys unf .
    have head: "x = y \<and> rest xs r = rest zs r'"
      by (rule Cons.prems(1)) (use ys eq ends in auto)
    have c: "c \<noteq> CHR '',''" using Cons.prems(3) by auto
    show ?thesis
    proof (cases "xs = [] \<or> zs = []")
      case True
      with head ys c show ?thesis by (auto simp: rest_def split: list.splits)
    next
      case False
      then have "join '','' (map enc xs) @ c # r = join '','' (map enc zs) @ c # r'"
        using head by (auto simp: rest_def split: list.splits)
      then have "xs = zs \<and> r = r'"
        using Cons.prems ys by (intro Cons.IH) auto
      with head ys show ?thesis by simp
    qed
  qed
qed

lemma int_str_not:
  "int_str i @ r \<noteq> CHR ''n'' # t" "int_str i @ r \<noteq> CHR ''t'' # t" "int_str i @ r \<noteq> CHR ''f'' # t"
  "int_str i @ r \<noteq> CHR ''['' # t" "int_str i @ r \<noteq> CHR ''{'' # t" "int_str i @ r \<noteq> CHR 0x22 # t"
  by (auto dest: int_str_head)

lemma float_not:
  assumes "float_text s"
  shows "s @ r \<noteq> CHR ''n'' # t" "s @ r \<noteq> CHR ''t'' # t" "s @ r \<noteq> CHR ''f'' # t"
    "s @ r \<noteq> CHR ''['' # t" "s @ r \<noteq> CHR ''{'' # t" "s @ r \<noteq> CHR 0x22 # t"
  using assms by (auto dest: float_head)

lemmas json_heads = int_str_not int_str_not [symmetric] float_not float_not [symmetric]

lemma json_raw_prefix:
  "\<lbrakk>finite_floats v; finite_floats w; json_raw v @ r = json_raw w @ r'; json_end r; json_end r'\<rbrakk>
     \<Longrightarrow> v = w \<and> r = r'"
proof (induction v arbitrary: w r r')
  case PNone
  then show ?case by (cases w) (auto simp: json_string_def json_heads split: if_splits)
next
  case (PBool b)
  then show ?case by (cases w) (auto simp: json_string_def json_heads split: if_splits)
next
  case (PInt i)
  then show ?case
    by (cases w) (auto simp: json_string_def json_heads split: if_splits dest: int_str_prefix int_float_prefix)
next
  case (PFloat s)
  then show ?case
    by (cases w) (auto simp: json_string_def json_heads split: if_splits dest: float_prefix int_float_prefix [OF sym])
next
  case (PStr s)
  note prems = PStr.prems
  show ?case
  proof (cases w)
    case (PStr t)
    with prems have "json_string s @ r = json_string t @ r'" by simp
    from json_string_prefix [OF this] PStr show ?thesis by simp
  qed (use prems in \<open>auto simp: json_string_def json_heads split: if_splits\<close>)
next
  case (PList xs)
  show ?case
  proof (cases w)
    case (PList ys)
    have ff: "list_all finite_floats xs" "list_all finite_floats ys"
      using PList.prems PList by auto
    have "xs = ys \<and> r = r'"
    proof (rule join_prefix [where enc = json_raw and c = "CHR '']''"])
      show "join '','' (map json_raw xs) @ CHR '']'' # r = join '','' (map json_raw ys) @ CHR '']'' # r'"
        using PList.prems PList by simp
    next
      fix x y s s'
      assume "x \<in> set xs" "y \<in> set ys" "json_raw x @ s = json_raw y @ s'" "json_end s" "json_end s'"
      with ff show "x = y \<and> s = s'"
        by (intro PList.IH) (simp_all add: list_all_iff)
    next
      fix x s s'
      assume "x \<in> set xs \<union> set ys"
      with ff show "json_raw x @ s \<noteq> CHR '']'' # s'"
        by (intro json_raw_not_close) (auto simp: list_all_iff)
    qed simp
    then show ?thesis using PList by simp
  qed (use PList.prems in \<open>auto simp: json_string_def json_heads split: if_splits\<close>)
next
  case (PDict d)
  show ?case
  proof (cases w)
    case (PDict e)
    have ff: "list_all (\<lambda>kv. finite_floats (snd kv)) d" "list_all (\<lambda>kv. finite_floats (snd kv)) e"
      using PDict.prems PDict by auto
    let ?enc = "\<lambda>kv. json_string (fst kv) @ '':'' @ json_raw (snd kv)"
    have "d = e \<and> r = r'"
    proof (rule join_prefix [where enc = ?enc and c = "CHR ''}''"])
      fix x y s s'
      assume in_d: "x \<in> set d" "y \<in> set e" and eq: "?enc x @ s = ?enc y @ s'"
        and ends: "json_end s" "json_end s'"
      from eq have "fst x = fst y \<and> '':'' @ json_raw (snd x) @ s = '':'' @ json_raw (snd y) @ s'"
        by (intro json_string_prefix) simp
      then have keys: "fst x = fst y" and vals: "json_raw (snd x) @ s = json_raw (snd y) @ s'"
        by auto
      have "snd x = snd y \<and> s = s'"
        by (rule PDict.IH [OF in_d(1) _ _ _ vals ends])
          (use in_d ff in \<open>auto simp: list_all_iff snds.simps\<close>)
      then show "x = y \<and> s = s'" using keys by (simp add: prod_eq_iff)
    next
      show "join '','' (map ?enc d) @ CHR ''}'' # r = join '','' (map ?enc e) @ CHR ''}'' # r'"
        using PDict.prems PDict by simp
    qed (auto simp: json_string_def)
    then show ?thesis using PDict by simp
  qed (use PDict.prems in \<open>auto simp: json_string_def json_heads split: if_splits\<close>)
qed

lemma finite_floats_sort_keys [simp]: "finite_floats (sort_keys v) = finite_floats v"
  by (induction v) (auto simp: list_all_iff)

lemma json_dumps_inj:
  assumes "finite_floats v" and "finite_floats w"
  shows "json_dumps v = json_dumps w \<longleftrightarrow> sort_keys v = sort_keys w"
  using json_raw_prefix [of "sort_keys v" "sort_keys w" "[]" "[]"] assms
  by (auto simp: json_dumps_def)

end
