(* ===== verification/Run_Policy.thy ===== *)
theory Run_Policy
  imports Json
begin

text \<open>
  The pure policy vocabulary of \<open>lib/run_state/run_policy.py\<close>: tiers and action limits, the
  canonical form and the validators of acceptance drafts and role receipts, the lifecycle
  guard and the classification of findings. The hash \<open>hashlib.sha256(...).hexdigest()\<close> is the
  parameter \<open>H\<close>.
\<close>

section \<open>Tiers, ceremony and action limits\<close>

definition refuse :: "string \<Rightarrow> 'a res" where
  "refuse code = Inl (RunPolicyRefused code)"

lemma refuse_simps [simp]: "refuse c \<noteq> Inr x" "Inr x \<noteq> refuse c" "isl (refuse c)"
  "refuse c = Inl e \<longleftrightarrow> e = RunPolicyRefused c"
  by (auto simp: refuse_def)

definition hour_ns :: int where
  "hour_ns = 1 * 60 * 60 * 1000000000"

definition TIER_LIMITS :: "(string \<times> (int \<times> int)) list" where
  "TIER_LIMITS =
     [(''small'', (12, 1 * hour_ns)), (''medium'', (48, 4 * hour_ns)), (''large'', (192, 12 * hour_ns))]"

definition ACTION_LIMITS :: "(string \<times> (int \<times> int \<times> int)) list" where
  "ACTION_LIMITS =
     [(''spec_review'', (1, 2, 3)), (''repair'', (2, 4, 6)), (''final_review'', (1, 1, 1)),
      (''recovery_cycle_normal'', (1, 1, 1)), (''recovery_cycle_autonomous'', (2, 2, 2))]"

definition RECOVERY_TRIALS_PER_CYCLE :: int where
  "RECOVERY_TRIALS_PER_CYCLE = 3"

definition NON_MUTATING_ACTIONS :: "string list" where
  "NON_MUTATING_ACTIONS = [''check'', ''spec_review'', ''final_review'', ''diagnosis'',
     ''qualification'', ''recovery_cycle_normal'', ''recovery_cycle_autonomous'']"

definition MUTATING_ACTIONS :: "string list" where
  "MUTATING_ACTIONS = [''execute'', ''repair'', ''recovery_trial'']"

record policy_tier_t =
  pt_name :: string
  pt_launch_limit :: int
  pt_active_limit_ns :: int

definition classify_ceremony :: "pyval \<Rightarrow> string res" where
  "classify_ceremony est =
     (if est = PNone then Inr ''medium''
      else case est of
        PDict d \<Rightarrow>
          (if \<not> dict_has_keys d [''files'', ''loc'', ''protected''] then refuse ''POLICY_ESTIMATE_INVALID''
           else (case (dict_get d ''files'', dict_get d ''loc'', dict_get d ''protected'') of
               (PInt files, PInt loc, PBool prot) \<Rightarrow>
                 (if files < 0 \<or> loc < 0 then refuse ''POLICY_ESTIMATE_INVALID''
                  else if prot \<or> files > 20 \<or> loc > 1500 then Inr ''large''
                  else if files < 5 \<and> loc < 200 then Inr ''small''
                  else Inr ''medium'')
             | _ \<Rightarrow> refuse ''POLICY_ESTIMATE_INVALID''))
      | _ \<Rightarrow> refuse ''POLICY_ESTIMATE_INVALID'')"

definition policy_tier :: "pyval \<Rightarrow> policy_tier_t res" where
  "policy_tier v =
     (case v of
        PStr name \<Rightarrow>
          (case map_of TIER_LIMITS name of
             None \<Rightarrow> refuse ''POLICY_TIER_INVALID''
           | Some (launches, active) \<Rightarrow>
               Inr \<lparr>pt_name = name, pt_launch_limit = launches, pt_active_limit_ns = active\<rparr>)
      | _ \<Rightarrow> refuse ''POLICY_TIER_INVALID'')"

text \<open>\<open>limits[("small", "medium", "large").index(name)]\<close>.\<close>

definition tier_column :: "string \<Rightarrow> int \<times> int \<times> int \<Rightarrow> int" where
  "tier_column name l = (case l of (s, m, g) \<Rightarrow>
     if name = ''small'' then s else if name = ''medium'' then m else g)"

definition action_limit :: "pyval \<Rightarrow> pyval \<Rightarrow> int option res" where
  "action_limit action tier = bindR (policy_tier tier) (\<lambda>t.
     case action of
       PStr a \<Rightarrow>
         (if a = [] then refuse ''POLICY_ACTION_INVALID''
          else if a \<in> set [''execute'', ''check'', ''diagnosis'', ''qualification''] then Inr None
          else if a = ''recovery_trial'' then Inr (Some RECOVERY_TRIALS_PER_CYCLE)
          else (case map_of ACTION_LIMITS a of
              None \<Rightarrow> refuse ''POLICY_ACTION_INVALID''
            | Some limits \<Rightarrow> Inr (Some (tier_column (pt_name t) limits))))
     | _ \<Rightarrow> refuse ''POLICY_ACTION_INVALID'')"

definition action_can_mutate :: "pyval \<Rightarrow> bool res" where
  "action_can_mutate action =
     (case action of
        PStr a \<Rightarrow>
          (if a \<notin> set (NON_MUTATING_ACTIONS @ MUTATING_ACTIONS) then refuse ''POLICY_ACTION_INVALID''
           else Inr (a \<notin> set NON_MUTATING_ACTIONS))
      | _ \<Rightarrow> refuse ''POLICY_ACTION_INVALID'')"

text \<open>Membership in a \<open>set\<close> hashes the value: a list or a dictionary raises \<open>TypeError\<close>.\<close>

definition hashable :: "pyval \<Rightarrow> bool" where
  "hashable v = (case v of PList _ \<Rightarrow> False | PDict _ \<Rightarrow> False | _ \<Rightarrow> True)"

definition recovery_mode :: "pyval \<Rightarrow> string res" where
  "recovery_mode v =
     (if \<not> hashable v then Inl (TypeError ''unhashable'')
      else case v of
        PStr m \<Rightarrow> (if m = ''normal'' \<or> m = ''autonomous'' then Inr m else refuse ''POLICY_RECOVERY_MODE_INVALID'')
      | _ \<Rightarrow> refuse ''POLICY_RECOVERY_MODE_INVALID'')"

section \<open>Field validators\<close>

text \<open>\<open>json.dumps(..., allow_nan=False)\<close> raises \<open>ValueError\<close> on these.\<close>

fun json_encodable :: "pyval \<Rightarrow> bool" where
  "json_encodable (PFloat s) = (s \<noteq> ''nan'' \<and> s \<noteq> ''inf'' \<and> s \<noteq> ''-inf'')"
| "json_encodable (PList xs) = list_all json_encodable xs"
| "json_encodable (PDict d) = list_all (\<lambda>kv. json_encodable (snd kv)) d"
| "json_encodable v = True"

definition canonical :: "(string \<Rightarrow> string) \<Rightarrow> string \<Rightarrow> pyval \<Rightarrow> (pydict \<times> string \<times> string) res" where
  "canonical H code v =
     (case v of
        PDict d \<Rightarrow>
          (if d = [] \<or> \<not> json_encodable v then refuse code
           else Inr (d, json_dumps v, H (json_dumps v)))
      | _ \<Rightarrow> refuse code)"

definition is_identifier :: "pyval \<Rightarrow> bool" where
  "is_identifier v = (case v of
      PStr s \<Rightarrow> s \<noteq> [] \<and> s = py_strip s \<and> utf8_length s \<le> 256 \<and> py_isprintable s
    | _ \<Rightarrow> False)"

definition identifier_of :: "string \<Rightarrow> pyval \<Rightarrow> string res" where
  "identifier_of code v = (if is_identifier v then Inr (str_of v) else refuse code)"

definition HEX_DIGEST_LENGTH :: nat where
  "HEX_DIGEST_LENGTH = 64"

definition is_digest :: "pyval \<Rightarrow> bool" where
  "is_digest v = (case v of
      PStr s \<Rightarrow> length s = HEX_DIGEST_LENGTH \<and> s = py_lower s \<and> list_all hex_char s
    | _ \<Rightarrow> False)"

definition digest :: "string \<Rightarrow> pyval \<Rightarrow> string res" where
  "digest code v = (if is_digest v then Inr (str_of v) else refuse code)"

definition identifier_list :: "string \<Rightarrow> bool \<Rightarrow> pyval \<Rightarrow> string list res" where
  "identifier_list code allow_empty v =
     (case v of
        PList xs \<Rightarrow> bindR (mapR (identifier_of code) xs) (\<lambda>vs.
          if (\<not> allow_empty \<and> vs = []) \<or> \<not> distinct vs then refuse code else Inr (sort vs))
      | _ \<Rightarrow> refuse code)"

text \<open>\<open>type(v) is int and v >= 1\<close> (a \<open>bool\<close> is refused).\<close>

definition is_positive_int :: "pyval \<Rightarrow> bool" where
  "is_positive_int v = (case v of PInt i \<Rightarrow> 1 \<le> i | _ \<Rightarrow> False)"

text \<open>\<open>str(PurePosixPath(s))\<close> of a path that starts with a slash.\<close>

fun split_slash :: "string \<Rightarrow> string \<Rightarrow> string list" where
  "split_slash acc [] = [rev acc]"
| "split_slash acc (c # s) = (if c = CHR ''/'' then rev acc # split_slash [] s else split_slash (c # acc) s)"

definition posix_norm :: "string \<Rightarrow> string" where
  "posix_norm s =
     (let root = (if py_startswith s ''//'' \<and> \<not> py_startswith s ''///'' then ''//'' else ''/'');
          parts = filter (\<lambda>p. p \<noteq> [] \<and> p \<noteq> ''.'') (split_slash [] s)
      in root @ join ''/'' parts)"

definition runtime_read_root :: "pyval \<Rightarrow> bool" where
  "runtime_read_root v = (case v of
      PStr s \<Rightarrow> py_startswith s ''/'' \<and> py_isprintable s \<and> posix_norm s = s \<and> utf8_length s \<le> 4096
    | _ \<Rightarrow> False)"

definition runtime_read_roots :: "string \<Rightarrow> pyval \<Rightarrow> unit res" where
  "runtime_read_roots code v =
     (case v of
        PList xs \<Rightarrow> (if xs = [] \<or> \<not> list_all runtime_read_root xs \<or> \<not> distinct xs then refuse code else Inr ())
      | _ \<Rightarrow> refuse code)"

section \<open>Acceptance drafts\<close>

text \<open>The keys a rule may have; \<open>runtime_read_roots\<close> only on a command check.\<close>

definition declared_roots :: "string \<Rightarrow> pyval \<Rightarrow> bool" where
  "declared_roots required_key item = (case item of
      PDict d \<Rightarrow> required_key = ''locator'' \<and> dict_get d ''kind'' = PStr ''command''
        \<and> ''runtime_read_roots'' \<in> dict_keys d
    | _ \<Rightarrow> False)"

definition rule_keys :: "string \<Rightarrow> pyval \<Rightarrow> string list" where
  "rule_keys required_key item =
     [''id'', ''kind'', required_key] @ (if declared_roots required_key item then [''runtime_read_roots''] else [])"

text \<open>One iteration of \<open>_validate_rule_list\<close>: the item's identifier and its dictionary.\<close>

definition rule_item :: "string \<Rightarrow> string \<Rightarrow> string list \<Rightarrow> pyval \<Rightarrow> (string \<times> pydict) res" where
  "rule_item code required_key seen item =
     (case item of
        PDict d \<Rightarrow>
          (if \<not> dict_has_keys d (rule_keys required_key item) then refuse code
           else bindR (if declared_roots required_key item
                       then runtime_read_roots code (dict_get d ''runtime_read_roots'') else Inr ()) (\<lambda>_.
             bindR (identifier_of code (dict_get d ''id'')) (\<lambda>i.
             if i \<in> set seen then refuse code
             else bindR (identifier_of code (dict_get d ''kind'')) (\<lambda>_.
             if required_key = ''locator''
             then bindR (identifier_of code (dict_get d required_key)) (\<lambda>_. Inr (i, d))
             else (case dict_get d required_key of PBool _ \<Rightarrow> Inr (i, d) | _ \<Rightarrow> refuse code)))))
      | _ \<Rightarrow> refuse code)"

fun rule_loop :: "string \<Rightarrow> string \<Rightarrow> string list \<Rightarrow> pyval list \<Rightarrow> (string \<times> pydict) list res" where
  "rule_loop code key seen [] = Inr []"
| "rule_loop code key seen (item # items) =
     bindR (rule_item code key seen item) (\<lambda>(i, d).
       bindR (rule_loop code key (i # seen) items) (\<lambda>rest. Inr ((i, d) # rest)))"

definition validate_rule_list :: "string \<Rightarrow> string \<Rightarrow> pyval \<Rightarrow> (string \<times> pydict) list res" where
  "validate_rule_list code required_key v =
     (case v of
        PList xs \<Rightarrow>
          (if xs = [] then refuse code
           else bindR (rule_loop code required_key [] xs) (\<lambda>rules. Inr (sort_key fst rules)))
      | _ \<Rightarrow> refuse code)"

definition POLICY_DRAFT_SCHEMA :: string where
  "POLICY_DRAFT_SCHEMA = ''ffs.run-policy-draft/v2''"

definition POLICY_RECEIPT_SCHEMA :: string where
  "POLICY_RECEIPT_SCHEMA = ''ffs.run-policy-receipt/v1''"

definition RECEIPT_PROCESS_RESULT_ID :: string where
  "RECEIPT_PROCESS_RESULT_ID = ''review-process-result''"

record acceptance_draft =
  ad_material :: pydict
  ad_material_json :: string
  ad_material_hash :: string

definition draft_refuse :: "'a res" where
  "draft_refuse = refuse ''POLICY_DRAFT_INVALID''"

lemma draft_refuse_Inr [simp]: "draft_refuse \<noteq> Inr x"
  by (simp add: draft_refuse_def)

text \<open>The identifiers the loop over the criteria has met so far.\<close>

record draft_ids =
  di_criteria :: "string list"
  di_checks :: "string list"
  di_evidence :: "string list"

definition draft_criterion :: "bool \<Rightarrow> draft_ids \<Rightarrow> pyval \<Rightarrow> ((string \<times> pydict) \<times> draft_ids) res" where
  "draft_criterion new_draft seen item =
     (case item of
        PDict d \<Rightarrow>
          (if \<not> dict_has_keys d [''id'', ''objective_clause'', ''checks'', ''evidence_rules''] then draft_refuse
           else bindR (identifier_of ''POLICY_DRAFT_INVALID'' (dict_get d ''id'')) (\<lambda>cid.
             bindR (identifier_of ''POLICY_DRAFT_INVALID'' (dict_get d ''objective_clause'')) (\<lambda>_.
             if cid \<in> set (di_criteria seen) then draft_refuse
             else bindR (validate_rule_list ''POLICY_DRAFT_INVALID'' ''locator'' (dict_get d ''checks'')) (\<lambda>checks.
             bindR (validate_rule_list ''POLICY_DRAFT_INVALID'' ''required'' (dict_get d ''evidence_rules'')) (\<lambda>rules.
             let own_checks = map fst checks; own_rules = map fst rules in
             if list_ex (\<lambda>i. i \<in> set (di_checks seen)) own_checks
                \<or> list_ex (\<lambda>i. i \<in> set (di_evidence seen)) own_rules then draft_refuse
             else if new_draft \<and> (RECEIPT_PROCESS_RESULT_ID \<in> set (own_checks @ own_rules)
                \<or> list_ex (\<lambda>i. i \<in> set (di_evidence seen)) own_checks
                \<or> list_ex (\<lambda>i. i \<in> set (di_checks seen)) own_rules) then draft_refuse
             else Inr ((cid, [(''id'', PStr cid), (''objective_clause'', dict_get d ''objective_clause''),
                              (''checks'', PList (map (\<lambda>r. PDict (snd r)) checks)),
                              (''evidence_rules'', PList (map (\<lambda>r. PDict (snd r)) rules))]),
                       \<lparr>di_criteria = cid # di_criteria seen, di_checks = own_checks @ di_checks seen,
                        di_evidence = own_rules @ di_evidence seen\<rparr>))))))
      | _ \<Rightarrow> draft_refuse)"

fun draft_criteria :: "bool \<Rightarrow> draft_ids \<Rightarrow> pyval list \<Rightarrow> (string \<times> pydict) list res" where
  "draft_criteria new_draft seen [] = Inr []"
| "draft_criteria new_draft seen (item # items) =
     bindR (draft_criterion new_draft seen item) (\<lambda>(c, seen').
       bindR (draft_criteria new_draft seen' items) (\<lambda>cs. Inr (c # cs)))"

definition labeled_item :: "string list \<Rightarrow> pyval \<Rightarrow> (string \<times> pydict) res" where
  "labeled_item seen item =
     (case item of
        PDict d \<Rightarrow>
          (if \<not> dict_has_keys d [''id'', ''reason''] then draft_refuse
           else bindR (identifier_of ''POLICY_DRAFT_INVALID'' (dict_get d ''id'')) (\<lambda>i.
             bindR (identifier_of ''POLICY_DRAFT_INVALID'' (dict_get d ''reason'')) (\<lambda>_.
             if i \<in> set seen then draft_refuse else Inr (i, d))))
      | _ \<Rightarrow> draft_refuse)"

fun labeled_loop :: "string list \<Rightarrow> pyval list \<Rightarrow> (string \<times> pydict) list res" where
  "labeled_loop seen [] = Inr []"
| "labeled_loop seen (item # items) =
     bindR (labeled_item seen item) (\<lambda>(i, d).
       bindR (labeled_loop (i # seen) items) (\<lambda>rest. Inr ((i, d) # rest)))"

definition validate_labeled :: "pyval \<Rightarrow> pyval res" where
  "validate_labeled v =
     (case v of
        PList xs \<Rightarrow> bindR (labeled_loop [] xs) (\<lambda>items.
          Inr (PList (map (\<lambda>r. PDict (snd r)) (sort_key fst items))))
      | _ \<Rightarrow> draft_refuse)"

text \<open>\<open>{**d, k: v}\<close>: the value of a key is replaced in place, a new key goes last.\<close>

fun dict_set :: "pydict \<Rightarrow> string \<Rightarrow> pyval \<Rightarrow> pydict" where
  "dict_set [] k v = [(k, v)]"
| "dict_set ((k', v') # d) k v = (if k' = k then (k, v) # d else (k', v') # dict_set d k v)"

definition draft_fields :: "string list" where
  "draft_fields = [''schema'', ''objective_digest'', ''criteria'', ''exclusions'', ''global_invariants'',
     ''runtime'', ''candidate_hash'', ''generation'', ''command_mode'', ''follow_up_policy'']"

definition validate_draft_material :: "(string \<Rightarrow> string) \<Rightarrow> bool \<Rightarrow> pyval \<Rightarrow> acceptance_draft res" where
  "validate_draft_material H new_draft v =
     bindR (canonical H ''POLICY_DRAFT_INVALID'' v) (\<lambda>(m, _, _).
     bindR (if dict_get m ''schema'' = PStr POLICY_DRAFT_SCHEMA
            then bindR (identifier_list ''POLICY_DRAFT_INVALID'' False (dict_get m ''required_review_dimensions''))
                   (\<lambda>_. Inr (draft_fields @ [''required_review_dimensions'']))
            else if dict_get m ''schema'' \<noteq> PStr ''ffs.run-policy-draft/v1'' then draft_refuse
            else Inr draft_fields) (\<lambda>fields.
     if \<not> dict_has_keys m fields then draft_refuse
     else bindR (digest ''POLICY_DRAFT_INVALID'' (dict_get m ''objective_digest'')) (\<lambda>_.
     if \<not> is_positive_int (dict_get m ''generation'') then draft_refuse
     else bindR (identifier_of ''POLICY_DRAFT_INVALID'' (dict_get m ''command_mode'')) (\<lambda>_.
     if dict_get m ''follow_up_policy'' \<noteq> PStr ''record-and-continue'' then draft_refuse
     else (case dict_get m ''runtime'' of
       PDict rt \<Rightarrow>
         (if \<not> dict_has_keys rt [''requested_hash'', ''effective_hash''] then draft_refuse
          else bindR (digest ''POLICY_DRAFT_INVALID'' (dict_get rt ''requested_hash'')) (\<lambda>_.
          bindR (digest ''POLICY_DRAFT_INVALID'' (dict_get rt ''effective_hash'')) (\<lambda>_.
          bindR (digest ''POLICY_DRAFT_INVALID'' (dict_get m ''candidate_hash'')) (\<lambda>_.
          case dict_get m ''criteria'' of
            PList cs \<Rightarrow>
              (if cs = [] then draft_refuse
               else bindR (draft_criteria new_draft \<lparr>di_criteria = [], di_checks = [], di_evidence = []\<rparr> cs)
                 (\<lambda>criteria.
               bindR (validate_labeled (dict_get m ''exclusions'')) (\<lambda>exclusions.
               bindR (validate_labeled (dict_get m ''global_invariants'')) (\<lambda>invariants.
               bindR (canonical H ''POLICY_DRAFT_INVALID'' (PDict (
                        dict_set (dict_set (dict_set m ''criteria''
                          (PList (map (\<lambda>c. PDict (snd c)) (sort_key fst criteria))))
                          ''exclusions'' exclusions) ''global_invariants'' invariants))) (\<lambda>(c, enc, h).
               Inr \<lparr>ad_material = c, ad_material_json = enc, ad_material_hash = h\<rparr>)))))
          | _ \<Rightarrow> draft_refuse))))
     | _ \<Rightarrow> draft_refuse)))))"

definition build_draft_material ::
  "pyval \<Rightarrow> pyval \<Rightarrow> pyval \<Rightarrow> pyval \<Rightarrow> pyval \<Rightarrow> pyval \<Rightarrow> pyval \<Rightarrow> pyval \<Rightarrow> pyval \<Rightarrow> pyval \<Rightarrow> pyval list \<Rightarrow> pyval" where
  "build_draft_material objective_digest criteria exclusions global_invariants requested_runtime_hash
     effective_runtime_hash candidate_hash generation command_mode follow_up_policy dims =
     PDict [(''schema'', PStr POLICY_DRAFT_SCHEMA),
       (''objective_digest'', objective_digest),
       (''criteria'', criteria),
       (''exclusions'', exclusions),
       (''global_invariants'', global_invariants),
       (''runtime'', PDict [(''requested_hash'', requested_runtime_hash),
                            (''effective_hash'', effective_runtime_hash)]),
       (''candidate_hash'', candidate_hash),
       (''generation'', generation),
       (''command_mode'', command_mode),
       (''follow_up_policy'', follow_up_policy),
       (''required_review_dimensions'', PList dims)]"

definition ids_of :: "pyval \<Rightarrow> string list" where
  "ids_of v = map (\<lambda>r. str_of (dict_get (dict_of r) ''id'')) (list_of v)"

definition labelable_check_ids :: "pydict list \<Rightarrow> pydict \<Rightarrow> string list" where
  "labelable_check_ids criteria criterion =
     (let barred = RECEIPT_PROCESS_RESULT_ID #
            concat (map (\<lambda>other. if dict_get other ''id'' \<noteq> dict_get criterion ''id''
                                 then ids_of (dict_get other ''evidence_rules'') else []) criteria)
      in filter (\<lambda>i. i \<notin> set barred) (ids_of (dict_get criterion ''checks'')))"

section \<open>Role receipts\<close>

record role_receipt =
  rr_role :: string
  rr_request_key :: string
  rr_activity_id :: string
  rr_intent_id :: string
  rr_fence_generation :: int
  rr_acceptance_hash :: string
  rr_candidate_hash :: string
  rr_runtime_hash :: string
  rr_workspace_preparation_hash :: string
  rr_evidence :: "pyval list"
  rr_completion_status :: string
  rr_process_identity :: pydict
  rr_review_dimensions :: "string list"
  rr_receipt_json :: string
  rr_receipt_hash :: string

definition receipt_refuse :: "'a res" where
  "receipt_refuse = refuse ''POLICY_RECEIPT_INVALID''"

lemma receipt_refuse_Inr [simp]: "receipt_refuse \<noteq> Inr x"
  by (simp add: receipt_refuse_def)

definition receipt_evidence :: "pyval \<Rightarrow> pyval res" where
  "receipt_evidence item =
     (case item of
        PDict d \<Rightarrow>
          (if \<not> dict_has_keys d [''id'', ''sha256'', ''locator''] then receipt_refuse
           else bindR (identifier_of ''POLICY_RECEIPT_INVALID'' (dict_get d ''id'')) (\<lambda>_.
             bindR (digest ''POLICY_RECEIPT_INVALID'' (dict_get d ''sha256'')) (\<lambda>_.
             bindR (identifier_of ''POLICY_RECEIPT_INVALID'' (dict_get d ''locator'')) (\<lambda>_.
             Inr item))))
      | _ \<Rightarrow> receipt_refuse)"

definition receipt_process_identity :: "pyval \<Rightarrow> pydict res" where
  "receipt_process_identity v =
     (case v of
        PDict d \<Rightarrow>
          (if \<not> dict_has_keys d [''host_id'', ''boot_id'', ''pid'', ''start_token''] then receipt_refuse
           else bindR (mapR (\<lambda>k. identifier_of ''POLICY_RECEIPT_INVALID'' (dict_get d k))
                         [''host_id'', ''boot_id'', ''start_token'']) (\<lambda>_.
             if \<not> is_positive_int (dict_get d ''pid'') then receipt_refuse else Inr d))
      | _ \<Rightarrow> receipt_refuse)"

definition receipt_fields :: "string list" where
  "receipt_fields = [''schema'', ''role'', ''request_key'', ''activity_id'', ''intent_id'',
     ''fence_generation'', ''acceptance_hash'', ''candidate_hash'', ''runtime_hash'',
     ''workspace_preparation_hash'', ''evidence'', ''completion_status'', ''process_identity'',
     ''review_dimensions'']"

definition receipt_roles :: "string list" where
  "receipt_roles = [''execution'', ''review'', ''recovery'', ''qualification'']"

definition receipt_names :: "string list" where
  "receipt_names = [''request_key'', ''activity_id'', ''intent_id'']"

definition receipt_digests :: "string list" where
  "receipt_digests = [''acceptance_hash'', ''candidate_hash'', ''runtime_hash'', ''workspace_preparation_hash'']"

definition receipt_statuses :: "string list" where
  "receipt_statuses = [''succeeded'', ''failed'', ''timed_out'', ''crashed'', ''rejected'']"

definition validate_role_receipt :: "(string \<Rightarrow> string) \<Rightarrow> pyval list \<Rightarrow> pyval \<Rightarrow> role_receipt res" where
  "validate_role_receipt H required_review_dimensions v =
     bindR (canonical H ''POLICY_RECEIPT_INVALID'' v) (\<lambda>(r, enc, h).
     if \<not> dict_has_keys r receipt_fields \<or> dict_get r ''schema'' \<noteq> PStr POLICY_RECEIPT_SCHEMA then receipt_refuse
     else bindR (identifier_of ''POLICY_RECEIPT_INVALID'' (dict_get r ''role'')) (\<lambda>role.
     if role \<notin> set receipt_roles
     then refuse ''POLICY_RECEIPT_ROLE_INVALID''
     else bindR (mapR (\<lambda>k. identifier_of ''POLICY_RECEIPT_INVALID'' (dict_get r k)) receipt_names) (\<lambda>_.
     if \<not> is_positive_int (dict_get r ''fence_generation'') then receipt_refuse
     else bindR (mapR (\<lambda>k. digest ''POLICY_RECEIPT_INVALID'' (dict_get r k)) receipt_digests) (\<lambda>_.
     let status = dict_get r ''completion_status'' in
     if \<not> hashable status then Inl (TypeError ''unhashable'')
     else if status \<notin> set (map PStr receipt_statuses)
     then receipt_refuse
     else (case dict_get r ''evidence'' of
       PList es \<Rightarrow>
         bindR (mapR receipt_evidence es) (\<lambda>evidence.
         if \<not> distinct (map (\<lambda>e. dict_get (dict_of e) ''id'') evidence) then receipt_refuse
         else bindR (receipt_process_identity (dict_get r ''process_identity'')) (\<lambda>ident.
         bindR (identifier_list ''POLICY_RECEIPT_INVALID'' True (dict_get r ''review_dimensions'')) (\<lambda>dims.
         bindR (mapR (identifier_of ''POLICY_RECEIPT_INVALID'') required_review_dimensions) (\<lambda>required.
         if role = ''review'' \<and> status = PStr ''succeeded'' \<and> \<not> list_all (\<lambda>d. d \<in> set dims) required
         then refuse ''POLICY_REVIEW_DIMENSIONS_MISSING''
         else Inr \<lparr>rr_role = role, rr_request_key = str_of (dict_get r ''request_key''),
                   rr_activity_id = str_of (dict_get r ''activity_id''),
                   rr_intent_id = str_of (dict_get r ''intent_id''),
                   rr_fence_generation = int_of (dict_get r ''fence_generation''),
                   rr_acceptance_hash = str_of (dict_get r ''acceptance_hash''),
                   rr_candidate_hash = str_of (dict_get r ''candidate_hash''),
                   rr_runtime_hash = str_of (dict_get r ''runtime_hash''),
                   rr_workspace_preparation_hash = str_of (dict_get r ''workspace_preparation_hash''),
                   rr_evidence = evidence, rr_completion_status = str_of status,
                   rr_process_identity = ident, rr_review_dimensions = dims,
                   rr_receipt_json = enc, rr_receipt_hash = h\<rparr>))))
     | _ \<Rightarrow> receipt_refuse)))))"

section \<open>Lifecycle guard\<close>

datatype lifecycle_state =
    SPEC_DRAFT | SPEC_REVIEW | SEALED | EXECUTE | FINAL_REVIEW | RECOVER | DONE | NEEDS_DECISION
  | CAPABILITY_FAILURE | CANCELLED

definition lifecycle_states :: "(string \<times> lifecycle_state) list" where
  "lifecycle_states =
     [(''SPEC_DRAFT'', SPEC_DRAFT), (''SPEC_REVIEW'', SPEC_REVIEW), (''SEALED'', SEALED),
      (''EXECUTE'', EXECUTE), (''FINAL_REVIEW'', FINAL_REVIEW), (''RECOVER'', RECOVER), (''DONE'', DONE),
      (''NEEDS_DECISION'', NEEDS_DECISION), (''CAPABILITY_FAILURE'', CAPABILITY_FAILURE),
      (''CANCELLED'', CANCELLED)]"

definition terminal_lifecycle :: "lifecycle_state \<Rightarrow> bool" where
  "terminal_lifecycle s = (s \<in> set [DONE, NEEDS_DECISION, CAPABILITY_FAILURE, CANCELLED])"

record transition_guard =
  tg_allowed :: bool
  tg_next_state :: "lifecycle_state option"
  tg_code :: string

record guard_flags =
  gf_acceptance_sealed :: bool
  gf_reservation_valid :: bool
  gf_verified_receipt :: bool
  gf_capability_failure :: bool
  gf_uncertainty :: bool
  gf_cancelled :: bool

definition guard_transition :: "string \<Rightarrow> string \<Rightarrow> guard_flags \<Rightarrow> transition_guard" where
  "guard_transition state event f =
     (case map_of lifecycle_states state of
        None \<Rightarrow> \<lparr>tg_allowed = False, tg_next_state = None, tg_code = ''POLICY_STATE_INVALID''\<rparr>
      | Some current \<Rightarrow>
          if terminal_lifecycle current
          then \<lparr>tg_allowed = False, tg_next_state = None, tg_code = ''POLICY_TERMINAL''\<rparr>
          else if gf_capability_failure f \<or> gf_uncertainty f
          then \<lparr>tg_allowed = True, tg_next_state = Some CAPABILITY_FAILURE, tg_code = ''CAPABILITY_FAILURE''\<rparr>
          else if gf_cancelled f
          then \<lparr>tg_allowed = True, tg_next_state = Some CANCELLED, tg_code = ''CANCELLED''\<rparr>
          else if event = ''seal''
          then \<lparr>tg_allowed = (current \<in> set [SPEC_DRAFT, SPEC_REVIEW] \<and> gf_acceptance_sealed f),
                tg_next_state = (if gf_acceptance_sealed f then Some SEALED else None),
                tg_code = (if gf_acceptance_sealed f then ''OK'' else ''ACCEPTANCE_SEAL_REQUIRED'')\<rparr>
          else if event = ''dispatch''
          then \<lparr>tg_allowed = (current = SEALED \<and> gf_acceptance_sealed f \<and> gf_reservation_valid f),
                tg_next_state = (if gf_acceptance_sealed f \<and> gf_reservation_valid f then Some EXECUTE else None),
                tg_code = (if gf_acceptance_sealed f \<and> gf_reservation_valid f then ''OK''
                           else ''RESERVATION_REQUIRED'')\<rparr>
          else if event = ''finalize''
          then \<lparr>tg_allowed = (current = FINAL_REVIEW \<and> gf_verified_receipt f),
                tg_next_state = (if gf_verified_receipt f then Some DONE else None),
                tg_code = (if gf_verified_receipt f then ''OK'' else ''ACCEPTANCE_RECEIPT_REQUIRED'')\<rparr>
          else \<lparr>tg_allowed = False, tg_next_state = None, tg_code = ''POLICY_EVENT_INVALID''\<rparr>)"

section \<open>Findings\<close>

datatype finding_class = CONTRACT_FAILURE | INVARIANT_VIOLATION | FOLLOW_UP | INVALID

record finding_decision =
  fd_classification :: finding_class
  fd_criterion_ids :: "string list"
  fd_invariant_ids :: "string list"
  fd_code :: string

definition finding_invalid :: "string \<Rightarrow> finding_decision" where
  "finding_invalid code =
     \<lparr>fd_classification = INVALID, fd_criterion_ids = [], fd_invariant_ids = [], fd_code = code\<rparr>"

definition classify_finding ::
  "pydict \<Rightarrow> string \<Rightarrow> string \<Rightarrow> string \<Rightarrow> (string \<times> string list) list \<Rightarrow> string list \<Rightarrow> finding_decision" where
  "classify_finding f acceptance_hash candidate_hash runtime_hash criteria invariants =
     (if \<not> dict_has_keys f [''acceptance_hash'', ''candidate_hash'', ''runtime_hash'', ''criterion_ids'',
            ''check_ids'', ''invariant_ids'', ''evidence_valid''] \<or> dict_get f ''evidence_valid'' \<noteq> PBool True
      then finding_invalid ''FINDING_EVIDENCE_INVALID''
      else if dict_get f ''acceptance_hash'' \<noteq> PStr acceptance_hash \<or> dict_get f ''candidate_hash'' \<noteq> PStr candidate_hash
         \<or> dict_get f ''runtime_hash'' \<noteq> PStr runtime_hash
      then finding_invalid ''FINDING_BINDING_INVALID''
      else case bindR (identifier_list ''FINDING_INVALID'' True (dict_get f ''criterion_ids'')) (\<lambda>cs.
                bindR (identifier_list ''FINDING_INVALID'' True (dict_get f ''check_ids'')) (\<lambda>ks.
                bindR (identifier_list ''FINDING_INVALID'' True (dict_get f ''invariant_ids'')) (\<lambda>vs.
                Inr (cs, ks, vs)))) of
          Inl _ \<Rightarrow> finding_invalid ''FINDING_INVALID''
        | Inr (criterion_ids, check_ids, invariant_ids) \<Rightarrow>
            let known = sort (remdups (filter (\<lambda>i. i \<in> set invariants) invariant_ids)) in
            if known \<noteq> [] then
              \<lparr>fd_classification = INVARIANT_VIOLATION, fd_criterion_ids = [], fd_invariant_ids = known,
               fd_code = ''INVARIANT_MATCHED''\<rparr>
            else
              let matched = filter (\<lambda>c. case map_of criteria c of None \<Rightarrow> False
                      | Some checks \<Rightarrow> list_ex (\<lambda>k. k \<in> set check_ids) checks) criterion_ids in
              if matched \<noteq> [] then
                \<lparr>fd_classification = CONTRACT_FAILURE, fd_criterion_ids = sort matched, fd_invariant_ids = [],
                 fd_code = ''CRITERION_CHECK_MATCHED''\<rparr>
              else if criterion_ids \<noteq> [] \<or> check_ids \<noteq> [] \<or> invariant_ids \<noteq> []
              then finding_invalid ''FINDING_SCOPE_INVALID''
              else \<lparr>fd_classification = FOLLOW_UP, fd_criterion_ids = [], fd_invariant_ids = [],
                    fd_code = ''FOLLOW_UP''\<rparr>)"

section \<open>Properties of the validators\<close>

lemma sort_key_Nil_iff: "sort_key g xs = [] \<longleftrightarrow> xs = []"
  by (metis length_0_conv length_sort)

lemma identifier_of_Inr [simp]: "identifier_of code v = Inr s \<longleftrightarrow> is_identifier v \<and> v = PStr s"
  by (auto simp: identifier_of_def is_identifier_def split: pyval.splits)

lemma digest_Inr [simp]: "digest code v = Inr s \<longleftrightarrow> is_digest v \<and> v = PStr s"
  by (auto simp: digest_def is_digest_def split: pyval.splits)

lemma identifier_list_Inr:
  "identifier_list code e v = Inr ids \<Longrightarrow> \<exists>xs. v = PList (map PStr xs) \<and> distinct xs \<and> ids = sort xs
     \<and> (\<forall>x \<in> set xs. is_identifier (PStr x)) \<and> (e \<or> xs \<noteq> [])"
proof -
  assume ok: "identifier_list code e v = Inr ids"
  then obtain vs xs where v: "v = PList vs" and m: "mapR (identifier_of code) vs = Inr xs"
    and d: "distinct xs" "ids = sort xs" "e \<or> xs \<noteq> []"
    by (auto simp: identifier_list_def split: pyval.splits if_splits)
  have "vs = map PStr xs \<and> (\<forall>x \<in> set xs. is_identifier (PStr x))"
    using m by (induction vs arbitrary: xs) auto
  with v d show ?thesis by blast
qed

lemma canonical_Inr:
  "canonical H code v = Inr (d, enc, h) \<longleftrightarrow>
     v = PDict d \<and> d \<noteq> [] \<and> json_encodable v \<and> enc = json_dumps v \<and> h = H enc"
  by (auto simp: canonical_def split: pyval.splits)

text \<open>
  A transition is allowed only out of a known, non-terminal state, and then the guard names
  the next state; sealing needs a sealed acceptance, dispatching a sealed state with a valid
  reservation, and \<open>DONE\<close> is entered only from \<open>FINAL_REVIEW\<close> with a verified receipt.
\<close>

theorem guard_transition_safe:
  assumes "tg_allowed (guard_transition state event f)"
  shows "\<exists>s t. map_of lifecycle_states state = Some s \<and> \<not> terminal_lifecycle s \<and>
      tg_next_state (guard_transition state event f) = Some t \<and>
      (t = DONE \<longrightarrow> s = FINAL_REVIEW \<and> event = ''finalize'' \<and> gf_verified_receipt f) \<and>
      (t = EXECUTE \<longrightarrow> s = SEALED \<and> event = ''dispatch'' \<and> gf_acceptance_sealed f \<and> gf_reservation_valid f) \<and>
      (t = SEALED \<longrightarrow> s \<in> {SPEC_DRAFT, SPEC_REVIEW} \<and> event = ''seal'' \<and> gf_acceptance_sealed f) \<and>
      t \<in> {SEALED, EXECUTE, DONE, CAPABILITY_FAILURE, CANCELLED}"
  using assms by (auto simp: guard_transition_def split: option.splits if_splits)

theorem guard_transition_safe_witness:
  "tg_next_state (guard_transition ''FINAL_REVIEW'' ''finalize''
     \<lparr>gf_acceptance_sealed = True, gf_reservation_valid = True, gf_verified_receipt = True,
      gf_capability_failure = False, gf_uncertainty = False, gf_cancelled = False\<rparr>) = Some DONE"
proof -
  let ?f = "\<lparr>gf_acceptance_sealed = True, gf_reservation_valid = True, gf_verified_receipt = True,
      gf_capability_failure = False, gf_uncertainty = False, gf_cancelled = False\<rparr>"
  have "tg_allowed (guard_transition ''FINAL_REVIEW'' ''finalize'' ?f)"
    by code_simp
  from guard_transition_safe [OF this] show ?thesis
    by (auto simp: guard_transition_def lifecycle_states_def terminal_lifecycle_def)
qed

text \<open>The two ways to a decision: the finding is refused, or it is judged by the identifiers it names.\<close>

definition judged :: "(string \<times> string list) list \<Rightarrow> string list \<Rightarrow> string list \<Rightarrow> string list \<Rightarrow> string list \<Rightarrow> finding_decision" where
  "judged criteria invariants cs ks vs =
     (let known = sort (remdups (filter (\<lambda>i. i \<in> set invariants) vs));
          matched = filter (\<lambda>c. case map_of criteria c of None \<Rightarrow> False
                      | Some checks \<Rightarrow> list_ex (\<lambda>k. k \<in> set ks) checks) cs
      in if known \<noteq> [] then
              \<lparr>fd_classification = INVARIANT_VIOLATION, fd_criterion_ids = [], fd_invariant_ids = known,
               fd_code = ''INVARIANT_MATCHED''\<rparr>
            else if matched \<noteq> [] then
                \<lparr>fd_classification = CONTRACT_FAILURE, fd_criterion_ids = sort matched, fd_invariant_ids = [],
                 fd_code = ''CRITERION_CHECK_MATCHED''\<rparr>
            else if cs \<noteq> [] \<or> ks \<noteq> [] \<or> vs \<noteq> [] then finding_invalid ''FINDING_SCOPE_INVALID''
            else \<lparr>fd_classification = FOLLOW_UP, fd_criterion_ids = [], fd_invariant_ids = [],
                  fd_code = ''FOLLOW_UP''\<rparr>)"

lemma classify_finding_cases:
  obtains (refused) code where "classify_finding f ah ch rh criteria invariants = finding_invalid code"
  | (judged) cs ks vs where "classify_finding f ah ch rh criteria invariants = judged criteria invariants (sort cs) (sort ks) (sort vs)"
      "dict_get f ''criterion_ids'' = PList (map PStr cs)" "dict_get f ''check_ids'' = PList (map PStr ks)"
      "dict_get f ''invariant_ids'' = PList (map PStr vs)" "dict_get f ''evidence_valid'' = PBool True"
      "dict_get f ''acceptance_hash'' = PStr ah" "dict_get f ''candidate_hash'' = PStr ch" "dict_get f ''runtime_hash'' = PStr rh"
proof -
  define lists where "lists = bindR (identifier_list ''FINDING_INVALID'' True (dict_get f ''criterion_ids'')) (\<lambda>cs.
      bindR (identifier_list ''FINDING_INVALID'' True (dict_get f ''check_ids'')) (\<lambda>ks.
      bindR (identifier_list ''FINDING_INVALID'' True (dict_get f ''invariant_ids'')) (\<lambda>vs. Inr (cs, ks, vs))))"
  show thesis
  proof (cases "dict_has_keys f [''acceptance_hash'', ''candidate_hash'', ''runtime_hash'', ''criterion_ids'',
            ''check_ids'', ''invariant_ids'', ''evidence_valid''] \<and> dict_get f ''evidence_valid'' = PBool True
      \<and> dict_get f ''acceptance_hash'' = PStr ah \<and> dict_get f ''candidate_hash'' = PStr ch
      \<and> dict_get f ''runtime_hash'' = PStr rh \<and> (\<exists>t. lists = Inr t)")
    case False
    then have "\<exists>code. classify_finding f ah ch rh criteria invariants = finding_invalid code"
      unfolding classify_finding_def lists_def [symmetric] by (cases lists) (auto simp: Let_def)
    then show thesis using refused by blast
  next
    case True
    then obtain cs ks vs where l: "lists = Inr (cs, ks, vs)" by auto
    then obtain cs' ks' vs' where ids:
      "dict_get f ''criterion_ids'' = PList (map PStr cs')" "cs = sort cs'"
      "dict_get f ''check_ids'' = PList (map PStr ks')" "ks = sort ks'"
      "dict_get f ''invariant_ids'' = PList (map PStr vs')" "vs = sort vs'"
      unfolding lists_def by (auto dest!: identifier_list_Inr)
    have "classify_finding f ah ch rh criteria invariants = judged criteria invariants cs ks vs"
      unfolding classify_finding_def lists_def [symmetric] l judged_def using True by (simp add: Let_def)
    then show thesis using judged [of cs' ks' vs'] True ids by simp
  qed
qed

text \<open>
  A finding is admitted as a contract failure or an invariant violation only when its
  evidence is valid, it is bound to the sealed acceptance, candidate and runtime, and every
  criterion or invariant it is classified under is a sealed one (for a criterion, through one of
  its own checks named by the finding). Everything else is a follow-up without any claimed
  scope, or invalid.
\<close>

theorem classify_finding_fail_closed:
  "let d = classify_finding f ah ch rh criteria invariants in
   case fd_classification d of
     INVALID \<Rightarrow> fd_criterion_ids d = [] \<and> fd_invariant_ids d = []
   | FOLLOW_UP \<Rightarrow> fd_criterion_ids d = [] \<and> fd_invariant_ids d = [] \<and>
       dict_get f ''evidence_valid'' = PBool True \<and> dict_get f ''criterion_ids'' = PList [] \<and>
       dict_get f ''check_ids'' = PList [] \<and> dict_get f ''invariant_ids'' = PList []
   | INVARIANT_VIOLATION \<Rightarrow> fd_invariant_ids d \<noteq> [] \<and> set (fd_invariant_ids d) \<subseteq> set invariants \<and>
       PStr ` set (fd_invariant_ids d) \<subseteq> set (list_of (dict_get f ''invariant_ids'')) \<and>
       dict_get f ''evidence_valid'' = PBool True \<and> dict_get f ''acceptance_hash'' = PStr ah \<and>
       dict_get f ''candidate_hash'' = PStr ch \<and> dict_get f ''runtime_hash'' = PStr rh
   | CONTRACT_FAILURE \<Rightarrow> fd_criterion_ids d \<noteq> [] \<and>
       PStr ` set (fd_criterion_ids d) \<subseteq> set (list_of (dict_get f ''criterion_ids'')) \<and>
       set (fd_criterion_ids d) \<subseteq> {c. \<exists>checks k. map_of criteria c = Some checks \<and> k \<in> set checks \<and>
          PStr k \<in> set (list_of (dict_get f ''check_ids''))} \<and>
       dict_get f ''evidence_valid'' = PBool True \<and> dict_get f ''acceptance_hash'' = PStr ah \<and>
       dict_get f ''candidate_hash'' = PStr ch \<and> dict_get f ''runtime_hash'' = PStr rh"
proof (cases rule: classify_finding_cases [of f ah ch rh criteria invariants])
  case (refused code) then show ?thesis by (auto simp: finding_invalid_def)
next
  case (judged cs ks vs)
  define known where "known = sort (remdups (filter (\<lambda>i. i \<in> set invariants) (sort vs)))"
  define matched where "matched = filter (\<lambda>c. case map_of criteria c of None \<Rightarrow> False
                      | Some checks \<Rightarrow> list_ex (\<lambda>k. k \<in> set (sort ks)) checks) (sort cs)"
  have m: "PStr ` set matched \<subseteq> set (map PStr cs)"
    "set matched \<subseteq> {c. \<exists>checks k. map_of criteria c = Some checks \<and> k \<in> set checks \<and>
        PStr k \<in> set (map PStr ks)}"
    by (force simp: matched_def list_ex_iff split: option.splits)+
  have k: "set known \<subseteq> set invariants" "PStr ` set known \<subseteq> set (map PStr vs)"
    by (auto simp: known_def)
  note d = judged(1) [unfolded judged_def Let_def, folded known_def matched_def]
  consider "known \<noteq> []" | "known = []" "matched \<noteq> []" | "known = []" "matched = []" by blast
  then show ?thesis
  proof cases
    case 1 then show ?thesis using k judged(2-) by (simp add: d Let_def)
  next
    case 2 then show ?thesis using m judged(2-) by (simp add: d Let_def sort_key_Nil_iff)
  next
    case 3 then show ?thesis using judged(2-) by (simp add: d Let_def finding_invalid_def sort_key_Nil_iff)
  qed
qed

text \<open>Python dictionaries have distinct keys.\<close>

fun py_wf :: "pyval \<Rightarrow> bool" where
  "py_wf (PList xs) = list_all py_wf xs"
| "py_wf (PDict d) = (distinct (map fst d) \<and> list_all (\<lambda>kv. py_wf (snd kv)) d)"
| "py_wf v = True"

lemma dict_get_in: "distinct (map fst d) \<Longrightarrow> (k, v) \<in> set d \<Longrightarrow> dict_get d k = v"
  by (simp add: dict_get_def)

lemma closed_dict_float_free:
  assumes "dict_has_keys d ks" and "distinct (map fst d)" and "\<And>k. k \<in> set ks \<Longrightarrow> float_free (dict_get d k)"
  shows "list_all (\<lambda>kv. float_free (snd kv)) d"
  unfolding list_all_iff
proof
  fix kv
  assume in_d: "kv \<in> set d"
  then have "fst kv \<in> set ks"
    using assms(1) by (auto simp: dict_has_keys_def dict_keys_def)
  moreover have "dict_get d (fst kv) = snd kv"
    using in_d assms(2) by (intro dict_get_in) auto
  ultimately show "float_free (snd kv)"
    using assms(3) by fastforce
qed

lemma dict_get_wf: "py_wf (PDict d) \<Longrightarrow> py_wf (dict_get d k)"
  by (auto simp: dict_get_def list_all_iff dest: map_of_SomeD split: option.splits)

lemma is_digest_float_free: "is_digest v \<Longrightarrow> float_free v"
  by (auto simp: is_digest_def split: pyval.splits)

lemma is_identifier_float_free: "is_identifier v \<Longrightarrow> float_free v"
  by (auto simp: is_identifier_def split: pyval.splits)

lemma is_positive_int_float_free: "is_positive_int v \<Longrightarrow> float_free v"
  by (auto simp: is_positive_int_def split: pyval.splits)

lemmas scalar_float_free = is_digest_float_free is_identifier_float_free is_positive_int_float_free

lemma receipt_evidence_Inr:
  "receipt_evidence item = Inr e \<Longrightarrow> e = item \<and> (py_wf item \<longrightarrow> float_free item)"
  unfolding receipt_evidence_def
  by (auto split: pyval.splits if_splits intro!: closed_dict_float_free intro: scalar_float_free)

lemma mapR_evidence: "mapR receipt_evidence es = Inr evidence \<Longrightarrow> evidence = es \<and> (list_all py_wf es \<longrightarrow> list_all float_free es)"
  by (induction es arbitrary: evidence) (auto dest: receipt_evidence_Inr)

lemma mapR_identifiers:
  "mapR (\<lambda>k. identifier_of code (dict_get d k)) ks = Inr ys \<Longrightarrow> (\<forall>k \<in> set ks. is_identifier (dict_get d k))"
  by (induction ks arbitrary: ys) auto

lemma mapR_digests:
  "mapR (\<lambda>k. digest code (dict_get d k)) ks = Inr ys \<Longrightarrow> (\<forall>k \<in> set ks. is_digest (dict_get d k))"
  by (induction ks arbitrary: ys) auto

lemma mapR_identifier_of: "mapR (identifier_of code) xs = Inr ys \<Longrightarrow> xs = map PStr ys"
  by (induction xs arbitrary: ys) auto

lemma identifier_list_float_free: "identifier_list code e v = Inr ids \<Longrightarrow> float_free v"
  by (auto dest!: identifier_list_Inr simp: list_all_iff)

lemma receipt_process_identity_Inr:
  "receipt_process_identity v = Inr d \<Longrightarrow> v = PDict d \<and> (py_wf v \<longrightarrow> float_free v)"
  unfolding receipt_process_identity_def
  by (auto simp del: mapR.simps split: pyval.splits if_splits dest!: mapR_identifiers
      intro!: closed_dict_float_free intro: scalar_float_free)

lemma validate_role_receipt_Inr:
  assumes "validate_role_receipt H req v = Inr r"
  shows "\<exists>d. v = PDict d \<and> rr_receipt_json r = json_dumps v \<and> rr_receipt_hash r = H (json_dumps v)
      \<and> (py_wf v \<longrightarrow> float_free v)
      \<and> dict_get d ''acceptance_hash'' = PStr (rr_acceptance_hash r)
      \<and> dict_get d ''candidate_hash'' = PStr (rr_candidate_hash r)
      \<and> dict_get d ''intent_id'' = PStr (rr_intent_id r)
      \<and> dict_get d ''fence_generation'' = PInt (rr_fence_generation r) \<and> 1 \<le> rr_fence_generation r
      \<and> dict_get d ''role'' = PStr (rr_role r)
      \<and> rr_role r \<in> {''execution'', ''review'', ''recovery'', ''qualification''}
      \<and> distinct (map (\<lambda>e. dict_get (dict_of e) ''id'') (rr_evidence r))
      \<and> (rr_role r = ''review'' \<and> rr_completion_status r = ''succeeded''
          \<longrightarrow> set req \<subseteq> PStr ` set (rr_review_dimensions r))"
proof -
  obtain d enc h where c: "canonical H ''POLICY_RECEIPT_INVALID'' v = Inr (d, enc, h)"
    using assms by (auto simp: validate_role_receipt_def)
  then have v: "v = PDict d" "enc = json_dumps v" "h = H enc" by (simp_all add: canonical_Inr)
  obtain es ident dims required status where
        keys: "dict_has_keys d receipt_fields" and schema: "dict_get d ''schema'' = PStr POLICY_RECEIPT_SCHEMA"
    and role: "dict_get d ''role'' = PStr (rr_role r)" "rr_role r \<in> set receipt_roles"
    and ids: "\<forall>k \<in> set receipt_names. is_identifier (dict_get d k)"
    and gen: "is_positive_int (dict_get d ''fence_generation'')"
    and digs: "\<forall>k \<in> set receipt_digests. is_digest (dict_get d k)"
    and status: "dict_get d ''completion_status'' = PStr status"
    and ev: "dict_get d ''evidence'' = PList es" "mapR receipt_evidence es = Inr (rr_evidence r)"
    and dist: "distinct (map (\<lambda>e. dict_get (dict_of e) ''id'') (rr_evidence r))"
    and ident: "receipt_process_identity (dict_get d ''process_identity'') = Inr ident"
    and dims: "identifier_list ''POLICY_RECEIPT_INVALID'' True (dict_get d ''review_dimensions'') = Inr dims"
    and req: "mapR (identifier_of ''POLICY_RECEIPT_INVALID'') req = Inr required"
      "rr_role r = ''review'' \<and> status = ''succeeded'' \<longrightarrow> list_all (\<lambda>x. x \<in> set dims) required"
    and r: "rr_intent_id r = str_of (dict_get d ''intent_id'')"
      "rr_acceptance_hash r = str_of (dict_get d ''acceptance_hash'')"
      "rr_candidate_hash r = str_of (dict_get d ''candidate_hash'')"
      "rr_fence_generation r = int_of (dict_get d ''fence_generation'')"
      "rr_completion_status r = status" "rr_review_dimensions r = dims" "rr_receipt_json r = enc"
      "rr_receipt_hash r = h"
    using assms unfolding validate_role_receipt_def c
    by (auto simp: Let_def split: if_splits pyval.splits dest!: mapR_identifiers mapR_digests)
  have d: "dict_get d ''intent_id'' = PStr (rr_intent_id r)"
    "dict_get d ''acceptance_hash'' = PStr (rr_acceptance_hash r)"
    "dict_get d ''candidate_hash'' = PStr (rr_candidate_hash r)"
    "dict_get d ''fence_generation'' = PInt (rr_fence_generation r) \<and> 1 \<le> rr_fence_generation r"
    using ids digs gen unfolding r receipt_names_def receipt_digests_def
    by (auto simp: is_identifier_def is_digest_def is_positive_int_def split: pyval.splits)
  have "float_free v" if wf: "py_wf v"
  proof -
    have "list_all (\<lambda>kv. float_free (snd kv)) d"
    proof (rule closed_dict_float_free [OF keys])
      show "distinct (map fst d)" using wf v by simp
      have "list_all py_wf es" using wf v ev(1) dict_get_wf [of d "''evidence''"] by simp
      then have ev_ff: "list_all float_free es" using ev mapR_evidence by auto
      have ident_ff: "float_free (dict_get d ''process_identity'')"
        using ident wf v dict_get_wf [of d "''process_identity''"] receipt_process_identity_Inr by blast
      have dims_ff: "float_free (dict_get d ''review_dimensions'')"
        by (rule identifier_list_float_free [OF dims])
      have names_ff: "list_all (\<lambda>k. float_free (dict_get d k)) (receipt_names @ receipt_digests)"
        using ids digs by (auto simp: list_all_iff intro: scalar_float_free)
      have "list_all (\<lambda>k. float_free (dict_get d k)) receipt_fields"
        unfolding receipt_fields_def
        using names_ff schema role status gen ev(1) ev_ff ident_ff dims_ff
        by (simp add: receipt_names_def receipt_digests_def is_positive_int_float_free)
      then show "float_free (dict_get d k)" if "k \<in> set receipt_fields" for k
        using that by (simp add: list_all_iff)
    qed
    then show ?thesis using v by simp
  qed
  moreover have "set req \<subseteq> PStr ` set (rr_review_dimensions r)"
    if "rr_role r = ''review'' \<and> rr_completion_status r = ''succeeded''"
    using that req(2) r mapR_identifier_of [OF req(1)] by (auto simp: list_all_iff)
  moreover have "rr_role r \<in> {''execution'', ''review'', ''recovery'', ''qualification''}"
    using role(2) by (simp add: receipt_roles_def)
  ultimately show ?thesis
    using v r role d dist by blast
qed

lemma map_of_sort_key: "distinct (map fst d) \<Longrightarrow> map_of (sort_key fst d) = map_of d"
proof -
  assume d: "distinct (map fst d)"
  have "distinct (map fst (sort_key fst d))"
    using d by (metis distinct_map distinct_sort set_sort)
  with d show ?thesis
    by (intro map_of_inject_set [THEN iffD2]) simp_all
qed

lemma dict_get_sort_keys:
  assumes "distinct (map fst d)"
  shows "dict_get (dict_of (sort_keys (PDict d))) k = sort_keys (dict_get d k)"
proof -
  have "distinct (map fst (map (\<lambda>kv. (fst kv, sort_keys (snd kv))) d))"
    using assms by (simp add: comp_def)
  then have "map_of (dict_of (sort_keys (PDict d))) k = map_of (map (\<lambda>kv. (fst kv, sort_keys (snd kv))) d) k"
    by (simp add: map_of_sort_key)
  also have "\<dots> = map_option sort_keys (map_of d k)"
    by (induction d) auto
  finally show ?thesis
    by (simp add: dict_get_def split: option.split)
qed

text \<open>The formats of a receipt, stated without the validators: a hash, an identifier, a closed object.\<close>

definition hash_text :: "pyval \<Rightarrow> bool" where
  "hash_text v = (\<exists>s. v = PStr s \<and> length s = 64 \<and> list_all hex_char s)"

definition name_text :: "pyval \<Rightarrow> bool" where
  "name_text v = (\<exists>s. v = PStr s \<and> s \<noteq> [] \<and> py_strip s = s \<and> utf8_length s \<le> 256 \<and> py_isprintable s)"

definition evidence_item :: "pyval \<Rightarrow> bool" where
  "evidence_item v = (\<exists>e. v = PDict e \<and> dict_keys e = {''id'', ''sha256'', ''locator''}
     \<and> name_text (dict_get e ''id'') \<and> hash_text (dict_get e ''sha256'') \<and> name_text (dict_get e ''locator''))"

definition process_record :: "pydict \<Rightarrow> bool" where
  "process_record p = (dict_keys p = {''host_id'', ''boot_id'', ''pid'', ''start_token''}
     \<and> name_text (dict_get p ''host_id'') \<and> name_text (dict_get p ''boot_id'') \<and> name_text (dict_get p ''start_token'')
     \<and> (\<exists>n \<ge> 1. dict_get p ''pid'' = PInt n))"

lemma is_digest_hash: "is_digest v \<Longrightarrow> hash_text v"
  by (auto simp: is_digest_def hash_text_def HEX_DIGEST_LENGTH_def split: pyval.split_asm)

lemma is_identifier_name: "is_identifier v \<Longrightarrow> name_text v"
  by (auto simp: is_identifier_def name_text_def split: pyval.split_asm)

lemma is_positive_int_value: "is_positive_int v \<Longrightarrow> \<exists>n \<ge> 1. v = PInt n"
  by (auto simp: is_positive_int_def split: pyval.split_asm)

lemma receipt_evidence_item: "receipt_evidence v = Inr e \<Longrightarrow> evidence_item v"
  unfolding receipt_evidence_def evidence_item_def dict_has_keys_def
  by (cases v) (simp_all add: is_digest_hash is_identifier_name split: if_split_asm)

lemma mapR_evidence_items: "mapR receipt_evidence es = Inr evidence \<Longrightarrow> list_all evidence_item es"
  by (induction es arbitrary: evidence) (auto dest: receipt_evidence_item)

lemma receipt_process_record:
  assumes "receipt_process_identity v = Inr p" shows "process_record p"
proof -
  obtain ys where keys: "dict_has_keys p [''host_id'', ''boot_id'', ''pid'', ''start_token'']"
    and m: "mapR (\<lambda>k. identifier_of ''POLICY_RECEIPT_INVALID'' (dict_get p k)) [''host_id'', ''boot_id'', ''start_token''] = Inr ys"
    and pid: "is_positive_int (dict_get p ''pid'')"
    using assms by (auto simp: receipt_process_identity_def simp del: mapR.simps split: pyval.split_asm if_split_asm)
  from mapR_identifiers [OF m] have "is_identifier (dict_get p ''host_id'')" "is_identifier (dict_get p ''boot_id'')"
    "is_identifier (dict_get p ''start_token'')" by simp_all
  then show ?thesis
    using keys is_positive_int_value [OF pid] unfolding process_record_def dict_has_keys_def
    by (simp add: is_identifier_name)
qed

text \<open>The columns of the receipt, each checked in the document it was read from.\<close>

lemma validate_role_receipt_shape:
  assumes "validate_role_receipt H req (PDict d) = Inr r"
  shows "dict_has_keys d receipt_fields" "dict_get d ''schema'' = PStr POLICY_RECEIPT_SCHEMA"
    "\<forall>k \<in> set receipt_names. is_identifier (dict_get d k)" "\<forall>k \<in> set receipt_digests. is_digest (dict_get d k)"
    "dict_get d ''completion_status'' = PStr (rr_completion_status r)" "rr_completion_status r \<in> set receipt_statuses"
    "dict_get d ''evidence'' = PList (rr_evidence r)" "list_all evidence_item (rr_evidence r)"
    "dict_get d ''process_identity'' = PDict (rr_process_identity r)" "process_record (rr_process_identity r)"
    "\<exists>ds. dict_get d ''review_dimensions'' = PList (map PStr ds) \<and> rr_review_dimensions r = sort ds"
    "rr_request_key r = str_of (dict_get d ''request_key'')" "rr_activity_id r = str_of (dict_get d ''activity_id'')"
    "rr_runtime_hash r = str_of (dict_get d ''runtime_hash'')"
    "rr_workspace_preparation_hash r = str_of (dict_get d ''workspace_preparation_hash'')"
proof -
  obtain enc h where c: "canonical H ''POLICY_RECEIPT_INVALID'' (PDict d) = Inr (d, enc, h)"
    using assms by (auto simp: validate_role_receipt_def canonical_Inr)
  obtain es p dims status where
      keys: "dict_has_keys d receipt_fields" and schema: "dict_get d ''schema'' = PStr POLICY_RECEIPT_SCHEMA"
    and ids: "\<forall>k \<in> set receipt_names. is_identifier (dict_get d k)" and digs: "\<forall>k \<in> set receipt_digests. is_digest (dict_get d k)"
    and status: "dict_get d ''completion_status'' = PStr status" "status \<in> set receipt_statuses"
    and ev: "dict_get d ''evidence'' = PList es" "mapR receipt_evidence es = Inr (rr_evidence r)"
    and ident: "receipt_process_identity (dict_get d ''process_identity'') = Inr p" "rr_process_identity r = p"
    and dims: "identifier_list ''POLICY_RECEIPT_INVALID'' True (dict_get d ''review_dimensions'') = Inr dims" "rr_review_dimensions r = dims"
    and r: "rr_completion_status r = status" "rr_request_key r = str_of (dict_get d ''request_key'')"
      "rr_activity_id r = str_of (dict_get d ''activity_id'')" "rr_runtime_hash r = str_of (dict_get d ''runtime_hash'')"
      "rr_workspace_preparation_hash r = str_of (dict_get d ''workspace_preparation_hash'')"
    using assms unfolding validate_role_receipt_def c
    by (auto simp: Let_def split: if_splits pyval.splits dest!: mapR_identifiers mapR_digests)
  show "dict_has_keys d receipt_fields" "dict_get d ''schema'' = PStr POLICY_RECEIPT_SCHEMA"
    "\<forall>k \<in> set receipt_names. is_identifier (dict_get d k)" "\<forall>k \<in> set receipt_digests. is_digest (dict_get d k)"
    by (rule keys schema ids digs)+
  show "dict_get d ''completion_status'' = PStr (rr_completion_status r)" "rr_completion_status r \<in> set receipt_statuses"
    using status r(1) by simp_all
  show "dict_get d ''evidence'' = PList (rr_evidence r)" "list_all evidence_item (rr_evidence r)"
    using ev mapR_evidence [OF ev(2)] mapR_evidence_items [OF ev(2)] by simp_all
  show "dict_get d ''process_identity'' = PDict (rr_process_identity r)" "process_record (rr_process_identity r)"
    using ident receipt_process_identity_Inr [OF ident(1)] receipt_process_record [OF ident(1)] by simp_all
  show "\<exists>ds. dict_get d ''review_dimensions'' = PList (map PStr ds) \<and> rr_review_dimensions r = sort ds"
    using identifier_list_Inr [OF dims(1)] dims(2) by auto
  show "rr_request_key r = str_of (dict_get d ''request_key'')" "rr_activity_id r = str_of (dict_get d ''activity_id'')"
    "rr_runtime_hash r = str_of (dict_get d ''runtime_hash'')"
    "rr_workspace_preparation_hash r = str_of (dict_get d ''workspace_preparation_hash'')"
    by (rule r)+
qed

text \<open>
  C39: an accepted role receipt is well formed: the document has exactly the fourteen fields, its schema, a role and a
  completion status of the fixed lists, identifiers for request, activity and intent, four lower-case
  hexadecimal digests, a positive fence generation, evidence items with unique ids and digests of their own,
  and the identity of a process. The receipt carries the values of these fields and the hash of the canonical
  encoding, and a succeeded review covers every required dimension.
\<close>

theorem role_receipt_sound:
  assumes "validate_role_receipt H req v = Inr r"
  shows "\<exists>d ds. v = PDict d \<and>
     dict_keys d = {''schema'', ''role'', ''request_key'', ''activity_id'', ''intent_id'', ''fence_generation'',
       ''acceptance_hash'', ''candidate_hash'', ''runtime_hash'', ''workspace_preparation_hash'', ''evidence'',
       ''completion_status'', ''process_identity'', ''review_dimensions''} \<and>
     dict_get d ''schema'' = PStr POLICY_RECEIPT_SCHEMA \<and> dict_get d ''role'' = PStr (rr_role r) \<and>
     rr_role r \<in> {''execution'', ''review'', ''recovery'', ''qualification''} \<and>
     dict_get d ''completion_status'' = PStr (rr_completion_status r) \<and>
     rr_completion_status r \<in> {''succeeded'', ''failed'', ''timed_out'', ''crashed'', ''rejected''} \<and>
     dict_get d ''request_key'' = PStr (rr_request_key r) \<and> name_text (PStr (rr_request_key r)) \<and>
     dict_get d ''activity_id'' = PStr (rr_activity_id r) \<and> name_text (PStr (rr_activity_id r)) \<and>
     dict_get d ''intent_id'' = PStr (rr_intent_id r) \<and> name_text (PStr (rr_intent_id r)) \<and>
     dict_get d ''fence_generation'' = PInt (rr_fence_generation r) \<and> 1 \<le> rr_fence_generation r \<and>
     dict_get d ''acceptance_hash'' = PStr (rr_acceptance_hash r) \<and> hash_text (PStr (rr_acceptance_hash r)) \<and>
     dict_get d ''candidate_hash'' = PStr (rr_candidate_hash r) \<and> hash_text (PStr (rr_candidate_hash r)) \<and>
     dict_get d ''runtime_hash'' = PStr (rr_runtime_hash r) \<and> hash_text (PStr (rr_runtime_hash r)) \<and>
     dict_get d ''workspace_preparation_hash'' = PStr (rr_workspace_preparation_hash r) \<and>
     hash_text (PStr (rr_workspace_preparation_hash r)) \<and>
     dict_get d ''evidence'' = PList (rr_evidence r) \<and> list_all evidence_item (rr_evidence r) \<and>
     distinct (map (\<lambda>e. dict_get (dict_of e) ''id'') (rr_evidence r)) \<and>
     dict_get d ''process_identity'' = PDict (rr_process_identity r) \<and> process_record (rr_process_identity r) \<and>
     dict_get d ''review_dimensions'' = PList (map PStr ds) \<and> rr_review_dimensions r = sort ds \<and>
     rr_receipt_json r = json_dumps v \<and> rr_receipt_hash r = H (json_dumps v) \<and>
     (rr_role r = ''review'' \<and> rr_completion_status r = ''succeeded'' \<longrightarrow> set req \<subseteq> PStr ` set (rr_review_dimensions r))"
proof -
  have str: "dict_get d k = PStr (str_of (dict_get d k)) \<and> hash_text (PStr (str_of (dict_get d k)))" if "is_digest (dict_get d k)" for d k
    using is_digest_hash [OF that] by (auto simp: hash_text_def)
  have name: "dict_get d k = PStr (str_of (dict_get d k)) \<and> name_text (PStr (str_of (dict_get d k)))" if "is_identifier (dict_get d k)" for d k
    using is_identifier_name [OF that] by (auto simp: name_text_def)
  obtain d where d: "v = PDict d" "rr_receipt_json r = json_dumps v" "rr_receipt_hash r = H (json_dumps v)"
      "dict_get d ''acceptance_hash'' = PStr (rr_acceptance_hash r)" "dict_get d ''candidate_hash'' = PStr (rr_candidate_hash r)"
      "dict_get d ''intent_id'' = PStr (rr_intent_id r)"
      "dict_get d ''fence_generation'' = PInt (rr_fence_generation r)" "1 \<le> rr_fence_generation r"
      "dict_get d ''role'' = PStr (rr_role r)" "rr_role r \<in> {''execution'', ''review'', ''recovery'', ''qualification''}"
      "distinct (map (\<lambda>e. dict_get (dict_of e) ''id'') (rr_evidence r))"
      "rr_role r = ''review'' \<and> rr_completion_status r = ''succeeded'' \<longrightarrow> set req \<subseteq> PStr ` set (rr_review_dimensions r)"
    using validate_role_receipt_Inr [OF assms] by blast
  note s = validate_role_receipt_shape [OF assms [unfolded d(1)]]
  obtain ds where ds: "dict_get d ''review_dimensions'' = PList (map PStr ds)" "rr_review_dimensions r = sort ds"
    using s(11) by blast
  note r = s(12-15)
  have names: "is_identifier (dict_get d ''request_key'')" "is_identifier (dict_get d ''activity_id'')" "is_identifier (dict_get d ''intent_id'')"
    using s(3) unfolding receipt_names_def by (meson list.set_intros)+
  have digs: "is_digest (dict_get d ''acceptance_hash'')" "is_digest (dict_get d ''candidate_hash'')"
      "is_digest (dict_get d ''runtime_hash'')" "is_digest (dict_get d ''workspace_preparation_hash'')"
    using s(4) unfolding receipt_digests_def by (meson list.set_intros)+
  note facts = name [OF names(1), folded r] name [OF names(2), folded r] is_identifier_name [OF names(3), unfolded d(6)]
    is_digest_hash [OF digs(1), unfolded d(4)] is_digest_hash [OF digs(2), unfolded d(5)] str [OF digs(3), folded r] str [OF digs(4), folded r]
  show ?thesis
    by (rule exI [of _ d], rule exI [of _ ds], intro conjI)
      (rule d s(2,5,7-10) ds facts(1,2,6,7) [THEN conjunct1] facts(1,2,6,7) [THEN conjunct2] facts(3-5)
        s(1) [unfolded dict_has_keys_def receipt_fields_def list.set] s(6) [unfolded receipt_statuses_def list.set])+
qed

text \<open>
  the receipt hash binds the receipt: under a hash without collisions on the two encodings,
  two accepted receipts with the same hash agree on role, intent, fence generation, acceptance
  and candidate.
\<close>

theorem role_receipt_hash_binds:
  assumes "validate_role_receipt H req v = Inr r" and "validate_role_receipt H req' w = Inr s"
    and "py_wf v" and "py_wf w"
    and "H (json_dumps v) = H (json_dumps w) \<Longrightarrow> json_dumps v = json_dumps w"
    and "rr_receipt_hash r = rr_receipt_hash s"
  shows "rr_role r = rr_role s \<and> rr_intent_id r = rr_intent_id s \<and>
      rr_fence_generation r = rr_fence_generation s \<and>
      rr_acceptance_hash r = rr_acceptance_hash s \<and> rr_candidate_hash r = rr_candidate_hash s"
proof -
  obtain d where d: "v = PDict d" "rr_receipt_hash r = H (json_dumps v)" "float_free v"
      "dict_get d ''acceptance_hash'' = PStr (rr_acceptance_hash r)"
      "dict_get d ''candidate_hash'' = PStr (rr_candidate_hash r)"
      "dict_get d ''intent_id'' = PStr (rr_intent_id r)"
      "dict_get d ''fence_generation'' = PInt (rr_fence_generation r)"
      "dict_get d ''role'' = PStr (rr_role r)"
    using validate_role_receipt_Inr [OF assms(1)] assms(3) by blast
  obtain e where e: "w = PDict e" "rr_receipt_hash s = H (json_dumps w)" "float_free w"
      "dict_get e ''acceptance_hash'' = PStr (rr_acceptance_hash s)"
      "dict_get e ''candidate_hash'' = PStr (rr_candidate_hash s)"
      "dict_get e ''intent_id'' = PStr (rr_intent_id s)"
      "dict_get e ''fence_generation'' = PInt (rr_fence_generation s)"
      "dict_get e ''role'' = PStr (rr_role s)"
    using validate_role_receipt_Inr [OF assms(2)] assms(4) by blast
  have "json_raw (sort_keys v) = json_raw (sort_keys w)"
    using assms(5,6) d(2) e(2) by (simp add: json_dumps_def)
  then have "sort_keys v = sort_keys w"
    using json_raw_prefix [of "sort_keys v" "sort_keys w" "[]" "[]"] d(3) [THEN float_free_finite] e(3) [THEN float_free_finite] by simp
  then have same: "sort_keys (dict_get d k) = sort_keys (dict_get e k)" for k
    using dict_get_sort_keys [of d k] dict_get_sort_keys [of e k] assms(3,4) d(1) e(1) by simp
  show ?thesis
    using same [of "''acceptance_hash''"] same [of "''candidate_hash''"] same [of "''intent_id''"]
      same [of "''fence_generation''"] same [of "''role''"] d(4-8) e(4-8) by simp
qed

text \<open>A receipt the validator accepts, for the witnesses.\<close>

definition sample_digest :: string where
  "sample_digest = replicate 64 (CHR ''a'')"

definition sample_receipt :: pyval where
  "sample_receipt = PDict [(''schema'', PStr POLICY_RECEIPT_SCHEMA), (''role'', PStr ''review''),
     (''request_key'', PStr ''req''), (''activity_id'', PStr ''act''), (''intent_id'', PStr ''int''),
     (''fence_generation'', PInt 3), (''acceptance_hash'', PStr sample_digest),
     (''candidate_hash'', PStr sample_digest), (''runtime_hash'', PStr sample_digest),
     (''workspace_preparation_hash'', PStr sample_digest),
     (''evidence'', PList [PDict [(''id'', PStr ''e1''), (''sha256'', PStr sample_digest), (''locator'', PStr ''log'')]]),
     (''completion_status'', PStr ''succeeded''),
     (''process_identity'', PDict [(''host_id'', PStr ''h''), (''boot_id'', PStr ''b''), (''pid'', PInt 7),
        (''start_token'', PStr ''t'')]),
     (''review_dimensions'', PList [PStr ''correctness'', PStr ''security''])]"

lemma identifier_of_ok: "is_identifier (PStr s) \<Longrightarrow> identifier_of code (PStr s) = Inr s"
  by (simp add: identifier_of_def)

lemma digest_ok: "is_digest (PStr s) \<Longrightarrow> digest code (PStr s) = Inr s"
  by (simp add: digest_def)

lemma sample_identifiers:
  "is_identifier (PStr ''review'')" "is_identifier (PStr ''req'')" "is_identifier (PStr ''act'')"
  "is_identifier (PStr ''int'')" "is_identifier (PStr ''e1'')" "is_identifier (PStr ''log'')"
  "is_identifier (PStr ''h'')" "is_identifier (PStr ''b'')" "is_identifier (PStr ''t'')"
  "is_identifier (PStr ''correctness'')" "is_identifier (PStr ''security'')"
  by code_simp+

lemma sample_digest_ok: "is_digest (PStr sample_digest)"
  by code_simp

lemmas receipt_eval = canonical_def identifier_of_ok digest_ok sample_identifiers sample_digest_ok
  dict_has_keys_def dict_keys_def dict_get_def receipt_fields_def receipt_roles_def receipt_names_def
  receipt_digests_def receipt_statuses_def receipt_evidence_def receipt_process_identity_def
  identifier_list_def is_positive_int_def hashable_def

lemma sample_accepts:
  assumes "v = sample_receipt \<or> v = PDict (rev (dict_of sample_receipt))"
  shows "\<exists>r. validate_role_receipt H [PStr ''security''] v = Inr r \<and> rr_role r = ''review'' \<and>
     rr_completion_status r = ''succeeded'' \<and> rr_receipt_hash r = H (json_dumps v)"
  using assms unfolding validate_role_receipt_def sample_receipt_def
  by (elim disjE) (simp_all add: receipt_eval Let_def insert_commute)

theorem role_receipt_sound_witness:
  "\<exists>r. validate_role_receipt id [PStr ''security''] sample_receipt = Inr r \<and> rr_role r = ''review'' \<and>
     rr_completion_status r = ''succeeded'' \<and> {PStr ''security''} \<subseteq> PStr ` set (rr_review_dimensions r) \<and>
     list_all evidence_item (rr_evidence r) \<and> hash_text (PStr (rr_runtime_hash r))"
proof -
  obtain r where r: "validate_role_receipt id [PStr ''security''] sample_receipt = Inr r"
      "rr_role r = ''review''" "rr_completion_status r = ''succeeded''"
    using sample_accepts by blast
  have "set [PStr ''security''] \<subseteq> PStr ` set (rr_review_dimensions r) \<and> list_all evidence_item (rr_evidence r)
      \<and> hash_text (PStr (rr_runtime_hash r))"
    using role_receipt_sound [OF r(1)] r(2,3) by blast
  with r show ?thesis by (intro exI [of _ r]) simp
qed

theorem role_receipt_hash_binds_witness:
  "\<exists>r s. validate_role_receipt id [PStr ''security''] sample_receipt = Inr r \<and>
     validate_role_receipt id [PStr ''security''] (PDict (rev (dict_of sample_receipt))) = Inr s \<and>
     rr_candidate_hash r = rr_candidate_hash s"
proof -
  let ?w = "PDict (rev (dict_of sample_receipt))"
  obtain r where r: "validate_role_receipt id [PStr ''security''] sample_receipt = Inr r"
      "rr_receipt_hash r = json_dumps sample_receipt"
    using sample_accepts [of sample_receipt id] by auto
  obtain s where s: "validate_role_receipt id [PStr ''security''] ?w = Inr s"
      "rr_receipt_hash s = json_dumps ?w"
    using sample_accepts [of ?w id] by auto
  have wf: "py_wf sample_receipt" "py_wf ?w" by (simp_all add: sample_receipt_def)
  have "json_dumps sample_receipt = json_dumps ?w"
    unfolding json_dumps_def by (rule arg_cong [where f = json_raw]) (simp add: sample_receipt_def)
  then have "rr_receipt_hash r = rr_receipt_hash s" using r(2) s(2) by simp
  from role_receipt_hash_binds [OF r(1) s(1) wf _ this] r(1) s(1) show ?thesis by auto
qed

text \<open>
  C40: the canonical encoding of a document identifies it up to the order of dictionary keys: two
  accepted documents, whose floats carry the text Python gives a finite float (\<open>finite_floats\<close>), have the same
  encoding exactly when they are equal after sorting their keys, and then they have the same hash.
\<close>

theorem canonical_binds:
  assumes "canonical H code v = Inr (m, e, h)" and "canonical H code' w = Inr (m', e', h')"
    and "finite_floats v" and "finite_floats w"
  shows "(e = e' \<longleftrightarrow> sort_keys v = sort_keys w) \<and> PDict m = v \<and> h = H e \<and> h' = H e'"
proof -
  have "e = json_dumps v \<and> PDict m = v \<and> h = H e" "e' = json_dumps w \<and> h' = H e'"
    using assms(1,2) by (auto simp: canonical_def split: pyval.splits if_splits)
  then show ?thesis using json_dumps_inj [OF assms(3,4)] by simp
qed

theorem canonical_binds_witness:
  "json_dumps (PDict [(''b'', PFloat ''1.5''), (''a'', PStr ''x'')]) = json_dumps (PDict [(''a'', PStr ''x''), (''b'', PFloat ''1.5'')])"
proof -
  let ?v = "PDict [(''b'', PFloat ''1.5''), (''a'', PStr ''x'')]" and ?w = "PDict [(''a'', PStr ''x''), (''b'', PFloat ''1.5'')]"
  have "canonical id ''E'' ?v = Inr ([(''b'', PFloat ''1.5''), (''a'', PStr ''x'')], json_dumps ?v, json_dumps ?v)"
    "canonical id ''E'' ?w = Inr ([(''a'', PStr ''x''), (''b'', PFloat ''1.5'')], json_dumps ?w, json_dumps ?w)"
    by (simp_all add: canonical_def)
  moreover have "finite_floats ?v" "finite_floats ?w" by code_simp+
  ultimately have "json_dumps ?v = json_dumps ?w \<longleftrightarrow> sort_keys ?v = sort_keys ?w"
    using canonical_binds [of id "''E''" ?v _ _ _ "''E''" ?w] by blast
  then show ?thesis by simp
qed

end
