(* ===== verification/Store.thy ===== *)
theory Store
  imports Run_Policy
begin

text \<open>
  The control database of \<open>lib/run_state/state.py\<close>: one record per table row with the columns
  the modelled operations read or write, the database as the record of its tables, and the
  environment an operation runs in (hash, clock samples, process probes, fresh identifiers).

  The columns \<open>created_at\<close>, \<open>updated_at\<close>, \<open>released_at\<close> and \<open>completed_at\<close> are written and
  never read by the modelled operations and are left out. A JSON column is kept as the value it
  encodes. Integers are mathematical; the code refuses the inputs above \<open>2^63 - 1\<close> that SQLite
  could not store.
\<close>

section \<open>Rows\<close>

text \<open>\<open>process_identity.ProcessIdentity\<close>, and the result of a liveness probe.\<close>

record ident =
  id_host :: string
  id_boot :: string
  id_pid :: int
  id_start :: string

datatype liveness = LIVE | DEAD | UNKNOWN

text \<open>\<open>ownership.OwnerToken\<close>.\<close>

record owner_token =
  tk_run :: string
  tk_workspace :: string
  tk_objective :: string
  tk_repo :: string
  tk_scope :: string
  tk_generation :: int
  tk_nonce :: string
  tk_role :: string

text \<open>\<open>control_reservations\<close>; a held \<open>(resource_type, resource_key)\<close> is unique.\<close>

record reservation =
  rs_owner_set :: string
  rs_type :: string
  rs_key :: string
  rs_generation :: int
  rs_nonce :: string
  rs_owner :: ident
  rs_held :: bool

record context_run =
  cr_repo :: string
  cr_run :: string
  cr_objective :: string
  cr_scope :: string
  cr_workspace_key :: string
  cr_state :: string
  cr_activity :: string
  cr_writer :: "string option"
  cr_input :: string
  cr_request_key :: "string option"
  cr_request_digest :: "string option"
  cr_preparation :: "string option"

record activity =
  ac_id :: string
  ac_repo :: string
  ac_run :: string
  ac_kind :: string
  ac_input :: string
  ac_revision :: int
  ac_state :: string
  ac_retry_budget :: int
  ac_remaining :: int
  ac_runtime :: "string option"
  ac_result :: "pyval option"
  ac_request_key :: string
  ac_generation :: int

record intent =
  in_id :: string
  in_activity :: string
  in_ordinal :: int
  in_state :: string
  in_generation :: int
  in_exempt :: bool
  in_child :: "ident option"
  in_ack :: "string option"
  in_permit :: "string option"
  in_completion :: "string option"
  in_evidence :: "string option"
  in_usage :: "int option"

record run_limits =
  rl_repo :: string
  rl_run :: string
  rl_dispatch_limit :: int
  rl_token_limit :: int
  rl_capacity :: int
  rl_dispatch_used :: int
  rl_committed :: int
  rl_used :: int
  rl_generation :: int

record capacity_revision =
  cv_repo :: string
  cv_run :: string
  cv_revision :: int
  cv_capacity :: int
  cv_expected :: int
  cv_key :: string
  cv_generation :: int

record current_capacity =
  cc_repo :: string
  cc_run :: string
  cc_revision :: int
  cc_capacity :: int

record accounting =
  la_intent :: string
  la_repo :: string
  la_run :: string
  la_reservation :: int
  la_final :: "int option"

record cohort =
  co_id :: string
  co_repo :: string
  co_run :: string
  co_key :: string
  co_membership :: string
  co_count :: int
  co_state :: string
  co_generation :: int

record cohort_member =
  cm_cohort :: string
  cm_ordinal :: nat
  cm_intent :: string
  cm_activity :: string
  cm_key :: string
  cm_payload :: string
  cm_payload_hash :: string
  cm_tokens :: int
  cm_receipt :: string
  cm_input :: string
  cm_ack :: "string option"
  cm_child :: "ident option"

record child_binding =
  cb_activity :: string
  cb_parent :: string
  cb_role :: string
  cb_candidate :: string
  cb_contract :: string
  cb_runtime :: string
  cb_workspace :: string
  cb_preparation :: "string option"

record event_key =
  ek_activity :: string
  ek_key :: string
  ek_hash :: string
  ek_event :: nat

record debit =
  bd_id :: string
  bd_repo :: string
  bd_run :: string
  bd_activity :: string
  bd_key :: string
  bd_amount :: int
  bd_remaining :: int

record grant =
  gr_id :: string
  gr_repo :: string
  gr_run :: string
  gr_action :: string
  gr_target :: string
  gr_provenance :: string
  gr_expires :: string
  gr_key :: string
  gr_consumed :: bool
  gr_consume_key :: "string option"
  gr_generation :: int

record decision =
  de_id :: string
  de_repo :: string
  de_run :: string
  de_gate :: string
  de_status :: bool
  de_hashes :: pyval
  de_evidence :: pyval
  de_provenance :: pyval
  de_dependencies :: "string list"
  de_expires :: string
  de_generation :: int

record policy_budget =
  pb_repo :: string
  pb_run :: string
  pb_tier :: string
  pb_mode :: string
  pb_launch_limit :: int
  pb_active_limit :: int
  pb_charged :: int
  pb_active_ns :: int
  pb_boot :: string
  pb_last_ns :: int
  pb_last_wall :: int
  pb_clock_active :: bool
  pb_uncertain :: bool
  pb_capacity_wait :: int
  pb_operator_wait :: int

record policy_action =
  pa_id :: string
  pa_repo :: string
  pa_run :: string
  pa_action :: string
  pa_logical :: string
  pa_input :: string
  pa_cycle :: "int option"
  pa_mutation :: bool
  pa_state :: string
  pa_attempts :: int
  pa_receipt :: "string option"
  pa_intent :: "string option"

record clock_reconciliation =
  rc_hash :: string
  rc_repo :: string
  rc_run :: string
  rc_old_boot :: string
  rc_old_ns :: int
  rc_new_boot :: string
  rc_new_ns :: int
  rc_interval :: int
  rc_evidence :: string

record work_interval =
  wi_id :: string
  wi_repo :: string
  wi_run :: string
  wi_generation :: int
  wi_kind :: string
  wi_state :: string
  wi_started :: int
  wi_completed :: "int option"
  wi_boot :: string

record migration_epoch =
  me_run :: string
  me_epoch :: int
  me_writer :: string

record migration_entry =
  mj_run :: "string option"
  mj_disposition :: string
  mj_checkpoint :: string

record migration =
  mg_epochs :: "migration_epoch list"
  mg_journal :: "migration_entry list"

section \<open>Acceptance, frontend policy and context rows\<close>

text \<open>
  The rows of the acceptance and frontend policy tables, and of the tables other modules write and the
  modelled operations read (\<open>context_requests\<close>, \<open>context_workspaces\<close>, local check receipts, the
  integration journal). A JSON column is the value it encodes, with its keys in sorted order; the
  columns with the hash of such a text are kept.
\<close>

record context_request =
  cq_repo :: string
  cq_key :: string
  cq_digest :: string
  cq_run :: string

record workspace =
  ws_id :: string
  ws_repo :: "string option"
  ws_run :: string
  ws_path :: string
  ws_branch :: string
  ws_base :: string
  ws_common :: string
  ws_created :: bool
  ws_generation :: int
  ws_state :: string
  ws_parent :: "string option"
  ws_activity :: "string option"
  ws_role :: "string option"
  ws_request :: "string option"
  ws_manifest :: pyval
  ws_record :: pyval

record local_receipt =
  lo_hash :: string
  lo_producer :: string
  lo_workspace :: string
  lo_acceptance :: string
  lo_check :: string
  lo_generation :: int
  lo_material :: pydict

record journal_row =
  jr_repo :: string
  jr_run :: string
  jr_preparation :: string
  jr_wave :: string
  jr_activity :: string
  jr_event :: nat
  jr_intent :: string
  jr_generation :: int
  jr_ack :: string
  jr_permit :: string
  jr_contract :: pyval
  jr_hash :: string
  jr_state :: string
  jr_evidence :: "pyval option"
  jr_publication :: "int option"

record contract_row =
  ct_repo :: string
  ct_run :: string
  ct_generation :: int
  ct_hash :: string
  ct_parent :: "string option"
  ct_material :: pydict
  ct_material_hash :: string
  ct_requirements :: "string list"
  ct_active :: "string list"
  ct_amendment_id :: "string option"
  ct_amendment :: "pydict option"

record obligation_row =
  ob_repo :: string
  ob_run :: string
  ob_id :: string
  ob_material :: pydict
  ob_material_hash :: string
  ob_requirements :: "string list"
  ob_status :: string
  ob_created :: int
  ob_activated :: "int option"

record draft_row =
  dr_repo :: string
  dr_run :: string
  dr_id :: string
  dr_revision :: int
  dr_generation :: int
  dr_contract :: string
  dr_hash :: string
  dr_material :: pydict
  dr_material_hash :: string

record seal_row =
  se_repo :: string
  se_run :: string
  se_generation :: int
  se_draft :: string
  se_revision :: int
  se_draft_hash :: string
  se_contract_generation :: int
  se_contract :: string
  se_hash :: string
  se_material :: pydict
  se_material_hash :: string

record receipt_row =
  ar_repo :: string
  ar_run :: string
  ar_acceptance :: string
  ar_hash :: string
  ar_receipt :: pydict

record policy_state =
  ps_repo :: string
  ps_run :: string
  ps_acceptance :: string
  ps_stage :: string
  ps_candidate :: string
  ps_generation :: int
  ps_decision :: "pyval option"

record candidate_row =
  cd_repo :: string
  cd_run :: string
  cd_acceptance :: string
  cd_candidate :: string
  cd_receipt :: string
  cd_parent :: "string option"
  cd_generation :: int

record check_row =
  cw_repo :: string
  cw_run :: string
  cw_acceptance :: string
  cw_candidate :: string
  cw_id :: string
  cw_status :: string
  cw_evidence :: "pyval list"

record finding_row =
  fi_repo :: string
  fi_run :: string
  fi_acceptance :: string
  fi_candidate :: string
  fi_hash :: string
  fi_class :: string

record extension =
  ex_requests :: "context_request list"
  ex_workspaces :: "workspace list"
  ex_locals :: "local_receipt list"
  ex_journals :: "journal_row list"
  ex_contracts :: "contract_row list"
  ex_obligations :: "obligation_row list"
  ex_drafts :: "draft_row list"
  ex_seals :: "seal_row list"
  ex_receipts :: "receipt_row list"
  ex_states :: "policy_state list"
  ex_candidates :: "candidate_row list"
  ex_checks :: "check_row list"
  ex_findings :: "finding_row list"

definition empty_extension :: extension where
  "empty_extension = \<lparr>ex_requests = [], ex_workspaces = [], ex_locals = [], ex_journals = [], ex_contracts = [],
     ex_obligations = [], ex_drafts = [], ex_seals = [], ex_receipts = [], ex_states = [], ex_candidates = [],
     ex_checks = [], ex_findings = []\<rparr>"

section \<open>The database\<close>

text \<open>
  \<open>db_receipts\<close> holds the producer activities of the runtime receipts and \<open>db_qualified\<close> the
  intents of the qualification launches. \<open>db_context\<close> and \<open>db_migration\<close> are \<^const>\<open>None\<close> in a store in which those optional tables
  were never installed; \<open>db_policy_installed\<close> says whether the policy tables exist.
\<close>

record db =
  db_generation :: int
  db_reservations :: "reservation list"
  db_events :: "(string \<times> pyval) list"
  db_context :: "context_run list option"
  db_migration :: "migration option"
  db_activities :: "activity list"
  db_intents :: "intent list"
  db_limits :: "run_limits list"
  db_revisions :: "capacity_revision list"
  db_capacity :: "current_capacity list"
  db_accounting :: "accounting list"
  db_cohorts :: "cohort list"
  db_members :: "cohort_member list"
  db_bindings :: "child_binding list"
  db_receipts :: "string list"
  db_qualified :: "string list"
  db_keys :: "event_key list"
  db_debits :: "debit list"
  db_grants :: "grant list"
  db_decisions :: "decision list"
  db_policy_installed :: bool
  db_budgets :: "policy_budget list"
  db_actions :: "policy_action list"
  db_attempts :: "(string \<times> string) list"
  db_reconciliations :: "clock_reconciliation list"
  db_intervals :: "work_interval list"
  db_tables :: extension

text \<open>A freshly initialized authority: the schema, generation zero and no rows.\<close>

definition empty_db :: db where
  "empty_db = \<lparr>db_generation = 0, db_reservations = [], db_events = [], db_context = None,
     db_migration = None, db_activities = [], db_intents = [], db_limits = [], db_revisions = [],
     db_capacity = [], db_accounting = [], db_cohorts = [], db_members = [], db_bindings = [],
     db_receipts = [], db_qualified = [], db_keys = [], db_debits = [], db_grants = [], db_decisions = [],
     db_policy_installed = False, db_budgets = [], db_actions = [], db_attempts = [],
     db_reconciliations = [], db_intervals = [], db_tables = empty_extension\<rparr>"

section \<open>The environment of an operation\<close>

text \<open>
  What an operation reads from outside the database. \<open>w_clock n\<close> is the \<open>n\<close>-th
  \<open>(boot_id, monotonic_ns)\<close> sample of the call and \<open>w_uuid n\<close> its \<open>n\<close>-th \<open>uuid.uuid4()\<close>;
  \<open>w_probe\<close> is the native \<open>probe_identity\<close> and \<open>w_liveness\<close> the injected \<open>liveness_probe\<close>
  (absent, or a function that is \<^const>\<open>None\<close> where the probe raises or answers outside the
  three values). \<open>w_file_hash\<close> hashes a regular file, \<^const>\<open>None\<close> when it cannot be read.
\<close>

record world =
  w_sha256 :: "string \<Rightarrow> string"
  w_self :: ident
  w_canonical_workspace :: "string \<Rightarrow> string"
  w_workspace_key :: "string \<Rightarrow> string res"
  w_durable_key :: "string \<Rightarrow> string"
  w_probe :: "ident \<Rightarrow> liveness"
  w_liveness :: "(ident \<Rightarrow> liveness option) option"
  w_direct_parent :: "ident \<Rightarrow> ident \<Rightarrow> liveness"
  w_clock :: "nat \<Rightarrow> pyval \<times> pyval"
  w_wall_ns :: int
  w_mono_ns :: int
  w_uuid :: "nat \<Rightarrow> string"
  w_nonce :: string
  w_owner_set :: string
  w_now :: string
  w_file_hash :: "string \<Rightarrow> string option"
  w_read_bytes :: "string \<Rightarrow> string option"
  w_json_loads :: "string \<Rightarrow> pyval option"
  w_epoch_fence :: "(string \<times> int) option"
  w_group_gone :: "int \<Rightarrow> bool"

section \<open>Transactions\<close>

text \<open>
  The body of a \<open>with self.transaction()\<close> block maps the database to a value and the new
  database, or refuses; a refusal rolls the transaction back.
\<close>

type_synonym 'a tx = "db \<Rightarrow> ('a \<times> db) res"

definition transaction :: "'a tx \<Rightarrow> db \<Rightarrow> 'a res \<times> db" where
  "transaction body d = (case body d of Inl e \<Rightarrow> (Inl e, d) | Inr (x, d') \<Rightarrow> (Inr x, d'))"

text \<open>\<open>seq_op\<close> runs a second committed step on the result of the first, unless it refused.\<close>

definition seq_op :: "'a res \<times> db \<Rightarrow> ('a \<Rightarrow> db \<Rightarrow> 'b res \<times> db) \<Rightarrow> 'b res \<times> db" where
  "seq_op r k = (case r of (Inl e, d) \<Rightarrow> (Inl e, d) | (Inr x, d) \<Rightarrow> k x d)"

definition own_refuse :: "string \<Rightarrow> 'a res" where
  "own_refuse code = Inl (OwnershipRefused code)"

definition store_refuse :: "string \<Rightarrow> 'a res" where
  "store_refuse code = Inl (ControlStoreRefused code)"

lemma own_refuse_simps [simp]: "own_refuse c \<noteq> Inr x" "Inr x \<noteq> own_refuse c"
  "own_refuse c = Inl e \<longleftrightarrow> e = OwnershipRefused c" "own_refuse c = own_refuse c' \<longleftrightarrow> c = c'"
  by (auto simp: own_refuse_def)

lemma store_refuse_simps [simp]: "store_refuse c \<noteq> Inr x" "Inr x \<noteq> store_refuse c"
  "store_refuse c = Inl e \<longleftrightarrow> e = ControlStoreRefused c"
  by (auto simp: store_refuse_def)

text \<open>Early returns on a missing or a found row, in the shape the operations have them.\<close>

lemma case_option_refuse [simp]:
  "(case x of None \<Rightarrow> own_refuse c | Some y \<Rightarrow> f y) = Inr z \<longleftrightarrow> (\<exists>y. x = Some y \<and> f y = Inr z)"
  "(case x of None \<Rightarrow> store_refuse c | Some y \<Rightarrow> f y) = Inr z \<longleftrightarrow> (\<exists>y. x = Some y \<and> f y = Inr z)"
  "(case x of None \<Rightarrow> Inl e | Some y \<Rightarrow> f y) = Inr z \<longleftrightarrow> (\<exists>y. x = Some y \<and> f y = Inr z)"
  "(case x of None \<Rightarrow> r | Some y \<Rightarrow> own_refuse (h y)) = Inr z \<longleftrightarrow> x = None \<and> r = Inr z"
  by (cases x; simp)+

lemma transaction_rollback: "fst (transaction body d) = Inl e \<Longrightarrow> snd (transaction body d) = d"
  by (auto simp: transaction_def split: sum.splits prod.splits)

lemma transaction_commit:
  "transaction body d = (Inr x, d') \<longleftrightarrow> body d = Inr (x, d')"
  by (auto simp: transaction_def split: sum.splits prod.splits)

lemma transaction_cases:
  obtains (refused) e where "body d = Inl e" "transaction body d = (Inl e, d)"
  | (committed) x d' where "body d = Inr (x, d')" "transaction body d = (Inr x, d')"
  by (cases "body d") (auto simp: transaction_def split: prod.splits)

lemma seq_op_simps [simp]:
  "seq_op (Inl e, d) k = (Inl e, d)" "seq_op (Inr x, d) k = k x d"
  by (simp_all add: seq_op_def)

text \<open>\<open>INSERT INTO control_events\<close>; the row id is the number of rows.\<close>

definition add_event :: "string \<Rightarrow> pyval \<Rightarrow> db \<Rightarrow> db" where
  "add_event typ payload d = d\<lparr>db_events := db_events d @ [(typ, payload)]\<rparr>"

definition last_event_id :: "db \<Rightarrow> nat" where
  "last_event_id d = length (db_events d)"

lemma add_event_sel [simp]:
  "db_generation (add_event t p d) = db_generation d"
  "db_reservations (add_event t p d) = db_reservations d"
  "db_context (add_event t p d) = db_context d"
  "db_migration (add_event t p d) = db_migration d"
  "db_activities (add_event t p d) = db_activities d"
  "db_intents (add_event t p d) = db_intents d"
  "db_limits (add_event t p d) = db_limits d"
  "db_revisions (add_event t p d) = db_revisions d"
  "db_capacity (add_event t p d) = db_capacity d"
  "db_accounting (add_event t p d) = db_accounting d"
  "db_cohorts (add_event t p d) = db_cohorts d"
  "db_members (add_event t p d) = db_members d"
  "db_bindings (add_event t p d) = db_bindings d"
  "db_receipts (add_event t p d) = db_receipts d"
  "db_qualified (add_event t p d) = db_qualified d"
  "db_keys (add_event t p d) = db_keys d"
  "db_debits (add_event t p d) = db_debits d"
  "db_grants (add_event t p d) = db_grants d"
  "db_decisions (add_event t p d) = db_decisions d"
  "db_policy_installed (add_event t p d) = db_policy_installed d"
  "db_budgets (add_event t p d) = db_budgets d"
  "db_actions (add_event t p d) = db_actions d"
  "db_attempts (add_event t p d) = db_attempts d"
  "db_reconciliations (add_event t p d) = db_reconciliations d"
  "db_intervals (add_event t p d) = db_intervals d"
  "db_tables (add_event t p d) = db_tables d"
  "db_events (add_event t p d) = db_events d @ [(t, p)]"
  by (simp_all add: add_event_def)

section \<open>A concrete environment\<close>

text \<open>
  An environment in which the witnesses of the later theories run: the hash is the identity, the
  workspace paths are already canonical, every other process is dead, the clock stands still.
\<close>

definition sample_ident :: ident where
  "sample_ident = \<lparr>id_host = ''h'', id_boot = ''b'', id_pid = 7, id_start = ''s''\<rparr>"

definition sample_child :: ident where
  "sample_child = \<lparr>id_host = ''h'', id_boot = ''b'', id_pid = 8, id_start = ''c''\<rparr>"

definition sample_world :: world where
  "sample_world = \<lparr>w_sha256 = id, w_self = sample_ident, w_canonical_workspace = id,
     w_workspace_key = Inr, w_durable_key = id, w_probe = (\<lambda>i. if i = sample_ident then LIVE else DEAD),
     w_liveness = None, w_direct_parent = (\<lambda>c p. LIVE), w_clock = (\<lambda>n. (PStr ''b'', PInt 5)),
     w_wall_ns = 0, w_mono_ns = 5, w_uuid = (\<lambda>n. CHR ''u'' # nat_str n), w_nonce = ''n'', w_owner_set = ''o'',
     w_now = ''2026-01-01T00:00:00Z'', w_file_hash = (\<lambda>p. Some (replicate 64 (CHR ''a''))),
     w_read_bytes = (\<lambda>p. None), w_json_loads = (\<lambda>p. None), w_epoch_fence = None,
     w_group_gone = (\<lambda>p. True)\<rparr>"

lemma sample_world_sel [simp]:
  "w_sha256 sample_world = id" "w_self sample_world = sample_ident"
  "w_canonical_workspace sample_world = id" "w_workspace_key sample_world = Inr"
  "w_liveness sample_world = None" "w_clock sample_world n = (PStr ''b'', PInt 5)"
  "w_nonce sample_world = ''n''" "w_owner_set sample_world = ''o''"
  "w_uuid sample_world n = CHR ''u'' # nat_str n" "w_epoch_fence sample_world = None"
  "w_wall_ns sample_world = 0" "w_mono_ns sample_world = 5"
  by (simp_all add: sample_world_def)

end
