(* ===== verification/Ownership.thy ===== *)
theory Ownership
  imports Store
begin

text \<open>
  \<open>lib/run_state/ownership.py\<close>: fenced ownership of a run, a workspace and an objective. A
  reservation takes a fresh generation from the singleton counter; every managed operation
  asserts inside its transaction that the caller's token still names the held reservation. The
  theory proves mutual exclusion, that a reservation never takes a resource from an owner not
  proven dead, and that a revoked token stays revoked.
\<close>

section \<open>Requests and keys\<close>

record start_request =
  sr_run :: string
  sr_workspace :: string
  sr_objective :: string
  sr_owner :: ident
  sr_repo :: "string option"
  sr_scope :: string

definition encoded :: "(string \<times> string) list \<Rightarrow> string" where
  "encoded kvs = json_dumps (PDict (map (\<lambda>kv. (fst kv, PStr (snd kv))) kvs))"

text \<open>\<open>request.repository_id or "__isolated_low_level_namespace__"\<close>.\<close>

definition request_repo :: "start_request \<Rightarrow> string" where
  "request_repo r = (case sr_repo r of
      None \<Rightarrow> ''__isolated_low_level_namespace__''
    | Some s \<Rightarrow> if s = [] then ''__isolated_low_level_namespace__'' else s)"

definition resource_keys :: "world \<Rightarrow> string \<Rightarrow> string \<Rightarrow> string \<Rightarrow> string \<Rightarrow> string \<Rightarrow> (string \<times> string) list res" where
  "resource_keys w repo run ws scope objective =
     bindR (w_workspace_key w ws) (\<lambda>wk. Inr
       [(''run'', encoded [(''repository_id'', repo), (''run_id'', run)]),
        (''workspace'', encoded [(''workspace'', wk)]),
        (''objective'', encoded [(''repository_id'', repo), (''planning_scope'', scope),
                                 (''objective_digest'', objective)])])"

definition token_keys :: "world \<Rightarrow> owner_token \<Rightarrow> (string \<times> string) list res" where
  "token_keys w tk =
     resource_keys w (tk_repo tk) (tk_run tk) (tk_workspace tk) (tk_scope tk) (tk_objective tk)"

definition held_on :: "(string \<times> string) list \<Rightarrow> reservation \<Rightarrow> bool" where
  "held_on keys r = (rs_held r \<and> (rs_type r, rs_key r) \<in> set keys)"

definition held_reservations :: "(string \<times> string) list \<Rightarrow> db \<Rightarrow> reservation list" where
  "held_reservations keys d = filter (held_on keys) (db_reservations d)"

section \<open>Asserting and releasing ownership\<close>

definition assert_owner :: "world \<Rightarrow> owner_token \<Rightarrow> db \<Rightarrow> unit res" where
  "assert_owner w tk d =
     (if tk_role tk \<noteq> ''supervisor'' \<or> tk_generation tk \<le> 0 \<or> tk_nonce tk = []
      then own_refuse ''FENCE_REVOKED''
      else bindR (token_keys w tk) (\<lambda>keys.
        let rows = held_reservations keys d in
        if length rows \<noteq> length keys
           \<or> set (map (\<lambda>r. (rs_type r, rs_key r)) rows) \<noteq> set keys
           \<or> card (set (map rs_owner_set rows)) \<noteq> 1
           \<or> list_ex (\<lambda>r. rs_generation r \<noteq> tk_generation tk \<or> rs_nonce r \<noteq> tk_nonce tk) rows
        then own_refuse ''FENCE_REVOKED'' else Inr ()))"

definition release_match :: "string \<Rightarrow> owner_token \<Rightarrow> reservation \<Rightarrow> bool" where
  "release_match oset tk r = (rs_owner_set r = oset \<and> rs_held r
      \<and> rs_generation r = tk_generation tk \<and> rs_nonce r = tk_nonce tk)"

definition unhold :: "reservation \<Rightarrow> reservation" where
  "unhold r = r\<lparr>rs_held := False\<rparr>"

definition release_owner :: "world \<Rightarrow> owner_token \<Rightarrow> unit tx" where
  "release_owner w tk d =
     bindR (assert_owner w tk d) (\<lambda>_.
     bindR (token_keys w tk) (\<lambda>keys.
     case List.find (\<lambda>r. rs_type r = fst (hd keys) \<and> rs_key r = snd (hd keys) \<and> rs_held r
             \<and> rs_generation r = tk_generation tk \<and> rs_nonce r = tk_nonce tk) (db_reservations d) of
       None \<Rightarrow> Inl (TypeError ''NoneType'')
     | Some r0 \<Rightarrow>
         let oset = rs_owner_set r0 in
         if count_where (release_match oset tk) (db_reservations d) \<noteq> length keys
         then own_refuse ''FENCE_REVOKED''
         else Inr ((), add_event ''resources_released''
             (PDict [(''repository_id'', PStr (tk_repo tk)), (''run_id'', PStr (tk_run tk))])
             (d\<lparr>db_reservations := update_where (release_match oset tk) unhold (db_reservations d)\<rparr>))))"

section \<open>Reserving\<close>

text \<open>
  Native liveness, combined with the injected probe: the injection can only force uncertainty,
  it can never turn a live owner into a dead one.
\<close>

definition owner_status :: "world \<Rightarrow> ident \<Rightarrow> liveness" where
  "owner_status w i =
     (let native = w_probe w i in
      case w_liveness w of
        None \<Rightarrow> native
      | Some probe \<Rightarrow>
          let injected = (case probe i of None \<Rightarrow> UNKNOWN | Some s \<Rightarrow> s) in
          (case native of
             LIVE \<Rightarrow> if injected = UNKNOWN then UNKNOWN else LIVE
           | DEAD \<Rightarrow> if injected = DEAD then DEAD else UNKNOWN
           | UNKNOWN \<Rightarrow> UNKNOWN))"

text \<open>The status of every owner set of a snapshot, by its first row.\<close>

fun owner_statuses :: "world \<Rightarrow> (string \<times> liveness) list \<Rightarrow> reservation list \<Rightarrow> (string \<times> liveness) list" where
  "owner_statuses w acc [] = acc"
| "owner_statuses w acc (r # rs) =
     (if rs_owner_set r \<in> set (map fst acc) then owner_statuses w acc rs
      else owner_statuses w (acc @ [(rs_owner_set r, owner_status w (rs_owner r))]) rs)"

definition open_run :: "context_run \<Rightarrow> bool" where
  "open_run c = (cr_state c \<notin> set [''complete'', ''failed'', ''aborted''])"

definition registered_binding_conflict :: "world \<Rightarrow> start_request \<Rightarrow> string \<Rightarrow> db \<Rightarrow> string option" where
  "registered_binding_conflict w req ws d =
     (case (sr_repo req, db_context d) of
        (Some repo, Some runs) \<Rightarrow>
          (case List.find (\<lambda>c. cr_workspace_key c = w_durable_key w ws \<and> open_run c) runs of
             Some c \<Rightarrow>
               if cr_repo c \<noteq> repo \<or> cr_run c \<noteq> sr_run req then Some ''WORKSPACE_REGISTERED''
               else (case List.find (\<lambda>c. cr_repo c = repo \<and> cr_scope c = sr_scope req
                         \<and> cr_objective c = sr_objective req \<and> open_run c) runs of
                   Some c' \<Rightarrow> if cr_run c' \<noteq> sr_run req then Some ''OBJECTIVE_RESERVED'' else None
                 | None \<Rightarrow> None)
           | None \<Rightarrow> (case List.find (\<lambda>c. cr_repo c = repo \<and> cr_scope c = sr_scope req
                         \<and> cr_objective c = sr_objective req \<and> open_run c) runs of
                   Some c' \<Rightarrow> if cr_run c' \<noteq> sr_run req then Some ''OBJECTIVE_RESERVED'' else None
                 | None \<Rightarrow> None))
      | _ \<Rightarrow> None)"

definition MAX_GENERATION :: int where
  "MAX_GENERATION = 9223372036854775807"

definition held_clash :: "reservation \<Rightarrow> reservation \<Rightarrow> bool" where
  "held_clash r x = (rs_held r \<and> rs_held x \<and> rs_type x = rs_type r \<and> rs_key x = rs_key r)"

definition new_reservation :: "world \<Rightarrow> int \<Rightarrow> string \<times> string \<Rightarrow> reservation" where
  "new_reservation w gen k =
     \<lparr>rs_owner_set = w_owner_set w, rs_type = fst k, rs_key = snd k, rs_generation = gen,
      rs_nonce = w_nonce w, rs_owner = w_self w, rs_held = True\<rparr>"

fun insert_reservations :: "reservation list \<Rightarrow> reservation list \<Rightarrow> reservation list res" where
  "insert_reservations [] rows = Inr rows"
| "insert_reservations (r # rs) rows = bindR (insert_row held_clash r rows) (insert_reservations rs)"

text \<open>
  The writer transaction of one attempt: \<^const>\<open>None\<close> when the snapshot is stale (the code
  tries again), otherwise the generation of the new reservation.
\<close>

definition reserve_tx ::
  "world \<Rightarrow> start_request \<Rightarrow> string \<Rightarrow> (string \<times> string) list \<Rightarrow> reservation list \<Rightarrow> string list \<Rightarrow> int option tx"
where
  "reserve_tx w req ws keys snapshot dead d =
     (if set (held_reservations keys d) \<noteq> set snapshot then Inr (None, d)
      else (case registered_binding_conflict w req ws d of
          Some code \<Rightarrow> own_refuse code
        | None \<Rightarrow>
            let cleared = update_where (\<lambda>r. rs_owner_set r \<in> set dead \<and> rs_held r) unhold (db_reservations d) in
            if db_generation d \<ge> MAX_GENERATION then own_refuse ''GENERATION_EXHAUSTED''
            else let gen = db_generation d + 1 in
              bindR (insert_reservations (map (new_reservation w gen) keys) cleared) (\<lambda>rows.
                Inr (Some gen, add_event ''resources_reserved''
                  (PDict [(''repository_id'', PStr (request_repo req)), (''run_id'', PStr (sr_run req))])
                  (d\<lparr>db_generation := gen, db_reservations := rows\<rparr>)))))"

text \<open>
  The attempts. \<open>others i\<close> is what other processes do to the database between the snapshot of
  attempt \<open>i\<close> and its transaction.
\<close>

fun reserve_loop ::
  "world \<Rightarrow> start_request \<Rightarrow> string \<Rightarrow> (string \<times> string) list \<Rightarrow> (nat \<Rightarrow> db \<Rightarrow> db) \<Rightarrow> nat \<Rightarrow> nat \<Rightarrow> db \<Rightarrow> int res \<times> db"
where
  "reserve_loop w req ws keys others 0 i d = (own_refuse ''OWNER_CHANGED'', d)"
| "reserve_loop w req ws keys others (Suc n) i d =
     (let snapshot = held_reservations keys d; statuses = owner_statuses w [] snapshot in
      if list_ex (\<lambda>s. snd s = LIVE) statuses then (own_refuse ''OWNER_LIVE'', d)
      else if list_ex (\<lambda>s. snd s \<noteq> DEAD) statuses then (own_refuse ''OWNER_UNKNOWN'', d)
      else seq_op (transaction (reserve_tx w req ws keys snapshot (map fst statuses)) (others i d))
             (\<lambda>r d'. case r of Some gen \<Rightarrow> (Inr gen, d')
                    | None \<Rightarrow> reserve_loop w req ws keys others n (Suc i) d'))"

definition request_token :: "world \<Rightarrow> start_request \<Rightarrow> int \<Rightarrow> owner_token" where
  "request_token w req gen =
     \<lparr>tk_run = sr_run req, tk_workspace = w_canonical_workspace w (sr_workspace req),
      tk_objective = sr_objective req, tk_repo = request_repo req, tk_scope = sr_scope req,
      tk_generation = gen, tk_nonce = w_nonce w, tk_role = ''supervisor''\<rparr>"

definition reserve_resources :: "world \<Rightarrow> (nat \<Rightarrow> db \<Rightarrow> db) \<Rightarrow> start_request \<Rightarrow> db \<Rightarrow> owner_token res \<times> db" where
  "reserve_resources w others req d =
     (if sr_owner req \<noteq> w_self w then (own_refuse ''OWNER_IDENTITY_MISMATCH'', d)
      else let ws = w_canonical_workspace w (sr_workspace req) in
        case resource_keys w (request_repo req) (sr_run req) ws (sr_scope req) (sr_objective req) of
          Inl e \<Rightarrow> (Inl e, d)
        | Inr keys \<Rightarrow> seq_op (reserve_loop w req ws keys others 3 0 d)
            (\<lambda>gen d'. (Inr (request_token w req gen), d')))"

section \<open>Well-formed reservation tables\<close>

definition row_key :: "reservation \<Rightarrow> string \<times> string" where
  "row_key r = (rs_type r, rs_key r)"

definition held_keys :: "reservation list \<Rightarrow> (string \<times> string) list" where
  "held_keys rows = map row_key (filter rs_held rows)"

text \<open>The unique index on held resources, and generations bounded by the counter.\<close>

definition own_wf :: "db \<Rightarrow> bool" where
  "own_wf d = (distinct (held_keys (db_reservations d)) \<and> 0 \<le> db_generation d \<and>
     list_all (\<lambda>r. 0 < rs_generation r \<and> rs_generation r \<le> db_generation d) (db_reservations d))"

text \<open>What the token holds, read off the table.\<close>

definition holds_key :: "string \<Rightarrow> owner_token \<Rightarrow> db \<Rightarrow> string \<times> string \<Rightarrow> bool" where
  "holds_key oset tk d k = (\<exists>r \<in> set (db_reservations d). rs_held r \<and> row_key r = k
     \<and> rs_generation r = tk_generation tk \<and> rs_nonce r = tk_nonce tk \<and> rs_owner_set r = oset)"

lemma resource_keys_distinct: "resource_keys w repo run ws scope obj = Inr keys \<Longrightarrow> distinct keys \<and> length keys = 3"
  by (auto simp: resource_keys_def)

lemma token_keys_distinct: "token_keys w tk = Inr keys \<Longrightarrow> distinct keys \<and> length keys = 3"
  unfolding token_keys_def by (rule resource_keys_distinct)

lemma set_held_reservations:
  "set (held_reservations keys d) = {r \<in> set (db_reservations d). rs_held r \<and> row_key r \<in> set keys}"
  by (auto simp: held_reservations_def held_on_def row_key_def)

lemma distinct_held_reservations:
  assumes "distinct (held_keys (db_reservations d))"
  shows "distinct (map row_key (held_reservations keys d))"
proof -
  have "map row_key (held_reservations keys d) = filter (\<lambda>k. k \<in> set keys) (held_keys (db_reservations d))"
    unfolding held_reservations_def held_keys_def filter_map
    by (simp add: held_on_def comp_def row_key_def)
      (rule arg_cong [where f = "map _"], rule filter_cong, auto simp: held_on_def)
  then show ?thesis using assms by simp
qed

lemma held_unique:
  assumes "distinct (held_keys rows)" and "r \<in> set rows" "rs_held r" "r' \<in> set rows" "rs_held r'"
    and "row_key r = row_key r'"
  shows "r = r'"
  using assms unfolding held_keys_def by (auto simp: distinct_map inj_on_def)

lemma assert_owner_iff:
  assumes "own_wf d"
  shows "assert_owner w tk d = Inr () \<longleftrightarrow>
     tk_role tk = ''supervisor'' \<and> 0 < tk_generation tk \<and> tk_nonce tk \<noteq> [] \<and>
     (\<exists>keys oset. token_keys w tk = Inr keys \<and> (\<forall>k \<in> set keys. holds_key oset tk d k))"
    (is "?L \<longleftrightarrow> ?R")
proof
  assume ?L
  then obtain keys where basic: "tk_role tk = ''supervisor''" "0 < tk_generation tk" "tk_nonce tk \<noteq> []"
      "token_keys w tk = Inr keys"
    and rows: "set (map (\<lambda>r. (rs_type r, rs_key r)) (held_reservations keys d)) = set keys"
      "card (set (map rs_owner_set (held_reservations keys d))) = 1"
      "\<not> list_ex (\<lambda>r. rs_generation r \<noteq> tk_generation tk \<or> rs_nonce r \<noteq> tk_nonce tk) (held_reservations keys d)"
    by (auto simp: assert_owner_def Let_def split: if_splits)
  obtain oset where "set (map rs_owner_set (held_reservations keys d)) = {oset}"
    using rows(2) card_1_singletonE by blast
  then have oset: "rs_owner_set r = oset" if "r \<in> set (held_reservations keys d)" for r
    using that by auto
  have "holds_key oset tk d k" if k: "k \<in> set keys" for k
  proof -
    have "k \<in> set (map (\<lambda>r. (rs_type r, rs_key r)) (held_reservations keys d))"
      using k rows(1) by simp
    then obtain r where r: "r \<in> set (held_reservations keys d)" "row_key r = k"
      by (auto simp: row_key_def)
    moreover have "rs_generation r = tk_generation tk \<and> rs_nonce r = tk_nonce tk"
      using rows(3) r(1) by (auto simp: list_ex_iff)
    ultimately show ?thesis
      using oset unfolding holds_key_def set_held_reservations by blast
  qed
  with basic show ?R by blast
next
  assume ?R
  then obtain keys oset where basic: "tk_role tk = ''supervisor''" "0 < tk_generation tk" "tk_nonce tk \<noteq> []"
      "token_keys w tk = Inr keys" and hold: "\<forall>k \<in> set keys. holds_key oset tk d k"
    by blast
  let ?rows = "held_reservations keys d"
  have uniq: "distinct (held_keys (db_reservations d))" using assms by (simp add: own_wf_def)
  have row: "rs_generation r = tk_generation tk \<and> rs_nonce r = tk_nonce tk \<and> rs_owner_set r = oset"
    if "r \<in> set ?rows" for r
    using that hold held_unique [OF uniq] unfolding set_held_reservations holds_key_def by blast
  have keyset: "set (map row_key ?rows) = set keys"
  proof (intro equalityI subsetI)
    fix k assume k: "k \<in> set keys"
    from bspec [OF hold k] obtain r where "r \<in> set (db_reservations d)" "rs_held r" "row_key r = k"
      unfolding holds_key_def by blast
    then have "r \<in> set ?rows" "row_key r = k"
      using k by (simp_all add: set_held_reservations)
    then show "k \<in> set (map row_key ?rows)" by auto
  qed (auto simp: set_held_reservations)
  have "length ?rows = length keys"
    using distinct_card [OF distinct_held_reservations [OF uniq, of keys]] keyset
      distinct_card [of keys] token_keys_distinct [OF basic(4)] by simp
  moreover have "set (map rs_owner_set ?rows) = {oset}"
    using row keyset token_keys_distinct [OF basic(4)]
    by (cases ?rows) auto
  moreover have "(\<lambda>r. (rs_type r, rs_key r)) = row_key" by (simp add: row_key_def fun_eq_iff)
  ultimately show ?L
    using basic keyset row by (simp add: assert_owner_def Let_def list_ex_iff)
qed

section \<open>Table lemmas\<close>

lemma unhold_sel [simp]: "rs_held (unhold r) = False" "rs_generation (unhold r) = rs_generation r"
  "row_key (unhold r) = row_key r" "rs_nonce (unhold r) = rs_nonce r" "rs_owner_set (unhold r) = rs_owner_set r"
  by (simp_all add: unhold_def row_key_def)

lemma held_keys_unhold: "held_keys (update_where P unhold rows) = map row_key (filter (\<lambda>r. rs_held r \<and> \<not> P r) rows)"
  by (induction rows) (auto simp: held_keys_def)

lemma held_keys_unhold_subset: "set (held_keys (update_where P unhold rows)) \<subseteq> set (held_keys rows)"
  by (auto simp: held_keys_unhold) (auto simp: held_keys_def)

lemma distinct_held_keys_unhold:
  "distinct (held_keys rows) \<Longrightarrow> distinct (held_keys (update_where P unhold rows))"
  using distinct_map_filter [of row_key "filter rs_held rows" "\<lambda>r. \<not> P r"]
  by (simp add: held_keys_unhold) (simp add: held_keys_def)

lemma in_unhold_held: "r \<in> set (update_where P unhold rows) \<Longrightarrow> rs_held r \<Longrightarrow> r \<in> set rows \<and> \<not> P r"
  by (auto simp: set_update_where split: if_splits)

lemma in_unhold_generation:
  "r \<in> set (update_where P unhold rows) \<Longrightarrow> \<exists>r' \<in> set rows. rs_generation r = rs_generation r'"
  by (auto simp: set_update_where split: if_splits)

lemma insert_reservations_Inr:
  "insert_reservations rs rows = Inr rows' \<Longrightarrow> list_all rs_held rs \<Longrightarrow> distinct (held_keys rows) \<Longrightarrow>
     rows' = rows @ rs \<and> distinct (held_keys rows') \<and> row_key ` set rs \<inter> set (held_keys rows) = {}"
proof (induction rs arbitrary: rows)
  case (Cons r rs)
  then have no_clash: "\<forall>x \<in> set rows. \<not> held_clash r x"
    and rest: "insert_reservations rs (rows @ [r]) = Inr rows'" by auto
  have fresh: "row_key r \<notin> set (held_keys rows)"
    using no_clash Cons.prems(2) by (auto simp: held_clash_def held_keys_def row_key_def)
  have ext: "held_keys (rows @ [r]) = held_keys rows @ [row_key r]"
    using Cons.prems(2) by (simp add: held_keys_def)
  have "rows' = (rows @ [r]) @ rs \<and> distinct (held_keys rows') \<and>
      row_key ` set rs \<inter> set (held_keys (rows @ [r])) = {}"
    by (rule Cons.IH [OF rest]) (use Cons.prems ext fresh in auto)
  then show ?case using fresh ext by auto
qed simp

lemma reserve_tx_Some:
  assumes "reserve_tx w req ws keys snapshot dead d = Inr (Some g, d')" and "own_wf d"
  shows "set (held_reservations keys d) = set snapshot \<and> g = db_generation d + 1 \<and> db_generation d' = g \<and>
      db_reservations d' = update_where (\<lambda>r. rs_owner_set r \<in> set dead \<and> rs_held r) unhold (db_reservations d)
        @ map (new_reservation w g) keys \<and> own_wf d'"
proof -
  let ?cleared = "update_where (\<lambda>r. rs_owner_set r \<in> set dead \<and> rs_held r) unhold (db_reservations d)"
  have eq: "set (held_reservations keys d) = set snapshot" "g = db_generation d + 1" "db_generation d' = g"
      "insert_reservations (map (new_reservation w g) keys) ?cleared = Inr (db_reservations d')"
    using assms(1) by (auto simp: reserve_tx_def Let_def split: if_splits option.splits)
  have dist: "distinct (held_keys ?cleared)"
    using assms(2) distinct_held_keys_unhold by (simp add: own_wf_def)
  have new: "list_all rs_held (map (new_reservation w g) keys)"
    by (simp add: list_all_iff new_reservation_def)
  note ins = insert_reservations_Inr [OF eq(4) new dist]
  have "0 < rs_generation r \<and> rs_generation r \<le> g" if "r \<in> set (db_reservations d')" for r
  proof -
    have old: "0 < rs_generation r0 \<and> rs_generation r0 \<le> db_generation d" if "r0 \<in> set (db_reservations d)" for r0
      using assms(2) that by (simp add: own_wf_def list_all_iff)
    from that ins consider "r \<in> set ?cleared" | "r \<in> new_reservation w g ` set keys" by auto
    then show ?thesis
    proof cases
      case 1
      then obtain r' where "r' \<in> set (db_reservations d)" "rs_generation r = rs_generation r'"
        using in_unhold_generation by blast
      with old [of r'] eq(2) show ?thesis by simp
    next
      case 2
      then show ?thesis using eq(2) assms(2) by (auto simp: new_reservation_def own_wf_def)
    qed
  qed
  moreover have "0 \<le> g" using eq(2) assms(2) by (simp add: own_wf_def)
  ultimately have "own_wf d'"
    unfolding own_wf_def list_all_iff eq(3) using ins by blast
  with eq ins show ?thesis by blast
qed

lemma reserve_tx_None: "reserve_tx w req ws keys snapshot dead d = Inr (None, d') \<Longrightarrow> d' = d"
  by (auto simp: reserve_tx_def Let_def split: if_splits option.splits)

lemma release_owner_Inr:
  assumes "release_owner w tk d = Inr ((), d')"
  shows "assert_owner w tk d = Inr () \<and> db_generation d' = db_generation d \<and>
     (\<exists>oset keys r0. token_keys w tk = Inr keys \<and> r0 \<in> set (db_reservations d) \<and>
       row_key r0 = hd keys \<and> release_match oset tk r0 \<and>
       db_reservations d' = update_where (release_match oset tk) unhold (db_reservations d))"
  using assms unfolding release_owner_def
  by (auto simp: Let_def row_key_def split: if_splits dest!: find_Some_in)
    (auto simp: release_match_def)

lemma release_owner_wf: "release_owner w tk d = Inr ((), d') \<Longrightarrow> own_wf d \<Longrightarrow> own_wf d'"
  using release_owner_Inr [of w tk d d'] distinct_held_keys_unhold
  by (auto simp: own_wf_def list_all_iff dest!: in_unhold_generation)

text \<open>The attempt that succeeded.\<close>

text \<open>The store after the first \<open>k\<close> interferences from the \<open>i\<close>-th on.\<close>

primrec interfered :: "(nat \<Rightarrow> db \<Rightarrow> db) \<Rightarrow> nat \<Rightarrow> nat \<Rightarrow> db \<Rightarrow> db" where
  "interfered others i 0 d = d"
| "interfered others i (Suc k) d = interfered others (Suc i) k (others i d)"

text \<open>
  A reservation that commits in its \<open>k\<close>-th attempt decided on the store after \<open>k\<close> interferences and ran its
  transaction on the next one; the attempts before it changed nothing.
\<close>

lemma reserve_loop_Inr:
  assumes "reserve_loop w req ws keys others n i d = (Inr g, d')"
    and wf: "\<And>j s. own_wf s \<Longrightarrow> own_wf (others j s)" and "own_wf d"
  shows "\<exists>k < n. \<exists>s d1. s = interfered others i k d \<and> d1 = interfered others i (Suc k) d \<and> own_wf d1 \<and>
      reserve_tx w req ws keys (held_reservations keys s)
        (map fst (owner_statuses w [] (held_reservations keys s))) d1 = Inr (Some g, d') \<and>
      list_all (\<lambda>x. snd x = DEAD) (owner_statuses w [] (held_reservations keys s))"
  using assms(1,3)
proof (induction n arbitrary: i d)
  case (Suc n)
  have wf1: "own_wf (others i d)" by (rule wf [OF Suc.prems(2)])
  let ?snap = "held_reservations keys d"
  let ?st = "owner_statuses w [] ?snap"
  have dead: "list_all (\<lambda>x. snd x = DEAD) ?st"
    using Suc.prems(1) by (auto simp: Let_def list_ex_iff list_all_iff split: if_splits)
  show ?case
  proof (cases rule: transaction_cases [of "reserve_tx w req ws keys ?snap (map fst ?st)" "others i d"])
    case (refused e)
    with Suc.prems(1) show ?thesis by (auto simp: Let_def split: if_splits)
  next
    case (committed x d2)
    show ?thesis
    proof (cases x)
      case None
      then have "d2 = others i d" using committed reserve_tx_None by blast
      then have "reserve_loop w req ws keys others n (Suc i) d2 = (Inr g, d')"
        using Suc.prems(1) committed None by (auto simp: Let_def split: if_splits)
      from Suc.IH [OF this] \<open>d2 = others i d\<close> wf1 obtain k where "k < n"
        "\<exists>s d1. s = interfered others (Suc i) k (others i d) \<and> d1 = interfered others (Suc i) (Suc k) (others i d) \<and> own_wf d1 \<and>
          reserve_tx w req ws keys (held_reservations keys s)
            (map fst (owner_statuses w [] (held_reservations keys s))) d1 = Inr (Some g, d') \<and>
          list_all (\<lambda>x. snd x = DEAD) (owner_statuses w [] (held_reservations keys s))" by blast
      then show ?thesis by (intro exI [of _ "Suc k"]) simp
    next
      case (Some g')
      with Suc.prems(1) committed have "g' = g" "d2 = d'" by (auto simp: Let_def split: if_splits)
      with Some committed dead wf1 show ?thesis by (intro exI [of _ 0]) simp
    qed
  qed
qed simp

lemma owner_statuses_sets: "set (map fst (owner_statuses w acc rs)) = fst ` set acc \<union> rs_owner_set ` set rs"
proof (induction rs arbitrary: acc)
  case (Cons r rs)
  then show ?case by (cases "rs_owner_set r \<in> set (map fst acc)") (auto simp del: owner_statuses.simps simp add: owner_statuses.simps(2))
qed simp

lemma owner_statuses_subset: "set acc \<subseteq> set (owner_statuses w acc rs)"
proof (induction rs arbitrary: acc)
  case (Cons r rs)
  show ?case
  proof (cases "rs_owner_set r \<in> set (map fst acc)")
    case True
    then show ?thesis using Cons.IH [of acc] by simp
  next
    case False
    then show ?thesis
      using Cons.IH [of "acc @ [(rs_owner_set r, owner_status w (rs_owner r))]"] by (simp del: set_map)
  qed
qed simp

lemma owner_statuses_cover:
  "r \<in> set rs \<Longrightarrow> rs_owner_set r \<notin> set (map fst acc) \<Longrightarrow>
     \<exists>r' \<in> set rs. rs_owner_set r' = rs_owner_set r \<and>
       (rs_owner_set r, owner_status w (rs_owner r')) \<in> set (owner_statuses w acc rs)"
proof (induction rs arbitrary: acc)
  case (Cons x rs)
  show ?case
  proof (cases "rs_owner_set x = rs_owner_set r")
    case True
    then have "(rs_owner_set r, owner_status w (rs_owner x)) \<in> set (owner_statuses w acc (x # rs))"
      using Cons.prems(2) owner_statuses_subset [of "acc @ [(rs_owner_set x, owner_status w (rs_owner x))]" w rs]
      by auto
    then show ?thesis using True by auto
  next
    case False
    then have r: "r \<in> set rs" using Cons.prems(1) by auto
    define acc' where "acc' = (if rs_owner_set x \<in> set (map fst acc) then acc
      else acc @ [(rs_owner_set x, owner_status w (rs_owner x))])"
    have "rs_owner_set r \<notin> set (map fst acc')" using Cons.prems(2) False by (auto simp: acc'_def)
    from Cons.IH [OF r this] obtain r' where "r' \<in> set rs" "rs_owner_set r' = rs_owner_set r"
        "(rs_owner_set r, owner_status w (rs_owner r')) \<in> set (owner_statuses w acc' rs)" by blast
    moreover have "owner_statuses w acc (x # rs) = owner_statuses w acc' rs"
      by (simp add: acc'_def)
    ultimately show ?thesis by (intro bexI [of _ r']) (simp_all del: owner_statuses.simps)
  qed
qed simp

lemma owner_status_dead: "owner_status w i = DEAD \<Longrightarrow> w_probe w i = DEAD"
  by (auto simp: owner_status_def Let_def split: option.splits liveness.splits if_splits)

lemma reserve_resources_Inr:
  assumes "reserve_resources w others req d = (Inr tk, d')"
    and "\<And>j s. own_wf s \<Longrightarrow> own_wf (others j s)" and "own_wf d"
  obtains keys s d1 j where "token_keys w tk = Inr keys" "tk = request_token w req (db_generation d')"
    "own_wf d1" "j < 3" "s = interfered others 0 j d" "d1 = interfered others 0 (Suc j) d" "sr_owner req = w_self w"
    "reserve_tx w req (w_canonical_workspace w (sr_workspace req)) keys (held_reservations keys s)
       (map fst (owner_statuses w [] (held_reservations keys s))) d1 = Inr (Some (db_generation d'), d')"
    "list_all (\<lambda>x. snd x = DEAD) (owner_statuses w [] (held_reservations keys s))"
proof -
  let ?ws = "w_canonical_workspace w (sr_workspace req)"
  obtain keys g where keys: "resource_keys w (request_repo req) (sr_run req) ?ws (sr_scope req) (sr_objective req) = Inr keys"
    and loop: "reserve_loop w req ?ws keys others 3 0 d = (Inr g, d')"
    and tk: "tk = request_token w req g" and self: "sr_owner req = w_self w"
    using assms(1) by (auto simp: reserve_resources_def Let_def seq_op_def split: if_splits sum.splits prod.splits)
  from reserve_loop_Inr [OF loop assms(2,3)] obtain j s d1 where
    j: "j < 3" "s = interfered others 0 j d" "d1 = interfered others 0 (Suc j) d"
    and t: "reserve_tx w req ?ws keys (held_reservations keys s)
      (map fst (owner_statuses w [] (held_reservations keys s))) d1 = Inr (Some g, d')"
    and dead: "list_all (\<lambda>x. snd x = DEAD) (owner_statuses w [] (held_reservations keys s))"
    and d1: "own_wf d1" by blast
  have "g = db_generation d'" using reserve_tx_Some [OF t d1] by simp
  moreover have "token_keys w tk = Inr keys"
    using keys by (simp add: token_keys_def tk request_token_def)
  ultimately show thesis using that [of keys d1 j s] t dead d1 j tk self by simp
qed

section \<open>What ownership guarantees\<close>

lemma assert_owner_same_key:
  assumes wf: "own_wf d" and ok: "assert_owner w t d = Inr ()" "assert_owner w' u d = Inr ()"
    and keys: "token_keys w t = Inr ks" "token_keys w' u = Inr ls" and shared: "k \<in> set ks" "k \<in> set ls"
  shows "tk_generation t = tk_generation u \<and> tk_nonce t = tk_nonce u"
proof -
  obtain o1 where "holds_key o1 t d k"
    using assert_owner_iff [OF wf, THEN iffD1, OF ok(1)] keys(1) shared(1) by auto
  moreover obtain o2 where "holds_key o2 u d k"
    using assert_owner_iff [OF wf, THEN iffD1, OF ok(2)] keys(2) shared(2) by auto
  ultimately obtain r r' where rr: "r \<in> set (db_reservations d)" "rs_held r" "row_key r = k"
      "rs_generation r = tk_generation t" "rs_nonce r = tk_nonce t"
      "r' \<in> set (db_reservations d)" "rs_held r'" "row_key r' = k"
      "rs_generation r' = tk_generation u" "rs_nonce r' = tk_nonce u"
    unfolding holds_key_def by blast
  have "distinct (held_keys (db_reservations d))" using wf by (simp add: own_wf_def)
  from held_unique [OF this rr(1,2,6,7)] rr have "r = r'" by simp
  with rr show ?thesis by simp
qed

lemma reserve_accepts:
  assumes "reserve_resources w others req d = (Inr tk, d')"
    and "\<And>j s. own_wf s \<Longrightarrow> own_wf (others j s)" and "own_wf d" and "w_nonce w \<noteq> []"
  shows "own_wf d' \<and> tk_generation tk = db_generation d' \<and> assert_owner w tk d' = Inr ()"
proof -
  from reserve_resources_Inr [OF assms(1-3)] obtain keys s d1 j where
      keys: "token_keys w tk = Inr keys" and tk: "tk = request_token w req (db_generation d')"
    and wf1: "own_wf d1" and t: "reserve_tx w req (w_canonical_workspace w (sr_workspace req)) keys
        (held_reservations keys s) (map fst (owner_statuses w [] (held_reservations keys s))) d1
      = Inr (Some (db_generation d'), d')" by metis
  note r = reserve_tx_Some [OF t wf1]
  have wf': "own_wf d'" using r by simp
  have pos: "0 < db_generation d'" using r wf1 by (simp add: own_wf_def)
  have "holds_key (w_owner_set w) tk d' k" if "k \<in> set keys" for k
    unfolding holds_key_def
    by (rule bexI [of _ "new_reservation w (db_generation d') k"])
      (use that r in \<open>auto simp: new_reservation_def row_key_def tk request_token_def\<close>)
  moreover have "tk_role tk = ''supervisor''" "0 < tk_generation tk" "tk_nonce tk \<noteq> []"
    using pos assms(4) by (simp_all add: tk request_token_def)
  ultimately have "assert_owner w tk d' = Inr ()"
    using assert_owner_iff [OF wf'] keys by blast
  with wf' show ?thesis by (simp add: tk request_token_def)
qed

text \<open>
  The steps of the reservation table: a committed reservation, a committed release, and any
  other operation, which leaves the generation and the reservations as they are.
\<close>

inductive own_step :: "db \<Rightarrow> db \<Rightarrow> bool" where
  reserve: "reserve_tx w req ws keys snapshot dead d = Inr (Some g, d') \<Longrightarrow> own_step d d'"
| release: "release_owner w tk d = Inr ((), d') \<Longrightarrow> own_step d d'"
| other: "db_reservations d' = db_reservations d \<Longrightarrow> db_generation d' = db_generation d \<Longrightarrow> own_step d d'"

inductive_cases own_step_elim: "own_step d d'"

lemma own_step_wf: "own_step d d' \<Longrightarrow> own_wf d \<Longrightarrow> own_wf d' \<and> db_generation d \<le> db_generation d'"
proof (erule own_step_elim)
  fix w tk assume "release_owner w tk d = Inr ((), d')" "own_wf d"
  then show "own_wf d' \<and> db_generation d \<le> db_generation d'"
    using release_owner_wf release_owner_Inr by fastforce
qed (auto dest!: reserve_tx_Some simp: own_wf_def)

lemma own_step_held:
  assumes "own_step d d'" and "own_wf d" and "r \<in> set (db_reservations d')" and "rs_held r"
    and "rs_generation r \<le> db_generation d"
  shows "r \<in> set (db_reservations d)"
  using assms(1)
proof cases
  case (reserve w req ws keys snapshot dead g)
  then have "r \<in> set (update_where (\<lambda>r. rs_owner_set r \<in> set dead \<and> rs_held r) unhold (db_reservations d))
      \<or> r \<in> new_reservation w g ` set keys" and "g = db_generation d + 1"
    using reserve_tx_Some [OF reserve assms(2)] assms(3) by auto
  then show ?thesis
    using assms(4,5) in_unhold_held by (auto simp: new_reservation_def)
next
  case (release w tk)
  then show ?thesis using release_owner_Inr assms(3,4) in_unhold_held by metis
next
  case other
  then show ?thesis using assms(3) by simp
qed

lemma own_steps_wf: "own_step\<^sup>*\<^sup>* d d' \<Longrightarrow> own_wf d \<Longrightarrow> own_wf d' \<and> db_generation d \<le> db_generation d'"
  by (induction rule: rtranclp_induct) (auto dest: own_step_wf)

lemma own_steps_held:
  "own_step\<^sup>*\<^sup>* d d' \<Longrightarrow> own_wf d \<Longrightarrow> r \<in> set (db_reservations d') \<Longrightarrow> rs_held r \<Longrightarrow>
     rs_generation r \<le> db_generation d \<Longrightarrow> r \<in> set (db_reservations d)"
proof (induction rule: rtranclp_induct)
  case (step y z)
  from own_steps_wf [OF step.hyps(1) step.prems(1)] have wf: "own_wf y" "db_generation d \<le> db_generation y"
    by auto
  from own_step_held [OF step.hyps(2) wf(1) step.prems(2,3)] wf(2) step.prems(4)
  have "r \<in> set (db_reservations y)" by simp
  from step.IH [OF step.prems(1) this step.prems(3,4)] show ?case .
qed simp

lemma accepted_backwards:
  assumes steps: "own_step\<^sup>*\<^sup>* d d'" and wf: "own_wf d" and old: "tk_generation tk \<le> db_generation d"
    and ok: "assert_owner w tk d' = Inr ()"
  shows "assert_owner w tk d = Inr ()"
proof -
  have wf': "own_wf d'" using own_steps_wf [OF steps wf] by simp
  obtain keys oset where basic: "tk_role tk = ''supervisor''" "0 < tk_generation tk" "tk_nonce tk \<noteq> []"
      "token_keys w tk = Inr keys" and hold: "\<forall>k \<in> set keys. holds_key oset tk d' k"
    using assert_owner_iff [OF wf', THEN iffD1, OF ok] by blast
  have "holds_key oset tk d k" if k: "k \<in> set keys" for k
  proof -
    from bspec [OF hold k] obtain r where r: "r \<in> set (db_reservations d')" "rs_held r" "row_key r = k"
        "rs_generation r = tk_generation tk" "rs_nonce r = tk_nonce tk" "rs_owner_set r = oset"
      unfolding holds_key_def by blast
    moreover have "r \<in> set (db_reservations d)"
      using own_steps_held [OF steps wf r(1,2)] old r(4) by simp
    ultimately show ?thesis unfolding holds_key_def by blast
  qed
  then show ?thesis using assert_owner_iff [OF wf] basic by blast
qed

text \<open>
  C20: mutual exclusion. In a well-formed store two tokens that are both accepted and name a
  common run, workspace or objective key carry the same generation and the same nonce: they are
  the same capability.
\<close>

theorem owner_mutual_exclusion:
  assumes "own_wf d" and "assert_owner w t d = Inr ()" and "assert_owner w' u d = Inr ()"
    and "token_keys w t = Inr ks" and "token_keys w' u = Inr ls" and "k \<in> set ks \<inter> set ls"
  shows "tk_generation t = tk_generation u \<and> tk_nonce t = tk_nonce u"
  using assert_owner_same_key [OF assms(1-5), of k] assms(6) by simp

text \<open>
  C21: a reservation, whatever other processes do to the store between its snapshots and its
  transactions, commits in one of three attempts. On the store its transaction found (\<open>interfered\<close>), it takes a
  generation above every earlier reservation; it unholds exactly the owner sets that held one of its
  keys there, each of which was probed dead, and adds its own rows; its token is then accepted.
\<close>

theorem reserve_resources_safe:
  assumes "reserve_resources w others req d = (Inr tk, d')"
    and "\<And>j s. own_wf s \<Longrightarrow> own_wf (others j s)" and "own_wf d" and "w_nonce w \<noteq> []"
  shows "assert_owner w tk d' = Inr () \<and> own_wf d' \<and>
    (\<exists>j keys found. j < 3 \<and> token_keys w tk = Inr keys \<and> found = interfered others 0 (Suc j) d \<and>
      tk_generation tk = db_generation found + 1 \<and> db_generation d' = tk_generation tk \<and>
      (\<forall>r \<in> set (db_reservations found). rs_generation r < tk_generation tk) \<and>
      (\<forall>r \<in> set (held_reservations keys found). \<exists>r' \<in> set (held_reservations keys found).
         rs_owner_set r' = rs_owner_set r \<and> w_probe w (rs_owner r') = DEAD) \<and>
      db_reservations d' =
        update_where (\<lambda>r. rs_owner_set r \<in> rs_owner_set ` set (held_reservations keys found) \<and> rs_held r) unhold (db_reservations found)
        @ map (new_reservation w (tk_generation tk)) keys)"
proof -
  from reserve_resources_Inr [OF assms(1-3)] obtain keys s d1 j where
      keys: "token_keys w tk = Inr keys" and tk: "tk = request_token w req (db_generation d')"
    and j: "j < 3" "d1 = interfered others 0 (Suc j) d"
    and wf1: "own_wf d1" and t: "reserve_tx w req (w_canonical_workspace w (sr_workspace req)) keys
        (held_reservations keys s) (map fst (owner_statuses w [] (held_reservations keys s))) d1
      = Inr (Some (db_generation d'), d')"
    and dead: "list_all (\<lambda>x. snd x = DEAD) (owner_statuses w [] (held_reservations keys s))" by metis
  note r = reserve_tx_Some [OF t wf1]
  have gen: "tk_generation tk = db_generation d1 + 1" "db_generation d' = tk_generation tk"
    using r by (simp_all add: tk request_token_def)
  have old: "\<forall>r \<in> set (db_reservations d1). rs_generation r < tk_generation tk"
    using wf1 gen by (auto simp: own_wf_def list_all_iff)
  have sets: "set (map fst (owner_statuses w [] (held_reservations keys s))) = rs_owner_set ` set (held_reservations keys d1)"
    using r by (simp only: owner_statuses_sets) simp
  have probed: "\<exists>r' \<in> set (held_reservations keys d1). rs_owner_set r' = rs_owner_set x \<and> w_probe w (rs_owner r') = DEAD"
    if x: "x \<in> set (held_reservations keys d1)" for x
  proof -
    have "x \<in> set (held_reservations keys s)" using x r by simp
    from owner_statuses_cover [OF this, of "[]" w] obtain r' where r': "r' \<in> set (held_reservations keys s)"
        "rs_owner_set r' = rs_owner_set x"
        "(rs_owner_set x, owner_status w (rs_owner r')) \<in> set (owner_statuses w [] (held_reservations keys s))"
      by auto
    with dead have "owner_status w (rs_owner r') = DEAD" by (auto simp: list_all_iff)
    then have "w_probe w (rs_owner r') = DEAD" by (rule owner_status_dead)
    moreover have "r' \<in> set (held_reservations keys d1)" using r' r by simp
    ultimately show ?thesis using r'(2) by blast
  qed
  have "db_reservations d' =
      update_where (\<lambda>r. rs_owner_set r \<in> rs_owner_set ` set (held_reservations keys d1) \<and> rs_held r) unhold (db_reservations d1)
      @ map (new_reservation w (tk_generation tk)) keys"
    using r unfolding sets gen(2) by blast
  with reserve_accepts [OF assms] keys gen old probed j show ?thesis by blast
qed

text \<open>
  Revocation is permanent. A token of an already issued generation that the store refuses
  once is refused after every later sequence of reservations, releases and other operations.
\<close>

theorem revoked_stays_revoked:
  assumes "own_wf d" and "tk_generation tk \<le> db_generation d" and "assert_owner w tk d \<noteq> Inr ()"
    and "own_step\<^sup>*\<^sup>* d d'"
  shows "assert_owner w tk d' \<noteq> Inr ()"
  using accepted_backwards [OF assms(4,1,2)] assms(3) by blast

lemma release_keeps_hold:
  assumes "holds_key os u d k" and "tk_generation u \<noteq> tk_generation tk"
    and "db_reservations d' = update_where (release_match oset tk) unhold (db_reservations d)"
  shows "holds_key os u d' k"
proof -
  from assms(1) obtain r where r: "r \<in> set (db_reservations d)" "rs_held r" "row_key r = k"
      "rs_generation r = tk_generation u" "rs_nonce r = tk_nonce u" "rs_owner_set r = os"
    unfolding holds_key_def by blast
  then have "r \<in> set (db_reservations d')"
    using assms(2) unfolding assms(3) set_update_where
    by (intro image_eqI [of _ _ r]) (auto simp: release_match_def)
  with r show ?thesis unfolding holds_key_def by blast
qed

text \<open>
  releasing revokes exactly the releasing token: afterwards it is refused, and every token
  of another generation that was accepted before is still accepted.
\<close>

theorem release_owner_revokes:
  assumes "release_owner w tk d = Inr ((), d')" and "own_wf d"
  shows "assert_owner w tk d' \<noteq> Inr () \<and>
    (\<forall>w' u. assert_owner w' u d = Inr () \<and> tk_generation u \<noteq> tk_generation tk
       \<longrightarrow> assert_owner w' u d' = Inr ())"
proof -
  have wf': "own_wf d'" using release_owner_wf assms by blast
  obtain oset keys r0 where rel: "token_keys w tk = Inr keys" "r0 \<in> set (db_reservations d)"
      "row_key r0 = hd keys" "release_match oset tk r0"
      "db_reservations d' = update_where (release_match oset tk) unhold (db_reservations d)"
    using release_owner_Inr [OF assms(1)] by blast
  have uniq: "distinct (held_keys (db_reservations d))" using assms(2) by (simp add: own_wf_def)
  have hd_in: "hd keys \<in> set keys" using token_keys_distinct [OF rel(1)] by (cases keys) auto
  have "\<not> holds_key os tk d' (hd keys)" for os
  proof
    assume "holds_key os tk d' (hd keys)"
    then obtain r where r: "r \<in> set (db_reservations d')" "rs_held r" "row_key r = hd keys"
      unfolding holds_key_def by blast
    from in_unhold_held [OF r(1) [unfolded rel(5)] r(2)]
    have in_d: "r \<in> set (db_reservations d)" "\<not> release_match oset tk r" by auto
    moreover have "r = r0"
      using held_unique [OF uniq in_d(1) r(2) rel(2)] rel(3,4) r(3) by (simp add: release_match_def)
    ultimately show False using rel(4) by simp
  qed
  then have "assert_owner w tk d' \<noteq> Inr ()"
    using assert_owner_iff [OF wf'] rel(1) hd_in by (metis old.sum.inject(2))
  moreover have "assert_owner w' u d' = Inr ()"
    if u: "assert_owner w' u d = Inr ()" "tk_generation u \<noteq> tk_generation tk" for w' u
  proof -
    obtain ks os where basic: "tk_role u = ''supervisor''" "0 < tk_generation u" "tk_nonce u \<noteq> []"
        "token_keys w' u = Inr ks" and hold: "\<forall>k \<in> set ks. holds_key os u d k"
      using assert_owner_iff [OF assms(2), THEN iffD1, OF u(1)] by blast
    have "holds_key os u d' k" if k: "k \<in> set ks" for k
      by (rule release_keeps_hold [OF bspec [OF hold k] u(2) rel(5)])
    then show ?thesis using assert_owner_iff [OF wf'] basic by blast
  qed
  ultimately show ?thesis by blast
qed

text \<open>Free resources can be reserved.\<close>

lemma held_keys_no_clash:
  "\<forall>k \<in> set ks. k \<notin> set (held_keys rows) \<Longrightarrow> distinct ks \<Longrightarrow>
     insert_reservations (map (new_reservation w g) ks) rows = Inr (rows @ map (new_reservation w g) ks)"
proof (induction ks arbitrary: rows)
  case (Cons k ks)
  have clash: "\<not> held_clash (new_reservation w g k) x" if "x \<in> set rows" for x
    using Cons.prems(1) that
    by (cases k) (auto simp: held_clash_def new_reservation_def held_keys_def row_key_def image_iff)
  have "held_keys (rows @ [new_reservation w g k]) = held_keys rows @ [k]"
    by (simp add: held_keys_def new_reservation_def row_key_def)
  then have "insert_reservations (map (new_reservation w g) ks) (rows @ [new_reservation w g k]) =
      Inr ((rows @ [new_reservation w g k]) @ map (new_reservation w g) ks)"
    using Cons.prems by (intro Cons.IH) auto
  with clash show ?case by (auto simp: insert_row_def list_ex_iff)
qed simp

lemma update_where_none: "(\<And>r. r \<in> set rs \<Longrightarrow> \<not> P r) \<Longrightarrow> update_where P f rs = rs"
  by (induction rs) auto

lemma reserve_free:
  assumes keys: "resource_keys w (request_repo req) (sr_run req) (w_canonical_workspace w (sr_workspace req))
      (sr_scope req) (sr_objective req) = Inr keys"
    and free: "\<forall>k \<in> set keys. k \<notin> set (held_keys (db_reservations d))"
    and self: "sr_owner req = w_self w" and none: "db_context d = None" and bound: "db_generation d < MAX_GENERATION"
  shows "reserve_resources w (\<lambda>i s. s) req d =
     (Inr (request_token w req (db_generation d + 1)),
      add_event ''resources_reserved'' (PDict [(''repository_id'', PStr (request_repo req)), (''run_id'', PStr (sr_run req))])
        (d\<lparr>db_generation := db_generation d + 1,
           db_reservations := db_reservations d @ map (new_reservation w (db_generation d + 1)) keys\<rparr>))"
proof -
  have empty: "held_reservations keys d = []"
    unfolding held_reservations_def filter_empty_conv
    using free by (auto simp: held_on_def held_keys_def row_key_def)
  have clear: "update_where (\<lambda>r. rs_owner_set r \<in> set [] \<and> rs_held r) unhold (db_reservations d) = db_reservations d"
    by (rule update_where_none) simp
  have "registered_binding_conflict w req ws d = None" for ws
    by (simp add: registered_binding_conflict_def none split: option.splits)
  then show ?thesis
    using keys self empty bound held_keys_no_clash [OF free] resource_keys_distinct [OF keys] clear
    by (simp add: reserve_resources_def Let_def numeral_3_eq_3 transaction_def reserve_tx_def)
qed

definition sample_request :: start_request where
  "sample_request = \<lparr>sr_run = ''run'', sr_workspace = ''/w'', sr_objective = ''obj'', sr_owner = sample_ident,
     sr_repo = Some ''repo'', sr_scope = []\<rparr>"

definition sample_token :: owner_token where
  "sample_token = request_token sample_world sample_request 1"

definition sample_db :: db where
  "sample_db = snd (reserve_resources sample_world (\<lambda>i s. s) sample_request empty_db)"

lemma empty_db_wf: "own_wf empty_db"
  by (simp add: own_wf_def empty_db_def held_keys_def)

lemma sample_reserved:
  "reserve_resources sample_world (\<lambda>i s. s) sample_request empty_db = (Inr sample_token, sample_db)"
proof -
  obtain keys where k: "resource_keys sample_world (request_repo sample_request) (sr_run sample_request)
      (w_canonical_workspace sample_world (sr_workspace sample_request)) (sr_scope sample_request)
      (sr_objective sample_request) = Inr keys"
    by (simp add: resource_keys_def)
  have "fst (reserve_resources sample_world (\<lambda>i s. s) sample_request empty_db) = Inr sample_token"
    by (subst reserve_free [OF k])
      (simp_all add: empty_db_def held_keys_def sample_request_def MAX_GENERATION_def sample_token_def)
  then show ?thesis by (simp add: sample_db_def prod_eq_iff)
qed

lemma sample_owner: "own_wf sample_db \<and> assert_owner sample_world sample_token sample_db = Inr ()"
  using reserve_accepts [OF sample_reserved _ empty_db_wf] by simp

lemma sample_db_sel [simp]:
  "db_activities sample_db = []" "db_intents sample_db = []" "db_bindings sample_db = []"
  "db_debits sample_db = []" "db_keys sample_db = []" "db_migration sample_db = None"
  "db_context sample_db = None" "db_limits sample_db = []" "db_accounting sample_db = []"
  "db_actions sample_db = []" "db_budgets sample_db = []" "db_attempts sample_db = []"
  "db_grants sample_db = []" "db_decisions sample_db = []" "db_revisions sample_db = []"
  "db_capacity sample_db = []" "db_members sample_db = []" "db_cohorts sample_db = []"
  "db_policy_installed sample_db = False" "db_tables sample_db = empty_extension"
proof -
  obtain keys where k: "resource_keys sample_world (request_repo sample_request) (sr_run sample_request)
      (w_canonical_workspace sample_world (sr_workspace sample_request)) (sr_scope sample_request)
      (sr_objective sample_request) = Inr keys"
    by (simp add: resource_keys_def)
  have "snd (reserve_resources sample_world (\<lambda>i s. s) sample_request empty_db) =
      add_event ''resources_reserved'' (PDict [(''repository_id'', PStr (request_repo sample_request)), (''run_id'', PStr (sr_run sample_request))])
        (empty_db\<lparr>db_generation := 1, db_reservations := map (new_reservation sample_world 1) keys\<rparr>)"
    by (subst reserve_free [OF k])
      (simp_all add: empty_db_def held_keys_def sample_request_def MAX_GENERATION_def)
  then show "db_activities sample_db = []" "db_intents sample_db = []" "db_bindings sample_db = []"
  "db_debits sample_db = []" "db_keys sample_db = []" "db_migration sample_db = None"
  "db_context sample_db = None" "db_limits sample_db = []" "db_accounting sample_db = []"
  "db_actions sample_db = []" "db_budgets sample_db = []" "db_attempts sample_db = []"
  "db_grants sample_db = []" "db_decisions sample_db = []" "db_revisions sample_db = []"
  "db_capacity sample_db = []" "db_members sample_db = []" "db_cohorts sample_db = []"
  "db_policy_installed sample_db = False" "db_tables sample_db = empty_extension"
    by (simp_all add: sample_db_def empty_db_def)
qed

lemma sample_token_sel [simp]:
  "tk_run sample_token = ''run''" "tk_repo sample_token = ''repo''" "tk_generation sample_token = 1"
  by (simp_all add: sample_token_def request_token_def sample_request_def request_repo_def)

theorem owner_mutual_exclusion_witness:
  "\<exists>ks. token_keys sample_world sample_token = Inr ks \<and> ks \<noteq> [] \<and>
     assert_owner sample_world sample_token sample_db = Inr () \<and> tk_nonce sample_token = tk_nonce sample_token"
proof -
  obtain ks where ks: "token_keys sample_world sample_token = Inr ks" "ks \<noteq> []"
    by (simp add: token_keys_def resource_keys_def)
  then obtain k where "k \<in> set ks \<inter> set ks" by (cases ks) auto
  from owner_mutual_exclusion [OF _ _ _ ks(1) ks(1) this] sample_owner ks show ?thesis
    by blast
qed

theorem reserve_resources_safe_witness:
  "assert_owner sample_world sample_token sample_db = Inr () \<and> own_wf sample_db"
  using reserve_resources_safe [OF sample_reserved _ empty_db_wf] by simp

theorem revoked_stays_revoked_witness:
  "assert_owner sample_world (sample_token\<lparr>tk_nonce := ''x''\<rparr>) sample_db \<noteq> Inr ()"
proof -
  obtain keys where keys: "token_keys sample_world sample_token = Inr keys"
    by (simp add: token_keys_def resource_keys_def)
  let ?t = "sample_token\<lparr>tk_nonce := ''x''\<rparr>"
  have "token_keys sample_world ?t = Inr keys"
    using keys by (simp add: token_keys_def)
  then have "assert_owner sample_world ?t sample_db \<noteq> Inr ()"
    using assert_owner_same_key [of sample_db sample_world sample_token sample_world ?t keys keys "hd keys"]
      sample_owner keys token_keys_distinct [OF keys]
    by (cases keys) (auto simp: sample_token_def request_token_def)
  moreover have "tk_generation ?t \<le> db_generation sample_db"
    using reserve_accepts [OF sample_reserved _ empty_db_wf] by simp
  ultimately show ?thesis
    using revoked_stays_revoked [of sample_db ?t sample_world sample_db] sample_owner by blast
qed

lemma sample_db_reservations:
  "token_keys sample_world sample_token = Inr keys \<Longrightarrow>
     db_reservations sample_db = map (new_reservation sample_world 1) keys"
proof -
  assume keys: "token_keys sample_world sample_token = Inr keys"
  then have k: "resource_keys sample_world (request_repo sample_request) (sr_run sample_request)
      (w_canonical_workspace sample_world (sr_workspace sample_request)) (sr_scope sample_request)
      (sr_objective sample_request) = Inr keys"
    by (simp add: token_keys_def sample_token_def request_token_def)
  show ?thesis
    unfolding sample_db_def
    by (subst reserve_free [OF k])
      (simp_all add: empty_db_def held_keys_def sample_request_def MAX_GENERATION_def)
qed

theorem release_owner_revokes_witness:
  "\<exists>d'. release_owner sample_world sample_token sample_db = Inr ((), d') \<and>
     assert_owner sample_world sample_token d' \<noteq> Inr ()"
proof -
  obtain keys where keys: "token_keys sample_world sample_token = Inr keys"
    by (simp add: token_keys_def resource_keys_def)
  obtain k0 ks where ks: "keys = k0 # ks" using token_keys_distinct [OF keys] by (cases keys) auto
  note rows = sample_db_reservations [OF keys]
  have all: "release_match ''o'' sample_token (new_reservation sample_world 1 k)" for k
    by (simp add: release_match_def new_reservation_def sample_token_def request_token_def)
  have "count_where (release_match ''o'' sample_token) (db_reservations sample_db) = length keys"
    using all unfolding rows by (simp add: count_where_def)
  moreover have "List.find (\<lambda>r. rs_type r = fst (hd keys) \<and> rs_key r = snd (hd keys) \<and> rs_held r
      \<and> rs_generation r = tk_generation sample_token \<and> rs_nonce r = tk_nonce sample_token)
      (db_reservations sample_db) = Some (new_reservation sample_world 1 k0)"
    unfolding rows ks by (simp add: new_reservation_def sample_token_def request_token_def)
  moreover have "rs_owner_set (new_reservation sample_world 1 k0) = ''o''"
    by (simp add: new_reservation_def)
  ultimately obtain d' where "release_owner sample_world sample_token sample_db = Inr ((), d')"
    using sample_owner keys by (simp add: release_owner_def Let_def)
  with release_owner_revokes [OF this] sample_owner show ?thesis by blast
qed

end
