(* ===== verification/Fence.thy ===== *)
theory Fence
  imports Ownership
begin

text \<open>
  What every managed operation of \<open>ControlStore\<close> starts with: the installation of the optional
  tables, the migration epoch assertion \<open>assert_migration_epoch_tx\<close>, and the owner fence. The
  locale \<open>fenced_op\<close> is the contract of an operation behind the fence; its lemmas say that a
  superseded or revoked token can do nothing through it.
\<close>

lemma isl_refuse [simp]: "isl (own_refuse c)" "isl (store_refuse c)"
  by (simp_all add: own_refuse_def store_refuse_def)

section \<open>Optional tables\<close>

definition install_policy :: "db \<Rightarrow> db" where
  "install_policy d = d\<lparr>db_policy_installed := True\<rparr>"

definition install_context :: "db \<Rightarrow> db" where
  "install_context d = d\<lparr>db_context := Some (case db_context d of None \<Rightarrow> [] | Some rs \<Rightarrow> rs)\<rparr>"

text \<open>The two databases differ at most in which optional (empty) tables are installed.\<close>

definition schema_ext :: "db \<Rightarrow> db \<Rightarrow> bool" where
  "schema_ext d d' = (d' \<in> {d, install_policy d, install_context d, install_policy (install_context d)})"

lemma schema_ext_refl [simp, intro]: "schema_ext d d"
  by (simp add: schema_ext_def)

lemma install_sel [simp]:
  "db_reservations (install_policy d) = db_reservations d" "db_generation (install_policy d) = db_generation d"
  "db_budgets (install_policy d) = db_budgets d" "db_actions (install_policy d) = db_actions d"
  "db_intents (install_policy d) = db_intents d" "db_accounting (install_policy d) = db_accounting d"
  "db_limits (install_policy d) = db_limits d" "db_activities (install_policy d) = db_activities d"
  "db_policy_installed (install_policy d)" "db_events (install_policy d) = db_events d"
  "db_attempts (install_policy d) = db_attempts d" "db_intervals (install_policy d) = db_intervals d"
  "db_keys (install_policy d) = db_keys d" "db_debits (install_policy d) = db_debits d"
  "db_revisions (install_policy d) = db_revisions d" "db_capacity (install_policy d) = db_capacity d"
  "db_bindings (install_policy d) = db_bindings d" "db_grants (install_policy d) = db_grants d"
  "db_reconciliations (install_policy d) = db_reconciliations d"
  "db_reservations (install_context d) = db_reservations d" "db_generation (install_context d) = db_generation d"
  "db_budgets (install_context d) = db_budgets d" "db_actions (install_context d) = db_actions d"
  "db_intents (install_context d) = db_intents d" "db_accounting (install_context d) = db_accounting d"
  "db_limits (install_context d) = db_limits d" "db_activities (install_context d) = db_activities d"
  "db_attempts (install_context d) = db_attempts d" "db_intervals (install_context d) = db_intervals d"
  "db_keys (install_context d) = db_keys d" "db_debits (install_context d) = db_debits d"
  "db_revisions (install_context d) = db_revisions d" "db_capacity (install_context d) = db_capacity d"
  "db_bindings (install_context d) = db_bindings d" "db_grants (install_context d) = db_grants d"
  "db_events (install_context d) = db_events d"
  "db_policy_installed (install_context d) = db_policy_installed d"
  "db_reconciliations (install_context d) = db_reconciliations d"
  "db_tables (install_policy d) = db_tables d" "db_tables (install_context d) = db_tables d"
  "db_decisions (install_policy d) = db_decisions d" "db_decisions (install_context d) = db_decisions d"
  "db_migration (install_policy d) = db_migration d" "db_migration (install_context d) = db_migration d"
  by (simp_all add: install_policy_def install_context_def)

lemma schema_ext_frame:
  "schema_ext d d' \<Longrightarrow> db_reservations d' = db_reservations d \<and> db_generation d' = db_generation d"
  by (auto simp: schema_ext_def)

lemma schema_ext_install [simp, intro]:
  "schema_ext d (install_policy d)" "schema_ext d (install_context d)"
  "schema_ext d (install_policy (install_context d))"
  by (simp_all add: schema_ext_def)

section \<open>The migration epoch\<close>

definition assert_migration_epoch :: "world \<Rightarrow> string \<Rightarrow> db \<Rightarrow> int option res" where
  "assert_migration_epoch w run d =
     (if run = [] then store_refuse ''INVALID_MIGRATION_RUN_ID''
      else case db_migration d of
        None \<Rightarrow> Inr None
      | Some m \<Rightarrow>
          (case List.find (\<lambda>e. me_run e = run) (mg_epochs m) of
             None \<Rightarrow> Inr None
           | Some e \<Rightarrow>
               if me_writer e = ''none'' then store_refuse ''MIGRATION_WRITER_PAUSED''
               else if me_writer e \<noteq> ''new'' then store_refuse ''WRITER_HANDOFF_REQUIRED''
               else if (case w_epoch_fence w of Some (r, n) \<Rightarrow> r = run \<and> me_epoch e \<noteq> n | None \<Rightarrow> False)
               then store_refuse ''MIGRATION_EPOCH_STALE''
               else (case List.find (\<lambda>j. mj_run j = Some run \<and> mj_disposition j = ''imported'') (mg_journal m) of
                   None \<Rightarrow> store_refuse ''MIGRATION_MANAGED_CONTEXT_INCOMPLETE''
                 | Some j \<Rightarrow> if mj_checkpoint j \<noteq> ''materialized''
                     then store_refuse ''MIGRATION_MANAGED_CONTEXT_INCOMPLETE'' else Inr (Some (me_epoch e)))))"

definition fence :: "world \<Rightarrow> owner_token \<Rightarrow> db \<Rightarrow> unit res" where
  "fence w tk d = bindR (assert_owner w tk d) (\<lambda>_. bindR (assert_migration_epoch w (tk_run tk) d) (\<lambda>_. Inr ()))"

lemma fence_owner: "fence w tk d = Inr u \<Longrightarrow> assert_owner w tk d = Inr ()"
  by (simp add: fence_def)

lemma fence_refuse: "assert_owner w tk d = Inl e \<Longrightarrow> fence w tk d = Inl e"
  by (simp add: fence_def)

text \<open>Selecting another writer stops the managed writer.\<close>

lemma fence_writer:
  assumes "fence w tk d = Inr ()" and "db_migration d = Some m"
    and "List.find (\<lambda>e. me_run e = tk_run tk) (mg_epochs m) = Some e"
  shows "me_writer e = ''new'' \<and> (\<forall>n. w_epoch_fence w = Some (tk_run tk, n) \<longrightarrow> me_epoch e = n)"
  using assms by (auto simp: fence_def assert_migration_epoch_def split: if_splits option.splits)

lemma assert_owner_cong:
  "db_reservations d = db_reservations d' \<Longrightarrow> assert_owner w tk d = assert_owner w tk d'"
  by (simp add: assert_owner_def held_reservations_def)

lemma assert_owner_install [simp]:
  "assert_owner w tk (install_policy d) = assert_owner w tk d"
  "assert_owner w tk (install_context d) = assert_owner w tk d"
  by (rule assert_owner_cong, simp)+

section \<open>The contract of a fenced operation\<close>

locale fenced_op =
  fixes oper :: "world \<Rightarrow> owner_token \<Rightarrow> 'i \<Rightarrow> db \<Rightarrow> 'a res \<times> db"
  assumes fenced: "assert_owner w tk d = Inl e \<Longrightarrow>
      isl (fst (oper w tk i d)) \<and> schema_ext d (snd (oper w tk i d))"
    and frame: "db_reservations (snd (oper w tk i d)) = db_reservations d \<and>
      db_generation (snd (oper w tk i d)) = db_generation d"
begin

lemma is_step: "own_step d (snd (oper w tk i d))"
  using frame by (intro own_step.other) simp_all

lemma refused: "assert_owner w tk d \<noteq> Inr () \<Longrightarrow> isl (fst (oper w tk i d)) \<and> schema_ext d (snd (oper w tk i d))"
  by (cases "assert_owner w tk d") (auto dest: fenced)

lemma success_owner: "fst (oper w tk i d) = Inr x \<Longrightarrow> assert_owner w tk d = Inr ()"
  by (rule ccontr) (use refused [of w tk d i] in simp)

lemma superseded:
  assumes "own_wf d" "tk_generation tk \<le> db_generation d" "assert_owner w tk d \<noteq> Inr ()"
    and "own_step\<^sup>*\<^sup>* d d'"
  shows "isl (fst (oper w tk i d')) \<and> schema_ext d' (snd (oper w tk i d'))"
  using accepted_backwards [OF assms(4,1,2)] assms(3) by (intro refused) blast

lemma excluded:
  assumes "own_wf d" "assert_owner w t d = Inr ()" "token_keys w t = Inr ks" "token_keys w tk = Inr ls"
    and "k \<in> set ks" "k \<in> set ls" "tk_generation tk \<noteq> tk_generation t"
  shows "isl (fst (oper w tk i d)) \<and> schema_ext d (snd (oper w tk i d))"
  using assert_owner_same_key [OF assms(1,2) _ assms(3,4,5,6)] assms(7) by (intro refused) auto

end

text \<open>How the fence of a transaction body becomes the fence of the operation.\<close>

lemma transaction_fence:
  assumes "assert_owner w tk d = Inl e" and "\<And>e. assert_owner w tk d = Inl e \<Longrightarrow> \<exists>e'. body d = Inl e'"
  shows "isl (fst (transaction body d)) \<and> snd (transaction body d) = d"
  using assms(2) [OF assms(1)] by (auto simp: transaction_def)

lemma transaction_frame:
  assumes "\<And>x d'. body d = Inr (x, d') \<Longrightarrow> f d' = f d"
  shows "f (snd (transaction body d)) = f d"
  by (cases rule: transaction_cases [of body d]) (auto dest: assms)

lemma seq_op_snd: "(\<And>x d1. snd (k x d1) = d1) \<Longrightarrow> snd (seq_op r k) = snd r"
  by (cases r; cases "fst r") auto

text \<open>A refused first step refuses the sequence.\<close>

lemma seq_op_refused: "isl (fst r) \<Longrightarrow> isl (fst (seq_op r k)) \<and> snd (seq_op r k) = snd r"
  by (cases r; cases "fst r") auto

lemma seq_op_refused_ext:
  "isl (fst r) \<and> snd r = d \<Longrightarrow> isl (fst (seq_op r k)) \<and> schema_ext d (snd (seq_op r k))"
  using seq_op_refused [of r k] by simp

end
