(* ===== verification/Policy_Budget.thy ===== *)
theory Policy_Budget
  imports Fence
begin

text \<open>
  The policy budget of a run (\<open>ControlStore\<close>, \<open>lib/run_state/state.py\<close>): the immutable tier,
  the named actions it allows, the union clock that charges productive time, and the local work
  intervals. Theorems: launches and active time are only ever charged, an uncertain clock is
  cleared by nothing but an evidenced reconciliation, action allowances are respected, and a
  reservation is idempotent.
\<close>

section \<open>Rows and inputs\<close>

definition budget_match :: "owner_token \<Rightarrow> policy_budget \<Rightarrow> bool" where
  "budget_match tk b = (pb_repo b = tk_repo tk \<and> pb_run b = tk_run tk)"

definition budget_of :: "owner_token \<Rightarrow> db \<Rightarrow> policy_budget option" where
  "budget_of tk d = List.find (budget_match tk) (db_budgets d)"

definition update_budget :: "owner_token \<Rightarrow> (policy_budget \<Rightarrow> policy_budget) \<Rightarrow> db \<Rightarrow> db" where
  "update_budget tk f d = d\<lparr>db_budgets := update_where (budget_match tk) f (db_budgets d)\<rparr>"

definition policy_identifier :: "string \<Rightarrow> pyval \<Rightarrow> string res" where
  "policy_identifier code v =
     (case v of
        PStr s \<Rightarrow> if s = [] \<or> s \<noteq> py_strip s \<or> length s > 256 then store_refuse code else Inr s
      | _ \<Rightarrow> store_refuse code)"

definition policy_monotonic :: "pyval \<Rightarrow> int res" where
  "policy_monotonic v =
     (case v of PInt i \<Rightarrow> if i < 0 then store_refuse ''POLICY_CLOCK_INVALID'' else Inr i
      | _ \<Rightarrow> store_refuse ''POLICY_CLOCK_INVALID'')"

text \<open>\<open>ControlStore._valid_digest\<close>, \<open>_valid_nonnegative_integer\<close>.\<close>

definition valid_digest :: "pyval \<Rightarrow> bool" where
  "valid_digest v = (case v of PStr s \<Rightarrow> length s = 64 \<and> list_all hex_char (py_lower s) | _ \<Rightarrow> False)"

definition valid_nonnegative_integer :: "pyval \<Rightarrow> bool" where
  "valid_nonnegative_integer v = (case v of PInt i \<Rightarrow> 0 \<le> i \<and> i \<le> 9223372036854775807 | _ \<Rightarrow> False)"

text \<open>An exception of \<open>run_policy\<close> re-raised as \<open>OwnershipRefused(error.code)\<close>.\<close>

definition as_ownership :: "'a res \<Rightarrow> 'a res" where
  "as_ownership r = (case r of Inl (RunPolicyRefused c) \<Rightarrow> own_refuse c | _ \<Rightarrow> r)"

lemma as_ownership_Inr [simp]: "as_ownership r = Inr x \<longleftrightarrow> r = Inr x"
  by (auto simp: as_ownership_def split: sum.splits py_exn.splits)

definition activity_of :: "string \<Rightarrow> db \<Rightarrow> activity option" where
  "activity_of a d = List.find (\<lambda>x. ac_id x = a) (db_activities d)"

definition intent_of :: "string \<Rightarrow> db \<Rightarrow> intent option" where
  "intent_of i d = List.find (\<lambda>x. in_id x = i) (db_intents d)"

text \<open>\<open>authority_launch_intents i JOIN authority_activities a\<close> of the token's run.\<close>

definition run_intent :: "owner_token \<Rightarrow> db \<Rightarrow> intent \<Rightarrow> bool" where
  "run_intent tk d i = list_ex (\<lambda>a. ac_id a = in_activity i \<and> ac_repo a = tk_repo tk \<and> ac_run a = tk_run tk)
     (db_activities d)"

definition event_key_of :: "string \<Rightarrow> string \<Rightarrow> db \<Rightarrow> event_key option" where
  "event_key_of a k d = List.find (\<lambda>e. ek_activity e = a \<and> ek_key e = k) (db_keys d)"

definition stopped_key :: "string \<Rightarrow> string" where
  "stopped_key intent = ''policy-child-stopped:'' @ intent"

section \<open>The union clock\<close>

text \<open>Authorized or unreconciled work of the run; reserved queues are idle.\<close>

definition run_interval_active :: "owner_token \<Rightarrow> work_interval \<Rightarrow> bool" where
  "run_interval_active tk wi = (wi_repo wi = tk_repo tk \<and> wi_run wi = tk_run tk \<and> wi_state wi = ''active'')"

definition productive_intent :: "owner_token \<Rightarrow> db \<Rightarrow> intent \<Rightarrow> bool" where
  "productive_intent tk d i = (run_intent tk d i
     \<and> in_state i \<in> set [''released_to_execute'', ''uncertain'', ''reconcile_required'']
     \<and> in_child i \<noteq> None \<and> event_key_of (in_activity i) (stopped_key (in_id i)) d = None)"

definition policy_has_productive_work :: "owner_token \<Rightarrow> db \<Rightarrow> bool" where
  "policy_has_productive_work tk d =
     (list_ex (run_interval_active tk) (db_intervals d) \<or> list_ex (productive_intent tk d) (db_intents d))"

definition unsettled_intent :: "owner_token \<Rightarrow> db \<Rightarrow> intent \<Rightarrow> bool" where
  "unsettled_intent tk d i = (run_intent tk d i
     \<and> in_state i \<notin> set [''completed_succeeded'', ''completed_failed'', ''closed_dead''])"

definition mark_uncertain :: "policy_budget \<Rightarrow> policy_budget" where
  "mark_uncertain b = b\<lparr>pb_uncertain := True\<rparr>"

definition reanchor :: "world \<Rightarrow> string \<Rightarrow> int \<Rightarrow> policy_budget \<Rightarrow> policy_budget" where
  "reanchor w boot ns b = b\<lparr>pb_boot := boot, pb_last_ns := ns, pb_last_wall := w_wall_ns w\<rparr>"

definition advance :: "world \<Rightarrow> int \<Rightarrow> int \<Rightarrow> bool \<Rightarrow> policy_budget \<Rightarrow> policy_budget" where
  "advance w active ns active_after b =
     b\<lparr>pb_active_ns := active, pb_last_ns := ns, pb_last_wall := w_wall_ns w, pb_clock_active := active_after\<rparr>"

definition policy_clock_tx ::
  "world \<Rightarrow> owner_token \<Rightarrow> string \<Rightarrow> int \<Rightarrow> bool \<Rightarrow> bool \<Rightarrow> db \<Rightarrow> bool \<times> db"
where
  "policy_clock_tx w tk boot ns active_after allow_idle_reanchor d =
     (case budget_of tk d of
        None \<Rightarrow> (True, d)
      | Some row \<Rightarrow>
          if allow_idle_reanchor \<and> \<not> pb_uncertain row \<and> pb_boot row \<noteq> boot \<and> \<not> pb_clock_active row
             \<and> \<not> policy_has_productive_work tk d \<and> \<not> list_ex (unsettled_intent tk d) (db_intents d)
          then (True, update_budget tk (reanchor w boot ns) (add_event ''policy_idle_clock_reanchored''
                  (PDict [(''repository_id'', PStr (tk_repo tk)), (''run_id'', PStr (tk_run tk)),
                     (''old_boot_id'', PStr (pb_boot row)), (''old_monotonic_ns'', PInt (pb_last_ns row)),
                     (''old_wall_ns'', PInt (pb_last_wall row)), (''new_boot_id'', PStr boot),
                     (''new_monotonic_ns'', PInt ns), (''new_wall_ns'', PInt (w_wall_ns w))]) d))
          else if pb_uncertain row \<or> pb_boot row \<noteq> boot \<or> ns < pb_last_ns row
          then (False, update_budget tk mark_uncertain d)
          else let elapsed = (if pb_clock_active row then ns - pb_last_ns row else 0);
                   active = pb_active_ns row + elapsed
               in (True, update_budget tk (advance w active ns active_after) d))"

text \<open>Explicit samples or the \<open>n\<close>-th sample of the call; \<^const>\<open>PNone\<close> is an omitted argument.\<close>

definition policy_sample :: "world \<Rightarrow> nat \<Rightarrow> pyval \<Rightarrow> pyval \<Rightarrow> (string \<times> int) res" where
  "policy_sample w n boot ns =
     (if boot \<noteq> PNone \<and> ns = PNone \<or> boot = PNone \<and> ns \<noteq> PNone then own_refuse ''POLICY_CLOCK_REQUIRED''
      else let (b, m) = (if boot = PNone then w_clock w n else (boot, ns)) in
        bindR (policy_identifier ''POLICY_CLOCK_INVALID'' b) (\<lambda>b'.
        bindR (policy_monotonic m) (\<lambda>m'. Inr (b', m'))))"

definition policy_authorize_clock_tx :: "world \<Rightarrow> owner_token \<Rightarrow> nat \<Rightarrow> pyval \<Rightarrow> pyval \<Rightarrow> string option tx" where
  "policy_authorize_clock_tx w tk n boot ns d =
     bindR (policy_sample w n boot ns) (\<lambda>(b, m).
     let (ok, d') = policy_clock_tx w tk b m (policy_has_productive_work tk d) False d in
     if \<not> ok then Inr (Some ''CLOCK_RECONCILIATION_REQUIRED'', d')
     else (case budget_of tk d' of
         None \<Rightarrow> Inl (TypeError ''NoneType'')
       | Some row \<Rightarrow>
           if pb_active_ns row \<ge> pb_active_limit row then Inr (Some ''ACTIVE_TIME_EXHAUSTED'', d')
           else Inr (None, update_budget tk (\<lambda>b. b\<lparr>pb_clock_active := True\<rparr>) d')))"

text \<open>
  The refusal of a clock mismatch is raised after the transaction that recorded it committed.
\<close>

definition preflight_tx :: "world \<Rightarrow> owner_token \<Rightarrow> pyval \<Rightarrow> pyval \<Rightarrow> bool option tx" where
  "preflight_tx w tk boot ns d =
     bindR (assert_owner w tk d) (\<lambda>_.
     bindR (policy_sample w 0 boot ns) (\<lambda>(b, m).
     case budget_of tk d of
       None \<Rightarrow> Inr (None, d)
     | Some current \<Rightarrow>
         let (ok, d') = policy_clock_tx w tk b m (pb_clock_active current) (boot = PNone \<and> ns = PNone) d
         in Inr (Some ok, d')))"

definition preflight_policy_clock :: "world \<Rightarrow> owner_token \<Rightarrow> pyval \<Rightarrow> pyval \<Rightarrow> db \<Rightarrow> unit res \<times> db" where
  "preflight_policy_clock w tk boot ns d =
     (if \<not> db_policy_installed d \<or> budget_of tk d = None then (Inr (), d)
      else seq_op (transaction (preflight_tx w tk boot ns) d) (\<lambda>r d'.
        case r of
          None \<Rightarrow> (Inr (), d')
        | Some ok \<Rightarrow>
            if \<not> ok then (own_refuse ''CLOCK_RECONCILIATION_REQUIRED'', d')
            else (case budget_of tk d' of
                None \<Rightarrow> (Inl (TypeError ''NoneType''), d')
              | Some row \<Rightarrow> if pb_active_ns row \<ge> pb_active_limit row
                  then (own_refuse ''ACTIVE_TIME_EXHAUSTED'', d') else (Inr (), d'))))"

section \<open>Configuring the budget\<close>

definition configure_tx :: "world \<Rightarrow> owner_token \<Rightarrow> policy_tier_t \<Rightarrow> string \<Rightarrow> string \<Rightarrow> int \<Rightarrow> policy_budget tx" where
  "configure_tx w tk tier mode boot ns d =
     bindR (fence w tk d) (\<lambda>_.
     case budget_of tk d of
       Some prior \<Rightarrow>
         if (pb_tier prior, pb_mode prior, pb_boot prior, pb_last_ns prior) \<noteq> (pt_name tier, mode, boot, ns)
         then own_refuse ''RUN_POLICY_IMMUTABLE'' else Inr (prior, d)
     | None \<Rightarrow>
         if list_ex (run_intent tk d) (db_intents d)
            \<or> (case List.find (\<lambda>l. rl_repo l = tk_repo tk \<and> rl_run l = tk_run tk) (db_limits d) of
                 None \<Rightarrow> False | Some l \<Rightarrow> rl_dispatch_used l \<noteq> 0)
         then own_refuse ''POLICY_LATE_CONFIGURATION_REFUSED''
         else let row = \<lparr>pb_repo = tk_repo tk, pb_run = tk_run tk, pb_tier = pt_name tier, pb_mode = mode,
                   pb_launch_limit = pt_launch_limit tier, pb_active_limit = pt_active_limit_ns tier,
                   pb_charged = 0, pb_active_ns = 0, pb_boot = boot, pb_last_ns = ns,
                   pb_last_wall = w_wall_ns w, pb_clock_active = False, pb_uncertain = False,
                   pb_capacity_wait = 0, pb_operator_wait = 0\<rparr> in
           bindR (insert_row (\<lambda>r x. pb_repo x = pb_repo r \<and> pb_run x = pb_run r) row (db_budgets d)) (\<lambda>rows.
           Inr (row, add_event ''run_policy_configured''
             (PDict [(''repository_id'', PStr (tk_repo tk)), (''run_id'', PStr (tk_run tk)),
                (''tier'', PStr (pt_name tier)), (''launch_limit'', PInt (pt_launch_limit tier)),
                (''active_limit_ns'', PInt (pt_active_limit_ns tier))]) (d\<lparr>db_budgets := rows\<rparr>))))"

definition configure_run_policy_budget ::
  "world \<Rightarrow> owner_token \<Rightarrow> pyval \<times> pyval \<times> pyval \<times> pyval \<Rightarrow> db \<Rightarrow> policy_budget res \<times> db"
where
  "configure_run_policy_budget w tk args d =
     (case args of (tier, clock_boot_id, clock_monotonic_ns, mode) \<Rightarrow>
      case bindR (as_ownership (policy_tier tier)) (\<lambda>t.
           bindR (as_ownership (recovery_mode mode)) (\<lambda>m.
           bindR (policy_identifier ''POLICY_CLOCK_INVALID'' clock_boot_id) (\<lambda>b.
           bindR (policy_monotonic clock_monotonic_ns) (\<lambda>n. Inr (t, m, b, n))))) of
        Inl e \<Rightarrow> (Inl e, d)
      | Inr (t, m, b, n) \<Rightarrow> transaction (configure_tx w tk t m b n) (install_policy (install_context d)))"

definition get_run_policy_budget :: "string \<Rightarrow> string \<Rightarrow> db \<Rightarrow> policy_budget option" where
  "get_run_policy_budget repo run d =
     (if \<not> db_policy_installed d then None
      else List.find (\<lambda>b. pb_repo b = repo \<and> pb_run b = run) (db_budgets d))"

section \<open>Named actions\<close>

definition action_match :: "owner_token \<Rightarrow> policy_action \<Rightarrow> bool" where
  "action_match tk a = (pa_repo a = tk_repo tk \<and> pa_run a = tk_run tk)"

definition action_of :: "owner_token \<Rightarrow> string \<Rightarrow> db \<Rightarrow> policy_action option" where
  "action_of tk i d = List.find (\<lambda>a. pa_id a = i \<and> action_match tk a) (db_actions d)"

text \<open>\<open>MAX(1, transport_attempts)\<close> for the actions that retry under their own grant.\<close>

definition attempts_charge :: "policy_action \<Rightarrow> int" where
  "attempts_charge a = max 1 (pa_attempts a)"

definition trial_usage :: "owner_token \<Rightarrow> int option \<Rightarrow> policy_action list \<Rightarrow> int" where
  "trial_usage tk cycle rows =
     sum_list (map attempts_charge (filter (\<lambda>a. action_match tk a \<and> pa_action a = ''recovery_trial''
       \<and> cycle \<noteq> None \<and> pa_cycle a = cycle) rows))"

definition action_usage :: "owner_token \<Rightarrow> string \<Rightarrow> policy_action list \<Rightarrow> int" where
  "action_usage tk action rows =
     sum_list (map (\<lambda>a. if pa_action a = ''repair'' then attempts_charge a else 1)
       (filter (\<lambda>a. action_match tk a \<and> pa_action a = action \<and> pa_state a \<noteq> ''cancelled'') rows))"

definition recovery_cycles :: "string list" where
  "recovery_cycles = [''recovery_cycle_normal'', ''recovery_cycle_autonomous'']"

text \<open>The allowance check of a new reservation.\<close>

definition action_allowed :: "owner_token \<Rightarrow> policy_budget \<Rightarrow> string \<Rightarrow> int option \<Rightarrow> db \<Rightarrow> unit res" where
  "action_allowed tk b action cycle d =
     bindR (as_ownership (action_limit (PStr action) (PStr (pb_tier b)))) (\<lambda>limit.
     if action \<in> set recovery_cycles \<and> action \<noteq> ''recovery_cycle_'' @ pb_mode b
     then own_refuse ''RECOVERY_MODE_CONFLICT''
     else if action = ''recovery_trial'' then
       (if cycle = None then own_refuse ''POLICY_RECOVERY_CYCLE_REQUIRED''
        else if \<not> list_ex (\<lambda>a. action_match tk a \<and> pa_action a \<in> set recovery_cycles \<and> pa_cycle a = cycle) (db_actions d)
             \<or> trial_usage tk cycle (db_actions d) \<ge> RECOVERY_TRIALS_PER_CYCLE
        then own_refuse ''RECOVERY_TRIAL_LIMIT_EXHAUSTED'' else Inr ())
     else (case limit of
         None \<Rightarrow> Inr ()
       | Some l \<Rightarrow> if action_usage tk action (db_actions d) \<ge> l
           then own_refuse ''POLICY_ACTION_LIMIT_EXHAUSTED'' else Inr ()))"

definition action_clash :: "policy_action \<Rightarrow> policy_action \<Rightarrow> bool" where
  "action_clash r x = (pa_id x = pa_id r \<or> (pa_repo x = pa_repo r \<and> pa_run x = pa_run r
     \<and> pa_action x = pa_action r \<and> pa_logical x = pa_logical r \<and> pa_input x = pa_input r)
     \<or> (pa_intent r \<noteq> None \<and> pa_intent x = pa_intent r))"

definition reserve_action_tx ::
  "world \<Rightarrow> owner_token \<Rightarrow> string \<Rightarrow> string \<Rightarrow> string \<Rightarrow> int option \<Rightarrow> int \<Rightarrow> (policy_action \<times> bool) tx"
where
  "reserve_action_tx w tk action logical input cycle overhead d =
     bindR (assert_owner w tk d) (\<lambda>_.
     case budget_of tk d of
       None \<Rightarrow> own_refuse ''RUN_POLICY_REQUIRED''
     | Some b \<Rightarrow>
         if pb_uncertain b then own_refuse ''CLOCK_RECONCILIATION_REQUIRED''
         else if pb_active_ns b \<ge> pb_active_limit b then own_refuse ''ACTIVE_TIME_EXHAUSTED''
         else (case List.find (\<lambda>a. action_match tk a \<and> pa_action a = action \<and> pa_logical a = logical
                   \<and> pa_input a = input) (db_actions d) of
             Some existing \<Rightarrow>
               if pa_state existing = ''cancelled'' then own_refuse ''POLICY_ACTION_CANCELLED''
               else Inr ((existing, True), d)
           | None \<Rightarrow>
               bindR (action_allowed tk b action cycle d) (\<lambda>_.
               if pb_charged b > pb_launch_limit b - overhead then own_refuse ''POLICY_STAGE_INFEASIBLE''
               else bindR (action_can_mutate (PStr action)) (\<lambda>mut.
                 let row = \<lparr>pa_id = w_uuid w 0, pa_repo = tk_repo tk, pa_run = tk_run tk, pa_action = action,
                     pa_logical = logical, pa_input = input, pa_cycle = cycle, pa_mutation = mut,
                     pa_state = ''reserved'', pa_attempts = 0, pa_receipt = None, pa_intent = None\<rparr> in
                 bindR (insert_row action_clash row (db_actions d)) (\<lambda>rows.
                 Inr ((row, False), d\<lparr>db_actions := rows\<rparr>))))))"

definition optional_cycle :: "pyval \<Rightarrow> int option res" where
  "optional_cycle v = (case v of
      PNone \<Rightarrow> Inr None
    | PInt c \<Rightarrow> if c < 1 then own_refuse ''POLICY_RECOVERY_CYCLE_INVALID'' else Inr (Some c)
    | _ \<Rightarrow> own_refuse ''POLICY_RECOVERY_CYCLE_INVALID'')"

record action_request =
  ar_action :: pyval
  ar_logical :: pyval
  ar_input :: pyval
  ar_cycle :: pyval
  ar_overhead :: pyval

definition action_inputs :: "action_request \<Rightarrow> (string \<times> string \<times> string \<times> int option \<times> int) res" where
  "action_inputs q =
     bindR (policy_identifier ''POLICY_ACTION_INVALID'' (ar_action q)) (\<lambda>action.
     bindR (policy_identifier ''POLICY_LOGICAL_KEY_INVALID'' (ar_logical q)) (\<lambda>logical.
     if \<not> valid_digest (ar_input q) then own_refuse ''POLICY_INPUT_INVALID''
     else if \<not> is_positive_int (ar_overhead q) then own_refuse ''POLICY_STAGE_OVERHEAD_INVALID''
     else bindR (optional_cycle (ar_cycle q)) (\<lambda>cycle.
       Inr (action, logical, str_of (ar_input q), cycle, int_of (ar_overhead q)))))"

definition reserve_policy_action ::
  "world \<Rightarrow> owner_token \<Rightarrow> action_request \<Rightarrow> db \<Rightarrow> (policy_action \<times> bool) res \<times> db"
where
  "reserve_policy_action w tk q d =
     (case action_inputs q of
        Inl e \<Rightarrow> (Inl e, d)
      | Inr (action, logical, input, cycle, overhead) \<Rightarrow>
          seq_op (preflight_policy_clock w tk PNone PNone (install_policy d)) (\<lambda>_ d'.
            transaction (reserve_action_tx w tk action logical input cycle overhead) d'))"

definition issued :: "string list \<Rightarrow> policy_action \<Rightarrow> db \<Rightarrow> bool" where
  "issued actions a d = (pa_action a \<notin> set actions \<or> pa_attempts a \<noteq> 0 \<or> pa_intent a \<noteq> None
     \<or> pa_state a \<notin> set [''reserved'', ''cancelled''] \<or> list_ex (\<lambda>t. fst t = pa_id a) (db_attempts d))"

definition cancel_tx :: "world \<Rightarrow> owner_token \<Rightarrow> string list \<Rightarrow> string \<Rightarrow> unit tx" where
  "cancel_tx w tk actions i d =
     bindR (assert_owner w tk d) (\<lambda>_.
     if \<not> db_policy_installed d then store_refuse ''STORE_IO''
     else case action_of tk i d of
       None \<Rightarrow> own_refuse ''POLICY_ACTION_ALREADY_ISSUED''
     | Some a \<Rightarrow>
         if issued actions a d then own_refuse ''POLICY_ACTION_ALREADY_ISSUED''
         else if pa_state a = ''cancelled'' then Inr ((), d)
         else Inr ((), add_event ''unlaunched_review_cancelled''
           (PDict [(''repository_id'', PStr (tk_repo tk)), (''run_id'', PStr (tk_run tk)),
              (''action_id'', PStr i), (''input_hash'', PStr (pa_input a))])
           (d\<lparr>db_actions := update_where (\<lambda>x. pa_id x = i) (\<lambda>x. x\<lparr>pa_state := ''cancelled''\<rparr>) (db_actions d)\<rparr>)))"

definition cancel_unlaunched_policy_review :: "world \<Rightarrow> owner_token \<Rightarrow> string \<Rightarrow> db \<Rightarrow> unit res \<times> db" where
  "cancel_unlaunched_policy_review w tk i d =
     transaction (cancel_tx w tk [''spec_review'', ''final_review'', ''diagnosis'', ''recovery_trial''] i) d"

definition cancel_unlaunched_repair :: "world \<Rightarrow> owner_token \<Rightarrow> string \<Rightarrow> db \<Rightarrow> unit res \<times> db" where
  "cancel_unlaunched_repair w tk i d = transaction (cancel_tx w tk [''repair''] i) d"

definition record_receipt_tx :: "world \<Rightarrow> owner_token \<Rightarrow> string \<Rightarrow> pyval \<Rightarrow> string \<Rightarrow> bool \<Rightarrow> (policy_action \<times> bool) tx" where
  "record_receipt_tx w tk i input receipt valid d =
     bindR (assert_owner w tk d) (\<lambda>_.
     case action_of tk i d of
       None \<Rightarrow> own_refuse ''POLICY_RECEIPT_BINDING_INVALID''
     | Some a \<Rightarrow>
         if PStr (pa_input a) \<noteq> input then own_refuse ''POLICY_RECEIPT_BINDING_INVALID''
         else if \<not> valid then Inr ((a, True), d)
         else (case pa_receipt a of
             Some r \<Rightarrow> if r \<noteq> receipt then own_refuse ''POLICY_RECEIPT_CONFLICT'' else Inr ((a, True), d)
           | None \<Rightarrow>
               let d' = d\<lparr>db_actions := update_where (\<lambda>x. pa_id x = i)
                     (\<lambda>x. x\<lparr>pa_receipt := Some receipt, pa_state := ''completed_valid''\<rparr>) (db_actions d)\<rparr>
               in (case List.find (\<lambda>x. pa_id x = i) (db_actions d') of
                     None \<Rightarrow> Inl (TypeError ''NoneType'') | Some a' \<Rightarrow> Inr ((a', False), d'))))"

definition record_policy_action_receipt ::
  "world \<Rightarrow> owner_token \<Rightarrow> pyval \<times> pyval \<times> pyval \<times> pyval \<Rightarrow> db \<Rightarrow> (policy_action \<times> bool) res \<times> db"
where
  "record_policy_action_receipt w tk args d =
     (case args of (action_id, input, receipt, valid) \<Rightarrow>
      case policy_identifier ''POLICY_ACTION_REQUIRED'' action_id of
        Inl e \<Rightarrow> (Inl e, d)
      | Inr i \<Rightarrow>
          if \<not> valid_digest input \<or> \<not> valid_digest receipt \<or> valid \<notin> set [PBool True, PBool False]
          then (own_refuse ''POLICY_RECEIPT_INVALID'', d)
          else transaction (record_receipt_tx w tk i input (str_of receipt) (valid = PBool True)) (install_policy d))"

section \<open>Waiting and clock reconciliation\<close>

definition wait_tx :: "world \<Rightarrow> owner_token \<Rightarrow> string \<Rightarrow> int \<Rightarrow> pyval \<Rightarrow> pyval \<Rightarrow> (bool \<times> policy_budget) tx" where
  "wait_tx w tk kind elapsed boot ns d =
     bindR (assert_owner w tk d) (\<lambda>_.
     bindR (policy_sample w 0 boot ns) (\<lambda>(b, m).
     case budget_of tk d of
       None \<Rightarrow> own_refuse ''RUN_POLICY_REQUIRED''
     | Some row \<Rightarrow>
         let (ok, d1) = policy_clock_tx w tk b m (pb_clock_active row) (boot = PNone \<and> ns = PNone) d;
             d2 = (if \<not> ok then d1
                   else if kind = ''capacity'' then update_budget tk (\<lambda>x. x\<lparr>pb_capacity_wait := pb_capacity_wait x + elapsed\<rparr>) d1
                   else update_budget tk (\<lambda>x. x\<lparr>pb_operator_wait := pb_operator_wait x + elapsed\<rparr>) d1)
         in (case budget_of tk d2 of None \<Rightarrow> Inl (TypeError ''NoneType'') | Some r \<Rightarrow> Inr ((ok, r), d2))))"

definition record_policy_wait ::
  "world \<Rightarrow> owner_token \<Rightarrow> pyval \<times> pyval \<times> pyval \<times> pyval \<Rightarrow> db \<Rightarrow> policy_budget res \<times> db"
where
  "record_policy_wait w tk args d =
     (case args of (kind, elapsed, boot, ns) \<Rightarrow>
      if \<not> hashable kind then (Inl (TypeError ''unhashable''), d)
      else if kind \<notin> set [PStr ''capacity'', PStr ''operator''] \<or> \<not> is_int elapsed \<or> int_of elapsed < 0
      then (own_refuse ''POLICY_WAIT_INVALID'', d)
      else seq_op (transaction (wait_tx w tk (str_of kind) (int_of elapsed) boot ns) (install_policy d))
        (\<lambda>(ok, r) d'. if \<not> ok then (own_refuse ''CLOCK_RECONCILIATION_REQUIRED'', d') else (Inr r, d')))"

text \<open>\<open>_verified_evidence\<close>: the file at the absolute locator has the claimed digest.\<close>

definition verified_evidence :: "world \<Rightarrow> pyval \<Rightarrow> pydict res" where
  "verified_evidence w v =
     (case v of
        PDict e \<Rightarrow>
          (case dict_get e ''locator'' of
             PStr loc \<Rightarrow>
               if loc = [] \<or> \<not> valid_digest (dict_get e ''sha256'') then own_refuse ''EVIDENCE_REQUIRED''
               else if \<not> py_startswith loc ''/'' then own_refuse ''EVIDENCE_INVALID''
               else (case w_file_hash w loc of
                   None \<Rightarrow> own_refuse ''EVIDENCE_INVALID''
                 | Some h \<Rightarrow> if h \<noteq> py_lower (str_of (dict_get e ''sha256'')) then own_refuse ''EVIDENCE_INVALID''
                     else Inr e)
           | _ \<Rightarrow> own_refuse ''EVIDENCE_REQUIRED'')
      | _ \<Rightarrow> own_refuse ''EVIDENCE_REQUIRED'')"

record clock_receipt =
  ck_old_boot :: string
  ck_old_ns :: int
  ck_new_boot :: string
  ck_new_ns :: int
  ck_interval :: int
  ck_evidence :: pydict
  ck_hash :: string

definition clock_receipt_inputs :: "world \<Rightarrow> owner_token \<Rightarrow> pyval \<Rightarrow> clock_receipt res" where
  "clock_receipt_inputs w tk receipt =
     (case receipt of
        PDict r \<Rightarrow>
          (if \<not> dict_has_keys r [''schema'', ''old_boot_id'', ''old_monotonic_ns'', ''new_boot_id'',
                 ''new_monotonic_ns'', ''prior_interval_ns'', ''evidence'']
              \<or> dict_get r ''schema'' \<noteq> PStr ''ffs.run-policy-clock-reconciliation/v1''
           then own_refuse ''POLICY_CLOCK_RECEIPT_INVALID''
           else bindR (policy_identifier ''POLICY_CLOCK_RECEIPT_INVALID'' (dict_get r ''old_boot_id'')) (\<lambda>ob.
             bindR (policy_identifier ''POLICY_CLOCK_RECEIPT_INVALID'' (dict_get r ''new_boot_id'')) (\<lambda>nb.
             bindR (policy_monotonic (dict_get r ''old_monotonic_ns'')) (\<lambda>om.
             bindR (policy_monotonic (dict_get r ''new_monotonic_ns'')) (\<lambda>nm.
             bindR (policy_monotonic (dict_get r ''prior_interval_ns'')) (\<lambda>iv.
             bindR (verified_evidence w (dict_get r ''evidence'')) (\<lambda>e.
             case w_read_bytes w (str_of (dict_get e ''locator'')) of
               None \<Rightarrow> own_refuse ''POLICY_CLOCK_RECEIPT_INVALID''
             | Some bytes \<Rightarrow>
                 (case w_json_loads w bytes of
                    None \<Rightarrow> own_refuse ''POLICY_CLOCK_RECEIPT_INVALID''
                  | Some proof_doc \<Rightarrow>
                      if \<not> py_eq proof_doc (PDict (dict_set (dict_set (filter (\<lambda>kv. fst kv \<noteq> ''evidence'') r)
                             ''repository_id'' (PStr (tk_repo tk))) ''run_id'' (PStr (tk_run tk))))
                         \<or> PStr (w_sha256 w bytes) \<noteq> dict_get e ''sha256''
                      then own_refuse ''POLICY_CLOCK_RECEIPT_BINDING_INVALID''
                      else if \<not> json_encodable receipt then Inl (ValueError ''nan'')
                      else Inr \<lparr>ck_old_boot = ob, ck_old_ns = om, ck_new_boot = nb, ck_new_ns = nm,
                        ck_interval = iv, ck_evidence = e, ck_hash = w_sha256 w (json_dumps receipt)\<rparr>))))))))
      | _ \<Rightarrow> own_refuse ''POLICY_CLOCK_RECEIPT_INVALID'')"

definition reconciliation_clash :: "clock_reconciliation \<Rightarrow> clock_reconciliation \<Rightarrow> bool" where
  "reconciliation_clash r x = (rc_hash x = rc_hash r \<or> (rc_repo x = rc_repo r \<and> rc_run x = rc_run r
     \<and> rc_old_boot x = rc_old_boot r \<and> rc_old_ns x = rc_old_ns r \<and> rc_new_boot x = rc_new_boot r
     \<and> rc_new_ns x = rc_new_ns r))"

definition reconciliation_row :: "owner_token \<Rightarrow> clock_receipt \<Rightarrow> clock_reconciliation" where
  "reconciliation_row tk c = \<lparr>rc_hash = ck_hash c, rc_repo = tk_repo tk, rc_run = tk_run tk,
     rc_old_boot = ck_old_boot c, rc_old_ns = ck_old_ns c, rc_new_boot = ck_new_boot c,
     rc_new_ns = ck_new_ns c, rc_interval = ck_interval c,
     rc_evidence = json_dumps (PDict (ck_evidence c))\<rparr>"

definition reconcile_clock_tx :: "world \<Rightarrow> owner_token \<Rightarrow> clock_receipt \<Rightarrow> policy_budget tx" where
  "reconcile_clock_tx w tk c d =
     bindR (assert_owner w tk d) (\<lambda>_.
     case budget_of tk d of
       None \<Rightarrow> own_refuse ''RUN_POLICY_REQUIRED''
     | Some row \<Rightarrow>
         if \<not> pb_uncertain row \<or> pb_boot row \<noteq> ck_old_boot c \<or> pb_last_ns row \<noteq> ck_old_ns c
         then own_refuse ''POLICY_CLOCK_RECEIPT_BINDING_INVALID''
         else if pb_clock_active row then own_refuse ''POLICY_CLOCK_INTERVAL_UNPROVEN''
         else let active = pb_active_ns row + (if pb_clock_active row then ck_interval c else 0) in
           if active > pb_active_limit row then own_refuse ''ACTIVE_TIME_EXHAUSTED''
           else let rec = reconciliation_row tk c in
             bindR (case List.find (\<lambda>x. rc_hash x = ck_hash c) (db_reconciliations d) of
                 Some existing \<Rightarrow> if existing \<noteq> rec then own_refuse ''POLICY_CLOCK_RECEIPT_CONFLICT''
                     else Inr (db_reconciliations d)
               | None \<Rightarrow> insert_row reconciliation_clash rec (db_reconciliations d)) (\<lambda>rows.
             let d' = update_budget tk (\<lambda>b. b\<lparr>pb_active_ns := active, pb_boot := ck_new_boot c,
                        pb_last_ns := ck_new_ns c, pb_last_wall := w_wall_ns w, pb_uncertain := False\<rparr>)
                      (d\<lparr>db_reconciliations := rows\<rparr>)
             in (case budget_of tk d' of None \<Rightarrow> Inl (TypeError ''NoneType'') | Some r \<Rightarrow> Inr (r, d'))))"

definition reconcile_run_policy_clock :: "world \<Rightarrow> owner_token \<Rightarrow> pyval \<Rightarrow> db \<Rightarrow> policy_budget res \<times> db" where
  "reconcile_run_policy_clock w tk receipt d =
     (case clock_receipt_inputs w tk receipt of
        Inl e \<Rightarrow> (Inl e, d)
      | Inr c \<Rightarrow> transaction (reconcile_clock_tx w tk c) (install_policy d))"

section \<open>Charging a launch\<close>

definition role_actions :: "string \<Rightarrow> string list" where
  "role_actions role =
     (if role = ''worker'' then [''execute'', ''repair'']
      else if role = ''reviewer'' then [''spec_review'', ''final_review'', ''check'', ''diagnosis'']
      else if role = ''recovery'' then [''recovery_trial'', ''diagnosis'']
      else if role = ''inventory'' then [''qualification'', ''check'', ''diagnosis'']
      else [])"

text \<open>The role of the child activity the intent belongs to, if it is a child.\<close>

definition intent_role :: "string \<Rightarrow> db \<Rightarrow> string option" where
  "intent_role i d = (case intent_of i d of None \<Rightarrow> None
     | Some x \<Rightarrow> map_option cb_role (List.find (\<lambda>b. cb_activity b = in_activity x) (db_bindings d)))"

definition intent_input :: "string \<Rightarrow> db \<Rightarrow> string option" where
  "intent_input i d = (case intent_of i d of None \<Rightarrow> None
     | Some x \<Rightarrow> map_option ac_input (activity_of (in_activity x) d))"

text \<open>The clock and limit checks of \<open>_policy_bind_launch_tx\<close>, before the action is looked up.\<close>

definition bind_clock_check :: "world \<Rightarrow> nat \<Rightarrow> policy_budget \<Rightarrow> unit res" where
  "bind_clock_check w n b =
     bindR (policy_sample w n PNone PNone) (\<lambda>(boot, ns).
     if pb_boot b \<noteq> boot \<or> ns < pb_last_ns b then own_refuse ''CLOCK_RECONCILIATION_REQUIRED''
     else if pb_active_ns b + (if pb_clock_active b then ns - pb_last_ns b else 0) \<ge> pb_active_limit b
     then own_refuse ''ACTIVE_TIME_EXHAUSTED''
     else if pb_uncertain b then own_refuse ''CLOCK_RECONCILIATION_REQUIRED''
     else if pb_active_ns b \<ge> pb_active_limit b then own_refuse ''ACTIVE_TIME_EXHAUSTED''
     else Inr ())"

text \<open>The retry of a mutating action consumes its own allowance.\<close>

definition retry_allowed :: "owner_token \<Rightarrow> policy_budget \<Rightarrow> policy_action \<Rightarrow> db \<Rightarrow> unit res" where
  "retry_allowed tk b a d =
     (if pa_attempts a \<noteq> 0 \<and> pa_action a \<in> set [''repair'', ''recovery_trial''] then
        bindR (action_limit (PStr (pa_action a)) (PStr (pb_tier b))) (\<lambda>limit.
          let used = sum_list (map attempts_charge (filter (\<lambda>x. action_match tk x \<and> pa_action x = pa_action a
                \<and> (pa_action a = ''recovery_trial'' \<longrightarrow> pa_cycle a \<noteq> None \<and> pa_cycle x = pa_cycle a)) (db_actions d)))
          in (case limit of
                None \<Rightarrow> Inl (TypeError ''NoneType'')
              | Some l \<Rightarrow> if used \<ge> l then own_refuse ''POLICY_ACTION_LIMIT_EXHAUSTED'' else Inr ()))
      else Inr ())"

record launch_binding =
  lb_action :: "string option"
  lb_intent :: string
  lb_request :: "string option"
  lb_input :: "string option"
  lb_expected :: "string option"

definition binding_check :: "launch_binding \<Rightarrow> policy_action \<Rightarrow> db \<Rightarrow> unit res" where
  "binding_check q a d =
     (let role = intent_role (lb_intent q) d;
          expected = (if lb_expected q = Some ''managed_outer''
                      then Some (if role = Some ''reviewer'' then ''final_review'' else ''execute'')
                      else lb_expected q) in
      if (case role of None \<Rightarrow> False | Some r \<Rightarrow> pa_action a \<notin> set (role_actions r))
      then own_refuse ''POLICY_ACTION_BINDING_CONFLICT''
      else if lb_request q = None \<and> intent_input (lb_intent q) d \<noteq> Some (pa_input a)
      then own_refuse ''POLICY_ACTION_BINDING_CONFLICT''
      else if (lb_request q \<noteq> None \<and> (Some (pa_logical a) \<noteq> lb_request q \<or> Some (pa_input a) \<noteq> lb_input q))
         \<or> (expected \<noteq> None \<and> Some (pa_action a) \<noteq> expected)
      then own_refuse ''POLICY_ACTION_BINDING_CONFLICT''
      else Inr ())"

definition charge_action :: "string \<Rightarrow> policy_action \<Rightarrow> db \<Rightarrow> db res" where
  "charge_action intent a d =
     (case pa_intent a of
        None \<Rightarrow>
          (if list_ex (\<lambda>x. pa_intent x = Some intent) (db_actions d)
              \<or> list_ex (\<lambda>t. snd t = intent) (db_attempts d) then store_refuse ''STORE_IO''
           else Inr (d\<lparr>db_actions := update_where (\<lambda>x. pa_id x = pa_id a)
                    (\<lambda>x. x\<lparr>pa_intent := Some intent, pa_attempts := pa_attempts x + 1, pa_state := ''dispatched''\<rparr>)
                    (db_actions d),
                  db_attempts := db_attempts d @ [(pa_id a, intent)]\<rparr>))
      | Some _ \<Rightarrow>
          Inr (d\<lparr>db_actions := update_where (\<lambda>x. pa_id x = pa_id a)
                   (\<lambda>x. x\<lparr>pa_attempts := pa_attempts x + 1\<rparr>) (db_actions d),
                 db_attempts := (if list_ex (\<lambda>t. snd t = intent) (db_attempts d) then db_attempts d
                   else db_attempts d @ [(pa_id a, intent)])\<rparr>))"

definition policy_bind_launch_tx :: "world \<Rightarrow> owner_token \<Rightarrow> launch_binding \<Rightarrow> db \<Rightarrow> db res" where
  "policy_bind_launch_tx w tk q d =
     (case budget_of tk d of
        None \<Rightarrow> Inr d
      | Some b \<Rightarrow>
          bindR (bind_clock_check w 1 b) (\<lambda>_.
          case lb_action q of
            None \<Rightarrow> own_refuse ''POLICY_ACTION_REQUIRED''
          | Some aid \<Rightarrow>
          (case action_of tk aid d of
            None \<Rightarrow> own_refuse ''POLICY_ACTION_REQUIRED''
          | Some a \<Rightarrow>
              if pa_state a \<notin> set [''reserved'', ''dispatched''] then own_refuse ''POLICY_ACTION_REQUIRED''
              else bindR (binding_check q a d) (\<lambda>_.
              if pa_attempts a \<ge> 2 then own_refuse ''POLICY_TRANSPORT_LIMIT_EXHAUSTED''
              else bindR (retry_allowed tk b a d) (\<lambda>_.
              if pb_charged b \<ge> pb_launch_limit b then own_refuse ''POLICY_LAUNCH_LIMIT_EXHAUSTED''
              else bindR (charge_action (lb_intent q) a d) (\<lambda>d'.
                Inr (update_budget tk (\<lambda>x. x\<lparr>pb_charged := pb_charged x + 1\<rparr>) d')))))))"

section \<open>Local work intervals\<close>

definition foreign_interval :: "owner_token \<Rightarrow> work_interval \<Rightarrow> bool" where
  "foreign_interval tk wi = (run_interval_active tk wi \<and> wi_generation wi \<noteq> tk_generation tk)"

definition foreign_intervals :: "owner_token \<Rightarrow> db \<Rightarrow> work_interval list" where
  "foreign_intervals tk d = sort_key wi_id (filter (foreign_interval tk) (db_intervals d))"

text \<open>The released owner of each generation that left an interval open, in generation order.\<close>

definition run_key :: "world \<Rightarrow> owner_token \<Rightarrow> string res" where
  "run_key w tk = bindR (token_keys w tk) (\<lambda>keys. Inr (snd (hd keys)))"

definition generation_owner :: "string \<Rightarrow> db \<Rightarrow> int \<Rightarrow> ident res" where
  "generation_owner key d g =
     (case filter (\<lambda>r. rs_type r = ''run'' \<and> rs_key r = key \<and> rs_generation r = g) (db_reservations d) of
        [r] \<Rightarrow> if rs_held r then own_refuse ''POLICY_WORK_RECONCILIATION_REQUIRED'' else Inr (rs_owner r)
      | _ \<Rightarrow> own_refuse ''POLICY_WORK_RECONCILIATION_REQUIRED'')"

definition dead_owners :: "world \<Rightarrow> owner_token \<Rightarrow> db \<Rightarrow> ident list res" where
  "dead_owners w tk d =
     (let gens = sort (remdups (map wi_generation (foreign_intervals tk d))) in
      if gens = [] then Inr []
      else bindR (run_key w tk) (\<lambda>key. mapR (generation_owner key d) gens))"

definition close_interval :: "string \<Rightarrow> int \<Rightarrow> db \<Rightarrow> db" where
  "close_interval i ns d = d\<lparr>db_intervals := update_where (\<lambda>x. wi_id x = i)
     (\<lambda>x. x\<lparr>wi_state := ''completed'', wi_completed := Some ns\<rparr>) (db_intervals d)\<rparr>"

definition ident_json :: "ident \<Rightarrow> pyval" where
  "ident_json i = PDict [(''host_id'', PStr (id_host i)), (''boot_id'', PStr (id_boot i)),
     (''pid'', PInt (id_pid i)), (''start_token'', PStr (id_start i))]"

definition reconcile_dead_tx :: "world \<Rightarrow> owner_token \<Rightarrow> work_interval list \<Rightarrow> ident list \<Rightarrow> bool tx" where
  "reconcile_dead_tx w tk intervals owners d =
     bindR (assert_owner w tk d) (\<lambda>_.
     if foreign_intervals tk d \<noteq> intervals then own_refuse ''POLICY_WORK_RECONCILIATION_REQUIRED''
     else bindR (policy_sample w 2 PNone PNone) (\<lambda>(boot, ns).
       let (ok, d1) = policy_clock_tx w tk boot ns True False d in
       if \<not> ok then Inr (False, d1)
       else let d2 = fold (\<lambda>wi. close_interval (wi_id wi) ns) intervals d1;
                d3 = snd (policy_clock_tx w tk boot ns (policy_has_productive_work tk d2) False d2)
            in Inr (True, add_event ''policy_local_work_reconciled''
                 (PDict [(''repository_id'', PStr (tk_repo tk)), (''run_id'', PStr (tk_run tk)),
                   (''settling_generation'', PInt (tk_generation tk)),
                   (''interval_ids'', PList (map (\<lambda>x. PStr (wi_id x)) intervals)),
                   (''dead_owners'', PList (map ident_json owners)),
                   (''conservative_until_monotonic_ns'', PInt ns), (''observed_wall_ns'', PInt (w_wall_ns w))]) d3)))"

definition reconcile_dead_policy_work :: "world \<Rightarrow> owner_token \<Rightarrow> db \<Rightarrow> unit res \<times> db" where
  "reconcile_dead_policy_work w tk d =
     (let intervals = foreign_intervals tk d; boot = id_boot (w_self w) in
      if \<not> db_policy_installed d then (store_refuse ''STORE_IO'', d)
      else case dead_owners w tk d of
        Inl e \<Rightarrow> (Inl e, d)
      | Inr owners \<Rightarrow>
          if intervals = [] then (Inr (), d)
          else if list_ex (\<lambda>x. wi_boot x \<noteq> boot) intervals
             \<or> list_ex (\<lambda>i. id_boot i \<noteq> boot \<or> w_probe w i \<noteq> DEAD) owners
          then (own_refuse ''POLICY_WORK_RECONCILIATION_REQUIRED'', d)
          else seq_op (transaction (reconcile_dead_tx w tk intervals owners) d) (\<lambda>ok d'.
            if ok then (Inr (), d') else (own_refuse ''CLOCK_RECONCILIATION_REQUIRED'', d')))"

definition work_kinds :: "string list" where
  "work_kinds = [''preparation'', ''qualification'', ''harvest'', ''integration'', ''check'', ''recovery'']"

definition begin_work_tx :: "world \<Rightarrow> owner_token \<Rightarrow> string \<Rightarrow> pyval \<Rightarrow> pyval \<Rightarrow> string option tx" where
  "begin_work_tx w tk kind boot ns d =
     bindR (assert_owner w tk d) (\<lambda>_.
     bindR (policy_sample w 1 boot ns) (\<lambda>(b, m).
     bindR (assert_migration_epoch w (tk_run tk) d) (\<lambda>_.
     case budget_of tk d of
       None \<Rightarrow> own_refuse ''RUN_POLICY_REQUIRED''
     | Some _ \<Rightarrow>
         if list_ex (foreign_interval tk) (db_intervals d) then own_refuse ''POLICY_WORK_RECONCILIATION_REQUIRED''
         else bindR (policy_authorize_clock_tx w tk 1 (PStr b) (PInt m) d) (\<lambda>(err, d1).
           if err \<noteq> None then Inr (err, d1)
           else let row = \<lparr>wi_id = w_uuid w 0, wi_repo = tk_repo tk, wi_run = tk_run tk,
                   wi_generation = tk_generation tk, wi_kind = kind, wi_state = ''active'', wi_started = m,
                   wi_completed = None, wi_boot = b\<rparr> in
             bindR (insert_row (\<lambda>r x. wi_id x = wi_id r) row (db_intervals d1)) (\<lambda>rows.
               Inr (None, d1\<lparr>db_intervals := rows\<rparr>))))))"

definition begin_policy_work ::
  "world \<Rightarrow> owner_token \<Rightarrow> string \<times> pyval \<times> pyval \<Rightarrow> db \<Rightarrow> string res \<times> db"
where
  "begin_policy_work w tk args d =
     (case args of (kind, boot, ns) \<Rightarrow>
      if kind \<notin> set work_kinds then (own_refuse ''POLICY_WORK_KIND_INVALID'', d)
      else seq_op (reconcile_dead_policy_work w tk d) (\<lambda>_ d1.
        seq_op (preflight_policy_clock w tk boot ns d1) (\<lambda>_ d2.
          seq_op (transaction (begin_work_tx w tk kind boot ns) d2) (\<lambda>err d3.
            case err of Some code \<Rightarrow> (own_refuse code, d3) | None \<Rightarrow> (Inr (w_uuid w 0), d3)))))"

definition end_work_tx :: "world \<Rightarrow> owner_token \<Rightarrow> string \<Rightarrow> pyval \<Rightarrow> pyval \<Rightarrow> bool tx" where
  "end_work_tx w tk i boot ns d =
     bindR (assert_owner w tk d) (\<lambda>_.
     bindR (policy_sample w 0 boot ns) (\<lambda>(b, m).
     bindR (assert_migration_epoch w (tk_run tk) d) (\<lambda>_.
     if \<not> db_policy_installed d then store_refuse ''STORE_IO''
     else case List.find (\<lambda>x. wi_id x = i) (db_intervals d) of
       None \<Rightarrow> own_refuse ''POLICY_WORK_RECONCILIATION_REQUIRED''
     | Some x \<Rightarrow>
         if wi_repo x \<noteq> tk_repo tk \<or> wi_run x \<noteq> tk_run tk \<or> wi_generation x \<noteq> tk_generation tk
         then own_refuse ''POLICY_WORK_RECONCILIATION_REQUIRED''
         else if wi_state x = ''completed'' then Inr (True, d)
         else let d1 = close_interval i m d in
           Inr (policy_clock_tx w tk b m (policy_has_productive_work tk d1) False d1))))"

definition end_policy_work ::
  "world \<Rightarrow> owner_token \<Rightarrow> string \<times> pyval \<times> pyval \<Rightarrow> db \<Rightarrow> unit res \<times> db"
where
  "end_policy_work w tk args d =
     (case args of (i, boot, ns) \<Rightarrow>
      seq_op (transaction (end_work_tx w tk i boot ns) d) (\<lambda>ok d'.
        if ok then (Inr (), d') else (own_refuse ''CLOCK_RECONCILIATION_REQUIRED'', d')))"

text \<open>
  \<open>run_policy.productive_work\<close>: the body runs inside a work interval when the run has a budget;
  the interval is closed whether the body returned or raised.
\<close>

definition productive_work ::
  "world \<Rightarrow> owner_token \<Rightarrow> string \<Rightarrow> (db \<Rightarrow> 'a res \<times> db) \<Rightarrow> db \<Rightarrow> 'a res \<times> db"
where
  "productive_work w tk kind body d =
     (case get_run_policy_budget (tk_repo tk) (tk_run tk) d of
        None \<Rightarrow> body d
      | Some _ \<Rightarrow>
          seq_op (begin_policy_work w tk (kind, PNone, PNone) d) (\<lambda>interval d1.
            let (r, d2) = body d1 in
            (case end_policy_work w tk (interval, PNone, PNone) d2 of
               (Inl e, d3) \<Rightarrow> (Inl e, d3)
             | (Inr _, d3) \<Rightarrow> (r, d3))))"

section \<open>How the budget row changes\<close>

lemma budget_match_trans: "budget_match tk b \<Longrightarrow> budget_match tk' b \<Longrightarrow> budget_match tk = budget_match tk'"
  by (auto simp: budget_match_def fun_eq_iff)

lemma budget_of_match: "budget_of tk d = Some b \<Longrightarrow> budget_match tk b"
  by (simp add: budget_of_def find_Some_pred)

lemma budget_of_cong: "db_budgets d = db_budgets d' \<Longrightarrow> budget_of tk d = budget_of tk d'"
  by (simp add: budget_of_def)

text \<open>An update that keeps the key of the row.\<close>

definition keeps_key :: "(policy_budget \<Rightarrow> policy_budget) \<Rightarrow> bool" where
  "keeps_key f = (\<forall>b. pb_repo (f b) = pb_repo b \<and> pb_run (f b) = pb_run b)"

lemma budget_of_update:
  assumes "keeps_key f"
  shows "budget_of tk' (update_budget tk f d) = map_option (\<lambda>b. if budget_match tk b then f b else b) (budget_of tk' d)"
proof -
  have "budget_match tk' (f b) = budget_match tk' b" for b
    using assms by (simp add: keeps_key_def budget_match_def)
  then have "List.find (budget_match tk') (update_where (budget_match tk) f bs) =
      map_option (\<lambda>b. if budget_match tk b then f b else b) (List.find (budget_match tk') bs)" for bs
    by (induction bs) auto
  then show ?thesis by (simp add: budget_of_def update_budget_def)
qed

lemma budget_of_update_same: "keeps_key f \<Longrightarrow> budget_of tk d = Some b \<Longrightarrow> budget_of tk (update_budget tk f d) = Some (f b)"
  by (simp add: budget_of_update budget_of_match)

text \<open>Every budget row is related by \<open>R\<close> to its successor.\<close>

definition budget_rel :: "(policy_budget \<Rightarrow> policy_budget \<Rightarrow> bool) \<Rightarrow> db \<Rightarrow> db \<Rightarrow> bool" where
  "budget_rel R d d' = (\<forall>tk b. budget_of tk d = Some b \<longrightarrow> (\<exists>b'. budget_of tk d' = Some b' \<and> R b b'))"

lemma budget_relD: "budget_rel R d d' \<Longrightarrow> budget_of tk d = Some b \<Longrightarrow> \<exists>b'. budget_of tk d' = Some b' \<and> R b b'"
  by (simp add: budget_rel_def)

lemma budget_rel_same: "reflp R \<Longrightarrow> db_budgets d' = db_budgets d \<Longrightarrow> budget_rel R d d'"
  by (auto simp: budget_rel_def reflp_def budget_of_def)

lemma budget_rel_trans: "transp R \<Longrightarrow> budget_rel R d d1 \<Longrightarrow> budget_rel R d1 d2 \<Longrightarrow> budget_rel R d d2"
  by (fastforce simp: budget_rel_def dest: transpD)

lemma budget_rel_mono: "budget_rel R d d' \<Longrightarrow> (\<And>b b'. R b b' \<Longrightarrow> S b b') \<Longrightarrow> budget_rel S d d'"
  by (fastforce simp: budget_rel_def)

lemma budget_rel_update:
  assumes "reflp R" and "keeps_key f" and "\<And>row. budget_of tk d = Some row \<Longrightarrow> R row (f row)"
    and "db_budgets d1 = db_budgets d"
  shows "budget_rel R d (update_budget tk f d1)"
  unfolding budget_rel_def
proof (intro allI impI)
  fix tk' b assume b: "budget_of tk' d = Some b"
  then have "budget_of tk' (update_budget tk f d1) = Some (if budget_match tk b then f b else b)"
    using assms(2,4) budget_of_cong [of d1 d] by (simp add: budget_of_update)
  moreover have "R b (if budget_match tk b then f b else b)"
  proof (cases "budget_match tk b")
    case True
    then have "budget_of tk d = Some b"
      using b budget_match_trans [OF True budget_of_match [OF b]] by (simp add: budget_of_def)
    then show ?thesis using assms(3) True by simp
  qed (use assms(1) in \<open>simp add: reflp_def\<close>)
  ultimately show "\<exists>b'. budget_of tk' (update_budget tk f d1) = Some b' \<and> R b b'" by blast
qed

text \<open>
  \<open>charge_le\<close>: the immutable fields stay, launches, active time and waits only grow.
  \<open>fence_kept\<close>: an uncertain clock stays uncertain and keeps its anchor and its active time.
\<close>

definition charge_le :: "policy_budget \<Rightarrow> policy_budget \<Rightarrow> bool" where
  "charge_le b b' = (pb_tier b' = pb_tier b \<and> pb_mode b' = pb_mode b \<and>
     pb_launch_limit b' = pb_launch_limit b \<and> pb_active_limit b' = pb_active_limit b \<and>
     pb_charged b \<le> pb_charged b' \<and> pb_active_ns b \<le> pb_active_ns b' \<and>
     pb_capacity_wait b \<le> pb_capacity_wait b' \<and> pb_operator_wait b \<le> pb_operator_wait b')"

definition fence_kept :: "policy_budget \<Rightarrow> policy_budget \<Rightarrow> bool" where
  "fence_kept b b' = (pb_uncertain b \<longrightarrow> pb_uncertain b' \<and> pb_boot b' = pb_boot b \<and>
     pb_last_ns b' = pb_last_ns b \<and> pb_active_ns b' = pb_active_ns b)"

definition charge_fence :: "policy_budget \<Rightarrow> policy_budget \<Rightarrow> bool" where
  "charge_fence b b' = (charge_le b b' \<and> fence_kept b b')"

lemma rel_order [simp, intro]:
  "reflp charge_le" "transp charge_le" "reflp charge_fence" "transp charge_fence"
  by (auto simp: reflp_def transp_def charge_le_def charge_fence_def fence_kept_def)

lemma keeps_key_updates [simp]:
  "keeps_key mark_uncertain" "keeps_key (reanchor w boot ns)" "keeps_key (advance w active ns a)"
  "keeps_key (\<lambda>b. b\<lparr>pb_clock_active := True\<rparr>)" "keeps_key (\<lambda>x. x\<lparr>pb_charged := pb_charged x + 1\<rparr>)"
  "keeps_key (\<lambda>x. x\<lparr>pb_capacity_wait := pb_capacity_wait x + e\<rparr>)"
  "keeps_key (\<lambda>x. x\<lparr>pb_operator_wait := pb_operator_wait x + e\<rparr>)"
  "keeps_key (\<lambda>b. b\<lparr>pb_active_ns := a', pb_boot := bt, pb_last_ns := l, pb_last_wall := wl, pb_uncertain := u\<rparr>)"
  by (simp_all add: keeps_key_def mark_uncertain_def reanchor_def advance_def)

lemma update_budget_frame [simp]:
  "db_reservations (update_budget tk f d) = db_reservations d"
  "db_generation (update_budget tk f d) = db_generation d"
  "db_actions (update_budget tk f d) = db_actions d" "db_attempts (update_budget tk f d) = db_attempts d"
  "db_intents (update_budget tk f d) = db_intents d" "db_activities (update_budget tk f d) = db_activities d"
  "db_intervals (update_budget tk f d) = db_intervals d" "db_keys (update_budget tk f d) = db_keys d"
  "db_policy_installed (update_budget tk f d) = db_policy_installed d"
  "db_accounting (update_budget tk f d) = db_accounting d" "db_limits (update_budget tk f d) = db_limits d"
  "db_events (update_budget tk f d) = db_events d" "db_debits (update_budget tk f d) = db_debits d"
  "db_bindings (update_budget tk f d) = db_bindings d" "db_capacity (update_budget tk f d) = db_capacity d"
  "db_revisions (update_budget tk f d) = db_revisions d" "db_context (update_budget tk f d) = db_context d"
  "db_migration (update_budget tk f d) = db_migration d" "db_reconciliations (update_budget tk f d) = db_reconciliations d"
  "db_members (update_budget tk f d) = db_members d" "db_cohorts (update_budget tk f d) = db_cohorts d"
  "db_grants (update_budget tk f d) = db_grants d" "db_decisions (update_budget tk f d) = db_decisions d"
  "db_receipts (update_budget tk f d) = db_receipts d"
  by (simp_all add: update_budget_def)

text \<open>The clock step: all its branches.\<close>

lemma policy_clock_cases:
  obtains (absent) "budget_of tk d = None" "policy_clock_tx w tk boot ns a r d = (True, d)"
  | (reanchored) row where "budget_of tk d = Some row" "r" "\<not> pb_uncertain row" "pb_boot row \<noteq> boot"
      "\<not> pb_clock_active row" "\<not> policy_has_productive_work tk d"
      "fst (policy_clock_tx w tk boot ns a r d)"
      "\<exists>p. snd (policy_clock_tx w tk boot ns a r d) =
         update_budget tk (reanchor w boot ns) (add_event ''policy_idle_clock_reanchored'' p d)"
  | (mismatch) row where "budget_of tk d = Some row" "pb_uncertain row \<or> pb_boot row \<noteq> boot \<or> ns < pb_last_ns row"
      "policy_clock_tx w tk boot ns a r d = (False, update_budget tk mark_uncertain d)"
  | (advanced) row where "budget_of tk d = Some row" "\<not> pb_uncertain row" "pb_boot row = boot" "pb_last_ns row \<le> ns"
      "policy_clock_tx w tk boot ns a r d = (True, update_budget tk
         (advance w (pb_active_ns row + (if pb_clock_active row then ns - pb_last_ns row else 0)) ns a) d)"
proof (cases "budget_of tk d")
  case None
  then show thesis using absent by (simp add: policy_clock_tx_def)
next
  case (Some row)
  let ?re = "r \<and> \<not> pb_uncertain row \<and> pb_boot row \<noteq> boot \<and> \<not> pb_clock_active row
             \<and> \<not> policy_has_productive_work tk d \<and> \<not> list_ex (unsettled_intent tk d) (db_intents d)"
  consider ?re | "\<not> ?re" "pb_uncertain row \<or> pb_boot row \<noteq> boot \<or> ns < pb_last_ns row"
    | "\<not> ?re" "\<not> pb_uncertain row" "pb_boot row = boot" "pb_last_ns row \<le> ns" by fastforce
  then show thesis
  proof cases
    case 1
    then show thesis using Some by (intro reanchored [of row]) (auto simp: policy_clock_tx_def)
  next
    case 2
    then show thesis using Some by (intro mismatch [of row]) (auto simp: policy_clock_tx_def)
  next
    case 3
    then show thesis using Some by (intro advanced [of row]) (auto simp: policy_clock_tx_def)
  qed
qed

lemma clock_rel: "budget_rel charge_fence d (snd (policy_clock_tx w tk boot ns a r d))"
proof (cases rule: policy_clock_cases [of tk d w boot ns a r])
  case absent
  then show ?thesis by (simp add: budget_rel_same)
next
  case (reanchored row)
  then obtain p where p: "snd (policy_clock_tx w tk boot ns a r d) =
      update_budget tk (reanchor w boot ns) (add_event ''policy_idle_clock_reanchored'' p d)" by blast
  show ?thesis
    unfolding p using reanchored(1,3)
    by (intro budget_rel_update) (auto simp: charge_fence_def charge_le_def fence_kept_def reanchor_def)
next
  case (mismatch row)
  have "budget_rel charge_fence d (update_budget tk mark_uncertain d)"
    by (rule budget_rel_update) (auto simp: charge_fence_def charge_le_def fence_kept_def mark_uncertain_def)
  then show ?thesis by (simp add: mismatch(3))
next
  case (advanced row)
  have "budget_rel charge_fence d (update_budget tk
     (advance w (pb_active_ns row + (if pb_clock_active row then ns - pb_last_ns row else 0)) ns a) d)"
    using advanced(1-4)
    by (intro budget_rel_update) (auto simp: charge_fence_def charge_le_def fence_kept_def advance_def)
  then show ?thesis by (simp add: advanced(5))
qed

text \<open>The tables the clock never touches.\<close>

definition clock_frame :: "db \<Rightarrow> db \<Rightarrow> bool" where
  "clock_frame d d' = (db_reservations d' = db_reservations d \<and> db_generation d' = db_generation d \<and>
     db_actions d' = db_actions d \<and> db_attempts d' = db_attempts d \<and> db_intents d' = db_intents d \<and>
     db_activities d' = db_activities d \<and> db_intervals d' = db_intervals d \<and> db_keys d' = db_keys d \<and>
     db_policy_installed d' = db_policy_installed d \<and> db_accounting d' = db_accounting d \<and>
     db_limits d' = db_limits d \<and> db_debits d' = db_debits d \<and> db_bindings d' = db_bindings d \<and>
     db_context d' = db_context d \<and> db_migration d' = db_migration d \<and> db_capacity d' = db_capacity d \<and>
     db_revisions d' = db_revisions d \<and> db_reconciliations d' = db_reconciliations d \<and>
     db_members d' = db_members d \<and> db_cohorts d' = db_cohorts d \<and> db_grants d' = db_grants d \<and>
     db_decisions d' = db_decisions d \<and> db_receipts d' = db_receipts d)"

lemma clock_frame_refl [simp]: "clock_frame d d"
  by (simp add: clock_frame_def)

lemma clock_frame_trans: "clock_frame d d1 \<Longrightarrow> clock_frame d1 d2 \<Longrightarrow> clock_frame d d2"
  by (simp add: clock_frame_def)

lemma clock_frame_update [simp]: "clock_frame d (update_budget tk f d')  \<longleftrightarrow> clock_frame d d'"
  by (simp add: clock_frame_def)

lemma clock_frame_event [simp]: "clock_frame d (add_event t p d') \<longleftrightarrow> clock_frame d d'"
  by (simp add: clock_frame_def)

lemma policy_clock_frame: "clock_frame d (snd (policy_clock_tx w tk boot ns a r d))"
  by (cases rule: policy_clock_cases [of tk d w boot ns a r]) auto

lemma policy_clock_uncertain:
  "budget_of tk d = Some b \<Longrightarrow> pb_uncertain b \<Longrightarrow> \<not> fst (policy_clock_tx w tk boot ns a r d)"
  by (simp add: policy_clock_tx_def)

lemma authorize_rel:
  assumes "policy_authorize_clock_tx w tk n boot ns d = Inr (err, d')"
  shows "budget_rel charge_fence d d' \<and> clock_frame d d'"
proof -
  obtain b m where s: "policy_sample w n boot ns = Inr (b, m)"
    using assms by (auto simp: policy_authorize_clock_tx_def)
  define c where "c = policy_clock_tx w tk b m (policy_has_productive_work tk d) False d"
  have c: "budget_rel charge_fence d (snd c)" "clock_frame d (snd c)"
    unfolding c_def by (rule clock_rel, rule policy_clock_frame)
  have "d' = snd c \<or> d' = update_budget tk (\<lambda>b. b\<lparr>pb_clock_active := True\<rparr>) (snd c)"
    using assms unfolding policy_authorize_clock_tx_def s c_def
    by (auto simp: Let_def split: prod.splits if_splits)
  then show ?thesis
  proof
    assume "d' = snd c"
    then show ?thesis using c by simp
  next
    assume d': "d' = update_budget tk (\<lambda>b. b\<lparr>pb_clock_active := True\<rparr>) (snd c)"
    have "budget_rel charge_fence (snd c) d'"
      unfolding d' by (rule budget_rel_update) (auto simp: charge_fence_def charge_le_def fence_kept_def)
    then show ?thesis using c d' budget_rel_trans [of charge_fence] by auto
  qed
qed

lemma preflight_tx_Inr:
  assumes "preflight_tx w tk boot ns d = Inr (r, d')"
  shows "assert_owner w tk d = Inr () \<and> (case budget_of tk d of
      None \<Rightarrow> r = None \<and> d' = d
    | Some b \<Rightarrow> \<exists>bt m. r = Some (fst (policy_clock_tx w tk bt m (pb_clock_active b) (boot = PNone \<and> ns = PNone) d))
        \<and> d' = snd (policy_clock_tx w tk bt m (pb_clock_active b) (boot = PNone \<and> ns = PNone) d))"
  using assms by (cases "budget_of tk d") (auto simp: preflight_tx_def Let_def split_def)

lemma preflight_rel:
  "budget_rel charge_fence d (snd (preflight_policy_clock w tk boot ns d)) \<and>
   clock_frame d (snd (preflight_policy_clock w tk boot ns d))"
proof (cases rule: transaction_cases [of "preflight_tx w tk boot ns" d])
  case (refused e)
  then show ?thesis by (simp add: preflight_policy_clock_def budget_rel_same)
next
  case (committed r d')
  have "budget_rel charge_fence d d' \<and> clock_frame d d'"
    using preflight_tx_Inr [OF committed(1)] clock_rel policy_clock_frame
    by (cases "budget_of tk d") (auto simp: budget_rel_same)
  moreover have "snd (preflight_policy_clock w tk boot ns d) \<in> {d, d'}"
    using committed by (auto simp: preflight_policy_clock_def split: option.splits)
  ultimately show ?thesis by (auto simp: budget_rel_same)
qed

lemma preflight_ok_budget:
  assumes "preflight_policy_clock w tk boot ns d = (Inr (), d')" and "db_policy_installed d" and "budget_of tk d = Some b"
  shows "\<exists>b'. budget_of tk d' = Some b' \<and> \<not> pb_uncertain b \<and> pb_active_ns b' < pb_active_limit b'"
proof (cases rule: transaction_cases [of "preflight_tx w tk boot ns" d])
  case (refused e)
  then show ?thesis using assms by (simp add: preflight_policy_clock_def)
next
  case (committed r d1)
  then obtain bt m where ok: "r = Some (fst (policy_clock_tx w tk bt m (pb_clock_active b) (boot = PNone \<and> ns = PNone) d))"
    using assms(3) preflight_tx_Inr [OF committed(1)] by auto
  have "d' = d1" and fine: "fst (policy_clock_tx w tk bt m (pb_clock_active b) (boot = PNone \<and> ns = PNone) d)"
      and row: "\<exists>b'. budget_of tk d1 = Some b' \<and> pb_active_ns b' < pb_active_limit b'"
    using assms committed ok by (auto simp: preflight_policy_clock_def split: option.splits if_splits)
  moreover have "\<not> pb_uncertain b"
    using fine policy_clock_uncertain [OF assms(3)] by blast
  ultimately show ?thesis by auto
qed

section \<open>Every operation charges, none replenishes\<close>

lemma budget_tx:
  assumes "reflp R" and "\<And>x d'. body d = Inr (x, d') \<Longrightarrow> budget_rel R d d'"
  shows "budget_rel R d (snd (transaction body d))"
  by (cases rule: transaction_cases [of body d]) (auto intro: assms budget_rel_same)

lemma budget_seq:
  assumes "transp R" and "budget_rel R d (snd r)"
    and "\<And>x d1. r = (Inr x, d1) \<Longrightarrow> budget_rel R d1 (snd (k x d1))"
  shows "budget_rel R d (snd (seq_op r k))"
proof (cases r)
  case (Pair v d1)
  then show ?thesis
    using assms by (cases v) (auto intro: budget_rel_trans)
qed

lemma budget_pre:
  "reflp R \<Longrightarrow> transp R \<Longrightarrow> db_budgets d1 = db_budgets d \<Longrightarrow> budget_rel R d1 d' \<Longrightarrow> budget_rel R d d'"
  using budget_rel_trans [of R d d1 d'] budget_rel_same [of R d1 d] by simp

lemma configure_tx_Inr:
  assumes "configure_tx w tk t m b n d = Inr (row, d')"
  shows "fence w tk d = Inr () \<and> budget_of tk d' = Some row \<and> clock_frame d d' \<and>
     (db_budgets d' = db_budgets d \<or> db_budgets d' = db_budgets d @ [row] \<and> budget_of tk d = None \<and>
        pb_charged row = 0 \<and> pb_launch_limit row = pt_launch_limit t \<and> pb_active_limit row = pt_active_limit_ns t \<and>
        pb_tier row = pt_name t \<and> \<not> pb_uncertain row)"
proof (cases "budget_of tk d")
  case None
  then show ?thesis
    using assms by (auto simp: configure_tx_def Let_def clock_frame_def budget_of_def find_append
        budget_match_def split: if_splits)
next
  case (Some b)
  then show ?thesis using assms by (auto simp: configure_tx_def split: if_splits)
qed

lemma configure_rel:
  "budget_rel charge_fence d (snd (configure_run_policy_budget w tk args d))"
proof -
  let ?d = "install_policy (install_context d)"
  have "budget_rel charge_fence ?d (snd (transaction (configure_tx w tk t m b n) ?d))" for t m b n
  proof (rule budget_tx)
    fix row d' assume "configure_tx w tk t m b n ?d = Inr (row, d')"
    from configure_tx_Inr [OF this] show "budget_rel charge_fence ?d d'"
      unfolding budget_rel_def
      by (auto simp: budget_of_def find_append reflpD [OF rel_order(3)] split: option.splits)
  qed simp
  then have "budget_rel charge_fence d (snd (transaction (configure_tx w tk t m b n) ?d))" for t m b n
    by (rule budget_pre [OF rel_order(3,4), rotated]) simp
  then show ?thesis
    by (auto simp: configure_run_policy_budget_def budget_rel_same split: sum.splits prod.splits)
qed

lemma reserve_action_tx_Inr:
  assumes "reserve_action_tx w tk action logical input cycle overhead d = Inr ((row, reused), d')"
  shows "assert_owner w tk d = Inr () \<and> (\<exists>b. budget_of tk d = Some b \<and> \<not> pb_uncertain b \<and>
      pb_active_ns b < pb_active_limit b \<and>
      (if reused then d' = d \<and> row \<in> set (db_actions d) \<and> action_match tk row \<and> pa_action row = action \<and>
           pa_logical row = logical \<and> pa_input row = input \<and> pa_state row \<noteq> ''cancelled''
       else action_allowed tk b action cycle d = Inr () \<and> pb_charged b \<le> pb_launch_limit b - overhead \<and>
         action_can_mutate (PStr action) = Inr (pa_mutation row) \<and>
         (\<forall>x \<in> set (db_actions d). \<not> action_clash row x) \<and>
         d' = d\<lparr>db_actions := db_actions d @ [row]\<rparr> \<and> action_match tk row \<and> pa_id row = w_uuid w 0 \<and>
         pa_action row = action \<and> pa_logical row = logical \<and> pa_input row = input \<and> pa_cycle row = cycle \<and>
         pa_state row = ''reserved'' \<and> pa_attempts row = 0 \<and> pa_intent row = None \<and> pa_receipt row = None))"
proof -
  obtain b where b: "budget_of tk d = Some b" "\<not> pb_uncertain b" "pb_active_ns b < pb_active_limit b"
      and own: "assert_owner w tk d = Inr ()"
    using assms by (auto simp: reserve_action_tx_def split: if_splits)
  show ?thesis
  proof (cases "List.find (\<lambda>a. action_match tk a \<and> pa_action a = action \<and> pa_logical a = logical
      \<and> pa_input a = input) (db_actions d)")
    case None
    then show ?thesis using assms b own
      by (auto simp: reserve_action_tx_def Let_def action_match_def split: if_splits)
  next
    case (Some a)
    then show ?thesis using assms b own
      by (auto simp: reserve_action_tx_def split: if_splits dest: find_Some_in)
  qed
qed

lemma reserve_action_tx_frame:
  assumes "reserve_action_tx w tk action logical input cycle overhead d = Inr (r, d')"
  shows "db_budgets d' = db_budgets d \<and> clock_frame (d\<lparr>db_actions := db_actions d'\<rparr>) d'"
proof -
  obtain row u where ru: "r = (row, u)" by (cases r)
  show ?thesis
    using reserve_action_tx_Inr [OF assms [unfolded ru]] by (cases u) (auto simp: clock_frame_def)
qed

lemma reserve_action_tx_rel:
  "budget_rel charge_fence d (snd (transaction (reserve_action_tx w tk action logical input cycle overhead) d))"
proof (rule budget_tx)
  fix r d' assume "reserve_action_tx w tk action logical input cycle overhead d = Inr (r, d')"
  then show "budget_rel charge_fence d d'"
    using reserve_action_tx_frame by (intro budget_rel_same) auto
qed simp

lemma reserve_policy_action_rel: "budget_rel charge_fence d (snd (reserve_policy_action w tk q d))"
proof -
  have "budget_rel charge_fence d (snd (seq_op (preflight_policy_clock w tk PNone PNone (install_policy d)) (\<lambda>_ d'.
      transaction (reserve_action_tx w tk action logical input cycle overhead) d')))"
    for action logical input cycle overhead
  proof (rule budget_pre [of _ "install_policy d"])
    show "budget_rel charge_fence (install_policy d) (snd (seq_op (preflight_policy_clock w tk PNone PNone (install_policy d))
        (\<lambda>_ d'. transaction (reserve_action_tx w tk action logical input cycle overhead) d')))"
      by (rule budget_seq) (simp_all add: preflight_rel reserve_action_tx_rel)
  qed simp_all
  then show ?thesis
    by (auto simp: reserve_policy_action_def budget_rel_same split: sum.splits prod.splits)
qed

lemma cancel_tx_Inr:
  assumes "cancel_tx w tk actions i d = Inr ((), d')"
  shows "assert_owner w tk d = Inr () \<and> (\<exists>a. action_of tk i d = Some a \<and> \<not> issued actions a d \<and>
     (d' = d \<and> pa_state a = ''cancelled'' \<or>
      (\<exists>p. d' = add_event ''unlaunched_review_cancelled'' p (d\<lparr>db_actions :=
         update_where (\<lambda>x. pa_id x = i) (\<lambda>x. x\<lparr>pa_state := ''cancelled''\<rparr>) (db_actions d)\<rparr>)) \<and> pa_state a \<noteq> ''cancelled''))"
  using assms by (auto simp: cancel_tx_def split: if_splits)

lemma cancel_rel: "budget_rel charge_fence d (snd (transaction (cancel_tx w tk actions i) d))"
  by (rule budget_tx) (auto dest!: cancel_tx_Inr intro!: budget_rel_same)

lemma record_receipt_tx_Inr:
  assumes "record_receipt_tx w tk i input receipt valid d = Inr (r, d')"
  shows "assert_owner w tk d = Inr () \<and> db_budgets d' = db_budgets d \<and> clock_frame (d\<lparr>db_actions := db_actions d'\<rparr>) d' \<and>
     (d' = d \<or> valid \<and> db_actions d' = update_where (\<lambda>x. pa_id x = i)
        (\<lambda>x. x\<lparr>pa_receipt := Some receipt, pa_state := ''completed_valid''\<rparr>) (db_actions d))"
proof -
  obtain a where "assert_owner w tk d = Inr ()" "action_of tk i d = Some a" "PStr (pa_input a) = input"
    using assms by (auto simp: record_receipt_tx_def split: if_splits)
  with assms show ?thesis
    by (cases "pa_receipt a") (auto simp: record_receipt_tx_def Let_def clock_frame_def split: if_splits)
qed

lemma record_receipt_rel: "budget_rel charge_fence d (snd (record_policy_action_receipt w tk args d))"
proof -
  have "budget_rel charge_fence d (snd (transaction (record_receipt_tx w tk i input receipt valid) (install_policy d)))"
    for i input receipt valid
  proof (rule budget_pre [of _ "install_policy d"])
    show "budget_rel charge_fence (install_policy d)
        (snd (transaction (record_receipt_tx w tk i input receipt valid) (install_policy d)))"
      by (rule budget_tx) (auto dest!: record_receipt_tx_Inr intro!: budget_rel_same)
  qed simp_all
  then show ?thesis
    by (auto simp: record_policy_action_receipt_def budget_rel_same split: sum.splits prod.splits)
qed

lemma update_rel:
  "keeps_key f \<Longrightarrow> (\<And>b. charge_fence b (f b)) \<Longrightarrow> budget_rel charge_fence d (update_budget tk f d)"
  by (rule budget_rel_update) simp_all

lemma fence_bool: "(case r of None \<Rightarrow> Inl e | Some x \<Rightarrow> Inr (g x, d)) = Inr (y, d') \<longleftrightarrow> (\<exists>x. r = Some x \<and> y = g x \<and> d' = d)"
  by (cases r) auto

lemma wait_tx_Inr:
  assumes "wait_tx w tk kind elapsed boot ns d = Inr (r, d')"
  shows "assert_owner w tk d = Inr () \<and> (\<exists>bt m a re. d' \<in> {snd (policy_clock_tx w tk bt m a re d),
     update_budget tk (\<lambda>x. x\<lparr>pb_capacity_wait := pb_capacity_wait x + elapsed\<rparr>) (snd (policy_clock_tx w tk bt m a re d)),
     update_budget tk (\<lambda>x. x\<lparr>pb_operator_wait := pb_operator_wait x + elapsed\<rparr>) (snd (policy_clock_tx w tk bt m a re d))})"
  using assms by (auto simp: wait_tx_def Let_def split_def fence_bool) blast+

lemma wait_tx_rel:
  assumes "0 \<le> elapsed" and "wait_tx w tk kind elapsed boot ns d = Inr (r, d')"
  shows "budget_rel charge_fence d d' \<and> clock_frame d d'"
proof -
  obtain bt m a re where c: "d' \<in> {snd (policy_clock_tx w tk bt m a re d),
     update_budget tk (\<lambda>x. x\<lparr>pb_capacity_wait := pb_capacity_wait x + elapsed\<rparr>) (snd (policy_clock_tx w tk bt m a re d)),
     update_budget tk (\<lambda>x. x\<lparr>pb_operator_wait := pb_operator_wait x + elapsed\<rparr>) (snd (policy_clock_tx w tk bt m a re d))}"
    using wait_tx_Inr [OF assms(2)] by blast
  define e where "e = snd (policy_clock_tx w tk bt m a re d)"
  have e: "budget_rel charge_fence d e" "clock_frame d e"
    unfolding e_def by (rule clock_rel, rule policy_clock_frame)
  have waits: "charge_fence x (x\<lparr>pb_capacity_wait := pb_capacity_wait x + elapsed\<rparr>)"
    "charge_fence x (x\<lparr>pb_operator_wait := pb_operator_wait x + elapsed\<rparr>)" for x
    using assms(1) by (auto simp: charge_fence_def charge_le_def fence_kept_def)
  have "d' \<in> {e, update_budget tk (\<lambda>x. x\<lparr>pb_capacity_wait := pb_capacity_wait x + elapsed\<rparr>) e,
      update_budget tk (\<lambda>x. x\<lparr>pb_operator_wait := pb_operator_wait x + elapsed\<rparr>) e}"
    using c unfolding e_def .
  then show ?thesis
    using e waits update_rel budget_rel_trans [OF rel_order(4)] by auto
qed

lemma record_policy_wait_rel: "budget_rel charge_fence d (snd (record_policy_wait w tk args d))"
proof -
  have "budget_rel charge_fence d (snd (seq_op (transaction (wait_tx w tk kind elapsed boot ns) (install_policy d))
      (\<lambda>(ok, r) d'. if \<not> ok then (own_refuse ''CLOCK_RECONCILIATION_REQUIRED'', d') else (Inr r, d'))))"
    if "0 \<le> elapsed" for kind elapsed boot ns
  proof (rule budget_pre [of _ "install_policy d"])
    show "budget_rel charge_fence (install_policy d) (snd (seq_op (transaction (wait_tx w tk kind elapsed boot ns) (install_policy d))
      (\<lambda>(ok, r) d'. if \<not> ok then (own_refuse ''CLOCK_RECONCILIATION_REQUIRED'', d') else (Inr r, d'))))"
    proof (rule budget_seq)
      show "budget_rel charge_fence (install_policy d) (snd (transaction (wait_tx w tk kind elapsed boot ns) (install_policy d)))"
        using wait_tx_rel [OF that] by (intro budget_tx) auto
    qed (simp_all add: split_def budget_rel_same)
  qed simp_all
  then show ?thesis
    by (auto simp: record_policy_wait_def budget_rel_same split: prod.splits)
qed

lemma reconcile_clock_tx_Inr:
  assumes "reconcile_clock_tx w tk c d = Inr (r, d')"
  shows "\<exists>row rows. assert_owner w tk d = Inr () \<and> budget_of tk d = Some row \<and> pb_uncertain row \<and>
     pb_boot row = ck_old_boot c \<and> pb_last_ns row = ck_old_ns c \<and> \<not> pb_clock_active row \<and>
     pb_active_ns row \<le> pb_active_limit row \<and> (\<exists>x \<in> set rows. rc_hash x = ck_hash c) \<and>
     d' = update_budget tk (\<lambda>b. b\<lparr>pb_active_ns := pb_active_ns row, pb_boot := ck_new_boot c,
            pb_last_ns := ck_new_ns c, pb_last_wall := w_wall_ns w, pb_uncertain := False\<rparr>)
          (d\<lparr>db_reconciliations := rows\<rparr>)"
proof -
  obtain row where row: "budget_of tk d = Some row" "pb_uncertain row" "pb_boot row = ck_old_boot c"
      "pb_last_ns row = ck_old_ns c" "\<not> pb_clock_active row" "pb_active_ns row \<le> pb_active_limit row"
      "assert_owner w tk d = Inr ()"
    using assms by (auto simp: reconcile_clock_tx_def Let_def split: if_splits)
  show ?thesis
  proof (cases "List.find (\<lambda>x. rc_hash x = ck_hash c) (db_reconciliations d)")
    case None
    then have "d' = update_budget tk (\<lambda>b. b\<lparr>pb_active_ns := pb_active_ns row,
            pb_boot := ck_new_boot c, pb_last_ns := ck_new_ns c, pb_last_wall := w_wall_ns w, pb_uncertain := False\<rparr>)
          (d\<lparr>db_reconciliations := db_reconciliations d @ [reconciliation_row tk c]\<rparr>)"
      using assms row by (auto simp: reconcile_clock_tx_def Let_def fence_bool)
    with row show ?thesis
      by (intro exI [of _ row] exI [of _ "db_reconciliations d @ [reconciliation_row tk c]"])
        (auto simp: reconciliation_row_def)
  next
    case (Some x)
    then have "x \<in> set (db_reconciliations d) \<and> rc_hash x = ck_hash c"
      using find_Some_in [OF Some] by simp
    with Some show ?thesis
      using assms row by (auto simp: reconcile_clock_tx_def Let_def fence_bool split: if_splits)
  qed
qed

lemma reconcile_clock_rel: "budget_rel charge_le d (snd (reconcile_run_policy_clock w tk receipt d))"
proof -
  have "budget_rel charge_le d (snd (transaction (reconcile_clock_tx w tk c) (install_policy d)))" for c
  proof (rule budget_pre [of _ "install_policy d"])
    show "budget_rel charge_le (install_policy d) (snd (transaction (reconcile_clock_tx w tk c) (install_policy d)))"
    proof (rule budget_tx)
      fix r d' assume "reconcile_clock_tx w tk c (install_policy d) = Inr (r, d')"
      from reconcile_clock_tx_Inr [OF this] obtain row rows where
        row: "budget_of tk (install_policy d) = Some row"
        and d': "d' = update_budget tk (\<lambda>b. b\<lparr>pb_active_ns := pb_active_ns row, pb_boot := ck_new_boot c,
            pb_last_ns := ck_new_ns c, pb_last_wall := w_wall_ns w, pb_uncertain := False\<rparr>)
          (install_policy d\<lparr>db_reconciliations := rows\<rparr>)" by blast
      show "budget_rel charge_le (install_policy d) d'"
        unfolding d' by (rule budget_rel_update) (use row in \<open>auto simp: charge_le_def\<close>)
    qed simp
  qed simp_all
  then show ?thesis
    by (auto simp: reconcile_run_policy_clock_def budget_rel_same split: sum.splits)
qed

lemma fold_close_frame:
  "db_budgets (fold (\<lambda>wi. close_interval (wi_id wi) ns) xs d) = db_budgets d"
  "db_reservations (fold (\<lambda>wi. close_interval (wi_id wi) ns) xs d) = db_reservations d"
  "db_generation (fold (\<lambda>wi. close_interval (wi_id wi) ns) xs d) = db_generation d"
  "db_intents (fold (\<lambda>wi. close_interval (wi_id wi) ns) xs d) = db_intents d"
  "db_actions (fold (\<lambda>wi. close_interval (wi_id wi) ns) xs d) = db_actions d"
  by (induction xs arbitrary: d) (simp_all add: close_interval_def)

lemma reconcile_dead_tx_Inr:
  assumes "reconcile_dead_tx w tk xs owners d = Inr (ok, d')"
  shows "assert_owner w tk d = Inr () \<and> foreign_intervals tk d = xs \<and> budget_rel charge_fence d d' \<and>
     db_reservations d' = db_reservations d \<and> db_generation d' = db_generation d"
proof -
  obtain boot ns where own: "assert_owner w tk d = Inr ()" "foreign_intervals tk d = xs"
    and s: "policy_sample w 2 PNone PNone = Inr (boot, ns)"
    using assms by (auto simp: reconcile_dead_tx_def split: if_splits)
  define d1 where "d1 = snd (policy_clock_tx w tk boot ns True False d)"
  define d2 where "d2 = fold (\<lambda>wi. close_interval (wi_id wi) ns) xs d1"
  define d3 where "d3 = snd (policy_clock_tx w tk boot ns (policy_has_productive_work tk d2) False d2)"
  have r1: "budget_rel charge_fence d d1" "clock_frame d d1"
    unfolding d1_def by (rule clock_rel, rule policy_clock_frame)
  have r3: "budget_rel charge_fence d2 d3" "clock_frame d2 d3"
    unfolding d3_def by (rule clock_rel, rule policy_clock_frame)
  have f2: "db_budgets d2 = db_budgets d1" "db_reservations d2 = db_reservations d1" "db_generation d2 = db_generation d1"
    by (simp_all add: d2_def fold_close_frame)
  have d3_rel: "budget_rel charge_fence d d3"
    by (rule budget_rel_trans [OF rel_order(4) r1(1)], rule budget_rel_trans [OF rel_order(4) _ r3(1)],
        rule budget_rel_same) (simp_all add: f2)
  have "\<exists>t p. d' = d1 \<or> d' = add_event t p d3"
    using assms own s
    by (auto simp: reconcile_dead_tx_def Let_def split_def d1_def d2_def d3_def split: if_splits)
  then obtain t p where "d' = d1 \<or> d' = add_event t p d3" by blast
  then show ?thesis
  proof
    assume "d' = d1"
    then show ?thesis using own r1 by (simp add: clock_frame_def)
  next
    assume d': "d' = add_event t p d3"
    have "budget_rel charge_fence d d'"
      by (rule budget_rel_trans [OF rel_order(4) d3_rel], rule budget_rel_same) (simp_all add: d')
    then show ?thesis using own r1(2) r3(2) f2 by (simp add: d' clock_frame_def)
  qed
qed

lemma reconcile_dead_rel:
  "budget_rel charge_fence d (snd (reconcile_dead_policy_work w tk d))"
  "db_reservations (snd (reconcile_dead_policy_work w tk d)) = db_reservations d \<and>
     db_generation (snd (reconcile_dead_policy_work w tk d)) = db_generation d"
proof -
  have t: "budget_rel charge_fence d (snd (transaction (reconcile_dead_tx w tk xs owners) d)) \<and>
      db_reservations (snd (transaction (reconcile_dead_tx w tk xs owners) d)) = db_reservations d \<and>
      db_generation (snd (transaction (reconcile_dead_tx w tk xs owners) d)) = db_generation d" for xs owners
    by (cases rule: transaction_cases [of "reconcile_dead_tx w tk xs owners" d])
      (auto simp: budget_rel_same dest: reconcile_dead_tx_Inr)
  have "snd (seq_op (transaction (reconcile_dead_tx w tk xs owners) d) (\<lambda>ok d'.
      if ok then (Inr (), d') else (own_refuse ''CLOCK_RECONCILIATION_REQUIRED'', d'))) =
      snd (transaction (reconcile_dead_tx w tk xs owners) d)" for xs owners
    by (rule seq_op_snd) simp
  then have "\<exists>xs owners. snd (reconcile_dead_policy_work w tk d) \<in> {d, snd (transaction (reconcile_dead_tx w tk xs owners) d)}"
    by (auto simp: reconcile_dead_policy_work_def Let_def split: sum.splits)
  with t show "budget_rel charge_fence d (snd (reconcile_dead_policy_work w tk d))"
    "db_reservations (snd (reconcile_dead_policy_work w tk d)) = db_reservations d \<and>
     db_generation (snd (reconcile_dead_policy_work w tk d)) = db_generation d"
    using budget_rel_same [OF rel_order(3)] by fastforce+
qed

lemma begin_work_tx_Inr:
  assumes "begin_work_tx w tk kind boot ns d = Inr (err, d')"
  shows "assert_owner w tk d = Inr () \<and> budget_rel charge_fence d d' \<and>
     \<not> list_ex (foreign_interval tk) (db_intervals d) \<and>
     db_reservations d' = db_reservations d \<and> db_generation d' = db_generation d \<and>
     clock_frame (d\<lparr>db_intervals := db_intervals d'\<rparr>) d'"
proof -
  obtain b m where own: "assert_owner w tk d = Inr ()" "\<not> list_ex (foreign_interval tk) (db_intervals d)"
    and s: "policy_sample w 1 boot ns = Inr (b, m)"
    using assms by (auto simp: begin_work_tx_def split: if_splits)
  obtain e d1 where a: "policy_authorize_clock_tx w tk 1 (PStr b) (PInt m) d = Inr (e, d1)"
      "d' = d1 \<or> (\<exists>rows. d' = d1\<lparr>db_intervals := rows\<rparr>)"
    using assms own s by (auto simp: begin_work_tx_def Let_def split_def split: if_splits)
  have r: "budget_rel charge_fence d d1" "clock_frame d d1" using authorize_rel [OF a(1)] by auto
  have "budget_rel charge_fence d d'"
    using a(2) by (intro budget_rel_trans [OF rel_order(4) r(1)] budget_rel_same) auto
  then show ?thesis using own a(2) r(2) by (auto simp: clock_frame_def)
qed

lemma begin_policy_work_rel: "budget_rel charge_fence d (snd (begin_policy_work w tk args d))"
proof -
  have tx: "budget_rel charge_fence d2 (snd (transaction (begin_work_tx w tk kind boot ns) d2))" for kind boot ns d2
    by (rule budget_tx) (auto dest: begin_work_tx_Inr)
  show ?thesis
    unfolding begin_policy_work_def
    by (auto split: prod.splits option.splits simp: budget_rel_same
        intro!: budget_seq [OF rel_order(4)] reconcile_dead_rel(1) tx preflight_rel [THEN conjunct1])
qed

lemma end_work_tx_Inr:
  assumes "end_work_tx w tk i boot ns d = Inr (ok, d')"
  shows "assert_owner w tk d = Inr () \<and> budget_rel charge_fence d d' \<and>
     db_reservations d' = db_reservations d \<and> db_generation d' = db_generation d"
proof -
  obtain b m x where own: "assert_owner w tk d = Inr ()"
    and s: "policy_sample w 0 boot ns = Inr (b, m)" "List.find (\<lambda>x. wi_id x = i) (db_intervals d) = Some x"
    and r: "d' = d \<or> d' = snd (policy_clock_tx w tk b m (policy_has_productive_work tk (close_interval i m d)) False (close_interval i m d))"
    using assms by (auto simp: end_work_tx_def Let_def split: if_splits)
  have c: "budget_rel charge_fence (close_interval i m d) (snd (policy_clock_tx w tk b m a False (close_interval i m d)))"
    "clock_frame (close_interval i m d) (snd (policy_clock_tx w tk b m a False (close_interval i m d)))" for a
    by (rule clock_rel, rule policy_clock_frame)
  have "budget_rel charge_fence d (snd (policy_clock_tx w tk b m a False (close_interval i m d)))" for a
    by (rule budget_pre [OF _ _ _ c(1)]) (simp_all add: close_interval_def)
  then show ?thesis
    using own r c(2) by (auto simp: budget_rel_same clock_frame_def close_interval_def)
qed

lemma end_policy_work_rel: "budget_rel charge_fence d (snd (end_policy_work w tk args d))"
  unfolding end_policy_work_def
  by (auto split: prod.splits simp: budget_rel_same intro!: budget_seq [OF rel_order(4)] budget_tx dest: end_work_tx_Inr)

section \<open>The operations are fenced\<close>

lemma clock_frame_own: "clock_frame d d' \<Longrightarrow> db_reservations d' = db_reservations d \<and> db_generation d' = db_generation d"
  by (simp add: clock_frame_def)

lemma tx_own_frame:
  assumes "\<And>x d'. body d = Inr (x, d') \<Longrightarrow> db_reservations d' = db_reservations d \<and> db_generation d' = db_generation d"
  shows "db_reservations (snd (transaction body d)) = db_reservations d \<and>
    db_generation (snd (transaction body d)) = db_generation d"
  by (cases rule: transaction_cases [of body d]) (auto dest: assms)

lemma seq_own_frame:
  assumes "db_reservations (snd r) = db_reservations d \<and> db_generation (snd r) = db_generation d"
    and "\<And>x d1. r = (Inr x, d1) \<Longrightarrow> db_reservations (snd (k x d1)) = db_reservations d1 \<and>
      db_generation (snd (k x d1)) = db_generation d1"
  shows "db_reservations (snd (seq_op r k)) = db_reservations d \<and> db_generation (snd (seq_op r k)) = db_generation d"
proof (cases r)
  case (Pair v d1)
  then show ?thesis using assms by (cases v) auto
qed

lemma preflight_refused:
  assumes "assert_owner w tk d = Inl e"
  shows "isl (fst (preflight_policy_clock w tk boot ns d)) \<and> snd (preflight_policy_clock w tk boot ns d) = d
     \<or> preflight_policy_clock w tk boot ns d = (Inr (), d)"
  using assms by (auto simp: preflight_policy_clock_def preflight_tx_def transaction_def)

interpretation fenced_configure: fenced_op configure_run_policy_budget
proof
  fix w tk d e i
  assume "assert_owner w tk d = Inl e"
  then show "isl (fst (configure_run_policy_budget w tk i d)) \<and> schema_ext d (snd (configure_run_policy_budget w tk i d))"
    by (auto simp: configure_run_policy_budget_def configure_tx_def transaction_def fence_def split: prod.splits sum.splits)
next
  fix w tk i d
  show "db_reservations (snd (configure_run_policy_budget w tk i d)) = db_reservations d \<and>
      db_generation (snd (configure_run_policy_budget w tk i d)) = db_generation d"
    by (cases rule: transaction_cases)
      (auto simp: configure_run_policy_budget_def transaction_def split: prod.splits sum.splits
        dest!: configure_tx_Inr clock_frame_own)
qed

interpretation fenced_reserve_action: fenced_op reserve_policy_action
proof
  fix w tk d e i
  assume e: "assert_owner w tk d = Inl e"
  then have e': "assert_owner w tk (install_policy d) = Inl e" by simp
  show "isl (fst (reserve_policy_action w tk i d)) \<and> schema_ext d (snd (reserve_policy_action w tk i d))"
    using preflight_refused [OF e', of PNone PNone] e e'
    by (auto simp: reserve_policy_action_def reserve_action_tx_def transaction_def seq_op_def
        split: sum.splits prod.splits)
next
  fix w tk i d
  have tx: "db_reservations (snd (transaction (reserve_action_tx w tk a l inp c ov) d1)) = db_reservations d1 \<and>
      db_generation (snd (transaction (reserve_action_tx w tk a l inp c ov) d1)) = db_generation d1" for a l inp c ov d1
  proof (rule tx_own_frame)
    fix x d' assume "reserve_action_tx w tk a l inp c ov d1 = Inr (x, d')"
    from reserve_action_tx_frame [OF this]
    show "db_reservations d' = db_reservations d1 \<and> db_generation d' = db_generation d1"
      by (simp add: clock_frame_def)
  qed
  have "db_reservations (snd (seq_op (preflight_policy_clock w tk PNone PNone (install_policy d))
        (\<lambda>_ d'. transaction (reserve_action_tx w tk a l inp c ov) d'))) = db_reservations d \<and>
      db_generation (snd (seq_op (preflight_policy_clock w tk PNone PNone (install_policy d))
        (\<lambda>_ d'. transaction (reserve_action_tx w tk a l inp c ov) d'))) = db_generation d" for a l inp c ov
    using preflight_rel [of "install_policy d" w tk PNone PNone] clock_frame_own tx
    by (intro seq_own_frame) auto
  then show "db_reservations (snd (reserve_policy_action w tk i d)) = db_reservations d \<and>
      db_generation (snd (reserve_policy_action w tk i d)) = db_generation d"
    by (auto simp: reserve_policy_action_def split: sum.splits prod.splits)
qed

interpretation fenced_wait: fenced_op record_policy_wait
proof
  fix w tk d e i
  assume "assert_owner w tk d = Inl e"
  then show "isl (fst (record_policy_wait w tk i d)) \<and> schema_ext d (snd (record_policy_wait w tk i d))"
    by (auto simp: record_policy_wait_def wait_tx_def transaction_def split: prod.splits)
next
  fix w tk i d
  have "db_reservations (snd (transaction (wait_tx w tk k el b n) (install_policy d))) = db_reservations d \<and>
      db_generation (snd (transaction (wait_tx w tk k el b n) (install_policy d))) = db_generation d" if "0 \<le> el" for k el b n
    using tx_own_frame [of "wait_tx w tk k el b n" "install_policy d"] wait_tx_rel [OF that] clock_frame_own by fastforce
  then show "db_reservations (snd (record_policy_wait w tk i d)) = db_reservations d \<and>
      db_generation (snd (record_policy_wait w tk i d)) = db_generation d"
    by (cases i) (auto simp: record_policy_wait_def intro!: seq_own_frame)
qed

lemma cancel_own_frame:
  "db_reservations (snd (transaction (cancel_tx w tk actions i) d)) = db_reservations d \<and>
   db_generation (snd (transaction (cancel_tx w tk actions i) d)) = db_generation d"
  by (rule tx_own_frame) (auto dest!: cancel_tx_Inr)

interpretation fenced_cancel_review: fenced_op cancel_unlaunched_policy_review
proof
  fix w tk d e i
  assume "assert_owner w tk d = Inl e"
  then show "isl (fst (cancel_unlaunched_policy_review w tk i d)) \<and> schema_ext d (snd (cancel_unlaunched_policy_review w tk i d))"
    by (auto simp: cancel_unlaunched_policy_review_def cancel_tx_def transaction_def split: prod.splits sum.splits)
next
  fix w tk i d
  show "db_reservations (snd (cancel_unlaunched_policy_review w tk i d)) = db_reservations d \<and>
      db_generation (snd (cancel_unlaunched_policy_review w tk i d)) = db_generation d"
    by (simp add: cancel_unlaunched_policy_review_def cancel_own_frame)
qed

interpretation fenced_cancel_repair: fenced_op cancel_unlaunched_repair
proof
  fix w tk d e i
  assume "assert_owner w tk d = Inl e"
  then show "isl (fst (cancel_unlaunched_repair w tk i d)) \<and> schema_ext d (snd (cancel_unlaunched_repair w tk i d))"
    by (auto simp: cancel_unlaunched_repair_def cancel_tx_def transaction_def split: prod.splits sum.splits)
next
  fix w tk i d
  show "db_reservations (snd (cancel_unlaunched_repair w tk i d)) = db_reservations d \<and>
      db_generation (snd (cancel_unlaunched_repair w tk i d)) = db_generation d"
    by (simp add: cancel_unlaunched_repair_def cancel_own_frame)
qed

interpretation fenced_receipt: fenced_op record_policy_action_receipt
proof
  fix w tk d e i
  assume "assert_owner w tk d = Inl e"
  then show "isl (fst (record_policy_action_receipt w tk i d)) \<and> schema_ext d (snd (record_policy_action_receipt w tk i d))"
    by (auto simp: record_policy_action_receipt_def record_receipt_tx_def transaction_def split: prod.splits sum.splits)
next
  fix w tk i d
  show "db_reservations (snd (record_policy_action_receipt w tk i d)) = db_reservations d \<and>
      db_generation (snd (record_policy_action_receipt w tk i d)) = db_generation d"
  proof -
    have "db_reservations (snd (transaction (record_receipt_tx w tk a b c v) (install_policy d))) = db_reservations d \<and>
      db_generation (snd (transaction (record_receipt_tx w tk a b c v) (install_policy d))) = db_generation d" for a b c v
    proof -
      have "db_reservations d' = db_reservations (install_policy d) \<and> db_generation d' = db_generation (install_policy d)"
        if "record_receipt_tx w tk a b c v (install_policy d) = Inr (x, d')" for x d'
        using record_receipt_tx_Inr [OF that] by (simp add: clock_frame_def)
      from tx_own_frame [OF this] show ?thesis by simp
    qed
    then show ?thesis
      by (auto simp: record_policy_action_receipt_def split: prod.splits sum.splits)
  qed
qed

interpretation fenced_reconcile: fenced_op reconcile_run_policy_clock
proof
  fix w tk d e i
  assume "assert_owner w tk d = Inl e"
  then show "isl (fst (reconcile_run_policy_clock w tk i d)) \<and> schema_ext d (snd (reconcile_run_policy_clock w tk i d))"
    by (auto simp: reconcile_run_policy_clock_def reconcile_clock_tx_def transaction_def split: prod.splits sum.splits)
next
  fix w tk i d
  show "db_reservations (snd (reconcile_run_policy_clock w tk i d)) = db_reservations d \<and>
      db_generation (snd (reconcile_run_policy_clock w tk i d)) = db_generation d"
  proof -
    have "db_reservations (snd (transaction (reconcile_clock_tx w tk c) (install_policy d))) = db_reservations d \<and>
      db_generation (snd (transaction (reconcile_clock_tx w tk c) (install_policy d))) = db_generation d" for c
      using tx_own_frame [of "reconcile_clock_tx w tk c" "install_policy d"]
      by (fastforce dest!: reconcile_clock_tx_Inr)
    then show ?thesis
      by (auto simp: reconcile_run_policy_clock_def split: sum.splits)
  qed
qed


interpretation fenced_begin: fenced_op begin_policy_work
proof
  fix w tk d e and i :: "string \<times> pyval \<times> pyval"
  assume e: "assert_owner w tk d = Inl e"
  obtain kind boot ns where i: "i = (kind, boot, ns)" by (cases i)
  have dead: "isl (fst (reconcile_dead_policy_work w tk d)) \<and> snd (reconcile_dead_policy_work w tk d) = d
      \<or> reconcile_dead_policy_work w tk d = (Inr (), d)"
    using e by (auto simp: reconcile_dead_policy_work_def Let_def reconcile_dead_tx_def transaction_def split: sum.splits)
  have tx: "transaction (begin_work_tx w tk kind boot ns) d = (Inl e, d)"
    using e by (simp add: begin_work_tx_def transaction_def)
  show "isl (fst (begin_policy_work w tk i d)) \<and> schema_ext d (snd (begin_policy_work w tk i d))"
  proof (cases "kind \<in> set work_kinds \<and> reconcile_dead_policy_work w tk d = (Inr (), d)")
    case True
    then have eq: "begin_policy_work w tk i d = seq_op (preflight_policy_clock w tk boot ns d) (\<lambda>_ d2.
        seq_op (transaction (begin_work_tx w tk kind boot ns) d2) (\<lambda>err d3.
            case err of Some code \<Rightarrow> (own_refuse code, d3) | None \<Rightarrow> (Inr (w_uuid w 0), d3)))"
      by (simp add: begin_policy_work_def i)
    from preflight_refused [OF e, of boot ns] show ?thesis
    proof
      assume "isl (fst (preflight_policy_clock w tk boot ns d)) \<and> snd (preflight_policy_clock w tk boot ns d) = d"
      then show ?thesis unfolding eq by (rule seq_op_refused_ext)
    next
      assume "preflight_policy_clock w tk boot ns d = (Inr (), d)"
      then show ?thesis unfolding eq by (simp add: tx)
    qed
  next
    case False
    then have "begin_policy_work w tk i d = (own_refuse ''POLICY_WORK_KIND_INVALID'', d)
        \<or> (\<exists>k. begin_policy_work w tk i d = seq_op (reconcile_dead_policy_work w tk d) k) \<and>
          reconcile_dead_policy_work w tk d \<noteq> (Inr (), d)"
      by (auto simp: begin_policy_work_def i)
    then show ?thesis
    proof
      assume "(\<exists>k. begin_policy_work w tk i d = seq_op (reconcile_dead_policy_work w tk d) k) \<and>
          reconcile_dead_policy_work w tk d \<noteq> (Inr (), d)"
      then obtain k where k: "begin_policy_work w tk i d = seq_op (reconcile_dead_policy_work w tk d) k"
        and "reconcile_dead_policy_work w tk d \<noteq> (Inr (), d)" by blast
      with dead have "isl (fst (reconcile_dead_policy_work w tk d)) \<and> snd (reconcile_dead_policy_work w tk d) = d"
        by blast
      then show ?thesis unfolding k by (rule seq_op_refused_ext)
    qed simp
  qed
next
  fix w tk i d
  show "db_reservations (snd (begin_policy_work w tk i d)) = db_reservations d \<and>
      db_generation (snd (begin_policy_work w tk i d)) = db_generation d"
  proof -
    have tx: "db_reservations (snd (transaction (begin_work_tx w tk k b n) d2)) = db_reservations d2 \<and>
        db_generation (snd (transaction (begin_work_tx w tk k b n) d2)) = db_generation d2" for k b n d2
      by (rule tx_own_frame) (simp add: begin_work_tx_Inr)
    have pre: "db_reservations (snd (preflight_policy_clock w tk b n d1)) = db_reservations d1 \<and>
        db_generation (snd (preflight_policy_clock w tk b n d1)) = db_generation d1" for b n d1
      by (rule clock_frame_own) (simp add: preflight_rel)
    show ?thesis
      unfolding begin_policy_work_def
      by (auto split: prod.splits option.splits intro!: seq_own_frame reconcile_dead_rel(2) pre tx)
  qed
qed

interpretation fenced_end: fenced_op end_policy_work
proof
  fix w tk d e i
  assume "assert_owner w tk d = Inl e"
  then show "isl (fst (end_policy_work w tk i d)) \<and> schema_ext d (snd (end_policy_work w tk i d))"
    by (auto simp: end_policy_work_def end_work_tx_def transaction_def split: prod.splits)
next
  fix w tk i d
  show "db_reservations (snd (end_policy_work w tk i d)) = db_reservations d \<and>
      db_generation (snd (end_policy_work w tk i d)) = db_generation d"
    by (auto simp: end_policy_work_def split: prod.splits intro!: seq_own_frame tx_own_frame dest: end_work_tx_Inr)
qed

end
