(* ===== verification/Policy_Limits.thy ===== *)
theory Policy_Limits
  imports Policy_Budget
begin

text \<open>
  What the policy budget guarantees: a launch is charged exactly once and never beyond the tier,
  the named actions stay within their allowances, reserving is idempotent, an uncertain clock
  stops every charging operation, and a cancelled recovery trial is still counted.
\<close>

section \<open>Charging a launch\<close>

lemma action_of_Some: "action_of tk i d = Some a \<Longrightarrow> a \<in> set (db_actions d) \<and> pa_id a = i \<and> action_match tk a"
  by (auto simp: action_of_def dest: find_Some_in)

lemma bind_clock_check_Inr:
  "bind_clock_check w n b = Inr () \<Longrightarrow> \<not> pb_uncertain b \<and> pb_active_ns b < pb_active_limit b \<and>
     (\<exists>boot ns. policy_sample w n PNone PNone = Inr (boot, ns) \<and> pb_boot b = boot \<and> pb_last_ns b \<le> ns)"
  by (auto simp: bind_clock_check_def split: if_splits)

definition charge_attempt :: "string \<Rightarrow> policy_action \<Rightarrow> policy_action" where
  "charge_attempt intent x =
     (case pa_intent x of
        None \<Rightarrow> x\<lparr>pa_intent := Some intent, pa_attempts := pa_attempts x + 1, pa_state := ''dispatched''\<rparr>
      | Some _ \<Rightarrow> x\<lparr>pa_attempts := pa_attempts x + 1\<rparr>)"

lemma charge_action_Inr:
  assumes "charge_action intent a d = Inr d'" and "a \<in> set (db_actions d)" and "distinct (map pa_id (db_actions d))"
  shows "db_budgets d' = db_budgets d \<and> clock_frame (d\<lparr>db_actions := db_actions d', db_attempts := db_attempts d'\<rparr>) d' \<and>
    db_actions d' = update_where (\<lambda>x. pa_id x = pa_id a) (charge_attempt intent) (db_actions d) \<and>
    intent \<in> snd ` set (db_attempts d')"
proof -
  have same: "x = a" if "x \<in> set (db_actions d)" "pa_id x = pa_id a" for x
    using assms(2,3) that by (auto simp: distinct_map inj_on_def)
  show ?thesis
  proof (cases "pa_intent a")
    case None
    then have "update_where (\<lambda>x. pa_id x = pa_id a) (charge_attempt intent) (db_actions d) =
        update_where (\<lambda>x. pa_id x = pa_id a)
          (\<lambda>x. x\<lparr>pa_intent := Some intent, pa_attempts := pa_attempts x + 1, pa_state := ''dispatched''\<rparr>) (db_actions d)"
      unfolding update_where_def using None by (intro map_cong) (auto simp: charge_attempt_def dest: same)
    with None assms(1) show ?thesis
      by (auto simp: charge_action_def clock_frame_def split: if_splits)
  next
    case (Some j)
    then have "update_where (\<lambda>x. pa_id x = pa_id a) (charge_attempt intent) (db_actions d) =
        update_where (\<lambda>x. pa_id x = pa_id a) (\<lambda>x. x\<lparr>pa_attempts := pa_attempts x + 1\<rparr>) (db_actions d)"
      unfolding update_where_def using Some by (intro map_cong) (auto simp: charge_attempt_def dest: same)
    with Some assms(1) show ?thesis
      by (auto simp: charge_action_def clock_frame_def list_ex_iff image_iff split: if_splits)
  qed
qed

lemma bind_launch_Inr:
  assumes "policy_bind_launch_tx w tk q d = Inr d'" and "budget_of tk d = Some b"
  obtains aid a d1 where "lb_action q = Some aid" "action_of tk aid d = Some a"
    "pa_state a \<in> {''reserved'', ''dispatched''}" "binding_check q a d = Inr ()" "pa_attempts a < 2"
    "retry_allowed tk b a d = Inr ()" "pb_charged b < pb_launch_limit b" "charge_action (lb_intent q) a d = Inr d1"
    "d' = update_budget tk (\<lambda>x. x\<lparr>pb_charged := pb_charged x + 1\<rparr>) d1" "bind_clock_check w 1 b = Inr ()"
  using assms by (auto simp: policy_bind_launch_tx_def split: if_splits)

lemma charge_action_budgets: "charge_action intent a d = Inr d' \<Longrightarrow> db_budgets d' = db_budgets d"
  by (auto simp: charge_action_def split: option.splits if_splits)

lemma charge_action_frame:
  "charge_action intent a d = Inr d' \<Longrightarrow> clock_frame (d\<lparr>db_actions := db_actions d', db_attempts := db_attempts d'\<rparr>) d'"
  by (auto simp: charge_action_def clock_frame_def split: option.splits if_splits)

lemma bind_launch_frame:
  "policy_bind_launch_tx w tk q d = Inr d' \<Longrightarrow>
     clock_frame (d\<lparr>db_actions := db_actions d', db_attempts := db_attempts d'\<rparr>) d' \<and> budget_rel charge_fence d d'"
proof -
  assume ok: "policy_bind_launch_tx w tk q d = Inr d'"
  show ?thesis
  proof (cases "budget_of tk d")
    case None
    then show ?thesis using ok by (auto simp: policy_bind_launch_tx_def clock_frame_def budget_rel_same)
  next
    case (Some b)
    obtain a d1 where c: "charge_action (lb_intent q) a d = Inr d1"
        "d' = update_budget tk (\<lambda>x. x\<lparr>pb_charged := pb_charged x + 1\<rparr>) d1"
      by (rule bind_launch_Inr [OF ok Some])
    have "budget_rel charge_fence d d'"
      unfolding c(2) by (rule budget_rel_update)
        (simp_all add: charge_action_budgets [OF c(1)] charge_fence_def charge_le_def fence_kept_def)
    then show ?thesis using charge_action_frame [OF c(1)] c(2) by (simp add: clock_frame_def)
  qed
qed

text \<open>
  C23: a launch bound to a budgeted run charges the budget by exactly one, within the launch
  limit of the tier and with a certain clock, and charges one transport attempt (the second at
  most) of the named action the caller supplied, which was reserved or dispatched.
\<close>

theorem bind_launch_charges:
  assumes "policy_bind_launch_tx w tk q d = Inr d'" and "budget_of tk d = Some b"
    and "distinct (map pa_id (db_actions d))"
  shows "\<exists>b' aid a. budget_of tk d' = Some b' \<and> pb_charged b' = pb_charged b + 1 \<and>
     pb_charged b' \<le> pb_launch_limit b \<and> \<not> pb_uncertain b \<and> pb_active_ns b < pb_active_limit b \<and>
     lb_action q = Some aid \<and> action_of tk aid d = Some a \<and> pa_state a \<in> {''reserved'', ''dispatched''} \<and>
     pa_attempts a < 2 \<and> action_of tk aid d' = Some (charge_attempt (lb_intent q) a)"
proof -
  obtain aid a d1 where q: "lb_action q = Some aid"
      "action_of tk aid d = Some a" "pa_state a \<in> {''reserved'', ''dispatched''}" "pa_attempts a < 2"
    and lim: "pb_charged b < pb_launch_limit b" and c: "charge_action (lb_intent q) a d = Inr d1"
    and d': "d' = update_budget tk (\<lambda>x. x\<lparr>pb_charged := pb_charged x + 1\<rparr>) d1"
    and clock: "bind_clock_check w 1 b = Inr ()"
    by (rule bind_launch_Inr [OF assms(1,2)])
  have a: "a \<in> set (db_actions d)" "pa_id a = aid" "action_match tk a" using action_of_Some [OF q(2)] by auto
  note ch = charge_action_Inr [OF c a(1) assms(3)]
  have b1: "budget_of tk d1 = Some b" using assms(2) ch budget_of_cong [of d1 d] by simp
  have "budget_of tk d' = Some (b\<lparr>pb_charged := pb_charged b + 1\<rparr>)"
    unfolding d' by (rule budget_of_update_same [OF _ b1]) simp
  moreover have "action_of tk aid d' = Some (charge_attempt (lb_intent q) a)"
  proof -
    have m: "pa_id (charge_attempt i x) = pa_id x" "action_match tk (charge_attempt i x) = action_match tk x" for i x
      by (auto simp: charge_attempt_def action_match_def split: option.splits)
    have "List.find (\<lambda>x. pa_id x = aid \<and> action_match tk x) (update_where (\<lambda>x. pa_id x = pa_id a) f rs) =
        map_option f (List.find (\<lambda>x. pa_id x = aid \<and> action_match tk x) rs)"
      if "\<And>x. pa_id (f x) = pa_id x" "\<And>x. action_match tk (f x) = action_match tk x" for f rs
      using that a(2) by (induction rs) auto
    from this [OF m] show ?thesis
      using q(2) ch by (simp add: d' action_of_def)
  qed
  ultimately show ?thesis
    using lim q bind_clock_check_Inr [OF clock] by auto
qed

section \<open>Allowances of the named actions\<close>

definition usage_weight :: "owner_token \<Rightarrow> string \<Rightarrow> policy_action \<Rightarrow> int" where
  "usage_weight tk action a =
     (if action_match tk a \<and> pa_action a = action \<and> pa_state a \<noteq> ''cancelled''
      then (if pa_action a = ''repair'' then attempts_charge a else 1) else 0)"

lemma action_usage_sum: "action_usage tk action rows = sum_list (map (usage_weight tk action) rows)"
  unfolding action_usage_def by (induction rows) (auto simp: usage_weight_def)

lemma sum_update_one:
  fixes g :: "'r \<Rightarrow> int"
  assumes "distinct (map key rs)" and "a \<in> set rs"
  shows "sum_list (map g (update_where (\<lambda>x. key x = key a) f rs)) = sum_list (map g rs) - g a + g (f a)"
  using assms
proof (induction rs)
  case (Cons r rs)
  show ?case
  proof (cases "key r = key a")
    case True
    with Cons.prems have "r = a" "\<forall>x \<in> set rs. key x \<noteq> key a" by (auto simp: image_iff)
    moreover from this(2) have "update_where (\<lambda>x. key x = key a) f rs = rs"
      by (intro update_where_none) auto
    ultimately show ?thesis by simp
  next
    case False
    with Cons show ?thesis by auto
  qed
qed simp

text \<open>Every run-wide allowance of the run's tier is respected.\<close>

definition allowances_ok :: "owner_token \<Rightarrow> db \<Rightarrow> bool" where
  "allowances_ok tk d = (case budget_of tk d of None \<Rightarrow> True
     | Some b \<Rightarrow> list_all (\<lambda>(a, lims). action_usage tk a (db_actions d) \<le> tier_column (pb_tier b) lims) ACTION_LIMITS)"

lemma allowances_okI:
  assumes "budget_of tk d = Some b"
    and "\<And>a lims. (a, lims) \<in> set ACTION_LIMITS \<Longrightarrow> action_usage tk a (db_actions d) \<le> tier_column (pb_tier b) lims"
  shows "allowances_ok tk d"
  using assms by (auto simp: allowances_ok_def list_all_iff)

lemma allowances_okD:
  "allowances_ok tk d \<Longrightarrow> budget_of tk d = Some b \<Longrightarrow> (a, lims) \<in> set ACTION_LIMITS \<Longrightarrow>
     action_usage tk a (db_actions d) \<le> tier_column (pb_tier b) lims"
  by (auto simp: allowances_ok_def list_all_iff)

lemma ACTION_LIMITS_action_limit:
  "(a, lims) \<in> set ACTION_LIMITS \<Longrightarrow> action_limit (PStr a) (PStr tier) = Inr l \<Longrightarrow>
     l = Some (tier_column tier lims) \<and> a \<noteq> ''recovery_trial''"
  by (auto simp: ACTION_LIMITS_def action_limit_def policy_tier_def split: option.splits prod.splits)

lemma reserve_keeps_allowances:
  assumes "reserve_action_tx w tk action logical input cycle overhead d = Inr (r, d')" and "allowances_ok tk d"
  shows "allowances_ok tk d'"
proof -
  obtain row reused where ru: "r = (row, reused)" by (cases r)
  note ok = reserve_action_tx_Inr [OF assms(1) [unfolded ru]]
  then obtain b where b: "budget_of tk d = Some b" by blast
  show ?thesis
  proof (cases reused)
    case True
    with ok assms(2) show ?thesis by auto
  next
    case False
    with ok b have allowed: "action_allowed tk b action cycle d = Inr ()"
      and d': "d' = d\<lparr>db_actions := db_actions d @ [row]\<rparr>" and row: "pa_action row = action" "pa_attempts row = 0"
      by auto
    have b': "budget_of tk d' = Some b" using b d' budget_of_cong [of d' d] by simp
    show ?thesis
    proof (rule allowances_okI [OF b'])
      fix a lims assume al: "(a, lims) \<in> set ACTION_LIMITS"
      have old: "action_usage tk a (db_actions d) \<le> tier_column (pb_tier b) lims"
        using allowances_okD [OF assms(2) b al] .
      have new: "action_usage tk a (db_actions d') = action_usage tk a (db_actions d) + usage_weight tk a row"
        by (simp add: action_usage_sum d')
      show "action_usage tk a (db_actions d') \<le> tier_column (pb_tier b) lims"
      proof (cases "a = action")
        case True
        obtain l where l: "action_limit (PStr action) (PStr (pb_tier b)) = Inr l"
          using allowed by (auto simp: action_allowed_def)
        have "l = Some (tier_column (pb_tier b) lims)" "action \<noteq> ''recovery_trial''"
          using ACTION_LIMITS_action_limit al l True by auto
        then have "action_usage tk action (db_actions d) < tier_column (pb_tier b) lims"
          using allowed l by (auto simp: action_allowed_def split: if_splits)
        moreover have "usage_weight tk a row \<le> 1" using row by (simp add: usage_weight_def attempts_charge_def)
        ultimately show ?thesis using new True by simp
      next
        case False
        then show ?thesis using new old row by (simp add: usage_weight_def)
      qed
    qed
  qed
qed

lemma cancel_keeps_allowances:
  assumes "cancel_tx w tk actions i d = Inr ((), d')" and "allowances_ok tk d"
  shows "allowances_ok tk d'"
proof (cases "budget_of tk d")
  case None
  with cancel_tx_Inr [OF assms(1)] budget_of_cong [of d' d tk] show ?thesis by (auto simp: allowances_ok_def)
next
  case (Some b)
  have le: "usage_weight tk a (x\<lparr>pa_state := ''cancelled''\<rparr>) \<le> usage_weight tk a x" for a x
    by (auto simp: usage_weight_def attempts_charge_def)
  have "action_usage tk a (db_actions d') \<le> action_usage tk a (db_actions d)" for a
  proof -
    have "sum_list (map (usage_weight tk a) (update_where P (\<lambda>x. x\<lparr>pa_state := ''cancelled''\<rparr>) rs))
        \<le> sum_list (map (usage_weight tk a) rs)" for P rs
      using le by (induction rs) (auto intro: add_mono)
    then show ?thesis using cancel_tx_Inr [OF assms(1)] by (auto simp: action_usage_sum)
  qed
  moreover have "budget_of tk d' = Some b"
    using Some cancel_tx_Inr [OF assms(1)] budget_of_cong [of d' d tk] by auto
  ultimately show ?thesis
    by (intro allowances_okI) (auto intro!: order_trans [OF _ allowances_okD [OF assms(2) Some]])
qed

lemma bind_keeps_allowances:
  assumes "policy_bind_launch_tx w tk q d = Inr d'" and "allowances_ok tk d" and "distinct (map pa_id (db_actions d))"
  shows "allowances_ok tk d'"
proof (cases "budget_of tk d")
  case None
  then show ?thesis using assms(1,2) by (simp add: policy_bind_launch_tx_def)
next
  case (Some b)
  obtain aid a d1 where q: "action_of tk aid d = Some a" "pa_state a \<in> {''reserved'', ''dispatched''}"
    and retry: "retry_allowed tk b a d = Inr ()" and c: "charge_action (lb_intent q) a d = Inr d1"
    and d': "d' = update_budget tk (\<lambda>x. x\<lparr>pb_charged := pb_charged x + 1\<rparr>) d1"
    by (rule bind_launch_Inr [OF assms(1) Some])
  have a: "a \<in> set (db_actions d)" "action_match tk a" using action_of_Some [OF q(1)] by auto
  note ch = charge_action_Inr [OF c a(1) assms(3)]
  have b': "budget_of tk d' = Some (b\<lparr>pb_charged := pb_charged b + 1\<rparr>)"
    unfolding d' by (rule budget_of_update_same) (use Some ch budget_of_cong [of d1 d] in simp_all)
  have acts: "db_actions d' = update_where (\<lambda>x. pa_id x = pa_id a) (charge_attempt (lb_intent q)) (db_actions d)"
    using ch d' by simp
  show ?thesis
  proof (rule allowances_okI [OF b'], simp)
    fix k lims assume kl: "(k, lims) \<in> set ACTION_LIMITS"
    have old: "action_usage tk k (db_actions d) \<le> tier_column (pb_tier b) lims"
      using allowances_okD [OF assms(2) Some kl] .
    have new: "action_usage tk k (db_actions d') = action_usage tk k (db_actions d) - usage_weight tk k a
        + usage_weight tk k (charge_attempt (lb_intent q) a)"
      unfolding action_usage_sum acts by (rule sum_update_one [OF assms(3) a(1)])
    have w: "usage_weight tk k (charge_attempt (lb_intent q) a) =
        (if pa_action a = k then (if k = ''repair'' then max 1 (pa_attempts a + 1) else 1) else 0)"
      using a(2) q(2)
      by (auto simp: usage_weight_def charge_attempt_def attempts_charge_def action_match_def split: option.splits)
    have w0: "usage_weight tk k a = (if pa_action a = k then (if k = ''repair'' then max 1 (pa_attempts a) else 1) else 0)"
      using a(2) q(2) by (auto simp: usage_weight_def attempts_charge_def)
    show "action_usage tk k (db_actions d') \<le> tier_column (pb_tier b) lims"
    proof (cases "k = ''repair'' \<and> pa_action a = k \<and> 0 < pa_attempts a")
      case True
      obtain l where l: "action_limit (PStr ''repair'') (PStr (pb_tier b)) = Inr l"
        using retry True by (auto simp: retry_allowed_def)
      have lim: "l = Some (tier_column (pb_tier b) lims)" using ACTION_LIMITS_action_limit [OF kl] l True by auto
      let ?all = "filter (\<lambda>x. action_match tk x \<and> pa_action x = ''repair'') (db_actions d)"
      have "sum_list (map attempts_charge ?all) < tier_column (pb_tier b) lims"
        using retry True l lim by (auto simp: retry_allowed_def Let_def split: if_splits)
      moreover have "action_usage tk ''repair'' rs \<le> sum_list (map attempts_charge
          (filter (\<lambda>x. action_match tk x \<and> pa_action x = ''repair'') rs))" for rs
        by (induction rs) (auto simp: action_usage_def attempts_charge_def)
      ultimately have "action_usage tk k (db_actions d) < tier_column (pb_tier b) lims"
        using True by (meson le_less_trans)
      then show ?thesis using new w w0 by auto
    next
      case False
      then show ?thesis using new old w w0 by (auto simp: max_def split: if_splits)
    qed
  qed
qed

text \<open>The committed steps on the actions of one run: reserving, releasing unlaunched ones, launching.\<close>

inductive action_step :: "owner_token \<Rightarrow> db \<Rightarrow> db \<Rightarrow> bool" where
  reserve: "reserve_action_tx w tk action logical input cycle overhead d = Inr (r, d') \<Longrightarrow> action_step tk d d'"
| cancel: "cancel_tx w tk actions i d = Inr ((), d') \<Longrightarrow> action_step tk d d'"
| launch: "policy_bind_launch_tx w tk q d = Inr d' \<Longrightarrow> action_step tk d d'"

inductive_cases action_step_elim: "action_step tk d d'"

definition action_ids_distinct :: "db \<Rightarrow> bool" where
  "action_ids_distinct d = distinct (map pa_id (db_actions d))"

lemma charge_action_ids: "charge_action i a d = Inr d' \<Longrightarrow> map pa_id (db_actions d') = map pa_id (db_actions d)"
  by (auto simp: charge_action_def update_where_def split: option.splits if_splits)

lemma action_step_ids: "action_step tk d d' \<Longrightarrow> action_ids_distinct d \<Longrightarrow> action_ids_distinct d'"
proof (erule action_step_elim)
  fix w action logical input cycle overhead r
  assume ok: "reserve_action_tx w tk action logical input cycle overhead d = Inr (r, d')" and ids: "action_ids_distinct d"
  obtain row u where ru: "r = (row, u)" by (cases r)
  show "action_ids_distinct d'"
    using reserve_action_tx_Inr [OF ok [unfolded ru]] ids
    by (cases u) (force simp: action_ids_distinct_def action_clash_def)+
next
  fix w actions i assume "cancel_tx w tk actions i d = Inr ((), d')" "action_ids_distinct d"
  then show "action_ids_distinct d'"
    by (auto dest!: cancel_tx_Inr simp: action_ids_distinct_def map_update_where)
next
  fix w q assume ok: "policy_bind_launch_tx w tk q d = Inr d'" and ids: "action_ids_distinct d"
  show "action_ids_distinct d'"
  proof (cases "budget_of tk d")
    case None
    then show ?thesis using ok ids by (simp add: policy_bind_launch_tx_def)
  next
    case (Some b)
    obtain a d1 where "charge_action (lb_intent q) a d = Inr d1"
        "d' = update_budget tk (\<lambda>x. x\<lparr>pb_charged := pb_charged x + 1\<rparr>) d1"
      by (rule bind_launch_Inr [OF ok Some])
    then show ?thesis using ids charge_action_ids by (simp add: action_ids_distinct_def)
  qed
qed

lemma action_step_allowances:
  "action_step tk d d' \<Longrightarrow> allowances_ok tk d \<Longrightarrow> action_ids_distinct d \<Longrightarrow> allowances_ok tk d'"
  by (erule action_step_elim)
    (auto simp: action_ids_distinct_def intro: reserve_keeps_allowances cancel_keeps_allowances bind_keeps_allowances)

text \<open>
  C24: the cumulative allowances of the tier are never exceeded: from any state that respects
  them, every sequence of reservations, releases of unlaunched actions and launches (with their
  one transport retry, which for a repair consumes its own allowance) respects them.
\<close>

theorem action_allowances_respected:
  assumes "allowances_ok tk d" and "action_ids_distinct d" and "(action_step tk)\<^sup>*\<^sup>* d d'"
  shows "allowances_ok tk d'"
proof -
  have "allowances_ok tk d' \<and> action_ids_distinct d'"
    using assms(3) by (induction rule: rtranclp_induct) (use assms(1,2) action_step_allowances action_step_ids in auto)
  then show ?thesis ..
qed

text \<open>
  reserving is idempotent. A second reservation of the same frozen logical input by the same
  owner, on the store the first one left and under an unchanged budget, returns the first
  reservation as reused and changes nothing.
\<close>

theorem reserve_action_idempotent:
  assumes "reserve_action_tx w tk action logical input cycle overhead d = Inr ((row, reused), d')"
    and "\<And>x. x \<in> set (db_actions d) \<Longrightarrow> pa_repo x = tk_repo tk \<Longrightarrow> pa_run x = tk_run tk \<Longrightarrow>
      pa_action x = action \<Longrightarrow> pa_logical x = logical \<Longrightarrow> pa_input x = input \<Longrightarrow>
      List.find (\<lambda>a. action_match tk a \<and> pa_action a = action \<and> pa_logical a = logical \<and> pa_input a = input)
        (db_actions d) = Some x"
  shows "reserve_action_tx w' tk action logical input cycle' overhead' d' =
    (case assert_owner w' tk d' of Inl e \<Rightarrow> Inl e | Inr _ \<Rightarrow> Inr ((row, True), d'))"
proof -
  note ok = reserve_action_tx_Inr [OF assms(1)]
  then obtain b where b: "budget_of tk d = Some b" "\<not> pb_uncertain b" "pb_active_ns b < pb_active_limit b" by blast
  have "budget_of tk d' = Some b"
    using b(1) reserve_action_tx_frame [OF assms(1)] budget_of_cong [of d' d] by simp
  moreover have "List.find (\<lambda>a. action_match tk a \<and> pa_action a = action \<and> pa_logical a = logical
      \<and> pa_input a = input) (db_actions d') = Some row \<and> pa_state row \<noteq> ''cancelled''"
  proof (cases reused)
    case True
    then show ?thesis using ok assms(2) [of row] by (auto simp: action_match_def)
  next
    case False
    have "List.find (\<lambda>a. action_match tk a \<and> pa_action a = action \<and> pa_logical a = logical
      \<and> pa_input a = input) (db_actions d) = None"
      unfolding find_None_all using ok False by (auto simp: action_clash_def action_match_def)
    then show ?thesis using ok False by (auto simp: find_append)
  qed
  ultimately show ?thesis
    using b(2,3) by (cases "assert_owner w' tk d'") (simp_all add: reserve_action_tx_def)
qed

text \<open>The clock of an uncertain run is only marked again.\<close>

definition only_marked :: "owner_token \<Rightarrow> db \<Rightarrow> db \<Rightarrow> bool" where
  "only_marked tk d d' = (d' = d \<or> d' = update_budget tk mark_uncertain d)"

lemma only_marked_refl [simp]: "only_marked tk d d"
  by (simp add: only_marked_def)

lemma uncertain_tick:
  "budget_of tk d = Some b \<Longrightarrow> pb_uncertain b \<Longrightarrow> policy_clock_tx w tk boot ns a r d = (False, update_budget tk mark_uncertain d)"
  by (simp add: policy_clock_tx_def)

lemma preflight_uncertain:
  assumes "budget_of tk d = Some b" and "pb_uncertain b" and "db_policy_installed d"
  shows "isl (fst (preflight_policy_clock w tk boot ns d)) \<and> only_marked tk d (snd (preflight_policy_clock w tk boot ns d))"
proof (cases rule: transaction_cases [of "preflight_tx w tk boot ns" d])
  case (refused e)
  then show ?thesis using assms by (simp add: preflight_policy_clock_def only_marked_def)
next
  case (committed x d')
  then have "x = Some False" "d' = update_budget tk mark_uncertain d"
    using uncertain_tick [OF assms(1,2)] by (auto simp: preflight_tx_def assms(1) split: if_split_asm)
  then show ?thesis using assms committed by (simp add: preflight_policy_clock_def only_marked_def own_refuse_def)
qed

lemma refused_seq:
  assumes "isl (fst r)" and "only_marked tk d (snd r)"
  shows "isl (fst (seq_op r k)) \<and> only_marked tk d (snd (seq_op r k))"
proof -
  obtain x d1 where r: "r = (x, d1)" by (cases r)
  show ?thesis using assms by (cases x) (simp_all add: r)
qed

lemma reconcile_dead_uncertain:
  assumes "budget_of tk d = Some b" and "pb_uncertain b"
  shows "isl (fst (reconcile_dead_policy_work w tk d)) \<and> only_marked tk d (snd (reconcile_dead_policy_work w tk d))
     \<or> reconcile_dead_policy_work w tk d = (Inr (), d)"
proof -
  have tx: "isl (fst (seq_op (transaction (reconcile_dead_tx w tk xs owners) d)
        (\<lambda>ok d'. if ok then (Inr (), d') else (own_refuse ''CLOCK_RECONCILIATION_REQUIRED'', d')))) \<and>
      only_marked tk d (snd (seq_op (transaction (reconcile_dead_tx w tk xs owners) d)
        (\<lambda>ok d'. if ok then (Inr (), d') else (own_refuse ''CLOCK_RECONCILIATION_REQUIRED'', d'))))" for xs owners
  proof (cases rule: transaction_cases [of "reconcile_dead_tx w tk xs owners" d])
    case (refused e)
    then show ?thesis by (simp add: only_marked_def)
  next
    case (committed ok d')
    then have "\<not> ok" "d' = update_budget tk mark_uncertain d"
      using uncertain_tick [OF assms] by (auto simp: reconcile_dead_tx_def split: if_split_asm)
    then show ?thesis using committed by (simp add: only_marked_def own_refuse_def)
  qed
  show ?thesis
    using tx by (auto simp: reconcile_dead_policy_work_def Let_def only_marked_def own_refuse_def store_refuse_def split: sum.split)
qed

lemma still_uncertain:
  assumes "budget_rel charge_fence d d'" and "budget_of tk d = Some b" and "pb_uncertain b"
  shows "\<exists>b'. budget_of tk d' = Some b' \<and> pb_uncertain b'"
  using budget_relD [OF assms(1,2)] assms(3) by (auto simp: charge_fence_def fence_kept_def)

lemma uncertain_begin:
  assumes "budget_of tk d = Some b" and "pb_uncertain b" and "db_policy_installed d"
  shows "isl (fst (begin_policy_work w tk args d)) \<and> only_marked tk d (snd (begin_policy_work w tk args d))"
proof (cases args)
  case (fields kind boot ns)
  note pre = preflight_uncertain [OF assms, of w boot ns]
  show ?thesis
    using reconcile_dead_uncertain [OF assms(1,2), of w]
  proof
    assume dead: "isl (fst (reconcile_dead_policy_work w tk d)) \<and> only_marked tk d (snd (reconcile_dead_policy_work w tk d))"
    show ?thesis unfolding begin_policy_work_def fields
      by (simp add: refused_seq [OF dead [THEN conjunct1] dead [THEN conjunct2]] own_refuse_def)
  next
    assume "reconcile_dead_policy_work w tk d = (Inr (), d)"
    then show ?thesis unfolding begin_policy_work_def fields
      by (simp add: refused_seq [OF pre [THEN conjunct1] pre [THEN conjunct2]] own_refuse_def)
  qed
qed

lemma uncertain_wait:
  assumes "budget_of tk d = Some b" and "pb_uncertain b" and "db_policy_installed d"
  shows "isl (fst (record_policy_wait w tk wargs d)) \<and> only_marked tk d (snd (record_policy_wait w tk wargs d))"
proof -
  have inst: "install_policy d = d" using assms(3) by (simp add: install_policy_def)
  have "isl (fst (seq_op (transaction (wait_tx w tk k el boot ns) d)
        (\<lambda>(ok, r) d'. if \<not> ok then (own_refuse ''CLOCK_RECONCILIATION_REQUIRED'', d') else (Inr r, d')))) \<and>
      only_marked tk d (snd (seq_op (transaction (wait_tx w tk k el boot ns) d)
        (\<lambda>(ok, r) d'. if \<not> ok then (own_refuse ''CLOCK_RECONCILIATION_REQUIRED'', d') else (Inr r, d'))))" for k el boot ns
  proof (cases rule: transaction_cases [of "wait_tx w tk k el boot ns" d])
    case (refused e)
    then show ?thesis by (simp add: only_marked_def)
  next
    case (committed x d')
    then have "\<not> fst x" "d' = update_budget tk mark_uncertain d"
      using uncertain_tick [OF assms(1,2)] by (auto simp: wait_tx_def Let_def assms(1))
    then show ?thesis using committed by (cases x) (simp add: only_marked_def own_refuse_def)
  qed
  then show ?thesis
    by (cases wargs) (simp add: record_policy_wait_def inst only_marked_def own_refuse_def)
qed

lemma uncertain_reserve:
  assumes "budget_of tk d = Some b" and "pb_uncertain b" and "db_policy_installed d"
  shows "isl (fst (reserve_policy_action w tk q d)) \<and> only_marked tk d (snd (reserve_policy_action w tk q d))"
proof -
  have inst: "install_policy d = d" using assms(3) by (simp add: install_policy_def)
  note pre = preflight_uncertain [OF assms, of w PNone PNone]
  show ?thesis
    by (simp add: reserve_policy_action_def inst refused_seq [OF pre [THEN conjunct1] pre [THEN conjunct2]]
        split: sum.split prod.split)
qed

text \<open>
  C25: an uncertain clock stops the run. While the clock of the run is marked uncertain no action
  is reserved, no work interval begins, no wait is credited and no launch is bound: each call is refused and
  the store it leaves is the one it found, but for the mark itself (\<open>only_marked\<close>). The clock
  stays uncertain; only the evidenced reconciliation clears it.
\<close>

theorem uncertain_clock_blocks:
  assumes "budget_of tk d = Some b" and "pb_uncertain b" and "db_policy_installed d"
  shows "isl (fst (reserve_policy_action w tk q d)) \<and> isl (fst (begin_policy_work w tk args d)) \<and>
    isl (fst (record_policy_wait w tk wargs d)) \<and> isl (policy_bind_launch_tx w tk lq d) \<and>
    (\<forall>d'. (d' = snd (reserve_policy_action w tk q d) \<or> d' = snd (begin_policy_work w tk args d)
        \<or> d' = snd (record_policy_wait w tk wargs d)) \<longrightarrow>
      (d' = d \<or> d' = update_budget tk mark_uncertain d) \<and> (\<exists>b'. budget_of tk d' = Some b' \<and> pb_uncertain b'))"
proof -
  have "isl (policy_bind_launch_tx w tk lq d)"
  proof (rule ccontr)
    assume "\<not> isl (policy_bind_launch_tx w tk lq d)"
    then obtain d' where "policy_bind_launch_tx w tk lq d = Inr d'" by (cases "policy_bind_launch_tx w tk lq d") auto
    then obtain x where "bind_clock_check w 1 b = Inr x" by (rule bind_launch_Inr [OF _ assms(1)])
    then show False using bind_clock_check_Inr [of w 1 b] assms(2) by simp
  qed
  then show ?thesis
    using uncertain_reserve [OF assms, of w q] uncertain_begin [OF assms, of w args] uncertain_wait [OF assms, of w wargs]
      still_uncertain [OF reserve_policy_action_rel assms(1,2)] still_uncertain [OF begin_policy_work_rel assms(1,2)]
      still_uncertain [OF record_policy_wait_rel assms(1,2)] unfolding only_marked_def by metis
qed

section \<open>Cancelled recovery trials\<close>

text \<open>
  C35: releasing an unlaunched recovery trial does not give its allowance back. The usage that
  limits the trials of a recovery cycle is the same after the cancellation as before it, while
  the usage of every other cancelled action drops.
\<close>

theorem cancelled_trial_not_released:
  assumes "cancel_unlaunched_policy_review w tk i d = (Inr (), d')"
  shows "trial_usage tk c (db_actions d') = trial_usage tk c (db_actions d)"
proof -
  have "cancel_tx w tk [''spec_review'', ''final_review'', ''diagnosis'', ''recovery_trial''] i d = Inr ((), d')"
    using assms by (simp add: cancel_unlaunched_policy_review_def transaction_commit)
  moreover have "trial_usage tk c (update_where (\<lambda>x. pa_id x = i) (\<lambda>x. x\<lparr>pa_state := ''cancelled''\<rparr>) rs) =
      trial_usage tk c rs" for rs
    by (induction rs) (auto simp: trial_usage_def attempts_charge_def action_match_def)
  ultimately show ?thesis
    by (auto dest!: cancel_tx_Inr)
qed

section \<open>Witnesses\<close>

definition sample_budget :: policy_budget where
  "sample_budget = \<lparr>pb_repo = ''repo'', pb_run = ''run'', pb_tier = ''small'', pb_mode = ''normal'',
     pb_launch_limit = 12, pb_active_limit = hour_ns, pb_charged = 0, pb_active_ns = 0, pb_boot = ''b'',
     pb_last_ns = 1, pb_last_wall = 0, pb_clock_active = False, pb_uncertain = False,
     pb_capacity_wait = 0, pb_operator_wait = 0\<rparr>"

definition sample_action :: "string \<Rightarrow> string \<Rightarrow> policy_action" where
  "sample_action i kind = \<lparr>pa_id = i, pa_repo = ''repo'', pa_run = ''run'', pa_action = kind, pa_logical = i,
     pa_input = ''in'', pa_cycle = Some 1, pa_mutation = True, pa_state = ''reserved'', pa_attempts = 0,
     pa_receipt = None, pa_intent = None\<rparr>"

definition sample_policy_db :: "policy_action list \<Rightarrow> db" where
  "sample_policy_db acts = sample_db\<lparr>db_policy_installed := True, db_budgets := [sample_budget], db_actions := acts\<rparr>"

lemma sample_policy_sel [simp]:
  "db_actions (sample_policy_db acts) = acts" "db_policy_installed (sample_policy_db acts)"
  "budget_of sample_token (sample_policy_db acts) = Some sample_budget"
  "assert_owner sample_world sample_token (sample_policy_db acts) = Inr ()"
proof -
  show "db_actions (sample_policy_db acts) = acts" "db_policy_installed (sample_policy_db acts)"
    by (simp_all add: sample_policy_db_def)
  show "budget_of sample_token (sample_policy_db acts) = Some sample_budget"
    by (simp add: sample_policy_db_def budget_of_def budget_match_def sample_budget_def sample_token_def
        request_token_def sample_request_def request_repo_def)
  show "assert_owner sample_world sample_token (sample_policy_db acts) = Inr ()"
    using sample_owner assert_owner_cong [of "sample_policy_db acts" sample_db]
    by (simp add: sample_policy_db_def)
qed

lemma sample_match [simp]: "action_match sample_token (sample_action i k)"
  by (simp add: action_match_def sample_action_def sample_token_def request_token_def sample_request_def request_repo_def)

lemma sample_action_sel [simp]:
  "pa_id (sample_action i k) = i" "pa_action (sample_action i k) = k" "pa_state (sample_action i k) = ''reserved''"
  "pa_attempts (sample_action i k) = 0" "pa_intent (sample_action i k) = None" "pa_logical (sample_action i k) = i"
  "pa_input (sample_action i k) = ''in''" "pa_cycle (sample_action i k) = Some 1"
  by (simp_all add: sample_action_def)

lemma sample_sample: "policy_sample sample_world n PNone PNone = Inr (''b'', 5)"
  by (simp add: policy_sample_def policy_identifier_def policy_monotonic_def py_strip_def py_space_def)

definition sample_binding :: launch_binding where
  "sample_binding = \<lparr>lb_action = Some ''a1'', lb_intent = ''i1'', lb_request = Some ''a1'',
     lb_input = Some ''in'', lb_expected = None\<rparr>"

lemma sample_bind:
  "\<exists>d'. policy_bind_launch_tx sample_world sample_token sample_binding (sample_policy_db [sample_action ''a1'' ''execute'']) = Inr d'"
proof -
  have role: "intent_role ''i1'' (sample_policy_db acts) = None" for acts
    by (simp add: intent_role_def intent_of_def sample_policy_db_def sample_db_def reserve_free empty_db_def
        resource_keys_def held_keys_def sample_request_def MAX_GENERATION_def)
  have none: "db_attempts (sample_policy_db acts) = []" for acts
    by (simp add: sample_policy_db_def sample_db_def reserve_free empty_db_def
        resource_keys_def held_keys_def sample_request_def MAX_GENERATION_def)
  show ?thesis
    by (simp add: policy_bind_launch_tx_def bind_clock_check_def sample_sample sample_binding_def action_of_def
        binding_check_def role none retry_allowed_def charge_action_def Let_def)
      (simp add: sample_budget_def hour_ns_def)
qed

theorem bind_launch_charges_witness:
  "\<exists>d' b'. policy_bind_launch_tx sample_world sample_token sample_binding (sample_policy_db [sample_action ''a1'' ''execute'']) = Inr d'
     \<and> budget_of sample_token d' = Some b' \<and> pb_charged b' = 1"
proof -
  obtain d' where d': "policy_bind_launch_tx sample_world sample_token sample_binding
      (sample_policy_db [sample_action ''a1'' ''execute'']) = Inr d'" using sample_bind by blast
  from bind_launch_charges [OF d' sample_policy_sel(3)] d' show ?thesis
    by (auto simp: sample_budget_def)
qed

lemma sample_reserve:
  "\<exists>row d'. reserve_action_tx sample_world sample_token ''repair'' ''k'' ''in'' None 1 (sample_policy_db []) = Inr ((row, False), d')
     \<and> db_actions d' = [row] \<and> pa_action row = ''repair''"
  by (simp add: reserve_action_tx_def action_allowed_def action_limit_def policy_tier_def recovery_cycles_def
      action_usage_def action_can_mutate_def NON_MUTATING_ACTIONS_def MUTATING_ACTIONS_def Let_def insert_row_def)
    (simp add: sample_budget_def TIER_LIMITS_def ACTION_LIMITS_def tier_column_def hour_ns_def action_usage_def)

lemma sample_allowances: "allowances_ok sample_token (sample_policy_db [])"
  by (simp add: allowances_ok_def ACTION_LIMITS_def action_usage_def sample_budget_def tier_column_def)

theorem action_allowances_respected_witness:
  "\<exists>d'. (action_step sample_token)\<^sup>*\<^sup>* (sample_policy_db []) d' \<and> length (db_actions d') = 1 \<and>
     allowances_ok sample_token d'"
proof -
  obtain row d' where r: "reserve_action_tx sample_world sample_token ''repair'' ''k'' ''in'' None 1 (sample_policy_db []) = Inr ((row, False), d')"
      "db_actions d' = [row]" using sample_reserve by blast
  have step: "(action_step sample_token)\<^sup>*\<^sup>* (sample_policy_db []) d'"
    by (rule r_into_rtranclp) (rule action_step.reserve [OF r(1)])
  have "action_ids_distinct (sample_policy_db [])" by (simp add: action_ids_distinct_def)
  from action_allowances_respected [OF sample_allowances this step] step r(2) show ?thesis by auto
qed

theorem reserve_action_idempotent_witness:
  "\<exists>row d'. reserve_action_tx sample_world sample_token ''repair'' ''k'' ''in'' None 1 (sample_policy_db []) = Inr ((row, False), d') \<and>
     reserve_action_tx sample_world sample_token ''repair'' ''k'' ''in'' None 1 d' = Inr ((row, True), d')"
proof -
  obtain row d' where r: "reserve_action_tx sample_world sample_token ''repair'' ''k'' ''in'' None 1 (sample_policy_db []) = Inr ((row, False), d')"
    using sample_reserve by blast
  have "assert_owner sample_world sample_token d' = Inr ()"
    using reserve_action_tx_frame [OF r] assert_owner_cong [of d' "sample_policy_db []" sample_world sample_token]
    by (simp add: clock_frame_def)
  with reserve_action_idempotent [OF r, of sample_world None 1] r show ?thesis by auto
qed

definition uncertain_db :: db where
  "uncertain_db = update_budget sample_token mark_uncertain (sample_policy_db [])"

theorem uncertain_clock_blocks_witness:
  "isl (fst (begin_policy_work sample_world sample_token (''check'', PNone, PNone) uncertain_db))"
proof -
  have "budget_of sample_token uncertain_db = Some (mark_uncertain sample_budget)"
    by (simp add: uncertain_db_def budget_of_update_same)
  moreover have "pb_uncertain (mark_uncertain sample_budget)" by (simp add: mark_uncertain_def)
  moreover have "db_policy_installed uncertain_db" by (simp add: uncertain_db_def)
  ultimately show ?thesis
    using uncertain_clock_blocks [of sample_token uncertain_db "mark_uncertain sample_budget" sample_world] by blast
qed

definition trial_db :: db where
  "trial_db = sample_policy_db [sample_action ''t1'' ''recovery_trial'', sample_action ''t2'' ''recovery_trial'',
     sample_action ''t3'' ''recovery_trial'', sample_action ''c'' ''recovery_cycle_normal'']"

text \<open>
  Three trials of the first cycle are reserved; one is released unspent, and still no other
  trial can be reserved.
\<close>

theorem cancelled_trial_not_released_witness:
  "\<exists>d'. cancel_unlaunched_policy_review sample_world sample_token ''t1'' trial_db = (Inr (), d') \<and>
     trial_usage sample_token (Some 1) (db_actions d') = 3 \<and>
     action_allowed sample_token sample_budget ''recovery_trial'' (Some 1) d' =
       own_refuse ''RECOVERY_TRIAL_LIMIT_EXHAUSTED''"
proof -
  have usage: "trial_usage sample_token (Some 1) (db_actions trial_db) = 3"
    by (simp add: trial_db_def trial_usage_def attempts_charge_def)
  have none: "db_attempts trial_db = []"
    by (simp add: trial_db_def sample_policy_db_def sample_db_def reserve_free empty_db_def
        resource_keys_def held_keys_def sample_request_def MAX_GENERATION_def)
  obtain d' where d': "cancel_unlaunched_policy_review sample_world sample_token ''t1'' trial_db = (Inr (), d')"
  proof -
    have "action_of sample_token ''t1'' trial_db = Some (sample_action ''t1'' ''recovery_trial'')"
      by (simp add: trial_db_def action_of_def)
    moreover have "assert_owner sample_world sample_token trial_db = Inr ()" "db_policy_installed trial_db"
      by (simp_all add: trial_db_def)
    ultimately show thesis
      using that by (simp add: cancel_unlaunched_policy_review_def transaction_def cancel_tx_def issued_def none)
  qed
  have trial: "trial_usage sample_token (Some 1) (db_actions d') = 3"
    using cancelled_trial_not_released [OF d', of "Some 1"] usage by simp
  then have "action_allowed sample_token sample_budget ''recovery_trial'' (Some 1) d' =
      own_refuse ''RECOVERY_TRIAL_LIMIT_EXHAUSTED''"
    by (simp add: action_allowed_def action_limit_def policy_tier_def sample_budget_def TIER_LIMITS_def
        as_ownership_def recovery_cycles_def RECOVERY_TRIALS_PER_CYCLE_def)
  with d' trial show ?thesis by blast
qed

end
