(* ===== verification/Activities.thy ===== *)
theory Activities
  imports Policy_Budget
begin

text \<open>
  Activities of a run and the aggregate allowances around them (\<open>ControlStore\<close>,
  \<open>lib/run_state/state.py\<close>): binding and ancestry checks, run limits and capacity revisions,
  creation, transition and selection of activities, idempotent events and retry-budget debits.
\<close>

section \<open>Binding and ancestry\<close>

definition assert_activity_binding :: "world \<Rightarrow> owner_token \<Rightarrow> string \<Rightarrow> db \<Rightarrow> activity res" where
  "assert_activity_binding w tk a d =
     bindR (fence w tk d) (\<lambda>_.
     case activity_of a d of
       None \<Rightarrow> own_refuse ''FENCE_REVOKED''
     | Some row \<Rightarrow> if ac_repo row \<noteq> tk_repo tk \<or> ac_run row \<noteq> tk_run tk then own_refuse ''FENCE_REVOKED''
         else Inr row)"

definition parent_of :: "db \<Rightarrow> string \<Rightarrow> string option" where
  "parent_of d a = map_option cb_parent (List.find (\<lambda>b. cb_activity b = a) (db_bindings d))"

text \<open>The walk to the root; a cycle is met when an activity is visited twice.\<close>

function activity_ancestry :: "owner_token \<Rightarrow> db \<Rightarrow> string list \<Rightarrow> string \<Rightarrow> unit res" where
  "activity_ancestry tk d visited current =
     (if current \<in> set visited then own_refuse ''PARENT_ACTIVITY_INVALID''
      else case parent_of d current of
        None \<Rightarrow> Inr ()
      | Some p \<Rightarrow>
          (case activity_of p d of
             None \<Rightarrow> own_refuse ''PARENT_ACTIVITY_INVALID''
           | Some row \<Rightarrow>
               if ac_repo row \<noteq> tk_repo tk \<or> ac_run row \<noteq> tk_run tk \<or> ac_state row \<noteq> ''active''
               then own_refuse ''PARENT_ACTIVITY_INVALID''
               else activity_ancestry tk d (current # visited) p))"
  by pat_completeness auto

lemma parent_of_bound: "parent_of d a = Some p \<Longrightarrow> a \<in> set (map cb_activity (db_bindings d))"
  by (auto simp: parent_of_def dest!: find_Some_in)

termination activity_ancestry
proof (relation "measure (\<lambda>(tk, d, visited, current). card (set (map cb_activity (db_bindings d)) - set visited))")
  fix tk :: owner_token and d :: db and visited current p and row :: activity
  assume "current \<notin> set visited" "parent_of d current = Some p"
  then have "set (map cb_activity (db_bindings d)) - set (current # visited)
      \<subset> set (map cb_activity (db_bindings d)) - set visited"
    using parent_of_bound [of d current p] by auto
  then show "((tk, d, current # visited, p), tk, d, visited, current)
      \<in> measure (\<lambda>(tk, d, visited, current). card (set (map cb_activity (db_bindings d)) - set visited))"
    by (simp add: psubset_card_mono)
qed simp

declare activity_ancestry.simps [simp del]

definition assert_activity_ancestry :: "owner_token \<Rightarrow> db \<Rightarrow> string \<Rightarrow> unit res" where
  "assert_activity_ancestry tk d a = activity_ancestry tk d [] a"

text \<open>The activities reached from a child by following its parents.\<close>

inductive ancestor :: "db \<Rightarrow> string \<Rightarrow> string \<Rightarrow> bool" where
  parent: "parent_of d a = Some p \<Longrightarrow> ancestor d a p"
| further: "parent_of d a = Some p \<Longrightarrow> ancestor d p q \<Longrightarrow> ancestor d a q"

inductive_cases ancestor_elim: "ancestor d a q"

lemma ancestry_active:
  "activity_ancestry tk d visited a = Inr () \<Longrightarrow> ancestor d a q \<Longrightarrow>
     (\<exists>row. activity_of q d = Some row \<and> ac_repo row = tk_repo tk \<and> ac_run row = tk_run tk \<and> ac_state row = ''active'')
     \<and> q \<notin> set visited \<and> q \<noteq> a"
proof (induction tk d visited a rule: activity_ancestry.induct)
  case (1 tk d visited a)
  from "1.prems"(1) have fresh: "a \<notin> set visited"
    by (subst (asm) activity_ancestry.simps) (simp split: if_splits)
  from "1.prems"(2) obtain p where p: "parent_of d a = Some p" "q = p \<or> ancestor d p q"
    by (cases rule: ancestor.cases) auto
  from "1.prems"(1) fresh p(1) obtain row where row: "activity_of p d = Some row"
      "ac_repo row = tk_repo tk" "ac_run row = tk_run tk" "ac_state row = ''active''"
    and rest: "activity_ancestry tk d (a # visited) p = Inr ()"
    by (subst (asm) activity_ancestry.simps) (auto split: if_splits)
  from rest have pf: "p \<notin> set (a # visited)"
    by (subst (asm) activity_ancestry.simps) (simp split: if_splits)
  show ?case
    using p(2)
  proof
    assume "q = p"
    then show ?thesis using row pf by auto
  next
    assume "ancestor d p q"
    then have "(\<exists>row. activity_of q d = Some row \<and> ac_repo row = tk_repo tk \<and> ac_run row = tk_run tk \<and> ac_state row = ''active'')
     \<and> q \<notin> set (a # visited) \<and> q \<noteq> p"
      using "1.IH" [OF fresh p(1) row(1)] row rest by auto
    then show ?thesis by auto
  qed
qed

section \<open>Run limits and capacity\<close>

definition MAX_INT :: int where
  "MAX_INT = 9223372036854775807"

definition limits_match :: "owner_token \<Rightarrow> run_limits \<Rightarrow> bool" where
  "limits_match tk l = (rl_repo l = tk_repo tk \<and> rl_run l = tk_run tk)"

definition limits_of :: "owner_token \<Rightarrow> db \<Rightarrow> run_limits option" where
  "limits_of tk d = List.find (limits_match tk) (db_limits d)"

definition run_payload :: "owner_token \<Rightarrow> pyval \<Rightarrow> pyval" where
  "run_payload tk data = PDict [(''repository_id'', PStr (tk_repo tk)), (''run_id'', PStr (tk_run tk)), (''data'', data)]"

definition configure_limits_tx :: "world \<Rightarrow> owner_token \<Rightarrow> int \<Rightarrow> int \<Rightarrow> int \<Rightarrow> run_limits tx" where
  "configure_limits_tx w tk dl tlim cap d =
     bindR (fence w tk d) (\<lambda>_.
     case limits_of tk d of
       Some l \<Rightarrow>
         if (rl_dispatch_limit l, rl_token_limit l, rl_capacity l) \<noteq> (dl, tlim, cap)
         then own_refuse ''RUN_LIMITS_IMMUTABLE'' else Inr (l, d)
     | None \<Rightarrow>
         if list_ex (run_intent tk d) (db_intents d) then own_refuse ''LEGACY_ACCOUNTING_PRESENT''
         else let row = \<lparr>rl_repo = tk_repo tk, rl_run = tk_run tk, rl_dispatch_limit = dl, rl_token_limit = tlim,
                rl_capacity = cap, rl_dispatch_used = 0, rl_committed = 0, rl_used = 0,
                rl_generation = tk_generation tk\<rparr> in
           bindR (insert_row (\<lambda>r x. rl_repo x = rl_repo r \<and> rl_run x = rl_run r) row (db_limits d)) (\<lambda>rows.
           Inr (row, add_event ''run_limits_configured'' (run_payload tk
             (PDict [(''dispatch_limit'', PInt dl), (''token_limit'', PInt tlim), (''worker_capacity'', PInt cap)]))
             (d\<lparr>db_limits := rows\<rparr>))))"

definition positive_capacity :: "pyval \<Rightarrow> bool" where
  "positive_capacity v = (case v of PInt c \<Rightarrow> 1 \<le> c \<and> c \<le> MAX_INT | _ \<Rightarrow> False)"

definition configure_run_limits ::
  "world \<Rightarrow> owner_token \<Rightarrow> pyval \<times> pyval \<times> pyval \<Rightarrow> db \<Rightarrow> run_limits res \<times> db"
where
  "configure_run_limits w tk args d =
     (case args of (dl, tlim, cap) \<Rightarrow>
      if \<not> valid_nonnegative_integer dl \<or> \<not> valid_nonnegative_integer tlim \<or> \<not> positive_capacity cap
      then (own_refuse ''INVALID_RUN_LIMITS'', d)
      else transaction (configure_limits_tx w tk (int_of dl) (int_of tlim) (int_of cap)) (install_context d))"

definition active_states :: "string list" where
  "active_states = [''reserved'', ''acknowledged'', ''released_to_execute'', ''reconcile_required'', ''uncertain'']"

definition capacity_intent :: "owner_token \<Rightarrow> db \<Rightarrow> intent \<Rightarrow> bool" where
  "capacity_intent tk d i = (run_intent tk d i \<and> \<not> in_exempt i \<and> in_state i \<in> set active_states)"

definition active_capacity_launch_count :: "owner_token \<Rightarrow> db \<Rightarrow> nat" where
  "active_capacity_launch_count tk d = count_where (capacity_intent tk d) (db_intents d)"

definition capacity_of :: "string \<Rightarrow> string \<Rightarrow> db \<Rightarrow> current_capacity option" where
  "capacity_of repo run d = List.find (\<lambda>c. cc_repo c = repo \<and> cc_run c = run) (db_capacity d)"

definition revision_of :: "string \<Rightarrow> string \<Rightarrow> int \<Rightarrow> db \<Rightarrow> capacity_revision option" where
  "revision_of repo run n d =
     List.find (\<lambda>r. cv_repo r = repo \<and> cv_run r = run \<and> cv_revision r = n) (db_revisions d)"

definition effective_worker_capacity :: "owner_token \<Rightarrow> db \<Rightarrow> run_limits \<Rightarrow> int res" where
  "effective_worker_capacity tk d l =
     (case capacity_of (tk_repo tk) (tk_run tk) d of
        None \<Rightarrow> Inr (rl_capacity l)
      | Some c \<Rightarrow>
          if cc_revision c < 1 \<or> cc_capacity c < 1 then own_refuse ''WORKER_CAPACITY_REVISION_UNKNOWN''
          else (case revision_of (tk_repo tk) (tk_run tk) (cc_revision c) d of
              None \<Rightarrow> own_refuse ''WORKER_CAPACITY_REVISION_UNKNOWN''
            | Some r \<Rightarrow> if cv_capacity r \<noteq> cc_capacity c then own_refuse ''WORKER_CAPACITY_REVISION_UNKNOWN''
                else Inr (cc_capacity c)))"

text \<open>\<open>INSERT ... ON CONFLICT(repository_id, run_id) DO UPDATE\<close>.\<close>

definition upsert_capacity :: "owner_token \<Rightarrow> int \<Rightarrow> int \<Rightarrow> current_capacity list \<Rightarrow> current_capacity list" where
  "upsert_capacity tk n cap rows =
     (if list_ex (\<lambda>c. cc_repo c = tk_repo tk \<and> cc_run c = tk_run tk) rows
      then update_where (\<lambda>c. cc_repo c = tk_repo tk \<and> cc_run c = tk_run tk)
             (\<lambda>c. c\<lparr>cc_revision := n, cc_capacity := cap\<rparr>) rows
      else rows @ [\<lparr>cc_repo = tk_repo tk, cc_run = tk_run tk, cc_revision = n, cc_capacity = cap\<rparr>])"

definition revision_clash :: "capacity_revision \<Rightarrow> capacity_revision \<Rightarrow> bool" where
  "revision_clash r x = (cv_repo x = cv_repo r \<and> cv_run x = cv_run r
     \<and> (cv_revision x = cv_revision r \<or> cv_key x = cv_key r))"

definition revise_capacity_tx :: "world \<Rightarrow> owner_token \<Rightarrow> int \<Rightarrow> int \<Rightarrow> string \<Rightarrow> capacity_revision tx" where
  "revise_capacity_tx w tk cap expected key d =
     bindR (fence w tk d) (\<lambda>_.
     if limits_of tk d = None then own_refuse ''RUN_LIMITS_REQUIRED''
     else (case List.find (\<lambda>r. cv_repo r = tk_repo tk \<and> cv_run r = tk_run tk \<and> cv_key r = key) (db_revisions d) of
         Some r \<Rightarrow>
           if cv_capacity r \<noteq> cap \<or> cv_expected r \<noteq> expected then own_refuse ''IDEMPOTENCY_CONFLICT'' else Inr (r, d)
       | None \<Rightarrow>
           let actual = (case capacity_of (tk_repo tk) (tk_run tk) d of None \<Rightarrow> 0 | Some c \<Rightarrow> cc_revision c) in
           if actual \<noteq> expected then own_refuse ''WORKER_CAPACITY_REVISION_CONFLICT''
           else if actual \<ge> MAX_INT then own_refuse ''WORKER_CAPACITY_REVISION_EXHAUSTED''
           else let row = \<lparr>cv_repo = tk_repo tk, cv_run = tk_run tk, cv_revision = actual + 1, cv_capacity = cap,
                   cv_expected = expected, cv_key = key, cv_generation = tk_generation tk\<rparr> in
             bindR (insert_row revision_clash row (db_revisions d)) (\<lambda>rows.
             Inr (row, add_event ''worker_capacity_revised'' (run_payload tk
               (PDict [(''revision'', PInt (actual + 1)), (''expected_revision'', PInt expected),
                  (''worker_capacity'', PInt cap), (''owner_generation'', PInt (tk_generation tk))]))
               (d\<lparr>db_revisions := rows, db_capacity := upsert_capacity tk (actual + 1) cap (db_capacity d)\<rparr>)))))"

definition revise_capacity_policy ::
  "world \<Rightarrow> owner_token \<Rightarrow> pyval \<times> pyval \<times> pyval \<Rightarrow> db \<Rightarrow> capacity_revision res \<times> db"
where
  "revise_capacity_policy w tk args d =
     (case args of (cap, expected, key) \<Rightarrow>
      if \<not> positive_capacity cap \<or> \<not> valid_nonnegative_integer expected
         \<or> (case key of PStr k \<Rightarrow> k = [] \<or> utf8_length k > 256 | _ \<Rightarrow> True)
      then (own_refuse ''INVALID_WORKER_CAPACITY_REVISION'', d)
      else transaction (revise_capacity_tx w tk (int_of cap) (int_of expected) (str_of key)) (install_context d))"

definition get_worker_capacity_revision :: "string \<Rightarrow> string \<Rightarrow> db \<Rightarrow> capacity_revision option" where
  "get_worker_capacity_revision repo run d =
     (case capacity_of repo run d of None \<Rightarrow> None | Some c \<Rightarrow> revision_of repo run (cc_revision c) d)"

text \<open>The revision and the effective ceiling.\<close>

definition get_capacity_policy :: "string \<Rightarrow> string \<Rightarrow> db \<Rightarrow> (int \<times> int) res" where
  "get_capacity_policy repo run d =
     (if repo = [] \<or> run = [] then own_refuse ''INVALID_CAPACITY_POLICY''
      else case List.find (\<lambda>l. rl_repo l = repo \<and> rl_run l = run) (db_limits d) of
        None \<Rightarrow> own_refuse ''RUN_LIMITS_REQUIRED''
      | Some l \<Rightarrow>
          (case capacity_of repo run d of
             None \<Rightarrow> Inr (0, rl_capacity l)
           | Some c \<Rightarrow>
               if list_ex (\<lambda>r. cv_repo r = repo \<and> cv_run r = run \<and> cv_revision r = cc_revision c
                    \<and> cv_capacity r = cc_capacity c) (db_revisions d)
               then Inr (cc_revision c, cc_capacity c)
               else own_refuse ''WORKER_CAPACITY_REVISION_UNKNOWN''))"

definition list_worker_capacity_revisions :: "string \<Rightarrow> string \<Rightarrow> db \<Rightarrow> capacity_revision list" where
  "list_worker_capacity_revisions repo run d =
     sort_key cv_revision (filter (\<lambda>r. cv_repo r = repo \<and> cv_run r = run) (db_revisions d))"

end
