(* ===== verification/Activity_Life.thy ===== *)
theory Activity_Life
  imports Activities
begin

text \<open>
  The life of an activity (\<open>ControlStore\<close>, \<open>lib/run_state/state.py\<close>): creation, selection,
  runtime binding, transitions with the revocation of the launches below a finished activity,
  idempotent events and debits of the retry budget.
\<close>

section \<open>Creation\<close>

definition terminal_states :: "string list" where
  "terminal_states = [''succeeded'', ''failed'', ''aborted'']"

definition run_activity :: "owner_token \<Rightarrow> activity \<Rightarrow> bool" where
  "run_activity tk a = (ac_repo a = tk_repo tk \<and> ac_run a = tk_run tk)"

text \<open>\<open>COALESCE(MAX(revision), 0) + 1\<close>.\<close>

definition next_revision :: "owner_token \<Rightarrow> db \<Rightarrow> int" where
  "next_revision tk d =
     (let rs = map ac_revision (filter (run_activity tk) (db_activities d))
      in (if rs = [] then 0 else Max (set rs)) + 1)"

text \<open>The primary key and the two uniqueness constraints of \<open>authority_activities\<close>.\<close>

definition activity_clash :: "activity \<Rightarrow> activity \<Rightarrow> bool" where
  "activity_clash r x = (ac_id x = ac_id r \<or> (ac_repo x = ac_repo r \<and> ac_run x = ac_run r
     \<and> (ac_revision x = ac_revision r \<or> ac_request_key x = ac_request_key r)))"

definition new_activity :: "owner_token \<Rightarrow> string \<Rightarrow> string \<Rightarrow> string \<Rightarrow> int \<Rightarrow> string \<Rightarrow> db \<Rightarrow> activity" where
  "new_activity tk i kind dig budget key d =
     \<lparr>ac_id = i, ac_repo = tk_repo tk, ac_run = tk_run tk, ac_kind = kind, ac_input = dig,
      ac_revision = next_revision tk d, ac_state = ''pending'', ac_retry_budget = budget,
      ac_remaining = budget, ac_runtime = None, ac_result = None, ac_request_key = key,
      ac_generation = tk_generation tk\<rparr>"

definition insert_activity :: "activity \<Rightarrow> db \<Rightarrow> db res" where
  "insert_activity row d =
     bindR (insert_row activity_clash row (db_activities d)) (\<lambda>rows. Inr (d\<lparr>db_activities := rows\<rparr>))"

definition create_activity_tx ::
  "world \<Rightarrow> owner_token \<Rightarrow> string \<Rightarrow> string \<Rightarrow> int \<Rightarrow> string \<Rightarrow> activity tx"
where
  "create_activity_tx w tk kind dig budget key d =
     bindR (assert_owner w tk d) (\<lambda>_.
     case List.find (\<lambda>a. run_activity tk a \<and> ac_request_key a = key) (db_activities d) of
       Some e \<Rightarrow>
         if ac_kind e \<noteq> kind \<or> ac_input e \<noteq> dig \<or> ac_retry_budget e \<noteq> budget
         then own_refuse ''IDEMPOTENCY_CONFLICT'' else Inr (e, d)
     | None \<Rightarrow>
         if list_ex (\<lambda>a. run_activity tk a \<and> ac_state a \<notin> set terminal_states) (db_activities d)
         then own_refuse ''RESUME_REQUIRED''
         else let row = new_activity tk (w_uuid w 0) kind dig budget key d in
           bindR (insert_activity row d) (\<lambda>d'. Inr (row, d')))"

definition nonempty_str :: "pyval \<Rightarrow> bool" where
  "nonempty_str v = (case v of PStr s \<Rightarrow> s \<noteq> [] | _ \<Rightarrow> False)"

definition create_activity ::
  "world \<Rightarrow> owner_token \<Rightarrow> pyval \<times> pyval \<times> pyval \<times> pyval \<Rightarrow> db \<Rightarrow> activity res \<times> db"
where
  "create_activity w tk args d =
     (case args of (kind, dig, budget, key) \<Rightarrow>
      if \<not> hashable kind then (Inl (TypeError ''unhashable''), d)
      else if kind \<notin> set [PStr ''plan'', PStr ''execute'', PStr ''review''] \<or> \<not> nonempty_str dig
        \<or> \<not> valid_nonnegative_integer budget \<or> \<not> nonempty_str key
      then (own_refuse ''INVALID_ACTIVITY'', d)
      else transaction (create_activity_tx w tk (str_of kind) (str_of dig) (int_of budget) (str_of key)) d)"

definition get_activity :: "string \<Rightarrow> db \<Rightarrow> activity res" where
  "get_activity a d =
     (case activity_of a d of None \<Rightarrow> store_refuse ''ACTIVITY_NOT_FOUND'' | Some row \<Rightarrow> Inr row)"

text \<open>The state shown for a run; the repository may be left out when it is unambiguous.\<close>

definition get_run_control :: "string \<Rightarrow> string option \<Rightarrow> db \<Rightarrow> string res" where
  "get_run_control run repo d =
     (let control = (\<lambda>r. let rows = filter (\<lambda>a. ac_repo a = r \<and> ac_run a = run) (db_activities d) in
            if rows = [] then ''idle''
            else if list_all (\<lambda>a. ac_state a = ''succeeded'') rows then ''complete'' else ''active'')
      in case repo of
           Some r \<Rightarrow> Inr (control r)
         | None \<Rightarrow>
             (case remdups (map ac_repo (filter (\<lambda>a. ac_run a = run) (db_activities d))) of
                [] \<Rightarrow> Inr ''idle''
              | [r] \<Rightarrow> Inr (control r)
              | _ \<Rightarrow> store_refuse ''AMBIGUOUS_RUN''))"

section \<open>Binding a runtime\<close>

definition update_activity :: "string \<Rightarrow> (activity \<Rightarrow> activity) \<Rightarrow> db \<Rightarrow> db" where
  "update_activity a f d = d\<lparr>db_activities := update_where (\<lambda>x. ac_id x = a) f (db_activities d)\<rparr>"

text \<open>The row read back after an update.\<close>

definition reread :: "string \<Rightarrow> db \<Rightarrow> (activity \<times> db) res" where
  "reread a d = (case activity_of a d of None \<Rightarrow> Inl (TypeError ''NoneType'') | Some r \<Rightarrow> Inr (r, d))"

definition bind_runtime_tx :: "world \<Rightarrow> owner_token \<Rightarrow> string \<Rightarrow> string \<Rightarrow> activity tx" where
  "bind_runtime_tx w tk a h d =
     bindR (assert_activity_binding w tk a d) (\<lambda>row.
     if ac_runtime row \<notin> {None, Some h} then own_refuse ''RUNTIME_DRIFT''
     else reread a (update_activity a (\<lambda>x. x\<lparr>ac_runtime := Some h\<rparr>) d))"

definition bind_runtime :: "world \<Rightarrow> owner_token \<Rightarrow> string \<times> pyval \<Rightarrow> db \<Rightarrow> activity res \<times> db" where
  "bind_runtime w tk args d =
     (case args of (a, h) \<Rightarrow>
      if \<not> nonempty_str h then (own_refuse ''RUNTIME_DRIFT'', d)
      else transaction (bind_runtime_tx w tk a (str_of h)) d)"

section \<open>Transitions\<close>

text \<open>
  The recursive query \<open>descendants\<close>: the activity and everything bound below it. A round adds the
  children not seen yet; \<open>UNION\<close> drops the others.
\<close>

definition new_children :: "db \<Rightarrow> string list \<Rightarrow> string list" where
  "new_children d seen =
     map cb_activity (filter (\<lambda>b. cb_parent b \<in> set seen \<and> cb_activity b \<notin> set seen) (db_bindings d))"

function descend :: "db \<Rightarrow> string list \<Rightarrow> string list" where
  "descend d seen = (if new_children d seen = [] then seen else descend d (seen @ new_children d seen))"
  by pat_completeness auto

lemma new_children_bound:
  "set (new_children d seen) \<subseteq> set (map cb_activity (db_bindings d)) - set seen"
  by (auto simp: new_children_def)

termination descend
proof (relation "measure (\<lambda>(d, seen). card (set (map cb_activity (db_bindings d)) - set seen))")
  fix d and seen :: "string list"
  assume "new_children d seen \<noteq> []"
  then have "set (map cb_activity (db_bindings d)) - set (seen @ new_children d seen)
      \<subset> set (map cb_activity (db_bindings d)) - set seen"
    using new_children_bound [of d seen] by (cases "new_children d seen") auto
  then show "((d, seen @ new_children d seen), d, seen)
      \<in> measure (\<lambda>(d, seen). card (set (map cb_activity (db_bindings d)) - set seen))"
    by (simp add: psubset_card_mono)
qed simp

declare descend.simps [simp del]

definition descendants :: "db \<Rightarrow> string \<Rightarrow> string list" where
  "descendants d a = descend d [a]"

definition activity_states :: "string list" where
  "activity_states = [''pending'', ''active'', ''paused'', ''succeeded'', ''failed'', ''aborted'']"

text \<open>The launches below the activity that still hold capacity, in row order.\<close>

definition revoked_below :: "db \<Rightarrow> string \<Rightarrow> string list" where
  "revoked_below d a =
     map in_id (filter (\<lambda>i. in_activity i \<in> set (descendants d a) \<and> in_state i \<in> set active_states) (db_intents d))"

definition revoke_intents :: "string list \<Rightarrow> db \<Rightarrow> db" where
  "revoke_intents ids d = d\<lparr>db_intents := update_where (\<lambda>i. in_id i \<in> set ids)
     (\<lambda>i. i\<lparr>in_state := ''reconcile_required'', in_permit := None\<rparr>) (db_intents d)\<rparr>"

record transition =
  tr_activity :: string
  tr_expected :: string
  tr_new :: string
  tr_result :: pyval
  tr_reason :: pyval

definition transition_activity_tx :: "world \<Rightarrow> owner_token \<Rightarrow> transition \<Rightarrow> activity tx" where
  "transition_activity_tx w tk t d =
     bindR (assert_activity_binding w tk (tr_activity t) d) (\<lambda>row.
     if ac_state row \<in> set terminal_states then own_refuse ''ACTIVITY_TERMINAL''
     else if ac_state row \<noteq> tr_expected t then own_refuse ''ACTIVITY_STATE_CHANGED''
     else let revoked = (if tr_new t \<in> set terminal_states then revoked_below d (tr_activity t) else []);
              result = (if tr_result t \<noteq> PNone then Some (tr_result t) else ac_result row);
              d1 = update_activity (tr_activity t) (\<lambda>x. x\<lparr>ac_state := tr_new t, ac_result := result\<rparr>)
                     (revoke_intents revoked d)
          in reread (tr_activity t) (add_event ''activity_transition''
            (PDict [(''run_id'', PStr (tk_run tk)), (''activity_id'', PStr (tr_activity t)),
               (''data'', PDict [(''from'', PStr (tr_expected t)), (''to'', PStr (tr_new t)),
                  (''reason'', tr_reason t), (''revoked_intents'', PList (map PStr revoked))])]) d1))"

definition has_evidence :: "pyval \<Rightarrow> bool" where
  "has_evidence v = (case v of PDict e \<Rightarrow> truthy (dict_get e ''locator'') \<and> truthy (dict_get e ''sha256'') | _ \<Rightarrow> False)"

definition transition_activity :: "world \<Rightarrow> owner_token \<Rightarrow> transition \<Rightarrow> db \<Rightarrow> activity res \<times> db" where
  "transition_activity w tk t d =
     (if tr_expected t \<notin> set activity_states \<or> tr_new t \<notin> set activity_states
      then (own_refuse ''INVALID_ACTIVITY_TRANSITION'', d)
      else if tr_new t = ''succeeded'' \<and> \<not> has_evidence (tr_result t) then (own_refuse ''EVIDENCE_REQUIRED'', d)
      else transaction (transition_activity_tx w tk t) d)"

section \<open>Selection\<close>

definition bound_child :: "db \<Rightarrow> string \<Rightarrow> bool" where
  "bound_child d a = list_ex (\<lambda>b. cb_activity b = a) (db_bindings d)"

definition top_activities :: "owner_token \<Rightarrow> db \<Rightarrow> activity list" where
  "top_activities tk d = filter (\<lambda>a. run_activity tk a \<and> \<not> bound_child d (ac_id a)) (db_activities d)"

text \<open>\<open>ORDER BY revision DESC LIMIT 1\<close>; revisions of a run are unique.\<close>

definition latest_activity :: "owner_token \<Rightarrow> db \<Rightarrow> activity option" where
  "latest_activity tk d = (let rows = top_activities tk d in
     List.find (\<lambda>a. list_all (\<lambda>b. ac_revision b \<le> ac_revision a) rows) rows)"

definition pointer_is_child :: "owner_token \<Rightarrow> db \<Rightarrow> bool" where
  "pointer_is_child tk d =
     (case db_context d of None \<Rightarrow> False
      | Some rows \<Rightarrow> list_ex (\<lambda>r. cr_repo r = tk_repo tk \<and> cr_run r = tk_run tk \<and> bound_child d (cr_activity r)) rows)"

definition sequential :: "activity \<Rightarrow> string \<Rightarrow> string \<Rightarrow> bool" where
  "sequential a kind dig = (ac_state a = ''succeeded'' \<and> ac_input a = dig
     \<and> (ac_kind a, kind) \<in> set [(''plan'', ''execute''), (''execute'', ''review'')])"

definition select_activity_tx ::
  "world \<Rightarrow> owner_token \<Rightarrow> string \<Rightarrow> string \<Rightarrow> bool \<Rightarrow> bool \<Rightarrow> (activity \<times> bool) tx"
where
  "select_activity_tx w tk kind dig resume revise d =
     bindR (fence w tk d) (\<lambda>_.
     if pointer_is_child tk d then own_refuse ''PARENT_ACTIVITY_INVALID''
     else case latest_activity tk d of
       None \<Rightarrow> own_refuse ''ACTIVITY_NOT_FOUND''
     | Some latest \<Rightarrow>
         if ac_state latest \<notin> set terminal_states then
           (if \<not> resume then own_refuse ''RESUME_REQUIRED'' else Inr ((latest, False), d))
         else if \<not> revise \<and> ac_state latest = ''succeeded'' \<and> ac_kind latest = kind \<and> ac_input latest = dig
         then Inr ((latest, True), d)
         else if \<not> revise \<and> \<not> sequential latest kind dig then own_refuse ''REVISION_REQUIRED''
         else let key = ''revision:'' @ int_str (next_revision tk d) @ '':'' @ w_uuid w 1;
                  row = new_activity tk (w_uuid w 0) kind dig (ac_retry_budget latest) key d in
           bindR (insert_activity row d) (\<lambda>d'. Inr ((row, False), d')))"

definition select_activity ::
  "world \<Rightarrow> owner_token \<Rightarrow> string \<times> string \<times> bool \<times> bool \<Rightarrow> db \<Rightarrow> (activity \<times> bool) res \<times> db"
where
  "select_activity w tk args d =
     (case args of (kind, dig, resume, revise) \<Rightarrow>
      transaction (select_activity_tx w tk kind dig resume revise) d)"

section \<open>Idempotent events and debits\<close>

definition record_event_once_tx :: "world \<Rightarrow> owner_token \<Rightarrow> string \<Rightarrow> string \<Rightarrow> pyval \<Rightarrow> nat tx" where
  "record_event_once_tx w tk a key payload d =
     (let h = w_sha256 w (json_dumps payload) in
      case event_key_of a key d of
        Some e \<Rightarrow> if ek_hash e \<noteq> h then own_refuse ''IDEMPOTENCY_CONFLICT'' else Inr (ek_event e, d)
      | None \<Rightarrow>
          let d1 = add_event key (PDict [(''run_id'', PStr (tk_run tk)), (''activity_id'', PStr a), (''data'', payload)]) d;
              n = last_event_id d1
          in Inr (n, d1\<lparr>db_keys := db_keys d1 @ [\<lparr>ek_activity = a, ek_key = key, ek_hash = h, ek_event = n\<rparr>]\<rparr>))"

definition record_event_once ::
  "world \<Rightarrow> owner_token \<Rightarrow> string \<times> pyval \<times> pyval \<Rightarrow> db \<Rightarrow> nat res \<times> db"
where
  "record_event_once w tk args d =
     (case args of (a, key, payload) \<Rightarrow>
      if \<not> nonempty_str key \<or> (case payload of PDict _ \<Rightarrow> False | _ \<Rightarrow> True)
      then (own_refuse ''IDEMPOTENCY_CONFLICT'', d)
      else transaction (\<lambda>d. bindR (assert_activity_binding w tk a d) (\<lambda>_.
             record_event_once_tx w tk a (str_of key) payload d)) d)"

definition debit_clash :: "debit \<Rightarrow> debit \<Rightarrow> bool" where
  "debit_clash r x = (bd_id x = bd_id r \<or> (bd_activity x = bd_activity r \<and> bd_key x = bd_key r))"

definition debit_tx :: "world \<Rightarrow> owner_token \<Rightarrow> string \<Rightarrow> int \<Rightarrow> string \<Rightarrow> debit tx" where
  "debit_tx w tk a amount key d =
     bindR (assert_activity_binding w tk a d) (\<lambda>row.
     if ac_state row \<in> set terminal_states then own_refuse ''ACTIVITY_TERMINAL''
     else bindR (assert_activity_ancestry tk d a) (\<lambda>_.
     case List.find (\<lambda>x. bd_activity x = a \<and> bd_key x = key) (db_debits d) of
       Some e \<Rightarrow> if bd_amount e \<noteq> amount \<or> bd_run e \<noteq> tk_run tk then own_refuse ''IDEMPOTENCY_CONFLICT'' else Inr (e, d)
     | None \<Rightarrow>
         if amount > ac_remaining row then own_refuse ''BUDGET_EXHAUSTED''
         else let left = ac_remaining row - amount;
                  debit = \<lparr>bd_id = w_uuid w 0, bd_repo = tk_repo tk, bd_run = tk_run tk, bd_activity = a,
                    bd_key = key, bd_amount = amount, bd_remaining = left\<rparr> in
           bindR (insert_row debit_clash debit (db_debits d)) (\<lambda>rows.
           Inr (debit, (update_activity a (\<lambda>x. x\<lparr>ac_remaining := left\<rparr>) d)\<lparr>db_debits := rows\<rparr>))))"

definition debit_budget :: "world \<Rightarrow> owner_token \<Rightarrow> string \<times> pyval \<times> string \<Rightarrow> db \<Rightarrow> debit res \<times> db" where
  "debit_budget w tk args d =
     (case args of (a, amount, key) \<Rightarrow>
      if \<not> valid_nonnegative_integer amount then (own_refuse ''INVALID_BUDGET_DEBIT'', d)
      else transaction (debit_tx w tk a (int_of amount) key) d)"

end
