(* ===== verification/Activity_Safety.thy ===== *)
theory Activity_Safety
  imports Activity_Life
begin

text \<open>
  What the activity operations guarantee: finishing an activity revokes every launch below it, a
  run has one open top-level activity, a finished activity never changes again, retry budgets are
  conserved, and an operation on a child needs every ancestor active.
\<close>

section \<open>Descendants\<close>

inductive descendant :: "db \<Rightarrow> string \<Rightarrow> string \<Rightarrow> bool" where
  self: "descendant d a a"
| child: "descendant d a (cb_parent b) \<Longrightarrow> b \<in> set (db_bindings d) \<Longrightarrow> descendant d a (cb_activity b)"

lemma new_children_iff:
  "x \<in> set (new_children d seen) \<longleftrightarrow>
     (\<exists>b \<in> set (db_bindings d). cb_parent b \<in> set seen \<and> cb_activity b \<notin> set seen \<and> x = cb_activity b)"
  by (auto simp: new_children_def)

lemma descend_closed:
  "set seen \<subseteq> set (descend d seen) \<and>
   (\<forall>b \<in> set (db_bindings d). cb_parent b \<in> set (descend d seen) \<longrightarrow> cb_activity b \<in> set (descend d seen))"
proof (induction d seen rule: descend.induct)
  case (1 d seen)
  show ?case
  proof (cases "new_children d seen = []")
    case True
    then have "x \<notin> set (new_children d seen)" for x
      by simp
    then have closed: "\<forall>b \<in> set (db_bindings d). cb_parent b \<in> set seen \<longrightarrow> cb_activity b \<in> set seen"
      using new_children_iff by blast
    have "descend d seen = seen"
      using True by (subst descend.simps) simp
    then show ?thesis using closed by simp
  next
    case False
    from "1.IH" [OF False] show ?thesis
      by (subst (1 2 3) descend.simps) (use False in simp)
  qed
qed

lemma descend_sound: "x \<in> set (descend d seen) \<Longrightarrow> \<exists>a \<in> set seen. descendant d a x"
proof (induction d seen rule: descend.induct)
  case (1 d seen)
  show ?case
  proof (cases "new_children d seen = []")
    case True
    with "1.prems" have "x \<in> set seen"
      by (simp add: descend.simps)
    then show ?thesis using descendant.self by blast
  next
    case False
    with "1.prems" have "x \<in> set (descend d (seen @ new_children d seen))"
      by (subst (asm) descend.simps) simp
    from "1.IH" [OF False this] obtain a where a: "a \<in> set (seen @ new_children d seen)" "descendant d a x"
      by blast
    show ?thesis
    proof (cases "a \<in> set seen")
      case False
      with a(1) obtain b where b: "b \<in> set (db_bindings d)" "cb_parent b \<in> set seen" "a = cb_activity b"
        by (auto simp: new_children_iff)
      have "descendant d (cb_parent b) a"
        using descendant.child [OF descendant.self b(1)] b(3) by simp
      with a(2) have "descendant d (cb_parent b) x"
      proof (induction rule: descendant.induct)
        case (self d a) then show ?case .
      next
        case (child d a b') then show ?case using descendant.child by blast
      qed
      then show ?thesis using b(2) by blast
    qed (use a in blast)
  qed
qed

lemma descendants_iff: "x \<in> set (descendants d a) \<longleftrightarrow> descendant d a x"
proof
  assume "x \<in> set (descendants d a)"
  then show "descendant d a x"
    using descend_sound [of x d "[a]"] by (simp add: descendants_def)
next
  assume "descendant d a x"
  then show "x \<in> set (descendants d a)"
    unfolding descendants_def
  proof (induction rule: descendant.induct)
    case (self d a) then show ?case using descend_closed [of "[a]" d] by simp
  next
    case (child d a b) then show ?case using descend_closed [of "[a]" d] by blast
  qed
qed

section \<open>What a successful operation did\<close>

lemma assert_binding_Inr:
  "assert_activity_binding w tk a d = Inr row \<longleftrightarrow>
     fence w tk d = Inr () \<and> activity_of a d = Some row \<and> ac_repo row = tk_repo tk \<and> ac_run row = tk_run tk"
  by (auto simp: assert_activity_binding_def)

lemma activity_of_in: "activity_of a d = Some r \<Longrightarrow> r \<in> set (db_activities d) \<and> ac_id r = a"
  unfolding activity_of_def by (drule find_Some_in) simp

lemma reread_Inr: "reread a d = Inr (r, d') \<longleftrightarrow> activity_of a d = Some r \<and> d' = d"
  by (auto simp: reread_def split: option.splits)

lemma update_activity_sel [simp]:
  "db_activities (update_activity a f d) = update_where (\<lambda>x. ac_id x = a) f (db_activities d)"
  "db_intents (update_activity a f d) = db_intents d" "db_bindings (update_activity a f d) = db_bindings d"
  "db_debits (update_activity a f d) = db_debits d" "db_accounting (update_activity a f d) = db_accounting d"
  "db_limits (update_activity a f d) = db_limits d" "db_reservations (update_activity a f d) = db_reservations d"
  "db_generation (update_activity a f d) = db_generation d" "db_keys (update_activity a f d) = db_keys d"
  "db_actions (update_activity a f d) = db_actions d" "db_budgets (update_activity a f d) = db_budgets d"
  by (simp_all add: update_activity_def)

lemma revoke_intents_sel [simp]:
  "db_activities (revoke_intents ids d) = db_activities d" "db_bindings (revoke_intents ids d) = db_bindings d"
  "db_debits (revoke_intents ids d) = db_debits d" "db_accounting (revoke_intents ids d) = db_accounting d"
  "db_limits (revoke_intents ids d) = db_limits d" "db_reservations (revoke_intents ids d) = db_reservations d"
  "db_generation (revoke_intents ids d) = db_generation d" "db_keys (revoke_intents ids d) = db_keys d"
  "db_actions (revoke_intents ids d) = db_actions d" "db_budgets (revoke_intents ids d) = db_budgets d"
  "revoke_intents [] d = d" "map in_activity (db_intents (revoke_intents ids d)) = map in_activity (db_intents d)"
  by (simp_all add: revoke_intents_def update_where_def)

lemma update_activity_found:
  assumes "activity_of a d = Some old" and "\<And>x. ac_id (f x) = ac_id x"
  shows "activity_of a (update_activity a f d) = Some (f old)"
  using assms(1) by (simp add: activity_of_def find_update assms(2))

lemma activity_of_cong: "db_activities d = db_activities d' \<Longrightarrow> activity_of a d = activity_of a d'"
  by (simp add: activity_of_def)

lemma activity_of_event [simp]: "activity_of a (add_event t p d) = activity_of a d"
  by (simp add: activity_of_def)

text \<open>The row a transition leaves.\<close>

definition moved :: "transition \<Rightarrow> activity \<Rightarrow> activity \<Rightarrow> activity" where
  "moved t old x = x\<lparr>ac_state := tr_new t, ac_result := (if tr_result t \<noteq> PNone then Some (tr_result t) else ac_result old)\<rparr>"

lemma moved_sel [simp]:
  "ac_id (moved t old x) = ac_id x" "ac_repo (moved t old x) = ac_repo x" "ac_run (moved t old x) = ac_run x"
  "ac_revision (moved t old x) = ac_revision x" "ac_state (moved t old x) = tr_new t"
  "ac_retry_budget (moved t old x) = ac_retry_budget x" "ac_remaining (moved t old x) = ac_remaining x"
  by (simp_all add: moved_def)

lemma transition_tx_Inr:
  assumes "transition_activity_tx w tk t d = Inr (row, d')"
  obtains old revoked payload where "assert_activity_binding w tk (tr_activity t) d = Inr old"
    "ac_state old \<notin> set terminal_states" "ac_state old = tr_expected t"
    "revoked = (if tr_new t \<in> set terminal_states then revoked_below d (tr_activity t) else [])"
    "d' = add_event ''activity_transition'' payload
       (update_activity (tr_activity t) (moved t old) (revoke_intents revoked d))"
    "row = moved t old old"
proof -
  define upd where "upd old d = add_event ''activity_transition''
      (PDict [(''run_id'', PStr (tk_run tk)), (''activity_id'', PStr (tr_activity t)),
         (''data'', PDict [(''from'', PStr (tr_expected t)), (''to'', PStr (tr_new t)),
            (''reason'', tr_reason t), (''revoked_intents'', PList (map PStr
              (if tr_new t \<in> set terminal_states then revoked_below d (tr_activity t) else [])))])])
      (update_activity (tr_activity t) (moved t old)
        (revoke_intents (if tr_new t \<in> set terminal_states then revoked_below d (tr_activity t) else []) d))" for old d
  from assms obtain old where old: "assert_activity_binding w tk (tr_activity t) d = Inr old"
    "ac_state old \<notin> set terminal_states" "ac_state old = tr_expected t"
    and r: "reread (tr_activity t) (upd old d) = Inr (row, d')"
    unfolding transition_activity_tx_def Let_def upd_def moved_def [abs_def]
    by (auto split: if_splits)
  from r have d': "d' = upd old d" and row: "activity_of (tr_activity t) (upd old d) = Some row"
    by (simp_all add: reread_Inr)
  have "activity_of (tr_activity t) (revoke_intents ids d) = Some old" for ids
    using old(1) activity_of_cong [of "revoke_intents ids d" d] by (simp add: assert_binding_Inr)
  from update_activity_found [OF this, of "moved t old"] row have "row = moved t old old"
    unfolding upd_def by simp
  with old d' that show ?thesis unfolding upd_def by blast
qed

lemma transition_activity_Inr:
  "transition_activity w tk t d = (Inr row, d') \<longleftrightarrow>
     tr_expected t \<in> set activity_states \<and> tr_new t \<in> set activity_states
     \<and> (tr_new t = ''succeeded'' \<longrightarrow> has_evidence (tr_result t)) \<and> transition_activity_tx w tk t d = Inr (row, d')"
  by (auto simp: transition_activity_def transaction_commit own_refuse_def)

section \<open>Finishing an activity\<close>

lemma revoked_below_iff:
  "x \<in> set (revoked_below d a) \<longleftrightarrow>
     (\<exists>i \<in> set (db_intents d). in_id i = x \<and> descendant d a (in_activity i) \<and> in_state i \<in> set active_states)"
  by (auto simp: revoked_below_def descendants_iff)

lemma revoke_intents_in:
  "i' \<in> set (db_intents (revoke_intents ids d)) \<Longrightarrow>
     \<exists>i \<in> set (db_intents d). in_id i' = in_id i \<and> in_activity i' = in_activity i \<and>
       (if in_id i \<in> set ids then in_state i' = ''reconcile_required'' \<and> in_permit i' = None else i' = i)"
  by (auto simp: revoke_intents_def set_update_where)

text \<open>C22: finishing an activity revokes, in the same transaction, every launch of the activity and
  of all activities bound below it, at any depth: afterwards each such launch is settled or waits
  for reconciliation without a permit. No accounting is refunded.\<close>

theorem terminal_revokes_below:
  assumes "transition_activity w tk t d = (Inr row, d')" and "tr_new t \<in> set terminal_states"
    and "i \<in> set (db_intents d')" and "descendant d (tr_activity t) (in_activity i)"
  shows "(in_state i \<in> set active_states \<longrightarrow> in_state i = ''reconcile_required'' \<and> in_permit i = None)
     \<and> db_accounting d' = db_accounting d \<and> db_limits d' = db_limits d \<and> ac_state row = tr_new t"
proof -
  from assms(1) have tx: "transition_activity_tx w tk t d = Inr (row, d')"
    unfolding transition_activity_Inr by simp
  obtain old revoked payload where rv: "revoked = (if tr_new t \<in> set terminal_states then revoked_below d (tr_activity t) else [])"
    and d': "d' = add_event ''activity_transition'' payload
       (update_activity (tr_activity t) (moved t old) (revoke_intents revoked d))"
    and row: "row = moved t old old"
    by (rule transition_tx_Inr [OF tx])
  have rb: "revoked = revoked_below d (tr_activity t)"
    using rv assms(2) by simp
  have "i \<in> set (db_intents (revoke_intents revoked d))"
    using assms(3) d' by simp
  from revoke_intents_in [OF this] obtain j where j: "j \<in> set (db_intents d)" "in_activity i = in_activity j"
      "if in_id j \<in> set revoked then in_state i = ''reconcile_required'' \<and> in_permit i = None else i = j"
    by blast
  have fin: "in_state i \<in> set active_states \<longrightarrow> in_state i = ''reconcile_required'' \<and> in_permit i = None"
  proof (cases "in_id j \<in> set revoked")
    case True then show ?thesis using j(3) by simp
  next
    case False
    then have "in_state j \<notin> set active_states"
      using j(1,2) assms(4) unfolding rb revoked_below_iff by auto
    then show ?thesis using j(3) False by simp
  qed
  with d' row show ?thesis by simp
qed

section \<open>The invariant of the activities\<close>

text \<open>One call of the activity interface, by any owner in any environment.\<close>

inductive activity_step :: "db \<Rightarrow> db \<Rightarrow> bool" where
  create: "activity_step d (snd (create_activity w tk args d))"
| runtime: "activity_step d (snd (bind_runtime w tk arg2 d))"
| transit: "activity_step d (snd (transition_activity w tk t d))"
| select: "activity_step d (snd (select_activity w tk sel d))"
| event: "activity_step d (snd (record_event_once w tk ev d))"
| debit: "activity_step d (snd (debit_budget w tk db d))"

text \<open>
  What a call did to the activities and debits: nothing, one row rewritten, one fresh row
  appended by \<open>create\<close> or \<open>select\<close>, or one debit charged.
\<close>

definition same_run :: "activity \<Rightarrow> activity \<Rightarrow> bool" where
  "same_run a b = (ac_repo a = ac_repo b \<and> ac_run a = ac_run b)"

definition is_open :: "activity \<Rightarrow> bool" where
  "is_open a = (ac_state a \<notin> set terminal_states)"

definition is_top :: "db \<Rightarrow> activity \<Rightarrow> bool" where
  "is_top d a = (\<not> bound_child d (ac_id a))"

datatype change = Same | Rewrite activity activity | Append activity | Charge activity debit

fun applied :: "change \<Rightarrow> db \<Rightarrow> db \<Rightarrow> bool" where
  "applied Same d d' = (db_activities d' = db_activities d \<and> db_debits d' = db_debits d)"
| "applied (Rewrite r r') d d' =
     (activity_of (ac_id r) d = Some r \<and> same_run r r' \<and> ac_id r' = ac_id r \<and> ac_revision r' = ac_revision r
      \<and> ac_retry_budget r' = ac_retry_budget r \<and> ac_remaining r' = ac_remaining r
      \<and> (is_open r \<or> ac_state r' = ac_state r \<and> ac_result r' = ac_result r)
      \<and> db_debits d' = db_debits d
      \<and> db_activities d' = map (\<lambda>x. if x = r then r' else x) (db_activities d))"
| "applied (Append r) d d' =
     ((\<forall>x \<in> set (db_activities d). \<not> activity_clash r x \<and>
         (same_run x r \<longrightarrow> ac_revision x < ac_revision r \<and> (is_top d x \<longrightarrow> \<not> is_open x)))
      \<and> ac_remaining r = ac_retry_budget r \<and> 0 \<le> ac_remaining r
      \<and> db_debits d' = db_debits d \<and> db_activities d' = db_activities d @ [r])"
| "applied (Charge r b) d d' =
     (activity_of (ac_id r) d = Some r \<and> is_open r \<and> bd_activity b = ac_id r
      \<and> 0 \<le> bd_amount b \<and> bd_amount b \<le> ac_remaining r
      \<and> db_debits d' = db_debits d @ [b]
      \<and> db_activities d' = map (\<lambda>x. if x = r then r\<lparr>ac_remaining := ac_remaining r - bd_amount b\<rparr> else x) (db_activities d))"

lemma update_where_distinct:
  assumes "distinct (map ac_id rows)" "r \<in> set rows"
  shows "update_where (\<lambda>x. ac_id x = ac_id r) f rows = map (\<lambda>x. if x = r then f r else x) rows"
  unfolding update_where_def using assms by (auto simp: distinct_map inj_on_def)

text \<open>The invariant: identifiers and revisions are unique, an open top-level activity is the last
  revision of its run, and every retry budget is what is left plus what was spent: one unit for
  each launch attempt and the recorded debits.\<close>

definition debited :: "db \<Rightarrow> string \<Rightarrow> int" where
  "debited d a = sum_list (map bd_amount (filter (\<lambda>b. bd_activity b = a) (db_debits d)))
     + int (count_list (map in_activity (db_intents d)) a)"

definition activities_ok :: "db \<Rightarrow> bool" where
  "activities_ok d =
     (distinct (map ac_id (db_activities d))
      \<and> (\<forall>a \<in> set (db_activities d). \<forall>b \<in> set (db_activities d).
           same_run a b \<and> ac_revision a = ac_revision b \<longrightarrow> a = b)
      \<and> (\<forall>a \<in> set (db_activities d). \<forall>b \<in> set (db_activities d).
           same_run a b \<and> is_open a \<and> is_top d a \<and> is_top d b \<longrightarrow> ac_revision b \<le> ac_revision a)
      \<and> (\<forall>a \<in> set (db_activities d). 0 \<le> ac_remaining a \<and> ac_retry_budget a = ac_remaining a + debited d (ac_id a))
      \<and> (\<forall>b \<in> set (db_debits d). \<exists>a \<in> set (db_activities d). ac_id a = bd_activity b)
      \<and> (\<forall>b \<in> set (db_debits d). 0 \<le> bd_amount b)
      \<and> (\<forall>i \<in> set (db_intents d). \<exists>a \<in> set (db_activities d). ac_id a = in_activity i))"

lemma activities_okD:
  assumes "activities_ok d"
  shows "distinct (map ac_id (db_activities d))"
    and "a \<in> set (db_activities d) \<Longrightarrow> b \<in> set (db_activities d) \<Longrightarrow> same_run a b \<Longrightarrow>
      ac_revision a = ac_revision b \<Longrightarrow> a = b"
    and "a \<in> set (db_activities d) \<Longrightarrow> b \<in> set (db_activities d) \<Longrightarrow> same_run a b \<Longrightarrow>
      is_open a \<Longrightarrow> is_top d a \<Longrightarrow> is_top d b \<Longrightarrow> ac_revision b \<le> ac_revision a"
    and "a \<in> set (db_activities d) \<Longrightarrow> 0 \<le> ac_remaining a \<and> ac_retry_budget a = ac_remaining a + debited d (ac_id a)"
    and "e \<in> set (db_debits d) \<Longrightarrow> \<exists>a \<in> set (db_activities d). ac_id a = bd_activity e"
    and "e \<in> set (db_debits d) \<Longrightarrow> 0 \<le> bd_amount e"
    and "i \<in> set (db_intents d) \<Longrightarrow> \<exists>a \<in> set (db_activities d). ac_id a = in_activity i"
  using assms unfolding activities_ok_def by blast+

lemma budget_nonneg:
  assumes "activities_ok d" "a \<in> set (db_activities d)" shows "0 \<le> ac_retry_budget a"
proof -
  have "0 \<le> debited d (ac_id a)"
    unfolding debited_def
    by (intro add_nonneg_nonneg sum_list_nonneg) (use activities_okD(6) [OF assms(1)] in auto)
  then show ?thesis using activities_okD(4) [OF assms] by simp
qed


lemma same_run_trans: "same_run a b \<Longrightarrow> same_run b c \<Longrightarrow> same_run a c" and same_run_sym: "same_run a b \<Longrightarrow> same_run b a"
  by (simp_all add: same_run_def)

lemma is_top_cong: "db_bindings d = db_bindings d' \<Longrightarrow> is_top d = is_top d'"
  by (simp add: is_top_def bound_child_def fun_eq_iff)

lemma debited_cong: "db_debits d = db_debits d' \<Longrightarrow>
    map in_activity (db_intents d) = map in_activity (db_intents d') \<Longrightarrow> debited d = debited d'"
  by (simp add: debited_def fun_eq_iff)

text \<open>Rewriting one row by a row with the same key, revision and budget total keeps the invariant.\<close>

lemma rewrite_ok:
  assumes ok: "activities_ok d" and bindings: "db_bindings d' = db_bindings d"
    and intents: "in_activity ` set (db_intents d') \<subseteq> insert (ac_id r) (in_activity ` set (db_intents d))"
    and r: "r \<in> set (db_activities d)" and same: "same_run r r'" "ac_id r' = ac_id r" "ac_revision r' = ac_revision r"
    and opn: "is_open r' \<Longrightarrow> is_open r"
    and rows: "db_activities d' = map (\<lambda>x. if x = r then r' else x) (db_activities d)"
    and owners: "\<And>e. e \<in> set (db_debits d') \<Longrightarrow> e \<in> set (db_debits d) \<or> bd_activity e = ac_id r \<and> 0 \<le> bd_amount e"
    and budget: "0 \<le> ac_remaining r'" "ac_retry_budget r' = ac_remaining r' + debited d' (ac_id r)"
    and others: "\<And>a. a \<noteq> ac_id r \<Longrightarrow> debited d' a = debited d a"
  shows "activities_ok d'"
proof -
  let ?g = "\<lambda>x. if x = r then r' else x"
  have g: "ac_id (?g x) = ac_id x" "ac_revision (?g x) = ac_revision x" "ac_repo (?g x) = ac_repo x"
      "ac_run (?g x) = ac_run x" for x
    using same by (auto simp: same_run_def)
  have gi: "map ac_id (db_activities d') = map ac_id (db_activities d)"
    using rows g(1) by simp
  have img: "x \<in> set (db_activities d') \<Longrightarrow> \<exists>y \<in> set (db_activities d). x = ?g y" for x
    using rows by auto
  have run: "same_run (?g x) (?g y) = same_run x y" for x y
    using g by (simp add: same_run_def)
  have top: "is_top d' (?g x) = is_top d x" for x
    using is_top_cong [OF bindings] g(1) by (simp add: is_top_def)
  have op: "is_open (?g x) \<Longrightarrow> is_open x" for x
    using opn by (simp split: if_splits)
  show ?thesis
    unfolding activities_ok_def
  proof (intro conjI ballI impI)
    show "distinct (map ac_id (db_activities d'))"
      using gi activities_okD(1) [OF ok] by simp
  next
    fix a b assume "a \<in> set (db_activities d')" "b \<in> set (db_activities d')" and e: "same_run a b \<and> ac_revision a = ac_revision b"
    then obtain x y where xy: "x \<in> set (db_activities d)" "a = ?g x" "y \<in> set (db_activities d)" "b = ?g y"
      using img by metis
    have "x = y"
      using activities_okD(2) [OF ok xy(1,3)] e run g(2) unfolding xy(2,4) by metis
    then show "a = b" using xy by simp
  next
    fix a b assume "a \<in> set (db_activities d')" "b \<in> set (db_activities d')"
      and e: "same_run a b \<and> is_open a \<and> is_top d' a \<and> is_top d' b"
    then obtain x y where xy: "x \<in> set (db_activities d)" "a = ?g x" "y \<in> set (db_activities d)" "b = ?g y"
      using img by metis
    show "ac_revision b \<le> ac_revision a"
      using activities_okD(3) [OF ok xy(1,3)] e run top op g(2) unfolding xy(2,4) by metis
  next
    fix a assume "a \<in> set (db_activities d')"
    then obtain x where x: "x \<in> set (db_activities d)" "a = ?g x" using img by blast
    show "0 \<le> ac_remaining a"
      using activities_okD(4) [OF ok x(1)] budget(1) x(2) by simp
    show "ac_retry_budget a = ac_remaining a + debited d' (ac_id a)"
    proof (cases "x = r")
      case True then show ?thesis using x(2) budget(2) same(2) by simp
    next
      case False
      then have "ac_id x \<noteq> ac_id r"
        using activities_okD(1) [OF ok] x(1) r by (auto simp: distinct_map inj_on_def)
      then show ?thesis using activities_okD(4) [OF ok x(1)] others x(2) False by simp
    qed
  next
    fix e assume "e \<in> set (db_debits d')"
    then have "\<exists>a \<in> set (db_activities d). ac_id a = bd_activity e"
      using owners activities_okD(5) [OF ok] r by metis
    then obtain a where a: "a \<in> set (db_activities d)" "ac_id a = bd_activity e" by blast
    then have "?g a \<in> set (db_activities d')" unfolding rows by auto
    then show "\<exists>a \<in> set (db_activities d'). ac_id a = bd_activity e"
      using g(1) [of a] a(2) by metis
  next
    fix e assume "e \<in> set (db_debits d')"
    then show "0 \<le> bd_amount e" using owners activities_okD(6) [OF ok] by blast
  next
    fix i assume "i \<in> set (db_intents d')"
    then have "in_activity i = ac_id r \<or> in_activity i \<in> in_activity ` set (db_intents d)" using intents by blast
    then obtain a where a: "a \<in> set (db_activities d)" "ac_id a = in_activity i"
      using r activities_okD(7) [OF ok] by (metis imageE)
    then have "?g a \<in> set (db_activities d')" unfolding rows by auto
    then show "\<exists>a \<in> set (db_activities d'). ac_id a = in_activity i"
      using g(1) [of a] a(2) by metis
  qed
qed


text \<open>A new row of the highest revision; it is bound to a parent, or no open activity is on top.\<close>

lemma append_row_ok:
  assumes ok: "activities_ok d"
    and intents: "map in_activity (db_intents d') = map in_activity (db_intents d)"
    and fresh: "\<And>x. x \<in> set (db_activities d) \<Longrightarrow> ac_id x \<noteq> ac_id r"
    and rev: "\<And>x. x \<in> set (db_activities d) \<Longrightarrow> same_run x r \<Longrightarrow> ac_revision x < ac_revision r"
    and closed: "\<And>x. x \<in> set (db_activities d) \<Longrightarrow> same_run x r \<Longrightarrow> is_top d' r \<Longrightarrow> is_top d' x \<Longrightarrow> \<not> is_open x"
    and top: "\<And>x. x \<in> set (db_activities d) \<Longrightarrow> is_top d' x = is_top d x"
    and rows: "db_activities d' = db_activities d @ [r]" and debits: "db_debits d' = db_debits d"
    and left: "ac_remaining r = ac_retry_budget r" "0 \<le> ac_remaining r"
  shows "activities_ok d'"
proof -
  have deb: "debited d' = debited d" using debited_cong [OF debits intents] .
  have none: "debited d (ac_id r) = 0"
  proof -
    have "bd_activity e \<noteq> ac_id r" if "e \<in> set (db_debits d)" for e
      using activities_okD(5) [OF ok that] fresh by metis
    then have "filter (\<lambda>b. bd_activity b = ac_id r) (db_debits d) = []" by (auto simp: filter_empty_conv)
    moreover have "ac_id r \<notin> set (map in_activity (db_intents d))"
      using activities_okD(7) [OF ok] fresh by (metis imageE list.set_map)
    ultimately show ?thesis by (simp add: debited_def count_list_0_iff del: set_map)
  qed
  have ins: "in_activity i \<in> in_activity ` set (db_intents d)" if "i \<in> set (db_intents d')" for i
    using that intents by (metis image_eqI list.set_map)
  have mem: "x \<in> set (db_activities d') \<longleftrightarrow> x = r \<or> x \<in> set (db_activities d)" for x
    using rows by auto
  show ?thesis
    unfolding activities_ok_def
  proof (intro conjI ballI impI)
    show "distinct (map ac_id (db_activities d'))"
    proof -
      have "ac_id r \<notin> ac_id ` set (db_activities d)" using fresh by (metis imageE)
      then show ?thesis using activities_okD(1) [OF ok] rows by simp
    qed
  next
    fix a b assume "a \<in> set (db_activities d')" "b \<in> set (db_activities d')" and e: "same_run a b \<and> ac_revision a = ac_revision b"
    then show "a = b"
      using activities_okD(2) [OF ok] rev same_run_sym unfolding mem by (metis less_irrefl)
  next
    fix a b assume "a \<in> set (db_activities d')" "b \<in> set (db_activities d')"
      and e: "same_run a b \<and> is_open a \<and> is_top d' a \<and> is_top d' b"
    then show "ac_revision b \<le> ac_revision a"
      using activities_okD(3) [OF ok] rev closed same_run_sym unfolding mem
      by (metis less_imp_le order_refl top)
  next
    fix a assume "a \<in> set (db_activities d')"
    then show "0 \<le> ac_remaining a" "ac_retry_budget a = ac_remaining a + debited d' (ac_id a)"
      using activities_okD(4) [OF ok] left none unfolding mem deb by auto
  next
    fix e assume "e \<in> set (db_debits d')"
    then show "\<exists>a \<in> set (db_activities d'). ac_id a = bd_activity e"
      using activities_okD(5) [OF ok] debits rows by auto
  next
    fix e assume "e \<in> set (db_debits d')"
    then show "0 \<le> bd_amount e" using activities_okD(6) [OF ok] debits by simp
  next
    fix i assume "i \<in> set (db_intents d')"
    then show "\<exists>a \<in> set (db_activities d'). ac_id a = in_activity i"
      using ins activities_okD(7) [OF ok] mem by (metis imageE)
  qed
qed

lemma append_ok:
  assumes ok: "activities_ok d" and bindings: "db_bindings d' = db_bindings d"
    and intents: "map in_activity (db_intents d') = map in_activity (db_intents d)" and app: "applied (Append r) d d'"
  shows "activities_ok d'"
  by (rule append_row_ok [OF ok intents, of r])
    (use app is_top_cong [OF bindings] in \<open>auto simp: activity_clash_def\<close>)

lemma applied_ok:
  assumes ok: "activities_ok d" and bindings: "db_bindings d' = db_bindings d" and "applied c d d'"
    and intents: "map in_activity (db_intents d') = map in_activity (db_intents d)"
  shows "activities_ok d'"
proof -
  have subset: "in_activity ` set (db_intents d') \<subseteq> insert x (in_activity ` set (db_intents d))" for x
    using intents by (metis list.set_map subset_insertI)
  show ?thesis
proof (cases c)
  case Same
  then have rows: "db_activities d' = db_activities d" "db_debits d' = db_debits d" using assms(3) by auto
  have "in_activity i \<in> in_activity ` set (db_intents d)" if "i \<in> set (db_intents d')" for i
    using that intents by (metis image_eqI list.set_map)
  then have "\<exists>a \<in> set (db_activities d). ac_id a = in_activity i" if "i \<in> set (db_intents d')" for i
    using activities_okD(7) [OF ok] that by (metis imageE)
  then show ?thesis
    using ok unfolding activities_ok_def rows is_top_cong [OF bindings] debited_cong [OF rows(2) intents] by blast
next
  case (Rewrite r r')
  then have a: "applied (Rewrite r r') d d'" using assms(3) by simp
  then have r: "r \<in> set (db_activities d)" using activity_of_in by auto
  show ?thesis
    by (rule rewrite_ok [OF ok bindings subset r, of r'])
      (use a activities_okD(4) [OF ok r] debited_cong [of d' d] intents in \<open>auto simp: is_open_def\<close>)
next
  case (Append r)
  then show ?thesis using append_ok [OF ok bindings intents] assms(3) by simp
next
  case (Charge r b)
  then have a: "applied (Charge r b) d d'" using assms(3) by simp
  then have r: "r \<in> set (db_activities d)" using activity_of_in by auto
  have "debited d' x = debited d x + (if bd_activity b = x then bd_amount b else 0)" for x
    using a intents by (simp add: debited_def)
  then show ?thesis
    by (intro rewrite_ok [OF ok bindings subset r, of "r\<lparr>ac_remaining := ac_remaining r - bd_amount b\<rparr>"])
      (use a activities_okD(4) [OF ok r] in \<open>auto simp: is_open_def same_run_def\<close>)
qed
qed


section \<open>Every call is such a change\<close>

definition stepped :: "db \<Rightarrow> db \<Rightarrow> bool" where
  "stepped d d' = (db_bindings d' = db_bindings d \<and> map in_activity (db_intents d') = map in_activity (db_intents d)
     \<and> (\<exists>c. applied c d d'))"

lemma stepped_same: "db_activities d' = db_activities d \<Longrightarrow> db_debits d' = db_debits d \<Longrightarrow>
    db_bindings d' = db_bindings d \<Longrightarrow> map in_activity (db_intents d') = map in_activity (db_intents d) \<Longrightarrow> stepped d d'"
  unfolding stepped_def by (intro conjI exI [of _ Same]) simp_all

lemma stepped_tx: "(\<And>x d'. body d = Inr (x, d') \<Longrightarrow> stepped d d') \<Longrightarrow> stepped d (snd (transaction body d))"
  by (cases rule: transaction_cases [of body d]) (auto intro: stepped_same)

lemma next_revision_gt: "x \<in> set (db_activities d) \<Longrightarrow> run_activity tk x \<Longrightarrow> ac_revision x < next_revision tk d"
proof -
  assume "x \<in> set (db_activities d)" "run_activity tk x"
  then have mem: "ac_revision x \<in> set (map ac_revision (filter (run_activity tk) (db_activities d)))" by auto
  then have "ac_revision x \<le> Max (set (map ac_revision (filter (run_activity tk) (db_activities d))))"
    by (intro Max_ge) auto
  moreover have "map ac_revision (filter (run_activity tk) (db_activities d)) \<noteq> []"
    using mem by (metis empty_iff empty_set)
  ultimately show ?thesis by (simp add: next_revision_def Let_def)
qed

lemma new_activity_sel [simp]:
  "ac_id (new_activity tk i k g b key d) = i" "ac_repo (new_activity tk i k g b key d) = tk_repo tk"
  "ac_run (new_activity tk i k g b key d) = tk_run tk" "ac_state (new_activity tk i k g b key d) = ''pending''"
  "ac_revision (new_activity tk i k g b key d) = next_revision tk d"
  "ac_retry_budget (new_activity tk i k g b key d) = b" "ac_remaining (new_activity tk i k g b key d) = b"
  by (simp_all add: new_activity_def)

lemma same_run_new: "same_run x (new_activity tk i k g b key d) \<longleftrightarrow> run_activity tk x"
  by (auto simp: same_run_def run_activity_def)

lemma insert_activity_stepped:
  assumes "insert_activity (new_activity tk i k g b key d) d = Inr d'" and "0 \<le> b"
    and "\<And>x. x \<in> set (db_activities d) \<Longrightarrow> run_activity tk x \<Longrightarrow> is_top d x \<Longrightarrow> \<not> is_open x"
  shows "stepped d d'"
  unfolding stepped_def
proof (intro conjI exI)
  from assms(1) show "db_bindings d' = db_bindings d" by (auto simp: insert_activity_def)
  from assms(1) show "map in_activity (db_intents d') = map in_activity (db_intents d)" by (auto simp: insert_activity_def)
  from assms show "applied (Append (new_activity tk i k g b key d)) d d'"
    using next_revision_gt by (auto simp: insert_activity_def same_run_new)
qed

lemma create_stepped: "stepped d (snd (create_activity w tk args d))"
proof -
  have "stepped d d'" if "create_activity_tx w tk k g b key d = Inr (x, d')" "0 \<le> b" for k g b key x d'
    using that
    by (auto simp: create_activity_tx_def Let_def list_ex_iff is_open_def stepped_same
        split: option.splits if_splits intro!: insert_activity_stepped)
  then have "0 \<le> b \<Longrightarrow> stepped d (snd (transaction (create_activity_tx w tk k g b key) d))" for k g b key
    by (intro stepped_tx)
  moreover have "valid_nonnegative_integer v \<Longrightarrow> 0 \<le> int_of v" for v
    by (auto simp: valid_nonnegative_integer_def int_of_def split: pyval.splits)
  ultimately show ?thesis
    by (auto simp: create_activity_def stepped_same split: prod.splits)
qed

lemma update_stepped:
  assumes ok: "activities_ok d" and row: "activity_of a d = Some r"
    and rows: "db_activities d' = update_where (\<lambda>x. ac_id x = a) f (db_activities d)"
    and "db_debits d' = db_debits d" "db_bindings d' = db_bindings d"
    and "map in_activity (db_intents d') = map in_activity (db_intents d)"
    and "same_run r (f r)" "ac_id (f r) = ac_id r" "ac_revision (f r) = ac_revision r"
    "ac_retry_budget (f r) = ac_retry_budget r" "ac_remaining (f r) = ac_remaining r"
    "is_open r \<or> ac_state (f r) = ac_state r \<and> ac_result (f r) = ac_result r"
  shows "stepped d d'"
proof -
  have r: "r \<in> set (db_activities d)" "ac_id r = a" using activity_of_in [OF row] by auto
  have "db_activities d' = map (\<lambda>x. if x = r then f r else x) (db_activities d)"
    unfolding rows r(2) [symmetric] by (rule update_where_distinct [OF activities_okD(1) [OF ok] r(1)])
  then show ?thesis
    unfolding stepped_def using assms(2,4-) r(2) by (intro conjI exI [of _ "Rewrite r (f r)"]) auto
qed

lemma runtime_stepped:
  assumes "activities_ok d" shows "stepped d (snd (bind_runtime w tk args d))"
proof -
  have "stepped d d'" if "bind_runtime_tx w tk a h d = Inr (x, d')" for a h x d'
  proof -
    from that obtain r where r: "assert_activity_binding w tk a d = Inr r"
      and d': "d' = update_activity a (\<lambda>x. x\<lparr>ac_runtime := Some h\<rparr>) d"
      by (auto simp: bind_runtime_tx_def reread_Inr split: if_splits)
    show ?thesis unfolding d'
      by (rule update_stepped [OF assms, of a r _ "\<lambda>x. x\<lparr>ac_runtime := Some h\<rparr>"]) (use r in \<open>simp_all add: assert_binding_Inr same_run_def\<close>)
  qed
  then have "stepped d (snd (transaction (bind_runtime_tx w tk a h) d))" for a h
    by (intro stepped_tx)
  then show ?thesis by (auto simp: bind_runtime_def stepped_same split: prod.splits)
qed

lemma transition_tx_stepped:
  assumes "activities_ok d" and run: "transition_activity_tx w tk t d = Inr (x, d')" shows "stepped d d'"
proof -
  obtain old revoked payload where old: "assert_activity_binding w tk (tr_activity t) d = Inr old"
      "ac_state old \<notin> set terminal_states" "ac_state old = tr_expected t"
    and "revoked = (if tr_new t \<in> set terminal_states then revoked_below d (tr_activity t) else [])"
    and d': "d' = add_event ''activity_transition'' payload
     (update_activity (tr_activity t) (moved t old) (revoke_intents revoked d))" and "x = moved t old old"
    by (rule transition_tx_Inr [OF run])
  show ?thesis unfolding d'
    by (rule update_stepped [OF assms(1), of "tr_activity t" old _ "moved t old"])
      (use old in \<open>simp_all add: assert_binding_Inr same_run_def is_open_def\<close>)
qed

lemma transition_stepped:
  assumes "activities_ok d" shows "stepped d (snd (transition_activity w tk t d))"
proof -
  from transition_tx_stepped [OF assms] have "stepped d (snd (transaction (transition_activity_tx w tk t) d))"
    by (intro stepped_tx)
  then show ?thesis by (auto simp: transition_activity_def stepped_same)
qed


lemma latest_closed:
  assumes ok: "activities_ok d" and latest: "latest_activity tk d = Some l" "\<not> is_open l"
    and x: "x \<in> set (db_activities d)" "run_activity tk x" "is_top d x"
  shows "\<not> is_open x"
proof
  assume opn: "is_open x"
  have top: "y \<in> set (top_activities tk d) \<longleftrightarrow> y \<in> set (db_activities d) \<and> run_activity tk y \<and> is_top d y" for y
    by (auto simp: top_activities_def is_top_def)
  from latest(1) have l: "l \<in> set (top_activities tk d)" "\<forall>b \<in> set (top_activities tk d). ac_revision b \<le> ac_revision l"
    unfolding latest_activity_def Let_def by (auto dest!: find_Some_in simp: list_all_iff)
  then have "ac_revision x \<le> ac_revision l" using top x by blast
  moreover have run: "same_run x l" using top l(1) x by (auto simp: same_run_def run_activity_def)
  then have "ac_revision l \<le> ac_revision x"
    using activities_okD(3) [OF ok x(1)] top l(1) opn x by blast
  ultimately have "x = l"
    using activities_okD(2) [OF ok x(1)] run top l(1) by auto
  then show False using opn latest(2) by simp
qed

lemma select_stepped:
  assumes ok: "activities_ok d" shows "stepped d (snd (select_activity w tk args d))"
proof -
  have "stepped d d'" if run: "select_activity_tx w tk k g resume revise d = Inr (x, d')" for k g resume revise x d'
  proof -
    from run obtain l where l: "latest_activity tk d = Some l"
      by (auto simp: select_activity_tx_def split: if_splits)
    then have "l \<in> set (db_activities d)"
      unfolding latest_activity_def Let_def top_activities_def by (auto dest!: find_Some_in)
    then have "0 \<le> ac_retry_budget l"
      by (rule budget_nonneg [OF ok])
    with run l show ?thesis
      by (auto simp: select_activity_tx_def Let_def stepped_same is_open_def [symmetric] split: if_splits
          intro!: insert_activity_stepped dest: latest_closed [OF ok l])
  qed
  then have "stepped d (snd (transaction (select_activity_tx w tk k g resume revise) d))" for k g resume revise
    by (intro stepped_tx)
  then show ?thesis by (auto simp: select_activity_def split: prod.splits)
qed

lemma event_stepped: "stepped d (snd (record_event_once w tk args d))"
proof -
  have "stepped d d'" if "record_event_once_tx w tk a key p d = Inr (x, d')" for a key p x d'
    using that by (auto simp: record_event_once_tx_def Let_def stepped_same split: option.splits if_splits)
  then have "stepped d (snd (transaction (\<lambda>d. bindR (assert_activity_binding w tk a d) (\<lambda>_.
      record_event_once_tx w tk a key p d)) d))" for a key p
    by (intro stepped_tx) auto
  then show ?thesis by (auto simp: record_event_once_def stepped_same split: prod.splits)
qed

lemma debit_tx_cases:
  assumes "debit_tx w tk a amount key d = Inr (b, d')"
  obtains (replay) "b \<in> set (db_debits d)" "bd_activity b = a" "bd_key b = key" "bd_amount b = amount" "d' = d"
  | (charged) row where "activity_of a d = Some row" "ac_state row \<notin> set terminal_states" "amount \<le> ac_remaining row"
      "bd_activity b = a" "bd_amount b = amount" "bd_key b = key" "bd_remaining b = ac_remaining row - amount"
      "d' = (update_activity a (\<lambda>x. x\<lparr>ac_remaining := ac_remaining row - amount\<rparr>) d)\<lparr>db_debits := db_debits d @ [b]\<rparr>"
proof -
  from assms obtain row where row: "activity_of a d = Some row" "ac_state row \<notin> set terminal_states"
    unfolding debit_tx_def by (auto simp: assert_binding_Inr split: if_splits)
  with assms have rest: "(case List.find (\<lambda>x. bd_activity x = a \<and> bd_key x = key) (db_debits d) of
       Some e \<Rightarrow> if bd_amount e \<noteq> amount \<or> bd_run e \<noteq> tk_run tk then own_refuse ''IDEMPOTENCY_CONFLICT'' else Inr (e, d)
     | None \<Rightarrow>
         if amount > ac_remaining row then own_refuse ''BUDGET_EXHAUSTED''
         else let left = ac_remaining row - amount;
                  debit = \<lparr>bd_id = w_uuid w 0, bd_repo = tk_repo tk, bd_run = tk_run tk, bd_activity = a,
                    bd_key = key, bd_amount = amount, bd_remaining = left\<rparr> in
           bindR (insert_row debit_clash debit (db_debits d)) (\<lambda>rows.
           Inr (debit, (update_activity a (\<lambda>x. x\<lparr>ac_remaining := left\<rparr>) d)\<lparr>db_debits := rows\<rparr>))) = Inr (b, d')"
    unfolding debit_tx_def by (auto simp: assert_binding_Inr)
  show ?thesis
  proof (cases "List.find (\<lambda>x. bd_activity x = a \<and> bd_key x = key) (db_debits d)")
    case None
    let ?b = "\<lparr>bd_id = w_uuid w 0, bd_repo = tk_repo tk, bd_run = tk_run tk, bd_activity = a,
       bd_key = key, bd_amount = amount, bd_remaining = ac_remaining row - amount\<rparr>"
    from rest None have "amount \<le> ac_remaining row" "b = ?b"
      "d' = (update_activity a (\<lambda>x. x\<lparr>ac_remaining := ac_remaining row - amount\<rparr>) d)\<lparr>db_debits := db_debits d @ [?b]\<rparr>"
      by (auto simp: Let_def split: if_splits)
    then show ?thesis by (intro charged [OF row]) simp_all
  next
    case (Some e)
    from rest Some have "bd_amount e = amount" "b = e" "d' = d"
      by (simp_all split: if_splits)
    then show ?thesis using find_Some_in [OF Some] by (intro replay) simp_all
  qed
qed

lemma debit_stepped:
  assumes ok: "activities_ok d" shows "stepped d (snd (debit_budget w tk args d))"
proof -
  have "stepped d d'" if "debit_tx w tk a amount key d = Inr (b, d')" "0 \<le> amount" for a amount key b d'
    using that(1)
  proof (cases rule: debit_tx_cases)
    case replay then show ?thesis by (simp add: stepped_same)
  next
    case (charged row)
    have r: "row \<in> set (db_activities d)" "ac_id row = a" using activity_of_in [OF charged(1)] by auto
    have "db_activities d' = map (\<lambda>x. if x = row then row\<lparr>ac_remaining := ac_remaining row - bd_amount b\<rparr> else x) (db_activities d)"
      using update_where_distinct [OF activities_okD(1) [OF ok] r(1), of "\<lambda>x. x\<lparr>ac_remaining := ac_remaining row - amount\<rparr>"]
      charged r(2) by simp
    then show ?thesis
      unfolding stepped_def using charged r that(2)
      by (intro conjI exI [of _ "Charge row b"]) (auto simp: is_open_def)
  qed
  then have "0 \<le> amount \<Longrightarrow> stepped d (snd (transaction (debit_tx w tk a amount key) d))" for a amount key
    by (intro stepped_tx)
  moreover have "valid_nonnegative_integer v \<Longrightarrow> 0 \<le> int_of v" for v
    by (auto simp: valid_nonnegative_integer_def int_of_def split: pyval.splits)
  ultimately show ?thesis by (auto simp: debit_budget_def stepped_same split: prod.splits)
qed


section \<open>Properties\<close>

lemma step_stepped: "activity_step d d' \<Longrightarrow> activities_ok d \<Longrightarrow> stepped d d'"
  by (cases rule: activity_step.cases, assumption)
    (auto intro: create_stepped runtime_stepped transition_stepped select_stepped event_stepped debit_stepped)

lemma steps_ok: "activity_step\<^sup>*\<^sup>* d d' \<Longrightarrow> activities_ok d \<Longrightarrow> activities_ok d' \<and> db_bindings d' = db_bindings d"
proof (induction rule: rtranclp_induct)
  case base then show ?case by simp
next
  case (step y z)
  then show ?case using step_stepped [OF step.hyps(2)] unfolding stepped_def by (auto intro: applied_ok)
qed

lemma applied_frozen:
  assumes "activities_ok d" "applied c d d'" "a \<in> set (db_activities d)" "\<not> is_open a"
  shows "\<exists>a' \<in> set (db_activities d'). ac_id a' = ac_id a \<and> ac_state a' = ac_state a \<and> ac_result a' = ac_result a"
  using assms(2-) by (cases c) (auto simp: image_iff is_open_def)

text \<open>A debit of a child activity succeeds only while every ancestor is active in the same run.\<close>

theorem debit_needs_active_ancestors:
  assumes "debit_budget w tk (a, amount, key) d = (Inr b, d')" and "ancestor d a p"
  shows "\<exists>row. activity_of p d = Some row \<and> ac_repo row = tk_repo tk \<and> ac_run row = tk_run tk \<and> ac_state row = ''active''"
proof -
  from assms(1) have "assert_activity_ancestry tk d a = Inr ()"
    by (auto simp: debit_budget_def own_refuse_def transaction_commit debit_tx_def split: if_splits)
  then show ?thesis
    using ancestry_active [OF _ assms(2), of tk "[]"] by (simp add: assert_activity_ancestry_def)
qed

text \<open>Recording an event again with the same key and payload changes nothing and returns the
  same event.\<close>

theorem event_recorded_once:
  assumes "record_event_once w tk (a, key, payload) d = (Inr n, d')"
  shows "record_event_once w tk (a, key, payload) d' = (Inr n, d')"
proof -
  have bind: "assert_activity_binding w tk a (d1\<lparr>db_keys := ks\<rparr>) = assert_activity_binding w tk a d1" for d1 ks
    using assert_owner_cong [of "d1\<lparr>db_keys := ks\<rparr>" d1]
    by (simp add: assert_activity_binding_def fence_def assert_migration_epoch_def activity_of_def)
  have bind': "assert_activity_binding w tk a (add_event k p d1) = assert_activity_binding w tk a d1" for k p d1
    using assert_owner_cong [of "add_event k p d1" d1]
    by (simp add: assert_activity_binding_def fence_def assert_migration_epoch_def)
  have tx: "bindR (assert_activity_binding w tk a d') (\<lambda>_. record_event_once_tx w tk a k payload d') = Inr (n, d')"
    if "bindR (assert_activity_binding w tk a d) (\<lambda>_. record_event_once_tx w tk a k payload d) = Inr (n, d')" for k
    using that
    by (auto simp: record_event_once_tx_def Let_def bind bind' event_key_of_def find_append split: option.splits if_splits)
  show ?thesis
    using assms tx by (auto simp: record_event_once_def own_refuse_def transaction_commit split: if_splits)
qed


section \<open>Run limits and capacity\<close>

lemma limits_match_trans: "limits_match tk l \<Longrightarrow> limits_match tk' l \<Longrightarrow> limits_match tk = limits_match tk'"
  by (auto simp: limits_match_def fun_eq_iff)

text \<open>the limits of a run are set once: after any call that configures limits, for this or any
  other run and by any owner, limits that existed before are unchanged, and a successful call
  returns limits equal to the requested ones.\<close>

theorem run_limits_immutable:
  assumes "configure_run_limits w tk (dl, tlim, cap) d = (r, d')"
  shows "(\<forall>tk' l. limits_of tk' d = Some l \<longrightarrow> limits_of tk' d' = Some l) \<and>
    (\<forall>l. r = Inr l \<longrightarrow> limits_of tk d' = Some l \<and> PInt (rl_dispatch_limit l) = dl
        \<and> PInt (rl_token_limit l) = tlim \<and> PInt (rl_capacity l) = cap)"
proof -
  let ?d = "install_context d"
  have int: "valid_nonnegative_integer v \<Longrightarrow> v = PInt (int_of v)" "positive_capacity v \<Longrightarrow> v = PInt (int_of v)" for v
    by (auto simp: valid_nonnegative_integer_def positive_capacity_def split: pyval.splits)
  have lim: "limits_of tk' ?d = limits_of tk' d" for tk' by (simp add: limits_of_def)
  have tx: "(\<forall>tk' l. limits_of tk' ?d = Some l \<longrightarrow> limits_of tk' e = Some l) \<and> limits_of tk e = Some l0
      \<and> rl_dispatch_limit l0 = a \<and> rl_token_limit l0 = b \<and> rl_capacity l0 = c"
    if run: "configure_limits_tx w tk a b c ?d = Inr (l0, e)" for a b c l0 e
  proof (cases "limits_of tk ?d")
    case None
    with run obtain p where l0: "limits_match tk l0" "rl_dispatch_limit l0 = a" "rl_token_limit l0 = b" "rl_capacity l0 = c"
      and e: "e = add_event ''run_limits_configured'' p (?d\<lparr>db_limits := db_limits ?d @ [l0]\<rparr>)"
      by (auto simp: configure_limits_tx_def Let_def limits_match_def split: if_splits)
    show ?thesis
      using None l0 unfolding e by (simp add: limits_of_def find_append)
  next
    case (Some l)
    with run show ?thesis by (auto simp: configure_limits_tx_def split: if_splits)
  qed
  show ?thesis
  proof (cases "\<not> valid_nonnegative_integer dl \<or> \<not> valid_nonnegative_integer tlim \<or> \<not> positive_capacity cap")
    case True
    then show ?thesis using assms by (auto simp: configure_run_limits_def)
  next
    case False
    then have run: "transaction (configure_limits_tx w tk (int_of dl) (int_of tlim) (int_of cap)) ?d = (r, d')"
      using assms by (simp add: configure_run_limits_def)
    show ?thesis
    proof (cases rule: transaction_cases [of "configure_limits_tx w tk (int_of dl) (int_of tlim) (int_of cap)" ?d])
      case (refused e)
      with run have "r = Inl e" "d' = ?d" by auto
      then show ?thesis using lim by simp
    next
      case (committed x e)
      with run have "r = Inr x" "d' = e" by auto
      then show ?thesis using tx [OF committed(1)] int(1) [of dl] int(1) [of tlim] int(2) [of cap] False lim by auto
    qed
  qed
qed

lemma capacity_of_upsert:
  "capacity_of (tk_repo tk) (tk_run tk) (d\<lparr>db_revisions := rv, db_capacity := upsert_capacity tk n cap (db_capacity d)\<rparr>)
     = Some \<lparr>cc_repo = tk_repo tk, cc_run = tk_run tk, cc_revision = n, cc_capacity = cap\<rparr>"
proof -
  have "List.find (\<lambda>c. cc_repo c = r \<and> cc_run c = q) (update_where (\<lambda>c. cc_repo c = r \<and> cc_run c = q)
      (\<lambda>c. c\<lparr>cc_revision := n, cc_capacity := cap\<rparr>) rows) = Some \<lparr>cc_repo = r, cc_run = q, cc_revision = n, cc_capacity = cap\<rparr>"
    if "list_ex (\<lambda>c. cc_repo c = r \<and> cc_run c = q) rows" for r q and rows :: "current_capacity list"
    using that by (induction rows) auto
  moreover have "List.find P rows = None" if "\<not> list_ex P rows" for P and rows :: "current_capacity list"
    using that by (simp add: find_None_all list_ex_iff)
  ultimately show ?thesis
    by (auto simp: capacity_of_def upsert_capacity_def find_append split: option.splits)
qed

text \<open>A capacity revision is a compare-and-set: a successful call either replays the revision
  recorded under its key, or found exactly the expected revision, and then the policy read back is
  the next revision with the requested capacity. The configured limits never change.\<close>

theorem capacity_compare_and_set:
  assumes "revise_capacity_policy w tk (PInt cap, PInt expected, PStr key) d = (Inr r, d')"
    and "tk_repo tk \<noteq> []" "tk_run tk \<noteq> []"
  shows "cv_capacity r = cap \<and> cv_expected r = expected \<and> cv_key r = key \<and> db_limits d' = db_limits d \<and>
    (r \<in> set (db_revisions d) \<and> db_revisions d' = db_revisions d \<and> db_capacity d' = db_capacity d \<or>
     expected = (case capacity_of (tk_repo tk) (tk_run tk) d of None \<Rightarrow> 0 | Some c \<Rightarrow> cc_revision c)
     \<and> db_revisions d' = db_revisions d @ [r]
     \<and> get_capacity_policy (tk_repo tk) (tk_run tk) d' = Inr (expected + 1, cap))"
proof -
  let ?d = "install_context d"
  have same: "capacity_of p q ?d = capacity_of p q d" "limits_of tk ?d = limits_of tk d" for p q
    by (simp_all add: capacity_of_def limits_of_def)
  from assms(1) have run: "revise_capacity_tx w tk cap expected key ?d = Inr (r, d')"
    by (auto simp: revise_capacity_policy_def own_refuse_def transaction_commit split: if_splits)
  show ?thesis
  proof (cases "List.find (\<lambda>r. cv_repo r = tk_repo tk \<and> cv_run r = tk_run tk \<and> cv_key r = key) (db_revisions ?d)")
    case (Some x)
    with run find_Some_in [OF Some] show ?thesis
      by (auto simp: revise_capacity_tx_def split: if_splits)
  next
    case None
    let ?n = "case capacity_of (tk_repo tk) (tk_run tk) d of None \<Rightarrow> 0 | Some c \<Rightarrow> cc_revision c"
    from None run obtain p l where l: "limits_of tk d = Some l" and n: "?n = expected"
      and r: "r = \<lparr>cv_repo = tk_repo tk, cv_run = tk_run tk, cv_revision = expected + 1, cv_capacity = cap,
                   cv_expected = expected, cv_key = key, cv_generation = tk_generation tk\<rparr>"
      and d': "d' = add_event ''worker_capacity_revised'' p
         (?d\<lparr>db_revisions := db_revisions ?d @ [r], db_capacity := upsert_capacity tk (expected + 1) cap (db_capacity ?d)\<rparr>)"
      by (auto simp: revise_capacity_tx_def Let_def same split: if_splits)
    have cap': "capacity_of (tk_repo tk) (tk_run tk) d' =
        Some \<lparr>cc_repo = tk_repo tk, cc_run = tk_run tk, cc_revision = expected + 1, cc_capacity = cap\<rparr>"
      using capacity_of_upsert [where tk = tk and d = ?d] unfolding d' by (simp add: capacity_of_def)
    have "List.find (\<lambda>l. rl_repo l = tk_repo tk \<and> rl_run l = tk_run tk) (db_limits d') = Some l"
      using l d' by (simp add: limits_of_def limits_match_def [abs_def])
    then have "get_capacity_policy (tk_repo tk) (tk_run tk) d' = Inr (expected + 1, cap)"
      using assms(2,3) cap' d' r by (simp add: get_capacity_policy_def)
    then show ?thesis using n r d' by simp
  qed
qed

section \<open>The fence\<close>

lemma binding_fenced: "assert_owner w tk d = Inl e \<Longrightarrow> assert_activity_binding w tk a d = Inl e"
  by (simp add: assert_activity_binding_def fence_refuse)

text \<open>The contract of an operation whose body refuses a stale token and leaves the owners alone.\<close>

lemma own_frame_tx:
  "(\<And>x d'. body d = Inr (x, d') \<Longrightarrow> db_reservations d' = db_reservations d \<and> db_generation d' = db_generation d) \<Longrightarrow>
     db_reservations (snd (transaction body d)) = db_reservations d \<and> db_generation (snd (transaction body d)) = db_generation d"
  by (cases rule: transaction_cases [of body d]) auto

lemma insert_activity_frame:
  "insert_activity r d = Inr d' \<Longrightarrow> db_reservations d' = db_reservations d \<and> db_generation d' = db_generation d"
  by (auto simp: insert_activity_def)

lemma fenced_by_owner:
  "(\<And>e. assert_owner w tk d = Inl e \<Longrightarrow> \<exists>e'. body d = Inl e') \<Longrightarrow> assert_owner w tk d = Inl e \<Longrightarrow>
     isl (fst (transaction body d)) \<and> snd (transaction body d) = d"
  by (rule transaction_fence) auto

interpretation fenced_limits: fenced_op configure_run_limits
proof
  fix w tk d e i assume "assert_owner w tk d = Inl e"
  then show "isl (fst (configure_run_limits w tk i d)) \<and> schema_ext d (snd (configure_run_limits w tk i d))"
    by (auto simp: configure_run_limits_def configure_limits_tx_def transaction_def fence_def split: prod.splits)
next
  fix w tk i d
  let ?d = "install_context d"
  have "db_reservations d' = db_reservations ?d \<and> db_generation d' = db_generation ?d"
    if "configure_limits_tx w tk a b c ?d = Inr (x, d')" for a b c x d'
    using that by (auto simp: configure_limits_tx_def Let_def split: option.splits if_splits)
  then have "db_reservations (snd (transaction (configure_limits_tx w tk a b c) ?d)) = db_reservations ?d \<and>
      db_generation (snd (transaction (configure_limits_tx w tk a b c) ?d)) = db_generation ?d" for a b c
    by (rule own_frame_tx)
  then show "db_reservations (snd (configure_run_limits w tk i d)) = db_reservations d \<and>
      db_generation (snd (configure_run_limits w tk i d)) = db_generation d"
    by (simp add: configure_run_limits_def split: prod.splits)
qed

interpretation fenced_capacity: fenced_op revise_capacity_policy
proof
  fix w tk d e i assume "assert_owner w tk d = Inl e"
  then show "isl (fst (revise_capacity_policy w tk i d)) \<and> schema_ext d (snd (revise_capacity_policy w tk i d))"
    by (auto simp: revise_capacity_policy_def revise_capacity_tx_def transaction_def fence_def split: prod.splits)
next
  fix w tk i d
  let ?d = "install_context d"
  have "db_reservations d' = db_reservations ?d \<and> db_generation d' = db_generation ?d"
    if "revise_capacity_tx w tk a b c ?d = Inr (x, d')" for a b c x d'
    using that by (auto simp: revise_capacity_tx_def Let_def split: option.splits if_splits)
  then have "db_reservations (snd (transaction (revise_capacity_tx w tk a b c) ?d)) = db_reservations ?d \<and>
      db_generation (snd (transaction (revise_capacity_tx w tk a b c) ?d)) = db_generation ?d" for a b c
    by (rule own_frame_tx)
  then show "db_reservations (snd (revise_capacity_policy w tk i d)) = db_reservations d \<and>
      db_generation (snd (revise_capacity_policy w tk i d)) = db_generation d"
    by (simp add: revise_capacity_policy_def split: prod.splits)
qed

interpretation fenced_create: fenced_op create_activity
proof
  fix w tk d e i assume "assert_owner w tk d = Inl e"
  then show "isl (fst (create_activity w tk i d)) \<and> schema_ext d (snd (create_activity w tk i d))"
    by (auto simp: create_activity_def create_activity_tx_def transaction_def split: prod.splits)
next
  fix w tk i d
  have "db_reservations d' = db_reservations d \<and> db_generation d' = db_generation d"
    if "create_activity_tx w tk k g b key d = Inr (x, d')" for k g b key x d'
    using that insert_activity_frame [of _ d d']
    by (auto simp: create_activity_tx_def Let_def split: option.splits if_splits)
  then show "db_reservations (snd (create_activity w tk i d)) = db_reservations d \<and>
      db_generation (snd (create_activity w tk i d)) = db_generation d"
    using own_frame_tx [of "create_activity_tx w tk _ _ _ _" d] by (auto simp: create_activity_def split: prod.splits)
qed

interpretation fenced_runtime: fenced_op bind_runtime
proof
  fix w tk d e i assume "assert_owner w tk d = Inl e"
  then show "isl (fst (bind_runtime w tk i d)) \<and> schema_ext d (snd (bind_runtime w tk i d))"
    by (auto simp: bind_runtime_def bind_runtime_tx_def transaction_def binding_fenced split: prod.splits)
next
  fix w tk i d
  have "db_reservations d' = db_reservations d \<and> db_generation d' = db_generation d"
    if "bind_runtime_tx w tk a h d = Inr (x, d')" for a h x d'
    using that by (auto simp: bind_runtime_tx_def reread_Inr split: if_splits)
  then show "db_reservations (snd (bind_runtime w tk i d)) = db_reservations d \<and>
      db_generation (snd (bind_runtime w tk i d)) = db_generation d"
    using own_frame_tx [of "bind_runtime_tx w tk _ _" d] by (auto simp: bind_runtime_def split: prod.splits)
qed

interpretation fenced_transition: fenced_op transition_activity
proof
  fix w tk d e t assume "assert_owner w tk d = Inl e"
  then show "isl (fst (transition_activity w tk t d)) \<and> schema_ext d (snd (transition_activity w tk t d))"
    by (simp add: transition_activity_def transition_activity_tx_def transaction_def binding_fenced)
next
  fix w tk t d
  have "db_reservations d' = db_reservations d \<and> db_generation d' = db_generation d"
    if run: "transition_activity_tx w tk t d = Inr (x, d')" for x d'
    by (rule transition_tx_Inr [OF run]) (simp only: add_event_sel update_activity_sel revoke_intents_sel)
  then have "db_reservations (snd (transaction (transition_activity_tx w tk t) d)) = db_reservations d \<and>
      db_generation (snd (transaction (transition_activity_tx w tk t) d)) = db_generation d"
    by (rule own_frame_tx)
  then show "db_reservations (snd (transition_activity w tk t d)) = db_reservations d \<and>
      db_generation (snd (transition_activity w tk t d)) = db_generation d"
    by (simp add: transition_activity_def)
qed

interpretation fenced_select: fenced_op select_activity
proof
  fix w tk d e i assume "assert_owner w tk d = Inl e"
  then show "isl (fst (select_activity w tk i d)) \<and> schema_ext d (snd (select_activity w tk i d))"
    by (auto simp: select_activity_def select_activity_tx_def transaction_def fence_def split: prod.splits)
next
  fix w tk i d
  have "db_reservations d' = db_reservations d \<and> db_generation d' = db_generation d"
    if "select_activity_tx w tk k g r v d = Inr (x, d')" for k g r v x d'
    using that insert_activity_frame [of _ d d'] by (auto simp: select_activity_tx_def Let_def split: if_splits)
  then show "db_reservations (snd (select_activity w tk i d)) = db_reservations d \<and>
      db_generation (snd (select_activity w tk i d)) = db_generation d"
    using own_frame_tx [of "select_activity_tx w tk _ _ _ _" d] by (auto simp: select_activity_def split: prod.splits)
qed

interpretation fenced_event: fenced_op record_event_once
proof
  fix w tk d e i assume "assert_owner w tk d = Inl e"
  then show "isl (fst (record_event_once w tk i d)) \<and> schema_ext d (snd (record_event_once w tk i d))"
    by (auto simp: record_event_once_def transaction_def binding_fenced split: prod.splits)
next
  fix w tk i d
  have "db_reservations d' = db_reservations d \<and> db_generation d' = db_generation d"
    if "record_event_once_tx w tk a k p d = Inr (x, d')" for a k p x d'
    using that by (auto simp: record_event_once_tx_def Let_def split: option.splits if_splits)
  then show "db_reservations (snd (record_event_once w tk i d)) = db_reservations d \<and>
      db_generation (snd (record_event_once w tk i d)) = db_generation d"
    by (auto simp: record_event_once_def split: prod.splits intro!: own_frame_tx [THEN conjunct1] own_frame_tx [THEN conjunct2])
qed

interpretation fenced_debit: fenced_op debit_budget
proof
  fix w tk d e i assume "assert_owner w tk d = Inl e"
  then show "isl (fst (debit_budget w tk i d)) \<and> schema_ext d (snd (debit_budget w tk i d))"
    by (auto simp: debit_budget_def debit_tx_def transaction_def binding_fenced split: prod.splits)
next
  fix w tk i d
  have "db_reservations d' = db_reservations d \<and> db_generation d' = db_generation d"
    if "debit_tx w tk a n k d = Inr (b, d')" for a n k b d'
    using that by (cases rule: debit_tx_cases) auto
  then show "db_reservations (snd (debit_budget w tk i d)) = db_reservations d \<and>
      db_generation (snd (debit_budget w tk i d)) = db_generation d"
    using own_frame_tx [of "debit_tx w tk _ _ _" d] by (auto simp: debit_budget_def split: prod.splits)
qed

section \<open>Witnesses\<close>

text \<open>A database with one created activity, and one where a child hangs below an active parent.\<close>

definition made_activity :: activity where
  "made_activity = \<lparr>ac_id = ''u0'', ac_repo = ''repo'', ac_run = ''run'', ac_kind = ''plan'', ac_input = ''x'',
     ac_revision = 1, ac_state = ''pending'', ac_retry_budget = 2, ac_remaining = 2, ac_runtime = None, ac_result = None,
     ac_request_key = ''k'', ac_generation = 1\<rparr>"

definition made_db :: db where
  "made_db = snd (create_activity sample_world sample_token (PStr ''plan'', PStr ''x'', PInt 2, PStr ''k'') sample_db)"

definition tree_db :: "intent list \<Rightarrow> db" where
  "tree_db xs = sample_db\<lparr>db_activities := [made_activity\<lparr>ac_state := ''active''\<rparr>,
       made_activity\<lparr>ac_id := ''c'', ac_state := ''active'', ac_revision := 2, ac_request_key := ''kc''\<rparr>],
     db_bindings := [\<lparr>cb_activity = ''c'', cb_parent = ''u0'', cb_role = ''worker'', cb_candidate = [], cb_contract = [],
     cb_runtime = [], cb_workspace = [], cb_preparation = None\<rparr>], db_intents := xs\<rparr>"

definition live_intent :: intent where
  "live_intent = \<lparr>in_id = ''i'', in_activity = ''c'', in_ordinal = 1, in_state = ''released_to_execute'', in_generation = 1,
     in_exempt = False, in_child = Some sample_child, in_ack = Some ''k'', in_permit = Some ''p'', in_completion = None,
     in_evidence = None, in_usage = None\<rparr>"

lemma sample_fence:
  "db_reservations d = db_reservations sample_db \<Longrightarrow> db_migration d = None \<Longrightarrow> fence sample_world sample_token d = Inr ()"
  using sample_owner assert_owner_cong [of d sample_db] by (simp add: fence_def assert_migration_epoch_def)

lemma sample_uuid: "w_uuid sample_world 0 = ''u0''"
  by (simp add: sample_world_def nat_str.simps char_of_def bit_0)

lemma made_db_eq: "made_db = sample_db\<lparr>db_activities := [made_activity]\<rparr>"
  using sample_owner sample_uuid
  by (simp add: made_db_def create_activity_def create_activity_tx_def transaction_def insert_activity_def insert_row_def
      new_activity_def next_revision_def made_activity_def nonempty_str_def valid_nonnegative_integer_def hashable_def Let_def)

lemma sample_db_ok: "activities_ok sample_db"
  by (simp add: activities_ok_def)

lemma made_steps: "activity_step\<^sup>*\<^sup>* sample_db made_db"
  unfolding made_db_def using activity_step.create by blast

definition finished_db :: db where
  "finished_db = sample_db\<lparr>db_activities := [made_activity\<lparr>ac_state := ''failed''\<rparr>]\<rparr>"

lemma tree_binding:
  "fence sample_world sample_token (tree_db xs) = Inr ()"
  "activity_of ''c'' (tree_db xs) = Some (made_activity\<lparr>ac_id := ''c'', ac_state := ''active'', ac_revision := 2, ac_request_key := ''kc''\<rparr>)"
  "activity_of ''u0'' (tree_db xs) = Some (made_activity\<lparr>ac_state := ''active''\<rparr>)"
  "db_bindings (tree_db xs) = [\<lparr>cb_activity = ''c'', cb_parent = ''u0'', cb_role = ''worker'', cb_candidate = [], cb_contract = [],
     cb_runtime = [], cb_workspace = [], cb_preparation = None\<rparr>]"
  "db_intents (tree_db xs) = xs" "db_debits (tree_db xs) = []"
  "db_keys (tree_db xs) = []"
  by (rule sample_fence; simp add: tree_db_def) (simp_all add: tree_db_def activity_of_def made_activity_def)

theorem debit_needs_active_ancestors_witness:
  "\<exists>row. activity_of ''u0'' (tree_db []) = Some row \<and> ac_state row = ''active'' \<and>
     (\<exists>b d'. debit_budget sample_world sample_token (''c'', PInt 1, ''k'') (tree_db []) = (Inr b, d'))"
proof -
  have anc: "assert_activity_ancestry sample_token (tree_db []) ''c'' = Inr ()"
    unfolding assert_activity_ancestry_def
    by (subst activity_ancestry.simps, simp add: parent_of_def tree_binding made_activity_def)
      (subst activity_ancestry.simps, simp add: parent_of_def tree_binding)
  have "\<exists>b d'. debit_budget sample_world sample_token (''c'', PInt 1, ''k'') (tree_db []) = (Inr b, d')"
    by (simp add: debit_budget_def transaction_def debit_tx_def assert_activity_binding_def tree_binding anc
        made_activity_def terminal_states_def insert_row_def valid_nonnegative_integer_def Let_def)
  then obtain b d' where run: "debit_budget sample_world sample_token (''c'', PInt 1, ''k'') (tree_db []) = (Inr b, d')"
    by blast
  have "ancestor (tree_db []) ''c'' ''u0''"
    by (rule ancestor.parent) (simp add: parent_of_def tree_binding)
  from debit_needs_active_ancestors [OF run this] run show ?thesis by blast
qed

theorem event_recorded_once_witness:
  "\<exists>n d'. record_event_once sample_world sample_token (''c'', PStr ''k'', PDict []) (tree_db []) = (Inr n, d') \<and>
     record_event_once sample_world sample_token (''c'', PStr ''k'', PDict []) d' = (Inr n, d')"
proof -
  have "\<exists>n d'. record_event_once sample_world sample_token (''c'', PStr ''k'', PDict []) (tree_db []) = (Inr n, d')"
    by (simp add: record_event_once_def transaction_def record_event_once_tx_def assert_activity_binding_def tree_binding
        made_activity_def nonempty_str_def event_key_of_def Let_def)
  then show ?thesis using event_recorded_once by blast
qed

definition finish_parent :: transition where
  "finish_parent = \<lparr>tr_activity = ''u0'', tr_expected = ''active'', tr_new = ''aborted'', tr_result = PNone, tr_reason = PNone\<rparr>"

theorem terminal_revokes_below_witness:
  "\<exists>row d' i. transition_activity sample_world sample_token finish_parent (tree_db [live_intent]) = (Inr row, d')
     \<and> db_intents d' = [i] \<and> in_state i = ''reconcile_required'' \<and> in_permit i = None"
proof -
  have desc: "descendant (tree_db xs) ''u0'' ''c''" for xs
    using descendant.child [OF descendant.self, of _ "tree_db xs"] by (simp add: tree_binding)
  then have rev: "revoked_below (tree_db [live_intent]) ''u0'' = [''i'']"
    by (simp add: revoked_below_def descendants_iff tree_binding live_intent_def active_states_def)
  have found: "activity_of ''u0'' (tree_db [live_intent]) = Some (made_activity\<lparr>ac_state := ''active''\<rparr>)"
    by (rule tree_binding)
  have "\<exists>row d'. transition_activity sample_world sample_token finish_parent (tree_db [live_intent]) = (Inr row, d')
     \<and> db_intents d' = [live_intent\<lparr>in_state := ''reconcile_required'', in_permit := None\<rparr>] \<and> db_bindings d' = db_bindings (tree_db [live_intent])"
    by (simp add: transition_activity_def transaction_def transition_activity_tx_def assert_activity_binding_def
        tree_binding finish_parent_def activity_states_def terminal_states_def rev Let_def made_activity_def)
      (simp add: reread_def revoke_intents_def live_intent_def update_activity_def activity_of_def tree_db_def made_activity_def)
  then obtain row d' where run: "transition_activity sample_world sample_token finish_parent (tree_db [live_intent]) = (Inr row, d')"
    and i: "db_intents d' = [live_intent\<lparr>in_state := ''reconcile_required'', in_permit := None\<rparr>]"
    and b: "db_bindings d' = db_bindings (tree_db [live_intent])" by blast
  have "descendant d' ''u0'' ''c''"
    using descendant.child [OF descendant.self, of _ d'] b by (simp add: tree_binding)
  with terminal_revokes_below [OF run, of "live_intent\<lparr>in_state := ''reconcile_required'', in_permit := None\<rparr>"] run i
  show ?thesis by (auto simp: finish_parent_def terminal_states_def live_intent_def active_states_def)
qed


definition limits_row :: run_limits where
  "limits_row = \<lparr>rl_repo = ''repo'', rl_run = ''run'', rl_dispatch_limit = 2, rl_token_limit = 10, rl_capacity = 3,
     rl_dispatch_used = 0, rl_committed = 0, rl_used = 0, rl_generation = 1\<rparr>"

theorem capacity_compare_and_set_witness:
  "\<exists>r d'. revise_capacity_policy sample_world sample_token (PInt 5, PInt 0, PStr ''k'') (sample_db\<lparr>db_limits := [limits_row]\<rparr>) = (Inr r, d')
     \<and> get_capacity_policy ''repo'' ''run'' d' = Inr (1, 5)"
proof -
  have f: "fence sample_world sample_token (install_context (sample_db\<lparr>db_limits := [limits_row]\<rparr>)) = Inr ()"
    by (rule sample_fence) (simp_all add: install_context_def)
  have l: "limits_of sample_token (install_context (sample_db\<lparr>db_limits := [limits_row]\<rparr>)) = Some limits_row"
    by (simp add: limits_of_def limits_match_def limits_row_def)
  have "\<exists>r d'. revise_capacity_policy sample_world sample_token (PInt 5, PInt 0, PStr ''k'') (sample_db\<lparr>db_limits := [limits_row]\<rparr>) = (Inr r, d')"
    by (simp add: revise_capacity_policy_def revise_capacity_tx_def transaction_def f l positive_capacity_def MAX_INT_def
        valid_nonnegative_integer_def utf8_length_def capacity_of_def Let_def insert_row_def)
  then obtain r d' where run: "revise_capacity_policy sample_world sample_token (PInt 5, PInt 0, PStr ''k'')
      (sample_db\<lparr>db_limits := [limits_row]\<rparr>) = (Inr r, d')" by blast
  from capacity_compare_and_set [OF run] run show ?thesis by auto
qed

theorem run_limits_immutable_witness:
  "limits_of sample_token (snd (configure_run_limits sample_world sample_token (PInt 9, PInt 9, PInt 9)
     (sample_db\<lparr>db_limits := [limits_row]\<rparr>))) = Some limits_row"
proof -
  have "limits_of sample_token (sample_db\<lparr>db_limits := [limits_row]\<rparr>) = Some limits_row"
    by (simp add: limits_of_def limits_match_def limits_row_def)
  then show ?thesis
    using run_limits_immutable [OF surjective_pairing [of "configure_run_limits sample_world sample_token
      (PInt 9, PInt 9, PInt 9) (sample_db\<lparr>db_limits := [limits_row]\<rparr>)"]] by blast
qed

end
