(* ===== verification/Launch.thy ===== *)
theory Launch
  imports Policy_Limits Activity_Safety
begin

text \<open>
  The launch of a child process (\<open>ControlStore\<close>, \<open>lib/run_state/state.py\<close>): the reservation of a
  dispatch, the acknowledgement of the spawned child, the permit that releases it, the recovery of
  an intent whose child may be gone, and the completion that settles its token accounting.
\<close>

section \<open>Intents\<close>

definition MANAGED_WRITER :: string where
  "MANAGED_WRITER = ''ffs-supervisor/1''"

definition update_intent :: "string \<Rightarrow> (intent \<Rightarrow> intent) \<Rightarrow> db \<Rightarrow> db" where
  "update_intent i f d = d\<lparr>db_intents := update_where (\<lambda>x. in_id x = i) f (db_intents d)\<rparr>"

definition accounting_of :: "string \<Rightarrow> db \<Rightarrow> accounting option" where
  "accounting_of i d = List.find (\<lambda>x. la_intent x = i) (db_accounting d)"

definition set_state :: "string \<Rightarrow> intent \<Rightarrow> intent" where
  "set_state st x = x\<lparr>in_state := st\<rparr>"

text \<open>The row read back after an update.\<close>

definition reread_intent :: "string \<Rightarrow> db \<Rightarrow> (intent \<times> db) res" where
  "reread_intent i d = (case intent_of i d of None \<Rightarrow> Inl (TypeError ''NoneType'') | Some r \<Rightarrow> Inr (r, d))"

text \<open>\<open>authority_launch_cohort_members m JOIN authority_launch_cohorts c\<close>.\<close>

definition member_of :: "string \<Rightarrow> db \<Rightarrow> (cohort_member \<times> cohort) option" where
  "member_of i d =
     (case List.find (\<lambda>m. cm_intent m = i) (db_members d) of
        None \<Rightarrow> None
      | Some m \<Rightarrow> map_option (Pair m) (List.find (\<lambda>c. co_id c = cm_cohort m) (db_cohorts d)))"

section \<open>Reserving a launch\<close>

record launch_request =
  lr_tokens :: pyval
  lr_key :: pyval
  lr_payload :: pyval
  lr_receipt :: pyval
  lr_input :: pyval
  lr_local :: pyval
  lr_exempt :: pyval
  lr_action :: pyval

text \<open>
  The checks a caller brings: the admission guard, and the validators of a runtime receipt and of
  a local check receipt, which read the database and the activity.
\<close>

record launch_checks =
  lc_guard :: "db \<Rightarrow> unit res"
  lc_runtime :: "db \<Rightarrow> activity \<Rightarrow> unit res"
  lc_local :: "db \<Rightarrow> activity \<Rightarrow> unit res"

definition digest_argument :: "string \<Rightarrow> pyval \<Rightarrow> unit res" where
  "digest_argument code v =
     (if v \<noteq> PNone \<and> (\<not> valid_digest v \<or> str_of v \<noteq> py_lower (str_of v)) then own_refuse code else Inr ())"

definition is_dict :: "pyval \<Rightarrow> bool" where
  "is_dict v = (case v of PDict _ \<Rightarrow> True | _ \<Rightarrow> False)"

definition launch_inputs :: "launch_request \<Rightarrow> unit res" where
  "launch_inputs q =
     (if \<not> valid_nonnegative_integer (lr_tokens q) then own_refuse ''INVALID_TOKEN_RESERVATION''
      else if lr_key q \<noteq> PNone \<and> \<not> nonempty_str (lr_key q) then own_refuse ''INVALID_REQUEST_KEY''
      else if lr_key q = PNone \<and> lr_payload q \<noteq> PNone then own_refuse ''INVALID_REQUEST_KEY''
      else if lr_key q \<noteq> PNone \<and> lr_payload q \<noteq> PNone \<and> \<not> is_dict (lr_payload q) then own_refuse ''INVALID_REQUEST_KEY''
      else bindR (digest_argument ''RUNTIME_RECEIPT_INVALID'' (lr_receipt q)) (\<lambda>_.
        bindR (digest_argument ''LOCAL_CHECK_RECEIPT_INVALID'' (lr_local q)) (\<lambda>_.
        bindR (digest_argument ''MANAGED_INPUT_MISMATCH'' (lr_input q)) (\<lambda>_.
        if lr_receipt q \<noteq> PNone \<and> lr_local q \<noteq> PNone then own_refuse ''RECEIPT_TRANSPORT_CONFLICT''
        else if lr_receipt q = PNone \<and> lr_local q = PNone \<and> lr_input q \<noteq> PNone then own_refuse ''RUNTIME_RECEIPT_REQUIRED''
        else if (lr_receipt q \<noteq> PNone \<or> lr_local q \<noteq> PNone) \<and> lr_input q = PNone then own_refuse ''MANAGED_INPUT_REQUIRED''
        else if lr_exempt q \<notin> {PBool True, PBool False} then own_refuse ''INVALID_CAPACITY_CLASSIFICATION''
        else if lr_action q \<noteq> PNone \<and> \<not> nonempty_str (lr_action q) then own_refuse ''POLICY_ACTION_REQUIRED''
        else Inr ()))))"

definition str_option :: "pyval \<Rightarrow> string option" where
  "str_option v = (case v of PStr s \<Rightarrow> Some s | _ \<Rightarrow> None)"

definition request_payload :: "launch_request \<Rightarrow> pyval" where
  "request_payload q = (if lr_key q \<noteq> PNone \<and> lr_payload q = PNone then PDict [] else lr_payload q)"

definition request_event_key :: "string \<Rightarrow> string" where
  "request_event_key k = ''dispatch-request:'' @ k"

text \<open>The receipt entries of the recorded data, in the order of the \<open>update\<close> calls.\<close>

definition receipt_entries :: "launch_request \<Rightarrow> (string \<times> pyval) list" where
  "receipt_entries q =
     (if lr_receipt q \<noteq> PNone
      then [(''runtime_receipt_sha256'', lr_receipt q), (''managed_input_sha256'', lr_input q)] else [])
     @ (if lr_local q \<noteq> PNone
      then [(''local_check_receipt_sha256'', lr_local q), (''managed_input_sha256'', lr_input q)] else [])"

definition dispatch_data :: "launch_request \<Rightarrow> string \<Rightarrow> pyval" where
  "dispatch_data q i = PDict ([(''intent_id'', PStr i), (''token_reservation'', lr_tokens q),
      (''request'', request_payload q), (''capacity_exempt'', lr_exempt q)] @ receipt_entries q)"

definition nth_event :: "nat \<Rightarrow> db \<Rightarrow> (string \<times> pyval) option" where
  "nth_event n d = (if 0 < n \<and> n \<le> length (db_events d) then Some (db_events d ! (n - 1)) else None)"

definition exempt_entry :: "pydict \<Rightarrow> pyval" where
  "exempt_entry d = (case map_of d ''capacity_exempt'' of None \<Rightarrow> PBool False | Some v \<Rightarrow> v)"

definition well_formed_dispatch :: "world \<Rightarrow> owner_token \<Rightarrow> string \<Rightarrow> string \<Rightarrow> pydict \<Rightarrow> pyval \<Rightarrow> bool" where
  "well_formed_dispatch w tk a h wrapped data =
     (dict_get wrapped ''run_id'' = PStr (tk_run tk) \<and> dict_get wrapped ''activity_id'' = PStr a
      \<and> w_sha256 w (json_dumps data) = h \<and> is_dict data
      \<and> str_option (dict_get (dict_of data) ''intent_id'') \<noteq> None
      \<and> valid_nonnegative_integer (dict_get (dict_of data) ''token_reservation'')
      \<and> is_dict (dict_get (dict_of data) ''request'')
      \<and> exempt_entry (dict_of data) \<in> {PBool True, PBool False})"

definition same_dispatch :: "launch_request \<Rightarrow> pydict \<Rightarrow> bool" where
  "same_dispatch q data =
     (dict_get data ''token_reservation'' = lr_tokens q \<and> py_eq (dict_get data ''request'') (request_payload q)
      \<and> dict_get data ''runtime_receipt_sha256'' = lr_receipt q
      \<and> dict_get data ''managed_input_sha256'' = lr_input q
      \<and> dict_get data ''local_check_receipt_sha256'' = lr_local q
      \<and> exempt_entry data = lr_exempt q)"

definition request_replay_intent :: "world \<Rightarrow> owner_token \<Rightarrow> string \<Rightarrow> string \<Rightarrow> launch_request \<Rightarrow> db \<Rightarrow> intent option res" where
  "request_replay_intent w tk a key q d =
     (case event_key_of a (request_event_key key) d of
        None \<Rightarrow> Inr None
      | Some b \<Rightarrow>
          (case nth_event (ek_event b) d of
             None \<Rightarrow> own_refuse ''REQUEST_BINDING_UNKNOWN''
           | Some (typ, payload) \<Rightarrow>
               if typ \<noteq> request_event_key key \<or> \<not> is_dict payload
                 \<or> map_of (dict_of payload) ''data'' = None
                 \<or> \<not> well_formed_dispatch w tk a (ek_hash b) (dict_of payload) (dict_get (dict_of payload) ''data'')
               then own_refuse ''REQUEST_BINDING_UNKNOWN''
               else let data = dict_of (dict_get (dict_of payload) ''data'') in
                 if \<not> same_dispatch q data then own_refuse ''IDEMPOTENCY_CONFLICT''
                 else (case List.find (\<lambda>i. in_id i = str_of (dict_get data ''intent_id'') \<and> in_activity i = a) (db_intents d) of
                     None \<Rightarrow> own_refuse ''REQUEST_BINDING_UNKNOWN''
                   | Some i \<Rightarrow>
                       if PBool (in_exempt i) \<noteq> lr_exempt q then own_refuse ''REQUEST_BINDING_UNKNOWN''
                       else (case member_of (in_id i) d of
                           Some (m, c) \<Rightarrow> if co_state c \<noteq> ''released_to_execute''
                             then own_refuse ''COHORT_RECONCILIATION_REQUIRED'' else Inr (Some i)
                         | None \<Rightarrow> Inr (Some i)))))"


text \<open>The run row of the writer version, absent in a store without contexts.\<close>

definition context_of :: "owner_token \<Rightarrow> db \<Rightarrow> context_run option" where
  "context_of tk d = (case db_context d of None \<Rightarrow> None
     | Some rows \<Rightarrow> List.find (\<lambda>r. cr_repo r = tk_repo tk \<and> cr_run r = tk_run tk) rows)"

definition managed_run :: "owner_token \<Rightarrow> db \<Rightarrow> bool" where
  "managed_run tk d = (case context_of tk d of None \<Rightarrow> False | Some r \<Rightarrow> cr_writer r = Some MANAGED_WRITER)"

definition exemption_valid :: "owner_token \<Rightarrow> string \<Rightarrow> launch_request \<Rightarrow> db \<Rightarrow> bool" where
  "exemption_valid tk a q d =
     (case (context_of tk d, parent_of d a, lr_key q) of
        (Some r, Some p, PStr k) \<Rightarrow> managed_run tk d \<and> p = cr_activity r
          \<and> py_startswith k ''managed-host:'' \<and> py_endswith k '':launch'' \<and> a \<in> set (db_receipts d)
      | _ \<Rightarrow> False)"

definition managed_requirements :: "owner_token \<Rightarrow> launch_request \<Rightarrow> db \<Rightarrow> unit res" where
  "managed_requirements tk q d =
     (if \<not> managed_run tk d then Inr ()
      else if lr_key q = PNone then own_refuse ''MANAGED_REQUEST_KEY_REQUIRED''
      else if lr_receipt q = PNone \<and> lr_local q = PNone then own_refuse ''RUNTIME_RECEIPT_REQUIRED''
      else if lr_input q = PNone then own_refuse ''MANAGED_INPUT_REQUIRED'' else Inr ())"

definition incomplete_cohort :: "owner_token \<Rightarrow> db \<Rightarrow> bool" where
  "incomplete_cohort tk d = list_ex (\<lambda>c. co_repo c = tk_repo tk \<and> co_run c = tk_run tk
     \<and> co_state c \<noteq> ''released_to_execute'') (db_cohorts d)"

definition replay_if :: "bool \<Rightarrow> world \<Rightarrow> owner_token \<Rightarrow> string \<Rightarrow> launch_request \<Rightarrow> db \<Rightarrow> intent option res" where
  "replay_if b w tk a q d =
     (if b \<and> lr_key q \<noteq> PNone then request_replay_intent w tk a (str_of (lr_key q)) q d else Inr None)"

definition receipt_check :: "launch_checks \<Rightarrow> launch_request \<Rightarrow> db \<Rightarrow> activity \<Rightarrow> unit res" where
  "receipt_check c q d act =
     (if lr_receipt q \<noteq> PNone then lc_runtime c d act
      else if lr_local q \<noteq> PNone then lc_local c d act else Inr ())"

text \<open>Everything up to the ancestry check: the activity, and the intent of a replayed request.\<close>

definition reserve_gate ::
  "world \<Rightarrow> owner_token \<Rightarrow> string \<Rightarrow> launch_request \<Rightarrow> launch_checks \<Rightarrow> db \<Rightarrow> (activity \<times> intent option) res"
where
  "reserve_gate w tk a q c d =
     bindR (assert_activity_binding w tk a d) (\<lambda>act.
     if lr_exempt q = PBool True \<and> \<not> exemption_valid tk a q d then own_refuse ''CAPACITY_EXEMPTION_INVALID''
     else bindR (managed_requirements tk q d) (\<lambda>_.
     if incomplete_cohort tk d then own_refuse ''COHORT_RECONCILIATION_REQUIRED''
     else bindR (replay_if (managed_run tk d) w tk a q d) (\<lambda>r1.
     case r1 of
       Some i \<Rightarrow> Inr (act, Some i)
     | None \<Rightarrow>
         bindR (lc_guard c d) (\<lambda>_.
         bindR (replay_if (\<not> managed_run tk d) w tk a q d) (\<lambda>r2.
         case r2 of
           Some i \<Rightarrow> Inr (act, Some i)
         | None \<Rightarrow>
             bindR (receipt_check c q d act) (\<lambda>_.
             if ac_state act \<in> set terminal_states then own_refuse ''ACTIVITY_TERMINAL''
             else bindR (assert_activity_ancestry tk d a) (\<lambda>_. Inr (act, None))))))))"

text \<open>The active intent of the activity with the highest ordinal; ordinals are unique.\<close>

definition active_intents :: "string \<Rightarrow> db \<Rightarrow> intent list" where
  "active_intents a d = filter (\<lambda>i. in_activity i = a \<and> in_state i \<in> set active_states) (db_intents d)"

definition existing_intent :: "string \<Rightarrow> db \<Rightarrow> intent option" where
  "existing_intent a d =
     List.find (\<lambda>i. list_all (\<lambda>j. in_ordinal j \<le> in_ordinal i) (active_intents a d)) (active_intents a d)"

definition reuse_intent :: "owner_token \<Rightarrow> int \<Rightarrow> intent \<Rightarrow> db \<Rightarrow> ((intent \<times> bool) \<times> db) res" where
  "reuse_intent tk tokens e d =
     (case accounting_of (in_id e) d of
        None \<Rightarrow>
          if limits_of tk d = None then Inr ((e, True), d)
          else bindR (reread_intent (in_id e) (update_intent (in_id e) (set_state ''reconcile_required'') d))
            (\<lambda>(i, d'). Inr ((i, True), d'))
      | Some acc \<Rightarrow>
          if la_reservation acc \<noteq> tokens then own_refuse ''IDEMPOTENCY_CONFLICT'' else Inr ((e, True), d))"

definition unreconciled :: "owner_token \<Rightarrow> db \<Rightarrow> intent \<Rightarrow> bool" where
  "unreconciled tk d i = (run_intent tk d i \<and>
     (in_state i \<in> set [''reconcile_required'', ''uncertain'']
      \<or> in_state i \<in> set [''reserved'', ''acknowledged''] \<and> in_child i = None
      \<or> in_state i \<in> set [''acknowledged'', ''released_to_execute''] \<and> in_generation i \<noteq> tk_generation tk))"

definition launch_allowance :: "owner_token \<Rightarrow> int \<Rightarrow> db \<Rightarrow> run_limits \<Rightarrow> unit res" where
  "launch_allowance tk tokens d l =
     (if list_ex (unreconciled tk d) (db_intents d) then own_refuse ''INTENT_RECONCILIATION_REQUIRED''
      else if rl_dispatch_used l \<ge> rl_dispatch_limit l then own_refuse ''DISPATCH_LIMIT_EXHAUSTED''
      else if tokens > rl_token_limit l - rl_committed l then own_refuse ''TOKEN_LIMIT_EXHAUSTED''
      else bindR (effective_worker_capacity tk d l) (\<lambda>cap.
        if int (active_capacity_launch_count tk d) \<ge> cap then own_refuse ''WORKER_CAPACITY_EXHAUSTED'' else Inr ()))"

definition next_ordinal :: "string \<Rightarrow> db \<Rightarrow> int" where
  "next_ordinal a d =
     (let os = map in_ordinal (filter (\<lambda>i. in_activity i = a) (db_intents d))
      in (if os = [] then 0 else Max (set os)) + 1)"

definition new_intent :: "owner_token \<Rightarrow> string \<Rightarrow> string \<Rightarrow> bool \<Rightarrow> db \<Rightarrow> intent" where
  "new_intent tk i a exempt d = \<lparr>in_id = i, in_activity = a, in_ordinal = next_ordinal a d,
     in_state = ''reserved'', in_generation = tk_generation tk, in_exempt = exempt, in_child = None,
     in_ack = None, in_permit = None, in_completion = None, in_evidence = None, in_usage = None\<rparr>"

definition intent_clash :: "intent \<Rightarrow> intent \<Rightarrow> bool" where
  "intent_clash r x = (in_id x = in_id r \<or> (in_activity x = in_activity r \<and> in_ordinal x = in_ordinal r))"

definition commit_tokens :: "owner_token \<Rightarrow> int \<Rightarrow> run_limits \<Rightarrow> run_limits" where
  "commit_tokens tk tokens l = l\<lparr>rl_dispatch_used := rl_dispatch_used l + 1,
     rl_committed := rl_committed l + tokens, rl_generation := tk_generation tk\<rparr>"

definition update_limits :: "owner_token \<Rightarrow> (run_limits \<Rightarrow> run_limits) \<Rightarrow> db \<Rightarrow> db" where
  "update_limits tk f d = d\<lparr>db_limits := update_where (limits_match tk) f (db_limits d)\<rparr>"

definition accounting_row :: "owner_token \<Rightarrow> string \<Rightarrow> int \<Rightarrow> accounting" where
  "accounting_row tk i tokens = \<lparr>la_intent = i, la_repo = tk_repo tk, la_run = tk_run tk,
     la_reservation = tokens, la_final = None\<rparr>"

definition policy_input_hash :: "world \<Rightarrow> launch_request \<Rightarrow> string option res" where
  "policy_input_hash w q =
     (let p = request_payload q in
      if p = PNone then Inr None
      else if \<not> json_encodable p then Inl (ValueError ''nan'')
      else Inr (Some (w_sha256 w (json_dumps p))))"

text \<open>The aggregate accounting of a run with limits.\<close>

definition account_launch :: "world \<Rightarrow> owner_token \<Rightarrow> string \<Rightarrow> string \<Rightarrow> launch_request \<Rightarrow> db \<Rightarrow> db res" where
  "account_launch w tk a i q d =
     (let tokens = int_of (lr_tokens q); d1 = update_limits tk (commit_tokens tk tokens) d in
      bindR (insert_row (\<lambda>r x. la_intent x = la_intent r) (accounting_row tk i tokens) (db_accounting d1)) (\<lambda>rows.
      let d2 = d1\<lparr>db_accounting := rows\<rparr> in
      bindR (if \<not> db_policy_installed d2 then Inr d2
             else bindR (policy_input_hash w q) (\<lambda>h.
               policy_bind_launch_tx w tk \<lparr>lb_action = str_option (lr_action q), lb_intent = i,
                 lb_request = str_option (lr_key q), lb_input = h,
                 lb_expected = (if lr_exempt q = PBool True then Some ''managed_outer'' else None)\<rparr> d2)) (\<lambda>d3.
      Inr (add_event ''launch_reserved'' (PDict [(''repository_id'', PStr (tk_repo tk)), (''run_id'', PStr (tk_run tk)),
          (''activity_id'', PStr a), (''data'', PDict ([(''intent_id'', PStr i), (''token_reservation'', lr_tokens q),
             (''capacity_exempt'', lr_exempt q)] @ receipt_entries q))]) d3))))"

definition reserve_write :: "world \<Rightarrow> owner_token \<Rightarrow> string \<Rightarrow> launch_request \<Rightarrow> db \<Rightarrow> (intent \<times> db) res" where
  "reserve_write w tk a q d =
     (let i = w_uuid w 0; row = new_intent tk i a (lr_exempt q = PBool True) d;
          d1 = update_activity a (\<lambda>x. x\<lparr>ac_remaining := ac_remaining x - 1\<rparr>) d in
      bindR (insert_row intent_clash row (db_intents d1)) (\<lambda>rows.
      let d2 = d1\<lparr>db_intents := rows\<rparr> in
      bindR (if limits_of tk d = None then Inr d2 else account_launch w tk a i q d2) (\<lambda>d3.
      bindR (if lr_key q = PNone then Inr d3
             else bindR (record_event_once_tx w tk a (request_event_key (str_of (lr_key q))) (dispatch_data q i) d3)
               (\<lambda>(_, d4). Inr d4)) (\<lambda>d4. Inr (row, d4)))))"

definition reserve_launch_tx ::
  "world \<Rightarrow> owner_token \<Rightarrow> string \<Rightarrow> launch_request \<Rightarrow> launch_checks \<Rightarrow> (intent \<times> bool) tx"
where
  "reserve_launch_tx w tk a q c d =
     bindR (reserve_gate w tk a q c d) (\<lambda>(act, replay).
     case replay of
       Some i \<Rightarrow> Inr ((i, True), d)
     | None \<Rightarrow>
         (case existing_intent a d of
            Some e \<Rightarrow> reuse_intent tk (int_of (lr_tokens q)) e d
          | None \<Rightarrow>
              if ac_runtime act = None then own_refuse ''RUNTIME_REQUIRED''
              else if ac_remaining act \<le> 0 then own_refuse ''BUDGET_EXHAUSTED''
              else bindR (case limits_of tk d of None \<Rightarrow> Inr ()
                  | Some l \<Rightarrow> launch_allowance tk (int_of (lr_tokens q)) d l) (\<lambda>_.
              bindR (reserve_write w tk a q d) (\<lambda>(i, d'). Inr ((i, False), d')))))"

definition reserve_launch ::
  "world \<Rightarrow> owner_token \<Rightarrow> string \<times> launch_request \<times> launch_checks \<Rightarrow> db \<Rightarrow> (intent \<times> bool) res \<times> db"
where
  "reserve_launch w tk args d =
     (case args of (a, q, c) \<Rightarrow>
      case launch_inputs q of
        Inl e \<Rightarrow> (Inl e, d)
      | Inr _ \<Rightarrow> seq_op (preflight_policy_clock w tk PNone PNone d) (\<lambda>_ d'.
          transaction (reserve_launch_tx w tk a q c) d'))"


section \<open>Acknowledging the child\<close>

text \<open>
  \<open>aq_seen\<close> and \<open>aq_seen_member\<close> are the databases the two read transactions saw; other processes
  may have changed the store before the write transaction.
\<close>

record ack_request =
  aq_intent :: string
  aq_identity :: ident
  aq_cohort :: "string option"
  aq_guard :: "db \<Rightarrow> unit res"
  aq_seen :: db
  aq_seen_member :: db

definition activity_state :: "intent \<Rightarrow> db \<Rightarrow> string option" where
  "activity_state i d = map_option ac_state (activity_of (in_activity i) d)"

text \<open>The joint answer of the native and the injected probe, as \<open>acknowledge_child\<close> reads it.\<close>

definition joined_unknown :: "world \<Rightarrow> ident \<Rightarrow> bool" where
  "joined_unknown w x =
     (case w_liveness w of None \<Rightarrow> w_probe w x = UNKNOWN
      | Some probe \<Rightarrow> (case probe x of None \<Rightarrow> True | Some v \<Rightarrow> v = UNKNOWN \<or> w_probe w x = UNKNOWN))"

text \<open>The checks before the write transaction; the acknowledgement already recorded, if any.\<close>

definition ack_observe :: "world \<Rightarrow> ack_request \<Rightarrow> (intent \<times> string) res" where
  "ack_observe w q =
     (case intent_of (aq_intent q) (aq_seen q) of
        None \<Rightarrow> own_refuse ''FENCE_REVOKED''
      | Some obs \<Rightarrow>
          (case activity_state obs (aq_seen q) of
             None \<Rightarrow> own_refuse ''FENCE_REVOKED''
           | Some st \<Rightarrow>
               let member = member_of (aq_intent q) (aq_seen_member q) in
               bindR (case aq_cohort q of
                   None \<Rightarrow> (case member of
                       Some (m, c) \<Rightarrow> if co_state c \<noteq> ''released_to_execute'' then own_refuse ''COHORT_RECONCILIATION_REQUIRED'' else Inr ()
                     | None \<Rightarrow> Inr ())
                 | Some cid \<Rightarrow> (case member of
                       Some (m, c) \<Rightarrow> if cm_cohort m \<noteq> cid then own_refuse ''COHORT_MEMBER_MISMATCH'' else Inr ()
                     | None \<Rightarrow> own_refuse ''COHORT_MEMBER_MISMATCH'')) (\<lambda>_.
               if st \<in> set terminal_states \<and> in_state obs \<noteq> ''released_to_execute'' then own_refuse ''ACTIVITY_TERMINAL''
               else bindR (case in_child obs of
                   None \<Rightarrow> if w_direct_parent w (aq_identity q) (w_self w) \<noteq> LIVE then own_refuse ''CHILD_IDENTITY_MISMATCH'' else Inr ()
                 | Some x \<Rightarrow>
                     if x = aq_identity q then Inr ()
                     else if joined_unknown w x \<or> in_state obs = ''reconcile_required'' then own_refuse ''OWNER_UNKNOWN''
                     else own_refuse ''CHILD_ALREADY_BOUND'') (\<lambda>_.
               Inr (obs, (case in_ack obs of None \<Rightarrow> w_uuid w 0 | Some k \<Rightarrow> if k = [] then w_uuid w 0 else k))))))"

definition bind_child :: "ident \<Rightarrow> string \<Rightarrow> intent \<Rightarrow> intent" where
  "bind_child x k i = i\<lparr>in_state := (if in_state i = ''reserved'' then ''acknowledged'' else in_state i),
     in_child := Some x, in_ack := Some k\<rparr>"

text \<open>The cohort bookkeeping of a member's acknowledgement.\<close>

definition ack_cohort :: "ack_request \<Rightarrow> string \<Rightarrow> db \<Rightarrow> db res" where
  "ack_cohort q k d =
     (case (aq_cohort q, member_of (aq_intent q) d) of
        (Some cid, Some (m, c)) \<Rightarrow>
          if cm_ack m \<notin> {None, Some k} then own_refuse ''CHILD_IDENTITY_MISMATCH''
          else if cm_ack m \<noteq> None \<and> cm_child m \<noteq> Some (aq_identity q) then own_refuse ''CHILD_IDENTITY_MISMATCH''
          else let rows = update_where (\<lambda>x. cm_cohort x = cid \<and> cm_intent x = aq_intent q)
                     (\<lambda>x. x\<lparr>cm_ack := Some k, cm_child := Some (aq_identity q)\<rparr>) (db_members d);
                   remaining = count_where (\<lambda>x. cm_cohort x = cid \<and> cm_ack x = None) rows
            in Inr (d\<lparr>db_members := rows, db_cohorts := update_where (\<lambda>x. co_id x = cid)
                 (\<lambda>x. x\<lparr>co_state := (if remaining = 0 then ''acknowledged'' else ''reserved'')\<rparr>) (db_cohorts d)\<rparr>)
      | _ \<Rightarrow> Inr d)"

definition ack_tx :: "world \<Rightarrow> owner_token \<Rightarrow> ack_request \<Rightarrow> intent \<Rightarrow> string \<Rightarrow> string tx" where
  "ack_tx w tk q obs k d =
     bindR (assert_activity_binding w tk (in_activity obs) d) (\<lambda>act.
     bindR (aq_guard q d) (\<lambda>_.
     case intent_of (aq_intent q) d of
       None \<Rightarrow> own_refuse ''FENCE_REVOKED''
     | Some row \<Rightarrow>
         if aq_cohort q \<noteq> None \<and> (case member_of (aq_intent q) d of
               None \<Rightarrow> True
             | Some (m, c) \<Rightarrow> Some (cm_cohort m) \<noteq> aq_cohort q \<or> co_generation c \<noteq> tk_generation tk
                 \<or> co_state c \<notin> set [''reserved'', ''acknowledged''])
         then own_refuse ''COHORT_RECONCILIATION_REQUIRED''
         else if in_generation row \<noteq> tk_generation tk then own_refuse ''INTENT_RECONCILIATION_REQUIRED''
         else if ac_state act \<in> set terminal_states \<and> in_state row \<noteq> ''released_to_execute'' then own_refuse ''ACTIVITY_TERMINAL''
         else if in_child row \<notin> {None, Some (aq_identity q)} then own_refuse ''CHILD_ALREADY_BOUND''
         else if in_state row = ''reconcile_required'' then own_refuse ''OWNER_UNKNOWN''
         else if in_state row \<notin> set [''reserved'', ''acknowledged'', ''released_to_execute''] then own_refuse ''CHILD_ALREADY_BOUND''
         else bindR (ack_cohort q k (update_intent (aq_intent q) (bind_child (aq_identity q) k) d)) (\<lambda>d'. Inr (k, d'))))"

text \<open>The acknowledgement is its identifier; the caller knows the intent and the child.\<close>

definition acknowledge_child :: "world \<Rightarrow> owner_token \<Rightarrow> ack_request \<Rightarrow> db \<Rightarrow> string res \<times> db" where
  "acknowledge_child w tk q d =
     (case ack_observe w q of
        Inl e \<Rightarrow> (Inl e, d)
      | Inr (obs, k) \<Rightarrow> transaction (ack_tx w tk q obs k) d)"

section \<open>Releasing the child\<close>

record permit_request =
  pq_ack :: string
  pq_intent :: string
  pq_child :: ident
  pq_guard :: "db \<Rightarrow> unit res"
  pq_boot :: pyval
  pq_ns :: pyval

definition launch_clock_key :: "string \<Rightarrow> string" where
  "launch_clock_key i = ''launch-release-clock:'' @ i"

definition record_launch_clock_tx :: "world \<Rightarrow> owner_token \<Rightarrow> string \<Rightarrow> string \<Rightarrow> db \<Rightarrow> db res" where
  "record_launch_clock_tx w tk a i d =
     (if event_key_of a (launch_clock_key i) d \<noteq> None then Inr d
      else bindR (record_event_once_tx w tk a (launch_clock_key i)
        (PDict [(''intent_id'', PStr i), (''boot_id'', PStr (id_boot (w_self w))),
           (''monotonic_ns'', PInt (w_mono_ns w)), (''wall_time_ns'', PInt (w_wall_ns w))]) d) (\<lambda>(_, d'). Inr d'))"

definition release_intent :: "string \<Rightarrow> intent \<Rightarrow> intent" where
  "release_intent p i = i\<lparr>in_state := ''released_to_execute'', in_permit := Some p\<rparr>"

definition activate :: "owner_token \<Rightarrow> activity \<Rightarrow> activity" where
  "activate tk a = a\<lparr>ac_state := ''active'', ac_generation := tk_generation tk\<rparr>"

text \<open>The checks of \<open>authorize_child\<close> on the intent, in the order of the code.\<close>

definition permit_check :: "world \<Rightarrow> owner_token \<Rightarrow> permit_request \<Rightarrow> db \<Rightarrow> intent res" where
  "permit_check w tk q d =
     (case intent_of (pq_intent q) d of
        None \<Rightarrow> own_refuse ''FENCE_REVOKED''
      | Some row \<Rightarrow>
          if activity_of (in_activity row) d = None then own_refuse ''FENCE_REVOKED''
          else if (case member_of (in_id row) d of None \<Rightarrow> False | Some (m, c) \<Rightarrow> co_state c \<noteq> ''released_to_execute'')
          then own_refuse ''COHORT_RELEASE_REQUIRED''
          else bindR (assert_activity_binding w tk (in_activity row) d) (\<lambda>act.
            bindR (pq_guard q d) (\<lambda>_.
            if in_generation row \<noteq> tk_generation tk then own_refuse ''INTENT_RECONCILIATION_REQUIRED''
            else bindR (assert_activity_ancestry tk d (in_activity row)) (\<lambda>_.
            if ac_state act \<notin> set [''pending'', ''active''] then own_refuse ''ACTIVITY_TERMINAL''
            else if in_ack row \<noteq> Some (pq_ack q) \<or> in_child row \<noteq> Some (pq_child q) then own_refuse ''CHILD_IDENTITY_MISMATCH''
            else if in_state row = ''reconcile_required'' then own_refuse ''OWNER_UNKNOWN''
            else if in_state row \<notin> set [''acknowledged'', ''released_to_execute''] then own_refuse ''CHILD_NOT_ACKNOWLEDGED''
            else Inr row))))"

text \<open>A refused clock leaves the transaction normally, so that the recorded uncertainty commits.\<close>

definition authorize_tx :: "world \<Rightarrow> owner_token \<Rightarrow> permit_request \<Rightarrow> string res tx" where
  "authorize_tx w tk q d =
     bindR (permit_check w tk q d) (\<lambda>row.
     bindR (if \<not> db_policy_installed d \<or> budget_of tk d = None then Inr (None, d)
            else policy_authorize_clock_tx w tk 1 (pq_boot q) (pq_ns q) d) (\<lambda>(err, d1).
     case err of
       Some code \<Rightarrow> Inr (own_refuse code, d1)
     | None \<Rightarrow>
         let p = (case in_permit row of None \<Rightarrow> w_uuid w 0 | Some x \<Rightarrow> if x = [] then w_uuid w 0 else x);
             d2 = update_intent (in_id row) (release_intent p) (update_activity (in_activity row) (activate tk) d1)
         in bindR (record_launch_clock_tx w tk (in_activity row) (in_id row) d2) (\<lambda>d3. Inr (Inr p, d3))))"

definition authorize_child :: "world \<Rightarrow> owner_token \<Rightarrow> permit_request \<Rightarrow> db \<Rightarrow> string res \<times> db" where
  "authorize_child w tk q d =
     seq_op (preflight_policy_clock w tk (pq_boot q) (pq_ns q) d) (\<lambda>_ d'.
       seq_op (transaction (authorize_tx w tk q) d') (\<lambda>r d''. (r, d'')))"

section \<open>Recovery\<close>

text \<open>The child's liveness as \<open>recover_intent\<close> combines the native and the injected probe.\<close>

definition combined_status :: "world \<Rightarrow> ident \<Rightarrow> liveness" where
  "combined_status w x =
     (case w_liveness w of
        None \<Rightarrow> w_probe w x
      | Some probe \<Rightarrow>
          (case probe x of
             None \<Rightarrow> UNKNOWN
           | Some v \<Rightarrow>
               if v = UNKNOWN \<or> w_probe w x = UNKNOWN then UNKNOWN
               else if w_probe w x = LIVE then LIVE
               else if v = DEAD then DEAD else UNKNOWN))"

definition recovered_state :: "world \<Rightarrow> owner_token \<Rightarrow> intent \<Rightarrow> string" where
  "recovered_state w tk i =
     (let status = map_option (combined_status w) (in_child i) in
      if in_completion i \<noteq> None then in_state i
      else if in_child i = None \<and> in_state i \<in> set [''reserved'', ''acknowledged''] then ''reconcile_required''
      else if in_state i = ''acknowledged'' then (if status = Some DEAD then ''closed_dead'' else ''reconcile_required'')
      else if in_state i = ''released_to_execute'' then
        (if status \<noteq> Some LIVE \<or> in_generation i \<noteq> tk_generation tk then ''reconcile_required'' else in_state i)
      else if in_child i \<noteq> None then
        (if status = Some DEAD then ''closed_dead'' else if status = Some UNKNOWN then ''reconcile_required'' else in_state i)
      else in_state i)"

definition recover_tx :: "world \<Rightarrow> owner_token \<Rightarrow> string \<Rightarrow> intent \<Rightarrow> intent tx" where
  "recover_tx w tk i row d =
     bindR (assert_activity_binding w tk (in_activity row) d) (\<lambda>_.
     case intent_of i d of
       None \<Rightarrow> own_refuse ''FENCE_REVOKED''
     | Some current \<Rightarrow>
         if current \<noteq> row then own_refuse ''INTENT_RECONCILIATION_REQUIRED''
         else reread_intent i (update_intent i (set_state (recovered_state w tk row)) d))"

text \<open>The second argument is the database the read transaction saw.\<close>

definition recover_intent :: "world \<Rightarrow> owner_token \<Rightarrow> string \<times> db \<Rightarrow> db \<Rightarrow> intent res \<times> db" where
  "recover_intent w tk args d =
     (case args of (i, seen) \<Rightarrow>
      case intent_of i seen of
        None \<Rightarrow> (own_refuse ''FENCE_REVOKED'', d)
      | Some row \<Rightarrow>
          if activity_of (in_activity row) seen = None then (own_refuse ''FENCE_REVOKED'', d)
          else transaction (recover_tx w tk i row) d)"

definition run_owners :: "string \<Rightarrow> int \<Rightarrow> db \<Rightarrow> reservation list" where
  "run_owners key n d = filter (\<lambda>r. rs_type r = ''run'' \<and> rs_key r = key \<and> rs_generation r = n) (db_reservations d)"

text \<open>The launch, its child and its single released owner, if the intent may be closed.\<close>

definition dead_qualification :: "world \<Rightarrow> owner_token \<Rightarrow> string \<Rightarrow> string \<Rightarrow> db \<Rightarrow> (intent \<times> ident \<times> ident) option" where
  "dead_qualification w tk key i d =
     (case intent_of i d of
        None \<Rightarrow> None
      | Some row \<Rightarrow>
          (case (in_child row, run_owners key (in_generation row) d) of
             (Some child, [owner]) \<Rightarrow>
               if i \<notin> set (db_qualified d) \<or> in_generation row \<ge> tk_generation tk \<or> in_completion row \<noteq> None
                 \<or> in_state row \<notin> set [''acknowledged'', ''released_to_execute'', ''reconcile_required''] \<or> rs_held owner
               then None
               else if list_all (\<lambda>x. id_boot x = id_boot (w_self w) \<and> w_probe w x = DEAD) [rs_owner owner, child]
                 \<and> w_group_gone w (id_pid child)
               then Some (row, rs_owner owner, child) else None
           | _ \<Rightarrow> None))"

definition close_dead_tx :: "world \<Rightarrow> owner_token \<Rightarrow> string \<Rightarrow> intent \<times> ident \<times> ident \<Rightarrow> intent tx" where
  "close_dead_tx w tk i found d =
     (case found of (row, owner, child) \<Rightarrow>
      bindR (assert_activity_binding w tk (in_activity row) d) (\<lambda>_.
      if intent_of i d \<noteq> Some row then own_refuse ''INTENT_RECONCILIATION_REQUIRED''
      else reread_intent i (add_event ''qualification_intent_closed_dead''
        (PDict [(''repository_id'', PStr (tk_repo tk)), (''run_id'', PStr (tk_run tk)), (''intent_id'', PStr i),
           (''issuing_generation'', PInt (in_generation row)), (''settling_generation'', PInt (tk_generation tk)),
           (''dead_owner'', ident_json owner), (''dead_child'', ident_json child)])
        (update_intent i (set_state ''closed_dead'') d))))"

definition close_dead_qualification_intent :: "world \<Rightarrow> owner_token \<Rightarrow> string \<times> db \<Rightarrow> db \<Rightarrow> intent res \<times> db" where
  "close_dead_qualification_intent w tk args d =
     (case args of (i, seen) \<Rightarrow>
      if intent_of i seen = None then (own_refuse ''INTENT_RECONCILIATION_REQUIRED'', d)
      else case run_key w tk of
        Inl e \<Rightarrow> (Inl e, d)
      | Inr key \<Rightarrow>
          (case dead_qualification w tk key i seen of
             None \<Rightarrow> (own_refuse ''INTENT_RECONCILIATION_REQUIRED'', d)
           | Some found \<Rightarrow> transaction (close_dead_tx w tk i found) d))"


section \<open>Completion\<close>

record completion_request =
  cq_intent :: string
  cq_status :: string
  cq_evidence :: pyval
  cq_usage :: pyval
  cq_boot :: pyval
  cq_ns :: pyval
  cq_seen :: db

definition terminal_child_status :: "world \<Rightarrow> intent \<Rightarrow> liveness" where
  "terminal_child_status w i =
     (case in_child i of
        None \<Rightarrow> UNKNOWN
      | Some x \<Rightarrow>
          if w_probe w x \<noteq> DEAD then w_probe w x
          else (case w_liveness w of None \<Rightarrow> DEAD | Some probe \<Rightarrow> if probe x = Some DEAD then DEAD else UNKNOWN))"

definition child_json :: "intent \<Rightarrow> pyval" where
  "child_json i = (case in_child i of
      None \<Rightarrow> PDict [(''host_id'', PNone), (''boot_id'', PNone), (''pid'', PNone), (''start_token'', PNone)]
    | Some x \<Rightarrow> ident_json x)"

definition optional_string :: "string option \<Rightarrow> pyval" where
  "optional_string v = (case v of None \<Rightarrow> PNone | Some s \<Rightarrow> PStr s)"

definition monitored_ack_binding :: "intent \<Rightarrow> db \<Rightarrow> bool" where
  "monitored_ack_binding i d =
     (case event_key_of (in_activity i) (''child-ack:'' @ in_id i) d of
        None \<Rightarrow> False
      | Some k \<Rightarrow>
          (case nth_event (ek_event k) d of
             Some (_, PDict payload) \<Rightarrow>
               (case dict_get payload ''data'' of
                  PDict data \<Rightarrow> map_of data ''native'' \<noteq> None
                    \<and> dict_get data ''transport'' = PStr ''supervisor-monitor-v1''
                    \<and> dict_get data ''intent_id'' = PStr (in_id i)
                    \<and> dict_get data ''acknowledgement_id'' = optional_string (in_ack i)
                    \<and> dict_get data ''issuing_generation'' = PInt (in_generation i)
                    \<and> py_eq (dict_get data ''native'') (child_json i)
                | _ \<Rightarrow> False)
           | _ \<Rightarrow> False))"

definition usage_of :: "pyval \<Rightarrow> int option" where
  "usage_of v = (case v of PInt n \<Rightarrow> Some n | _ \<Rightarrow> None)"

definition completion_inputs :: "world \<Rightarrow> completion_request \<Rightarrow> pydict res" where
  "completion_inputs w q =
     (if cq_status q \<notin> set [''succeeded'', ''failed'', ''uncertain''] then own_refuse ''INVALID_COMPLETION''
      else bindR (verified_evidence w (cq_evidence q)) (\<lambda>e.
        if cq_status q = ''uncertain'' then
          (if cq_usage q \<noteq> PNone then own_refuse ''MALFORMED_TELEMETRY'' else Inr e)
        else if \<not> valid_nonnegative_integer (cq_usage q) then own_refuse ''MALFORMED_TELEMETRY'' else Inr e))"

text \<open>The child is probed outside the write transaction, unless a final result was seen.\<close>

definition observe_child :: "world \<Rightarrow> completion_request \<Rightarrow> intent \<Rightarrow> liveness option res" where
  "observe_child w q obs =
     (if in_completion obs \<notin> {None, Some ''uncertain''} then Inr None
      else if cq_status q \<noteq> ''uncertain'' \<and> terminal_child_status w obs \<noteq> DEAD then own_refuse ''CHILD_NOT_TERMINAL''
      else Inr (Some (terminal_child_status w obs)))"

definition completed_state :: "string \<Rightarrow> string" where
  "completed_state st = (if st = ''uncertain'' then ''uncertain'' else ''completed_'' @ st)"

definition complete_intent :: "string \<Rightarrow> string \<Rightarrow> int option \<Rightarrow> intent \<Rightarrow> intent" where
  "complete_intent st enc usage i = i\<lparr>in_state := completed_state st, in_completion := Some st,
     in_evidence := Some enc, in_usage := usage\<rparr>"

definition settle_tokens :: "owner_token \<Rightarrow> int \<Rightarrow> int \<Rightarrow> run_limits \<Rightarrow> run_limits" where
  "settle_tokens tk release usage l = l\<lparr>rl_committed := rl_committed l - release,
     rl_used := rl_used l + usage, rl_generation := tk_generation tk\<rparr>"

text \<open>\<open>UPDATE ... AND token_committed >= ?\<close> must change exactly one row.\<close>

definition settle_limits :: "owner_token \<Rightarrow> int \<Rightarrow> int \<Rightarrow> db \<Rightarrow> db res" where
  "settle_limits tk release usage d =
     (let hit = (\<lambda>l. limits_match tk l \<and> rl_committed l \<ge> release) in
      if count_where hit (db_limits d) \<noteq> 1 then own_refuse ''ACCOUNTING_UNKNOWN''
      else Inr (d\<lparr>db_limits := update_where hit (settle_tokens tk release usage) (db_limits d)\<rparr>))"

text \<open>The guards of \<open>complete_launch\<close>: the accounting row, or the row of a repeated report.\<close>

definition completion_check ::
  "completion_request \<Rightarrow> string \<Rightarrow> intent \<Rightarrow> db \<Rightarrow> accounting option res"
where
  "completion_check q enc row d =
     (case accounting_of (cq_intent q) d of
        None \<Rightarrow> own_refuse ''ACCOUNTING_UNKNOWN''
      | Some acc \<Rightarrow>
          if in_completion row \<noteq> None \<and> (in_completion row \<noteq> Some ''uncertain'' \<or> cq_status q = ''uncertain'') then
            (if in_completion row \<noteq> Some (cq_status q) \<or> in_evidence row \<noteq> Some enc
                \<or> in_usage row \<noteq> usage_of (cq_usage q)
             then own_refuse ''IDEMPOTENCY_CONFLICT'' else Inr None)
          else if in_state row \<notin> set active_states then own_refuse ''INTENT_NOT_ACTIVE''
          else if cq_status q = ''succeeded'' \<and> (in_permit row = None \<or> in_permit row = Some []
              \<or> (in_state row \<noteq> ''released_to_execute'' \<and> in_completion row \<noteq> Some ''uncertain''
                 \<and> \<not> (in_state row = ''reconcile_required'' \<and> monitored_ack_binding row d)))
          then own_refuse ''CHILD_NOT_AUTHORIZED''
          else if cq_status q \<noteq> ''uncertain'' \<and> int_of (cq_usage q) > la_reservation acc
          then own_refuse ''MALFORMED_TELEMETRY''
          else Inr (Some acc))"

definition record_stopped :: "world \<Rightarrow> owner_token \<Rightarrow> intent \<Rightarrow> pyval \<Rightarrow> db \<Rightarrow> db res" where
  "record_stopped w tk row payload d =
     (if event_key_of (in_activity row) (stopped_key (in_id row)) d \<noteq> None then Inr d
      else bindR (record_event_once_tx w tk (in_activity row) (stopped_key (in_id row)) payload d) (\<lambda>(_, d'). Inr d'))"

text \<open>The union clock is advanced when the run has a policy budget; its verdict is not used.\<close>

definition advance_clock :: "world \<Rightarrow> owner_token \<Rightarrow> pyval \<Rightarrow> pyval \<Rightarrow> db \<Rightarrow> db res" where
  "advance_clock w tk boot ns d =
     bindR (policy_sample w 0 boot ns) (\<lambda>(b, m).
       Inr (snd (policy_clock_tx w tk b m (policy_has_productive_work tk d) False d)))"

definition final_usage :: "completion_request \<Rightarrow> int option" where
  "final_usage q = (if cq_status q = ''uncertain'' then None else usage_of (cq_usage q))"

definition set_final :: "int option \<Rightarrow> accounting \<Rightarrow> accounting" where
  "set_final u x = x\<lparr>la_final := u\<rparr>"

definition complete_rows :: "completion_request \<Rightarrow> pydict \<Rightarrow> db \<Rightarrow> db" where
  "complete_rows q e d =
     (update_intent (cq_intent q) (complete_intent (cq_status q) (json_dumps (PDict e)) (final_usage q)) d)
       \<lparr>db_accounting := update_where (\<lambda>x. la_intent x = cq_intent q) (set_final (final_usage q)) (db_accounting d)\<rparr>"

definition complete_write ::
  "world \<Rightarrow> owner_token \<Rightarrow> completion_request \<Rightarrow> pydict \<Rightarrow> liveness option \<Rightarrow> intent \<Rightarrow> accounting \<Rightarrow> db \<Rightarrow> db res"
where
  "complete_write w tk q e terminal row acc d =
     (let d2 = complete_rows q e d in
      bindR (if terminal = Some DEAD then record_stopped w tk row
               (PDict [(''intent_id'', PStr (cq_intent q)), (''evidence'', PDict e), (''identity'', child_json row)]) d2
             else Inr d2) (\<lambda>d3.
      bindR (if \<not> db_policy_installed d3 \<or> budget_of tk d3 = None then Inr d3
             else advance_clock w tk (cq_boot q) (cq_ns q) d3) (\<lambda>d4.
      bindR (case final_usage q of None \<Rightarrow> Inr d4 | Some u \<Rightarrow> settle_limits tk (la_reservation acc - u) u d4) (\<lambda>d5.
      Inr (add_event ''launch_completed'' (PDict [(''repository_id'', PStr (tk_repo tk)), (''run_id'', PStr (tk_run tk)),
        (''activity_id'', PStr (in_activity row)), (''data'', PDict [(''intent_id'', PStr (cq_intent q)),
           (''status'', PStr (cq_status q)), (''settlement_generation'', PInt (tk_generation tk)),
           (''token_usage'', cq_usage q), (''evidence'', PDict e)])]) d5)))))"

definition complete_tx ::
  "world \<Rightarrow> owner_token \<Rightarrow> completion_request \<Rightarrow> pydict \<Rightarrow> liveness option \<Rightarrow> intent \<Rightarrow> (intent \<times> bool) tx"
where
  "complete_tx w tk q e terminal obs d =
     (case intent_of (cq_intent q) d of
        None \<Rightarrow> own_refuse ''FENCE_REVOKED''
      | Some row \<Rightarrow>
          if activity_of (in_activity row) d = None then own_refuse ''FENCE_REVOKED''
          else if in_child row \<noteq> in_child obs then own_refuse ''CHILD_LIVENESS_CHANGED''
          else bindR (assert_activity_binding w tk (in_activity row) d) (\<lambda>_.
            bindR (completion_check q (json_dumps (PDict e)) row d) (\<lambda>r.
            case r of
              None \<Rightarrow> Inr ((row, True), d)
            | Some acc \<Rightarrow> bindR (complete_write w tk q e terminal row acc d) (\<lambda>d'.
                bindR (reread_intent (cq_intent q) d') (\<lambda>(i, d''). Inr ((i, False), d''))))))"

definition complete_launch :: "world \<Rightarrow> owner_token \<Rightarrow> completion_request \<Rightarrow> db \<Rightarrow> (intent \<times> bool) res \<times> db" where
  "complete_launch w tk q d =
     (case completion_inputs w q of
        Inl x \<Rightarrow> (Inl x, d)
      | Inr e \<Rightarrow>
          (case intent_of (cq_intent q) (cq_seen q) of
             None \<Rightarrow> (own_refuse ''FENCE_REVOKED'', d)
           | Some obs \<Rightarrow>
               (case observe_child w q obs of
                  Inl x \<Rightarrow> (Inl x, d)
                | Inr terminal \<Rightarrow> transaction (complete_tx w tk q e terminal obs) d)))"

section \<open>A contained process\<close>

text \<open>\<open>ProcessIdentity(**value)\<close>: exactly the four fields; their types are not checked.\<close>

definition identity_fields :: "pyval \<Rightarrow> pydict option" where
  "identity_fields v = (case v of
      PDict e \<Rightarrow> if dict_has_keys e [''host_id'', ''boot_id'', ''pid'', ''start_token''] then Some e else None
    | _ \<Rightarrow> None)"

definition as_ident :: "pydict \<Rightarrow> ident" where
  "as_ident e = \<lparr>id_host = str_of (dict_get e ''host_id''), id_boot = str_of (dict_get e ''boot_id''),
     id_pid = int_of (dict_get e ''pid''), id_start = str_of (dict_get e ''start_token'')\<rparr>"

definition parse_ident :: "pyval \<Rightarrow> ident res" where
  "parse_ident v = (case identity_fields v of
      None \<Rightarrow> own_refuse ''CONTAINMENT_EVIDENCE_INVALID'' | Some e \<Rightarrow> Inr (as_ident e))"

definition parse_members :: "pyval \<Rightarrow> ident list res" where
  "parse_members v = (case v of PList xs \<Rightarrow> mapR parse_ident xs | PDict [] \<Rightarrow> Inr [] | PStr [] \<Rightarrow> Inr []
     | _ \<Rightarrow> own_refuse ''CONTAINMENT_EVIDENCE_INVALID'')"

definition contained_tx :: "world \<Rightarrow> owner_token \<Rightarrow> string \<Rightarrow> pydict \<Rightarrow> ident \<Rightarrow> unit tx" where
  "contained_tx w tk i report leader d =
     (case intent_of i d of
        None \<Rightarrow> own_refuse ''FENCE_REVOKED''
      | Some row \<Rightarrow>
          bindR (assert_activity_binding w tk (in_activity row) d) (\<lambda>_.
          if in_permit row \<noteq> None \<or> in_child row \<noteq> Some leader then own_refuse ''CONTAINMENT_EVIDENCE_INVALID''
          else bindR (record_stopped w tk row (PDict [(''intent_id'', PStr i), (''containment'', PDict report)]) d) (\<lambda>d1.
            bindR (if \<not> db_policy_installed d1 then Inr d1 else advance_clock w tk PNone PNone d1) (\<lambda>d2. Inr ((), d2)))))"

definition record_contained_process :: "world \<Rightarrow> owner_token \<Rightarrow> string \<times> pydict \<Rightarrow> db \<Rightarrow> unit res \<times> db" where
  "record_contained_process w tk args d =
     (case args of (i, report) \<Rightarrow>
      if dict_get report ''status'' \<noteq> PStr ''terminated'' \<or> truthy (dict_get report ''unverified_members'') then (Inr (), d)
      else case bindR (parse_ident (dict_get report ''leader'')) (\<lambda>l.
             bindR (parse_members (dict_get report ''members'')) (\<lambda>ms. Inr (l, ms))) of
        Inl e \<Rightarrow> (Inl e, d)
      | Inr (l, ms) \<Rightarrow>
          if l \<notin> set ms \<or> list_ex (\<lambda>m. w_probe w m \<noteq> DEAD) ms then (Inr (), d)
          else transaction (contained_tx w tk i report l) d)"

end
