(* ===== verification/Launch_Facts.thy ===== *)
theory Launch_Facts
  imports Launch
begin

text \<open>
  What a successful operation of the theory Launch did to each table, one lemma per operation, and
  the interpretation of the fence contract for the launch interface.
\<close>

section \<open>Events and clocks\<close>

text \<open>The two databases differ in the events and event keys only.\<close>

definition event_frame :: "db \<Rightarrow> db \<Rightarrow> bool" where
  "event_frame d d' = (d' = d\<lparr>db_events := db_events d', db_keys := db_keys d'\<rparr>)"

lemma event_frame_refl [simp]: "event_frame d d"
  by (simp add: event_frame_def)

lemma event_frame_add: "event_frame d (add_event t p d)"
  by (simp add: event_frame_def add_event_def)

lemma event_frameD:
  assumes "event_frame d d'"
  shows "db_intents d' = db_intents d" "db_activities d' = db_activities d" "db_accounting d' = db_accounting d"
    "db_limits d' = db_limits d" "db_debits d' = db_debits d" "db_bindings d' = db_bindings d"
    "db_budgets d' = db_budgets d" "db_reservations d' = db_reservations d" "db_generation d' = db_generation d"
    "db_actions d' = db_actions d" "db_policy_installed d' = db_policy_installed d" "db_migration d' = db_migration d"
  by (subst assms [unfolded event_frame_def], simp)+

lemma record_event_frame: "record_event_once_tx w tk a key p d = Inr (n, d') \<Longrightarrow> event_frame d d'"
  unfolding record_event_once_tx_def Let_def event_frame_def
  by (cases "event_key_of a key d") (auto simp: add_event_def split: if_splits)

lemma record_stopped_frame: "record_stopped w tk row p d = Inr d' \<Longrightarrow> event_frame d d'"
  by (auto simp: record_stopped_def split: if_splits dest: record_event_frame)

lemma launch_clock_frame: "record_launch_clock_tx w tk a i d = Inr d' \<Longrightarrow> event_frame d d'"
  by (auto simp: record_launch_clock_tx_def split: if_splits dest: record_event_frame)

text \<open>The tables the launch invariants speak of.\<close>

definition core_frame :: "db \<Rightarrow> db \<Rightarrow> bool" where
  "core_frame d d' = (db_intents d' = db_intents d \<and> db_activities d' = db_activities d
     \<and> db_accounting d' = db_accounting d \<and> db_limits d' = db_limits d \<and> db_debits d' = db_debits d
     \<and> db_bindings d' = db_bindings d \<and> db_reservations d' = db_reservations d \<and> db_generation d' = db_generation d
     \<and> db_migration d' = db_migration d)"

lemma core_frame_refl [simp]: "core_frame d d"
  by (simp add: core_frame_def)

lemma core_frame_trans: "core_frame d d1 \<Longrightarrow> core_frame d1 d2 \<Longrightarrow> core_frame d d2"
  by (simp add: core_frame_def)

lemma core_of_event: "event_frame d d' \<Longrightarrow> core_frame d d'"
  unfolding core_frame_def by (simp only: event_frameD)

lemma core_of_clock: "clock_frame d d' \<Longrightarrow> core_frame d d'"
  by (simp add: clock_frame_def core_frame_def)

lemma budget_of_event: "event_frame d d' \<Longrightarrow> budget_rel charge_fence d d'"
  by (rule budget_rel_same) (simp_all add: event_frameD)

lemma advance_clock_frame:
  assumes "advance_clock w tk boot ns d = Inr d'"
  shows "core_frame d d' \<and> budget_rel charge_fence d d'"
proof -
  from assms obtain b m where "d' = snd (policy_clock_tx w tk b m (policy_has_productive_work tk d) False d)"
    by (auto simp: advance_clock_def)
  then show ?thesis using core_of_clock [OF policy_clock_frame] clock_rel by simp
qed

lemma preflight_core:
  "core_frame d (snd (preflight_policy_clock w tk boot ns d)) \<and> budget_rel charge_fence d (snd (preflight_policy_clock w tk boot ns d))"
  using preflight_rel core_of_clock by blast

section \<open>Reservation\<close>

lemma update_intent_sel [simp]:
  "db_intents (update_intent i f d) = update_where (\<lambda>x. in_id x = i) f (db_intents d)"
  "db_activities (update_intent i f d) = db_activities d" "db_accounting (update_intent i f d) = db_accounting d"
  "db_limits (update_intent i f d) = db_limits d" "db_debits (update_intent i f d) = db_debits d"
  "db_bindings (update_intent i f d) = db_bindings d" "db_budgets (update_intent i f d) = db_budgets d"
  "db_reservations (update_intent i f d) = db_reservations d" "db_generation (update_intent i f d) = db_generation d"
  "db_actions (update_intent i f d) = db_actions d" "db_policy_installed (update_intent i f d) = db_policy_installed d"
  "db_members (update_intent i f d) = db_members d" "db_cohorts (update_intent i f d) = db_cohorts d"
  "db_migration (update_intent i f d) = db_migration d"
  by (simp_all add: update_intent_def)

lemma update_limits_sel [simp]:
  "db_intents (update_limits tk f d) = db_intents d" "db_limits (update_limits tk f d) = update_where (limits_match tk) f (db_limits d)"
  "db_activities (update_limits tk f d) = db_activities d" "db_accounting (update_limits tk f d) = db_accounting d"
  "db_debits (update_limits tk f d) = db_debits d" "db_bindings (update_limits tk f d) = db_bindings d"
  "db_budgets (update_limits tk f d) = db_budgets d" "db_reservations (update_limits tk f d) = db_reservations d"
  "db_generation (update_limits tk f d) = db_generation d" "db_policy_installed (update_limits tk f d) = db_policy_installed d"
  by (simp_all add: update_limits_def)

lemma intent_of_in: "intent_of i d = Some x \<Longrightarrow> x \<in> set (db_intents d) \<and> in_id x = i"
  unfolding intent_of_def by (drule find_Some_in) simp

lemma reread_intent_Inr: "reread_intent i d = Inr (x, d') \<longleftrightarrow> intent_of i d = Some x \<and> d' = d"
  by (auto simp: reread_intent_def split: option.splits)

lemma find_max_exists:
  assumes "xs \<noteq> []" shows "\<exists>x. List.find (\<lambda>i. list_all (\<lambda>j. (f j :: int) \<le> f i) xs) xs = Some x"
proof -
  have "Max (f ` set xs) \<in> f ` set xs" using assms by (intro Max_in) auto
  then obtain x where x: "x \<in> set xs" "f x = Max (f ` set xs)" by force
  then have "list_all (\<lambda>j. f j \<le> f x) xs" by (auto simp: list_all_iff)
  then show ?thesis using x(1) by (metis (mono_tags, lifting) find_None_all option.exhaust)
qed

lemma no_existing_intent: "existing_intent a d = None \<longleftrightarrow> active_intents a d = []"
  unfolding existing_intent_def using find_max_exists [of "active_intents a d" in_ordinal] by fastforce

lemma existing_intent_in: "existing_intent a d = Some e \<Longrightarrow> e \<in> set (active_intents a d)"
  unfolding existing_intent_def by (drule find_Some_in) simp

lemma reserve_gate_fresh:
  assumes "reserve_gate w tk a q c d = Inr (act, None)"
  shows "assert_activity_binding w tk a d = Inr act \<and> ac_state act \<notin> set terminal_states
     \<and> assert_activity_ancestry tk d a = Inr () \<and> managed_requirements tk q d = Inr () \<and> lc_guard c d = Inr ()
     \<and> receipt_check c q d act = Inr () \<and> \<not> incomplete_cohort tk d"
  using assms by (auto simp: reserve_gate_def split: if_splits option.splits)

lemma replay_in:
  assumes "request_replay_intent w tk a key q d = Inr (Some i)" shows "i \<in> set (db_intents d) \<and> in_activity i = a"
proof -
  from assms obtain k where f: "List.find (\<lambda>i. in_id i = k \<and> in_activity i = a) (db_intents d) = Some i"
    by (auto simp: request_replay_intent_def Let_def split: option.splits if_splits prod.splits)
  show ?thesis using find_Some_in [OF f] by simp
qed

lemma reserve_gate_replay:
  assumes "reserve_gate w tk a q c d = Inr (act, Some i)"
  shows "i \<in> set (db_intents d) \<and> in_activity i = a \<and> assert_activity_binding w tk a d = Inr act"
  using assms by (auto simp: reserve_gate_def replay_if_def split: if_splits option.splits dest: replay_in)

lemma reserve_tx_cases:
  assumes "reserve_launch_tx w tk a q c d = Inr ((i, reused), d')"
  obtains (same) "reused" "d' = d" "i \<in> set (db_intents d)" "in_activity i = a"
  | (unknown) e where "reused" "e \<in> set (active_intents a d)" "intent_of (in_id e) d' = Some i"
      "d' = update_intent (in_id e) (set_state ''reconcile_required'') d"
  | (fresh) act where "\<not> reused" "reserve_gate w tk a q c d = Inr (act, None)" "active_intents a d = []"
      "ac_runtime act \<noteq> None" "0 < ac_remaining act"
      "\<And>l. limits_of tk d = Some l \<Longrightarrow> launch_allowance tk (int_of (lr_tokens q)) d l = Inr ()"
      "reserve_write w tk a q d = Inr (i, d')"
proof -
  from assms obtain act replay where gate: "reserve_gate w tk a q c d = Inr (act, replay)"
    and rest: "(case replay of Some i \<Rightarrow> Inr ((i, True), d) | None \<Rightarrow>
      (case existing_intent a d of
            Some e \<Rightarrow> reuse_intent tk (int_of (lr_tokens q)) e d
          | None \<Rightarrow>
              if ac_runtime act = None then own_refuse ''RUNTIME_REQUIRED''
              else if ac_remaining act \<le> 0 then own_refuse ''BUDGET_EXHAUSTED''
              else bindR (case limits_of tk d of None \<Rightarrow> Inr ()
                  | Some l \<Rightarrow> launch_allowance tk (int_of (lr_tokens q)) d l) (\<lambda>_.
              bindR (reserve_write w tk a q d) (\<lambda>(i, d'). Inr ((i, False), d'))))) = Inr ((i, reused), d')"
    by (auto simp: reserve_launch_tx_def)
  show thesis
  proof (cases replay)
    case (Some r)
    with rest have "reused" "d' = d" "i = r" by auto
    then show thesis using same reserve_gate_replay [of w tk a q c d act r] gate Some by simp
  next
    case None
    show thesis
    proof (cases "existing_intent a d")
      case (Some e)
      then have e: "e \<in> set (active_intents a d)" by (rule existing_intent_in)
      from rest None Some have r: "reuse_intent tk (int_of (lr_tokens q)) e d = Inr ((i, reused), d')" by simp
      show thesis
      proof (cases "accounting_of (in_id e) d = None \<and> limits_of tk d \<noteq> None")
        case True
        with r show thesis by (intro unknown [of e]) (use e in \<open>auto simp: reuse_intent_def reread_intent_Inr\<close>)
      next
        case False
        with r have "reused" "d' = d" "i = e" by (auto simp: reuse_intent_def split: option.splits if_splits)
        then show thesis using e by (intro same) (auto simp: active_intents_def)
      qed
    next
      case none: None
      show thesis
        by (rule fresh [of act])
          (use rest None none gate in \<open>auto simp: no_existing_intent split: if_splits option.splits\<close>)
    qed
  qed
qed


lemma account_launch_Inr:
  assumes "account_launch w tk a i q d = Inr d'"
  shows "db_limits d' = update_where (limits_match tk) (commit_tokens tk (int_of (lr_tokens q))) (db_limits d)
     \<and> (\<forall>x \<in> set (db_accounting d). la_intent x \<noteq> i)
     \<and> db_accounting d' = db_accounting d @ [accounting_row tk i (int_of (lr_tokens q))]
     \<and> db_intents d' = db_intents d \<and> db_activities d' = db_activities d \<and> db_debits d' = db_debits d
     \<and> db_bindings d' = db_bindings d \<and> db_reservations d' = db_reservations d \<and> db_generation d' = db_generation d
     \<and> budget_rel charge_fence d d'"
proof -
  let ?d1 = "update_limits tk (commit_tokens tk (int_of (lr_tokens q))) d"
  let ?d2 = "?d1\<lparr>db_accounting := db_accounting d @ [accounting_row tk i (int_of (lr_tokens q))]\<rparr>"
  from assms obtain d3 p where fresh: "\<forall>x \<in> set (db_accounting d). la_intent x \<noteq> i"
    and d3: "d3 = ?d2 \<or> (\<exists>b. policy_bind_launch_tx w tk b ?d2 = Inr d3)"
    and d': "d' = add_event ''launch_reserved'' p d3"
    by (auto simp: account_launch_def Let_def accounting_row_def split: if_splits)
  have b2: "budget_rel charge_fence d ?d2" by (rule budget_rel_same) simp_all
  have "clock_frame (?d2\<lparr>db_actions := db_actions d3, db_attempts := db_attempts d3\<rparr>) d3 \<and> budget_rel charge_fence ?d2 d3"
    using d3 bind_launch_frame [of w tk _ ?d2 d3] by (auto simp: clock_frame_def budget_rel_same)
  moreover have "budget_rel charge_fence d3 d'"
    unfolding d' by (rule budget_rel_same) simp_all
  ultimately have "budget_rel charge_fence d d'"
    using budget_rel_trans [OF rel_order(4)] b2 by blast
  with \<open>clock_frame _ d3 \<and> _\<close> fresh d' show ?thesis by (simp add: clock_frame_def)
qed

lemma reserve_write_Inr:
  assumes "reserve_write w tk a q d = Inr (i, d')"
  shows "i = new_intent tk (w_uuid w 0) a (lr_exempt q = PBool True) d
     \<and> (\<forall>x \<in> set (db_intents d). \<not> intent_clash i x) \<and> db_intents d' = db_intents d @ [i]
     \<and> db_activities d' = update_where (\<lambda>x. ac_id x = a) (\<lambda>x. x\<lparr>ac_remaining := ac_remaining x - 1\<rparr>) (db_activities d)
     \<and> db_debits d' = db_debits d \<and> db_bindings d' = db_bindings d
     \<and> db_reservations d' = db_reservations d \<and> db_generation d' = db_generation d \<and> budget_rel charge_fence d d'
     \<and> (case limits_of tk d of
          None \<Rightarrow> db_limits d' = db_limits d \<and> db_accounting d' = db_accounting d
        | Some l \<Rightarrow> db_limits d' = update_where (limits_match tk) (commit_tokens tk (int_of (lr_tokens q))) (db_limits d)
            \<and> (\<forall>x \<in> set (db_accounting d). la_intent x \<noteq> in_id i)
            \<and> db_accounting d' = db_accounting d @ [accounting_row tk (in_id i) (int_of (lr_tokens q))])"
proof -
  define n where "n = new_intent tk (w_uuid w 0) a (lr_exempt q = PBool True) d"
  define d2 where "d2 = (update_activity a (\<lambda>x. x\<lparr>ac_remaining := ac_remaining x - 1\<rparr>) d)\<lparr>db_intents := db_intents d @ [n]\<rparr>"
  from assms obtain d3 where i: "i = n" and fresh: "\<forall>x \<in> set (db_intents d). \<not> intent_clash n x"
    and d3: "(if limits_of tk d = None then Inr d2 else account_launch w tk a (w_uuid w 0) q d2) = Inr d3"
    and d': "d' = d3 \<or> (\<exists>k p m. record_event_once_tx w tk a k p d3 = Inr (m, d'))"
    by (auto simp: reserve_write_def Let_def n_def d2_def split: if_splits)
  have nid: "in_id n = w_uuid w 0" by (simp add: n_def new_intent_def)
  have ev: "event_frame d3 d'" using d' record_event_frame by auto
  have d2: "db_intents d2 = db_intents d @ [n]"
      "db_activities d2 = update_where (\<lambda>x. ac_id x = a) (\<lambda>x. x\<lparr>ac_remaining := ac_remaining x - 1\<rparr>) (db_activities d)"
      "db_debits d2 = db_debits d" "db_bindings d2 = db_bindings d" "db_reservations d2 = db_reservations d"
      "db_generation d2 = db_generation d" "db_limits d2 = db_limits d" "db_accounting d2 = db_accounting d"
    by (simp_all add: d2_def)
  have b2: "budget_rel charge_fence d d2" by (rule budget_rel_same) (simp_all add: d2_def)
  show ?thesis
  proof (cases "limits_of tk d")
    case None
    then have "d3 = d2" using d3 by simp
    then show ?thesis
      using None i fresh d2 b2 ev budget_rel_trans [OF rel_order(4) b2 budget_of_event [of d2 d']]
      unfolding n_def [symmetric] by (simp add: event_frameD)
  next
    case (Some l)
    then have acc: "account_launch w tk a (w_uuid w 0) q d2 = Inr d3" using d3 by simp
    note f = account_launch_Inr [OF acc]
    have "budget_rel charge_fence d d'"
      using f b2 budget_of_event [OF ev] budget_rel_trans [OF rel_order(4)] by blast
    then show ?thesis
      using Some f i fresh d2 nid unfolding n_def [symmetric] by (simp add: event_frameD [OF ev])
  qed
qed

section \<open>Acknowledgement, permit and recovery\<close>

lemma ack_cohort_frame: "ack_cohort q k d = Inr d' \<Longrightarrow> core_frame d d' \<and> db_budgets d' = db_budgets d"
  by (auto simp: ack_cohort_def core_frame_def Let_def split: option.splits if_splits)

lemma ack_tx_Inr:
  assumes "ack_tx w tk q obs k d = Inr (r, d')"
  obtains row act where "assert_activity_binding w tk (in_activity obs) d = Inr act"
    "intent_of (aq_intent q) d = Some row" "in_generation row = tk_generation tk"
    "in_child row \<in> {None, Some (aq_identity q)}"
    "in_state row \<in> {''reserved'', ''acknowledged'', ''released_to_execute''}" "r = k"
    "ac_state act \<in> set terminal_states \<longrightarrow> in_state row = ''released_to_execute''"
    "core_frame (update_intent (aq_intent q) (bind_child (aq_identity q) k) d) d'" "db_budgets d' = db_budgets d"
proof -
  from assms obtain act row where 1: "assert_activity_binding w tk (in_activity obs) d = Inr act"
    "intent_of (aq_intent q) d = Some row" "in_generation row = tk_generation tk"
    "in_child row \<in> {None, Some (aq_identity q)}"
    "in_state row \<in> set [''reserved'', ''acknowledged'', ''released_to_execute'']"
    "ac_state act \<in> set terminal_states \<longrightarrow> in_state row = ''released_to_execute''"
    and 2: "r = k" "ack_cohort q k (update_intent (aq_intent q) (bind_child (aq_identity q) k) d) = Inr d'"
    unfolding ack_tx_def bindR_eq_Inr case_option_refuse raise_if_Inr own_refuse_def
    by (elim exE conjE) (simp split: if_splits)
  from ack_cohort_frame [OF 2(2)] 1 2(1) show thesis by (intro that [of act row]) simp_all
qed

lemma permit_check_Inr:
  assumes "permit_check w tk q d = Inr row"
  shows "intent_of (pq_intent q) d = Some row \<and> in_ack row = Some (pq_ack q) \<and> in_child row = Some (pq_child q)
     \<and> in_generation row = tk_generation tk \<and> in_state row \<in> {''acknowledged'', ''released_to_execute''}
     \<and> assert_activity_ancestry tk d (in_activity row) = Inr ()
     \<and> (\<exists>act. assert_activity_binding w tk (in_activity row) d = Inr act \<and> ac_state act \<in> {''pending'', ''active''})"
proof -
  from assms obtain act where "intent_of (pq_intent q) d = Some row" "assert_activity_binding w tk (in_activity row) d = Inr act"
    "assert_activity_ancestry tk d (in_activity row) = Inr ()" "in_generation row = tk_generation tk"
    "ac_state act \<in> set [''pending'', ''active'']" "in_ack row = Some (pq_ack q)" "in_child row = Some (pq_child q)"
    "in_state row \<in> set [''acknowledged'', ''released_to_execute'']"
    unfolding permit_check_def bindR_eq_Inr case_option_refuse own_refuse_def
    by (elim exE conjE) (simp split: if_splits, elim exE conjE, simp split: if_splits)
  then show ?thesis by simp
qed

lemma authorize_tx_cases:
  assumes "authorize_tx w tk q d = Inr (r, d')"
  obtains (refused) code where "r = own_refuse code" "core_frame d d'" "budget_rel charge_fence d d'"
      "db_policy_installed d" "budget_of tk d \<noteq> None"
  | (released) row p d1 where "r = Inr p" "permit_check w tk q d = Inr row" "core_frame d d1"
      "budget_rel charge_fence d d1"
      "event_frame (update_intent (in_id row) (release_intent p) (update_activity (in_activity row) (activate tk) d1)) d'"
      "\<forall>k. in_permit row = Some k \<and> k \<noteq> [] \<longrightarrow> p = k"
proof -
  from assms obtain row err d1 where row: "permit_check w tk q d = Inr row"
    and clk: "(if \<not> db_policy_installed d \<or> budget_of tk d = None then Inr (None, d)
            else policy_authorize_clock_tx w tk 1 (pq_boot q) (pq_ns q) d) = Inr (err, d1)"
    and rest: "(case err of Some code \<Rightarrow> Inr (own_refuse code, d1)
     | None \<Rightarrow>
         let p = (case in_permit row of None \<Rightarrow> w_uuid w 0 | Some x \<Rightarrow> if x = [] then w_uuid w 0 else x);
             d2 = update_intent (in_id row) (release_intent p) (update_activity (in_activity row) (activate tk) d1)
         in bindR (record_launch_clock_tx w tk (in_activity row) (in_id row) d2) (\<lambda>d3. Inr (Inr p, d3))) = Inr (r, d')"
    by (auto simp: authorize_tx_def)
  have f: "core_frame d d1 \<and> budget_rel charge_fence d d1"
    using clk authorize_rel [of w tk 1 "pq_boot q" "pq_ns q" d err d1]
    by (auto simp: budget_rel_same core_of_clock split: if_splits)
  show thesis
  proof (cases err)
    case None
    with rest row f show thesis by (auto simp: Let_def intro: released launch_clock_frame)
  next
    case (Some code)
    with rest clk f show thesis by (intro refused) (auto split: if_splits)
  qed
qed

lemma recover_tx_Inr:
  assumes "recover_tx w tk i row d = Inr (r, d')"
  shows "intent_of i d = Some row \<and> intent_of i d' = Some r
     \<and> d' = update_intent i (set_state (recovered_state w tk row)) d
     \<and> (\<exists>act. assert_activity_binding w tk (in_activity row) d = Inr act)"
  using assms by (auto simp: recover_tx_def reread_intent_Inr split: if_splits)

lemma close_dead_tx_Inr:
  assumes "close_dead_tx w tk i (row, owner, child) d = Inr (r, d')"
  shows "intent_of i d = Some row \<and> intent_of i d' = Some r
     \<and> (\<exists>p. d' = add_event ''qualification_intent_closed_dead'' p (update_intent i (set_state ''closed_dead'') d))
     \<and> (\<exists>act. assert_activity_binding w tk (in_activity row) d = Inr act)"
  using assms by (auto simp: close_dead_tx_def reread_intent_Inr split: if_splits)

lemma dead_qualification_Some:
  assumes "dead_qualification w tk key i d = Some (row, owner, child)"
  shows "intent_of i d = Some row \<and> in_child row = Some child \<and> in_completion row = None
     \<and> in_generation row < tk_generation tk \<and> w_probe w child = DEAD \<and> w_probe w owner = DEAD
     \<and> w_group_gone w (id_pid child) \<and> i \<in> set (db_qualified d)"
  using assms by (auto simp: dead_qualification_def split: option.splits list.splits if_splits)


section \<open>Completion\<close>

lemma settle_limits_Inr:
  "settle_limits tk release u d = Inr d' \<longleftrightarrow>
     count_where (\<lambda>l. limits_match tk l \<and> rl_committed l \<ge> release) (db_limits d) = 1
     \<and> d' = d\<lparr>db_limits := update_where (\<lambda>l. limits_match tk l \<and> rl_committed l \<ge> release) (settle_tokens tk release u) (db_limits d)\<rparr>"
  by (auto simp: settle_limits_def Let_def)

lemma complete_write_Inr:
  assumes "complete_write w tk q e terminal row acc d = Inr d'"
  shows "db_intents d' = update_where (\<lambda>x. in_id x = cq_intent q)
        (complete_intent (cq_status q) (json_dumps (PDict e)) (final_usage q)) (db_intents d)
     \<and> db_accounting d' = update_where (\<lambda>x. la_intent x = cq_intent q) (set_final (final_usage q)) (db_accounting d)
     \<and> (case final_usage q of None \<Rightarrow> db_limits d' = db_limits d
        | Some u \<Rightarrow> count_where (\<lambda>l. limits_match tk l \<and> rl_committed l \<ge> la_reservation acc - u) (db_limits d) = 1
            \<and> db_limits d' = update_where (\<lambda>l. limits_match tk l \<and> rl_committed l \<ge> la_reservation acc - u)
                (settle_tokens tk (la_reservation acc - u) u) (db_limits d))
     \<and> db_activities d' = db_activities d \<and> db_debits d' = db_debits d \<and> db_bindings d' = db_bindings d
     \<and> db_reservations d' = db_reservations d \<and> db_generation d' = db_generation d \<and> db_migration d' = db_migration d
     \<and> budget_rel charge_fence d d'"
proof -
  define d2 where "d2 = complete_rows q e d"
  from assms obtain d3 d4 d5 p where
    d3: "(if terminal = Some DEAD then record_stopped w tk row
               (PDict [(''intent_id'', PStr (cq_intent q)), (''evidence'', PDict e), (''identity'', child_json row)]) d2
             else Inr d2) = Inr d3"
    and d4: "(if \<not> db_policy_installed d3 \<or> budget_of tk d3 = None then Inr d3
             else advance_clock w tk (cq_boot q) (cq_ns q) d3) = Inr d4"
    and d5: "(case final_usage q of None \<Rightarrow> Inr d4 | Some u \<Rightarrow> settle_limits tk (la_reservation acc - u) u d4) = Inr d5"
    and d': "d' = add_event ''launch_completed'' p d5"
    unfolding complete_write_def Let_def bindR_eq_Inr d2_def by blast
  have f3: "core_frame d2 d3 \<and> budget_rel charge_fence d2 d3"
    using d3 record_stopped_frame core_of_event budget_of_event by (auto simp: budget_rel_same split: if_splits)
  have f4: "core_frame d3 d4 \<and> budget_rel charge_fence d3 d4"
    using d4 advance_clock_frame [of w tk "cq_boot q" "cq_ns q" d3 d4] by (auto simp: budget_rel_same split: if_splits)
  have f5: "db_budgets d5 = db_budgets d4"
    using d5 by (auto simp: settle_limits_Inr split: option.splits)
  have "budget_rel charge_fence d d2" by (rule budget_rel_same) (simp_all add: d2_def complete_rows_def)
  then have "budget_rel charge_fence d d4" using f3 f4 budget_rel_trans [OF rel_order(4)] by blast
  moreover have "budget_rel charge_fence d4 d'"
    using f5 d' by (intro budget_rel_same) simp_all
  ultimately have b: "budget_rel charge_fence d d'" using budget_rel_trans [OF rel_order(4)] by blast
  have c: "core_frame d2 d4" using f3 f4 core_frame_trans by blast
  show ?thesis
  proof (cases "final_usage q")
    case None
    then have "d5 = d4" using d5 by simp
    then show ?thesis using None b c d' by (simp add: core_frame_def d2_def complete_rows_def)
  next
    case (Some u)
    then have "settle_limits tk (la_reservation acc - u) u d4 = Inr d5" using d5 by simp
    then show ?thesis using Some b c d' by (simp add: settle_limits_Inr core_frame_def d2_def complete_rows_def)
  qed
qed

lemma accounting_of_in: "accounting_of i d = Some x \<Longrightarrow> x \<in> set (db_accounting d) \<and> la_intent x = i"
  unfolding accounting_of_def by (drule find_Some_in) simp

lemma completion_check_None:
  "completion_check q enc row d = Inr None \<Longrightarrow> in_completion row = Some (cq_status q) \<and> in_evidence row = Some enc
        \<and> in_usage row = usage_of (cq_usage q)"
  unfolding completion_check_def case_option_refuse by (elim exE conjE) (simp split: if_split_asm)

lemma completion_check_Some:
  "completion_check q enc row d = Inr (Some acc) \<Longrightarrow> accounting_of (cq_intent q) d = Some acc
     \<and> \<not> (in_completion row \<noteq> None \<and> (in_completion row \<noteq> Some ''uncertain'' \<or> cq_status q = ''uncertain''))
     \<and> in_state row \<in> set active_states \<and> (cq_status q = ''succeeded'' \<longrightarrow> in_permit row \<noteq> None)
     \<and> (cq_status q \<noteq> ''uncertain'' \<longrightarrow> int_of (cq_usage q) \<le> la_reservation acc)"
  unfolding completion_check_def case_option_refuse by (elim exE conjE) (auto split: if_split_asm)

lemma complete_tx_cases:
  assumes "complete_tx w tk q e terminal obs d = Inr ((i, reused), d')"
  obtains (replay) "reused" "d' = d" "intent_of (cq_intent q) d = Some i" "in_completion i = Some (cq_status q)"
      "in_evidence i = Some (json_dumps (PDict e))" "in_usage i = usage_of (cq_usage q)"
  | (settled) row acc act where "\<not> reused" "intent_of (cq_intent q) d = Some row"
      "assert_activity_binding w tk (in_activity row) d = Inr act" "in_child row = in_child obs"
      "accounting_of (cq_intent q) d = Some acc" "in_completion row \<in> {None, Some ''uncertain''}"
      "in_completion row = Some ''uncertain'' \<longrightarrow> cq_status q \<noteq> ''uncertain''" "in_state row \<in> set active_states"
      "cq_status q = ''succeeded'' \<longrightarrow> in_permit row \<noteq> None"
      "cq_status q \<noteq> ''uncertain'' \<longrightarrow> int_of (cq_usage q) \<le> la_reservation acc"
      "complete_write w tk q e terminal row acc d = Inr d'" "intent_of (cq_intent q) d' = Some i"
proof -
  from assms obtain row act r where 1: "intent_of (cq_intent q) d = Some row"
    "assert_activity_binding w tk (in_activity row) d = Inr act" "in_child row = in_child obs"
    and chk: "completion_check q (json_dumps (PDict e)) row d = Inr r"
    and rest: "(case r of None \<Rightarrow> Inr ((row, True), d)
            | Some acc \<Rightarrow> bindR (complete_write w tk q e terminal row acc d) (\<lambda>d'.
                bindR (reread_intent (cq_intent q) d') (\<lambda>(i, d''). Inr ((i, False), d'')))) = Inr ((i, reused), d')"
    by (auto simp: complete_tx_def split: if_splits)
  show thesis
  proof (cases r)
    case None
    from chk None have "in_completion row = Some (cq_status q) \<and> in_evidence row = Some (json_dumps (PDict e))
        \<and> in_usage row = usage_of (cq_usage q)"
      by (simp only: completion_check_None)
    moreover from None rest have "reused" "d' = d" "i = row" by auto
    ultimately show thesis using 1 by (intro replay) simp_all
  next
    case (Some acc)
    with chk have chk': "completion_check q (json_dumps (PDict e)) row d = Inr (Some acc)" by simp
    note c = completion_check_Some [OF this]
    from Some rest obtain d1 where d1: "complete_write w tk q e terminal row acc d = Inr d1"
      "intent_of (cq_intent q) d1 = Some i" "d' = d1" "\<not> reused"
      by (auto simp: reread_intent_Inr)
    show thesis
      by (rule settled [of row act acc]) (use 1 c d1 in auto)
  qed
qed

lemma completion_inputs_Inr:
  assumes "completion_inputs w q = Inr e"
  shows "cq_status q \<in> {''succeeded'', ''failed'', ''uncertain''} \<and> verified_evidence w (cq_evidence q) = Inr e
     \<and> (if cq_status q = ''uncertain'' then cq_usage q = PNone else \<exists>u. cq_usage q = PInt u \<and> 0 \<le> u)"
proof -
  have int: "valid_nonnegative_integer v \<Longrightarrow> \<exists>u. v = PInt u \<and> 0 \<le> u" for v
    by (auto simp: valid_nonnegative_integer_def split: pyval.splits)
  from assms have st: "cq_status q \<in> set [''succeeded'', ''failed'', ''uncertain'']"
    and ev: "verified_evidence w (cq_evidence q) = Inr e"
    and u: "if cq_status q = ''uncertain'' then cq_usage q = PNone else valid_nonnegative_integer (cq_usage q)"
    unfolding completion_inputs_def raise_if_Inr own_refuse_def by (auto split: if_split_asm)
  show ?thesis using st ev u int by (auto split: if_splits)
qed


section \<open>The fence\<close>

lemma tx_fenced:
  "(\<And>e. assert_owner w tk d = Inl e \<Longrightarrow> \<exists>e'. body d = Inl e') \<Longrightarrow> assert_owner w tk d = Inl e \<Longrightarrow>
     isl (fst (transaction body d)) \<and> schema_ext d (snd (transaction body d))"
  using transaction_fence [of w tk d e body] by auto

lemma refused_body: "(\<And>x d'. body d \<noteq> Inr (x, d')) \<Longrightarrow> \<exists>e'. body d = Inl e'"
  by (cases "body d") auto

lemma core_own: "core_frame d d' \<Longrightarrow> db_reservations d' = db_reservations d \<and> db_generation d' = db_generation d"
  by (simp add: core_frame_def)

lemma binding_owner: "assert_activity_binding w tk a d = Inr r \<Longrightarrow> assert_owner w tk d = Inr ()"
  by (simp add: assert_binding_Inr fence_owner)

text \<open>A refusing preflight stops the operation; one that passed read the current owner.\<close>

lemma preflight_then_fenced:
  assumes "assert_owner w tk d = Inl e" and "\<And>d1 e. assert_owner w tk d1 = Inl e \<Longrightarrow> isl (fst (k () d1)) \<and> snd (k () d1) = d1"
  shows "isl (fst (seq_op (preflight_policy_clock w tk b n d) k)) \<and> schema_ext d (snd (seq_op (preflight_policy_clock w tk b n d) k))"
proof (cases "\<not> db_policy_installed d \<or> budget_of tk d = None")
  case True
  then show ?thesis using assms(2) [OF assms(1)] by (simp add: preflight_policy_clock_def)
next
  case False
  have "isl (fst (preflight_policy_clock w tk b n d)) \<and> snd (preflight_policy_clock w tk b n d) = d"
    using assms(1) False by (simp add: preflight_policy_clock_def preflight_tx_def transaction_def)
  then show ?thesis by (rule seq_op_refused_ext)
qed

lemma seq_core_own:
  assumes "core_frame d (snd r)" and "\<And>x d1. r = (Inr x, d1) \<Longrightarrow> db_reservations (snd (k x d1)) = db_reservations d1 \<and> db_generation (snd (k x d1)) = db_generation d1"
  shows "db_reservations (snd (seq_op r k)) = db_reservations d \<and> db_generation (snd (seq_op r k)) = db_generation d"
  using assms by (cases r; cases "fst r") (auto simp: core_frame_def)

lemma reserve_tx_own:
  assumes "reserve_launch_tx w tk a q c d = Inr (x, d')"
  shows "db_reservations d' = db_reservations d \<and> db_generation d' = db_generation d"
proof (cases x)
  case (Pair i reused)
  with assms have "reserve_launch_tx w tk a q c d = Inr ((i, reused), d')" by simp
  then show ?thesis
  proof (cases rule: reserve_tx_cases)
    case (fresh act) then show ?thesis using reserve_write_Inr by blast
  qed auto
qed

interpretation fenced_reserve: fenced_op reserve_launch
proof
  fix w tk d e and args :: "string \<times> launch_request \<times> launch_checks"
  assume own: "assert_owner w tk d = Inl e"
  obtain a q c where args: "args = (a, q, c)" by (cases args)
  have "\<exists>e'. reserve_launch_tx w tk a q c d1 = Inl e'" if "assert_owner w tk d1 = Inl e1" for d1 e1
    using that by (simp add: reserve_launch_tx_def reserve_gate_def binding_fenced)
  then have "isl (fst (seq_op (preflight_policy_clock w tk PNone PNone d) (\<lambda>_ d'. transaction (reserve_launch_tx w tk a q c) d')))
      \<and> schema_ext d (snd (seq_op (preflight_policy_clock w tk PNone PNone d) (\<lambda>_ d'. transaction (reserve_launch_tx w tk a q c) d')))"
    by (intro preflight_then_fenced [OF own] transaction_fence) auto
  then show "isl (fst (reserve_launch w tk args d)) \<and> schema_ext d (snd (reserve_launch w tk args d))"
    by (auto simp: args reserve_launch_def split: sum.splits)
next
  fix w tk d and args :: "string \<times> launch_request \<times> launch_checks"
  obtain a q c where args: "args = (a, q, c)" by (cases args)
  have tx: "db_reservations (snd (transaction (reserve_launch_tx w tk a q c) d1)) = db_reservations d1
      \<and> db_generation (snd (transaction (reserve_launch_tx w tk a q c) d1)) = db_generation d1" for d1
    by (rule own_frame_tx) (rule reserve_tx_own)
  have "db_reservations (snd (seq_op (preflight_policy_clock w tk PNone PNone d) (\<lambda>_ d'. transaction (reserve_launch_tx w tk a q c) d'))) = db_reservations d
      \<and> db_generation (snd (seq_op (preflight_policy_clock w tk PNone PNone d) (\<lambda>_ d'. transaction (reserve_launch_tx w tk a q c) d'))) = db_generation d"
    by (rule seq_core_own) (use preflight_core tx in auto)
  then show "db_reservations (snd (reserve_launch w tk args d)) = db_reservations d \<and> db_generation (snd (reserve_launch w tk args d)) = db_generation d"
    by (auto simp: args reserve_launch_def split: sum.splits)
qed

interpretation fenced_ack: fenced_op acknowledge_child
proof
  fix w tk d e q
  assume own: "assert_owner w tk d = Inl e"
  have "isl (fst (transaction (ack_tx w tk q obs k) d)) \<and> schema_ext d (snd (transaction (ack_tx w tk q obs k) d))" for obs k
    by (rule tx_fenced [OF _ own]) (simp add: ack_tx_def binding_fenced)
  then show "isl (fst (acknowledge_child w tk q d)) \<and> schema_ext d (snd (acknowledge_child w tk q d))"
    by (auto simp: acknowledge_child_def split: sum.splits prod.splits)
next
  fix w tk q d
  have "db_reservations d' = db_reservations d \<and> db_generation d' = db_generation d"
    if run: "ack_tx w tk q obs k d = Inr (x, d')" for obs k x d'
    by (rule ack_tx_Inr [OF run]) (simp add: core_frame_def)
  then have "db_reservations (snd (transaction (ack_tx w tk q obs k) d)) = db_reservations d
      \<and> db_generation (snd (transaction (ack_tx w tk q obs k) d)) = db_generation d" for obs k
    by (rule own_frame_tx)
  then show "db_reservations (snd (acknowledge_child w tk q d)) = db_reservations d \<and> db_generation (snd (acknowledge_child w tk q d)) = db_generation d"
    by (auto simp: acknowledge_child_def split: sum.splits prod.splits)
qed

lemma authorize_tx_own:
  assumes "authorize_tx w tk q d = Inr (r, d')"
  shows "db_reservations d' = db_reservations d \<and> db_generation d' = db_generation d"
  using assms by (cases rule: authorize_tx_cases) (auto simp: core_frame_def event_frameD)

interpretation fenced_authorize: fenced_op authorize_child
proof
  fix w tk d e q
  assume own: "assert_owner w tk d = Inl e"
  have "\<exists>e'. authorize_tx w tk q d1 = Inl e'" if own1: "assert_owner w tk d1 = Inl e1" for d1 e1
  proof -
    have "permit_check w tk q d1 \<noteq> Inr row" for row
      using permit_check_Inr [of w tk q d1 row] own1 binding_owner [of w tk _ d1] by auto
    then obtain e2 where "permit_check w tk q d1 = Inl e2" by (cases "permit_check w tk q d1") auto
    then show ?thesis by (simp add: authorize_tx_def)
  qed
  then have "isl (fst (seq_op (transaction (authorize_tx w tk q) d1) k)) \<and> snd (seq_op (transaction (authorize_tx w tk q) d1) k) = d1"
    if "assert_owner w tk d1 = Inl e1" for d1 e1 and k :: "string res \<Rightarrow> db \<Rightarrow> string res \<times> db"
    using transaction_fence [of w tk d1 e1 "authorize_tx w tk q"] that seq_op_refused [of "transaction (authorize_tx w tk q) d1" k] by auto
  then show "isl (fst (authorize_child w tk q d)) \<and> schema_ext d (snd (authorize_child w tk q d))"
    unfolding authorize_child_def by (intro preflight_then_fenced [OF own]) auto
next
  fix w tk q d
  have "db_reservations (snd (transaction (authorize_tx w tk q) d1)) = db_reservations d1
      \<and> db_generation (snd (transaction (authorize_tx w tk q) d1)) = db_generation d1" for d1
    by (rule own_frame_tx) (rule authorize_tx_own)
  moreover have "snd (seq_op (transaction (authorize_tx w tk q) d1) (\<lambda>r d''. (r, d''))) = snd (transaction (authorize_tx w tk q) d1)" for d1
    by (rule seq_op_snd) simp
  ultimately have tx: "db_reservations (snd (seq_op (transaction (authorize_tx w tk q) d1) (\<lambda>r d''. (r, d'')))) = db_reservations d1
      \<and> db_generation (snd (seq_op (transaction (authorize_tx w tk q) d1) (\<lambda>r d''. (r, d'')))) = db_generation d1" for d1
    by simp
  show "db_reservations (snd (authorize_child w tk q d)) = db_reservations d \<and> db_generation (snd (authorize_child w tk q d)) = db_generation d"
    unfolding authorize_child_def by (rule seq_core_own) (use preflight_core tx in auto)
qed

interpretation fenced_recover: fenced_op recover_intent
proof
  fix w tk d e args
  assume own: "assert_owner w tk d = Inl e"
  have "isl (fst (transaction (recover_tx w tk i row) d)) \<and> schema_ext d (snd (transaction (recover_tx w tk i row) d))" for i row
    by (rule tx_fenced [OF _ own]) (simp add: recover_tx_def binding_fenced)
  then show "isl (fst (recover_intent w tk args d)) \<and> schema_ext d (snd (recover_intent w tk args d))"
    by (auto simp: recover_intent_def split: option.splits prod.splits)
next
  fix w tk args d
  have "db_reservations (snd (transaction (recover_tx w tk i row) d)) = db_reservations d
      \<and> db_generation (snd (transaction (recover_tx w tk i row) d)) = db_generation d" for i row
    by (rule own_frame_tx) (auto dest!: recover_tx_Inr)
  then show "db_reservations (snd (recover_intent w tk args d)) = db_reservations d \<and> db_generation (snd (recover_intent w tk args d)) = db_generation d"
    by (auto simp: recover_intent_def split: option.splits prod.splits)
qed

interpretation fenced_close_dead: fenced_op close_dead_qualification_intent
proof
  fix w tk d e args
  assume own: "assert_owner w tk d = Inl e"
  have "isl (fst (transaction (close_dead_tx w tk i f) d)) \<and> schema_ext d (snd (transaction (close_dead_tx w tk i f) d))" for i f
    by (rule tx_fenced [OF _ own]) (simp add: close_dead_tx_def binding_fenced split: prod.splits)
  then show "isl (fst (close_dead_qualification_intent w tk args d)) \<and> schema_ext d (snd (close_dead_qualification_intent w tk args d))"
    by (auto simp: close_dead_qualification_intent_def split: option.splits prod.splits sum.splits)
next
  fix w tk args d
  have "db_reservations (snd (transaction (close_dead_tx w tk i f) d)) = db_reservations d
      \<and> db_generation (snd (transaction (close_dead_tx w tk i f) d)) = db_generation d" for i f
    by (rule own_frame_tx) (cases f, auto dest!: close_dead_tx_Inr)
  then show "db_reservations (snd (close_dead_qualification_intent w tk args d)) = db_reservations d
      \<and> db_generation (snd (close_dead_qualification_intent w tk args d)) = db_generation d"
    by (auto simp: close_dead_qualification_intent_def split: option.splits prod.splits sum.splits)
qed

lemma complete_tx_own:
  assumes "complete_tx w tk q e terminal obs d = Inr (x, d')"
  shows "db_reservations d' = db_reservations d \<and> db_generation d' = db_generation d \<and> assert_owner w tk d = Inr ()"
proof (cases x)
  case (Pair i reused)
  from assms obtain row :: intent and act where "assert_activity_binding w tk (in_activity row) d = Inr act"
    by (auto simp: complete_tx_def split: if_splits)
  then have own: "assert_owner w tk d = Inr ()" by (rule binding_owner)
  from assms Pair have "complete_tx w tk q e terminal obs d = Inr ((i, reused), d')" by simp
  then show ?thesis
  proof (cases rule: complete_tx_cases)
    case replay then show ?thesis using own by simp
  next
    case (settled row acc act) then show ?thesis using own complete_write_Inr by blast
  qed
qed

interpretation fenced_complete: fenced_op complete_launch
proof
  fix w tk d e q
  assume own: "assert_owner w tk d = Inl e"
  have "isl (fst (transaction (complete_tx w tk q ev t obs) d)) \<and> schema_ext d (snd (transaction (complete_tx w tk q ev t obs) d))" for ev t obs
    by (rule tx_fenced [OF _ own], rule refused_body) (use complete_tx_own own in fastforce)
  then show "isl (fst (complete_launch w tk q d)) \<and> schema_ext d (snd (complete_launch w tk q d))"
    by (auto simp: complete_launch_def split: option.splits sum.splits)
next
  fix w tk q d
  have "db_reservations (snd (transaction (complete_tx w tk q ev t obs) d)) = db_reservations d
      \<and> db_generation (snd (transaction (complete_tx w tk q ev t obs) d)) = db_generation d" for ev t obs
    by (rule own_frame_tx) (auto dest!: complete_tx_own)
  then show "db_reservations (snd (complete_launch w tk q d)) = db_reservations d \<and> db_generation (snd (complete_launch w tk q d)) = db_generation d"
    by (auto simp: complete_launch_def split: option.splits sum.splits)
qed

end
