(* ===== verification/Launch_Safety.thy ===== *)
theory Launch_Safety
  imports Launch_Facts
begin

text \<open>
  The guarantees of the launch interface under any sequence of calls: the token and dispatch ledger
  of every run balances and stays within its limits, a settled launch never changes again, a
  released child always has a permit, an acknowledgement and an identity, and the activities keep
  their own invariant while launches are charged to them.
\<close>

section \<open>Intents\<close>

definition settled :: "intent \<Rightarrow> bool" where
  "settled i = (in_completion i = Some ''succeeded'' \<or> in_completion i = Some ''failed'')"

definition intent_ok :: "intent \<Rightarrow> bool" where
  "intent_ok i = ((settled i \<longrightarrow> in_state i = completed_state (the (in_completion i)))
     \<and> in_completion i \<in> {None, Some ''succeeded'', Some ''failed'', Some ''uncertain''}
     \<and> (in_state i = ''released_to_execute'' \<longrightarrow> in_permit i \<noteq> None \<and> in_child i \<noteq> None \<and> in_ack i \<noteq> None))"

text \<open>What one call may do to an intent.\<close>

definition intent_le :: "intent \<Rightarrow> intent \<Rightarrow> bool" where
  "intent_le i j = (in_id j = in_id i \<and> in_activity j = in_activity i
     \<and> (intent_ok i \<longrightarrow> intent_ok j \<and> (settled i \<longrightarrow> j = i)))"

lemma intent_le_refl [simp]: "intent_le i i"
  by (simp add: intent_le_def)

lemma settled_state: "settled i \<Longrightarrow> intent_ok i \<Longrightarrow> in_state i = ''completed_succeeded'' \<or> in_state i = ''completed_failed''"
  by (auto simp: settled_def intent_ok_def completed_state_def)

lemma settled_not_active: "settled i \<Longrightarrow> intent_ok i \<Longrightarrow> in_state i \<notin> set active_states"
  by (drule (1) settled_state) (auto simp: active_states_def)

lemma intent_le_state:
  assumes "\<not> settled i \<or> st = in_state i" and "st \<noteq> ''released_to_execute'' \<or> st = in_state i"
  shows "intent_le i (set_state st i)"
proof (cases "st = in_state i")
  case True
  then have "set_state st i = i" by (simp add: set_state_def)
  then show ?thesis by simp
next
  case False
  then show ?thesis using assms by (simp add: intent_le_def intent_ok_def settled_def set_state_def)
qed

text \<open>The intents of the next database: the old ones, each moved on, and new ones.\<close>

definition new_intents :: "intent list \<Rightarrow> intent list \<Rightarrow> bool" where
  "new_intents old new = ((\<forall>r \<in> set new. intent_ok r) \<and> distinct (map in_id new)
     \<and> set (map in_id new) \<inter> set (map in_id old) = {})"

definition intents_step :: "db \<Rightarrow> db \<Rightarrow> bool" where
  "intents_step d d' = (\<exists>xs new. db_intents d' = xs @ new \<and> list_all2 intent_le (db_intents d) xs \<and> new_intents (db_intents d) new)"

lemma intents_same: "db_intents d' = db_intents d \<Longrightarrow> intents_step d d'"
  unfolding intents_step_def by (rule exI [of _ "db_intents d'"], rule exI [of _ "[]"]) (simp add: list.rel_refl new_intents_def)

lemma intents_map:
  assumes "\<And>i. i \<in> set (db_intents d) \<Longrightarrow> P i \<Longrightarrow> intent_le i (f i)" and "db_intents d' = update_where P f (db_intents d)"
  shows "intents_step d d'"
  unfolding intents_step_def
  by (rule exI [of _ "db_intents d'"], rule exI [of _ "[]"])
    (use assms in \<open>simp add: update_where_def list_all2_map2 list.rel_refl_strong new_intents_def\<close>)

lemma intents_update:
  assumes "distinct (map in_id (db_intents d))" and "intent_of k d = Some row" and "intent_le row (f row)"
    and "db_intents d' = update_where (\<lambda>x. in_id x = k) f (db_intents d)"
  shows "intents_step d d'"
proof (rule intents_map [OF _ assms(4)])
  fix i assume "i \<in> set (db_intents d)" "in_id i = k"
  then have "i = row" using assms(1) intent_of_in [OF assms(2)] by (auto simp: distinct_map inj_on_def)
  then show "intent_le i (f i)" using assms(3) by simp
qed

definition intents_ok :: "db \<Rightarrow> bool" where
  "intents_ok d = (distinct (map in_id (db_intents d)) \<and> (\<forall>i \<in> set (db_intents d). intent_ok i))"

lemma intents_step_ok:
  assumes "intents_step d d'" and "intents_ok d" shows "intents_ok d'"
proof -
  from assms(1) obtain xs new where s: "db_intents d' = xs @ new" "list_all2 intent_le (db_intents d) xs"
    "new_intents (db_intents d) new"
    unfolding intents_step_def by blast
  have ids: "map in_id xs = map in_id (db_intents d)"
    using s(2) by (induction rule: list_all2_induct) (auto simp: intent_le_def)
  have "intent_ok x" if "x \<in> set xs" for x
  proof -
    from that obtain n where "n < length xs" "x = xs ! n" by (auto simp: in_set_conv_nth)
    then have "intent_le (db_intents d ! n) x" "db_intents d ! n \<in> set (db_intents d)"
      using list_all2_nthD2 [OF s(2)] list_all2_lengthD [OF s(2)] by auto
    then show ?thesis using assms(2) by (auto simp: intent_le_def intents_ok_def)
  qed
  then have all: "\<forall>x \<in> set (db_intents d'). intent_ok x" using s(1,3) by (auto simp: new_intents_def)
  have "distinct (map in_id (xs @ new))"
    using s(3) assms(2) by (simp add: ids intents_ok_def new_intents_def Int_commute del: set_map)
  then show ?thesis using all s(1) by (simp add: intents_ok_def)
qed

text \<open>A settled intent survives unchanged, every other one under its key.\<close>

lemma intents_step_kept:
  assumes "intents_step d d'" and "i \<in> set (db_intents d)" and "intents_ok d"
  shows "\<exists>j \<in> set (db_intents d'). in_id j = in_id i \<and> in_activity j = in_activity i \<and> (settled i \<longrightarrow> j = i)"
proof -
  from assms(1) obtain xs new where s: "db_intents d' = xs @ new" "list_all2 intent_le (db_intents d) xs"
    unfolding intents_step_def by blast
  from assms(2) obtain n where n: "n < length (db_intents d)" "i = db_intents d ! n" by (auto simp: in_set_conv_nth)
  then have "intent_le i (xs ! n)" "xs ! n \<in> set xs"
    using list_all2_nthD [OF s(2)] list_all2_lengthD [OF s(2)] by auto
  then show ?thesis using s(1) assms(2,3) by (auto simp: intent_le_def intents_ok_def)
qed

section \<open>The ledger\<close>

definition run_of_limits :: "run_limits \<Rightarrow> string \<times> string" where
  "run_of_limits l = (rl_repo l, rl_run l)"

definition run_of_accounting :: "accounting \<Rightarrow> string \<times> string" where
  "run_of_accounting x = (la_repo x, la_run x)"

text \<open>The tokens a launch holds: its reservation until a final meter replaces it.\<close>

definition held_tokens :: "accounting \<Rightarrow> int" where
  "held_tokens x = (case la_final x of None \<Rightarrow> la_reservation x | Some u \<Rightarrow> u)"

definition metered :: "accounting \<Rightarrow> int" where
  "metered x = (case la_final x of None \<Rightarrow> 0 | Some u \<Rightarrow> u)"

definition run_accounting :: "run_limits \<Rightarrow> accounting list \<Rightarrow> accounting list" where
  "run_accounting l rows = filter (\<lambda>x. run_of_accounting x = run_of_limits l) rows"

definition balanced :: "accounting list \<Rightarrow> run_limits \<Rightarrow> bool" where
  "balanced rows l =
     (rl_dispatch_used l = int (length (run_accounting l rows)) \<and> rl_dispatch_used l \<le> rl_dispatch_limit l
      \<and> rl_committed l = sum_list (map held_tokens (run_accounting l rows)) \<and> rl_committed l \<le> rl_token_limit l
      \<and> rl_used l = sum_list (map metered (run_accounting l rows)))"

text \<open>An accounting row belongs to an intent of its run; only a settled intent has a final meter.\<close>

definition linked :: "db \<Rightarrow> accounting \<Rightarrow> bool" where
  "linked d x = (\<exists>i \<in> set (db_intents d). \<exists>a \<in> set (db_activities d). in_id i = la_intent x \<and> ac_id a = in_activity i
     \<and> (ac_repo a, ac_run a) = run_of_accounting x \<and> (la_final x \<noteq> None \<longrightarrow> settled i))"

definition row_ok :: "accounting \<Rightarrow> bool" where
  "row_ok x = (0 \<le> la_reservation x \<and> (\<forall>u. la_final x = Some u \<longrightarrow> 0 \<le> u \<and> u \<le> la_reservation x))"

definition ledger_ok :: "db \<Rightarrow> bool" where
  "ledger_ok d = (distinct (map la_intent (db_accounting d)) \<and> (\<forall>x \<in> set (db_accounting d). row_ok x \<and> linked d x)
     \<and> distinct (map run_of_limits (db_limits d)) \<and> (\<forall>l \<in> set (db_limits d). balanced (db_accounting d) l))"

definition activities_kept :: "db \<Rightarrow> db \<Rightarrow> bool" where
  "activities_kept d d' = (\<forall>a \<in> set (db_activities d). \<exists>a' \<in> set (db_activities d'). ac_id a' = ac_id a \<and> same_run a' a)"

lemma activities_kept_same: "db_activities d' = db_activities d \<Longrightarrow> activities_kept d d'"
  by (auto simp: activities_kept_def same_run_def)

lemma linked_step:
  assumes "intents_step d d'" "intents_ok d" "activities_kept d d'" "linked d x" shows "linked d' x"
proof -
  from assms(4) obtain i a where ia: "i \<in> set (db_intents d)" "a \<in> set (db_activities d)" "in_id i = la_intent x"
    "ac_id a = in_activity i" "(ac_repo a, ac_run a) = run_of_accounting x" "la_final x \<noteq> None \<longrightarrow> settled i"
    unfolding linked_def by blast
  obtain j where j: "j \<in> set (db_intents d')" "in_id j = in_id i" "in_activity j = in_activity i" "settled i \<longrightarrow> j = i"
    using intents_step_kept [OF assms(1) ia(1) assms(2)] by blast
  obtain b where b: "b \<in> set (db_activities d')" "ac_id b = ac_id a" "same_run b a"
    using assms(3) ia(2) unfolding activities_kept_def by blast
  show ?thesis
    unfolding linked_def
    by (rule bexI [OF _ j(1)], rule bexI [OF _ b(1)]) (use ia j b in \<open>auto simp: same_run_def\<close>)
qed

text \<open>Calls that touch neither the accounting nor the limits.\<close>

lemma ledger_quiet:
  assumes "ledger_ok d" "intents_ok d" "intents_step d d'" "activities_kept d d'"
    and "db_accounting d' = db_accounting d" "db_limits d' = db_limits d"
  shows "ledger_ok d'"
  using assms linked_step [OF assms(3,2,4)] unfolding ledger_ok_def by auto

lemma run_accounting_append:
  "run_accounting l (rows @ [x]) = run_accounting l rows @ (if run_of_accounting x = run_of_limits l then [x] else [])"
  by (simp add: run_accounting_def)

text \<open>Configuring the limits of a run that never launched.\<close>

lemma ledger_configure:
  assumes "ledger_ok d" and "core_frame (d\<lparr>db_limits := db_limits d @ [l]\<rparr>) d'"
    and "\<And>k. k \<in> set (db_limits d) \<Longrightarrow> run_of_limits k \<noteq> run_of_limits l"
    and "\<And>i a. i \<in> set (db_intents d) \<Longrightarrow> a \<in> set (db_activities d) \<Longrightarrow> ac_id a = in_activity i \<Longrightarrow>
      (ac_repo a, ac_run a) \<noteq> run_of_limits l"
    and "rl_dispatch_used l = 0" "rl_committed l = 0" "rl_used l = 0" "0 \<le> rl_dispatch_limit l" "0 \<le> rl_token_limit l"
  shows "ledger_ok d'"
proof -
  have f: "db_accounting d' = db_accounting d" "db_limits d' = db_limits d @ [l]" "db_intents d' = db_intents d"
    "db_activities d' = db_activities d" using assms(2) by (simp_all add: core_frame_def)
  have "run_of_accounting x \<noteq> run_of_limits l" if "x \<in> set (db_accounting d)" for x
    using assms(1,4) that unfolding ledger_ok_def linked_def by metis
  then have "run_accounting l (db_accounting d) = []" by (simp add: run_accounting_def filter_empty_conv)
  then have "balanced (db_accounting d) l" using assms(5-) by (simp add: balanced_def)
  moreover have "linked d' x = linked d x" for x using f by (simp add: linked_def)
  moreover have "run_of_limits l \<notin> run_of_limits ` set (db_limits d)" using assms(3) by (metis imageE)
  ultimately show ?thesis using assms(1) f by (auto simp: ledger_ok_def)
qed

text \<open>A fresh launch: one row more, one dispatch and its reservation more.\<close>

lemma limits_match_run: "limits_match tk l \<longleftrightarrow> run_of_limits l = (tk_repo tk, tk_run tk)"
  by (auto simp: limits_match_def run_of_limits_def)

lemma limits_of_in: "limits_of tk d = Some l \<Longrightarrow> l \<in> set (db_limits d) \<and> limits_match tk l"
  unfolding limits_of_def by (drule find_Some_in) simp

lemma limits_unique:
  "distinct (map run_of_limits (db_limits d)) \<Longrightarrow> limits_of tk d = Some l \<Longrightarrow> k \<in> set (db_limits d) \<Longrightarrow> limits_match tk k \<Longrightarrow> k = l"
  using limits_of_in [of tk d l] by (auto simp: limits_match_run distinct_map inj_on_def)

lemma commit_tokens_sel [simp]:
  "run_of_limits (commit_tokens tk n l) = run_of_limits l" "rl_dispatch_used (commit_tokens tk n l) = rl_dispatch_used l + 1"
  "rl_committed (commit_tokens tk n l) = rl_committed l + n" "rl_used (commit_tokens tk n l) = rl_used l"
  "rl_dispatch_limit (commit_tokens tk n l) = rl_dispatch_limit l" "rl_token_limit (commit_tokens tk n l) = rl_token_limit l"
  by (simp_all add: commit_tokens_def run_of_limits_def)

lemma accounting_row_sel [simp]:
  "la_intent (accounting_row tk i n) = i" "run_of_accounting (accounting_row tk i n) = (tk_repo tk, tk_run tk)"
  "held_tokens (accounting_row tk i n) = n" "metered (accounting_row tk i n) = 0"
  "la_final (accounting_row tk i n) = None" "la_reservation (accounting_row tk i n) = n"
  by (simp_all add: accounting_row_def run_of_accounting_def held_tokens_def metered_def)

lemma balanced_commit:
  assumes "balanced rows l" "limits_match tk l" "rl_dispatch_used l < rl_dispatch_limit l" "n \<le> rl_token_limit l - rl_committed l"
  shows "balanced (rows @ [accounting_row tk i n]) (commit_tokens tk n l)"
proof -
  have "run_accounting (commit_tokens tk n l) (rows @ [accounting_row tk i n]) = run_accounting l rows @ [accounting_row tk i n]"
    using assms(2) by (simp add: run_accounting_def limits_match_run)
  then show ?thesis using assms by (simp add: balanced_def)
qed

lemma balanced_other:
  "balanced rows l \<Longrightarrow> \<not> limits_match tk l \<Longrightarrow> balanced (rows @ [accounting_row tk i n]) l"
  by (simp add: balanced_def run_accounting_append limits_match_run)

lemma ledger_reserve:
  assumes ok: "ledger_ok d" "intents_ok d" and step: "intents_step d d'" "activities_kept d d'"
    and l: "limits_of tk d = Some l" and allow: "rl_dispatch_used l < rl_dispatch_limit l" "n \<le> rl_token_limit l - rl_committed l" "0 \<le> n"
    and rows: "db_limits d' = update_where (limits_match tk) (commit_tokens tk n) (db_limits d)"
      "db_accounting d' = db_accounting d @ [accounting_row tk i n]" "\<forall>x \<in> set (db_accounting d). la_intent x \<noteq> i"
    and new: "\<exists>r \<in> set (db_intents d'). \<exists>a \<in> set (db_activities d'). in_id r = i \<and> ac_id a = in_activity r
        \<and> ac_repo a = tk_repo tk \<and> ac_run a = tk_run tk"
  shows "ledger_ok d'"
proof -
  have bal: "balanced (db_accounting d') k'" if "k' \<in> set (db_limits d')" for k'
  proof -
    from that rows(1) obtain k where k: "k \<in> set (db_limits d)" "k' = (if limits_match tk k then commit_tokens tk n k else k)"
      by (auto simp: set_update_where)
    have b: "balanced (db_accounting d) k" using ok(1) k(1) by (simp add: ledger_ok_def)
    show ?thesis
    proof (cases "limits_match tk k")
      case True
      then have "k = l" using limits_unique [OF _ l k(1)] ok(1) by (simp add: ledger_ok_def)
      then show ?thesis using balanced_commit [OF b True] allow True k(2) rows(2) by simp
    next
      case False then show ?thesis using balanced_other [OF b False] k(2) rows(2) by simp
    qed
  qed
  have "map run_of_limits (db_limits d') = map run_of_limits (db_limits d)"
    unfolding rows(1) by (rule map_update_where) simp
  moreover have "linked d' (accounting_row tk i n)"
    using new unfolding linked_def by auto
  moreover have "row_ok (accounting_row tk i n)" using allow(3) by (simp add: row_ok_def)
  moreover have "linked d' x" if "x \<in> set (db_accounting d)" for x
    using linked_step [OF step(1) ok(2) step(2)] ok(1) that by (simp add: ledger_ok_def)
  ultimately show ?thesis using ok(1) bal rows(2,3) by (auto simp: ledger_ok_def)
qed

text \<open>A final meter: the reservation of one row is replaced by the measured usage.\<close>

lemma sum_update:
  fixes g :: "accounting \<Rightarrow> int"
  assumes "distinct (map la_intent rows)" "x \<in> set rows"
  shows "sum_list (map g (update_where (\<lambda>y. la_intent y = la_intent x) h rows)) = sum_list (map g rows) - g x + g (h x)"
  using assms
proof (induction rows)
  case Nil then show ?case by simp
next
  case (Cons r rows)
  show ?case
  proof (cases "r = x")
    case True
    then have "la_intent y \<noteq> la_intent x" if "y \<in> set rows" for y
      using Cons.prems(1) that by (simp add: image_iff) metis
    then have "update_where (\<lambda>y. la_intent y = la_intent x) h rows = rows"
      by (simp add: update_where_def map_idI)
    then show ?thesis using True by simp
  next
    case False
    then show ?thesis using Cons by auto
  qed
qed

lemma set_final_sel [simp]:
  "la_intent (set_final u x) = la_intent x" "run_of_accounting (set_final u x) = run_of_accounting x"
  "la_final (set_final u x) = u" "la_reservation (set_final u x) = la_reservation x"
  by (simp_all add: set_final_def run_of_accounting_def)

lemma run_accounting_final:
  "run_accounting l (update_where P (set_final u) rows) = update_where P (set_final u) (run_accounting l rows)"
  by (induction rows) (auto simp: run_accounting_def)

lemma run_accounting_distinct: "distinct (map la_intent rows) \<Longrightarrow> distinct (map la_intent (run_accounting l rows))"
  unfolding run_accounting_def by (rule distinct_map_filter)

lemma settle_tokens_sel [simp]:
  "run_of_limits (settle_tokens tk r u l) = run_of_limits l" "rl_dispatch_used (settle_tokens tk r u l) = rl_dispatch_used l"
  "rl_committed (settle_tokens tk r u l) = rl_committed l - r" "rl_used (settle_tokens tk r u l) = rl_used l + u"
  "rl_dispatch_limit (settle_tokens tk r u l) = rl_dispatch_limit l" "rl_token_limit (settle_tokens tk r u l) = rl_token_limit l"
  by (simp_all add: settle_tokens_def run_of_limits_def)

lemma balanced_settle:
  assumes "balanced rows l" "distinct (map la_intent rows)" "x \<in> set rows" "run_of_accounting x = run_of_limits l"
    and "la_final x = None" "u \<le> la_reservation x"
  shows "balanced (update_where (\<lambda>y. la_intent y = la_intent x) (set_final (Some u)) rows)
     (settle_tokens tk (la_reservation x - u) u l)"
proof -
  have x: "x \<in> set (run_accounting l rows)" using assms(3,4) by (simp add: run_accounting_def)
  have eq: "run_accounting (settle_tokens tk r u l) rows' = run_accounting l rows'" for r rows'
    by (simp add: run_accounting_def)
  have h: "held_tokens (set_final (Some u) x) = u" "metered (set_final (Some u) x) = u"
    by (simp_all add: held_tokens_def metered_def)
  have h0: "held_tokens x = la_reservation x" "metered x = 0"
    using assms(5) by (simp_all add: held_tokens_def metered_def)
  show ?thesis
    using assms(1,6) h h0 sum_update [OF run_accounting_distinct [OF assms(2)] x, of held_tokens "set_final (Some u)"]
      sum_update [OF run_accounting_distinct [OF assms(2)] x, of metered "set_final (Some u)"]
    by (simp add: balanced_def eq run_accounting_final)
qed

lemma balanced_unrelated:
  assumes "balanced rows l" "\<And>y. y \<in> set rows \<Longrightarrow> P y \<Longrightarrow> run_of_accounting y \<noteq> run_of_limits l"
  shows "balanced (update_where P (set_final u) rows) l"
proof -
  have "update_where P (set_final u) (run_accounting l rows) = run_accounting l rows"
    unfolding update_where_def run_accounting_def by (rule map_idI) (use assms(2) in auto)
  then show ?thesis using assms(1) by (simp add: balanced_def run_accounting_final)
qed


lemma ledger_complete:
  assumes ok: "ledger_ok d" "intents_ok d" and step: "intents_step d d'" "activities_kept d d'"
    and x: "x \<in> set (db_accounting d)" "run_of_accounting x = (tk_repo tk, tk_run tk)" "la_final x = None"
    and u: "0 \<le> u" "u \<le> la_reservation x"
    and hit: "count_where (\<lambda>l. limits_match tk l \<and> rl_committed l \<ge> la_reservation x - u) (db_limits d) = 1"
    and rows: "db_limits d' = update_where (\<lambda>l. limits_match tk l \<and> rl_committed l \<ge> la_reservation x - u)
          (settle_tokens tk (la_reservation x - u) u) (db_limits d)"
      "db_accounting d' = update_where (\<lambda>y. la_intent y = la_intent x) (set_final (Some u)) (db_accounting d)"
    and final: "\<exists>i \<in> set (db_intents d'). in_id i = la_intent x \<and> settled i"
  shows "ledger_ok d'"
proof -
  have d: "distinct (map la_intent (db_accounting d))" "distinct (map run_of_limits (db_limits d))"
    "\<And>l. l \<in> set (db_limits d) \<Longrightarrow> balanced (db_accounting d) l"
    "\<And>y. y \<in> set (db_accounting d) \<Longrightarrow> row_ok y \<and> linked d y"
    using ok(1) by (auto simp: ledger_ok_def)
  have uniq: "y = x" if "y \<in> set (db_accounting d)" "la_intent y = la_intent x" for y
    using d(1) x(1) that by (auto simp: distinct_map inj_on_def)
  from hit obtain l0 where l0: "l0 \<in> set (db_limits d)" "limits_match tk l0" "rl_committed l0 \<ge> la_reservation x - u"
    using count_where_pos [of "\<lambda>l. limits_match tk l \<and> rl_committed l \<ge> la_reservation x - u" "db_limits d"] by auto
  have bal: "balanced (db_accounting d') k'" if "k' \<in> set (db_limits d')" for k'
  proof -
    from that rows(1) obtain k where k: "k \<in> set (db_limits d)"
      "k' = (if limits_match tk k \<and> rl_committed k \<ge> la_reservation x - u then settle_tokens tk (la_reservation x - u) u k else k)"
      by (auto simp: set_update_where)
    show ?thesis
    proof (cases "limits_match tk k")
      case True
      then have "k = l0" using d(2) k(1) l0(1,2) by (auto simp: limits_match_run distinct_map inj_on_def)
      then have "k' = settle_tokens tk (la_reservation x - u) u k" using k(2) l0 by simp
      then show ?thesis
        using balanced_settle [OF d(3) [OF k(1)] d(1) x(1) _ x(3) u(2), of tk] True x(2) rows(2)
        by (simp add: limits_match_run)
    next
      case False
      then have "k' = k" using k(2) by simp
      moreover have "balanced (update_where (\<lambda>y. la_intent y = la_intent x) (set_final (Some u)) (db_accounting d)) k"
      proof (rule balanced_unrelated [OF d(3) [OF k(1)]])
        fix y assume "y \<in> set (db_accounting d)" "la_intent y = la_intent x"
        then have "y = x" by (rule uniq)
        then show "run_of_accounting y \<noteq> run_of_limits k" using False x(2) by (simp add: limits_match_run)
      qed
      ultimately show ?thesis using rows(2) by simp
    qed
  qed
  have links: "row_ok y' \<and> linked d' y'" if "y' \<in> set (db_accounting d')" for y'
  proof -
    from that rows(2) obtain y where y: "y \<in> set (db_accounting d)" "y' = (if la_intent y = la_intent x then set_final (Some u) y else y)"
      by (auto simp: set_update_where)
    have old: "row_ok y" "linked d' y" using d(4) [OF y(1)] linked_step [OF step(1) ok(2) step(2)] by auto
    show ?thesis
    proof (cases "la_intent y = la_intent x")
      case False then show ?thesis using old y(2) by simp
    next
      case True
      then have yx: "y = x" using uniq y(1) by simp
      from old(2) obtain i a where ia: "i \<in> set (db_intents d')" "a \<in> set (db_activities d')" "in_id i = la_intent x"
        "ac_id a = in_activity i" "(ac_repo a, ac_run a) = run_of_accounting x"
        unfolding linked_def yx by blast
      from final obtain j where "j \<in> set (db_intents d')" "in_id j = la_intent x" "settled j" by blast
      moreover have "distinct (map in_id (db_intents d'))"
        using intents_step_ok [OF step(1) ok(2)] by (simp add: intents_ok_def)
      ultimately have "settled i" using ia(1,3) by (metis (no_types) distinct_map inj_on_def)
      then have "linked d' (set_final (Some u) x)" using ia unfolding linked_def by auto
      moreover have "row_ok (set_final (Some u) x)" using u by (simp add: row_ok_def)
      ultimately show ?thesis using y(2) yx by simp
    qed
  qed
  have "map la_intent (db_accounting d') = map la_intent (db_accounting d)"
    unfolding rows(2) by (rule map_update_where) simp
  moreover have "map run_of_limits (db_limits d') = map run_of_limits (db_limits d)"
    unfolding rows(1) by (rule map_update_where) simp
  ultimately show ?thesis using d bal links by (simp add: ledger_ok_def)
qed

section \<open>Every call keeps the invariant\<close>

definition launch_ok :: "db \<Rightarrow> bool" where
  "launch_ok d = (activities_ok d \<and> intents_ok d \<and> ledger_ok d)"

text \<open>\<open>preserves d d'\<close>: the invariant is kept and no intent is lost.\<close>

definition preserves :: "db \<Rightarrow> db \<Rightarrow> bool" where
  "preserves d d' = (launch_ok d' \<and> intents_step d d' \<and>
     (\<forall>a \<in> set (db_activities d). \<not> is_open a \<longrightarrow>
        (\<exists>a' \<in> set (db_activities d'). ac_id a' = ac_id a \<and> ac_state a' = ac_state a \<and> ac_result a' = ac_result a)))"

lemma intent_le_trans: "intent_le i j \<Longrightarrow> intent_le j k \<Longrightarrow> intent_le i k"
  by (auto simp: intent_le_def)

lemma list_le_ids: "list_all2 intent_le xs ys \<Longrightarrow> map in_id ys = map in_id xs"
  by (induction rule: list_all2_induct) (simp_all add: intent_le_def)

lemma list_le_ok: "list_all2 intent_le xs ys \<Longrightarrow> \<forall>i \<in> set xs. intent_ok i \<Longrightarrow> \<forall>i \<in> set ys. intent_ok i"
  by (induction rule: list_all2_induct) (auto simp: intent_le_def)

lemma intents_step_trans:
  assumes "intents_step d d'" "intents_step d' d''" shows "intents_step d d''"
proof -
  obtain xs new where 1: "db_intents d' = xs @ new" "list_all2 intent_le (db_intents d) xs" "new_intents (db_intents d) new"
    using assms(1) unfolding intents_step_def by blast
  obtain ys new' where 2: "db_intents d'' = ys @ new'" "list_all2 intent_le (db_intents d') ys" "new_intents (db_intents d') new'"
    using assms(2) unfolding intents_step_def by blast
  obtain y1 y2 where y: "ys = y1 @ y2" "list_all2 intent_le xs y1" "list_all2 intent_le new y2"
    using 2(2) unfolding 1(1) by (auto simp: list_all2_append1)
  have le: "list_all2 intent_le (db_intents d) y1" by (rule list_all2_trans [OF intent_le_trans 1(2) y(2)])
  have "set (map in_id xs) = set (map in_id (db_intents d))" using list_le_ids [OF 1(2)] by simp
  then have "new_intents (db_intents d) (y2 @ new')"
    using 1(1,3) 2(3) list_le_ids [OF y(3)] list_le_ok [OF y(3)] unfolding new_intents_def
    by (auto simp del: set_map simp: Int_Un_distrib)
  then show ?thesis unfolding intents_step_def using 2(1) y(1) le by (metis append.assoc)
qed

lemma preserves_ok: "preserves d d' \<Longrightarrow> launch_ok d'"
  by (simp add: preserves_def)

lemma preserves_frozen:
  assumes "preserves d d'" "preserves d' d''" "a \<in> set (db_activities d)" "\<not> is_open a"
  shows "\<exists>a' \<in> set (db_activities d''). ac_id a' = ac_id a \<and> ac_state a' = ac_state a \<and> ac_result a' = ac_result a"
proof -
  obtain b where b: "b \<in> set (db_activities d')" "ac_id b = ac_id a" "ac_state b = ac_state a" "ac_result b = ac_result a"
    using assms(1,3,4) unfolding preserves_def by blast
  then have "\<not> is_open b" using assms(4) by (simp add: is_open_def)
  then show ?thesis using assms(2) b unfolding preserves_def by metis
qed

lemma preserves_trans: "preserves d d' \<Longrightarrow> preserves d' d'' \<Longrightarrow> preserves d d''"
  using preserves_frozen [of d d' d''] intents_step_trans [of d d' d''] by (auto simp: preserves_def)

lemma activities_ok_cong:
  assumes "db_activities d' = db_activities d" "db_debits d' = db_debits d" "db_bindings d' = db_bindings d"
    "map in_activity (db_intents d') = map in_activity (db_intents d)"
  shows "activities_ok d' = activities_ok d"
proof -
  have "in_activity ` set (db_intents d') = in_activity ` set (db_intents d)" using assms(4) by (metis list.set_map)
  then have "(\<forall>i \<in> set (db_intents d'). \<exists>a \<in> set (db_activities d). ac_id a = in_activity i)
      = (\<forall>i \<in> set (db_intents d). \<exists>a \<in> set (db_activities d). ac_id a = in_activity i)"
  proof -
    have "(\<forall>i \<in> set xs. \<exists>a \<in> set (db_activities d). ac_id a = in_activity i)
        = (in_activity ` set xs \<subseteq> ac_id ` set (db_activities d))" for xs :: "intent list"
      by (simp only: image_subset_iff image_iff eq_commute)
    then show ?thesis using \<open>in_activity ` _ = _\<close> by simp
  qed
  then show ?thesis
    unfolding activities_ok_def assms(1,2) is_top_cong [OF assms(3)] debited_cong [OF assms(2,4)] by simp
qed

lemma map_activity_update: "(\<And>i. in_activity (f i) = in_activity i) \<Longrightarrow> map in_activity (update_where P f rows) = map in_activity rows"
  by (rule map_update_where)

text \<open>A call that only moves intents.\<close>

lemma moved_preserves:
  assumes "launch_ok d" and "intents_step d d'" and "map in_activity (db_intents d') = map in_activity (db_intents d)"
    and "db_activities d' = db_activities d" "db_debits d' = db_debits d" "db_bindings d' = db_bindings d"
    and "db_accounting d' = db_accounting d" "db_limits d' = db_limits d"
  shows "preserves d d'"
  unfolding preserves_def launch_ok_def
  using assms activities_ok_cong [OF assms(4,5,6,3)] intents_step_ok ledger_quiet [OF _ _ assms(2) activities_kept_same assms(7,8)]
  by (auto simp: launch_ok_def)

lemma core_preserves: "launch_ok d \<Longrightarrow> core_frame d d' \<Longrightarrow> preserves d d'"
  by (rule moved_preserves) (simp_all add: core_frame_def intents_same)

lemma preserves_refl: "launch_ok d \<Longrightarrow> preserves d d"
  by (rule core_preserves) simp_all

lemma tx_preserves: "launch_ok d \<Longrightarrow> (\<And>x d'. body d = Inr (x, d') \<Longrightarrow> preserves d d') \<Longrightarrow> preserves d (snd (transaction body d))"
  by (cases rule: transaction_cases [of body d]) (auto intro: preserves_refl)

text \<open>A call that rewrites, charges or appends an activity and moves intents.\<close>

lemma kept_map:
  "db_activities d' = map f (db_activities d) \<Longrightarrow> (\<And>a. ac_id (f a) = ac_id a \<and> same_run (f a) a) \<Longrightarrow> activities_kept d d'"
  unfolding activities_kept_def by auto

lemma applied_kept:
  assumes "applied c d d'" shows "activities_kept d d'"
proof (cases c)
  case (Append r) then show ?thesis using assms by (auto simp: activities_kept_def same_run_def)
next
  case (Rewrite r r')
  show ?thesis by (rule kept_map [of d' "\<lambda>x. if x = r then r' else x"]) (use assms Rewrite in \<open>auto simp: same_run_def\<close>)
next
  case (Charge r b)
  show ?thesis
    by (rule kept_map [of d' "\<lambda>x. if x = r then r\<lparr>ac_remaining := ac_remaining r - bd_amount b\<rparr> else x"])
      (use assms Charge in \<open>auto simp: same_run_def\<close>)
qed (use assms in \<open>simp add: activities_kept_same\<close>)

lemma stepped_preserves:
  assumes ok: "launch_ok d" and step: "stepped d d'" "intents_step d d'"
    and rows: "db_accounting d' = db_accounting d" "db_limits d' = db_limits d"
  shows "preserves d d'"
proof -
  from step(1) obtain c where c: "db_bindings d' = db_bindings d"
    "map in_activity (db_intents d') = map in_activity (db_intents d)" "applied c d d'"
    unfolding stepped_def by blast
  have parts: "activities_ok d" "intents_ok d" "ledger_ok d" using ok by (simp_all add: launch_ok_def)
  have "launch_ok d'"
    unfolding launch_ok_def
    using applied_ok [OF parts(1) c(1,3,2)] intents_step_ok [OF step(2) parts(2)]
      ledger_quiet [OF parts(3,2) step(2) applied_kept [OF c(3)] rows] by blast
  then show ?thesis unfolding preserves_def using step(2) applied_frozen [OF parts(1) c(3)] by blast
qed

lemma revoked_intents_step:
  assumes "launch_ok d" and "\<And>x. x \<in> set ids \<Longrightarrow> \<exists>i \<in> set (db_intents d). in_id i = x \<and> in_state i \<in> set active_states"
    and "db_intents d' = db_intents (revoke_intents ids d)"
  shows "intents_step d d'"
proof (rule intents_map [of d "\<lambda>i. in_id i \<in> set ids" "\<lambda>i. i\<lparr>in_state := ''reconcile_required'', in_permit := None\<rparr>"])
  fix i assume i: "i \<in> set (db_intents d)" "in_id i \<in> set ids"
  obtain j where "j \<in> set (db_intents d)" "in_id j = in_id i" "in_state j \<in> set active_states"
    using assms(2) [OF i(2)] by blast
  moreover have "distinct (map in_id (db_intents d))" using assms(1) by (simp add: launch_ok_def intents_ok_def)
  ultimately have "in_state i \<in> set active_states"
    using i(1) by (metis distinct_map inj_onD)
  then have "intent_ok i \<Longrightarrow> \<not> settled i" using settled_not_active by blast
  then show "intent_le i (i\<lparr>in_state := ''reconcile_required'', in_permit := None\<rparr>)"
    by (auto simp: intent_le_def intent_ok_def settled_def)
qed (use assms(3) in \<open>simp add: revoke_intents_def\<close>)

lemma transition_tx_preserves:
  assumes ok: "launch_ok d" and run: "transition_activity_tx w tk t d = Inr (x, d')" shows "preserves d d'"
proof -
  obtain old revoked payload where "assert_activity_binding w tk (tr_activity t) d = Inr old"
      "ac_state old \<notin> set terminal_states" "ac_state old = tr_expected t"
    and rev: "revoked = (if tr_new t \<in> set terminal_states then revoked_below d (tr_activity t) else [])"
    and d': "d' = add_event ''activity_transition'' payload
     (update_activity (tr_activity t) (moved t old) (revoke_intents revoked d))" and "x = moved t old old"
    by (rule transition_tx_Inr [OF run])
  have "\<exists>i \<in> set (db_intents d). in_id i = y \<and> in_state i \<in> set active_states" if "y \<in> set revoked" for y
    using that rev revoked_below_iff [of y d "tr_activity t"] by (auto split: if_splits)
  then have "intents_step d d' \<and> db_accounting d' = db_accounting d \<and> db_limits d' = db_limits d"
    using revoked_intents_step [OF ok, of revoked d'] d' by simp
  moreover have "stepped d d'" by (rule transition_tx_stepped [OF _ run]) (use ok in \<open>simp add: launch_ok_def\<close>)
  ultimately show ?thesis using stepped_preserves [OF ok] by blast
qed

lemma transition_preserves:
  assumes "launch_ok d" shows "preserves d (snd (transition_activity w tk t d))"
  using tx_preserves [OF assms, of "transition_activity_tx w tk t"] transition_tx_preserves [OF assms] preserves_refl [OF assms]
  by (simp add: transition_activity_def)

text \<open>The other activity calls touch no intent.\<close>

definition launches_frame :: "db \<Rightarrow> db \<Rightarrow> bool" where
  "launches_frame d d' = (db_intents d' = db_intents d \<and> db_accounting d' = db_accounting d \<and> db_limits d' = db_limits d)"

lemma launches_frame_tx:
  "(\<And>x d'. body d = Inr (x, d') \<Longrightarrow> launches_frame d d') \<Longrightarrow> launches_frame d (snd (transaction body d))"
  by (cases rule: transaction_cases [of body d]) (auto simp: launches_frame_def)

lemma framed_preserves: "launch_ok d \<Longrightarrow> stepped d d' \<Longrightarrow> launches_frame d d' \<Longrightarrow> preserves d d'"
  by (rule stepped_preserves) (simp_all add: launches_frame_def intents_same)

lemma launches_frame_refl [simp]: "launches_frame d d"
  by (simp add: launches_frame_def)

lemma insert_activity_launches: "insert_activity r d = Inr d' \<Longrightarrow> launches_frame d d'"
  by (auto simp: insert_activity_def launches_frame_def)

lemma create_launches: "launches_frame d (snd (create_activity w tk args d))"
proof -
  have "launches_frame d (snd (transaction (create_activity_tx w tk k g b key) d))" for k g b key
    by (rule launches_frame_tx)
      (auto simp: create_activity_tx_def Let_def dest!: insert_activity_launches split: option.splits if_split_asm)
  then show ?thesis by (cases args) (simp add: create_activity_def)
qed

lemma select_launches: "launches_frame d (snd (select_activity w tk args d))"
proof -
  have "launches_frame d (snd (transaction (select_activity_tx w tk k g x y) d))" for k g x y
    by (rule launches_frame_tx)
      (auto simp: select_activity_tx_def Let_def dest!: insert_activity_launches split: option.splits if_split_asm)
  then show ?thesis by (cases args) (simp add: select_activity_def)
qed

lemma runtime_launches: "launches_frame d (snd (bind_runtime w tk args d))"
proof -
  have "launches_frame d (snd (transaction (bind_runtime_tx w tk a h) d))" for a h
    by (rule launches_frame_tx) (auto simp: bind_runtime_tx_def reread_Inr launches_frame_def split: if_split_asm)
  then show ?thesis by (cases args) (simp add: bind_runtime_def)
qed

lemma event_launches: "launches_frame d (snd (record_event_once w tk args d))"
proof -
  have "launches_frame d (snd (transaction (\<lambda>d. bindR (assert_activity_binding w tk a d) (\<lambda>_.
      record_event_once_tx w tk a k p d)) d))" for a k p
    by (rule launches_frame_tx) (auto dest!: record_event_frame simp: launches_frame_def dest: event_frameD)
  then show ?thesis by (cases args) (simp add: record_event_once_def split: pyval.splits)
qed

lemma debit_launches: "launches_frame d (snd (debit_budget w tk args d))"
proof -
  have "launches_frame d (snd (transaction (debit_tx w tk a n key) d))" for a n key
  proof (rule launches_frame_tx)
    fix b d' assume "debit_tx w tk a n key d = Inr (b, d')"
    then show "launches_frame d d'" by (cases rule: debit_tx_cases) (simp_all add: launches_frame_def)
  qed
  then show ?thesis by (cases args) (simp add: debit_budget_def)
qed

lemma activity_preserves:
  assumes "activity_step d d'" and "launch_ok d" shows "preserves d d'"
proof -
  have ok: "activities_ok d" using assms(2) by (simp add: launch_ok_def)
  note framed = framed_preserves [OF assms(2)]
  from assms(1) show ?thesis
  proof cases
    case (create w tk args) then show ?thesis using framed [OF create_stepped create_launches] by simp
  next
    case (runtime w tk args) then show ?thesis using framed [OF runtime_stepped [OF ok] runtime_launches] by simp
  next
    case (transit w tk t) then show ?thesis using transition_preserves [OF assms(2)] by simp
  next
    case (select w tk sel) then show ?thesis using framed [OF select_stepped [OF ok] select_launches] by simp
  next
    case (event w tk ev) then show ?thesis using framed [OF event_stepped event_launches] by simp
  next
    case (debit w tk db) then show ?thesis using framed [OF debit_stepped [OF ok] debit_launches] by simp
  qed
qed

section \<open>The launch calls\<close>

lemma launch_okD:
  assumes "launch_ok d"
  shows "activities_ok d" "intents_ok d" "ledger_ok d" "distinct (map in_id (db_intents d))"
    "intent_of i d = Some row \<Longrightarrow> intent_ok row" "row \<in> set (db_intents d) \<Longrightarrow> intent_ok row"
  using assms by (auto simp: launch_ok_def intents_ok_def dest: intent_of_in)

lemma intent_of_unique: "launch_ok d \<Longrightarrow> e \<in> set (db_intents d) \<Longrightarrow> intent_of (in_id e) d = Some e"
  unfolding intent_of_def by (rule distinct_map_find [OF launch_okD(4)])

text \<open>A call that moves one intent and leaves the rest alone.\<close>

lemma update_intent_preserves:
  assumes ok: "launch_ok d" and row: "intent_of k d = Some row" and le: "intent_le row (f row)"
    and act: "\<And>x. in_activity (f x) = in_activity x" and frame: "core_frame (update_intent k f d) d'"
  shows "preserves d d'"
proof (rule moved_preserves [OF ok])
  show "intents_step d d'"
    by (rule intents_update [of d k row f d', OF launch_okD(4) [OF ok] row le]) (use frame in \<open>simp add: core_frame_def\<close>)
  show "map in_activity (db_intents d') = map in_activity (db_intents d)"
    using frame by (simp add: core_frame_def map_activity_update act)
qed (use frame in \<open>simp_all add: core_frame_def\<close>)

lemma set_state_activity [simp]: "in_activity (set_state st x) = in_activity x"
  by (simp add: set_state_def)

lemma preserves_trans_core:
  assumes "core_frame d d1" "launch_ok d" "preserves d1 d2" shows "preserves d d2"
proof -
  have f: "db_intents d1 = db_intents d" "db_activities d1 = db_activities d" using assms(1) by (simp_all add: core_frame_def)
  show ?thesis using assms(3) unfolding preserves_def intents_step_def f .
qed

lemma core_ok: "core_frame d d' \<Longrightarrow> launch_ok d \<Longrightarrow> launch_ok d'"
  using core_preserves by (auto simp: preserves_def)

lemma preflight_preserves:
  assumes ok: "launch_ok d" and k: "\<And>u d1. launch_ok d1 \<Longrightarrow> preserves d1 (snd (k u d1))"
  shows "preserves d (snd (seq_op (preflight_policy_clock w tk b n d) k))"
proof -
  obtain r d1 where r: "preflight_policy_clock w tk b n d = (r, d1)" by (cases "preflight_policy_clock w tk b n d")
  have core: "core_frame d d1" using preflight_core [of d w tk b n] r by simp
  note ok1 = core_ok [OF core ok]
  show ?thesis
    unfolding r using core_preserves [OF ok core] preserves_trans_core [OF core ok k [OF ok1]] by (cases r) simp_all
qed

lemma recover_preserves:
  assumes ok: "launch_ok d" shows "preserves d (snd (recover_intent w tk args d))"
proof -
  have "preserves d (snd (transaction (recover_tx w tk i row) d))" for i row
  proof (rule tx_preserves [OF ok])
    fix x d' assume "recover_tx w tk i row d = Inr (x, d')"
    from recover_tx_Inr [OF this] have r: "intent_of i d = Some row"
      and d': "d' = update_intent i (set_state (recovered_state w tk row)) d" by auto
    have "intent_le row (set_state (recovered_state w tk row) row)"
      by (rule intent_le_state) (auto simp: settled_def recovered_state_def Let_def)
    then show "preserves d d'"
      by (intro update_intent_preserves [OF ok r, of "set_state (recovered_state w tk row)"]) (simp_all add: d')
  qed
  then show ?thesis
    using preserves_refl [OF ok] by (cases args) (simp add: recover_intent_def split: option.split)
qed

lemma close_dead_preserves:
  assumes ok: "launch_ok d" shows "preserves d (snd (close_dead_qualification_intent w tk args d))"
proof -
  have "preserves d (snd (transaction (close_dead_tx w tk i found) d))"
    if found: "dead_qualification w tk key i seen = Some found" for i found key seen
  proof (rule tx_preserves [OF ok])
    fix x d' assume run: "close_dead_tx w tk i found d = Inr (x, d')"
    obtain row own kid where f: "found = (row, own, kid)" by (cases found)
    from close_dead_tx_Inr [OF run [unfolded f]] obtain p where r: "intent_of i d = Some row"
      and d': "d' = add_event ''qualification_intent_closed_dead'' p (update_intent i (set_state ''closed_dead'') d)" by auto
    have "in_completion row = None" using dead_qualification_Some [OF found [unfolded f]] by simp
    then have "intent_le row (set_state ''closed_dead'' row)"
      by (intro intent_le_state) (auto simp: settled_def)
    then show "preserves d d'"
      by (intro update_intent_preserves [OF ok r, of "set_state ''closed_dead''"]) (simp_all add: d' core_of_event event_frame_add)
  qed
  then show ?thesis
    using preserves_refl [OF ok]
    by (cases args) (simp add: close_dead_qualification_intent_def split: option.split sum.split)
qed

lemma ack_preserves:
  assumes ok: "launch_ok d" shows "preserves d (snd (acknowledge_child w tk q d))"
proof -
  have "preserves d (snd (transaction (ack_tx w tk q obs k) d))" for obs k
  proof (rule tx_preserves [OF ok])
    fix r d' assume "ack_tx w tk q obs k d = Inr (r, d')"
    then obtain row where row: "intent_of (aq_intent q) d = Some row"
        "in_state row \<in> {''reserved'', ''acknowledged'', ''released_to_execute''}"
      and frame: "core_frame (update_intent (aq_intent q) (bind_child (aq_identity q) k) d) d'"
      by (rule ack_tx_Inr)
    have "intent_ok row \<Longrightarrow> \<not> settled row" using row(2) settled_state by fastforce
    then have "intent_le row (bind_child (aq_identity q) k row)"
      by (auto simp: intent_le_def bind_child_def intent_ok_def settled_def)
    then show "preserves d d'" by (rule update_intent_preserves [OF ok row(1) _ _ frame]) (simp add: bind_child_def)
  qed
  then show ?thesis
    using preserves_refl [OF ok] by (simp add: acknowledge_child_def split: sum.split)
qed

lemma contained_preserves:
  assumes ok: "launch_ok d" shows "preserves d (snd (record_contained_process w tk args d))"
proof -
  have "preserves d (snd (transaction (contained_tx w tk i report l) d))" for i report l
  proof (rule tx_preserves [OF ok])
    fix x d' assume "contained_tx w tk i report l d = Inr (x, d')"
    then have "core_frame d d'" unfolding contained_tx_def case_option_refuse
      by (elim exE conjE) (auto dest!: record_stopped_frame core_of_event advance_clock_frame
          intro: core_frame_trans split: if_split_asm)
    then show "preserves d d'" by (rule core_preserves [OF ok])
  qed
  then show ?thesis
    using preserves_refl [OF ok] by (cases args) (simp add: record_contained_process_def split: sum.split prod.split)
qed

lemma release_preserves:
  assumes ok: "launch_ok d" and check: "permit_check w tk q d = Inr row" and core: "core_frame d d1"
    and ev: "event_frame (update_intent (in_id row) (release_intent p) (update_activity (in_activity row) (activate tk) d1)) d'"
  shows "preserves d d'"
proof -
  note f = event_frameD [OF ev] core [unfolded core_frame_def]
  from permit_check_Inr [OF check] obtain act where c: "intent_of (pq_intent q) d = Some row" "in_ack row = Some (pq_ack q)"
      "in_child row = Some (pq_child q)" "in_state row \<in> {''acknowledged'', ''released_to_execute''}"
    and act: "assert_activity_binding w tk (in_activity row) d = Inr act" "ac_state act \<in> {''pending'', ''active''}"
    by blast
  have row: "intent_of (in_id row) d = Some row" using intent_of_in [OF c(1)] c(1) by simp
  have "intent_ok row \<Longrightarrow> \<not> settled row" using c(4) settled_state by fastforce
  then have le: "intent_le row (release_intent p row)"
    using c(2,3) by (auto simp: intent_le_def release_intent_def intent_ok_def settled_def)
  show ?thesis
  proof (rule stepped_preserves [OF ok])
    show "stepped d d'"
      by (rule update_stepped [OF launch_okD(1) [OF ok], of "in_activity row" act _ "activate tk"])
        (use act f in \<open>simp_all add: assert_binding_Inr activate_def same_run_def is_open_def terminal_states_def
           map_activity_update release_intent_def, auto\<close>)
    show "intents_step d d'"
      by (rule intents_update [of d "in_id row" row "release_intent p" d', OF launch_okD(4) [OF ok] row le])
        (simp add: f)
  qed (simp_all add: f)
qed

lemma authorize_tx_preserves:
  assumes ok: "launch_ok d" shows "preserves d (snd (transaction (authorize_tx w tk q) d))"
proof (rule tx_preserves [OF ok])
  fix r d' assume "authorize_tx w tk q d = Inr (r, d')"
  then show "preserves d d'"
  proof (cases rule: authorize_tx_cases)
    case (refused code) then show ?thesis by (intro core_preserves [OF ok])
  next
    case (released row p d1)
    then show ?thesis by (intro release_preserves [OF ok, of w tk q row d1 p])
  qed
qed

lemma authorize_preserves:
  assumes ok: "launch_ok d" shows "preserves d (snd (authorize_child w tk q d))"
  unfolding authorize_child_def
  by (rule preflight_preserves [OF ok]) (use authorize_tx_preserves in \<open>simp add: seq_op_snd\<close>)

text \<open>A fresh launch takes one attempt from its activity.\<close>

lemma debited_launch:
  assumes "db_debits d' = db_debits d" and "db_intents d' = db_intents d @ [i]"
  shows "debited d' a = debited d a + (if in_activity i = a then 1 else 0)"
  using assms by (simp add: debited_def)

lemma charged_activities_ok:
  assumes ok: "activities_ok d" and act: "activity_of a d = Some act" "0 < ac_remaining act" and i: "in_activity i = a"
    and rows: "db_activities d' = update_where (\<lambda>x. ac_id x = a) (\<lambda>x. x\<lparr>ac_remaining := ac_remaining x - 1\<rparr>) (db_activities d)"
      "db_intents d' = db_intents d @ [i]" "db_debits d' = db_debits d" "db_bindings d' = db_bindings d"
  shows "activities_ok d' \<and> activities_kept d d'
     \<and> (\<forall>x \<in> set (db_activities d). \<exists>x' \<in> set (db_activities d'). ac_id x' = ac_id x \<and> ac_state x' = ac_state x \<and> ac_result x' = ac_result x)"
proof -
  note act' = activity_of_in [OF act(1)]
  let ?f = "\<lambda>x. if x = act then act\<lparr>ac_remaining := ac_remaining act - 1\<rparr> else x"
  have mapped: "db_activities d' = map ?f (db_activities d)"
    using update_where_distinct [OF activities_okD(1) [OF ok], of act "\<lambda>x. x\<lparr>ac_remaining := ac_remaining x - 1\<rparr>"] act' rows(1)
    by simp
  note D = debited_launch [OF rows(3,2)]
  have "activities_ok d'"
    by (rule rewrite_ok [OF ok rows(4) _ conjunct1 [OF act'], of "act\<lparr>ac_remaining := ac_remaining act - 1\<rparr>"])
      (use mapped act act' i D activities_okD(4) [OF ok conjunct1 [OF act']] rows(2,3)
        in \<open>auto simp: same_run_def is_open_def dest: activities_okD(6) [OF ok]\<close>)
  moreover have "activities_kept d d'"
    by (rule kept_map [OF mapped]) (simp add: same_run_def)
  moreover have "\<forall>x \<in> set (db_activities d). \<exists>x' \<in> set (db_activities d'). ac_id x' = ac_id x \<and> ac_state x' = ac_state x \<and> ac_result x' = ac_result x"
  proof
    fix x assume "x \<in> set (db_activities d)"
    then have "?f x \<in> set (db_activities d')" unfolding mapped set_map by (rule imageI)
    moreover have "ac_id (?f x) = ac_id x \<and> ac_state (?f x) = ac_state x \<and> ac_result (?f x) = ac_result x" by simp
    ultimately show "\<exists>x' \<in> set (db_activities d'). ac_id x' = ac_id x \<and> ac_state x' = ac_state x \<and> ac_result x' = ac_result x"
      by blast
  qed
  ultimately show ?thesis by blast
qed

lemma allowance_Inr:
  "launch_allowance tk n d l = Inr () \<Longrightarrow> rl_dispatch_used l < rl_dispatch_limit l \<and> n \<le> rl_token_limit l - rl_committed l
     \<and> (\<exists>cap. effective_worker_capacity tk d l = Inr cap \<and> int (active_capacity_launch_count tk d) < cap)
     \<and> (\<forall>i \<in> set (db_intents d). \<not> unreconciled tk d i)"
  by (auto simp: launch_allowance_def list_ex_iff split: if_split_asm)

text \<open>One fresh launch of an activity: an intent more, an attempt less.\<close>

definition fresh_rows :: "string \<Rightarrow> intent \<Rightarrow> db \<Rightarrow> db \<Rightarrow> bool" where
  "fresh_rows a i d d' = (in_activity i = a \<and> in_state i = ''reserved'' \<and> in_completion i = None
     \<and> in_id i \<notin> set (map in_id (db_intents d)) \<and> db_intents d' = db_intents d @ [i]
     \<and> db_activities d' = update_where (\<lambda>x. ac_id x = a) (\<lambda>x. x\<lparr>ac_remaining := ac_remaining x - 1\<rparr>) (db_activities d)
     \<and> db_debits d' = db_debits d \<and> db_bindings d' = db_bindings d)"

lemma fresh_launch:
  assumes ok: "launch_ok d" and act: "activity_of a d = Some act" "0 < ac_remaining act" and rows: "fresh_rows a i d d'"
  shows "intents_step d d'" "activities_kept d d'" "ledger_ok d' \<Longrightarrow> preserves d d'"
proof -
  note r = rows [unfolded fresh_rows_def]
  have acts: "activities_ok d'" "activities_kept d d'"
    "\<forall>x \<in> set (db_activities d). \<exists>x' \<in> set (db_activities d'). ac_id x' = ac_id x \<and> ac_state x' = ac_state x \<and> ac_result x' = ac_result x"
    using charged_activities_ok [OF launch_okD(1) [OF ok] act, of i d'] r by auto
  show step: "intents_step d d'"
    unfolding intents_step_def
    by (rule exI [of _ "db_intents d"], rule exI [of _ "[i]"])
      (use r in \<open>auto simp: list.rel_refl intent_ok_def settled_def new_intents_def\<close>)
  show "activities_kept d d'" by (rule acts(2))
  show "preserves d d'" if "ledger_ok d'"
    unfolding preserves_def launch_ok_def
    using that acts step intents_step_ok [OF step launch_okD(2) [OF ok]] by blast
qed

text \<open>Its row in the ledger of a run with limits.\<close>

definition ledger_rows :: "owner_token \<Rightarrow> string \<Rightarrow> int \<Rightarrow> db \<Rightarrow> db \<Rightarrow> bool" where
  "ledger_rows tk i n d d' = ((\<forall>x \<in> set (db_accounting d). la_intent x \<noteq> i)
     \<and> db_limits d' = update_where (limits_match tk) (commit_tokens tk n) (db_limits d)
     \<and> db_accounting d' = db_accounting d @ [accounting_row tk i n])"

lemma accounted_launch:
  assumes ok: "launch_ok d" and bind: "assert_activity_binding w tk a d = Inr act" and left: "0 < ac_remaining act"
    and rows: "fresh_rows a i d d'" "ledger_rows tk (in_id i) n d d'"
    and l: "limits_of tk d = Some l" "rl_dispatch_used l < rl_dispatch_limit l" "n \<le> rl_token_limit l - rl_committed l" "0 \<le> n"
  shows "preserves d d'"
proof -
  have act: "activity_of a d = Some act" "ac_repo act = tk_repo tk" "ac_run act = tk_run tk"
    using bind by (simp_all add: assert_binding_Inr)
  note fresh = fresh_launch [OF ok act(1) left rows(1)]
  obtain b where "b \<in> set (db_activities d')" "ac_id b = a" "ac_repo b = tk_repo tk" "ac_run b = tk_run tk"
    using fresh(2) act activity_of_in [OF act(1)] unfolding activities_kept_def same_run_def by metis
  then have link: "\<exists>r \<in> set (db_intents d'). \<exists>b \<in> set (db_activities d'). in_id r = in_id i \<and> ac_id b = in_activity r
      \<and> ac_repo b = tk_repo tk \<and> ac_run b = tk_run tk" using rows(1) by (auto simp: fresh_rows_def)
  from rows(2) have "db_limits d' = update_where (limits_match tk) (commit_tokens tk n) (db_limits d)"
    "db_accounting d' = db_accounting d @ [accounting_row tk (in_id i) n]" "\<forall>x \<in> set (db_accounting d). la_intent x \<noteq> in_id i"
    by (simp_all add: ledger_rows_def)
  from ledger_reserve [OF launch_okD(3,2) [OF ok] fresh(1,2) l this link] show ?thesis by (rule fresh(3))
qed

lemma write_preserves:
  assumes ok: "launch_ok d" and bind: "assert_activity_binding w tk a d = Inr act" and left: "0 < ac_remaining act"
    and allow: "\<And>l. limits_of tk d = Some l \<Longrightarrow> launch_allowance tk (int_of (lr_tokens q)) d l = Inr ()"
    and n: "0 \<le> int_of (lr_tokens q)" and run: "reserve_write w tk a q d = Inr (i, d')"
  shows "preserves d d'"
proof -
  note W = reserve_write_Inr [OF run]
  have rows: "fresh_rows a i d d'" using W by (auto simp: fresh_rows_def new_intent_def intent_clash_def)
  show ?thesis
  proof (cases "limits_of tk d")
    case None
    have act: "activity_of a d = Some act" using bind by (simp add: assert_binding_Inr)
    note fresh = fresh_launch [OF ok act left rows]
    show ?thesis using W None ledger_quiet [OF launch_okD(3,2) [OF ok] fresh(1,2)] fresh(3) by simp
  next
    case (Some l)
    then have "ledger_rows tk (in_id i) (int_of (lr_tokens q)) d d'"
      using W unfolding Some option.case ledger_rows_def by blast
    from accounted_launch [OF ok bind left rows this Some _ _ n] allowance_Inr [OF allow [OF Some]] show ?thesis by blast
  qed
qed

lemma reserve_tx_preserves:
  assumes ok: "launch_ok d" and n: "0 \<le> int_of (lr_tokens q)"
  shows "preserves d (snd (transaction (reserve_launch_tx w tk a q c) d))"
proof (rule tx_preserves [OF ok])
  fix x d' assume run: "reserve_launch_tx w tk a q c d = Inr (x, d')"
  obtain i reused where x: "x = (i, reused)" by (cases x)
  from run [unfolded x] show "preserves d d'"
  proof (cases rule: reserve_tx_cases)
    case same then show ?thesis using preserves_refl [OF ok] by simp
  next
    case (unknown e)
    then have e: "e \<in> set (db_intents d)" "in_state e \<in> set active_states" by (simp_all add: active_intents_def)
    have "intent_ok e" using launch_okD(6) [OF ok e(1)] .
    then have "\<not> settled e" using e(2) settled_not_active by blast
    then have "intent_le e (set_state ''reconcile_required'' e)" by (intro intent_le_state) simp_all
    then show ?thesis using unknown(4)
      by (intro update_intent_preserves [OF ok intent_of_unique [OF ok e(1)], of "set_state ''reconcile_required''"]) simp_all
  next
    case (fresh act)
    then show ?thesis
      using reserve_gate_fresh [OF fresh(2)] write_preserves [OF ok _ fresh(5) fresh(6) n fresh(7)] by blast
  qed
qed

lemma launch_inputs_tokens: "launch_inputs q = Inr u \<Longrightarrow> 0 \<le> int_of (lr_tokens q)"
  by (auto simp: launch_inputs_def valid_nonnegative_integer_def split: if_split_asm pyval.splits)

lemma reserve_preserves:
  assumes ok: "launch_ok d" shows "preserves d (snd (reserve_launch w tk args d))"
proof -
  obtain a q c where args: "args = (a, q, c)" by (cases args)
  show ?thesis
  proof (cases "launch_inputs q")
    case (Inl e) then show ?thesis using preserves_refl [OF ok] by (simp add: reserve_launch_def args)
  next
    case (Inr u)
    then show ?thesis
      using preflight_preserves [OF ok reserve_tx_preserves [OF _ launch_inputs_tokens [OF Inr]]]
      by (simp add: reserve_launch_def args)
  qed
qed

text \<open>A completion settles its own accounting row, or none.\<close>

lemma linked_run:
  assumes ok: "launch_ok d" and x: "x \<in> set (db_accounting d)" "la_intent x = in_id row" and row: "intent_of i d = Some row"
    and bind: "assert_activity_binding w tk (in_activity row) d = Inr act"
  shows "run_of_accounting x = (tk_repo tk, tk_run tk) \<and> (\<not> settled row \<longrightarrow> la_final x = None)"
proof -
  have "linked d x" using launch_okD(3) [OF ok] x(1) by (simp add: ledger_ok_def)
  then obtain j b where j: "j \<in> set (db_intents d)" "b \<in> set (db_activities d)" "in_id j = la_intent x" "ac_id b = in_activity j"
      "(ac_repo b, ac_run b) = run_of_accounting x" "la_final x \<noteq> None \<longrightarrow> settled j"
    unfolding linked_def by blast
  have "j = row"
    using j(1,3) x(2) intent_of_in [OF row] launch_okD(4) [OF ok] by (auto simp: distinct_map inj_on_def)
  moreover have "b = act"
    using j(2,4) \<open>j = row\<close> bind activity_of_in [of "in_activity row" d act] activities_okD(1) [OF launch_okD(1) [OF ok]]
    by (auto simp: assert_binding_Inr distinct_map inj_on_def)
  ultimately show ?thesis using j bind by (cases "la_final x") (simp_all add: assert_binding_Inr)
qed

lemma complete_intent_le:
  assumes "\<not> settled i" and "st \<in> {''succeeded'', ''failed'', ''uncertain''}"
  shows "intent_le i (complete_intent st enc u i)"
  using assms by (auto simp: intent_le_def intent_ok_def settled_def complete_intent_def completed_state_def)

lemma complete_preserves:
  assumes ok: "launch_ok d" shows "preserves d (snd (complete_launch w tk q d))"
proof -
  have "preserves d (snd (transaction (complete_tx w tk q e terminal obs) d))"
    if inputs: "completion_inputs w q = Inr e" for e terminal obs
  proof (rule tx_preserves [OF ok])
    fix x d' assume run: "complete_tx w tk q e terminal obs d = Inr (x, d')"
    obtain i reused where x: "x = (i, reused)" by (cases x)
    note C = completion_inputs_Inr [OF inputs]
    from run [unfolded x] show "preserves d d'"
    proof (cases rule: complete_tx_cases)
      case replay then show ?thesis using preserves_refl [OF ok] by simp
    next
      case (settled row acc act)
      note W = complete_write_Inr [OF settled(11)]
      have row: "row \<in> set (db_intents d)" "in_id row = cq_intent q" using intent_of_in [OF settled(2)] by auto
      have acc: "acc \<in> set (db_accounting d)" "la_intent acc = in_id row" using accounting_of_in [OF settled(5)] row(2) by auto
      have open_row: "\<not> Launch_Safety.settled row" using settled(6) by (auto simp: settled_def)
      let ?f = "complete_intent (cq_status q) (json_dumps (PDict e)) (final_usage q)"
      have step: "intents_step d d'"
        by (rule intents_update [of d "cq_intent q" row ?f d', OF launch_okD(4) [OF ok] settled(2) complete_intent_le [OF open_row]])
          (use C W in blast)+
      have same: "db_activities d' = db_activities d" "db_debits d' = db_debits d" "db_bindings d' = db_bindings d"
        "map in_activity (db_intents d') = map in_activity (db_intents d)"
        using W by (simp_all add: map_activity_update complete_intent_def)
      note linked = linked_run [OF ok acc settled(2,3)]
      show ?thesis
      proof (cases "final_usage q")
        case None
        have "set_final None y = y" if "y \<in> set (db_accounting d)" "la_intent y = cq_intent q" for y
        proof -
          have "y = acc" using that acc row(2) launch_okD(3) [OF ok] by (auto simp: ledger_ok_def distinct_map inj_on_def)
          then show ?thesis using linked open_row by (simp add: set_final_def)
        qed
        then have "db_accounting d' = db_accounting d" using W None by (auto simp: update_where_def intro!: map_idI)
        moreover have "db_limits d' = db_limits d" using W None by simp
        ultimately show ?thesis by (intro moved_preserves [OF ok step same(4,1,2,3)])
      next
        case (Some u)
        then have st: "cq_status q \<in> {''succeeded'', ''failed''}" and u: "cq_usage q = PInt u" "0 \<le> u"
          using C by (auto simp: final_usage_def usage_of_def split: if_split_asm)
        have bound: "u \<le> la_reservation acc" using settled(10) st u by auto
        have rows: "count_where (\<lambda>l. limits_match tk l \<and> rl_committed l \<ge> la_reservation acc - u) (db_limits d) = 1"
          "db_limits d' = update_where (\<lambda>l. limits_match tk l \<and> rl_committed l \<ge> la_reservation acc - u)
                (settle_tokens tk (la_reservation acc - u) u) (db_limits d)"
          "db_accounting d' = update_where (\<lambda>y. la_intent y = la_intent acc) (set_final (Some u)) (db_accounting d)"
          using W acc(2) row(2) unfolding Some option.case by simp_all
        have "?f row \<in> set (db_intents d')" using W row by (auto simp: set_update_where)
        moreover have "in_id (?f row) = la_intent acc" "Launch_Safety.settled (?f row)"
          using acc st by (auto simp: complete_intent_def settled_def)
        ultimately have final: "\<exists>i \<in> set (db_intents d'). in_id i = la_intent acc \<and> Launch_Safety.settled i" by blast
        have "ledger_ok d'"
          by (rule ledger_complete [OF launch_okD(3,2) [OF ok] step activities_kept_same [OF same(1)] acc(1) _ _ u(2) bound rows final])
            (use linked open_row in auto)
        moreover have "activities_ok d'"
          using activities_ok_cong [OF same(1,2,3,4)] launch_okD(1) [OF ok] by simp
        ultimately show ?thesis
          unfolding preserves_def launch_ok_def using step same(1) intents_step_ok [OF step launch_okD(2) [OF ok]] by auto
      qed
    qed
  qed
  then show ?thesis
    using preserves_refl [OF ok] by (simp add: complete_launch_def split: sum.split option.split)
qed

section \<open>The limits\<close>

lemma configure_preserves:
  assumes ok: "launch_ok d" shows "preserves d (snd (configure_run_limits w tk args d))"
proof -
  have core: "core_frame d (install_context d)" by (simp add: core_frame_def install_context_def)
  have tx: "preserves d (snd (transaction (configure_limits_tx w tk dl tl' cap) d))"
    if that: "0 \<le> dl" "0 \<le> tl'" and ok: "launch_ok d" for dl tl' cap d
  proof (rule tx_preserves [OF ok])
    fix x d' assume run: "configure_limits_tx w tk dl tl' cap d = Inr (x, d')"
    show "preserves d d'"
    proof (cases "limits_of tk d")
      case (Some l)
      then have "d' = d" using run by (auto simp: configure_limits_tx_def split: if_split_asm)
      then show ?thesis using preserves_refl [OF ok] by simp
    next
      case None
      let ?l = "\<lparr>rl_repo = tk_repo tk, rl_run = tk_run tk, rl_dispatch_limit = dl, rl_token_limit = tl',
                rl_capacity = cap, rl_dispatch_used = 0, rl_committed = 0, rl_used = 0, rl_generation = tk_generation tk\<rparr>"
      from run None obtain p where unused: "\<not> list_ex (run_intent tk d) (db_intents d)"
        and clash: "\<forall>k \<in> set (db_limits d). \<not> (rl_repo k = tk_repo tk \<and> rl_run k = tk_run tk)"
        and d': "d' = add_event ''run_limits_configured'' p (d\<lparr>db_limits := db_limits d @ [?l]\<rparr>)"
        by (auto simp: configure_limits_tx_def Let_def split: if_split_asm)
      have frame: "core_frame (d\<lparr>db_limits := db_limits d @ [?l]\<rparr>) d'" by (simp add: d' core_frame_def)
      have runs: "(ac_repo a, ac_run a) \<noteq> run_of_limits ?l"
        if "i \<in> set (db_intents d)" "a \<in> set (db_activities d)" "ac_id a = in_activity i" for i a
      proof
        assume "(ac_repo a, ac_run a) = run_of_limits ?l"
        then have "ac_repo a = tk_repo tk" "ac_run a = tk_run tk" by (simp_all add: run_of_limits_def)
        moreover have "activity_of (in_activity i) d = Some a"
          using that(2,3) distinct_map_find [OF activities_okD(1) [OF launch_okD(1) [OF ok]] that(2)]
          by (simp add: activity_of_def)
        ultimately show False using unused that by (auto simp: run_intent_def list_ex_iff)
      qed
      have "ledger_ok d'"
        by (rule ledger_configure [OF launch_okD(3) [OF ok] frame _ runs]) (use clash that in \<open>auto simp: run_of_limits_def\<close>)
      moreover have "activities_ok d'" "intents_ok d'"
        using launch_okD(1,2) [OF ok] activities_ok_cong [of d' d] by (simp_all add: d' intents_ok_def)
      ultimately show ?thesis unfolding preserves_def launch_ok_def by (auto simp: d' intro: intents_same)
    qed
  qed
  show ?thesis
  proof (cases args)
    case (fields dl tl' cap)
    show ?thesis
    proof (cases "valid_nonnegative_integer dl \<and> valid_nonnegative_integer tl'")
      case True
      then have "0 \<le> int_of dl" "0 \<le> int_of tl'" by (auto simp: valid_nonnegative_integer_def split: pyval.splits)
      then show ?thesis
        using preserves_trans_core [OF core ok tx [of "int_of dl" "int_of tl'" "install_context d" "int_of cap"]]
          core_ok [OF core ok] preserves_refl [OF ok]
        by (simp add: fields configure_run_limits_def)
    next
      case False
      then show ?thesis using preserves_refl [OF ok] by (auto simp: fields configure_run_limits_def)
    qed
  qed
qed

end
