(* ===== verification/Grants.thy ===== *)
theory Grants
  imports Launch_Safety
begin

text \<open>
  Operator grants, recorded decisions and the gates projected from them (\<open>ControlStore\<close>,
  \<open>lib/run_state/state.py\<close>). A gate is open when its latest decision is positive, unexpired, made for
  the inputs at hand, and rests on decisions of which the same holds; the memoised search of the code
  is compared with that definition at the end.
\<close>

section \<open>Timestamps\<close>

text \<open>
  \<open>_parse_utc_timestamp\<close>: \<open>strptime\<close> with \<open>%Y-%m-%dT%H:%M:%SZ\<close>. The fields other than the year may have
  one digit, the day also a blank before its digit; letters match in either case; impossible dates
  are refused. The result counts seconds.
\<close>

definition cut :: "char list \<Rightarrow> string \<Rightarrow> (string \<times> string) option" where
  "cut cs s = (case dropWhile (\<lambda>c. c \<notin> set cs) s of [] \<Rightarrow> None
     | _ # r \<Rightarrow> Some (takeWhile (\<lambda>c. c \<notin> set cs) s, r))"

definition time_field :: "nat \<Rightarrow> nat \<Rightarrow> string \<Rightarrow> nat option" where
  "time_field lo hi s = (if (length s = 1 \<or> length s = 2) \<and> list_all digit_char s \<and> lo \<le> digits_val s \<and> digits_val s \<le> hi
     then Some (digits_val s) else None)"

definition day_field :: "string \<Rightarrow> nat option" where
  "day_field s = (case s of c # r \<Rightarrow> if c = CHR '' '' \<and> length r = 1 then time_field 1 9 r else time_field 1 31 s | [] \<Rightarrow> None)"

definition year_field :: "string \<Rightarrow> nat option" where
  "year_field s = (if length s = 4 \<and> list_all digit_char s \<and> 1 \<le> digits_val s then Some (digits_val s) else None)"

definition leap_year :: "nat \<Rightarrow> bool" where
  "leap_year y = (y mod 4 = 0 \<and> (y mod 100 \<noteq> 0 \<or> y mod 400 = 0))"

definition month_days :: "nat \<Rightarrow> nat \<Rightarrow> nat" where
  "month_days y m = (if m = 2 then (if leap_year y then 29 else 28) else if m \<in> set [4, 6, 9, 11] then 30 else 31)"

definition day_number :: "nat \<Rightarrow> nat \<Rightarrow> nat \<Rightarrow> int" where
  "day_number y m d = (let z = int y - 1 in
     365 * z + z div 4 - z div 100 + z div 400 + int (sum_list (map (month_days y) [1..<m])) + int d)"

definition utc_seconds :: "nat \<Rightarrow> nat \<Rightarrow> nat \<Rightarrow> nat \<Rightarrow> nat \<Rightarrow> nat \<Rightarrow> int option" where
  "utc_seconds y m d h i s = (if d \<le> month_days y m then Some (((day_number y m d * 24 + int h) * 60 + int i) * 60 + int s) else None)"

definition parse_utc :: "string \<Rightarrow> int option" where
  "parse_utc s =
     Option.bind (cut ''-'' s) (\<lambda>(y, s1). Option.bind (cut ''-'' s1) (\<lambda>(m, s2).
     Option.bind (cut ''Tt'' s2) (\<lambda>(d, s3). Option.bind (cut '':'' s3) (\<lambda>(h, s4).
     Option.bind (cut '':'' s4) (\<lambda>(i, s5). Option.bind (cut ''Zz'' s5) (\<lambda>(x, rest).
     if rest \<noteq> [] then None
     else Option.bind (year_field y) (\<lambda>y. Option.bind (time_field 1 12 m) (\<lambda>m. Option.bind (day_field d) (\<lambda>d.
       Option.bind (time_field 0 23 h) (\<lambda>h. Option.bind (time_field 0 59 i) (\<lambda>i. Option.bind (time_field 0 59 x) (\<lambda>x.
       utc_seconds y m d h i x))))))))))))"

definition parse_utc_timestamp :: "pyval \<Rightarrow> int option" where
  "parse_utc_timestamp v = (case v of PStr s \<Rightarrow> parse_utc s | _ \<Rightarrow> None)"

definition MAX_GRANT_LIFETIME :: int where
  "MAX_GRANT_LIFETIME = 7 * 24 * 3600"

section \<open>Grants\<close>

record grant_request =
  gq_action :: string
  gq_target :: string
  gq_provenance :: pyval
  gq_expires :: pyval
  gq_key :: string

record grant_handle =
  gh_id :: string
  gh_action :: string
  gh_target :: string
  gh_consumed :: bool

definition grant_by_id :: "string \<Rightarrow> db \<Rightarrow> grant option" where
  "grant_by_id i d = List.find (\<lambda>g. gr_id g = i) (db_grants d)"

definition grant_clash :: "grant \<Rightarrow> grant \<Rightarrow> bool" where
  "grant_clash r x = (gr_id x = gr_id r \<or> (gr_repo x = gr_repo r \<and> gr_run x = gr_run r \<and> gr_key x = gr_key r))"

definition new_grant :: "world \<Rightarrow> owner_token \<Rightarrow> grant_request \<Rightarrow> grant" where
  "new_grant w tk q = \<lparr>gr_id = w_uuid w 0, gr_repo = tk_repo tk, gr_run = tk_run tk, gr_action = gq_action q,
     gr_target = gq_target q, gr_provenance = json_dumps (gq_provenance q), gr_expires = str_of (gq_expires q), gr_key = gq_key q,
     gr_consumed = False, gr_consume_key = None, gr_generation = tk_generation tk\<rparr>"

definition create_grant_tx :: "world \<Rightarrow> owner_token \<Rightarrow> grant_request \<Rightarrow> int \<Rightarrow> grant_handle tx" where
  "create_grant_tx w tk q expiry d =
     bindR (assert_owner w tk d) (\<lambda>_.
     case parse_utc (w_now w) of
       None \<Rightarrow> own_refuse ''INVALID_GRANT''
     | Some now \<Rightarrow>
         if expiry \<le> now then own_refuse ''INVALID_GRANT''
         else (case List.find (\<lambda>g. gr_repo g = tk_repo tk \<and> gr_run g = tk_run tk \<and> gr_key g = gq_key q) (db_grants d) of
             Some g \<Rightarrow>
               if gr_action g \<noteq> gq_action q \<or> gr_target g \<noteq> gq_target q \<or> gr_provenance g \<noteq> json_dumps (gq_provenance q)
                 \<or> PStr (gr_expires g) \<noteq> gq_expires q
               then own_refuse ''IDEMPOTENCY_CONFLICT''
               else Inr (\<lparr>gh_id = gr_id g, gh_action = gq_action q, gh_target = gq_target q, gh_consumed = gr_consumed g\<rparr>, d)
           | None \<Rightarrow>
               bindR (insert_row grant_clash (new_grant w tk q) (db_grants d)) (\<lambda>rows.
               Inr (\<lparr>gh_id = w_uuid w 0, gh_action = gq_action q, gh_target = gq_target q, gh_consumed = False\<rparr>, d\<lparr>db_grants := rows\<rparr>))))"

definition create_grant :: "world \<Rightarrow> owner_token \<Rightarrow> grant_request \<Rightarrow> db \<Rightarrow> grant_handle res \<times> db" where
  "create_grant w tk q d =
     (case (parse_utc (w_now w), parse_utc_timestamp (gq_expires q)) of
        (Some now, Some expiry) \<Rightarrow>
          if expiry \<le> now \<or> expiry - now > MAX_GRANT_LIFETIME then (own_refuse ''INVALID_GRANT'', d)
          else transaction (create_grant_tx w tk q expiry) d
      | _ \<Rightarrow> (own_refuse ''INVALID_GRANT'', d))"

definition expired :: "world \<Rightarrow> string \<Rightarrow> bool" where
  "expired w s = (case (parse_utc (w_now w), parse_utc s) of (Some now, Some expiry) \<Rightarrow> expiry \<le> now | _ \<Rightarrow> True)"

definition mark_consumed :: "string \<Rightarrow> grant \<Rightarrow> grant" where
  "mark_consumed k g = g\<lparr>gr_consumed := True, gr_consume_key := Some k\<rparr>"

definition consume_grant_tx :: "world \<Rightarrow> owner_token \<Rightarrow> string \<Rightarrow> string \<Rightarrow> string \<Rightarrow> string \<Rightarrow> grant_handle tx" where
  "consume_grant_tx w tk i action target key d =
     bindR (assert_owner w tk d) (\<lambda>_.
     case grant_by_id i d of
       None \<Rightarrow> own_refuse ''FENCE_REVOKED''
     | Some g \<Rightarrow>
         if gr_repo g \<noteq> tk_repo tk \<or> gr_run g \<noteq> tk_run tk then own_refuse ''FENCE_REVOKED''
         else if gr_action g \<noteq> action \<or> gr_target g \<noteq> target then own_refuse ''GRANT_MISMATCH''
         else if expired w (gr_expires g) then own_refuse ''GRANT_EXPIRED''
         else if gr_consumed g \<and> gr_consume_key g \<noteq> Some key then own_refuse ''IDEMPOTENCY_CONFLICT''
         else Inr (\<lparr>gh_id = i, gh_action = gr_action g, gh_target = gr_target g, gh_consumed = True\<rparr>,
           if gr_consumed g then d else d\<lparr>db_grants := update_where (\<lambda>x. gr_id x = i) (mark_consumed key) (db_grants d)\<rparr>))"

definition consume_grant :: "world \<Rightarrow> owner_token \<Rightarrow> string \<times> string \<times> string \<times> string \<Rightarrow> db \<Rightarrow> grant_handle res \<times> db" where
  "consume_grant w tk args d = (case args of (i, action, target, key) \<Rightarrow> transaction (consume_grant_tx w tk i action target key) d)"

section \<open>Decisions\<close>

definition GATE_REQUIRED_HASHES :: "(string \<times> string list) list" where
  "GATE_REQUIRED_HASHES =
     [(''review_complete'', [''candidate'', ''runtime'', ''config'']),
      (''repair_authorized'', [''candidate'', ''runtime'', ''config'']),
      (''path_admitted'', [''candidate'', ''runtime'', ''config'', ''policy'', ''dependencies'']),
      (''rollout_ready'', [''candidate'', ''runtime'', ''config'', ''policy'', ''dependencies''])]"

record decision_request =
  dq_gate :: string
  dq_status :: pyval
  dq_hashes :: pyval
  dq_evidence :: pyval
  dq_provenance :: pyval
  dq_dependencies :: "pyval list"
  dq_expires :: pyval

definition has_hashes :: "string list \<Rightarrow> pyval \<Rightarrow> bool" where
  "has_hashes keys v = (case v of PDict h \<Rightarrow> list_all (\<lambda>k. nonempty_str (dict_get h k)) keys | _ \<Rightarrow> False)"

definition run_decisions :: "string \<Rightarrow> string \<Rightarrow> db \<Rightarrow> decision list" where
  "run_decisions repo run d = filter (\<lambda>r. de_repo r = repo \<and> de_run r = run) (db_decisions d)"

definition new_decision :: "world \<Rightarrow> owner_token \<Rightarrow> decision_request \<Rightarrow> bool \<Rightarrow> decision" where
  "new_decision w tk q status = \<lparr>de_id = w_uuid w 0, de_repo = tk_repo tk, de_run = tk_run tk, de_gate = dq_gate q, de_status = status,
     de_hashes = dq_hashes q, de_evidence = dq_evidence q, de_provenance = dq_provenance q,
     de_dependencies = map str_of (dq_dependencies q), de_expires = str_of (dq_expires q), de_generation = tk_generation tk\<rparr>"

text \<open>
  \<open>dict(x)\<close>: a dictionary, or an iterable of pairs with hashable keys; everything else raises. Of an
  iterable of pairs the model keeps the value itself.
\<close>

fun dict_pair :: "pyval \<Rightarrow> unit res" where
  "dict_pair (PList [k, v]) = (if hashable k then Inr () else Inl (TypeError ''unhashable''))"
| "dict_pair (PList _) = Inl (ValueError ''dictionary update sequence'')"
| "dict_pair (PStr s) = (if length s = 2 then Inr () else Inl (ValueError ''dictionary update sequence''))"
| "dict_pair (PDict d) = (if length d = 2 then Inr () else Inl (ValueError ''dictionary update sequence''))"
| "dict_pair _ = Inl (TypeError ''dictionary update sequence'')"

definition dict_copy :: "pyval \<Rightarrow> unit res" where
  "dict_copy v =
     (case v of
        PDict _ \<Rightarrow> Inr ()
      | PList xs \<Rightarrow> bindR (mapR dict_pair xs) (\<lambda>_. Inr ())
      | PStr s \<Rightarrow> if s = [] then Inr () else Inl (ValueError ''dictionary update sequence'')
      | _ \<Rightarrow> Inl (TypeError ''not iterable''))"

text \<open>The \<open>Decision\<close> is built inside the transaction: evidence that is no dictionary rolls it back.\<close>

definition record_decision_tx :: "world \<Rightarrow> owner_token \<Rightarrow> decision_request \<Rightarrow> bool \<Rightarrow> decision tx" where
  "record_decision_tx w tk q status d =
     bindR (assert_owner w tk d) (\<lambda>_.
     if \<not> set (map str_of (dq_dependencies q)) \<subseteq> set (map de_id (run_decisions (tk_repo tk) (tk_run tk) d))
     then own_refuse ''INVALID_DECISION''
     else let row = new_decision w tk q status in
       bindR (insert_row (\<lambda>r x. de_id x = de_id r) row (db_decisions d)) (\<lambda>rows.
       bindR (dict_copy (dq_evidence q)) (\<lambda>_.
       bindR (dict_copy (dq_provenance q)) (\<lambda>_. Inr (row, d\<lparr>db_decisions := rows\<rparr>)))))"

definition record_decision :: "world \<Rightarrow> owner_token \<Rightarrow> decision_request \<Rightarrow> db \<Rightarrow> decision res \<times> db" where
  "record_decision w tk q d =
     (case (map_of GATE_REQUIRED_HASHES (dq_gate q), dq_status q) of
        (Some required, PBool status) \<Rightarrow>
          if \<not> has_hashes required (dq_hashes q) \<or> parse_utc_timestamp (dq_expires q) = None
          then (own_refuse ''INVALID_DECISION'', d)
          else if status \<and> \<not> has_evidence (dq_evidence q) then (own_refuse ''EVIDENCE_REQUIRED'', d)
          else if \<not> list_all nonempty_str (dq_dependencies q) then (own_refuse ''INVALID_DECISION'', d)
          else transaction (record_decision_tx w tk q status) d
      | _ \<Rightarrow> (own_refuse ''INVALID_DECISION'', d))"

definition enumerate_decisions :: "string option \<Rightarrow> db \<Rightarrow> decision list" where
  "enumerate_decisions gate d =
     (case gate of None \<Rightarrow> db_decisions d | Some g \<Rightarrow> filter (\<lambda>r. de_gate r = g) (db_decisions d))"

section \<open>Gates\<close>

text \<open>Of rows with one key the last wins, as in the dictionaries of the code.\<close>

definition decision_of :: "decision list \<Rightarrow> string \<Rightarrow> decision option" where
  "decision_of rows i = List.find (\<lambda>r. de_id r = i) (rev rows)"

definition latest_decision :: "decision list \<Rightarrow> string \<Rightarrow> decision option" where
  "latest_decision rows gate = (if map_of GATE_REQUIRED_HASHES gate = None then None else List.find (\<lambda>r. de_gate r = gate) (rev rows))"

definition hashes_match :: "pydict \<Rightarrow> decision \<Rightarrow> bool" where
  "hashes_match inputs r =
     (case (map_of GATE_REQUIRED_HASHES (de_gate r), de_hashes r) of
        (Some required, PDict h) \<Rightarrow> list_all (\<lambda>k. nonempty_str (dict_get h k) \<and> dict_get inputs k = dict_get h k) required
      | _ \<Rightarrow> False)"

text \<open>The checks of a single row: each failure is memoised.\<close>

definition current_decision :: "decision list \<Rightarrow> pydict \<Rightarrow> int \<Rightarrow> decision \<Rightarrow> bool" where
  "current_decision rows inputs now r =
     ((case latest_decision rows (de_gate r) of None \<Rightarrow> False | Some c \<Rightarrow> de_id c = de_id r)
      \<and> (case parse_utc (de_expires r) of None \<Rightarrow> False | Some expiry \<Rightarrow> now < expiry)
      \<and> hashes_match inputs r)"

type_synonym memo = "(string \<times> bool) list"

function (sequential) decision_valid :: "(decision \<Rightarrow> bool) \<Rightarrow> decision list \<Rightarrow> memo \<Rightarrow> string list \<Rightarrow> string \<Rightarrow> bool \<times> memo"
  and decisions_valid :: "(decision \<Rightarrow> bool) \<Rightarrow> decision list \<Rightarrow> memo \<Rightarrow> string list \<Rightarrow> string list \<Rightarrow> bool \<times> memo"
where
  "decision_valid ok rows m visiting i =
     (case decision_of rows i of
        None \<Rightarrow> (False, m)
      | Some r \<Rightarrow>
          (case map_of m i of
             Some b \<Rightarrow> (b, m)
           | None \<Rightarrow>
               if i \<in> set visiting \<or> \<not> de_status r then (False, m)
               else if \<not> ok r then (False, (i, False) # m)
               else case decisions_valid ok rows m (i # visiting) (de_dependencies r) of (b, m') \<Rightarrow> (b, (i, b) # m')))"
| "decisions_valid ok rows m visiting [] = (True, m)"
| "decisions_valid ok rows m visiting (x # xs) =
     (case decision_valid ok rows m visiting x of
        (b, m') \<Rightarrow> if b then decisions_valid ok rows m' visiting xs else (False, m'))"
  by pat_completeness auto

lemma decision_of_in: "decision_of rows i = Some r \<Longrightarrow> r \<in> set rows \<and> de_id r = i"
  by (auto simp: decision_of_def dest!: find_Some_in)

termination decision_valid
proof (relation "inv_image (less_than <*lex*> less_than) (\<lambda>x. case x of
    Inl (ok, rows, m, visiting, i) \<Rightarrow> (card (set (map de_id rows) - set visiting), 0)
  | Inr (ok, rows, m, visiting, xs) \<Rightarrow> (card (set (map de_id rows) - set visiting), Suc (length xs)))")
  fix ok :: "decision \<Rightarrow> bool" and rows :: "decision list" and m :: memo and visiting i r
  assume "decision_of rows i = Some r" "\<not> (i \<in> set visiting \<or> \<not> de_status r)"
  then have "set (map de_id rows) - set (i # visiting) \<subset> set (map de_id rows) - set visiting"
    using decision_of_in [of rows i r] by auto
  then show "(Inr (ok, rows, m, i # visiting, de_dependencies r), Inl (ok, rows, m, visiting, i))
      \<in> inv_image (less_than <*lex*> less_than) (\<lambda>x. case x of
        Inl (ok, rows, m, visiting, i) \<Rightarrow> (card (set (map de_id rows) - set visiting), 0)
      | Inr (ok, rows, m, visiting, xs) \<Rightarrow> (card (set (map de_id rows) - set visiting), Suc (length xs)))"
    by (simp add: psubset_card_mono)
qed auto

declare decision_valid.simps [simp del] decisions_valid.simps [simp del]

definition gates :: "string list" where
  "gates = map fst GATE_REQUIRED_HASHES"

text \<open>The memo is shared by the gates, which are evaluated in their order.\<close>

fun gate_results :: "(decision \<Rightarrow> bool) \<Rightarrow> decision list \<Rightarrow> memo \<Rightarrow> string list \<Rightarrow> (string \<times> bool) list" where
  "gate_results ok rows m [] = []"
| "gate_results ok rows m (g # gs) =
     (case latest_decision rows g of
        None \<Rightarrow> (g, False) # gate_results ok rows m gs
      | Some r \<Rightarrow> (case decision_valid ok rows m [] (de_id r) of (b, m') \<Rightarrow> (g, b) # gate_results ok rows m' gs))"

definition project_gates :: "pyval \<Rightarrow> string \<Rightarrow> string \<Rightarrow> string \<Rightarrow> db \<Rightarrow> (string \<times> bool) list" where
  "project_gates inputs run repo now d =
     (case (parse_utc now, inputs) of
        (Some n, PDict h) \<Rightarrow>
          let rows = run_decisions repo run d in gate_results (current_decision rows h n) rows [] gates
      | _ \<Rightarrow> map (\<lambda>g. (g, False)) gates)"

section \<open>The memoised search is exact\<close>

text \<open>A decision is backed when it is positive, passes the checks and rests on backed decisions only.\<close>

inductive backed :: "(decision \<Rightarrow> bool) \<Rightarrow> decision list \<Rightarrow> string \<Rightarrow> bool" for ok rows where
  backed: "decision_of rows i = Some r \<Longrightarrow> de_status r \<Longrightarrow> ok r \<Longrightarrow>
     (\<And>x. x \<in> set (de_dependencies r) \<Longrightarrow> backed ok rows x) \<Longrightarrow> backed ok rows i"

inductive_cases backed_elim: "backed ok rows i"

lemma backed_iff: "backed ok rows i \<longleftrightarrow>
    (\<exists>r. decision_of rows i = Some r \<and> de_status r \<and> ok r \<and> (\<forall>x \<in> set (de_dependencies r). backed ok rows x))"
  by (auto elim: backed_elim intro: backed)

text \<open>Decisions rest on earlier ones.\<close>

fun deps_ordered :: "string list \<Rightarrow> decision list \<Rightarrow> bool" where
  "deps_ordered seen [] = True"
| "deps_ordered seen (r # rs) =
     (set (de_dependencies r) \<subseteq> set seen \<and> de_id r \<notin> set seen \<and> deps_ordered (de_id r # seen) rs)"

lemma deps_ordered_append: "deps_ordered seen (rs @ [r]) \<longleftrightarrow>
    deps_ordered seen rs \<and> set (de_dependencies r) \<subseteq> set seen \<union> de_id ` set rs \<and> de_id r \<notin> set seen \<union> de_id ` set rs"
  by (induction rs arbitrary: seen) auto

lemma deps_ordered_rank:
  "deps_ordered seen rs \<Longrightarrow> \<exists>rank :: string \<Rightarrow> nat. (\<forall>i \<in> set seen. rank i = 0) \<and> (\<forall>r \<in> set rs. 0 < rank (de_id r)
     \<and> (\<forall>x \<in> set (de_dependencies r). rank x < rank (de_id r)))"
proof (induction rs arbitrary: seen)
  case Nil then show ?case by (intro exI [of _ "\<lambda>_. 0"]) simp
next
  case (Cons r rs)
  then obtain rank :: "string \<Rightarrow> nat" where old: "\<forall>i \<in> set (de_id r # seen). rank i = 0"
    and rest: "\<And>s. s \<in> set rs \<Longrightarrow> 0 < rank (de_id s) \<and> (\<forall>x \<in> set (de_dependencies s). rank x < rank (de_id s))"
    by (metis deps_ordered.simps(2))
  let ?rank = "\<lambda>i. if i \<in> set seen then 0 else if i = de_id r then 1 else Suc (rank i)"
  have "0 < ?rank (de_id s) \<and> (\<forall>x \<in> set (de_dependencies s). ?rank x < ?rank (de_id s))" if "s \<in> set (r # rs)" for s
  proof (cases "s = r")
    case True then show ?thesis using Cons.prems by auto
  next
    case False
    then have s: "s \<in> set rs" using that by simp
    have "de_id s \<notin> set seen" "de_id s \<noteq> de_id r" using rest [OF s] old by auto
    then show ?thesis using rest [OF s] by auto
  qed
  then show ?case by (intro exI [of _ ?rank]) auto
qed

definition memo_exact :: "(decision \<Rightarrow> bool) \<Rightarrow> decision list \<Rightarrow> memo \<Rightarrow> bool" where
  "memo_exact ok rows m = (\<forall>i b. map_of m i = Some b \<longrightarrow> b = backed ok rows i)"

lemma memo_exact_simps [simp]: "memo_exact ok rows []"
  "b = backed ok rows i \<Longrightarrow> memo_exact ok rows m \<Longrightarrow> memo_exact ok rows ((i, b) # m)"
  by (auto simp: memo_exact_def)

definition ranked :: "(string \<Rightarrow> nat) \<Rightarrow> decision list \<Rightarrow> bool" where
  "ranked rank rows = (\<forall>r \<in> set rows. \<forall>x \<in> set (de_dependencies r). rank x < rank (de_id r))"

lemma valid_exact:
  fixes rank :: "string \<Rightarrow> nat"
  assumes rank: "ranked rank rows"
  shows "memo_exact ok rows m \<Longrightarrow> (\<And>v. v \<in> set visiting \<Longrightarrow> rank i < rank v) \<Longrightarrow>
      decision_valid ok rows m visiting i = (b, m') \<Longrightarrow> b = backed ok rows i \<and> memo_exact ok rows m'"
    and "memo_exact ok rows m \<Longrightarrow> (\<And>v x. v \<in> set visiting \<Longrightarrow> x \<in> set xs \<Longrightarrow> rank x < rank v) \<Longrightarrow>
      decisions_valid ok rows m visiting xs = (b, m') \<Longrightarrow> b = (\<forall>x \<in> set xs. backed ok rows x) \<and> memo_exact ok rows m'"
  using rank
proof (induction ok rows m visiting i and ok rows m visiting xs arbitrary: b m' and b m' rule: decision_valid_decisions_valid.induct)
  case (1 ok rows m visiting i)
  note run = "1.prems"(3) [unfolded decision_valid.simps [of ok rows m visiting i]]
  show ?case
  proof (cases "decision_of rows i")
    case None
    then show ?thesis using run "1.prems"(1) backed_iff [of ok rows i] by auto
  next
    case (Some r)
    note r = decision_of_in [OF Some]
    have unvisited: "i \<notin> set visiting" using "1.prems"(2) by blast
    show ?thesis
    proof (cases "map_of m i = None \<and> de_status r \<and> ok r")
      case True
      then obtain b1 m1 where deps: "decisions_valid ok rows m (i # visiting) (de_dependencies r) = (b1, m1)"
        "b = b1" "m' = (i, b1) # m1"
        using run Some unvisited by (auto split: prod.splits)
      have low: "rank x < rank v" if "v \<in> set (i # visiting)" "x \<in> set (de_dependencies r)" for v x
        using that "1.prems"(2,4) r unfolding ranked_def by (metis less_trans set_ConsD)
      have "b1 = (\<forall>x \<in> set (de_dependencies r). backed ok rows x) \<and> memo_exact ok rows m1"
        by (rule "1.IH" [OF Some _ _ _ "1.prems"(1) low deps(1) "1.prems"(4)]) (use True unvisited in auto)
      then show ?thesis using deps(2,3) backed_iff [of ok rows i] Some True by auto
    next
      case False
      then show ?thesis
        using run Some unvisited "1.prems"(1) backed_iff [of ok rows i]
        by (auto simp: memo_exact_def split: option.splits if_split_asm)
    qed
  qed
next
  case (2 ok rows m visiting)
  then show ?case by (simp add: decisions_valid.simps)
next
  case (3 ok rows m visiting x xs)
  obtain b1 m1 where one: "decision_valid ok rows m visiting x = (b1, m1)" by (cases "decision_valid ok rows m visiting x")
  have first: "b1 = backed ok rows x \<and> memo_exact ok rows m1"
    by (rule "3.IH"(1) [OF "3.prems"(1) _ one "3.prems"(4)]) (use "3.prems"(2) in auto)
  show ?case
  proof (cases b1)
    case True
    then have "decisions_valid ok rows m1 visiting xs = (b, m')"
      using "3.prems"(3) one by (simp add: decisions_valid.simps)
    then have "b = (\<forall>x \<in> set xs. backed ok rows x) \<and> memo_exact ok rows m'"
      by (intro "3.IH"(2) [OF one [symmetric] True _ _ _ "3.prems"(4)]) (use first "3.prems"(2) in auto)
    then show ?thesis using first True by simp
  next
    case False
    then show ?thesis using "3.prems"(3) one first by (simp add: decisions_valid.simps)
  qed
qed

lemma gate_results_exact:
  fixes rank :: "string \<Rightarrow> nat"
  assumes rank: "ranked rank rows"
  shows "memo_exact ok rows m \<Longrightarrow> gate_results ok rows m gs =
    map (\<lambda>g. (g, case latest_decision rows g of None \<Rightarrow> False | Some r \<Rightarrow> backed ok rows (de_id r))) gs"
proof (induction gs arbitrary: m)
  case (Cons g gs)
  show ?case
  proof (cases "latest_decision rows g")
    case (Some r)
    obtain b m' where run: "decision_valid ok rows m [] (de_id r) = (b, m')" by (cases "decision_valid ok rows m [] (de_id r)")
    from valid_exact(1) [OF rank Cons.prems _ run] have "b = backed ok rows (de_id r) \<and> memo_exact ok rows m'" by simp
    then show ?thesis using Cons.IH [of m'] Some run by simp
  qed (use Cons in simp)
qed simp

lemma project_gates_backed:
  assumes "deps_ordered [] (run_decisions repo run d)" and "parse_utc now = Some n"
  shows "project_gates (PDict h) run repo now d = map (\<lambda>g. (g, case latest_decision (run_decisions repo run d) g of None \<Rightarrow> False
     | Some r \<Rightarrow> backed (current_decision (run_decisions repo run d) h n) (run_decisions repo run d) (de_id r))) gates"
proof -
  let ?rows = "run_decisions repo run d"
  from deps_ordered_rank [OF assms(1)] obtain rank :: "string \<Rightarrow> nat"
    where "ranked rank ?rows" unfolding ranked_def by blast
  from gate_results_exact [OF this, of "current_decision ?rows h n" "[]" gates]
  show ?thesis using assms(2) by (simp add: project_gates_def Let_def)
qed

end
