(* ===== verification/Acceptance.thy ===== *)
theory Acceptance
  imports Grants
begin

text \<open>
  Acceptance contracts, obligations, drafts and seals (\<open>ControlStore\<close>, \<open>lib/run_state/state.py\<close>): the
  versioned contract of a managed run, which only an operator grant can amend, and the executable draft
  sealed for one version of it. The dataclasses returned are the rows. A JSON column is the value it
  encodes; every read checks it again against the hashes next to it, as the code does.
\<close>

section \<open>Validators\<close>

definition tables_update :: "(extension \<Rightarrow> extension) \<Rightarrow> db \<Rightarrow> db" where
  "tables_update f d = d\<lparr>db_tables := f (db_tables d)\<rparr>"

definition acceptance_json :: "world \<Rightarrow> string \<Rightarrow> pyval \<Rightarrow> (pydict \<times> string \<times> string) res" where
  "acceptance_json w code v =
     (case v of
        PDict m \<Rightarrow> if m = [] \<or> \<not> json_encodable v then store_refuse code else Inr (m, json_dumps v, w_sha256 w (json_dumps v))
      | _ \<Rightarrow> store_refuse code)"

definition acceptance_identifier :: "string \<Rightarrow> pyval \<Rightarrow> string res" where
  "acceptance_identifier code v = (if is_identifier v then Inr (str_of v) else store_refuse code)"

definition acceptance_ids :: "bool \<Rightarrow> string \<Rightarrow> pyval \<Rightarrow> string list res" where
  "acceptance_ids allow_empty code v =
     (case v of
        PList xs \<Rightarrow> bindR (mapR (acceptance_identifier code) xs) (\<lambda>is.
          if (\<not> allow_empty \<and> is = []) \<or> \<not> distinct is then store_refuse code else Inr (sort is))
      | _ \<Rightarrow> store_refuse code)"

definition lower_digest :: "pyval \<Rightarrow> bool" where
  "lower_digest v = (valid_digest v \<and> str_of v = py_lower (str_of v))"

text \<open>What a JSON column holds: the value with sorted keys.\<close>

definition json_column :: "pydict \<Rightarrow> pydict" where
  "json_column m = dict_of (sort_keys (PDict m))"

definition binding_digests :: "string list" where
  "binding_digests = [''objective_digest'', ''input_digest'', ''request_digest'']"

definition opt_str :: "string option \<Rightarrow> pyval" where
  "opt_str x = (case x of None \<Rightarrow> PNone | Some s \<Rightarrow> PStr s)"

definition ingress_material :: "context_run \<Rightarrow> pydict" where
  "ingress_material r = [(''repository_id'', PStr (cr_repo r)), (''run_id'', PStr (cr_run r)), (''objective_digest'', PStr (cr_objective r)),
     (''input_digest'', PStr (cr_input r)), (''request_key'', opt_str (cr_request_key r)), (''request_digest'', opt_str (cr_request_digest r))]"

definition acceptance_binding :: "world \<Rightarrow> owner_token \<Rightarrow> db \<Rightarrow> pydict res" where
  "acceptance_binding w tk d =
     bindR (fence w tk d) (\<lambda>_.
     case context_of tk d of
       None \<Rightarrow> own_refuse ''MANAGED_ACCEPTANCE_REQUIRED''
     | Some r \<Rightarrow>
         if cr_writer r \<noteq> Some MANAGED_WRITER then own_refuse ''MANAGED_ACCEPTANCE_REQUIRED''
         else let m = ingress_material r in
           if \<not> list_all (\<lambda>kv. nonempty_str (snd kv)) m \<or> \<not> list_all (\<lambda>k. lower_digest (dict_get m k)) binding_digests
           then own_refuse ''ACCEPTANCE_MATERIAL_INVALID''
           else (case List.find (\<lambda>q. cq_repo q = tk_repo tk \<and> Some (cq_key q) = cr_request_key r) (ex_requests (db_tables d)) of
               None \<Rightarrow> own_refuse ''ACCEPTANCE_REQUEST_BINDING_REQUIRED''
             | Some q \<Rightarrow> if cq_run q \<noteq> tk_run tk \<or> Some (cq_digest q) \<noteq> cr_request_digest r
                 then own_refuse ''ACCEPTANCE_REQUEST_BINDING_REQUIRED'' else Inr m))"

definition binding_fields :: "string list" where
  "binding_fields = [''repository_id'', ''run_id'', ''objective_digest'', ''input_digest'', ''request_key'', ''request_digest'']"

definition check_binding_material :: "world \<Rightarrow> string \<Rightarrow> pydict \<Rightarrow> unit res" where
  "check_binding_material w code m =
     bindR (acceptance_json w code (PDict m)) (\<lambda>_.
     if \<not> dict_has_keys m binding_fields then store_refuse code
     else bindR (mapR (\<lambda>k. acceptance_identifier code (dict_get m k)) [''repository_id'', ''run_id'', ''request_key'']) (\<lambda>_.
     if \<not> list_all (\<lambda>k. lower_digest (dict_get m k)) binding_digests then store_refuse code else Inr ()))"

section \<open>Contracts and obligations\<close>

definition ACCEPTANCE_CONTRACT_SCHEMA :: string where
  "ACCEPTANCE_CONTRACT_SCHEMA = ''ffs.acceptance-contract/v1''"

definition CONTRACT_CORRUPT :: string where
  "CONTRACT_CORRUPT = ''ACCEPTANCE_CONTRACT_CORRUPT''"

definition contract_body :: "int \<Rightarrow> string option \<Rightarrow> pydict \<Rightarrow> string list \<Rightarrow> string list \<Rightarrow> string option \<Rightarrow> pydict option \<Rightarrow> pyval" where
  "contract_body n parent m reqs active aid am = PDict [(''schema'', PStr ACCEPTANCE_CONTRACT_SCHEMA), (''generation'', PInt n),
     (''parent_contract_hash'', opt_str parent), (''material'', PDict m), (''accepted_requirement_ids'', PList (map PStr reqs)),
     (''active_obligation_ids'', PList (map PStr active)), (''amendment_id'', opt_str aid),
     (''amendment'', case am of None \<Rightarrow> PNone | Some a \<Rightarrow> PDict a)]"

definition contract_hash ::
  "world \<Rightarrow> int \<Rightarrow> string option \<Rightarrow> pydict \<Rightarrow> string list \<Rightarrow> string list \<Rightarrow> string option \<Rightarrow> pydict option \<Rightarrow> string res"
where
  "contract_hash w n parent m reqs active aid am =
     bindR (acceptance_json w CONTRACT_CORRUPT (contract_body n parent m reqs active aid am)) (\<lambda>(_, _, h). Inr h)"

text \<open>The shape of the amendment columns.\<close>

definition amendment_check :: "world \<Rightarrow> contract_row \<Rightarrow> unit res" where
  "amendment_check w c =
     (if ct_generation c = 1
      then if ct_parent c \<noteq> None \<or> ct_amendment_id c \<noteq> None \<or> ct_amendment c \<noteq> None then store_refuse CONTRACT_CORRUPT else Inr ()
      else case (ct_amendment_id c, ct_amendment c) of
        (Some i, Some a) \<Rightarrow>
          if \<not> valid_digest (opt_str (ct_parent c)) \<or> i = [] then store_refuse CONTRACT_CORRUPT
          else bindR (acceptance_identifier CONTRACT_CORRUPT (PStr i)) (\<lambda>_.
            bindR (acceptance_json w CONTRACT_CORRUPT (PDict a)) (\<lambda>_. Inr ()))
      | _ \<Rightarrow> store_refuse CONTRACT_CORRUPT)"

definition contract_from_row :: "world \<Rightarrow> contract_row \<Rightarrow> contract_row res" where
  "contract_from_row w c =
     bindR (acceptance_ids False CONTRACT_CORRUPT (PList (map PStr (ct_requirements c)))) (\<lambda>reqs.
     bindR (acceptance_ids True CONTRACT_CORRUPT (PList (map PStr (ct_active c)))) (\<lambda>active.
     bindR (acceptance_json w CONTRACT_CORRUPT (PDict (ct_material c))) (\<lambda>(m, _, mh).
     bindR (check_binding_material w CONTRACT_CORRUPT m) (\<lambda>_.
     if ct_generation c < 1 \<or> \<not> valid_digest (PStr (ct_hash c)) \<or> \<not> valid_digest (PStr (ct_material_hash c))
       \<or> ct_material_hash c \<noteq> mh \<or> ct_requirements c \<noteq> reqs \<or> ct_active c \<noteq> active
     then store_refuse CONTRACT_CORRUPT
     else bindR (amendment_check w c) (\<lambda>_.
       bindR (contract_hash w (ct_generation c) (ct_parent c) m reqs active (ct_amendment_id c) (ct_amendment c)) (\<lambda>expected.
       if expected \<noteq> ct_hash c then store_refuse CONTRACT_CORRUPT else Inr c))))))"

definition run_contracts :: "string \<Rightarrow> string \<Rightarrow> db \<Rightarrow> contract_row list" where
  "run_contracts repo run d = filter (\<lambda>c. ct_repo c = repo \<and> ct_run c = run) (ex_contracts (db_tables d))"

definition latest_contract :: "string \<Rightarrow> string \<Rightarrow> db \<Rightarrow> contract_row option" where
  "latest_contract repo run d = (let rows = run_contracts repo run d in
     List.find (\<lambda>c. list_all (\<lambda>x. ct_generation x \<le> ct_generation c) rows) rows)"

definition contract_at :: "string \<Rightarrow> string \<Rightarrow> int \<Rightarrow> db \<Rightarrow> contract_row option" where
  "contract_at repo run n d = List.find (\<lambda>c. ct_generation c = n) (run_contracts repo run d)"

definition contract_clash :: "contract_row \<Rightarrow> contract_row \<Rightarrow> bool" where
  "contract_clash r x = (ct_repo x = ct_repo r \<and> ct_run x = ct_run r \<and>
     (ct_generation x = ct_generation r \<or> ct_hash x = ct_hash r \<or> (ct_amendment_id r \<noteq> None \<and> ct_amendment_id x = ct_amendment_id r)))"

text \<open>Insert a generation, record the event, and read the row back.\<close>

definition insert_contract :: "world \<Rightarrow> contract_row \<Rightarrow> string \<Rightarrow> pydict \<Rightarrow> (extension \<Rightarrow> extension res) \<Rightarrow> contract_row tx" where
  "insert_contract w c event payload act d =
     bindR (insert_row contract_clash c (ex_contracts (db_tables d))) (\<lambda>rows.
     bindR (act ((db_tables d)\<lparr>ex_contracts := rows\<rparr>)) (\<lambda>e.
     let d' = add_event event (PDict ([(''repository_id'', PStr (ct_repo c)), (''run_id'', PStr (ct_run c)),
           (''generation'', PInt (ct_generation c)), (''contract_hash'', PStr (ct_hash c))] @ payload)) (tables_update (\<lambda>_. e) d) in
     case contract_at (ct_repo c) (ct_run c) (ct_generation c) d' of
       None \<Rightarrow> Inl (TypeError ''NoneType'')
     | Some row \<Rightarrow> bindR (contract_from_row w row) (\<lambda>row. Inr (row, d'))))"

definition supplied_material :: "world \<Rightarrow> pyval \<Rightarrow> pydict \<Rightarrow> unit res" where
  "supplied_material w material bound =
     (if material = PNone then Inr ()
      else bindR (acceptance_json w ''ACCEPTANCE_MATERIAL_INVALID'' material) (\<lambda>(m, _, _).
        if \<not> py_eq (PDict m) (PDict bound) then own_refuse ''ACCEPTANCE_MATERIAL_CONFLICT'' else Inr ()))"

definition create_contract_tx :: "world \<Rightarrow> owner_token \<Rightarrow> string list \<Rightarrow> pyval \<Rightarrow> contract_row tx" where
  "create_contract_tx w tk reqs material d =
     bindR (acceptance_binding w tk d) (\<lambda>bound.
     bindR (supplied_material w material bound) (\<lambda>_.
     case latest_contract (tk_repo tk) (tk_run tk) d of
       Some c \<Rightarrow> bindR (contract_from_row w c) (\<lambda>_. own_refuse ''ACCEPTANCE_INITIAL_REPLAY'')
     | None \<Rightarrow>
         bindR (acceptance_json w ''ACCEPTANCE_MATERIAL_INVALID'' (PDict bound)) (\<lambda>(m, _, mh).
         bindR (contract_hash w 1 None m reqs [] None None) (\<lambda>h.
         insert_contract w \<lparr>ct_repo = tk_repo tk, ct_run = tk_run tk, ct_generation = 1, ct_hash = h, ct_parent = None,
           ct_material = json_column m, ct_material_hash = mh, ct_requirements = reqs, ct_active = [],
           ct_amendment_id = None, ct_amendment = None\<rparr> ''acceptance_contract_created'' [] Inr d))))"

definition create_acceptance_contract :: "world \<Rightarrow> owner_token \<Rightarrow> pyval \<times> pyval \<Rightarrow> db \<Rightarrow> contract_row res \<times> db" where
  "create_acceptance_contract w tk args d =
     (case args of (ids, material) \<Rightarrow>
      case acceptance_ids False ''ACCEPTANCE_REQUIREMENTS_INVALID'' ids of
        Inl e \<Rightarrow> (Inl e, d)
      | Inr reqs \<Rightarrow> transaction (create_contract_tx w tk reqs material) (install_context d))"

definition OBLIGATION_CORRUPT :: string where
  "OBLIGATION_CORRUPT = ''ACCEPTANCE_OBLIGATION_CORRUPT''"

text \<open>The activation columns; an activation time is present exactly with its generation.\<close>

definition obligation_status_ok :: "obligation_row \<Rightarrow> bool" where
  "obligation_status_ok o' =
     (if ob_status o' = ''proposed'' then ob_activated o' = None
      else ob_status o' = ''active'' \<and> (case ob_activated o' of None \<Rightarrow> False | Some n \<Rightarrow> ob_created o' < n))"

definition obligation_from_row :: "world \<Rightarrow> obligation_row \<Rightarrow> obligation_row res" where
  "obligation_from_row w x =
     bindR (acceptance_ids True OBLIGATION_CORRUPT (PList (map PStr (ob_requirements x)))) (\<lambda>reqs.
     bindR (acceptance_json w OBLIGATION_CORRUPT (PDict (ob_material x))) (\<lambda>(m, _, mh).
     if ob_repo x = [] \<or> ob_run x = [] \<or> ob_material_hash x \<noteq> mh \<or> \<not> valid_digest (PStr mh) \<or> ob_requirements x \<noteq> reqs
       \<or> ob_created x < 1 \<or> \<not> obligation_status_ok x
     then store_refuse OBLIGATION_CORRUPT
     else bindR (acceptance_identifier OBLIGATION_CORRUPT (PStr (ob_id x))) (\<lambda>_. Inr x)))"

definition obligation_of :: "string \<Rightarrow> string \<Rightarrow> string \<Rightarrow> extension \<Rightarrow> obligation_row option" where
  "obligation_of repo run i e = List.find (\<lambda>x. ob_repo x = repo \<and> ob_run x = run \<and> ob_id x = i) (ex_obligations e)"

definition current_contract :: "world \<Rightarrow> owner_token \<Rightarrow> db \<Rightarrow> contract_row res" where
  "current_contract w tk d =
     (case latest_contract (tk_repo tk) (tk_run tk) d of
        None \<Rightarrow> own_refuse ''ACCEPTANCE_CONTRACT_REQUIRED''
      | Some c \<Rightarrow> contract_from_row w c)"

definition propose_tx :: "world \<Rightarrow> owner_token \<Rightarrow> string \<Rightarrow> string list \<Rightarrow> pydict \<Rightarrow> string \<Rightarrow> obligation_row tx" where
  "propose_tx w tk i reqs m mh d =
     bindR (acceptance_binding w tk d) (\<lambda>_.
     bindR (current_contract w tk d) (\<lambda>c.
     case obligation_of (tk_repo tk) (tk_run tk) i (db_tables d) of
       Some x \<Rightarrow> bindR (obligation_from_row w x) (\<lambda>x.
         if \<not> py_eq (PDict (ob_material x)) (PDict m) \<or> ob_requirements x \<noteq> reqs then own_refuse ''ACCEPTANCE_OBLIGATION_CONFLICT''
         else own_refuse ''ACCEPTANCE_OBLIGATION_REPLAY'')
     | None \<Rightarrow>
         let row = \<lparr>ob_repo = tk_repo tk, ob_run = tk_run tk, ob_id = i, ob_material = json_column m, ob_material_hash = mh,
               ob_requirements = reqs, ob_status = ''proposed'', ob_created = ct_generation c, ob_activated = None\<rparr>;
             d' = add_event ''acceptance_obligation_proposed'' (PDict [(''repository_id'', PStr (tk_repo tk)), (''run_id'', PStr (tk_run tk)),
               (''obligation_id'', PStr i), (''contract_hash'', PStr (ct_hash c))])
               (tables_update (\<lambda>e. e\<lparr>ex_obligations := ex_obligations e @ [row]\<rparr>) d) in
         bindR (obligation_from_row w row) (\<lambda>row. Inr (row, d'))))"

definition append_proposed_obligation :: "world \<Rightarrow> owner_token \<Rightarrow> pyval \<times> pyval \<times> pyval \<Rightarrow> db \<Rightarrow> obligation_row res \<times> db" where
  "append_proposed_obligation w tk args d =
     (case args of (i, ids, material) \<Rightarrow>
      case bindR (acceptance_identifier ''ACCEPTANCE_OBLIGATION_ID_INVALID'' i) (\<lambda>i.
        bindR (acceptance_ids True ''ACCEPTANCE_OBLIGATION_REQUIREMENTS_INVALID'' ids) (\<lambda>reqs.
        bindR (acceptance_json w ''ACCEPTANCE_OBLIGATION_INVALID'' material) (\<lambda>(m, _, mh). Inr (i, reqs, m, mh)))) of
        Inl e \<Rightarrow> (Inl e, d)
      | Inr (i, reqs, m, mh) \<Rightarrow> transaction (propose_tx w tk i reqs m mh) (install_context d))"

section \<open>Amendments\<close>

definition amendment_key :: "string \<Rightarrow> string" where
  "amendment_key aid = ''acceptance-amend:'' @ aid"

definition consume_amendment_grant :: "world \<Rightarrow> owner_token \<Rightarrow> pyval \<Rightarrow> string \<Rightarrow> string \<Rightarrow> db \<Rightarrow> db res" where
  "consume_amendment_grant w tk grant_id contract aid d =
     (case (if nonempty_str grant_id then grant_by_id (str_of grant_id) d else None) of
        None \<Rightarrow> own_refuse ''ACCEPTANCE_AMENDMENT_GRANT_REQUIRED''
      | Some g \<Rightarrow>
          if gr_repo g \<noteq> tk_repo tk \<or> gr_run g \<noteq> tk_run tk then own_refuse ''FENCE_REVOKED''
          else if gr_generation g \<noteq> tk_generation tk then own_refuse ''GRANT_GENERATION_MISMATCH''
          else if expired w (gr_expires g) then own_refuse ''GRANT_EXPIRED''
          else if gr_consumed g then
            (if gr_consume_key g = Some (amendment_key aid) then own_refuse ''ACCEPTANCE_AMENDMENT_GRANT_REPLAY''
             else own_refuse ''IDEMPOTENCY_CONFLICT'')
          else if gr_action g \<noteq> ''acceptance-amend'' \<or> gr_target g \<noteq> contract then own_refuse ''GRANT_MISMATCH''
          else Inr (d\<lparr>db_grants := update_where (\<lambda>x. gr_id x = gr_id g \<and> \<not> gr_consumed x) (mark_consumed (amendment_key aid)) (db_grants d)\<rparr>))"

fun eligible_proposals :: "world \<Rightarrow> owner_token \<Rightarrow> string list \<Rightarrow> extension \<Rightarrow> string list \<Rightarrow> unit res" where
  "eligible_proposals w tk accepted e [] = Inr ()"
| "eligible_proposals w tk accepted e (i # is) =
     (case obligation_of (tk_repo tk) (tk_run tk) i e of
        None \<Rightarrow> own_refuse ''ACCEPTANCE_OBLIGATION_UNKNOWN''
      | Some x \<Rightarrow> bindR (obligation_from_row w x) (\<lambda>x.
          if ob_status x = ''active'' then own_refuse ''ACCEPTANCE_ACTIVATION_REPLAY''
          else if ob_requirements x = [] \<or> \<not> set (ob_requirements x) \<subseteq> set accepted
          then own_refuse ''ACCEPTANCE_REQUIREMENT_REFERENCE_INVALID''
          else eligible_proposals w tk accepted e is))"

definition proposed_row :: "owner_token \<Rightarrow> string \<Rightarrow> obligation_row \<Rightarrow> bool" where
  "proposed_row tk i x = (ob_repo x = tk_repo tk \<and> ob_run x = tk_run tk \<and> ob_id x = i \<and> ob_status x = ''proposed'')"

definition activate_row :: "int \<Rightarrow> obligation_row \<Rightarrow> obligation_row" where
  "activate_row n x = x\<lparr>ob_status := ''active'', ob_activated := Some n\<rparr>"

fun activate_proposals :: "owner_token \<Rightarrow> int \<Rightarrow> string list \<Rightarrow> extension \<Rightarrow> extension res" where
  "activate_proposals tk n [] e = Inr e"
| "activate_proposals tk n (i # is) e =
     (if count_where (proposed_row tk i) (ex_obligations e) \<noteq> 1 then own_refuse ''ACCEPTANCE_ACTIVATION_REPLAY''
      else activate_proposals tk n is (e\<lparr>ex_obligations := update_where (proposed_row tk i) (activate_row n) (ex_obligations e)\<rparr>))"

definition MAX_ACCEPTANCE_GENERATION :: int where
  "MAX_ACCEPTANCE_GENERATION = 9223372036854775807"

definition amend_tx :: "world \<Rightarrow> owner_token \<Rightarrow> string \<Rightarrow> pydict \<Rightarrow> pyval \<Rightarrow> string list \<Rightarrow> contract_row tx" where
  "amend_tx w tk aid am grant_id requested d =
     bindR (acceptance_binding w tk d) (\<lambda>bound.
     bindR (current_contract w tk d) (\<lambda>c.
     if \<not> py_eq (PDict (ct_material c)) (PDict bound) then own_refuse ''ACCEPTANCE_MATERIAL_CONFLICT''
     else case List.find (\<lambda>x. ct_amendment_id x = Some aid) (run_contracts (tk_repo tk) (tk_run tk) d) of
       Some x \<Rightarrow> bindR (contract_from_row w x) (\<lambda>x.
         if 1 < ct_generation x then own_refuse ''ACCEPTANCE_AMENDMENT_REPLAY'' else store_refuse CONTRACT_CORRUPT)
     | None \<Rightarrow>
         if ct_generation c \<ge> MAX_ACCEPTANCE_GENERATION then own_refuse ''ACCEPTANCE_GENERATION_EXHAUSTED''
         else bindR (consume_amendment_grant w tk grant_id (ct_hash c) aid d) (\<lambda>d1.
           if list_ex (\<lambda>i. i \<in> set (ct_active c)) requested then own_refuse ''ACCEPTANCE_ACTIVATION_REPLAY''
           else bindR (eligible_proposals w tk (ct_requirements c) (db_tables d1) requested) (\<lambda>_.
           let n = ct_generation c + 1; active = sort (remdups (ct_active c @ requested)) in
           bindR (acceptance_json w CONTRACT_CORRUPT (PDict (ct_material c))) (\<lambda>(m, _, mh).
           bindR (contract_hash w n (Some (ct_hash c)) m (ct_requirements c) active (Some aid) (Some am)) (\<lambda>h.
           insert_contract w \<lparr>ct_repo = tk_repo tk, ct_run = tk_run tk, ct_generation = n, ct_hash = h, ct_parent = Some (ct_hash c),
               ct_material = json_column m, ct_material_hash = mh, ct_requirements = ct_requirements c, ct_active = active,
               ct_amendment_id = Some aid, ct_amendment = Some (json_column am)\<rparr> ''acceptance_contract_amended''
             [(''parent_contract_hash'', PStr (ct_hash c)), (''activated_obligation_ids'', PList (map PStr requested))]
             (activate_proposals tk n requested) d1))))))"

definition amend_acceptance_contract ::
  "world \<Rightarrow> owner_token \<Rightarrow> pyval \<times> pyval \<times> pyval \<times> pyval \<Rightarrow> db \<Rightarrow> contract_row res \<times> db"
where
  "amend_acceptance_contract w tk args d =
     (case args of (aid, amendment, grant_id, ids) \<Rightarrow>
      case bindR (acceptance_identifier ''ACCEPTANCE_AMENDMENT_ID_INVALID'' aid) (\<lambda>aid.
        bindR (acceptance_json w ''ACCEPTANCE_AMENDMENT_INVALID'' amendment) (\<lambda>(am, _, _).
        bindR (acceptance_ids True ''ACCEPTANCE_ACTIVATION_INVALID'' ids) (\<lambda>requested. Inr (aid, am, requested)))) of
        Inl e \<Rightarrow> (Inl e, d)
      | Inr (aid, am, requested) \<Rightarrow> transaction (amend_tx w tk aid am grant_id requested) (install_context d))"

section \<open>Reading contracts\<close>

definition run_obligations :: "string \<Rightarrow> string \<Rightarrow> db \<Rightarrow> obligation_row list" where
  "run_obligations repo run d = filter (\<lambda>x. ob_repo x = repo \<and> ob_run x = run) (ex_obligations (db_tables d))"

definition active_obligation_ids :: "obligation_row list \<Rightarrow> string list" where
  "active_obligation_ids xs = sort (map ob_id (filter (\<lambda>x. ob_status x = ''active'') xs))"

definition parent_matches :: "string \<Rightarrow> string \<Rightarrow> contract_row \<Rightarrow> db \<Rightarrow> bool" where
  "parent_matches repo run c d = (1 < ct_generation c \<longrightarrow>
     (case contract_at repo run (ct_generation c - 1) d of None \<Rightarrow> False | Some p \<Rightarrow> Some (ct_hash p) = ct_parent c))"

definition obligations_match :: "world \<Rightarrow> string \<Rightarrow> string \<Rightarrow> contract_row \<Rightarrow> string list \<Rightarrow> db \<Rightarrow> unit res" where
  "obligations_match w repo run c frozen d =
     bindR (mapR (obligation_from_row w) (run_obligations repo run d)) (\<lambda>xs.
     if active_obligation_ids xs \<noteq> ct_active c
       \<or> list_ex (\<lambda>x. ob_status x = ''active'' \<and> (ob_requirements x = [] \<or> \<not> set (ob_requirements x) \<subseteq> set frozen)) xs
     then store_refuse CONTRACT_CORRUPT else Inr ())"

definition get_acceptance_contract :: "world \<Rightarrow> string \<Rightarrow> string \<Rightarrow> int option \<Rightarrow> db \<Rightarrow> contract_row option res" where
  "get_acceptance_contract w repo run n d =
     (if repo = [] \<or> run = [] \<or> (case n of None \<Rightarrow> False | Some k \<Rightarrow> k < 1) then store_refuse ''ACCEPTANCE_LOOKUP_INVALID''
      else case (case n of None \<Rightarrow> latest_contract repo run d | Some k \<Rightarrow> contract_at repo run k d) of
        None \<Rightarrow> Inr None
      | Some row \<Rightarrow>
          bindR (contract_from_row w row) (\<lambda>c.
          case contract_at repo run 1 d of
            None \<Rightarrow> store_refuse CONTRACT_CORRUPT
          | Some first \<Rightarrow>
              bindR (contract_from_row w first) (\<lambda>frozen.
              if \<not> py_eq (PDict (ct_material c)) (PDict (ct_material frozen)) \<or> ct_requirements c \<noteq> ct_requirements frozen
                \<or> \<not> parent_matches repo run c d
              then store_refuse CONTRACT_CORRUPT
              else bindR (if n = None then obligations_match w repo run c (ct_requirements frozen) d else Inr ()) (\<lambda>_. Inr (Some c)))))"

definition list_acceptance_obligations :: "world \<Rightarrow> string \<Rightarrow> string \<Rightarrow> db \<Rightarrow> obligation_row list res" where
  "list_acceptance_obligations w repo run d =
     (if repo = [] \<or> run = [] then store_refuse ''ACCEPTANCE_LOOKUP_INVALID''
      else bindR (mapR (obligation_from_row w) (sort_key ob_id (run_obligations repo run d))) (\<lambda>xs.
        case latest_contract repo run d of
          None \<Rightarrow> if xs \<noteq> [] then store_refuse CONTRACT_CORRUPT else Inr []
        | Some row \<Rightarrow> bindR (contract_from_row w row) (\<lambda>c.
            if active_obligation_ids xs \<noteq> ct_active c then store_refuse CONTRACT_CORRUPT else Inr xs)))"

end
