(* ===== verification/Seals.thy ===== *)
theory Seals
  imports Acceptance
begin

text \<open>
  Executable drafts of an acceptance contract and their seals (\<open>ControlStore\<close>, \<open>lib/run_state/state.py\<close>).
  A draft is bound to one version of the contract; at most one draft of a version is sealed. The check of
  the declared runtime read roots reads the file system (\<open>local_check_runtime\<close>) and is an argument.
\<close>

section \<open>Rows\<close>

definition acceptance_policy_hash :: "world \<Rightarrow> string \<Rightarrow> pyval \<Rightarrow> string" where
  "acceptance_policy_hash w kind body = w_sha256 w (json_dumps (PDict [(''schema'', PStr ''ffs.acceptance-policy-storage/v1''),
     (''kind'', PStr kind), (''body'', body)]))"

text \<open>\<open>_refuse(getattr(error, "code", default))\<close> on the exceptions the readers catch.\<close>

definition policy_reader :: "string \<Rightarrow> 'a res \<Rightarrow> 'a res" where
  "policy_reader code r = (case r of Inl (RunPolicyRefused c) \<Rightarrow> store_refuse c | Inl e \<Rightarrow> store_refuse code | Inr x \<Rightarrow> Inr x)"

text \<open>\<open>_refuse_policy_error\<close>: the validator's refusal; other exceptions propagate.\<close>

definition policy_writer :: "'a res \<Rightarrow> 'a res" where
  "policy_writer r = (case r of Inl (RunPolicyRefused c) \<Rightarrow> store_refuse c | r \<Rightarrow> r)"

definition draft_body :: "string \<Rightarrow> string \<Rightarrow> string \<Rightarrow> int \<Rightarrow> int \<Rightarrow> string \<Rightarrow> string \<Rightarrow> pyval" where
  "draft_body repo run i revision n contract mh = PDict [(''repository_id'', PStr repo), (''run_id'', PStr run), (''draft_id'', PStr i),
     (''revision'', PInt revision), (''legacy_generation'', PInt n), (''legacy_contract_hash'', PStr contract), (''material_hash'', PStr mh)]"

definition draft_hash :: "world \<Rightarrow> draft_row \<Rightarrow> string \<Rightarrow> string" where
  "draft_hash w r mh = acceptance_policy_hash w ''draft''
     (draft_body (dr_repo r) (dr_run r) (dr_id r) (dr_revision r) (dr_generation r) (dr_contract r) mh)"

definition DRAFT_CORRUPT :: string where
  "DRAFT_CORRUPT = ''ACCEPTANCE_POLICY_DRAFT_CORRUPT''"

definition draft_from_row :: "world \<Rightarrow> draft_row \<Rightarrow> draft_row res" where
  "draft_from_row w r =
     bindR (policy_reader DRAFT_CORRUPT (validate_draft_material (w_sha256 w) False (PDict (dr_material r)))) (\<lambda>m.
     if dr_revision r < 1 \<or> dr_generation r < 1 \<or> \<not> valid_digest (PStr (dr_contract r)) \<or> \<not> valid_digest (PStr (dr_hash r))
       \<or> json_dumps (PDict (dr_material r)) \<noteq> ad_material_json m \<or> dr_material_hash r \<noteq> ad_material_hash m
       \<or> \<not> valid_digest (PStr (dr_material_hash r))
     then store_refuse DRAFT_CORRUPT
     else bindR (acceptance_identifier DRAFT_CORRUPT (PStr (dr_id r))) (\<lambda>_.
       if draft_hash w r (ad_material_hash m) \<noteq> dr_hash r then store_refuse DRAFT_CORRUPT
       else Inr (r\<lparr>dr_material := ad_material m\<rparr>)))"

definition seal_body :: "seal_row \<Rightarrow> string \<Rightarrow> pyval" where
  "seal_body r mh = PDict [(''repository_id'', PStr (se_repo r)), (''run_id'', PStr (se_run r)), (''acceptance_generation'', PInt (se_generation r)),
     (''draft_id'', PStr (se_draft r)), (''draft_revision'', PInt (se_revision r)), (''draft_hash'', PStr (se_draft_hash r)),
     (''legacy_generation'', PInt (se_contract_generation r)), (''legacy_contract_hash'', PStr (se_contract r)), (''material_hash'', PStr mh)]"

definition seal_hash :: "world \<Rightarrow> seal_row \<Rightarrow> string \<Rightarrow> string" where
  "seal_hash w r mh = acceptance_policy_hash w ''seal'' (seal_body r mh)"

definition SEAL_CORRUPT :: string where
  "SEAL_CORRUPT = ''ACCEPTANCE_SEAL_CORRUPT''"

definition seal_from_row :: "world \<Rightarrow> seal_row \<Rightarrow> seal_row res" where
  "seal_from_row w r =
     bindR (policy_reader SEAL_CORRUPT (validate_draft_material (w_sha256 w) False (PDict (se_material r)))) (\<lambda>m.
     if se_generation r < 1 \<or> se_revision r < 1 \<or> se_contract_generation r < 1
       \<or> \<not> list_all (\<lambda>h. valid_digest (PStr h)) [se_draft_hash r, se_contract r, se_hash r, se_material_hash r]
       \<or> json_dumps (PDict (se_material r)) \<noteq> ad_material_json m \<or> se_material_hash r \<noteq> ad_material_hash m
     then store_refuse SEAL_CORRUPT
     else bindR (acceptance_identifier SEAL_CORRUPT (PStr (se_draft r))) (\<lambda>_.
       if seal_hash w r (ad_material_hash m) \<noteq> se_hash r then store_refuse SEAL_CORRUPT
       else Inr (r\<lparr>se_material := ad_material m\<rparr>)))"

definition draft_at :: "string \<Rightarrow> string \<Rightarrow> string \<Rightarrow> int \<Rightarrow> db \<Rightarrow> draft_row option" where
  "draft_at repo run i revision d = List.find (\<lambda>r. dr_repo r = repo \<and> dr_run r = run \<and> dr_id r = i \<and> dr_revision r = revision)
     (ex_drafts (db_tables d))"

text \<open>A seal is a seal of its exact persisted draft.\<close>

definition check_sealed_draft :: "world \<Rightarrow> seal_row \<Rightarrow> db \<Rightarrow> unit res" where
  "check_sealed_draft w s d =
     (case draft_at (se_repo s) (se_run s) (se_draft s) (se_revision s) d of
        None \<Rightarrow> store_refuse SEAL_CORRUPT
      | Some r \<Rightarrow> bindR (draft_from_row w r) (\<lambda>r.
          if dr_hash r \<noteq> se_draft_hash s \<or> \<not> py_eq (PDict (dr_material r)) (PDict (se_material s))
            \<or> dr_generation r \<noteq> se_contract_generation s \<or> dr_contract r \<noteq> se_contract s
          then store_refuse SEAL_CORRUPT else Inr ()))"

section \<open>Drafts\<close>

definition criterion_ids :: "pydict \<Rightarrow> string list" where
  "criterion_ids m = map (\<lambda>c. str_of (dict_get (dict_of c) ''id'')) (list_of (dict_get m ''criteria''))"

definition draft_clash :: "draft_row \<Rightarrow> draft_row \<Rightarrow> bool" where
  "draft_clash r x = (dr_repo x = dr_repo r \<and> dr_run x = dr_run r \<and>
     ((dr_id x = dr_id r \<and> dr_revision x = dr_revision r) \<or> dr_hash x = dr_hash r))"

definition new_draft :: "world \<Rightarrow> owner_token \<Rightarrow> string \<Rightarrow> int \<Rightarrow> contract_row \<Rightarrow> acceptance_draft \<Rightarrow> draft_row" where
  "new_draft w tk i revision c m =
     (let row = \<lparr>dr_repo = tk_repo tk, dr_run = tk_run tk, dr_id = i, dr_revision = revision, dr_generation = ct_generation c,
        dr_contract = ct_hash c, dr_hash = [], dr_material = json_column (ad_material m), dr_material_hash = ad_material_hash m\<rparr>
      in row\<lparr>dr_hash := draft_hash w row (ad_material_hash m)\<rparr>)"

definition draft_tx :: "world \<Rightarrow> owner_token \<Rightarrow> string \<Rightarrow> int \<Rightarrow> string \<Rightarrow> acceptance_draft \<Rightarrow> (draft_row \<times> bool) tx" where
  "draft_tx w tk i revision contract m d =
     bindR (acceptance_binding w tk d) (\<lambda>bound.
     bindR (current_contract w tk d) (\<lambda>c.
     if ct_hash c \<noteq> contract then own_refuse ''ACCEPTANCE_DRAFT_BINDING_INVALID''
     else if dict_get (ad_material m) ''objective_digest'' \<noteq> dict_get bound ''objective_digest''
       \<or> dict_get (ad_material m) ''generation'' \<noteq> PInt (ct_generation c) \<or> criterion_ids (ad_material m) \<noteq> ct_requirements c
     then own_refuse ''ACCEPTANCE_DRAFT_SCOPE_INVALID''
     else let row = new_draft w tk i revision c m in
       case draft_at (tk_repo tk) (tk_run tk) i revision d of
         Some r \<Rightarrow> bindR (draft_from_row w r) (\<lambda>r.
           if dr_hash r \<noteq> dr_hash row then own_refuse ''ACCEPTANCE_DRAFT_CONFLICT'' else Inr ((r, True), d))
       | None \<Rightarrow> bindR (insert_row draft_clash row (ex_drafts (db_tables d))) (\<lambda>rows.
           Inr ((row\<lparr>dr_material := ad_material m\<rparr>, False), add_event ''acceptance_draft_created''
             (PDict [(''repository_id'', PStr (tk_repo tk)), (''run_id'', PStr (tk_run tk)), (''draft_id'', PStr i),
               (''revision'', PInt revision), (''draft_hash'', PStr (dr_hash row)), (''legacy_contract_hash'', PStr (ct_hash c))])
             (tables_update (\<lambda>e. e\<lparr>ex_drafts := rows\<rparr>) d)))))"

definition draft_arguments :: "pyval \<Rightarrow> pyval \<Rightarrow> pyval \<Rightarrow> string \<Rightarrow> (string \<times> int \<times> string) res" where
  "draft_arguments i revision contract code =
     bindR (acceptance_identifier ''ACCEPTANCE_DRAFT_ID_INVALID'' i) (\<lambda>i.
     if \<not> is_positive_int revision then store_refuse ''ACCEPTANCE_DRAFT_REVISION_INVALID''
     else if \<not> valid_digest contract then store_refuse code else Inr (i, int_of revision, str_of contract))"

definition create_acceptance_draft ::
  "world \<Rightarrow> owner_token \<Rightarrow> pyval \<times> pyval \<times> pyval \<times> pyval \<Rightarrow> db \<Rightarrow> (draft_row \<times> bool) res \<times> db"
where
  "create_acceptance_draft w tk args d =
     (case args of (i, revision, contract, material) \<Rightarrow>
      case bindR (draft_arguments i revision contract ''ACCEPTANCE_DRAFT_BINDING_INVALID'') (\<lambda>(i, n, h).
        bindR (policy_writer (validate_draft_material (w_sha256 w) True material)) (\<lambda>m. Inr (i, n, h, m))) of
        Inl e \<Rightarrow> (Inl e, d)
      | Inr (i, n, h, m) \<Rightarrow> transaction (draft_tx w tk i n h m) (install_context d))"

section \<open>Seals\<close>

definition run_seals :: "string \<Rightarrow> string \<Rightarrow> db \<Rightarrow> seal_row list" where
  "run_seals repo run d = filter (\<lambda>s. se_repo s = repo \<and> se_run s = run) (ex_seals (db_tables d))"

definition seal_clash :: "seal_row \<Rightarrow> seal_row \<Rightarrow> bool" where
  "seal_clash r x = (se_repo x = se_repo r \<and> se_run x = se_run r \<and> (se_generation x = se_generation r
     \<or> se_draft_hash x = se_draft_hash r \<or> se_hash x = se_hash r \<or> se_contract_generation x = se_contract_generation r))"

definition next_seal :: "string \<Rightarrow> string \<Rightarrow> db \<Rightarrow> int" where
  "next_seal repo run d = (let ns = map se_generation (run_seals repo run d) in (if ns = [] then 0 else Max (set ns)) + 1)"

definition new_seal :: "world \<Rightarrow> owner_token \<Rightarrow> draft_row \<Rightarrow> contract_row \<Rightarrow> db \<Rightarrow> seal_row" where
  "new_seal w tk r c d =
     (let mh = w_sha256 w (json_dumps (PDict (dr_material r)));
        row = \<lparr>se_repo = tk_repo tk, se_run = tk_run tk, se_generation = next_seal (tk_repo tk) (tk_run tk) d, se_draft = dr_id r,
          se_revision = dr_revision r, se_draft_hash = dr_hash r, se_contract_generation = ct_generation c, se_contract = ct_hash c,
          se_hash = [], se_material = json_column (dr_material r), se_material_hash = mh\<rparr>
      in row\<lparr>se_hash := seal_hash w row mh\<rparr>)"

definition seal_tx ::
  "world \<Rightarrow> owner_token \<Rightarrow> (db \<Rightarrow> pydict \<Rightarrow> unit res) \<Rightarrow> string \<Rightarrow> int \<Rightarrow> string \<Rightarrow> (seal_row \<times> bool) tx"
where
  "seal_tx w tk roots i revision contract d =
     bindR (acceptance_binding w tk d) (\<lambda>_.
     case draft_at (tk_repo tk) (tk_run tk) i revision d of
       None \<Rightarrow> own_refuse ''ACCEPTANCE_DRAFT_REQUIRED''
     | Some r \<Rightarrow> bindR (draft_from_row w r) (\<lambda>r.
         if dr_contract r \<noteq> contract then own_refuse ''ACCEPTANCE_SEAL_BINDING_INVALID''
         else case List.find (\<lambda>s. se_draft_hash s = dr_hash r) (run_seals (tk_repo tk) (tk_run tk) d) of
           Some s \<Rightarrow> bindR (seal_from_row w s) (\<lambda>s. Inr ((s, True), d))
         | None \<Rightarrow>
             bindR (current_contract w tk d) (\<lambda>c.
             if dr_generation r \<noteq> ct_generation c \<or> dr_contract r \<noteq> ct_hash c then own_refuse ''ACCEPTANCE_SEAL_STALE_DRAFT''
             else if list_ex (\<lambda>s. se_contract_generation s = ct_generation c) (run_seals (tk_repo tk) (tk_run tk) d)
             then own_refuse ''ACCEPTANCE_SEAL_GENERATION_CONFLICT''
             else bindR (roots d (dr_material r)) (\<lambda>_.
               let row = new_seal w tk r c d in
               bindR (insert_row seal_clash row (ex_seals (db_tables d))) (\<lambda>rows.
               Inr ((row\<lparr>se_material := dr_material r\<rparr>, False), add_event ''acceptance_draft_sealed''
                 (PDict [(''repository_id'', PStr (tk_repo tk)), (''run_id'', PStr (tk_run tk)),
                   (''acceptance_generation'', PInt (se_generation row)), (''acceptance_hash'', PStr (se_hash row)),
                   (''draft_hash'', PStr (dr_hash r)), (''legacy_contract_hash'', PStr (ct_hash c))])
                 (tables_update (\<lambda>e. e\<lparr>ex_seals := rows\<rparr>) d)))))))"

definition seal_acceptance_draft ::
  "world \<Rightarrow> owner_token \<Rightarrow> pyval \<times> pyval \<times> pyval \<times> (db \<Rightarrow> pydict \<Rightarrow> unit res) \<Rightarrow> db \<Rightarrow> (seal_row \<times> bool) res \<times> db"
where
  "seal_acceptance_draft w tk args d =
     (case args of (i, revision, contract, roots) \<Rightarrow>
      case draft_arguments i revision contract ''ACCEPTANCE_SEAL_BINDING_INVALID'' of
        Inl e \<Rightarrow> (Inl e, d)
      | Inr (i, n, h) \<Rightarrow> transaction (seal_tx w tk roots i n h) (install_context d))"

definition latest_seal :: "string \<Rightarrow> string \<Rightarrow> db \<Rightarrow> seal_row option" where
  "latest_seal repo run d = (let rows = run_seals repo run d in
     List.find (\<lambda>s. list_all (\<lambda>x. se_generation x \<le> se_generation s) rows) rows)"

definition get_sealed_acceptance :: "world \<Rightarrow> string \<Rightarrow> string \<Rightarrow> int option \<Rightarrow> db \<Rightarrow> seal_row option res" where
  "get_sealed_acceptance w repo run n d =
     (if repo = [] \<or> run = [] \<or> (case n of None \<Rightarrow> False | Some k \<Rightarrow> k < 1) then store_refuse ''ACCEPTANCE_LOOKUP_INVALID''
      else case (case n of None \<Rightarrow> latest_seal repo run d
          | Some k \<Rightarrow> List.find (\<lambda>s. se_generation s = k) (run_seals repo run d)) of
        None \<Rightarrow> Inr None
      | Some row \<Rightarrow> bindR (seal_from_row w row) (\<lambda>s. bindR (check_sealed_draft w s d) (\<lambda>_. Inr (Some s))))"

text \<open>The seal with a given hash, read and checked against its draft.\<close>

definition seal_by_hash :: "owner_token \<Rightarrow> string \<Rightarrow> db \<Rightarrow> seal_row option" where
  "seal_by_hash tk h d = List.find (\<lambda>s. se_hash s = h) (run_seals (tk_repo tk) (tk_run tk) d)"

end
