(* ===== verification/Journal.thy ===== *)
theory Journal
  imports Seals Activity_Life
begin

text \<open>
  The journal of wave integrations (\<open>lib/run_state/integration_journal.py\<close>): the immutable contract of
  a patch that is about to be applied to a shared workspace, bound to the launch that issued it, and its
  publication. Applying the patch and reading the workspace happen outside; what is read there enters as
  an argument. A \<open>try\<close> block that turns the exceptions of a lookup into one refusal is \<open>caught\<close>.
\<close>

section \<open>Lookups that may raise\<close>

definition item :: "string \<Rightarrow> pyval \<Rightarrow> pyval res" where
  "item k v = (case v of PDict m \<Rightarrow> (case map_of m k of None \<Rightarrow> Inl (OtherException ''KeyError'') | Some x \<Rightarrow> Inr x)
     | _ \<Rightarrow> Inl (TypeError ''not subscriptable''))"

definition need :: "'a option \<Rightarrow> 'a res" where
  "need x = (case x of None \<Rightarrow> Inl (TypeError ''NoneType'') | Some y \<Rightarrow> Inr y)"

definition require :: "bool \<Rightarrow> unit res" where
  "require b = (if b then Inr () else Inl (ValueError []))"

definition caught :: "string \<Rightarrow> 'a res \<Rightarrow> 'a res" where
  "caught code r = (case r of Inl (ValueError _) \<Rightarrow> own_refuse code | Inl (TypeError _) \<Rightarrow> own_refuse code
     | Inl (OtherException _) \<Rightarrow> own_refuse code | r \<Rightarrow> r)"

text \<open>\<open>data[k] == v\<close>; a missing key refuses like a difference.\<close>

definition holds :: "pyval \<Rightarrow> string \<Rightarrow> pyval \<Rightarrow> bool" where
  "holds data k v = (case map_of (dict_of data) k of None \<Rightarrow> False | Some x \<Rightarrow> py_eq x v)"

lemma need_Inr [simp]: "need x = Inr y \<longleftrightarrow> x = Some y"
  by (cases x) (simp_all add: need_def)

lemma require_Inr [simp]: "require b = Inr u \<longleftrightarrow> b"
  by (simp add: require_def)

lemma caught_Inr [simp]: "caught code r = Inr x \<longleftrightarrow> r = Inr x"
  by (auto simp: caught_def split: sum.splits py_exn.splits)

text \<open>The row of \<open>control_events\<close> with an id, and the event an activity recorded under a key.\<close>

definition event_at :: "nat \<Rightarrow> db \<Rightarrow> (string \<times> pyval) option" where
  "event_at n d = (if 1 \<le> n \<and> n \<le> length (db_events d) then Some (db_events d ! (n - 1)) else None)"

definition keyed_event :: "string \<Rightarrow> string \<Rightarrow> db \<Rightarrow> (event_key \<times> pyval) option" where
  "keyed_event a k d = (case event_key_of a k d of None \<Rightarrow> None
     | Some e \<Rightarrow> map_option (\<lambda>p. (e, snd p)) (event_at (ek_event e) d))"

definition binding_of :: "string \<Rightarrow> db \<Rightarrow> child_binding option" where
  "binding_of a d = List.find (\<lambda>b. cb_activity b = a) (db_bindings d)"

definition workspace_of :: "owner_token \<Rightarrow> string \<Rightarrow> db \<Rightarrow> workspace option" where
  "workspace_of tk prep d =
     List.find (\<lambda>s. ws_id s = prep \<and> ws_repo s = Some (tk_repo tk) \<and> ws_run s = tk_run tk) (ex_workspaces (db_tables d))"

definition input_digest :: "workspace \<Rightarrow> pyval" where
  "input_digest s = dict_get (dict_of (ws_record s)) ''input_digest''"

definition policy_state_of :: "owner_token \<Rightarrow> db \<Rightarrow> policy_state option" where
  "policy_state_of tk d = List.find (\<lambda>s. ps_repo s = tk_repo tk \<and> ps_run s = tk_run tk) (ex_states (db_tables d))"

definition candidate_of :: "owner_token \<Rightarrow> string \<Rightarrow> string \<Rightarrow> db \<Rightarrow> candidate_row option" where
  "candidate_of tk acceptance candidate d = List.find (\<lambda>c. cd_repo c = tk_repo tk \<and> cd_run c = tk_run tk
     \<and> cd_acceptance c = acceptance \<and> cd_candidate c = candidate) (ex_candidates (db_tables d))"

definition receipt_of :: "owner_token \<Rightarrow> string \<Rightarrow> db \<Rightarrow> receipt_row option" where
  "receipt_of tk h d = List.find (\<lambda>r. ar_repo r = tk_repo tk \<and> ar_run r = tk_run tk \<and> ar_hash r = h) (ex_receipts (db_tables d))"

definition run_journals :: "owner_token \<Rightarrow> db \<Rightarrow> journal_row list" where
  "run_journals tk d = filter (\<lambda>j. jr_repo j = tk_repo tk \<and> jr_run j = tk_run tk) (ex_journals (db_tables d))"

definition journal_of :: "owner_token \<Rightarrow> string \<Rightarrow> db \<Rightarrow> journal_row option" where
  "journal_of tk key d = List.find (\<lambda>j. jr_wave j = key) (run_journals tk d)"

section \<open>Material\<close>

text \<open>\<open>str(PurePosixPath(s))\<close> of a relative path, and its parts.\<close>

definition posix_parts :: "string \<Rightarrow> string list" where
  "posix_parts s = filter (\<lambda>p. p \<noteq> [] \<and> p \<noteq> ''.'') (split_slash [] s)"

definition posix_relative :: "string \<Rightarrow> string" where
  "posix_relative s = (if posix_parts s = [] then ''.'' else join ''/'' (posix_parts s))"

definition material_path :: "string \<Rightarrow> bool" where
  "material_path s = (s \<noteq> [] \<and> CHR 0x00 \<notin> set s \<and> \<not> py_startswith s ''/'' \<and> posix_relative s = s
     \<and> ''..'' \<notin> set (posix_parts s) \<and> ''.git'' \<notin> set (posix_parts s))"

definition material_item :: "pyval \<Rightarrow> unit res" where
  "material_item v =
     (case v of
        PNone \<Rightarrow> Inr ()
      | PDict m \<Rightarrow>
          if \<not> dict_has_keys m [''sha256'', ''git_mode''] then own_refuse ''WAVE_INTEGRATION_INVALID''
          else if \<not> hashable (dict_get m ''git_mode'') then Inl (TypeError ''unhashable'')
          else if dict_get m ''git_mode'' \<notin> {PStr ''100644'', PStr ''100755''} \<or> \<not> lower_digest (dict_get m ''sha256'')
          then own_refuse ''WAVE_INTEGRATION_INVALID'' else Inr ()
      | _ \<Rightarrow> own_refuse ''WAVE_INTEGRATION_INVALID'')"

definition material :: "pyval \<Rightarrow> pydict res" where
  "material v =
     (case v of
        PDict m \<Rightarrow> bindR (mapR (\<lambda>(path, x). if \<not> material_path path then own_refuse ''WAVE_INTEGRATION_INVALID'' else material_item x) m)
          (\<lambda>_. Inr (json_column m))
      | _ \<Rightarrow> own_refuse ''WAVE_INTEGRATION_INVALID'')"

definition assert_settled :: "string \<Rightarrow> string option \<Rightarrow> db \<Rightarrow> unit res" where
  "assert_settled prep except d =
     (if list_ex (\<lambda>j. jr_preparation j = prep \<and> jr_state j \<noteq> ''published'' \<and> Some (jr_wave j) \<noteq> except) (ex_journals (db_tables d))
      then own_refuse ''WORKSPACE_INTEGRATION_PENDING'' else Inr ())"

section \<open>The authority of a journal\<close>

record record_family =
  rf_prefix :: string
  rf_schema :: string
  rf_key :: string
  rf_id :: string
  rf_action :: string
  rf_role :: string
  rf_receipt :: string
  rf_results :: bool

text \<open>\<open>rf_key\<close> is the prefix that \<open>record_key\<close> puts before the action.\<close>

definition record_families :: "record_family list" where
  "record_families =
     [\<lparr>rf_prefix = ''recovery-trial:'', rf_schema = ''ffs.recovery-trial-checks/v1'', rf_key = ''recovery-trial-checks:'',
       rf_id = ''trial_action_id'', rf_action = ''recovery_trial'', rf_role = ''recovery'', rf_receipt = ''recovery'', rf_results = True\<rparr>,
      \<lparr>rf_prefix = ''repair:'', rf_schema = ''ffs.frontend-repair/v1'', rf_key = ''repair-record:'',
       rf_id = ''action_id'', rf_action = ''repair'', rf_role = ''worker'', rf_receipt = ''execution'', rf_results = False\<rparr>]"

definition record_family_of :: "string \<Rightarrow> record_family option" where
  "record_family_of key = List.find (\<lambda>f. py_startswith key (rf_prefix f)) record_families"

definition last_landed :: "owner_token \<Rightarrow> string \<Rightarrow> db \<Rightarrow> journal_row option" where
  "last_landed tk i d = (let rows = filter (\<lambda>j. jr_intent j = i) (run_journals tk d) in
     List.find (\<lambda>j. list_all (\<lambda>x. jr_event x \<le> jr_event j) rows) rows)"

definition recovery_input_live :: "owner_token \<Rightarrow> workspace \<Rightarrow> string \<Rightarrow> pyval \<Rightarrow> string \<Rightarrow> db \<Rightarrow> bool res" where
  "recovery_input_live tk s trial given role d =
     (let first = input_digest s in
      case policy_state_of tk d of
        None \<Rightarrow> Inr (first = given)
      | Some st \<Rightarrow>
          (case candidate_of tk (ps_acceptance st) (ps_candidate st) d of
             None \<Rightarrow> Inr (PStr (ps_candidate st) = given \<and> given = first)
           | Some cur \<Rightarrow>
               bindR (need (receipt_of tk (cd_receipt cur) d)) (\<lambda>r.
               if PStr (ps_candidate st) = given
               then bindR (item ''intent_id'' (PDict (ar_receipt r))) (\<lambda>i.
                 Inr (case last_landed tk (str_of i) d of None \<Rightarrow> False | Some j \<Rightarrow> jr_preparation j = ws_id s))
               else Inr (opt_str (cd_parent cur) = given \<and> dict_get (ar_receipt r) ''role'' = PStr role
                 \<and> dict_get (ar_receipt r) ''activity_id'' = PStr trial))))"

text \<open>The launch attempted last for an action.\<close>

definition last_attempt :: "string \<Rightarrow> db \<Rightarrow> intent option" where
  "last_attempt action d =
     List.find (\<lambda>_. True) (List.map_filter (\<lambda>p. if fst p = action then intent_of (snd p) d else None) (rev (db_attempts d)))"

definition issued_fields :: "intent \<Rightarrow> string \<Rightarrow> nat \<Rightarrow> string \<Rightarrow> string \<Rightarrow> pydict" where
  "issued_fields i a n ack permit = [(''activity_id'', PStr a), (''event_id'', PInt (int n)), (''intent_id'', PStr (in_id i)),
     (''issuing_generation'', PInt (in_generation i)), (''acknowledgement_id'', PStr ack), (''permit_id'', PStr permit)]"

definition given_id :: "string option \<Rightarrow> bool" where
  "given_id x = (case x of None \<Rightarrow> False | Some s \<Rightarrow> s \<noteq> [])"

definition succeeded_launch :: "intent \<Rightarrow> bool" where
  "succeeded_launch i = (in_state i = ''completed_succeeded'' \<and> in_completion i = Some ''succeeded'' \<and> given_id (in_evidence i))"

definition the_id :: "string option \<Rightarrow> string" where
  "the_id x = (case x of None \<Rightarrow> [] | Some s \<Rightarrow> s)"

text \<open>The stored event is the canonical wrapping of its data, and its key carries the hash of the data.\<close>

definition retained_event :: "world \<Rightarrow> owner_token \<Rightarrow> string \<Rightarrow> event_key \<Rightarrow> pyval \<Rightarrow> pyval \<Rightarrow> bool" where
  "retained_event w tk a e payload data =
     (py_eq payload (PDict [(''run_id'', PStr (tk_run tk)), (''activity_id'', PStr a), (''data'', data)])
      \<and> ek_hash e = w_sha256 w (json_dumps data))"

definition record_matches :: "record_family \<Rightarrow> string \<Rightarrow> intent \<Rightarrow> activity \<Rightarrow> child_binding \<Rightarrow> workspace \<Rightarrow> policy_action \<Rightarrow> pyval \<Rightarrow> bool" where
  "record_matches f action i a b s pa data =
     (holds data ''schema'' (PStr (rf_schema f)) \<and> holds data (rf_id f) (PStr action) \<and> holds data ''issuing_intent_id'' (PStr (in_id i))
      \<and> holds data ''acceptance_hash'' (PStr (cb_contract b)) \<and> pa_action pa = rf_action f
      \<and> pa_state pa \<in> set [''dispatched'', ''completed_valid''] \<and> ac_state a \<in> set [''active'', ''succeeded'']
      \<and> succeeded_launch i \<and> given_id (in_ack i) \<and> given_id (in_permit i)
      \<and> ws_state s = ''ready'' \<and> holds data ''base_commit'' (PStr (ws_base s))
      \<and> cb_role b = rf_role f \<and> holds data ''workspace_preparation_id'' (opt_str (cb_preparation b))
      \<and> cb_preparation b \<noteq> Some (ws_id s))"

definition record_binding :: "world \<Rightarrow> owner_token \<Rightarrow> string \<Rightarrow> string \<Rightarrow> record_family \<Rightarrow> db \<Rightarrow> pydict res" where
  "record_binding w tk key prep f d =
     bindR (assert_owner w tk d) (\<lambda>_. caught ''WAVE_INTEGRATION_BINDING_INVALID'' (
     let action = drop (length (rf_prefix f)) key in
     bindR (need (last_attempt action d)) (\<lambda>i.
     bindR (assert_activity_binding w tk (in_activity i) d) (\<lambda>a.
     bindR (need (keyed_event (ac_id a) (rf_key f @ action) d)) (\<lambda>(e, payload).
     bindR (item ''data'' payload) (\<lambda>data.
     bindR (need (workspace_of tk prep d)) (\<lambda>s.
     bindR (need (binding_of (ac_id a) d)) (\<lambda>b.
     bindR (need (action_of tk action d)) (\<lambda>pa.
     bindR (item ''input_digest'' data) (\<lambda>given.
     bindR (recovery_input_live tk s (ac_id a) given (rf_receipt f) d) (\<lambda>live.
     bindR (need (event_key_of (ac_id a) (key @ '':prepared'') d)) (\<lambda>prepared.
     bindR (require (retained_event w tk (ac_id a) e payload data \<and> record_matches f action i a b s pa data \<and> live)) (\<lambda>_.
     bindR (bindR (item ''patch'' data) (item ''sha256'')) (\<lambda>patch.
     bindR (if rf_results f then bindR (item ''trial_candidate_hash'' data) (\<lambda>h. Inr [(''trial_candidate_hash'', h)]) else Inr []) (\<lambda>extra.
     Inr (issued_fields i (ac_id a) (ek_event e) (the_id (in_ack i)) (the_id (in_permit i)) @
       [(''request_sha256'', PStr (ek_hash e)), (''prepared_sha256'', PStr (ek_hash prepared)), (''workspace'', PStr (ws_path s)),
        (''base_commit'', PStr (ws_base s)), (''input_digest'', given), (''runtime_identity'', PStr (cb_runtime b)),
        (''contract_hash'', PStr (cb_contract b)), (''patch_sha256'', patch)] @ extra))))))))))))))))"

text \<open>\<open>gsd-wave:<event id>\<close> with the id in canonical decimal form; a negative id names no event.\<close>

definition wave_event :: "string \<Rightarrow> nat option" where
  "wave_event key = (let r = drop 9 key in
     if py_startswith key ''gsd-wave:'' \<and> r \<noteq> [] \<and> list_all digit_char r \<and> nat_str (digits_val r) = r then Some (digits_val r) else None)"

definition wave_row :: "nat \<Rightarrow> db \<Rightarrow> (event_key \<times> string \<times> pyval) option" where
  "wave_row n d = (case List.find (\<lambda>e. ek_event e = n) (db_keys d) of None \<Rightarrow> None
     | Some e \<Rightarrow> map_option (\<lambda>p. (e, fst p, snd p)) (event_at n d))"

definition wave_launch :: "bool \<Rightarrow> intent \<Rightarrow> bool" where
  "wave_launch completed i = (if completed then succeeded_launch i else in_state i \<in> set [''released_to_execute'', ''reconcile_required''])"

definition wave_matches :: "bool \<Rightarrow> string \<Rightarrow> string \<Rightarrow> intent \<Rightarrow> activity \<Rightarrow> child_binding \<Rightarrow> workspace \<Rightarrow> pyval \<Rightarrow> pyval \<Rightarrow> bool" where
  "wave_matches completed typ prep i a b s data registered =
     (holds data ''operation'' (PStr ''gsd-wave-request'') \<and> py_startswith typ (''worker-request:'' @ in_id i @ '':'')
      \<and> ac_state a \<in> set (if completed then [''active'', ''succeeded''] else [''active'']) \<and> in_activity i = ac_id a
      \<and> wave_launch completed i \<and> given_id (in_ack i) \<and> given_id (in_permit i)
      \<and> ws_state s = ''ready'' \<and> cb_preparation b = Some prep \<and> holds data ''workspace'' (PStr (ws_path s))
      \<and> holds registered ''workspace'' (PStr (ws_path s)) \<and> holds data ''runtime_identity'' (PStr (cb_runtime b))
      \<and> holds registered ''intent_id'' (PStr (in_id i)) \<and> holds registered ''generation'' (PInt (in_generation i)))"

definition wave_binding :: "world \<Rightarrow> owner_token \<Rightarrow> string \<Rightarrow> string \<Rightarrow> bool \<Rightarrow> db \<Rightarrow> pydict res" where
  "wave_binding w tk key prep completed d =
     bindR (assert_owner w tk d) (\<lambda>_. caught ''WAVE_INTEGRATION_BINDING_INVALID'' (
     bindR (case wave_event key of None \<Rightarrow> Inl (ValueError []) | Some n \<Rightarrow> Inr n) (\<lambda>n.
     bindR (need (wave_row n d)) (\<lambda>(e, typ, payload).
     bindR (item ''data'' payload) (\<lambda>data.
     bindR (assert_activity_binding w tk (ek_activity e) d) (\<lambda>a.
     bindR (item ''intent_id'' data) (\<lambda>iid.
     bindR (need (intent_of (str_of iid) d)) (\<lambda>i.
     bindR (need (workspace_of tk prep d)) (\<lambda>s.
     bindR (need (binding_of (ac_id a) d)) (\<lambda>b.
     bindR (need (keyed_event (ac_id a) (''worker-registration:'' @ in_id i) d)) (\<lambda>(re, rpayload).
     bindR (item ''data'' rpayload) (\<lambda>registered.
     bindR (require (retained_event w tk (ac_id a) e payload data \<and> typ = ek_key e \<and> wave_matches completed typ prep i a b s data registered
       \<and> ek_hash re = w_sha256 w (json_dumps registered))) (\<lambda>_.
     bindR (need (event_key_of (ac_id a) (key @ '':claimed'') d)) (\<lambda>claim.
     bindR (need (event_key_of (ac_id a) (key @ '':prepared'') d)) (\<lambda>prepared.
     Inr (issued_fields i (ac_id a) n (the_id (in_ack i)) (the_id (in_permit i)) @
       [(''request_sha256'', PStr (ek_hash e)), (''registration_sha256'', PStr (ek_hash re)), (''claim_sha256'', PStr (ek_hash claim)),
        (''prepared_sha256'', PStr (ek_hash prepared)), (''workspace'', PStr (ws_path s)), (''base_commit'', PStr (ws_base s)),
        (''input_digest'', input_digest s), (''runtime_identity'', PStr (cb_runtime b)), (''contract_hash'', PStr (cb_contract b))]))))))))))))))))"

definition journal_binding :: "world \<Rightarrow> owner_token \<Rightarrow> string \<Rightarrow> string \<Rightarrow> bool \<Rightarrow> db \<Rightarrow> pydict res" where
  "journal_binding w tk key prep completed d =
     (case record_family_of key of Some f \<Rightarrow> record_binding w tk key prep f d | None \<Rightarrow> wave_binding w tk key prep completed d)"

section \<open>Completed publications\<close>

definition match_item :: "pyval \<Rightarrow> string \<Rightarrow> pyval \<Rightarrow> string \<Rightarrow> bool" where
  "match_item a k b l = (case (map_of (dict_of a) k, map_of (dict_of b) l) of (Some x, Some y) \<Rightarrow> py_eq x y | _ \<Rightarrow> False)"

definition retained_value :: "world \<Rightarrow> string \<Rightarrow> string \<Rightarrow> db \<Rightarrow> pyval res" where
  "retained_value w a key d =
     bindR (need (keyed_event a key d)) (\<lambda>(e, payload).
     bindR (item ''data'' payload) (\<lambda>v.
     bindR (require (w_sha256 w (json_dumps v) = ek_hash e)) (\<lambda>_. Inr v)))"

text \<open>The columns of the row repeat the issuing fields of the authority.\<close>

definition issued_by :: "pydict \<Rightarrow> journal_row \<Rightarrow> bool" where
  "issued_by m j = (dict_get m ''activity_id'' = PStr (jr_activity j) \<and> dict_get m ''event_id'' = PInt (int (jr_event j))
     \<and> dict_get m ''intent_id'' = PStr (jr_intent j) \<and> dict_get m ''issuing_generation'' = PInt (jr_generation j)
     \<and> dict_get m ''acknowledgement_id'' = PStr (jr_ack j) \<and> dict_get m ''permit_id'' = PStr (jr_permit j))"

definition opt_int :: "int option \<Rightarrow> pyval" where
  "opt_int x = (case x of None \<Rightarrow> PNone | Some n \<Rightarrow> PInt n)"

text \<open>The evidence of an integration is the hash of the canonical material record and a line end.\<close>

definition material_evidence :: "world \<Rightarrow> pyval \<Rightarrow> pyval \<Rightarrow> bool" where
  "material_evidence w m evidence = holds evidence ''sha256'' (PStr (w_sha256 w (json_dumps m @ [CHR 0x0A])))"

definition integrated_material :: "world \<Rightarrow> pyval \<Rightarrow> pydict \<Rightarrow> pyval \<Rightarrow> pyval \<Rightarrow> bool" where
  "integrated_material w contract authority m evidence =
     (match_item m ''before'' contract ''before'' \<and> match_item m ''after'' contract ''expected_after''
      \<and> match_item m ''workspace'' (PDict authority) ''workspace'' \<and> match_item m ''initial_head'' (PDict authority) ''base_commit''
      \<and> material_evidence w m evidence)"

definition validate_completed_publication ::
  "world \<Rightarrow> owner_token \<Rightarrow> string \<Rightarrow> string \<Rightarrow> db \<Rightarrow> (journal_row \<times> pyval \<times> pyval) res"
where
  "validate_completed_publication w tk key intent d =
     bindR (assert_owner w tk d) (\<lambda>_. caught ''FRONTEND_INTEGRATION_PUBLICATION_INVALID'' (
     bindR (need (journal_of tk key d)) (\<lambda>j.
     bindR (require (jr_state j = ''published'' \<and> jr_intent j = intent \<and> w_sha256 w (json_dumps (jr_contract j)) = jr_hash j)) (\<lambda>_.
     bindR (journal_binding w tk key (jr_preparation j) True d) (\<lambda>authority.
     bindR (require (holds (jr_contract j) ''authority'' (PDict authority) \<and> issued_by authority j)) (\<lambda>_.
     bindR (retained_value w (jr_activity j) (key @ '':integrated'') d) (\<lambda>integrated.
     bindR (retained_value w (jr_activity j) (key @ '':journal-published'') d) (\<lambda>published.
     bindR (need (jr_evidence j)) (\<lambda>evidence.
     bindR (item ''material'' integrated) (\<lambda>m.
     bindR (require (holds integrated ''evidence'' evidence \<and> holds published ''evidence'' evidence
       \<and> holds published ''contract_sha256'' (PStr (jr_hash j)) \<and> holds published ''publication_generation'' (opt_int (jr_publication j))
       \<and> integrated_material w (jr_contract j) authority m evidence)) (\<lambda>_.
     Inr (j, m, evidence))))))))))))"

section \<open>Registering an integration\<close>

definition INTENT_SCHEMA :: string where
  "INTENT_SCHEMA = ''ffs.workspace-integration-intent/v1''"

definition journal_clash :: "journal_row \<Rightarrow> journal_row \<Rightarrow> bool" where
  "journal_clash r x = (jr_repo x = jr_repo r \<and> jr_run x = jr_run r \<and> jr_wave x = jr_wave r)"

definition new_journal :: "world \<Rightarrow> owner_token \<Rightarrow> string \<Rightarrow> string \<Rightarrow> pydict \<Rightarrow> pyval \<Rightarrow> journal_row" where
  "new_journal w tk key prep m contract =
     \<lparr>jr_repo = tk_repo tk, jr_run = tk_run tk, jr_preparation = prep, jr_wave = key, jr_activity = str_of (dict_get m ''activity_id''),
       jr_event = nat (int_of (dict_get m ''event_id'')), jr_intent = str_of (dict_get m ''intent_id''),
       jr_generation = int_of (dict_get m ''issuing_generation''), jr_ack = str_of (dict_get m ''acknowledgement_id''),
       jr_permit = str_of (dict_get m ''permit_id''), jr_contract = sort_keys contract, jr_hash = w_sha256 w (json_dumps contract),
       jr_state = ''pending'', jr_evidence = None, jr_publication = None\<rparr>"

record integration_request =
  iq_wave :: string
  iq_preparation :: string
  iq_before :: pyval
  iq_after :: pyval
  iq_bindings :: pyval

definition intent_contract :: "pydict \<Rightarrow> pydict \<Rightarrow> pydict \<Rightarrow> pyval \<Rightarrow> pyval" where
  "intent_contract authority before after bindings = PDict [(''schema'', PStr INTENT_SCHEMA), (''authority'', PDict authority),
     (''before'', PDict before), (''expected_after'', PDict after), (''bindings'', bindings)]"

definition register_intent_tx :: "world \<Rightarrow> owner_token \<Rightarrow> integration_request \<Rightarrow> journal_row tx" where
  "register_intent_tx w tk q d =
     bindR (material (iq_before q)) (\<lambda>before.
     bindR (material (iq_after q)) (\<lambda>after.
     if dict_keys before \<noteq> dict_keys after \<or> \<not> (case iq_bindings q of PDict _ \<Rightarrow> True | _ \<Rightarrow> False)
     then own_refuse ''WAVE_INTEGRATION_INVALID''
     else bindR (journal_binding w tk (iq_wave q) (iq_preparation q) False d) (\<lambda>authority.
       bindR (assert_settled (iq_preparation q) (Some (iq_wave q)) d) (\<lambda>_.
       if \<not> json_encodable (iq_bindings q) then Inl (ValueError ''nan'')
       else let contract = intent_contract authority before after (iq_bindings q) in
         case journal_of tk (iq_wave q) d of
           Some j \<Rightarrow> if json_dumps (jr_contract j) \<noteq> json_dumps contract \<or> jr_preparation j \<noteq> iq_preparation q
               then own_refuse ''WAVE_INTEGRATION_CONFLICT'' else Inr (j, d)
         | None \<Rightarrow> let row = new_journal w tk (iq_wave q) (iq_preparation q) authority contract in
             bindR (insert_row journal_clash row (ex_journals (db_tables d))) (\<lambda>rows.
             Inr (row, tables_update (\<lambda>e. e\<lparr>ex_journals := rows\<rparr>) d))))))"

definition register_intent :: "world \<Rightarrow> owner_token \<Rightarrow> integration_request \<Rightarrow> db \<Rightarrow> journal_row res \<times> db" where
  "register_intent w tk q d = transaction (register_intent_tx w tk q) d"

definition read_intent :: "world \<Rightarrow> owner_token \<Rightarrow> string \<Rightarrow> db \<Rightarrow> journal_row option res" where
  "read_intent w tk key d = bindR (assert_owner w tk d) (\<lambda>_. Inr (journal_of tk key d))"

section \<open>Publication and quarantine\<close>

definition update_journal :: "owner_token \<Rightarrow> string \<Rightarrow> (journal_row \<Rightarrow> journal_row) \<Rightarrow> db \<Rightarrow> db" where
  "update_journal tk key f d = tables_update (\<lambda>e. e\<lparr>ex_journals := update_where
     (\<lambda>j. jr_repo j = tk_repo tk \<and> jr_run j = tk_run tk \<and> jr_wave j = key) f (ex_journals e)\<rparr>) d"

definition publish_row :: "owner_token \<Rightarrow> pyval \<Rightarrow> journal_row \<Rightarrow> journal_row" where
  "publish_row tk evidence j = j\<lparr>jr_state := ''published'', jr_evidence := Some (sort_keys evidence), jr_publication := Some (tk_generation tk)\<rparr>"

definition published_payload :: "owner_token \<Rightarrow> journal_row \<Rightarrow> pyval \<Rightarrow> pyval" where
  "published_payload tk j evidence = PDict [(''contract_sha256'', PStr (jr_hash j)), (''evidence'', evidence),
     (''publication_generation'', PInt (tk_generation tk))]"

definition write_publication :: "world \<Rightarrow> owner_token \<Rightarrow> journal_row \<Rightarrow> pyval \<Rightarrow> unit tx" where
  "write_publication w tk j evidence d =
     bindR (record_event_once_tx w tk (jr_activity j) (jr_wave j @ '':journal-published'') (published_payload tk j evidence)
       (update_journal tk (jr_wave j) (publish_row tk evidence) d)) (\<lambda>(_, d'). Inr ((), d'))"

definition validate_journal :: "world \<Rightarrow> owner_token \<Rightarrow> pyval \<Rightarrow> pyval \<Rightarrow> db \<Rightarrow> journal_row res" where
  "validate_journal w tk journal actual d =
     (case journal of
        PDict m \<Rightarrow>
          (case (case dict_get m ''wave_key'' of PStr k \<Rightarrow> journal_of tk k d | _ \<Rightarrow> None) of
             None \<Rightarrow> own_refuse ''WAVE_INTEGRATION_RECONCILIATION_REQUIRED''
           | Some j \<Rightarrow>
               if dict_get m ''contract_sha256'' \<noteq> PStr (jr_hash j) \<or> jr_state j = ''quarantined''
               then own_refuse ''WAVE_INTEGRATION_RECONCILIATION_REQUIRED''
               else bindR (journal_binding w tk (jr_wave j) (jr_preparation j) False d) (\<lambda>authority.
                 bindR (item ''authority'' (jr_contract j)) (\<lambda>x.
                 if \<not> py_eq (PDict authority) x then own_refuse ''WAVE_INTEGRATION_BINDING_INVALID''
                 else if actual = PNone then Inr j
                 else bindR (material actual) (\<lambda>after.
                   bindR (item ''expected_after'' (jr_contract j)) (\<lambda>expected.
                   if \<not> py_eq (PDict after) expected then own_refuse ''WAVE_INTEGRATION_EVIDENCE_INVALID'' else Inr j)))))
      | _ \<Rightarrow> own_refuse ''WAVE_INTEGRATION_BINDING_INVALID'')"

definition contract_authority :: "journal_row \<Rightarrow> pydict" where
  "contract_authority j = dict_of (dict_get (dict_of (jr_contract j)) ''authority'')"

text \<open>The material and evidence of the event \<open>:integrated\<close>, checked against the contract.\<close>

definition integrated_evidence :: "world \<Rightarrow> journal_row \<Rightarrow> db \<Rightarrow> pyval res" where
  "integrated_evidence w j d = caught ''WAVE_INTEGRATION_EVIDENCE_INVALID'' (
     bindR (need (keyed_event (jr_activity j) (jr_wave j @ '':integrated'') d)) (\<lambda>(_, payload).
     bindR (item ''data'' payload) (\<lambda>integrated.
     bindR (item ''material'' integrated) (\<lambda>m.
     bindR (item ''evidence'' integrated) (\<lambda>evidence.
     bindR (require (integrated_material w (jr_contract j) (contract_authority j) m evidence)) (\<lambda>_. Inr evidence))))))"

definition published_other :: "pyval \<Rightarrow> journal_row \<Rightarrow> bool" where
  "published_other evidence j = (jr_state j = ''published'' \<and> (case jr_evidence j of None \<Rightarrow> True | Some e \<Rightarrow> json_dumps e \<noteq> json_dumps evidence))"

definition publish_tx :: "world \<Rightarrow> owner_token \<Rightarrow> pyval \<Rightarrow> pyval \<Rightarrow> unit tx" where
  "publish_tx w tk journal actual d =
     bindR (validate_journal w tk journal actual d) (\<lambda>j.
     bindR (integrated_evidence w j d) (\<lambda>evidence.
     if published_other evidence j then own_refuse ''WAVE_INTEGRATION_CONFLICT''
     else write_publication w tk j evidence d))"

definition publish_journal :: "world \<Rightarrow> owner_token \<Rightarrow> pyval \<times> pyval \<Rightarrow> db \<Rightarrow> unit res \<times> db" where
  "publish_journal w tk args d = transaction (publish_tx w tk (fst args) (snd args)) d"

definition quarantine_tx :: "world \<Rightarrow> owner_token \<Rightarrow> string \<Rightarrow> string \<Rightarrow> unit tx" where
  "quarantine_tx w tk key reason d =
     bindR (assert_owner w tk d) (\<lambda>_.
     case journal_of tk key d of
       None \<Rightarrow> own_refuse ''WAVE_INTEGRATION_RECONCILIATION_REQUIRED''
     | Some j \<Rightarrow>
         if jr_state j = ''published'' then own_refuse ''WAVE_INTEGRATION_RECONCILIATION_REQUIRED''
         else bindR (record_event_once_tx w tk (jr_activity j) (key @ '':integration-quarantined'')
             (PDict [(''contract_sha256'', PStr (jr_hash j)), (''reason'', PStr reason)])
             (update_journal tk key (\<lambda>j. j\<lparr>jr_state := ''quarantined''\<rparr>) d)) (\<lambda>(_, d'). Inr ((), d')))"

definition quarantine :: "world \<Rightarrow> owner_token \<Rightarrow> string \<times> string \<Rightarrow> db \<Rightarrow> unit res \<times> db" where
  "quarantine w tk args d = transaction (quarantine_tx w tk (fst args) (snd args)) d"

text \<open>
  What \<open>publish\<close> reads outside the store: the head of the workspace and the material record of a path.
  The evidence file is read with \<open>w_read_bytes\<close> and \<open>w_json_loads\<close>.
\<close>

record workspace_view =
  vw_head :: "string \<Rightarrow> pyval"
  vw_current :: "string \<Rightarrow> string \<Rightarrow> pyval"

definition observed_material :: "world \<Rightarrow> workspace_view \<Rightarrow> pydict \<Rightarrow> pydict \<Rightarrow> pyval res" where
  "observed_material w view after evidence =
     (case dict_get evidence ''locator'' of
        PStr loc \<Rightarrow>
          (case w_read_bytes w loc of
             None \<Rightarrow> Inl (OtherException ''SupervisorRefused'')
           | Some raw \<Rightarrow> caught ''WAVE_INTEGRATION_EVIDENCE_INVALID'' (
               bindR (case w_json_loads w raw of None \<Rightarrow> Inl (ValueError []) | Some m \<Rightarrow> Inr m) (\<lambda>m.
               bindR (require (dict_get evidence ''sha256'' = PStr (w_sha256 w raw) \<and> holds m ''schema'' (PStr ''ffs.wave-integration/v1'')
                 \<and> holds m ''after'' (PDict after))) (\<lambda>_.
               bindR (item ''workspace'' m) (\<lambda>s.
               bindR (item ''initial_head'' m) (\<lambda>head.
               bindR (require (vw_head view (str_of s) = head \<and> list_all (\<lambda>(p, x). py_eq (vw_current view (str_of s) p) x) after)) (\<lambda>_.
               Inr m)))))))
      | _ \<Rightarrow> own_refuse ''WAVE_INTEGRATION_EVIDENCE_INVALID'')"

definition publish_observed_tx :: "world \<Rightarrow> owner_token \<Rightarrow> string \<Rightarrow> pydict \<Rightarrow> pydict \<Rightarrow> pyval \<Rightarrow> journal_row tx" where
  "publish_observed_tx w tk key after evidence m d =
     (case journal_of tk key d of
        None \<Rightarrow> own_refuse ''WAVE_INTEGRATION_RECONCILIATION_REQUIRED''
      | Some j \<Rightarrow>
          if jr_state j = ''quarantined'' then own_refuse ''WAVE_INTEGRATION_RECONCILIATION_REQUIRED''
          else bindR (journal_binding w tk key (jr_preparation j) False d) (\<lambda>authority.
            if \<not> holds (jr_contract j) ''authority'' (PDict authority) \<or> \<not> holds (jr_contract j) ''expected_after'' (PDict after)
              \<or> \<not> match_item m ''before'' (jr_contract j) ''before'' \<or> \<not> match_item m ''workspace'' (PDict authority) ''workspace''
              \<or> \<not> match_item m ''initial_head'' (PDict authority) ''base_commit'' \<or> \<not> holds m ''changed_files'' (PList (map PStr (sort (map fst after))))
            then own_refuse ''WAVE_INTEGRATION_EVIDENCE_INVALID''
            else if jr_state j = ''published'' then (if published_other (PDict evidence) j then own_refuse ''WAVE_INTEGRATION_CONFLICT'' else Inr (j, d))
            else bindR (write_publication w tk j (PDict evidence) d) (\<lambda>(_, d').
              bindR (need (journal_of tk key d')) (\<lambda>j. Inr (j, d')))))"

definition publish ::
  "world \<Rightarrow> owner_token \<Rightarrow> string \<times> pyval \<times> pyval \<times> workspace_view \<Rightarrow> db \<Rightarrow> journal_row res \<times> db"
where
  "publish w tk args d =
     (case args of (key, observed, evidence, view) \<Rightarrow>
      case bindR (material observed) (\<lambda>after.
        case evidence of
          PDict e \<Rightarrow> if \<not> dict_has_keys e [''locator'', ''sha256''] then own_refuse ''WAVE_INTEGRATION_EVIDENCE_INVALID''
            else bindR (observed_material w view after e) (\<lambda>m. Inr (after, e, m))
        | _ \<Rightarrow> own_refuse ''WAVE_INTEGRATION_EVIDENCE_INVALID'') of
        Inl e \<Rightarrow> (Inl e, d)
      | Inr (after, e, m) \<Rightarrow> transaction (publish_observed_tx w tk key after e m) d)"

end
