(* ===== verification/Frontend.thy ===== *)
theory Frontend
  imports Journal
begin

text \<open>
  The frontend policy of a sealed run (\<open>ControlStore\<close>, \<open>lib/run_state/state.py\<close>, and
  \<open>lib/run_state/frontend_completion.py\<close>): typed receipts of executed children, the chain of candidates,
  the recorded check results and the stages up to completion. The verification of a candidate chain
  (\<open>candidate_chain.py\<close>, over Git) and what is read from a workspace are arguments.
\<close>

section \<open>Receipts of executed children\<close>

definition RECEIPT_BINDING :: string where
  "RECEIPT_BINDING = ''ACCEPTANCE_RECEIPT_BINDING_INVALID''"

definition receipt_child_role :: "string \<Rightarrow> string option" where
  "receipt_child_role role = map_of [(''execution'', ''worker''), (''review'', ''reviewer''), (''recovery'', ''recovery''),
     (''qualification'', ''inventory'')] role"

definition identity_dict :: "ident option \<Rightarrow> pyval" where
  "identity_dict x = (case x of
       None \<Rightarrow> PDict [(''host_id'', PNone), (''boot_id'', PNone), (''pid'', PNone), (''start_token'', PNone)]
     | Some i \<Rightarrow> PDict [(''host_id'', PStr (id_host i)), (''boot_id'', PStr (id_boot i)), (''pid'', PInt (id_pid i)),
         (''start_token'', PStr (id_start i))])"

definition workspace_by_id :: "string option \<Rightarrow> db \<Rightarrow> workspace option" where
  "workspace_by_id prep d = List.find (\<lambda>s. Some (ws_id s) = prep) (ex_workspaces (db_tables d))"

definition preparation_hash :: "world \<Rightarrow> workspace \<Rightarrow> string" where
  "preparation_hash w s = w_sha256 w (json_dumps (ws_record s))"

definition evidence_text :: "pyval \<Rightarrow> string" where
  "evidence_text e = json_dumps (PDict [(''locator'', dict_get (dict_of e) ''locator''), (''sha256'', dict_get (dict_of e) ''sha256'')])"

definition executed_launch :: "owner_token \<Rightarrow> role_receipt \<Rightarrow> intent \<Rightarrow> activity \<Rightarrow> child_binding \<Rightarrow> bool" where
  "executed_launch tk r i a b =
     (in_activity i = rr_activity_id r \<and> ac_repo a = tk_repo tk \<and> ac_run a = tk_run tk \<and> in_generation i = rr_fence_generation r
      \<and> ac_runtime a = Some (rr_runtime_hash r) \<and> cb_candidate b = rr_candidate_hash r
      \<and> receipt_child_role (rr_role r) = Some (cb_role b) \<and> in_ack i \<noteq> None \<and> in_evidence i \<noteq> None
      \<and> (rr_completion_status r = ''succeeded'' \<longrightarrow> in_completion i = Some ''succeeded''))"

definition receipt_execution :: "world \<Rightarrow> owner_token \<Rightarrow> role_receipt \<Rightarrow> db \<Rightarrow> unit res" where
  "receipt_execution w tk r d =
     (case (intent_of (rr_intent_id r) d, activity_of (rr_activity_id r) d, binding_of (rr_activity_id r) d) of
        (Some i, Some a, Some b) \<Rightarrow>
          if \<not> executed_launch tk r i a b then own_refuse RECEIPT_BINDING
          else if \<not> py_eq (identity_dict (in_child i)) (PDict (rr_process_identity r)) then own_refuse RECEIPT_BINDING
          else (case (keyed_event (rr_activity_id r) (''dispatch-request:'' @ rr_request_key r) d, workspace_by_id (cb_preparation b) d) of
              (Some (_, payload), Some s) \<Rightarrow>
                bindR (item ''data'' payload) (\<lambda>data.
                if dict_get (dict_of data) ''intent_id'' \<noteq> PStr (rr_intent_id r) then own_refuse RECEIPT_BINDING
                else if preparation_hash w s \<noteq> rr_workspace_preparation_hash r
                  \<or> the_id (in_evidence i) \<notin> set (map evidence_text (rr_evidence r))
                then own_refuse RECEIPT_BINDING else Inr ())
            | _ \<Rightarrow> own_refuse RECEIPT_BINDING)
      | _ \<Rightarrow> own_refuse RECEIPT_BINDING)"

text \<open>The action an attempt belongs to.\<close>

definition attempted_action :: "string \<Rightarrow> db \<Rightarrow> policy_action option" where
  "attempted_action i d = List.find (\<lambda>_. True) (List.map_filter
     (\<lambda>p. if snd p = i then List.find (\<lambda>a. pa_id a = fst p) (db_actions d) else None) (db_attempts d))"

definition review_action :: "owner_token \<Rightarrow> string \<Rightarrow> db \<Rightarrow> policy_action option" where
  "review_action tk i d = List.find (\<lambda>a. pa_repo a = tk_repo tk \<and> pa_run a = tk_run tk
      \<and> pa_action a \<in> set [''spec_review'', ''final_review''])
     (List.map_filter (\<lambda>p. if snd p = i then List.find (\<lambda>a. pa_id a = fst p) (db_actions d) else None) (db_attempts d))"

definition sealed_child :: "role_receipt \<Rightarrow> seal_row \<Rightarrow> db \<Rightarrow> bool" where
  "sealed_child r s d = (case binding_of (rr_activity_id r) d of None \<Rightarrow> False | Some b \<Rightarrow> cb_contract b = se_hash s)"

text \<open>A review needs a contract with review dimensions, all covered, and an attempted review action.\<close>

definition required_review :: "world \<Rightarrow> owner_token \<Rightarrow> pyval \<Rightarrow> role_receipt \<Rightarrow> seal_row \<Rightarrow> db \<Rightarrow> policy_action option res" where
  "required_review w tk v r s d =
     (if rr_role r \<noteq> ''review'' then Inr None
      else let dims = dict_get (se_material s) ''required_review_dimensions'' in
        if \<not> sealed_child r s d \<or> \<not> truthy dims then own_refuse ''ACCEPTANCE_REVIEW_CONTRACT_REQUIRED''
        else bindR (policy_writer (validate_role_receipt (w_sha256 w) (list_of dims) v)) (\<lambda>_.
          if \<not> db_policy_installed d then own_refuse ''ACCEPTANCE_REVIEW_ACTION_REQUIRED''
          else case review_action tk (rr_intent_id r) d of
              None \<Rightarrow> own_refuse ''ACCEPTANCE_REVIEW_ACTION_REQUIRED''
            | Some a \<Rightarrow> Inr (Some a)))"

definition sealed_identity :: "role_receipt \<Rightarrow> seal_row \<Rightarrow> db \<Rightarrow> bool" where
  "sealed_identity r s d =
     (rr_acceptance_hash r = se_hash s \<and> (sealed_child r s d \<or>
       (dict_get (se_material s) ''candidate_hash'' = PStr (rr_candidate_hash r)
        \<and> dict_get (dict_of (dict_get (se_material s) ''runtime'')) ''effective_hash'' = PStr (rr_runtime_hash r))))"

definition complete_review :: "policy_action \<Rightarrow> string \<Rightarrow> db \<Rightarrow> db" where
  "complete_review a h d = d\<lparr>db_actions := update_where (\<lambda>x. pa_id x = pa_id a)
     (\<lambda>x. x\<lparr>pa_receipt := Some h, pa_state := ''completed_valid''\<rparr>) (db_actions d)\<rparr>"

definition settle_review :: "policy_action option \<Rightarrow> role_receipt \<Rightarrow> db \<Rightarrow> db res" where
  "settle_review act r d =
     (case act of
        None \<Rightarrow> Inr d
      | Some a \<Rightarrow>
          if rr_completion_status r \<noteq> ''succeeded'' then Inr d
          else if pa_receipt a \<notin> {None, Some (rr_receipt_hash r)} then own_refuse ''POLICY_RECEIPT_CONFLICT''
          else Inr (complete_review a (rr_receipt_hash r) d))"

definition receipt_clash :: "receipt_row \<Rightarrow> receipt_row \<Rightarrow> bool" where
  "receipt_clash r x = (ar_repo x = ar_repo r \<and> ar_run x = ar_run r \<and> ar_hash x = ar_hash r)"

definition store_receipt :: "owner_token \<Rightarrow> string \<Rightarrow> pyval \<Rightarrow> role_receipt \<Rightarrow> (receipt_row \<times> bool) tx" where
  "store_receipt tk h v r d =
     (case receipt_of tk (rr_receipt_hash r) d of
        Some x \<Rightarrow> if json_dumps (PDict (ar_receipt x)) \<noteq> rr_receipt_json r then own_refuse ''ACCEPTANCE_RECEIPT_CONFLICT''
            else Inr ((x, True), d)
      | None \<Rightarrow>
          let new = \<lparr>ar_repo = tk_repo tk, ar_run = tk_run tk, ar_acceptance = h, ar_hash = rr_receipt_hash r,
              ar_receipt = json_column (dict_of v)\<rparr> in
          bindR (insert_row receipt_clash new (ex_receipts (db_tables d))) (\<lambda>rows.
          Inr ((new, False), add_event ''acceptance_receipt_recorded'' (PDict [(''repository_id'', PStr (tk_repo tk)),
              (''run_id'', PStr (tk_run tk)), (''acceptance_hash'', PStr h), (''receipt_hash'', PStr (rr_receipt_hash r))])
            (tables_update (\<lambda>e. e\<lparr>ex_receipts := rows\<rparr>) d))))"

definition receipt_tx :: "world \<Rightarrow> owner_token \<Rightarrow> string \<Rightarrow> pyval \<Rightarrow> role_receipt \<Rightarrow> (receipt_row \<times> bool) tx" where
  "receipt_tx w tk h v r d =
     bindR (acceptance_binding w tk d) (\<lambda>_.
     bindR (receipt_execution w tk r d) (\<lambda>_.
     case seal_by_hash tk h d of
       None \<Rightarrow> own_refuse ''ACCEPTANCE_SEAL_REQUIRED''
     | Some row \<Rightarrow> bindR (seal_from_row w row) (\<lambda>s.
         bindR (check_sealed_draft w s d) (\<lambda>_.
         bindR (required_review w tk v r s d) (\<lambda>act.
         if \<not> sealed_identity r s d then own_refuse RECEIPT_BINDING
         else bindR (settle_review act r d) (\<lambda>d1.
           store_receipt tk (se_hash s) v r d1))))))"

text \<open>\<open>snap\<close> is the store the first check reads, before the evidence files are hashed.\<close>

definition record_acceptance_receipt ::
  "world \<Rightarrow> owner_token \<Rightarrow> pyval \<times> pyval \<times> db \<Rightarrow> db \<Rightarrow> (receipt_row \<times> bool) res \<times> db"
where
  "record_acceptance_receipt w tk args d =
     (case args of (h, v, snap) \<Rightarrow>
      if \<not> valid_digest h then (store_refuse RECEIPT_BINDING, d)
      else case policy_writer (validate_role_receipt (w_sha256 w) [] v) of
        Inl e \<Rightarrow> (Inl e, d)
      | Inr r \<Rightarrow>
          (case bindR (receipt_execution w tk r snap) (\<lambda>_. mapR (\<lambda>e. verified_evidence w (PDict [(''locator'',
                 dict_get (dict_of e) ''locator''), (''sha256'', dict_get (dict_of e) ''sha256'')])) (rr_evidence r)) of
             Inl e \<Rightarrow> (Inl e, install_context d)
           | Inr _ \<Rightarrow> transaction (receipt_tx w tk (str_of h) v r) (install_context d)))"

section \<open>The policy state\<close>

definition state_clash :: "policy_state \<Rightarrow> policy_state \<Rightarrow> bool" where
  "state_clash r x = (ps_repo x = ps_repo r \<and> ps_run x = ps_run r)"

definition initialize_tx :: "world \<Rightarrow> owner_token \<Rightarrow> string \<Rightarrow> policy_state tx" where
  "initialize_tx w tk h d =
     bindR (assert_owner w tk d) (\<lambda>_.
     case seal_by_hash tk h d of
       None \<Rightarrow> own_refuse ''ACCEPTANCE_SEAL_REQUIRED''
     | Some row \<Rightarrow> bindR (seal_from_row w row) (\<lambda>s.
         bindR (check_sealed_draft w s d) (\<lambda>_.
         case policy_state_of tk d of
           Some st \<Rightarrow> if ps_acceptance st \<noteq> h \<or> ps_generation st \<noteq> se_contract_generation s
               then own_refuse ''FRONTEND_POLICY_BINDING_CONFLICT'' else Inr (st, d)
         | None \<Rightarrow>
             let new = \<lparr>ps_repo = tk_repo tk, ps_run = tk_run tk, ps_acceptance = h, ps_stage = ''SEALED'',
                 ps_candidate = str_of (dict_get (se_material s) ''candidate_hash''), ps_generation = se_contract_generation s,
                 ps_decision = None\<rparr> in
             bindR (insert_row state_clash new (ex_states (db_tables d))) (\<lambda>rows.
             Inr (new, add_event ''frontend_policy_initialized'' (PDict [(''repository_id'', PStr (tk_repo tk)),
                 (''run_id'', PStr (tk_run tk)), (''acceptance_hash'', PStr h), (''stage'', PStr ''SEALED'')])
               (tables_update (\<lambda>e. e\<lparr>ex_states := rows\<rparr>) d))))))"

definition initialize_frontend_policy :: "world \<Rightarrow> owner_token \<Rightarrow> pyval \<times> pyval \<Rightarrow> db \<Rightarrow> policy_state res \<times> db" where
  "initialize_frontend_policy w tk args d =
     (case args of (h, stg) \<Rightarrow>
      if \<not> valid_digest h \<or> stg \<noteq> PStr ''SEALED'' then (own_refuse ''FRONTEND_POLICY_BINDING_INVALID'', d)
      else transaction (initialize_tx w tk (str_of h)) (install_policy d))"

definition get_frontend_policy_state :: "string \<Rightarrow> string \<Rightarrow> db \<Rightarrow> policy_state option" where
  "get_frontend_policy_state repo run d = List.find (\<lambda>s. ps_repo s = repo \<and> ps_run s = run) (ex_states (db_tables d))"

definition update_state :: "owner_token \<Rightarrow> (policy_state \<Rightarrow> policy_state) \<Rightarrow> db \<Rightarrow> db" where
  "update_state tk f d = tables_update (\<lambda>e. e\<lparr>ex_states := update_where
     (\<lambda>s. ps_repo s = tk_repo tk \<and> ps_run s = tk_run tk) f (ex_states e)\<rparr>) d"

section \<open>Candidates\<close>

text \<open>
  \<open>verify_candidate_chain\<close>: the receipt, the candidate, the integration and the no-commit evidence give
  the verified chain record, or a refusal.
\<close>

type_synonym chain_check = "string \<Rightarrow> string \<Rightarrow> pyval \<Rightarrow> pyval \<Rightarrow> pydict res"

definition integration_key :: "string \<Rightarrow> string" where
  "integration_key h = ''frontend-integration:'' @ h"

text \<open>The payload of the first event recorded under a key, whatever its activity.\<close>

definition event_by_key :: "string \<Rightarrow> db \<Rightarrow> pyval option" where
  "event_by_key key d = (case List.find (\<lambda>e. ek_key e = key) (db_keys d) of None \<Rightarrow> None
     | Some e \<Rightarrow> map_option snd (event_at (ek_event e) d))"

definition integrating_role :: "pydict \<Rightarrow> bool" where
  "integrating_role m = (dict_get m ''role'' \<in> {PStr ''execution'', PStr ''recovery''} \<and> dict_get m ''completion_status'' = PStr ''succeeded'')"

definition sealed_receipt_of :: "owner_token \<Rightarrow> string \<Rightarrow> string \<Rightarrow> db \<Rightarrow> receipt_row option" where
  "sealed_receipt_of tk acceptance h d = List.find (\<lambda>r. ar_repo r = tk_repo tk \<and> ar_run r = tk_run tk
     \<and> ar_acceptance r = acceptance \<and> ar_hash r = h) (ex_receipts (db_tables d))"

record candidate_request =
  bq_acceptance :: string
  bq_candidate :: string
  bq_receipt :: string
  bq_parent :: "string option"

text \<open>What is read and verified before the transaction: the recorded proof of the integration.\<close>

definition observed_proof :: "owner_token \<Rightarrow> chain_check \<Rightarrow> candidate_request \<Rightarrow> db \<Rightarrow> pyval res" where
  "observed_proof tk chain q d =
     (case sealed_receipt_of tk (bq_acceptance q) (bq_receipt q) d of
        None \<Rightarrow> own_refuse ''FRONTEND_CANDIDATE_BINDING_INVALID''
      | Some r \<Rightarrow>
          if \<not> integrating_role (ar_receipt r) then own_refuse ''FRONTEND_CANDIDATE_RECEIPT_STALE''
          else (case event_by_key (integration_key (bq_receipt q)) d of
              None \<Rightarrow> own_refuse ''FRONTEND_INTEGRATION_REQUIRED''
            | Some payload \<Rightarrow>
                bindR (item ''data'' payload) (\<lambda>proof.
                bindR (item ''integration_evidence'' proof) (\<lambda>integration.
                bindR (item ''no_commit_evidence'' proof) (\<lambda>no_commit.
                bindR (chain (bq_receipt q) (bq_candidate q) integration no_commit) (\<lambda>observed.
                if \<not> py_eq (PDict observed) (dict_get (dict_of proof) ''candidate_chain'') then own_refuse ''FRONTEND_INTEGRATION_CHAIN_INVALID''
                else Inr proof))))))"

definition candidate_clash :: "candidate_row \<Rightarrow> candidate_row \<Rightarrow> bool" where
  "candidate_clash r x = (cd_repo x = cd_repo r \<and> cd_run x = cd_run r \<and>
     ((cd_acceptance x = cd_acceptance r \<and> cd_candidate x = cd_candidate r) \<or> cd_receipt x = cd_receipt r))"

definition opt_of_str :: "pyval \<Rightarrow> string option" where
  "opt_of_str v = (case v of PStr s \<Rightarrow> Some s | _ \<Rightarrow> None)"

text \<open>The candidate row of the new candidate: found with the same binding, or inserted on the current one.\<close>

definition bind_row :: "owner_token \<Rightarrow> candidate_request \<Rightarrow> policy_state \<Rightarrow> pyval \<Rightarrow> db \<Rightarrow> db res" where
  "bind_row tk q st parent d =
     (case candidate_of tk (bq_acceptance q) (bq_candidate q) d of
        Some c \<Rightarrow>
          if (cd_receipt c, cd_parent c, cd_generation c) \<noteq> (bq_receipt q, opt_of_str parent, ps_generation st)
          then own_refuse ''FRONTEND_CANDIDATE_BINDING_CONFLICT'' else Inr d
      | None \<Rightarrow>
          if parent \<noteq> PStr (ps_candidate st) then own_refuse ''FRONTEND_CANDIDATE_STALE''
          else bindR (insert_row candidate_clash \<lparr>cd_repo = tk_repo tk, cd_run = tk_run tk, cd_acceptance = bq_acceptance q,
              cd_candidate = bq_candidate q, cd_receipt = bq_receipt q, cd_parent = opt_of_str parent,
              cd_generation = ps_generation st\<rparr> (ex_candidates (db_tables d))) (\<lambda>rows.
            Inr (tables_update (\<lambda>e. e\<lparr>ex_candidates := rows\<rparr>) d)))"

definition candidate_parent :: "candidate_request \<Rightarrow> pydict \<Rightarrow> pydict \<Rightarrow> pyval res" where
  "candidate_parent q proof receipt =
     (let given = dict_get proof ''input_candidate_hash''; parent = (case bq_parent q of None \<Rightarrow> given | Some p \<Rightarrow> PStr p) in
      if given \<noteq> dict_get receipt ''candidate_hash'' \<or> given \<noteq> parent \<or> dict_get proof ''candidate_hash'' \<noteq> PStr (bq_candidate q)
      then own_refuse ''FRONTEND_INTEGRATION_REQUIRED'' else Inr parent)"

definition bind_candidate_tx :: "world \<Rightarrow> owner_token \<Rightarrow> candidate_request \<Rightarrow> pyval \<Rightarrow> policy_state tx" where
  "bind_candidate_tx w tk q before d =
     bindR (assert_owner w tk d) (\<lambda>_.
     case (policy_state_of tk d, sealed_receipt_of tk (bq_acceptance q) (bq_receipt q) d) of
       (Some st, Some r) \<Rightarrow>
         if ps_acceptance st \<noteq> bq_acceptance q then own_refuse ''FRONTEND_CANDIDATE_BINDING_INVALID''
         else if \<not> integrating_role (ar_receipt r) then own_refuse ''FRONTEND_CANDIDATE_RECEIPT_STALE''
         else (case event_by_key (integration_key (bq_receipt q)) d of
             None \<Rightarrow> own_refuse ''FRONTEND_INTEGRATION_REQUIRED''
           | Some payload \<Rightarrow>
               bindR (caught ''FRONTEND_INTEGRATION_REQUIRED'' (item ''data'' payload)) (\<lambda>data.
               if dict_get (dict_of data) ''candidate_hash'' \<noteq> PStr (bq_candidate q) then own_refuse ''FRONTEND_INTEGRATION_REQUIRED''
               else if \<not> py_eq data before then own_refuse ''FRONTEND_INTEGRATION_CHAIN_INVALID''
               else bindR (candidate_parent q (dict_of (dict_get (dict_of data) ''candidate_chain'')) (ar_receipt r)) (\<lambda>parent.
                 if PStr (ps_candidate st) \<notin> {parent, PStr (bq_candidate q)} then own_refuse ''FRONTEND_CANDIDATE_STALE''
                 else bindR (bind_row tk q st parent d) (\<lambda>d1.
                   Inr (st\<lparr>ps_candidate := bq_candidate q\<rparr>, update_state tk (\<lambda>s. s\<lparr>ps_candidate := bq_candidate q\<rparr>) d1)))))
     | _ \<Rightarrow> own_refuse ''FRONTEND_CANDIDATE_BINDING_INVALID'')"

definition opt_digest :: "pyval \<Rightarrow> bool" where
  "opt_digest v = (v = PNone \<or> valid_digest v)"

text \<open>\<open>snap\<close> is the store read before the transaction.\<close>

definition bind_frontend_candidate ::
  "world \<Rightarrow> owner_token \<Rightarrow> (pyval \<times> pyval \<times> pyval \<times> pyval) \<times> chain_check \<times> db \<Rightarrow> db \<Rightarrow> policy_state res \<times> db"
where
  "bind_frontend_candidate w tk args d =
     (case args of ((acceptance, candidate, receipt, parent), chain, snap) \<Rightarrow>
      if \<not> list_all valid_digest [acceptance, candidate, receipt] \<or> \<not> opt_digest parent
      then (own_refuse ''FRONTEND_CANDIDATE_BINDING_INVALID'', d)
      else let q = \<lparr>bq_acceptance = str_of acceptance, bq_candidate = str_of candidate, bq_receipt = str_of receipt,
             bq_parent = opt_of_str parent\<rparr> in
        case observed_proof tk chain q snap of
          Inl e \<Rightarrow> (Inl e, install_policy d)
        | Inr before \<Rightarrow> transaction (bind_candidate_tx w tk q before) (install_policy d))"

section \<open>Integrations\<close>

fun check_bindings :: "pyval list \<Rightarrow> db \<Rightarrow> unit res" where
  "check_bindings [] d = Inr ()"
| "check_bindings (b # bs) d =
     bindR (item ''event_id'' b) (\<lambda>n.
     case List.find (\<lambda>e. PInt (int (ek_event e)) = n) (db_keys d) of
       None \<Rightarrow> own_refuse ''FRONTEND_INTEGRATION_CHAIN_INVALID''
     | Some e \<Rightarrow> bindR (item ''payload_hash'' b) (\<lambda>h.
         if h \<noteq> PStr (ek_hash e) then own_refuse ''FRONTEND_INTEGRATION_CHAIN_INVALID'' else check_bindings bs d))"

definition intent_journals :: "owner_token \<Rightarrow> pyval \<Rightarrow> db \<Rightarrow> journal_row list" where
  "intent_journals tk i d = sort_key jr_event (filter (\<lambda>j. PStr (jr_intent j) = i) (run_journals tk d))"

definition integration_payload :: "string \<Rightarrow> string \<Rightarrow> pydict \<Rightarrow> pydict option \<Rightarrow> pydict \<Rightarrow> pyval" where
  "integration_payload h candidate integration no_commit proof = PDict [(''receipt_hash'', PStr h), (''candidate_hash'', PStr candidate),
     (''integration_evidence'', PDict integration), (''no_commit_evidence'', case no_commit of None \<Rightarrow> PNone | Some e \<Rightarrow> PDict e),
     (''candidate_chain'', PDict proof)]"

definition integration_tx ::
  "world \<Rightarrow> owner_token \<Rightarrow> string \<Rightarrow> string \<Rightarrow> pydict \<Rightarrow> pydict option \<Rightarrow> pydict \<Rightarrow> unit tx"
where
  "integration_tx w tk h candidate integration no_commit proof d =
     bindR (assert_owner w tk d) (\<lambda>_.
     case receipt_of tk h d of
       None \<Rightarrow> own_refuse ''FRONTEND_INTEGRATION_RECEIPT_REQUIRED''
     | Some r \<Rightarrow>
         bindR (item ''input_candidate_hash'' (PDict proof)) (\<lambda>given.
         if dict_get (ar_receipt r) ''candidate_hash'' \<noteq> given \<or> \<not> integrating_role (ar_receipt r)
         then own_refuse ''FRONTEND_INTEGRATION_RECEIPT_REQUIRED''
         else bindR (item ''event_bindings'' (PDict proof)) (\<lambda>bs.
           bindR (check_bindings (list_of bs) d) (\<lambda>_.
           bindR (item ''intent_id'' (PDict proof)) (\<lambda>i.
           bindR (item ''journal_hashes'' (PDict proof)) (\<lambda>hs.
           if PList (map (\<lambda>j. PStr (jr_hash j)) (intent_journals tk i d)) \<noteq> hs then own_refuse ''FRONTEND_INTEGRATION_CHAIN_INVALID''
           else bindR (mapR (\<lambda>j. validate_completed_publication w tk (jr_wave j) (str_of i) d) (intent_journals tk i d)) (\<lambda>_.
             bindR (record_event_once_tx w tk (str_of (dict_get (ar_receipt r) ''activity_id'')) (integration_key h)
               (integration_payload h candidate integration no_commit proof) d) (\<lambda>(_, d'). Inr ((), d')))))))))"

definition record_frontend_integration ::
  "world \<Rightarrow> owner_token \<Rightarrow> (pyval \<times> pyval \<times> pyval \<times> pyval) \<times> chain_check \<Rightarrow> db \<Rightarrow> unit res \<times> db"
where
  "record_frontend_integration w tk args d =
     (case args of ((h, candidate, integration, no_commit), chain) \<Rightarrow>
      if \<not> valid_digest h \<or> \<not> valid_digest candidate then (own_refuse ''FRONTEND_INTEGRATION_INVALID'', d)
      else case bindR (verified_evidence w integration) (\<lambda>i.
          bindR (if no_commit = PNone then Inr None else bindR (verified_evidence w no_commit) (\<lambda>e. Inr (Some e))) (\<lambda>n. Inr (i, n))) of
        Inl e \<Rightarrow> (Inl e, d)
      | Inr (i, n) \<Rightarrow>
          (case chain (str_of h) (str_of candidate) (PDict i) (case n of None \<Rightarrow> PNone | Some e \<Rightarrow> PDict e) of
             Inl e \<Rightarrow> (Inl e, install_policy d)
           | Inr proof \<Rightarrow> transaction (integration_tx w tk (str_of h) (str_of candidate) i n proof) (install_policy d)))"

section \<open>Check results\<close>

text \<open>The launches of inventory children bound to the candidate and the contract, in row order.\<close>

definition check_launches :: "owner_token \<Rightarrow> string \<Rightarrow> string \<Rightarrow> db \<Rightarrow> (intent \<times> child_binding) list" where
  "check_launches tk acceptance candidate d = List.map_filter (\<lambda>i.
     case (binding_of (in_activity i) d, activity_of (in_activity i) d) of
       (Some b, Some a) \<Rightarrow> if ac_repo a = tk_repo tk \<and> ac_run a = tk_run tk \<and> cb_candidate b = candidate
           \<and> cb_contract b = acceptance \<and> cb_role b = ''inventory'' then Some (i, b) else None
     | _ \<Rightarrow> None) (db_intents d)"

definition check_settled :: "string \<Rightarrow> pydict list \<Rightarrow> intent \<Rightarrow> bool" where
  "check_settled status evidence i =
     (in_completion i = Some (if status = ''passed'' then ''succeeded'' else ''failed'')
      \<and> in_state i = (if status = ''passed'' then ''completed_succeeded'' else ''completed_failed'')
      \<and> given_id (in_ack i) \<and> given_id (in_evidence i) \<and> map (\<lambda>e. json_dumps (PDict e)) evidence = [the_id (in_evidence i)])"

text \<open>\<open>LIKE 'dispatch-request:%'\<close> ignores the case of letters.\<close>

definition dispatch_events :: "string \<Rightarrow> db \<Rightarrow> pyval list" where
  "dispatch_events a d = List.map_filter (\<lambda>e. if ek_activity e = a \<and> py_startswith (py_lower (ek_key e)) ''dispatch-request:''
     then map_option snd (event_at (ek_event e) d) else None) (db_keys d)"

definition local_matches :: "intent \<Rightarrow> child_binding \<Rightarrow> string \<Rightarrow> string \<Rightarrow> local_receipt \<Rightarrow> bool" where
  "local_matches i b acceptance check l =
     (lo_producer l = in_activity i \<and> Some (lo_workspace l) = cb_preparation b \<and> lo_acceptance l = acceptance
      \<and> lo_check l = check \<and> lo_generation l = in_generation i)"

definition dispatch_match :: "intent \<Rightarrow> child_binding \<Rightarrow> string \<Rightarrow> string \<Rightarrow> string \<Rightarrow> db \<Rightarrow> pyval \<Rightarrow> bool res" where
  "dispatch_match i b acceptance candidate check d payload =
     bindR (item ''data'' payload) (\<lambda>data.
     if dict_get (dict_of data) ''intent_id'' \<noteq> PStr (in_id i) then Inr False
     else case List.find (\<lambda>l. PStr (lo_hash l) = dict_get (dict_of data) ''local_check_receipt_sha256'') (ex_locals (db_tables d)) of
       None \<Rightarrow> Inr False
     | Some l \<Rightarrow>
         if \<not> local_matches i b acceptance check l \<or> dict_get (dict_of data) ''managed_input_sha256'' \<noteq> PStr candidate then Inr False
         else bindR (item ''candidate_hash'' (PDict (lo_material l))) (\<lambda>c.
           if c \<noteq> PStr candidate then Inr False
           else bindR (item ''request'' data) (\<lambda>request.
             Inr (py_eq (dict_get (dict_of request) ''local_check_material'') (PDict (lo_material l))))))"

fun any_dispatch :: "(pyval \<Rightarrow> bool res) \<Rightarrow> pyval list \<Rightarrow> bool res" where
  "any_dispatch f [] = Inr False"
| "any_dispatch f (p # ps) = bindR (f p) (\<lambda>ok. if ok then Inr True else any_dispatch f ps)"

fun check_execution_of ::
  "string \<Rightarrow> string \<Rightarrow> string \<Rightarrow> string \<Rightarrow> pydict list \<Rightarrow> db \<Rightarrow> (intent \<times> child_binding) list \<Rightarrow> string res"
where
  "check_execution_of acceptance candidate check status evidence d [] = own_refuse ''FRONTEND_CHECK_EXECUTION_REQUIRED''"
| "check_execution_of acceptance candidate check status evidence d ((i, b) # rows) =
     (if \<not> check_settled status evidence i then check_execution_of acceptance candidate check status evidence d rows
      else bindR (any_dispatch (dispatch_match i b acceptance candidate check d) (dispatch_events (in_activity i) d)) (\<lambda>ok.
        if ok then Inr (in_id i) else check_execution_of acceptance candidate check status evidence d rows))"

definition check_execution :: "owner_token \<Rightarrow> string \<Rightarrow> string \<Rightarrow> string \<Rightarrow> string \<Rightarrow> pydict list \<Rightarrow> db \<Rightarrow> string res" where
  "check_execution tk acceptance candidate check status evidence d =
     check_execution_of acceptance candidate check status evidence d (check_launches tk acceptance candidate d)"

type_synonym check_result = "string \<times> string \<times> pydict list"

definition verify_result :: "world \<Rightarrow> string list \<Rightarrow> pyval \<Rightarrow> check_result res" where
  "verify_result w seen v =
     (case v of
        PDict m \<Rightarrow>
          if \<not> dict_has_keys m [''check_id'', ''status'', ''evidence''] then own_refuse ''FRONTEND_CHECK_INVALID''
          else bindR (acceptance_identifier ''FRONTEND_CHECK_INVALID'' (dict_get m ''check_id'')) (\<lambda>i.
            if i \<in> set seen then own_refuse ''FRONTEND_CHECK_INVALID''
            else if \<not> hashable (dict_get m ''status'') then Inl (TypeError ''unhashable'')
            else if dict_get m ''status'' \<notin> {PStr ''passed'', PStr ''failed''} then own_refuse ''FRONTEND_CHECK_INVALID''
            else (case dict_get m ''evidence'' of
                PList es \<Rightarrow> bindR (mapR (verified_evidence w) es) (\<lambda>evidence.
                  if evidence = [] then own_refuse ''FRONTEND_CHECK_EVIDENCE_REQUIRED''
                  else Inr (i, str_of (dict_get m ''status''), evidence))
              | _ \<Rightarrow> own_refuse ''FRONTEND_CHECK_INVALID''))
      | _ \<Rightarrow> own_refuse ''FRONTEND_CHECK_INVALID'')"

fun verify_results :: "world \<Rightarrow> string list \<Rightarrow> pyval list \<Rightarrow> check_result list res" where
  "verify_results w seen [] = Inr []"
| "verify_results w seen (v # vs) = bindR (verify_result w seen v) (\<lambda>r.
     bindR (verify_results w (fst r # seen) vs) (\<lambda>rs. Inr (r # rs)))"

definition frozen_checks :: "pydict \<Rightarrow> string list" where
  "frozen_checks m = concat (map (\<lambda>c. map (\<lambda>k. str_of (dict_get (dict_of k) ''id'')) (list_of (dict_get (dict_of c) ''checks'')))
     (list_of (dict_get m ''criteria'')))"

definition check_of :: "owner_token \<Rightarrow> string \<Rightarrow> string \<Rightarrow> string \<Rightarrow> db \<Rightarrow> check_row option" where
  "check_of tk acceptance candidate check d = List.find (\<lambda>c. cw_repo c = tk_repo tk \<and> cw_run c = tk_run tk
     \<and> cw_acceptance c = acceptance \<and> cw_candidate c = candidate \<and> cw_id c = check) (ex_checks (db_tables d))"

definition new_check :: "owner_token \<Rightarrow> string \<Rightarrow> string \<Rightarrow> check_result \<Rightarrow> check_row" where
  "new_check tk acceptance candidate r = \<lparr>cw_repo = tk_repo tk, cw_run = tk_run tk, cw_acceptance = acceptance,
     cw_candidate = candidate, cw_id = fst r, cw_status = fst (snd r), cw_evidence = map (\<lambda>e. sort_keys (PDict e)) (snd (snd r))\<rparr>"

fun store_checks :: "owner_token \<Rightarrow> string \<Rightarrow> string \<Rightarrow> check_result list \<Rightarrow> db \<Rightarrow> db res" where
  "store_checks tk acceptance candidate [] d = Inr d"
| "store_checks tk acceptance candidate (r # rs) d =
     bindR (check_execution tk acceptance candidate (fst r) (fst (snd r)) (snd (snd r)) d) (\<lambda>_.
     case check_of tk acceptance candidate (fst r) d of
       Some c \<Rightarrow> if cw_status c \<noteq> fst (snd r) \<or> json_dumps (PList (cw_evidence c)) \<noteq> json_dumps (PList (map PDict (snd (snd r))))
           then own_refuse ''FRONTEND_CHECK_CONFLICT'' else store_checks tk acceptance candidate rs d
     | None \<Rightarrow> store_checks tk acceptance candidate rs
         (tables_update (\<lambda>e. e\<lparr>ex_checks := ex_checks e @ [new_check tk acceptance candidate r]\<rparr>) d))"

definition checks_tx :: "world \<Rightarrow> owner_token \<Rightarrow> string \<Rightarrow> string \<Rightarrow> check_result list \<Rightarrow> unit tx" where
  "checks_tx w tk acceptance candidate rs d =
     bindR (assert_owner w tk d) (\<lambda>_.
     case (policy_state_of tk d, seal_by_hash tk acceptance d) of
       (Some st, Some row) \<Rightarrow>
         if ps_acceptance st \<noteq> acceptance \<or> ps_candidate st \<noteq> candidate then own_refuse ''FRONTEND_CHECK_CANDIDATE_STALE''
         else bindR (seal_from_row w row) (\<lambda>s.
           if set (map fst rs) \<noteq> set (frozen_checks (se_material s)) then own_refuse ''FRONTEND_CHECKS_INCOMPLETE''
           else bindR (store_checks tk acceptance candidate rs d) (\<lambda>d'. Inr ((), d')))
     | _ \<Rightarrow> own_refuse ''FRONTEND_CHECK_CANDIDATE_STALE'')"

definition record_frontend_check_results ::
  "world \<Rightarrow> owner_token \<Rightarrow> pyval \<times> pyval \<times> pyval \<Rightarrow> db \<Rightarrow> unit res \<times> db"
where
  "record_frontend_check_results w tk args d =
     (case args of (acceptance, candidate, results) \<Rightarrow>
      case results of
        PList vs \<Rightarrow>
          if \<not> valid_digest acceptance \<or> \<not> valid_digest candidate then (own_refuse ''FRONTEND_CHECK_INVALID'', d)
          else (case verify_results w [] vs of
              Inl e \<Rightarrow> (Inl e, d)
            | Inr rs \<Rightarrow> transaction (checks_tx w tk (str_of acceptance) (str_of candidate) rs) (install_policy d))
      | _ \<Rightarrow> (own_refuse ''FRONTEND_CHECK_INVALID'', d))"

end
