(* ===== verification/Completion.thy ===== *)
theory Completion
  imports Frontend
begin

text \<open>
  The stages of the frontend policy and its completion: the physical evidence check before completion
  (\<open>lib/run_state/frontend_completion.py\<close>) and \<open>transition_frontend_policy\<close>
  (\<open>lib/run_state/state.py\<close>). The head and the entries of a workspace are read through \<open>cv_head\<close> and
  \<open>cv_entries\<close>.
\<close>

section \<open>Reviews\<close>

definition parent_candidate :: "owner_token \<Rightarrow> string \<Rightarrow> db \<Rightarrow> string \<Rightarrow> string option" where
  "parent_candidate tk acceptance d c = (case candidate_of tk acceptance c d of None \<Rightarrow> None | Some r \<Rightarrow> cd_parent r)"

lemma parent_candidate_bound:
  "parent_candidate tk acceptance d c = Some p \<Longrightarrow> Some p \<in> set (map cd_parent (ex_candidates (db_tables d)))"
  by (auto simp: parent_candidate_def candidate_of_def split: option.splits dest!: find_Some_in intro!: image_eqI [of "Some p"])

text \<open>The walk to the first candidate; it stops at a repetition.\<close>

function ancestors_from :: "owner_token \<Rightarrow> string \<Rightarrow> db \<Rightarrow> string \<Rightarrow> string list \<Rightarrow> string \<Rightarrow> string list" where
  "ancestors_from tk acceptance d start seen c =
     (case parent_candidate tk acceptance d c of
        None \<Rightarrow> seen
      | Some p \<Rightarrow> if p = start \<or> p \<in> set seen then seen else ancestors_from tk acceptance d start (seen @ [p]) p)"
  by pat_completeness auto

termination ancestors_from
proof (relation "measure (\<lambda>(tk, acceptance, d, start, seen, c).
    card (set (map cd_parent (ex_candidates (db_tables d))) - Some ` set seen))")
  fix tk :: owner_token and acceptance and d :: db and start and seen :: "string list" and c p
  assume p: "parent_candidate tk acceptance d c = Some p" "\<not> (p = start \<or> p \<in> set seen)"
  let ?P = "set (map cd_parent (ex_candidates (db_tables d)))"
  have "?P - Some ` set (seen @ [p]) \<subset> ?P - Some ` set seen"
    using parent_candidate_bound [OF p(1)] p(2) by (auto simp: image_iff)
  then show "((tk, acceptance, d, start, seen @ [p], p), tk, acceptance, d, start, seen, c)
      \<in> measure (\<lambda>(tk, acceptance, d, start, seen, c). card (set (map cd_parent (ex_candidates (db_tables d))) - Some ` set seen))"
    by (simp add: psubset_card_mono)
qed simp

declare ancestors_from.simps [simp del]

definition candidate_ancestors :: "owner_token \<Rightarrow> string \<Rightarrow> string \<Rightarrow> db \<Rightarrow> string list" where
  "candidate_ancestors tk acceptance candidate d = ancestors_from tk acceptance d candidate [] candidate"

text \<open>The rows of the query, which has no ORDER BY, are taken in the order of their insertion.\<close>

definition acceptance_receipts :: "owner_token \<Rightarrow> string \<Rightarrow> db \<Rightarrow> receipt_row list" where
  "acceptance_receipts tk acceptance d =
     filter (\<lambda>r. ar_repo r = tk_repo tk \<and> ar_run r = tk_run tk \<and> ar_acceptance r = acceptance) (ex_receipts (db_tables d))"

definition final_review :: "string \<Rightarrow> db \<Rightarrow> bool" where
  "final_review i d = (case attempted_action i d of None \<Rightarrow> False | Some a \<Rightarrow> pa_action a = ''final_review'')"

definition stored_receipt :: "world \<Rightarrow> receipt_row \<Rightarrow> role_receipt res" where
  "stored_receipt w r = validate_role_receipt (w_sha256 w) [] (PDict (ar_receipt r))"

text \<open>The first failed final review of an ancestor.\<close>

fun failed_review :: "world \<Rightarrow> owner_token \<Rightarrow> string list \<Rightarrow> db \<Rightarrow> receipt_row list \<Rightarrow> (string \<times> role_receipt) option res" where
  "failed_review w tk ancestors d [] = Inr None"
| "failed_review w tk ancestors d (row # rows) =
     bindR (stored_receipt w row) (\<lambda>r.
     if rr_role r \<noteq> ''review'' \<or> rr_completion_status r \<noteq> ''failed'' \<or> rr_candidate_hash r \<notin> set ancestors
       \<or> \<not> final_review (rr_intent_id r) d
     then failed_review w tk ancestors d rows
     else bindR (receipt_execution w tk r d) (\<lambda>_. Inr (Some (ar_hash row, r))))"

definition post_repair_review :: "world \<Rightarrow> owner_token \<Rightarrow> string \<Rightarrow> string \<Rightarrow> db \<Rightarrow> (string \<times> role_receipt) option res" where
  "post_repair_review w tk acceptance candidate d =
     failed_review w tk (candidate_ancestors tk acceptance candidate d) d (acceptance_receipts tk acceptance d)"

section \<open>The evidence of a completion\<close>

record completion =
  cp_acceptance :: string
  cp_candidate :: string
  cp_generation :: int
  cp_reviews :: "string list"
  cp_repair :: "string option"

record completion_view =
  cv_snapshot :: db
  cv_chain :: chain_check
  cv_head :: "string \<Rightarrow> string"
  cv_entries :: "string \<Rightarrow> string \<Rightarrow> pyval list"

definition recorded_integration :: "owner_token \<Rightarrow> policy_state \<Rightarrow> db \<Rightarrow> (string \<times> pyval) option res" where
  "recorded_integration tk st d =
     (case candidate_of tk (ps_acceptance st) (ps_candidate st) d of
        None \<Rightarrow> Inr None
      | Some c \<Rightarrow>
          (case event_by_key (integration_key (cd_receipt c)) d of
             None \<Rightarrow> own_refuse ''FRONTEND_INTEGRATION_REQUIRED''
           | Some payload \<Rightarrow> bindR (item ''data'' payload) (\<lambda>data. Inr (Some (cd_receipt c, data)))))"

definition candidate_checks :: "owner_token \<Rightarrow> string \<Rightarrow> string \<Rightarrow> db \<Rightarrow> check_row list" where
  "candidate_checks tk acceptance candidate d = filter (\<lambda>c. cw_repo c = tk_repo tk \<and> cw_run c = tk_run tk
     \<and> cw_acceptance c = acceptance \<and> cw_candidate c = candidate) (ex_checks (db_tables d))"

text \<open>The workspace of the parent of a check, with the base and the entries the check ran on.\<close>

definition checked_workspace :: "string \<Rightarrow> db \<Rightarrow> (string \<times> string \<times> pyval) option" where
  "checked_workspace i d =
     (case intent_of i d of None \<Rightarrow> None | Some row \<Rightarrow>
      (case binding_of (in_activity row) d of None \<Rightarrow> None | Some b \<Rightarrow>
       (case (binding_of (cb_parent b) d, workspace_by_id (cb_preparation b) d) of
          (Some p, Some s) \<Rightarrow> Some (cb_workspace p, ws_base s, ws_manifest s)
        | _ \<Rightarrow> None)))"

definition check_evidence :: "check_row \<Rightarrow> pydict list" where
  "check_evidence c = map dict_of (cw_evidence c)"

definition executed_check :: "owner_token \<Rightarrow> policy_state \<Rightarrow> db \<Rightarrow> check_row \<Rightarrow> ((string \<times> string \<times> pyval) \<times> pyval list) res" where
  "executed_check tk st d c =
     bindR (check_execution tk (ps_acceptance st) (ps_candidate st) (cw_id c) (cw_status c) (check_evidence c) d) (\<lambda>i.
     case checked_workspace i d of
       None \<Rightarrow> own_refuse ''FRONTEND_COMPLETION_WORKSPACE_REQUIRED''
     | Some p \<Rightarrow> Inr (p, cw_evidence c))"

fun accepted_reviews ::
  "world \<Rightarrow> owner_token \<Rightarrow> policy_state \<Rightarrow> db \<Rightarrow> receipt_row list \<Rightarrow> (string \<times> role_receipt) list res"
where
  "accepted_reviews w tk st d [] = Inr []"
| "accepted_reviews w tk st d (row # rows) =
     bindR (stored_receipt w row) (\<lambda>r.
     if rr_role r \<noteq> ''review'' \<or> rr_completion_status r \<noteq> ''succeeded'' \<or> rr_candidate_hash r \<noteq> ps_candidate st
       \<or> \<not> final_review (rr_intent_id r) d
     then accepted_reviews w tk st d rows
     else bindR (receipt_execution w tk r d) (\<lambda>_.
       bindR (accepted_reviews w tk st d rows) (\<lambda>rs. Inr ((ar_hash row, r) # rs))))"

definition review_evidence :: "(string \<times> role_receipt) list \<Rightarrow> (string \<times> role_receipt) option \<Rightarrow> pyval list" where
  "review_evidence accepted repair = concat (map (\<lambda>x. rr_evidence (snd x)) accepted) @
     (case repair of None \<Rightarrow> [] | Some x \<Rightarrow> rr_evidence (snd x))"

definition verify_integration :: "chain_check \<Rightarrow> policy_state \<Rightarrow> (string \<times> pyval) option \<Rightarrow> unit res" where
  "verify_integration chain st integration =
     (case integration of
        None \<Rightarrow> Inr ()
      | Some (h, data) \<Rightarrow>
          bindR (item ''integration_evidence'' data) (\<lambda>i.
          bindR (item ''no_commit_evidence'' data) (\<lambda>n.
          bindR (chain h (ps_candidate st) i n) (\<lambda>proof.
          if \<not> py_eq (PDict proof) (dict_get (dict_of data) ''candidate_chain'') then own_refuse ''FRONTEND_INTEGRATION_CHAIN_INVALID''
          else Inr ()))))"

definition manifest_entries :: "pyval \<Rightarrow> pyval list res" where
  "manifest_entries m = bindR (item ''entries'' m) (\<lambda>es. Inr (sort_key (\<lambda>e. str_of (dict_get (dict_of e) ''path'')) (list_of es)))"

definition same_workspace :: "completion_view \<Rightarrow> string \<times> string \<times> pyval \<Rightarrow> unit res" where
  "same_workspace v p =
     (case p of (path, base, manifest) \<Rightarrow>
      bindR (manifest_entries manifest) (\<lambda>expected.
      if cv_head v path \<noteq> base \<or> \<not> py_eq (PList (cv_entries v path base)) (PList expected)
      then own_refuse ''FRONTEND_COMPLETION_CANDIDATE_STALE'' else Inr ()))"

definition verify_completion :: "world \<Rightarrow> owner_token \<Rightarrow> completion_view \<Rightarrow> completion res" where
  "verify_completion w tk v =
     (let d = cv_snapshot v in
      case policy_state_of tk d of
        None \<Rightarrow> own_refuse ''FRONTEND_STAGE_STALE''
      | Some st \<Rightarrow>
          bindR (recorded_integration tk st d) (\<lambda>integration.
          bindR (mapR (executed_check tk st d) (candidate_checks tk (ps_acceptance st) (ps_candidate st) d)) (\<lambda>checks.
          bindR (accepted_reviews w tk st d (acceptance_receipts tk (ps_acceptance st) d)) (\<lambda>accepted.
          bindR (if accepted = [] then post_repair_review w tk (ps_acceptance st) (ps_candidate st) d else Inr None) (\<lambda>repair.
          bindR (verify_integration (cv_chain v) st integration) (\<lambda>_.
          bindR (mapR (verified_evidence w) (concat (map snd checks) @ review_evidence accepted repair)) (\<lambda>_.
          bindR (mapR (same_workspace v) (map fst checks)) (\<lambda>_.
          Inr \<lparr>cp_acceptance = ps_acceptance st, cp_candidate = ps_candidate st, cp_generation = ps_generation st,
            cp_reviews = map fst accepted, cp_repair = map_option fst repair\<rparr>))))))))"

section \<open>Stages\<close>

definition stage_moves :: "(string \<times> string list) list" where
  "stage_moves =
     [(''SPEC_DRAFT'', [''SPEC_REVIEW'', ''NEEDS_DECISION'', ''CAPABILITY_FAILURE'', ''CANCELLED'']),
      (''SPEC_REVIEW'', [''SEALED'', ''NEEDS_DECISION'', ''CAPABILITY_FAILURE'', ''CANCELLED'']),
      (''SEALED'', [''EXECUTE'', ''CAPABILITY_FAILURE'', ''CANCELLED'']),
      (''EXECUTE'', [''FINAL_REVIEW'', ''RECOVER'', ''NEEDS_DECISION'', ''CAPABILITY_FAILURE'', ''CANCELLED'']),
      (''FINAL_REVIEW'', [''EXECUTE'', ''RECOVER'', ''DONE'', ''NEEDS_DECISION'', ''CAPABILITY_FAILURE'', ''CANCELLED'']),
      (''RECOVER'', [''EXECUTE'', ''FINAL_REVIEW'', ''NEEDS_DECISION'', ''CAPABILITY_FAILURE'', ''CANCELLED''])]"

definition stage_move :: "string \<Rightarrow> string \<Rightarrow> bool" where
  "stage_move a b = (case map_of stage_moves a of None \<Rightarrow> False | Some bs \<Rightarrow> b \<in> set bs)"

definition receipt_accepted :: "policy_state \<Rightarrow> string list \<Rightarrow> db \<Rightarrow> receipt_row \<Rightarrow> bool" where
  "receipt_accepted st reviews d row =
     (ar_hash row \<in> set reviews \<and> dict_get (ar_receipt row) ''role'' = PStr ''review''
      \<and> dict_get (ar_receipt row) ''candidate_hash'' = PStr (ps_candidate st)
      \<and> dict_get (ar_receipt row) ''completion_status'' = PStr ''succeeded''
      \<and> final_review (str_of (dict_get (ar_receipt row) ''intent_id'')) d)"

text \<open>The loop over the receipts: whether one is an accepted review, and the last receipt looked at.\<close>

fun review_loop :: "policy_state \<Rightarrow> string list \<Rightarrow> db \<Rightarrow> pydict option \<Rightarrow> receipt_row list \<Rightarrow> bool \<times> pydict option" where
  "review_loop st reviews d prev [] = (False, prev)"
| "review_loop st reviews d prev (row # rows) =
     (if receipt_accepted st reviews d row then (True, Some (ar_receipt row))
      else review_loop st reviews d (Some (ar_receipt row)) rows)"

definition blocking_finding :: "owner_token \<Rightarrow> policy_state \<Rightarrow> finding_row \<Rightarrow> bool" where
  "blocking_finding tk st f = (fi_repo f = tk_repo tk \<and> fi_run f = tk_run tk \<and> fi_acceptance f = ps_acceptance st
     \<and> fi_candidate f = ps_candidate st \<and> fi_class f \<in> set [''CONTRACT_FAILURE'', ''INVARIANT_VIOLATION''])"

definition passed_checks :: "owner_token \<Rightarrow> policy_state \<Rightarrow> db \<Rightarrow> string list" where
  "passed_checks tk st d =
     map cw_id (filter (\<lambda>c. cw_status c = ''passed'') (candidate_checks tk (ps_acceptance st) (ps_candidate st) d))"

text \<open>What completion requires of the sealed contract; the result is the receipt the loop ended on.\<close>

definition completion_ready :: "world \<Rightarrow> owner_token \<Rightarrow> completion \<Rightarrow> policy_state \<Rightarrow> db \<Rightarrow> pydict option res" where
  "completion_ready w tk c st d =
     (if cp_acceptance c \<noteq> ps_acceptance st \<or> cp_candidate c \<noteq> ps_candidate st \<or> cp_generation c \<noteq> ps_generation st
      then own_refuse ''FRONTEND_STAGE_STALE''
      else case seal_by_hash tk (ps_acceptance st) d of
        None \<Rightarrow> own_refuse ''ACCEPTANCE_SEAL_REQUIRED''
      | Some row \<Rightarrow> bindR (seal_from_row w row) (\<lambda>s.
          if set (passed_checks tk st d) \<noteq> set (frozen_checks (se_material s)) then own_refuse ''FRONTEND_COMPLETION_CHECKS_REQUIRED''
          else let (found, receipt) = review_loop st (cp_reviews c) d None (acceptance_receipts tk (ps_acceptance st) d) in
            bindR (if found then Inr () else
                bindR (post_repair_review w tk (ps_acceptance st) (ps_candidate st) d) (\<lambda>repair.
                if repair = None \<or> map_option fst repair \<noteq> cp_repair c then own_refuse ''FRONTEND_COMPLETION_REVIEW_REQUIRED'' else Inr ()))
              (\<lambda>_. if list_ex (blocking_finding tk st) (ex_findings (db_tables d)) then own_refuse ''FRONTEND_COMPLETION_BLOCKERS_REMAIN''
                else Inr receipt)))"

definition root_activity :: "owner_token \<Rightarrow> db \<Rightarrow> activity option" where
  "root_activity tk d = (case context_of tk d of None \<Rightarrow> None | Some r \<Rightarrow> activity_of (cr_activity r) d)"

definition outstanding_below :: "string \<Rightarrow> db \<Rightarrow> bool" where
  "outstanding_below a d = list_ex (\<lambda>x. ac_id x \<in> set (descendants d a) \<and> ac_id x \<noteq> a \<and> ac_state x \<notin> set terminal_states) (db_activities d)"

definition launch_unsettled :: "owner_token \<Rightarrow> db \<Rightarrow> intent \<Rightarrow> bool" where
  "launch_unsettled tk d i =
     (case activity_of (in_activity i) d of
        None \<Rightarrow> False
      | Some a \<Rightarrow> ac_repo a = tk_repo tk \<and> ac_run a = tk_run tk
          \<and> in_state i \<notin> set [''completed_succeeded'', ''completed_failed'']
          \<and> \<not> (in_state i = ''closed_dead'' \<and> ac_state a \<in> set [''failed'', ''aborted''] \<and> in_id i \<in> set (db_qualified d)))"

definition root_end :: "string \<Rightarrow> string" where
  "root_end new = (if new = ''DONE'' then ''succeeded'' else if new = ''CANCELLED'' then ''aborted'' else ''failed'')"

text \<open>\<open>receipt['evidence'][0]\<close> of the last receipt looked at.\<close>

definition root_result :: "string \<Rightarrow> pydict option \<Rightarrow> pyval res" where
  "root_result new receipt =
     (if new \<noteq> ''DONE'' then Inr PNone
      else case receipt of
        None \<Rightarrow> Inl (OtherException ''UnboundLocalError'')
      | Some m \<Rightarrow> bindR (item ''evidence'' (PDict m)) (\<lambda>es.
          case list_of es of [] \<Rightarrow> Inl (OtherException ''IndexError'') | e # _ \<Rightarrow> Inr e))"

definition finish_root :: "world \<Rightarrow> owner_token \<Rightarrow> string \<Rightarrow> pydict option \<Rightarrow> db \<Rightarrow> db res" where
  "finish_root w tk new receipt d =
     (case root_activity tk d of
        None \<Rightarrow> own_refuse ''FRONTEND_ROOT_ACTIVITY_REQUIRED''
      | Some a \<Rightarrow>
          if new = ''DONE'' \<and> (outstanding_below (ac_id a) d \<or> list_ex (launch_unsettled tk d) (db_intents d))
          then own_refuse ''FRONTEND_COMPLETION_OBLIGATIONS_REMAIN''
          else if ac_state a \<in> set terminal_states then (if new = ''DONE'' then own_refuse ''ACTIVITY_TERMINAL'' else Inr d)
          else bindR (root_result new receipt) (\<lambda>result.
            bindR (transition_activity_tx w tk \<lparr>tr_activity = ac_id a, tr_expected = ac_state a, tr_new = root_end new,
              tr_result = result, tr_reason = PStr (''frontend '' @ new)\<rparr> d) (\<lambda>(_, d'). Inr d')))"

definition ending_stages :: "string list" where
  "ending_stages = [''DONE'', ''CANCELLED'', ''CAPABILITY_FAILURE'']"

definition stage_tx :: "world \<Rightarrow> owner_token \<Rightarrow> string \<Rightarrow> string \<Rightarrow> pyval \<Rightarrow> completion option \<Rightarrow> policy_state tx" where
  "stage_tx w tk expected new decision c d =
     bindR (assert_owner w tk d) (\<lambda>_.
     case policy_state_of tk d of
       None \<Rightarrow> own_refuse ''FRONTEND_STAGE_STALE''
     | Some st \<Rightarrow>
         if ps_stage st \<noteq> expected then own_refuse ''FRONTEND_STAGE_STALE''
         else bindR (case c of None \<Rightarrow> Inr None | Some c \<Rightarrow> completion_ready w tk c st d) (\<lambda>receipt.
           bindR (if new \<in> set ending_stages then finish_root w tk new receipt d else Inr d) (\<lambda>d1.
           let dec = (if decision = PNone then None else Some (sort_keys decision)) in
           Inr (st\<lparr>ps_stage := new, ps_decision := (if decision = PNone then None else Some decision)\<rparr>,
             update_state tk (\<lambda>s. s\<lparr>ps_stage := new, ps_decision := dec\<rparr>) d1))))"

definition transition_frontend_policy ::
  "world \<Rightarrow> owner_token \<Rightarrow> string \<times> string \<times> pyval \<times> completion_view \<Rightarrow> db \<Rightarrow> policy_state res \<times> db"
where
  "transition_frontend_policy w tk args d =
     (case args of (expected, new, decision, view) \<Rightarrow>
      if \<not> stage_move expected new then (own_refuse ''FRONTEND_STAGE_TRANSITION_INVALID'', d)
      else if decision \<noteq> PNone \<and> \<not> json_encodable decision then (own_refuse ''FRONTEND_DECISION_INVALID'', d)
      else case (if new = ''DONE'' then bindR (verify_completion w tk view) (\<lambda>c. Inr (Some c)) else Inr None) of
        Inl e \<Rightarrow> (Inl e, install_policy d)
      | Inr c \<Rightarrow> transaction (stage_tx w tk expected new decision c) (install_policy d))"

end
