(* ===== verification/Policy_Machine.thy ===== *)
theory Policy_Machine
  imports Completion
begin

text \<open>
  The abstract machine of the policy tables: its state is the acceptance and frontend tables, the grants
  and the decisions, and \<open>change\<close> has one rule per kind of committed change. \<^theory_text>\<open>Policy_Refine\<close> shows that
  every call of the code makes at most one of these changes; the invariants here are proved once, by rule
  induction over \<open>change\<close>.
\<close>

type_synonym policies = "extension \<times> grant list \<times> decision list"

section \<open>Conditions of the changes\<close>

definition same_contract :: "contract_row \<Rightarrow> contract_row \<Rightarrow> bool" where
  "same_contract a b = (ct_repo a = ct_repo b \<and> ct_run a = ct_run b)"

definition first_contract :: "contract_row \<Rightarrow> extension \<Rightarrow> bool" where
  "first_contract c e = (ct_generation c = 1 \<and> ct_parent c = None \<and> ct_active c = [] \<and> ct_amendment_id c = None
     \<and> (\<forall>x \<in> set (ex_contracts e). \<not> same_contract x c))"

definition newest :: "contract_row \<Rightarrow> extension \<Rightarrow> bool" where
  "newest c e = (c \<in> set (ex_contracts e) \<and> (\<forall>x \<in> set (ex_contracts e). same_contract x c \<longrightarrow> ct_generation x \<le> ct_generation c))"

text \<open>The next version of a contract: the frozen columns are kept and the requested obligations added.\<close>

definition successor :: "contract_row \<Rightarrow> string \<Rightarrow> string list \<Rightarrow> contract_row \<Rightarrow> extension \<Rightarrow> bool" where
  "successor c aid requested c' e =
     (newest c e \<and> same_contract c' c \<and> ct_generation c' = ct_generation c + 1 \<and> ct_parent c' = Some (ct_hash c)
      \<and> ct_material_hash c' = ct_material_hash c \<and> ct_requirements c' = ct_requirements c
      \<and> set (ct_active c') = set (ct_active c) \<union> set requested \<and> ct_amendment_id c' = Some aid
      \<and> (\<forall>x \<in> set (ex_contracts e). same_contract x c \<longrightarrow> ct_amendment_id x \<noteq> Some aid))"

definition eligible :: "contract_row \<Rightarrow> string list \<Rightarrow> extension \<Rightarrow> bool" where
  "eligible c requested e = (\<forall>i \<in> set requested. i \<notin> set (ct_active c) \<and>
     (\<exists>x. obligation_of (ct_repo c) (ct_run c) i e = Some x \<and> ob_status x = ''proposed''
        \<and> ob_requirements x \<noteq> [] \<and> set (ob_requirements x) \<subseteq> set (ct_requirements c)))"

definition amends :: "contract_row \<Rightarrow> string \<Rightarrow> grant \<Rightarrow> bool" where
  "amends c aid g = (gr_repo g = ct_repo c \<and> gr_run g = ct_run c \<and> gr_action g = ''acceptance-amend'' \<and> gr_target g = ct_hash c)"

definition activated :: "contract_row \<Rightarrow> string list \<Rightarrow> obligation_row list \<Rightarrow> obligation_row list" where
  "activated c requested = map (\<lambda>x. if ob_repo x = ct_repo c \<and> ob_run x = ct_run c \<and> ob_id x \<in> set requested \<and> ob_status x = ''proposed''
     then activate_row (ct_generation c + 1) x else x)"

definition sealed_from :: "seal_row \<Rightarrow> draft_row \<Rightarrow> contract_row \<Rightarrow> bool" where
  "sealed_from s r c = ((dr_repo r, dr_run r, dr_id r, dr_revision r, dr_hash r, dr_generation r, dr_contract r)
       = (se_repo s, se_run s, se_draft s, se_revision s, se_draft_hash s, se_contract_generation s, se_contract s)
     \<and> (ct_repo c, ct_run c, ct_generation c, ct_hash c) = (se_repo s, se_run s, se_contract_generation s, se_contract s))"

definition seal_of_state :: "seal_row \<Rightarrow> policy_state \<Rightarrow> bool" where
  "seal_of_state s st = ((se_repo s, se_run s, se_hash s, se_contract_generation s)
     = (ps_repo st, ps_run st, ps_acceptance st, ps_generation st))"

definition of_run :: "string \<Rightarrow> string \<Rightarrow> policy_state \<Rightarrow> bool" where
  "of_run repo run s = (ps_repo s = repo \<and> ps_run s = run)"

definition check_key :: "check_row \<Rightarrow> string \<times> string \<times> string \<times> string \<times> string" where
  "check_key c = (cw_repo c, cw_run c, cw_acceptance c, cw_candidate c, cw_id c)"

definition same_wave :: "journal_row \<Rightarrow> journal_row \<Rightarrow> bool" where
  "same_wave a b = (jr_repo a = jr_repo b \<and> jr_run a = jr_run b \<and> jr_wave a = jr_wave b)"

text \<open>What a journal row keeps when it moves; only a pending row changes its state.\<close>

definition journal_core :: "journal_row \<Rightarrow> (string \<times> string \<times> string \<times> string) \<times> (string \<times> nat \<times> string \<times> int) \<times> (pyval \<times> string)" where
  "journal_core j = ((jr_repo j, jr_run j, jr_preparation j, jr_wave j), (jr_activity j, jr_event j, jr_intent j, jr_generation j),
     (jr_contract j, jr_hash j))"

definition moves_journal :: "journal_row \<Rightarrow> journal_row \<Rightarrow> bool" where
  "moves_journal j j' = (journal_core j' = journal_core j \<and> jr_state j' \<in> {''published'', ''quarantined''}
     \<and> (jr_state j' = jr_state j \<or> jr_state j \<notin> {''published'', ''quarantined''}))"

section \<open>The machine\<close>

inductive change :: "policies \<Rightarrow> policies \<Rightarrow> bool" where
  idle: "change s s"
| outside: "change (e, gs, ds) (e\<lparr>ex_requests := rq, ex_workspaces := ws, ex_locals := ls, ex_findings := fs\<rparr>, gs, ds)"
| grant_created: "\<not> gr_consumed g \<Longrightarrow> \<forall>x \<in> set gs. \<not> grant_clash g x \<Longrightarrow> change (e, gs, ds) (e, gs @ [g], ds)"
| grant_consumed: "g \<in> set gs \<Longrightarrow> \<not> gr_consumed g \<Longrightarrow>
    change (e, gs, ds) (e, update_where (\<lambda>x. gr_id x = gr_id g) (mark_consumed k) gs, ds)"
| decided: "de_id r \<notin> de_id ` set ds \<Longrightarrow>
    set (de_dependencies r) \<subseteq> set (map de_id (filter (\<lambda>x. de_repo x = de_repo r \<and> de_run x = de_run r) ds)) \<Longrightarrow>
    change (e, gs, ds) (e, gs, ds @ [r])"
| contract_created: "first_contract c e \<Longrightarrow> change (e, gs, ds) (e\<lparr>ex_contracts := ex_contracts e @ [c]\<rparr>, gs, ds)"
| proposed: "ob_status x = ''proposed'' \<Longrightarrow> obligation_of (ob_repo x) (ob_run x) (ob_id x) e = None \<Longrightarrow>
    c \<in> set (ex_contracts e) \<Longrightarrow> ct_repo c = ob_repo x \<Longrightarrow> ct_run c = ob_run x \<Longrightarrow>
    change (e, gs, ds) (e\<lparr>ex_obligations := ex_obligations e @ [x]\<rparr>, gs, ds)"
| amended: "successor c aid requested c' e \<Longrightarrow> eligible c requested e \<Longrightarrow> g \<in> set gs \<Longrightarrow> amends c aid g \<Longrightarrow> \<not> gr_consumed g \<Longrightarrow>
    change (e, gs, ds) (e\<lparr>ex_contracts := ex_contracts e @ [c'], ex_obligations := activated c requested (ex_obligations e)\<rparr>,
      update_where (\<lambda>x. gr_id x = gr_id g \<and> \<not> gr_consumed x) (mark_consumed (amendment_key aid)) gs, ds)"
| drafted: "\<forall>x \<in> set (ex_drafts e). \<not> draft_clash r x \<Longrightarrow> change (e, gs, ds) (e\<lparr>ex_drafts := ex_drafts e @ [r]\<rparr>, gs, ds)"
| sealed: "\<forall>x \<in> set (ex_seals e). \<not> seal_clash s x \<Longrightarrow> r \<in> set (ex_drafts e) \<Longrightarrow> newest c e \<Longrightarrow> sealed_from s r c \<Longrightarrow>
    change (e, gs, ds) (e\<lparr>ex_seals := ex_seals e @ [s]\<rparr>, gs, ds)"
| received: "\<forall>x \<in> set (ex_receipts e). \<not> receipt_clash r x \<Longrightarrow> s \<in> set (ex_seals e) \<Longrightarrow>
    (se_repo s, se_run s, se_hash s) = (ar_repo r, ar_run r, ar_acceptance r) \<Longrightarrow>
    change (e, gs, ds) (e\<lparr>ex_receipts := ex_receipts e @ [r]\<rparr>, gs, ds)"
| initialized: "\<forall>x \<in> set (ex_states e). \<not> state_clash st x \<Longrightarrow> s \<in> set (ex_seals e) \<Longrightarrow> seal_of_state s st \<Longrightarrow>
    ps_stage st = ''SEALED'' \<Longrightarrow> change (e, gs, ds) (e\<lparr>ex_states := ex_states e @ [st]\<rparr>, gs, ds)"
| candidate_bound: "List.find (of_run repo run) (ex_states e) = Some st \<Longrightarrow>
    rows = ex_candidates e \<or> (\<exists>c. rows = ex_candidates e @ [c] \<and> (\<forall>x \<in> set (ex_candidates e). \<not> candidate_clash c x)
      \<and> (cd_repo c, cd_run c, cd_acceptance c, cd_parent c, cd_generation c)
          = (repo, run, ps_acceptance st, Some (ps_candidate st), ps_generation st)) \<Longrightarrow>
    h \<in> cd_candidate ` {c \<in> set rows. (cd_repo c, cd_run c, cd_acceptance c, cd_generation c) = (repo, run, ps_acceptance st, ps_generation st)} \<Longrightarrow>
    change (e, gs, ds) (e\<lparr>ex_candidates := rows, ex_states := update_where (of_run repo run) (\<lambda>s. s\<lparr>ps_candidate := h\<rparr>) (ex_states e)\<rparr>, gs, ds)"
| checked: "distinct (map check_key cs) \<Longrightarrow> check_key ` set cs \<inter> check_key ` set (ex_checks e) = {} \<Longrightarrow>
    change (e, gs, ds) (e\<lparr>ex_checks := ex_checks e @ cs\<rparr>, gs, ds)"
| staged: "List.find (of_run repo run) (ex_states e) = Some st \<Longrightarrow> stage_move (ps_stage st) new \<Longrightarrow>
    change (e, gs, ds) (e\<lparr>ex_states := update_where (of_run repo run) (\<lambda>s. s\<lparr>ps_stage := new, ps_decision := v\<rparr>) (ex_states e)\<rparr>, gs, ds)"
| registered: "\<forall>x \<in> set (ex_journals e). \<not> journal_clash j x \<Longrightarrow> jr_state j = ''pending'' \<Longrightarrow>
    \<forall>x \<in> set (ex_journals e). jr_preparation x = jr_preparation j \<longrightarrow> jr_state x \<noteq> ''published'' \<longrightarrow> jr_wave x = jr_wave j \<Longrightarrow>
    change (e, gs, ds) (e\<lparr>ex_journals := ex_journals e @ [j]\<rparr>, gs, ds)"
| journaled: "List.find (same_wave j) (ex_journals e) = Some j \<Longrightarrow> moves_journal j (f j) \<Longrightarrow>
    change (e, gs, ds) (e\<lparr>ex_journals := update_where (same_wave j) f (ex_journals e)\<rparr>, gs, ds)"

end
