(* ===== verification/Children.thy ===== *)
theory Children
  imports Journal
begin

text \<open>
  Child activities (\<open>create_child_activity\<close>, \<open>lib/run_state/state.py\<close>, and the binding checks of
  \<open>lib/run_state/workspace.py\<close>): a child is bound to an owned, open parent activity and to one prepared
  workspace of its own. Whether the workspace of the run resolves to itself is read from the file system
  (\<open>ch_resolved\<close>).
\<close>

section \<open>The workspace of a child\<close>

definition child_workspace_identity :: "world \<Rightarrow> bool \<Rightarrow> string \<Rightarrow> string \<Rightarrow> string option \<Rightarrow> (string \<times> string) res" where
  "child_workspace_identity w resolved parent run key =
     (case key of
        None \<Rightarrow> Inl (OtherException ''INVALID_CHILD_ALLOCATION'')
      | Some k \<Rightarrow>
          if run = [] \<or> k = [] then Inl (OtherException ''INVALID_CHILD_ALLOCATION'')
          else if \<not> py_startswith parent ''/'' \<or> \<not> resolved then Inl (OtherException ''WORKSPACE_PREPARE_FAILED'')
          else let h = take 24 (w_sha256 w k); base = posix_norm parent in
            Inr ((if base = ''/'' then base else base @ ''/'') @ ''.ffs-children/'' @ h, ''ffs/children/'' @ run @ ''/'' @ h))"

text \<open>The prepared workspace the run points at.\<close>

definition parent_workspace :: "owner_token \<Rightarrow> string option \<Rightarrow> db \<Rightarrow> workspace option" where
  "parent_workspace tk prep d = List.find (\<lambda>s. Some (ws_id s) = prep \<and> ws_repo s = Some (tk_repo tk) \<and> ws_run s = tk_run tk
     \<and> (case db_context d of None \<Rightarrow> False
        | Some rs \<Rightarrow> list_ex (\<lambda>r. cr_repo r = tk_repo tk \<and> cr_run r = tk_run tk \<and> cr_preparation r = Some (ws_id s)) rs))
     (ex_workspaces (db_tables d))"

definition parent_active :: "owner_token \<Rightarrow> string option \<Rightarrow> db \<Rightarrow> bool" where
  "parent_active tk a d = list_ex (\<lambda>x. Some (ac_id x) = a \<and> ac_repo x = tk_repo tk \<and> ac_run x = tk_run tk
     \<and> ac_generation x = tk_generation tk \<and> ac_state x = ''active'') (db_activities d)"

definition child_roles :: "string list" where
  "child_roles = [''worker'', ''reviewer'', ''recovery'', ''inventory'']"

definition child_of_parent :: "world \<Rightarrow> owner_token \<Rightarrow> workspace \<Rightarrow> workspace \<Rightarrow> string \<times> string \<Rightarrow> bool" where
  "child_of_parent w tk s p expected =
     (ws_state p = ''ready'' \<and> ws_created p \<and> ws_generation p = tk_generation tk
      \<and> w_durable_key w (ws_path p) = w_durable_key w (tk_workspace tk)
      \<and> (case ws_role s of None \<Rightarrow> False | Some r \<Rightarrow> r \<in> set child_roles)
      \<and> ws_path s = fst expected \<and> ws_branch s = snd expected \<and> ws_common s = ws_common p \<and> ws_base s = ws_base p)"

definition assert_preparation_binding :: "world \<Rightarrow> owner_token \<Rightarrow> bool \<Rightarrow> bool \<Rightarrow> workspace \<Rightarrow> db \<Rightarrow> unit res" where
  "assert_preparation_binding w tk resolved require_generation s d =
     (if ws_repo s \<noteq> Some (tk_repo tk) \<or> ws_run s \<noteq> tk_run tk \<or> (require_generation \<and> ws_generation s \<noteq> tk_generation tk)
      then own_refuse ''FENCE_REVOKED''
      else bindR (assert_settled (ws_id s) None d) (\<lambda>_.
        if ws_parent s = None then
          (if w_durable_key w (ws_path s) \<noteq> w_durable_key w (tk_workspace tk) then own_refuse ''FENCE_REVOKED'' else Inr ())
        else bindR (child_workspace_identity w resolved (tk_workspace tk) (tk_run tk) (ws_request s)) (\<lambda>expected.
          case parent_workspace tk (ws_parent s) d of
            None \<Rightarrow> own_refuse ''FENCE_REVOKED''
          | Some p \<Rightarrow> if \<not> parent_active tk (ws_activity s) d \<or> \<not> child_of_parent w tk s p expected
              then own_refuse ''FENCE_REVOKED'' else Inr ())))"

section \<open>Creating a child\<close>

record child_request =
  ch_parent :: string
  ch_role :: string
  ch_key :: string
  ch_candidate :: string
  ch_contract :: string
  ch_runtime :: string
  ch_workspace :: string
  ch_preparation :: "string option"
  ch_budget :: pyval
  ch_guard :: "db \<Rightarrow> unit res"
  ch_id :: "string option"
  ch_resolved :: bool

definition uuid_dashes :: "nat list" where
  "uuid_dashes = [8, 13, 18, 23]"

text \<open>\<open>str(uuid.UUID(s)) == s\<close>: the canonical lower-case form.\<close>

definition canonical_uuid :: "string \<Rightarrow> bool" where
  "canonical_uuid s = (length s = 36 \<and> list_all (\<lambda>(n, c). if n \<in> set uuid_dashes then c = CHR ''-'' else hex_char c) (enumerate 0 s)
     \<and> s = py_lower s)"

definition valid_child :: "child_request \<Rightarrow> bool" where
  "valid_child q = (ch_parent q \<noteq> [] \<and> ch_role q \<in> set child_roles \<and> ch_key q \<noteq> [] \<and> valid_digest (PStr (ch_candidate q))
     \<and> valid_digest (PStr (ch_contract q)) \<and> ch_runtime q \<noteq> [] \<and> ch_workspace q \<noteq> []
     \<and> (case ch_preparation q of None \<Rightarrow> False | Some s \<Rightarrow> s \<noteq> []) \<and> valid_nonnegative_integer (ch_budget q))"

definition ready_workspace :: "owner_token \<Rightarrow> string option \<Rightarrow> db \<Rightarrow> workspace option" where
  "ready_workspace tk prep d = List.find (\<lambda>s. Some (ws_id s) = prep \<and> ws_repo s = Some (tk_repo tk) \<and> ws_run s = tk_run tk
     \<and> ws_generation s = tk_generation tk \<and> ws_state s = ''ready'' \<and> ws_created s) (ex_workspaces (db_tables d))"

definition child_gate :: "world \<Rightarrow> owner_token \<Rightarrow> child_request \<Rightarrow> db \<Rightarrow> unit res" where
  "child_gate w tk q d =
     bindR (assert_owner w tk d) (\<lambda>_.
     bindR (ch_guard q d) (\<lambda>_.
     if limits_of tk d = None then own_refuse ''RUN_LIMITS_REQUIRED''
     else case activity_of (ch_parent q) d of
       None \<Rightarrow> own_refuse ''PARENT_ACTIVITY_INVALID''
     | Some p \<Rightarrow>
         if ac_repo p \<noteq> tk_repo tk \<or> ac_run p \<noteq> tk_run tk \<or> ac_state p \<in> set terminal_states then own_refuse ''PARENT_ACTIVITY_INVALID''
         else (case ready_workspace tk (ch_preparation q) d of
             None \<Rightarrow> own_refuse ''WORKSPACE_BINDING_MISMATCH''
           | Some s \<Rightarrow> bindR (assert_preparation_binding w tk (ch_resolved q) True s d) (\<lambda>_.
               if ws_activity s \<noteq> Some (ch_parent q) \<or> ws_role s \<noteq> Some (ch_role q) \<or> ws_path s \<noteq> ch_workspace q
                 \<or> ch_workspace q = tk_workspace tk
               then own_refuse ''WORKSPACE_BINDING_MISMATCH'' else Inr ()))))"

definition new_binding :: "child_request \<Rightarrow> string \<Rightarrow> child_binding" where
  "new_binding q i = \<lparr>cb_activity = i, cb_parent = ch_parent q, cb_role = ch_role q, cb_candidate = ch_candidate q,
     cb_contract = ch_contract q, cb_runtime = ch_runtime q, cb_workspace = ch_workspace q, cb_preparation = ch_preparation q\<rparr>"

definition same_child :: "child_request \<Rightarrow> activity \<Rightarrow> db \<Rightarrow> bool" where
  "same_child q a d = (binding_of (ac_id a) d = Some (new_binding q (ac_id a)) \<and> ac_retry_budget a = int_of (ch_budget q)
     \<and> (ch_id q = None \<or> ch_id q = Some (ac_id a)))"

definition new_child :: "owner_token \<Rightarrow> child_request \<Rightarrow> string \<Rightarrow> db \<Rightarrow> activity" where
  "new_child tk q i d = (new_activity tk i (if ch_role q = ''reviewer'' then ''review'' else ''execute'') (ch_candidate q)
     (int_of (ch_budget q)) (ch_key q) d)\<lparr>ac_runtime := Some (ch_runtime q)\<rparr>"

definition child_tx :: "world \<Rightarrow> owner_token \<Rightarrow> child_request \<Rightarrow> activity tx" where
  "child_tx w tk q d =
     bindR (child_gate w tk q d) (\<lambda>_.
     case List.find (\<lambda>a. run_activity tk a \<and> ac_request_key a = ch_key q) (db_activities d) of
       Some a \<Rightarrow> if \<not> same_child q a d then own_refuse ''IDEMPOTENCY_CONFLICT'' else Inr (a, d)
     | None \<Rightarrow>
         if (case ch_id q of None \<Rightarrow> False | Some i \<Rightarrow> activity_of i d \<noteq> None) then own_refuse ''ACTIVITY_ID_CONFLICT''
         else if list_ex (\<lambda>b. cb_preparation b = ch_preparation q) (db_bindings d) then own_refuse ''WORKSPACE_ACTIVITY_BOUND''
         else let i = (case ch_id q of None \<Rightarrow> w_uuid w 0 | Some i \<Rightarrow> i); row = new_child tk q i d in
           bindR (insert_activity row d) (\<lambda>d1.
           bindR (insert_row (\<lambda>r x. cb_activity x = cb_activity r) (new_binding q i) (db_bindings d1)) (\<lambda>rows.
           Inr (row, d1\<lparr>db_bindings := rows\<rparr>))))"

definition create_child_activity :: "world \<Rightarrow> owner_token \<Rightarrow> child_request \<Rightarrow> db \<Rightarrow> activity res \<times> db" where
  "create_child_activity w tk q d =
     (if \<not> valid_child q then (own_refuse ''INVALID_CHILD_ACTIVITY'', d)
      else if (case ch_id q of None \<Rightarrow> False | Some i \<Rightarrow> \<not> canonical_uuid i) then (own_refuse ''INVALID_CHILD_ACTIVITY_ID'', d)
      else transaction (child_tx w tk q) (install_context d))"

end
