(* ===== verification/Table_Frame.thy ===== *)
theory Table_Frame
  imports Launch_Safety
begin

text \<open>
  The calls of the ownership, policy, activity and launch components never touch the tables of the
  acceptance and frontend policies, the grants and the decisions (\<open>kept\<close>), and, but for the
  acknowledgement of a child, not the cohorts either (\<open>held\<close>).
\<close>

definition kept :: "db \<Rightarrow> extension \<times> grant list \<times> decision list" where
  "kept d = (db_tables d, db_grants d, db_decisions d)"

definition held :: "db \<Rightarrow> (extension \<times> grant list \<times> decision list) \<times> cohort_member list \<times> cohort list" where
  "held d = (kept d, db_members d, db_cohorts d)"

lemma held_kept: "held d' = held d \<Longrightarrow> kept d' = kept d"
  by (simp add: held_def)

lemma kept_update [simp]:
  "kept (d\<lparr>db_generation := x_generation\<rparr>) = kept d"
  "kept (d\<lparr>db_reservations := x_reservations\<rparr>) = kept d"
  "kept (d\<lparr>db_events := x_events\<rparr>) = kept d"
  "kept (d\<lparr>db_context := x_context\<rparr>) = kept d"
  "kept (d\<lparr>db_migration := x_migration\<rparr>) = kept d"
  "kept (d\<lparr>db_activities := x_activities\<rparr>) = kept d"
  "kept (d\<lparr>db_intents := x_intents\<rparr>) = kept d"
  "kept (d\<lparr>db_limits := x_limits\<rparr>) = kept d"
  "kept (d\<lparr>db_revisions := x_revisions\<rparr>) = kept d"
  "kept (d\<lparr>db_capacity := x_capacity\<rparr>) = kept d"
  "kept (d\<lparr>db_accounting := x_accounting\<rparr>) = kept d"
  "kept (d\<lparr>db_cohorts := x_cohorts\<rparr>) = kept d"
  "kept (d\<lparr>db_members := x_members\<rparr>) = kept d"
  "kept (d\<lparr>db_bindings := x_bindings\<rparr>) = kept d"
  "kept (d\<lparr>db_receipts := x_receipts\<rparr>) = kept d"
  "kept (d\<lparr>db_qualified := x_qualified\<rparr>) = kept d"
  "kept (d\<lparr>db_keys := x_keys\<rparr>) = kept d"
  "kept (d\<lparr>db_debits := x_debits\<rparr>) = kept d"
  "kept (d\<lparr>db_policy_installed := x_policy_installed\<rparr>) = kept d"
  "kept (d\<lparr>db_budgets := x_budgets\<rparr>) = kept d"
  "kept (d\<lparr>db_actions := x_actions\<rparr>) = kept d"
  "kept (d\<lparr>db_attempts := x_attempts\<rparr>) = kept d"
  "kept (d\<lparr>db_reconciliations := x_reconciliations\<rparr>) = kept d"
  "kept (d\<lparr>db_intervals := x_intervals\<rparr>) = kept d"
  by (simp_all add: kept_def)

lemma kept_other [simp]: "kept (add_event t p d) = kept d" "kept (install_policy d) = kept d" "kept (install_context d) = kept d"
  "kept (update_budget tk f b) = kept b" "kept (update_activity a g e) = kept e" "kept (revoke_intents ids h) = kept h"
  "kept (update_intent i k u) = kept u" "kept (update_limits tk' l v) = kept v" "kept (close_interval j n y) = kept y"
  by (simp_all add: add_event_def install_policy_def install_context_def update_budget_def update_activity_def revoke_intents_def
      update_intent_def update_limits_def close_interval_def)

lemma held_update [simp]:
  "held (d\<lparr>db_generation := x_generation\<rparr>) = held d"
  "held (d\<lparr>db_reservations := x_reservations\<rparr>) = held d"
  "held (d\<lparr>db_events := x_events\<rparr>) = held d"
  "held (d\<lparr>db_context := x_context\<rparr>) = held d"
  "held (d\<lparr>db_migration := x_migration\<rparr>) = held d"
  "held (d\<lparr>db_activities := x_activities\<rparr>) = held d"
  "held (d\<lparr>db_intents := x_intents\<rparr>) = held d"
  "held (d\<lparr>db_limits := x_limits\<rparr>) = held d"
  "held (d\<lparr>db_revisions := x_revisions\<rparr>) = held d"
  "held (d\<lparr>db_capacity := x_capacity\<rparr>) = held d"
  "held (d\<lparr>db_accounting := x_accounting\<rparr>) = held d"
  "held (d\<lparr>db_bindings := x_bindings\<rparr>) = held d"
  "held (d\<lparr>db_receipts := x_receipts\<rparr>) = held d"
  "held (d\<lparr>db_qualified := x_qualified\<rparr>) = held d"
  "held (d\<lparr>db_keys := x_keys\<rparr>) = held d"
  "held (d\<lparr>db_debits := x_debits\<rparr>) = held d"
  "held (d\<lparr>db_policy_installed := x_policy_installed\<rparr>) = held d"
  "held (d\<lparr>db_budgets := x_budgets\<rparr>) = held d"
  "held (d\<lparr>db_actions := x_actions\<rparr>) = held d"
  "held (d\<lparr>db_attempts := x_attempts\<rparr>) = held d"
  "held (d\<lparr>db_reconciliations := x_reconciliations\<rparr>) = held d"
  "held (d\<lparr>db_intervals := x_intervals\<rparr>) = held d"
  by (simp_all add: held_def)

lemma held_other [simp]: "held (add_event t p d) = held d" "held (install_policy d) = held d" "held (install_context d) = held d"
  "held (update_budget tk f b) = held b" "held (update_activity a g e) = held e" "held (revoke_intents ids h) = held h"
  "held (update_intent i k u) = held u" "held (update_limits tk' l v) = held v" "held (close_interval j n y) = held y"
  by (simp_all add: add_event_def install_policy_def install_context_def update_budget_def update_activity_def revoke_intents_def
      update_intent_def update_limits_def close_interval_def)

lemma kept_tx: "(\<And>x d'. body d = Inr (x, d') \<Longrightarrow> kept d' = kept d) \<Longrightarrow> kept (snd (transaction body d)) = kept d"
  by (cases rule: transaction_cases [of body d]) auto

lemma kept_seq:
  assumes "kept (snd r) = kept d" and "\<And>x d1. kept (snd (k x d1)) = kept d1"
  shows "kept (snd (seq_op r k)) = kept d"
  using assms by (cases r; cases "fst r") auto

lemma held_tx: "(\<And>x d'. body d = Inr (x, d') \<Longrightarrow> held d' = held d) \<Longrightarrow> held (snd (transaction body d)) = held d"
  by (cases rule: transaction_cases [of body d]) auto

lemma held_seq:
  assumes "held (snd r) = held d" and "\<And>x d1. held (snd (k x d1)) = held d1"
  shows "held (snd (seq_op r k)) = held d"
  using assms by (cases r; cases "fst r") auto

section \<open>Policy calls\<close>

lemma clock_held [simp]: "held (snd (policy_clock_tx w tk b n a r d)) = held d"
  by (simp add: policy_clock_tx_def Let_def split: option.split)

lemma clock_heldD: "policy_clock_tx w tk b n a r d = (ok, d') \<Longrightarrow> held d' = held d"
  using clock_held [of w tk b n a r d] by simp

lemma authorize_clock_held: "policy_authorize_clock_tx w tk n b m d = Inr (e, d') \<Longrightarrow> held d' = held d"
  by (auto simp: policy_authorize_clock_tx_def Let_def split_beta split: if_split_asm option.split_asm)

lemma preflight_held: "held (snd (preflight_policy_clock w tk b n d)) = held d"
proof -
  have "held (snd (transaction (preflight_tx w tk b n) d)) = held d"
    by (rule held_tx)
      (auto simp: preflight_tx_def Let_def split_beta split: option.split_asm)
  then show ?thesis
    by (auto simp: preflight_policy_clock_def intro!: held_seq split: option.splits)
qed

lemma configure_held: "held (snd (configure_run_policy_budget w tk args d)) = held d"
proof -
  have "held (snd (transaction (configure_tx w tk t m b n) d1)) = held d1" for t m b n d1
    by (rule held_tx) (auto simp: configure_tx_def Let_def split: option.splits if_splits)
  then show ?thesis by (cases args) (simp add: configure_run_policy_budget_def split: sum.split)
qed

lemma reserve_action_held: "held (snd (reserve_policy_action w tk q d)) = held d"
proof -
  have "held (snd (transaction (reserve_action_tx w tk a l i c n) d1)) = held d1" for a l i c n d1
    by (rule held_tx) (auto simp: reserve_action_tx_def Let_def split: option.splits if_splits)
  then show ?thesis
    by (auto simp: reserve_policy_action_def preflight_held intro!: held_seq split: sum.split)
qed

lemma cancel_held: "held (snd (transaction (cancel_tx w tk acts i) d)) = held d"
  by (rule held_tx) (auto simp: cancel_tx_def split: option.splits if_splits)

lemma receipt_held: "held (snd (record_policy_action_receipt w tk args d)) = held d"
proof -
  have "held (snd (transaction (record_receipt_tx w tk i inp r v) d1)) = held d1" for i inp r v d1
    by (rule held_tx) (auto simp: record_receipt_tx_def Let_def split: option.splits if_splits)
  then show ?thesis by (cases args) (simp add: record_policy_action_receipt_def split: sum.split)
qed

lemma wait_held: "held (snd (record_policy_wait w tk args d)) = held d"
proof -
  have "held (snd (transaction (wait_tx w tk k n b m) d1)) = held d1" for k n b m d1
  proof (rule held_tx)
    fix r d' assume "wait_tx w tk k n b m d1 = Inr (r, d')"
    from wait_tx_Inr [OF this] show "held d' = held d1" by auto
  qed
  then show ?thesis by (cases args) (auto simp: record_policy_wait_def intro!: held_seq split: prod.split)
qed

lemma reconcile_held: "held (snd (reconcile_run_policy_clock w tk receipt d)) = held d"
proof -
  have "held (snd (transaction (reconcile_clock_tx w tk c) d1)) = held d1" for c d1
    by (rule held_tx) (auto simp: reconcile_clock_tx_def Let_def split: option.splits if_splits)
  then show ?thesis by (simp add: reconcile_run_policy_clock_def split: sum.split)
qed

lemma fold_close_held [simp]: "held (fold (\<lambda>x. close_interval (wi_id x) n) xs d) = held d"
  by (induction xs arbitrary: d) simp_all

lemma dead_work_held: "held (snd (reconcile_dead_policy_work w tk d)) = held d"
proof -
  have "held (snd (transaction (reconcile_dead_tx w tk xs os) d)) = held d" for xs os
    by (rule held_tx)
      (auto simp: reconcile_dead_tx_def Let_def split_beta split: if_split_asm)
  then show ?thesis by (auto simp: reconcile_dead_policy_work_def Let_def intro!: held_seq split: sum.split)
qed

lemma begin_held: "held (snd (begin_policy_work w tk args d)) = held d"
proof -
  have "held (snd (transaction (begin_work_tx w tk k b n) d1)) = held d1" for k b n d1
    by (rule held_tx) (auto simp: begin_work_tx_def Let_def split: option.splits if_splits dest: authorize_clock_held)
  then show ?thesis
    by (cases args) (auto simp: begin_policy_work_def preflight_held dead_work_held intro!: held_seq split: option.split)
qed

lemma end_held: "held (snd (end_policy_work w tk args d)) = held d"
proof -
  have "held (snd (transaction (end_work_tx w tk i b n) d1)) = held d1" for i b n d1
    by (rule held_tx) (auto simp: end_work_tx_def Let_def dest!: clock_heldD split: option.split_asm if_split_asm)
  then show ?thesis by (cases args) (auto simp: end_policy_work_def intro!: held_seq)
qed

section \<open>Activities and limits\<close>

lemma insert_activity_held: "insert_activity r d = Inr d' \<Longrightarrow> held d' = held d"
  by (auto simp: insert_activity_def)

lemma record_event_held: "record_event_once_tx w tk a k p d = Inr (n, d') \<Longrightarrow> held d' = held d"
  by (auto simp: record_event_once_tx_def Let_def split: option.split_asm if_split_asm)

lemma transition_held: "transition_activity_tx w tk t d = Inr (r, d') \<Longrightarrow> held d' = held d"
  by (auto simp: transition_activity_tx_def Let_def reread_Inr split: if_split_asm)

lemma activity_held:
  assumes "activity_step d d'" shows "held d' = held d"
  using assms
proof cases
  case (create w tk args)
  have "held (snd (transaction (create_activity_tx w tk k g b key) d)) = held d" for k g b key
    by (rule held_tx) (auto simp: create_activity_tx_def Let_def dest!: insert_activity_held split: option.split_asm if_split_asm)
  then show ?thesis by (cases args) (simp add: create create_activity_def)
next
  case (runtime w tk args)
  have "held (snd (transaction (bind_runtime_tx w tk a h) d)) = held d" for a h
    by (rule held_tx) (auto simp: bind_runtime_tx_def reread_Inr split: if_split_asm)
  then show ?thesis by (cases args) (simp add: runtime bind_runtime_def)
next
  case (transit w tk t)
  have "held (snd (transaction (transition_activity_tx w tk t) d)) = held d" by (rule held_tx) (rule transition_held)
  then show ?thesis by (simp add: transit transition_activity_def)
next
  case (select w tk sel)
  have "held (snd (transaction (select_activity_tx w tk k g x y) d)) = held d" for k g x y
    by (rule held_tx) (auto simp: select_activity_tx_def Let_def dest!: insert_activity_held split: option.split_asm if_split_asm)
  then show ?thesis by (cases sel) (simp add: select select_activity_def)
next
  case (event w tk ev)
  have "held (snd (transaction (\<lambda>d. bindR (assert_activity_binding w tk a d) (\<lambda>_. record_event_once_tx w tk a k p d)) d)) = held d"
    for a k p by (rule held_tx) (auto dest: record_event_held)
  then show ?thesis by (cases ev) (simp add: event record_event_once_def split: pyval.split)
next
  case (debit w tk db)
  have "held (snd (transaction (debit_tx w tk a n key) d)) = held d" for a n key
    by (rule held_tx) (auto simp: debit_tx_def Let_def split: option.split_asm if_split_asm)
  then show ?thesis by (cases db) (simp add: debit debit_budget_def)
qed

lemma limits_held: "held (snd (configure_run_limits w tk args d)) = held d"
proof -
  have "held (snd (transaction (configure_limits_tx w tk a b c) d1)) = held d1" for a b c d1
    by (rule held_tx) (auto simp: configure_limits_tx_def Let_def split: option.split_asm if_split_asm)
  then show ?thesis by (cases args) (simp add: configure_run_limits_def)
qed

lemma capacity_held: "held (snd (revise_capacity_policy w tk args d)) = held d"
proof -
  have "held (d1\<lparr>db_revisions := rs, db_capacity := cs\<rparr>) = held d1" for d1 rs cs by (simp add: held_def)
  then have "held (snd (transaction (revise_capacity_tx w tk a b c) d1)) = held d1" for a b c d1
    by (intro held_tx) (auto simp: revise_capacity_tx_def Let_def split: option.split_asm if_split_asm)
  then show ?thesis by (cases args) (simp add: revise_capacity_policy_def)
qed

section \<open>Launches\<close>

lemma reread_intent_held: "reread_intent i d = Inr (r, d') \<Longrightarrow> held d' = held d"
  by (auto simp: reread_intent_def split: option.split_asm)

lemma charge_held: "charge_action i a d = Inr d' \<Longrightarrow> held d' = held d"
  by (auto simp: charge_action_def held_def split: option.split_asm if_split_asm)

lemma bind_launch_held: "policy_bind_launch_tx w tk q d = Inr d' \<Longrightarrow> held d' = held d"
  by (auto simp: policy_bind_launch_tx_def dest!: charge_held split: option.split_asm if_split_asm)

lemma account_held: "account_launch w tk a i q d = Inr d' \<Longrightarrow> held d' = held d"
  by (auto simp: account_launch_def Let_def dest!: bind_launch_held split: if_split_asm)

lemma reserve_write_held: "reserve_write w tk a q d = Inr (i, d') \<Longrightarrow> held d' = held d"
  by (auto simp: reserve_write_def Let_def dest!: account_held record_event_held split: if_split_asm)

lemma reuse_held: "reuse_intent tk n e d = Inr (r, d') \<Longrightarrow> held d' = held d"
  by (auto simp: reuse_intent_def dest!: reread_intent_held split: option.split_asm if_split_asm)

lemma reserve_tx_held: "held (snd (transaction (reserve_launch_tx w tk a q c) d)) = held d"
  by (rule held_tx)
    (auto simp: reserve_launch_tx_def dest!: reserve_write_held reuse_held split: option.split_asm if_split_asm)

lemma reserve_held: "held (snd (reserve_launch w tk args d)) = held d"
  by (cases args) (auto simp: reserve_launch_def reserve_tx_held preflight_held intro!: held_seq split: sum.split)

lemma launch_clock_held: "record_launch_clock_tx w tk a i d = Inr d' \<Longrightarrow> held d' = held d"
  by (auto simp: record_launch_clock_tx_def dest!: record_event_held split: if_split_asm)

lemma authorize_rest_held:
  "(case err of Some code \<Rightarrow> Inr (own_refuse code, d1)
    | None \<Rightarrow> bindR (record_launch_clock_tx w tk a i d2) (\<lambda>d3. Inr (Inr p, d3))) = Inr (r, d') \<Longrightarrow>
   held d2 = held d1 \<Longrightarrow> held d' = held d1"
  by (cases err) (auto dest!: launch_clock_held)

lemma optional_clock_held:
  "(if c then Inr (None, d) else policy_authorize_clock_tx w tk n b m d) = Inr (err, d1) \<Longrightarrow> held d1 = held d"
  by (cases c) (auto dest: authorize_clock_held)

lemma authorize_tx_held: "held (snd (transaction (authorize_tx w tk q) d)) = held d"
proof (rule held_tx)
  fix r d' assume "authorize_tx w tk q d = Inr (r, d')"
  then show "held d' = held d"
    unfolding authorize_tx_def Let_def bindR_eq_Inr split_paired_Ex prod.case
    by (elim exE conjE) (drule authorize_rest_held, simp, drule optional_clock_held, simp)
qed

lemma authorize_held: "held (snd (authorize_child w tk q d)) = held d"
  unfolding authorize_child_def
  by (rule held_seq [OF preflight_held]) (simp add: held_seq [OF authorize_tx_held])

lemma recover_held: "held (snd (recover_intent w tk args d)) = held d"
proof -
  have "held (snd (transaction (recover_tx w tk i row) d)) = held d" for i row
    by (rule held_tx) (auto simp: recover_tx_def Let_def dest!: reread_intent_held split: option.split_asm if_split_asm)
  then show ?thesis by (cases args) (simp add: recover_intent_def split: option.split)
qed

lemma close_dead_held: "held (snd (close_dead_qualification_intent w tk args d)) = held d"
proof -
  have "held (snd (transaction (close_dead_tx w tk i found) d)) = held d" for i found
    by (rule held_tx) (auto simp: close_dead_tx_def dest!: reread_intent_held split: prod.split_asm if_split_asm)
  then show ?thesis by (cases args) (simp add: close_dead_qualification_intent_def split: option.split sum.split)
qed

lemma record_stopped_held: "record_stopped w tk row p d = Inr d' \<Longrightarrow> held d' = held d"
  by (auto simp: record_stopped_def dest!: record_event_held split: if_split_asm)

lemma advance_held: "advance_clock w tk b n d = Inr d' \<Longrightarrow> held d' = held d"
  by (auto simp: advance_clock_def)

lemma settle_held: "settle_limits tk r u d = Inr d' \<Longrightarrow> held d' = held d"
  by (auto simp: settle_limits_def Let_def split: if_split_asm)

lemma complete_write_held: "complete_write w tk q e t row acc d = Inr d' \<Longrightarrow> held d' = held d"
  by (auto simp: complete_write_def complete_rows_def Let_def dest!: record_stopped_held advance_held settle_held
      split: option.split_asm if_split_asm)

lemma complete_held: "held (snd (complete_launch w tk q d)) = held d"
proof -
  have "held (snd (transaction (complete_tx w tk q e t obs) d)) = held d" for e t obs
    by (rule held_tx) (auto simp: complete_tx_def dest!: complete_write_held reread_intent_held split: option.split_asm if_split_asm)
  then show ?thesis by (simp add: complete_launch_def split: option.split sum.split)
qed

lemma contained_held: "held (snd (record_contained_process w tk args d)) = held d"
proof -
  have "held (snd (transaction (contained_tx w tk i report l) d)) = held d" for i report l
    by (rule held_tx) (auto simp: contained_tx_def dest!: record_stopped_held advance_held split: option.split_asm if_split_asm)
  then show ?thesis by (cases args) (simp add: record_contained_process_def split: sum.split)
qed

section \<open>Owners\<close>

lemma acquire_held: "held (snd (transaction (reserve_tx w req ws keys snapshot dead) d)) = held d"
  by (rule held_tx) (auto simp: reserve_tx_def Let_def held_def split: if_split_asm option.split_asm)

lemma release_held: "held (snd (transaction (release_owner w tk) d)) = held d"
  by (rule held_tx) (auto simp: release_owner_def Let_def held_def split: if_split_asm option.split_asm)

lemma reserve_loop_held: "held (snd (reserve_loop w req ws keys (\<lambda>i s. s) n i d)) = held d"
proof (induction n arbitrary: i d)
  case (Suc n)
  have "held (snd (seq_op (transaction (reserve_tx w req ws keys snap dead) d)
      (\<lambda>r d'. case r of Some gen \<Rightarrow> (Inr gen, d') | None \<Rightarrow> reserve_loop w req ws keys (\<lambda>i s. s) n (Suc i) d'))) = held d" for snap dead
    by (rule held_seq [OF acquire_held]) (simp add: Suc.IH split: option.split)
  then show ?case by (simp add: Let_def)
qed simp

lemma reserve_resources_held: "held (snd (reserve_resources w (\<lambda>i s. s) req d)) = held d"
  by (auto simp: reserve_resources_def Let_def reserve_loop_held intro!: held_seq split: sum.split)

text \<open>The tables of the policies in particular; an acknowledgement also writes the members of its cohort.\<close>

lemmas policy_clock_kept [simp] = clock_held [THEN held_kept]
lemmas optional_clock_kept = optional_clock_held [THEN held_kept]
lemmas preflight_kept = preflight_held [THEN held_kept]
lemmas record_event_kept = record_event_held [THEN held_kept]
lemmas transition_kept = transition_held [THEN held_kept]
lemmas bind_launch_kept = bind_launch_held [THEN held_kept]
lemmas launch_clock_kept = launch_clock_held [THEN held_kept]

lemma ack_cohort_kept: "ack_cohort q k d = Inr d' \<Longrightarrow> kept d' = kept d"
  by (auto simp: ack_cohort_def Let_def kept_def split: option.split_asm if_split_asm)

lemma ack_kept: "kept (snd (acknowledge_child w tk q d)) = kept d"
proof -
  have "kept (snd (transaction (ack_tx w tk q obs k) d)) = kept d" for obs k
    by (rule kept_tx) (auto simp: ack_tx_def dest!: ack_cohort_kept split: option.split_asm if_split_asm)
  then show ?thesis by (simp add: acknowledge_child_def split: sum.split)
qed

lemmas old_calls_held = configure_held reserve_action_held cancel_held receipt_held wait_held reconcile_held begin_held end_held
  preflight_held activity_held limits_held capacity_held reserve_tx_held reserve_held authorize_tx_held authorize_held
  recover_held close_dead_held complete_held contained_held acquire_held release_held reserve_resources_held

lemmas old_calls_kept = old_calls_held [THEN held_kept] ack_kept

end
