(* ===== verification/Policy_Frames.thy ===== *)
theory Policy_Frames
  imports Completion Children Table_Frame
begin

text \<open>
  The calls of the grants, acceptance, frontend policy and journal components never touch the activities,
  launches, accounts, budgets and owners (\<open>side\<close>), and all of them stand behind the owner fence. The two
  calls that do move activities, \<open>transition_frontend_policy\<close> and \<open>create_child_activity\<close>, keep the
  invariant of \<^theory_text>\<open>Launch_Safety\<close>.
\<close>

definition side :: "db \<Rightarrow> (intent list \<times> activity list \<times> accounting list \<times> run_limits list)
    \<times> (debit list \<times> child_binding list \<times> policy_budget list) \<times> (reservation list \<times> int) \<times> cohort_member list \<times> cohort list" where
  "side d = ((db_intents d, db_activities d, db_accounting d, db_limits d), (db_debits d, db_bindings d, db_budgets d),
     (db_reservations d, db_generation d), db_members d, db_cohorts d)"

lemma side_update [simp]:
  "side (d\<lparr>db_events := x_events\<rparr>) = side d" "side (d\<lparr>db_context := x_context\<rparr>) = side d"
  "side (d\<lparr>db_keys := x_keys\<rparr>) = side d" "side (d\<lparr>db_grants := x_grants\<rparr>) = side d"
  "side (d\<lparr>db_decisions := x_decisions\<rparr>) = side d" "side (d\<lparr>db_policy_installed := x_installed\<rparr>) = side d"
  "side (d\<lparr>db_actions := x_actions\<rparr>) = side d" "side (d\<lparr>db_tables := x_tables\<rparr>) = side d"
  by (simp_all add: side_def)

lemma side_other [simp]: "side (add_event t p d) = side d" "side (install_policy d) = side d" "side (install_context d) = side d"
  "side (tables_update f d) = side d" "side (update_state tk g d) = side d" "side (update_journal tk k h d) = side d"
  "side (complete_review a r d) = side d"
  by (simp_all add: add_event_def install_policy_def install_context_def tables_update_def update_state_def update_journal_def
      complete_review_def)

lemma side_tx: "(\<And>x d'. body d = Inr (x, d') \<Longrightarrow> side d' = side d) \<Longrightarrow> side (snd (transaction body d)) = side d"
  by (cases rule: transaction_cases [of body d]) auto

lemma side_event: "record_event_once_tx w tk a k p d = Inr (n, d') \<Longrightarrow> side d' = side d"
  by (auto simp: record_event_once_tx_def Let_def split: option.split_asm if_split_asm)

section \<open>Grants and decisions\<close>

lemma create_grant_side: "side (snd (create_grant w tk q d)) = side d"
proof -
  have "side (snd (transaction (create_grant_tx w tk q e) d)) = side d" for e
    by (rule side_tx) (auto simp: create_grant_tx_def split: option.split_asm if_split_asm)
  then show ?thesis by (simp add: create_grant_def split: option.split)
qed

lemma consume_grant_side: "side (snd (consume_grant w tk args d)) = side d"
proof -
  have "side (snd (transaction (consume_grant_tx w tk i a t k) d)) = side d" for i a t k
    by (rule side_tx) (auto simp: consume_grant_tx_def split: option.split_asm if_split_asm)
  then show ?thesis by (cases args) (simp add: consume_grant_def)
qed

lemma decision_side: "side (snd (record_decision w tk q d)) = side d"
proof -
  have "side (snd (transaction (record_decision_tx w tk q s) d)) = side d" for s
    by (rule side_tx) (auto simp: record_decision_tx_def Let_def split: if_split_asm)
  then show ?thesis by (simp add: record_decision_def split: option.split pyval.split)
qed

section \<open>Acceptance contracts and seals\<close>

lemma insert_contract_side: "insert_contract w c t p act d = Inr (x, d') \<Longrightarrow> side d' = side d"
  by (auto simp: insert_contract_def Let_def split: option.split_asm)

lemma create_contract_side: "side (snd (create_acceptance_contract w tk args d)) = side d"
proof -
  have "side (snd (transaction (create_contract_tx w tk r m) d1)) = side d1" for r m d1
    by (rule side_tx) (auto simp: create_contract_tx_def split_beta dest!: insert_contract_side split: option.split_asm)
  then show ?thesis by (cases args) (simp add: create_acceptance_contract_def split: sum.split)
qed

lemma propose_side: "side (snd (append_proposed_obligation w tk args d)) = side d"
proof -
  have "side (snd (transaction (propose_tx w tk i r m h) d1)) = side d1" for i r m h d1
    by (rule side_tx) (auto simp: propose_tx_def Let_def split: option.split_asm if_split_asm)
  then show ?thesis by (cases args) (simp add: append_proposed_obligation_def split: sum.split)
qed

lemma consume_amendment_side: "consume_amendment_grant w tk g h a d = Inr d' \<Longrightarrow> side d' = side d"
  by (auto simp: consume_amendment_grant_def split: option.split_asm if_split_asm)

lemma amend_side: "side (snd (amend_acceptance_contract w tk args d)) = side d"
proof -
  have "side (snd (transaction (amend_tx w tk a m g r) d1)) = side d1" for a m g r d1
    by (rule side_tx) (auto simp: amend_tx_def Let_def split_beta dest!: insert_contract_side consume_amendment_side
        split: option.split_asm if_split_asm)
  then show ?thesis by (cases args) (simp add: amend_acceptance_contract_def split: sum.split)
qed

lemma draft_side: "side (snd (create_acceptance_draft w tk args d)) = side d"
proof -
  have "side (snd (transaction (draft_tx w tk i n h m) d1)) = side d1" for i n h m d1
    by (rule side_tx) (auto simp: draft_tx_def Let_def split: option.split_asm if_split_asm)
  then show ?thesis by (cases args) (simp add: create_acceptance_draft_def split: sum.split)
qed

lemma seal_side: "side (snd (seal_acceptance_draft w tk args d)) = side d"
proof -
  have "side (snd (transaction (seal_tx w tk r i n h) d1)) = side d1" for r i n h d1
    by (rule side_tx) (auto simp: seal_tx_def Let_def split: option.split_asm if_split_asm)
  then show ?thesis by (cases args) (simp add: seal_acceptance_draft_def split: sum.split)
qed

section \<open>The frontend policy\<close>

lemma settle_review_side: "settle_review a r d = Inr d' \<Longrightarrow> side d' = side d"
  by (auto simp: settle_review_def split: option.split_asm if_split_asm)

lemma store_receipt_side: "store_receipt tk h v r d = Inr (x, d') \<Longrightarrow> side d' = side d"
  by (auto simp: store_receipt_def Let_def split: option.split_asm if_split_asm)

lemma acceptance_receipt_side: "side (snd (record_acceptance_receipt w tk args d)) = side d"
proof -
  have "side (snd (transaction (receipt_tx w tk h v r) d1)) = side d1" for h v r d1
    by (rule side_tx) (auto simp: receipt_tx_def dest!: settle_review_side store_receipt_side split: if_split_asm)
  then show ?thesis by (cases args) (simp add: record_acceptance_receipt_def split: sum.split)
qed

lemma initialize_side: "side (snd (initialize_frontend_policy w tk args d)) = side d"
proof -
  have "side (snd (transaction (initialize_tx w tk h) d1)) = side d1" for h d1
    by (rule side_tx) (auto simp: initialize_tx_def Let_def split: option.split_asm if_split_asm)
  then show ?thesis by (cases args) (simp add: initialize_frontend_policy_def)
qed

lemma bind_row_side: "bind_row tk q st p d = Inr d' \<Longrightarrow> side d' = side d"
  by (auto simp: bind_row_def split: option.split_asm if_split_asm)

lemma bind_side: "side (snd (bind_frontend_candidate w tk args d)) = side d"
proof -
  have "side (snd (transaction (bind_candidate_tx w tk q v) d1)) = side d1" for q v d1
    by (rule side_tx) (auto simp: bind_candidate_tx_def dest!: bind_row_side split: option.split_asm if_split_asm)
  then show ?thesis by (cases args) (auto simp: bind_frontend_candidate_def Let_def split: prod.split sum.split)
qed

lemma integration_side: "side (snd (record_frontend_integration w tk args d)) = side d"
proof -
  have "side (snd (transaction (integration_tx w tk h c i n p) d1)) = side d1" for h c i n p d1
    by (rule side_tx) (auto simp: integration_tx_def dest!: side_event split: option.split_asm if_split_asm)
  then show ?thesis by (cases args) (auto simp: record_frontend_integration_def split: prod.split sum.split)
qed

lemma store_checks_side: "store_checks tk a c rs d = Inr d' \<Longrightarrow> side d' = side d"
  by (induction rs arbitrary: d) (auto split: option.split_asm if_split_asm)

lemma checks_side: "side (snd (record_frontend_check_results w tk args d)) = side d"
proof -
  have "side (snd (transaction (checks_tx w tk a c rs) d1)) = side d1" for a c rs d1
    by (rule side_tx) (auto simp: checks_tx_def dest!: store_checks_side split: option.split_asm if_split_asm)
  then show ?thesis by (cases args) (simp add: record_frontend_check_results_def split: sum.split pyval.split)
qed

section \<open>The integration journal\<close>

lemma register_side: "side (snd (register_intent w tk q d)) = side d"
  unfolding register_intent_def
  by (rule side_tx) (auto simp: register_intent_tx_def Let_def split: option.split_asm if_split_asm)

lemma write_publication_side: "write_publication w tk j e d = Inr (x, d') \<Longrightarrow> side d' = side d"
  by (auto simp: write_publication_def dest!: side_event)

lemma publish_journal_side: "side (snd (publish_journal w tk args d)) = side d"
  unfolding publish_journal_def
  by (rule side_tx) (auto simp: publish_tx_def dest!: write_publication_side split: if_split_asm)

lemma publish_side: "side (snd (publish w tk args d)) = side d"
proof -
  have "side (snd (transaction (publish_observed_tx w tk k a e m) d)) = side d" for k a e m
    by (rule side_tx) (auto simp: publish_observed_tx_def dest!: write_publication_side split: option.split_asm if_split_asm)
  then show ?thesis by (cases args) (simp add: publish_def split: sum.split)
qed

lemma quarantine_side: "side (snd (quarantine w tk args d)) = side d"
  unfolding quarantine_def
  by (rule side_tx) (auto simp: quarantine_tx_def dest!: side_event split: option.split_asm if_split_asm)

lemmas policy_calls_side = create_grant_side consume_grant_side decision_side create_contract_side propose_side amend_side
  draft_side seal_side acceptance_receipt_side initialize_side bind_side integration_side checks_side register_side
  publish_journal_side publish_side quarantine_side

section \<open>The owner fence\<close>

text \<open>A transaction that only an accepted owner can commit does nothing for anyone else.\<close>

definition owners_only :: "world \<Rightarrow> owner_token \<Rightarrow> 'a tx \<Rightarrow> bool" where
  "owners_only w tk body = (\<forall>d x. body d = Inr x \<longrightarrow> assert_owner w tk d = Inr ())"

lemma owners_onlyI: "(\<And>d x d'. body d = Inr (x, d') \<Longrightarrow> assert_owner w tk d = Inr ()) \<Longrightarrow> owners_only w tk body"
  by (auto simp: owners_only_def)

lemma owners_only_refused:
  assumes "owners_only w tk body" "assert_owner w tk d \<noteq> Inr ()"
  shows "isl (fst (transaction body d))" "snd (transaction body d) = d"
  using assms by (cases "body d"; auto simp: owners_only_def transaction_def)+

lemma acceptance_owner: "acceptance_binding w tk d = Inr m \<Longrightarrow> assert_owner w tk d = Inr ()"
  by (auto simp: acceptance_binding_def dest: fence_owner)

lemma journal_owner: "journal_binding w tk k p c d = Inr m \<Longrightarrow> assert_owner w tk d = Inr ()"
  by (auto simp: journal_binding_def record_binding_def wave_binding_def split: option.split_asm)

lemma validate_journal_owner: "validate_journal w tk j a d = Inr x \<Longrightarrow> assert_owner w tk d = Inr ()"
  by (auto simp: validate_journal_def dest!: journal_owner split: pyval.split_asm option.split_asm if_split_asm)

lemma child_owner: "child_gate w tk q d = Inr x \<Longrightarrow> assert_owner w tk d = Inr ()"
  by (simp add: child_gate_def)

lemma policy_owners [simp]:
  "owners_only w tk (create_grant_tx w tk gq e)" "owners_only w tk (consume_grant_tx w tk i a t k)"
  "owners_only w tk (record_decision_tx w tk dq s)" "owners_only w tk (create_contract_tx w tk r m)"
  "owners_only w tk (propose_tx w tk i r' m' h)" "owners_only w tk (amend_tx w tk i m' g r')"
  "owners_only w tk (draft_tx w tk i n h dm)" "owners_only w tk (seal_tx w tk roots i n h)"
  "owners_only w tk (receipt_tx w tk h v rr)" "owners_only w tk (initialize_tx w tk h)"
  "owners_only w tk (bind_candidate_tx w tk cq v)" "owners_only w tk (integration_tx w tk h i ev nc pr)"
  "owners_only w tk (checks_tx w tk h i rs)" "owners_only w tk (stage_tx w tk h i v c)"
  by (rule owners_onlyI, auto simp: create_grant_tx_def consume_grant_tx_def record_decision_tx_def create_contract_tx_def
      propose_tx_def amend_tx_def draft_tx_def seal_tx_def receipt_tx_def initialize_tx_def bind_candidate_tx_def
      integration_tx_def checks_tx_def stage_tx_def dest: acceptance_owner)+

lemma journal_owners [simp]:
  "owners_only w tk (register_intent_tx w tk iq)" "owners_only w tk (publish_tx w tk j v)"
  "owners_only w tk (publish_observed_tx w tk k m e v)" "owners_only w tk (quarantine_tx w tk k k')"
  "owners_only w tk (child_tx w tk q)"
  by (rule owners_onlyI, auto simp: register_intent_tx_def publish_tx_def publish_observed_tx_def quarantine_tx_def child_tx_def
      dest!: journal_owner validate_journal_owner child_owner split: option.split_asm if_split_asm)+

lemmas tx_refused = policy_owners [THEN owners_only_refused(1)] policy_owners [THEN owners_only_refused(2)]
  journal_owners [THEN owners_only_refused(1)] journal_owners [THEN owners_only_refused(2)]

text \<open>The contract \<^const>\<open>fenced_op\<close> from the two kinds of facts above.\<close>

lemma side_reservations: "side d' = side d \<Longrightarrow> db_reservations d' = db_reservations d \<and> db_generation d' = db_generation d"
  by (simp add: side_def)

lemma fenced_side:
  assumes "\<And>w tk d e i. assert_owner w tk d = Inl e \<Longrightarrow> isl (fst (f w tk i d)) \<and> schema_ext d (snd (f w tk i d))"
    and "\<And>w tk i d. side (snd (f w tk i d)) = side d"
  shows "fenced_op f"
  by unfold_locales (use assms(1) in blast, rule side_reservations [OF assms(2)])

interpretation fenced_grant: fenced_op create_grant
  by (rule fenced_side [OF _ create_grant_side]) (auto simp: create_grant_def tx_refused split: option.split)

interpretation fenced_consume: fenced_op consume_grant
  by (rule fenced_side [OF _ consume_grant_side]) (auto simp: consume_grant_def tx_refused split: prod.split)

interpretation fenced_decision: fenced_op record_decision
  by (rule fenced_side [OF _ decision_side]) (auto simp: record_decision_def tx_refused split: option.split pyval.split)

interpretation fenced_contract: fenced_op create_acceptance_contract
  by (rule fenced_side [OF _ create_contract_side])
    (auto simp: create_acceptance_contract_def tx_refused split: prod.split sum.split)

interpretation fenced_propose: fenced_op append_proposed_obligation
  by (rule fenced_side [OF _ propose_side])
    (auto simp: append_proposed_obligation_def tx_refused split: prod.split sum.split)

interpretation fenced_amend: fenced_op amend_acceptance_contract
  by (rule fenced_side [OF _ amend_side])
    (auto simp: amend_acceptance_contract_def tx_refused split: prod.split sum.split)

interpretation fenced_draft: fenced_op create_acceptance_draft
  by (rule fenced_side [OF _ draft_side])
    (auto simp: create_acceptance_draft_def tx_refused split: prod.split sum.split)

interpretation fenced_seal: fenced_op seal_acceptance_draft
  by (rule fenced_side [OF _ seal_side])
    (auto simp: seal_acceptance_draft_def tx_refused split: prod.split sum.split)

interpretation fenced_accept: fenced_op record_acceptance_receipt
  by (rule fenced_side [OF _ acceptance_receipt_side])
    (auto simp: record_acceptance_receipt_def tx_refused split: prod.split sum.split)

interpretation fenced_initialize: fenced_op initialize_frontend_policy
  by (rule fenced_side [OF _ initialize_side])
    (auto simp: initialize_frontend_policy_def tx_refused split: prod.split)

interpretation fenced_bind: fenced_op bind_frontend_candidate
  by (rule fenced_side [OF _ bind_side])
    (auto simp: bind_frontend_candidate_def Let_def tx_refused split: prod.split sum.split)

interpretation fenced_integration: fenced_op record_frontend_integration
  by (rule fenced_side [OF _ integration_side])
    (auto simp: record_frontend_integration_def tx_refused split: prod.split sum.split)

interpretation fenced_checks: fenced_op record_frontend_check_results
  by (rule fenced_side [OF _ checks_side])
    (auto simp: record_frontend_check_results_def tx_refused split: prod.split sum.split pyval.split)

interpretation fenced_register: fenced_op register_intent
  by (rule fenced_side [OF _ register_side]) (auto simp: register_intent_def tx_refused)

interpretation fenced_publish_journal: fenced_op publish_journal
  by (rule fenced_side [OF _ publish_journal_side]) (auto simp: publish_journal_def tx_refused)

interpretation fenced_publish: fenced_op publish
  by (rule fenced_side [OF _ publish_side]) (auto simp: publish_def tx_refused split: prod.split sum.split)

interpretation fenced_quarantine: fenced_op quarantine
  by (rule fenced_side [OF _ quarantine_side]) (auto simp: quarantine_def tx_refused)

section \<open>Stage transitions and child activities\<close>

lemma preserves_side:
  assumes "launch_ok d" "preserves d d1" "side d' = side d1" shows "preserves d d'"
proof -
  have same: "db_intents d' = db_intents d1" "db_activities d' = db_activities d1" "db_debits d' = db_debits d1"
    "db_bindings d' = db_bindings d1" "db_accounting d' = db_accounting d1" "db_limits d' = db_limits d1"
    using assms(3) by (simp_all add: side_def)
  have "launch_ok d1" using assms(2) by (simp add: preserves_def)
  from moved_preserves [OF this intents_same] have "launch_ok d'" using same by (simp add: preserves_def)
  then show ?thesis using assms(2) unfolding preserves_def intents_step_def same by blast
qed

lemma side_preserves: "launch_ok d \<Longrightarrow> side d' = side d \<Longrightarrow> preserves d d'"
  by (rule preserves_side [OF _ preserves_refl])

lemma side_budgets: "side d' = side d \<Longrightarrow> db_budgets d' = db_budgets d"
  by (simp add: side_def)

text \<open>The end of the root activity, if the new stage ends it.\<close>

lemma finish_root_Inr:
  assumes "finish_root w tk new receipt d = Inr d'"
  shows "d' = d \<or> (\<exists>t r. transition_activity_tx w tk t d = Inr (r, d'))"
  using assms by (auto simp: finish_root_def split: option.split_asm if_split_asm)

lemma refuse_if_Inr: "(if c then own_refuse e else x) = Inr y \<longleftrightarrow> \<not> c \<and> x = Inr y"
  by simp

lemma stage_tx_Inr:
  assumes "stage_tx w tk expected new decision c d = Inr (r, d')"
  obtains st d1 v where "policy_state_of tk d = Some st" "ps_stage st = expected"
    "d' = update_state tk (\<lambda>s. s\<lparr>ps_stage := new, ps_decision := v\<rparr>) d1"
    "d1 = d \<or> (\<exists>t r. transition_activity_tx w tk t d = Inr (r, d1))"
proof -
  from assms obtain st d1 where *: "policy_state_of tk d = Some st" "ps_stage st = expected"
    "(if new \<in> set ending_stages then \<exists>receipt. finish_root w tk new receipt d = Inr d1 else d1 = d)"
    "d' = update_state tk (\<lambda>s. s\<lparr>ps_stage := new, ps_decision := (if decision = PNone then None else Some (sort_keys decision))\<rparr>) d1"
    unfolding stage_tx_def Let_def bindR_eq_Inr case_option_refuse refuse_if_Inr by (elim exE conjE) (auto split: if_split_asm)
  have "d1 = d \<or> (\<exists>t r. transition_activity_tx w tk t d = Inr (r, d1))"
    using *(3) by (cases "new \<in> set ending_stages") (auto dest: finish_root_Inr)
  from that [OF *(1,2,4) this] show ?thesis .
qed

lemma transition_tx_budgets:
  assumes "transition_activity_tx w tk t d = Inr (r, d')"
  shows "db_budgets d' = db_budgets d" "db_reservations d' = db_reservations d" "db_generation d' = db_generation d"
  by (rule transition_tx_Inr [OF assms], simp only: add_event_sel update_activity_sel revoke_intents_sel)+

lemma stage_preserves: "launch_ok d \<Longrightarrow> preserves d (snd (transition_frontend_policy w tk args d))"
proof -
  have tx: "preserves d (snd (transaction (stage_tx w tk e n v c) d))" if "launch_ok d" for e n v c d
  proof (rule tx_preserves [OF that])
    fix r d' assume "stage_tx w tk e n v c d = Inr (r, d')"
    then show "preserves d d'"
    proof (cases rule: stage_tx_Inr)
      case (1 st d1 v)
      have "preserves d d1" using 1(4) preserves_refl [OF that] transition_tx_preserves [OF that] by blast
      then show ?thesis by (rule preserves_side [OF that]) (simp add: 1(3))
    qed
  qed
  assume ok: "launch_ok d"
  have ok': "launch_ok (install_policy d)" using side_preserves [OF ok, of "install_policy d"] by (simp add: preserves_def)
  have same: "preserves d (install_policy d)" by (rule side_preserves [OF ok]) simp
  have "preserves d (snd (transaction (stage_tx w tk e n v c) (install_policy d)))" for e n v c
    by (rule preserves_trans_core [OF _ ok tx [OF ok']]) (simp add: core_frame_def)
  then show "preserves d (snd (transition_frontend_policy w tk args d))"
    using same preserves_refl [OF ok]
    by (cases args) (auto simp: transition_frontend_policy_def simp del: bindR_eq_Inr split: sum.split)
qed

lemma stage_budget_frame:
  "(db_budgets (snd (transition_frontend_policy w tk args d)), db_reservations (snd (transition_frontend_policy w tk args d)),
    db_generation (snd (transition_frontend_policy w tk args d))) = (db_budgets d, db_reservations d, db_generation d)"
proof -
  have "(db_budgets (snd (transaction (stage_tx w tk e n v c) d)), db_reservations (snd (transaction (stage_tx w tk e n v c) d)),
      db_generation (snd (transaction (stage_tx w tk e n v c) d))) = (db_budgets d, db_reservations d, db_generation d)" for e n v c d
  proof (cases rule: transaction_cases [of "stage_tx w tk e n v c" d])
    case (committed r d')
    from committed(1) show ?thesis
    proof (cases rule: stage_tx_Inr)
      case (1 st d1 v)
      have "(db_budgets d1, db_reservations d1, db_generation d1) = (db_budgets d, db_reservations d, db_generation d)"
        using 1(4) transition_tx_budgets by fastforce
      then show ?thesis using committed(2) 1(3) by (simp add: update_state_def tables_update_def)
    qed
  qed simp
  then show ?thesis by (cases args) (simp add: transition_frontend_policy_def split: sum.split)
qed

interpretation fenced_stage: fenced_op transition_frontend_policy
proof
  fix w tk d e i assume "assert_owner w tk d = Inl e"
  then show "isl (fst (transition_frontend_policy w tk i d)) \<and> schema_ext d (snd (transition_frontend_policy w tk i d))"
    by (auto simp: transition_frontend_policy_def tx_refused split: prod.split sum.split)
next
  fix w tk i d
  show "db_reservations (snd (transition_frontend_policy w tk i d)) = db_reservations d
      \<and> db_generation (snd (transition_frontend_policy w tk i d)) = db_generation d"
    using stage_budget_frame [of w tk i d] by simp
qed

text \<open>A child is appended together with its binding.\<close>

lemma child_tx_Inr:
  assumes "child_tx w tk q d = Inr (r, d')"
  obtains "d' = d" | i where "insert_activity (new_child tk q i d) d = Inr (d\<lparr>db_activities := db_activities d @ [new_child tk q i d]\<rparr>)"
    "\<forall>x \<in> set (db_bindings d). cb_activity x \<noteq> i"
    "d' = d\<lparr>db_activities := db_activities d @ [new_child tk q i d], db_bindings := db_bindings d @ [new_binding q i]\<rparr>"
proof -
  from assms have "d' = d \<or> (\<exists>i. insert_row activity_clash (new_child tk q i d) (db_activities d) = Inr (db_activities d @ [new_child tk q i d])
      \<and> insert_row (\<lambda>r x. cb_activity x = cb_activity r) (new_binding q i) (db_bindings d) = Inr (db_bindings d @ [new_binding q i])
      \<and> d' = d\<lparr>db_activities := db_activities d @ [new_child tk q i d], db_bindings := db_bindings d @ [new_binding q i]\<rparr>)"
    unfolding child_tx_def Let_def insert_activity_def bindR_eq_Inr
    by (elim exE conjE) (auto simp: refuse_if_Inr split: option.split_asm)
  then show ?thesis using that by (auto simp: insert_activity_def new_binding_def)
qed

lemma child_tx_preserves:
  assumes ok: "launch_ok d" and run: "child_tx w tk q d = Inr (r, d')" and budget: "0 \<le> int_of (ch_budget q)"
  shows "preserves d d'"
  using run
proof (cases rule: child_tx_Inr)
  case 1 then show ?thesis using preserves_refl [OF ok] by simp
next
  case (2 i)
  let ?r = "new_child tk q i d"
  have run_iff: "same_run x ?r \<longleftrightarrow> run_activity tk x" for x by (auto simp: same_run_def run_activity_def new_child_def new_activity_def)
  have r: "ac_id ?r = i" "ac_revision ?r = next_revision tk d" "ac_remaining ?r = ac_retry_budget ?r" "0 \<le> ac_remaining ?r"
    using budget by (simp_all add: new_child_def new_activity_def)
  have fresh: "ac_id x \<noteq> i" if "x \<in> set (db_activities d)" for x
    using 2(1) that r(1) by (auto simp: insert_activity_def activity_clash_def)
  have top: "is_top d' x = is_top d x" if "x \<in> set (db_activities d)" for x
    using fresh [OF that] by (auto simp: is_top_def bound_child_def 2(3) new_binding_def)
  have bound: "\<not> is_top d' ?r" by (simp add: is_top_def bound_child_def 2(3) new_binding_def r(1))
  have "activities_ok d'"
    by (rule append_row_ok [of d d' ?r])
      (use launch_okD(1) [OF ok] fresh r next_revision_gt [of _ d tk] top bound in \<open>simp_all add: run_iff 2(3)\<close>)
  moreover have kept: "activities_kept d d'" by (auto simp: activities_kept_def same_run_def 2(3))
  moreover have same: "intents_step d d'" by (rule intents_same) (simp add: 2(3))
  moreover have "ledger_ok d'"
    by (rule ledger_quiet [OF _ _ same kept]) (use ok in \<open>simp_all add: launch_ok_def 2(3)\<close>)
  moreover have "intents_ok d'" using intents_step_ok [OF same] ok by (simp add: launch_ok_def)
  ultimately show ?thesis by (auto simp: preserves_def launch_ok_def 2(3))
qed

lemma child_preserves: "launch_ok d \<Longrightarrow> preserves d (snd (create_child_activity w tk q d))"
proof -
  assume ok: "launch_ok d"
  have ok': "launch_ok (install_context d)" using side_preserves [OF ok, of "install_context d"] by (simp add: preserves_def)
  have "preserves d (snd (transaction (child_tx w tk q) (install_context d)))" if "0 \<le> int_of (ch_budget q)"
    by (rule preserves_trans_core [OF _ ok tx_preserves [OF ok' child_tx_preserves [OF ok' _ that]]]) (simp_all add: core_frame_def)
  then show "preserves d (snd (create_child_activity w tk q d))"
    using preserves_refl [OF ok]
    by (auto simp: create_child_activity_def valid_child_def valid_nonnegative_integer_def split: pyval.split_asm)
qed

lemma child_frame:
  "(db_budgets (snd (create_child_activity w tk q d)), db_reservations (snd (create_child_activity w tk q d)),
    db_generation (snd (create_child_activity w tk q d)), kept (snd (create_child_activity w tk q d)))
   = (db_budgets d, db_reservations d, db_generation d, kept d)"
proof -
  have "(db_budgets (snd (transaction (child_tx w tk q) d)), db_reservations (snd (transaction (child_tx w tk q) d)),
      db_generation (snd (transaction (child_tx w tk q) d)), kept (snd (transaction (child_tx w tk q) d)))
      = (db_budgets d, db_reservations d, db_generation d, kept d)" for d
  proof (cases rule: transaction_cases [of "child_tx w tk q" d])
    case (committed r d')
    from committed(1) show ?thesis
      by (cases rule: child_tx_Inr) (simp_all add: committed(2) kept_def)
  qed simp
  then show ?thesis by (simp add: create_child_activity_def)
qed

interpretation fenced_child: fenced_op create_child_activity
proof
  fix w tk d e i assume "assert_owner w tk d = Inl e"
  then show "isl (fst (create_child_activity w tk i d)) \<and> schema_ext d (snd (create_child_activity w tk i d))"
    by (simp add: create_child_activity_def tx_refused)
next
  fix w tk i d
  show "db_reservations (snd (create_child_activity w tk i d)) = db_reservations d
      \<and> db_generation (snd (create_child_activity w tk i d)) = db_generation d"
    using child_frame [of w tk i d] by simp
qed

end
