(* ===== verification/Policy_Refine.thy ===== *)
theory Policy_Refine
  imports Policy_Machine Policy_Frames
begin

text \<open>
  The calls of the grants, acceptance, frontend policy and journal components refine the machine of
  \<^theory_text>\<open>Policy_Machine\<close>: on the tables \<open>kept\<close> of the store every call makes at most one \<open>change\<close>.
\<close>

lemma kept_tables [simp]:
  "kept (d\<lparr>db_tables := e\<rparr>) = (e, db_grants d, db_decisions d)"
  "kept (d\<lparr>db_grants := gs\<rparr>) = (db_tables d, gs, db_decisions d)"
  "kept (d\<lparr>db_decisions := ds\<rparr>) = (db_tables d, db_grants d, ds)"
  "kept (tables_update f d) = (f (db_tables d), db_grants d, db_decisions d)"
  "kept (complete_review a r d) = kept d"
  by (simp_all add: kept_def tables_update_def complete_review_def)

lemma change_tx: "(\<And>x d'. body d = Inr (x, d') \<Longrightarrow> change (kept d) (kept d')) \<Longrightarrow> change (kept d) (kept (snd (transaction body d)))"
  by (cases rule: transaction_cases [of body d]) (auto intro: idle)

lemma change_same: "kept d' = kept d \<Longrightarrow> change (kept d) (kept d')"
  by (simp add: idle)

lemma kept_eq: "kept d = (db_tables d, db_grants d, db_decisions d)"
  by (simp add: kept_def)

section \<open>Grants and decisions\<close>

lemma new_grant_unused [simp]: "\<not> gr_consumed (new_grant w tk q)"
  by (simp add: new_grant_def)

lemma create_grant_change: "change (kept d) (kept (snd (create_grant w tk q d)))"
proof -
  have "change (kept d) (kept (snd (transaction (create_grant_tx w tk q e) d)))" for e
    by (rule change_tx)
      (auto simp: create_grant_tx_def kept_eq intro!: idle grant_created split: option.split_asm if_split_asm)
  then show ?thesis by (auto simp: create_grant_def idle split: option.split)
qed

lemma consume_grant_change: "change (kept d) (kept (snd (consume_grant w tk args d)))"
proof -
  have "change (kept d) (kept (snd (transaction (consume_grant_tx w tk i a t k) d)))" for i a t k
    by (rule change_tx)
      (auto simp: consume_grant_tx_def kept_eq grant_by_id_def dest!: find_Some_in intro: idle grant_consumed
        split: option.split_asm if_split_asm)
  then show ?thesis by (cases args) (simp add: consume_grant_def)
qed

lemma new_decision_sel [simp]: "de_repo (new_decision w tk q s) = tk_repo tk" "de_run (new_decision w tk q s) = tk_run tk"
  "de_dependencies (new_decision w tk q s) = map str_of (dq_dependencies q)"
  by (simp_all add: new_decision_def)

lemma decision_change: "change (kept d) (kept (snd (record_decision w tk q d)))"
proof -
  have "change (kept d) (kept d')" if run: "record_decision_tx w tk q s d = Inr (r, d')" for s r d'
  proof -
    from run have deps: "set (map str_of (dq_dependencies q)) \<subseteq> set (map de_id (run_decisions (tk_repo tk) (tk_run tk) d))"
      and fresh: "\<forall>x \<in> set (db_decisions d). de_id x \<noteq> de_id (new_decision w tk q s)"
      and k: "kept d' = (db_tables d, db_grants d, db_decisions d @ [new_decision w tk q s])"
      by (auto simp: record_decision_tx_def Let_def split: if_split_asm)
    show ?thesis unfolding k kept_eq [of d]
      by (rule decided) (use deps fresh in \<open>simp_all add: run_decisions_def image_iff eq_commute\<close>)
  qed
  then show ?thesis by (auto simp: record_decision_def idle intro!: change_tx split: option.split pyval.split)
qed

section \<open>Acceptance contracts\<close>

lemma insert_contract_Inr:
  assumes "insert_contract w c t p act d = Inr (x, d')"
  obtains e where "\<forall>y \<in> set (ex_contracts (db_tables d)). \<not> contract_clash c y"
    "act ((db_tables d)\<lparr>ex_contracts := ex_contracts (db_tables d) @ [c]\<rparr>) = Inr e"
    "kept d' = (e, db_grants d, db_decisions d)"
  using assms by (auto simp: insert_contract_def Let_def split: option.split_asm)

lemma latest_contract_newest:
  assumes "latest_contract repo run d = Some c" shows "newest c (db_tables d) \<and> ct_repo c = repo \<and> ct_run c = run"
  using find_Some_in [OF assms [unfolded latest_contract_def Let_def]]
  by (auto simp: run_contracts_def newest_def same_contract_def list_all_iff)

lemma latest_contract_None: "latest_contract repo run d = None \<Longrightarrow> x \<in> set (ex_contracts (db_tables d)) \<Longrightarrow> (ct_repo x, ct_run x) \<noteq> (repo, run)"
proof
  assume none: "latest_contract repo run d = None" and x: "x \<in> set (ex_contracts (db_tables d))" "(ct_repo x, ct_run x) = (repo, run)"
  let ?rows = "set (run_contracts repo run d)"
  let ?m = "Max (ct_generation ` ?rows)"
  have "x \<in> ?rows" using x by (simp add: run_contracts_def)
  then have "?m \<in> ct_generation ` ?rows" by (intro Max_in) auto
  then obtain c where c: "c \<in> ?rows" "ct_generation c = ?m" by auto
  then have "\<forall>y \<in> ?rows. ct_generation y \<le> ct_generation c" by simp
  with c(1) have c: "c \<in> ?rows" "\<forall>y \<in> ?rows. ct_generation y \<le> ct_generation c" by simp_all
  show False using none c unfolding latest_contract_def Let_def find_None_all by (auto simp: list_all_iff)
qed

lemma create_contract_change: "change (kept d) (kept (snd (create_acceptance_contract w tk args d)))"
proof -
  have "change (kept d1) (kept d')" if run: "create_contract_tx w tk r m d1 = Inr (c, d')" for r m d1 c d'
  proof -
    from run obtain x h mh where none: "latest_contract (tk_repo tk) (tk_run tk) d1 = None"
      and ins: "insert_contract w \<lparr>ct_repo = tk_repo tk, ct_run = tk_run tk, ct_generation = 1, ct_hash = h, ct_parent = None,
           ct_material = x, ct_material_hash = mh, ct_requirements = r, ct_active = [],
           ct_amendment_id = None, ct_amendment = None\<rparr> ''acceptance_contract_created'' [] Inr d1 = Inr (c, d')"
      by (auto simp: create_contract_tx_def split: option.split_asm)
    from ins show ?thesis
    proof (rule insert_contract_Inr)
      fix e assume "Inr ((db_tables d1)\<lparr>ex_contracts := ex_contracts (db_tables d1) @ [\<lparr>ct_repo = tk_repo tk, ct_run = tk_run tk,
          ct_generation = 1, ct_hash = h, ct_parent = None, ct_material = x, ct_material_hash = mh, ct_requirements = r,
          ct_active = [], ct_amendment_id = None, ct_amendment = None\<rparr>]\<rparr>) = (Inr e :: extension res)"
        and k: "kept d' = (e, db_grants d1, db_decisions d1)"
      then show ?thesis
        using latest_contract_None [OF none] unfolding k kept_eq [of d1]
        by (auto intro!: contract_created simp: first_contract_def same_contract_def)
    qed
  qed
  then have "change (kept d1) (kept (snd (transaction (create_contract_tx w tk r m) d1)))" for r m d1 by (intro change_tx)
  from this [of "install_context d"] show ?thesis
    by (cases args) (auto simp: create_acceptance_contract_def idle split: sum.split)
qed

lemma contract_from_row_same: "contract_from_row w c = Inr c' \<Longrightarrow> c' = c"
  by (auto simp: contract_from_row_def split: if_split_asm prod.split_asm)

lemma obligation_from_row_same: "obligation_from_row w x = Inr x' \<Longrightarrow> x' = x"
  by (auto simp: obligation_from_row_def split: if_split_asm prod.split_asm)

lemma current_contract_newest:
  "current_contract w tk d = Inr c \<Longrightarrow> newest c (db_tables d) \<and> ct_repo c = tk_repo tk \<and> ct_run c = tk_run tk"
  by (auto simp: current_contract_def dest!: contract_from_row_same latest_contract_newest split: option.split_asm)

lemma propose_change: "change (kept d) (kept (snd (append_proposed_obligation w tk args d)))"
proof -
  have "change (kept d1) (kept d')" if run: "propose_tx w tk i r m h d1 = Inr (x, d')" for i r m h d1 x d'
  proof -
    from run obtain c where c: "current_contract w tk d1 = Inr c"
      and none: "obligation_of (tk_repo tk) (tk_run tk) i (db_tables d1) = None"
      and k: "kept d' = ((db_tables d1)\<lparr>ex_obligations := ex_obligations (db_tables d1) @
        [\<lparr>ob_repo = tk_repo tk, ob_run = tk_run tk, ob_id = i, ob_material = json_column m, ob_material_hash = h,
          ob_requirements = r, ob_status = ''proposed'', ob_created = ct_generation c, ob_activated = None\<rparr>]\<rparr>,
        db_grants d1, db_decisions d1)"
      by (auto simp: propose_tx_def Let_def split: option.split_asm if_split_asm)
    show ?thesis unfolding k kept_eq [of d1]
      by (rule proposed [of _ _ c]) (use none current_contract_newest [OF c] in \<open>auto simp: newest_def\<close>)
  qed
  then have "change (kept d1) (kept (snd (transaction (propose_tx w tk i r m h) d1)))" for i r m h d1 by (intro change_tx)
  from this [of "install_context d"] show ?thesis
    by (cases args) (auto simp: append_proposed_obligation_def idle split: sum.split)
qed

section \<open>Amendments\<close>

lemma consume_amendment_Inr:
  assumes "consume_amendment_grant w tk i h aid d = Inr d1"
  obtains g where "g \<in> set (db_grants d)" "gr_repo g = tk_repo tk" "gr_run g = tk_run tk" "gr_action g = ''acceptance-amend''"
    "gr_target g = h" "\<not> gr_consumed g"
    "d1 = d\<lparr>db_grants := update_where (\<lambda>x. gr_id x = gr_id g \<and> \<not> gr_consumed x) (mark_consumed (amendment_key aid)) (db_grants d)\<rparr>"
proof -
  from assms obtain g where "grant_by_id (str_of i) d = Some g" "gr_repo g = tk_repo tk" "gr_run g = tk_run tk"
    "gr_action g = ''acceptance-amend''" "gr_target g = h" "\<not> gr_consumed g"
    "d1 = d\<lparr>db_grants := update_where (\<lambda>x. gr_id x = gr_id g \<and> \<not> gr_consumed x) (mark_consumed (amendment_key aid)) (db_grants d)\<rparr>"
    by (auto simp: consume_amendment_grant_def split: option.split_asm if_split_asm)
  with that show ?thesis by (auto simp: grant_by_id_def dest: find_Some_in)
qed

lemma eligible_Inr:
  "eligible_proposals w tk accepted e is = Inr u \<Longrightarrow> i \<in> set is \<Longrightarrow>
     \<exists>x. obligation_of (tk_repo tk) (tk_run tk) i e = Some x \<and> ob_status x = ''proposed''
       \<and> ob_requirements x \<noteq> [] \<and> set (ob_requirements x) \<subseteq> set accepted"
proof (induction "is")
  case (Cons j js)
  from Cons.prems(1) obtain x x' where x: "obligation_of (tk_repo tk) (tk_run tk) j e = Some x" "obligation_from_row w x = Inr x'"
    "ob_status x' \<noteq> ''active''" "ob_requirements x' \<noteq> []" "set (ob_requirements x') \<subseteq> set accepted"
    "eligible_proposals w tk accepted e js = Inr u"
    by (auto split: option.split_asm if_split_asm)
  have same: "x' = x" by (rule obligation_from_row_same [OF x(2)])
  have "obligation_status_ok x" using x(2) by (auto simp: obligation_from_row_def split: if_split_asm prod.split_asm)
  then have "ob_status x = ''proposed''" using x(3) same by (auto simp: obligation_status_ok_def split: if_split_asm)
  then show ?case using Cons.IH [OF x(6)] Cons.prems(2) x same by auto
qed simp

lemma activate_proposals_map:
  "activate_proposals tk n is e = Inr e' \<Longrightarrow> e' = e\<lparr>ex_obligations := map (\<lambda>x. if ob_repo x = tk_repo tk \<and> ob_run x = tk_run tk
     \<and> ob_id x \<in> set is \<and> ob_status x = ''proposed'' then activate_row n x else x) (ex_obligations e)\<rparr>"
proof (induction "is" arbitrary: e)
  case (Cons i "is")
  from Cons.prems have rest: "activate_proposals tk n is (e\<lparr>ex_obligations := update_where (proposed_row tk i) (activate_row n) (ex_obligations e)\<rparr>) = Inr e'"
    by (simp split: if_split_asm)
  have rows: "map (\<lambda>x. if ob_repo x = tk_repo tk \<and> ob_run x = tk_run tk \<and> ob_id x \<in> set is \<and> ob_status x = ''proposed''
        then activate_row n x else x) (update_where (proposed_row tk i) (activate_row n) xs)
      = map (\<lambda>x. if ob_repo x = tk_repo tk \<and> ob_run x = tk_run tk \<and> ob_id x \<in> set (i # is) \<and> ob_status x = ''proposed''
        then activate_row n x else x) xs" for xs
    unfolding update_where_def map_map o_def by (intro map_cong refl) (auto simp: proposed_row_def activate_row_def)
  show ?case unfolding Cons.IH [OF rest] by (simp add: rows)
qed simp

lemma contract_material_hash:
  "contract_from_row w c = Inr c' \<Longrightarrow> acceptance_json w CONTRACT_CORRUPT (PDict (ct_material c)) = Inr (m, j, mh) \<Longrightarrow> ct_material_hash c = mh"
  by (auto simp: contract_from_row_def split: if_split_asm)

lemma amend_tx_change:
  assumes run: "amend_tx w tk aid am i requested d = Inr (x, d')" shows "change (kept d) (kept d')"
proof -
  let ?repo = "tk_repo tk" and ?run = "tk_run tk"
  from run obtain c d1 m j mh h where c: "current_contract w tk d = Inr c"
    and none: "List.find (\<lambda>x. ct_amendment_id x = Some aid) (run_contracts ?repo ?run d) = None"
    and grant: "consume_amendment_grant w tk i (ct_hash c) aid d = Inr d1"
    and fresh: "\<not> list_ex (\<lambda>i. i \<in> set (ct_active c)) requested"
    and ready: "eligible_proposals w tk (ct_requirements c) (db_tables d1) requested = Inr ()"
    and json: "acceptance_json w CONTRACT_CORRUPT (PDict (ct_material c)) = Inr (m, j, mh)"
    and ins: "insert_contract w \<lparr>ct_repo = ?repo, ct_run = ?run, ct_generation = ct_generation c + 1, ct_hash = h, ct_parent = Some (ct_hash c),
        ct_material = json_column m, ct_material_hash = mh, ct_requirements = ct_requirements c,
        ct_active = sort (remdups (ct_active c @ requested)), ct_amendment_id = Some aid, ct_amendment = Some (json_column am)\<rparr>
      ''acceptance_contract_amended'' [(''parent_contract_hash'', PStr (ct_hash c)), (''activated_obligation_ids'', PList (map PStr requested))]
      (activate_proposals tk (ct_generation c + 1) requested) d1 = Inr (x, d')"
    unfolding amend_tx_def Let_def bindR_eq_Inr refuse_if_Inr
    by (elim exE conjE) (auto simp: refuse_if_Inr split: option.split_asm prod.split_asm if_split_asm)
  note new = current_contract_newest [OF c]
  obtain g where g: "g \<in> set (db_grants d)" "gr_repo g = ?repo" "gr_run g = ?run" "gr_action g = ''acceptance-amend''"
    "gr_target g = ct_hash c" "\<not> gr_consumed g"
    "d1 = d\<lparr>db_grants := update_where (\<lambda>x. gr_id x = gr_id g \<and> \<not> gr_consumed x) (mark_consumed (amendment_key aid)) (db_grants d)\<rparr>"
    by (rule consume_amendment_Inr [OF grant])
  have mh: "ct_material_hash c = mh"
    using c contract_material_hash [OF _ json] by (auto simp: current_contract_def dest: contract_from_row_same split: option.split_asm)
  from ins show ?thesis
  proof (rule insert_contract_Inr)
    fix e
    let ?c = "\<lparr>ct_repo = ?repo, ct_run = ?run, ct_generation = ct_generation c + 1, ct_hash = h, ct_parent = Some (ct_hash c),
        ct_material = json_column m, ct_material_hash = mh, ct_requirements = ct_requirements c,
        ct_active = sort (remdups (ct_active c @ requested)), ct_amendment_id = Some aid, ct_amendment = Some (json_column am)\<rparr>"
    assume act: "activate_proposals tk (ct_generation c + 1) requested ((db_tables d1)\<lparr>ex_contracts := ex_contracts (db_tables d1) @ [?c]\<rparr>) = Inr e"
      and k: "kept d' = (e, db_grants d1, db_decisions d1)"
    have e: "e = (db_tables d)\<lparr>ex_contracts := ex_contracts (db_tables d) @ [?c],
        ex_obligations := activated c requested (ex_obligations (db_tables d))\<rparr>"
      using activate_proposals_map [OF act] new by (simp add: g(7) activated_def)
    have succ: "successor c aid requested ?c (db_tables d)"
      using new mh none by (auto simp: successor_def same_contract_def find_None_all run_contracts_def)
    have elig: "eligible c requested (db_tables d)"
      using eligible_Inr [OF ready] fresh new by (auto simp: eligible_def list_ex_iff g(7))
    have "amends c aid g" using g new by (simp add: amends_def)
    from amended [OF succ elig g(1) this g(6), of "db_decisions d"] show ?thesis
      unfolding k kept_eq [of d] e by (simp add: g(7))
  qed
qed

lemma amend_change: "change (kept d) (kept (snd (amend_acceptance_contract w tk args d)))"
proof -
  have "change (kept d1) (kept (snd (transaction (amend_tx w tk aid am i requested) d1)))" for aid am i requested d1
    by (intro change_tx) (rule amend_tx_change)
  from this [of "install_context d"] show ?thesis
    by (cases args) (auto simp: amend_acceptance_contract_def idle split: sum.split)
qed

section \<open>Drafts, seals and receipts\<close>

lemma draft_change: "change (kept d) (kept (snd (create_acceptance_draft w tk args d)))"
proof -
  have "change (kept d1) (kept (snd (transaction (draft_tx w tk i n h m) d1)))" for i n h m d1
    by (rule change_tx)
      (auto simp: draft_tx_def Let_def kept_eq [of d1] intro!: idle drafted split: option.split_asm if_split_asm)
  from this [of "install_context d"] show ?thesis
    by (cases args) (auto simp: create_acceptance_draft_def idle split: sum.split)
qed

lemma draft_from_row_core:
  assumes "draft_from_row w r = Inr r'"
  shows "(dr_repo r', dr_run r', dr_id r', dr_revision r', dr_hash r', dr_generation r', dr_contract r')
    = (dr_repo r, dr_run r, dr_id r, dr_revision r, dr_hash r, dr_generation r, dr_contract r)"
  using assms by (auto simp: draft_from_row_def split: if_split_asm)

lemma new_seal_sealed:
  assumes "dr_repo r = tk_repo tk" "dr_run r = tk_run tk" "ct_repo c = tk_repo tk" "ct_run c = tk_run tk"
    and "draft_from_row w r = Inr r'" "dr_generation r' = ct_generation c" "dr_contract r' = ct_hash c"
  shows "sealed_from (new_seal w tk r' c d) r c"
  using assms draft_from_row_core [OF assms(5)] by (simp add: sealed_from_def new_seal_def Let_def)

lemma seal_tx_change:
  assumes run: "seal_tx w tk roots i n h d = Inr (x, d')" shows "change (kept d) (kept d')"
proof -
  from run obtain r r' where draft: "draft_at (tk_repo tk) (tk_run tk) i n d = Some r" and row: "draft_from_row w r = Inr r'"
    and rest: "d' = d \<or> (\<exists>c. current_contract w tk d = Inr c \<and> dr_generation r' = ct_generation c \<and> dr_contract r' = ct_hash c
      \<and> (\<forall>y \<in> set (ex_seals (db_tables d)). \<not> seal_clash (new_seal w tk r' c d) y)
      \<and> kept d' = ((db_tables d)\<lparr>ex_seals := ex_seals (db_tables d) @ [new_seal w tk r' c d]\<rparr>, db_grants d, db_decisions d))"
    unfolding seal_tx_def Let_def bindR_eq_Inr case_option_refuse refuse_if_Inr
    by (elim exE conjE) (auto simp: refuse_if_Inr split: option.split_asm)
  from draft have r: "r \<in> set (ex_drafts (db_tables d))" "dr_repo r = tk_repo tk" "dr_run r = tk_run tk"
    by (auto simp: draft_at_def dest: find_Some_in)
  from rest show ?thesis
  proof
    assume "\<exists>c. current_contract w tk d = Inr c \<and> dr_generation r' = ct_generation c \<and> dr_contract r' = ct_hash c
      \<and> (\<forall>y \<in> set (ex_seals (db_tables d)). \<not> seal_clash (new_seal w tk r' c d) y)
      \<and> kept d' = ((db_tables d)\<lparr>ex_seals := ex_seals (db_tables d) @ [new_seal w tk r' c d]\<rparr>, db_grants d, db_decisions d)"
    then obtain c where c: "current_contract w tk d = Inr c" "dr_generation r' = ct_generation c" "dr_contract r' = ct_hash c"
      "\<forall>y \<in> set (ex_seals (db_tables d)). \<not> seal_clash (new_seal w tk r' c d) y"
      "kept d' = ((db_tables d)\<lparr>ex_seals := ex_seals (db_tables d) @ [new_seal w tk r' c d]\<rparr>, db_grants d, db_decisions d)" by blast
    from current_contract_newest [OF c(1)] have new: "newest c (db_tables d)" "ct_repo c = tk_repo tk" "ct_run c = tk_run tk" by simp_all
    show ?thesis unfolding c(5) kept_eq [of d]
      by (rule sealed [OF c(4) r(1) new(1) new_seal_sealed [OF r(2,3) new(2,3) row c(2,3)]])
  qed (simp add: idle)
qed

lemma seal_change: "change (kept d) (kept (snd (seal_acceptance_draft w tk args d)))"
proof -
  have "change (kept d1) (kept (snd (transaction (seal_tx w tk roots i n h) d1)))" for roots i n h d1
    by (intro change_tx) (rule seal_tx_change)
  from this [of "install_context d"] show ?thesis
    by (cases args) (auto simp: seal_acceptance_draft_def idle split: sum.split)
qed

lemma seal_by_hash_in:
  "seal_by_hash tk h d = Some s \<Longrightarrow> s \<in> set (ex_seals (db_tables d)) \<and> se_repo s = tk_repo tk \<and> se_run s = tk_run tk \<and> se_hash s = h"
  by (auto simp: seal_by_hash_def run_seals_def dest!: find_Some_in)

lemma seal_from_row_core:
  assumes "seal_from_row w s = Inr s'"
  shows "(se_repo s', se_run s', se_hash s', se_generation s', se_contract_generation s', se_contract s')
    = (se_repo s, se_run s, se_hash s, se_generation s, se_contract_generation s, se_contract s)"
  using assms by (auto simp: seal_from_row_def split: if_split_asm)

lemma settle_review_kept: "settle_review a r d = Inr d' \<Longrightarrow> kept d' = kept d"
  by (auto simp: settle_review_def split: option.split_asm if_split_asm)

lemma store_receipt_change:
  assumes run: "store_receipt tk h v r d = Inr (x, d')"
    and s: "s \<in> set (ex_seals (db_tables d))" "(se_repo s, se_run s, se_hash s) = (tk_repo tk, tk_run tk, h)"
  shows "change (kept d) (kept d')"
proof (cases "receipt_of tk (rr_receipt_hash r) d")
  case None
  let ?n = "\<lparr>ar_repo = tk_repo tk, ar_run = tk_run tk, ar_acceptance = h, ar_hash = rr_receipt_hash r,
      ar_receipt = json_column (dict_of v)\<rparr>"
  from run None have n: "\<forall>y \<in> set (ex_receipts (db_tables d)). \<not> receipt_clash ?n y"
    and k: "kept d' = ((db_tables d)\<lparr>ex_receipts := ex_receipts (db_tables d) @ [?n]\<rparr>, db_grants d, db_decisions d)"
    by (auto simp: store_receipt_def Let_def)
  show ?thesis unfolding k kept_eq [of d] by (rule received [OF n s(1)]) (use s(2) in simp)
qed (use run in \<open>auto simp: store_receipt_def idle split: if_split_asm\<close>)

lemma receipt_tx_change:
  assumes run: "receipt_tx w tk h v r d = Inr (x, d')" shows "change (kept d) (kept d')"
proof -
  from run obtain s s' act d1 where s: "seal_by_hash tk h d = Some s" "seal_from_row w s = Inr s'"
    and settle: "settle_review act r d = Inr d1" and store: "store_receipt tk (se_hash s') v r d1 = Inr (x, d')"
    unfolding receipt_tx_def Let_def bindR_eq_Inr case_option_refuse refuse_if_Inr by blast
  note k = settle_review_kept [OF settle]
  have "change (kept d1) (kept d')"
    by (rule store_receipt_change [OF store, of s])
      (use seal_by_hash_in [OF s(1)] seal_from_row_core [OF s(2)] k in \<open>simp_all add: kept_eq\<close>)
  then show ?thesis using k by simp
qed

lemma acceptance_receipt_change: "change (kept d) (kept (snd (record_acceptance_receipt w tk args d)))"
proof -
  have "change (kept d1) (kept (snd (transaction (receipt_tx w tk h v r) d1)))" for h v r d1
    by (intro change_tx) (rule receipt_tx_change)
  from this [of "install_context d"] show ?thesis
    by (cases args) (auto simp: record_acceptance_receipt_def idle split: sum.split)
qed

section \<open>The frontend policy\<close>

lemma policy_state_of_run: "policy_state_of tk d = List.find (of_run (tk_repo tk) (tk_run tk)) (ex_states (db_tables d))"
  by (simp add: policy_state_of_def of_run_def [abs_def])

lemma kept_update_state:
  "kept (update_state tk f d) = ((db_tables d)\<lparr>ex_states := update_where (of_run (tk_repo tk) (tk_run tk)) f (ex_states (db_tables d))\<rparr>,
     db_grants d, db_decisions d)"
  by (simp add: update_state_def of_run_def [abs_def])

lemma initialize_tx_change:
  assumes run: "initialize_tx w tk h d = Inr (x, d')" shows "change (kept d) (kept d')"
proof (cases "policy_state_of tk d")
  case None
  from run None obtain s s' n where s: "seal_by_hash tk h d = Some s" "seal_from_row w s = Inr s'"
    and n: "n = \<lparr>ps_repo = tk_repo tk, ps_run = tk_run tk, ps_acceptance = h, ps_stage = ''SEALED'',
        ps_candidate = str_of (dict_get (se_material s') ''candidate_hash''), ps_generation = se_contract_generation s', ps_decision = None\<rparr>"
      "\<forall>y \<in> set (ex_states (db_tables d)). \<not> state_clash n y"
    and k: "kept d' = ((db_tables d)\<lparr>ex_states := ex_states (db_tables d) @ [n]\<rparr>, db_grants d, db_decisions d)"
    by (auto simp: initialize_tx_def Let_def split: option.split_asm)
  show ?thesis unfolding k kept_eq [of d]
    by (rule initialized [of _ n s])
      (use seal_by_hash_in [OF s(1)] seal_from_row_core [OF s(2)] n in \<open>simp_all add: seal_of_state_def\<close>)
next
  case (Some st)
  from run Some have "d' = d" unfolding initialize_tx_def bindR_eq_Inr case_option_refuse by (auto split: if_split_asm)
  then show ?thesis by (simp add: idle)
qed

lemma initialize_change: "change (kept d) (kept (snd (initialize_frontend_policy w tk args d)))"
proof -
  have "change (kept d1) (kept (snd (transaction (initialize_tx w tk h) d1)))" for h d1
    by (intro change_tx) (rule initialize_tx_change)
  from this [of "install_policy d"] show ?thesis
    by (cases args) (auto simp: initialize_frontend_policy_def idle)
qed

text \<open>The candidate row is there afterwards, on the contract of the current state.\<close>

lemma bind_row_Inr:
  assumes "bind_row tk q st p d = Inr d'" and "ps_acceptance st = bq_acceptance q"
  obtains rows where "kept d' = ((db_tables d)\<lparr>ex_candidates := rows\<rparr>, db_grants d, db_decisions d)"
    "rows = ex_candidates (db_tables d) \<or> (\<exists>c. rows = ex_candidates (db_tables d) @ [c]
       \<and> (\<forall>x \<in> set (ex_candidates (db_tables d)). \<not> candidate_clash c x)
       \<and> (cd_repo c, cd_run c, cd_acceptance c, cd_parent c, cd_generation c)
          = (tk_repo tk, tk_run tk, ps_acceptance st, Some (ps_candidate st), ps_generation st))"
    "bq_candidate q \<in> cd_candidate ` {c \<in> set rows. (cd_repo c, cd_run c, cd_acceptance c, cd_generation c)
       = (tk_repo tk, tk_run tk, ps_acceptance st, ps_generation st)}"
proof (cases "candidate_of tk (bq_acceptance q) (bq_candidate q) d")
  case (Some c)
  from find_Some_in [OF Some [unfolded candidate_of_def]] assms Some show ?thesis
    by (intro that [of "ex_candidates (db_tables d)"]) (auto simp: bind_row_def kept_eq image_iff split: if_split_asm)
next
  case None
  let ?c = "\<lparr>cd_repo = tk_repo tk, cd_run = tk_run tk, cd_acceptance = bq_acceptance q, cd_candidate = bq_candidate q,
      cd_receipt = bq_receipt q, cd_parent = Some (ps_candidate st), cd_generation = ps_generation st\<rparr>"
  from assms(1) None have c: "\<forall>x \<in> set (ex_candidates (db_tables d)). \<not> candidate_clash ?c x"
    and k: "kept d' = ((db_tables d)\<lparr>ex_candidates := ex_candidates (db_tables d) @ [?c]\<rparr>, db_grants d, db_decisions d)"
    by (auto simp: bind_row_def opt_of_str_def split: if_split_asm)
  have "bq_candidate q \<in> cd_candidate ` {x \<in> set (ex_candidates (db_tables d) @ [?c]).
      (cd_repo x, cd_run x, cd_acceptance x, cd_generation x) = (tk_repo tk, tk_run tk, ps_acceptance st, ps_generation st)}"
    by (rule image_eqI [of _ _ ?c]) (use assms(2) in simp_all)
  then show ?thesis by (intro that [OF k]) (use c assms(2) in simp_all)
qed

lemma bind_candidate_tx_change:
  assumes run: "bind_candidate_tx w tk q before d = Inr (x, d')" shows "change (kept d) (kept d')"
proof -
  from run obtain st p d1 where st: "policy_state_of tk d = Some st" "ps_acceptance st = bq_acceptance q"
    and row: "bind_row tk q st p d = Inr d1" and d': "d' = update_state tk (\<lambda>s. s\<lparr>ps_candidate := bq_candidate q\<rparr>) d1"
    by (auto simp: bind_candidate_tx_def split: option.split_asm if_split_asm)
  from row st(2) show ?thesis
  proof (rule bind_row_Inr)
    fix rows assume k: "kept d1 = ((db_tables d)\<lparr>ex_candidates := rows\<rparr>, db_grants d, db_decisions d)"
    assume rows: "rows = ex_candidates (db_tables d) \<or> (\<exists>c. rows = ex_candidates (db_tables d) @ [c]
       \<and> (\<forall>x \<in> set (ex_candidates (db_tables d)). \<not> candidate_clash c x)
       \<and> (cd_repo c, cd_run c, cd_acceptance c, cd_parent c, cd_generation c)
          = (tk_repo tk, tk_run tk, ps_acceptance st, Some (ps_candidate st), ps_generation st))"
      and h: "bq_candidate q \<in> cd_candidate ` {c \<in> set rows. (cd_repo c, cd_run c, cd_acceptance c, cd_generation c)
       = (tk_repo tk, tk_run tk, ps_acceptance st, ps_generation st)}"
    from candidate_bound [OF st(1) [unfolded policy_state_of_run] rows h, of "db_grants d" "db_decisions d"] show ?thesis
      using k unfolding d' kept_update_state kept_eq [of d] kept_eq [of d1] by simp
  qed
qed

lemma bind_change: "change (kept d) (kept (snd (bind_frontend_candidate w tk args d)))"
proof -
  have "change (kept d1) (kept (snd (transaction (bind_candidate_tx w tk q v) d1)))" for q v d1
    by (intro change_tx) (rule bind_candidate_tx_change)
  from this [of "install_policy d"] show ?thesis
    by (cases args) (auto simp: bind_frontend_candidate_def Let_def idle split: prod.split sum.split)
qed

lemma integration_change: "change (kept d) (kept (snd (record_frontend_integration w tk args d)))"
proof -
  have "kept (snd (transaction (integration_tx w tk h c i n p) d1)) = kept d1" for h c i n p d1
    by (rule kept_tx) (auto simp: integration_tx_def dest!: record_event_kept split: option.split_asm if_split_asm)
  then have "kept (snd (record_frontend_integration w tk args d)) = kept d"
    by (cases args) (auto simp: record_frontend_integration_def split: prod.split sum.split)
  then show ?thesis by (rule change_same)
qed

lemma store_checks_Inr:
  assumes "store_checks tk a c rs d = Inr d'"
  shows "\<exists>cs. kept d' = ((db_tables d)\<lparr>ex_checks := ex_checks (db_tables d) @ cs\<rparr>, db_grants d, db_decisions d)
     \<and> distinct (map check_key cs) \<and> check_key ` set cs \<inter> check_key ` set (ex_checks (db_tables d)) = {}"
  using assms
proof (induction rs arbitrary: d)
  case Nil then show ?case by (intro exI [of _ "[]"]) (simp add: kept_eq)
next
  case (Cons r rs)
  show ?case
  proof (cases "check_of tk a c (fst r) d")
    case (Some x) then show ?thesis using Cons by (auto split: if_split_asm)
  next
    case None
    let ?d = "tables_update (\<lambda>e. e\<lparr>ex_checks := ex_checks e @ [new_check tk a c r]\<rparr>) d"
    from Cons.prems None have rest: "store_checks tk a c rs ?d = Inr d'" by auto
    have new: "check_key (new_check tk a c r) \<notin> check_key ` set (ex_checks (db_tables d))"
      using None by (auto simp: check_of_def find_None_all check_key_def new_check_def)
    from Cons.IH [OF rest] obtain cs where cs: "kept d' = ((db_tables ?d)\<lparr>ex_checks := ex_checks (db_tables ?d) @ cs\<rparr>, db_grants ?d, db_decisions ?d)"
      "distinct (map check_key cs)" "check_key ` set cs \<inter> check_key ` set (ex_checks (db_tables ?d)) = {}" by blast
    show ?thesis
      by (rule exI [of _ "new_check tk a c r # cs"]) (use cs new in \<open>auto simp: tables_update_def\<close>)
  qed
qed

lemma checks_change: "change (kept d) (kept (snd (record_frontend_check_results w tk args d)))"
proof -
  have "change (kept d1) (kept d')" if run: "checks_tx w tk a c rs d1 = Inr (x, d')" for a c rs d1 x d'
  proof -
    from run have "store_checks tk a c rs d1 = Inr d'" by (auto simp: checks_tx_def split: option.split_asm if_split_asm)
    from store_checks_Inr [OF this] obtain cs where
      cs: "kept d' = ((db_tables d1)\<lparr>ex_checks := ex_checks (db_tables d1) @ cs\<rparr>, db_grants d1, db_decisions d1)"
        "distinct (map check_key cs)" "check_key ` set cs \<inter> check_key ` set (ex_checks (db_tables d1)) = {}" by blast
    show ?thesis unfolding cs(1) kept_eq [of d1] by (rule checked [OF cs(2,3)])
  qed
  then have "change (kept d1) (kept (snd (transaction (checks_tx w tk a c rs) d1)))" for a c rs d1 by (intro change_tx)
  from this [of "install_policy d"] show ?thesis
    by (cases args) (auto simp: record_frontend_check_results_def idle split: sum.split pyval.split)
qed

text \<open>A stage transition ends the root activity and moves the stage.\<close>

lemma stage_tx_change:
  assumes run: "stage_tx w tk e n v c d = Inr (x, d')" and move: "stage_move e n" shows "change (kept d) (kept d')"
  using run
proof (cases rule: stage_tx_Inr)
  case (1 st d1 v)
  have k: "kept d1 = kept d" using 1(4) transition_kept by blast
  have "kept d' = ((db_tables d)\<lparr>ex_states := update_where (of_run (tk_repo tk) (tk_run tk)) (\<lambda>s. s\<lparr>ps_stage := n, ps_decision := v\<rparr>)
      (ex_states (db_tables d))\<rparr>, db_grants d, db_decisions d)"
    using k unfolding 1(3) kept_update_state kept_eq [of d] kept_eq [of d1] by simp
  then show ?thesis
    using staged [OF 1(1) [unfolded policy_state_of_run], of n "db_grants d" "db_decisions d"] move 1(2) by (simp add: kept_eq [of d])
qed

lemma stage_change: "change (kept d) (kept (snd (transition_frontend_policy w tk args d)))"
proof -
  have "change (kept d1) (kept (snd (transaction (stage_tx w tk e n v c) d1)))" if "stage_move e n" for e n v c d1
    by (intro change_tx) (rule stage_tx_change [OF _ that])
  from this [of _ _ "install_policy d"] show ?thesis
    by (cases args) (auto simp: transition_frontend_policy_def idle split: sum.split)
qed

section \<open>The integration journal\<close>

lemma kept_update_journal:
  "kept (update_journal tk k f d) = ((db_tables d)\<lparr>ex_journals := update_where
     (\<lambda>j. jr_repo j = tk_repo tk \<and> jr_run j = tk_run tk \<and> jr_wave j = k) f (ex_journals (db_tables d))\<rparr>, db_grants d, db_decisions d)"
  by (simp add: update_journal_def)

lemma find_filter: "List.find P (filter Q xs) = List.find (\<lambda>x. Q x \<and> P x) xs"
  by (induction xs) auto

lemma journal_of_wave:
  assumes "journal_of tk k d = Some j"
  shows "same_wave j = (\<lambda>x. jr_repo x = tk_repo tk \<and> jr_run x = tk_run tk \<and> jr_wave x = k)"
    and "List.find (same_wave j) (ex_journals (db_tables d)) = Some j"
proof -
  have f: "List.find (\<lambda>x. (jr_repo x = tk_repo tk \<and> jr_run x = tk_run tk) \<and> jr_wave x = k) (ex_journals (db_tables d)) = Some j"
    using assms by (simp add: journal_of_def run_journals_def find_filter)
  from find_Some_in [OF f] show w: "same_wave j = (\<lambda>x. jr_repo x = tk_repo tk \<and> jr_run x = tk_run tk \<and> jr_wave x = k)"
    by (auto simp: same_wave_def fun_eq_iff)
  show "List.find (same_wave j) (ex_journals (db_tables d)) = Some j" using f by (simp add: w conj_assoc)
qed

lemma update_journal_change:
  assumes "journal_of tk k d = Some j" "moves_journal j (f j)" shows "change (kept d) (kept (update_journal tk k f d))"
  using journaled [of j _ f, OF journal_of_wave(2) [OF assms(1)] assms(2), of "db_grants d" "db_decisions d"]
  unfolding kept_update_journal journal_of_wave(1) [OF assms(1)] kept_eq [of d] .

lemma register_change: "change (kept d) (kept (snd (register_intent w tk q d)))"
  unfolding register_intent_def
proof (rule change_tx)
  fix x d' assume run: "register_intent_tx w tk q d = Inr (x, d')"
  then obtain b a m where settled: "\<exists>u. assert_settled (iq_preparation q) (Some (iq_wave q)) d = Inr u"
    and rest: "(case journal_of tk (iq_wave q) d of
        Some j \<Rightarrow> if json_dumps (jr_contract j) \<noteq> json_dumps (intent_contract m b a (iq_bindings q)) \<or> jr_preparation j \<noteq> iq_preparation q
            then own_refuse ''WAVE_INTEGRATION_CONFLICT'' else Inr (j, d)
      | None \<Rightarrow> let row = new_journal w tk (iq_wave q) (iq_preparation q) m (intent_contract m b a (iq_bindings q)) in
          bindR (insert_row journal_clash row (ex_journals (db_tables d))) (\<lambda>rows.
          Inr (row, tables_update (\<lambda>e. e\<lparr>ex_journals := rows\<rparr>) d))) = Inr (x, d')"
    unfolding register_intent_tx_def Let_def bindR_eq_Inr refuse_if_Inr raise_if_Inr
    by (elim exE conjE) blast
  show "change (kept d) (kept d')"
  proof (cases "journal_of tk (iq_wave q) d")
    case None
    let ?j = "new_journal w tk (iq_wave q) (iq_preparation q) m (intent_contract m b a (iq_bindings q))"
    from rest None have n: "\<forall>x \<in> set (ex_journals (db_tables d)). \<not> journal_clash ?j x"
      and k: "kept d' = ((db_tables d)\<lparr>ex_journals := ex_journals (db_tables d) @ [?j]\<rparr>, db_grants d, db_decisions d)"
      by (auto simp: Let_def)
    show ?thesis unfolding k kept_eq [of d]
      by (rule registered [OF n]) (use settled in \<open>auto simp: new_journal_def assert_settled_def list_ex_iff split: if_split_asm\<close>)
  qed (use rest in \<open>simp add: idle split: if_split_asm\<close>)
qed

lemma write_publication_change:
  assumes "write_publication w tk j e d = Inr (x, d')" "journal_of tk (jr_wave j) d = Some j" "jr_state j \<noteq> ''quarantined''"
  shows "change (kept d) (kept d')"
proof -
  from assms(1) have "kept d' = kept (update_journal tk (jr_wave j) (publish_row tk e) d)"
    by (auto simp: write_publication_def dest: record_event_kept)
  moreover have "moves_journal j (publish_row tk e j)"
    using assms(3) by (auto simp: moves_journal_def publish_row_def journal_core_def)
  ultimately show ?thesis using update_journal_change [OF assms(2)] by simp
qed

lemma validate_journal_of:
  assumes "validate_journal w tk m a d = Inr j"
  shows "journal_of tk (jr_wave j) d = Some j \<and> jr_state j \<noteq> ''quarantined''"
proof -
  from assms obtain k where k: "journal_of tk k d = Some j" "jr_state j \<noteq> ''quarantined''"
    by (auto simp: validate_journal_def split: pyval.split_asm option.split_asm if_split_asm)
  from k(1) have "jr_wave j = k" by (auto simp: journal_of_def dest: find_Some_in)
  with k show ?thesis by simp
qed

lemma publish_journal_change: "change (kept d) (kept (snd (publish_journal w tk args d)))"
  unfolding publish_journal_def
proof (rule change_tx)
  fix x d' assume "publish_tx w tk (fst args) (snd args) d = Inr (x, d')"
  then obtain j e where "validate_journal w tk (fst args) (snd args) d = Inr j" "write_publication w tk j e d = Inr ((), d')"
    by (auto simp: publish_tx_def split: if_split_asm)
  with validate_journal_of [OF this(1)] show "change (kept d) (kept d')" by (intro write_publication_change) auto
qed

lemma publish_change: "change (kept d) (kept (snd (publish w tk args d)))"
proof -
  have "change (kept d) (kept d')" if run: "publish_observed_tx w tk k a e m d = Inr (x, d')" for k a e m x d'
  proof -
    from run obtain j where j: "journal_of tk k d = Some j" "jr_state j \<noteq> ''quarantined''"
      and rest: "d' = d \<or> write_publication w tk j (PDict e) d = Inr ((), d')"
      unfolding publish_observed_tx_def bindR_eq_Inr case_option_refuse refuse_if_Inr
      by (elim exE conjE) (auto split: if_split_asm)
    from j(1) have "jr_wave j = k" by (auto simp: journal_of_def dest: find_Some_in)
    with rest j show ?thesis by (auto simp: idle intro: write_publication_change)
  qed
  then have "change (kept d) (kept (snd (transaction (publish_observed_tx w tk k a e m) d)))" for k a e m by (intro change_tx)
  then show ?thesis by (cases args) (auto simp: publish_def idle split: sum.split)
qed

lemma quarantine_change: "change (kept d) (kept (snd (quarantine w tk args d)))"
  unfolding quarantine_def
proof (rule change_tx)
  fix x d' assume run: "quarantine_tx w tk (fst args) (snd args) d = Inr (x, d')"
  then obtain j where j: "journal_of tk (fst args) d = Some j" "jr_state j \<noteq> ''published''"
    and k: "kept d' = kept (update_journal tk (fst args) (\<lambda>j. j\<lparr>jr_state := ''quarantined''\<rparr>) d)"
    unfolding quarantine_tx_def bindR_eq_Inr case_option_refuse refuse_if_Inr
    by (elim exE conjE) (auto dest: record_event_kept)
  have "moves_journal j (j\<lparr>jr_state := ''quarantined''\<rparr>)" using j(2) by (auto simp: moves_journal_def journal_core_def)
  from update_journal_change [OF j(1), of "\<lambda>j. j\<lparr>jr_state := ''quarantined''\<rparr>", OF this] show "change (kept d) (kept d')" by (simp add: k)
qed

lemma child_change: "change (kept d) (kept (snd (create_child_activity w tk q d)))"
  by (rule change_same) (use child_frame [of w tk q d] in simp)

lemmas policy_calls_change = create_grant_change consume_grant_change decision_change create_contract_change propose_change
  amend_change draft_change seal_change acceptance_receipt_change initialize_change bind_change integration_change checks_change
  stage_change register_change publish_journal_change publish_change quarantine_change child_change

section \<open>All calls\<close>

inductive policy_call :: "db \<Rightarrow> db \<Rightarrow> bool" where
  grant: "policy_call d (snd (create_grant w tk gq d))"
| consume: "policy_call d (snd (consume_grant w tk ga d))"
| decision: "policy_call d (snd (record_decision w tk dq d))"
| contract: "policy_call d (snd (create_acceptance_contract w tk ca d))"
| propose: "policy_call d (snd (append_proposed_obligation w tk oa d))"
| amend: "policy_call d (snd (amend_acceptance_contract w tk aa d))"
| draft: "policy_call d (snd (create_acceptance_draft w tk da d))"
| seal: "policy_call d (snd (seal_acceptance_draft w tk sa d))"
| receive: "policy_call d (snd (record_acceptance_receipt w tk ra d))"
| initialize: "policy_call d (snd (initialize_frontend_policy w tk ia d))"
| bind_candidate: "policy_call d (snd (bind_frontend_candidate w tk ba d))"
| integrate: "policy_call d (snd (record_frontend_integration w tk fa d))"
| check: "policy_call d (snd (record_frontend_check_results w tk ka d))"
| transit_stage: "policy_call d (snd (transition_frontend_policy w tk ta d))"
| register_wave: "policy_call d (snd (register_intent w tk jq d))"
| publish_wave: "policy_call d (snd (publish_journal w tk ja d))"
| publish_observed: "policy_call d (snd (publish w tk va d))"
| quarantine_wave: "policy_call d (snd (quarantine w tk qa d))"
| child: "policy_call d (snd (create_child_activity w tk ch d))"

lemma policy_call_change: "policy_call d d' \<Longrightarrow> change (kept d) (kept d')"
  by (erule policy_call.cases) (simp_all add: policy_calls_change)

lemma policy_call_preserves: "policy_call d d' \<Longrightarrow> launch_ok d \<Longrightarrow> preserves d d'"
  by (erule policy_call.cases)
    (simp_all add: policy_calls_side side_preserves stage_preserves child_preserves)

lemma stage_budgets: "db_budgets (snd (transition_frontend_policy w tk args d)) = db_budgets d"
  and child_budgets: "db_budgets (snd (create_child_activity w tk q d)) = db_budgets d"
  using stage_budget_frame [of w tk args d] child_frame [of w tk q d] by simp_all

lemma policy_call_budgets: "policy_call d d' \<Longrightarrow> db_budgets d' = db_budgets d"
  by (erule policy_call.cases) (simp_all add: policy_calls_side [THEN side_budgets] stage_budgets child_budgets)

text \<open>Tables that only code outside the modelled calls writes.\<close>

definition outside_step :: "db \<Rightarrow> db \<Rightarrow> bool" where
  "outside_step d d' = (\<exists>cx mg rc ql rq ws ls fs. d' = d\<lparr>db_context := cx, db_migration := mg,
     db_receipts := rc, db_qualified := ql,
     db_tables := (db_tables d)\<lparr>ex_requests := rq, ex_workspaces := ws, ex_locals := ls, ex_findings := fs\<rparr>\<rparr>)"

lemma outside_change: "outside_step d d' \<Longrightarrow> change (kept d) (kept d')"
  unfolding outside_step_def by (auto simp: kept_def intro: outside)

lemma outside_same:
  "outside_step d d' \<Longrightarrow> (db_intents d', db_activities d', db_accounting d', db_limits d', db_debits d', db_bindings d', db_budgets d')
     = (db_intents d, db_activities d, db_accounting d, db_limits d, db_debits d, db_bindings d, db_budgets d)"
  unfolding outside_step_def by auto

lemma outside_budgets: "outside_step d d' \<Longrightarrow> db_budgets d' = db_budgets d"
  using outside_same by blast

lemma outside_preserves: "launch_ok d \<Longrightarrow> outside_step d d' \<Longrightarrow> preserves d d'"
  by (rule moved_preserves) (use outside_same in \<open>auto simp: intents_same\<close>)

end
