(* ===== verification/Cohorts.thy ===== *)
theory Cohorts
  imports Frontend
begin

text \<open>
  Launch cohorts (\<open>ControlStore\<close>, \<open>lib/run_state/state.py\<close>): several launches of a managed run that are
  reserved together, acknowledged one by one and released together, and the acknowledgement of a child
  that a monitor process started. The validator of the runtime receipts is an argument. What a call reads
  before or after its write transaction is an explicit database; the clock of the \<open>k\<close>-th member is the
  clock of the environment from its \<open>k\<close>-th sample on.
\<close>

section \<open>Requests\<close>

record cohort_request =
  mr_activity :: string
  mr_key :: string
  mr_payload :: pydict
  mr_text :: string
  mr_text_hash :: string
  mr_tokens :: int
  mr_receipt :: string
  mr_input :: string

definition cohort_fields :: "string list" where
  "cohort_fields = [''activity_id'', ''request_key'', ''request_payload'', ''token_reservation'',
     ''runtime_receipt_sha256'', ''managed_input_sha256'']"

definition cohort_item :: "world \<Rightarrow> pyval \<Rightarrow> cohort_request res" where
  "cohort_item w v =
     (case v of
        PDict m \<Rightarrow>
          if \<not> dict_has_keys m cohort_fields then own_refuse ''INVALID_COHORT_REQUEST''
          else if \<not> nonempty_str (dict_get m ''activity_id'') \<or> \<not> nonempty_str (dict_get m ''request_key'')
            \<or> \<not> is_dict (dict_get m ''request_payload'') \<or> \<not> valid_nonnegative_integer (dict_get m ''token_reservation'')
            \<or> \<not> lower_digest (dict_get m ''runtime_receipt_sha256'') \<or> \<not> lower_digest (dict_get m ''managed_input_sha256'')
          then own_refuse ''INVALID_COHORT_REQUEST''
          else if \<not> json_encodable (dict_get m ''request_payload'') then own_refuse ''INVALID_COHORT_REQUEST''
          else let text = json_dumps (dict_get m ''request_payload'') in
            Inr \<lparr>mr_activity = str_of (dict_get m ''activity_id''), mr_key = str_of (dict_get m ''request_key''),
              mr_payload = dict_of (dict_get m ''request_payload''), mr_text = text, mr_text_hash = w_sha256 w text,
              mr_tokens = int_of (dict_get m ''token_reservation''), mr_receipt = str_of (dict_get m ''runtime_receipt_sha256''),
              mr_input = str_of (dict_get m ''managed_input_sha256'')\<rparr>
      | _ \<Rightarrow> own_refuse ''INVALID_COHORT_REQUEST'')"

definition item_material :: "cohort_request \<Rightarrow> pyval" where
  "item_material x = PDict [(''activity_id'', PStr (mr_activity x)), (''request_key'', PStr (mr_key x)),
     (''request_payload'', PDict (mr_payload x)), (''token_reservation'', PInt (mr_tokens x)),
     (''runtime_receipt_sha256'', PStr (mr_receipt x)), (''managed_input_sha256'', PStr (mr_input x))]"

text \<open>The request keys are distinct, so that they alone decide the order.\<close>

definition normalize_cohort_requests :: "world \<Rightarrow> pyval list \<Rightarrow> (cohort_request list \<times> string) res" where
  "normalize_cohort_requests w members =
     (if members = [] then own_refuse ''EMPTY_LAUNCH_COHORT''
      else bindR (mapR (cohort_item w) members) (\<lambda>items.
        if \<not> distinct (map mr_activity items) \<or> \<not> distinct (map mr_key items) then own_refuse ''COHORT_MEMBERSHIP_CONFLICT''
        else let sorted = sort_key mr_key items in
          Inr (sorted, w_sha256 w (json_dumps (PList (map item_material sorted))))))"

section \<open>Rows\<close>

definition cohort_by_id :: "string \<Rightarrow> db \<Rightarrow> cohort option" where
  "cohort_by_id cid d = List.find (\<lambda>c. co_id c = cid) (db_cohorts d)"

definition cohort_members :: "string \<Rightarrow> db \<Rightarrow> cohort_member list" where
  "cohort_members cid d = sort_key cm_ordinal (filter (\<lambda>m. cm_cohort m = cid) (db_members d))"

definition cohort_clash :: "cohort \<Rightarrow> cohort \<Rightarrow> bool" where
  "cohort_clash r x = (co_id x = co_id r \<or> (co_repo x = co_repo r \<and> co_run x = co_run r \<and> co_key x = co_key r))"

definition member_clash :: "cohort_member \<Rightarrow> cohort_member \<Rightarrow> bool" where
  "member_clash r x = (cm_intent x = cm_intent r \<or> (cm_cohort x = cm_cohort r \<and>
     (cm_ordinal x = cm_ordinal r \<or> cm_activity x = cm_activity r \<or> cm_key x = cm_key r)))"

text \<open>
  The returned cohort. The columns of the member come first in the join, so that the identity of the child
  is the one of the member.
\<close>

record launch_cohort =
  lo_id :: string
  lo_key :: string
  lo_state :: string
  lo_members :: "intent list"
  lo_reused :: bool

definition joined_intent :: "db \<Rightarrow> cohort_member \<Rightarrow> intent option" where
  "joined_intent d m = map_option (\<lambda>i. i\<lparr>in_child := cm_child m\<rparr>) (intent_of (cm_intent m) d)"

definition launch_cohort_of :: "cohort \<Rightarrow> bool \<Rightarrow> db \<Rightarrow> launch_cohort res" where
  "launch_cohort_of c reused d =
     (let rows = List.map_filter (joined_intent d) (cohort_members (co_id c) d) in
      if int (length rows) \<noteq> co_count c then own_refuse ''COHORT_BINDING_UNKNOWN''
      else Inr \<lparr>lo_id = co_id c, lo_key = co_key c, lo_state = co_state c, lo_members = rows, lo_reused = reused\<rparr>)"

section \<open>Reserving a cohort\<close>

record cohort_args =
  ca_key :: pyval
  ca_members :: "pyval list"
  ca_guard :: "db \<Rightarrow> unit res"
  ca_actions :: pyval
  ca_receipt :: "db \<Rightarrow> activity \<Rightarrow> cohort_request \<Rightarrow> unit res"

definition valid_actions :: "cohort_request list \<Rightarrow> pyval \<Rightarrow> bool" where
  "valid_actions items v =
     (case v of
        PNone \<Rightarrow> True
      | PDict m \<Rightarrow> dict_has_keys m (map mr_key items) \<and> list_all (\<lambda>kv. nonempty_str (snd kv)) m
      | _ \<Rightarrow> False)"

definition request_columns :: "cohort_request \<Rightarrow> string \<times> string \<times> string \<times> string \<times> int \<times> string \<times> string" where
  "request_columns x = (mr_activity x, mr_key x, mr_text x, mr_text_hash x, mr_tokens x, mr_receipt x, mr_input x)"

definition member_columns :: "cohort_member \<Rightarrow> string \<times> string \<times> string \<times> string \<times> int \<times> string \<times> string" where
  "member_columns m = (cm_activity m, cm_key m, cm_payload m, cm_payload_hash m, cm_tokens m, cm_receipt m, cm_input m)"

definition replay_cohort :: "owner_token \<Rightarrow> cohort \<Rightarrow> cohort_request list \<Rightarrow> string \<Rightarrow> db \<Rightarrow> launch_cohort res" where
  "replay_cohort tk c items h d =
     (if co_generation c \<noteq> tk_generation tk then own_refuse ''COHORT_RECONCILIATION_REQUIRED''
      else if co_membership c \<noteq> h \<or> co_count c \<noteq> int (length items)
        \<or> map member_columns (cohort_members (co_id c) d) \<noteq> map request_columns items
      then own_refuse ''COHORT_MEMBERSHIP_CONFLICT''
      else launch_cohort_of c True d)"

definition cohort_tokens :: "cohort_request list \<Rightarrow> int" where
  "cohort_tokens items = sum_list (map mr_tokens items)"

definition cohort_allowance :: "owner_token \<Rightarrow> cohort_request list \<Rightarrow> db \<Rightarrow> run_limits \<Rightarrow> unit res" where
  "cohort_allowance tk items d l =
     (if rl_dispatch_used l > rl_dispatch_limit l - int (length items) then own_refuse ''DISPATCH_LIMIT_EXHAUSTED''
      else if cohort_tokens items > rl_token_limit l - rl_committed l then own_refuse ''TOKEN_LIMIT_EXHAUSTED''
      else bindR (effective_worker_capacity tk d l) (\<lambda>cap.
        if int (active_capacity_launch_count tk d) > cap - int (length items) then own_refuse ''WORKER_CAPACITY_EXHAUSTED''
        else Inr ()))"

definition member_gate ::
  "world \<Rightarrow> owner_token \<Rightarrow> (db \<Rightarrow> activity \<Rightarrow> cohort_request \<Rightarrow> unit res) \<Rightarrow> db \<Rightarrow> cohort_request \<Rightarrow> unit res"
where
  "member_gate w tk receipt d x =
     bindR (assert_activity_binding w tk (mr_activity x) d) (\<lambda>act.
     if ac_state act \<in> set terminal_states then own_refuse ''ACTIVITY_TERMINAL''
     else bindR (assert_activity_ancestry tk d (mr_activity x)) (\<lambda>_.
     if ac_runtime act = None then own_refuse ''RUNTIME_REQUIRED''
     else if ac_remaining act \<le> 0 then own_refuse ''BUDGET_EXHAUSTED''
     else if active_intents (mr_activity x) d \<noteq> [] then own_refuse ''COHORT_RECONCILIATION_REQUIRED''
     else if event_key_of (mr_activity x) (request_event_key (mr_key x)) d \<noteq> None then own_refuse ''IDEMPOTENCY_CONFLICT''
     else receipt d act x))"

text \<open>The clock samples from the \<open>n\<close>-th on.\<close>

definition later :: "nat \<Rightarrow> world \<Rightarrow> world" where
  "later n w = w\<lparr>w_clock := (\<lambda>k. w_clock w (k + n))\<rparr>"

definition action_argument :: "cohort_request \<Rightarrow> pyval \<Rightarrow> string option" where
  "action_argument x v = (case v of PDict m \<Rightarrow> str_option (dict_get m (mr_key x)) | _ \<Rightarrow> None)"

definition new_member :: "string \<Rightarrow> nat \<Rightarrow> string \<Rightarrow> cohort_request \<Rightarrow> cohort_member" where
  "new_member cid n i x = \<lparr>cm_cohort = cid, cm_ordinal = n, cm_intent = i, cm_activity = mr_activity x, cm_key = mr_key x,
     cm_payload = mr_text x, cm_payload_hash = mr_text_hash x, cm_tokens = mr_tokens x, cm_receipt = mr_receipt x,
     cm_input = mr_input x, cm_ack = None, cm_child = None\<rparr>"

definition cohort_dispatch :: "string \<Rightarrow> string \<Rightarrow> cohort_request \<Rightarrow> pyval" where
  "cohort_dispatch cid i x = PDict [(''intent_id'', PStr i), (''token_reservation'', PInt (mr_tokens x)),
     (''capacity_exempt'', PBool False), (''request'', PDict (mr_payload x)), (''runtime_receipt_sha256'', PStr (mr_receipt x)),
     (''managed_input_sha256'', PStr (mr_input x)), (''cohort_id'', PStr cid)]"

definition bind_member :: "world \<Rightarrow> owner_token \<Rightarrow> pyval \<Rightarrow> string \<Rightarrow> cohort_request \<Rightarrow> db \<Rightarrow> db res" where
  "bind_member w tk actions i x d =
     (if \<not> db_policy_installed d then Inr d
      else policy_bind_launch_tx w tk \<lparr>lb_action = action_argument x actions, lb_intent = i, lb_request = Some (mr_key x),
        lb_input = Some (mr_text_hash x), lb_expected = Some ''execute''\<rparr> d)"

definition write_member :: "world \<Rightarrow> owner_token \<Rightarrow> string \<Rightarrow> pyval \<Rightarrow> nat \<Rightarrow> cohort_request \<Rightarrow> db \<Rightarrow> db res" where
  "write_member w tk cid actions n x d =
     (let i = w_uuid w (n + 1); a = mr_activity x;
          d1 = update_activity a (\<lambda>y. y\<lparr>ac_remaining := ac_remaining y - 1\<rparr>) d in
      bindR (insert_row intent_clash (new_intent tk i a False d) (db_intents d1)) (\<lambda>intents.
      let d2 = d1\<lparr>db_intents := intents\<rparr> in
      bindR (insert_row (\<lambda>r y. la_intent y = la_intent r) (accounting_row tk i (mr_tokens x)) (db_accounting d2)) (\<lambda>rows.
      bindR (bind_member (later n w) tk actions i x (d2\<lparr>db_accounting := rows\<rparr>)) (\<lambda>d3.
      bindR (insert_row member_clash (new_member cid n i x) (db_members d3)) (\<lambda>members.
      bindR (record_event_once_tx w tk a (request_event_key (mr_key x)) (cohort_dispatch cid i x) (d3\<lparr>db_members := members\<rparr>))
        (\<lambda>(_, d4). Inr d4))))))"

fun write_members :: "world \<Rightarrow> owner_token \<Rightarrow> string \<Rightarrow> pyval \<Rightarrow> nat \<Rightarrow> cohort_request list \<Rightarrow> db \<Rightarrow> db res" where
  "write_members w tk cid actions n [] d = Inr d"
| "write_members w tk cid actions n (x # xs) d =
     bindR (write_member w tk cid actions n x d) (write_members w tk cid actions (Suc n) xs)"

definition commit_cohort :: "owner_token \<Rightarrow> cohort_request list \<Rightarrow> run_limits \<Rightarrow> run_limits" where
  "commit_cohort tk items l = l\<lparr>rl_dispatch_used := rl_dispatch_used l + int (length items),
     rl_committed := rl_committed l + cohort_tokens items, rl_generation := tk_generation tk\<rparr>"

definition new_cohort :: "owner_token \<Rightarrow> string \<Rightarrow> string \<Rightarrow> string \<Rightarrow> cohort_request list \<Rightarrow> cohort" where
  "new_cohort tk cid key h items = \<lparr>co_id = cid, co_repo = tk_repo tk, co_run = tk_run tk, co_key = key, co_membership = h,
     co_count = int (length items), co_state = ''reserved'', co_generation = tk_generation tk\<rparr>"

definition cohort_reserved :: "owner_token \<Rightarrow> string \<Rightarrow> string \<Rightarrow> string \<Rightarrow> cohort_request list \<Rightarrow> pyval" where
  "cohort_reserved tk cid key h items = PDict [(''repository_id'', PStr (tk_repo tk)), (''run_id'', PStr (tk_run tk)),
     (''data'', PDict [(''cohort_id'', PStr cid), (''request_key'', PStr key), (''membership_sha256'', PStr h),
        (''member_count'', PInt (int (length items))), (''token_reservation'', PInt (cohort_tokens items))])]"

text \<open>The result of the transaction: a replayed cohort, or the identifier of the new one.\<close>

definition reserve_cohort_tx ::
  "world \<Rightarrow> owner_token \<Rightarrow> string \<Rightarrow> cohort_request list \<Rightarrow> string \<Rightarrow> cohort_args \<Rightarrow> (launch_cohort + string) tx"
where
  "reserve_cohort_tx w tk key items h q d =
     bindR (assert_owner w tk d) (\<lambda>_.
     case List.find (\<lambda>c. co_repo c = tk_repo tk \<and> co_run c = tk_run tk \<and> co_key c = key) (db_cohorts d) of
       Some c \<Rightarrow> bindR (replay_cohort tk c items h d) (\<lambda>r. Inr (Inl r, d))
     | None \<Rightarrow>
         if incomplete_cohort tk d then own_refuse ''COHORT_RECONCILIATION_REQUIRED''
         else (case limits_of tk d of
           None \<Rightarrow> own_refuse ''RUN_LIMITS_REQUIRED''
         | Some l \<Rightarrow>
             bindR (cohort_allowance tk items d l) (\<lambda>_.
             bindR (ca_guard q d) (\<lambda>_.
             bindR (mapR (member_gate w tk (ca_receipt q) d) items) (\<lambda>_.
             let cid = w_uuid w 0 in
             bindR (insert_row cohort_clash (new_cohort tk cid key h items) (db_cohorts d)) (\<lambda>cohorts.
             bindR (write_members w tk cid (ca_actions q) 0 items (d\<lparr>db_cohorts := cohorts\<rparr>)) (\<lambda>d1.
             Inr (Inr cid, add_event ''launch_cohort_reserved'' (cohort_reserved tk cid key h items)
               (update_limits tk (commit_cohort tk items) d1)))))))))"

text \<open>\<open>view\<close> is the database the read after the commit sees.\<close>

definition reserve_launch_cohort ::
  "world \<Rightarrow> owner_token \<Rightarrow> cohort_args \<times> (db \<Rightarrow> db) \<Rightarrow> db \<Rightarrow> launch_cohort res \<times> db"
where
  "reserve_launch_cohort w tk args d =
     (case args of (q, view) \<Rightarrow>
      if \<not> nonempty_str (ca_key q) then (own_refuse ''INVALID_REQUEST_KEY'', d)
      else case normalize_cohort_requests w (ca_members q) of
        Inl e \<Rightarrow> (Inl e, d)
      | Inr (items, h) \<Rightarrow>
          if \<not> valid_actions items (ca_actions q) then (own_refuse ''POLICY_ACTION_REQUIRED'', d)
          else if parse_utc (w_now w) = None then (own_refuse ''RUNTIME_RECEIPT_INVALID'', d)
          else seq_op (preflight_policy_clock w tk PNone PNone (install_context d)) (\<lambda>_ d1.
            seq_op (transaction (reserve_cohort_tx w tk (str_of (ca_key q)) items h q) d1) (\<lambda>r d2.
              case r of
                Inl c \<Rightarrow> (Inr c, d2)
              | Inr cid \<Rightarrow> (case cohort_by_id cid (view d2) of
                    None \<Rightarrow> (Inl (TypeError ''NoneType''), d2)
                  | Some c \<Rightarrow> (launch_cohort_of c False (view d2), d2)))))"

section \<open>Acknowledging members\<close>

definition acknowledge_cohort_child :: "world \<Rightarrow> owner_token \<Rightarrow> ack_request \<Rightarrow> db \<Rightarrow> string res \<times> db" where
  "acknowledge_cohort_child w tk q d =
     (case aq_cohort q of
        None \<Rightarrow> (own_refuse ''COHORT_MEMBER_MISMATCH'', d)
      | Some cid \<Rightarrow> if cid = [] then (own_refuse ''COHORT_MEMBER_MISMATCH'', d) else acknowledge_child w tk q d)"

text \<open>A child that a monitor of the supervisor started.\<close>

record monitored_request =
  mq_intent :: string
  mq_monitor :: ident
  mq_child :: ident
  mq_binding :: pydict
  mq_cohort :: "string option"
  mq_guard :: "db \<Rightarrow> unit res"

definition MONITOR_TRANSPORT :: string where
  "MONITOR_TRANSPORT = ''supervisor-monitor-v1''"

definition monitored_fields :: "string list" where
  "monitored_fields = [''transport'', ''monitor'', ''native'', ''initial_head'', ''workspace'', ''workspace_identity'', ''streams'']"

definition monitored_check :: "world \<Rightarrow> monitored_request \<Rightarrow> bool" where
  "monitored_check w q =
     (w_direct_parent w (mq_monitor q) (w_self w) = LIVE \<and> w_direct_parent w (mq_child q) (mq_monitor q) = LIVE
      \<and> dict_has_keys (mq_binding q) monitored_fields \<and> dict_get (mq_binding q) ''transport'' = PStr MONITOR_TRANSPORT
      \<and> py_eq (dict_get (mq_binding q) ''monitor'') (ident_json (mq_monitor q))
      \<and> py_eq (dict_get (mq_binding q) ''native'') (ident_json (mq_child q)))"

text \<open>The dispatch of the intent among the recorded requests of its activity.\<close>

fun find_dispatch :: "string \<Rightarrow> pyval list \<Rightarrow> pydict res" where
  "find_dispatch i [] = own_refuse ''CHILD_IDENTITY_MISMATCH''"
| "find_dispatch i (p # ps) =
     bindR (caught ''CHILD_IDENTITY_MISMATCH'' (item ''data'' p)) (\<lambda>data.
     case data of
       PDict m \<Rightarrow> if dict_get m ''intent_id'' = PStr i then Inr m else find_dispatch i ps
     | _ \<Rightarrow> Inl (OtherException ''AttributeError''))"

definition monitored_dispatch :: "pydict \<Rightarrow> bool" where
  "monitored_dispatch m = (case dict_get m ''request'' of PDict r \<Rightarrow> dict_get r ''transport'' = PStr MONITOR_TRANSPORT | _ \<Rightarrow> False)"

definition cohort_open :: "owner_token \<Rightarrow> string option \<Rightarrow> (cohort_member \<times> cohort) option \<Rightarrow> bool" where
  "cohort_open tk cid member =
     (case (cid, member) of
        (None, None) \<Rightarrow> True
      | (None, Some (m, c)) \<Rightarrow> co_state c = ''released_to_execute''
      | (Some k, None) \<Rightarrow> False
      | (Some k, Some (m, c)) \<Rightarrow> cm_cohort m = k \<and> co_generation c = tk_generation tk \<and> co_state c \<in> set [''reserved'', ''acknowledged''])"

text \<open>The state of the cohort follows from the acknowledgements that are missing.\<close>

definition acknowledge_member :: "string \<Rightarrow> string \<Rightarrow> ident \<Rightarrow> string \<Rightarrow> db \<Rightarrow> db" where
  "acknowledge_member cid i x k d =
     (let rows = update_where (\<lambda>m. cm_cohort m = cid \<and> cm_intent m = i) (\<lambda>m. m\<lparr>cm_ack := Some k, cm_child := Some x\<rparr>) (db_members d);
          remaining = count_where (\<lambda>m. cm_cohort m = cid \<and> cm_ack m = None) rows
      in d\<lparr>db_members := rows, db_cohorts := update_where (\<lambda>c. co_id c = cid)
        (\<lambda>c. c\<lparr>co_state := (if remaining = 0 then ''acknowledged'' else ''reserved'')\<rparr>) (db_cohorts d)\<rparr>)"

definition monitored_payload :: "monitored_request \<Rightarrow> string \<Rightarrow> intent \<Rightarrow> pyval" where
  "monitored_payload q k row = PDict (dict_set (dict_set (dict_set (mq_binding q) ''acknowledgement_id'' (PStr k))
     ''intent_id'' (PStr (mq_intent q))) ''issuing_generation'' (PInt (in_generation row)))"

definition monitored_tx :: "world \<Rightarrow> owner_token \<Rightarrow> monitored_request \<Rightarrow> string tx" where
  "monitored_tx w tk q d =
     bindR (mq_guard q d) (\<lambda>_.
     case intent_of (mq_intent q) d of
       None \<Rightarrow> own_refuse ''FENCE_REVOKED''
     | Some row \<Rightarrow>
         if \<not> cohort_open tk (mq_cohort q) (member_of (mq_intent q) d) then own_refuse ''COHORT_RECONCILIATION_REQUIRED''
         else bindR (assert_activity_binding w tk (in_activity row) d) (\<lambda>act.
           bindR (find_dispatch (mq_intent q) (dispatch_events (in_activity row) d)) (\<lambda>dispatch.
           if \<not> monitored_dispatch dispatch \<or> in_generation row \<noteq> tk_generation tk \<or> in_state row \<noteq> ''reserved''
             \<or> ac_state act \<in> set terminal_states
           then own_refuse ''INTENT_RECONCILIATION_REQUIRED''
           else let k = w_uuid w 0;
                    d1 = update_intent (mq_intent q) (\<lambda>i. i\<lparr>in_state := ''acknowledged'', in_child := Some (mq_child q), in_ack := Some k\<rparr>) d;
                    d2 = (case mq_cohort q of None \<Rightarrow> d1 | Some cid \<Rightarrow> acknowledge_member cid (mq_intent q) (mq_child q) k d1)
                in bindR (record_event_once_tx w tk (in_activity row) (''child-ack:'' @ mq_intent q) (monitored_payload q k row) d2)
                  (\<lambda>(_, d3). Inr (k, d3)))))"

definition acknowledge_monitored_child :: "world \<Rightarrow> owner_token \<Rightarrow> monitored_request \<Rightarrow> db \<Rightarrow> string res \<times> db" where
  "acknowledge_monitored_child w tk q d =
     (if \<not> monitored_check w q then (own_refuse ''CHILD_IDENTITY_MISMATCH'', d)
      else transaction (monitored_tx w tk q) d)"

definition acknowledge_monitored_cohort_child :: "world \<Rightarrow> owner_token \<Rightarrow> monitored_request \<Rightarrow> db \<Rightarrow> string res \<times> db" where
  "acknowledge_monitored_cohort_child w tk q d =
     (if mq_cohort q = None \<or> mq_cohort q = Some [] then (own_refuse ''COHORT_MEMBER_MISMATCH'', d)
      else acknowledge_monitored_child w tk q d)"

section \<open>Releasing a cohort\<close>

record member_view =
  mv_member :: cohort_member
  mv_intent :: intent
  mv_activity :: string

definition member_view_of :: "db \<Rightarrow> cohort_member \<Rightarrow> member_view option" where
  "member_view_of d m =
     (case (intent_of (cm_intent m) d, activity_of (cm_activity m) d) of
        (Some i, Some a) \<Rightarrow> Some \<lparr>mv_member = m, mv_intent = i, mv_activity = ac_state a\<rparr>
      | _ \<Rightarrow> None)"

definition member_views :: "string \<Rightarrow> db \<Rightarrow> member_view list" where
  "member_views cid d = List.map_filter (member_view_of d) (cohort_members cid d)"

definition view_signature ::
  "member_view \<Rightarrow> (string \<times> string \<times> int) \<times> (string option \<times> string option) \<times> (ident option \<times> ident option) \<times> string option \<times> string"
where
  "view_signature v = ((cm_intent (mv_member v), in_state (mv_intent v), in_generation (mv_intent v)),
     (cm_ack (mv_member v), in_ack (mv_intent v)), (cm_child (mv_member v), in_child (mv_intent v)),
     in_completion (mv_intent v), mv_activity v)"

definition member_ended :: "member_view \<Rightarrow> bool" where
  "member_ended v = (in_completion (mv_intent v) \<noteq> None \<or> py_startswith (in_state (mv_intent v)) ''completed_''
     \<or> in_state (mv_intent v) = ''closed_dead'')"

definition member_acknowledged :: "member_view \<Rightarrow> bool" where
  "member_acknowledged v = (in_state (mv_intent v) = ''acknowledged'' \<and> cm_ack (mv_member v) \<noteq> None
     \<and> in_ack (mv_intent v) = cm_ack (mv_member v))"

definition member_alive :: "world \<Rightarrow> member_view \<Rightarrow> bool" where
  "member_alive w v =
     (case cm_child (mv_member v) of
        None \<Rightarrow> False
      | Some x \<Rightarrow> in_child (mv_intent v) = Some x \<and> id_host x = id_host (w_self w) \<and> id_boot x = id_boot (w_self w)
          \<and> w_probe w x = LIVE \<and> (case w_liveness w of None \<Rightarrow> True | Some probe \<Rightarrow> probe x = Some LIVE))"

type_synonym child_permit = "string \<times> string"

definition permit_of :: "member_view \<Rightarrow> child_permit" where
  "permit_of v = (case in_permit (mv_intent v) of None \<Rightarrow> [] | Some p \<Rightarrow> p, cm_intent (mv_member v))"

definition released_view :: "member_view \<Rightarrow> bool" where
  "released_view v = (in_state (mv_intent v) = ''released_to_execute'' \<and> in_permit (mv_intent v) \<notin> {None, Some []})"

text \<open>The first half: the permits of a released cohort, or the members that may be released.\<close>

definition observe_cohort :: "world \<Rightarrow> owner_token \<Rightarrow> string \<Rightarrow> db \<Rightarrow> (child_permit list + member_view list) res" where
  "observe_cohort w tk cid d =
     (case cohort_by_id cid d of
        None \<Rightarrow> own_refuse ''COHORT_BINDING_UNKNOWN''
      | Some c \<Rightarrow>
          let vs = member_views cid d in
          if co_repo c \<noteq> tk_repo tk \<or> co_run c \<noteq> tk_run tk \<or> int (length vs) \<noteq> co_count c then own_refuse ''COHORT_BINDING_UNKNOWN''
          else if co_state c = ''released_to_execute''
          then (if \<not> list_all released_view vs then own_refuse ''COHORT_BINDING_UNKNOWN'' else Inr (Inl (map permit_of vs)))
          else if co_generation c \<noteq> tk_generation tk \<or> co_state c = ''reconcile_required'' then own_refuse ''COHORT_RECONCILIATION_REQUIRED''
          else if list_ex member_ended vs then own_refuse ''COHORT_MEMBER_FAILED''
          else if \<not> list_all member_acknowledged vs then own_refuse ''COHORT_ACK_INCOMPLETE''
          else if \<not> list_all (member_alive w) vs then own_refuse ''CHILD_IDENTITY_MISMATCH''
          else Inr (Inr vs))"

definition release_member :: "world \<Rightarrow> owner_token \<Rightarrow> nat \<Rightarrow> member_view \<Rightarrow> db \<Rightarrow> (child_permit \<times> db) res" where
  "release_member w tk n v d =
     (let a = cm_activity (mv_member v); i = cm_intent (mv_member v); p = w_uuid w n in
      bindR (assert_activity_binding w tk a d) (\<lambda>act.
      bindR (assert_activity_ancestry tk d a) (\<lambda>_.
      if ac_state act \<notin> set [''pending'', ''active''] then own_refuse ''COHORT_MEMBER_FAILED''
      else let d1 = update_activity a (activate tk) d;
               d2 = d1\<lparr>db_intents := update_where (\<lambda>x. in_id x = i \<and> in_state x = ''acknowledged'') (release_intent p) (db_intents d1)\<rparr>
           in bindR (record_launch_clock_tx w tk a i d2) (\<lambda>d3. Inr ((p, i), d3)))))"

text \<open>\<open>readings k\<close>: the monotonic and the wall clock at the release of the \<open>k\<close>-th member.\<close>

fun release_members ::
  "world \<Rightarrow> owner_token \<Rightarrow> (nat \<Rightarrow> int \<times> int) \<Rightarrow> nat \<Rightarrow> member_view list \<Rightarrow> db \<Rightarrow> (child_permit list \<times> db) res"
where
  "release_members w tk readings n [] d = Inr ([], d)"
| "release_members w tk readings n (v # vs) d =
     bindR (release_member (w\<lparr>w_mono_ns := fst (readings n), w_wall_ns := snd (readings n)\<rparr>) tk n v d) (\<lambda>(p, d1).
     bindR (release_members w tk readings (Suc n) vs d1) (\<lambda>(ps, d2). Inr (p # ps, d2)))"

record release_request =
  rq_cohort :: string
  rq_guard :: "db \<Rightarrow> unit res"
  rq_boot :: pyval
  rq_ns :: pyval
  rq_seen :: "db \<Rightarrow> db"
  rq_readings :: "nat \<Rightarrow> int \<times> int"

definition cohort_released :: "owner_token \<Rightarrow> string \<Rightarrow> child_permit list \<Rightarrow> pyval" where
  "cohort_released tk cid ps = PDict [(''repository_id'', PStr (tk_repo tk)), (''run_id'', PStr (tk_run tk)),
     (''data'', PDict [(''cohort_id'', PStr cid), (''intent_ids'', PList (map (\<lambda>p. PStr (snd p)) ps)),
        (''permit_ids'', PList (map (\<lambda>p. PStr (fst p)) ps))])]"

text \<open>A refused clock leaves the transaction normally, without any permit.\<close>

definition release_cohort_tx ::
  "world \<Rightarrow> owner_token \<Rightarrow> release_request \<Rightarrow> member_view list \<Rightarrow> child_permit list res tx"
where
  "release_cohort_tx w tk q seen d =
     (case cohort_by_id (rq_cohort q) d of
        None \<Rightarrow> own_refuse ''COHORT_RECONCILIATION_REQUIRED''
      | Some c \<Rightarrow>
          if co_generation c \<noteq> tk_generation tk \<or> co_state c \<noteq> ''acknowledged'' then own_refuse ''COHORT_RECONCILIATION_REQUIRED''
          else let vs = member_views (rq_cohort q) d in
            if map view_signature vs \<noteq> map view_signature seen then own_refuse ''COHORT_RECONCILIATION_REQUIRED''
            else bindR (rq_guard q d) (\<lambda>_.
              bindR (if \<not> db_policy_installed d \<or> budget_of tk d = None then Inr (None, d)
                     else policy_authorize_clock_tx w tk 1 (rq_boot q) (rq_ns q) d) (\<lambda>(err, d1).
              case err of
                Some code \<Rightarrow> Inr (own_refuse code, d1)
              | None \<Rightarrow> bindR (release_members w tk (rq_readings q) 0 vs d1) (\<lambda>(ps, d2).
                  Inr (Inr ps, add_event ''launch_cohort_released'' (cohort_released tk (rq_cohort q) ps)
                    (d2\<lparr>db_cohorts := update_where (\<lambda>x. co_id x = rq_cohort q) (\<lambda>x. x\<lparr>co_state := ''released_to_execute''\<rparr>)
                      (db_cohorts d2)\<rparr>))))))"

text \<open>\<open>rq_seen\<close> maps the store after the first transactions to the one the read transaction sees.\<close>

definition authorize_launch_cohort ::
  "world \<Rightarrow> owner_token \<Rightarrow> release_request \<Rightarrow> db \<Rightarrow> child_permit list res \<times> db"
where
  "authorize_launch_cohort w tk q d =
     (if rq_cohort q = [] then (own_refuse ''COHORT_BINDING_UNKNOWN'', d)
      else seq_op (preflight_policy_clock w tk (rq_boot q) (rq_ns q) d) (\<lambda>_ d1.
        case assert_owner w tk d1 of
          Inl e \<Rightarrow> (Inl e, d1)
        | Inr _ \<Rightarrow>
            (case observe_cohort w tk (rq_cohort q) (rq_seen q d1) of
               Inl e \<Rightarrow> (Inl e, d1)
             | Inr (Inl permits) \<Rightarrow> (Inr permits, d1)
             | Inr (Inr vs) \<Rightarrow> seq_op (transaction (release_cohort_tx w tk q vs) d1) (\<lambda>r d2. (r, d2)))))"

definition release_launch_cohort ::
  "world \<Rightarrow> owner_token \<Rightarrow> release_request \<Rightarrow> db \<Rightarrow> child_permit list res \<times> db"
where
  "release_launch_cohort w tk q d = authorize_launch_cohort w tk q d"

section \<open>Reconciling a cohort\<close>

definition uncertain_cohort :: "string \<Rightarrow> db \<Rightarrow> db" where
  "uncertain_cohort cid d = (let ids = map cm_intent (filter (\<lambda>m. cm_cohort m = cid) (db_members d)) in
     d\<lparr>db_cohorts := update_where (\<lambda>c. co_id c = cid) (\<lambda>c. c\<lparr>co_state := ''reconcile_required''\<rparr>) (db_cohorts d),
       db_intents := update_where (\<lambda>i. in_id i \<in> set ids \<and> in_state i \<in> set [''reserved'', ''acknowledged''])
         (set_state ''reconcile_required'') (db_intents d)\<rparr>)"

definition reconcile_cohort_tx :: "world \<Rightarrow> owner_token \<Rightarrow> string \<Rightarrow> launch_cohort tx" where
  "reconcile_cohort_tx w tk cid d =
     bindR (assert_owner w tk d) (\<lambda>_.
     case List.find (\<lambda>c. co_id c = cid \<and> co_repo c = tk_repo tk \<and> co_run c = tk_run tk) (db_cohorts d) of
       None \<Rightarrow> own_refuse ''COHORT_BINDING_UNKNOWN''
     | Some c \<Rightarrow>
         if co_state c = ''released_to_execute'' then bindR (launch_cohort_of c True d) (\<lambda>r. Inr (r, d))
         else let d1 = uncertain_cohort cid d in
           (case cohort_by_id cid d1 of
              None \<Rightarrow> Inl (TypeError ''NoneType'')
            | Some x \<Rightarrow> bindR (launch_cohort_of x False d1) (\<lambda>r. Inr (r, d1))))"

definition reconcile_launch_cohort :: "world \<Rightarrow> owner_token \<Rightarrow> string \<Rightarrow> db \<Rightarrow> launch_cohort res \<times> db" where
  "reconcile_launch_cohort w tk cid d =
     (if cid = [] then (own_refuse ''COHORT_BINDING_UNKNOWN'', d)
      else transaction (reconcile_cohort_tx w tk cid) d)"

end
