(* ===== verification/Cohort_Facts.thy ===== *)
theory Cohort_Facts
  imports Cohorts Policy_Frames
begin

text \<open>
  What the operations on launch cohorts did to each table: the ledger and the activities stay balanced
  over a cohort of any size, the policy tables are left alone, and a superseded owner is refused.
\<close>

section \<open>Requests\<close>

lemma cohort_item_tokens: "cohort_item w v = Inr x \<Longrightarrow> 0 \<le> mr_tokens x"
  by (auto simp: cohort_item_def Let_def valid_nonnegative_integer_def split: pyval.split_asm if_split_asm)

lemma normalize_Inr:
  assumes "normalize_cohort_requests w ms = Inr (items, h)"
  shows "items \<noteq> []" "distinct (map mr_activity items)" "distinct (map mr_key items)" "\<forall>x \<in> set items. 0 \<le> mr_tokens x"
    "length items = length ms"
proof -
  from assms obtain xs where ms: "ms \<noteq> []" and xs: "mapR (cohort_item w) ms = Inr xs" "distinct (map mr_activity xs)"
    "distinct (map mr_key xs)" and items: "items = sort_key mr_key xs"
    by (auto simp: normalize_cohort_requests_def Let_def split: if_split_asm)
  have set: "set items = set xs" by (simp add: items)
  have dist: "distinct (map f items) \<longleftrightarrow> distinct (map f xs)" for f :: "cohort_request \<Rightarrow> string"
    by (simp add: items distinct_map)
  show "distinct (map mr_activity items)" "distinct (map mr_key items)" using xs(2,3) by (simp_all add: dist)
  show "length items = length ms" using mapR_Inr_length [OF xs(1)] by (simp add: items)
  then show "items \<noteq> []" using ms by auto
  have "0 \<le> mr_tokens x" if "x \<in> set xs" for x
    using xs(1) that by (induction ms arbitrary: xs) (auto dest: cohort_item_tokens)
  then show "\<forall>x \<in> set items. 0 \<le> mr_tokens x" by (simp add: set)
qed

section \<open>One member\<close>

definition member_rows :: "world \<Rightarrow> owner_token \<Rightarrow> string \<Rightarrow> nat \<Rightarrow> cohort_request \<Rightarrow> intent \<Rightarrow> db \<Rightarrow> db \<Rightarrow> bool" where
  "member_rows w tk cid n x i d d' =
     (i = new_intent tk (w_uuid w (n + 1)) (mr_activity x) False d \<and> Launch_Safety.fresh_rows (mr_activity x) i d d'
      \<and> (\<forall>y \<in> set (db_accounting d). la_intent y \<noteq> in_id i)
      \<and> db_accounting d' = db_accounting d @ [accounting_row tk (in_id i) (mr_tokens x)]
      \<and> db_limits d' = db_limits d \<and> db_cohorts d' = db_cohorts d
      \<and> (\<forall>y \<in> set (db_members d). cm_intent y \<noteq> in_id i)
      \<and> db_members d' = db_members d @ [new_member cid n (in_id i) x]
      \<and> db_reservations d' = db_reservations d \<and> db_generation d' = db_generation d \<and> db_migration d' = db_migration d)"

lemma event_members:
  assumes "event_frame d d'" shows "db_members d' = db_members d" "db_cohorts d' = db_cohorts d"
  by (subst assms [unfolded event_frame_def], simp)+

lemma bind_member_frame:
  assumes "bind_member w tk acts i x d = Inr d'"
  shows "clock_frame (d\<lparr>db_actions := db_actions d', db_attempts := db_attempts d'\<rparr>) d'" "budget_rel charge_fence d d'"
    "kept d' = kept d"
  using assms bind_launch_frame [of w tk _ d d'] bind_launch_kept [of w tk _ d d']
  by (auto simp: bind_member_def clock_frame_def budget_rel_same split: if_split_asm)

lemma write_member_Inr:
  assumes "write_member w tk cid acts n x d = Inr d'"
  shows "member_rows w tk cid n x (new_intent tk (w_uuid w (n + 1)) (mr_activity x) False d) d d'
     \<and> budget_rel charge_fence d d' \<and> kept d' = kept d"
proof -
  define i where "i = new_intent tk (w_uuid w (n + 1)) (mr_activity x) False d"
  define d2 where "d2 = (update_activity (mr_activity x) (\<lambda>y. y\<lparr>ac_remaining := ac_remaining y - 1\<rparr>) d)
     \<lparr>db_intents := db_intents d @ [i], db_accounting := db_accounting d @ [accounting_row tk (w_uuid w (n + 1)) (mr_tokens x)]\<rparr>"
  have nid: "in_id i = w_uuid w (n + 1)" "in_activity i = mr_activity x" "in_state i = ''reserved''" "in_completion i = None"
    by (simp_all add: i_def new_intent_def)
  from assms obtain d3 k where fresh: "\<forall>y \<in> set (db_intents d). \<not> intent_clash i y"
      "\<forall>y \<in> set (db_accounting d). la_intent y \<noteq> w_uuid w (n + 1)"
    and d3: "bind_member (later n w) tk acts (w_uuid w (n + 1)) x d2 = Inr d3"
    and mem: "\<forall>y \<in> set (db_members d3). \<not> member_clash (new_member cid n (w_uuid w (n + 1)) x) y"
    and ev: "record_event_once_tx w tk (mr_activity x) (request_event_key (mr_key x)) (cohort_dispatch cid (w_uuid w (n + 1)) x)
        (d3\<lparr>db_members := db_members d3 @ [new_member cid n (w_uuid w (n + 1)) x]\<rparr>) = Inr (k, d')"
    by (auto simp: write_member_def Let_def i_def d2_def accounting_row_def split_beta)
  note e = record_event_frame [OF ev] and b = bind_member_frame [OF d3]
  have d2: "db_intents d2 = db_intents d @ [i]" "db_accounting d2 = db_accounting d @ [accounting_row tk (in_id i) (mr_tokens x)]"
      "db_activities d2 = update_where (\<lambda>y. ac_id y = mr_activity x) (\<lambda>y. y\<lparr>ac_remaining := ac_remaining y - 1\<rparr>) (db_activities d)"
      "db_debits d2 = db_debits d" "db_bindings d2 = db_bindings d" "db_reservations d2 = db_reservations d"
      "db_generation d2 = db_generation d" "db_limits d2 = db_limits d" "db_members d2 = db_members d"
      "db_cohorts d2 = db_cohorts d" "db_migration d2 = db_migration d"
    by (simp_all add: d2_def nid update_activity_def)
  have kept: "kept d' = kept d"
    using record_event_kept [OF ev] b(3) by (simp add: d2_def kept_def update_activity_def)
  have "budget_rel charge_fence d d2" by (rule budget_rel_same) (simp_all add: d2_def)
  moreover have "budget_rel charge_fence d3 d'" by (rule budget_rel_same) (simp_all add: event_frameD [OF e])
  ultimately have bud: "budget_rel charge_fence d d'" using budget_rel_trans [OF rel_order(4)] b(2) by blast
  have "member_rows w tk cid n x i d d'"
    unfolding member_rows_def Launch_Safety.fresh_rows_def
    using fresh mem b(1) nid d2 event_frameD [OF e] event_members [OF e]
    by (auto simp: clock_frame_def i_def [unfolded Suc_eq_plus1 [symmetric], symmetric] intent_clash_def member_clash_def new_member_def)
  then show ?thesis using bud kept by (simp add: i_def)
qed

section \<open>All members\<close>

definition reserved_for :: "owner_token \<Rightarrow> cohort_request \<Rightarrow> intent \<Rightarrow> bool" where
  "reserved_for tk x i = (in_activity i = mr_activity x \<and> in_state i = ''reserved'' \<and> in_generation i = tk_generation tk
     \<and> \<not> in_exempt i \<and> in_child i = None \<and> in_ack i = None \<and> in_permit i = None \<and> in_completion i = None)"

definition accounting_rows :: "owner_token \<Rightarrow> cohort_request list \<Rightarrow> intent list \<Rightarrow> accounting list" where
  "accounting_rows tk items new = map (\<lambda>(x, i). accounting_row tk (in_id i) (mr_tokens x)) (zip items new)"

definition new_members :: "string \<Rightarrow> nat \<Rightarrow> cohort_request list \<Rightarrow> intent list \<Rightarrow> cohort_member list" where
  "new_members cid n items new = map (\<lambda>((k, x), i). new_member cid k (in_id i) x) (zip (enumerate n items) new)"

lemma write_members_Inr:
  assumes "write_members w tk cid acts n items d = Inr d'"
  shows "\<exists>new. list_all2 (reserved_for tk) items new \<and> db_intents d' = db_intents d @ new
     \<and> distinct (map in_id new) \<and> set (map in_id new) \<inter> set (map in_id (db_intents d)) = {}
     \<and> set (map in_id new) \<inter> set (map cm_intent (db_members d)) = {}
     \<and> db_accounting d' = db_accounting d @ accounting_rows tk items new
     \<and> db_members d' = db_members d @ new_members cid n items new
     \<and> db_limits d' = db_limits d \<and> db_cohorts d' = db_cohorts d
     \<and> db_reservations d' = db_reservations d \<and> db_generation d' = db_generation d
     \<and> budget_rel charge_fence d d' \<and> kept d' = kept d"
  using assms
proof (induction items arbitrary: n d)
  case Nil
  then show ?case by (simp add: accounting_rows_def new_members_def budget_rel_same)
next
  case (Cons x items)
  then obtain d1 where one: "write_member w tk cid acts n x d = Inr d1"
    and rest: "write_members w tk cid acts (Suc n) items d1 = Inr d'" by auto
  define i where "i = new_intent tk (w_uuid w (n + 1)) (mr_activity x) False d"
  note W = write_member_Inr [OF one, folded i_def, unfolded member_rows_def Launch_Safety.fresh_rows_def]
  from Cons.IH [OF rest] obtain new where new: "list_all2 (reserved_for tk) items new" "db_intents d' = db_intents d1 @ new"
      "distinct (map in_id new)" "set (map in_id new) \<inter> set (map in_id (db_intents d1)) = {}"
      "set (map in_id new) \<inter> set (map cm_intent (db_members d1)) = {}"
      "db_accounting d' = db_accounting d1 @ accounting_rows tk items new"
      "db_members d' = db_members d1 @ new_members cid (Suc n) items new"
      "db_limits d' = db_limits d1" "db_cohorts d' = db_cohorts d1" "db_reservations d' = db_reservations d1"
      "db_generation d' = db_generation d1" "budget_rel charge_fence d1 d'" "kept d' = kept d1" by blast
  have "reserved_for tk x i" by (simp add: reserved_for_def i_def new_intent_def)
  moreover have "budget_rel charge_fence d d'" using budget_rel_trans [OF rel_order(4)] W new(12) by blast
  moreover have "in_id i \<notin> set (map in_id (db_intents d))" "in_id i \<notin> set (map in_id new)" using W new(4) by auto
  ultimately show ?case
    by (intro exI [of _ "i # new"]) (use W new in \<open>auto simp: accounting_rows_def new_members_def new_member_def\<close>)
qed

text \<open>The binding of another activity survives the write of a member.\<close>

lemma write_member_binding:
  assumes "write_member w tk cid acts n x d = Inr d'" and "b \<noteq> mr_activity x"
  shows "assert_activity_binding w tk b d' = assert_activity_binding w tk b d"
proof -
  note W = write_member_Inr [OF assms(1), unfolded member_rows_def Launch_Safety.fresh_rows_def]
  have "List.find (\<lambda>y. ac_id y = b) (update_where (\<lambda>y. ac_id y = mr_activity x) f rows) = List.find (\<lambda>y. ac_id y = b) rows"
    if "\<And>y. ac_id (f y) = ac_id y" for f :: "activity \<Rightarrow> activity" and rows
    using assms(2) by (induction rows) (auto simp: that)
  then have "activity_of b d' = activity_of b d" using W by (simp add: activity_of_def)
  moreover have "assert_owner w tk d' = assert_owner w tk d" by (rule assert_owner_cong) (use W in simp)
  then have "fence w tk d' = fence w tk d" using W by (simp add: fence_def assert_migration_epoch_def)
  ultimately show ?thesis by (simp add: assert_activity_binding_def)
qed

lemma commit_cohort_one: "commit_cohort tk [x] = commit_tokens tk (mr_tokens x)"
  by (rule ext) (simp add: commit_cohort_def commit_tokens_def cohort_tokens_def)

lemma commit_cohort_Cons:
  "update_where (limits_match tk) (commit_cohort tk xs) (update_where (limits_match tk) (commit_tokens tk (mr_tokens x)) rows)
   = update_where (limits_match tk) (commit_cohort tk (x # xs)) rows"
  by (induction rows) (auto simp: commit_cohort_def commit_tokens_def cohort_tokens_def limits_match_def)

lemma limits_of_commit: "limits_of tk (d\<lparr>db_limits := L\<rparr>) = Some l \<Longrightarrow>
    limits_of tk (d'\<lparr>db_limits := update_where (limits_match tk) (commit_tokens tk n) L\<rparr>) = Some (commit_tokens tk n l)"
  unfolding limits_of_def by (simp add: find_update limits_match_def commit_tokens_def)

lemma binding_cong:
  assumes "db_reservations d' = db_reservations d" "db_migration d' = db_migration d" "db_activities d' = db_activities d"
  shows "assert_activity_binding w tk a d' = assert_activity_binding w tk a d"
  using assms assert_owner_cong [OF assms(1)]
  by (simp add: assert_activity_binding_def fence_def assert_migration_epoch_def activity_of_def)

lemma binding_limits: "assert_activity_binding w tk a (d\<lparr>db_limits := L\<rparr>) = assert_activity_binding w tk a d"
  by (rule binding_cong) simp_all

text \<open>
  The limits are charged once, after the last member. The intermediate states keep the ledger only with
  the charge of the members written so far, \<open>L\<close>.
\<close>

lemma write_members_preserves:
  assumes "write_members w tk cid acts n items d = Inr d'" and "items \<noteq> []" and "launch_ok (d\<lparr>db_limits := L\<rparr>)"
    and "limits_of tk (d\<lparr>db_limits := L\<rparr>) = Some l"
    and "rl_dispatch_used l + int (length items) \<le> rl_dispatch_limit l" "cohort_tokens items \<le> rl_token_limit l - rl_committed l"
    and "\<forall>x \<in> set items. 0 \<le> mr_tokens x" "distinct (map mr_activity items)"
    and "\<forall>x \<in> set items. \<exists>act. assert_activity_binding w tk (mr_activity x) d = Inr act \<and> 0 < ac_remaining act"
  shows "preserves (d\<lparr>db_limits := L\<rparr>) (d'\<lparr>db_limits := update_where (limits_match tk) (commit_cohort tk items) L\<rparr>)"
  using assms
proof (induction items arbitrary: n d L l)
  case (Cons x xs)
  from Cons.prems(1) obtain d1 where one: "write_member w tk cid acts n x d = Inr d1"
    and rest: "write_members w tk cid acts (Suc n) xs d1 = Inr d'" by auto
  define i where "i = new_intent tk (w_uuid w (n + 1)) (mr_activity x) False d"
  define L1 where "L1 = update_where (limits_match tk) (commit_tokens tk (mr_tokens x)) L"
  note W = write_member_Inr [OF one, folded i_def, THEN conjunct1, unfolded member_rows_def Launch_Safety.fresh_rows_def, THEN conjunct2]
  obtain act where act: "assert_activity_binding w tk (mr_activity x) (d\<lparr>db_limits := L\<rparr>) = Inr act" "0 < ac_remaining act"
    using Cons.prems(9) by (auto simp: binding_limits)
  have "\<forall>y \<in> set xs. 0 \<le> mr_tokens y" "0 \<le> mr_tokens x" using Cons.prems(7) by simp_all
  moreover have "0 \<le> cohort_tokens xs" using calculation by (auto simp: cohort_tokens_def intro!: sum_list_nonneg)
  ultimately have room: "rl_dispatch_used l < rl_dispatch_limit l" "mr_tokens x \<le> rl_token_limit l - rl_committed l"
    using Cons.prems(5,6) by (auto simp: cohort_tokens_def)
  have step: "preserves (d\<lparr>db_limits := L\<rparr>) (d1\<lparr>db_limits := L1\<rparr>)"
  proof (rule accounted_launch [OF Cons.prems(3) act _ _ Cons.prems(4) room \<open>0 \<le> mr_tokens x\<close>])
    show "Launch_Safety.fresh_rows (mr_activity x) i (d\<lparr>db_limits := L\<rparr>) (d1\<lparr>db_limits := L1\<rparr>)"
      using W by (simp add: Launch_Safety.fresh_rows_def)
    show "ledger_rows tk (in_id i) (mr_tokens x) (d\<lparr>db_limits := L\<rparr>) (d1\<lparr>db_limits := L1\<rparr>)"
      using W by (simp add: ledger_rows_def L1_def)
  qed
  show ?case
  proof (cases "xs = []")
    case True
    then show ?thesis using step rest by (simp add: L1_def commit_cohort_one)
  next
    case False
    have others: "\<exists>act. assert_activity_binding w tk (mr_activity y) d1 = Inr act \<and> 0 < ac_remaining act" if "y \<in> set xs" for y
      using Cons.prems(8,9) that write_member_binding [OF one, of "mr_activity y"] by (auto simp: image_iff)
    have "preserves (d1\<lparr>db_limits := L1\<rparr>) (d'\<lparr>db_limits := update_where (limits_match tk) (commit_cohort tk xs) L1\<rparr>)"
      by (rule Cons.IH [OF rest False preserves_ok [OF step] limits_of_commit [OF Cons.prems(4), of "mr_tokens x" d1, folded L1_def]])
        (use Cons.prems others in \<open>auto simp: cohort_tokens_def commit_tokens_def\<close>)
    from preserves_trans [OF step this] show ?thesis by (simp add: L1_def commit_cohort_Cons)
  qed
qed simp

section \<open>Reserving\<close>

definition cohort_rows ::
  "world \<Rightarrow> owner_token \<Rightarrow> string \<Rightarrow> string \<Rightarrow> cohort_request list \<Rightarrow> intent list \<Rightarrow> db \<Rightarrow> db \<Rightarrow> bool"
where
  "cohort_rows w tk key h items new d d' =
     (list_all2 (reserved_for tk) items new \<and> db_intents d' = db_intents d @ new
      \<and> distinct (map in_id new) \<and> set (map in_id new) \<inter> set (map in_id (db_intents d)) = {}
      \<and> set (map in_id new) \<inter> set (map cm_intent (db_members d)) = {}
      \<and> db_accounting d' = db_accounting d @ accounting_rows tk items new
      \<and> db_members d' = db_members d @ new_members (w_uuid w 0) 0 items new
      \<and> db_limits d' = update_where (limits_match tk) (commit_cohort tk items) (db_limits d)
      \<and> (\<forall>c \<in> set (db_cohorts d). \<not> cohort_clash (new_cohort tk (w_uuid w 0) key h items) c)
      \<and> db_cohorts d' = db_cohorts d @ [new_cohort tk (w_uuid w 0) key h items])"

definition member_ready :: "world \<Rightarrow> owner_token \<Rightarrow> db \<Rightarrow> cohort_request \<Rightarrow> activity \<Rightarrow> bool" where
  "member_ready w tk d x act = (assert_activity_binding w tk (mr_activity x) d = Inr act
     \<and> ac_state act \<notin> set terminal_states \<and> assert_activity_ancestry tk d (mr_activity x) = Inr ()
     \<and> ac_runtime act \<noteq> None \<and> 0 < ac_remaining act \<and> active_intents (mr_activity x) d = [])"

lemma member_gate_Inr: "member_gate w tk f d x = Inr u \<Longrightarrow> \<exists>act. member_ready w tk d x act"
  by (auto simp: member_gate_def member_ready_def split: if_split_asm)

definition cohort_room :: "owner_token \<Rightarrow> cohort_request list \<Rightarrow> db \<Rightarrow> run_limits \<Rightarrow> bool" where
  "cohort_room tk items d l = (rl_dispatch_used l + int (length items) \<le> rl_dispatch_limit l
     \<and> rl_committed l + cohort_tokens items \<le> rl_token_limit l
     \<and> (\<exists>cap. effective_worker_capacity tk d l = Inr cap \<and> int (active_capacity_launch_count tk d) + int (length items) \<le> cap))"

lemma allowance_room: "cohort_allowance tk items d l = Inr u \<Longrightarrow> cohort_room tk items d l"
  by (auto simp: cohort_allowance_def cohort_room_def split: if_split_asm)

lemma mapR_all: "mapR f xs = Inr ys \<Longrightarrow> x \<in> set xs \<Longrightarrow> \<exists>y. f x = Inr y"
  by (drule (1) mapR_Inr_all) blast

lemma reserve_cohort_cases:
  assumes "reserve_cohort_tx w tk key items h q d = Inr (r, d')"
  obtains (replay) c where "r = Inl c" "d' = d" "lo_reused c"
  | (fresh) l new d1 where "r = Inr (w_uuid w 0)" "\<not> incomplete_cohort tk d" "limits_of tk d = Some l" "cohort_room tk items d l"
      "\<forall>x \<in> set items. \<exists>act. member_ready w tk d x act" "cohort_rows w tk key h items new d d'"
      "write_members w tk (w_uuid w 0) (ca_actions q) 0 items (d\<lparr>db_cohorts := db_cohorts d @ [new_cohort tk (w_uuid w 0) key h items]\<rparr>) = Inr d1"
      "core_frame (d1\<lparr>db_limits := update_where (limits_match tk) (commit_cohort tk items) (db_limits d)\<rparr>) d'"
      "budget_rel charge_fence d d'" "kept d' = kept d" "db_reservations d' = db_reservations d" "db_generation d' = db_generation d"
proof (cases "List.find (\<lambda>c. co_repo c = tk_repo tk \<and> co_run c = tk_run tk \<and> co_key c = key) (db_cohorts d)")
  case (Some c)
  with assms have "\<exists>x. r = Inl x \<and> d' = d \<and> lo_reused x"
    by (auto simp: reserve_cohort_tx_def replay_cohort_def launch_cohort_of_def Let_def split: if_split_asm)
  then show thesis using replay by blast
next
  case None
  let ?row = "new_cohort tk (w_uuid w 0) key h items"
  let ?d = "d\<lparr>db_cohorts := db_cohorts d @ [?row]\<rparr>"
  from assms None obtain l u us d1 where own: "\<not> incomplete_cohort tk d" "limits_of tk d = Some l"
      "cohort_allowance tk items d l = Inr u" "mapR (member_gate w tk (ca_receipt q) d) items = Inr us"
      "\<forall>c \<in> set (db_cohorts d). \<not> cohort_clash ?row c"
    and run: "write_members w tk (w_uuid w 0) (ca_actions q) 0 items ?d = Inr d1"
    and r: "r = Inr (w_uuid w 0)" and d': "d' = add_event ''launch_cohort_reserved'' (cohort_reserved tk (w_uuid w 0) key h items)
        (update_limits tk (commit_cohort tk items) d1)"
    by (auto simp: reserve_cohort_tx_def Let_def split: if_split_asm option.split_asm)
  from write_members_Inr [OF run] obtain new where new: "list_all2 (reserved_for tk) items new" "db_intents d1 = db_intents d @ new"
      "distinct (map in_id new)" "set (map in_id new) \<inter> set (map in_id (db_intents d)) = {}"
      "set (map in_id new) \<inter> set (map cm_intent (db_members d)) = {}"
      "db_accounting d1 = db_accounting d @ accounting_rows tk items new"
      "db_members d1 = db_members d @ new_members (w_uuid w 0) 0 items new"
      "db_limits d1 = db_limits d" "db_cohorts d1 = db_cohorts d @ [?row]" "db_reservations d1 = db_reservations d"
      "db_generation d1 = db_generation d" "budget_rel charge_fence ?d d1" "kept d1 = kept d" by auto
  have gates: "\<forall>x \<in> set items. \<exists>act. member_ready w tk d x act"
    using mapR_all [OF own(4)] member_gate_Inr by blast
  have "budget_rel charge_fence d ?d" "budget_rel charge_fence d1 d'"
    by (rule budget_rel_same, simp_all add: d')+
  then have bud: "budget_rel charge_fence d d'" using new(12) budget_rel_trans [OF rel_order(4)] by blast
  have rows: "cohort_rows w tk key h items new d d'"
    using new own(5) by (simp add: cohort_rows_def d' update_limits_def)
  have core: "core_frame (d1\<lparr>db_limits := update_where (limits_match tk) (commit_cohort tk items) (db_limits d)\<rparr>) d'"
    using new(8) by (simp add: d' core_frame_def update_limits_def)
  have rest: "kept d' = kept d" "db_reservations d' = db_reservations d" "db_generation d' = db_generation d"
    using new by (simp_all add: d' kept_def update_limits_def)
  show thesis using fresh [OF r own(1,2) allowance_room [OF own(3)] gates rows run core bud rest] .
qed

lemma reserve_cohort_tx_preserves:
  assumes ok: "launch_ok d" and norm: "normalize_cohort_requests w ms = Inr (items, h)"
  shows "preserves d (snd (transaction (reserve_cohort_tx w tk key items h q) d))"
proof (rule tx_preserves [OF ok])
  fix r d' assume "reserve_cohort_tx w tk key items h q d = Inr (r, d')"
  then show "preserves d d'"
  proof (cases rule: reserve_cohort_cases)
    case (replay c) then show ?thesis using preserves_refl [OF ok] by simp
  next
    case (fresh l new d1)
    let ?d = "d\<lparr>db_cohorts := db_cohorts d @ [new_cohort tk (w_uuid w 0) key h items]\<rparr>"
    note n = normalize_Inr [OF norm]
    have core: "core_frame d ?d" by (simp add: core_frame_def)
    have L: "?d\<lparr>db_limits := db_limits d\<rparr> = ?d" by simp
    have "assert_activity_binding w tk a ?d = assert_activity_binding w tk a d" for a by (rule binding_cong) simp_all
    then have bind: "\<forall>x \<in> set items. \<exists>act. assert_activity_binding w tk (mr_activity x) ?d = Inr act \<and> 0 < ac_remaining act"
      using fresh(5) by (auto simp: member_ready_def)
    have "preserves (?d\<lparr>db_limits := db_limits d\<rparr>) (d1\<lparr>db_limits := update_where (limits_match tk) (commit_cohort tk items) (db_limits d)\<rparr>)"
      by (rule write_members_preserves [OF fresh(7) n(1) _ _ _ _ n(4,2) bind, of "db_limits d" l])
        (use fresh(3,4) core_ok [OF core ok] in \<open>simp_all add: L cohort_room_def limits_of_def\<close>)
    then have "preserves ?d d'"
      using fresh(8) core_preserves preserves_ok preserves_trans unfolding L by blast
    then show ?thesis by (rule preserves_trans_core [OF core ok])
  qed
qed

lemma install_core [simp]: "core_frame d (install_context d)"
  by (simp add: core_frame_def install_context_def)

text \<open>The call around the transaction: it changes only what the preflight and the transaction change.\<close>

lemma reserve_cohort_shape:
  obtains (refused) e where "reserve_launch_cohort w tk (q, view) d = (Inl e, d)"
  | (run) items h k where "normalize_cohort_requests w (ca_members q) = Inr (items, h)"
      "reserve_launch_cohort w tk (q, view) d = seq_op (preflight_policy_clock w tk PNone PNone (install_context d)) (\<lambda>_ d1.
         seq_op (transaction (reserve_cohort_tx w tk (str_of (ca_key q)) items h q) d1) k)"
      "\<And>r d2. snd (k r d2) = d2"
      "\<And>c d2. k (Inl c) d2 = (Inr c, d2)" "\<And>i d2. isl (fst (k (Inr i) d2)) \<or> \<not> lo_reused (projr (fst (k (Inr i) d2)))"
proof (cases "normalize_cohort_requests w (ca_members q)")
  case (Inl e)
  then have "\<exists>e. reserve_launch_cohort w tk (q, view) d = (Inl e, d)" by (simp add: reserve_launch_cohort_def own_refuse_def)
  then show thesis using refused by blast
next
  case (Inr n)
  obtain items h where n: "n = (items, h)" by (cases n)
  show thesis
  proof (cases "nonempty_str (ca_key q) \<and> valid_actions items (ca_actions q) \<and> parse_utc (w_now w) \<noteq> None")
    case True
    let ?k = "\<lambda>r d2. case r of Inl c \<Rightarrow> (Inr c, d2) | Inr cid \<Rightarrow> (case cohort_by_id cid (view d2) of
        None \<Rightarrow> (Inl (TypeError ''NoneType''), d2) | Some c \<Rightarrow> (launch_cohort_of c False (view d2), d2))"
    show thesis
      by (rule run [of items h ?k])
        (use True n Inr in \<open>auto simp: reserve_launch_cohort_def launch_cohort_of_def Let_def split: sum.split option.split\<close>)
  next
    case False
    then have "\<exists>e. reserve_launch_cohort w tk (q, view) d = (Inl e, d)"
      using n Inr by (auto simp: reserve_launch_cohort_def own_refuse_def)
    then show thesis using refused by blast
  qed
qed

lemma reserve_cohort_preserves:
  assumes ok: "launch_ok d" shows "preserves d (snd (reserve_launch_cohort w tk args d))"
proof -
  obtain q view where args: "args = (q, view)" by (cases args)
  show ?thesis
  proof (cases rule: reserve_cohort_shape [of w tk q view d])
    case (refused e) then show ?thesis using preserves_refl [OF ok] by (simp add: args)
  next
    case (run items h k)
    have "preserves (install_context d) (snd (reserve_launch_cohort w tk (q, view) d))"
      unfolding run(2) by (rule preflight_preserves [OF core_ok [OF install_core ok]])
        (simp add: seq_op_snd run(3) reserve_cohort_tx_preserves [OF _ run(1)])
    from preserves_trans_core [OF install_core ok this] show ?thesis by (simp add: args)
  qed
qed

lemma reserve_cohort_tx_frame:
  fixes d :: db
  defines "d' w tk key items h q \<equiv> snd (transaction (reserve_cohort_tx w tk key items h q) d)"
  shows "kept (d' w tk key items h q) = kept d" "budget_rel charge_fence d (d' w tk key items h q)"
    "db_reservations (d' w tk key items h q) = db_reservations d \<and> db_generation (d' w tk key items h q) = db_generation d"
proof -
  have "kept d1 = kept d \<and> budget_rel charge_fence d d1 \<and> db_reservations d1 = db_reservations d \<and> db_generation d1 = db_generation d"
    if d1: "d1 = d' w tk key items h q" for d1
  proof (cases rule: transaction_cases [of "reserve_cohort_tx w tk key items h q" d])
    case (refused e) then show ?thesis by (simp add: d1 d'_def budget_rel_same)
  next
    case (committed r d2)
    then have d1: "d1 = d2" by (simp add: d1 d'_def)
    from committed(1) show ?thesis
      by (cases rule: reserve_cohort_cases) (simp_all add: d1 budget_rel_same)
  qed
  then show "kept (d' w tk key items h q) = kept d" "budget_rel charge_fence d (d' w tk key items h q)"
    "db_reservations (d' w tk key items h q) = db_reservations d \<and> db_generation (d' w tk key items h q) = db_generation d"
    by simp_all
qed

lemma reserve_cohort_kept: "kept (snd (reserve_launch_cohort w tk args d)) = kept d"
proof -
  obtain q view where args: "args = (q, view)" by (cases args)
  show ?thesis
  proof (cases rule: reserve_cohort_shape [of w tk q view d])
    case (run items h k)
    have "kept (snd (seq_op (preflight_policy_clock w tk PNone PNone (install_context d)) (\<lambda>_ d1.
         seq_op (transaction (reserve_cohort_tx w tk (str_of (ca_key q)) items h q) d1) k))) = kept (install_context d)"
      by (rule kept_seq [OF preflight_kept]) (simp add: seq_op_snd run(3) reserve_cohort_tx_frame)
    then show ?thesis by (simp add: args run(2))
  qed (simp add: args)
qed

lemma reserve_cohort_budget: "budget_rel charge_fence d (snd (reserve_launch_cohort w tk args d))"
proof -
  obtain q view where args: "args = (q, view)" by (cases args)
  show ?thesis
  proof (cases rule: reserve_cohort_shape [of w tk q view d])
    case (refused e) then show ?thesis by (simp add: args budget_rel_same)
  next
    case (run items h k)
    have "budget_rel charge_fence (install_context d) (snd (reserve_launch_cohort w tk (q, view) d))"
      unfolding run(2) by (rule budget_seq [OF rel_order(4)]) (use preflight_rel in \<open>simp_all add: seq_op_snd run(3) reserve_cohort_tx_frame\<close>)
    moreover have "budget_rel charge_fence d (install_context d)" by (rule budget_rel_same) simp_all
    ultimately show ?thesis unfolding args using budget_rel_trans [OF rel_order(4)] by blast
  qed
qed

lemma schema_ext_after_context: "schema_ext (install_context d) d' \<Longrightarrow> schema_ext d d'"
  by (auto simp: schema_ext_def install_context_def)

interpretation fenced_cohort: fenced_op reserve_launch_cohort
proof
  fix w tk d e and args :: "cohort_args \<times> (db \<Rightarrow> db)"
  assume own: "assert_owner w tk d = Inl e"
  obtain q view where args: "args = (q, view)" by (cases args)
  show "isl (fst (reserve_launch_cohort w tk args d)) \<and> schema_ext d (snd (reserve_launch_cohort w tk args d))"
  proof (cases rule: reserve_cohort_shape [of w tk q view d])
    case (run items h k)
    have own': "assert_owner w tk (install_context d) = Inl e" using own by simp
    have "isl (fst (seq_op (transaction (reserve_cohort_tx w tk (str_of (ca_key q)) items h q) d1) k))
        \<and> snd (seq_op (transaction (reserve_cohort_tx w tk (str_of (ca_key q)) items h q) d1) k) = d1"
      if "assert_owner w tk d1 = Inl e1" for d1 e1
      using transaction_fence [OF that, of "reserve_cohort_tx w tk (str_of (ca_key q)) items h q"]
        seq_op_refused [of "transaction (reserve_cohort_tx w tk (str_of (ca_key q)) items h q) d1" k]
      by (simp add: reserve_cohort_tx_def)
    from preflight_then_fenced [OF own' this] schema_ext_after_context [of d] show ?thesis by (simp add: args run(2))
  qed (simp add: args)
next
  fix w tk d and args :: "cohort_args \<times> (db \<Rightarrow> db)"
  obtain q view where args: "args = (q, view)" by (cases args)
  show "db_reservations (snd (reserve_launch_cohort w tk args d)) = db_reservations d \<and> db_generation (snd (reserve_launch_cohort w tk args d)) = db_generation d"
  proof (cases rule: reserve_cohort_shape [of w tk q view d])
    case (run items h k)
    have "db_reservations (snd (reserve_launch_cohort w tk (q, view) d)) = db_reservations (install_context d)
        \<and> db_generation (snd (reserve_launch_cohort w tk (q, view) d)) = db_generation (install_context d)"
      unfolding run(2) by (rule seq_core_own) (use preflight_core in \<open>simp_all add: seq_op_snd run(3) reserve_cohort_tx_frame\<close>)
    then show ?thesis by (simp add: args)
  qed (simp add: args)
qed

end
