(* ===== verification/Cohort_Safety.thy ===== *)
theory Cohort_Safety
  imports Cohort_Facts
begin

text \<open>
  The acknowledgement of monitored children, and the release and the reconciliation of a launch cohort:
  what each did to the intents, and that all keep the invariant of the launches, the budgets and the
  policy tables.
\<close>

section \<open>Monitored children\<close>

definition bind_monitored :: "ident \<Rightarrow> string \<Rightarrow> intent \<Rightarrow> intent" where
  "bind_monitored x k i = i\<lparr>in_state := ''acknowledged'', in_child := Some x, in_ack := Some k\<rparr>"

lemma monitored_tx_Inr:
  assumes "monitored_tx w tk q d = Inr (k, d')"
  shows "k = w_uuid w 0 \<and> (\<exists>row act. intent_of (mq_intent q) d = Some row \<and> in_state row = ''reserved''
       \<and> in_generation row = tk_generation tk \<and> assert_activity_binding w tk (in_activity row) d = Inr act
       \<and> ac_state act \<notin> set terminal_states)
     \<and> core_frame (update_intent (mq_intent q) (bind_monitored (mq_child q) k) d) d' \<and> db_budgets d' = db_budgets d \<and> kept d' = kept d"
proof -
  let ?d1 = "update_intent (mq_intent q) (bind_monitored (mq_child q) (w_uuid w 0)) d"
  let ?d2 = "case mq_cohort q of None \<Rightarrow> ?d1 | Some cid \<Rightarrow> acknowledge_member cid (mq_intent q) (mq_child q) (w_uuid w 0) ?d1"
  from assms obtain row act n where row: "intent_of (mq_intent q) d = Some row" "in_state row = ''reserved''"
      "in_generation row = tk_generation tk" "assert_activity_binding w tk (in_activity row) d = Inr act" "ac_state act \<notin> set terminal_states"
    and k: "k = w_uuid w 0"
    and ev: "record_event_once_tx w tk (in_activity row) (''child-ack:'' @ mq_intent q) (monitored_payload q (w_uuid w 0) row) ?d2 = Inr (n, d')"
    unfolding bind_monitored_def
    by (auto simp: monitored_tx_def Let_def split: if_split_asm option.split_asm)
  have "core_frame ?d1 ?d2 \<and> db_budgets ?d2 = db_budgets d \<and> kept ?d2 = kept d"
    by (auto simp: acknowledge_member_def Let_def core_frame_def kept_def update_intent_def split: option.split)
  then have "core_frame ?d1 d' \<and> db_budgets d' = db_budgets d \<and> kept d' = kept d"
    using core_frame_trans [OF _ core_of_event [OF record_event_frame [OF ev]]] event_frameD [OF record_event_frame [OF ev]]
      record_event_kept [OF ev] by simp
  then show ?thesis using row k by blast
qed

lemma monitored_tx_preserves: "launch_ok d \<Longrightarrow> preserves d (snd (transaction (monitored_tx w tk q) d))"
proof (rule tx_preserves)
  fix k d' assume ok: "launch_ok d" and "monitored_tx w tk q d = Inr (k, d')"
  from monitored_tx_Inr [OF this(2)] obtain row where row: "intent_of (mq_intent q) d = Some row" "in_state row = ''reserved''"
    and frame: "core_frame (update_intent (mq_intent q) (bind_monitored (mq_child q) k) d) d'" by blast
  have "intent_ok row \<Longrightarrow> \<not> settled row" using row(2) settled_state by fastforce
  then have "intent_le row (bind_monitored (mq_child q) k row)"
    by (auto simp: intent_le_def bind_monitored_def intent_ok_def settled_def)
  then show "preserves d d'" by (rule update_intent_preserves [OF ok row(1) _ _ frame]) (simp add: bind_monitored_def)
qed

lemma monitored_preserves: "launch_ok d \<Longrightarrow> preserves d (snd (acknowledge_monitored_child w tk q d))"
  using monitored_tx_preserves preserves_refl by (simp add: acknowledge_monitored_child_def)

lemma monitored_frame:
  "db_budgets (snd (acknowledge_monitored_child w tk q d)) = db_budgets d
   \<and> kept (snd (acknowledge_monitored_child w tk q d)) = kept d
   \<and> db_reservations (snd (acknowledge_monitored_child w tk q d)) = db_reservations d
   \<and> db_generation (snd (acknowledge_monitored_child w tk q d)) = db_generation d"
proof (cases rule: transaction_cases [of "monitored_tx w tk q" d])
  case (committed k d')
  then show ?thesis using monitored_tx_Inr [OF committed(1)] by (simp add: acknowledge_monitored_child_def core_frame_def)
qed (simp add: acknowledge_monitored_child_def)

interpretation fenced_monitored: fenced_op acknowledge_monitored_child
proof
  fix w tk d e q assume own: "assert_owner w tk d = Inl e"
  have "\<exists>e'. monitored_tx w tk q d = Inl e'"
  proof (rule refused_body, rule notI)
    fix k d' assume "monitored_tx w tk q d = Inr (k, d')"
    from monitored_tx_Inr [OF this] show False using own binding_owner [of w tk _ d] by auto
  qed
  then show "isl (fst (acknowledge_monitored_child w tk q d)) \<and> schema_ext d (snd (acknowledge_monitored_child w tk q d))"
    by (auto simp: acknowledge_monitored_child_def transaction_def)
next
  fix w tk q d
  show "db_reservations (snd (acknowledge_monitored_child w tk q d)) = db_reservations d
    \<and> db_generation (snd (acknowledge_monitored_child w tk q d)) = db_generation d" using monitored_frame by blast
qed

text \<open>A call that either refuses or is a call of another operation.\<close>

lemma fenced_guarded:
  assumes "fenced_op f" and "\<And>w tk q d. g w tk q d = f w tk q d \<or> (\<exists>e. g w tk q d = (Inl e, d))"
  shows "fenced_op g"
proof
  fix w tk d e q assume "assert_owner w tk d = Inl e"
  then show "isl (fst (g w tk q d)) \<and> schema_ext d (snd (g w tk q d))"
    using fenced_op.fenced [OF assms(1)] assms(2) [of w tk q d] by auto
next
  fix w tk q d
  show "db_reservations (snd (g w tk q d)) = db_reservations d \<and> db_generation (snd (g w tk q d)) = db_generation d"
    using fenced_op.frame [OF assms(1)] assms(2) [of w tk q d] by auto
qed

lemma guarded_monitored:
  "acknowledge_monitored_cohort_child w tk q d = acknowledge_monitored_child w tk q d
   \<or> (\<exists>e. acknowledge_monitored_cohort_child w tk q d = (Inl e, d))"
  by (simp add: acknowledge_monitored_cohort_child_def own_refuse_def)

lemma guarded_ack:
  "acknowledge_cohort_child w tk q d = acknowledge_child w tk q d \<or> (\<exists>e. acknowledge_cohort_child w tk q d = (Inl e, d))"
  by (simp add: acknowledge_cohort_child_def own_refuse_def split: option.split)

interpretation fenced_monitored_member: fenced_op acknowledge_monitored_cohort_child
  by (rule fenced_guarded [OF fenced_monitored.fenced_op_axioms guarded_monitored])

interpretation fenced_member: fenced_op acknowledge_cohort_child
  by (rule fenced_guarded [OF fenced_ack.fenced_op_axioms guarded_ack])

section \<open>Releasing\<close>

text \<open>The intents after a release: the acknowledged ones with a permit are released with it.\<close>

definition granted :: "child_permit list \<Rightarrow> intent \<Rightarrow> intent" where
  "granted ps x = (if in_state x = ''acknowledged''
     then (case map_of (map prod.swap ps) (in_id x) of None \<Rightarrow> x | Some p \<Rightarrow> release_intent p x) else x)"

lemma release_member_Inr:
  assumes "release_member w tk n v d = Inr (pi, d')"
  shows "pi = (w_uuid w n, cm_intent (mv_member v))
     \<and> (\<exists>act. assert_activity_binding w tk (cm_activity (mv_member v)) d = Inr act \<and> ac_state act \<in> {''pending'', ''active''})
     \<and> db_intents d' = map (granted [pi]) (db_intents d)
     \<and> db_activities d' = update_where (\<lambda>x. ac_id x = cm_activity (mv_member v)) (activate tk) (db_activities d)
     \<and> db_accounting d' = db_accounting d \<and> db_limits d' = db_limits d \<and> db_debits d' = db_debits d \<and> db_bindings d' = db_bindings d
     \<and> db_budgets d' = db_budgets d \<and> db_reservations d' = db_reservations d \<and> db_generation d' = db_generation d \<and> kept d' = kept d
     \<and> db_members d' = db_members d \<and> db_cohorts d' = db_cohorts d"
proof -
  let ?i = "cm_intent (mv_member v)" and ?a = "cm_activity (mv_member v)"
  let ?d1 = "update_activity ?a (activate tk) d"
  let ?d2 = "?d1\<lparr>db_intents := update_where (\<lambda>x. in_id x = ?i \<and> in_state x = ''acknowledged'') (release_intent (w_uuid w n)) (db_intents ?d1)\<rparr>"
  from assms obtain act where act: "assert_activity_binding w tk ?a d = Inr act" "ac_state act \<in> set [''pending'', ''active'']"
    and ev: "record_launch_clock_tx w tk ?a ?i ?d2 = Inr d'" and pi: "pi = (w_uuid w n, ?i)"
    by (auto simp: release_member_def Let_def split: if_split_asm)
  note e = launch_clock_frame [OF ev]
  have "kept d' = kept d" using launch_clock_kept [OF ev] by (simp add: kept_def update_activity_def)
  moreover have "update_where (\<lambda>x. in_id x = ?i \<and> in_state x = ''acknowledged'') (release_intent (w_uuid w n)) rows = map (granted [pi]) rows" for rows
    by (simp add: update_where_def granted_def pi cong: if_cong)
  ultimately show ?thesis using act pi event_frameD [OF e] event_members [OF e] by (simp add: update_activity_def)
qed

lemma granted_Nil [simp]: "granted [] x = x"
  by (simp add: granted_def)

lemma granted_Cons: "granted ps (granted [pi] x) = granted (pi # ps) x"
  by (cases pi) (auto simp: granted_def release_intent_def split: option.splits)

lemma granted_sel [simp]: "in_id (granted ps x) = in_id x" "in_activity (granted ps x) = in_activity x"
  "in_ack (granted ps x) = in_ack x" "in_child (granted ps x) = in_child x" "in_completion (granted ps x) = in_completion x"
  "in_generation (granted ps x) = in_generation x"
  by (simp_all add: granted_def release_intent_def split: option.split)

lemma granted_other: "in_id x \<notin> snd ` set ps \<Longrightarrow> granted ps x = x"
  by (force simp: granted_def map_of_eq_None_iff split: option.split dest: map_of_SomeD)

definition members_of :: "member_view list \<Rightarrow> string list" where
  "members_of vs = map (\<lambda>v. cm_intent (mv_member v)) vs"

lemma release_members_Inr:
  assumes "release_members w tk readings n vs d = Inr (ps, d')"
  shows "map snd ps = members_of vs \<and> db_intents d' = map (granted ps) (db_intents d)
     \<and> db_accounting d' = db_accounting d \<and> db_limits d' = db_limits d \<and> db_debits d' = db_debits d \<and> db_bindings d' = db_bindings d
     \<and> db_budgets d' = db_budgets d \<and> db_reservations d' = db_reservations d \<and> db_generation d' = db_generation d \<and> kept d' = kept d
     \<and> db_members d' = db_members d \<and> db_cohorts d' = db_cohorts d"
  using assms
proof (induction vs arbitrary: n d ps)
  case Nil then show ?case by (simp add: members_of_def)
next
  case (Cons v vs)
  let ?w = "w\<lparr>w_mono_ns := fst (readings n), w_wall_ns := snd (readings n)\<rparr>"
  from Cons.prems obtain pi d1 qs where one: "release_member ?w tk n v d = Inr (pi, d1)"
    and rest: "release_members w tk readings (Suc n) vs d1 = Inr (qs, d')" and ps: "ps = pi # qs" by auto
  from release_member_Inr [OF one] Cons.IH [OF rest] show ?case
    by (simp add: ps members_of_def granted_Cons comp_def)
qed

text \<open>An acknowledged intent of a member has its acknowledgement and its child.\<close>

definition bound_members :: "string list \<Rightarrow> db \<Rightarrow> bool" where
  "bound_members ids d = (\<forall>x \<in> set (db_intents d). in_id x \<in> set ids \<longrightarrow> in_state x = ''acknowledged'' \<longrightarrow> in_ack x \<noteq> None \<and> in_child x \<noteq> None)"

lemma release_member_preserves:
  assumes ok: "launch_ok d" and run: "release_member w tk n v d = Inr (pi, d')" and bound: "bound_members [cm_intent (mv_member v)] d"
  shows "preserves d d'"
proof -
  note R = release_member_Inr [OF run]
  from R obtain act where act: "assert_activity_binding w tk (cm_activity (mv_member v)) d = Inr act" "ac_state act \<in> {''pending'', ''active''}"
    by blast
  show ?thesis
  proof (rule stepped_preserves [OF ok])
    show "stepped d d'"
      by (rule update_stepped [OF launch_okD(1) [OF ok], of "cm_activity (mv_member v)" act _ "activate tk"])
        (use act R in \<open>simp_all add: assert_binding_Inr activate_def same_run_def is_open_def terminal_states_def comp_def, auto\<close>)
    show "intents_step d d'"
    proof (rule intents_map [where P = "\<lambda>_. True" and f = "granted [pi]"])
      fix i assume i: "i \<in> set (db_intents d)"
      have "intent_le i (release_intent p i)" if "in_state i = ''acknowledged''" "in_id i = cm_intent (mv_member v)" for p
      proof -
        have "intent_ok i" using launch_okD(6) [OF ok i] .
        then have "\<not> settled i" using that(1) settled_state by fastforce
        then show ?thesis using bound i that by (auto simp: intent_le_def release_intent_def intent_ok_def settled_def bound_members_def)
      qed
      then show "intent_le i (granted [pi] i)" using R by (auto simp: granted_def split: if_split_asm)
    qed (use R in \<open>simp add: update_where_def\<close>)
  qed (use R in simp_all)
qed

lemma release_members_preserves:
  assumes "launch_ok d" "release_members w tk readings n vs d = Inr (ps, d')" "bound_members (members_of vs) d"
  shows "preserves d d'"
  using assms
proof (induction vs arbitrary: n d ps)
  case Nil then show ?case by (simp add: preserves_refl)
next
  case (Cons v vs)
  let ?w = "w\<lparr>w_mono_ns := fst (readings n), w_wall_ns := snd (readings n)\<rparr>"
  from Cons.prems(2) obtain pi d1 qs where one: "release_member ?w tk n v d = Inr (pi, d1)"
    and rest: "release_members w tk readings (Suc n) vs d1 = Inr (qs, d')" by auto
  have b: "bound_members [cm_intent (mv_member v)] d" "bound_members (members_of vs) d"
    using Cons.prems(3) by (auto simp: bound_members_def members_of_def)
  have step: "preserves d d1" by (rule release_member_preserves [OF Cons.prems(1) one b(1)])
  have "bound_members (members_of vs) d1"
    using b(2) release_member_Inr [OF one] by (auto simp: bound_members_def granted_def release_intent_def split: option.split_asm if_split_asm)
  from preserves_trans [OF step Cons.IH [OF preserves_ok [OF step] rest this]] show ?case .
qed

lemma member_views_sound:
  assumes "v \<in> set (member_views cid d)"
  shows "intent_of (cm_intent (mv_member v)) d = Some (mv_intent v) \<and> cm_cohort (mv_member v) = cid \<and> mv_member v \<in> set (db_members d)"
proof -
  from assms obtain m where m: "m \<in> set (cohort_members cid d)" "member_view_of d m = Some v"
    by (auto simp: member_views_def map_filter_def)
  then show ?thesis by (auto simp: cohort_members_def member_view_of_def split: option.split_asm)
qed

text \<open>What the first half of the release saw of a member still holds in the transaction.\<close>

definition ready_view :: "world \<Rightarrow> member_view \<Rightarrow> bool" where
  "ready_view w v = (\<not> member_ended v \<and> member_acknowledged v \<and> member_alive w v)"

lemma ready_view_signature: "view_signature v = view_signature u \<Longrightarrow> ready_view w v = ready_view w u"
  by (simp add: view_signature_def ready_view_def member_ended_def member_acknowledged_def member_alive_def split: option.split)

lemma observe_ready:
  assumes "observe_cohort w tk cid d = Inr (Inr vs)" shows "\<forall>v \<in> set vs. ready_view w v"
  using assms
  by (auto simp: observe_cohort_def ready_view_def Let_def list_all_iff list_ex_iff split: option.split_asm if_split_asm)

lemma signature_ready:
  assumes "map view_signature vs = map view_signature seen" "\<forall>v \<in> set seen. ready_view w v" "v \<in> set vs"
  shows "ready_view w v"
proof -
  from assms(1,3) have "view_signature v \<in> view_signature ` set seen" by (metis image_eqI list.set_map)
  then obtain u where "u \<in> set seen" "view_signature v = view_signature u" by auto
  then show ?thesis using assms(2) ready_view_signature by blast
qed

lemma clock_members: "core_frame d d' \<Longrightarrow> clock_frame d d' \<Longrightarrow> db_members d' = db_members d \<and> db_cohorts d' = db_cohorts d"
  by (simp add: clock_frame_def)

lemma release_clock:
  assumes "(if \<not> db_policy_installed d \<or> budget_of tk d = None then Inr (None, d)
            else policy_authorize_clock_tx w tk 1 b n d) = Inr (err, d1)"
  shows "clock_frame d d1 \<and> budget_rel charge_fence d d1 \<and> kept d1 = kept d"
  using assms authorize_rel [of w tk 1 b n d err d1] optional_clock_kept [OF assms]
  by (auto simp: budget_rel_same clock_frame_def split: if_split_asm)

lemma release_cohort_tx_cases:
  assumes "release_cohort_tx w tk q seen d = Inr (r, d')"
  obtains (refused) code where "r = own_refuse code" "clock_frame d d'" "budget_rel charge_fence d d'" "kept d' = kept d"
  | (released) c ps d1 d2 where "r = Inr ps" "cohort_by_id (rq_cohort q) d = Some c" "co_state c = ''acknowledged''"
      "co_generation c = tk_generation tk"
      "map view_signature (member_views (rq_cohort q) d) = map view_signature seen" "clock_frame d d1" "budget_rel charge_fence d d1"
      "kept d1 = kept d" "release_members w tk (rq_readings q) 0 (member_views (rq_cohort q) d) d1 = Inr (ps, d2)"
      "d' = add_event ''launch_cohort_released'' (cohort_released tk (rq_cohort q) ps)
         (d2\<lparr>db_cohorts := update_where (\<lambda>x. co_id x = rq_cohort q) (\<lambda>x. x\<lparr>co_state := ''released_to_execute''\<rparr>) (db_cohorts d2)\<rparr>)"
proof -
  from assms obtain c u err d1 where c: "cohort_by_id (rq_cohort q) d = Some c" "co_generation c = tk_generation tk"
      "co_state c = ''acknowledged''" "map view_signature (member_views (rq_cohort q) d) = map view_signature seen"
    and clk: "(if \<not> db_policy_installed d \<or> budget_of tk d = None then Inr (None, d)
            else policy_authorize_clock_tx w tk 1 (rq_boot q) (rq_ns q) d) = Inr (err, d1)"
    and rest: "(case err of Some code \<Rightarrow> Inr (own_refuse code, d1)
      | None \<Rightarrow> bindR (release_members w tk (rq_readings q) 0 (member_views (rq_cohort q) d) d1) (\<lambda>(ps, d2).
          Inr (Inr ps, add_event ''launch_cohort_released'' (cohort_released tk (rq_cohort q) ps)
            (d2\<lparr>db_cohorts := update_where (\<lambda>x. co_id x = rq_cohort q) (\<lambda>x. x\<lparr>co_state := ''released_to_execute''\<rparr>)
              (db_cohorts d2)\<rparr>)))) = Inr (r, d')"
    unfolding release_cohort_tx_def Let_def bindR_eq_Inr case_option_refuse refuse_if_Inr split_paired_Ex prod.case
    by (elim exE conjE) (rule that, assumption, simp, simp, simp, assumption, assumption)
  note f = release_clock [OF clk]
  show thesis
  proof (cases err)
    case (Some code)
    with rest have "r = own_refuse code" "d' = d1" by auto
    then show thesis using refused f by blast
  next
    case None
    with rest obtain ps d2 where "release_members w tk (rq_readings q) 0 (member_views (rq_cohort q) d) d1 = Inr (ps, d2)" "r = Inr ps"
      "d' = add_event ''launch_cohort_released'' (cohort_released tk (rq_cohort q) ps)
         (d2\<lparr>db_cohorts := update_where (\<lambda>x. co_id x = rq_cohort q) (\<lambda>x. x\<lparr>co_state := ''released_to_execute''\<rparr>) (db_cohorts d2)\<rparr>)"
      by auto
    then show thesis using released c f by blast
  qed
qed

lemma release_tx_preserves:
  assumes ok: "launch_ok d" and seen: "\<forall>v \<in> set seen. ready_view w v"
  shows "preserves d (snd (transaction (release_cohort_tx w tk q seen) d))"
proof (rule tx_preserves [OF ok])
  fix r d' assume "release_cohort_tx w tk q seen d = Inr (r, d')"
  then show "preserves d d'"
  proof (cases rule: release_cohort_tx_cases)
    case (refused code) then show ?thesis using core_preserves [OF ok core_of_clock] by blast
  next
    case (released c ps d1 d2)
    note core = core_of_clock [OF released(6)]
    let ?vs = "member_views (rq_cohort q) d"
    have "bound_members (members_of ?vs) d1"
      unfolding bound_members_def
    proof (intro ballI impI)
      fix x assume x: "x \<in> set (db_intents d1)" "in_id x \<in> set (members_of ?vs)"
      then obtain v where v: "v \<in> set ?vs" "in_id x = cm_intent (mv_member v)" by (auto simp: members_of_def)
      have "x \<in> set (db_intents d)" using x(1) core by (simp add: core_frame_def)
      then have "mv_intent v = x" using member_views_sound [OF v(1)] intent_of_unique [OF ok] v(2) by fastforce
      then show "in_ack x \<noteq> None \<and> in_child x \<noteq> None"
        using signature_ready [OF released(5) seen v(1)]
        by (auto simp: ready_view_def member_acknowledged_def member_alive_def split: option.split_asm)
    qed
    from release_members_preserves [OF core_ok [OF core ok] released(9) this] have step: "preserves d1 d2" .
    have "core_frame d2 d'" by (simp add: released(10) core_frame_def)
    then have "preserves d1 d'" using preserves_trans [OF step core_preserves [OF preserves_ok [OF step]]] by blast
    then show ?thesis by (rule preserves_trans_core [OF core ok])
  qed
qed

text \<open>The call around the transaction.\<close>

lemma authorize_cohort_cases:
  obtains (refused) e where "authorize_launch_cohort w tk q d = (Inl e, d)"
  | (run) k where "authorize_launch_cohort w tk q d = seq_op (preflight_policy_clock w tk (rq_boot q) (rq_ns q) d) k"
      "\<And>d1 e. assert_owner w tk d1 = Inl e \<Longrightarrow> isl (fst (k () d1)) \<and> snd (k () d1) = d1"
      "\<And>d1. snd (k () d1) = d1 \<and> (isl (fst (k () d1)) \<or> observe_cohort w tk (rq_cohort q) (rq_seen q d1) = Inr (Inl (projr (fst (k () d1)))))
         \<or> (\<exists>vs. observe_cohort w tk (rq_cohort q) (rq_seen q d1) = Inr (Inr vs)
           \<and> k () d1 = seq_op (transaction (release_cohort_tx w tk q vs) d1) (\<lambda>r d2. (r, d2)))"
proof (cases "rq_cohort q = []")
  case True
  then show thesis using refused by (simp add: authorize_launch_cohort_def own_refuse_def)
next
  case False
  let ?k = "\<lambda>_ d1. case assert_owner w tk d1 of Inl e \<Rightarrow> (Inl e, d1)
        | Inr _ \<Rightarrow> (case observe_cohort w tk (rq_cohort q) (rq_seen q d1) of
               Inl e \<Rightarrow> (Inl e, d1)
             | Inr (Inl permits) \<Rightarrow> (Inr permits, d1)
             | Inr (Inr vs) \<Rightarrow> seq_op (transaction (release_cohort_tx w tk q vs) d1) (\<lambda>r d2. (r, d2)))"
  show thesis
    by (rule run [of ?k]) (use False in \<open>auto simp: authorize_launch_cohort_def split: sum.split\<close>)
qed

lemma release_tx_frame:
  fixes d :: db
  defines "d' w tk q vs \<equiv> snd (transaction (release_cohort_tx w tk q vs) d)"
  shows "kept (d' w tk q vs) = kept d" "budget_rel charge_fence d (d' w tk q vs)"
    "db_reservations (d' w tk q vs) = db_reservations d \<and> db_generation (d' w tk q vs) = db_generation d"
proof -
  have "kept d1 = kept d \<and> budget_rel charge_fence d d1 \<and> db_reservations d1 = db_reservations d \<and> db_generation d1 = db_generation d"
    if d1: "d1 = d' w tk q vs" for d1
  proof (cases rule: transaction_cases [of "release_cohort_tx w tk q vs" d])
    case (refused e) then show ?thesis by (simp add: d1 d'_def budget_rel_same)
  next
    case (committed r d2)
    then have d1: "d1 = d2" by (simp add: d1 d'_def)
    from committed(1) show ?thesis
    proof (cases rule: release_cohort_tx_cases)
      case (refused code) then show ?thesis by (simp add: d1 clock_frame_def)
    next
      case (released c ps da db)
      note R = release_members_Inr [OF released(9)]
      have "budget_rel charge_fence da d2" by (rule budget_rel_same) (use R in \<open>simp_all add: released(10)\<close>)
      then have "budget_rel charge_fence d d2" using budget_rel_trans [OF rel_order(4)] released(7) by blast
      then show ?thesis using R released(6,8) by (simp add: d1 released(10) clock_frame_def kept_def)
    qed
  qed
  then show "kept (d' w tk q vs) = kept d" "budget_rel charge_fence d (d' w tk q vs)"
    "db_reservations (d' w tk q vs) = db_reservations d \<and> db_generation (d' w tk q vs) = db_generation d"
    by simp_all
qed

lemma authorize_cohort_step:
  assumes "snd r = d1 \<and> A \<or> (\<exists>vs. observe_cohort w tk cid s = Inr (Inr vs)
        \<and> r = seq_op (transaction (release_cohort_tx w tk q vs) d1) (\<lambda>r d2. (r, d2)))"
  obtains "snd r = d1" | vs where "snd r = snd (transaction (release_cohort_tx w tk q vs) d1)" "\<forall>v \<in> set vs. ready_view w v"
  using assms by (auto simp: seq_op_snd dest: observe_ready)

lemma authorize_cohort_preserves:
  assumes ok: "launch_ok d" shows "preserves d (snd (authorize_launch_cohort w tk q d))"
proof (cases rule: authorize_cohort_cases [of w tk q d])
  case (refused e) then show ?thesis using preserves_refl [OF ok] by simp
next
  case (run k)
  have "launch_ok d1 \<longrightarrow> preserves d1 (snd (k () d1))" for d1
    by (rule authorize_cohort_step [OF run(3) [of d1]])
      (simp_all add: preserves_refl release_tx_preserves)
  then show ?thesis unfolding run(1) by (intro preflight_preserves [OF ok]) (simp add: old.unit.exhaust)
qed

lemma authorize_cohort_kept: "kept (snd (authorize_launch_cohort w tk q d)) = kept d"
proof (cases rule: authorize_cohort_cases [of w tk q d])
  case (run k)
  have "kept (snd (k () d1)) = kept d1" for d1
    by (rule authorize_cohort_step [OF run(3) [of d1]]) (simp_all add: release_tx_frame)
  then show ?thesis unfolding run(1) by (intro kept_seq [OF preflight_kept]) (simp add: old.unit.exhaust)
qed simp

lemma authorize_cohort_budget: "budget_rel charge_fence d (snd (authorize_launch_cohort w tk q d))"
proof (cases rule: authorize_cohort_cases [of w tk q d])
  case (run k)
  have "budget_rel charge_fence d1 (snd (k () d1))" for d1
    by (rule authorize_cohort_step [OF run(3) [of d1]]) (simp_all add: release_tx_frame budget_rel_same)
  then show ?thesis unfolding run(1) using preflight_rel by (intro budget_seq [OF rel_order(4)]) simp_all
qed (simp add: budget_rel_same)

interpretation fenced_authorize_cohort: fenced_op authorize_launch_cohort
proof
  fix w tk d e q assume own: "assert_owner w tk d = Inl e"
  show "isl (fst (authorize_launch_cohort w tk q d)) \<and> schema_ext d (snd (authorize_launch_cohort w tk q d))"
  proof (cases rule: authorize_cohort_cases [of w tk q d])
    case (run k) then show ?thesis unfolding run(1) by (intro preflight_then_fenced [OF own]) blast
  qed simp
next
  fix w tk q d
  show "db_reservations (snd (authorize_launch_cohort w tk q d)) = db_reservations d
    \<and> db_generation (snd (authorize_launch_cohort w tk q d)) = db_generation d"
  proof (cases rule: authorize_cohort_cases [of w tk q d])
    case (run k)
    have "db_reservations (snd (k () d1)) = db_reservations d1 \<and> db_generation (snd (k () d1)) = db_generation d1" for d1
      by (rule authorize_cohort_step [OF run(3) [of d1]])
        (simp_all add: release_tx_frame)
    then show ?thesis unfolding run(1) using preflight_core by (intro seq_core_own) simp_all
  qed simp
qed

interpretation fenced_release_cohort: fenced_op release_launch_cohort
  by (rule fenced_guarded [OF fenced_authorize_cohort.fenced_op_axioms]) (simp add: release_launch_cohort_def)

section \<open>Reconciling\<close>

lemma launch_cohort_Inr: "launch_cohort_of c b d = Inr r \<Longrightarrow> lo_id r = co_id c \<and> lo_state r = co_state c \<and> lo_reused r = b"
  by (auto simp: launch_cohort_of_def Let_def split: if_split_asm)

lemma reconcile_tx_cases:
  assumes "reconcile_cohort_tx w tk cid d = Inr (r, d')"
  obtains (released) "d' = d" "lo_state r = ''released_to_execute''"
  | (uncertain) c where "d' = uncertain_cohort cid d" "\<not> lo_reused r" "c \<in> set (db_cohorts d)" "co_id c = cid"
      "co_state c \<noteq> ''released_to_execute''"
proof -
  have "(d' = d \<and> lo_state r = ''released_to_execute'') \<or> (d' = uncertain_cohort cid d \<and> \<not> lo_reused r
      \<and> (\<exists>c \<in> set (db_cohorts d). co_id c = cid \<and> co_state c \<noteq> ''released_to_execute''))"
    using assms by (auto simp: reconcile_cohort_tx_def Let_def split: option.split_asm if_split_asm
        dest!: launch_cohort_Inr find_Some_in)
  then show thesis using released uncertain by blast
qed

lemma uncertain_preserves:
  assumes ok: "launch_ok d" shows "preserves d (uncertain_cohort cid d)"
proof (rule moved_preserves [OF ok])
  show "intents_step d (uncertain_cohort cid d)"
  proof (rule intents_map)
    let ?P = "\<lambda>i. in_id i \<in> set (map cm_intent (filter (\<lambda>m. cm_cohort m = cid) (db_members d))) \<and> in_state i \<in> set [''reserved'', ''acknowledged'']"
    show "db_intents (uncertain_cohort cid d) = update_where ?P (set_state ''reconcile_required'') (db_intents d)"
      by (simp add: uncertain_cohort_def Let_def)
    fix i assume "i \<in> set (db_intents d)" "?P i"
    then have "\<not> settled i" using settled_state launch_okD(6) [OF ok] by fastforce
    then show "intent_le i (set_state ''reconcile_required'' i)" by (intro intent_le_state) simp_all
  qed
qed (simp_all add: uncertain_cohort_def Let_def map_activity_update)

lemma reconcile_cohort_preserves:
  assumes ok: "launch_ok d" shows "preserves d (snd (reconcile_launch_cohort w tk cid d))"
proof -
  have "preserves d (snd (transaction (reconcile_cohort_tx w tk cid) d))"
    by (rule tx_preserves [OF ok], erule reconcile_tx_cases) (simp_all add: preserves_refl [OF ok] uncertain_preserves [OF ok])
  then show ?thesis using preserves_refl [OF ok] by (simp add: reconcile_launch_cohort_def)
qed

lemma reconcile_cohort_frame:
  "db_budgets (snd (reconcile_launch_cohort w tk cid d)) = db_budgets d
   \<and> kept (snd (reconcile_launch_cohort w tk cid d)) = kept d
   \<and> db_reservations (snd (reconcile_launch_cohort w tk cid d)) = db_reservations d
   \<and> db_generation (snd (reconcile_launch_cohort w tk cid d)) = db_generation d"
proof (cases rule: transaction_cases [of "reconcile_cohort_tx w tk cid" d])
  case (committed r d')
  from committed(1) show ?thesis
    by (cases rule: reconcile_tx_cases) (use committed(2) in \<open>simp_all add: reconcile_launch_cohort_def uncertain_cohort_def Let_def kept_def\<close>)
qed (simp add: reconcile_launch_cohort_def)

interpretation fenced_reconcile_cohort: fenced_op reconcile_launch_cohort
proof
  fix w tk d e cid assume "assert_owner w tk d = Inl e"
  then show "isl (fst (reconcile_launch_cohort w tk cid d)) \<and> schema_ext d (snd (reconcile_launch_cohort w tk cid d))"
    by (simp add: reconcile_launch_cohort_def reconcile_cohort_tx_def transaction_def)
next
  fix w tk cid d
  show "db_reservations (snd (reconcile_launch_cohort w tk cid d)) = db_reservations d
    \<and> db_generation (snd (reconcile_launch_cohort w tk cid d)) = db_generation d" using reconcile_cohort_frame by blast
qed

end
