(* ===== verification/Run_Safety.thy ===== *)
theory Run_Safety
  imports Policy_Refine Cohort_Safety
begin

text \<open>
  All calls together: one step relation over the activity, launch, limit, policy and ownership
  operations of every process, the invariant of \<^theory_text>\<open>Launch_Safety\<close> over its runs, and what follows
  for a run: its ledger, its activities, its launches, its budget and its owners.
\<close>

section \<open>The policy calls leave activities and launches alone\<close>

lemma core_tx: "(\<And>x d'. body d = Inr (x, d') \<Longrightarrow> core_frame d d') \<Longrightarrow> core_frame d (snd (transaction body d))"
  by (cases rule: transaction_cases [of body d]) auto

lemma core_seq:
  assumes "core_frame d (snd r)" and "\<And>x d1. core_frame d1 (snd (k x d1))"
  shows "core_frame d (snd (seq_op r k))"
proof -
  obtain v d1 where r: "r = (v, d1)" by (cases r)
  show ?thesis using assms core_frame_trans [OF _ assms(2)] by (cases v) (simp_all add: r)
qed

lemma core_install [simp]: "core_frame d (install_policy d)"
  by (simp_all add: core_frame_def)

lemma core_preflight: "core_frame d (snd (preflight_policy_clock w tk boot ns d))"
  using preflight_core by blast

lemma core_clock: "core_frame d (snd (policy_clock_tx w tk b m a r d))"
  by (rule core_of_clock [OF policy_clock_frame])

lemma configure_core: "core_frame d (snd (configure_run_policy_budget w tk args d))"
proof -
  have "core_frame d1 (snd (transaction (configure_tx w tk t m b n) d1))" for t m b n d1
    by (rule core_tx) (auto dest!: configure_tx_Inr intro: core_of_clock)
  from core_frame_trans [OF _ this, of d "install_policy (install_context d)"] show ?thesis
    by (cases args) (auto simp: configure_run_policy_budget_def core_frame_def split: sum.splits)
qed

lemma reserve_action_core: "core_frame d (snd (reserve_policy_action w tk q d))"
proof -
  have "core_frame d1 (snd (transaction (reserve_action_tx w tk a l i c n) d1))" for a l i c n d1
    by (rule core_tx) (auto dest!: reserve_action_tx_frame simp: core_frame_def clock_frame_def)
  then have "core_frame (install_policy d) (snd (seq_op (preflight_policy_clock w tk PNone PNone (install_policy d))
      (\<lambda>_ d'. transaction (reserve_action_tx w tk a l i c n) d')))" for a l i c n
    by (intro core_seq core_preflight)
  from core_frame_trans [OF _ this, of d] show ?thesis
    by (auto simp: reserve_policy_action_def split: sum.splits)
qed

lemma cancel_core: "core_frame d (snd (transaction (cancel_tx w tk acts i) d))"
proof (rule core_tx)
  fix x d' assume "cancel_tx w tk acts i d = Inr (x, d')"
  then show "core_frame d d'" using cancel_tx_Inr [of w tk acts i d d'] by (auto simp: core_frame_def)
qed

lemma receipt_core: "core_frame d (snd (record_policy_action_receipt w tk args d))"
proof -
  have "core_frame d1 (snd (transaction (record_receipt_tx w tk i inp r v) d1))" for i inp r v d1
    by (rule core_tx) (auto dest!: record_receipt_tx_Inr simp: core_frame_def clock_frame_def)
  from core_frame_trans [OF _ this, of d "install_policy d"] show ?thesis
    by (cases args) (auto simp: record_policy_action_receipt_def split: sum.splits)
qed

lemma wait_core: "core_frame d (snd (record_policy_wait w tk args d))"
proof -
  have tx: "core_frame d1 (snd (transaction (wait_tx w tk k n b m) d1))" for k n b m d1
  proof (rule core_tx)
    fix r d' assume "wait_tx w tk k n b m d1 = Inr (r, d')"
    from wait_tx_Inr [OF this] show "core_frame d1 d'"
      using core_clock [of d1 w tk] by (auto simp: core_frame_def)
  qed
  have "core_frame d (snd (seq_op (transaction (wait_tx w tk k n b m) (install_policy d))
      (\<lambda>(ok, r) d'. if \<not> ok then (own_refuse ''CLOCK_RECONCILIATION_REQUIRED'', d') else (Inr r, d'))))" for k n b m
    by (intro core_seq core_frame_trans [OF _ tx]) (simp_all split: prod.split)
  then show ?thesis by (cases args) (simp add: record_policy_wait_def)
qed

lemma reconcile_core: "core_frame d (snd (reconcile_run_policy_clock w tk receipt d))"
proof -
  have "core_frame d1 (snd (transaction (reconcile_clock_tx w tk c) d1))" for c d1
    by (rule core_tx) (auto dest!: reconcile_clock_tx_Inr simp: core_frame_def)
  from core_frame_trans [OF _ this, of d "install_policy d"] show ?thesis
    by (auto simp: reconcile_run_policy_clock_def split: sum.splits)
qed

lemma close_core [simp]: "core_frame d (close_interval i ns d)"
  by (simp add: core_frame_def close_interval_def)

lemma fold_close_core: "core_frame d (fold (\<lambda>x. close_interval (wi_id x) ns) xs d)"
proof (induction xs arbitrary: d)
  case (Cons x xs) then show ?case using core_frame_trans [OF close_core Cons.IH] by simp
qed simp

lemma core_event [simp]: "core_frame d (add_event t p d') = core_frame d d'"
  by (simp add: core_frame_def)

lemma dead_work_core: "core_frame d (snd (reconcile_dead_policy_work w tk d))"
proof -
  have tx: "core_frame d (snd (transaction (reconcile_dead_tx w tk xs os) d))" for xs os d
  proof (rule core_tx)
    fix ok d' assume run: "reconcile_dead_tx w tk xs os d = Inr (ok, d')"
    from run obtain b m where s: "policy_sample w 2 PNone PNone = Inr (b, m)"
      by (auto simp: reconcile_dead_tx_def split: if_split_asm)
    obtain ok1 d1 where c: "policy_clock_tx w tk b m True False d = (ok1, d1)"
      by (cases "policy_clock_tx w tk b m True False d")
    have one: "core_frame d d1" using core_clock [of d w tk b m True False] by (simp add: c)
    have two: "core_frame d (snd (policy_clock_tx w tk b m a False (fold (\<lambda>x. close_interval (wi_id x) m) xs d1)))" for a
      by (rule core_frame_trans [OF core_frame_trans [OF one fold_close_core] core_clock])
    show "core_frame d d'"
      using run one two by (auto simp: reconcile_dead_tx_def Let_def s c split: if_split_asm)
  qed
  show ?thesis
    by (auto simp: reconcile_dead_policy_work_def Let_def intro!: core_seq tx split: sum.splits)
qed

lemma begin_core: "core_frame d (snd (begin_policy_work w tk args d))"
proof -
  have tx: "core_frame d (snd (transaction (begin_work_tx w tk k b n) d))" for k b n d
    by (rule core_tx) (drule begin_work_tx_Inr, simp add: core_frame_def clock_frame_def)
  show ?thesis
    by (cases args) (auto simp: begin_policy_work_def intro!: core_seq tx core_preflight dead_work_core split: option.splits)
qed

lemma end_core: "core_frame d (snd (end_policy_work w tk args d))"
proof -
  have tx: "core_frame d (snd (transaction (end_work_tx w tk i b n) d))" for i b n d
  proof (rule core_tx)
    fix ok d' assume "end_work_tx w tk i b n d = Inr (ok, d')"
    then show "core_frame d d'"
      using core_clock [of "close_interval i m d" w tk] core_frame_trans [OF close_core core_clock]
      unfolding end_work_tx_def case_option_refuse
      by (auto simp: Let_def split: if_split_asm) (metis snd_conv)
  qed
  show ?thesis by (cases args) (auto simp: end_policy_work_def intro!: core_seq tx)
qed

lemma revise_core: "core_frame d (snd (revise_capacity_policy w tk args d))"
proof -
  have "core_frame d1 (snd (transaction (revise_capacity_tx w tk c e k) d1))" for c e k d1
    by (rule core_tx) (auto simp: revise_capacity_tx_def Let_def core_frame_def split: if_split_asm option.split_asm)
  from core_frame_trans [OF _ this, of d "install_context d"] show ?thesis
    by (cases args) (simp add: revise_capacity_policy_def)
qed

section \<open>Budgets never shrink their charges\<close>

lemma budget_same: "db_budgets d' = db_budgets d \<Longrightarrow> budget_rel charge_fence d d'"
  by (rule budget_rel_same [OF rel_order(3)])

lemma budget_trans: "budget_rel charge_fence d d1 \<Longrightarrow> budget_rel charge_fence d1 d2 \<Longrightarrow> budget_rel charge_fence d d2"
  by (rule budget_rel_trans [OF rel_order(4)])

lemma budget_same_tx:
  "(\<And>x d'. body d = Inr (x, d') \<Longrightarrow> db_budgets d' = db_budgets d) \<Longrightarrow> db_budgets (snd (transaction body d)) = db_budgets d"
  by (cases rule: transaction_cases [of body d]) auto

lemma budget_fence_tx:
  "(\<And>x d'. body d = Inr (x, d') \<Longrightarrow> budget_rel charge_fence d d') \<Longrightarrow> budget_rel charge_fence d (snd (transaction body d))"
  by (rule budget_tx [OF rel_order(3)])

lemma insert_activity_budgets: "insert_activity r d = Inr d' \<Longrightarrow> db_budgets d' = db_budgets d"
  by (auto simp: insert_activity_def)

lemma activity_budgets:
  assumes "activity_step d d'" shows "db_budgets d' = db_budgets d"
  using assms
proof cases
  case (create w tk args)
  have "db_budgets (snd (transaction (create_activity_tx w tk k g b key) d)) = db_budgets d" for k g b key
    by (rule budget_same_tx)
      (auto simp: create_activity_tx_def Let_def dest!: insert_activity_budgets split: option.splits if_split_asm)
  then show ?thesis by (cases args) (simp add: create create_activity_def)
next
  case (runtime w tk args)
  have "db_budgets (snd (transaction (bind_runtime_tx w tk a h) d)) = db_budgets d" for a h
    by (rule budget_same_tx) (auto simp: bind_runtime_tx_def reread_Inr split: if_split_asm)
  then show ?thesis by (cases args) (simp add: runtime bind_runtime_def)
next
  case (transit w tk t)
  have "db_budgets (snd (transaction (transition_activity_tx w tk t) d)) = db_budgets d"
  proof (rule budget_same_tx)
    fix x d' assume "transition_activity_tx w tk t d = Inr (x, d')"
    then show "db_budgets d' = db_budgets d" by (rule transition_tx_Inr) (simp add: add_event_def)
  qed
  then show ?thesis by (simp add: transit transition_activity_def)
next
  case (select w tk sel)
  have "db_budgets (snd (transaction (select_activity_tx w tk k g x y) d)) = db_budgets d" for k g x y
    by (rule budget_same_tx)
      (auto simp: select_activity_tx_def Let_def dest!: insert_activity_budgets split: option.splits if_split_asm)
  then show ?thesis by (cases sel) (simp add: select select_activity_def)
next
  case (event w tk ev)
  have "db_budgets (snd (transaction (\<lambda>d. bindR (assert_activity_binding w tk a d) (\<lambda>_.
      record_event_once_tx w tk a k p d)) d)) = db_budgets d" for a k p
    by (rule budget_same_tx) (auto dest!: record_event_frame dest: event_frameD)
  then show ?thesis by (cases ev) (simp add: event record_event_once_def split: pyval.splits)
next
  case (debit w tk db)
  have "db_budgets (snd (transaction (debit_tx w tk a n key) d)) = db_budgets d" for a n key
  proof (rule budget_same_tx)
    fix b d' assume "debit_tx w tk a n key d = Inr (b, d')"
    then show "db_budgets d' = db_budgets d" by (cases rule: debit_tx_cases) simp_all
  qed
  then show ?thesis by (cases db) (simp add: debit debit_budget_def)
qed

lemma reserve_tx_budget: "budget_rel charge_fence d (snd (transaction (reserve_launch_tx w tk a q c) d))"
proof (rule budget_fence_tx)
  fix x d' assume run: "reserve_launch_tx w tk a q c d = Inr (x, d')"
  obtain i reused where x: "x = (i, reused)" by (cases x)
  from run [unfolded x] show "budget_rel charge_fence d d'"
  proof (cases rule: reserve_tx_cases)
    case same then show ?thesis by (simp add: budget_same)
  next
    case (unknown e) then show ?thesis by (simp add: budget_same)
  next
    case (fresh act) then show ?thesis using reserve_write_Inr by blast
  qed
qed

lemma authorize_tx_budget: "budget_rel charge_fence d (snd (transaction (authorize_tx w tk q) d))"
proof (rule budget_fence_tx)
  fix r d' assume "authorize_tx w tk q d = Inr (r, d')"
  then show "budget_rel charge_fence d d'"
  proof (cases rule: authorize_tx_cases)
    case (released row p d1)
    from event_frameD [OF released(5)] have "db_budgets d' = db_budgets d1" by simp
    then show ?thesis using budget_trans [OF released(4) budget_same] by blast
  qed
qed

lemma preflight_budget: "budget_rel charge_fence d (snd (preflight_policy_clock w tk b n d))"
  using preflight_rel by blast

lemma reserve_budget: "budget_rel charge_fence d (snd (reserve_launch w tk args d))"
  by (cases args)
    (auto simp: reserve_launch_def budget_same intro!: budget_seq [OF rel_order(4)] preflight_budget reserve_tx_budget split: sum.splits)

lemma authorize_budget: "budget_rel charge_fence d (snd (authorize_child w tk q d))"
  unfolding authorize_child_def
  by (rule budget_seq [OF rel_order(4) preflight_budget]) (simp add: seq_op_snd authorize_tx_budget)

lemma ack_budgets: "db_budgets (snd (acknowledge_child w tk q d)) = db_budgets d"
proof -
  have "db_budgets (snd (transaction (ack_tx w tk q obs k) d)) = db_budgets d" for obs k
    by (rule budget_same_tx) (erule ack_tx_Inr, simp)
  then show ?thesis by (simp add: acknowledge_child_def split: sum.split)
qed

lemma recover_budgets: "db_budgets (snd (recover_intent w tk args d)) = db_budgets d"
proof -
  have "db_budgets (snd (transaction (recover_tx w tk i row) d)) = db_budgets d" for i row
    by (rule budget_same_tx) (auto dest!: recover_tx_Inr)
  then show ?thesis by (cases args) (simp add: recover_intent_def split: option.split)
qed

lemma close_dead_budgets: "db_budgets (snd (close_dead_qualification_intent w tk args d)) = db_budgets d"
proof -
  have "db_budgets (snd (transaction (close_dead_tx w tk i found) d)) = db_budgets d" for i found
  proof (rule budget_same_tx)
    fix x d' assume run: "close_dead_tx w tk i found d = Inr (x, d')"
    obtain row own kid where f: "found = (row, own, kid)" by (cases found)
    from close_dead_tx_Inr [OF run [unfolded f]] show "db_budgets d' = db_budgets d" by auto
  qed
  then show ?thesis by (cases args) (simp add: close_dead_qualification_intent_def split: option.split sum.split)
qed

lemma complete_budget: "budget_rel charge_fence d (snd (complete_launch w tk q d))"
proof -
  have "budget_rel charge_fence d (snd (transaction (complete_tx w tk q e terminal obs) d))" for e terminal obs
  proof (rule budget_fence_tx)
    fix x d' assume run: "complete_tx w tk q e terminal obs d = Inr (x, d')"
    obtain i reused where x: "x = (i, reused)" by (cases x)
    from run [unfolded x] show "budget_rel charge_fence d d'"
    proof (cases rule: complete_tx_cases)
      case replay then show ?thesis by (simp add: budget_same)
    next
      case (settled row acc act) then show ?thesis using complete_write_Inr by blast
    qed
  qed
  then show ?thesis by (simp add: complete_launch_def budget_same split: sum.split option.split)
qed

lemma contained_budget: "budget_rel charge_fence d (snd (record_contained_process w tk args d))"
proof -
  have "budget_rel charge_fence d (snd (transaction (contained_tx w tk i report l) d))" for i report l
  proof (rule budget_fence_tx)
    fix x d' assume "contained_tx w tk i report l d = Inr (x, d')"
    then show "budget_rel charge_fence d d'" unfolding contained_tx_def case_option_refuse
      by (elim exE conjE) (auto dest!: record_stopped_frame budget_of_event advance_clock_frame
          intro: budget_trans split: if_split_asm)
  qed
  then show ?thesis by (cases args) (simp add: record_contained_process_def budget_same split: sum.split prod.split)
qed

lemma configure_budgets: "db_budgets (snd (configure_run_limits w tk args d)) = db_budgets d"
proof -
  have "db_budgets (snd (transaction (configure_limits_tx w tk a b c) d1)) = db_budgets d1" for a b c d1
    by (rule budget_same_tx) (auto simp: configure_limits_tx_def Let_def split: if_split_asm option.split_asm)
  then show ?thesis by (cases args) (simp add: configure_run_limits_def)
qed

lemma revise_budgets: "db_budgets (snd (revise_capacity_policy w tk args d)) = db_budgets d"
proof -
  have "db_budgets (snd (transaction (revise_capacity_tx w tk a b c) d1)) = db_budgets d1" for a b c d1
    by (rule budget_same_tx) (auto simp: revise_capacity_tx_def Let_def split: if_split_asm option.split_asm)
  then show ?thesis by (cases args) (simp add: revise_capacity_policy_def)
qed

section \<open>Ownership calls touch only the reservations\<close>

definition reservations_only :: "db \<Rightarrow> db \<Rightarrow> bool" where
  "reservations_only d d' = (db_intents d' = db_intents d \<and> db_activities d' = db_activities d
     \<and> db_accounting d' = db_accounting d \<and> db_limits d' = db_limits d \<and> db_debits d' = db_debits d
     \<and> db_bindings d' = db_bindings d \<and> db_budgets d' = db_budgets d)"

lemma reservations_only_refl [simp]: "reservations_only d d"
  by (simp add: reservations_only_def)

lemma acquire_frame: "reservations_only d (snd (transaction (reserve_tx w req ws keys snapshot dead) d))"
  by (cases rule: transaction_cases [of "reserve_tx w req ws keys snapshot dead" d])
    (auto simp: reserve_tx_def Let_def reservations_only_def split: if_split_asm option.split_asm)

lemma release_frame: "reservations_only d (snd (transaction (release_owner w tk) d))"
  by (cases rule: transaction_cases [of "release_owner w tk" d])
    (auto simp: release_owner_def Let_def reservations_only_def split: if_split_asm option.split_asm)

lemma reservations_preserves: "launch_ok d \<Longrightarrow> reservations_only d d' \<Longrightarrow> preserves d d'"
  by (rule moved_preserves) (simp_all add: reservations_only_def intents_same)

lemma reserve_loop_frame:
  "reservations_only d (snd (reserve_loop w req ws keys (\<lambda>i s. s) n i d))"
proof (induction n arbitrary: i d)
  case (Suc n)
  have tx: "reservations_only d (snd (seq_op (transaction (reserve_tx w req ws keys snap dead) d)
      (\<lambda>r d'. case r of Some gen \<Rightarrow> (Inr gen, d') | None \<Rightarrow> reserve_loop w req ws keys (\<lambda>i s. s) n (Suc i) d')))" for snap dead
  proof -
    let ?t = "transaction (reserve_tx w req ws keys snap dead) d"
    have one: "reservations_only d (snd ?t)" by (rule acquire_frame)
    obtain r d1 where r: "?t = (r, d1)" by (cases ?t)
    have "reservations_only d1 (snd (reserve_loop w req ws keys (\<lambda>i s. s) n (Suc i) d1))" by (rule Suc.IH)
    then have "reservations_only d (snd (reserve_loop w req ws keys (\<lambda>i s. s) n (Suc i) d1))"
      using one by (simp add: r reservations_only_def)
    then show ?thesis using one by (cases r) (auto simp: r split: option.split)
  qed
  show ?case by (simp add: Let_def tx)
qed simp

lemma reserve_resources_frame: "reservations_only d (snd (reserve_resources w (\<lambda>i s. s) req d))"
proof -
  have "reservations_only d (snd (seq_op (reserve_loop w req ws keys (\<lambda>i s. s) 3 0 d) (\<lambda>gen d'. (Inr (request_token w req gen), d'))))"
    for ws keys
    using reserve_loop_frame [of d w req ws keys 3 0] by (simp add: seq_op_snd)
  then show ?thesis by (simp add: reserve_resources_def Let_def split: sum.split)
qed

section \<open>Runs\<close>

text \<open>
  One committed call of any process. \<open>reserve_commit\<close>, \<open>authorize_commit\<close> and \<open>preflight\<close> are the
  separate transactions of \<open>reserve_launch\<close> and \<open>authorize_child\<close>, between which other processes may
  commit, and \<open>cohort_commit\<close> and \<open>cohort_release_commit\<close> those of the cohorts, after a first half that saw
  every member ready; \<open>acquire\<close> is one attempt of \<open>reserve_resources\<close>. \<open>policy\<close> is a
  call of the grants, acceptance, frontend policy, journal or child components, and \<open>outside\<close> any change of
  the tables that only other code writes.
\<close>

inductive run_step :: "db \<Rightarrow> db \<Rightarrow> bool" where
  activity: "activity_step d d' \<Longrightarrow> run_step d d'"
| limits: "run_step d (snd (configure_run_limits w tk lim d))"
| capacity: "run_step d (snd (revise_capacity_policy w tk crev d))"
| reserve: "run_step d (snd (reserve_launch w tk args d))"
| acknowledge: "run_step d (snd (acknowledge_child w tk aq d))"
| authorize: "run_step d (snd (authorize_child w tk pq d))"
| recover: "run_step d (snd (recover_intent w tk rargs d))"
| close_dead: "run_step d (snd (close_dead_qualification_intent w tk cargs d))"
| complete: "run_step d (snd (complete_launch w tk cq d))"
| contained: "run_step d (snd (record_contained_process w tk pargs d))"
| preflight: "run_step d (snd (preflight_policy_clock w tk boot ns d))"
| reserve_commit: "launch_inputs q = Inr () \<Longrightarrow> run_step d (snd (transaction (reserve_launch_tx w tk a q c) d))"
| authorize_commit: "run_step d (snd (transaction (authorize_tx w tk pq) d))"
| budget: "run_step d (snd (configure_run_policy_budget w tk bargs d))"
| action: "run_step d (snd (reserve_policy_action w tk areq d))"
| cancel_review: "run_step d (snd (cancel_unlaunched_policy_review w tk i d))"
| cancel_repair: "run_step d (snd (cancel_unlaunched_repair w tk i d))"
| receipt: "run_step d (snd (record_policy_action_receipt w tk ra d))"
| wait: "run_step d (snd (record_policy_wait w tk wa d))"
| reconcile: "run_step d (snd (reconcile_run_policy_clock w tk v d))"
| begin_work: "run_step d (snd (begin_policy_work w tk ba d))"
| end_work: "run_step d (snd (end_policy_work w tk ea d))"
| acquire: "run_step d (snd (transaction (reserve_tx w req ws keys snapshot dead) d))"
| start: "run_step d (snd (reserve_resources w (\<lambda>i s. s) req d))"
| release: "run_step d (snd (transaction (release_owner w tk) d))"
| cohort: "run_step d (snd (reserve_launch_cohort w tk hargs d))"
| cohort_commit: "normalize_cohort_requests w ms = Inr (items, h) \<Longrightarrow>
    run_step d (snd (transaction (reserve_cohort_tx w tk key items h hq) d))"
| member_ack: "run_step d (snd (acknowledge_cohort_child w tk aq d))"
| monitored: "run_step d (snd (acknowledge_monitored_child w tk mq d))"
| monitored_member: "run_step d (snd (acknowledge_monitored_cohort_child w tk mq d))"
| cohort_authorize: "run_step d (snd (authorize_launch_cohort w tk rq d))"
| cohort_release: "run_step d (snd (release_launch_cohort w tk rq d))"
| cohort_release_commit: "\<forall>v \<in> set seen. ready_view w v \<Longrightarrow>
    run_step d (snd (transaction (release_cohort_tx w tk rq seen) d))"
| cohort_reconcile: "run_step d (snd (reconcile_launch_cohort w tk cid d))"
| policy: "policy_call d d' \<Longrightarrow> run_step d d'"
| outside: "outside_step d d' \<Longrightarrow> run_step d d'"

lemma cohort_calls_preserve:
  assumes ok: "launch_ok d"
  shows "preserves d (snd (acknowledge_cohort_child w tk aq d))" "preserves d (snd (acknowledge_monitored_cohort_child w tk mq d))"
    "preserves d (snd (release_launch_cohort w tk rq d))"
  using guarded_ack [of w tk aq d] guarded_monitored [of w tk mq d] ack_preserves [OF ok, of w tk aq]
    monitored_preserves [OF ok, of w tk mq] preserves_refl [OF ok]
  by (auto simp: release_launch_cohort_def authorize_cohort_preserves [OF ok])

lemma cohort_calls_budget:
  "db_budgets (snd (acknowledge_cohort_child w tk aq d)) = db_budgets d"
  "db_budgets (snd (acknowledge_monitored_cohort_child w tk mq d)) = db_budgets d"
  "budget_rel charge_fence d (snd (release_launch_cohort w tk rq d))"
  using guarded_ack [of w tk aq d] guarded_monitored [of w tk mq d] ack_budgets [of w tk aq d] monitored_frame [of w tk mq d]
  by (auto simp: release_launch_cohort_def authorize_cohort_budget)

lemma cohort_calls_kept:
  "kept (snd (acknowledge_cohort_child w tk aq d)) = kept d"
  "kept (snd (acknowledge_monitored_cohort_child w tk mq d)) = kept d"
  "kept (snd (release_launch_cohort w tk rq d)) = kept d"
  using guarded_ack [of w tk aq d] guarded_monitored [of w tk mq d] ack_kept [of w tk aq d] monitored_frame [of w tk mq d]
  by (auto simp: release_launch_cohort_def authorize_cohort_kept)

lemma run_step_preserves:
  assumes "run_step d d'" and ok: "launch_ok d" shows "preserves d d'"
  using assms(1)
  by (cases, simp_all add: activity_preserves configure_preserves reserve_preserves ack_preserves authorize_preserves
      recover_preserves close_dead_preserves complete_preserves contained_preserves reserve_tx_preserves
      launch_inputs_tokens authorize_tx_preserves ok revise_core configure_core reserve_action_core cancel_core receipt_core
      wait_core reconcile_core begin_core end_core core_preflight core_preserves
      cancel_unlaunched_policy_review_def cancel_unlaunched_repair_def
      reservations_preserves acquire_frame release_frame reserve_resources_frame policy_call_preserves outside_preserves
      reserve_cohort_preserves reserve_cohort_tx_preserves cohort_calls_preserve monitored_preserves authorize_cohort_preserves
      release_tx_preserves reconcile_cohort_preserves)

lemma charge_fence_le: "budget_rel charge_fence d d' \<Longrightarrow> budget_rel charge_le d d'"
  by (erule budget_rel_mono) (simp add: charge_fence_def)

lemma run_step_budget:
  assumes "run_step d d'" shows "budget_rel charge_le d d'"
  using assms
  by (cases, simp_all add: activity_budgets configure_budgets revise_budgets ack_budgets recover_budgets close_dead_budgets
      charge_fence_le budget_same reserve_budget authorize_budget complete_budget contained_budget preflight_budget
      reserve_tx_budget authorize_tx_budget configure_rel reserve_policy_action_rel cancel_rel record_receipt_rel
      record_policy_wait_rel reconcile_clock_rel begin_policy_work_rel end_policy_work_rel
      cancel_unlaunched_policy_review_def cancel_unlaunched_repair_def
      acquire_frame [unfolded reservations_only_def] reserve_resources_frame [unfolded reservations_only_def]
      release_frame [unfolded reservations_only_def] policy_call_budgets outside_budgets
      reserve_cohort_budget reserve_cohort_tx_frame cohort_calls_budget monitored_frame authorize_cohort_budget release_tx_frame
      reconcile_cohort_frame)

text \<open>On the policy tables every step is a change of the machine.\<close>

lemma run_step_change:
  assumes "run_step d d'" shows "change (kept d) (kept d')"
  using assms
  by (cases, simp_all add: old_calls_kept cancel_unlaunched_policy_review_def cancel_unlaunched_repair_def change_same
      policy_call_change outside_change reserve_cohort_kept reserve_cohort_tx_frame cohort_calls_kept monitored_frame
      authorize_cohort_kept release_tx_frame reconcile_cohort_frame)

lemma runs_change: "run_step\<^sup>*\<^sup>* d d' \<Longrightarrow> change\<^sup>*\<^sup>* (kept d) (kept d')"
  by (induction rule: rtranclp_induct) (auto intro: rtranclp.rtrancl_into_rtrancl run_step_change)

lemma runs_ok: "run_step\<^sup>*\<^sup>* d d' \<Longrightarrow> launch_ok d \<Longrightarrow> launch_ok d'"
  by (induction rule: rtranclp_induct) (auto dest: run_step_preserves simp: preserves_def)

lemma empty_launch_ok [simp]: "launch_ok empty_db"
  by (simp add: launch_ok_def activities_ok_def intents_ok_def ledger_ok_def empty_db_def)

text \<open>The states of a store from its creation on.\<close>

definition reachable :: "db \<Rightarrow> bool" where
  "reachable d = run_step\<^sup>*\<^sup>* empty_db d"

lemma reachable_ok: "reachable d \<Longrightarrow> launch_ok d"
  unfolding reachable_def by (erule runs_ok) simp

lemma reachable_steps: "reachable d \<Longrightarrow> run_step\<^sup>*\<^sup>* d d' \<Longrightarrow> reachable d'"
  unfolding reachable_def by (rule rtranclp_trans)

lemma reachable_step: "reachable d \<Longrightarrow> run_step d d' \<Longrightarrow> reachable d'"
  unfolding reachable_def by (rule rtranclp.rtrancl_into_rtrancl)

section \<open>The ledger of a run\<close>

text \<open>
  C1: the token and dispatch ledger of every run balances, whatever the processes did: the
  dispatches used are the launches accounted, the committed tokens are the sum over its launches of
  the final meter, or of the whole reservation while there is none, and neither exceeds its limit.
\<close>

theorem launch_ledger_balanced:
  assumes "reachable d" and "l \<in> set (db_limits d)"
  shows "let rows = filter (\<lambda>x. la_repo x = rl_repo l \<and> la_run x = rl_run l) (db_accounting d) in
     rl_dispatch_used l = int (length rows) \<and> rl_dispatch_used l \<le> rl_dispatch_limit l \<and>
     rl_committed l = sum_list (map (\<lambda>x. case la_final x of None \<Rightarrow> la_reservation x | Some u \<Rightarrow> u) rows) \<and>
     rl_committed l \<le> rl_token_limit l \<and>
     rl_used l = sum_list (map (\<lambda>x. case la_final x of None \<Rightarrow> 0 | Some u \<Rightarrow> u) rows)"
proof -
  have "balanced (db_accounting d) l" using launch_okD(3) [OF reachable_ok [OF assms(1)]] assms(2) by (simp add: ledger_ok_def)
  moreover have "run_accounting l (db_accounting d) = filter (\<lambda>x. la_repo x = rl_repo l \<and> la_run x = rl_run l) (db_accounting d)"
    by (simp add: run_accounting_def run_of_accounting_def run_of_limits_def)
  moreover have "held_tokens = (\<lambda>x. case la_final x of None \<Rightarrow> la_reservation x | Some u \<Rightarrow> u)"
    "metered = (\<lambda>x. case la_final x of None \<Rightarrow> 0 | Some u \<Rightarrow> u)"
    by (auto simp: held_tokens_def metered_def)
  ultimately show ?thesis by (simp add: balanced_def)
qed

section \<open>Launches and activities over time\<close>

lemma steps_kept:
  assumes "run_step\<^sup>*\<^sup>* d d'" and "launch_ok d" and "i \<in> set (db_intents d)" and "settled i"
  shows "i \<in> set (db_intents d')"
  using assms(1)
proof (induction rule: rtranclp_induct)
  case (step y z)
  have ok: "launch_ok y" by (rule runs_ok [OF step.hyps(1) assms(2)])
  from run_step_preserves [OF step.hyps(2) ok] have "intents_step y z" by (simp add: preserves_def)
  from intents_step_kept [OF this step.IH launch_okD(2) [OF ok]] show ?case using assms(4) by blast
qed (rule assms(3))

text \<open>
  C2: a settled launch is frozen: once it is recorded as succeeded or failed, no later call of any
  process changes its row.
\<close>

theorem settled_launch_frozen:
  assumes "reachable d" and "run_step\<^sup>*\<^sup>* d d'" and "i \<in> set (db_intents d)"
    and "in_completion i \<in> {Some ''succeeded'', Some ''failed''}"
  shows "i \<in> set (db_intents d')"
  by (rule steps_kept [OF assms(2) reachable_ok [OF assms(1)] assms(3)]) (use assms(4) in \<open>simp add: settled_def\<close>)

text \<open>
  A child is released only with a permit: a launch in the state \<open>released_to_execute\<close> has a
  permit, an acknowledgement and the identity of its child.
\<close>

theorem released_launch_permitted:
  assumes "reachable d" and "i \<in> set (db_intents d)" and "in_state i = ''released_to_execute''"
  shows "in_permit i \<noteq> None \<and> in_child i \<noteq> None \<and> in_ack i \<noteq> None"
  using launch_okD(6) [OF reachable_ok [OF assms(1)] assms(2)] assms(3) by (simp add: intent_ok_def)

text \<open>A run never has two open top-level activities.\<close>

theorem single_open_activity:
  assumes "reachable d" and "a \<in> set (db_activities d)" "is_open a" "is_top d a"
    and "b \<in> set (db_activities d)" "is_open b" "is_top d b" and "same_run a b"
  shows "a = b"
proof -
  note ok = launch_okD(1) [OF reachable_ok [OF assms(1)]]
  have "ac_revision a = ac_revision b"
    using activities_okD(3) [OF ok assms(2,5,8,3,4,7)]
      activities_okD(3) [OF ok assms(5,2) same_run_sym [OF assms(8)] assms(6,7,4)] by simp
  then show ?thesis by (rule activities_okD(2) [OF ok assms(2,5,8)])
qed

text \<open>
  C32: retry budgets are conserved: every activity has spent exactly its recorded debits plus one
  attempt per launch, and never more than its budget.
\<close>

theorem retry_budget_conserved:
  assumes "reachable d" and "a \<in> set (db_activities d)"
  shows "ac_remaining a + sum_list (map bd_amount (filter (\<lambda>b. bd_activity b = ac_id a) (db_debits d)))
       + int (length (filter (\<lambda>i. in_activity i = ac_id a) (db_intents d))) = ac_retry_budget a \<and> 0 \<le> ac_remaining a"
proof -
  have "count_list (map in_activity xs) k = length (filter (\<lambda>i. in_activity i = k) xs)" for xs k
    by (induction xs) auto
  note count = this [symmetric]
  show ?thesis
    unfolding count using activities_okD(4) [OF launch_okD(1) [OF reachable_ok [OF assms(1)]] assms(2)] by (simp add: debited_def)
qed

text \<open>A finished activity is frozen: its state and result are the same after any further calls.\<close>

theorem finished_activity_frozen:
  assumes "reachable d" and "run_step\<^sup>*\<^sup>* d d'"
    and "a \<in> set (db_activities d)" and "ac_state a \<in> set terminal_states"
  shows "\<exists>a' \<in> set (db_activities d'). ac_id a' = ac_id a \<and> ac_state a' = ac_state a \<and> ac_result a' = ac_result a"
  using assms(2)
proof (induction rule: rtranclp_induct)
  case base then show ?case using assms(3) by blast
next
  case (step y z)
  then obtain a' where a': "a' \<in> set (db_activities y)" "ac_id a' = ac_id a" "ac_state a' = ac_state a" "ac_result a' = ac_result a"
    by blast
  have "\<not> is_open a'" using a'(3) assms(4) by (simp add: is_open_def)
  then show ?case
    using run_step_preserves [OF step.hyps(2) runs_ok [OF step.hyps(1) reachable_ok [OF assms(1)]]] a'
    unfolding preserves_def by metis
qed

text \<open>
  C33: a policy budget is never replenished: no call lowers the launches charged or the active time
  used, raises a limit, or changes the tier and the recovery mode.
\<close>

theorem policy_budget_never_replenished:
  assumes "run_step\<^sup>*\<^sup>* d d'" and "budget_of tk d = Some b"
  shows "\<exists>b'. budget_of tk d' = Some b' \<and> pb_charged b \<le> pb_charged b' \<and> pb_active_ns b \<le> pb_active_ns b' \<and>
     pb_launch_limit b' = pb_launch_limit b \<and> pb_active_limit b' = pb_active_limit b \<and>
     pb_tier b' = pb_tier b \<and> pb_mode b' = pb_mode b"
proof -
  have "budget_rel charge_le d d'"
    using assms(1)
  proof (induction rule: rtranclp_induct)
    case base then show ?case by (rule budget_rel_same [OF rel_order(1)]) simp
  next
    case (step y z) then show ?case using budget_rel_trans [OF rel_order(2)] run_step_budget by blast
  qed
  from budget_relD [OF this assms(2)] show ?thesis by (auto simp: charge_le_def)
qed

end
