(* ===== verification/Run_Scenario.thy ===== *)
theory Run_Scenario
  imports Run_Safety
begin

text \<open>
  A run from an empty store to its first finished launch, every state of it reached by the modelled
  operations: \<open>start\<close>, an activity with its runtime, run limits, one launch reserved, acknowledged,
  released and completed. The theorems of \<open>Run_Safety\<close> are applied to its states.
\<close>

definition bound_activity :: activity where
  "bound_activity = made_activity\<lparr>ac_runtime := Some ''rt''\<rparr>"

definition scenario_limits :: run_limits where
  "scenario_limits = \<lparr>rl_repo = ''repo'', rl_run = ''run'', rl_dispatch_limit = 2, rl_token_limit = 100,
     rl_capacity = 1, rl_dispatch_used = 0, rl_committed = 0, rl_used = 0, rl_generation = 1\<rparr>"

definition first_intent :: intent where
  "first_intent = \<lparr>in_id = ''u0'', in_activity = ''u0'', in_ordinal = 1, in_state = ''reserved'',
     in_generation = 1, in_exempt = False, in_child = None, in_ack = None, in_permit = None,
     in_completion = None, in_evidence = None, in_usage = None\<rparr>"

definition first_row :: accounting where
  "first_row = \<lparr>la_intent = ''u0'', la_repo = ''repo'', la_run = ''run'', la_reservation = 10, la_final = None\<rparr>"

text \<open>The tables of the run; the events and the event keys are left open.\<close>

definition stage ::
  "(string \<times> pyval) list \<Rightarrow> event_key list \<Rightarrow> activity \<Rightarrow> run_limits \<Rightarrow> intent list \<Rightarrow> accounting list \<Rightarrow> db"
where
  "stage evs ks a l is acc = sample_db\<lparr>db_events := evs, db_context := Some [], db_keys := ks, db_activities := [a],
     db_limits := [l], db_intents := is, db_accounting := acc\<rparr>"

lemma stage_sel [simp]:
  "db_reservations (stage evs ks a l is acc) = db_reservations sample_db" "db_migration (stage evs ks a l is acc) = None"
  "db_activities (stage evs ks a l is acc) = [a]" "db_limits (stage evs ks a l is acc) = [l]"
  "db_intents (stage evs ks a l is acc) = is" "db_accounting (stage evs ks a l is acc) = acc"
  "db_keys (stage evs ks a l is acc) = ks" "db_events (stage evs ks a l is acc) = evs"
  "db_context (stage evs ks a l is acc) = Some []" "db_policy_installed (stage evs ks a l is acc) = False"
  "db_cohorts (stage evs ks a l is acc) = []" "db_members (stage evs ks a l is acc) = []"
  "db_capacity (stage evs ks a l is acc) = []" "db_bindings (stage evs ks a l is acc) = []"
  by (simp_all add: stage_def)

lemma stage_upd:
  "stage evs ks a l is acc\<lparr>db_activities := [a']\<rparr> = stage evs ks a' l is acc"
  "stage evs ks a l is acc\<lparr>db_limits := [l']\<rparr> = stage evs ks a l' is acc"
  "stage evs ks a l is acc\<lparr>db_intents := is'\<rparr> = stage evs ks a l is' acc"
  "stage evs ks a l is acc\<lparr>db_accounting := acc'\<rparr> = stage evs ks a l is acc'"
  "stage evs ks a l is acc\<lparr>db_keys := ks'\<rparr> = stage evs ks' a l is acc"
  "add_event t p (stage evs ks a l is acc) = stage (evs @ [(t, p)]) ks a l is acc"
  by (simp_all add: stage_def add_event_def)

lemma stage_fence [simp]: "fence sample_world sample_token (stage evs ks a l is acc) = Inr ()"
  by (rule sample_fence) simp_all

lemma stage_activity [simp]: "activity_of i (stage evs ks a l is acc) = (if ac_id a = i then Some a else None)"
  by (simp add: activity_of_def)

lemma stage_limits [simp]: "limits_of sample_token (stage evs ks a l is acc) =
    (if rl_repo l = ''repo'' \<and> rl_run l = ''run'' then Some l else None)"
  by (simp add: limits_of_def limits_match_def)

lemma stage_binding [simp]:
  "ac_repo a = ''repo'' \<Longrightarrow> ac_run a = ''run'' \<Longrightarrow>
     assert_activity_binding sample_world sample_token (ac_id a) (stage evs ks a l is acc) = Inr a"
  by (simp add: assert_activity_binding_def)

lemma stage_ancestry [simp]: "assert_activity_ancestry tk (stage evs ks a l is acc) i = Inr ()"
  unfolding assert_activity_ancestry_def by (subst activity_ancestry.simps) (simp add: parent_of_def)

lemma made_sel [simp]:
  "ac_id made_activity = ''u0''" "ac_repo made_activity = ''repo''" "ac_run made_activity = ''run''"
  "ac_state made_activity = ''pending''" "ac_remaining made_activity = 2"
  by (simp_all add: made_activity_def)

section \<open>The states\<close>

definition bound_db :: db where
  "bound_db = snd (bind_runtime sample_world sample_token (''u0'', PStr ''rt'') made_db)"

definition limited_db :: db where
  "limited_db = snd (configure_run_limits sample_world sample_token (PInt 2, PInt 100, PInt 1) bound_db)"

lemma bound_db_eq: "bound_db = sample_db\<lparr>db_activities := [bound_activity]\<rparr>"
  using sample_fence [of made_db]
  by (simp add: bound_db_def bind_runtime_def bind_runtime_tx_def transaction_def made_db_eq nonempty_str_def
      assert_activity_binding_def activity_of_def reread_def update_activity_def bound_activity_def made_activity_def)

lemma limited_db_eq: "\<exists>evs. limited_db = stage evs [] bound_activity scenario_limits [] []"
  using sample_fence [of "install_context bound_db"]
  by (simp add: limited_db_def configure_run_limits_def configure_limits_tx_def transaction_def bound_db_eq install_context_def
      valid_nonnegative_integer_def positive_capacity_def MAX_INT_def limits_of_def insert_row_def Let_def)
    (rule exI, rule db.equality, simp_all add: stage_def scenario_limits_def)

definition first_request :: launch_request where
  "first_request = \<lparr>lr_tokens = PInt 10, lr_key = PNone, lr_payload = PNone, lr_receipt = PNone, lr_input = PNone,
     lr_local = PNone, lr_exempt = PBool False, lr_action = PNone\<rparr>"

definition no_checks :: launch_checks where
  "no_checks = \<lparr>lc_guard = (\<lambda>d. Inr ()), lc_runtime = (\<lambda>d a. Inr ()), lc_local = (\<lambda>d a. Inr ())\<rparr>"

definition reserved_db :: db where
  "reserved_db = snd (reserve_launch sample_world sample_token (''u0'', first_request, no_checks) limited_db)"

definition charged_activity :: activity where
  "charged_activity = bound_activity\<lparr>ac_remaining := 1\<rparr>"

definition charged_limits :: run_limits where
  "charged_limits = scenario_limits\<lparr>rl_dispatch_used := 1, rl_committed := 10\<rparr>"

lemma first_reserved:
  "\<exists>evs'. reserve_launch sample_world sample_token (''u0'', first_request, no_checks) (stage evs [] bound_activity scenario_limits [] [])
     = (Inr (first_intent, False), stage evs' [] charged_activity charged_limits [first_intent] [first_row])"
proof -
  let ?d = "stage evs [] bound_activity scenario_limits [] []"
  have gate: "reserve_gate sample_world sample_token ''u0'' first_request no_checks ?d = Inr (bound_activity, None)"
    by (simp add: reserve_gate_def assert_activity_binding_def bound_activity_def first_request_def managed_requirements_def
        managed_run_def context_of_def incomplete_cohort_def replay_if_def no_checks_def receipt_check_def terminal_states_def)
  have allow: "launch_allowance sample_token 10 ?d scenario_limits = Inr ()"
    by (simp add: launch_allowance_def scenario_limits_def effective_worker_capacity_def capacity_of_def
        active_capacity_launch_count_def)
  have "\<exists>evs'. reserve_write sample_world sample_token ''u0'' first_request ?d
     = Inr (first_intent, stage evs' [] charged_activity charged_limits [first_intent] [first_row])"
    using sample_uuid
    by (simp add: reserve_write_def first_request_def new_intent_def next_ordinal_def insert_row_def account_launch_def
        update_activity_def update_limits_def limits_match_def scenario_limits_def commit_tokens_def accounting_row_def
        bound_activity_def stage_upd Let_def first_intent_def charged_activity_def charged_limits_def first_row_def)
      (rule exI, rule refl)
  then obtain evs' where written: "reserve_write sample_world sample_token ''u0'' first_request ?d
     = Inr (first_intent, stage evs' [] charged_activity charged_limits [first_intent] [first_row])" by blast
  have sel: "lr_tokens first_request = PInt 10" "ac_runtime bound_activity = Some ''rt''" "ac_remaining bound_activity = 2"
    "rl_repo scenario_limits = ''repo''" "rl_run scenario_limits = ''run''" "launch_inputs first_request = Inr ()"
    by (simp_all add: first_request_def bound_activity_def scenario_limits_def launch_inputs_def
        valid_nonnegative_integer_def digest_argument_def)
  show ?thesis
    by (simp add: reserve_launch_def sel preflight_policy_clock_def transaction_def reserve_launch_tx_def gate
        existing_intent_def active_intents_def allow written)
      (rule exI, rule refl)
qed

lemma reserved_db_eq: "\<exists>evs. reserved_db = stage evs [] charged_activity charged_limits [first_intent] [first_row]"
proof -
  obtain evs where "limited_db = stage evs [] bound_activity scenario_limits [] []" using limited_db_eq by blast
  then show ?thesis using first_reserved [of evs] by (auto simp: reserved_db_def)
qed

definition first_ack :: ack_request where
  "first_ack = \<lparr>aq_intent = ''u0'', aq_identity = sample_child, aq_cohort = None, aq_guard = (\<lambda>d. Inr ()),
     aq_seen = reserved_db, aq_seen_member = reserved_db\<rparr>"

definition acked_db :: db where
  "acked_db = snd (acknowledge_child sample_world sample_token first_ack reserved_db)"

definition acked_intent :: intent where
  "acked_intent = first_intent\<lparr>in_state := ''acknowledged'', in_child := Some sample_child, in_ack := Some ''u0''\<rparr>"

lemma acked_db_eq: "\<exists>evs. acked_db = stage evs [] charged_activity charged_limits [acked_intent] [first_row]"
proof -
  obtain evs where r: "reserved_db = stage evs [] charged_activity charged_limits [first_intent] [first_row]"
    using reserved_db_eq by blast
  have parent: "w_direct_parent sample_world c p = LIVE" for c p by (simp add: sample_world_def)
  show ?thesis
    using sample_uuid
    by (simp add: acked_db_def acknowledge_child_def first_ack_def ack_observe_def r intent_of_def first_intent_def
        activity_state_def charged_activity_def bound_activity_def member_of_def terminal_states_def parent transaction_def
        ack_tx_def assert_activity_binding_def ack_cohort_def update_intent_def bind_child_def stage_upd Let_def acked_intent_def)
      (rule exI, rule refl)
qed

definition first_permit :: permit_request where
  "first_permit = \<lparr>pq_ack = ''u0'', pq_intent = ''u0'', pq_child = sample_child, pq_guard = (\<lambda>d. Inr ()),
     pq_boot = PNone, pq_ns = PNone\<rparr>"

definition released_db :: db where
  "released_db = snd (authorize_child sample_world sample_token first_permit acked_db)"

definition running_activity :: activity where
  "running_activity = charged_activity\<lparr>ac_state := ''active''\<rparr>"

definition running_intent :: intent where
  "running_intent = acked_intent\<lparr>in_state := ''released_to_execute'', in_permit := Some ''u0''\<rparr>"

lemma first_released_stage:
  "\<exists>evs k. authorize_child sample_world sample_token first_permit acked_db
     = (Inr ''u0'', stage evs [k] running_activity charged_limits [running_intent] [first_row]) \<and> ek_key k = launch_clock_key ''u0''"
proof -
  obtain evs where r: "acked_db = stage evs [] charged_activity charged_limits [acked_intent] [first_row]"
    using acked_db_eq by blast
  show ?thesis
    using sample_uuid
    by (simp add: authorize_child_def preflight_policy_clock_def r transaction_def authorize_tx_def
        permit_check_def first_permit_def intent_of_def acked_intent_def first_intent_def charged_activity_def bound_activity_def
        member_of_def assert_activity_binding_def update_intent_def update_activity_def release_intent_def activate_def
        made_activity_def record_launch_clock_tx_def record_event_once_tx_def event_key_of_def stage_upd Let_def
        running_activity_def running_intent_def)
      (rule exI, rule exI, rule conjI, rule refl, simp)
qed

lemma released_db_eq:
  "\<exists>evs k. released_db = stage evs [k] running_activity charged_limits [running_intent] [first_row] \<and> ek_key k = launch_clock_key ''u0''"
  using first_released_stage unfolding released_db_def by (metis snd_conv)

lemma first_released: "authorize_child sample_world sample_token first_permit acked_db = (Inr ''u0'', released_db)"
  using first_released_stage by (auto simp: released_db_def)

definition proof_file :: pyval where
  "proof_file = PDict [(''locator'', PStr ''/e''), (''sha256'', PStr (replicate 64 (CHR ''a'')))]"

definition first_completion :: completion_request where
  "first_completion = \<lparr>cq_intent = ''u0'', cq_status = ''succeeded'', cq_evidence = proof_file, cq_usage = PInt 4,
     cq_boot = PNone, cq_ns = PNone, cq_seen = released_db\<rparr>"

definition settled_db :: db where
  "settled_db = snd (complete_launch sample_world sample_token first_completion released_db)"

definition settled_intent :: intent where
  "settled_intent = running_intent\<lparr>in_state := ''completed_succeeded'', in_completion := Some ''succeeded'',
     in_evidence := Some (json_dumps proof_file), in_usage := Some 4\<rparr>"

definition settled_limits :: run_limits where
  "settled_limits = charged_limits\<lparr>rl_committed := 4, rl_used := 4\<rparr>"

lemma proof_file_verified:
  "verified_evidence sample_world proof_file
     = Inr [(''locator'', PStr ''/e''), (''sha256'', PStr (replicate 64 (CHR ''a'')))]"
proof -
  let ?h = "replicate 64 (CHR ''a'')"
  have low: "py_lower ?h = ?h" by (simp add: py_lower_def map_replicate_const py_lower_char_def Let_def)
  have hex: "list_all hex_char ?h" by (simp add: list_all_iff hex_char_def)
  have dig: "valid_digest (PStr ?h)" by (simp only: valid_digest_def pyval.case low hex length_replicate simp_thms)
  have hashed: "w_file_hash sample_world p = Some ?h" for p by (simp add: sample_world_def)
  have get: "dict_get [(''locator'', PStr ''/e''), (''sha256'', v)] ''locator'' = PStr ''/e''"
    "dict_get [(''locator'', PStr ''/e''), (''sha256'', v)] ''sha256'' = v" for v
    by (simp_all add: dict_get_def)
  have slash: "py_startswith ''/e'' ''/''" by (simp add: py_startswith_def)
  show ?thesis
    by (simp only: verified_evidence_def proof_file_def pyval.case get dig hashed slash str_of_PStr low option.case) simp
qed

lemma first_settled_stage:
  "\<exists>evs ks. complete_launch sample_world sample_token first_completion released_db = (Inr (settled_intent, False), stage evs ks running_activity settled_limits [settled_intent] [first_row\<lparr>la_final := Some 4\<rparr>])"
proof -
  obtain evs k where r: "released_db = stage evs [k] running_activity charged_limits [running_intent] [first_row]"
      "ek_key k = launch_clock_key ''u0''"
    using released_db_eq by blast
  let ?e = "[(''locator'', PStr ''/e''), (''sha256'', PStr (replicate 64 (CHR ''a'')))]"
  note rows = running_intent_def acked_intent_def first_intent_def running_activity_def charged_activity_def bound_activity_def
  have dead: "terminal_child_status sample_world running_intent = DEAD"
    by (simp add: terminal_child_status_def rows sample_world_def sample_child_def sample_ident_def)
  have inputs: "completion_inputs sample_world first_completion = Inr ?e"
    by (simp add: completion_inputs_def first_completion_def proof_file_verified valid_nonnegative_integer_def)
  have q: "cq_intent first_completion = ''u0''" "cq_status first_completion = ''succeeded''" "cq_usage first_completion = PInt 4"
    "cq_seen first_completion = released_db" by (simp_all add: first_completion_def)
  have obs: "intent_of ''u0'' released_db = Some running_intent" by (simp add: r intent_of_def rows)
  have seen: "observe_child sample_world first_completion running_intent = Inr (Some DEAD)"
    by (simp add: observe_child_def q dead) (simp add: rows)
  have check: "completion_check first_completion enc running_intent released_db = Inr (Some first_row)" for enc
    by (simp add: completion_check_def q r accounting_of_def first_row_def rows active_states_def)
  let ?final = "stage evs [k] running_activity charged_limits [settled_intent] [first_row\<lparr>la_final := Some 4\<rparr>]"
  have written: "complete_rows first_completion ?e released_db = ?final"
    by (simp add: complete_rows_def q final_usage_def usage_of_def r(1) update_intent_def stage_upd complete_intent_def
        completed_state_def settled_intent_def proof_file_def set_final_def first_row_def)
      (simp add: rows stage_upd)
  have stopped: "\<exists>evs ks. record_stopped sample_world sample_token running_intent p ?final
      = Inr (stage evs ks running_activity charged_limits [settled_intent] [first_row\<lparr>la_final := Some 4\<rparr>])" for p
    using r(2) by (simp add: record_stopped_def record_event_once_tx_def event_key_of_def launch_clock_key_def stopped_key_def
        stage_upd Let_def) (rule exI, rule exI, rule refl)
  have settle: "settle_limits sample_token (la_reservation first_row - 4) 4
      (stage evs ks running_activity charged_limits is acc) = Inr (stage evs ks running_activity settled_limits is acc)"
    for evs ks "is" acc
    by (simp add: settle_limits_def limits_match_def charged_limits_def scenario_limits_def first_row_def settle_tokens_def
        stage_upd settled_limits_def Let_def)
  have "\<exists>evs ks. complete_write sample_world sample_token first_completion ?e (Some DEAD) running_intent first_row released_db
     = Inr (stage evs ks running_activity settled_limits [settled_intent] [first_row\<lparr>la_final := Some 4\<rparr>])"
  proof -
    obtain evs1 ks1 where one: "record_stopped sample_world sample_token running_intent
        (PDict [(''intent_id'', PStr ''u0''), (''evidence'', PDict ?e), (''identity'', child_json running_intent)]) ?final
      = Inr (stage evs1 ks1 running_activity charged_limits [settled_intent] [first_row\<lparr>la_final := Some 4\<rparr>])"
      using stopped by blast
    show ?thesis
      by (simp add: complete_write_def written one q(1-3) final_usage_def usage_of_def settle stage_upd) (rule exI, rule exI, rule refl)
  qed
  then obtain evs ks where completed: "complete_write sample_world sample_token first_completion ?e (Some DEAD) running_intent
      first_row released_db = Inr (stage evs ks running_activity settled_limits [settled_intent] [first_row\<lparr>la_final := Some 4\<rparr>])"
    by blast
  have act: "activity_of (in_activity running_intent) released_db = Some running_activity"
    "assert_activity_binding sample_world sample_token (in_activity running_intent) released_db = Inr running_activity"
    by (simp_all add: r assert_activity_binding_def rows)
  have again: "reread_intent ''u0'' (stage evs ks running_activity settled_limits [settled_intent] acc)
      = Inr (settled_intent, stage evs ks running_activity settled_limits [settled_intent] acc)" for acc
    by (simp add: reread_intent_def intent_of_def settled_intent_def) (simp add: rows)
  show ?thesis
    by (simp add: complete_launch_def inputs q obs seen transaction_def complete_tx_def check act completed again)
      (rule exI, rule exI, rule refl)
qed

lemma settled_db_eq:
  "\<exists>evs ks. settled_db = stage evs ks running_activity settled_limits [settled_intent] [first_row\<lparr>la_final := Some 4\<rparr>]"
  using first_settled_stage unfolding settled_db_def by (metis snd_conv)

lemma first_settled:
  "complete_launch sample_world sample_token first_completion released_db = (Inr (settled_intent, False), settled_db)"
  using first_settled_stage by (auto simp: settled_db_def)

text \<open>The activity is finished; its launch was already settled.\<close>

definition give_up :: transition where
  "give_up = \<lparr>tr_activity = ''u0'', tr_expected = ''active'', tr_new = ''failed'', tr_result = PNone, tr_reason = PNone\<rparr>"

definition failed_db :: db where
  "failed_db = snd (transition_activity sample_world sample_token give_up settled_db)"

lemma failed_db_eq: "\<exists>evs ks. failed_db = stage evs ks (running_activity\<lparr>ac_state := ''failed''\<rparr>) settled_limits [settled_intent]
     [first_row\<lparr>la_final := Some 4\<rparr>]"
proof -
  obtain evs ks where r: "settled_db = stage evs ks running_activity settled_limits [settled_intent] [first_row\<lparr>la_final := Some 4\<rparr>]"
    using settled_db_eq by blast
  have below: "revoked_below settled_db ''u0'' = []"
    by (simp add: revoked_below_def r settled_intent_def active_states_def)
  have act: "ac_id running_activity = ''u0''" "ac_state running_activity = ''active''" "ac_result running_activity = None"
    "ac_repo running_activity = ''repo''" "ac_run running_activity = ''run''"
    by (simp_all add: running_activity_def charged_activity_def bound_activity_def) (simp add: made_activity_def)
  have bound: "assert_activity_binding sample_world sample_token ''u0'' settled_db = Inr running_activity"
    by (simp add: r assert_activity_binding_def act)
  have t: "tr_activity give_up = ''u0''" "tr_expected give_up = ''active''" "tr_new give_up = ''failed''" "tr_result give_up = PNone"
    by (simp_all add: give_up_def)
  have revoked: "revoke_intents [] settled_db = settled_db" by (simp add: revoke_intents_def r stage_upd)
  have finished: "running_activity\<lparr>ac_state := ''failed'', ac_result := None\<rparr> = running_activity\<lparr>ac_state := ''failed''\<rparr>"
    by (rule activity.equality) (simp_all add: act)
  have "reread ''u0'' (add_event t p (update_activity ''u0'' (\<lambda>x. x\<lparr>ac_state := ''failed'', ac_result := None\<rparr>) settled_db))
      = Inr (running_activity\<lparr>ac_state := ''failed''\<rparr>, stage (evs @ [(t, p)]) ks (running_activity\<lparr>ac_state := ''failed''\<rparr>)
          settled_limits [settled_intent] [first_row\<lparr>la_final := Some 4\<rparr>])" for t p
    by (simp add: reread_def update_activity_def r stage_upd act finished)
  then show ?thesis
    by (simp add: failed_db_def transition_activity_def t activity_states_def transaction_def transition_activity_tx_def
        bound act terminal_states_def Let_def below revoked)
      (rule exI, rule exI, rule refl)
qed

lemma released_sel:
  "db_intents released_db = [running_intent]" "db_activities released_db = [running_activity]" "db_bindings released_db = []"
proof -
  obtain evs k where r: "released_db = stage evs [k] running_activity charged_limits [running_intent] [first_row]"
    using released_db_eq by blast
  show "db_intents released_db = [running_intent]" "db_activities released_db = [running_activity]" "db_bindings released_db = []"
    unfolding r by simp_all
qed

lemma settled_sel:
  "db_intents settled_db = [settled_intent]" "db_activities settled_db = [running_activity]" "db_debits settled_db = []"
  "db_limits settled_db = [settled_limits]"
proof -
  obtain evs ks where r: "settled_db = stage evs ks running_activity settled_limits [settled_intent] [first_row\<lparr>la_final := Some 4\<rparr>]"
    using settled_db_eq by blast
  show "db_intents settled_db = [settled_intent]" "db_activities settled_db = [running_activity]" "db_debits settled_db = []"
    "db_limits settled_db = [settled_limits]"
    unfolding r by (simp_all add: stage_def)
qed

section \<open>Reachability\<close>

lemma sample_reachable: "reachable sample_db"
proof -
  have "run_step empty_db sample_db" unfolding sample_db_def by (rule run_step.start)
  then show ?thesis by (simp add: reachable_def r_into_rtranclp)
qed

lemma made_reachable: "reachable made_db"
  unfolding made_db_def by (rule reachable_step [OF sample_reachable]) (intro run_step.activity activity_step.create)

lemma limited_reachable: "reachable limited_db"
proof -
  have "reachable bound_db"
    unfolding bound_db_def by (rule reachable_step [OF made_reachable]) (intro run_step.activity activity_step.runtime)
  then show ?thesis unfolding limited_db_def by (rule reachable_step) (rule run_step.limits)
qed

lemma released_reachable: "reachable released_db"
proof -
  have "reachable reserved_db"
    unfolding reserved_db_def by (rule reachable_step [OF limited_reachable]) (rule run_step.reserve)
  then have "reachable acked_db"
    unfolding acked_db_def by (rule reachable_step) (rule run_step.acknowledge)
  then show ?thesis unfolding released_db_def by (rule reachable_step) (rule run_step.authorize)
qed

lemma settled_reachable: "reachable settled_db"
  unfolding settled_db_def by (rule reachable_step [OF released_reachable]) (rule run_step.complete)

lemma failed_step: "run_step settled_db failed_db"
  unfolding failed_db_def by (intro run_step.activity activity_step.transit)

lemma failed_reachable: "reachable failed_db"
  by (rule reachable_step [OF settled_reachable failed_step])

section \<open>The theorems at the states of the scenario\<close>

theorem launch_ledger_balanced_witness:
  "settled_limits \<in> set (db_limits settled_db) \<and> rl_committed settled_limits = 4 \<and>
   rl_committed settled_limits = sum_list (map (\<lambda>x. case la_final x of None \<Rightarrow> la_reservation x | Some u \<Rightarrow> u)
     (filter (\<lambda>x. la_repo x = ''repo'' \<and> la_run x = ''run'') (db_accounting settled_db)))"
proof -
  have l: "settled_limits \<in> set (db_limits settled_db)" by (simp add: settled_sel)
  have sel: "rl_repo settled_limits = ''repo''" "rl_run settled_limits = ''run''" "rl_committed settled_limits = 4"
    by (simp_all add: settled_limits_def charged_limits_def scenario_limits_def)
  show ?thesis using launch_ledger_balanced [OF settled_reachable l] l sel by (simp add: Let_def)
qed

theorem settled_launch_frozen_witness: "settled_intent \<in> set (db_intents failed_db)"
proof -
  have i: "settled_intent \<in> set (db_intents settled_db)" by (simp add: settled_sel)
  show ?thesis
    by (rule settled_launch_frozen [OF settled_reachable r_into_rtranclp [of run_step, OF failed_step] i]) (simp add: settled_intent_def)
qed

theorem released_launch_permitted_witness:
  "\<exists>i \<in> set (db_intents released_db). in_state i = ''released_to_execute'' \<and> in_permit i \<noteq> None"
proof -
  have i: "running_intent \<in> set (db_intents released_db)" by (simp add: released_sel)
  have st: "in_state running_intent = ''released_to_execute''" by (simp add: running_intent_def)
  from released_launch_permitted [OF released_reachable i st] i st show ?thesis by blast
qed

theorem single_open_activity_witness:
  "is_open (hd (db_activities released_db)) \<and> hd (db_activities released_db) = running_activity"
proof -
  have a: "running_activity \<in> set (db_activities released_db)" "is_top released_db running_activity"
    "hd (db_activities released_db) = running_activity"
    by (simp_all add: released_sel is_top_def bound_child_def)
  have o: "is_open running_activity" by (simp add: is_open_def running_activity_def terminal_states_def)
  have "same_run (hd (db_activities released_db)) running_activity" by (simp add: a(3) same_run_def)
  from single_open_activity [OF released_reachable _ _ _ a(1) o a(2) this] a o show ?thesis by simp
qed

theorem retry_budget_conserved_witness: "\<exists>a \<in> set (db_activities settled_db). ac_remaining a + 1 = ac_retry_budget a"
proof -
  have a: "running_activity \<in> set (db_activities settled_db)" "db_intents settled_db = [settled_intent]" "db_debits settled_db = []"
    by (simp_all add: settled_sel)
  have i: "in_activity settled_intent = ac_id running_activity"
    by (simp add: settled_intent_def running_intent_def acked_intent_def first_intent_def running_activity_def
        charged_activity_def bound_activity_def)
  from retry_budget_conserved [OF settled_reachable a(1)] a i show ?thesis by auto
qed

definition reopen :: transition where
  "reopen = \<lparr>tr_activity = ''u0'', tr_expected = ''failed'', tr_new = ''active'', tr_result = PNone, tr_reason = PNone\<rparr>"

theorem finished_activity_frozen_witness:
  "\<exists>a' \<in> set (db_activities (snd (transition_activity sample_world sample_token reopen failed_db))). ac_state a' = ''failed''"
proof -
  let ?a = "running_activity\<lparr>ac_state := ''failed''\<rparr>"
  have a: "?a \<in> set (db_activities failed_db)"
  proof -
    obtain evs ks where r: "failed_db = stage evs ks ?a settled_limits [settled_intent] [first_row\<lparr>la_final := Some 4\<rparr>]"
      using failed_db_eq by blast
    show ?thesis unfolding r by simp
  qed
  have "run_step\<^sup>*\<^sup>* failed_db (snd (transition_activity sample_world sample_token reopen failed_db))"
    by (intro r_into_rtranclp run_step.activity activity_step.transit)
  from finished_activity_frozen [OF failed_reachable this a] show ?thesis by (auto simp: terminal_states_def)
qed

theorem policy_budget_never_replenished_witness:
  "\<exists>b. budget_of sample_token (snd (configure_run_policy_budget sample_world sample_token
      (PStr ''large'', PStr ''normal'', PNone, PNone) (sample_policy_db []))) = Some b \<and> pb_tier b = ''small''"
proof -
  have "run_step\<^sup>*\<^sup>* (sample_policy_db []) (snd (configure_run_policy_budget sample_world sample_token
      (PStr ''large'', PStr ''normal'', PNone, PNone) (sample_policy_db [])))"
    by (intro r_into_rtranclp run_step.budget)
  from policy_budget_never_replenished [OF this sample_policy_sel(3)] show ?thesis by (auto simp: sample_budget_def)
qed

end
