(* ===== verification/Launch_Contract.thy ===== *)
theory Launch_Contract
  imports Run_Scenario
begin

text \<open>
  What a caller of the launch interface may rely on: the conditions under which a new launch is
  admitted, a child is released and a launch is settled, the idempotence of a repeated report, what
  recovery does to a dead child, and the powerlessness of a superseded owner.
\<close>

section \<open>Admission\<close>

text \<open>Facts that survive the clock tick before the transaction.\<close>

lemma core_lookup:
  assumes "core_frame d d1"
  shows "activity_of a d1 = activity_of a d" "active_intents a d1 = active_intents a d" "limits_of tk d1 = limits_of tk d"
    "intent_of i d1 = intent_of i d" "parent_of d1 a = parent_of d a" "assert_owner w tk d1 = assert_owner w tk d"
    "accounting_of i d1 = accounting_of i d"
  using assms assert_owner_cong [of d1 d w tk]
  by (simp_all add: core_frame_def activity_of_def active_intents_def limits_of_def intent_of_def parent_of_def accounting_of_def)

lemma core_count:
  assumes "core_frame d d1" shows "active_capacity_launch_count tk d1 = active_capacity_launch_count tk d"
  using assms by (simp add: active_capacity_launch_count_def core_frame_def capacity_intent_def [abs_def] run_intent_def
      activity_of_def)

lemma core_ancestor:
  assumes "ancestor d a q" and "core_frame d d1" shows "ancestor d1 a q"
  using assms(1)
proof (induction d\<equiv>d a q rule: ancestor.induct)
  case (parent a p) then show ?case using core_lookup(5) [OF assms(2)] by (simp add: ancestor.parent)
next
  case (further a p q) then show ?case using core_lookup(5) [OF assms(2)] ancestor.further by metis
qed

lemma fresh_launch_tx:
  assumes "reserve_launch w tk (a, q, c) d = (Inr (i, False), d')"
  obtains d1 where "core_frame d d1" "db_capacity d1 = db_capacity d" "reserve_launch_tx w tk a q c d1 = Inr ((i, False), d')"
proof -
  let ?p = "preflight_policy_clock w tk PNone PNone d"
  obtain r d1 where p: "?p = (r, d1)" by (cases ?p)
  from assms p have "r = Inr ()" "reserve_launch_tx w tk a q c d1 = Inr ((i, False), d')"
    by (cases r; cases rule: transaction_cases [of "reserve_launch_tx w tk a q c" d1];
        auto simp: reserve_launch_def split: sum.splits)+
  then show thesis
    using that [of d1] preflight_rel [of d w tk PNone PNone] core_of_clock [of d d1] p by (simp add: clock_frame_def)
qed



section \<open>The worker capacity\<close>

text \<open>
  A launch that takes a worker slot is admitted only while fewer launches of the run are active
  than its effective capacity: the latest capacity revision, or the configured one.
\<close>

theorem worker_capacity_respected:
  assumes "reserve_launch w tk (a, q, c) d = (Inr (i, False), d')" and "limits_of tk d = Some l"
  shows "int (active_capacity_launch_count tk d) <
     (case capacity_of (tk_repo tk) (tk_run tk) d of None \<Rightarrow> rl_capacity l | Some r \<Rightarrow> cc_capacity r)"
proof -
  obtain d1 where f: "core_frame d d1" and cap: "db_capacity d1 = db_capacity d"
    and tx: "reserve_launch_tx w tk a q c d1 = Inr ((i, False), d')"
    using fresh_launch_tx [OF assms(1)] by blast
  from tx have "launch_allowance tk (int_of (lr_tokens q)) d1 l = Inr ()"
    by (cases rule: reserve_tx_cases) (simp_all add: core_lookup [OF f] assms(2))
  from allowance_Inr [OF this] obtain n where eff: "effective_worker_capacity tk d1 l = Inr n"
    "int (active_capacity_launch_count tk d1) < n" by blast
  have "capacity_of r n d1 = capacity_of r n d" for r n using cap by (simp add: capacity_of_def)
  with eff core_count [OF f, of tk] show ?thesis
    by (auto simp: effective_worker_capacity_def split: option.splits if_splits)
qed

theorem worker_capacity_respected_witness:
  "active_capacity_launch_count sample_token limited_db = 0"
proof -
  obtain evs where r: "limited_db = stage evs [] bound_activity scenario_limits [] []" using limited_db_eq by blast
  obtain d' where run: "reserve_launch sample_world sample_token (''u0'', first_request, no_checks) limited_db
      = (Inr (first_intent, False), d')" using first_reserved [of evs] r by auto
  have l: "limits_of sample_token limited_db = Some scenario_limits" "capacity_of x y limited_db = None" for x y
    unfolding r by (simp_all add: scenario_limits_def capacity_of_def)
  show ?thesis using worker_capacity_respected [OF run l(1)] l(2) by (simp add: scenario_limits_def)
qed

section \<open>The permit\<close>

lemma authorized_tx:
  assumes "authorize_child w tk q d = (Inr p, d')"
  obtains d1 where "core_frame d d1" "authorize_tx w tk q d1 = Inr (Inr p, d')"
proof -
  let ?p = "preflight_policy_clock w tk (pq_boot q) (pq_ns q) d"
  obtain r d1 where p: "?p = (r, d1)" by (cases ?p)
  from assms p have "authorize_tx w tk q d1 = Inr (Inr p, d')"
    by (cases r; cases rule: transaction_cases [of "authorize_tx w tk q" d1]; auto simp: authorize_child_def)
  then show thesis using that [of d1] preflight_core [of d w tk "pq_boot q" "pq_ns q"] p by simp
qed

text \<open>
  C4: a permit is given only to the child that was acknowledged for the launch, by the owner
  generation that reserved it, in a pending or active activity below active ancestors; the permit
  makes the launch running, and a permit that was given before is returned again.
\<close>

theorem permit_only_acknowledged_child:
  assumes "authorize_child w tk q d = (Inr p, d')"
  shows "assert_owner w tk d = Inr () \<and> (\<exists>row. intent_of (pq_intent q) d = Some row \<and>
     in_child row = Some (pq_child q) \<and> in_ack row = Some (pq_ack q) \<and> in_generation row = tk_generation tk \<and>
     in_state row \<in> {''acknowledged'', ''released_to_execute''} \<and>
     (\<exists>act. activity_of (in_activity row) d = Some act \<and> ac_state act \<in> {''pending'', ''active''}) \<and>
     (\<forall>a. ancestor d (in_activity row) a \<longrightarrow> (\<exists>x. activity_of a d = Some x \<and> ac_state x = ''active'')) \<and>
     (\<forall>k. in_permit row = Some k \<and> k \<noteq> [] \<longrightarrow> p = k) \<and>
     intent_of (pq_intent q) d' = Some (row\<lparr>in_state := ''released_to_execute'', in_permit := Some p\<rparr>))"
proof -
  obtain d1 where f: "core_frame d d1" and tx: "authorize_tx w tk q d1 = Inr (Inr p, d')"
    using authorized_tx [OF assms] by blast
  from tx obtain row d2 where row: "permit_check w tk q d1 = Inr row" and f2: "core_frame d1 d2"
    and kept: "\<forall>k. in_permit row = Some k \<and> k \<noteq> [] \<longrightarrow> p = k"
    and ev: "event_frame (update_intent (in_id row) (release_intent p) (update_activity (in_activity row) (activate tk) d2)) d'"
    by (cases rule: authorize_tx_cases) auto
  note c = permit_check_Inr [OF row] and l = core_lookup [OF f]
  have i: "intent_of (pq_intent q) d2 = Some row" using c core_lookup(4) [OF f2] by simp
  then have "in_id row = pq_intent q" using intent_of_in by blast
  then have "intent_of (pq_intent q) d' = Some (release_intent p row)"
    using i find_update [of "\<lambda>x. in_id x = pq_intent q" "release_intent p" "db_intents d2"]
    by (simp add: intent_of_def event_frameD [OF ev] release_intent_def)
  moreover have "\<exists>x. activity_of a d = Some x \<and> ac_state x = ''active''" if "ancestor d (in_activity row) a" for a
    using ancestry_active [of tk d1 "[]" "in_activity row" a] c core_ancestor [OF that f] l(1)
    by (auto simp: assert_activity_ancestry_def)
  moreover obtain act where act: "assert_activity_binding w tk (in_activity row) d1 = Inr act" "ac_state act \<in> {''pending'', ''active''}"
    using c by blast
  moreover have "activity_of (in_activity row) d = Some act"
    using act(1) l(1) by (auto simp: assert_activity_binding_def split: if_splits)
  ultimately show ?thesis
    using c kept l(4,6) binding_owner [OF act(1)] by (auto simp: release_intent_def)
qed

theorem permit_only_acknowledged_child_witness:
  "\<exists>p row. authorize_child sample_world sample_token first_permit acked_db = (Inr p, released_db) \<and>
     intent_of ''u0'' released_db = Some row \<and> in_permit row = Some p"
proof -
  obtain p where run: "authorize_child sample_world sample_token first_permit acked_db = (Inr p, released_db)"
    using first_released by blast
  from permit_only_acknowledged_child [OF run] have "\<exists>row. intent_of (pq_intent first_permit) released_db = Some row \<and> in_permit row = Some p"
    by auto
  then show ?thesis using run by (auto simp: first_permit_def)
qed

section \<open>Settlement\<close>

lemma complete_launch_committed:
  assumes "complete_launch w tk q d = (Inr r, d')"
  obtains e obs terminal where "completion_inputs w q = Inr e" "intent_of (cq_intent q) (cq_seen q) = Some obs"
    "observe_child w q obs = Inr terminal" "complete_tx w tk q e terminal obs d = Inr (r, d')"
  using assms by (auto simp: complete_launch_def transaction_commit split: sum.splits option.splits)

lemma observe_dead:
  assumes "observe_child w q obs = Inr t" and "cq_status q \<noteq> ''uncertain''" and "in_completion obs \<in> {None, Some ''uncertain''}"
  shows "terminal_child_status w obs = DEAD"
  using assms by (auto simp: observe_child_def split: if_splits)

lemma fence_cong:
  assumes "db_reservations d' = db_reservations d" and "db_migration d' = db_migration d"
  shows "fence w tk d' = fence w tk d"
  using assert_owner_cong [OF assms(1), of w tk] by (simp add: fence_def assert_migration_epoch_def assms(2))

lemma settled_limits_of:
  assumes ok: "launch_ok d" and l: "limits_of tk d = Some l"
    and one: "count_where (\<lambda>l. limits_match tk l \<and> rl_committed l \<ge> k) (db_limits d) = 1"
      "db_limits d' = update_where (\<lambda>l. limits_match tk l \<and> rl_committed l \<ge> k) (settle_tokens tk k u) (db_limits d)"
  shows "limits_of tk d' = Some (settle_tokens tk k u l)"
proof -
  have same: "x = l" if "x \<in> set (db_limits d)" "limits_match tk x" for x
    using limits_unique [OF _ l that] launch_okD(3) [OF ok] by (simp add: ledger_ok_def)
  have "\<exists>x \<in> set (db_limits d). limits_match tk x \<and> rl_committed x \<ge> k"
    using one(1) by (simp add: count_where_pos [symmetric])
  then have "rl_committed l \<ge> k" using same by blast
  then have eq: "db_limits d' = update_where (limits_match tk) (settle_tokens tk k u) (db_limits d)"
    unfolding one(2) update_where_def using same by auto
  have "limits_match tk (settle_tokens tk k u r) = limits_match tk r" for r
    by (simp add: limits_match_def settle_tokens_def)
  from find_update [of "limits_match tk", OF this, of "db_limits d"] l show ?thesis by (simp add: limits_of_def eq)
qed

text \<open>
  C19: a launch is settled as succeeded or failed only when its child was probed dead, whatever other
  processes committed after the row was read; the usage is within the reservation, and the
  part of the reservation that was not used returns to the run.
\<close>

theorem settlement_returns_unused:
  assumes "complete_launch w tk q d = (Inr (i, False), d')" and "cq_status q \<noteq> ''uncertain''"
    and "reachable (cq_seen q)" and "run_step\<^sup>*\<^sup>* (cq_seen q) d" and "limits_of tk d = Some l"
  shows "\<exists>row acc u. intent_of (cq_intent q) d = Some row \<and> terminal_child_status w row = DEAD \<and>
     accounting_of (cq_intent q) d = Some acc \<and> cq_usage q = PInt u \<and> 0 \<le> u \<and> u \<le> la_reservation acc \<and>
     accounting_of (cq_intent q) d' = Some (acc\<lparr>la_final := Some u\<rparr>) \<and>
     limits_of tk d' = Some (l\<lparr>rl_committed := rl_committed l - (la_reservation acc - u), rl_used := rl_used l + u,
        rl_generation := tk_generation tk\<rparr>)"
proof -
  from complete_launch_committed [OF assms(1)] obtain e obs terminal where inputs: "completion_inputs w q = Inr e"
    and obs: "intent_of (cq_intent q) (cq_seen q) = Some obs" and seen: "observe_child w q obs = Inr terminal"
    and tx: "complete_tx w tk q e terminal obs d = Inr ((i, False), d')" .
  have ok: "launch_ok d" by (rule reachable_ok [OF reachable_steps [OF assms(3,4)]])
  note C = completion_inputs_Inr [OF inputs]
  then obtain u where u: "cq_usage q = PInt u" "0 \<le> u" using assms(2) by auto
  have final: "final_usage q = Some u" using u assms(2) by (simp add: final_usage_def usage_of_def)
  from tx obtain row acc act where row: "intent_of (cq_intent q) d = Some row" "in_child row = in_child obs"
      "accounting_of (cq_intent q) d = Some acc" "in_completion row \<in> {None, Some ''uncertain''}"
      "int_of (cq_usage q) \<le> la_reservation acc" "complete_write w tk q e terminal row acc d = Inr d'"
    by (cases rule: complete_tx_cases) (use assms(2) in auto)
  have "\<not> settled obs"
  proof
    assume s: "settled obs"
    have "obs \<in> set (db_intents d)" "in_id obs = cq_intent q"
      using steps_kept [OF assms(4) reachable_ok [OF assms(3)] _ s] intent_of_in [OF obs] by auto
    then have "obs = row" using intent_of_unique [OF ok] row(1) by force
    then show False using s row(4) by (auto simp: settled_def)
  qed
  then have dead: "terminal_child_status w row = DEAD"
    using row(2) observe_dead [OF seen assms(2)] launch_okD(5) [OF reachable_ok [OF assms(3)] obs]
    by (auto simp: terminal_child_status_def intent_ok_def settled_def)
  note W = complete_write_Inr [OF row(6)]
  have "accounting_of (cq_intent q) d' = Some (acc\<lparr>la_final := Some u\<rparr>)"
    using W row(3) find_update [of "\<lambda>x. la_intent x = cq_intent q" "set_final (Some u)" "db_accounting d"]
    by (simp add: accounting_of_def final set_final_def)
  moreover have "limits_of tk d' = Some (settle_tokens tk (la_reservation acc - u) u l)"
    by (rule settled_limits_of [OF ok assms(5)]) (use W in \<open>simp_all add: final\<close>)
  ultimately show ?thesis
    using row u dead by (auto simp: settle_tokens_def)
qed

theorem settlement_returns_unused_witness:
  "\<exists>i. complete_launch sample_world sample_token first_completion released_db = (Inr (i, False), settled_db) \<and>
     limits_of sample_token settled_db = Some (charged_limits\<lparr>rl_committed := 4, rl_used := 4\<rparr>)"
proof -
  obtain i where run: "complete_launch sample_world sample_token first_completion released_db = (Inr (i, False), settled_db)"
    using first_settled by blast
  have c: "cq_status first_completion \<noteq> ''uncertain''" "cq_seen first_completion = released_db" "cq_usage first_completion = PInt 4"
    by (simp_all add: first_completion_def)
  have l: "limits_of sample_token released_db = Some charged_limits"
  proof -
    obtain evs k where r: "released_db = stage evs [k] running_activity charged_limits [running_intent] [first_row]"
      using released_db_eq by blast
    show ?thesis unfolding r by (simp add: charged_limits_def scenario_limits_def)
  qed
  have acc: "accounting_of (cq_intent first_completion) released_db = Some first_row"
  proof -
    obtain evs k where r: "released_db = stage evs [k] running_activity charged_limits [running_intent] [first_row]"
      using released_db_eq by blast
    show ?thesis unfolding r by (simp add: accounting_of_def first_row_def first_completion_def)
  qed
  from settlement_returns_unused [OF run c(1) _ _ l] released_reachable acc run c
  show ?thesis by (auto simp: first_row_def charged_limits_def scenario_limits_def)
qed

text \<open>Reporting a completed launch again with the same status, evidence and usage changes nothing.\<close>

theorem completion_replayed:
  assumes "complete_launch w tk q d = (Inr (i, False), d')"
  shows "complete_launch w tk (q\<lparr>cq_seen := d'\<rparr>) d' = (Inr (i, True), d')"
proof -
  let ?q = "q\<lparr>cq_seen := d'\<rparr>"
  from complete_launch_committed [OF assms] obtain e obs terminal where inputs: "completion_inputs w q = Inr e"
    and tx: "complete_tx w tk q e terminal obs d = Inr ((i, False), d')" .
  from tx obtain row acc act where row: "intent_of (cq_intent q) d = Some row"
      "assert_activity_binding w tk (in_activity row) d = Inr act" "accounting_of (cq_intent q) d = Some acc"
      "complete_write w tk q e terminal row acc d = Inr d'" "intent_of (cq_intent q) d' = Some i"
    by (cases rule: complete_tx_cases) auto
  note W = complete_write_Inr [OF row(4)]
  let ?f = "complete_intent (cq_status q) (json_dumps (PDict e)) (final_usage q)"
  have i: "i = ?f row"
    using row(1,5) W find_update [of "\<lambda>x. in_id x = cq_intent q" ?f "db_intents d"]
    by (simp add: intent_of_def complete_intent_def)
  have act: "assert_activity_binding w tk (in_activity row) d' = Inr act"
    using row(2) W fence_cong [of d' d w tk] activity_of_cong [of d' d] by (simp add: assert_activity_binding_def)
  have acc: "accounting_of (cq_intent q) d' \<noteq> None"
    using row(3) W find_update [of "\<lambda>x. la_intent x = cq_intent q" "set_final (final_usage q)" "db_accounting d"]
    by (simp add: accounting_of_def set_final_def)
  have usage: "final_usage q = usage_of (cq_usage q)"
    using completion_inputs_Inr [OF inputs] by (auto simp: final_usage_def usage_of_def)
  obtain t where t: "observe_child w ?q i = Inr t"
    by (cases "cq_status q = ''uncertain''") (auto simp: observe_child_def i complete_intent_def)
  have "completion_check ?q (json_dumps (PDict e)) i d' = Inr None"
    using acc by (auto simp: completion_check_def i complete_intent_def usage)
  moreover have "activity_of (in_activity i) d' \<noteq> None" "in_activity i = in_activity row"
    using act by (auto simp: i complete_intent_def assert_activity_binding_def)
  ultimately have "complete_tx w tk ?q e t i d' = Inr ((i, True), d')"
    using act row(5) by (auto simp: complete_tx_def)
  moreover have "completion_inputs w ?q = completion_inputs w q" by (simp add: completion_inputs_def)
  ultimately show ?thesis
    using row(5) t inputs by (simp add: complete_launch_def transaction_def)
qed

theorem completion_replayed_witness:
  "\<exists>i. complete_launch sample_world sample_token (first_completion\<lparr>cq_seen := settled_db\<rparr>) settled_db = (Inr (i, True), settled_db)"
proof -
  obtain i where run: "complete_launch sample_world sample_token first_completion released_db = (Inr (i, False), settled_db)"
    using first_settled by blast
  show ?thesis using completion_replayed [OF run] by blast
qed

section \<open>Recovery of a dead child\<close>

text \<open>
  C34: recovering a launch whose released child is dead first marks it for reconciliation, and
  recovering it once more closes it as dead, although no completion was ever reported: the second
  call releases the worker slot that the first one held.
\<close>

theorem second_recovery_closes:
  assumes "recover_intent w tk (i, d) d = (Inr x, d1)" and "recover_intent w tk (i, d1) d1 = (Inr y, d2)"
    and "intent_of i d = Some row" and "in_child row = Some c" and "combined_status w c = DEAD"
    and "in_completion row = None" and "in_state row = ''released_to_execute''"
  shows "in_state x = ''reconcile_required'' \<and> in_state y = ''closed_dead'' \<and> in_state y \<notin> set active_states"
proof -
  have moved: "x' = set_state (recovered_state w tk r) r"
    if "recover_intent w tk (i, e) e = (Inr x', e')" "intent_of i e = Some r" for x' r e e'
  proof -
    from that have "recover_tx w tk i r e = Inr (x', e')"
      by (auto simp: recover_intent_def transaction_commit split: if_splits)
    note t = recover_tx_Inr [OF this]
    then have "intent_of i (update_intent i (set_state (recovered_state w tk r)) e) = Some x'" using that(2) by auto
    then show ?thesis
      using that(2) find_update [of "\<lambda>x. in_id x = i" "set_state (recovered_state w tk r)" "db_intents e"]
      by (simp add: intent_of_def set_state_def)
  qed
  have x: "x = set_state ''reconcile_required'' row"
    using moved [OF assms(1,3)] assms(4-7) by (simp add: recovered_state_def Let_def)
  have "intent_of i d1 = Some x"
    using assms(1,3) by (auto simp: recover_intent_def transaction_commit split: if_splits dest: recover_tx_Inr)
  from moved [OF assms(2) this] have "y = set_state ''closed_dead'' x"
    using x assms(4-6) by (simp add: recovered_state_def Let_def set_state_def)
  then show ?thesis by (simp add: x set_state_def active_states_def)
qed

theorem second_recovery_closes_witness:
  "\<exists>x d1 y d2. recover_intent sample_world sample_token (''u0'', released_db) released_db = (Inr x, d1) \<and>
     recover_intent sample_world sample_token (''u0'', d1) d1 = (Inr y, d2) \<and> in_state y = ''closed_dead''"
proof -
  obtain evs k where r: "released_db = stage evs [k] running_activity charged_limits [running_intent] [first_row]"
    using released_db_eq by blast
  have row: "in_id running_intent = ''u0''" "in_activity running_intent = ''u0''" "in_child running_intent = Some sample_child"
    "in_completion running_intent = None" "in_state running_intent = ''released_to_execute''"
    by (simp_all add: running_intent_def acked_intent_def first_intent_def)
  have act: "ac_id running_activity = ''u0''" "ac_repo running_activity = ''repo''" "ac_run running_activity = ''run''"
    by (simp_all add: running_activity_def charged_activity_def bound_activity_def)
  have dead: "combined_status sample_world sample_child = DEAD"
    by (simp add: combined_status_def sample_world_def sample_child_def sample_ident_def)
  let ?once = "set_state ''reconcile_required'' running_intent"
  have one: "recover_intent sample_world sample_token (''u0'', released_db) released_db =
      (Inr ?once, stage evs [k] running_activity charged_limits [?once] [first_row])"
    by (simp add: recover_intent_def r intent_of_def row act transaction_def recover_tx_def assert_activity_binding_def
        reread_intent_def update_intent_def stage_upd recovered_state_def dead Let_def)
      (simp add: set_state_def row)
  have two: "\<exists>y d2. recover_intent sample_world sample_token (''u0'', stage evs [k] running_activity charged_limits [?once] [first_row])
      (stage evs [k] running_activity charged_limits [?once] [first_row]) = (Inr y, d2)"
    by (simp add: recover_intent_def intent_of_def row act transaction_def recover_tx_def assert_activity_binding_def
        reread_intent_def update_intent_def stage_upd set_state_def)
  have "intent_of ''u0'' released_db = Some running_intent" by (simp add: r intent_of_def row)
  from second_recovery_closes [OF one _ this row(3) dead row(4,5)] one two show ?thesis by blast
qed

section \<open>A superseded owner\<close>

definition no_effect :: "db \<Rightarrow> 'a res \<times> db \<Rightarrow> bool" where
  "no_effect d r = (isl (fst r) \<and> schema_ext d (snd r))"

text \<open>The calls of one owner, each behind the fence.\<close>

lemmas fenced_calls =
  fenced_create.fenced_op_axioms fenced_runtime.fenced_op_axioms fenced_transition.fenced_op_axioms
  fenced_select.fenced_op_axioms fenced_event.fenced_op_axioms fenced_debit.fenced_op_axioms fenced_limits.fenced_op_axioms
  fenced_capacity.fenced_op_axioms fenced_reserve.fenced_op_axioms fenced_ack.fenced_op_axioms
  fenced_authorize.fenced_op_axioms fenced_recover.fenced_op_axioms fenced_close_dead.fenced_op_axioms
  fenced_complete.fenced_op_axioms fenced_configure.fenced_op_axioms fenced_reserve_action.fenced_op_axioms
  fenced_cancel_review.fenced_op_axioms fenced_cancel_repair.fenced_op_axioms fenced_receipt.fenced_op_axioms
  fenced_wait.fenced_op_axioms fenced_reconcile.fenced_op_axioms fenced_begin.fenced_op_axioms fenced_end.fenced_op_axioms
  fenced_grant.fenced_op_axioms fenced_consume.fenced_op_axioms fenced_decision.fenced_op_axioms
  fenced_contract.fenced_op_axioms fenced_propose.fenced_op_axioms fenced_amend.fenced_op_axioms
  fenced_draft.fenced_op_axioms fenced_seal.fenced_op_axioms fenced_accept.fenced_op_axioms
  fenced_initialize.fenced_op_axioms fenced_bind.fenced_op_axioms fenced_integration.fenced_op_axioms
  fenced_checks.fenced_op_axioms fenced_register.fenced_op_axioms fenced_publish_journal.fenced_op_axioms
  fenced_publish.fenced_op_axioms fenced_quarantine.fenced_op_axioms fenced_stage.fenced_op_axioms
  fenced_child.fenced_op_axioms fenced_cohort.fenced_op_axioms fenced_member.fenced_op_axioms
  fenced_monitored.fenced_op_axioms fenced_monitored_member.fenced_op_axioms
  fenced_authorize_cohort.fenced_op_axioms fenced_release_cohort.fenced_op_axioms
  fenced_reconcile_cohort.fenced_op_axioms

lemma no_effectI:
  assumes "fenced_op f" and "own_wf d" "tk_generation tk \<le> db_generation d" "assert_owner w tk d \<noteq> Inr ()" "own_step\<^sup>*\<^sup>* d d'"
  shows "no_effect d' (f w tk i d')"
  using fenced_op.superseded [OF assms] by (simp add: no_effect_def)

lemmas powerless = fenced_calls [THEN no_effectI]

text \<open>
  C13: a process whose token has been superseded or released can change nothing: in any later state of
  the ownership, every call it makes is refused and leaves the rows as they are, at most installing
  an optional empty table.
\<close>

theorem superseded_owner_powerless:
  assumes "own_wf d" and "tk_generation tk \<le> db_generation d" and "assert_owner w tk d \<noteq> Inr ()" and "own_step\<^sup>*\<^sup>* d d'"
  shows "no_effect d' (create_activity w tk x1 d') \<and>
     no_effect d' (bind_runtime w tk x2 d') \<and>
     no_effect d' (transition_activity w tk x3 d') \<and>
     no_effect d' (select_activity w tk x4 d') \<and>
     no_effect d' (record_event_once w tk x5 d') \<and>
     no_effect d' (debit_budget w tk x6 d') \<and>
     no_effect d' (configure_run_limits w tk x7 d') \<and>
     no_effect d' (revise_capacity_policy w tk x8 d') \<and>
     no_effect d' (reserve_launch w tk x9 d') \<and>
     no_effect d' (acknowledge_child w tk x10 d') \<and>
     no_effect d' (authorize_child w tk x11 d') \<and>
     no_effect d' (recover_intent w tk x12 d') \<and>
     no_effect d' (close_dead_qualification_intent w tk x13 d') \<and>
     no_effect d' (complete_launch w tk x14 d') \<and>
     no_effect d' (configure_run_policy_budget w tk x15 d') \<and>
     no_effect d' (reserve_policy_action w tk x16 d') \<and>
     no_effect d' (cancel_unlaunched_policy_review w tk x17 d') \<and>
     no_effect d' (cancel_unlaunched_repair w tk x18 d') \<and>
     no_effect d' (record_policy_action_receipt w tk x19 d') \<and>
     no_effect d' (record_policy_wait w tk x20 d') \<and>
     no_effect d' (reconcile_run_policy_clock w tk x21 d') \<and>
     no_effect d' (begin_policy_work w tk x22 d') \<and>
     no_effect d' (end_policy_work w tk x23 d') \<and>
     no_effect d' (create_grant w tk x24 d') \<and>
     no_effect d' (consume_grant w tk x25 d') \<and>
     no_effect d' (record_decision w tk x26 d') \<and>
     no_effect d' (create_acceptance_contract w tk x27 d') \<and>
     no_effect d' (append_proposed_obligation w tk x28 d') \<and>
     no_effect d' (amend_acceptance_contract w tk x29 d') \<and>
     no_effect d' (create_acceptance_draft w tk x30 d') \<and>
     no_effect d' (seal_acceptance_draft w tk x31 d') \<and>
     no_effect d' (record_acceptance_receipt w tk x32 d') \<and>
     no_effect d' (initialize_frontend_policy w tk x33 d') \<and>
     no_effect d' (bind_frontend_candidate w tk x34 d') \<and>
     no_effect d' (record_frontend_integration w tk x35 d') \<and>
     no_effect d' (record_frontend_check_results w tk x36 d') \<and>
     no_effect d' (register_intent w tk x37 d') \<and>
     no_effect d' (publish_journal w tk x38 d') \<and>
     no_effect d' (publish w tk x39 d') \<and>
     no_effect d' (quarantine w tk x40 d') \<and>
     no_effect d' (transition_frontend_policy w tk x41 d') \<and>
     no_effect d' (create_child_activity w tk x42 d') \<and>
     no_effect d' (reserve_launch_cohort w tk x43 d') \<and>
     no_effect d' (acknowledge_cohort_child w tk x44 d') \<and>
     no_effect d' (acknowledge_monitored_child w tk x45 d') \<and>
     no_effect d' (acknowledge_monitored_cohort_child w tk x46 d') \<and>
     no_effect d' (authorize_launch_cohort w tk x47 d') \<and>
     no_effect d' (release_launch_cohort w tk x48 d') \<and>
     no_effect d' (reconcile_launch_cohort w tk x49 d')"
  by (intro conjI powerless [OF assms])

text \<open>A token of generation zero, while the owner creates an activity.\<close>

theorem superseded_owner_powerless_witness:
  "let tk = sample_token\<lparr>tk_generation := 0\<rparr> in
   isl (fst (reserve_launch sample_world tk (''u0'', first_request, no_checks) made_db)) \<and>
   isl (fst (complete_launch sample_world tk first_completion made_db))"
proof -
  let ?tk = "sample_token\<lparr>tk_generation := 0\<rparr>"
  have refused: "assert_owner sample_world ?tk sample_db \<noteq> Inr ()" by (simp add: assert_owner_def)
  have wf: "own_wf sample_db" using sample_owner by simp
  then have old: "tk_generation ?tk \<le> db_generation sample_db" by (simp add: own_wf_def)
  have "own_step sample_db made_db" by (rule own_step.other) (simp_all add: made_db_eq)
  then have steps: "own_step\<^sup>*\<^sup>* sample_db made_db" by (rule r_into_rtranclp)
  from superseded_owner_powerless [OF wf old refused steps] show ?thesis
    by (simp add: Let_def no_effect_def)
qed

end
