(* ===== verification/Resources.thy ===== *)
theory Resources
  imports Store
begin

text \<open>
  What a launch needs and what the machine has (\<open>resource_observation.py\<close>), the fair reservation
  scheduler (\<open>resource_scheduler.py\<close>) and the bounded exploration of providers without a known quota
  (\<open>provider_feedback.py\<close>).

  The fields of an observation have their declared types here, so of the type tests of \<open>validate\<close> the
  range tests remain. A demand column is the JSON value it encodes; \<open>record()\<close> writes the fields in
  the order of the canonical encoding, so that equal texts are equal values.
\<close>

section \<open>Demands\<close>

record demand =
  dm_cpu :: int
  dm_memory :: int
  dm_disk :: int
  dm_io :: int
  dm_processes :: int
  dm_provider :: "string option"
  dm_units :: int

definition resource_refuse :: "string \<Rightarrow> 'a res" where
  "resource_refuse code = Inl (ResourceObservationRefused code)"

lemma resource_refuse_simps [simp]: "resource_refuse c \<noteq> Inr x" "Inr x \<noteq> resource_refuse c" "isl (resource_refuse c)"
  by (simp_all add: resource_refuse_def)

definition demand_defaults :: pydict where
  "demand_defaults = [(''cpu'', PInt 1), (''memory_bytes'', PInt 0), (''disk_bytes'', PInt 0), (''io_units'', PInt 0),
     (''processes'', PInt 1), (''provider'', PNone), (''provider_units'', PInt 0)]"

definition demand_field :: "pydict \<Rightarrow> string \<Rightarrow> pyval" where
  "demand_field d k = (case map_of d k of Some v \<Rightarrow> v | None \<Rightarrow> dict_get demand_defaults k)"

definition natural :: "pyval \<Rightarrow> bool" where
  "natural v = (case v of PInt i \<Rightarrow> 0 \<le> i | _ \<Rightarrow> False)"

text \<open>\<open>ResourceDemand(**value)\<close>: unknown keys raise, missing ones take their default.\<close>

definition make_demand :: "pydict \<Rightarrow> demand res" where
  "make_demand d =
     (let f = demand_field d in
      if \<not> dict_keys d \<subseteq> dict_keys demand_defaults then resource_refuse ''RESOURCE_DEMAND_INVALID''
      else if \<not> list_all (\<lambda>k. natural (f k)) [''cpu'', ''memory_bytes'', ''disk_bytes'', ''io_units'', ''processes'', ''provider_units'']
        \<or> (f ''provider'' \<noteq> PNone \<and> (case f ''provider'' of PStr s \<Rightarrow> s = [] | _ \<Rightarrow> True))
      then resource_refuse ''RESOURCE_DEMAND_INVALID''
      else Inr \<lparr>dm_cpu = int_of (f ''cpu''), dm_memory = int_of (f ''memory_bytes''), dm_disk = int_of (f ''disk_bytes''),
        dm_io = int_of (f ''io_units''), dm_processes = int_of (f ''processes''),
        dm_provider = (case f ''provider'' of PStr s \<Rightarrow> Some s | _ \<Rightarrow> None), dm_units = int_of (f ''provider_units'')\<rparr>)"

definition demand_from_record :: "pyval \<Rightarrow> demand res" where
  "demand_from_record v = (case v of PDict d \<Rightarrow> make_demand d | _ \<Rightarrow> resource_refuse ''RESOURCE_DEMAND_INVALID'')"

definition provider_value :: "string option \<Rightarrow> pyval" where
  "provider_value p = (case p of None \<Rightarrow> PNone | Some s \<Rightarrow> PStr s)"

definition demand_record :: "demand \<Rightarrow> pyval" where
  "demand_record x = PDict [(''cpu'', PInt (dm_cpu x)), (''disk_bytes'', PInt (dm_disk x)), (''io_units'', PInt (dm_io x)),
     (''memory_bytes'', PInt (dm_memory x)), (''processes'', PInt (dm_processes x)),
     (''provider'', provider_value (dm_provider x)), (''provider_units'', PInt (dm_units x))]"

definition demand_ok :: "demand \<Rightarrow> bool" where
  "demand_ok x = (0 \<le> dm_cpu x \<and> 0 \<le> dm_memory x \<and> 0 \<le> dm_disk x \<and> 0 \<le> dm_io x \<and> 0 \<le> dm_processes x
     \<and> 0 \<le> dm_units x \<and> dm_provider x \<noteq> Some [])"

lemma demand_from_ok: "demand_from_record v = Inr x \<Longrightarrow> demand_ok x"
  by (auto simp: demand_from_record_def make_demand_def Let_def demand_ok_def natural_def split: pyval.splits if_splits)

text \<open>An encoded demand is read back unchanged.\<close>

lemma demand_roundtrip:
  assumes "demand_ok x" shows "demand_from_record (demand_record x) = Inr x"
  using assms
  by (cases "dm_provider x")
    (auto simp: demand_from_record_def demand_record_def make_demand_def demand_field_def demand_defaults_def
      dict_keys_def Let_def natural_def provider_value_def demand_ok_def)

section \<open>Observations\<close>

record observation =
  ob_at :: int
  ob_cpu :: "int option"
  ob_memory :: "int option"
  ob_disk :: "int option"
  ob_io :: "int option"
  ob_processes :: "int option"
  ob_provider :: "(string \<times> int) list option"
  ob_source :: string

definition validate_observation :: "int \<Rightarrow> int \<Rightarrow> observation \<Rightarrow> unit res" where
  "validate_observation now max_age ob =
     (if ob_at ob \<le> 0 \<or> max_age \<le> 0 \<or> ob_source ob = [] then resource_refuse ''RESOURCE_OBSERVATION_INVALID''
      else if list_ex (\<lambda>v. case v of None \<Rightarrow> False | Some n \<Rightarrow> n < 0) [ob_cpu ob, ob_memory ob, ob_disk ob, ob_io ob, ob_processes ob]
      then resource_refuse ''RESOURCE_OBSERVATION_INVALID''
      else if (case ob_provider ob of None \<Rightarrow> False | Some ps \<Rightarrow> list_ex (\<lambda>(k, v). k = [] \<or> v < 0) ps)
      then resource_refuse ''RESOURCE_OBSERVATION_INVALID''
      else if now < ob_at ob then resource_refuse ''RESOURCE_OBSERVATION_INVALID''
      else if now - ob_at ob > max_age then resource_refuse ''RESOURCE_OBSERVATION_STALE''
      else Inr ())"

definition observation_age :: "int \<Rightarrow> observation \<Rightarrow> int" where
  "observation_age now ob = max 0 (now - ob_at ob)"

section \<open>The scheduler\<close>

record decision =
  sd_admitted :: bool
  sd_code :: string
  sd_limiting :: "string option"
  sd_age :: "int option"
  sd_bound :: "(string \<times> int option) list"
  sd_recheck :: int

record scheduler =
  sc_cooldown :: int
  sc_max_age :: int

definition error_code :: "py_exn \<Rightarrow> string" where
  "error_code e = (case e of ResourceObservationRefused c \<Rightarrow> c | _ \<Rightarrow> [])"

definition add_demand :: "demand \<Rightarrow> demand \<Rightarrow> demand" where
  "add_demand t x = \<lparr>dm_cpu = dm_cpu t + dm_cpu x, dm_memory = dm_memory t + dm_memory x, dm_disk = dm_disk t + dm_disk x,
     dm_io = dm_io t + dm_io x, dm_processes = dm_processes t + dm_processes x, dm_provider = None,
     dm_units = dm_units t + dm_units x\<rparr>"

definition no_demand :: demand where
  "no_demand = \<lparr>dm_cpu = 0, dm_memory = 0, dm_disk = 0, dm_io = 0, dm_processes = 0, dm_provider = None, dm_units = 0\<rparr>"

text \<open>The demand of the reservations; the rows are given by their demand columns.\<close>

definition used_demand :: "pyval list \<Rightarrow> demand res" where
  "used_demand rows = bindR (mapR demand_from_record rows) (\<lambda>xs. Inr (foldl add_demand no_demand xs))"

definition resource_names :: "string list" where
  "resource_names = [''cpu'', ''memory_bytes'', ''disk_bytes'', ''io_units'', ''processes'']"

definition demand_of :: "demand \<Rightarrow> string \<Rightarrow> int" where
  "demand_of x k = (if k = ''cpu'' then dm_cpu x else if k = ''memory_bytes'' then dm_memory x
     else if k = ''disk_bytes'' then dm_disk x else if k = ''io_units'' then dm_io x
     else if k = ''processes'' then dm_processes x else if k = ''provider_units'' then dm_units x else 0)"

definition observed_limits :: "observation \<Rightarrow> (string \<times> int option) list" where
  "observed_limits ob = [(''cpu'', ob_cpu ob), (''memory_bytes'', ob_memory ob), (''disk_bytes'', ob_disk ob),
     (''io_units'', ob_io ob), (''processes'', ob_processes ob)]"

definition limit_of :: "(string \<times> int option) list \<Rightarrow> string \<Rightarrow> int option" where
  "limit_of ls k = (case map_of ls k of None \<Rightarrow> None | Some v \<Rightarrow> v)"

definition lower_limit :: "(string \<times> int option) list \<Rightarrow> string \<Rightarrow> int \<Rightarrow> (string \<times> int option) list" where
  "lower_limit ls k v = map (\<lambda>(n, l). if n = k then (n, Some (case l of None \<Rightarrow> v | Some x \<Rightarrow> min x v)) else (n, l)) ls"

text \<open>The configured ceilings in order; the name of the first invalid one on the left.\<close>

fun apply_ceilings :: "(string \<times> int option) list \<Rightarrow> (string \<times> int) list \<Rightarrow> string \<times> (string \<times> int option) list + (string \<times> int option) list" where
  "apply_ceilings ls [] = Inr ls"
| "apply_ceilings ls ((k, v) # cs) =
     (if k \<notin> fst ` set ls \<or> v < 0 then Inl (k, ls) else apply_ceilings (lower_limit ls k v) cs)"

text \<open>The first resource that cannot carry the demand.\<close>

definition short_resource :: "(string \<times> int option) list \<Rightarrow> demand \<Rightarrow> demand \<Rightarrow> string option" where
  "short_resource ls used x = List.find (\<lambda>k. case limit_of ls k of
      None \<Rightarrow> demand_of x k \<noteq> 0 | Some l \<Rightarrow> demand_of used k + demand_of x k > l) resource_names"

definition provider_used :: "string \<Rightarrow> demand list \<Rightarrow> int" where
  "provider_used p xs = sum_list (map dm_units (filter (\<lambda>x. dm_provider x = Some p) xs))"

definition short_provider :: "observation \<Rightarrow> demand list \<Rightarrow> demand \<Rightarrow> string option" where
  "short_provider ob xs x =
     (case dm_provider x of
        None \<Rightarrow> None
      | Some p \<Rightarrow>
          if p = [] then None
          else (case (case ob_provider ob of None \<Rightarrow> None | Some ps \<Rightarrow> map_of ps p) of
            None \<Rightarrow> Some (''provider:'' @ p)
          | Some n \<Rightarrow> if provider_used p xs + dm_units x > n then Some (''provider:'' @ p) else None))"

definition decide :: "scheduler \<Rightarrow> (string \<times> int) list \<Rightarrow> int \<Rightarrow> observation option \<Rightarrow> pyval list \<Rightarrow> demand \<Rightarrow> decision" where
  "decide sc ceilings now obs rows x =
     (let answer = (\<lambda>ok code lim age ls. \<lparr>sd_admitted = ok, sd_code = code, sd_limiting = lim, sd_age = age,
          sd_bound = ls, sd_recheck = now + sc_cooldown sc\<rparr>) in
      case obs of
        None \<Rightarrow> answer False ''RESOURCE_OBSERVATION_UNKNOWN'' (Some ''observation'') None []
      | Some ob \<Rightarrow>
          let age = Some (observation_age now ob) in
          case validate_observation now (sc_max_age sc) ob of
            Inl e \<Rightarrow> answer False (error_code e) (Some ''observation'') age []
          | Inr _ \<Rightarrow>
              (case mapR demand_from_record rows of
                 Inl e \<Rightarrow> answer False (error_code e) (Some ''reservation'') age []
               | Inr xs \<Rightarrow>
                   (case apply_ceilings (observed_limits ob) ceilings of
                      Inl (k, ls) \<Rightarrow> answer False ''RESOURCE_CEILING_INVALID'' (Some k) age ls
                    | Inr ls \<Rightarrow>
                        (case short_resource ls (foldl add_demand no_demand xs) x of
                           Some k \<Rightarrow> answer False ''RESOURCE_WAIT'' (Some k) age ls
                         | None \<Rightarrow>
                             (case short_provider ob xs x of
                                Some k \<Rightarrow> answer False ''RESOURCE_WAIT'' (Some k) age ls
                              | None \<Rightarrow> answer True ''ADMITTED'' None age ls)))))"

text \<open>Every peer on top of the ones before it; the first refusal ends the group.\<close>

fun decide_group ::
  "scheduler \<Rightarrow> (string \<times> int) list \<Rightarrow> int \<Rightarrow> observation option \<Rightarrow> pyval list \<Rightarrow> demand list \<Rightarrow> decision list"
where
  "decide_group sc ceilings now obs rows [] = []"
| "decide_group sc ceilings now obs rows (x # xs) =
     (let d = decide sc ceilings now obs rows x in
      if \<not> sd_admitted d then [d] else d # decide_group sc ceilings now obs (rows @ [demand_record x]) xs)"

definition first_blocked :: "decision list \<Rightarrow> decision option" where
  "first_blocked ds = List.find (\<lambda>d. \<not> sd_admitted d) ds"

end
