(* ===== verification/Provider_Feedback.thy ===== *)
theory Provider_Feedback
  imports Resources
begin

text \<open>
  The bounded exploration of a provider that exposes no concurrency quota (\<open>provider_feedback.py\<close>):
  one row per provider with the bound in force, its successes since the last step and its cooldown,
  and one row per reported ticket.
\<close>

record feedback =
  fb_provider :: string
  fb_boot :: string
  fb_version :: int
  fb_bound :: int
  fb_successes :: int
  fb_stable :: int
  fb_cooldown :: int
  fb_last :: int

record feedback_result =
  fr_ticket :: string
  fr_provider :: string
  fr_outcome :: string
  fr_retry :: int
  fr_observed :: int

definition feedback_of :: "feedback list \<Rightarrow> string \<Rightarrow> feedback option" where
  "feedback_of fs p = List.find (\<lambda>f. fb_provider f = p) fs"

definition fresh_feedback :: "string \<Rightarrow> string \<Rightarrow> int \<Rightarrow> feedback" where
  "fresh_feedback p boot now = \<lparr>fb_provider = p, fb_boot = boot, fb_version = 1, fb_bound = 1, fb_successes = 0,
     fb_stable = now, fb_cooldown = 0, fb_last = now\<rparr>"

text \<open>\<open>INSERT ... ON CONFLICT(provider) DO UPDATE\<close>; the policy version of an existing row is kept.\<close>

definition restart_feedback :: "string \<Rightarrow> string \<Rightarrow> int \<Rightarrow> feedback list \<Rightarrow> feedback list" where
  "restart_feedback p boot now fs =
     (if feedback_of fs p = None then fs @ [fresh_feedback p boot now]
      else update_where (\<lambda>f. fb_provider f = p) (\<lambda>f. f\<lparr>fb_boot := boot, fb_bound := 1, fb_successes := 0,
        fb_stable := now, fb_cooldown := 0, fb_last := now\<rparr>) fs)"

definition stable_window :: int where
  "stable_window = 5000000000"

definition feedback_max_age :: int where
  "feedback_max_age = 30000000000"

definition may_explore :: "bool \<Rightarrow> int \<Rightarrow> feedback \<Rightarrow> bool" where
  "may_explore fresh now f = (fresh \<and> fb_successes f \<ge> 3 \<and> now - fb_stable f \<ge> stable_window
     \<and> 0 \<le> now - fb_last f \<and> now - fb_last f \<le> feedback_max_age)"

definition explore :: "int \<Rightarrow> feedback \<Rightarrow> feedback" where
  "explore now f = f\<lparr>fb_bound := fb_bound f + 1, fb_successes := 0, fb_stable := now\<rparr>"

text \<open>The availability map is kept as its items; setting a known key keeps its position.\<close>

definition set_available :: "string \<Rightarrow> int \<Rightarrow> (string \<times> int) list \<Rightarrow> (string \<times> int) list" where
  "set_available p n ps = (if map_of ps p = None then ps @ [(p, n)] else map (\<lambda>(k, v). if k = p then (k, n) else (k, v)) ps)"

text \<open>One provider of the loop: the availability, the explored providers and the table so far.\<close>

definition observe_provider ::
  "string \<Rightarrow> int \<Rightarrow> bool \<Rightarrow> string \<Rightarrow> (string \<times> int) list \<times> string list \<times> feedback list \<Rightarrow> (string \<times> int) list \<times> string list \<times> feedback list"
where
  "observe_provider boot now fresh p st =
     (case st of (avail, explored, fs) \<Rightarrow>
      let fs1 = (case feedback_of fs p of
                   None \<Rightarrow> restart_feedback p boot now fs
                 | Some f \<Rightarrow> if fb_boot f \<noteq> boot \<or> fb_last f > now then restart_feedback p boot now fs else fs)
      in case feedback_of fs1 p of
           None \<Rightarrow> (avail, explored, fs1)
         | Some f \<Rightarrow>
             if fb_cooldown f > now then (set_available p 0 avail, explored, fs1)
             else if map_of avail p = None then
               (if may_explore fresh now f
                then (set_available p (fb_bound f + 1) avail, explored @ [p],
                      update_where (\<lambda>x. fb_provider x = p) (explore now) fs1)
                else (set_available p (fb_bound f) avail, explored @ [p], fs1))
             else (avail, explored, fs1))"

definition provider_set :: "string option list \<Rightarrow> string list" where
  "provider_set ps = sort (remdups (List.map_filter id ps))"

fun join_comma :: "string list \<Rightarrow> string" where
  "join_comma [] = []"
| "join_comma [x] = x"
| "join_comma (x # xs) = x @ '','' @ join_comma xs"

definition effective_observation ::
  "string option list \<Rightarrow> string \<Rightarrow> int \<Rightarrow> observation option \<Rightarrow> feedback list \<Rightarrow> observation option \<times> feedback list"
where
  "effective_observation providers boot now obs fs =
     (case obs of
        None \<Rightarrow> (None, fs)
      | Some ob \<Rightarrow>
          let fresh = (validate_observation now feedback_max_age ob = Inr ());
              start = (case ob_provider ob of None \<Rightarrow> [] | Some ps \<Rightarrow> ps, [], fs);
              (avail, explored, fs') = fold (observe_provider boot now fresh) (provider_set providers) start
          in (Some (ob\<lparr>ob_provider := Some avail, ob_source := ob_source ob
                 @ (if explored = [] then [] else '';provider-exploration/v1:'' @ join_comma explored)\<rparr>), fs'))"

section \<open>Recording a result\<close>

text \<open>
  The admission of the reported ticket: its status, whether a child was bound, and its demand
  column. \<open>fi_now\<close> is the clock sample.
\<close>

record feedback_input =
  fi_ticket :: string
  fi_outcome :: string
  fi_retry :: int
  fi_boot :: string
  fi_now :: int

definition step_feedback :: "string \<Rightarrow> int \<Rightarrow> int \<Rightarrow> feedback \<Rightarrow> feedback" where
  "step_feedback outcome retry now f =
     (if outcome = ''throttled''
      then f\<lparr>fb_bound := max 1 (fb_bound f div 2), fb_successes := 0, fb_stable := now,
             fb_cooldown := max (fb_cooldown f) (now + max retry stable_window), fb_last := now\<rparr>
      else if outcome = ''success'' \<and> now \<ge> fb_cooldown f
      then (if fb_successes f + 1 \<ge> 3 \<and> now - fb_stable f \<ge> stable_window
            then f\<lparr>fb_bound := fb_bound f + 1, fb_successes := 0, fb_stable := now, fb_last := now\<rparr>
            else f\<lparr>fb_successes := fb_successes f + 1, fb_last := now\<rparr>)
      else f\<lparr>fb_successes := 0, fb_stable := now, fb_last := now\<rparr>)"

definition feedback_refuse :: "string \<Rightarrow> 'a res" where
  "feedback_refuse m = Inl (ValueError m)"

definition record_result ::
  "feedback_input \<Rightarrow> (string \<times> bool \<times> pyval) option \<Rightarrow> feedback list \<times> feedback_result list \<Rightarrow> (feedback list \<times> feedback_result list) res"
where
  "record_result q lease st =
     (case st of (fs, rs) \<Rightarrow>
      if fi_outcome q \<notin> set [''success'', ''throttled'', ''failed'', ''uncertain''] \<or> fi_retry q < 0
      then feedback_refuse ''invalid provider feedback''
      else case lease of
        None \<Rightarrow> feedback_refuse ''unsettled provider feedback''
      | Some (status, bound_child, column) \<Rightarrow>
          if status \<notin> set [''released'', ''reclaimed''] \<or> \<not> bound_child then feedback_refuse ''unsettled provider feedback''
          else let d = dict_of column in
            if \<not> truthy (dict_get d ''provider'') \<or> \<not> truthy (dict_get d ''provider_units'') then Inr (fs, rs)
            else let p = str_of (dict_get d ''provider'') in
              (case List.find (\<lambda>r. fr_ticket r = fi_ticket q) rs of
                 Some r \<Rightarrow> if fr_outcome r \<noteq> fi_outcome q \<or> fr_retry r \<noteq> fi_retry q
                     then feedback_refuse ''conflicting provider feedback'' else Inr (fs, rs)
               | None \<Rightarrow>
                   (case feedback_of fs p of
                      None \<Rightarrow> feedback_refuse ''provider clock unknown''
                    | Some f \<Rightarrow>
                        if fb_boot f \<noteq> fi_boot q \<or> fi_now q < fb_last f then feedback_refuse ''provider clock unknown''
                        else Inr (update_where (\<lambda>x. fb_provider x = p) (step_feedback (fi_outcome q) (fi_retry q) (fi_now q)) fs,
                          rs @ [\<lparr>fr_ticket = fi_ticket q, fr_provider = p, fr_outcome = fi_outcome q,
                                 fr_retry = fi_retry q, fr_observed = fi_now q\<rparr>]))))"

end
