(* ===== verification/Admission.thy ===== *)
theory Admission
  imports Provider_Feedback "HOL-Library.Product_Lexorder"
begin

text \<open>
  The shared admission queue (\<open>managed_admission.py\<close>): one registry for all runs of a machine, in
  which every supervisor queues for the resources of its launches. The private database, its file
  checks, the backup and the v1 schema migration are not modelled; of the triggers the one that
  keeps a legacy row from being activated is.
\<close>

section \<open>The registry\<close>

text \<open>
  \<open>managed_admissions\<close>; the four columns of a process identity are written together and kept as one.
  \<open>rg_prepaid\<close> holds \<open>resource_parent_group_slots\<close>, \<open>rg_cursor\<close> the pair the cursor column encodes.
\<close>

record admission =
  ma_sequence :: int
  ma_ticket :: string
  ma_root :: string
  ma_run :: string
  ma_owner :: ident
  ma_status :: string
  ma_repo :: string
  ma_key :: string
  ma_generation :: int
  ma_writer :: int
  ma_demand :: pyval
  ma_group :: "string option"
  ma_width :: int
  ma_age :: int
  ma_recheck :: int
  ma_limiting :: "string option"
  ma_observed :: "int option"
  ma_progress :: int
  ma_intent :: "string option"
  ma_child :: "ident option"

record registry =
  rg_rows :: "admission list"
  rg_last :: int
  rg_cursor :: "(string \<times> string) option"
  rg_progress :: int
  rg_feedback :: "feedback list"
  rg_results :: "feedback_result list"
  rg_prepaid :: "(int \<times> string) list"

definition empty_registry :: registry where
  "empty_registry = \<lparr>rg_rows = [], rg_last = 0, rg_cursor = None, rg_progress = 0, rg_feedback = [], rg_results = [],
     rg_prepaid = []\<rparr>"

record ticket =
  tt_sequence :: int
  tt_ticket :: string
  tt_owner :: ident

text \<open>
  What a call reads from outside: the own identity (\<^const>\<open>None\<close> when it cannot be read), the native
  probe, the injected probe (absent, or \<^const>\<open>None\<close> where it raises), the \<open>n\<close>-th clock sample of
  the call, the fresh ticket, the configured ceilings and the scheduler. The samples the scheduler
  takes within one transaction are one.
\<close>

record queue_env =
  qe_self :: "ident option"
  qe_probe :: "ident \<Rightarrow> liveness"
  qe_injected :: "(ident \<Rightarrow> liveness option) option"
  qe_now :: "nat \<Rightarrow> int"
  qe_fresh :: string
  qe_ceilings :: "(string \<times> int) list"
  qe_scheduler :: scheduler

definition UNBOUND_RELEASE :: string where
  "UNBOUND_RELEASE = ''owner-released-unbound''"

definition admission_refuse :: "string \<Rightarrow> 'a res" where
  "admission_refuse code = Inl (ManagedAdmissionRefused code)"

lemma admission_refuse_simps [simp]: "admission_refuse c \<noteq> Inr x" "Inr x \<noteq> admission_refuse c" "isl (admission_refuse c)"
  by (simp_all add: admission_refuse_def)

type_synonym 'a qtx = "registry \<Rightarrow> ('a \<times> registry) res"

text \<open>\<open>_transaction\<close>: a refusal rolls back.\<close>

definition queue_transaction :: "'a qtx \<Rightarrow> registry \<Rightarrow> 'a res \<times> registry" where
  "queue_transaction body q = (case body q of Inl e \<Rightarrow> (Inl e, q) | Inr (x, q') \<Rightarrow> (Inr x, q'))"

definition own_identity :: "queue_env \<Rightarrow> ident option \<Rightarrow> ident res" where
  "own_identity e expected =
     (case qe_self e of
        None \<Rightarrow> admission_refuse ''MANAGED_ADMISSION_IDENTITY_UNKNOWN''
      | Some self \<Rightarrow> if (expected \<noteq> None \<and> Some self \<noteq> expected) \<or> qe_probe e self \<noteq> LIVE
          then admission_refuse ''MANAGED_ADMISSION_IDENTITY_UNKNOWN'' else Inr self)"

text \<open>\<open>_dead_probe\<close>: both probes must say so.\<close>

definition dead_probe :: "queue_env \<Rightarrow> ident option \<Rightarrow> bool" where
  "dead_probe e i =
     (case i of
        None \<Rightarrow> False
      | Some x \<Rightarrow> qe_probe e x = DEAD \<and> (case qe_injected e of None \<Rightarrow> True | Some p \<Rightarrow> p x = Some DEAD))"

definition ticket_row :: "int \<Rightarrow> string \<Rightarrow> registry \<Rightarrow> admission option" where
  "ticket_row n t q = List.find (\<lambda>r. ma_sequence r = n \<and> ma_ticket r = t) (rg_rows q)"

definition update_rows :: "(admission \<Rightarrow> bool) \<Rightarrow> (admission \<Rightarrow> admission) \<Rightarrow> registry \<Rightarrow> registry" where
  "update_rows P f q = q\<lparr>rg_rows := update_where P f (rg_rows q)\<rparr>"

section \<open>Enqueue\<close>

record enqueue_request =
  eq_root :: string
  eq_run :: string
  eq_repo :: string
  eq_key :: string
  eq_generation :: int
  eq_demand :: "demand option"
  eq_group :: "string option"
  eq_width :: int
  eq_intent :: "string option"

definition default_demand :: demand where
  "default_demand = \<lparr>dm_cpu = 1, dm_memory = 0, dm_disk = 0, dm_io = 0, dm_processes = 1, dm_provider = None, dm_units = 0\<rparr>"

definition requested_demand :: "enqueue_request \<Rightarrow> demand" where
  "requested_demand r = (case eq_demand r of None \<Rightarrow> default_demand | Some x \<Rightarrow> x)"

definition unbound_release :: "admission \<Rightarrow> bool" where
  "unbound_release r = (ma_status r = ''released'' \<and> ma_limiting r = Some UNBOUND_RELEASE \<and> ma_intent r = None \<and> ma_child r = None)"

definition same_request :: "enqueue_request \<Rightarrow> admission \<Rightarrow> bool" where
  "same_request rq r = (ma_repo r = eq_repo rq \<and> ma_run r = eq_run rq \<and> ma_key r = eq_key rq
     \<and> ma_generation r = eq_generation rq)"

definition retained_rows :: "enqueue_request \<Rightarrow> registry \<Rightarrow> admission list" where
  "retained_rows rq q = filter (\<lambda>r. same_request rq r \<and> \<not> unbound_release r) (rg_rows q)"

definition new_admission :: "ident \<Rightarrow> string \<Rightarrow> int \<Rightarrow> enqueue_request \<Rightarrow> int \<Rightarrow> admission" where
  "new_admission owner t now rq n = \<lparr>ma_sequence = n, ma_ticket = t, ma_root = eq_root rq, ma_run = eq_run rq, ma_owner = owner,
     ma_status = ''waiting'', ma_repo = eq_repo rq, ma_key = eq_key rq, ma_generation = eq_generation rq, ma_writer = 2,
     ma_demand = demand_record (requested_demand rq), ma_group = eq_group rq, ma_width = eq_width rq, ma_age = now,
     ma_recheck = 0, ma_limiting = None, ma_observed = None, ma_progress = now, ma_intent = eq_intent rq, ma_child = None\<rparr>"

definition enqueue_tx :: "queue_env \<Rightarrow> ident \<Rightarrow> enqueue_request \<Rightarrow> ticket qtx" where
  "enqueue_tx e owner rq q =
     (let retained = (if eq_repo rq \<noteq> [] \<and> eq_key rq \<noteq> [] then retained_rows rq q else []) in
      case retained of
        row # rest \<Rightarrow>
          if rest \<noteq> [] \<or> ma_owner row \<noteq> owner \<or> ma_root row \<noteq> eq_root rq \<or> ma_demand row \<noteq> demand_record (requested_demand rq)
             \<or> ma_group row \<noteq> eq_group rq \<or> ma_width row \<noteq> eq_width rq
             \<or> (eq_intent rq \<noteq> None \<and> ma_intent row \<noteq> eq_intent rq) \<or> ma_status row \<notin> set [''waiting'', ''active'']
          then admission_refuse ''LEASE_RECONCILIATION_REQUIRED''
          else Inr (\<lparr>tt_sequence = ma_sequence row, tt_ticket = ma_ticket row, tt_owner = owner\<rparr>, q)
      | [] \<Rightarrow>
          if list_ex (\<lambda>r. ma_ticket r = qe_fresh e) (rg_rows q) then admission_refuse ''MANAGED_ADMISSION_STORE_UNAVAILABLE''
          else let n = rg_last q + 1 in
            Inr (\<lparr>tt_sequence = n, tt_ticket = qe_fresh e, tt_owner = owner\<rparr>,
              q\<lparr>rg_rows := rg_rows q @ [new_admission owner (qe_fresh e) (qe_now e 0) rq n], rg_last := n\<rparr>))"

text \<open>The state root is given resolved; \<open>Path.is_absolute\<close> is a leading slash.\<close>

definition enqueue :: "queue_env \<Rightarrow> enqueue_request \<Rightarrow> registry \<Rightarrow> ticket res \<times> registry" where
  "enqueue e rq q =
     (if eq_run rq = [] \<or> \<not> py_startswith (eq_root rq) ''/'' \<or> eq_generation rq \<le> 0 \<or> eq_width rq \<le> 0
      then (admission_refuse ''INVALID_REQUEST'', q)
      else case own_identity e None of
        Inl x \<Rightarrow> (Inl x, q)
      | Inr owner \<Rightarrow> queue_transaction (enqueue_tx e owner rq) q)"

text \<open>\<open>status\<close>: the row with its age and the number of active leases.\<close>

definition queue_status :: "queue_env \<Rightarrow> ticket \<Rightarrow> registry \<Rightarrow> (admission \<times> int \<times> nat) res" where
  "queue_status e t q =
     (case ticket_row (tt_sequence t) (tt_ticket t) q of
        None \<Rightarrow> admission_refuse ''MANAGED_ADMISSION_TICKET_INVALID''
      | Some r \<Rightarrow> Inr (r, max 0 (qe_now e 0 - ma_age r), count_where (\<lambda>x. ma_status x = ''active'') (rg_rows q)))"

section \<open>Reclaiming the leases of dead processes\<close>

text \<open>\<open>LeaseIdentity\<close> (its constructor refuses what \<open>valid_lease\<close> excludes) and \<open>FencedLeaseRecord\<close>.\<close>

record lease =
  le_repo :: string
  le_run :: string
  le_key :: string
  le_intent :: "string option"
  le_generation :: int
  le_supervisor :: ident
  le_consumer :: "ident option"

record fenced_record =
  fe_repo :: string
  fe_run :: string
  fe_key :: string
  fe_intent :: "string option"
  fe_generation :: int
  fe_writer :: ident
  fe_intent_state :: string
  fe_request_state :: string
  fe_hash :: string

definition valid_lease :: "lease \<Rightarrow> bool" where
  "valid_lease l = (le_repo l \<noteq> [] \<and> le_run l \<noteq> [] \<and> le_key l \<noteq> [] \<and> 0 < le_generation l \<and> le_intent l \<noteq> Some [])"

definition proves_never_authorized :: "fenced_record \<Rightarrow> lease \<Rightarrow> bool" where
  "proves_never_authorized f l =
     ((fe_repo f, fe_run f, fe_key f, fe_intent f, fe_generation f) = (le_repo l, le_run l, le_key l, le_intent l, le_generation l)
      \<and> fe_writer f = le_supervisor l \<and> fe_intent_state f = ''never_authorized'' \<and> fe_request_state f = ''generation_fenced''
      \<and> length (fe_hash f) = 64)"

definition open_status :: "admission \<Rightarrow> bool" where
  "open_status r = (ma_status r \<in> set [''waiting'', ''active''])"

definition set_status :: "string \<Rightarrow> string option \<Rightarrow> admission \<Rightarrow> admission" where
  "set_status st lim r = r\<lparr>ma_status := st, ma_limiting := lim\<rparr>"

definition reclaim_pre_spawn_tx :: "ticket \<Rightarrow> lease \<Rightarrow> bool qtx" where
  "reclaim_pre_spawn_tx t l q =
     (case ticket_row (tt_sequence t) (tt_ticket t) q of
        None \<Rightarrow> Inr (False, q)
      | Some r \<Rightarrow>
          if \<not> open_status r then Inr (False, q)
          else if (ma_repo r, ma_run r, ma_key r, ma_intent r, ma_generation r) \<noteq> (le_repo l, le_run l, le_key l, le_intent l, le_generation l)
            \<or> ma_child r \<noteq> None
          then admission_refuse ''LEASE_IDENTITY_MISMATCH''
          else Inr (True, update_rows (\<lambda>x. ma_sequence x = tt_sequence t \<and> ma_ticket x = tt_ticket t \<and> open_status x)
            (set_status ''reclaimed'' (Some ''pre-spawn-proved'')) q))"

text \<open>The evidence reader is consulted before the transaction.\<close>

definition reclaim_pre_spawn ::
  "(lease \<Rightarrow> fenced_record option) \<Rightarrow> ticket \<Rightarrow> lease \<Rightarrow> registry \<Rightarrow> bool res \<times> registry"
where
  "reclaim_pre_spawn reader t l q =
     (if (case reader l of None \<Rightarrow> True | Some f \<Rightarrow> \<not> proves_never_authorized f l)
      then (admission_refuse ''PRESPAWN_RECLAIM_PROOF_REQUIRED'', q)
      else queue_transaction (reclaim_pre_spawn_tx t l) q)"

definition row_lease :: "admission \<Rightarrow> lease" where
  "row_lease r = \<lparr>le_repo = ma_repo r, le_run = ma_run r, le_key = ma_key r, le_intent = ma_intent r,
     le_generation = ma_generation r, le_supervisor = ma_owner r, le_consumer = None\<rparr>"

definition row_ticket :: "admission \<Rightarrow> ticket" where
  "row_ticket r = \<lparr>tt_sequence = ma_sequence r, tt_ticket = ma_ticket r, tt_owner = ma_owner r\<rparr>"

text \<open>The rows whose launch may be proved never started: version two, named, childless, not prepaid.\<close>

definition pre_spawn_candidate :: "queue_env \<Rightarrow> registry \<Rightarrow> admission \<Rightarrow> bool" where
  "pre_spawn_candidate e seen r = (open_status r \<and> ma_child r = None \<and> ma_writer r = 2 \<and> ma_repo r \<noteq> [] \<and> ma_key r \<noteq> []
     \<and> (ma_sequence r, ma_ticket r) \<notin> set (rg_prepaid seen) \<and> dead_probe e (Some (ma_owner r)))"

definition doomed :: "queue_env \<Rightarrow> admission \<Rightarrow> bool" where
  "doomed e r = (open_status r \<and> ma_child r \<noteq> None \<and> dead_probe e (Some (ma_owner r)) \<and> dead_probe e (ma_child r))"

text \<open>A refused or unproved reclaim of one row leaves it; an invalid lease raises out of the loop.\<close>

fun reclaim_rows ::
  "queue_env \<Rightarrow> (string \<Rightarrow> lease \<Rightarrow> fenced_record option) \<Rightarrow> registry \<Rightarrow> admission list \<Rightarrow> registry \<Rightarrow> unit res \<times> registry"
where
  "reclaim_rows e reader seen [] q = (Inr (), q)"
| "reclaim_rows e reader seen (r # rs) q =
     (if pre_spawn_candidate e seen r then
        if \<not> valid_lease (row_lease r) then (admission_refuse ''LEASE_IDENTITY_INVALID'', q)
        else reclaim_rows e reader seen rs (snd (reclaim_pre_spawn (reader (ma_root r)) (row_ticket r) (row_lease r) q))
      else reclaim_rows e reader seen rs q)"

definition reclaim_doomed_tx :: "admission list \<Rightarrow> unit qtx" where
  "reclaim_doomed_tx ds q = Inr ((), update_rows (\<lambda>x. open_status x \<and> list_ex (\<lambda>r. ma_sequence x = ma_sequence r
     \<and> ma_ticket x = ma_ticket r \<and> ma_owner x = ma_owner r \<and> ma_child x = ma_child r) ds)
     (set_status ''reclaimed'' (Some ''lease-dead'')) q)"

text \<open>\<open>seen\<close> is the registry the read at the start saw.\<close>

definition reclaim_dead ::
  "queue_env \<Rightarrow> (string \<Rightarrow> lease \<Rightarrow> fenced_record option) \<Rightarrow> registry \<Rightarrow> registry \<Rightarrow> unit res \<times> registry"
where
  "reclaim_dead e reader seen q =
     (case reclaim_rows e reader seen (filter open_status (rg_rows seen)) q of
        (Inl x, q1) \<Rightarrow> (Inl x, q1)
      | (Inr _, q1) \<Rightarrow>
          let ds = filter (doomed e) (rg_rows seen) in
          if ds = [] then (Inr (), q1) else queue_transaction (reclaim_doomed_tx ds) q1)"

section \<open>Admission\<close>

text \<open>
  The earliest live waiter of every \<open>(repository, run)\<close>, in the order of the keys, starting after
  the cursor.
\<close>

definition by_sequence :: "admission list \<Rightarrow> admission list" where
  "by_sequence rows = sort_key ma_sequence rows"

definition run_of :: "admission \<Rightarrow> string \<times> string" where
  "run_of r = (ma_repo r, ma_run r)"

definition live_waiting :: "ident list \<Rightarrow> registry \<Rightarrow> admission list" where
  "live_waiting live q = by_sequence (filter (\<lambda>r. ma_status r = ''waiting'' \<and> ma_owner r \<in> set live) (rg_rows q))"

definition rotate_after :: "(string \<times> string) option \<Rightarrow> (string \<times> string) list \<Rightarrow> (string \<times> string) list" where
  "rotate_after c ks =
     (case c of
        None \<Rightarrow> ks
      | Some x \<Rightarrow> if x \<in> set ks then tl (dropWhile (\<lambda>k. k \<noteq> x) ks) @ takeWhile (\<lambda>k. k \<noteq> x) ks @ [x] else ks)"

definition candidates :: "ident list \<Rightarrow> registry \<Rightarrow> admission list" where
  "candidates live q =
     (let rows = live_waiting live q;
          ks = rotate_after (rg_cursor q) (sort (remdups (map run_of rows)))
      in List.map_filter (\<lambda>k. List.find (\<lambda>r. run_of r = k) rows) ks)"

definition row_demand :: "admission \<Rightarrow> demand res" where
  "row_demand r = demand_from_record (ma_demand r)"

definition active_demands :: "registry \<Rightarrow> pyval list" where
  "active_demands q = map ma_demand (filter (\<lambda>r. ma_status r = ''active'') (rg_rows q))"

text \<open>The waiting peers of a candidate, whoever owns them; an empty group id is no group.\<close>

definition ungrouped :: "admission \<Rightarrow> bool" where
  "ungrouped r = (ma_group r = None \<or> ma_group r = Some [])"

definition candidate_group :: "registry \<Rightarrow> admission \<Rightarrow> admission list" where
  "candidate_group q r =
     (if ungrouped r then [r]
      else by_sequence (filter (\<lambda>x. ma_status x = ''waiting'' \<and> ma_group x = ma_group r) (rg_rows q)))"

definition group_decisions ::
  "queue_env \<Rightarrow> observation option \<Rightarrow> pyval list \<Rightarrow> admission list \<Rightarrow> decision list res"
where
  "group_decisions e obs rows g =
     bindR (mapR row_demand g) (\<lambda>xs. Inr (decide_group (qe_scheduler e) (qe_ceilings e) (qe_now e 2) obs rows xs))"

text \<open>
  The oldest complete group that has waited long enough and would fit an idle machine, with the
  resource that still blocks it.
\<close>

fun aged_group ::
  "queue_env \<Rightarrow> observation option \<Rightarrow> registry \<Rightarrow> admission list \<Rightarrow> (admission \<times> string option) option res"
where
  "aged_group e obs q [] = Inr None"
| "aged_group e obs q (c # cs) =
     (let peers = candidate_group q c in
      if ungrouped c \<or> int (length peers) \<noteq> ma_width c \<or> qe_now e 1 - ma_age c < sc_cooldown (qe_scheduler e)
      then aged_group e obs q cs
      else bindR (group_decisions e obs [] peers) (\<lambda>empty.
        if first_blocked empty \<noteq> None then aged_group e obs q cs
        else bindR (group_decisions e obs (active_demands q) peers) (\<lambda>ds.
          Inr (Some (c, case first_blocked ds of None \<Rightarrow> None | Some b \<Rightarrow> sd_limiting b)))))"

definition drop_provider :: "string \<Rightarrow> string" where
  "drop_provider s = (if py_startswith s ''provider:'' then drop 9 s else s)"

definition competes :: "string option \<Rightarrow> demand list \<Rightarrow> bool" where
  "competes protected xs =
     (case protected of
        None \<Rightarrow> True
      | Some k \<Rightarrow> if py_startswith k ''provider:''
          then list_ex (\<lambda>x. dm_provider x = Some (drop_provider k) \<and> dm_units x > 0) xs
          else list_ex (\<lambda>x. demand_of x k > 0) xs)"

definition group_name :: "admission \<Rightarrow> string" where
  "group_name r = (case ma_group r of None \<Rightarrow> ''None'' | Some g \<Rightarrow> g)"

definition limited_by :: "string \<Rightarrow> int \<Rightarrow> admission \<Rightarrow> admission" where
  "limited_by lim recheck r = r\<lparr>ma_limiting := Some lim, ma_recheck := recheck\<rparr>"

definition blocked_by :: "decision \<Rightarrow> admission \<Rightarrow> admission" where
  "blocked_by b r = r\<lparr>ma_limiting := Some (case sd_limiting b of None \<Rightarrow> sd_code b | Some k \<Rightarrow> if k = [] then sd_code b else k),
     ma_observed := sd_age b, ma_recheck := sd_recheck b\<rparr>"

definition sequence_is :: "int \<Rightarrow> admission \<Rightarrow> bool" where
  "sequence_is n r = (ma_sequence r = n)"

text \<open>
  The loop over the choices: the group to grant, or \<^const>\<open>None\<close> when nothing fits or an earlier
  candidate does. \<open>groups\<close> are the peers as read before the loop.
\<close>

fun admit_loop ::
  "queue_env \<Rightarrow> observation option \<Rightarrow> int \<Rightarrow> (admission \<times> string option) option \<Rightarrow> (admission \<Rightarrow> admission list)
     \<Rightarrow> pyval list \<Rightarrow> admission list \<Rightarrow> registry \<Rightarrow> ((admission list \<times> decision list) option \<times> registry) res"
where
  "admit_loop e obs own priority groups active [] q = Inr (None, q)"
| "admit_loop e obs own priority groups active (c # cs) q =
     (let g = groups c; again = admit_loop e obs own priority groups active cs in
      if int (length g) < ma_width c then again q
      else bindR (mapR row_demand g) (\<lambda>xs.
        case (case priority of None \<Rightarrow> None | Some (p, protected) \<Rightarrow>
            if ma_sequence c \<noteq> ma_sequence p \<and> competes protected xs then Some p else None) of
          Some p \<Rightarrow> again (update_rows (sequence_is (ma_sequence c))
             (limited_by (''aged-group:'' @ group_name p) (qe_now e 1 + sc_cooldown (qe_scheduler e))) q)
        | None \<Rightarrow>
            let ds = decide_group (qe_scheduler e) (qe_ceilings e) (qe_now e 2) obs active xs in
            (case first_blocked ds of
               Some b \<Rightarrow> again (update_rows (sequence_is (ma_sequence c)) (blocked_by b) q)
             | None \<Rightarrow> if ma_sequence c \<noteq> own then Inr (None, q) else Inr (Some (g, ds), q))))"

definition legacy_opaque :: "registry \<Rightarrow> bool" where
  "legacy_opaque q = list_ex (\<lambda>r. ma_writer r = 1 \<and> ma_status r \<noteq> ''reclaimed'') (rg_rows q)"

definition clear_opaque_tags :: "registry \<Rightarrow> registry" where
  "clear_opaque_tags q = update_rows (\<lambda>r. ma_limiting r = Some ''legacy-opaque'') (\<lambda>r. r\<lparr>ma_limiting := None\<rparr>) q"

definition needs_machine :: "demand \<Rightarrow> bool" where
  "needs_machine x = list_ex (\<lambda>k. demand_of x k \<noteq> 0) resource_names"

definition activate_row :: "decision \<Rightarrow> int \<Rightarrow> admission \<Rightarrow> admission" where
  "activate_row d now r = r\<lparr>ma_status := ''active'', ma_limiting := None, ma_observed := sd_age d, ma_recheck := sd_recheck d,
     ma_progress := now\<rparr>"

text \<open>The trigger \<open>admission_fence_activate\<close> aborts the transaction for a legacy row.\<close>

definition grant_group :: "queue_env \<Rightarrow> admission \<Rightarrow> admission list \<Rightarrow> decision list \<Rightarrow> registry \<Rightarrow> registry res" where
  "grant_group e own g ds q =
     (let hit = (\<lambda>r. ma_sequence r \<in> ma_sequence ` set g \<and> ma_status r = ''waiting'') in
      if list_ex (\<lambda>r. hit r \<and> ma_writer r \<noteq> 2) (rg_rows q) then admission_refuse ''MANAGED_ADMISSION_STORE_UNAVAILABLE''
      else Inr ((update_rows hit (activate_row (hd ds) (qe_now e 3)) q)
        \<lparr>rg_cursor := Some (run_of own), rg_progress := qe_now e 3\<rparr>))"

text \<open>The candidates in the order they are tried, and the group that must not be overtaken.\<close>

definition admission_order ::
  "queue_env \<Rightarrow> observation option \<Rightarrow> admission list \<Rightarrow> registry \<Rightarrow> (admission list \<times> (admission \<times> string option) option) res"
where
  "admission_order e obs choices q =
     bindR (aged_group e obs q (sort_key (\<lambda>r. (ma_age r, ma_sequence r)) choices)) (\<lambda>priority.
       Inr (case priority of
              None \<Rightarrow> (choices, None)
            | Some (p, k) \<Rightarrow> (p # filter (\<lambda>r. ma_sequence r \<noteq> ma_sequence p) choices, Some (p, k))))"

definition admit_open :: "queue_env \<Rightarrow> observation option \<Rightarrow> admission \<Rightarrow> admission list \<Rightarrow> bool qtx" where
  "admit_open e obs own choices q =
     bindR (admission_order e obs choices q) (\<lambda>(order, priority).
     bindR (admit_loop e obs (ma_sequence own) priority (candidate_group q) (active_demands q) order q) (\<lambda>(found, q1).
     case found of
       None \<Rightarrow> Inr (False, q1)
     | Some (g, ds) \<Rightarrow> bindR (grant_group e own g ds q1) (\<lambda>q2. Inr (True, q2))))"

definition try_admit_tx :: "queue_env \<Rightarrow> ident list \<Rightarrow> observation option \<Rightarrow> ticket \<Rightarrow> bool qtx" where
  "try_admit_tx e live obs t q =
     (case ticket_row (tt_sequence t) (tt_ticket t) q of
        None \<Rightarrow> admission_refuse ''MANAGED_ADMISSION_TICKET_INVALID''
      | Some own \<Rightarrow>
          if ma_owner own \<noteq> tt_owner t \<or> \<not> open_status own then admission_refuse ''MANAGED_ADMISSION_TICKET_INVALID''
          else if ma_writer own \<noteq> 2 then admission_refuse ''MANAGED_ADMISSION_LEGACY_RESUME_REQUIRED''
          else if ma_status own = ''active'' then Inr (True, q)
          else let choices = candidates live q in
            bindR (mapR row_demand choices) (\<lambda>xs.
            let (obs1, fs) = effective_observation (map dm_provider xs) (id_boot (tt_owner t)) (qe_now e 0) obs (rg_feedback q);
                q1 = q\<lparr>rg_feedback := fs\<rparr>;
                q2 = (if legacy_opaque q1 then q1 else clear_opaque_tags q1) in
            bindR (row_demand own) (\<lambda>x.
            if legacy_opaque q1 \<and> needs_machine x
            then Inr (False, update_rows (sequence_is (ma_sequence own))
              (limited_by ''legacy-opaque'' (qe_now e 1 + sc_cooldown (qe_scheduler e))) q2)
            else admit_open e obs1 own choices q2)))"

text \<open>
  The whole call without interference: the retained grant, the reclaim of dead leases, the probes of
  the waiters, and the admission. \<open>obs\<close> is \<^const>\<open>None\<close> when the observation raises.
\<close>

definition live_owners :: "queue_env \<Rightarrow> registry \<Rightarrow> ident list" where
  "live_owners e q = filter (\<lambda>i. qe_probe e i = LIVE) (map ma_owner (filter (\<lambda>r. ma_status r = ''waiting'') (rg_rows q)))"

definition try_admit ::
  "queue_env \<Rightarrow> (string \<Rightarrow> lease \<Rightarrow> fenced_record option) \<Rightarrow> observation option \<Rightarrow> ticket \<Rightarrow> registry \<Rightarrow> bool res \<times> registry"
where
  "try_admit e reader obs t q =
     (case bindR (own_identity e (Some (tt_owner t))) (\<lambda>_. queue_status e t q) of
        Inl x \<Rightarrow> (Inl x, q)
      | Inr (r, _) \<Rightarrow>
          if ma_status r = ''active'' \<and> ma_owner r = tt_owner t then (Inr True, q)
          else case reclaim_dead e reader q q of
            (Inl x, q1) \<Rightarrow> (Inl x, q1)
          | (Inr _, q1) \<Rightarrow>
              (case obs of
                 None \<Rightarrow> (admission_refuse ''RESOURCE_OBSERVATION_UNAVAILABLE'', q1)
               | Some ob \<Rightarrow> queue_transaction (try_admit_tx e (live_owners e q1) (Some ob) t) q1))"

section \<open>Binding and releasing\<close>

definition bind_consumer_tx :: "queue_env \<Rightarrow> ticket \<Rightarrow> lease \<Rightarrow> unit qtx" where
  "bind_consumer_tx e t l q =
     (case ticket_row (tt_sequence t) (tt_ticket t) q of
        None \<Rightarrow> admission_refuse ''LEASE_IDENTITY_MISMATCH''
      | Some r \<Rightarrow>
          if ma_owner r \<noteq> tt_owner t \<or> ma_status r \<noteq> ''active'' \<or> ma_run r \<noteq> le_run l
             \<or> ma_repo r \<notin> {[], le_repo l} \<or> ma_key r \<notin> {[], le_key l} \<or> ma_generation r \<noteq> le_generation l
             \<or> ma_intent r \<notin> {None, le_intent l} \<or> (ma_child r \<noteq> None \<and> ma_child r \<noteq> le_consumer l)
          then admission_refuse ''LEASE_IDENTITY_MISMATCH''
          else Inr ((), update_rows (\<lambda>x. ma_sequence x = tt_sequence t \<and> ma_ticket x = tt_ticket t \<and> ma_status x = ''active'')
            (\<lambda>x. x\<lparr>ma_repo := le_repo l, ma_key := le_key l, ma_generation := le_generation l, ma_intent := le_intent l,
               ma_child := le_consumer l, ma_progress := qe_now e 0\<rparr>) q))"

definition bind_consumer :: "queue_env \<Rightarrow> ticket \<Rightarrow> lease \<Rightarrow> registry \<Rightarrow> unit res \<times> registry" where
  "bind_consumer e t l q =
     (case own_identity e (Some (tt_owner t)) of
        Inl x \<Rightarrow> (Inl x, q)
      | Inr _ \<Rightarrow>
          if le_supervisor l \<noteq> tt_owner t \<or> le_intent l = None
          then (admission_refuse ''LEASE_IDENTITY_MISMATCH'', q)
          else queue_transaction (bind_consumer_tx e t l) q)"

definition record_provider_feedback :: "queue_env \<Rightarrow> ticket \<Rightarrow> string \<Rightarrow> int \<Rightarrow> registry \<Rightarrow> unit res \<times> registry" where
  "record_provider_feedback e t outcome retry q =
     (case own_identity e (Some (tt_owner t)) of
        Inl x \<Rightarrow> (Inl x, q)
      | Inr self \<Rightarrow>
          (case record_result \<lparr>fi_ticket = tt_ticket t, fi_outcome = outcome, fi_retry = retry, fi_boot = id_boot self, fi_now = qe_now e 0\<rparr>
              (map_option (\<lambda>r. (ma_status r, ma_child r \<noteq> None, ma_demand r)) (List.find (\<lambda>r. ma_ticket r = tt_ticket t) (rg_rows q)))
              (rg_feedback q, rg_results q) of
             Inl _ \<Rightarrow> (admission_refuse ''PROVIDER_FEEDBACK_INVALID'', q)
           | Inr (fs, rs) \<Rightarrow> (Inr (), q\<lparr>rg_feedback := fs, rg_results := rs\<rparr>)))"

definition resume_legacy_tx :: "ticket \<Rightarrow> ident \<Rightarrow> unit qtx" where
  "resume_legacy_tx t recorded q =
     (case ticket_row (tt_sequence t) (tt_ticket t) q of
        None \<Rightarrow> admission_refuse ''MANAGED_ADMISSION_LEGACY_RESUME_REQUIRED''
      | Some r \<Rightarrow>
          if ma_writer r \<noteq> 1 then admission_refuse ''MANAGED_ADMISSION_LEGACY_RESUME_REQUIRED''
          else if ma_owner r \<noteq> recorded \<or> recorded \<noteq> tt_owner t then admission_refuse ''LEGACY_WRITER_PROOF_REQUIRED''
          else Inr ((), update_rows (sequence_is (tt_sequence t)) (\<lambda>x. x\<lparr>ma_writer := 2\<rparr>) q))"

definition resume_legacy :: "queue_env \<Rightarrow> ticket \<Rightarrow> ident \<Rightarrow> registry \<Rightarrow> unit res \<times> registry" where
  "resume_legacy e t recorded q =
     (case own_identity e (Some (tt_owner t)) of
        Inl x \<Rightarrow> (Inl x, q)
      | Inr _ \<Rightarrow> queue_transaction (resume_legacy_tx t recorded) q)"

definition release_unbound_tx :: "ticket \<Rightarrow> ident \<Rightarrow> bool qtx" where
  "release_unbound_tx t owner q =
     (let hit = (\<lambda>x. ma_sequence x = tt_sequence t \<and> ma_ticket x = tt_ticket t \<and> ma_owner x = owner \<and> open_status x
          \<and> ma_intent x = None \<and> ma_child x = None) in
      if (tt_sequence t, tt_ticket t) \<in> set (rg_prepaid q) then Inr (False, q)
      else Inr (count_where hit (rg_rows q) = 1, update_rows hit (set_status ''released'' (Some UNBOUND_RELEASE)) q))"

definition release_unbound :: "queue_env \<Rightarrow> ticket \<Rightarrow> registry \<Rightarrow> bool res \<times> registry" where
  "release_unbound e t q =
     (case own_identity e (Some (tt_owner t)) of
        Inl x \<Rightarrow> (Inl x, q)
      | Inr owner \<Rightarrow> queue_transaction (release_unbound_tx t owner) q)"

text \<open>\<open>child\<close> is the child of the row read before the transaction; it is compared again when there is one.\<close>

definition release_tx :: "ticket \<Rightarrow> ident option \<Rightarrow> unit qtx" where
  "release_tx t child q =
     (let hit = (\<lambda>x. ma_sequence x = tt_sequence t \<and> ma_ticket x = tt_ticket t \<and> ma_owner x = tt_owner t
          \<and> (child = None \<or> ma_child x = child) \<and> ma_status x \<in> set [''waiting'', ''active'', ''released'']) in
      case ticket_row (tt_sequence t) (tt_ticket t) q of
        None \<Rightarrow> admission_refuse ''MANAGED_ADMISSION_TICKET_INVALID''
      | Some r \<Rightarrow>
          if ma_owner r \<noteq> tt_owner t \<or> count_where hit (rg_rows q) \<noteq> 1 then admission_refuse ''MANAGED_ADMISSION_TICKET_INVALID''
          else Inr ((), update_rows hit (\<lambda>x. x\<lparr>ma_status := ''released''\<rparr>) q))"

definition release_lease :: "queue_env \<Rightarrow> ticket \<Rightarrow> registry \<Rightarrow> registry \<Rightarrow> unit res \<times> registry" where
  "release_lease e t seen q =
     (case own_identity e (Some (tt_owner t)) of
        Inl x \<Rightarrow> (Inl x, q)
      | Inr _ \<Rightarrow>
          (case ticket_row (tt_sequence t) (tt_ticket t) seen of
             None \<Rightarrow> (admission_refuse ''MANAGED_ADMISSION_TICKET_INVALID'', q)
           | Some r \<Rightarrow>
               if ma_owner r \<noteq> tt_owner t then (admission_refuse ''MANAGED_ADMISSION_TICKET_INVALID'', q)
               else if ma_status r = ''active'' \<and> \<not> dead_probe e (ma_child r)
               then (admission_refuse ''MANAGED_ADMISSION_DESCENDANT_RETAINED'', q)
               else queue_transaction (release_tx t (ma_child r)) q))"

section \<open>Reconciliation\<close>

record plan_item =
  pl_sequence :: int
  pl_ticket :: string
  pl_writer :: int
  pl_status :: string
  pl_owner :: ident
  pl_child :: "ident option"
  pl_reclaim :: bool
  pl_proof :: "string option"
  pl_reason :: "string option"

text \<open>
  \<open>_plan_rows\<close> on migrated rows: the decision, the proof of a reclaim, the reason of a keep. The owner
  columns are never null.
\<close>

definition plan_decision :: "queue_env \<Rightarrow> string \<Rightarrow> admission \<Rightarrow> bool \<times> string option \<times> string option" where
  "plan_decision e boot r =
     (let owner = ma_owner r; dead = dead_probe e (Some owner); other_boot = id_boot owner \<noteq> boot;
          liveness = (if qe_probe e owner = LIVE then ''OWNER_LIVE'' else ''OWNER_UNKNOWN'') in
      if ma_writer r = 1 then
        (if \<not> other_boot then (False, None, Some ''LEGACY_SAME_BOOT_UNPROVABLE'')
         else if dead then (True, Some ''boot-changed'', None) else (False, None, Some liveness))
      else if ma_status r = ''released'' then (False, None, Some ''RELEASED_RETAINED'')
      else if other_boot \<and> dead then (True, Some ''boot-changed'', None)
      else if ma_status r = ''waiting'' \<and> ma_child r = None \<and> dead then (True, Some ''dead-waiter'', None)
      else if ma_status r = ''active'' \<and> ma_child r = None \<and> dead then (False, None, Some ''ACTIVE_LEASE_UNPROVABLE'')
      else (False, None, Some liveness))"

definition plan_rows :: "queue_env \<Rightarrow> string \<Rightarrow> admission list \<Rightarrow> plan_item list" where
  "plan_rows e boot rows = map (\<lambda>r. case plan_decision e boot r of (dec, proof, reason) \<Rightarrow>
       \<lparr>pl_sequence = ma_sequence r, pl_ticket = ma_ticket r, pl_writer = ma_writer r, pl_status = ma_status r,
        pl_owner = ma_owner r, pl_child = ma_child r, pl_reclaim = dec, pl_proof = proof, pl_reason = reason\<rparr>)
     (filter (\<lambda>r. ma_status r \<noteq> ''reclaimed'') rows)"

definition plan_match :: "plan_item \<Rightarrow> admission \<Rightarrow> bool" where
  "plan_match p r = (ma_sequence r = pl_sequence p \<and> ma_ticket r = pl_ticket p \<and> ma_writer r = pl_writer p
     \<and> ma_status r = pl_status p \<and> ma_owner r = pl_owner p \<and> ma_child r = pl_child p)"

definition proof_text :: "plan_item \<Rightarrow> string" where
  "proof_text p = (case pl_proof p of None \<Rightarrow> [] | Some s \<Rightarrow> s)"

text \<open>The compare-and-set of every reclaim: the sequences reclaimed, and those whose row changed.\<close>

fun apply_plan :: "plan_item list \<Rightarrow> int list \<times> int list \<Rightarrow> registry \<Rightarrow> (int list \<times> int list) \<times> registry" where
  "apply_plan [] acc q = (acc, q)"
| "apply_plan (p # ps) acc q =
     (if \<not> pl_reclaim p then apply_plan ps acc q
      else let q' = update_rows (plan_match p) (set_status ''reclaimed'' (Some (''reconcile:'' @ proof_text p))) q in
        if count_where (plan_match p) (rg_rows q) = 1 then apply_plan ps (fst acc @ [pl_sequence p], snd acc) q'
        else apply_plan ps (fst acc, snd acc @ [pl_sequence p]) q')"

definition reconcile_plan :: "queue_env \<Rightarrow> registry \<Rightarrow> plan_item list res" where
  "reconcile_plan e q =
     (case qe_self e of
        None \<Rightarrow> admission_refuse ''MANAGED_ADMISSION_IDENTITY_UNKNOWN''
      | Some self \<Rightarrow> Inr (plan_rows e (id_boot self) (by_sequence (rg_rows q))))"

text \<open>The transaction of \<open>apply_reconcile\<close> after its backup.\<close>

definition apply_reconcile :: "plan_item list \<Rightarrow> registry \<Rightarrow> (int list \<times> int list) \<times> registry" where
  "apply_reconcile plan q =
     (case apply_plan plan ([], []) q of (acc, q1) \<Rightarrow> (acc, if legacy_opaque q1 then q1 else clear_opaque_tags q1))"

end
