(* ===== verification/Admission_Safety.thy ===== *)
theory Admission_Safety
  imports Admission
begin

text \<open>
  The properties of the admission queue: the life of a lease, what a grant may take, who is tried
  first, and on which evidence a lease is taken away.
\<close>

section \<open>Rows over time\<close>

text \<open>What one call may do to a row: its identity and demand are fixed, and an ended lease stays ended.\<close>

definition ended :: "admission \<Rightarrow> bool" where
  "ended r = (ma_status r = ''released'' \<or> ma_status r = ''reclaimed'')"

definition row_le :: "admission \<Rightarrow> admission \<Rightarrow> bool" where
  "row_le r s = (ma_sequence s = ma_sequence r \<and> ma_ticket s = ma_ticket r \<and> ma_owner s = ma_owner r
     \<and> ma_root s = ma_root r \<and> ma_demand s = ma_demand r \<and> ma_run s = ma_run r \<and> ma_group s = ma_group r
     \<and> (ended r \<longrightarrow> ended s) \<and> (ma_status r = ''reclaimed'' \<longrightarrow> ma_status s = ''reclaimed''))"

lemma row_le_refl [simp]: "row_le r r"
  by (simp add: row_le_def)

lemma row_le_trans: "row_le r s \<Longrightarrow> row_le s t \<Longrightarrow> row_le r t"
  by (simp add: row_le_def)

text \<open>Rows are rewritten in place; the appended ones carry sequence numbers never used before.\<close>

definition fresh_rows :: "int \<Rightarrow> int \<Rightarrow> admission list \<Rightarrow> bool" where
  "fresh_rows lo hi new = (lo \<le> hi \<and> sorted_wrt (<) (map ma_sequence new) \<and> (\<forall>n \<in> set new. lo < ma_sequence n \<and> ma_sequence n \<le> hi))"

definition rows_le :: "registry \<Rightarrow> registry \<Rightarrow> bool" where
  "rows_le q q' = (\<exists>xs new. rg_rows q' = xs @ new \<and> list_all2 row_le (rg_rows q) xs \<and> fresh_rows (rg_last q) (rg_last q') new)"

lemma rows_leI:
  "rg_rows q' = xs @ new \<Longrightarrow> list_all2 row_le (rg_rows q) xs \<Longrightarrow> fresh_rows (rg_last q) (rg_last q') new \<Longrightarrow> rows_le q q'"
  unfolding rows_le_def by blast

lemma list_row_refl [simp]: "list_all2 row_le xs xs"
  by (rule list.rel_refl) simp

lemma rows_le_same: "rg_rows q' = rg_rows q \<Longrightarrow> rg_last q' = rg_last q \<Longrightarrow> rows_le q q'"
  by (rule rows_leI [of _ "rg_rows q" "[]"]) (simp_all add: fresh_rows_def)

lemma rows_le_refl [simp]: "rows_le q q"
  by (rule rows_le_same) simp_all

lemma sequences_le: "list_all2 row_le xs ys \<Longrightarrow> map ma_sequence ys = map ma_sequence xs"
  by (induction xs ys rule: list_all2_induct) (auto simp: row_le_def)

lemma fresh_rows_append:
  assumes "fresh_rows lo mi xs" and "map ma_sequence ys = map ma_sequence xs" and "fresh_rows mi hi zs"
  shows "fresh_rows lo hi (ys @ zs)"
proof -
  have "ma_sequence ` set ys = ma_sequence ` set xs" using assms(2) by (metis set_map)
  then have "\<forall>y \<in> set ys. lo < ma_sequence y \<and> ma_sequence y \<le> mi" using assms(1) by (force simp: fresh_rows_def)
  with assms show ?thesis by (force simp: fresh_rows_def sorted_wrt_append)
qed

lemma rows_le_trans:
  assumes "rows_le q q1" and "rows_le q1 q2" shows "rows_le q q2"
proof -
  from assms obtain xs new ys new' where 1: "rg_rows q1 = xs @ new" "list_all2 row_le (rg_rows q) xs" "fresh_rows (rg_last q) (rg_last q1) new"
    and 2: "rg_rows q2 = ys @ new'" "list_all2 row_le (rg_rows q1) ys" "fresh_rows (rg_last q1) (rg_last q2) new'"
    unfolding rows_le_def by blast
  from 2(2) 1(1) obtain ys1 ys2 where ys: "ys = ys1 @ ys2" "list_all2 row_le xs ys1" "list_all2 row_le new ys2"
    by (auto simp: list_all2_append1)
  have "list_all2 row_le (rg_rows q) ys1"
    using list_all2_trans [of row_le row_le row_le, OF _ 1(2) ys(2)] row_le_trans by blast
  moreover have "fresh_rows (rg_last q) (rg_last q2) (ys2 @ new')"
    by (rule fresh_rows_append [OF 1(3) sequences_le [OF ys(3)] 2(3)])
  ultimately show ?thesis using 2(1) ys(1) by (intro rows_leI [of _ ys1 "ys2 @ new'"]) simp_all
qed

lemma update_rows_last [simp]: "rg_last (update_rows P f q) = rg_last q" "rg_feedback (update_rows P f q) = rg_feedback q"
  by (simp_all add: update_rows_def)

lemma update_rows_le:
  assumes "\<And>r. r \<in> set (rg_rows q) \<Longrightarrow> P r \<Longrightarrow> row_le r (f r)" shows "rows_le q (update_rows P f q)"
proof -
  have "list_all2 row_le (rg_rows q) (update_where P f (rg_rows q))"
    using assms by (auto simp: update_where_def list_all2_map2 intro!: list.rel_refl_strong)
  then show ?thesis
    by (intro rows_leI [of _ "update_where P f (rg_rows q)" "[]"]) (simp_all add: update_rows_def fresh_rows_def)
qed

text \<open>The order of the rows is the order of their sequence numbers.\<close>

definition registry_ok :: "registry \<Rightarrow> bool" where
  "registry_ok q = (sorted_wrt (<) (map ma_sequence (rg_rows q)) \<and> (\<forall>r \<in> set (rg_rows q). ma_sequence r \<le> rg_last q))"

lemma rows_le_ok:
  assumes "rows_le q q'" and "registry_ok q" shows "registry_ok q'"
proof -
  from assms(1) obtain xs new where s: "rg_rows q' = xs @ new" "list_all2 row_le (rg_rows q) xs" "fresh_rows (rg_last q) (rg_last q') new"
    unfolding rows_le_def by blast
  note m = sequences_le [OF s(2)]
  have "ma_sequence ` set xs = ma_sequence ` set (rg_rows q)" using m by (metis set_map)
  then have "\<forall>x \<in> set xs. ma_sequence x \<le> rg_last q" using assms(2) by (force simp: registry_ok_def)
  then show ?thesis using assms(2) s(1,3) m by (force simp: registry_ok_def fresh_rows_def sorted_wrt_append)
qed

lemma rows_le_in:
  assumes "rows_le q q'" and "r \<in> set (rg_rows q)" shows "\<exists>s \<in> set (rg_rows q'). row_le r s"
proof -
  from assms(1) obtain xs new where s: "rg_rows q' = xs @ new" "list_all2 row_le (rg_rows q) xs"
    unfolding rows_le_def by blast
  from assms(2) obtain n where n: "n < length (rg_rows q)" "r = rg_rows q ! n" by (auto simp: in_set_conv_nth)
  then have "row_le r (xs ! n)" "xs ! n \<in> set xs" using list_all2_nthD [OF s(2)] list_all2_lengthD [OF s(2)] by auto
  then show ?thesis using s(1) by auto
qed

lemma queue_tx_le:
  assumes "\<And>x q'. body q = Inr (x, q') \<Longrightarrow> rows_le q q'" shows "rows_le q (snd (queue_transaction body q))"
  using assms by (auto simp: queue_transaction_def split: sum.split)

subsection \<open>The operations\<close>

lemma enqueue_le: "rows_le q (snd (enqueue e rq q))"
proof -
  have "enqueue_tx e owner rq q = Inr (x, q') \<Longrightarrow> rows_le q q'" for owner x q'
    by (auto simp: enqueue_tx_def Let_def fresh_rows_def new_admission_def intro: rows_leI [of _ "rg_rows q"] split: list.splits if_splits)
  then show ?thesis by (auto simp: enqueue_def queue_tx_le split: sum.split)
qed

lemma set_status_le: "\<not> ended r \<Longrightarrow> st = ''reclaimed'' \<or> st = ''released'' \<Longrightarrow> row_le r (set_status st lim r)"
  by (auto simp: row_le_def set_status_def ended_def)

lemma open_not_ended: "open_status r \<Longrightarrow> \<not> ended r"
  by (auto simp: open_status_def ended_def)

lemma pre_spawn_le: "rows_le q (snd (reclaim_pre_spawn reader t l q))"
proof -
  have "reclaim_pre_spawn_tx t l q = Inr (x, q') \<Longrightarrow> rows_le q q'" for x q'
    by (auto simp: reclaim_pre_spawn_tx_def intro!: update_rows_le set_status_le dest: open_not_ended split: option.splits if_splits)
  then show ?thesis by (auto simp: reclaim_pre_spawn_def queue_tx_le)
qed

lemma reclaim_rows_le: "rows_le q (snd (reclaim_rows e reader seen rs q))"
  by (induction e reader seen rs q rule: reclaim_rows.induct) (auto intro: rows_le_trans [OF pre_spawn_le])

lemma reclaim_doomed_le: "rows_le q (snd (queue_transaction (reclaim_doomed_tx ds) q))"
  by (rule queue_tx_le) (auto simp: reclaim_doomed_tx_def intro!: update_rows_le set_status_le dest: open_not_ended)

lemma reclaim_dead_le: "rows_le q (snd (reclaim_dead e reader seen q))"
proof -
  obtain r q1 where r: "reclaim_rows e reader seen (filter open_status (rg_rows seen)) q = (r, q1)"
    by (cases "reclaim_rows e reader seen (filter open_status (rg_rows seen)) q")
  have "rows_le q q1" using reclaim_rows_le [of q e reader seen "filter open_status (rg_rows seen)"] r by simp
  then show ?thesis
    using rows_le_trans [OF _ reclaim_doomed_le] r by (auto simp: reclaim_dead_def Let_def split: sum.split)
qed

lemma clear_tags_le: "rows_le q (clear_opaque_tags q)"
  unfolding clear_opaque_tags_def by (rule update_rows_le) (simp add: row_le_def ended_def)

text \<open>The part of a row a grant depends on; tags and clocks are left out.\<close>

definition core_row :: "admission \<Rightarrow> int \<times> string \<times> pyval" where
  "core_row r = (ma_sequence r, ma_status r, ma_demand r)"

lemma update_core:
  "(\<And>r. core_row (f r) = core_row r) \<Longrightarrow> map core_row (rg_rows (update_rows P f q)) = map core_row (rg_rows q)"
  by (simp add: update_rows_def update_where_def)

lemma tags_core [simp]:
  "core_row (limited_by a b r) = core_row r" "core_row (blocked_by d r) = core_row r" "core_row (r\<lparr>ma_limiting := l\<rparr>) = core_row r"
  by (simp_all add: core_row_def limited_by_def blocked_by_def)

text \<open>One candidate of the loop: skipped, tagged, or decisive.\<close>

lemma admit_loop_step:
  assumes "admit_loop e obs own priority groups active (c # cs) q = Inr (x, q')"
  obtains (again) q1 where "rows_le q q1" "map core_row (rg_rows q1) = map core_row (rg_rows q)" "admit_loop e obs own priority groups active cs q1 = Inr (x, q')"
  | (other) "x = None" "q' = q"
  | (found) xs where "ma_width c \<le> int (length (groups c))" "mapR row_demand (groups c) = Inr xs" "ma_sequence c = own"
      "x = Some (groups c, decide_group (qe_scheduler e) (qe_ceilings e) (qe_now e 2) obs active xs)" "q' = q"
      "first_blocked (decide_group (qe_scheduler e) (qe_ceilings e) (qe_now e 2) obs active xs) = None"
proof (cases "int (length (groups c)) < ma_width c")
  case True
  with assms show thesis by (intro again [of q]) (auto simp: Let_def)
next
  case wide: False
  from assms wide obtain xs where xs: "mapR row_demand (groups c) = Inr xs" by (auto simp: Let_def)
  define over where "over = (case priority of None \<Rightarrow> None | Some (p, protected) \<Rightarrow>
            if ma_sequence c \<noteq> ma_sequence p \<and> competes protected xs then Some p else None)"
  let ?ds = "decide_group (qe_scheduler e) (qe_ceilings e) (qe_now e 2) obs active xs"
  have rest: "(case over of
          Some p \<Rightarrow> admit_loop e obs own priority groups active cs (update_rows (sequence_is (ma_sequence c))
             (limited_by (''aged-group:'' @ group_name p) (qe_now e 1 + sc_cooldown (qe_scheduler e))) q)
        | None \<Rightarrow>
            (case first_blocked ?ds of
               Some b \<Rightarrow> admit_loop e obs own priority groups active cs (update_rows (sequence_is (ma_sequence c)) (blocked_by b) q)
             | None \<Rightarrow> if ma_sequence c \<noteq> own then Inr (None, q) else Inr (Some (groups c, ?ds), q))) = Inr (x, q')"
    using assms wide unfolding over_def by (simp only: admit_loop.simps Let_def xs bindR_Inr wide if_False)
  have upd: "rows_le q (update_rows P (limited_by a b) q)" "rows_le q (update_rows P (blocked_by d) q)"
    for P a b d
    by (rule update_rows_le, simp add: row_le_def ended_def limited_by_def blocked_by_def)+
  show thesis
  proof (cases over)
    case (Some p) with rest show thesis by (intro again [OF upd(1) update_core]) simp_all
  next
    case none: None
    show thesis
    proof (cases "first_blocked ?ds")
      case (Some b) with rest none show thesis by (intro again [OF upd(2) update_core]) simp_all
    next
      case None
      with rest none show thesis using other found [OF _ xs] wide by (auto split: if_splits)
    qed
  qed
qed

lemma admit_loop_le: "admit_loop e obs own priority groups active cs q = Inr (x, q') \<Longrightarrow> rows_le q q'"
proof (induction cs arbitrary: q)
  case (Cons c cs)
  from Cons.prems show ?case by (cases rule: admit_loop_step) (auto intro: rows_le_trans Cons.IH)
qed simp

lemma activate_le: "ma_status r = ''waiting'' \<Longrightarrow> row_le r (activate_row d now r)"
  by (simp add: row_le_def activate_row_def ended_def)

lemma grant_le:
  assumes "grant_group e own g ds q = Inr q'" shows "rows_le q q'"
proof -
  let ?q = "update_rows (\<lambda>r. ma_sequence r \<in> ma_sequence ` set g \<and> ma_status r = ''waiting'') (activate_row (hd ds) (qe_now e 3)) q"
  have 1: "rows_le q ?q" by (rule update_rows_le) (simp add: activate_le)
  have "rg_rows q' = rg_rows ?q" "rg_last q' = rg_last q"
    using assms by (auto simp: grant_group_def Let_def split: if_splits)
  then have "rows_le ?q q'" by (intro rows_le_same) simp_all
  with 1 show ?thesis by (rule rows_le_trans)
qed

lemma admit_open_le: "admit_open e obs own choices q = Inr (x, q') \<Longrightarrow> rows_le q q'"
  by (auto simp: admit_open_def split: option.splits prod.splits dest!: admit_loop_le grant_le intro: rows_le_trans)

text \<open>The ways through the transaction: an active ticket, the legacy gate, or the tried candidates.\<close>

lemma try_admit_tx_cases:
  assumes "try_admit_tx e live obs t q = Inr (x, q')"
  obtains (held) own where "x" "q' = q" "ticket_row (tt_sequence t) (tt_ticket t) q = Some own" "ma_status own = ''active''"
  | (opaque) own :: admission and q2 where "\<not> x" "rows_le q q2" "q' = update_rows (sequence_is (ma_sequence own))
        (limited_by ''legacy-opaque'' (qe_now e 1 + sc_cooldown (qe_scheduler e))) q2"
  | (tried) own xs obs1 fs q2 where "ticket_row (tt_sequence t) (tt_ticket t) q = Some own" "ma_owner own = tt_owner t"
      "ma_status own = ''waiting''" "ma_writer own = 2" "mapR row_demand (candidates live q) = Inr xs"
      "effective_observation (map dm_provider xs) (id_boot (tt_owner t)) (qe_now e 0) obs (rg_feedback q) = (obs1, fs)"
      "q2 = q\<lparr>rg_feedback := fs\<rparr> \<or> q2 = clear_opaque_tags (q\<lparr>rg_feedback := fs\<rparr>)"
      "admit_open e obs1 own (candidates live q) q2 = Inr (x, q')"
proof -
  from assms obtain own where own: "ticket_row (tt_sequence t) (tt_ticket t) q = Some own" "ma_owner own = tt_owner t"
      "open_status own" "ma_writer own = 2"
    and rest: "(if ma_status own = ''active'' then Inr (True, q)
          else let choices = candidates live q in
            bindR (mapR row_demand choices) (\<lambda>xs.
            let (obs1, fs) = effective_observation (map dm_provider xs) (id_boot (tt_owner t)) (qe_now e 0) obs (rg_feedback q);
                q1 = q\<lparr>rg_feedback := fs\<rparr>;
                q2 = (if legacy_opaque q1 then q1 else clear_opaque_tags q1) in
            bindR (row_demand own) (\<lambda>x.
            if legacy_opaque q1 \<and> needs_machine x
            then Inr (False, update_rows (sequence_is (ma_sequence own))
              (limited_by ''legacy-opaque'' (qe_now e 1 + sc_cooldown (qe_scheduler e))) q2)
            else admit_open e obs1 own choices q2))) = Inr (x, q')"
    by (auto simp: try_admit_tx_def split: option.splits if_split_asm)
  show thesis
  proof (cases "ma_status own = ''active''")
    case True with rest own show thesis by (intro held) auto
  next
    case False
    with own(3) have waiting: "ma_status own = ''waiting''" by (simp add: open_status_def)
    from rest False obtain xs where xs: "mapR row_demand (candidates live q) = Inr xs" by (auto simp: Let_def)
    obtain obs1 fs where eff:
      "effective_observation (map dm_provider xs) (id_boot (tt_owner t)) (qe_now e 0) obs (rg_feedback q) = (obs1, fs)"
      by (cases "effective_observation (map dm_provider xs) (id_boot (tt_owner t)) (qe_now e 0) obs (rg_feedback q)")
    from rest False obtain y where y: "row_demand own = Inr y" by (auto simp: Let_def xs eff)
    note c = xs y eff
    define q2 where "q2 = (if legacy_opaque (q\<lparr>rg_feedback := fs\<rparr>) then q\<lparr>rg_feedback := fs\<rparr> else clear_opaque_tags (q\<lparr>rg_feedback := fs\<rparr>))"
    have rest2: "(if legacy_opaque (q\<lparr>rg_feedback := fs\<rparr>) \<and> needs_machine y
            then Inr (False, update_rows (sequence_is (ma_sequence own))
              (limited_by ''legacy-opaque'' (qe_now e 1 + sc_cooldown (qe_scheduler e))) q2)
            else admit_open e obs1 own (candidates live q) q2) = Inr (x, q')"
      using rest False unfolding q2_def by (simp add: c Let_def del: One_nat_def split del: if_split)
    have le: "rows_le q q2" unfolding q2_def
      using rows_le_trans [OF rows_le_same clear_tags_le, of "q\<lparr>rg_feedback := fs\<rparr>" q] by (simp add: rows_le_same)
    show thesis
    proof (cases "legacy_opaque (q\<lparr>rg_feedback := fs\<rparr>) \<and> needs_machine y")
      case True with rest2 le show thesis by (intro opaque [of q2 own]) auto
    next
      case False
      have "admit_open e obs1 own (candidates live q) q2 = Inr (x, q')" using rest2 unfolding if_not_P [OF False] .
      then show thesis by (intro tried [OF own(1,2) waiting own(4) xs eff]) (auto simp: q2_def)
    qed
  qed
qed

lemma try_admit_tx_le:
  assumes "try_admit_tx e live obs t q = Inr (x, q')" shows "rows_le q q'"
  using assms
proof (cases rule: try_admit_tx_cases)
  case (opaque own q2)
  have "rows_le q2 q'" unfolding opaque(3) by (rule update_rows_le) (simp add: row_le_def ended_def limited_by_def)
  then show ?thesis using opaque(2) rows_le_trans by blast
next
  case (tried own xs obs1 fs q2)
  have "rows_le q q2" using tried(7) rows_le_trans [OF rows_le_same clear_tags_le, of "q\<lparr>rg_feedback := fs\<rparr>" q]
    by (auto simp: rows_le_same)
  then show ?thesis using admit_open_le [OF tried(8)] rows_le_trans by blast
qed simp

lemma try_admit_le: "rows_le q (snd (try_admit e reader obs t q))"
proof -
  obtain r q1 where r: "reclaim_dead e reader q q = (r, q1)" by (cases "reclaim_dead e reader q q")
  have "rows_le q q1" using reclaim_dead_le [of q e reader q] r by simp
  then show ?thesis
    using rows_le_trans [OF _ queue_tx_le [OF try_admit_tx_le]] r
    by (auto simp: try_admit_def split: sum.split option.split prod.split)
qed

lemma bind_le: "rows_le q (snd (bind_consumer e t l q))"
proof -
  have "bind_consumer_tx e t l q = Inr (x, q') \<Longrightarrow> rows_le q q'" for x q'
    by (auto simp: bind_consumer_tx_def row_le_def ended_def intro!: update_rows_le split: option.splits if_splits)
  then show ?thesis by (auto simp: bind_consumer_def queue_tx_le split: sum.split)
qed

lemma feedback_le: "rows_le q (snd (record_provider_feedback e t outcome retry q))"
  by (auto simp: record_provider_feedback_def intro: rows_le_same split: sum.split prod.split)

lemma resume_le: "rows_le q (snd (resume_legacy e t recorded q))"
proof -
  have "resume_legacy_tx t recorded q = Inr (x, q') \<Longrightarrow> rows_le q q'" for x q'
    by (auto simp: resume_legacy_tx_def row_le_def ended_def intro!: update_rows_le split: option.splits if_splits)
  then show ?thesis by (auto simp: resume_legacy_def queue_tx_le split: sum.split)
qed

lemma release_unbound_le: "rows_le q (snd (release_unbound e t q))"
proof -
  have "release_unbound_tx t owner q = Inr (x, q') \<Longrightarrow> rows_le q q'" for owner x q'
    by (auto simp: release_unbound_tx_def Let_def intro!: update_rows_le set_status_le dest: open_not_ended split: if_splits)
  then show ?thesis by (auto simp: release_unbound_def queue_tx_le split: sum.split)
qed

lemma release_le: "rows_le q (snd (release_lease e t seen q))"
proof -
  have "release_tx t child q = Inr (x, q') \<Longrightarrow> rows_le q q'" for child x q'
    by (auto simp: release_tx_def Let_def row_le_def ended_def intro!: update_rows_le split: option.splits if_splits)
  then have "rows_le q (snd (queue_transaction (release_tx t child) q))" for child by (rule queue_tx_le)
  then show ?thesis by (auto simp: release_lease_def split: sum.split option.split)
qed

lemma apply_plan_le: "rows_le q (snd (apply_plan ps acc q))"
proof (induction ps arbitrary: acc q)
  case (Cons p ps)
  have "rows_le q (update_rows (plan_match p) (set_status ''reclaimed'' lim) q)" for lim
    by (rule update_rows_le) (simp add: row_le_def set_status_def ended_def)
  then show ?case by (auto simp: Let_def intro: Cons.IH rows_le_trans [OF _ Cons.IH])
qed simp

lemma apply_reconcile_le: "rows_le q (snd (apply_reconcile plan q))"
  using apply_plan_le [of q plan "([], [])"] rows_le_trans [OF _ clear_tags_le]
  by (auto simp: apply_reconcile_def split: prod.split)

text \<open>One committed call of any process on the shared registry.\<close>

inductive queue_step :: "registry \<Rightarrow> registry \<Rightarrow> bool" where
  enqueue: "queue_step q (snd (enqueue e rq q))"
| admit: "queue_step q (snd (try_admit e reader obs t q))"
| admit_commit: "queue_step q (snd (queue_transaction (try_admit_tx e live obs t) q))"
| reclaim: "queue_step q (snd (reclaim_dead e reader seen q))"
| pre_spawn: "queue_step q (snd (reclaim_pre_spawn reader1 t l q))"
| bind: "queue_step q (snd (bind_consumer e t l q))"
| feedback: "queue_step q (snd (record_provider_feedback e t outcome retry q))"
| resume: "queue_step q (snd (resume_legacy e t recorded q))"
| release_unbound: "queue_step q (snd (release_unbound e t q))"
| release: "queue_step q (snd (release_lease e t seen q))"
| reconcile: "queue_step q (snd (apply_reconcile plan q))"

lemma queue_step_le: "queue_step q q' \<Longrightarrow> rows_le q q'"
  by (cases rule: queue_step.cases, assumption)
    (simp_all add: enqueue_le try_admit_le queue_tx_le try_admit_tx_le reclaim_dead_le pre_spawn_le bind_le feedback_le
      resume_le release_unbound_le release_le apply_reconcile_le)

lemma queue_steps_le: "queue_step\<^sup>*\<^sup>* q q' \<Longrightarrow> rows_le q q'"
  by (induction rule: rtranclp_induct) (auto intro: rows_le_trans queue_step_le)

text \<open>
  C30: a lease that was released or reclaimed never holds resources again, whatever the processes of
  the machine call on the queue: its row stays, its ticket, owner and demand are what they were, and a reclaimed one
  stays reclaimed.
\<close>

theorem ended_lease_stays_ended:
  assumes "queue_step\<^sup>*\<^sup>* q q'" and "r \<in> set (rg_rows q)" and "ma_status r \<in> {''released'', ''reclaimed''}"
  shows "\<exists>s \<in> set (rg_rows q'). ma_sequence s = ma_sequence r \<and> ma_ticket s = ma_ticket r \<and> ma_owner s = ma_owner r \<and>
     ma_demand s = ma_demand r \<and> ma_status s \<in> {''released'', ''reclaimed''} \<and>
     (ma_status r = ''reclaimed'' \<longrightarrow> ma_status s = ''reclaimed'')"
  using rows_le_in [OF queue_steps_le [OF assms(1)] assms(2)] assms(3) by (auto simp: row_le_def ended_def)

lemma queue_steps_ok: "queue_step\<^sup>*\<^sup>* q q' \<Longrightarrow> registry_ok q \<Longrightarrow> registry_ok q'"
  by (rule rows_le_ok [OF queue_steps_le])

lemma empty_registry_ok [simp]: "registry_ok empty_registry"
  by (simp add: registry_ok_def empty_registry_def)

section \<open>What the scheduler admits\<close>

definition total :: "demand list \<Rightarrow> string \<Rightarrow> int" where
  "total xs k = sum_list (map (\<lambda>x. demand_of x k) xs)"

lemma total_simps [simp]: "total [] k = 0" "total (x # xs) k = demand_of x k + total xs k" "total (xs @ ys) k = total xs k + total ys k"
  by (simp_all add: total_def)

lemma used_total: "k \<in> set resource_names \<Longrightarrow> demand_of (foldl add_demand t xs) k = demand_of t k + total xs k"
  by (induction xs arbitrary: t) (auto simp: resource_names_def demand_of_def add_demand_def)

lemma no_demand_of [simp]: "demand_of no_demand k = 0"
  by (simp add: demand_of_def no_demand_def)

lemma decide_admitted:
  assumes "sd_admitted (decide sc cs now obs rows x)"
  obtains ob ys ls where "obs = Some ob" "validate_observation now (sc_max_age sc) ob = Inr ()"
    "mapR demand_from_record rows = Inr ys" "apply_ceilings (observed_limits ob) cs = Inr ls"
    "short_resource ls (foldl add_demand no_demand ys) x = None" "short_provider ob ys x = None"
  using assms by (auto simp: decide_def Let_def split: option.splits sum.splits prod.splits)

lemma short_resource_None:
  assumes "short_resource ls (foldl add_demand no_demand ys) x = None" and "k \<in> set resource_names"
  shows "case limit_of ls k of None \<Rightarrow> demand_of x k = 0 | Some l \<Rightarrow> total ys k + demand_of x k \<le> l"
  using assms used_total [OF assms(2), of no_demand ys]
  by (force simp: short_resource_def find_None_iff split: option.splits)

lemma short_provider_None:
  assumes "short_provider ob ys x = None" and "dm_provider x = Some p" and "p \<noteq> []"
  shows "\<exists>ps n. ob_provider ob = Some ps \<and> map_of ps p = Some n \<and> provider_used p ys + dm_units x \<le> n"
  using assms by (auto simp: short_provider_def split: option.splits if_splits)

lemma provider_used_simps [simp]:
  "provider_used p [] = 0" "provider_used p (x # xs) = (if dm_provider x = Some p then dm_units x else 0) + provider_used p xs"
  "provider_used p (xs @ ys) = provider_used p xs + provider_used p ys"
  by (simp_all add: provider_used_def)

definition within_limits :: "(string \<times> int option) list \<Rightarrow> observation \<Rightarrow> demand list \<Rightarrow> demand list \<Rightarrow> bool" where
  "within_limits ls ob ys xs =
     ((\<forall>k \<in> set resource_names. case limit_of ls k of None \<Rightarrow> total xs k = 0 | Some l \<Rightarrow> total (ys @ xs) k \<le> l) \<and>
      (\<forall>x \<in> set xs. \<forall>p. dm_provider x = Some p \<longrightarrow>
         (\<exists>ps n. ob_provider ob = Some ps \<and> map_of ps p = Some n \<and> provider_used p (ys @ xs) \<le> n)))"

lemma within_single:
  assumes "short_resource ls (foldl add_demand no_demand ys) x = None" and "short_provider ob ys x = None" and "demand_ok x"
  shows "within_limits ls ob ys [x]"
  using short_resource_None [OF assms(1)] short_provider_None [OF assms(2)] assms(3)
  by (force simp: within_limits_def demand_ok_def split: option.splits)

lemma within_cons:
  assumes x: "within_limits ls ob ys [x]" and xs: "within_limits ls ob (ys @ [x]) xs" and "xs \<noteq> []"
  shows "within_limits ls ob ys (x # xs)"
proof -
  have "\<exists>ps n. ob_provider ob = Some ps \<and> map_of ps p = Some n \<and> provider_used p (ys @ x # xs) \<le> n"
    if p: "dm_provider x = Some p" for p
  proof (cases "\<exists>z \<in> set xs. dm_provider z = Some p")
    case True
    then show ?thesis using xs unfolding within_limits_def by (metis append.assoc append_Cons append_Nil)
  next
    case False
    then have "provider_used p xs = 0" by (induction xs) auto
    moreover from x p have "\<exists>ps n. ob_provider ob = Some ps \<and> map_of ps p = Some n \<and> provider_used p (ys @ [x]) \<le> n"
      unfolding within_limits_def by simp
    ultimately show ?thesis by simp
  qed
  with x xs show ?thesis by (fastforce simp: within_limits_def split: option.splits)
qed

lemma first_blocked_Cons [simp]: "first_blocked (d # ds) = None \<longleftrightarrow> sd_admitted d \<and> first_blocked ds = None"
  by (auto simp: first_blocked_def)

lemma mapR_append: "mapR f (xs @ ys) = Inr zs \<longleftrightarrow> (\<exists>as bs. mapR f xs = Inr as \<and> mapR f ys = Inr bs \<and> zs = as @ bs)"
  by (induction xs arbitrary: zs) (auto simp: Cons_eq_append_conv)

text \<open>A whole group fits beside what is reserved, not only each of its members.\<close>

lemma group_fits:
  assumes "first_blocked (decide_group sc cs now obs rows xs) = None" and "xs \<noteq> []" and "\<forall>x \<in> set xs. demand_ok x"
  shows "\<exists>ob ys ls. obs = Some ob \<and> mapR demand_from_record rows = Inr ys \<and> apply_ceilings (observed_limits ob) cs = Inr ls
     \<and> within_limits ls ob ys xs"
  using assms
proof (induction xs arbitrary: rows)
  case (Cons x xs)
  from Cons.prems have adm: "sd_admitted (decide sc cs now obs rows x)"
    and rest: "first_blocked (decide_group sc cs now obs (rows @ [demand_record x]) xs) = None"
    by (auto simp: Let_def split: if_splits)
  from decide_admitted [OF adm] obtain ob ys ls where d: "obs = Some ob" "mapR demand_from_record rows = Inr ys"
    "apply_ceilings (observed_limits ob) cs = Inr ls"
    "short_resource ls (foldl add_demand no_demand ys) x = None" "short_provider ob ys x = None" by metis
  have one: "within_limits ls ob ys [x]" by (rule within_single [OF d(4,5)]) (use Cons.prems in simp)
  show ?case
  proof (cases "xs = []")
    case True with one d show ?thesis by blast
  next
    case False
    have "mapR demand_from_record (rows @ [demand_record x]) = Inr zs \<longleftrightarrow> zs = ys @ [x]" for zs
      using d(2) demand_roundtrip [of x] Cons.prems(3) by (auto simp: mapR_append)
    with Cons.IH [OF rest False] Cons.prems(3) d have "within_limits ls ob (ys @ [x]) xs" by auto
    with within_cons [OF one _ False] d show ?thesis by blast
  qed
qed simp

end
