(* ===== verification/Admission_Grants.thy ===== *)
theory Admission_Grants
  imports Admission_Safety
begin

text \<open>
  What a grant of the admission queue takes: the leases of the whole machine stay within the
  observation and the configured ceilings, and a group is granted as a whole.
\<close>

section \<open>What the leases of the machine take\<close>

definition weight :: "string \<Rightarrow> pyval \<Rightarrow> int" where
  "weight k v = (case demand_from_record v of Inl _ \<Rightarrow> 0 | Inr x \<Rightarrow> demand_of x k)"

definition leased :: "string \<Rightarrow> registry \<Rightarrow> int" where
  "leased k q = sum_list (map (weight k) (active_demands q))"

lemma weights_total: "mapR demand_from_record vs = Inr xs \<Longrightarrow> sum_list (map (weight k) vs) = total xs k"
  by (induction vs arbitrary: xs) (auto simp: weight_def)

lemma rows_total: "mapR row_demand rs = Inr xs \<Longrightarrow> sum_list (map (\<lambda>r. weight k (ma_demand r)) rs) = total xs k"
  by (induction rs arbitrary: xs) (auto simp: weight_def row_demand_def)

lemma rows_demand_ok: "mapR row_demand rs = Inr xs \<Longrightarrow> \<forall>x \<in> set xs. demand_ok x"
  by (induction rs arbitrary: xs) (auto simp: row_demand_def dest: demand_from_ok)

definition core_active :: "(int \<times> string \<times> pyval) list \<Rightarrow> string \<Rightarrow> int" where
  "core_active cs k = sum_list (map (\<lambda>(n, st, v). if st = ''active'' then weight k v else 0) cs)"

lemma leased_core: "leased k q = core_active (map core_row (rg_rows q)) k"
proof -
  have "sum_list (map (weight k) (map ma_demand (filter (\<lambda>r. ma_status r = ''active'') rs))) = core_active (map core_row rs) k" for rs
    by (induction rs) (auto simp: core_active_def core_row_def)
  then show ?thesis by (simp add: leased_def active_demands_def)
qed

section \<open>The granted group\<close>

lemma clear_core [simp]: "map core_row (rg_rows (clear_opaque_tags q)) = map core_row (rg_rows q)"
  by (simp add: clear_opaque_tags_def update_core)

text \<open>A grant comes from the ticket's own candidate, whose whole group fits beside the active leases.\<close>

lemma admit_loop_found:
  assumes "admit_loop e obs own priority groups active cs q = Inr (Some (g, ds), q')"
  obtains c xs where "c \<in> set cs" "ma_sequence c = own" "g = groups c" "ma_width c \<le> int (length g)" "mapR row_demand g = Inr xs"
    "ds = decide_group (qe_scheduler e) (qe_ceilings e) (qe_now e 2) obs active xs" "first_blocked ds = None"
    "map core_row (rg_rows q') = map core_row (rg_rows q)"
  using assms
proof (induction cs arbitrary: q thesis)
  case (Cons c cs)
  from Cons.prems(2) show ?case
  proof (cases rule: admit_loop_step)
    case (again q1)
    then show ?thesis using Cons.IH [of q1] Cons.prems(1) by (metis list.set_intros(2))
  next
    case (found xs)
    then show ?thesis by (intro Cons.prems(1) [of c xs]) auto
  qed simp
qed simp

lemma ok_distinct: "registry_ok q \<Longrightarrow> distinct (map ma_sequence (rg_rows q))"
  by (simp add: registry_ok_def strict_sorted_iff)

text \<open>The members of a candidate's group are waiting rows of the registry, each once.\<close>

lemma candidate_group_rows:
  assumes "registry_ok q" and "core_row c \<in> core_row ` set (rg_rows q)" and "ma_status c = ''waiting''"
  shows "\<forall>r \<in> set (candidate_group q c). core_row r \<in> core_row ` set (rg_rows q) \<and> ma_status r = ''waiting''"
    and "distinct (map ma_sequence (candidate_group q c))"
  using assms(2,3) ok_distinct [OF assms(1)]
  by (auto simp: candidate_group_def by_sequence_def distinct_map intro: inj_on_subset)

lemma in_map_filter: "y \<in> set (List.map_filter f xs) \<longleftrightarrow> (\<exists>x \<in> set xs. f x = Some y)"
  by (induction xs) (auto simp: List.map_filter_simps split: option.split)

lemma candidate_rows: "c \<in> set (candidates live q) \<Longrightarrow> c \<in> set (rg_rows q) \<and> ma_status c = ''waiting'' \<and> ma_owner c \<in> set live"
  by (auto simp: candidates_def Let_def in_map_filter live_waiting_def by_sequence_def dest!: find_Some_in)

definition activate_core :: "int set \<Rightarrow> (int \<times> string \<times> pyval) \<Rightarrow> int \<times> string \<times> pyval" where
  "activate_core S c = (case c of (n, st, v) \<Rightarrow> if n \<in> S \<and> st = ''waiting'' then (n, ''active'', v) else (n, st, v))"

lemma core_active_update:
  "core_active (map (activate_core S) cs) k = core_active cs k
     + sum_list (map (\<lambda>(n, st, v). weight k v) (filter (\<lambda>(n, st, v). n \<in> S \<and> st = ''waiting'') cs))"
proof (induction cs)
  case (Cons c cs)
  obtain n st v where "c = (n, st, v)" by (cases c)
  then show ?case using Cons by (auto simp: core_active_def activate_core_def)
qed (simp add: core_active_def)

lemma group_weight:
  assumes d: "distinct (map ma_sequence rows)" and g: "\<forall>r \<in> set g. core_row r \<in> core_row ` set rows \<and> ma_status r = ''waiting''"
    and dg: "distinct (map ma_sequence g)"
  shows "sum_list (map (\<lambda>(n, st, v). weight k v) (filter (\<lambda>(n, st, v). n \<in> ma_sequence ` set g \<and> st = ''waiting'') (map core_row rows)))
     = sum_list (map (\<lambda>r. weight k (ma_demand r)) g)"
proof -
  let ?w = "\<lambda>(n :: int, st :: string, v). weight k v"
  let ?hit = "filter (\<lambda>(n, st, v). n \<in> ma_sequence ` set g \<and> st = ''waiting'') (map core_row rows)"
  have inj: "x = y" if "x \<in> set rows" "y \<in> set rows" "ma_sequence x = ma_sequence y" for x y
    using d that by (auto simp: distinct_map inj_on_def)
  have fst: "fst (core_row r) = ma_sequence r" for r by (simp add: core_row_def)
  have "map fst (map core_row xs) = map ma_sequence xs" for xs by (simp add: fst)
  then have 1: "distinct (map core_row rows)" "distinct (map core_row g)" using d dg by (metis distinct_map)+
  have "set ?hit = set (map core_row g)"
  proof (intro equalityI subsetI)
    fix c assume "c \<in> set ?hit"
    then obtain r where r0: "r \<in> set rows" "c = core_row r" by auto
    with \<open>c \<in> set ?hit\<close> have "ma_sequence r \<in> ma_sequence ` set g" by (simp add: core_row_def)
    with r0 obtain s where r: "r \<in> set rows" "c = core_row r" "s \<in> set g" "ma_sequence r = ma_sequence s" by auto
    from g r(3) obtain z where z: "z \<in> set rows" "core_row s = core_row z" by auto
    then have "ma_sequence z = ma_sequence r" using r(4) by (simp add: core_row_def)
    then have "z = r" using inj z(1) r(1) by blast
    then show "c \<in> set (map core_row g)" using z(2) r(2,3) by (metis image_eqI set_map)
  next
    fix c assume "c \<in> set (map core_row g)"
    then obtain s where "s \<in> set g" "c = core_row s" by auto
    moreover from g this(1) have "core_row s \<in> set (map core_row rows)" "ma_status s = ''waiting''" by auto
    ultimately show "c \<in> set ?hit" by (simp add: core_row_def)
  qed
  then have "sum_list (map ?w ?hit) = sum_list (map ?w (map core_row g))"
    unfolding sum_list_distinct_conv_sum_set [OF 1(2)] sum_list_distinct_conv_sum_set [OF distinct_filter [OF 1(1)]] by (rule arg_cong)
  then show ?thesis by (simp add: core_row_def comp_def)
qed

lemma grant_core:
  assumes "grant_group e own g ds q = Inr q'"
  shows "map core_row (rg_rows q') = map (activate_core (ma_sequence ` set g)) (map core_row (rg_rows q))"
  using assms
  by (auto simp: grant_group_def Let_def update_rows_def update_where_def core_row_def activate_core_def activate_row_def split: if_splits)

section \<open>The ceilings\<close>

lemma map_of_lower:
  "map_of (lower_limit ls k v) n = (if n = k then map_option (\<lambda>l. Some (case l of None \<Rightarrow> v | Some x \<Rightarrow> min x v)) (map_of ls n)
     else map_of ls n)"
  by (induction ls) (auto simp: lower_limit_def)

lemma limit_of_lower:
  "limit_of (lower_limit ls k v) n = (if n = k \<and> n \<in> fst ` set ls
     then Some (case limit_of ls n of None \<Rightarrow> v | Some x \<Rightarrow> min x v) else limit_of ls n)"
proof (cases "map_of ls n")
  case None
  then have "n \<notin> fst ` set ls" by (simp add: map_of_eq_None_iff)
  with None show ?thesis by (cases "n = k") (simp_all add: limit_of_def map_of_lower)
next
  case (Some l)
  then have "n \<in> fst ` set ls" by (metis map_of_eq_None_iff option.distinct(1))
  with Some show ?thesis by (cases "n = k") (simp_all add: limit_of_def map_of_lower)
qed

lemma lower_names [simp]: "fst ` set (lower_limit ls k v) = fst ` set ls"
  by (force simp: lower_limit_def)

text \<open>A ceiling and an observation only ever lower the limit in force.\<close>

lemma apply_ceilings_limit:
  assumes "apply_ceilings ls cs = Inr ls'"
  shows "limit_of ls n = Some l \<Longrightarrow> \<exists>l'. limit_of ls' n = Some l' \<and> l' \<le> l"
    and "(n, v) \<in> set cs \<Longrightarrow> \<exists>l'. limit_of ls' n = Some l' \<and> l' \<le> v"
proof -
  have "(\<forall>l. limit_of ls n = Some l \<longrightarrow> (\<exists>l'. limit_of ls' n = Some l' \<and> l' \<le> l)) \<and>
        (\<forall>v. (n, v) \<in> set cs \<longrightarrow> (\<exists>l'. limit_of ls' n = Some l' \<and> l' \<le> v))"
    using assms
  proof (induction ls cs rule: apply_ceilings.induct)
    case (2 ls k v cs)
    then have IH: "\<And>l. limit_of (lower_limit ls k v) n = Some l \<Longrightarrow> \<exists>l'. limit_of ls' n = Some l' \<and> l' \<le> l"
      "\<And>v. (n, v) \<in> set cs \<Longrightarrow> \<exists>l'. limit_of ls' n = Some l' \<and> l' \<le> v" and k: "k \<in> fst ` set ls"
      by (auto split: if_splits)
    show ?case
    proof (cases "n = k")
      case True
      obtain x where x: "limit_of (lower_limit ls k v) n = Some x" "x \<le> v" "\<And>l. limit_of ls n = Some l \<Longrightarrow> x \<le> l"
        using True k by (cases "limit_of ls n") (auto simp: limit_of_lower)
      from IH(1) [OF x(1)] x(2,3) IH(2) True show ?thesis by (auto intro: order_trans)
    next
      case False with IH show ?thesis by (auto simp: limit_of_lower)
    qed
  qed auto
  then show "limit_of ls n = Some l \<Longrightarrow> \<exists>l'. limit_of ls' n = Some l' \<and> l' \<le> l"
    and "(n, v) \<in> set cs \<Longrightarrow> \<exists>l'. limit_of ls' n = Some l' \<and> l' \<le> v" by blast+
qed

lemma apply_ceilings_unlimited:
  "apply_ceilings ls cs = Inr ls' \<Longrightarrow> n \<notin> fst ` set cs \<Longrightarrow> limit_of ls' n = limit_of ls n"
proof (induction ls cs rule: apply_ceilings.induct)
  case (2 ls k v cs)
  then show ?case by (auto simp: limit_of_lower split: if_splits)
qed simp

lemma effective_limits:
  "effective_observation ps boot now (Some ob) fs = (Some ob', fs') \<Longrightarrow> observed_limits ob' = observed_limits ob"
  by (auto simp: effective_observation_def Let_def observed_limits_def split: prod.splits)

lemma effective_Some: "\<exists>ob' fs'. effective_observation ps boot now (Some ob) fs = (Some ob', fs')"
  by (auto simp: effective_observation_def Let_def split: prod.split)

section \<open>The grant\<close>

text \<open>The candidates tried are those of the registry, whatever the priority.\<close>

lemma aged_group_in: "aged_group e obs q cs = Inr (Some (p, k)) \<Longrightarrow> p \<in> set cs"
  by (induction e obs q cs rule: aged_group.induct) (auto simp: Let_def split: if_splits)

lemma admission_order_in:
  assumes "admission_order e obs choices q = Inr (order, priority)" shows "set order \<subseteq> set choices"
  using assms aged_group_in [of e obs q "sort_key (\<lambda>r. (ma_age r, ma_sequence r)) choices"]
  by (auto simp: admission_order_def split: option.splits)

lemma active_demands_core: "map core_row (rg_rows q2) = map core_row (rg_rows q) \<Longrightarrow> active_demands q2 = active_demands q"
proof -
  have "map ma_demand (filter (\<lambda>r. ma_status r = ''active'') rs)
      = map (\<lambda>(n, st, v). v) (filter (\<lambda>(n, st, v). st = ''active'') (map core_row rs))" for rs
    by (induction rs) (auto simp: core_row_def)
  then show "map core_row (rg_rows q2) = map core_row (rg_rows q) \<Longrightarrow> active_demands q2 = active_demands q"
    by (simp add: active_demands_def)
qed

lemma candidate_group_self:
  assumes "c' \<in> set (rg_rows q)" and "ma_sequence c' = ma_sequence c" "ma_group c' = ma_group c" "ma_status c' = ''waiting''"
  shows "ma_sequence c \<in> ma_sequence ` set (candidate_group q c)"
proof (cases "ungrouped c")
  case False
  then have "c' \<in> set (candidate_group q c)" using assms by (simp add: candidate_group_def by_sequence_def)
  then show ?thesis using assms(2) by (metis image_eqI)
qed (simp add: candidate_group_def)

lemma admit_open_granted:
  assumes "admit_open e obs own choices q = Inr (True, q')"
  obtains c g xs ds q1 where "c \<in> set choices" "ma_sequence c = ma_sequence own" "g = candidate_group q c" "mapR row_demand g = Inr xs"
    "ds = decide_group (qe_scheduler e) (qe_ceilings e) (qe_now e 2) obs (active_demands q) xs" "first_blocked ds = None"
    "map core_row (rg_rows q1) = map core_row (rg_rows q)" "grant_group e own g ds q1 = Inr q'"
proof -
  from assms obtain order priority g ds q1 where o: "admission_order e obs choices q = Inr (order, priority)"
    "admit_loop e obs (ma_sequence own) priority (candidate_group q) (active_demands q) order q = Inr (Some (g, ds), q1)"
    "grant_group e own g ds q1 = Inr q'"
    by (auto simp: admit_open_def split: option.splits)
  from admit_loop_found [OF o(2)] obtain c xs where "c \<in> set order" "ma_sequence c = ma_sequence own" "g = candidate_group q c"
    "mapR row_demand g = Inr xs" "ds = decide_group (qe_scheduler e) (qe_ceilings e) (qe_now e 2) obs (active_demands q) xs"
    "first_blocked ds = None" "map core_row (rg_rows q1) = map core_row (rg_rows q)" by metis
  with that o(3) admission_order_in [OF o(1)] show thesis by blast
qed

lemma kept_waiting:
  assumes "c \<in> set (rg_rows q)" and "ma_status c = ''waiting''"
    and "q2 = q\<lparr>rg_feedback := fs\<rparr> \<or> q2 = clear_opaque_tags (q\<lparr>rg_feedback := fs\<rparr>)"
  shows "\<exists>c' \<in> set (rg_rows q2). ma_sequence c' = ma_sequence c \<and> ma_group c' = ma_group c \<and> ma_status c' = ''waiting''"
proof (cases "q2 = q\<lparr>rg_feedback := fs\<rparr>")
  case True
  then have "rg_rows q2 = rg_rows q" by simp
  then show ?thesis using assms(1,2) by metis
next
  case False
  define s where "s = (if ma_limiting c = Some ''legacy-opaque'' then c\<lparr>ma_limiting := None\<rparr> else c)"
  have "rg_rows q2 = update_where (\<lambda>r. ma_limiting r = Some ''legacy-opaque'') (\<lambda>r. r\<lparr>ma_limiting := None\<rparr>) (rg_rows q)"
    using False assms(3) by (simp add: clear_opaque_tags_def update_rows_def)
  then have "s \<in> set (rg_rows q2)" using assms(1) unfolding s_def update_where_def by simp
  moreover have "ma_sequence s = ma_sequence c \<and> ma_group s = ma_group c \<and> ma_status s = ''waiting''"
    unfolding s_def using assms(2) by (cases "ma_limiting c = Some ''legacy-opaque''") simp_all
  ultimately show ?thesis by (intro bexI [of _ s])
qed

lemma granted_group:
  assumes ok: "registry_ok q" and run: "try_admit_tx e live (Some ob) t q = Inr (True, q')"
    and own: "ticket_row (tt_sequence t) (tt_ticket t) q = Some own" "ma_status own = ''waiting''"
  obtains g xs ob1 c zs fs where "g \<noteq> []" "mapR row_demand g = Inr xs" "observed_limits ob1 = observed_limits ob"
    "first_blocked (decide_group (qe_scheduler e) (qe_ceilings e) (qe_now e 2) (Some ob1) (active_demands q) xs) = None"
    "map core_row (rg_rows q') = map (activate_core (ma_sequence ` set g)) (map core_row (rg_rows q))"
    "\<forall>r \<in> set g. core_row r \<in> core_row ` set (rg_rows q) \<and> ma_status r = ''waiting''" "distinct (map ma_sequence g)"
    "ma_sequence own \<in> ma_sequence ` set g" "c \<in> set (candidates live q)" "ma_sequence c = ma_sequence own"
    "mapR row_demand (candidates live q) = Inr zs"
    "effective_observation (map dm_provider zs) (id_boot (tt_owner t)) (qe_now e 0) (Some ob) (rg_feedback q) = (Some ob1, fs)"
  using run
proof (cases rule: try_admit_tx_cases)
  case (held own') then show thesis using own by simp
next
  case (tried own' xs obs1 fs q2)
  have own': "own' = own" using tried(1) own(1) by simp
  have same: "map core_row (rg_rows q2) = map core_row (rg_rows q)" and ok2: "registry_ok q2"
    using tried(7) ok rows_le_ok [OF clear_tags_le, of "q\<lparr>rg_feedback := fs\<rparr>"] by (auto simp: registry_ok_def)
  obtain ob1 where ob1: "obs1 = Some ob1" "observed_limits ob1 = observed_limits ob"
    using effective_Some tried(6) effective_limits by (metis prod.inject)
  from admit_open_granted [OF tried(8) [unfolded own']] obtain c g ys ds q1 where c: "c \<in> set (candidates live q)"
    "ma_sequence c = ma_sequence own" "g = candidate_group q2 c" "mapR row_demand g = Inr ys"
    "ds = decide_group (qe_scheduler e) (qe_ceilings e) (qe_now e 2) obs1 (active_demands q2) ys" "first_blocked ds = None"
    "map core_row (rg_rows q1) = map core_row (rg_rows q2)" "grant_group e own g ds q1 = Inr q'" by metis
  have row: "c \<in> set (rg_rows q)" "ma_status c = ''waiting''" using candidate_rows [OF c(1)] by auto
  have img: "core_row ` set (rg_rows q2) = core_row ` set (rg_rows q)" using same by (metis set_map)
  from kept_waiting [OF row tried(7)] obtain c' where "c' \<in> set (rg_rows q2)" "ma_sequence c' = ma_sequence c"
    "ma_group c' = ma_group c" "ma_status c' = ''waiting''" by blast
  then have self: "ma_sequence own \<in> ma_sequence ` set g" using candidate_group_self c(2,3) by metis
  have "core_row c \<in> core_row ` set (rg_rows q2)" unfolding img using row(1) by (rule imageI)
  note members = candidate_group_rows [OF ok2 this row(2), folded c(3), unfolded img]
  have blocked: "first_blocked (decide_group (qe_scheduler e) (qe_ceilings e) (qe_now e 2) (Some ob1) (active_demands q) ys) = None"
    using c(5,6) ob1(1) active_demands_core [OF same] by simp
  have rows: "map core_row (rg_rows q') = map (activate_core (ma_sequence ` set g)) (map core_row (rg_rows q))"
    using grant_core [OF c(8)] c(7) same by simp
  have "g \<noteq> []" using self by auto
  from that [OF this c(4) ob1(2) blocked rows members self c(1,2) tried(5) tried(6) [unfolded ob1(1)]] show thesis .
qed simp

text \<open>
  C26: a grant never overcommits the machine: after it the demands of all active leases together are
  within every resource that was observed and within every configured ceiling, and a resource
  that was neither observed nor given a ceiling is not taken at all.
\<close>

theorem grant_within_capacity:
  assumes "registry_ok q" and "queue_transaction (try_admit_tx e live (Some ob) t) q = (Inr True, q')"
    and "ticket_row (tt_sequence t) (tt_ticket t) q = Some own" and "ma_status own = ''waiting''" and "k \<in> set resource_names"
  shows "(\<forall>l. limit_of (observed_limits ob) k = Some l \<longrightarrow> leased k q' \<le> l) \<and>
     (\<forall>v. (k, v) \<in> set (qe_ceilings e) \<longrightarrow> leased k q' \<le> v) \<and>
     (limit_of (observed_limits ob) k = None \<and> k \<notin> fst ` set (qe_ceilings e) \<longrightarrow> leased k q' = leased k q)"
proof -
  have run: "try_admit_tx e live (Some ob) t q = Inr (True, q')"
    using assms(2) by (auto simp: queue_transaction_def split: sum.splits)
  from granted_group [OF assms(1) run assms(3,4)] obtain g xs ob1 where g: "g \<noteq> []" "mapR row_demand g = Inr xs"
    "observed_limits ob1 = observed_limits ob"
    "first_blocked (decide_group (qe_scheduler e) (qe_ceilings e) (qe_now e 2) (Some ob1) (active_demands q) xs) = None"
    "map core_row (rg_rows q') = map (activate_core (ma_sequence ` set g)) (map core_row (rg_rows q))"
    "\<forall>r \<in> set g. core_row r \<in> core_row ` set (rg_rows q) \<and> ma_status r = ''waiting''" "distinct (map ma_sequence g)" by metis
  have "xs \<noteq> []" using g(1,2) mapR_Inr_length by fastforce
  from group_fits [OF g(4) this rows_demand_ok [OF g(2)]] obtain ys ls where fit: "mapR demand_from_record (active_demands q) = Inr ys"
    "apply_ceilings (observed_limits ob) (qe_ceilings e) = Inr ls" "within_limits ls ob1 ys xs" using g(3) by auto
  have "leased k q' = leased k q + total xs k"
    unfolding leased_core g(5) core_active_update group_weight [OF ok_distinct [OF assms(1)] g(6,7)] rows_total [OF g(2)] ..
  then have sum: "leased k q' = total (ys @ xs) k" using weights_total [OF fit(1), of k] by (simp add: leased_def)
  have in_force: "leased k q' \<le> l" if "limit_of ls k = Some l" for l
    using fit(3) assms(5) that sum by (force simp: within_limits_def)
  have unlimited: "limit_of ls k = None"
    if "limit_of (observed_limits ob) k = None" "k \<notin> fst ` set (qe_ceilings e)"
    using apply_ceilings_unlimited [OF fit(2)] that by simp
  have "leased k q' = leased k q" if "limit_of ls k = None"
    using fit(3) assms(5) that sum weights_total [OF fit(1), of k] by (auto simp: within_limits_def leased_def)
  with in_force unlimited apply_ceilings_limit [OF fit(2), of k] show ?thesis by fastforce
qed

end
