(* ===== verification/Admission_Contract.thy ===== *)
theory Admission_Contract
  imports Admission_Grants
begin

text \<open>
  What the users of the admission queue rely on: a retried enqueue is one ticket, the runs of the
  machine take turns, a lease is taken away on evidence only, and a throttled provider gets nothing;
  with concrete runs, and two where the comments of the code promise more than it does.
\<close>

section \<open>Turns\<close>

lemma find_run: "k \<in> run_of ` set rows \<Longrightarrow> \<exists>r. List.find (\<lambda>r. run_of r = k) rows = Some r"
  by (metis (mono_tags, lifting) find_None_iff imageE option.exhaust)

definition earliest :: "admission list \<Rightarrow> string \<times> string \<Rightarrow> admission" where
  "earliest rows k = the (List.find (\<lambda>r. run_of r = k) rows)"

lemma earliest_row:
  assumes "k \<in> run_of ` set rows" shows "earliest rows k \<in> set rows" "run_of (earliest rows k) = k"
  using find_run [OF assms] by (auto simp: earliest_def dest: find_Some_in)

lemma earliest_least:
  assumes "sorted (map ma_sequence rows)" and "r \<in> set rows"
  shows "ma_sequence (earliest rows (run_of r)) \<le> ma_sequence r"
  using assms by (induction rows) (auto simp: earliest_def)

lemma drop_at: "x \<in> set ks \<Longrightarrow> \<exists>ys. dropWhile (\<lambda>k. k \<noteq> x) ks = x # ys"
  by (induction ks) auto

lemma rotate_after_set [simp]: "set (rotate_after c ks) = set ks"
proof (cases "\<exists>x. c = Some x \<and> x \<in> set ks")
  case True
  then obtain x where x: "c = Some x" "x \<in> set ks" by blast
  have "set ks = set (takeWhile (\<lambda>k. k \<noteq> x) ks) \<union> set (dropWhile (\<lambda>k. k \<noteq> x) ks)"
    by (metis set_append takeWhile_dropWhile_id)
  moreover obtain ys where "dropWhile (\<lambda>k. k \<noteq> x) ks = x # ys" using drop_at [OF x(2)] by blast
  ultimately show ?thesis using x by (auto simp: rotate_after_def)
qed (auto simp: rotate_after_def split: option.split)

lemma rotate_after_distinct: "distinct ks \<Longrightarrow> distinct (rotate_after c ks)"
proof (cases "\<exists>x. c = Some x \<and> x \<in> set ks")
  case True
  assume d: "distinct ks"
  from True obtain x where x: "c = Some x" "x \<in> set ks" by blast
  obtain ys where ys: "dropWhile (\<lambda>k. k \<noteq> x) ks = x # ys" using drop_at [OF x(2)] by blast
  have "ks = takeWhile (\<lambda>k. k \<noteq> x) ks @ x # ys" by (metis ys takeWhile_dropWhile_id)
  then have "distinct (takeWhile (\<lambda>k. k \<noteq> x) ks @ x # ys)" using d by metis
  then show ?thesis using x ys by (auto simp: rotate_after_def)
qed (auto simp: rotate_after_def split: option.split)

lemma rotate_after_last: "c = Some x \<Longrightarrow> x \<in> set ks \<Longrightarrow> last (rotate_after c ks) = x"
  by (simp add: rotate_after_def)

definition turn_keys :: "ident list \<Rightarrow> registry \<Rightarrow> (string \<times> string) list" where
  "turn_keys live q = rotate_after (rg_cursor q) (sort (remdups (map run_of (live_waiting live q))))"

lemma turn_keys [simp]: "set (turn_keys live q) = run_of ` set (live_waiting live q)" "distinct (turn_keys live q)"
  by (simp_all add: turn_keys_def rotate_after_distinct)

lemma map_filter_all: "(\<And>k. k \<in> set ks \<Longrightarrow> f k = Some (g k)) \<Longrightarrow> List.map_filter f ks = map g ks"
  by (induction ks) (simp_all add: List.map_filter_simps)

lemma candidates_turns: "candidates live q = map (earliest (live_waiting live q)) (turn_keys live q)"
proof -
  have "List.find (\<lambda>r. run_of r = k) (live_waiting live q) = Some (earliest (live_waiting live q) k)"
    if "k \<in> set (turn_keys live q)" for k
    using find_run [of k "live_waiting live q"] that by (auto simp: earliest_def)
  then show ?thesis unfolding candidates_def Let_def turn_keys_def [symmetric] by (rule map_filter_all)
qed

lemma candidates_runs: "map run_of (candidates live q) = turn_keys live q"
  unfolding candidates_turns map_map using earliest_row(2) by (intro map_idI) simp

lemma live_waiting_in: "r \<in> set (live_waiting live q) \<longleftrightarrow> r \<in> set (rg_rows q) \<and> ma_status r = ''waiting'' \<and> ma_owner r \<in> set live"
  by (auto simp: live_waiting_def by_sequence_def)

lemma candidate_least:
  assumes "c \<in> set (candidates live q)" and "r \<in> set (live_waiting live q)" and "run_of r = run_of c"
  shows "ma_sequence c \<le> ma_sequence r"
proof -
  from assms(1) obtain k where k: "k \<in> run_of ` set (live_waiting live q)" "c = earliest (live_waiting live q) k"
    unfolding candidates_turns by auto
  then have "run_of r = k" using assms(3) earliest_row(2) by metis
  moreover have "sorted (map ma_sequence (live_waiting live q))" by (simp add: live_waiting_def by_sequence_def)
  ultimately show ?thesis using earliest_least [OF _ assms(2)] k(2) by simp
qed

text \<open>
  The runs take turns. Every run with a live waiter is tried exactly once, with its earliest live
  waiter, and the run that was granted last is tried last.
\<close>

theorem candidates_take_turns:
  "distinct (map run_of (candidates live q)) \<and>
   set (candidates live q) \<subseteq> {r \<in> set (rg_rows q). ma_status r = ''waiting'' \<and> ma_owner r \<in> set live} \<and>
   (\<forall>r \<in> set (rg_rows q). ma_status r = ''waiting'' \<and> ma_owner r \<in> set live \<longrightarrow>
      (\<exists>c \<in> set (candidates live q). run_of c = run_of r \<and> ma_sequence c \<le> ma_sequence r)) \<and>
   (\<forall>c \<in> set (candidates live q). rg_cursor q = Some (run_of c) \<longrightarrow> run_of (last (candidates live q)) = run_of c)"
proof (intro conjI ballI impI)
  show "distinct (map run_of (candidates live q))" by (simp add: candidates_runs)
  show "set (candidates live q) \<subseteq> {r \<in> set (rg_rows q). ma_status r = ''waiting'' \<and> ma_owner r \<in> set live}"
    using candidate_rows by blast
next
  fix r assume "r \<in> set (rg_rows q)" "ma_status r = ''waiting'' \<and> ma_owner r \<in> set live"
  then have r: "r \<in> set (live_waiting live q)" by (simp add: live_waiting_in)
  then have "run_of r \<in> run_of ` set (candidates live q)" by (metis candidates_runs turn_keys(1) image_eqI set_map)
  then show "\<exists>c \<in> set (candidates live q). run_of c = run_of r \<and> ma_sequence c \<le> ma_sequence r"
    using candidate_least [OF _ r] by (metis imageE)
next
  fix c assume c: "c \<in> set (candidates live q)" "rg_cursor q = Some (run_of c)"
  then have "run_of c \<in> set (turn_keys live q)" by (metis candidates_runs image_eqI set_map)
  then have "last (turn_keys live q) = run_of c" unfolding turn_keys_def using c(2) by (intro rotate_after_last) simp_all
  moreover have "candidates live q \<noteq> []" using c(1) by auto
  ultimately show "run_of (last (candidates live q)) = run_of c" by (metis candidates_runs last_map)
qed

section \<open>Enqueueing again\<close>

text \<open>The rows of a request are identified by its run, repository, key and generation.\<close>

lemma enqueue_tx_row:
  assumes "enqueue_tx e owner rq q = Inr (t, q')" and "eq_repo rq \<noteq> []" "eq_key rq \<noteq> []"
  shows "\<exists>r. retained_rows rq q' = [r] \<and> t = \<lparr>tt_sequence = ma_sequence r, tt_ticket = ma_ticket r, tt_owner = owner\<rparr> \<and>
    ma_owner r = owner \<and> ma_root r = eq_root rq \<and> ma_demand r = demand_record (requested_demand rq) \<and> ma_group r = eq_group rq \<and>
    ma_width r = eq_width rq \<and> (eq_intent rq \<noteq> None \<longrightarrow> ma_intent r = eq_intent rq) \<and> open_status r"
proof (cases "retained_rows rq q")
  case Nil
  then have "rg_rows q' = rg_rows q @ [new_admission owner (qe_fresh e) (qe_now e 0) rq (rg_last q + 1)]"
    "t = \<lparr>tt_sequence = rg_last q + 1, tt_ticket = qe_fresh e, tt_owner = owner\<rparr>"
    using assms by (auto simp: enqueue_tx_def Let_def split: if_splits)
  with Nil show ?thesis
    by (simp add: retained_rows_def new_admission_def same_request_def unbound_release_def open_status_def)
next
  case (Cons r rs)
  then show ?thesis using assms by (auto simp: enqueue_tx_def open_status_def split: if_splits)
qed

text \<open>
  An enqueue can be retried. A request that names its repository and key has one row; repeating it,
  with another clock and another fresh ticket, gives the same ticket and leaves the registry as it is.
\<close>

theorem enqueue_idempotent:
  assumes "enqueue e rq q = (Inr t, q')" and "eq_repo rq \<noteq> []" and "eq_key rq \<noteq> []" and "own_identity e' None = own_identity e None"
  shows "enqueue e' rq q' = (Inr t, q') \<and> length (retained_rows rq q') = 1"
proof -
  from assms(1) obtain owner where o: "own_identity e None = Inr owner" "enqueue_tx e owner rq q = Inr (t, q')"
    "\<not> (eq_run rq = [] \<or> \<not> py_startswith (eq_root rq) ''/'' \<or> eq_generation rq \<le> 0 \<or> eq_width rq \<le> 0)"
    by (auto simp: enqueue_def queue_transaction_def split: if_splits sum.splits)
  from enqueue_tx_row [OF o(2) assms(2,3)] obtain r where r: "retained_rows rq q' = [r]"
    "t = \<lparr>tt_sequence = ma_sequence r, tt_ticket = ma_ticket r, tt_owner = owner\<rparr>" "ma_owner r = owner" "ma_root r = eq_root rq"
    "ma_demand r = demand_record (requested_demand rq)" "ma_group r = eq_group rq" "ma_width r = eq_width rq"
    "eq_intent rq \<noteq> None \<longrightarrow> ma_intent r = eq_intent rq" "open_status r" by blast
  have "enqueue_tx e' owner rq q' = Inr (t, q')"
    using r assms(2,3) by (auto simp: enqueue_tx_def Let_def open_status_def)
  with o(1,3) assms(4) r(1) show ?thesis by (simp add: enqueue_def queue_transaction_def)
qed

section \<open>Taking a lease away\<close>

text \<open>The evidence on which a row may be reclaimed: dead processes, or a launch that never started.\<close>

definition evidence :: "queue_env \<Rightarrow> (string \<Rightarrow> lease \<Rightarrow> fenced_record option) \<Rightarrow> admission \<Rightarrow> bool" where
  "evidence e reader r =
     (open_status r \<and> dead_probe e (Some (ma_owner r)) \<and>
      (case ma_child r of
         Some x \<Rightarrow> dead_probe e (Some x)
       | None \<Rightarrow> (case reader (ma_root r) (row_lease r) of None \<Rightarrow> False | Some f \<Rightarrow> proves_never_authorized f (row_lease r))))"

definition reclaimed_on :: "(admission \<Rightarrow> bool) \<Rightarrow> admission \<Rightarrow> admission \<Rightarrow> bool" where
  "reclaimed_on ev r s = (s = r \<or> ev r \<and> (\<exists>lim. s = set_status ''reclaimed'' lim r))"

lemma reclaimed_on_refl [simp]: "list_all2 (reclaimed_on ev) xs xs"
  by (rule list.rel_refl) (simp add: reclaimed_on_def)

lemma evidence_reclaimed: "\<not> evidence e reader (set_status ''reclaimed'' lim r)"
  by (simp add: evidence_def open_status_def set_status_def)

lemma reclaimed_on_step:
  "reclaimed_on (evidence e reader) r s \<Longrightarrow> reclaimed_on (evidence e reader) s t \<Longrightarrow> reclaimed_on (evidence e reader) r t"
  unfolding reclaimed_on_def using evidence_reclaimed by metis

lemma reclaimed_on_trans:
  "list_all2 (reclaimed_on (evidence e reader)) xs ys \<Longrightarrow> list_all2 (reclaimed_on (evidence e reader)) ys zs
     \<Longrightarrow> list_all2 (reclaimed_on (evidence e reader)) xs zs"
  by (rule list_all2_trans [OF reclaimed_on_step])

lemma reclaimed_on_update:
  assumes "\<And>r. r \<in> set (rg_rows q) \<Longrightarrow> P r \<Longrightarrow> ev r"
  shows "list_all2 (reclaimed_on ev) (rg_rows q) (rg_rows (update_rows P (set_status ''reclaimed'' lim) q))"
  using assms by (auto simp: update_rows_def update_where_def list_all2_map2 reclaimed_on_def intro!: list.rel_refl_strong)

text \<open>A row seen before is the row of its sequence number now.\<close>

lemma seen_row:
  assumes "rows_le seen q" and "registry_ok seen" and "x \<in> set (rg_rows seen)" and "y \<in> set (rg_rows q)" "ma_sequence y = ma_sequence x"
  shows "row_le x y"
proof -
  from rows_le_in [OF assms(1,3)] obtain z where z: "z \<in> set (rg_rows q)" "row_le x z" by blast
  then have "ma_sequence z = ma_sequence y" using assms(5) by (simp add: row_le_def)
  then have "z = y" using z(1) assms(4) ok_distinct [OF rows_le_ok [OF assms(1,2)]] by (auto simp: distinct_map inj_on_def)
  with z(2) show ?thesis by simp
qed

lemma pre_spawn_evidence:
  assumes le: "rows_le seen q" "registry_ok seen" and x: "x \<in> set (rg_rows seen)" "pre_spawn_candidate e seen x"
  shows "list_all2 (reclaimed_on (evidence e reader)) (rg_rows q)
     (rg_rows (snd (reclaim_pre_spawn (reader (ma_root x)) (row_ticket x) (row_lease x) q)))"
proof -
  have "evidence e reader y"
    if y: "y \<in> set (rg_rows q)" "ma_sequence y = ma_sequence x" "open_status y" and t: "ticket_row (ma_sequence x) (ma_ticket x) q = Some r"
      and r: "(ma_repo r, ma_run r, ma_key r, ma_intent r, ma_generation r) = (ma_repo x, ma_run x, ma_key x, ma_intent x, ma_generation x)"
        "ma_child r = None" and f: "reader (ma_root x) (row_lease x) = Some f" "proves_never_authorized f (row_lease x)" for y r f
  proof -
    from t have "r \<in> set (rg_rows q)" "ma_sequence r = ma_sequence x"
      by (auto simp: ticket_row_def dest: find_Some_in)
    then have "r = y" using y(1,2) ok_distinct [OF rows_le_ok [OF le]] by (auto simp: distinct_map inj_on_def)
    moreover have "row_le x y" by (rule seen_row [OF le x(1) y(1,2)])
    ultimately show ?thesis using r f y(3) x(2)
      by (auto simp: evidence_def row_le_def row_lease_def pre_spawn_candidate_def)
  qed
  then show ?thesis
    by (auto simp: reclaim_pre_spawn_def queue_transaction_def reclaim_pre_spawn_tx_def row_ticket_def row_lease_def
          admission_refuse_def
        intro!: reclaimed_on_update split: option.split)
qed

lemma reclaim_rows_evidence:
  "rows_le seen q \<Longrightarrow> registry_ok seen \<Longrightarrow> set rs \<subseteq> set (rg_rows seen) \<Longrightarrow>
     list_all2 (reclaimed_on (evidence e reader)) (rg_rows q) (rg_rows (snd (reclaim_rows e reader seen rs q)))"
proof (induction rs arbitrary: q)
  case (Cons x rs)
  let ?q = "snd (reclaim_pre_spawn (reader (ma_root x)) (row_ticket x) (row_lease x) q)"
  have "rows_le seen ?q" using rows_le_trans [OF Cons.prems(1) pre_spawn_le] .
  then have "list_all2 (reclaimed_on (evidence e reader)) (rg_rows ?q) (rg_rows (snd (reclaim_rows e reader seen rs ?q)))"
    using Cons by simp
  moreover have "list_all2 (reclaimed_on (evidence e reader)) (rg_rows q) (rg_rows ?q)" if "pre_spawn_candidate e seen x"
    using pre_spawn_evidence [OF Cons.prems(1,2) _ that] Cons.prems(3) by simp
  ultimately show ?case using Cons reclaimed_on_trans by auto
qed simp

lemma reclaim_dead_evidence:
  assumes "rows_le seen q" and "registry_ok seen"
  shows "list_all2 (reclaimed_on (evidence e reader)) (rg_rows q) (rg_rows (snd (reclaim_dead e reader seen q)))"
proof -
  obtain r q1 where q1: "reclaim_rows e reader seen (filter open_status (rg_rows seen)) q = (r, q1)"
    by (cases "reclaim_rows e reader seen (filter open_status (rg_rows seen)) q")
  have 1: "list_all2 (reclaimed_on (evidence e reader)) (rg_rows q) (rg_rows q1)"
    using reclaim_rows_evidence [OF assms, of "filter open_status (rg_rows seen)" e reader] q1 by auto
  have 2: "list_all2 (reclaimed_on (evidence e reader)) (rg_rows q1)
      (rg_rows (snd (queue_transaction (reclaim_doomed_tx (filter (doomed e) (rg_rows seen))) q1)))"
    unfolding reclaim_doomed_tx_def queue_transaction_def sum.case prod.case snd_conv
    by (rule reclaimed_on_update) (auto simp: list_ex_iff doomed_def evidence_def split: option.split)
  show ?thesis using 1 reclaimed_on_trans [OF 1 2] q1 by (auto simp: reclaim_dead_def Let_def split: sum.split)
qed

text \<open>
  C27: a lease is taken away on evidence only. The reclaim works on what it read before, while other
  processes go on; still every row it changes was open, with an owner that the native and the injected
  probe call dead, and either its child is dead by both as well or it has none and the launch
  authority recorded of exactly this lease that it was fenced before it was authorized.
\<close>

theorem reclaim_needs_evidence:
  assumes "registry_ok seen" and "queue_step\<^sup>*\<^sup>* seen q" and "r \<in> set (rg_rows q)"
    and "s \<in> set (rg_rows (snd (reclaim_dead e reader seen q)))" and "ma_sequence s = ma_sequence r" and "s \<noteq> r"
  shows "ma_status r \<in> {''waiting'', ''active''} \<and> ma_status s = ''reclaimed'' \<and> dead_probe e (Some (ma_owner r)) \<and>
    (dead_probe e (ma_child r) \<or>
     (\<exists>f. ma_child r = None \<and> reader (ma_root r) (row_lease r) = Some f \<and> proves_never_authorized f (row_lease r)))"
proof -
  have le: "rows_le seen q" by (rule queue_steps_le [OF assms(2)])
  note all = reclaim_dead_evidence [OF le assms(1), of e reader]
  from assms(3) obtain n where n: "n < length (rg_rows q)" "r = rg_rows q ! n" by (auto simp: in_set_conv_nth)
  let ?q = "snd (reclaim_dead e reader seen q)"
  have z: "reclaimed_on (evidence e reader) r (rg_rows ?q ! n)" "rg_rows ?q ! n \<in> set (rg_rows ?q)"
    using list_all2_nthD [OF all n(1)] n list_all2_lengthD [OF all] by auto
  have "ma_sequence (rg_rows ?q ! n) = ma_sequence s" using z(1) assms(5) by (auto simp: reclaimed_on_def set_status_def)
  then have "rg_rows ?q ! n = s"
    using z(2) assms(4) ok_distinct [OF rows_le_ok [OF reclaim_dead_le rows_le_ok [OF le assms(1)]]] by (auto simp: distinct_map inj_on_def)
  then have ev: "evidence e reader r" "ma_status s = ''reclaimed''" using z(1) assms(6) by (auto simp: reclaimed_on_def set_status_def)
  then show ?thesis
    by (auto simp: evidence_def open_status_def split: option.splits)
qed

section \<open>Throttled providers\<close>

lemma set_available_map: "map_of (set_available p n ps) k = (if k = p then Some n else map_of ps k)"
proof (cases "map_of ps p")
  case None
  then have "p \<notin> fst ` set ps" by (simp add: map_of_eq_None_iff)
  then show ?thesis using None by (cases "map_of ps k") (auto simp: set_available_def map_add_def)
next
  case (Some m)
  have "map_of (map (\<lambda>(k, v). if k = p then (k, n) else (k, v)) ps) k
      = (if k = p then map_option (\<lambda>_. n) (map_of ps k) else map_of ps k)"
    by (induction ps) auto
  with Some show ?thesis by (simp add: set_available_def)
qed

lemma feedback_other:
  assumes "p' \<noteq> p" and "\<And>f. fb_provider (g f) = fb_provider f"
  shows "feedback_of (update_where (\<lambda>x. fb_provider x = p') g fs) p = feedback_of fs p"
  using assms by (induction fs) (auto simp: feedback_of_def update_where_def)

lemma restart_other: "p' \<noteq> p \<Longrightarrow> feedback_of (restart_feedback p' boot now fs) p = feedback_of fs p"
  by (auto simp: restart_feedback_def feedback_other) (auto simp: feedback_of_def fresh_feedback_def find_append split: option.split)

text \<open>The other providers of the loop leave the row and the availability of a provider alone.\<close>

lemma observe_other:
  assumes "p' \<noteq> p" and "observe_provider boot now fresh p' (av, ex, fs) = (av', ex', fs')"
  shows "map_of av' p = map_of av p \<and> feedback_of fs' p = feedback_of fs p"
  using assms
  by (auto simp: observe_provider_def Let_def set_available_map restart_other feedback_other explore_def
      split: option.splits if_splits)

lemma observe_others:
  "p \<notin> set ps \<Longrightarrow> fold (observe_provider boot now fresh) ps (av, ex, fs) = (av', ex', fs') \<Longrightarrow>
     map_of av' p = map_of av p \<and> feedback_of fs' p = feedback_of fs p"
proof (induction ps arbitrary: av ex fs)
  case (Cons a ps)
  obtain av1 ex1 fs1 where 1: "observe_provider boot now fresh a (av, ex, fs) = (av1, ex1, fs1)"
    by (cases "observe_provider boot now fresh a (av, ex, fs)") auto
  then have "fold (observe_provider boot now fresh) ps (av1, ex1, fs1) = (av', ex', fs')" using Cons.prems(2) by simp
  then show ?case using Cons.IH [of av1 ex1 fs1] Cons.prems(1) observe_other [OF _ 1, of p] by auto
qed simp

lemma throttled_available:
  assumes p: "p \<in> set ps" "distinct ps" and f: "feedback_of fs p = Some f" "fb_boot f = boot" "fb_last f \<le> now" "now < fb_cooldown f"
    and run: "fold (observe_provider boot now fresh) ps (av, ex, fs) = (av', ex', fs')"
  shows "map_of av' p = Some 0"
proof -
  from p obtain as bs where ps: "ps = as @ p # bs" "p \<notin> set as" "p \<notin> set bs" using split_list by fastforce
  obtain av1 ex1 fs1 where 1: "fold (observe_provider boot now fresh) as (av, ex, fs) = (av1, ex1, fs1)"
    by (cases "fold (observe_provider boot now fresh) as (av, ex, fs)") auto
  have f1: "feedback_of fs1 p = Some f" using observe_others [OF ps(2) 1] f(1) by simp
  have "observe_provider boot now fresh p (av1, ex1, fs1) = (set_available p 0 av1, ex1, fs1)"
    using f f1 by (auto simp: observe_provider_def)
  then have "fold (observe_provider boot now fresh) bs (set_available p 0 av1, ex1, fs1) = (av', ex', fs')"
    using run ps(1) 1 by simp
  from observe_others [OF ps(3) this] show ?thesis by (simp add: set_available_map)
qed

lemma throttled_observation:
  assumes "effective_observation ps boot now (Some ob) fs = (Some ob', fs')" and "Some p \<in> set ps"
    and "feedback_of fs p = Some f" "fb_boot f = boot" "fb_last f \<le> now" "now < fb_cooldown f"
  shows "\<exists>av. ob_provider ob' = Some av \<and> map_of av p = Some 0"
proof -
  have "p \<in> set (provider_set ps)" "distinct (provider_set ps)"
    using assms(2) by (auto simp: provider_set_def in_map_filter)
  note 0 = throttled_available [OF this assms(3-6)]
  from assms(1) show ?thesis by (auto simp: effective_observation_def Let_def split: prod.splits dest: 0)
qed

lemma mapR_mem: "mapR f xs = Inr ys \<Longrightarrow> x \<in> set xs \<Longrightarrow> \<exists>y \<in> set ys. f x = Inr y"
  by (induction xs arbitrary: ys) auto

lemma mapR_demand_ok: "mapR demand_from_record vs = Inr xs \<Longrightarrow> \<forall>x \<in> set xs. demand_ok x"
  by (induction vs arbitrary: xs) (auto dest: demand_from_ok)

lemma provider_used_nonneg: "(\<And>z. z \<in> set xs \<Longrightarrow> 0 \<le> dm_units z) \<Longrightarrow> 0 \<le> provider_used p xs"
  by (induction xs) auto

lemma used_zero:
  "provider_used p xs \<le> 0 \<Longrightarrow> x \<in> set xs \<Longrightarrow> dm_provider x = Some p \<Longrightarrow> (\<And>z. z \<in> set xs \<Longrightarrow> 0 \<le> dm_units z) \<Longrightarrow> dm_units x = 0"
proof (induction xs)
  case (Cons y ys)
  have "0 \<le> provider_used p ys" "0 \<le> dm_units y" using provider_used_nonneg [of ys p] Cons.prems(4) by auto
  then have "provider_used p ys \<le> 0" "dm_provider y = Some p \<Longrightarrow> dm_units y \<le> 0" using Cons.prems(1) by (auto split: if_splits)
  with Cons \<open>0 \<le> dm_units y\<close> show ?case by (cases "x = y") (auto intro: antisym)
qed simp

text \<open>The rows a grant takes are members of the granted group.\<close>

lemma granted_member:
  assumes ok: "registry_ok q" and rows: "map core_row (rg_rows q') = map (activate_core S) (map core_row (rg_rows q))"
    and r: "r \<in> set (rg_rows q)" "ma_status r = ''waiting''" and r': "r' \<in> set (rg_rows q')" "ma_sequence r' = ma_sequence r" "ma_status r' = ''active''"
  shows "ma_sequence r \<in> S"
proof -
  from r'(1) have "core_row r' \<in> set (map core_row (rg_rows q'))" by simp
  then obtain s where s: "s \<in> set (rg_rows q)" "core_row r' = activate_core S (core_row s)" unfolding rows by auto
  then have "ma_sequence s = ma_sequence r" using r'(2) by (auto simp: activate_core_def core_row_def split: if_splits)
  then have "s = r" using s(1) r(1) ok_distinct [OF ok] by (auto simp: distinct_map inj_on_def)
  then show ?thesis using s(2) r(2) r'(3) by (auto simp: activate_core_def core_row_def split: if_splits)
qed

lemma member_demand:
  assumes ok: "registry_ok q" and g: "\<forall>m \<in> set g. core_row m \<in> core_row ` set (rg_rows q) \<and> ma_status m = ''waiting''"
    and r: "r \<in> set (rg_rows q)" "ma_sequence r \<in> ma_sequence ` set g" "demand_from_record (ma_demand r) = Inr x" and xs: "mapR row_demand g = Inr xs"
  shows "x \<in> set xs"
proof -
  from r(2) obtain m where m: "m \<in> set g" "ma_sequence m = ma_sequence r" by auto
  with g obtain s where "s \<in> set (rg_rows q)" "core_row m = core_row s" by auto
  moreover from this m(2) have "s = r" using r(1) ok_distinct [OF ok] by (auto simp: core_row_def distinct_map inj_on_def)
  ultimately have "ma_demand m = ma_demand r" by (simp add: core_row_def)
  then show ?thesis using mapR_mem [OF xs m(1)] r(3) by (auto simp: row_demand_def)
qed

lemma blocked_provider:
  assumes fit: "first_blocked (decide_group sch cs now (Some ob) rows xs) = None" and xs: "mapR row_demand g = Inr xs"
    and x: "x \<in> set xs" "dm_provider x = Some p" and av: "ob_provider ob = Some av" "map_of av p = Some 0"
  shows "dm_units x = 0"
proof -
  have "xs \<noteq> []" using x(1) by auto
  from group_fits [OF fit this rows_demand_ok [OF xs]] obtain ys ls where ys: "mapR demand_from_record rows = Inr ys"
    "within_limits ls ob ys xs" by auto
  with x av have "provider_used p (ys @ xs) \<le> 0" unfolding within_limits_def by force
  moreover have "0 \<le> dm_units z" if "z \<in> set (ys @ xs)" for z
    using that rows_demand_ok [OF xs] mapR_demand_ok [OF ys(1)] by (auto simp: demand_ok_def)
  ultimately show ?thesis using used_zero [of p "ys @ xs" x] x by auto
qed

text \<open>
  C31: a provider that throttled gets nothing until its cooldown is over, as far as the code looks: when a
  call admits, whatever the observation, the ceilings and the group, the ticket of the call needs no unit
  of a throttled provider, and no other ticket the call grants with it needs one of a throttled provider
  that some candidate (the earliest live waiter of a run) asks for. The code looks at the feedback of the
  providers of the candidates alone: a peer granted in the same group that asks for a provider no candidate
  asks for is not held back (\<open>throttled_peer_granted\<close>).
\<close>

theorem throttled_provider_waits:
  assumes ok: "registry_ok q" and run: "queue_transaction (try_admit_tx e live (Some ob) t) q = (Inr True, q')"
    and own: "ticket_row (tt_sequence t) (tt_ticket t) q = Some own" "ma_status own = ''waiting''"
    and r: "r \<in> set (rg_rows q)" "ma_status r = ''waiting''" "demand_from_record (ma_demand r) = Inr x" "dm_provider x = Some p"
    and granted: "r = own \<or> (\<exists>r' \<in> set (rg_rows q'). ma_sequence r' = ma_sequence r \<and> ma_status r' = ''active'') \<and>
      (\<exists>c \<in> set (candidates live q). \<exists>y. demand_from_record (ma_demand c) = Inr y \<and> dm_provider y = Some p)"
    and f: "feedback_of (rg_feedback q) p = Some f" "fb_boot f = id_boot (tt_owner t)" "fb_last f \<le> qe_now e 0" "qe_now e 0 < fb_cooldown f"
  shows "dm_units x = 0"
proof -
  have tx: "try_admit_tx e live (Some ob) t q = Inr (True, q')" using run by (auto simp: queue_transaction_def split: sum.splits)
  from granted_group [OF ok tx own] obtain g xs ob1 c zs fs where g: "mapR row_demand g = Inr xs"
    "first_blocked (decide_group (qe_scheduler e) (qe_ceilings e) (qe_now e 2) (Some ob1) (active_demands q) xs) = None"
    "map core_row (rg_rows q') = map (activate_core (ma_sequence ` set g)) (map core_row (rg_rows q))"
    "\<forall>r \<in> set g. core_row r \<in> core_row ` set (rg_rows q) \<and> ma_status r = ''waiting''"
    "ma_sequence own \<in> ma_sequence ` set g" "c \<in> set (candidates live q)" "ma_sequence c = ma_sequence own"
    "mapR row_demand (candidates live q) = Inr zs"
    "effective_observation (map dm_provider zs) (id_boot (tt_owner t)) (qe_now e 0) (Some ob) (rg_feedback q) = (Some ob1, fs)" by metis
  have "own \<in> set (rg_rows q)" using own(1) by (auto simp: ticket_row_def dest: find_Some_in)
  then have "c = own" using g(7) candidate_rows [OF g(6)] ok_distinct [OF ok] by (auto simp: distinct_map inj_on_def)
  have member: "ma_sequence r \<in> ma_sequence ` set g" using granted g(5) granted_member [OF ok g(3) r(1,2)] by blast
  have asked: "\<exists>c \<in> set (candidates live q). \<exists>y. demand_from_record (ma_demand c) = Inr y \<and> dm_provider y = Some p"
    using granted r(3,4) g(6) \<open>c = own\<close> by blast
  then obtain y where "y \<in> set zs" "dm_provider y = Some p" using mapR_mem [OF g(8)] by (force simp: row_demand_def)
  then have "Some p \<in> set (map dm_provider zs)" by (force simp: image_iff)
  from throttled_observation [OF g(9) this f] obtain av where "ob_provider ob1 = Some av" "map_of av p = Some 0" by blast
  then show ?thesis by (rule blocked_provider [OF g(2,1) member_demand [OF ok g(4) r(1) member r(3) g(1)] r(4)])
qed

end
