(* ===== verification/Admission_Scenario.thy ===== *)
theory Admission_Scenario
  imports Admission_Contract
begin

text \<open>
  A concrete machine with its admission queue, for the witnesses of the queue's properties, and the
  cases in which the code does not keep what its comments say: the release of a bound child, a peer of an
  unknown owner, a peer of a throttled provider.
\<close>

section \<open>A machine\<close>

definition sample_env :: queue_env where
  "sample_env = \<lparr>qe_self = Some sample_ident, qe_probe = (\<lambda>i. if i = sample_ident \<or> i = sample_child then LIVE else UNKNOWN),
     qe_injected = None, qe_now = (\<lambda>n. 100 + int n), qe_fresh = ''t1'', qe_ceilings = [(''cpu'', 2)],
     qe_scheduler = \<lparr>sc_cooldown = 10, sc_max_age = 50\<rparr>\<rparr>"

definition sample_machine :: observation where
  "sample_machine = \<lparr>ob_at = 99, ob_cpu = Some 4, ob_memory = None, ob_disk = None, ob_io = None, ob_processes = Some 8,
     ob_provider = None, ob_source = ''host''\<rparr>"

definition sample_request :: enqueue_request where
  "sample_request = \<lparr>eq_root = ''/s'', eq_run = ''r'', eq_repo = ''o'', eq_key = ''k'', eq_generation = 1, eq_demand = None,
     eq_group = None, eq_width = 1, eq_intent = None\<rparr>"

definition sample_ticket :: ticket where
  "sample_ticket = \<lparr>tt_sequence = 1, tt_ticket = ''t1'', tt_owner = sample_ident\<rparr>"

definition queued :: registry where
  "queued = snd (enqueue sample_env sample_request empty_registry)"

definition granted :: registry where
  "granted = snd (queue_transaction (try_admit_tx sample_env [sample_ident] (Some sample_machine) sample_ticket) queued)"

lemma sample_enqueue: "enqueue sample_env sample_request empty_registry = (Inr sample_ticket, queued)"
proof -
  have "fst (enqueue sample_env sample_request empty_registry) = Inr sample_ticket" by code_simp
  then show ?thesis by (simp add: queued_def prod_eq_iff)
qed

lemma sample_grant:
  "queue_transaction (try_admit_tx sample_env [sample_ident] (Some sample_machine) sample_ticket) queued = (Inr True, granted)"
proof -
  have "fst (queue_transaction (try_admit_tx sample_env [sample_ident] (Some sample_machine) sample_ticket) queued) = Inr True"
    by code_simp
  then show ?thesis by (simp add: granted_def prod_eq_iff)
qed

lemma queued_ok [simp]: "registry_ok queued"
  unfolding queued_def by (rule rows_le_ok [OF enqueue_le]) simp

lemma queued_row: "ticket_row (tt_sequence sample_ticket) (tt_ticket sample_ticket) queued = Some (hd (rg_rows queued))"
  by code_simp

lemma queued_waiting: "ma_status (hd (rg_rows queued)) = ''waiting''"
  by code_simp

section \<open>Witnesses\<close>

theorem grant_within_capacity_witness:
  "leased ''cpu'' granted \<le> 4 \<and> leased ''cpu'' granted \<le> 2 \<and> leased ''cpu'' granted = 1"
proof -
  have 1: "''cpu'' \<in> set resource_names" "limit_of (observed_limits sample_machine) ''cpu'' = Some 4"
    "(''cpu'', 2) \<in> set (qe_ceilings sample_env)" by code_simp+
  have "leased ''cpu'' granted = 1" by code_simp
  with 1 grant_within_capacity [OF queued_ok sample_grant queued_row queued_waiting 1(1)] show ?thesis by blast
qed

theorem enqueue_idempotent_witness:
  "enqueue (sample_env\<lparr>qe_fresh := ''t9''\<rparr>) sample_request queued = (Inr sample_ticket, queued) \<and>
   length (retained_rows sample_request queued) = 1"
proof -
  have 1: "eq_repo sample_request \<noteq> []" "eq_key sample_request \<noteq> []"
    "own_identity (sample_env\<lparr>qe_fresh := ''t9''\<rparr>) None = own_identity sample_env None"
    by (simp_all add: sample_request_def own_identity_def sample_env_def)
  from enqueue_idempotent [OF sample_enqueue 1] show ?thesis by simp
qed

definition released :: registry where
  "released = snd (release_unbound sample_env sample_ticket queued)"

definition reenqueued :: registry where
  "reenqueued = snd (enqueue (sample_env\<lparr>qe_fresh := ''t2''\<rparr>) sample_request released)"

theorem ended_lease_stays_ended_witness:
  "\<exists>s \<in> set (rg_rows reenqueued). ma_sequence s = 1 \<and> ma_status s \<in> {''released'', ''reclaimed''}"
proof -
  have "queue_step\<^sup>*\<^sup>* released reenqueued" unfolding reenqueued_def by (intro r_into_rtranclp queue_step.enqueue)
  moreover have "hd (rg_rows released) \<in> set (rg_rows released)" by code_simp
  moreover have "ma_status (hd (rg_rows released)) \<in> {''released'', ''reclaimed''}" "ma_sequence (hd (rg_rows released)) = 1"
    by code_simp+
  ultimately show ?thesis using ended_lease_stays_ended by metis
qed

text \<open>Two runs wait, and the run granted before has a second waiter.\<close>

definition waiting_runs :: registry where
  "waiting_runs = snd (enqueue (sample_env\<lparr>qe_fresh := ''t3''\<rparr>) (sample_request\<lparr>eq_run := ''z''\<rparr>)
     (snd (enqueue (sample_env\<lparr>qe_fresh := ''t2''\<rparr>) (sample_request\<lparr>eq_key := ''k2''\<rparr>) granted)))"

theorem candidates_take_turns_witness:
  "map run_of (candidates [sample_ident] waiting_runs) = [(''o'', ''z''), (''o'', ''r'')] \<and>
   run_of (last (candidates [sample_ident] waiting_runs)) = (''o'', ''r'')"
proof -
  have "map run_of (candidates [sample_ident] waiting_runs) = [(''o'', ''z''), (''o'', ''r'')]" by code_simp
  moreover have "last (candidates [sample_ident] waiting_runs) \<in> set (candidates [sample_ident] waiting_runs)"
    "rg_cursor waiting_runs = Some (run_of (last (candidates [sample_ident] waiting_runs)))"
    "run_of (last (candidates [sample_ident] waiting_runs)) = (''o'', ''r'')" by code_simp+
  ultimately show ?thesis using candidates_take_turns [of "[sample_ident]" waiting_runs] by metis
qed

definition dead_env :: queue_env where
  "dead_env = sample_env\<lparr>qe_probe := (\<lambda>_. DEAD)\<rparr>"

definition sample_record :: "string \<Rightarrow> lease \<Rightarrow> fenced_record option" where
  "sample_record root l = Some \<lparr>fe_repo = le_repo l, fe_run = le_run l, fe_key = le_key l, fe_intent = le_intent l,
     fe_generation = le_generation l, fe_writer = le_supervisor l, fe_intent_state = ''never_authorized'',
     fe_request_state = ''generation_fenced'', fe_hash = replicate 64 (CHR ''0'')\<rparr>"

theorem reclaim_needs_evidence_witness:
  "ma_status (hd (rg_rows (snd (reclaim_dead dead_env sample_record queued queued)))) = ''reclaimed'' \<and>
   dead_probe dead_env (Some (ma_owner (hd (rg_rows queued))))"
proof -
  let ?s = "hd (rg_rows (snd (reclaim_dead dead_env sample_record queued queued)))"
  have "hd (rg_rows queued) \<in> set (rg_rows queued)" "?s \<in> set (rg_rows (snd (reclaim_dead dead_env sample_record queued queued)))"
    "ma_sequence ?s = ma_sequence (hd (rg_rows queued))" "?s \<noteq> hd (rg_rows queued)" by code_simp+
  from reclaim_needs_evidence [OF queued_ok rtranclp.rtrancl_refl this] show ?thesis by blast
qed

definition throttled :: registry where
  "throttled = (snd (enqueue sample_env (sample_request\<lparr>eq_demand := Some (default_demand\<lparr>dm_provider := Some ''p''\<rparr>)\<rparr>) empty_registry))
     \<lparr>rg_feedback := [\<lparr>fb_provider = ''p'', fb_boot = ''b'', fb_version = 1, fb_bound = 1, fb_successes = 0, fb_stable = 90,
        fb_cooldown = 900, fb_last = 90\<rparr>]\<rparr>"

theorem throttled_provider_waits_witness:
  "fst (queue_transaction (try_admit_tx sample_env [sample_ident] (Some sample_machine) sample_ticket) throttled) = Inr True \<and>
   dm_units (default_demand\<lparr>dm_provider := Some ''p''\<rparr>) = 0"
proof (rule conjI, code_simp, rule throttled_provider_waits)
  show "registry_ok throttled" by code_simp
  have "fst (queue_transaction (try_admit_tx sample_env [sample_ident] (Some sample_machine) sample_ticket) throttled) = Inr True"
    by code_simp
  then show "queue_transaction (try_admit_tx sample_env [sample_ident] (Some sample_machine) sample_ticket) throttled
    = (Inr True, snd (queue_transaction (try_admit_tx sample_env [sample_ident] (Some sample_machine) sample_ticket) throttled))"
    by (simp add: prod_eq_iff)
  show "ticket_row (tt_sequence sample_ticket) (tt_ticket sample_ticket) throttled = Some (hd (rg_rows throttled))" by code_simp
  show "ma_status (hd (rg_rows throttled)) = ''waiting''" "ma_status (hd (rg_rows throttled)) = ''waiting''" by code_simp+
  show "hd (rg_rows throttled) \<in> set (rg_rows throttled)" by code_simp
  show "demand_from_record (ma_demand (hd (rg_rows throttled))) = Inr (default_demand\<lparr>dm_provider := Some ''p''\<rparr>)" by code_simp
  show "dm_provider (default_demand\<lparr>dm_provider := Some ''p''\<rparr>) = Some ''p''" by simp
  show "hd (rg_rows throttled) = hd (rg_rows throttled) \<or>
    (\<exists>r' \<in> set (rg_rows (snd (queue_transaction (try_admit_tx sample_env [sample_ident] (Some sample_machine) sample_ticket) throttled))).
      ma_sequence r' = ma_sequence (hd (rg_rows throttled)) \<and> ma_status r' = ''active'') \<and>
    (\<exists>c \<in> set (candidates [sample_ident] throttled). \<exists>y. demand_from_record (ma_demand c) = Inr y \<and> dm_provider y = Some ''p'')" by simp
  show "feedback_of (rg_feedback throttled) ''p'' = Some (hd (rg_feedback throttled))" by code_simp
  show "fb_boot (hd (rg_feedback throttled)) = id_boot (tt_owner sample_ticket)" by code_simp
  show "fb_last (hd (rg_feedback throttled)) \<le> qe_now sample_env 0" by code_simp
  show "qe_now sample_env 0 < fb_cooldown (hd (rg_feedback throttled))" by code_simp
qed

section \<open>What the comments promise\<close>

definition sample_lease :: lease where
  "sample_lease = \<lparr>le_repo = ''o'', le_run = ''r'', le_key = ''k'', le_intent = Some ''i'', le_generation = 1,
     le_supervisor = sample_ident, le_consumer = Some sample_child\<rparr>"

definition bound :: registry where
  "bound = snd (bind_consumer sample_env sample_ticket sample_lease granted)"

lemma ticket_row_only:
  assumes "registry_ok q" and "ticket_row n k q = Some r" and "x \<in> set (rg_rows q)"
  shows "ma_sequence x = n \<and> ma_ticket x = k \<longleftrightarrow> x = r"
  using assms ok_distinct [OF assms(1)] by (auto simp: ticket_row_def distinct_map inj_on_def dest!: find_Some_in)

lemma count_where_only: "distinct xs \<Longrightarrow> r \<in> set xs \<Longrightarrow> (\<And>x. x \<in> set xs \<Longrightarrow> P x \<longleftrightarrow> x = r) \<Longrightarrow> count_where P xs = 1"
proof (induction xs)
  case (Cons y ys)
  show ?case
  proof (cases "y = r")
    case True
    then have "count_where P ys = 0" using Cons.prems by (auto simp: count_where_def filter_empty_conv)
    then show ?thesis using True Cons.prems(3) [of y] by (simp add: count_where_def)
  next
    case False
    then show ?thesis using Cons by (auto simp: count_where_def)
  qed
qed simp

text \<open>
  C36: \<open>release\<close> compares a child again that it saw, but not that it saw none. Whenever the row it read
  first was not active and had no child, and by the time of its update the row of the ticket is active
  with whatever child, alive or not, the lease is freed with the child bound to it, and nothing else
  changes; with a fresh read the same call is refused while the child is not dead.
\<close>

theorem bound_child_released:
  assumes "registry_ok q" and "own_identity e (Some (tt_owner t)) = Inr i"
    and seen: "ticket_row (tt_sequence t) (tt_ticket t) seen = Some s" "ma_owner s = tt_owner t" "ma_status s \<noteq> ''active''" "ma_child s = None"
    and now: "ticket_row (tt_sequence t) (tt_ticket t) q = Some r" "ma_owner r = tt_owner t" "ma_status r = ''active''" "ma_child r = Some x"
    and alive: "qe_probe e x \<noteq> DEAD"
  shows "release_lease e t q q = (admission_refuse ''MANAGED_ADMISSION_DESCENDANT_RETAINED'', q) \<and>
    release_lease e t seen q = (Inr (), q\<lparr>rg_rows := map (\<lambda>y. if y = r then r\<lparr>ma_status := ''released''\<rparr> else y) (rg_rows q)\<rparr>)"
proof
  show "release_lease e t q q = (admission_refuse ''MANAGED_ADMISSION_DESCENDANT_RETAINED'', q)"
    using assms(2) now alive by (simp add: release_lease_def dead_probe_def)
  define hit :: "admission \<Rightarrow> bool" where "hit y = (ma_sequence y = tt_sequence t \<and> ma_ticket y = tt_ticket t \<and> ma_owner y = tt_owner t \<and>
    ma_status y \<in> set [''waiting'', ''active'', ''released''])" for y
  have only: "hit y \<longleftrightarrow> y = r" if "y \<in> set (rg_rows q)" for y
    using ticket_row_only [OF assms(1) now(1) that] now(2,3) by (auto simp: hit_def)
  have "distinct (rg_rows q)" using ok_distinct [OF assms(1)] by (simp add: distinct_map)
  moreover have "r \<in> set (rg_rows q)" using now(1) by (auto simp: ticket_row_def dest: find_Some_in)
  ultimately have "count_where hit (rg_rows q) = 1" using only by (rule count_where_only)
  moreover have "update_where hit (\<lambda>y. y\<lparr>ma_status := ''released''\<rparr>) (rg_rows q) = map (\<lambda>y. if y = r then r\<lparr>ma_status := ''released''\<rparr> else y) (rg_rows q)"
    using only by (simp add: update_where_def)
  ultimately have "release_tx t None q = Inr ((), q\<lparr>rg_rows := map (\<lambda>y. if y = r then r\<lparr>ma_status := ''released''\<rparr> else y) (rg_rows q)\<rparr>)"
    using now(1,2) unfolding hit_def by (simp add: release_tx_def update_rows_def)
  then show "release_lease e t seen q = (Inr (), q\<lparr>rg_rows := map (\<lambda>y. if y = r then r\<lparr>ma_status := ''released''\<rparr> else y) (rg_rows q)\<rparr>)"
    using assms(2) seen by (simp add: release_lease_def queue_transaction_def)
qed

text \<open>The row is waiting when the release reads it, is granted and bound to a live child, and then freed.\<close>

theorem bound_child_released_witness:
  "queue_step\<^sup>*\<^sup>* queued bound \<and> qe_probe sample_env sample_child = LIVE \<and>
   map (\<lambda>r. (ma_status r, ma_child r)) (rg_rows bound) = [(''active'', Some sample_child)] \<and>
   fst (release_lease sample_env sample_ticket bound bound) = admission_refuse ''MANAGED_ADMISSION_DESCENDANT_RETAINED'' \<and>
   map (\<lambda>r. (ma_status r, ma_child r)) (rg_rows (snd (release_lease sample_env sample_ticket queued bound)))
     = [(''released'', Some sample_child)]"
proof -
  have steps: "queue_step\<^sup>*\<^sup>* queued bound"
    unfolding bound_def granted_def by (rule rtranclp.rtrancl_into_rtrancl [OF r_into_rtranclp]) (rule queue_step.admit_commit, rule queue_step.bind)
  have ok: "registry_ok bound" by code_simp
  have own: "own_identity sample_env (Some (tt_owner sample_ticket)) = Inr sample_ident" by code_simp
  have now: "ticket_row (tt_sequence sample_ticket) (tt_ticket sample_ticket) bound = Some (hd (rg_rows bound))"
    "ma_owner (hd (rg_rows bound)) = tt_owner sample_ticket" "ma_status (hd (rg_rows bound)) = ''active''"
    "ma_child (hd (rg_rows bound)) = Some sample_child" by code_simp+
  have seen: "ma_owner (hd (rg_rows queued)) = tt_owner sample_ticket" "ma_status (hd (rg_rows queued)) \<noteq> ''active''"
    "ma_child (hd (rg_rows queued)) = None" by code_simp+
  have live: "qe_probe sample_env sample_child = LIVE" by code_simp
  define r where "r = hd (rg_rows bound)"
  have rows: "rg_rows bound = [r]" unfolding r_def by code_simp
  have "qe_probe sample_env sample_child \<noteq> DEAD" using live by simp
  from bound_child_released [OF ok own queued_row seen now this]
  have "release_lease sample_env sample_ticket bound bound = (admission_refuse ''MANAGED_ADMISSION_DESCENDANT_RETAINED'', bound)"
    "rg_rows (snd (release_lease sample_env sample_ticket queued bound)) = [r\<lparr>ma_status := ''released''\<rparr>]"
    by (simp_all add: rows)
  then show ?thesis using live rows now(3,4) [folded r_def] steps by simp
qed

text \<open>A peer whose owner cannot be probed is granted with its group.\<close>

definition unknown_ident :: ident where
  "unknown_ident = \<lparr>id_host = ''h'', id_boot = ''b'', id_pid = 99, id_start = ''u''\<rparr>"

definition unknown_peer :: registry where
  "unknown_peer = snd (enqueue (sample_env\<lparr>qe_self := Some unknown_ident, qe_fresh := ''t2'', qe_probe := (\<lambda>_. LIVE)\<rparr>)
     (sample_request\<lparr>eq_key := ''k2'', eq_group := Some ''g'', eq_width := 2\<rparr>)
     (snd (enqueue sample_env (sample_request\<lparr>eq_group := Some ''g'', eq_width := 2\<rparr>) empty_registry)))"

theorem unknown_peer_granted:
  "qe_probe sample_env unknown_ident = UNKNOWN \<and> live_owners sample_env unknown_peer = [sample_ident] \<and>
   map (\<lambda>r. (ma_owner r, ma_status r)) (rg_rows unknown_peer) = [(sample_ident, ''waiting''), (unknown_ident, ''waiting'')] \<and>
   map (\<lambda>r. (ma_owner r, ma_status r)) (rg_rows (snd (try_admit sample_env sample_record (Some sample_machine) sample_ticket unknown_peer)))
     = [(sample_ident, ''active''), (unknown_ident, ''active'')]"
  by (intro conjI) code_simp+

text \<open>
  A peer that asks for a provider no candidate asks for is granted with its group although the
  provider throttled: the call looks at the feedback of the providers of the candidates only.
\<close>

definition throttled_peer :: registry where
  "throttled_peer = (snd (enqueue (sample_env\<lparr>qe_fresh := ''t2''\<rparr>)
     (sample_request\<lparr>eq_key := ''k2'', eq_group := Some ''g'', eq_width := 2, eq_demand := Some (default_demand\<lparr>dm_provider := Some ''p'', dm_units := 1\<rparr>)\<rparr>)
     (snd (enqueue sample_env (sample_request\<lparr>eq_group := Some ''g'', eq_width := 2\<rparr>) empty_registry))))\<lparr>rg_feedback := rg_feedback throttled\<rparr>"

lemma throttled_peer_granted:
  "qe_now sample_env 0 < fb_cooldown (hd (rg_feedback throttled_peer)) \<and>
   map (\<lambda>r. (ma_ticket r, ma_status r)) (rg_rows (snd (try_admit sample_env sample_record
     (Some (sample_machine\<lparr>ob_provider := Some [(''p'', 4)]\<rparr>)) sample_ticket throttled_peer))) = [(''t1'', ''active''), (''t2'', ''active'')]"
  by (intro conjI) code_simp+

end
