(* ===== verification/Prepaid.thy ===== *)
theory Prepaid
  imports Admission_Contract
begin

text \<open>
  Prepaid parent and child groups (\<open>resource_groups.py\<close>): a parent launch reserves in the admission
  queue, as one group, what it and its later children will need; the children then claim the prepaid
  slots. The tables stand in the database of the queue; \<open>rg_prepaid\<close> of the registry lists the ticket
  columns of the slots.

  The JSON columns (plan, binding, owner, demand) are kept as the values they encode; the plans compared
  are all built by \<open>inventory_record\<close>, in one key order. The evidence reader is a
  parameter; \<^const>\<open>None\<close> stands for an answer that raises.
\<close>

section \<open>Plans and bindings\<close>

record group_member =
  mb_slot :: string
  mb_role :: string
  mb_demand :: demand

record group_plan =
  pn_group :: string
  pn_repo :: string
  pn_run :: string
  pn_generation :: int
  pn_root :: string
  pn_key :: string
  pn_members :: "group_member list"
  pn_hash :: string
  pn_expires :: int
  pn_inventory :: "string option"

record launch_binding =
  lb_repo :: string
  lb_run :: string
  lb_key :: string
  lb_intent :: string
  lb_generation :: int
  lb_supervisor :: ident
  lb_consumer :: "ident option"

definition group_refuse :: "string \<Rightarrow> 'a res" where
  "group_refuse code = Inl (ResourceGroupRefused code)"

lemma group_refuse_simps [simp]: "group_refuse c \<noteq> Inr x" "Inr x \<noteq> group_refuse c" "isl (group_refuse c)"
  by (simp_all add: group_refuse_def)

definition is_sha :: "string \<Rightarrow> bool" where
  "is_sha s = (length s = 64 \<and> list_all hex_char s)"

definition valid_member :: "group_member \<Rightarrow> bool" where
  "valid_member m = (mb_slot m \<noteq> [] \<and> CHR '':'' \<notin> set (mb_slot m) \<and> mb_role m \<in> set [''parent'', ''child''])"

definition member_record :: "group_member \<Rightarrow> pyval" where
  "member_record m = PDict [(''slot_id'', PStr (mb_slot m)), (''role'', PStr (mb_role m)), (''demand'', demand_record (mb_demand m))]"

definition inventory_record :: "group_plan \<Rightarrow> pyval" where
  "inventory_record p = PDict ([(''schema'', PStr ''ffs.resource-parent-group/v1''), (''group_id'', PStr (pn_group p)),
     (''repository_id'', PStr (pn_repo p)), (''run_id'', PStr (pn_run p)), (''generation'', PInt (pn_generation p)),
     (''state_root'', PStr (pn_root p)), (''parent_request_key'', PStr (pn_key p)),
     (''members'', PList (map member_record (pn_members p)))]
     @ (case pn_inventory p of None \<Rightarrow> [] | Some h \<Rightarrow> [(''plan_inventory_sha256'', PStr h)]))"

definition group_hash :: "(string \<Rightarrow> string) \<Rightarrow> pyval \<Rightarrow> string" where
  "group_hash sha v = sha (json_dumps v)"

text \<open>\<open>GroupPlan.__post_init__\<close>: the plan is frozen and bound to its inventory by the hash.\<close>

definition make_plan :: "(string \<Rightarrow> string) \<Rightarrow> group_plan \<Rightarrow> group_plan res" where
  "make_plan sha p =
     (if list_ex (\<lambda>s. s = []) [pn_group p, pn_repo p, pn_run p, pn_root p, pn_key p] \<or> pn_generation p \<le> 0 \<or> pn_expires p \<le> 0
        \<or> \<not> is_sha (pn_hash p) \<or> pn_members p = [] \<or> (case pn_inventory p of None \<Rightarrow> False | Some h \<Rightarrow> \<not> is_sha h)
        \<or> count_where (\<lambda>m. mb_role m = ''parent'') (pn_members p) \<noteq> 1 \<or> \<not> distinct (map mb_slot (pn_members p))
      then group_refuse ''RESOURCE_GROUP_PLAN_INVALID''
      else if pn_hash p \<noteq> group_hash sha (inventory_record p) then group_refuse ''RESOURCE_GROUP_INVENTORY_HASH_INVALID''
      else Inr p)"

definition make_binding :: "launch_binding \<Rightarrow> launch_binding res" where
  "make_binding b =
     (if list_ex (\<lambda>s. s = []) [lb_repo b, lb_run b, lb_key b, lb_intent b] \<or> lb_generation b \<le> 0
      then group_refuse ''RESOURCE_GROUP_BINDING_INVALID'' else Inr b)"

definition binding_lease :: "launch_binding \<Rightarrow> lease" where
  "binding_lease b = \<lparr>le_repo = lb_repo b, le_run = lb_run b, le_key = lb_key b, le_intent = Some (lb_intent b),
     le_generation = lb_generation b, le_supervisor = lb_supervisor b, le_consumer = lb_consumer b\<rparr>"

section \<open>Tables\<close>

record group_row =
  gp_id :: string
  gp_plan :: pyval
  gp_hash :: string
  gp_state :: string
  gp_age :: int
  gp_expires :: int
  gp_parent :: "launch_binding option"
  gp_proof :: "string option"

record slot_row =
  sl_group :: string
  sl_slot :: string
  sl_role :: string
  sl_sequence :: int
  sl_ticket :: string
  sl_owner :: ident
  sl_demand :: pyval
  sl_state :: string
  sl_binding :: "launch_binding option"
  sl_launched :: bool

record claim_row =
  cl_group :: string
  cl_key :: string
  cl_binding :: launch_binding
  cl_demand :: pyval
  cl_slot :: string
  cl_state :: string

record groups =
  gd_queue :: registry
  gd_groups :: "group_row list"
  gd_slots :: "slot_row list"
  gd_claims :: "claim_row list"

definition empty_groups :: groups where
  "empty_groups = \<lparr>gd_queue = empty_registry, gd_groups = [], gd_slots = [], gd_claims = []\<rparr>"

record group_reader =
  gr_native :: "ident \<Rightarrow> liveness option"
  gr_authorized :: "lease \<Rightarrow> bool"
  gr_forked :: "(lease \<Rightarrow> bool option) option"

record reservation_result =
  rv_group :: string
  rv_tickets :: "(string \<times> ticket) list"
  rv_state :: string

record child_claim =
  cc_group :: string
  cc_slot :: string
  cc_binding :: launch_binding
  cc_demand :: demand

type_synonym 'a gtx = "groups \<Rightarrow> ('a \<times> groups) res"

definition groups_transaction :: "'a gtx \<Rightarrow> groups \<Rightarrow> 'a res \<times> groups" where
  "groups_transaction body d = (case body d of Inl e \<Rightarrow> (Inl e, d) | Inr (x, d') \<Rightarrow> (Inr x, d'))"

text \<open>A call of the queue, and what its unique constraints raise.\<close>

definition in_queue :: "(registry \<Rightarrow> 'a res \<times> registry) \<Rightarrow> groups \<Rightarrow> 'a res \<times> groups" where
  "in_queue f d = (case f (gd_queue d) of (r, q) \<Rightarrow> (r, d\<lparr>gd_queue := q\<rparr>))"

abbreviation integrity_error :: "'a res" where
  "integrity_error \<equiv> admission_refuse ''MANAGED_ADMISSION_STORE_UNAVAILABLE''"

definition group_of :: "string \<Rightarrow> groups \<Rightarrow> group_row option" where
  "group_of g d = List.find (\<lambda>r. gp_id r = g) (gd_groups d)"

definition update_group :: "string \<Rightarrow> (group_row \<Rightarrow> group_row) \<Rightarrow> groups \<Rightarrow> groups" where
  "update_group g f d = d\<lparr>gd_groups := update_where (\<lambda>r. gp_id r = g) f (gd_groups d)\<rparr>"

definition slots_of :: "string \<Rightarrow> groups \<Rightarrow> slot_row list" where
  "slots_of g d = filter (\<lambda>s. sl_group s = g) (gd_slots d)"

definition slot_ticket :: "slot_row \<Rightarrow> ticket" where
  "slot_ticket s = \<lparr>tt_sequence = sl_sequence s, tt_ticket = sl_ticket s, tt_owner = sl_owner s\<rparr>"

text \<open>The join of the slots of a group with their admissions.\<close>

definition joined :: "string \<Rightarrow> groups \<Rightarrow> (slot_row \<times> admission) list" where
  "joined g d = concat (map (\<lambda>s. map (Pair s)
     (filter (\<lambda>m. ma_sequence m = sl_sequence s \<and> ma_ticket m = sl_ticket s) (rg_rows (gd_queue d)))) (slots_of g d))"

definition active_slots :: "string \<Rightarrow> groups \<Rightarrow> nat" where
  "active_slots g d = count_where (\<lambda>(s, m). ma_status m = ''active'') (joined g d)"

text \<open>\<open>_stored_plan\<close>\<close>

definition stored_plan :: "group_plan \<Rightarrow> groups \<Rightarrow> unit res" where
  "stored_plan p d =
     (case group_of (pn_group p) d of
        None \<Rightarrow> group_refuse ''RESOURCE_GROUP_PLAN_CONFLICT''
      | Some g \<Rightarrow> if gp_plan g \<noteq> inventory_record p \<or> gp_hash g \<noteq> pn_hash p then group_refuse ''RESOURCE_GROUP_PLAN_CONFLICT'' else Inr ())"

text \<open>\<open>_reservation\<close>\<close>

definition reservation_of :: "group_plan \<Rightarrow> groups \<Rightarrow> reservation_result option res" where
  "reservation_of p d =
     (case group_of (pn_group p) d of
        None \<Rightarrow> Inr None
      | Some g \<Rightarrow>
          if gp_plan g \<noteq> inventory_record p \<or> gp_hash g \<noteq> pn_hash p then group_refuse ''RESOURCE_GROUP_PLAN_CONFLICT''
          else Inr (Some \<lparr>rv_group = pn_group p, rv_tickets = map (\<lambda>s. (sl_slot s, slot_ticket s)) (slots_of (pn_group p) d),
            rv_state = gp_state g\<rparr>))"

section \<open>Reserving a group\<close>

definition member_request :: "group_plan \<Rightarrow> group_member \<Rightarrow> enqueue_request" where
  "member_request p m = \<lparr>eq_root = pn_root p, eq_run = pn_run p, eq_repo = pn_repo p,
     eq_key = (if mb_role m = ''parent'' then pn_key p else ''parent-group:'' @ pn_group p @ '':'' @ mb_slot m),
     eq_generation = pn_generation p, eq_demand = Some (mb_demand m), eq_group = Some (pn_group p),
     eq_width = int (length (pn_members p)), eq_intent = None\<rparr>"

definition stage_tx :: "queue_env \<Rightarrow> group_plan \<Rightarrow> unit gtx" where
  "stage_tx e p d =
     (if group_of (pn_group p) d \<noteq> None then integrity_error
      else Inr ((), d\<lparr>gd_groups := gd_groups d @ [\<lparr>gp_id = pn_group p, gp_plan = inventory_record p, gp_hash = pn_hash p, gp_state = ''staging'',
        gp_age = qe_now e 0, gp_expires = pn_expires p, gp_parent = None, gp_proof = None\<rparr>]\<rparr>))"

text \<open>
  The tickets enqueued so far are the second result, for the cleanup. \<open>fresh\<close> gives the fresh ticket
  of the \<open>n\<close>-th enqueue; the calls of one reserve share the other samples of \<open>e\<close>.
\<close>

fun enqueue_members ::
  "queue_env \<Rightarrow> (nat \<Rightarrow> string) \<Rightarrow> nat \<Rightarrow> group_plan \<Rightarrow> group_member list \<Rightarrow> (string \<times> ticket) list \<Rightarrow> groups
     \<Rightarrow> (unit res \<times> (string \<times> ticket) list) \<times> groups"
where
  "enqueue_members e fresh n p [] ts d = ((Inr (), ts), d)"
| "enqueue_members e fresh n p (m # ms) ts d =
     (case in_queue (enqueue (e\<lparr>qe_fresh := fresh n\<rparr>) (member_request p m)) d of
        (Inl x, d') \<Rightarrow> ((Inl x, ts), d')
      | (Inr t, d') \<Rightarrow> enqueue_members e fresh (Suc n) p ms (ts @ [(mb_slot m, t)]) d')"

definition new_slot :: "group_plan \<Rightarrow> group_member \<Rightarrow> ticket \<Rightarrow> slot_row" where
  "new_slot p m t = \<lparr>sl_group = pn_group p, sl_slot = mb_slot m, sl_role = mb_role m, sl_sequence = tt_sequence t,
     sl_ticket = tt_ticket t, sl_owner = tt_owner t, sl_demand = demand_record (mb_demand m), sl_state = ''reserved'',
     sl_binding = None, sl_launched = False\<rparr>"

text \<open>\<open>ON CONFLICT(group_id,slot_id) DO NOTHING\<close>; the ticket columns are unique over all groups.\<close>

definition insert_slot :: "slot_row \<Rightarrow> unit gtx" where
  "insert_slot s d =
     (if list_ex (\<lambda>x. sl_group x = sl_group s \<and> sl_slot x = sl_slot s) (gd_slots d) then Inr ((), d)
      else if list_ex (\<lambda>x. sl_sequence x = sl_sequence s \<and> sl_ticket x = sl_ticket s) (gd_slots d) then integrity_error
      else Inr ((), d\<lparr>gd_slots := gd_slots d @ [s],
        gd_queue := (gd_queue d)\<lparr>rg_prepaid := rg_prepaid (gd_queue d) @ [(sl_sequence s, sl_ticket s)]\<rparr>\<rparr>))"

definition ticket_of :: "(string \<times> ticket) list \<Rightarrow> string \<Rightarrow> ticket" where
  "ticket_of ts k = the (map_of ts k)"

fun insert_slots_tx :: "group_plan \<Rightarrow> (string \<times> ticket) list \<Rightarrow> group_member list \<Rightarrow> unit gtx" where
  "insert_slots_tx p ts [] d = Inr ((), d)"
| "insert_slots_tx p ts (m # ms) d = bindR (insert_slot (new_slot p m (ticket_of ts (mb_slot m))) d) (\<lambda>(_, d'). insert_slots_tx p ts ms d')"

text \<open>The cleanup: a refused release is passed over.\<close>

fun release_staged :: "queue_env \<Rightarrow> (string \<times> ticket) list \<Rightarrow> groups \<Rightarrow> groups" where
  "release_staged e [] d = d"
| "release_staged e (kt # ts) d = release_staged e ts (snd (in_queue (release_lease e (snd kt) (gd_queue d)) d))"

definition confirm_tx :: "group_plan \<Rightarrow> unit gtx" where
  "confirm_tx p d =
     (if active_slots (pn_group p) d \<noteq> length (pn_members p) then group_refuse ''RESOURCE_GROUP_ADMISSION_UNCERTAIN''
      else Inr ((), d\<lparr>gd_groups := update_where (\<lambda>r. gp_id r = pn_group p \<and> gp_state r = ''staging'') (\<lambda>r. r\<lparr>gp_state := ''reserved''\<rparr>)
        (gd_groups d)\<rparr>))"

definition confirm_slots_tx :: "group_plan \<Rightarrow> (string \<times> ticket) list \<Rightarrow> unit gtx" where
  "confirm_slots_tx p ts d =
     (let rows = slots_of (pn_group p) d in
      if length rows \<noteq> length (pn_members p)
        \<or> list_ex (\<lambda>s. case map_of ts (sl_slot s) of None \<Rightarrow> True
            | Some t \<Rightarrow> tt_sequence t \<noteq> sl_sequence s \<or> tt_ticket t \<noteq> sl_ticket s) rows
      then group_refuse ''RESOURCE_GROUP_CAS_FAILED'' else confirm_tx p d)"

definition parent_member :: "group_plan \<Rightarrow> group_member" where
  "parent_member p = the (List.find (\<lambda>m. mb_role m = ''parent'') (pn_members p))"

text \<open>The measured admission of the whole group, and its confirmation.\<close>

definition admit_group ::
  "queue_env \<Rightarrow> (string \<Rightarrow> lease \<Rightarrow> fenced_record option) \<Rightarrow> observation option \<Rightarrow> group_plan \<Rightarrow> (string \<times> ticket) list
     \<Rightarrow> unit gtx \<Rightarrow> groups \<Rightarrow> reservation_result res \<times> groups"
where
  "admit_group e reader obs p ts confirm d =
     (let result = (\<lambda>st. \<lparr>rv_group = pn_group p, rv_tickets = ts, rv_state = st\<rparr>) in
      case in_queue (try_admit e reader obs (ticket_of ts (mb_slot (parent_member p)))) d of
        (Inl x, d1) \<Rightarrow> (Inl x, d1)
      | (Inr ok, d1) \<Rightarrow>
          if \<not> ok then (Inr (result ''staging''), d1)
          else case groups_transaction confirm d1 of
            (Inl x, d2) \<Rightarrow> (Inl x, d2)
          | (Inr _, d2) \<Rightarrow> (Inr (result ''reserved''), d2))"

definition reserve_members ::
  "queue_env \<Rightarrow> (nat \<Rightarrow> string) \<Rightarrow> (string \<Rightarrow> lease \<Rightarrow> fenced_record option) \<Rightarrow> observation option \<Rightarrow> group_plan \<Rightarrow> groups
     \<Rightarrow> reservation_result res \<times> groups"
where
  "reserve_members e fresh reader obs p d =
     (case enqueue_members e fresh 0 p (pn_members p) [] d of
        ((Inl x, ts), d1) \<Rightarrow> (Inl x, release_staged e ts d1)
      | ((Inr _, ts), d1) \<Rightarrow>
          (case groups_transaction (insert_slots_tx p ts (pn_members p)) d1 of
             (Inl x, d2) \<Rightarrow> (Inl x, release_staged e ts d2)
           | (Inr _, d2) \<Rightarrow> admit_group e reader obs p ts (confirm_slots_tx p ts) d2))"

definition reserve_group ::
  "queue_env \<Rightarrow> (nat \<Rightarrow> string) \<Rightarrow> (string \<Rightarrow> lease \<Rightarrow> fenced_record option) \<Rightarrow> observation option \<Rightarrow> group_plan \<Rightarrow> groups
     \<Rightarrow> reservation_result res \<times> groups"
where
  "reserve_group e fresh reader obs p d =
     (case reservation_of p d of
        Inl x \<Rightarrow> (Inl x, d)
      | Inr (Some rv) \<Rightarrow>
          if rv_state rv = ''expired'' then (group_refuse ''RESOURCE_GROUP_STAGING_EXPIRED'', d)
          else if rv_state rv = ''reserved'' then
            (if active_slots (pn_group p) d \<noteq> length (pn_members p)
             then group_refuse ''RESOURCE_GROUP_ADMISSION_UNCERTAIN'' else Inr rv, d)
          else if rv_state rv \<noteq> ''staging'' then (group_refuse ''RESOURCE_GROUP_NOT_AVAILABLE'', d)
          else reserve_members e fresh reader obs p d
      | Inr None \<Rightarrow>
          (case groups_transaction (stage_tx e p) d of
             (Inl x, d1) \<Rightarrow> (Inl x, d1)
           | (Inr _, d1) \<Rightarrow> reserve_members e fresh reader obs p d1))"

section \<open>The parent launch\<close>

definition hold_tx :: "ident \<Rightarrow> group_plan \<Rightarrow> unit gtx" where
  "hold_tx owner p d =
     bindR (stored_plan p d) (\<lambda>_.
     if (case group_of (pn_group p) d of None \<Rightarrow> True | Some g \<Rightarrow> gp_state g \<noteq> ''reserved'')
       \<or> active_slots (pn_group p) d \<noteq> length (pn_members p)
     then group_refuse ''RESOURCE_GROUP_NOT_AVAILABLE''
     else if list_ex (\<lambda>s. sl_owner s \<noteq> owner) (slots_of (pn_group p) d) then group_refuse ''RESOURCE_GROUP_BINDING_MISMATCH''
     else Inr ((), d\<lparr>gd_slots := update_where (\<lambda>s. sl_group s = pn_group p \<and> sl_role s = ''parent'') (\<lambda>s. s\<lparr>sl_launched := True\<rparr>)
       (gd_slots d)\<rparr>))"

definition hold_parent_launch :: "queue_env \<Rightarrow> group_plan \<Rightarrow> groups \<Rightarrow> unit res \<times> groups" where
  "hold_parent_launch e p d =
     (case own_identity e None of Inl x \<Rightarrow> (Inl x, d) | Inr owner \<Rightarrow> groups_transaction (hold_tx owner p) d)"

definition ensure_binding :: "group_plan \<Rightarrow> launch_binding \<Rightarrow> bool \<Rightarrow> unit res" where
  "ensure_binding p b parent =
     (if (lb_repo b, lb_run b, lb_generation b) \<noteq> (pn_repo p, pn_run p, pn_generation p) \<or> (parent \<and> lb_key b \<noteq> pn_key p)
      then group_refuse ''RESOURCE_GROUP_BINDING_MISMATCH'' else Inr ())"

definition set_parent_binding :: "launch_binding \<Rightarrow> group_row \<Rightarrow> group_row" where
  "set_parent_binding b r = r\<lparr>gp_parent := Some b\<rparr>"

text \<open>The unique index on the bindings of a group.\<close>

definition binding_taken :: "string \<Rightarrow> string \<Rightarrow> launch_binding \<Rightarrow> groups \<Rightarrow> bool" where
  "binding_taken g k b d = list_ex (\<lambda>s. sl_group s = g \<and> sl_slot s \<noteq> k \<and> sl_binding s = Some b) (gd_slots d)"

text \<open>The update of the slot with its compare-and-set.\<close>

definition bind_slot :: "string \<Rightarrow> string \<Rightarrow> (slot_row \<Rightarrow> bool) \<Rightarrow> launch_binding \<Rightarrow> (slot_row \<Rightarrow> slot_row) \<Rightarrow> unit gtx" where
  "bind_slot g k P b f d =
     (let hit = (\<lambda>s. sl_group s = g \<and> sl_slot s = k \<and> P s) in
      if count_where hit (gd_slots d) \<noteq> 0 \<and> binding_taken g k b d then integrity_error
      else if count_where hit (gd_slots d) \<noteq> 1 then group_refuse ''RESOURCE_GROUP_CAS_FAILED''
      else Inr ((), d\<lparr>gd_slots := update_where hit (\<lambda>s. (f s)\<lparr>sl_binding := Some b\<rparr>) (gd_slots d)\<rparr>))"

definition free_slot :: "slot_row \<Rightarrow> bool" where
  "free_slot s = (sl_state s = ''reserved'' \<and> sl_binding s = None)"

definition claimed_by :: "launch_binding \<Rightarrow> slot_row \<Rightarrow> bool" where
  "claimed_by b s = (sl_state s = ''claimed'' \<and> sl_binding s = Some b)"

definition take_slot :: "slot_row \<Rightarrow> slot_row" where
  "take_slot s = s\<lparr>sl_state := ''claimed'', sl_launched := True\<rparr>"

definition rebind_parent_tx :: "group_plan \<Rightarrow> launch_binding \<Rightarrow> launch_binding \<Rightarrow> unit gtx" where
  "rebind_parent_tx p previous b d =
     bindR (stored_plan p d) (\<lambda>_.
     bindR (bind_slot (pn_group p) ''parent'' (claimed_by previous) b id d) (\<lambda>(_, d').
     Inr ((), update_group (pn_group p) (set_parent_binding b) d')))"

definition claim_parent_tx :: "group_plan \<Rightarrow> launch_binding \<Rightarrow> unit gtx" where
  "claim_parent_tx p b d =
     bindR (stored_plan p d) (\<lambda>_.
     if active_slots (pn_group p) d \<noteq> length (pn_members p) then group_refuse ''RESOURCE_GROUP_CAS_FAILED''
     else bindR (bind_slot (pn_group p) ''parent'' free_slot b take_slot d) (\<lambda>(_, d').
     Inr ((), d'\<lparr>gd_groups := update_where (\<lambda>r. gp_id r = pn_group p \<and> gp_state r = ''reserved'') (set_parent_binding b) (gd_groups d')\<rparr>)))"

definition bind_then :: "queue_env \<Rightarrow> ticket \<Rightarrow> launch_binding \<Rightarrow> unit gtx \<Rightarrow> groups \<Rightarrow> ticket res \<times> groups" where
  "bind_then e t b body d =
     (case in_queue (bind_consumer e t (binding_lease b)) d of
        (Inl x, d1) \<Rightarrow> (Inl x, d1)
      | (Inr _, d1) \<Rightarrow> (case groups_transaction body d1 of (Inl x, d2) \<Rightarrow> (Inl x, d2) | (Inr _, d2) \<Rightarrow> (Inr t, d2)))"

text \<open>\<open>seen\<close> is what the read before the queue call saw.\<close>

definition claim_parent :: "queue_env \<Rightarrow> group_plan \<Rightarrow> launch_binding \<Rightarrow> groups \<Rightarrow> groups \<Rightarrow> ticket res \<times> groups" where
  "claim_parent e p b seen d =
     (case bindR (ensure_binding p b True) (\<lambda>_. stored_plan p seen) of
        Inl x \<Rightarrow> (Inl x, d)
      | Inr _ \<Rightarrow>
          (case (group_of (pn_group p) seen, List.find (\<lambda>s. sl_group s = pn_group p \<and> sl_slot s = ''parent'') (gd_slots seen)) of
             (Some g, Some s) \<Rightarrow>
               if gp_state g \<noteq> ''reserved'' \<or> active_slots (pn_group p) seen \<noteq> length (pn_members p)
               then (group_refuse ''RESOURCE_GROUP_NOT_AVAILABLE'', d)
               else if sl_state s = ''claimed'' then
                 (if sl_binding s = Some b then (Inr (slot_ticket s), d)
                  else case sl_binding s of
                    None \<Rightarrow> (group_refuse ''RESOURCE_GROUP_RECORD_INVALID'', d)
                  | Some previous \<Rightarrow>
                      if lb_consumer previous = None \<and> lb_consumer b \<noteq> None \<and> previous\<lparr>lb_consumer := lb_consumer b\<rparr> = b
                      then bind_then e (slot_ticket s) b (rebind_parent_tx p previous b) d
                      else (group_refuse ''RESOURCE_GROUP_BINDING_MISMATCH'', d))
               else if sl_owner s \<noteq> lb_supervisor b then (group_refuse ''RESOURCE_GROUP_BINDING_MISMATCH'', d)
               else bind_then e (slot_ticket s) b (claim_parent_tx p b) d
           | _ \<Rightarrow> (group_refuse ''RESOURCE_GROUP_NOT_AVAILABLE'', d)))"

section \<open>Children\<close>

text \<open>\<open>_compatible\<close>\<close>

definition compatible :: "demand \<Rightarrow> demand \<Rightarrow> bool" where
  "compatible x cap = (dm_provider x = dm_provider cap \<and> dm_units x \<le> dm_units cap
     \<and> list_all (\<lambda>k. demand_of x k \<le> demand_of cap k) resource_names)"

definition claim_of :: "string \<Rightarrow> string \<Rightarrow> groups \<Rightarrow> claim_row option" where
  "claim_of g k d = List.find (\<lambda>c. cl_group c = g \<and> cl_key c = k) (gd_claims d)"

text \<open>The first free slot in the order of the slot ids that can carry the demand.\<close>

fun free_child_slot :: "ident \<Rightarrow> demand \<Rightarrow> slot_row list \<Rightarrow> slot_row option res" where
  "free_child_slot owner x [] = Inr None"
| "free_child_slot owner x (s # ss) =
     (if sl_owner s \<noteq> owner then group_refuse ''RESOURCE_GROUP_BINDING_MISMATCH''
      else bindR (demand_from_record (sl_demand s)) (\<lambda>cap.
        if compatible x cap \<and> sl_binding s = None then Inr (Some s) else free_child_slot owner x ss))"

definition child_slots :: "string \<Rightarrow> groups \<Rightarrow> slot_row list" where
  "child_slots g d = sort_key sl_slot (filter (\<lambda>s. sl_role s = ''child'' \<and> sl_state s = ''reserved'') (slots_of g d))"

definition claim_child_tx :: "group_plan \<Rightarrow> launch_binding \<Rightarrow> demand \<Rightarrow> child_claim gtx" where
  "claim_child_tx p b x d =
     bindR (stored_plan p d) (\<lambda>_.
     if (case group_of (pn_group p) d of None \<Rightarrow> True | Some g \<Rightarrow> gp_state g \<noteq> ''reserved'')
     then group_refuse ''RESOURCE_GROUP_NOT_AVAILABLE''
     else case claim_of (pn_group p) (lb_key b) d of
       Some c \<Rightarrow>
         if cl_state c = ''active'' \<and> cl_binding c = b \<and> cl_demand c = demand_record x
         then Inr (\<lparr>cc_group = pn_group p, cc_slot = cl_slot c, cc_binding = b, cc_demand = x\<rparr>, d)
         else group_refuse ''RESOURCE_GROUP_BINDING_MISMATCH''
     | None \<Rightarrow>
         bindR (free_child_slot (lb_supervisor b) x (child_slots (pn_group p) d)) (\<lambda>found.
         case found of
           None \<Rightarrow> group_refuse ''RESOURCE_GROUP_SLOT_UNAVAILABLE''
         | Some s \<Rightarrow>
             bindR (bind_slot (pn_group p) (sl_slot s) free_slot b take_slot d) (\<lambda>(_, d').
             Inr (\<lparr>cc_group = pn_group p, cc_slot = sl_slot s, cc_binding = b, cc_demand = x\<rparr>,
               d'\<lparr>gd_claims := gd_claims d' @ [\<lparr>cl_group = pn_group p, cl_key = lb_key b, cl_binding = b,
                 cl_demand = demand_record x, cl_slot = sl_slot s, cl_state = ''active''\<rparr>]\<rparr>))))"

definition claim_child :: "group_plan \<Rightarrow> launch_binding \<Rightarrow> demand \<Rightarrow> groups \<Rightarrow> child_claim res \<times> groups" where
  "claim_child p b x d =
     (case ensure_binding p b False of Inl e \<Rightarrow> (Inl e, d) | Inr _ \<Rightarrow> groups_transaction (claim_child_tx p b x) d)"

definition bind_child_tx :: "group_plan \<Rightarrow> child_claim \<Rightarrow> launch_binding \<Rightarrow> child_claim gtx" where
  "bind_child_tx p c b d =
     bindR (stored_plan p d) (\<lambda>_.
     let out = \<lparr>cc_group = pn_group p, cc_slot = cc_slot c, cc_binding = b, cc_demand = cc_demand c\<rparr> in
     case claim_of (pn_group p) (lb_key (cc_binding c)) d of
       None \<Rightarrow> group_refuse ''RESOURCE_GROUP_BINDING_MISMATCH''
     | Some r \<Rightarrow>
         if cl_state r \<noteq> ''active'' \<or> cl_demand r \<noteq> demand_record (cc_demand c) then group_refuse ''RESOURCE_GROUP_BINDING_MISMATCH''
         else if cl_binding r = b then Inr (out, d)
         else if cl_binding r \<noteq> cc_binding c then group_refuse ''RESOURCE_GROUP_BINDING_MISMATCH''
         else bindR (bind_slot (pn_group p) (cc_slot c) (claimed_by (cc_binding c)) b id d) (\<lambda>(_, d').
           Inr (out, d'\<lparr>gd_claims := update_where (\<lambda>x. cl_group x = pn_group p \<and> cl_key x = lb_key (cc_binding c))
             (\<lambda>x. x\<lparr>cl_binding := b\<rparr>) (gd_claims d')\<rparr>)))"

definition bind_child_consumer :: "group_plan \<Rightarrow> child_claim \<Rightarrow> ident \<Rightarrow> groups \<Rightarrow> child_claim res \<times> groups" where
  "bind_child_consumer p c consumer d =
     (if cc_group c \<noteq> pn_group p \<or> lb_consumer (cc_binding c) \<noteq> None then (group_refuse ''RESOURCE_GROUP_BINDING_INVALID'', d)
      else groups_transaction (bind_child_tx p c ((cc_binding c)\<lparr>lb_consumer := Some consumer\<rparr>)) d)"

text \<open>\<open>_native_state\<close>, \<open>_consumer_gone\<close>\<close>

definition native_state :: "group_reader \<Rightarrow> ident \<Rightarrow> liveness res" where
  "native_state rd i = (case gr_native rd i of None \<Rightarrow> group_refuse ''RESOURCE_GROUP_NATIVE_PROBE_UNKNOWN'' | Some l \<Rightarrow> Inr l)"

definition consumer_gone :: "group_reader \<Rightarrow> launch_binding \<Rightarrow> bool res" where
  "consumer_gone rd b =
     (case lb_consumer b of
        Some c \<Rightarrow> bindR (native_state rd c) (\<lambda>l. Inr (l = DEAD))
      | None \<Rightarrow>
          (case gr_forked rd of
             None \<Rightarrow> Inr False
           | Some prove \<Rightarrow> (case prove (binding_lease b) of
               None \<Rightarrow> group_refuse ''RESOURCE_GROUP_NATIVE_PROBE_UNKNOWN'' | Some x \<Rightarrow> Inr x)))"

definition finish_child_tx :: "group_plan \<Rightarrow> child_claim \<Rightarrow> unit gtx" where
  "finish_child_tx p c d =
     bindR (stored_plan p d) (\<lambda>_.
     let done = (case claim_of (cc_group c) (lb_key (cc_binding c)) d of
           None \<Rightarrow> False
         | Some r \<Rightarrow> cl_state r = ''finished'' \<and> cl_binding r = cc_binding c \<and> cl_demand r = demand_record (cc_demand c));
       hit = (\<lambda>s. sl_group s = cc_group c \<and> sl_slot s = cc_slot c \<and> sl_role s = ''child'' \<and> claimed_by (cc_binding c) s) in
     if done then Inr ((), d)
     else if count_where hit (gd_slots d) \<noteq> 1 then group_refuse ''RESOURCE_GROUP_BINDING_MISMATCH''
     else Inr ((), d\<lparr>gd_slots := update_where hit (\<lambda>s. s\<lparr>sl_state := ''reserved'', sl_binding := None\<rparr>) (gd_slots d),
       gd_claims := update_where (\<lambda>x. cl_group x = cc_group c \<and> cl_key x = lb_key (cc_binding c) \<and> cl_binding x = cc_binding c
         \<and> cl_state x = ''active'') (\<lambda>x. x\<lparr>cl_state := ''finished''\<rparr>) (gd_claims d)\<rparr>))"

definition finish_child :: "group_reader \<Rightarrow> group_plan \<Rightarrow> child_claim \<Rightarrow> groups \<Rightarrow> unit res \<times> groups" where
  "finish_child rd p c d =
     (case (if pn_group p \<noteq> cc_group c then Inr False else consumer_gone rd (cc_binding c)) of
        Inl x \<Rightarrow> (Inl x, d)
      | Inr gone \<Rightarrow> if \<not> gone then (group_refuse ''RESOURCE_GROUP_CHILD_RETAINED'', d)
          else groups_transaction (finish_child_tx p c) d)"

section \<open>The end of a group\<close>

definition parent_ended_tx :: "group_plan \<Rightarrow> launch_binding \<Rightarrow> string \<Rightarrow> unit gtx" where
  "parent_ended_tx p b proof_sha d =
     bindR (stored_plan p d) (\<lambda>_.
     let hit = (\<lambda>r. gp_id r = pn_group p \<and> gp_state r = ''reserved'' \<and> gp_parent r = Some b) in
     if count_where hit (gd_groups d) \<noteq> 1 then group_refuse ''RESOURCE_GROUP_PARENT_PROOF_INVALID''
     else Inr ((), d\<lparr>gd_groups := update_where hit (\<lambda>r. r\<lparr>gp_state := ''parent_ended'', gp_proof := Some proof_sha\<rparr>) (gd_groups d)\<rparr>))"

definition mark_parent_ended :: "group_reader \<Rightarrow> group_plan \<Rightarrow> launch_binding \<Rightarrow> string \<Rightarrow> groups \<Rightarrow> unit res \<times> groups" where
  "mark_parent_ended rd p b proof_sha d =
     (case bindR (ensure_binding p b True) (\<lambda>_.
        if \<not> is_sha proof_sha then group_refuse ''RESOURCE_GROUP_PARENT_PROOF_INVALID''
        else bindR (consumer_gone rd b) (\<lambda>gone. if gone then Inr () else group_refuse ''RESOURCE_GROUP_PARENT_RETAINED'')) of
        Inl x \<Rightarrow> (Inl x, d)
      | Inr _ \<Rightarrow> groups_transaction (parent_ended_tx p b proof_sha) d)"

text \<open>The leases of the slots, each with its compare-and-set.\<close>

definition slot_open :: "slot_row \<Rightarrow> admission \<Rightarrow> bool" where
  "slot_open s r = (ma_sequence r = sl_sequence s \<and> ma_ticket r = sl_ticket s \<and> open_status r)"

fun release_slots :: "slot_row list \<Rightarrow> registry \<Rightarrow> registry res" where
  "release_slots [] q = Inr q"
| "release_slots (s # ss) q =
     (if count_where (slot_open s) (rg_rows q) \<noteq> 1 then group_refuse ''RESOURCE_GROUP_CAS_FAILED''
      else release_slots ss (update_rows (slot_open s) (\<lambda>r. r\<lparr>ma_status := ''released''\<rparr>) q))"

definition settle_group :: "group_plan \<Rightarrow> (group_row \<Rightarrow> group_row) \<Rightarrow> unit gtx" where
  "settle_group p f d =
     bindR (release_slots (slots_of (pn_group p) d) (gd_queue d)) (\<lambda>q. Inr ((), update_group (pn_group p) f (d\<lparr>gd_queue := q\<rparr>)))"

definition parent_slot :: "string \<Rightarrow> groups \<Rightarrow> slot_row option" where
  "parent_slot g d = List.find (\<lambda>s. sl_group s = g \<and> sl_role s = ''parent'') (gd_slots d)"

definition close_tx :: "group_plan \<Rightarrow> unit gtx" where
  "close_tx p d =
     bindR (stored_plan p d) (\<lambda>_.
     case group_of (pn_group p) d of
       None \<Rightarrow> group_refuse ''RESOURCE_GROUP_PARENT_PROOF_INVALID''
     | Some g \<Rightarrow>
         if gp_state g \<noteq> ''parent_ended'' \<or> gp_proof g = None \<or> gp_proof g = Some [] then group_refuse ''RESOURCE_GROUP_PARENT_PROOF_INVALID''
         else if (case parent_slot (pn_group p) d of None \<Rightarrow> True | Some s \<Rightarrow> sl_binding s \<noteq> gp_parent g)
         then group_refuse ''RESOURCE_GROUP_CAS_FAILED''
         else if list_ex (\<lambda>s. sl_role s = ''child'' \<and> sl_state s = ''claimed'') (slots_of (pn_group p) d)
         then group_refuse ''RESOURCE_GROUP_CHILD_RETAINED''
         else settle_group p (\<lambda>r. r\<lparr>gp_state := ''closed''\<rparr>) d)"

definition close_after_parent_end :: "group_reader \<Rightarrow> group_plan \<Rightarrow> groups \<Rightarrow> groups \<Rightarrow> unit res \<times> groups" where
  "close_after_parent_end rd p seen d =
     (case bindR (stored_plan p seen) (\<lambda>_.
        case (case parent_slot (pn_group p) seen of None \<Rightarrow> None | Some s \<Rightarrow> sl_binding s) of
          None \<Rightarrow> group_refuse ''RESOURCE_GROUP_PARENT_PROOF_INVALID''
        | Some b \<Rightarrow> bindR (consumer_gone rd b) (\<lambda>gone. if gone then Inr () else group_refuse ''RESOURCE_GROUP_PARENT_RETAINED'')) of
        Inl x \<Rightarrow> (Inl x, d)
      | Inr _ \<Rightarrow> groups_transaction (close_tx p) d)"

definition release_hold_tx :: "group_plan \<Rightarrow> string \<Rightarrow> nat \<Rightarrow> unit gtx" where
  "release_hold_tx p proof_sha owners d =
     bindR (stored_plan p d) (\<lambda>_.
     if (case group_of (pn_group p) d of None \<Rightarrow> True | Some g \<Rightarrow> gp_state g \<noteq> ''reserved'' \<or> gp_parent g \<noteq> None)
     then group_refuse ''RESOURCE_GROUP_NOT_AVAILABLE''
     else let rows = joined (pn_group p) d in
       if length rows \<noteq> length (pn_members p) \<or> length rows \<noteq> owners
         \<or> list_ex (\<lambda>(s, m). sl_state s \<noteq> ''reserved'' \<or> sl_binding s \<noteq> None \<or> ma_intent m \<noteq> None \<or> ma_child m \<noteq> None) rows
       then group_refuse ''RESOURCE_GROUP_MEMBER_RETAINED''
       else bindR (release_slots (map fst rows) (gd_queue d)) (\<lambda>q.
         Inr ((), update_group (pn_group p) (\<lambda>r. r\<lparr>gp_state := ''closed'', gp_proof := Some proof_sha\<rparr>) (d\<lparr>gd_queue := q\<rparr>))))"

text \<open>Some owner that is not proved gone; an unknown probe raises at the first owner it meets.\<close>

fun some_retained :: "group_reader \<Rightarrow> ident list \<Rightarrow> bool res" where
  "some_retained rd [] = Inr False"
| "some_retained rd (i # is) = bindR (native_state rd i) (\<lambda>l. if l \<noteq> DEAD then Inr True else some_retained rd is)"

definition release_unissued_hold ::
  "queue_env \<Rightarrow> group_reader \<Rightarrow> group_plan \<Rightarrow> string \<Rightarrow> ident option \<Rightarrow> groups \<Rightarrow> groups \<Rightarrow> unit res \<times> groups"
where
  "release_unissued_hold e rd p proof_sha live seen d =
     (if \<not> is_sha proof_sha then (group_refuse ''RESOURCE_GROUP_PARENT_PROOF_INVALID'', d)
      else let owners = map sl_owner (slots_of (pn_group p) seen) in
      case bindR (stored_plan p seen) (\<lambda>_.
        bindR (case live of
             None \<Rightarrow> Inr ()
           | Some i \<Rightarrow> if isl (own_identity e (Some i)) then group_refuse ''RESOURCE_GROUP_MEMBER_RETAINED'' else Inr ()) (\<lambda>_.
        if owners = [] then group_refuse ''RESOURCE_GROUP_MEMBER_RETAINED''
        else bindR (case live of Some i \<Rightarrow> Inr (list_ex (\<lambda>o'. o' \<noteq> i) owners) | None \<Rightarrow> some_retained rd owners) (\<lambda>kept.
          if kept then group_refuse ''RESOURCE_GROUP_MEMBER_RETAINED'' else Inr ()))) of
        Inl x \<Rightarrow> (Inl x, d)
      | Inr _ \<Rightarrow> groups_transaction (release_hold_tx p proof_sha (length owners)) d)"

definition owned_proof :: "(string \<Rightarrow> string) \<Rightarrow> ident \<Rightarrow> group_plan \<Rightarrow> string" where
  "owned_proof sha owner p = group_hash sha (PDict [(''group_id'', PStr (pn_group p)),
     (''live_owner'', PDict [(''host_id'', PStr (id_host owner)), (''boot_id'', PStr (id_boot owner)), (''pid'', PInt (id_pid owner)),
       (''start_token'', PStr (id_start owner))])])"

definition release_owned_hold ::
  "(string \<Rightarrow> string) \<Rightarrow> queue_env \<Rightarrow> group_reader \<Rightarrow> group_plan \<Rightarrow> groups \<Rightarrow> groups \<Rightarrow> unit res \<times> groups"
where
  "release_owned_hold sha e rd p seen d =
     (case own_identity e None of
        Inl x \<Rightarrow> (Inl x, d)
      | Inr owner \<Rightarrow> release_unissued_hold e rd p (owned_proof sha owner p) (Some owner) seen d)"

section \<open>Expiry\<close>

fun unlaunched_rows :: "group_reader \<Rightarrow> admission list \<Rightarrow> unit res" where
  "unlaunched_rows rd [] = Inr ()"
| "unlaunched_rows rd (m # ms) =
     (if ma_child m \<noteq> None then group_refuse ''RESOURCE_GROUP_MEMBER_RETAINED''
      else if ma_intent m \<noteq> None \<and> \<not> valid_lease (row_lease m) then admission_refuse ''LEASE_IDENTITY_INVALID''
      else if ma_intent m \<noteq> None \<and> \<not> gr_authorized rd (row_lease m) then group_refuse ''RESOURCE_GROUP_PRELAUNCH_PROOF_REQUIRED''
      else unlaunched_rows rd ms)"

definition ever_launched :: "group_plan \<Rightarrow> groups \<Rightarrow> bool" where
  "ever_launched p d = list_ex sl_launched (slots_of (pn_group p) d)"

definition expire_tx :: "group_plan \<Rightarrow> int \<Rightarrow> bool gtx" where
  "expire_tx p now d =
     bindR (stored_plan p d) (\<lambda>_.
     case group_of (pn_group p) d of
       None \<Rightarrow> Inr (False, d)
     | Some g \<Rightarrow>
         if gp_state g \<notin> set [''staging'', ''reserved''] then Inr (False, d)
         else if list_ex (\<lambda>(s, m). ma_intent m \<noteq> None \<or> ma_child m \<noteq> None) (joined (pn_group p) d)
         then group_refuse ''RESOURCE_GROUP_MEMBER_RETAINED''
         else if now < gp_expires g \<or> ever_launched p d then Inr (False, d)
         else bindR (settle_group p (\<lambda>r. r\<lparr>gp_state := ''expired''\<rparr>) d) (\<lambda>(_, d'). Inr (True, d')))"

definition expire_staging :: "group_reader \<Rightarrow> group_plan \<Rightarrow> int \<Rightarrow> groups \<Rightarrow> groups \<Rightarrow> bool res \<times> groups" where
  "expire_staging rd p now seen d =
     (case bindR (stored_plan p seen) (\<lambda>_. unlaunched_rows rd (map snd (joined (pn_group p) seen))) of
        Inl x \<Rightarrow> (Inl x, d)
      | Inr _ \<Rightarrow> groups_transaction (expire_tx p now) d)"

definition slot_released :: "slot_row \<Rightarrow> admission \<Rightarrow> bool" where
  "slot_released s r = (ma_sequence r = sl_sequence s \<and> ma_ticket r = sl_ticket s \<and> ma_status r = ''released'')"

fun requeue_slots :: "int \<Rightarrow> slot_row list \<Rightarrow> registry \<Rightarrow> registry res" where
  "requeue_slots age [] q = Inr q"
| "requeue_slots age (s # ss) q =
     (if count_where (slot_released s) (rg_rows q) \<noteq> 1 then group_refuse ''RESOURCE_GROUP_CAS_FAILED''
      else requeue_slots age ss (update_rows (slot_released s) (\<lambda>r. r\<lparr>ma_status := ''waiting'', ma_age := age, ma_recheck := 0\<rparr>) q))"

definition retry_tx :: "queue_env \<Rightarrow> group_plan \<Rightarrow> (string \<times> ticket) list gtx" where
  "retry_tx e p d =
     bindR (stored_plan p d) (\<lambda>_.
     case group_of (pn_group p) d of
       None \<Rightarrow> group_refuse ''RESOURCE_GROUP_RETRY_INVALID''
     | Some g \<Rightarrow>
         if gp_state g \<noteq> ''expired'' \<or> ever_launched p d then group_refuse ''RESOURCE_GROUP_RETRY_INVALID''
         else let slots = sort_key sl_sequence (slots_of (pn_group p) d) in
           bindR (requeue_slots (gp_age g) slots (gd_queue d)) (\<lambda>q.
           Inr (map (\<lambda>s. (sl_slot s, slot_ticket s)) slots,
             update_group (pn_group p) (\<lambda>r. r\<lparr>gp_state := ''staging'', gp_expires := qe_now e 0 + 1000000000\<rparr>) (d\<lparr>gd_queue := q\<rparr>))))"

definition retry_expired_staging ::
  "queue_env \<Rightarrow> (string \<Rightarrow> lease \<Rightarrow> fenced_record option) \<Rightarrow> observation option \<Rightarrow> group_plan \<Rightarrow> groups \<Rightarrow> reservation_result res \<times> groups"
where
  "retry_expired_staging e reader obs p d =
     (case groups_transaction (retry_tx e p) d of
        (Inl x, d1) \<Rightarrow> (Inl x, d1)
      | (Inr ts, d1) \<Rightarrow> admit_group e reader obs p ts (confirm_tx p) d1)"

definition group_status :: "string \<Rightarrow> groups \<Rightarrow> (group_row \<times> slot_row list) res" where
  "group_status g d =
     (case group_of g d of
        None \<Rightarrow> group_refuse ''RESOURCE_GROUP_UNKNOWN''
      | Some r \<Rightarrow> Inr (r, sort_key sl_slot (slots_of g d)))"

end
