(* ===== verification/Prepaid_Safety.thy ===== *)
theory Prepaid_Safety
  imports Prepaid
begin

text \<open>
  The properties of the prepaid groups: every committed step of any process, the invariant that ties
  the claims of children to the slots that were paid for, and what the end of a group needs.
\<close>

section \<open>Steps\<close>

text \<open>
  The plans of the callers: one parent in the slot named for it, distinct slots, demands as
  constructed.
\<close>

definition plan_ok :: "group_plan \<Rightarrow> bool" where
  "plan_ok p = (distinct (map mb_slot (pn_members p)) \<and>
     (\<forall>m \<in> set (pn_members p). demand_ok (mb_demand m) \<and> (mb_role m = ''child'' \<longrightarrow> mb_slot m \<noteq> ''parent'')))"

inductive group_step :: "groups \<Rightarrow> groups \<Rightarrow> bool" where
  queue: "queue_step (gd_queue d) q \<Longrightarrow> group_step d (d\<lparr>gd_queue := q\<rparr>)"
| stage: "group_step d (snd (groups_transaction (stage_tx e p) d))"
| slots: "plan_ok p \<Longrightarrow> group_step d (snd (groups_transaction (insert_slots_tx p ts (pn_members p)) d))"
| confirm: "group_step d (snd (groups_transaction (confirm_tx p) d))"
| confirm_slots: "group_step d (snd (groups_transaction (confirm_slots_tx p ts) d))"
| hold: "group_step d (snd (hold_parent_launch e p d))"
| claim_parent: "group_step d (snd (groups_transaction (claim_parent_tx p b) d))"
| rebind_parent: "group_step d (snd (groups_transaction (rebind_parent_tx p b' b) d))"
| claim_child: "demand_ok x \<Longrightarrow> group_step d (snd (claim_child p b x d))"
| bind_child: "group_step d (snd (bind_child_consumer p c i d))"
| finish_child: "group_step d (snd (finish_child rd p c d))"
| parent_ended: "group_step d (snd (mark_parent_ended rd p b h d))"
| close: "group_step d (snd (close_after_parent_end rd p seen d))"
| release_hold: "group_step d (snd (release_unissued_hold e rd p h live seen d))"
| expire: "group_step d (snd (expire_staging rd p now seen d))"
| requeue: "group_step d (snd (groups_transaction (retry_tx e p) d))"

lemma groups_tx_cases:
  obtains "snd (groups_transaction body d) = d" | x d' where "body d = Inr (x, d')" "snd (groups_transaction body d) = d'"
  by (cases "body d") (auto simp: groups_transaction_def)

section \<open>Claims and slots\<close>

definition backed :: "slot_row list \<Rightarrow> claim_row \<Rightarrow> bool" where
  "backed ss c = (\<exists>s \<in> set ss. sl_group s = cl_group c \<and> sl_slot s = cl_slot c \<and> sl_role s = ''child'' \<and> claimed_by (cl_binding c) s \<and>
     (\<exists>x cap. demand_from_record (cl_demand c) = Inr x \<and> demand_from_record (sl_demand s) = Inr cap \<and> compatible x cap))"

definition bindings_unique :: "slot_row list \<Rightarrow> bool" where
  "bindings_unique ss = (\<forall>s \<in> set ss. \<forall>t \<in> set ss. sl_group s = sl_group t \<and> sl_binding s = sl_binding t \<and> sl_binding s \<noteq> None
     \<longrightarrow> sl_slot s = sl_slot t)"

definition slots_ok :: "slot_row list \<Rightarrow> claim_row list \<Rightarrow> bool" where
  "slots_ok ss cs = (distinct (map (\<lambda>s. (sl_group s, sl_slot s)) ss) \<and>
     (\<forall>s \<in> set ss. sl_role s = ''child'' \<longrightarrow> sl_slot s \<noteq> ''parent'') \<and> bindings_unique ss \<and>
     distinct (map (\<lambda>c. (cl_group c, cl_key c)) cs) \<and>
     (\<forall>c \<in> set cs. cl_key c = lb_key (cl_binding c) \<and> (cl_state c = ''active'' \<longrightarrow> backed ss c)))"

definition groups_ok :: "groups \<Rightarrow> bool" where
  "groups_ok d = slots_ok (gd_slots d) (gd_claims d)"

text \<open>The steps that touch neither slots nor claims.\<close>

definition same_slots :: "groups \<Rightarrow> groups \<Rightarrow> bool" where
  "same_slots d d' = (gd_slots d' = gd_slots d \<and> gd_claims d' = gd_claims d)"

lemma same_slots_ok: "same_slots d d' \<Longrightarrow> groups_ok d \<Longrightarrow> groups_ok d'"
  by (simp add: same_slots_def groups_ok_def)

lemma same_slots_tx:
  assumes "\<And>x d'. body d = Inr (x, d') \<Longrightarrow> same_slots d d'" shows "same_slots d (snd (groups_transaction body d))"
  by (rule groups_tx_cases [of body d]) (auto simp: same_slots_def dest: assms [unfolded same_slots_def])

lemma settle_same: "settle_group p f d = Inr (x, d') \<Longrightarrow> same_slots d d'"
  by (auto simp: settle_group_def same_slots_def update_group_def)

lemma stage_same: "same_slots d (snd (groups_transaction (stage_tx e p) d))"
  by (rule same_slots_tx) (auto simp: stage_tx_def same_slots_def split: if_splits)

lemma confirm_same: "same_slots d (snd (groups_transaction (confirm_tx p) d))"
  by (rule same_slots_tx) (auto simp: confirm_tx_def same_slots_def split: if_splits)

lemma confirm_slots_same: "same_slots d (snd (groups_transaction (confirm_slots_tx p ts) d))"
  by (rule same_slots_tx) (auto simp: confirm_slots_tx_def confirm_tx_def same_slots_def Let_def split: if_splits)

lemma ended_same: "same_slots d (snd (groups_transaction (parent_ended_tx p b h) d))"
  by (rule same_slots_tx) (auto simp: parent_ended_tx_def same_slots_def Let_def split: if_splits)

lemma close_same: "same_slots d (snd (groups_transaction (close_tx p) d))"
  by (rule same_slots_tx) (auto simp: close_tx_def dest: settle_same split: option.splits if_splits)

lemma release_hold_same: "same_slots d (snd (groups_transaction (release_hold_tx p h n) d))"
  by (rule same_slots_tx) (auto simp: release_hold_tx_def same_slots_def Let_def update_group_def split: if_splits)

lemma expire_same: "same_slots d (snd (groups_transaction (expire_tx p now) d))"
proof (rule same_slots_tx)
  fix x d' assume "expire_tx p now d = Inr (x, d')"
  then show "same_slots d d'"
    by (auto simp: expire_tx_def split: option.splits if_split_asm dest: settle_same) (auto simp: same_slots_def)
qed

lemma retry_same: "same_slots d (snd (groups_transaction (retry_tx e p) d))"
  by (rule same_slots_tx) (auto simp: retry_tx_def same_slots_def Let_def update_group_def split: option.splits if_splits)

lemma same_slots_refl [simp]: "same_slots d d" "same_slots d (d\<lparr>gd_queue := q\<rparr>)"
  by (simp_all add: same_slots_def)

lemmas same_steps = stage_same confirm_same confirm_slots_same ended_same close_same release_hold_same expire_same retry_same

subsection \<open>Updates of slots\<close>

text \<open>A step that changes the slots in place, keeping what they were reserved for.\<close>

definition slot_kept :: "slot_row \<Rightarrow> slot_row \<Rightarrow> bool" where
  "slot_kept s t = (sl_group t = sl_group s \<and> sl_slot t = sl_slot s \<and> sl_role t = sl_role s \<and> sl_demand t = sl_demand s
     \<and> sl_sequence t = sl_sequence s \<and> sl_ticket t = sl_ticket s)"

lemma slot_kept_refl [simp]: "slot_kept s s"
  by (simp add: slot_kept_def)

lemma update_slots_ok:
  assumes ok: "slots_ok ss cs" and kept: "\<And>s. s \<in> set ss \<Longrightarrow> P s \<Longrightarrow> slot_kept s (f s)"
    and uniq: "bindings_unique (update_where P f ss)"
    and cs: "distinct (map (\<lambda>c. (cl_group c, cl_key c)) cs')" "\<forall>c \<in> set cs'. cl_key c = lb_key (cl_binding c)"
    and claims: "\<And>c. c \<in> set cs' \<Longrightarrow> cl_state c = ''active'' \<Longrightarrow> backed (update_where P f ss) c"
  shows "slots_ok (update_where P f ss) cs'"
proof -
  have "map (\<lambda>s. (sl_group s, sl_slot s)) (update_where P f ss) = map (\<lambda>s. (sl_group s, sl_slot s)) ss"
    using kept by (auto simp: update_where_def slot_kept_def)
  moreover have "\<forall>s \<in> set (update_where P f ss). sl_role s = ''child'' \<longrightarrow> sl_slot s \<noteq> ''parent''"
    using ok kept by (auto simp: slots_ok_def set_update_where slot_kept_def split: if_splits)
  ultimately show ?thesis using ok uniq cs claims by (simp add: slots_ok_def)
qed

text \<open>A claim whose slot is not touched stays backed.\<close>

lemma backed_unhit:
  assumes "backed ss c" and "\<And>s. s \<in> set ss \<Longrightarrow> claimed_by (cl_binding c) s \<Longrightarrow> sl_role s = ''child'' \<Longrightarrow> sl_group s = cl_group c \<Longrightarrow> \<not> P s"
  shows "backed (update_where P f ss) c"
proof -
  from assms(1) obtain s where s: "s \<in> set ss" "sl_group s = cl_group c" "sl_slot s = cl_slot c" "sl_role s = ''child''"
    "claimed_by (cl_binding c) s"
    "\<exists>x cap. demand_from_record (cl_demand c) = Inr x \<and> demand_from_record (sl_demand s) = Inr cap \<and> compatible x cap"
    unfolding backed_def by blast
  then have "s \<in> set (update_where P f ss)" using assms(2) by (force simp: set_update_where)
  with s show ?thesis unfolding backed_def by blast
qed

lemma bind_slot_D:
  assumes "bind_slot g k P b f d = Inr (x, d')"
  shows "d' = d\<lparr>gd_slots := update_where (\<lambda>s. sl_group s = g \<and> sl_slot s = k \<and> P s) (\<lambda>s. (f s)\<lparr>sl_binding := Some b\<rparr>) (gd_slots d)\<rparr>"
    and "\<exists>s \<in> set (gd_slots d). sl_group s = g \<and> sl_slot s = k \<and> P s" and "\<not> binding_taken g k b d"
proof -
  let ?hit = "\<lambda>s. sl_group s = g \<and> sl_slot s = k \<and> P s"
  from assms have a: "\<not> (count_where ?hit (gd_slots d) \<noteq> 0 \<and> binding_taken g k b d)" "count_where ?hit (gd_slots d) = 1"
    "d' = d\<lparr>gd_slots := update_where ?hit (\<lambda>s. (f s)\<lparr>sl_binding := Some b\<rparr>) (gd_slots d)\<rparr>"
    by (auto simp: bind_slot_def Let_def split: if_splits)
  show "d' = d\<lparr>gd_slots := update_where ?hit (\<lambda>s. (f s)\<lparr>sl_binding := Some b\<rparr>) (gd_slots d)\<rparr>" by (rule a(3))
  have "0 < count_where ?hit (gd_slots d)" using a(2) by simp
  then show "\<exists>s \<in> set (gd_slots d). ?hit s" unfolding count_where_pos .
  show "\<not> binding_taken g k b d" using a(1,2) by auto
qed

lemma bindings_unique_map:
  assumes "\<And>s. sl_group (h s) = sl_group s" "\<And>s. sl_slot (h s) = sl_slot s"
    and "\<And>s t. s \<in> set ss \<Longrightarrow> t \<in> set ss \<Longrightarrow> sl_group s = sl_group t \<Longrightarrow> sl_binding (h s) = sl_binding (h t) \<Longrightarrow>
      sl_binding (h s) \<noteq> None \<Longrightarrow> sl_slot s = sl_slot t"
  shows "bindings_unique (map h ss)"
  unfolding bindings_unique_def set_map ball_simps assms(1,2) using assms(3) by blast

lemma bindings_unique_keep:
  assumes "bindings_unique ss" and "\<And>s. slot_kept s (f s)" and "\<And>s. sl_binding (f s) = sl_binding s \<or> sl_binding (f s) = None"
  shows "bindings_unique (update_where P f ss)"
  unfolding update_where_def
proof (rule bindings_unique_map)
  let ?h = "\<lambda>s. if P s then f s else s"
  show "sl_group (?h s) = sl_group s" "sl_slot (?h s) = sl_slot s" for s using assms(2) [of s] by (simp_all add: slot_kept_def)
  have b: "sl_binding (?h s) = sl_binding s \<or> sl_binding (?h s) = None" for s using assms(3) [of s] by simp
  fix s t assume "s \<in> set ss" "t \<in> set ss" "sl_group s = sl_group t" "sl_binding (?h s) = sl_binding (?h t)" "sl_binding (?h s) \<noteq> None"
  then have "sl_binding s = sl_binding t" "sl_binding s \<noteq> None" using b [of s] b [of t] by metis+
  with \<open>s \<in> set ss\<close> \<open>t \<in> set ss\<close> \<open>sl_group s = sl_group t\<close> show "sl_slot s = sl_slot t"
    using assms(1) unfolding bindings_unique_def by blast
qed

lemma bind_unique:
  assumes "bindings_unique ss" and "\<And>s. s \<in> set ss \<Longrightarrow> sl_group s = g \<Longrightarrow> sl_slot s \<noteq> k \<Longrightarrow> sl_binding s \<noteq> Some b"
    and "\<And>s. slot_kept s (f s)"
  shows "bindings_unique (update_where (\<lambda>s. sl_group s = g \<and> sl_slot s = k \<and> P s) (\<lambda>s. (f s)\<lparr>sl_binding := Some b\<rparr>) ss)"
  unfolding update_where_def
proof (rule bindings_unique_map)
  let ?P = "\<lambda>s. sl_group s = g \<and> sl_slot s = k \<and> P s"
  let ?h = "\<lambda>s. if ?P s then (f s)\<lparr>sl_binding := Some b\<rparr> else s"
  show "sl_group (?h s) = sl_group s" "sl_slot (?h s) = sl_slot s" for s using assms(3) [of s] by (simp_all add: slot_kept_def)
  have h: "sl_binding (?h s) = (if ?P s then Some b else sl_binding s)" for s by simp
  fix s t assume m: "s \<in> set ss" "t \<in> set ss" and eq: "sl_group s = sl_group t" "sl_binding (?h s) = sl_binding (?h t)" "sl_binding (?h s) \<noteq> None"
  note eq' = eq(2,3) [unfolded h]
  show "sl_slot s = sl_slot t"
  proof (cases "?P s \<or> ?P t")
    case True
    then show ?thesis using eq(1) eq' assms(2) [OF m(1)] assms(2) [OF m(2)] by metis
  next
    case False
    then have "sl_binding s = sl_binding t" "sl_binding s \<noteq> None" using eq' by auto
    then show ?thesis using assms(1) m eq(1) unfolding bindings_unique_def by blast
  qed
qed

lemma slots_okD:
  assumes "slots_ok ss cs"
  shows "bindings_unique ss" "distinct (map (\<lambda>c. (cl_group c, cl_key c)) cs)" "c \<in> set cs \<Longrightarrow> cl_key c = lb_key (cl_binding c)"
    "c \<in> set cs \<Longrightarrow> cl_state c = ''active'' \<Longrightarrow> backed ss c" "s \<in> set ss \<Longrightarrow> sl_role s = ''child'' \<Longrightarrow> sl_slot s \<noteq> ''parent''"
  using assms by (simp_all add: slots_ok_def)

subsection \<open>The steps\<close>

lemma take_slot_kept [simp]: "slot_kept s (take_slot s)" "slot_kept s (s\<lparr>sl_launched := l\<rparr>)"
  "slot_kept s (t\<lparr>sl_binding := b\<rparr>) = slot_kept s t" "slot_kept s (id s)"
  "slot_kept s (s\<lparr>sl_state := st\<rparr>)"
  by (simp_all add: slot_kept_def take_slot_def)

lemma hold_ok: "groups_ok d \<Longrightarrow> groups_ok (snd (hold_parent_launch e p d))"
proof -
  assume ok: "groups_ok d"
  let ?P = "\<lambda>s. sl_group s = pn_group p \<and> sl_role s = ''parent''" and ?f = "\<lambda>s :: slot_row. s\<lparr>sl_launched := True\<rparr>"
  have "slots_ok (update_where ?P ?f (gd_slots d)) (gd_claims d)"
  proof (rule update_slots_ok)
    show "slots_ok (gd_slots d) (gd_claims d)" using ok by (simp add: groups_ok_def)
    then show "bindings_unique (update_where ?P ?f (gd_slots d))"
      by (intro bindings_unique_keep) (auto simp: slots_ok_def)
    fix c assume "c \<in> set (gd_claims d)" "cl_state c = ''active''"
    then show "backed (update_where ?P ?f (gd_slots d)) c"
      using ok by (intro backed_unhit) (auto simp: groups_ok_def slots_ok_def)
  qed (use ok in \<open>auto simp: groups_ok_def slots_ok_def\<close>)
  then show ?thesis using ok
    by (auto simp: hold_parent_launch_def groups_transaction_def hold_tx_def groups_ok_def split: sum.split)
qed

text \<open>A slot named for the parent changes hands.\<close>

lemma bind_parent_ok:
  assumes ok: "groups_ok d" and bind: "bind_slot g ''parent'' P b f d = Inr (x, d')" and f: "\<And>s. slot_kept s (f s)"
  shows "groups_ok d'"
proof -
  note D = bind_slot_D [OF bind] and ok' = ok [unfolded groups_ok_def]
  let ?P = "\<lambda>s. sl_group s = g \<and> sl_slot s = ''parent'' \<and> P s"
  have "slots_ok (update_where ?P (\<lambda>s. (f s)\<lparr>sl_binding := Some b\<rparr>) (gd_slots d)) (gd_claims d)"
  proof (rule update_slots_ok [OF ok'])
    show "bindings_unique (update_where ?P (\<lambda>s. (f s)\<lparr>sl_binding := Some b\<rparr>) (gd_slots d))"
      by (rule bind_unique) (use D(3) slots_okD(1) [OF ok'] f in \<open>auto simp: binding_taken_def list_ex_iff\<close>)
    fix c assume "c \<in> set (gd_claims d)" "cl_state c = ''active''"
    then show "backed (update_where ?P (\<lambda>s. (f s)\<lparr>sl_binding := Some b\<rparr>) (gd_slots d)) c"
      using slots_okD(4,5) [OF ok'] by (intro backed_unhit) auto
  qed (use slots_okD [OF ok'] f in auto)
  then show ?thesis by (simp add: groups_ok_def D(1))
qed

lemma groups_ok_tx:
  assumes "groups_ok d" and "\<And>x d'. body d = Inr (x, d') \<Longrightarrow> groups_ok d'" shows "groups_ok (snd (groups_transaction body d))"
  using assms by (auto simp: groups_transaction_def split: sum.split)

lemma groups_ok_rows [simp]: "groups_ok (d\<lparr>gd_groups := gs\<rparr>) = groups_ok d" "groups_ok (update_group g f d) = groups_ok d"
  "groups_ok (d\<lparr>gd_queue := q\<rparr>) = groups_ok d"
  by (simp_all add: groups_ok_def update_group_def)

lemma claim_parent_ok:
  assumes "groups_ok d" shows "groups_ok (snd (groups_transaction (claim_parent_tx p b) d))"
  by (rule groups_ok_tx [OF assms]) (auto simp: claim_parent_tx_def split: if_splits dest: bind_parent_ok [OF assms])

lemma rebind_parent_ok:
  assumes "groups_ok d" shows "groups_ok (snd (groups_transaction (rebind_parent_tx p b' b) d))"
  by (rule groups_ok_tx [OF assms]) (auto simp: rebind_parent_tx_def split: if_splits dest: bind_parent_ok [OF assms])

lemma free_child_slot_Some:
  "free_child_slot owner x ss = Inr (Some s) \<Longrightarrow> s \<in> set ss \<and> sl_binding s = None \<and>
     (\<exists>cap. demand_from_record (sl_demand s) = Inr cap \<and> compatible x cap)"
  by (induction ss) (auto split: if_splits)

lemma claim_of_None: "claim_of g k d = None \<Longrightarrow> (g, k) \<notin> (\<lambda>c. (cl_group c, cl_key c)) ` set (gd_claims d)"
  by (auto simp: claim_of_def find_None_iff)

lemma claim_of_Some: "claim_of g k d = Some c \<Longrightarrow> c \<in> set (gd_claims d) \<and> cl_group c = g \<and> cl_key c = k"
  by (auto simp: claim_of_def dest: find_Some_in)

text \<open>The only claim of a request key.\<close>

lemma claim_unique:
  "distinct (map (\<lambda>c. (cl_group c, cl_key c)) cs) \<Longrightarrow> c \<in> set cs \<Longrightarrow> c' \<in> set cs \<Longrightarrow> cl_group c = cl_group c' \<Longrightarrow> cl_key c = cl_key c' \<Longrightarrow> c = c'"
  by (auto simp: distinct_map inj_on_def)

lemma slot_unique:
  "slots_ok ss cs \<Longrightarrow> s \<in> set ss \<Longrightarrow> t \<in> set ss \<Longrightarrow> sl_group s = sl_group t \<Longrightarrow> sl_slot s = sl_slot t \<Longrightarrow> s = t"
  by (auto simp: slots_ok_def distinct_map inj_on_def)

lemma backedI: "s \<in> set ss \<Longrightarrow> backed [s] c \<Longrightarrow> backed ss c"
  unfolding backed_def by auto

definition new_claim :: "string \<Rightarrow> string \<Rightarrow> launch_binding \<Rightarrow> demand \<Rightarrow> claim_row" where
  "new_claim g k b x = \<lparr>cl_group = g, cl_key = lb_key b, cl_binding = b, cl_demand = demand_record x, cl_slot = k, cl_state = ''active''\<rparr>"

lemma new_claim_ok:
  assumes ok: "groups_ok d" and bind: "bind_slot g (sl_slot s) free_slot b take_slot d = Inr (y, d1)"
    and s: "s \<in> set (gd_slots d)" "sl_role s = ''child''" "sl_state s = ''reserved''" "sl_group s = g" "sl_binding s = None"
    and cap: "demand_from_record (sl_demand s) = Inr cap" "compatible x cap" and x: "demand_ok x"
    and none: "claim_of g (lb_key b) d = None"
  shows "groups_ok (d1\<lparr>gd_claims := gd_claims d1 @ [new_claim g (sl_slot s) b x]\<rparr>)"
proof -
  note D = bind_slot_D [OF bind] and ok' = ok [unfolded groups_ok_def]
  let ?hit = "\<lambda>t. sl_group t = g \<and> sl_slot t = sl_slot s \<and> free_slot t" and ?new = "new_claim g (sl_slot s) b x"
  let ?ss = "update_where ?hit (\<lambda>t. (take_slot t)\<lparr>sl_binding := Some b\<rparr>) (gd_slots d)"
  have "slots_ok ?ss (gd_claims d @ [?new])"
  proof (rule update_slots_ok [OF ok'])
    show "bindings_unique ?ss"
      by (rule bind_unique) (use D(3) slots_okD(1) [OF ok'] in \<open>auto simp: binding_taken_def list_ex_iff\<close>)
    show "distinct (map (\<lambda>c. (cl_group c, cl_key c)) (gd_claims d @ [?new]))"
      using claim_of_None [OF none] slots_okD(2) [OF ok'] by (auto simp: new_claim_def)
    fix c assume c: "c \<in> set (gd_claims d @ [?new])" "cl_state c = ''active''"
    show "backed ?ss c"
    proof (cases "c \<in> set (gd_claims d)")
      case True
      then show ?thesis using slots_okD(4) [OF ok' True c(2)] by (rule_tac backed_unhit) (auto simp: claimed_by_def free_slot_def)
    next
      case False
      have "(take_slot s)\<lparr>sl_binding := Some b\<rparr> \<in> set ?ss" using s by (force simp: set_update_where free_slot_def)
      moreover have "backed [(take_slot s)\<lparr>sl_binding := Some b\<rparr>] ?new"
        using s cap demand_roundtrip [OF x] by (auto simp: backed_def claimed_by_def take_slot_def new_claim_def)
      ultimately show ?thesis using False c(1) backedI by auto
    qed
  qed (use slots_okD(3) [OF ok'] in \<open>auto simp: new_claim_def\<close>)
  then show ?thesis by (simp add: groups_ok_def D(1))
qed

lemma claim_child_ok:
  assumes ok: "groups_ok d" and x: "demand_ok x" shows "groups_ok (snd (claim_child p b x d))"
proof -
  have "groups_ok d'" if run: "claim_child_tx p b x d = Inr (c, d')" for c d'
  proof (cases "claim_of (pn_group p) (lb_key b) d")
    case (Some r)
    then show ?thesis using run ok by (auto simp: claim_child_tx_def split: option.splits if_splits)
  next
    case None
    from run None obtain s d1 where s: "free_child_slot (lb_supervisor b) x (child_slots (pn_group p) d) = Inr (Some s)"
      and bind: "bind_slot (pn_group p) (sl_slot s) free_slot b take_slot d = Inr ((), d1)"
      and d': "d' = d1\<lparr>gd_claims := gd_claims d1 @ [new_claim (pn_group p) (sl_slot s) b x]\<rparr>"
      by (auto simp: claim_child_tx_def new_claim_def split: option.splits if_splits)
    from free_child_slot_Some [OF s] obtain cap where child: "s \<in> set (gd_slots d)" "sl_role s = ''child''" "sl_state s = ''reserved''"
      "sl_group s = pn_group p" "sl_binding s = None" "demand_from_record (sl_demand s) = Inr cap" "compatible x cap"
      by (auto simp: child_slots_def slots_of_def)
    show ?thesis unfolding d' by (rule new_claim_ok [OF ok bind child x None])
  qed
  then show ?thesis using ok by (auto simp: claim_child_def split: sum.split intro: groups_ok_tx)
qed

text \<open>The child of a claim is bound: the claim and its slot move to the new binding together.\<close>

lemma rebind_claim_ok:
  assumes ok: "groups_ok d" and r: "r \<in> set (gd_claims d)" "cl_group r = g" "cl_state r = ''active''" "cl_binding r = old"
    and bind: "bind_slot g k (claimed_by old) b id d = Inr (y, d1)" and key: "lb_key b = lb_key old"
  shows "groups_ok (d1\<lparr>gd_claims := update_where (\<lambda>c. cl_group c = g \<and> cl_key c = lb_key old) (\<lambda>c. c\<lparr>cl_binding := b\<rparr>) (gd_claims d1)\<rparr>)"
proof -
  note D = bind_slot_D [OF bind] and ok' = ok [unfolded groups_ok_def]
  let ?hit = "\<lambda>t. sl_group t = g \<and> sl_slot t = k \<and> claimed_by old t" and ?P = "\<lambda>c. cl_group c = g \<and> cl_key c = lb_key old"
  let ?ss = "update_where ?hit (\<lambda>t. (id t)\<lparr>sl_binding := Some b\<rparr>) (gd_slots d)"
  let ?cs = "update_where ?P (\<lambda>c. c\<lparr>cl_binding := b\<rparr>) (gd_claims d)"
  have only: "c = r" if "c \<in> set (gd_claims d)" "?P c" for c
    using claim_unique [OF slots_okD(2) [OF ok'] that(1) r(1)] that(2) r slots_okD(3) [OF ok' r(1)] by simp
  from slots_okD(4) [OF ok' r(1,3)] obtain s where s: "s \<in> set (gd_slots d)" "backed [s] r" "claimed_by old s" "sl_group s = g"
    using r by (auto simp: backed_def)
  have "sl_slot s = k"
    using D(2) s slots_okD(1) [OF ok'] unfolding bindings_unique_def claimed_by_def by (metis option.distinct(1))
  have "slots_ok ?ss ?cs"
  proof (rule update_slots_ok [OF ok'])
    show "bindings_unique ?ss"
      by (rule bind_unique) (use D(3) slots_okD(1) [OF ok'] in \<open>auto simp: binding_taken_def list_ex_iff\<close>)
    show "distinct (map (\<lambda>c. (cl_group c, cl_key c)) ?cs)" using slots_okD(2) [OF ok'] by (subst map_update_where) simp_all
    show "\<forall>c \<in> set ?cs. cl_key c = lb_key (cl_binding c)" using slots_okD(3) [OF ok'] key by (auto simp: set_update_where)
    fix c assume c: "c \<in> set ?cs" "cl_state c = ''active''"
    then obtain c0 where c0: "c0 \<in> set (gd_claims d)" "c = (if ?P c0 then c0\<lparr>cl_binding := b\<rparr> else c0)" by (auto simp: set_update_where)
    show "backed ?ss c"
    proof (cases "?P c0")
      case True
      have "(id s)\<lparr>sl_binding := Some b\<rparr> \<in> set ?ss" using s \<open>sl_slot s = k\<close> by (force simp: set_update_where)
      moreover have "backed [(id s)\<lparr>sl_binding := Some b\<rparr>] c"
        using True c0(2) only [OF c0(1)] s(2) by (auto simp: backed_def claimed_by_def)
      ultimately show ?thesis by (rule backedI)
    next
      case False
      then have "backed (gd_slots d) c" "cl_binding c \<noteq> old \<or> cl_group c \<noteq> g"
        using c0 c(2) slots_okD(3,4) [OF ok' c0(1)] by auto
      then show ?thesis by (rule_tac backed_unhit) (auto simp: claimed_by_def)
    qed
  qed simp
  then show ?thesis by (simp add: groups_ok_def D(1))
qed

lemma bind_child_ok:
  assumes ok: "groups_ok d" shows "groups_ok (snd (bind_child_consumer p c i d))"
proof -
  have "groups_ok d'" if "bind_child_tx p c ((cc_binding c)\<lparr>lb_consumer := Some i\<rparr>) d = Inr (out, d')" for out d'
    using that ok
    by (auto simp: bind_child_tx_def Let_def split: option.splits if_splits
        dest!: claim_of_Some intro!: rebind_claim_ok [OF ok])
  then show ?thesis using ok by (auto simp: bind_child_consumer_def intro: groups_ok_tx)
qed

lemma finish_child_ok:
  assumes ok: "groups_ok d" shows "groups_ok (snd (finish_child rd p c d))"
proof -
  note ok' = ok [unfolded groups_ok_def]
  let ?hit = "\<lambda>s. sl_group s = cc_group c \<and> sl_slot s = cc_slot c \<and> sl_role s = ''child'' \<and> claimed_by (cc_binding c) s"
    and ?f = "\<lambda>s :: slot_row. s\<lparr>sl_state := ''reserved'', sl_binding := None\<rparr>"
    and ?P = "\<lambda>x. cl_group x = cc_group c \<and> cl_key x = lb_key (cc_binding c) \<and> cl_binding x = cc_binding c \<and> cl_state x = ''active''"
  let ?cs = "update_where ?P (\<lambda>x. x\<lparr>cl_state := ''finished''\<rparr>) (gd_claims d)"
  have "slots_ok (update_where ?hit ?f (gd_slots d)) ?cs"
  proof (rule update_slots_ok [OF ok'])
    show "bindings_unique (update_where ?hit ?f (gd_slots d))"
      by (rule bindings_unique_keep) (use slots_okD(1) [OF ok'] in auto)
    show "distinct (map (\<lambda>c. (cl_group c, cl_key c)) ?cs)" using slots_okD(2) [OF ok'] by (subst map_update_where) simp_all
    show "\<forall>x \<in> set ?cs. cl_key x = lb_key (cl_binding x)" using slots_okD(3) [OF ok'] by (auto simp: set_update_where)
    fix x assume x: "x \<in> set ?cs" "cl_state x = ''active''"
    then have m: "x \<in> set (gd_claims d)" "\<not> ?P x" by (auto simp: set_update_where split: if_splits)
    then have "cl_binding x \<noteq> cc_binding c \<or> cl_group x \<noteq> cc_group c" using slots_okD(3) [OF ok' m(1)] x(2) by auto
    then show "backed (update_where ?hit ?f (gd_slots d)) x"
      using slots_okD(4) [OF ok' m(1) x(2)] by (rule_tac backed_unhit) (auto simp: claimed_by_def)
  qed simp
  then have "finish_child_tx p c d = Inr (y, d') \<Longrightarrow> groups_ok d'" for y d'
    using ok by (auto simp: finish_child_tx_def Let_def groups_ok_def split: option.splits if_splits)
  then show ?thesis using ok by (auto simp: finish_child_def split: sum.split intro: groups_ok_tx)
qed

lemma insert_slot_ok:
  assumes ok: "groups_ok d" and run: "insert_slot s d = Inr (y, d')" and s: "sl_binding s = None" "sl_role s = ''child'' \<Longrightarrow> sl_slot s \<noteq> ''parent''"
  shows "groups_ok d'"
proof (cases "list_ex (\<lambda>x. sl_group x = sl_group s \<and> sl_slot x = sl_slot s) (gd_slots d)")
  case True
  then show ?thesis using run ok by (simp add: insert_slot_def)
next
  case False
  have d': "gd_slots d' = gd_slots d @ [s]" "gd_claims d' = gd_claims d"
    using run False by (auto simp: insert_slot_def split: if_splits)
  have new: "(sl_group s, sl_slot s) \<notin> (\<lambda>s. (sl_group s, sl_slot s)) ` set (gd_slots d)" using False by (auto simp: list_ex_iff)
  note ok' = ok [unfolded groups_ok_def]
  have 1: "bindings_unique (gd_slots d @ [s])"
    using slots_okD(1) [OF ok'] s(1) unfolding bindings_unique_def by (auto simp del: not_None_eq)
  have 2: "backed (gd_slots d @ [s]) c" if "c \<in> set (gd_claims d)" "cl_state c = ''active''" for c
    using slots_okD(4) [OF ok' that] unfolding backed_def by auto
  have 3: "\<forall>t \<in> set (gd_slots d @ [s]). sl_role t = ''child'' \<longrightarrow> sl_slot t \<noteq> ''parent''"
    using slots_okD(5) [OF ok'] s(2) by simp
  have 4: "distinct (map (\<lambda>s. (sl_group s, sl_slot s)) (gd_slots d @ [s]))" using new ok' by (simp add: slots_ok_def)
  show ?thesis using 1 2 3 4 slots_okD(2,3) [OF ok'] unfolding groups_ok_def d' slots_ok_def by blast
qed

lemma insert_slots_ok:
  "groups_ok d \<Longrightarrow> \<forall>m \<in> set ms. mb_role m = ''child'' \<longrightarrow> mb_slot m \<noteq> ''parent'' \<Longrightarrow> insert_slots_tx p ts ms d = Inr (y, d') \<Longrightarrow> groups_ok d'"
proof (induction ms arbitrary: d)
  case (Cons m ms)
  then obtain d1 where d1: "insert_slot (new_slot p m (ticket_of ts (mb_slot m))) d = Inr ((), d1)" "insert_slots_tx p ts ms d1 = Inr (y, d')"
    by (auto split: prod.splits)
  have "groups_ok d1" by (rule insert_slot_ok [OF Cons.prems(1) d1(1)]) (use Cons.prems(2) in \<open>auto simp: new_slot_def\<close>)
  then show ?case using Cons.IH [OF _ _ d1(2)] Cons.prems(2) by simp
qed simp

lemma group_step_ok:
  assumes "group_step d d'" and ok: "groups_ok d" shows "groups_ok d'"
  using assms(1)
proof cases
  case (slots p ts)
  then have "\<forall>m \<in> set (pn_members p). mb_role m = ''child'' \<longrightarrow> mb_slot m \<noteq> ''parent''" by (simp add: plan_ok_def)
  then show ?thesis unfolding slots(1) by (intro groups_ok_tx [OF ok] insert_slots_ok [OF ok])
next
  case (parent_ended rd p b h)
  then show ?thesis using ok same_slots_ok [OF ended_same] by (auto simp: mark_parent_ended_def split: sum.split)
next
  case (close rd p seen)
  then show ?thesis using ok same_slots_ok [OF close_same] by (auto simp: close_after_parent_end_def split: sum.split)
next
  case (release_hold e rd p h live seen)
  then show ?thesis using ok same_slots_ok [OF release_hold_same] by (auto simp: release_unissued_hold_def Let_def split: sum.split)
next
  case (expire rd p now seen)
  then show ?thesis using ok same_slots_ok [OF expire_same] by (auto simp: expire_staging_def split: sum.split)
qed (use ok in \<open>auto intro: same_slots_ok [OF stage_same] same_slots_ok [OF confirm_same] same_slots_ok [OF confirm_slots_same]
  same_slots_ok [OF retry_same] hold_ok claim_parent_ok rebind_parent_ok claim_child_ok bind_child_ok finish_child_ok\<close>)

lemma group_steps_ok: "group_step\<^sup>*\<^sup>* d d' \<Longrightarrow> groups_ok d \<Longrightarrow> groups_ok d'"
  by (induction rule: rtranclp_induct) (auto intro: group_step_ok)

lemma empty_groups_ok [simp]: "groups_ok empty_groups"
  by (simp add: groups_ok_def empty_groups_def slots_ok_def bindings_unique_def)

section \<open>What the children may use\<close>

definition active_claims :: "string \<Rightarrow> groups \<Rightarrow> claim_row list" where
  "active_claims g d = filter (\<lambda>c. cl_group c = g \<and> cl_state c = ''active'') (gd_claims d)"

definition prepaid_slots :: "string \<Rightarrow> groups \<Rightarrow> slot_row list" where
  "prepaid_slots g d = filter (\<lambda>s. sl_group s = g \<and> sl_role s = ''child'') (gd_slots d)"

lemma sum_list_dominated:
  assumes "distinct xs" "distinct ys" "inj_on f (set xs)" "f ` set xs \<subseteq> set ys"
    and "\<And>x. x \<in> set xs \<Longrightarrow> w x \<le> v (f x)" and "\<And>y. y \<in> set ys \<Longrightarrow> 0 \<le> (v y :: int)"
  shows "sum_list (map w xs) \<le> sum_list (map v ys)"
proof -
  have "sum w (set xs) \<le> sum (v \<circ> f) (set xs)" by (rule sum_mono) (simp add: assms(5))
  also have "\<dots> = sum v (f ` set xs)" by (rule sum.reindex [OF assms(3), symmetric])
  also have "\<dots> \<le> sum v (set ys)" by (rule sum_mono2) (use assms(4,6) in auto)
  finally show ?thesis by (simp add: sum_list_distinct_conv_sum_set assms(1,2))
qed

lemma demand_of_nonneg: "demand_ok x \<Longrightarrow> 0 \<le> demand_of x k"
  unfolding demand_of_def by (simp add: demand_ok_def)

lemma weight_nonneg: "0 \<le> weight k v"
  unfolding weight_def using demand_of_nonneg demand_from_ok by (cases "demand_from_record v") auto

text \<open>A demand covered by what was reserved: both as recorded, for the same provider, and no resource exceeded.\<close>

definition covered :: "pyval \<Rightarrow> pyval \<Rightarrow> bool" where
  "covered v w = (\<exists>x cap. demand_from_record v = Inr x \<and> demand_from_record w = Inr cap \<and> dm_provider x = dm_provider cap \<and>
     dm_cpu x \<le> dm_cpu cap \<and> dm_memory x \<le> dm_memory cap \<and> dm_disk x \<le> dm_disk cap \<and> dm_io x \<le> dm_io cap \<and>
     dm_processes x \<le> dm_processes cap \<and> dm_units x \<le> dm_units cap)"

lemma compatible_covered:
  "compatible x cap \<Longrightarrow> demand_from_record v = Inr x \<Longrightarrow> demand_from_record w = Inr cap \<Longrightarrow> covered v w"
  by (simp add: covered_def compatible_def resource_names_def demand_of_def)

lemma covered_weight: "covered v w \<Longrightarrow> weight k v \<le> weight k w"
  by (auto simp: covered_def weight_def demand_of_def)

text \<open>The slot an active claim sits in: reserved for the group, bound to the launch of the claim, and large enough for it.\<close>

definition own_slot :: "groups \<Rightarrow> claim_row \<Rightarrow> slot_row \<Rightarrow> bool" where
  "own_slot d c s = (s \<in> set (prepaid_slots (cl_group c) d) \<and> sl_slot s = cl_slot c \<and> claimed_by (cl_binding c) s \<and>
     covered (cl_demand c) (sl_demand s))"

lemma backed_own_slot:
  assumes "backed (gd_slots d) c" obtains s where "own_slot d c s"
proof -
  from assms obtain s x cap where "s \<in> set (gd_slots d)" "sl_group s = cl_group c" "sl_slot s = cl_slot c" "sl_role s = ''child''"
    "claimed_by (cl_binding c) s" "demand_from_record (cl_demand c) = Inr x" "demand_from_record (sl_demand s) = Inr cap" "compatible x cap"
    by (auto simp: backed_def)
  then have "own_slot d c s" by (auto simp: own_slot_def prepaid_slots_def intro: compatible_covered)
  then show ?thesis by (rule that)
qed

lemma own_slots:
  assumes ok: "groups_ok d"
  obtains f where "inj_on f (set (active_claims g d))" "\<And>c. c \<in> set (active_claims g d) \<Longrightarrow> own_slot d c (f c)"
proof -
  note ok' = ok [unfolded groups_ok_def]
  have "\<exists>s. own_slot d c s" if "c \<in> set (active_claims g d)" for c
    using that slots_okD(4) [OF ok', of c] by (auto simp: active_claims_def elim: backed_own_slot)
  then obtain f where f: "own_slot d c (f c)" if "c \<in> set (active_claims g d)" for c by metis
  have "inj_on f (set (active_claims g d))"
  proof (rule inj_onI)
    fix c c' assume c: "c \<in> set (active_claims g d)" "c' \<in> set (active_claims g d)" "f c = f c'"
    then have "cl_binding c = cl_binding c'" using f [OF c(1)] f [OF c(2)] by (simp add: own_slot_def claimed_by_def)
    then show "c = c'" using c(1,2) slots_okD(2,3) [OF ok'] by (intro claim_unique [of "gd_claims d"]) (auto simp: active_claims_def)
  qed
  then show ?thesis using f by (rule that)
qed

lemma own_slots_cover:
  assumes ok: "groups_ok d" and k: "k \<in> set resource_names"
    and f: "inj_on f (set (active_claims g d))" "\<And>c. c \<in> set (active_claims g d) \<Longrightarrow> own_slot d c (f c)"
  shows "sum_list (map (\<lambda>c. weight k (cl_demand c)) (active_claims g d)) \<le> sum_list (map (\<lambda>s. weight k (sl_demand s)) (prepaid_slots g d))"
proof (rule sum_list_dominated [OF _ _ f(1)])
  show "distinct (active_claims g d)" "distinct (prepaid_slots g d)"
    using ok by (auto simp: groups_ok_def active_claims_def prepaid_slots_def slots_ok_def distinct_map)
  show "f ` set (active_claims g d) \<subseteq> set (prepaid_slots g d)"
    using f(2) by (force simp: own_slot_def active_claims_def)
qed (use f(2) k weight_nonneg in \<open>auto simp: own_slot_def intro: covered_weight\<close>)

text \<open>
  C28: the children of a group never use more than was prepaid for them. Whatever the processes of the
  machine do, every active claim of a group sits in a child slot of its own, no two claims in the same
  one: the slot the claim names, reserved for that group, claimed and bound to exactly the launch of the
  claim, and, as recorded, for the same provider and with at least
  the demand of the claim of every resource; so for every resource the
  active claims together are within the child slots. The plans are those the package builds (\<open>plan_ok\<close>):
  distinct slots, demands as constructed, and no child slot with the name of the slot of the parent,
  which the code addresses by its name. The check of a member does not forbid that name; the one caller,
  \<open>managed_resource_group.py\<close>, builds the slots parent and child-0, child-1 and so on.
\<close>

theorem prepaid_children_fit:
  assumes "group_step\<^sup>*\<^sup>* empty_groups d"
  shows "(\<exists>f. inj_on f (set (active_claims g d)) \<and>
      (\<forall>c \<in> set (active_claims g d). f c \<in> set (prepaid_slots g d) \<and> sl_slot (f c) = cl_slot c \<and>
         sl_state (f c) = ''claimed'' \<and> sl_binding (f c) = Some (cl_binding c) \<and>
         covered (cl_demand c) (sl_demand (f c)))) \<and>
    (\<forall>k \<in> set resource_names. sum_list (map (\<lambda>c. weight k (cl_demand c)) (active_claims g d))
       \<le> sum_list (map (\<lambda>s. weight k (sl_demand s)) (prepaid_slots g d)))"
proof -
  have ok: "groups_ok d" by (rule group_steps_ok [OF assms empty_groups_ok])
  obtain f where f: "inj_on f (set (active_claims g d))" "\<And>c. c \<in> set (active_claims g d) \<Longrightarrow> own_slot d c (f c)"
    using own_slots [OF ok] by blast
  have g: "cl_group c = g" if "c \<in> set (active_claims g d)" for c using that by (simp add: active_claims_def)
  show ?thesis
    by (intro conjI exI [of _ f] f(1) ballI own_slots_cover [OF ok _ f])
      (use f(2) g in \<open>auto simp: own_slot_def claimed_by_def\<close>)
qed

end
