(* ===== verification/Prepaid_Contract.thy ===== *)
theory Prepaid_Contract
  imports Prepaid_Safety Admission_Scenario
begin

text \<open>
  The end of a prepaid group: what it needs and what it frees, and a crash after which a group can
  never be closed. At the end a concrete group for the witnesses.
\<close>

section \<open>What no step undoes\<close>

definition regs_kept :: "registry \<Rightarrow> registry \<Rightarrow> bool" where
  "regs_kept q q' = ((registry_ok q \<longrightarrow> registry_ok q') \<and> (\<forall>r \<in> set (rg_rows q). ma_status r = ''reclaimed'' \<longrightarrow>
     (\<exists>s \<in> set (rg_rows q'). ma_sequence s = ma_sequence r \<and> ma_ticket s = ma_ticket r \<and> ma_status s = ''reclaimed'')))"

definition slots_kept :: "slot_row list \<Rightarrow> slot_row list \<Rightarrow> bool" where
  "slots_kept ss ss' = (\<forall>s \<in> set ss. \<exists>t \<in> set ss'. slot_kept s t)"

lemma regs_kept_refl [simp]: "regs_kept q q"
  by (auto simp: regs_kept_def)

lemma regs_kept_same: "rg_rows q' = rg_rows q \<Longrightarrow> rg_last q' = rg_last q \<Longrightarrow> regs_kept q q'"
  by (auto simp: regs_kept_def registry_ok_def)

lemma regs_kept_trans: "regs_kept q q1 \<Longrightarrow> regs_kept q1 q2 \<Longrightarrow> regs_kept q q2"
  unfolding regs_kept_def by metis

lemma regs_kept_le: "rows_le q q' \<Longrightarrow> regs_kept q q'"
  unfolding regs_kept_def using rows_le_ok rows_le_in by (fastforce simp: row_le_def)

lemma regs_kept_update:
  assumes "\<And>r. P r \<Longrightarrow> ma_status r \<noteq> ''reclaimed''" and "\<And>r. ma_sequence (f r) = ma_sequence r"
  shows "regs_kept q (update_rows P f q)"
proof -
  have "map ma_sequence (rg_rows (update_rows P f q)) = map ma_sequence (rg_rows q)"
    using assms(2) by (simp add: update_rows_def map_update_where)
  moreover from this have "ma_sequence ` set (rg_rows (update_rows P f q)) = ma_sequence ` set (rg_rows q)" by (metis set_map)
  ultimately have "registry_ok q \<longrightarrow> registry_ok (update_rows P f q)"
    unfolding registry_ok_def update_rows_last by (metis (no_types, lifting) image_iff)
  moreover have "r \<in> set (rg_rows (update_rows P f q))" if "r \<in> set (rg_rows q)" "ma_status r = ''reclaimed''" for r
    using that assms(1) by (force simp: update_rows_def set_update_where)
  ultimately show ?thesis unfolding regs_kept_def by blast
qed

lemma release_slots_kept: "release_slots ss q = Inr q' \<Longrightarrow> regs_kept q q'"
proof (induction ss arbitrary: q)
  case (Cons s ss)
  have "regs_kept q (update_rows (slot_open s) (\<lambda>r. r\<lparr>ma_status := ''released''\<rparr>) q)"
    by (rule regs_kept_update) (auto simp: slot_open_def open_status_def)
  then show ?case using Cons regs_kept_trans by (auto split: if_splits)
qed simp

lemma requeue_slots_kept: "requeue_slots age ss q = Inr q' \<Longrightarrow> regs_kept q q'"
proof (induction ss arbitrary: q)
  case (Cons s ss)
  have "regs_kept q (update_rows (slot_released s) (\<lambda>r. r\<lparr>ma_status := ''waiting'', ma_age := age, ma_recheck := 0\<rparr>) q)"
    by (rule regs_kept_update) (auto simp: slot_released_def)
  then show ?case using Cons regs_kept_trans by (auto split: if_splits)
qed simp

lemma slots_kept_refl [simp]: "slots_kept ss ss" "slots_kept ss (ss @ ts)"
  by (auto simp: slots_kept_def intro: slot_kept_refl)

lemma slot_kept_trans: "slot_kept s t \<Longrightarrow> slot_kept t u \<Longrightarrow> slot_kept s u"
  by (simp add: slot_kept_def)

lemma slots_kept_trans: "slots_kept ss ts \<Longrightarrow> slots_kept ts us \<Longrightarrow> slots_kept ss us"
  unfolding slots_kept_def using slot_kept_trans by blast

lemma slots_kept_update: "(\<And>s. slot_kept s (f s)) \<Longrightarrow> slots_kept ss (update_where P f ss)"
proof -
  assume f: "\<And>s. slot_kept s (f s)"
  have "\<exists>t \<in> set (update_where P f ss). slot_kept s t" if "s \<in> set ss" for s
  proof (rule bexI [of _ "if P s then f s else s"])
    show "slot_kept s (if P s then f s else s)" using f by simp
    show "(if P s then f s else s) \<in> set (update_where P f ss)" using that unfolding set_update_where by (rule imageI)
  qed
  then show ?thesis by (simp add: slots_kept_def)
qed

definition kept :: "groups \<Rightarrow> groups \<Rightarrow> bool" where
  "kept d d' = (regs_kept (gd_queue d) (gd_queue d') \<and> slots_kept (gd_slots d) (gd_slots d'))"

lemma kept_refl [simp]: "kept d d"
  by (simp add: kept_def)

lemma kept_trans: "kept d d1 \<Longrightarrow> kept d1 d2 \<Longrightarrow> kept d d2"
  unfolding kept_def using regs_kept_trans slots_kept_trans by blast

lemma groups_kept_tx: "(\<And>x d'. body d = Inr (x, d') \<Longrightarrow> kept d d') \<Longrightarrow> kept d (snd (groups_transaction body d))"
  by (auto simp: groups_transaction_def split: sum.split)

lemma kept_rows [simp]: "kept d (d'\<lparr>gd_groups := gs\<rparr>) = kept d d'" "kept d (d'\<lparr>gd_claims := cs\<rparr>) = kept d d'"
  "kept d (update_group g f d') = kept d d'"
  by (simp_all add: kept_def update_group_def)

lemma bind_slot_kept:
  assumes "bind_slot g k P b f d = Inr (x, d')" and "\<And>s. slot_kept s (f s)" shows "kept d d'"
  unfolding bind_slot_D(1) [OF assms(1)] kept_def by (simp add: slots_kept_update assms(2))

lemma group_settle_kept: "settle_group p f d = Inr (x, d') \<Longrightarrow> kept d d'"
  by (auto simp: settle_group_def kept_def update_group_def dest: release_slots_kept)

lemma insert_slot_kept: "insert_slot s d = Inr (x, d') \<Longrightarrow> kept d d'"
  by (auto simp: insert_slot_def kept_def regs_kept_same split: if_splits)

lemma insert_slots_kept: "insert_slots_tx p ts ms d = Inr (x, d') \<Longrightarrow> kept d d'"
  by (induction ms arbitrary: d) (auto dest!: insert_slot_kept intro: kept_trans)

lemma tx_kept:
  "confirm_tx p d = Inr (x, d') \<Longrightarrow> kept d d'" "hold_tx owner p d = Inr (x, d') \<Longrightarrow> kept d d'"
  "claim_parent_tx p b d = Inr (x, d') \<Longrightarrow> kept d d'" "rebind_parent_tx p b' b d = Inr (x, d') \<Longrightarrow> kept d d'"
  by (auto simp: confirm_tx_def hold_tx_def claim_parent_tx_def rebind_parent_tx_def kept_def slots_kept_update update_group_def
      split: if_splits dest!: bind_slot_kept)

lemma claim_child_kept: "claim_child_tx p b y d = Inr (x, d') \<Longrightarrow> kept d d'"
  by (auto simp: claim_child_tx_def split: option.splits if_splits dest!: bind_slot_kept)

lemma bind_child_kept: "bind_child_tx p c b d = Inr (x, d') \<Longrightarrow> kept d d'"
  by (auto simp: bind_child_tx_def Let_def split: option.splits if_splits dest!: bind_slot_kept)

lemma finish_child_kept: "finish_child_tx p c d = Inr (x, d') \<Longrightarrow> kept d d'"
  by (auto simp: finish_child_tx_def Let_def kept_def slots_kept_update split: option.splits if_splits)

lemma parent_ended_kept: "parent_ended_tx p b h d = Inr (x, d') \<Longrightarrow> kept d d'"
  by (auto simp: parent_ended_tx_def Let_def split: if_splits)

lemma close_kept: "close_tx p d = Inr (x, d') \<Longrightarrow> kept d d'"
  by (auto simp: close_tx_def split: option.splits if_splits dest: group_settle_kept)

lemma release_hold_kept: "release_hold_tx p h n d = Inr (x, d') \<Longrightarrow> kept d d'"
  by (auto simp: release_hold_tx_def Let_def kept_def update_group_def split: option.splits if_splits dest: release_slots_kept)

lemma expire_kept:
  assumes "expire_tx p now d = Inr (x, d')" shows "kept d d'"
proof (cases "group_of (pn_group p) d")
  case (Some g)
  with assms show ?thesis unfolding expire_tx_def bindR_eq_Inr option.case
    by (auto split: if_split_asm dest: group_settle_kept)
qed (use assms in \<open>auto simp: expire_tx_def\<close>)

lemma retry_kept: "retry_tx e p d = Inr (x, d') \<Longrightarrow> kept d d'"
  by (auto simp: retry_tx_def Let_def kept_def update_group_def split: option.splits if_splits dest: requeue_slots_kept)

lemma stage_kept: "stage_tx e p d = Inr (x, d') \<Longrightarrow> kept d d'"
  by (auto simp: stage_tx_def split: if_splits)

lemma confirm_slots_kept: "confirm_slots_tx p ts d = Inr (x, d') \<Longrightarrow> kept d d'"
  by (auto simp: confirm_slots_tx_def Let_def tx_kept split: if_splits)

lemma group_step_kept: "group_step d d' \<Longrightarrow> kept d d'"
proof (induction rule: group_step.induct)
  case (queue d q)
  then show ?case by (simp add: kept_def regs_kept_le queue_step_le)
next
  case (hold d e p)
  show ?case by (auto simp: hold_parent_launch_def intro: groups_kept_tx tx_kept split: sum.split)
next
  case (claim_child x d p b)
  show ?case by (auto simp: claim_child_def intro: groups_kept_tx claim_child_kept split: sum.split)
next
  case (bind_child d p c i)
  show ?case by (auto simp: bind_child_consumer_def intro: groups_kept_tx bind_child_kept)
next
  case (finish_child d rd p c)
  show ?case by (auto simp: finish_child_def intro: groups_kept_tx finish_child_kept split: sum.split)
next
  case (parent_ended d rd p b h)
  show ?case by (auto simp: mark_parent_ended_def intro: groups_kept_tx parent_ended_kept split: sum.split)
next
  case (close d rd p seen)
  show ?case by (auto simp: close_after_parent_end_def intro: groups_kept_tx close_kept split: sum.split)
next
  case (release_hold d e rd p h live seen)
  show ?case by (auto simp: release_unissued_hold_def Let_def intro: groups_kept_tx release_hold_kept split: sum.split)
next
  case (expire d rd p now seen)
  show ?case by (auto simp: expire_staging_def intro: groups_kept_tx expire_kept split: sum.split)
qed (auto intro: groups_kept_tx stage_kept insert_slots_kept tx_kept confirm_slots_kept retry_kept)

lemma group_steps_kept: "group_step\<^sup>*\<^sup>* d d' \<Longrightarrow> kept d d'"
  by (induction rule: rtranclp_induct) (auto intro: kept_trans group_step_kept)

section \<open>Closing\<close>

text \<open>The leases of all slots are open when the slots are released.\<close>

lemma release_slots_open:
  "release_slots ss q = Inr q' \<Longrightarrow> s \<in> set ss \<Longrightarrow> \<exists>r \<in> set (rg_rows q). slot_open s r"
proof (induction ss arbitrary: q)
  case (Cons t ss)
  let ?q = "update_rows (slot_open t) (\<lambda>r. r\<lparr>ma_status := ''released''\<rparr>) q"
  have 0: "count_where (slot_open t) (rg_rows q) = 1" and run: "release_slots ss ?q = Inr q'" using Cons.prems(1) by (auto split: if_splits)
  have "0 < count_where (slot_open t) (rg_rows q)" using 0 by simp
  then have t: "\<exists>r \<in> set (rg_rows q). slot_open t r" unfolding count_where_pos .
  show ?case
  proof (cases "s = t")
    case False
    then obtain r where "r \<in> set (rg_rows ?q)" "slot_open s r" using Cons.IH [OF run] Cons.prems(2) by auto
    then show ?thesis by (auto simp: update_rows_def set_update_where slot_open_def open_status_def split: if_splits)
  qed (use t in simp)
qed simp

lemma settled_not_reclaimed:
  assumes "release_slots ss q = Inr q'" and "s \<in> set ss" and "registry_ok q"
    and "r \<in> set (rg_rows q)" "ma_sequence r = sl_sequence s" shows "ma_status r \<noteq> ''reclaimed''"
proof -
  from release_slots_open [OF assms(1,2)] obtain z where z: "z \<in> set (rg_rows q)" "slot_open s z" by blast
  then have "z = r" using assms(4,5) ok_distinct [OF assms(3)] by (auto simp: slot_open_def distinct_map inj_on_def)
  then show ?thesis using z(2) by (auto simp: slot_open_def open_status_def)
qed

text \<open>
  C37: once the lease of a slot was reclaimed, its group can never be closed: the release of the group
  needs the lease of every slot to be open, and no call of any process makes a reclaimed lease
  open again. The leases of the other slots stay with it.
\<close>

theorem reclaimed_slot_never_closes:
  assumes "registry_ok (gd_queue d)" and "s \<in> set (gd_slots d)" and "sl_group s = pn_group p"
    and "r \<in> set (rg_rows (gd_queue d))" and "ma_sequence r = sl_sequence s" and "ma_ticket r = sl_ticket s"
    and "ma_status r = ''reclaimed''" and "group_step\<^sup>*\<^sup>* d d'"
  shows "isl (fst (close_after_parent_end rd p seen d'))"
proof -
  note k = group_steps_kept [OF assms(8), unfolded kept_def]
  then have ok: "registry_ok (gd_queue d')" using assms(1) unfolding regs_kept_def by blast
  obtain r' where r': "r' \<in> set (rg_rows (gd_queue d'))" "ma_sequence r' = sl_sequence s" "ma_status r' = ''reclaimed''"
    using k assms(4-7) unfolding regs_kept_def by metis
  obtain t where t: "t \<in> set (gd_slots d')" "slot_kept s t" using k assms(2) unfolding slots_kept_def by blast
  then have t': "t \<in> set (slots_of (pn_group p) d')" "sl_sequence t = sl_sequence s"
    using assms(3) by (simp_all add: slots_of_def slot_kept_def)
  have "isl (release_slots (slots_of (pn_group p) d') (gd_queue d'))"
    using settled_not_reclaimed [OF _ t'(1) ok r'(1)] r' t'(2) by (auto simp: isl_not_Inr)
  then have "isl (close_tx p d')"
    by (cases "release_slots (slots_of (pn_group p) d') (gd_queue d')")
      (auto simp: isl_not_Inr close_tx_def settle_group_def split: option.splits if_splits)
  then show ?thesis
    by (cases "close_tx p d'") (auto simp: close_after_parent_end_def groups_transaction_def split: sum.split)
qed

lemma release_slots_rows:
  "release_slots ss q = Inr q' \<Longrightarrow>
     rg_rows q' = map (\<lambda>r. if \<exists>s \<in> set ss. slot_open s r then r\<lparr>ma_status := ''released''\<rparr> else r) (rg_rows q)"
proof (induction ss arbitrary: q)
  case (Cons t ss)
  let ?q = "update_rows (slot_open t) (\<lambda>r. r\<lparr>ma_status := ''released''\<rparr>) q"
  have "release_slots ss ?q = Inr q'" using Cons.prems by (auto split: if_splits)
  from Cons.IH [OF this] have rows: "rg_rows q' = map ((\<lambda>r. if \<exists>s \<in> set ss. slot_open s r then r\<lparr>ma_status := ''released''\<rparr> else r) \<circ>
      (\<lambda>r. if slot_open t r then r\<lparr>ma_status := ''released''\<rparr> else r)) (rg_rows q)"
    by (simp add: update_rows_def update_where_def)
  have closed: "\<not> slot_open s (r\<lparr>ma_status := ''released''\<rparr>)" for s r by (simp add: slot_open_def open_status_def)
  show ?case unfolding rows
  proof (rule map_cong [OF refl])
    fix r show "((\<lambda>r. if \<exists>s \<in> set ss. slot_open s r then r\<lparr>ma_status := ''released''\<rparr> else r) \<circ>
        (\<lambda>r. if slot_open t r then r\<lparr>ma_status := ''released''\<rparr> else r)) r
      = (if \<exists>s \<in> set (t # ss). slot_open s r then r\<lparr>ma_status := ''released''\<rparr> else r)"
      by (cases "slot_open t r") (simp_all add: closed)
  qed
qed simp

text \<open>
  C29: closing a group frees exactly its own leases, and only when it is settled: the parent was recorded
  as ended, the consumer bound to it is gone by the evidence, and no child slot is claimed.
\<close>

theorem close_needs_settlement:
  assumes "close_after_parent_end rd p seen d = (Inr (), d')"
  shows "(\<exists>g b s. group_of (pn_group p) d = Some g \<and> gp_state g = ''parent_ended'' \<and> gp_proof g \<noteq> None \<and>
       parent_slot (pn_group p) seen = Some s \<and> sl_binding s = Some b \<and> consumer_gone rd b = Inr True) \<and>
     filter (\<lambda>s. sl_role s = ''child'' \<and> sl_state s = ''claimed'') (slots_of (pn_group p) d) = [] \<and>
     rg_rows (gd_queue d') = map (\<lambda>r. if list_ex (\<lambda>s. slot_open s r) (slots_of (pn_group p) d)
       then r\<lparr>ma_status := ''released''\<rparr> else r) (rg_rows (gd_queue d)) \<and>
     gd_slots d' = gd_slots d"
proof -
  from assms have tx: "close_tx p d = Inr ((), d')"
    and seen: "\<exists>s b. parent_slot (pn_group p) seen = Some s \<and> sl_binding s = Some b \<and> consumer_gone rd b = Inr True"
    by (auto simp: close_after_parent_end_def groups_transaction_def split: sum.splits option.splits if_splits)
  from tx obtain g where g: "group_of (pn_group p) d = Some g" "gp_state g = ''parent_ended''" "gp_proof g \<noteq> None"
    "\<not> list_ex (\<lambda>s. sl_role s = ''child'' \<and> sl_state s = ''claimed'') (slots_of (pn_group p) d)"
    "settle_group p (\<lambda>r. r\<lparr>gp_state := ''closed''\<rparr>) d = Inr ((), d')"
    by (auto simp: close_tx_def split: option.splits if_splits)
  from g(5) obtain q where q: "release_slots (slots_of (pn_group p) d) (gd_queue d) = Inr q"
    "d' = update_group (pn_group p) (\<lambda>r. r\<lparr>gp_state := ''closed''\<rparr>) (d\<lparr>gd_queue := q\<rparr>)"
    by (auto simp: settle_group_def)
  show ?thesis using g(1-4) seen release_slots_rows [OF q(1)] q(2)
    by (auto simp: update_group_def list_ex_iff filter_empty_conv)
qed

section \<open>Reserving\<close>

text \<open>The calls made of several transactions are runs of the step relation.\<close>

lemma in_queue_steps:
  assumes "\<And>q. queue_step q (snd (f q))" shows "group_step d (snd (in_queue f d))"
  using group_step.queue [OF assms, of d] by (simp add: in_queue_def case_prod_beta)

lemma enqueue_members_steps: "group_step\<^sup>*\<^sup>* d (snd (enqueue_members e fresh n p ms ts d))"
proof (induction e fresh n p ms ts d rule: enqueue_members.induct)
  case (2 e fresh n p m ms ts d)
  let ?op = "enqueue (e\<lparr>qe_fresh := fresh n\<rparr>) (member_request p m)"
  have "group_step d (snd (in_queue ?op d))" by (intro in_queue_steps queue_step.enqueue)
  with 2 show ?case by (cases "in_queue ?op d") (auto intro: converse_rtranclp_into_rtranclp split: sum.split)
qed simp

lemma release_staged_steps: "group_step\<^sup>*\<^sup>* d (release_staged e ts d)"
proof (induction ts arbitrary: d)
  case (Cons kt ts)
  have "group_step d (snd (in_queue (release_lease e (snd kt) (gd_queue d)) d))"
    by (intro in_queue_steps queue_step.release)
  with Cons show ?case by (auto intro: converse_rtranclp_into_rtranclp)
qed simp

lemma admit_group_steps:
  assumes "group_step (snd (in_queue (try_admit e reader obs (ticket_of ts (mb_slot (parent_member p)))) d))
      (snd (groups_transaction confirm (snd (in_queue (try_admit e reader obs (ticket_of ts (mb_slot (parent_member p)))) d))))"
  shows "group_step\<^sup>*\<^sup>* d (snd (admit_group e reader obs p ts confirm d))"
proof -
  let ?op = "try_admit e reader obs (ticket_of ts (mb_slot (parent_member p)))"
  have 1: "group_step d (snd (in_queue ?op d))" by (intro in_queue_steps queue_step.admit)
  show ?thesis
    using 1 assms by (cases "in_queue ?op d")
      (auto simp: admit_group_def Let_def split: sum.split prod.split intro: r_into_rtranclp rtranclp.rtrancl_into_rtrancl)
qed

lemma reserve_members_steps:
  assumes "plan_ok p" shows "group_step\<^sup>*\<^sup>* d (snd (reserve_members e fresh reader obs p d))"
proof -
  obtain r ts d1 where en: "enqueue_members e fresh 0 p (pn_members p) [] d = ((r, ts), d1)" by (metis prod.exhaust)
  have 1: "group_step\<^sup>*\<^sup>* d d1" using enqueue_members_steps [of d e fresh 0 p "pn_members p" "[]"] en by simp
  obtain r2 d2 where tx: "groups_transaction (insert_slots_tx p ts (pn_members p)) d1 = (r2, d2)" by (metis prod.exhaust)
  have 2: "group_step\<^sup>*\<^sup>* d d2" using group_step.slots [OF assms, of d1 ts] 1 tx by (auto intro: rtranclp.rtrancl_into_rtrancl)
  have 3: "group_step\<^sup>*\<^sup>* d2 (snd (admit_group e reader obs p ts (confirm_slots_tx p ts) d2))"
    by (intro admit_group_steps group_step.confirm_slots)
  have "group_step\<^sup>*\<^sup>* d (release_staged e ts d1)" using 1 release_staged_steps rtranclp_trans by metis
  moreover have "group_step\<^sup>*\<^sup>* d (release_staged e ts d2)" using 2 release_staged_steps rtranclp_trans by metis
  moreover have "group_step\<^sup>*\<^sup>* d (snd (admit_group e reader obs p ts (confirm_slots_tx p ts) d2))"
    using 2 3 rtranclp_trans by metis
  ultimately show ?thesis by (simp add: reserve_members_def en tx split: sum.split)
qed

lemma reserve_group_steps:
  assumes "plan_ok p" shows "group_step\<^sup>*\<^sup>* d (snd (reserve_group e fresh reader obs p d))"
proof -
  obtain r d1 where tx: "groups_transaction (stage_tx e p) d = (r, d1)" by (metis prod.exhaust)
  have 1: "group_step d d1" using group_step.stage [of d e p] tx by simp
  have "group_step\<^sup>*\<^sup>* d (snd (reserve_members e fresh reader obs p d1))"
    using converse_rtranclp_into_rtranclp [OF 1 reserve_members_steps [OF assms]] .
  then show ?thesis using 1 reserve_members_steps [OF assms, of d e fresh reader obs]
    by (auto simp: reserve_group_def tx split: sum.split option.split)
qed

lemma admit_group_reserved:
  assumes "admit_group e reader obs p ts confirm d = (Inr rv, d')" and "rv_state rv = ''reserved''"
    and "\<And>x d1 d2. confirm d1 = Inr (x, d2) \<Longrightarrow> active_slots (pn_group p) d2 = length (pn_members p)"
  shows "active_slots (pn_group p) d' = length (pn_members p) \<and> rv_tickets rv = ts"
  using assms(1,2) assms(3)
  by (auto simp: admit_group_def Let_def groups_transaction_def split: prod.splits sum.splits if_splits)

lemma active_slots_groups [simp]: "active_slots g (d\<lparr>gd_groups := gs\<rparr>) = active_slots g d"
  by (simp add: active_slots_def joined_def slots_of_def)

lemma confirm_active:
  "confirm_tx p d1 = Inr (x, d2) \<Longrightarrow> active_slots (pn_group p) d2 = length (pn_members p)"
  "confirm_slots_tx p ts d1 = Inr (x, d2) \<Longrightarrow> active_slots (pn_group p) d2 = length (pn_members p)"
  by (auto simp: confirm_tx_def confirm_slots_tx_def Let_def split: if_splits)

text \<open>
  A group is reserved as a whole: a reservation that says so has an active lease for every member,
  whatever was staged by earlier calls.
\<close>

theorem reserved_group_complete:
  assumes "reserve_group e fresh reader obs p d = (Inr rv, d')" and "rv_state rv = ''reserved''"
  shows "active_slots (pn_group p) d' = length (pn_members p)"
proof -
  have members: "active_slots (pn_group p) d' = length (pn_members p)"
    if run: "reserve_members e fresh reader obs p d1 = (Inr rv, d')" for d1
  proof -
    from run obtain ts d2 where "admit_group e reader obs p ts (confirm_slots_tx p ts) d2 = (Inr rv, d')"
      by (auto simp: reserve_members_def split: prod.splits sum.splits)
    from admit_group_reserved [OF this assms(2) confirm_active(2)] show ?thesis by simp
  qed
  show ?thesis using assms
    by (auto simp: reserve_group_def split: sum.splits option.splits if_splits prod.splits dest: members)
qed

end
