(* ===== verification/Prepaid_Scenario.thy ===== *)
theory Prepaid_Scenario
  imports Prepaid_Contract
begin

text \<open>
  A concrete prepaid group, for the witnesses, and the crash after which it can not be closed.
\<close>

section \<open>A group\<close>

definition sample_plan :: group_plan where
  "sample_plan = \<lparr>pn_group = ''g'', pn_repo = ''o'', pn_run = ''r'', pn_generation = 1, pn_root = ''/s'', pn_key = ''k'',
     pn_members = [\<lparr>mb_slot = ''parent'', mb_role = ''parent'', mb_demand = default_demand\<rparr>,
       \<lparr>mb_slot = ''c1'', mb_role = ''child'', mb_demand = default_demand\<rparr>],
     pn_hash = replicate 64 (CHR ''0''), pn_expires = 500, pn_inventory = None\<rparr>"

definition fresh_ticket :: "nat \<Rightarrow> string" where
  "fresh_ticket n = CHR ''t'' # nat_str n"

definition no_evidence :: "string \<Rightarrow> lease \<Rightarrow> fenced_record option" where
  "no_evidence root l = None"

definition parent_binding :: launch_binding where
  "parent_binding = \<lparr>lb_repo = ''o'', lb_run = ''r'', lb_key = ''k'', lb_intent = ''i'', lb_generation = 1,
     lb_supervisor = sample_ident, lb_consumer = Some sample_child\<rparr>"

definition child_binding :: launch_binding where
  "child_binding = parent_binding\<lparr>lb_key := ''c'', lb_intent := ''j'', lb_consumer := None\<rparr>"

definition dead_reader :: group_reader where
  "dead_reader = \<lparr>gr_native = (\<lambda>_. Some DEAD), gr_authorized = (\<lambda>_. True), gr_forked = Some (\<lambda>_. Some True)\<rparr>"

definition proof_sha :: string where
  "proof_sha = replicate 64 (CHR ''a'')"

text \<open>The states of the run, written out: the leases with their status, the group and its slots.\<close>

definition lease_row :: "int \<Rightarrow> string \<Rightarrow> string \<Rightarrow> string \<Rightarrow> string option \<Rightarrow> launch_binding option \<Rightarrow> admission" where
  "lease_row n t key st lim b = \<lparr>ma_sequence = n, ma_ticket = t, ma_root = ''/s'', ma_run = ''r'', ma_owner = sample_ident,
     ma_status = st, ma_repo = ''o'', ma_key = key, ma_generation = 1, ma_writer = 2, ma_demand = demand_record default_demand,
     ma_group = Some ''g'', ma_width = 2, ma_age = 100, ma_recheck = 112, ma_limiting = lim, ma_observed = Some 3,
     ma_progress = (if b = None then 103 else 100), ma_intent = map_option lb_intent b,
     ma_child = (case b of None \<Rightarrow> None | Some x \<Rightarrow> lb_consumer x)\<rparr>"

definition slot_for :: "int \<Rightarrow> string \<Rightarrow> string \<Rightarrow> string \<Rightarrow> launch_binding option \<Rightarrow> slot_row" where
  "slot_for n t k role b = \<lparr>sl_group = ''g'', sl_slot = k, sl_role = role, sl_sequence = n, sl_ticket = t, sl_owner = sample_ident,
     sl_demand = demand_record default_demand, sl_state = (if b = None then ''reserved'' else ''claimed''), sl_binding = b,
     sl_launched = (b \<noteq> None)\<rparr>"

definition group_state :: "string \<Rightarrow> string option \<Rightarrow> string \<Rightarrow> launch_binding option \<Rightarrow> string \<Rightarrow> string option \<Rightarrow> groups" where
  "group_state st lim st' b gst pr = \<lparr>gd_queue = \<lparr>rg_rows = [lease_row 1 ''t0'' ''k'' st lim b,
       lease_row 2 ''t1'' ''parent-group:g:c1'' st' None None],
       rg_last = 2, rg_cursor = Some (''o'', ''r''), rg_progress = 103, rg_feedback = [], rg_results = [], rg_prepaid = [(1, ''t0''), (2, ''t1'')]\<rparr>,
     gd_groups = [\<lparr>gp_id = ''g'', gp_plan = inventory_record sample_plan, gp_hash = pn_hash sample_plan, gp_state = gst, gp_age = 100,
       gp_expires = 500, gp_parent = b, gp_proof = pr\<rparr>],
     gd_slots = [slot_for 1 ''t0'' ''parent'' ''parent'' b, slot_for 2 ''t1'' ''c1'' ''child'' None], gd_claims = []\<rparr>"

definition reserved :: groups where
  "reserved = group_state ''active'' None ''active'' None ''reserved'' None"

definition parent_claimed :: groups where
  "parent_claimed = group_state ''active'' None ''active'' (Some parent_binding) ''reserved'' None"

definition parent_over :: groups where
  "parent_over = group_state ''active'' None ''active'' (Some parent_binding) ''parent_ended'' (Some proof_sha)"

definition closed_group :: groups where
  "closed_group = group_state ''released'' None ''released'' (Some parent_binding) ''closed'' (Some proof_sha)"

definition crashed :: groups where
  "crashed = group_state ''reclaimed'' (Some ''lease-dead'') ''active'' (Some parent_binding) ''parent_ended'' (Some proof_sha)"

definition sample_reservation :: reservation_result where
  "sample_reservation = \<lparr>rv_group = ''g'', rv_tickets = [(''parent'', \<lparr>tt_sequence = 1, tt_ticket = ''t0'', tt_owner = sample_ident\<rparr>),
     (''c1'', \<lparr>tt_sequence = 2, tt_ticket = ''t1'', tt_owner = sample_ident\<rparr>)], rv_state = ''reserved''\<rparr>"

lemma sample_plan_ok: "plan_ok sample_plan"
  by (auto simp: plan_ok_def sample_plan_def default_demand_def demand_ok_def)

lemma run_reserve:
  "reserve_group sample_env fresh_ticket no_evidence (Some sample_machine) sample_plan empty_groups = (Inr sample_reservation, reserved)"
  by code_simp

lemma run_claim: "snd (claim_parent sample_env sample_plan parent_binding reserved reserved) = parent_claimed"
  by code_simp

lemma run_ended: "mark_parent_ended dead_reader sample_plan parent_binding proof_sha parent_claimed = (Inr (), parent_over)"
  by code_simp

lemma run_close: "close_after_parent_end dead_reader sample_plan parent_over parent_over = (Inr (), closed_group)"
  by code_simp

text \<open>
  The supervisor and the parent died before the group was closed, and another process reclaims the
  dead leases: of the group it takes the lease of the parent alone.
\<close>

lemma run_crash: "snd (in_queue (\<lambda>q. reclaim_dead dead_env no_evidence q q) parent_over) = crashed"
  by code_simp

section \<open>Witnesses\<close>

theorem reserved_group_complete_witness:
  "active_slots ''g'' reserved = 2"
proof -
  have "rv_state sample_reservation = ''reserved''" by (simp add: sample_reservation_def)
  from reserved_group_complete [OF run_reserve this] show ?thesis by (simp add: sample_plan_def)
qed

lemma reserved_steps: "group_step\<^sup>*\<^sup>* empty_groups reserved"
  using reserve_group_steps [OF sample_plan_ok, of empty_groups sample_env fresh_ticket no_evidence "Some sample_machine"]
  by (simp add: run_reserve)

definition child_claimed :: groups where
  "child_claimed = snd (claim_child sample_plan child_binding default_demand reserved)"

theorem prepaid_children_fit_witness:
  "(\<exists>f. \<forall>c \<in> set (active_claims ''g'' child_claimed). f c \<in> set (prepaid_slots ''g'' child_claimed) \<and>
      covered (cl_demand c) (sl_demand (f c))) \<and>
   sum_list (map (\<lambda>c. weight ''cpu'' (cl_demand c)) (active_claims ''g'' child_claimed))
     \<le> sum_list (map (\<lambda>s. weight ''cpu'' (sl_demand s)) (prepaid_slots ''g'' child_claimed)) \<and>
   length (active_claims ''g'' child_claimed) = 1"
proof (intro conjI)
  have "demand_ok default_demand" by (simp add: demand_ok_def default_demand_def)
  then have "group_step reserved child_claimed" unfolding child_claimed_def by (rule group_step.claim_child)
  with reserved_steps have 1: "group_step\<^sup>*\<^sup>* empty_groups child_claimed" by (rule rtranclp.rtrancl_into_rtrancl)
  have "''cpu'' \<in> set resource_names" by (simp add: resource_names_def)
  with prepaid_children_fit [OF 1, of "''g''"] show "sum_list (map (\<lambda>c. weight ''cpu'' (cl_demand c)) (active_claims ''g'' child_claimed))
     \<le> sum_list (map (\<lambda>s. weight ''cpu'' (sl_demand s)) (prepaid_slots ''g'' child_claimed))" by blast
  from prepaid_children_fit [OF 1, of "''g''"] show "\<exists>f. \<forall>c \<in> set (active_claims ''g'' child_claimed).
     f c \<in> set (prepaid_slots ''g'' child_claimed) \<and> covered (cl_demand c) (sl_demand (f c))" by blast
qed code_simp

theorem close_needs_settlement_witness:
  "map ma_status (rg_rows (gd_queue parent_over)) = [''active'', ''active''] \<and>
   map ma_status (rg_rows (gd_queue closed_group)) = [''released'', ''released''] \<and> gd_slots closed_group = gd_slots parent_over"
proof (intro conjI)
  from close_needs_settlement [OF run_close] show "gd_slots closed_group = gd_slots parent_over" by blast
qed code_simp+

definition later :: groups where
  "later = snd (groups_transaction (stage_tx sample_env (sample_plan\<lparr>pn_group := ''h''\<rparr>)) crashed)"

theorem reclaimed_slot_never_closes_witness:
  "snd (in_queue (\<lambda>q. reclaim_dead dead_env no_evidence q q) parent_over) = crashed \<and>
   map ma_status (rg_rows (gd_queue crashed)) = [''reclaimed'', ''active''] \<and>
   isl (fst (close_after_parent_end dead_reader sample_plan crashed later))"
proof (intro conjI run_crash)
  have "registry_ok (gd_queue crashed)" "hd (gd_slots crashed) \<in> set (gd_slots crashed)" "sl_group (hd (gd_slots crashed)) = pn_group sample_plan"
    "hd (rg_rows (gd_queue crashed)) \<in> set (rg_rows (gd_queue crashed))"
    "ma_sequence (hd (rg_rows (gd_queue crashed))) = sl_sequence (hd (gd_slots crashed))"
    "ma_ticket (hd (rg_rows (gd_queue crashed))) = sl_ticket (hd (gd_slots crashed))"
    "ma_status (hd (rg_rows (gd_queue crashed))) = ''reclaimed''"
    by (simp_all add: crashed_def group_state_def lease_row_def slot_for_def sample_plan_def registry_ok_def)
  moreover have "group_step\<^sup>*\<^sup>* crashed later" unfolding later_def by (intro r_into_rtranclp group_step.stage)
  ultimately show "isl (fst (close_after_parent_end dead_reader sample_plan crashed later))" by (rule reclaimed_slot_never_closes)
qed (simp add: crashed_def group_state_def lease_row_def)

end
