(* ===== verification/Cohort_Gate.thy ===== *)
theory Cohort_Gate
  imports Run_Safety
begin

text \<open>
  No member of a launch cohort runs before its cohort was released: the invariant of the rows of the
  cohorts over every sequence of calls, and what one reservation and one release of a cohort do.
\<close>

section \<open>Calls that leave the cohorts alone\<close>

definition permitted :: "db \<Rightarrow> string set" where
  "permitted d = in_id ` {i \<in> set (db_intents d). in_permit i \<noteq> None}"

text \<open>The cohorts are the same and no launch got a permit.\<close>

definition quiet :: "db \<Rightarrow> db \<Rightarrow> bool" where
  "quiet d d' = (db_members d' = db_members d \<and> db_cohorts d' = db_cohorts d \<and> permitted d' \<subseteq> permitted d)"

lemma quiet_refl [simp]: "quiet d d"
  by (simp add: quiet_def)

lemma quiet_trans: "quiet d d1 \<Longrightarrow> quiet d1 d2 \<Longrightarrow> quiet d d2"
  by (auto simp: quiet_def)

lemma permitted_same: "db_intents d' = db_intents d \<Longrightarrow> permitted d' = permitted d"
  by (simp add: permitted_def)

lemma quietI: "held d' = held d \<Longrightarrow> permitted d' \<subseteq> permitted d \<Longrightarrow> quiet d d'"
  by (simp add: quiet_def held_def)

lemma quiet_held: "held d' = held d \<Longrightarrow> db_intents d' = db_intents d \<Longrightarrow> quiet d d'"
  using permitted_same [of d' d] by (simp add: quietI)

lemma quiet_core: "core_frame d d' \<Longrightarrow> held d' = held d \<Longrightarrow> quiet d d'"
  by (rule quiet_held) (simp_all add: core_frame_def)

lemma quiet_side: "side d' = side d \<Longrightarrow> quiet d d'"
  using permitted_same [of d' d] by (simp add: side_def quiet_def)

lemma permitted_update:
  assumes "\<And>i. in_id (f i) = in_id i" and "\<And>i. in_permit (f i) = in_permit i \<or> in_permit (f i) = None"
    and "db_intents d' = update_where P f (db_intents d)"
  shows "permitted d' \<subseteq> permitted d"
proof
  fix x assume "x \<in> permitted d'"
  then obtain j where j: "j \<in> set (db_intents d')" "in_permit j \<noteq> None" "x = in_id j" by (auto simp: permitted_def)
  then obtain i where i: "i \<in> set (db_intents d)" "j = (if P i then f i else i)" by (auto simp: assms(3) set_update_where)
  have "in_permit i \<noteq> None \<and> x = in_id i"
    using i(2) j(2,3) assms(1) [of i] assms(2) [of i] by (cases "P i") auto
  then show "x \<in> permitted d" using i(1) by (auto simp: permitted_def)
qed

lemma permitted_append: "db_intents d' = db_intents d @ new \<Longrightarrow> \<forall>i \<in> set new. in_permit i = None \<Longrightarrow> permitted d' = permitted d"
  by (auto simp: permitted_def)

lemma quiet_tx: "(\<And>x d'. body d = Inr (x, d') \<Longrightarrow> quiet d d') \<Longrightarrow> quiet d (snd (transaction body d))"
  by (cases rule: transaction_cases [of body d]) auto

lemma permitted_tx:
  "(\<And>x d'. body d = Inr (x, d') \<Longrightarrow> permitted d' \<subseteq> permitted d) \<Longrightarrow> permitted (snd (transaction body d)) \<subseteq> permitted d"
  by (cases rule: transaction_cases [of body d]) auto

text \<open>An update that leaves or clears the permit.\<close>

definition no_permit :: "(intent \<Rightarrow> intent) \<Rightarrow> bool" where
  "no_permit f = (\<forall>i. in_id (f i) = in_id i \<and> (in_permit (f i) = in_permit i \<or> in_permit (f i) = None))"

lemma no_permit_state [simp]: "no_permit (set_state st)" "no_permit (complete_intent st' e u)" "no_permit (bind_child x k)"
  "no_permit (bind_monitored y l)" "no_permit (\<lambda>i. i\<lparr>in_state := s, in_permit := None\<rparr>)"
  by (simp_all add: no_permit_def set_state_def complete_intent_def bind_child_def bind_monitored_def)

lemma no_permit_update: "no_permit f \<Longrightarrow> db_intents d' = update_where P f (db_intents d) \<Longrightarrow> permitted d' \<subseteq> permitted d"
  by (rule permitted_update) (simp_all add: no_permit_def)

lemma quiet_seq:
  assumes "quiet d (snd r)" and "\<And>x d1. quiet d1 (snd (k x d1))"
  shows "quiet d (snd (seq_op r k))"
  using assms quiet_trans by (cases r; cases "fst r") auto

lemma quiet_preflight: "quiet d (snd (preflight_policy_clock w tk b n d))"
  by (rule quiet_core [OF core_preflight preflight_held])

lemma transition_quiet:
  assumes run: "transition_activity_tx w tk t d = Inr (r, d')" shows "quiet d d'"
proof (rule quietI [OF transition_held [OF run]])
  from run obtain old revoked payload where "d' = add_event ''activity_transition'' payload
     (update_activity (tr_activity t) (moved t old) (revoke_intents revoked d))" by (rule transition_tx_Inr)
  then show "permitted d' \<subseteq> permitted d"
    by (intro no_permit_update [where f = "\<lambda>i. i\<lparr>in_state := ''reconcile_required'', in_permit := None\<rparr>"]) (simp_all add: revoke_intents_def)
qed

lemma activity_quiet:
  assumes step: "activity_step d d'" shows "quiet d d'"
proof -
  note held = activity_held [OF step]
  note frames = create_launches runtime_launches select_launches event_launches debit_launches
  from step show ?thesis
  proof cases
    case (transit w tk t)
    then show ?thesis by (auto simp: transition_activity_def intro: quiet_tx transition_quiet)
  qed (use frames held in \<open>auto intro!: quiet_held simp: launches_frame_def\<close>)
qed

lemma limits_quiet: "quiet d (snd (configure_run_limits w tk args d))"
proof -
  have "db_intents (snd (transaction (configure_limits_tx w tk a b c) d1)) = db_intents d1" for a b c d1
    by (cases rule: transaction_cases [of "configure_limits_tx w tk a b c" d1])
      (auto simp: configure_limits_tx_def Let_def split: if_split_asm option.split_asm)
  then have "db_intents (snd (configure_run_limits w tk args d)) = db_intents d"
    by (cases args) (simp add: configure_run_limits_def)
  then show ?thesis by (rule quiet_held [OF limits_held])
qed

lemma reserve_tx_quiet: "quiet d (snd (transaction (reserve_launch_tx w tk a q c) d))"
proof (rule quietI [OF reserve_tx_held permitted_tx])
  fix x d' assume run: "reserve_launch_tx w tk a q c d = Inr (x, d')"
  obtain i reused where x: "x = (i, reused)" by (cases x)
  from run [unfolded x] show "permitted d' \<subseteq> permitted d"
  proof (cases rule: reserve_tx_cases)
    case (unknown e)
    then show ?thesis by (intro no_permit_update [where f = "set_state ''reconcile_required''"]) simp_all
  next
    case (fresh act)
    from reserve_write_Inr [OF fresh(7)] have "db_intents d' = db_intents d @ [i]" "in_permit i = None"
      by (auto simp: new_intent_def)
    then show ?thesis using permitted_append [of d' d "[i]"] by simp
  qed simp
qed

lemma reserve_quiet: "quiet d (snd (reserve_launch w tk args d))"
  by (cases args) (auto simp: reserve_launch_def reserve_tx_quiet intro!: quiet_seq quiet_preflight split: sum.split)

lemma recover_quiet: "quiet d (snd (recover_intent w tk args d))"
proof (rule quietI [OF recover_held])
  have "permitted (snd (transaction (recover_tx w tk i row) d)) \<subseteq> permitted d" for i row
    by (rule permitted_tx, rule no_permit_update [where f = "set_state (recovered_state w tk row)"]) (auto dest!: recover_tx_Inr)
  then show "permitted (snd (recover_intent w tk args d)) \<subseteq> permitted d"
    by (cases args) (simp add: recover_intent_def split: option.split)
qed

lemma close_dead_quiet: "quiet d (snd (close_dead_qualification_intent w tk args d))"
proof (rule quietI [OF close_dead_held])
  have "permitted (snd (transaction (close_dead_tx w tk i found) d)) \<subseteq> permitted d" for i found
    by (cases found, rule permitted_tx, rule no_permit_update [where f = "set_state ''closed_dead''"]) (auto dest!: close_dead_tx_Inr)
  then show "permitted (snd (close_dead_qualification_intent w tk args d)) \<subseteq> permitted d"
    by (cases args) (simp add: close_dead_qualification_intent_def split: option.split sum.split)
qed

lemma complete_quiet: "quiet d (snd (complete_launch w tk q d))"
proof (rule quietI [OF complete_held])
  have "permitted (snd (transaction (complete_tx w tk q e terminal obs) d)) \<subseteq> permitted d" for e terminal obs
  proof (rule permitted_tx)
    fix x d' assume run: "complete_tx w tk q e terminal obs d = Inr (x, d')"
    obtain i reused where x: "x = (i, reused)" by (cases x)
    from run [unfolded x] show "permitted d' \<subseteq> permitted d"
    proof (cases rule: complete_tx_cases)
      case (settled row acc act)
      from complete_write_Inr [OF settled(11)] show ?thesis
        by (intro no_permit_update [where f = "complete_intent (cq_status q) (json_dumps (PDict e)) (final_usage q)"]) simp_all
    qed simp
  qed
  then show "permitted (snd (complete_launch w tk q d)) \<subseteq> permitted d"
    by (simp add: complete_launch_def split: sum.split option.split)
qed

lemma contained_quiet: "quiet d (snd (record_contained_process w tk args d))"
proof -
  have "core_frame d (snd (transaction (contained_tx w tk i report l) d))" for i report l
  proof (rule core_tx)
    fix x d' assume "contained_tx w tk i report l d = Inr (x, d')"
    then show "core_frame d d'" unfolding contained_tx_def case_option_refuse
      by (elim exE conjE) (auto dest!: record_stopped_frame core_of_event advance_clock_frame
          intro: core_frame_trans split: if_split_asm)
  qed
  then have "core_frame d (snd (record_contained_process w tk args d))"
    by (cases args) (simp add: record_contained_process_def split: sum.split prod.split)
  then show ?thesis by (rule quiet_core [OF _ contained_held])
qed

lemma reservations_quiet: "reservations_only d d' \<Longrightarrow> held d' = held d \<Longrightarrow> quiet d d'"
  by (rule quiet_held) (simp_all add: reservations_only_def)

lemma stage_quiet: "quiet d (snd (transition_frontend_policy w tk args d))"
proof -
  have "quiet d1 (snd (transaction (stage_tx w tk e n v c) d1))" for e n v c d1
  proof (rule quiet_tx)
    fix r d' assume "stage_tx w tk e n v c d1 = Inr (r, d')"
    then show "quiet d1 d'"
    proof (cases rule: stage_tx_Inr)
      case (1 st d2 v)
      have "quiet d1 d2" using 1(4) transition_quiet by auto
      moreover have "quiet d2 d'" by (rule quiet_side) (simp add: 1(3))
      ultimately show ?thesis by (rule quiet_trans)
    qed
  qed
  then have "quiet d (snd (transaction (stage_tx w tk e n v c) (install_policy d)))" for e n v c
    using quiet_trans [OF quiet_side [of "install_policy d" d]] by simp
  moreover have "quiet d (install_policy d)" by (rule quiet_side) simp
  ultimately show ?thesis by (cases args) (auto simp: transition_frontend_policy_def simp del: bindR_eq_Inr split: sum.split)
qed

lemma child_quiet: "quiet d (snd (create_child_activity w tk q d))"
proof -
  have "quiet d1 (snd (transaction (child_tx w tk q) d1))" for d1
  proof (rule quiet_tx)
    fix r d' assume "child_tx w tk q d1 = Inr (r, d')"
    then show "quiet d1 d'" by (cases rule: child_tx_Inr) (simp_all add: quiet_def permitted_def)
  qed
  from quiet_trans [OF quiet_side [of "install_context d" d] this] show ?thesis by (simp add: create_child_activity_def)
qed

lemma policy_call_quiet: "policy_call d d' \<Longrightarrow> quiet d d'"
  by (erule policy_call.cases) (simp_all add: policy_calls_side quiet_side stage_quiet child_quiet)

lemma outside_quiet: "outside_step d d' \<Longrightarrow> quiet d d'"
  unfolding outside_step_def by (auto simp: quiet_def permitted_def)

section \<open>The rows of the cohorts\<close>

definition unreleased :: "string \<Rightarrow> db \<Rightarrow> bool" where
  "unreleased cid d = (\<forall>c \<in> set (db_cohorts d). co_id c = cid \<longrightarrow> co_state c \<noteq> ''released_to_execute'')"

text \<open>The keys are unique, every member has its cohort, and no member of an unreleased cohort has a permit.\<close>

definition gated :: "db \<Rightarrow> bool" where
  "gated d = (distinct (map co_id (db_cohorts d)) \<and> distinct (map cm_intent (db_members d))
     \<and> (\<forall>m \<in> set (db_members d). cm_cohort m \<in> co_id ` set (db_cohorts d)
        \<and> (unreleased (cm_cohort m) d \<longrightarrow> cm_intent m \<notin> permitted d)))"

lemma gated_quiet: "gated d \<Longrightarrow> quiet d d' \<Longrightarrow> gated d'"
  by (auto simp: gated_def quiet_def unreleased_def)

text \<open>Writing the columns of members, or the state of cohorts that stay unreleased.\<close>

lemma gated_update:
  assumes "gated d" and "permitted d' \<subseteq> permitted d"
    and "db_members d' = update_where P f (db_members d)" "\<And>m. cm_intent (f m) = cm_intent m \<and> cm_cohort (f m) = cm_cohort m"
    and "db_cohorts d' = update_where (\<lambda>c. co_id c = cid) g (db_cohorts d)" "\<And>c. co_id (g c) = co_id c"
    and "unreleased cid d"
  shows "gated d'"
proof -
  have "map cm_intent (db_members d') = map cm_intent (db_members d)" "map cm_cohort (db_members d') = map cm_cohort (db_members d)"
    unfolding assms(3) by (rule map_update_where, simp add: assms(4))+
  moreover have ids: "map co_id (db_cohorts d') = map co_id (db_cohorts d)"
    unfolding assms(5) by (rule map_update_where) (simp add: assms(6))
  moreover have "unreleased k d" if "unreleased k d'" for k
    using that assms(7) by (cases "k = cid") (auto simp: unreleased_def assms(5) set_update_where)
  moreover have "\<exists>m0 \<in> set (db_members d). cm_intent m0 = cm_intent m \<and> cm_cohort m0 = cm_cohort m" if "m \<in> set (db_members d')" for m
    using that assms(3,4) by (auto simp: set_update_where split: if_split_asm)
  moreover have "co_id ` set (db_cohorts d') = co_id ` set (db_cohorts d)" using ids by (metis set_map)
  ultimately show ?thesis using assms(1,2) unfolding gated_def by (metis subset_iff)
qed

lemma member_of_Some:
  assumes "gated d" and "member_of i d = Some (m, c)"
  shows "m \<in> set (db_members d) \<and> cm_intent m = i \<and> c \<in> set (db_cohorts d) \<and> co_id c = cm_cohort m
     \<and> (co_state c \<noteq> ''released_to_execute'' \<longrightarrow> unreleased (cm_cohort m) d)"
proof -
  from assms(2) obtain f: "List.find (\<lambda>m. cm_intent m = i) (db_members d) = Some m" "List.find (\<lambda>c. co_id c = cm_cohort m) (db_cohorts d) = Some c"
    by (auto simp: member_of_def split: option.split_asm)
  note in_rows = find_Some_in [OF f(1)] find_Some_in [OF f(2)]
  have "x = c" if "x \<in> set (db_cohorts d)" "co_id x = cm_cohort m" for x
    using that in_rows(2) assms(1) by (auto simp: gated_def distinct_map inj_on_def)
  then show ?thesis using in_rows by (auto simp: unreleased_def)
qed

lemma member_of_None:
  assumes "gated d" and "member_of i d = None" shows "i \<notin> cm_intent ` set (db_members d)"
proof
  assume "i \<in> cm_intent ` set (db_members d)"
  then obtain m where "List.find (\<lambda>m. cm_intent m = i) (db_members d) = Some m"
    using find_None_all [of "\<lambda>m. cm_intent m = i" "db_members d"] by fastforce
  moreover from find_Some_in [OF this] assms(1) have "cm_cohort m \<in> co_id ` set (db_cohorts d)" by (simp add: gated_def)
  then have "List.find (\<lambda>c. co_id c = cm_cohort m) (db_cohorts d) \<noteq> None" unfolding find_None_all by auto
  ultimately show False using assms(2) by (auto simp: member_of_def)
qed

text \<open>The bookkeeping of both kinds of acknowledgement.\<close>

definition member_acked :: "string \<Rightarrow> string \<Rightarrow> ident \<Rightarrow> string \<Rightarrow> db \<Rightarrow> db \<Rightarrow> bool" where
  "member_acked cid i x k d d' = (db_intents d' = db_intents d
     \<and> db_members d' = update_where (\<lambda>m. cm_cohort m = cid \<and> cm_intent m = i) (\<lambda>m. m\<lparr>cm_ack := Some k, cm_child := Some x\<rparr>) (db_members d)
     \<and> (\<exists>s. db_cohorts d' = update_where (\<lambda>c. co_id c = cid) (\<lambda>c. c\<lparr>co_state := s\<rparr>) (db_cohorts d)))"

lemma ack_cohort_acked:
  assumes "ack_cohort q k d = Inr d'" "member_of (aq_intent q) d = Some (m, c)" "aq_cohort q = Some cid"
  shows "member_acked cid (aq_intent q) (aq_identity q) k d d'"
  using assms by (auto simp: ack_cohort_def member_acked_def Let_def split: if_split_asm)

lemma acknowledge_member_acked: "member_acked cid i x k d (acknowledge_member cid i x k d)"
  by (auto simp: acknowledge_member_def member_acked_def Let_def)

lemma acked_gated:
  assumes "gated d" "unreleased cid d" "member_acked cid i x k d1 d'" "db_members d1 = db_members d" "db_cohorts d1 = db_cohorts d"
    "permitted d1 \<subseteq> permitted d"
  shows "gated d'"
proof -
  from assms(3) obtain s where "db_cohorts d' = update_where (\<lambda>c. co_id c = cid) (\<lambda>c. c\<lparr>co_state := s\<rparr>) (db_cohorts d)"
    by (auto simp: member_acked_def assms(5))
  then show ?thesis
    using assms(3,4,6) permitted_same [of d' d1]
    by (intro gated_update [OF assms(1) _ _ _ _ _ assms(2), where f = "\<lambda>m. m\<lparr>cm_ack := Some k, cm_child := Some x\<rparr>"
          and g = "\<lambda>c. c\<lparr>co_state := s\<rparr>"]) (simp_all add: member_acked_def)
qed

lemma ack_gated:
  assumes ok: "gated d" shows "gated (snd (acknowledge_child w tk q d))"
proof -
  have "gated d'" if run: "ack_tx w tk q obs k d = Inr (r, d')" for obs k r d'
  proof -
    let ?d1 = "update_intent (aq_intent q) (bind_child (aq_identity q) k) d"
    from run have cohort: "ack_cohort q k ?d1 = Inr d'"
      and open_cohort: "aq_cohort q \<noteq> None \<Longrightarrow> (case member_of (aq_intent q) d of None \<Rightarrow> False
          | Some (m, c) \<Rightarrow> Some (cm_cohort m) = aq_cohort q \<and> co_state c \<in> set [''reserved'', ''acknowledged''])"
      unfolding ack_tx_def bindR_eq_Inr case_option_refuse refuse_if_Inr
      by (auto split: option.split_asm)
    have member: "member_of (aq_intent q) ?d1 = member_of (aq_intent q) d" by (simp add: member_of_def split: option.split)
    have less: "permitted ?d1 \<subseteq> permitted d" by (rule no_permit_update [where f = "bind_child (aq_identity q) k"]) simp_all
    show ?thesis
    proof (cases "\<exists>cid m c. aq_cohort q = Some cid \<and> member_of (aq_intent q) d = Some (m, c)")
      case False
      then have "d' = ?d1" using cohort by (auto simp: ack_cohort_def member split: option.split_asm)
      then show ?thesis using gated_quiet [OF ok, of ?d1] less by (simp add: quiet_def)
    next
      case True
      then obtain cid m c where q: "aq_cohort q = Some cid" "member_of (aq_intent q) d = Some (m, c)" by blast
      then have c: "cm_cohort m = cid" "co_state c \<noteq> ''released_to_execute''" using open_cohort by auto
      then have "unreleased cid d" using member_of_Some [OF ok q(2)] by simp
      moreover have "member_acked cid (aq_intent q) (aq_identity q) k ?d1 d'"
        by (rule ack_cohort_acked [OF cohort _ q(1)]) (simp add: member q(2))
      ultimately show ?thesis using less by (intro acked_gated [OF ok]) simp_all
    qed
  qed
  then have "gated (snd (transaction (ack_tx w tk q obs k) d))" for obs k
    using ok by (cases rule: transaction_cases [of "ack_tx w tk q obs k" d]) auto
  then show ?thesis using ok by (simp add: acknowledge_child_def split: sum.split)
qed

lemma gated_tx: "gated d \<Longrightarrow> (\<And>x d'. body d = Inr (x, d') \<Longrightarrow> gated d') \<Longrightarrow> gated (snd (transaction body d))"
  by (cases rule: transaction_cases [of body d]) auto

lemma monitored_gated:
  assumes ok: "gated d" shows "gated (snd (acknowledge_monitored_child w tk q d))"
proof -
  have "gated (snd (transaction (monitored_tx w tk q) d))"
  proof (rule gated_tx [OF ok])
    fix k d' assume run: "monitored_tx w tk q d = Inr (k, d')"
    let ?d1 = "update_intent (mq_intent q) (bind_monitored (mq_child q) (w_uuid w 0)) d"
    let ?d2 = "case mq_cohort q of None \<Rightarrow> ?d1 | Some cid \<Rightarrow> acknowledge_member cid (mq_intent q) (mq_child q) (w_uuid w 0) ?d1"
    from run obtain row n where cohort: "cohort_open tk (mq_cohort q) (member_of (mq_intent q) d)"
      and ev: "record_event_once_tx w tk (in_activity row) (''child-ack:'' @ mq_intent q) (monitored_payload q (w_uuid w 0) row) ?d2 = Inr (n, d')"
      unfolding bind_monitored_def
      by (auto simp: monitored_tx_def Let_def split: if_split_asm option.split_asm)
    have less: "permitted ?d1 \<subseteq> permitted d" by (rule no_permit_update [where f = "bind_monitored (mq_child q) (w_uuid w 0)"]) simp_all
    have "gated ?d2"
    proof (cases "mq_cohort q")
      case None then show ?thesis using gated_quiet [OF ok, of ?d1] less by (simp add: quiet_def)
    next
      case (Some cid)
      then obtain m c where m: "member_of (mq_intent q) d = Some (m, c)" "cm_cohort m = cid" "co_state c \<noteq> ''released_to_execute''"
        using cohort by (auto simp: cohort_open_def split: option.split_asm)
      then have "unreleased cid d" using member_of_Some [OF ok m(1)] by simp
      then show ?thesis using less Some by (simp, intro acked_gated [OF ok _ acknowledge_member_acked]) simp_all
    qed
    then show "gated d'"
      by (rule gated_quiet) (rule quiet_core [OF core_of_event [OF record_event_frame [OF ev]] record_event_held [OF ev]])
  qed
  then show ?thesis using ok by (simp add: acknowledge_monitored_child_def)
qed

text \<open>New permits, all of members of released cohorts.\<close>

lemma gated_permits:
  assumes "gated d" and "db_members d' = db_members d" "permitted d' \<subseteq> permitted d \<union> S"
    and "map co_id (db_cohorts d') = map co_id (db_cohorts d)" "\<And>k. unreleased k d' \<Longrightarrow> unreleased k d"
    and "\<And>m. m \<in> set (db_members d) \<Longrightarrow> cm_intent m \<in> S \<Longrightarrow> \<not> unreleased (cm_cohort m) d'"
  shows "gated d'"
proof -
  have "co_id ` set (db_cohorts d') = co_id ` set (db_cohorts d)" using assms(4) by (metis set_map)
  then show ?thesis using assms unfolding gated_def by (metis UnE subsetD)
qed

lemma permit_check_member:
  "permit_check w tk q d = Inr row \<Longrightarrow> (case member_of (in_id row) d of None \<Rightarrow> True | Some (m, c) \<Rightarrow> co_state c = ''released_to_execute'')"
  by (auto simp: permit_check_def split: option.split_asm option.split if_split_asm)

lemma authorize_tx_gated:
  assumes ok: "gated d" shows "gated (snd (transaction (authorize_tx w tk q) d))"
proof (rule gated_tx [OF ok])
  fix r d' assume run: "authorize_tx w tk q d = Inr (r, d')"
  have held: "held d' = held d" using authorize_tx_held [of w tk q d] run by (simp add: transaction_def)
  from run show "gated d'"
  proof (cases rule: authorize_tx_cases)
    case (refused code) then show ?thesis using gated_quiet [OF ok quiet_core [OF _ held]] by simp
  next
    case (released row p d1)
    have "db_intents d' = update_where (\<lambda>x. in_id x = in_id row) (release_intent p) (db_intents d)"
      using event_frameD(1) [OF released(5)] released(3) by (simp add: core_frame_def)
    then have permits: "permitted d' \<subseteq> permitted d \<union> {in_id row}"
      by (auto simp: permitted_def set_update_where release_intent_def split: if_split_asm)
    have rows: "db_members d' = db_members d" "db_cohorts d' = db_cohorts d" using held by (simp_all add: held_def)
    show ?thesis
    proof (rule gated_permits [OF ok rows(1) permits])
      fix m assume m: "m \<in> set (db_members d)" "cm_intent m \<in> {in_id row}"
      then obtain m' c where c: "member_of (in_id row) d = Some (m', c)" "co_state c = ''released_to_execute''"
        using member_of_None [OF ok, of "in_id row"] permit_check_member [OF released(2)]
        by (cases "member_of (in_id row) d") (auto simp: image_iff)
      note s = member_of_Some [OF ok c(1)]
      have "m' = m" using s m ok by (auto simp: gated_def distinct_map inj_on_def)
      then show "\<not> unreleased (cm_cohort m) d'" using s c(2) rows(2) by (auto simp: unreleased_def)
    qed (simp_all add: rows unreleased_def)
  qed
qed

lemma reserve_cohort_tx_gated:
  assumes ok: "gated d" shows "gated (snd (transaction (reserve_cohort_tx w tk key items h q) d))"
proof (rule gated_tx [OF ok])
  fix r d' assume "reserve_cohort_tx w tk key items h q d = Inr (r, d')"
  then show "gated d'"
  proof (cases rule: reserve_cohort_cases)
    case (replay c) then show ?thesis using ok by simp
  next
    case (fresh l new d1)
    let ?cid = "w_uuid w 0" and ?row = "new_cohort tk (w_uuid w 0) key h items"
    note R = fresh(6) [unfolded cohort_rows_def]
    have len: "length items = length new" using R list_all2_lengthD by blast
    have ids: "map cm_intent (new_members ?cid 0 items new) = map in_id new"
      using len by (auto simp: new_members_def new_member_def comp_def split_beta intro: nth_equalityI)
    have cid: "\<forall>m \<in> set (new_members ?cid 0 items new). cm_cohort m = ?cid" by (auto simp: new_members_def new_member_def)
    have "\<forall>i \<in> set new. in_permit i = None"
      using R by (auto simp: list_all2_conv_all_nth in_set_conv_nth reserved_for_def)
    then have permits: "permitted d' = permitted d" using R permitted_append by blast
    have new_ids: "cm_intent m \<notin> permitted d" if "m \<in> set (new_members ?cid 0 items new)" for m
    proof -
      have "cm_intent m \<in> set (map in_id new)" using that ids by (metis image_eqI list.set_map)
      then show ?thesis using R by (auto simp: permitted_def)
    qed
    have clash: "?cid \<notin> co_id ` set (db_cohorts d)"
      using R by (auto simp: cohort_clash_def new_cohort_def)
    have un: "unreleased k d" if "unreleased k d'" for k using that R by (simp add: unreleased_def)
    have "distinct (map cm_intent (db_members d'))"
      using R ok ids by (auto simp: gated_def simp del: set_map)
    moreover have "distinct (map co_id (db_cohorts d'))"
      using R ok clash by (auto simp: gated_def new_cohort_def)
    moreover have "cm_cohort m \<in> co_id ` set (db_cohorts d') \<and> (unreleased (cm_cohort m) d' \<longrightarrow> cm_intent m \<notin> permitted d')"
      if "m \<in> set (db_members d')" for m
    proof (cases "m \<in> set (db_members d)")
      case True then show ?thesis using ok R un permits by (auto simp: gated_def)
    next
      case False
      then have m: "m \<in> set (new_members ?cid 0 items new)" using that R by simp
      then show ?thesis using cid new_ids [OF m] permits R by (auto simp: new_cohort_def)
    qed
    ultimately show ?thesis by (simp add: gated_def)
  qed
qed

lemma release_tx_gated:
  assumes ok: "gated d" shows "gated (snd (transaction (release_cohort_tx w tk q seen) d))"
proof (rule gated_tx [OF ok])
  fix r d' assume "release_cohort_tx w tk q seen d = Inr (r, d')"
  then show "gated d'"
  proof (cases rule: release_cohort_tx_cases)
    case (refused code)
    then show ?thesis by (intro gated_quiet [OF ok]) (simp add: quiet_def clock_frame_def permitted_def)
  next
    case (released c ps d1 d2)
    let ?vs = "member_views (rq_cohort q) d"
    note M = release_members_Inr [OF released(9)]
    have rows: "db_members d' = db_members d" "db_intents d' = map (granted ps) (db_intents d)"
      "db_cohorts d' = update_where (\<lambda>x. co_id x = rq_cohort q) (\<lambda>x. x\<lparr>co_state := ''released_to_execute''\<rparr>) (db_cohorts d)"
      using M released(6) by (simp_all add: released(10) clock_frame_def)
    have "in_permit i \<noteq> None" if "in_permit (granted ps i) \<noteq> None" "in_id i \<notin> snd ` set ps" for i
      using that granted_other by metis
    moreover have "snd ` set ps = set (members_of ?vs)" using M by (metis set_map)
    ultimately have permits: "permitted d' \<subseteq> permitted d \<union> set (members_of ?vs)"
      by (auto simp: permitted_def rows(2))
    have c: "c \<in> set (db_cohorts d)" "co_id c = rq_cohort q"
      using find_Some_in [OF released(2) [unfolded cohort_by_id_def]] by simp_all
    show ?thesis
    proof (rule gated_permits [OF ok rows(1) permits])
      show "map co_id (db_cohorts d') = map co_id (db_cohorts d)" unfolding rows(3) by (rule map_update_where) simp
      show "unreleased k d" if u: "unreleased k d'" for k
        unfolding unreleased_def
      proof (intro ballI impI notI)
        fix x assume x: "x \<in> set (db_cohorts d)" "co_id x = k" "co_state x = ''released_to_execute''"
        have "(if co_id x = rq_cohort q then x\<lparr>co_state := ''released_to_execute''\<rparr> else x) \<in> set (db_cohorts d')"
          using x(1) by (simp add: rows(3) set_update_where)
        then show False using u x(2,3) by (auto simp: unreleased_def split: if_split_asm)
      qed
      fix m assume m: "m \<in> set (db_members d)" "cm_intent m \<in> set (members_of ?vs)"
      then obtain v where v: "v \<in> set ?vs" "cm_intent m = cm_intent (mv_member v)" by (auto simp: members_of_def)
      then have "m = mv_member v" using member_views_sound [OF v(1)] m(1) ok by (auto simp: gated_def distinct_map inj_on_def)
      then have "cm_cohort m = rq_cohort q" using member_views_sound [OF v(1)] by simp
      moreover have "c\<lparr>co_state := ''released_to_execute''\<rparr> \<in> set (db_cohorts d')"
        using c by (auto simp: rows(3) set_update_where)
      ultimately show "\<not> unreleased (cm_cohort m) d'" using c(2) by (fastforce simp: unreleased_def)
    qed
  qed
qed

lemma reconcile_gated:
  assumes ok: "gated d" shows "gated (snd (reconcile_launch_cohort w tk cid d))"
proof -
  have "gated (snd (transaction (reconcile_cohort_tx w tk cid) d))"
  proof (rule gated_tx [OF ok])
    fix r d' assume "reconcile_cohort_tx w tk cid d = Inr (r, d')"
    then show "gated d'"
    proof (cases rule: reconcile_tx_cases)
      case released then show ?thesis using ok by simp
    next
      case (uncertain c)
      have "unreleased cid d"
        using uncertain(3-5) ok by (auto simp: unreleased_def gated_def distinct_map inj_on_def)
      moreover have "permitted d' \<subseteq> permitted d"
        by (rule no_permit_update [where f = "set_state ''reconcile_required''"]) (simp_all add: uncertain(1) uncertain_cohort_def Let_def)
      moreover have "db_members d' = update_where (\<lambda>_. False) id (db_members d)"
        by (simp add: uncertain(1) uncertain_cohort_def Let_def update_where_def)
      ultimately show ?thesis
        by (intro gated_update [OF ok, where P = "\<lambda>_. False" and f = id and cid = cid and g = "\<lambda>c. c\<lparr>co_state := ''reconcile_required''\<rparr>"])
          (simp_all add: uncertain(1) uncertain_cohort_def Let_def)
    qed
  qed
  then show ?thesis using ok by (simp add: reconcile_launch_cohort_def)
qed

section \<open>All calls\<close>

lemma gated_seq:
  assumes "gated d" "quiet d (snd r)" "\<And>x d1. gated d1 \<Longrightarrow> gated (snd (k x d1))"
  shows "gated (snd (seq_op r k))"
  using assms gated_quiet [OF assms(1,2)] by (cases r; cases "fst r") auto

lemma authorize_gated: "gated d \<Longrightarrow> gated (snd (authorize_child w tk q d))"
  unfolding authorize_child_def by (rule gated_seq [OF _ quiet_preflight]) (simp_all add: seq_op_snd authorize_tx_gated)

lemma reserve_cohort_gated:
  assumes ok: "gated d" shows "gated (snd (reserve_launch_cohort w tk args d))"
proof -
  obtain q view where args: "args = (q, view)" by (cases args)
  show ?thesis
  proof (cases rule: reserve_cohort_shape [of w tk q view d])
    case (refused e) then show ?thesis using ok by (simp add: args)
  next
    case (run items h k)
    have "gated (install_context d)" by (rule gated_quiet [OF ok quiet_side]) simp
    then show ?thesis unfolding args run(2)
      by (rule gated_seq [OF _ quiet_preflight]) (simp add: seq_op_snd run(3) reserve_cohort_tx_gated)
  qed
qed

lemma authorize_cohort_gated:
  assumes ok: "gated d" shows "gated (snd (authorize_launch_cohort w tk q d))"
proof (cases rule: authorize_cohort_cases [of w tk q d])
  case (run k)
  have "gated d1 \<longrightarrow> gated (snd (k () d1))" for d1
    by (rule authorize_cohort_step [OF run(3) [of d1]]) (simp_all add: release_tx_gated)
  then show ?thesis unfolding run(1) by (intro gated_seq [OF ok quiet_preflight]) (simp add: old.unit.exhaust)
qed (simp add: ok)

lemma cohort_calls_gated:
  assumes ok: "gated d"
  shows "gated (snd (acknowledge_cohort_child w tk aq d))" "gated (snd (acknowledge_monitored_cohort_child w tk mq d))"
    "gated (snd (release_launch_cohort w tk rq d))"
  using guarded_ack [of w tk aq d] guarded_monitored [of w tk mq d] ack_gated [OF ok, of w tk aq] monitored_gated [OF ok, of w tk mq] ok
  by (auto simp: release_launch_cohort_def authorize_cohort_gated)

lemmas quiet_calls = activity_quiet limits_quiet reserve_quiet recover_quiet close_dead_quiet complete_quiet contained_quiet
  quiet_preflight reserve_tx_quiet policy_call_quiet outside_quiet

lemmas core_calls = revise_core configure_core reserve_action_core cancel_core receipt_core wait_core reconcile_core begin_core end_core

lemma run_step_gated:
  assumes "run_step d d'" and ok: "gated d" shows "gated d'"
  using assms(1)
  by (cases, simp_all add: gated_quiet [OF ok] quiet_calls quiet_core core_calls old_calls_held ack_gated authorize_gated authorize_tx_gated
      reserve_cohort_gated reserve_cohort_tx_gated cohort_calls_gated monitored_gated authorize_cohort_gated release_tx_gated
      reconcile_gated reservations_quiet acquire_frame release_frame reserve_resources_frame
      cancel_unlaunched_policy_review_def cancel_unlaunched_repair_def ok)

lemma reachable_gated: "reachable d \<Longrightarrow> gated d"
  unfolding reachable_def
proof (induction rule: rtranclp_induct)
  case base show ?case by (simp add: gated_def empty_db_def)
qed (rule run_step_gated)

end
