(* ===== verification/Cohort_Contract.thy ===== *)
theory Cohort_Contract
  imports Cohort_Gate Run_Scenario
begin

text \<open>
  The contract of the launch cohorts: a cohort is reserved as a whole and released as a whole, and no
  member runs before that. A scenario of one cohort, from its reservation to its release, is run on
  reachable states.
\<close>

text \<open>What the preflight before a cohort call leaves alone.\<close>

lemma preflight_frame:
  assumes "preflight_policy_clock w tk b n d = (r, d1)"
  shows "core_frame d d1" "db_members d1 = db_members d" "db_cohorts d1 = db_cohorts d" "db_capacity d1 = db_capacity d"
proof -
  have d1: "d1 = snd (preflight_policy_clock w tk b n d)" using assms by simp
  show "core_frame d d1" unfolding d1 by (rule core_preflight)
  show "db_members d1 = db_members d" "db_cohorts d1 = db_cohorts d"
    using preflight_held [of w tk b n d] by (simp_all add: d1 held_def)
  show "db_capacity d1 = db_capacity d" using preflight_rel [of d w tk b n] by (simp add: d1 clock_frame_def)
qed

definition launch_rows :: "db \<Rightarrow> (intent list \<times> accounting list \<times> run_limits list) \<times> cohort_member list \<times> cohort list" where
  "launch_rows d = ((db_intents d, db_accounting d, db_limits d), db_members d, db_cohorts d)"

text \<open>A committed cohort, seen from the rows before the call.\<close>

lemma reserve_cohort_rows:
  assumes frame: "core_frame d d1" "db_members d1 = db_members d" "db_cohorts d1 = db_cohorts d" "db_capacity d1 = db_capacity d"
    and run: "d' = snd (transaction (reserve_cohort_tx w tk key items h q) d1)"
  shows "launch_rows d' = launch_rows d \<or> (\<exists>l new. limits_of tk d = Some l \<and> \<not> incomplete_cohort tk d
     \<and> rl_dispatch_used l + int (length items) \<le> rl_dispatch_limit l
     \<and> rl_committed l + sum_list (map mr_tokens items) \<le> rl_token_limit l
     \<and> int (active_capacity_launch_count tk d) + int (length items) \<le>
       (case capacity_of (tk_repo tk) (tk_run tk) d of None \<Rightarrow> rl_capacity l | Some r \<Rightarrow> cc_capacity r)
     \<and> list_all (\<lambda>x. active_intents (mr_activity x) d = []) items \<and> cohort_rows w tk key h items new d d')"
proof (cases rule: transaction_cases [of "reserve_cohort_tx w tk key items h q" d1])
  case (refused e)
  then have "d' = d1" by (simp add: run)
  then show ?thesis using frame by (simp add: launch_rows_def core_frame_def)
next
  case (committed r d2)
  then have d': "d' = d2" by (simp add: run)
  have rows: "db_intents d1 = db_intents d" "db_activities d1 = db_activities d" "db_accounting d1 = db_accounting d"
    "db_limits d1 = db_limits d" using frame(1) by (simp_all add: core_frame_def)
  from committed(1) show ?thesis
  proof (cases rule: reserve_cohort_cases)
    case (replay c) then show ?thesis using frame(2,3) rows by (simp add: d' launch_rows_def)
  next
    case (fresh l new d3)
    have cap: "capacity_of (tk_repo tk) (tk_run tk) d1 = capacity_of (tk_repo tk) (tk_run tk) d" by (simp add: capacity_of_def frame(4))
    have lim: "limits_of tk d = Some l" "incomplete_cohort tk d = incomplete_cohort tk d1"
      "active_capacity_launch_count tk d1 = active_capacity_launch_count tk d" "active_intents a d1 = active_intents a d" for a
      using fresh(3) rows frame(3)
      by (simp_all add: limits_of_def incomplete_cohort_def active_capacity_launch_count_def capacity_intent_def [abs_def]
          run_intent_def activity_of_def active_intents_def)
    have "cohort_rows w tk key h items new d d'"
      using fresh(6) rows frame(2,3) by (simp add: d' cohort_rows_def)
    then show ?thesis
      using fresh(2,4,5) lim cap
      by (intro disjI2 exI [of _ l] exI [of _ new])
        (auto simp: cohort_room_def cohort_tokens_def effective_worker_capacity_def list_all_iff member_ready_def
           split: option.split_asm if_split_asm)
  qed
qed

lemma ready_viewD:
  "ready_view w v \<Longrightarrow> in_state (mv_intent v) = ''acknowledged'' \<and> in_ack (mv_intent v) = cm_ack (mv_member v)
     \<and> in_completion (mv_intent v) = None
     \<and> (\<exists>x. cm_child (mv_member v) = Some x \<and> in_child (mv_intent v) = Some x \<and> w_probe w x = LIVE)"
  by (auto simp: ready_view_def member_ended_def member_acknowledged_def member_alive_def split: option.split_asm)

section \<open>The contract\<close>

text \<open>
  C7: a cohort is reserved as a whole or not at all: either the launches, the ledger and the cohorts stay as
  they are, or every member got one reserved launch in the order of the members, the run was charged with
  all of them at once, within its dispatches, its tokens and its worker capacity, and no other cohort of
  the run was still waiting for its release.
\<close>

theorem cohort_reserved_as_a_whole:
  "let d' = snd (reserve_launch_cohort w tk (q, view) d) in
   launch_rows d' = launch_rows d \<or>
   (\<exists>items h l new. normalize_cohort_requests w (ca_members q) = Inr (items, h) \<and> limits_of tk d = Some l \<and>
      \<not> incomplete_cohort tk d \<and> rl_dispatch_used l + int (length items) \<le> rl_dispatch_limit l \<and>
      rl_committed l + sum_list (map mr_tokens items) \<le> rl_token_limit l \<and>
      int (active_capacity_launch_count tk d) + int (length items) \<le>
        (case capacity_of (tk_repo tk) (tk_run tk) d of None \<Rightarrow> rl_capacity l | Some r \<Rightarrow> cc_capacity r) \<and>
      list_all (\<lambda>x. active_intents (mr_activity x) d = []) items \<and>
      list_all2 (reserved_for tk) items new \<and> db_intents d' = db_intents d @ new \<and>
      db_accounting d' = db_accounting d @ accounting_rows tk items new \<and>
      db_limits d' = update_where (limits_match tk) (commit_cohort tk items) (db_limits d) \<and>
      db_members d' = db_members d @ new_members (w_uuid w 0) 0 items new \<and>
      db_cohorts d' = db_cohorts d @ [new_cohort tk (w_uuid w 0) (str_of (ca_key q)) h items])"
proof (cases rule: reserve_cohort_shape [of w tk q view d])
  case (refused e) then show ?thesis by simp
next
  case (run items h k)
  obtain r d1 where p: "preflight_policy_clock w tk PNone PNone (install_context d) = (r, d1)"
    by (cases "preflight_policy_clock w tk PNone PNone (install_context d)")
  have rows: "launch_rows (install_context d) = launch_rows d" by (simp add: launch_rows_def install_context_def)
  note f = preflight_frame [OF p]
  show ?thesis
  proof (cases r)
    case (Inl e)
    then show ?thesis using f rows by (simp add: run(2) p launch_rows_def core_frame_def)
  next
    case (Inr u)
    let ?d' = "snd (reserve_launch_cohort w tk (q, view) d)"
    have d': "?d' = snd (transaction (reserve_cohort_tx w tk (str_of (ca_key q)) items h q) d1)"
      by (simp add: run(2) p Inr seq_op_snd run(3))
    have same: "core_frame d (install_context d)" "limits_of tk (install_context d) = limits_of tk d"
      by (simp_all add: limits_of_def)
    have frame: "core_frame d d1" "db_members d1 = db_members d" "db_cohorts d1 = db_cohorts d" "db_capacity d1 = db_capacity d"
      using f core_frame_trans [OF same(1) f(1)] by (simp_all add: install_context_def)
    from reserve_cohort_rows [OF frame d'] run(1) show ?thesis unfolding Let_def cohort_rows_def by blast
  qed
qed

text \<open>
  C6: a cohort is released as a whole or not at all: either no launch and no cohort changed, or the call
  returned one permit for every member of the cohort, in their order; every member had been acknowledged and
  its child was alive, exactly the acknowledged launches with a permit were released with it, and the cohort
  is released.
\<close>

theorem cohort_released_as_a_whole:
  "case authorize_launch_cohort w tk q d of (r, d') \<Rightarrow>
   launch_rows d' = launch_rows d \<or>
   (\<exists>ps vs. r = Inr ps \<and> vs = member_views (rq_cohort q) d \<and> map snd ps = map (\<lambda>v. cm_intent (mv_member v)) vs \<and>
      list_all (\<lambda>v. in_state (mv_intent v) = ''acknowledged'' \<and> in_ack (mv_intent v) = cm_ack (mv_member v) \<and>
        in_completion (mv_intent v) = None \<and>
        (\<exists>x. cm_child (mv_member v) = Some x \<and> in_child (mv_intent v) = Some x \<and> w_probe w x = LIVE)) vs \<and>
      db_intents d' = map (granted ps) (db_intents d) \<and> db_members d' = db_members d \<and>
      db_accounting d' = db_accounting d \<and> db_limits d' = db_limits d \<and>
      db_cohorts d' = update_where (\<lambda>c. co_id c = rq_cohort q) (\<lambda>c. c\<lparr>co_state := ''released_to_execute''\<rparr>) (db_cohorts d))"
proof (cases rule: authorize_cohort_cases [of w tk q d])
  case (refused e) then show ?thesis by simp
next
  case (run k)
  obtain u d1 where p: "preflight_policy_clock w tk (rq_boot q) (rq_ns q) d = (u, d1)"
    by (cases "preflight_policy_clock w tk (rq_boot q) (rq_ns q) d")
  note f = preflight_frame [OF p]
  have rows: "launch_rows d1 = launch_rows d" using f by (simp add: launch_rows_def core_frame_def)
  have views: "member_views cid d1 = member_views cid d" for cid
  proof -
    have "member_view_of d1 = member_view_of d"
      using f by (intro ext) (simp add: member_view_of_def intent_of_def activity_of_def core_frame_def split: option.split)
    then show ?thesis using f by (simp add: member_views_def cohort_members_def)
  qed
  have quiet: ?thesis if "snd (authorize_launch_cohort w tk q d) = d1"
    using that rows by (simp add: split_beta)
  show ?thesis
  proof (cases "u = Inr () \<and> (\<exists>vs. observe_cohort w tk (rq_cohort q) (rq_seen q d1) = Inr (Inr vs)
        \<and> k () d1 = seq_op (transaction (release_cohort_tx w tk q vs) d1) (\<lambda>r d2. (r, d2)))")
    case False
    then have "snd (authorize_launch_cohort w tk q d) = d1"
      using run(3) [of d1] by (cases u) (auto simp: run(1) p)
    then show ?thesis by (rule quiet)
  next
    case True
    then obtain seen where seen: "observe_cohort w tk (rq_cohort q) (rq_seen q d1) = Inr (Inr seen)"
      and out: "authorize_launch_cohort w tk q d = seq_op (transaction (release_cohort_tx w tk q seen) d1) (\<lambda>r d2. (r, d2))"
      by (auto simp: run(1) p)
    show ?thesis
    proof (cases rule: transaction_cases [of "release_cohort_tx w tk q seen" d1])
      case (refused e) then show ?thesis by (intro quiet) (simp add: out)
    next
      case (committed r d2)
      have res: "authorize_launch_cohort w tk q d = (r, d2)" by (simp add: out committed(2))
      from committed(1) show ?thesis
      proof (cases rule: release_cohort_tx_cases)
        case (refused code)
        then show ?thesis using rows by (simp add: res launch_rows_def clock_frame_def)
      next
        case (released c ps da db)
        have ready: "ready_view w v" if "v \<in> set (member_views (rq_cohort q) d)" for v
          using signature_ready [OF released(5) observe_ready [OF seen]] that by (simp add: views)
        have "\<exists>ps. r = Inr ps \<and> map snd ps = members_of (member_views (rq_cohort q) d) \<and> db_intents d2 = map (granted ps) (db_intents d)
          \<and> db_members d2 = db_members d \<and> db_accounting d2 = db_accounting d \<and> db_limits d2 = db_limits d
          \<and> db_cohorts d2 = update_where (\<lambda>c. co_id c = rq_cohort q) (\<lambda>c. c\<lparr>co_state := ''released_to_execute''\<rparr>) (db_cohorts d)"
          using release_members_Inr [OF released(9)] f released(6)
          by (simp add: released(1,10) views clock_frame_def core_frame_def)
        moreover have "list_all (\<lambda>v. in_state (mv_intent v) = ''acknowledged'' \<and> in_ack (mv_intent v) = cm_ack (mv_member v)
            \<and> in_completion (mv_intent v) = None
            \<and> (\<exists>x. cm_child (mv_member v) = Some x \<and> in_child (mv_intent v) = Some x \<and> w_probe w x = LIVE)) (member_views (rq_cohort q) d)"
          unfolding list_all_iff using ready [THEN ready_viewD] by blast
        ultimately show ?thesis unfolding res prod.case members_of_def by blast
      qed
    qed
  qed
qed

text \<open>
  C5: no member of a cohort runs before its cohort is released: in every reachable state, the cohort of a
  launch that has a permit is released.
\<close>

theorem no_member_before_release:
  assumes "reachable d" and "m \<in> set (db_members d)" and "i \<in> set (db_intents d)" and "in_id i = cm_intent m"
    and "in_permit i \<noteq> None \<or> in_state i = ''released_to_execute''"
  shows "\<exists>c \<in> set (db_cohorts d). co_id c = cm_cohort m \<and> co_state c = ''released_to_execute''"
proof -
  have "in_permit i \<noteq> None"
    using assms(5) launch_okD(6) [OF reachable_ok [OF assms(1)] assms(3)] by (auto simp: intent_ok_def)
  then have "cm_intent m \<in> permitted d" using assms(3) unfolding permitted_def assms(4) [symmetric] by blast
  then show ?thesis using reachable_gated [OF assms(1)] assms(2) by (auto simp: gated_def unreleased_def)
qed

end
