(* ===== verification/Policy_Invariants.thy ===== *)
theory Policy_Invariants
  imports Policy_Machine
begin

text \<open>
  Invariants of the machine of \<^theory_text>\<open>Policy_Machine\<close> and what its changes keep: the order of decisions,
  the chain of contract versions with its obligations and grants, the seals and states, the journal.
\<close>

inductive_cases change_elim: "change (e, gs, ds) (e', gs', ds')"

section \<open>Decisions\<close>

definition decisions_ok :: "decision list \<Rightarrow> bool" where
  "decisions_ok ds = (\<forall>repo run. deps_ordered [] (filter (\<lambda>r. de_repo r = repo \<and> de_run r = run) ds))"

lemma decisions_step:
  assumes "change s s'" and "decisions_ok (snd (snd s))" shows "decisions_ok (snd (snd s'))"
  using assms
proof cases
  case (decided r ds e gs)
  then show ?thesis using assms(2) by (auto simp: decisions_ok_def deps_ordered_append)
qed simp_all

section \<open>Contracts\<close>

definition version :: "contract_row \<Rightarrow> string \<times> string \<times> int" where
  "version c = (ct_repo c, ct_run c, ct_generation c)"

text \<open>The parent of a version: the previous one, with the same frozen columns.\<close>

definition parent_version :: "contract_row \<Rightarrow> contract_row \<Rightarrow> bool" where
  "parent_version p c = (same_contract p c \<and> ct_generation p = ct_generation c - 1 \<and> ct_parent c = Some (ct_hash p)
     \<and> ct_material_hash p = ct_material_hash c \<and> ct_requirements p = ct_requirements c \<and> set (ct_active p) \<subseteq> set (ct_active c))"

definition linked_version :: "contract_row list \<Rightarrow> contract_row \<Rightarrow> bool" where
  "linked_version cs c = (if ct_generation c = 1 then ct_parent c = None \<and> ct_active c = [] \<and> ct_amendment_id c = None
     else 1 < ct_generation c \<and> ct_amendment_id c \<noteq> None \<and> (\<exists>p \<in> set cs. parent_version p c))"

definition versions_ok :: "contract_row list \<Rightarrow> bool" where
  "versions_ok cs = (distinct (map version cs) \<and> (\<forall>c \<in> set cs. linked_version cs c)
     \<and> (\<forall>a \<in> set cs. \<forall>b \<in> set cs. same_contract a b \<and> ct_amendment_id a = ct_amendment_id b \<and> ct_amendment_id a \<noteq> None \<longrightarrow> a = b))"

definition contracts_ok :: "extension \<Rightarrow> bool" where
  "contracts_ok e = versions_ok (ex_contracts e)"

lemma linked_more: "linked_version cs c \<Longrightarrow> linked_version (cs @ [x]) c"
  by (auto simp: linked_version_def split: if_splits)

lemma contracts_okD:
  assumes "contracts_ok e"
  shows "distinct (map version (ex_contracts e))"
    and "c \<in> set (ex_contracts e) \<Longrightarrow> linked_version (ex_contracts e) c"
    and "a \<in> set (ex_contracts e) \<Longrightarrow> b \<in> set (ex_contracts e) \<Longrightarrow> same_contract a b \<Longrightarrow> ct_amendment_id a = Some i \<Longrightarrow>
      ct_amendment_id b = Some i \<Longrightarrow> a = b"
  using assms unfolding contracts_ok_def versions_ok_def by auto

lemma newest_unique:
  assumes "contracts_ok e" "newest a e" "newest b e" "same_contract a b" shows "a = b"
proof -
  have "ct_generation a = ct_generation b"
    using assms(2-4) unfolding newest_def same_contract_def by (metis order_antisym)
  then have "version a = version b" using assms(4) by (simp add: version_def same_contract_def)
  then show ?thesis using contracts_okD(1) [OF assms(1)] assms(2,3) by (auto simp: newest_def distinct_map inj_on_def)
qed

lemma append_contract_ok:
  assumes ok: "contracts_ok e" and new: "\<forall>x \<in> set (ex_contracts e). version x \<noteq> version c"
    and linked: "linked_version (ex_contracts e @ [c]) c"
    and amendment: "\<forall>x \<in> set (ex_contracts e). same_contract x c \<longrightarrow> ct_amendment_id c \<noteq> None \<longrightarrow> ct_amendment_id x \<noteq> ct_amendment_id c"
    and rows: "ex_contracts e' = ex_contracts e @ [c]"
  shows "contracts_ok e'"
proof -
  have sym: "same_contract a b \<Longrightarrow> same_contract b a" for a b by (simp add: same_contract_def)
  have "linked_version (ex_contracts e @ [c]) x" if "x \<in> set (ex_contracts e @ [c])" for x
    using that linked linked_more contracts_okD(2) [OF ok] by auto
  moreover have "a = b" if "a \<in> set (ex_contracts e @ [c])" "b \<in> set (ex_contracts e @ [c])" "same_contract a b"
    "ct_amendment_id a = ct_amendment_id b" "ct_amendment_id a \<noteq> None" for a b
    using that amendment contracts_okD(3) [OF ok, of a b] sym by auto
  moreover have "distinct (map version (ex_contracts e @ [c]))" using contracts_okD(1) [OF ok] new by (auto simp: image_iff)
  ultimately show ?thesis unfolding contracts_ok_def versions_ok_def rows by (intro conjI ballI impI) blast+
qed

lemma contracts_step:
  assumes "change s s'" and ok: "contracts_ok (fst s)" shows "contracts_ok (fst s')"
  using assms(1)
proof cases
  case (contract_created c e gs ds)
  show ?thesis
    by (rule append_contract_ok [of e c])
      (use contract_created ok in \<open>auto simp: first_contract_def same_contract_def version_def linked_version_def\<close>)
next
  case (amended c aid requested c' e g gs ds)
  have c: "c \<in> set (ex_contracts e)" "\<And>x. x \<in> set (ex_contracts e) \<Longrightarrow> same_contract x c \<Longrightarrow> ct_generation x \<le> ct_generation c"
    using amended(3) by (auto simp: successor_def newest_def)
  have "linked_version (ex_contracts e) c" using contracts_okD(2) [OF ok] c(1) amended(1) by simp
  then have pos: "1 \<le> ct_generation c" by (auto simp: linked_version_def split: if_splits)
  have "parent_version c c'" using amended(3) by (auto simp: successor_def parent_version_def same_contract_def)
  then have linked: "linked_version (ex_contracts e @ [c']) c'"
    using amended(3) c(1) pos by (auto simp: linked_version_def successor_def)
  have same: "same_contract c' c" "ct_generation c' = ct_generation c + 1" "ct_amendment_id c' = Some aid"
    and fresh: "\<And>x. x \<in> set (ex_contracts e) \<Longrightarrow> same_contract x c \<Longrightarrow> ct_amendment_id x \<noteq> Some aid"
    using amended(3) by (simp_all add: successor_def)
  show ?thesis
  proof (rule append_contract_ok [of e c'])
    show "\<forall>x \<in> set (ex_contracts e). version x \<noteq> version c'"
      using c(2) same(1,2) by (force simp: version_def same_contract_def)
    show "\<forall>x \<in> set (ex_contracts e). same_contract x c' \<longrightarrow> ct_amendment_id c' \<noteq> None \<longrightarrow> ct_amendment_id x \<noteq> ct_amendment_id c'"
      using fresh same(1,3) by (simp add: same_contract_def)
  qed (use amended(1,2) ok linked in simp_all)
qed (use ok in \<open>simp_all add: contracts_ok_def\<close>)

section \<open>Obligations\<close>

definition ob_key :: "obligation_row \<Rightarrow> string \<times> string \<times> string" where
  "ob_key x = (ob_repo x, ob_run x, ob_id x)"

definition in_contract :: "contract_row \<Rightarrow> obligation_row \<Rightarrow> bool" where
  "in_contract c x = (ob_repo x = ct_repo c \<and> ob_run x = ct_run c)"

definition latest_in :: "contract_row \<Rightarrow> contract_row list \<Rightarrow> bool" where
  "latest_in c cs = (c \<in> set cs \<and> (\<forall>x \<in> set cs. same_contract x c \<longrightarrow> ct_generation x \<le> ct_generation c))"

text \<open>The active obligations of a run are those its latest contract names, and they rest on its requirements.\<close>

definition obligations_ok :: "contract_row list \<Rightarrow> obligation_row list \<Rightarrow> bool" where
  "obligations_ok cs os = (distinct (map ob_key os) \<and> (\<forall>x \<in> set os. \<exists>c \<in> set cs. in_contract c x)
     \<and> (\<forall>c. latest_in c cs \<longrightarrow> set (ct_active c) = ob_id ` {x \<in> set os. in_contract c x \<and> ob_status x = ''active''}
          \<and> (\<forall>x \<in> set os. in_contract c x \<and> ob_status x = ''active'' \<longrightarrow>
               ob_requirements x \<noteq> [] \<and> set (ob_requirements x) \<subseteq> set (ct_requirements c))))"

lemma newest_latest: "newest c e = latest_in c (ex_contracts e)"
  by (simp add: newest_def latest_in_def)

lemma activated_key: "map ob_key (activated c requested os) = map ob_key os"
  by (simp add: activated_def ob_key_def activate_row_def)

lemma activated_rows:
  assumes "y \<in> set (activated c requested os)"
  obtains x where "x \<in> set os" "ob_key y = ob_key x" "ob_requirements y = ob_requirements x"
    "ob_status y = (if in_contract c x \<and> ob_id x \<in> set requested \<and> ob_status x = ''proposed'' then ''active'' else ob_status x)"
  using assms by (auto simp: activated_def ob_key_def activate_row_def in_contract_def split: if_split_asm)

lemma activated_ids:
  assumes dist: "distinct (map ob_key os)"
    and ready: "\<And>i. i \<in> set requested \<Longrightarrow> \<exists>x \<in> set os. in_contract c x \<and> ob_id x = i \<and> ob_status x = ''proposed''"
  shows "ob_id ` {x \<in> set (activated c requested os). in_contract c x \<and> ob_status x = ''active''}
    = ob_id ` {x \<in> set os. in_contract c x \<and> ob_status x = ''active''} \<union> set requested"
proof (intro equalityI subsetI)
  fix i assume "i \<in> ob_id ` {x \<in> set (activated c requested os). in_contract c x \<and> ob_status x = ''active''}"
  then obtain y where y: "y \<in> set (activated c requested os)" "in_contract c y" "ob_status y = ''active''" "i = ob_id y" by blast
  from y(1) show "i \<in> ob_id ` {x \<in> set os. in_contract c x \<and> ob_status x = ''active''} \<union> set requested"
    by (rule activated_rows) (use y in \<open>auto simp: ob_key_def in_contract_def split: if_split_asm\<close>)
next
  fix i assume "i \<in> ob_id ` {x \<in> set os. in_contract c x \<and> ob_status x = ''active''} \<union> set requested"
  then consider x where "x \<in> set os" "in_contract c x" "ob_status x = ''active''" "ob_id x = i"
    | x where "x \<in> set os" "in_contract c x" "ob_status x = ''proposed''" "ob_id x = i" "i \<in> set requested"
    using ready by blast
  then show "i \<in> ob_id ` {x \<in> set (activated c requested os). in_contract c x \<and> ob_status x = ''active''}"
  proof cases
    case 1
    then have "x \<in> set (activated c requested os)" by (auto simp: activated_def image_iff intro!: bexI [of _ x])
    then show ?thesis using 1 by blast
  next
    case 2
    then have "activate_row (ct_generation c + 1) x \<in> set (activated c requested os)"
      by (auto simp: activated_def in_contract_def image_iff intro!: bexI [of _ x])
    then show ?thesis using 2 by (intro image_eqI [of _ _ "activate_row (ct_generation c + 1) x"]) (simp_all add: activate_row_def in_contract_def)
  qed
qed

lemma latest_other:
  assumes "latest_in b (cs @ [c'])" "\<not> same_contract b c'" shows "latest_in b cs"
  using assms by (auto simp: latest_in_def same_contract_def)

lemma obligations_okD:
  assumes "obligations_ok cs os"
  shows "distinct (map ob_key os)" and "x \<in> set os \<Longrightarrow> \<exists>c \<in> set cs. in_contract c x"
    and "latest_in c cs \<Longrightarrow> set (ct_active c) = ob_id ` {x \<in> set os. in_contract c x \<and> ob_status x = ''active''}"
    and "latest_in c cs \<Longrightarrow> x \<in> set os \<Longrightarrow> in_contract c x \<Longrightarrow> ob_status x = ''active'' \<Longrightarrow>
      ob_requirements x \<noteq> [] \<and> set (ob_requirements x) \<subseteq> set (ct_requirements c)"
  using assms unfolding obligations_ok_def by blast+

lemma obligations_created:
  assumes ok: "obligations_ok cs os" and first: "ct_active c = []" "\<forall>x \<in> set cs. \<not> same_contract x c"
  shows "obligations_ok (cs @ [c]) os"
  unfolding obligations_ok_def
proof (intro conjI allI impI)
  have none: "\<not> in_contract c x" if "x \<in> set os" for x
    using obligations_okD(2) [OF ok that] first(2) by (auto simp: in_contract_def same_contract_def)
  fix b assume b: "latest_in b (cs @ [c])"
  have same: "in_contract b x = in_contract c x" if "same_contract b c" for x using that by (simp add: in_contract_def same_contract_def)
  have bc: "b = c" if "same_contract b c" using b first(2) that by (auto simp: latest_in_def)
  show "set (ct_active b) = ob_id ` {x \<in> set os. in_contract b x \<and> ob_status x = ''active''}"
    using obligations_okD(3) [OF ok latest_other [OF b]] bc none first(1) by (cases "same_contract b c") auto
  show "\<forall>x \<in> set os. in_contract b x \<and> ob_status x = ''active'' \<longrightarrow>
      ob_requirements x \<noteq> [] \<and> set (ob_requirements x) \<subseteq> set (ct_requirements b)"
    using obligations_okD(4) [OF ok latest_other [OF b]] bc none by (cases "same_contract b c") auto
qed (use obligations_okD(1,2) [OF ok] in auto)

lemma obligations_proposed:
  assumes ok: "obligations_ok cs os" and new: "ob_key x \<notin> ob_key ` set os" "ob_status x = ''proposed''"
    and c: "c \<in> set cs" "in_contract c x"
  shows "obligations_ok cs (os @ [x])"
  unfolding obligations_ok_def
proof (intro conjI allI impI)
  fix b assume b: "latest_in b cs"
  show "set (ct_active b) = ob_id ` {y \<in> set (os @ [x]). in_contract b y \<and> ob_status y = ''active''}"
    using obligations_okD(3) [OF ok b] new(2) by (auto intro!: arg_cong [where f = "image ob_id"])
  show "\<forall>y \<in> set (os @ [x]). in_contract b y \<and> ob_status y = ''active'' \<longrightarrow>
      ob_requirements y \<noteq> [] \<and> set (ob_requirements y) \<subseteq> set (ct_requirements b)"
    using obligations_okD(4) [OF ok b] new(2) by auto
qed (use obligations_okD(1,2) [OF ok] new(1) c in auto)

lemma obligation_of_key:
  assumes "distinct (map ob_key os)" "x \<in> set os" "y \<in> set os" "ob_key x = ob_key y" shows "x = y"
  using assms by (auto simp: distinct_map inj_on_def)

lemma obligations_amended:
  assumes ok: "obligations_ok cs os" and c: "latest_in c cs"
    and succ: "same_contract c' c" "ct_generation c' = ct_generation c + 1" "ct_requirements c' = ct_requirements c"
      "set (ct_active c') = set (ct_active c) \<union> set requested"
    and ready: "\<And>i. i \<in> set requested \<Longrightarrow> \<exists>x \<in> set os. in_contract c x \<and> ob_id x = i \<and> ob_status x = ''proposed''
      \<and> ob_requirements x \<noteq> [] \<and> set (ob_requirements x) \<subseteq> set (ct_requirements c)"
  shows "obligations_ok (cs @ [c']) (activated c requested os)"
  unfolding obligations_ok_def
proof (intro conjI allI impI)
  note dist = obligations_okD(1) [OF ok]
  show "distinct (map ob_key (activated c requested os))" using dist by (simp add: activated_key)
  have home: "in_contract c' y = in_contract c y" for y using succ(1) by (simp add: in_contract_def same_contract_def)
  show "\<forall>y \<in> set (activated c requested os). \<exists>b \<in> set (cs @ [c']). in_contract b y"
  proof
    fix y assume "y \<in> set (activated c requested os)"
    then obtain x where "x \<in> set os" "ob_key y = ob_key x" by (rule activated_rows)
    then show "\<exists>b \<in> set (cs @ [c']). in_contract b y" using obligations_okD(2) [OF ok] by (auto simp: in_contract_def ob_key_def)
  qed
  fix b assume b: "latest_in b (cs @ [c'])"
  have bc: "b = c'" if "same_contract b c'"
  proof (rule ccontr)
    assume "b \<noteq> c'"
    then have "b \<in> set cs" using b by (auto simp: latest_in_def)
    moreover have "same_contract c' b" "same_contract b c" using that succ(1) by (simp_all add: same_contract_def)
    ultimately have "ct_generation c' \<le> ct_generation b" "ct_generation b \<le> ct_generation c" using b c by (auto simp: latest_in_def)
    then show False using succ(2) by simp
  qed
  have far: "\<not> in_contract c y" if "\<not> same_contract b c'" "in_contract b y" for y
    using that succ(1) by (auto simp: in_contract_def same_contract_def)
  have untouched: "y \<in> set (activated c requested os) \<longleftrightarrow> y \<in> set os" if "\<not> in_contract c y" for y
    using that by (force simp: activated_def in_contract_def activate_row_def image_iff split: if_split_asm)
  show "set (ct_active b) = ob_id ` {y \<in> set (activated c requested os). in_contract b y \<and> ob_status y = ''active''}"
  proof (cases "same_contract b c'")
    case True
    have "ob_id ` {y \<in> set (activated c requested os). in_contract c y \<and> ob_status y = ''active''} = set (ct_active c) \<union> set requested"
      unfolding obligations_okD(3) [OF ok c] by (rule activated_ids [OF dist]) (use ready in blast)
    then show ?thesis using bc [OF True] succ(4) home by simp
  next
    case False
    have "{y \<in> set (activated c requested os). in_contract b y \<and> ob_status y = ''active''} = {y \<in> set os. in_contract b y \<and> ob_status y = ''active''}"
      using untouched far [OF False] by blast
    then show ?thesis using obligations_okD(3) [OF ok latest_other [OF b False]] by simp
  qed
  show "\<forall>y \<in> set (activated c requested os). in_contract b y \<and> ob_status y = ''active'' \<longrightarrow>
      ob_requirements y \<noteq> [] \<and> set (ob_requirements y) \<subseteq> set (ct_requirements b)"
  proof (intro ballI impI)
    fix y assume y: "y \<in> set (activated c requested os)" "in_contract b y \<and> ob_status y = ''active''"
    show "ob_requirements y \<noteq> [] \<and> set (ob_requirements y) \<subseteq> set (ct_requirements b)"
    proof (cases "same_contract b c'")
      case True
      obtain x where x: "x \<in> set os" "ob_key y = ob_key x" "ob_requirements y = ob_requirements x"
        "ob_status y = (if in_contract c x \<and> ob_id x \<in> set requested \<and> ob_status x = ''proposed'' then ''active'' else ob_status x)"
        using y(1) by (rule activated_rows)
      have "in_contract c y" using y(2) bc [OF True] home [of y] by simp
      then have inc: "in_contract c x" using x(2) by (simp add: in_contract_def ob_key_def)
      have "ob_requirements x \<noteq> [] \<and> set (ob_requirements x) \<subseteq> set (ct_requirements c)"
      proof (cases "ob_status x = ''active''")
        case True then show ?thesis using obligations_okD(4) [OF ok c x(1) inc] by simp
      next
        case False
        then have "ob_id x \<in> set requested" using x(4) y(2) by (simp split: if_split_asm)
        then obtain z where z: "z \<in> set os" "in_contract c z" "ob_id z = ob_id x" "ob_requirements z \<noteq> []"
          "set (ob_requirements z) \<subseteq> set (ct_requirements c)" using ready by blast
        have "z = x" using obligation_of_key [OF dist z(1) x(1)] z(2,3) inc by (simp add: ob_key_def in_contract_def)
        then show ?thesis using z by simp
      qed
      then show ?thesis using x(3) bc [OF True] succ(3) by simp
    next
      case False
      then show ?thesis using obligations_okD(4) [OF ok latest_other [OF b False]] untouched far [OF False] y by blast
    qed
  qed
qed

lemma obligations_step:
  assumes "change s s'" and ok: "contracts_ok (fst s)" "obligations_ok (ex_contracts (fst s)) (ex_obligations (fst s))"
  shows "obligations_ok (ex_contracts (fst s')) (ex_obligations (fst s'))"
  using assms(1)
proof cases
  case (contract_created c e gs ds)
  then show ?thesis using ok(2) by (auto simp: first_contract_def intro: obligations_created)
next
  case (proposed x e c gs ds)
  have "ob_key x \<notin> ob_key ` set (ex_obligations e)"
    using proposed(4) by (auto simp: obligation_of_def find_None_all ob_key_def)
  then show ?thesis using proposed ok(2) by (auto simp: in_contract_def intro!: obligations_proposed)
next
  case (amended c aid requested c' e g gs ds)
  have "obligations_ok (ex_contracts e @ [c']) (activated c requested (ex_obligations e))"
  proof (rule obligations_amended)
    show "latest_in c (ex_contracts e)" using amended(3) by (simp add: successor_def newest_latest)
    fix i assume "i \<in> set requested"
    then obtain x where "obligation_of (ct_repo c) (ct_run c) i e = Some x" "ob_status x = ''proposed''"
        "ob_requirements x \<noteq> []" "set (ob_requirements x) \<subseteq> set (ct_requirements c)"
      using amended(4) by (auto simp: eligible_def)
    then show "\<exists>x \<in> set (ex_obligations e). in_contract c x \<and> ob_id x = i \<and> ob_status x = ''proposed''
      \<and> ob_requirements x \<noteq> [] \<and> set (ob_requirements x) \<subseteq> set (ct_requirements c)"
      by (auto simp: obligation_of_def in_contract_def dest!: find_Some_in)
  qed (use amended ok in \<open>simp_all add: successor_def\<close>)
  then show ?thesis using amended(1,2) by simp
qed (use ok in simp_all)

section \<open>Amendment grants\<close>

text \<open>Every amendment has used a grant of its own, made for the contract it amends.\<close>

definition authorizes :: "grant \<Rightarrow> contract_row \<Rightarrow> bool" where
  "authorizes g c = (gr_consumed g \<and> gr_repo g = ct_repo c \<and> gr_run g = ct_run c \<and> gr_action g = ''acceptance-amend''
     \<and> Some (gr_target g) = ct_parent c \<and> (\<exists>i. ct_amendment_id c = Some i \<and> gr_consume_key g = Some (amendment_key i)))"

definition amendments_ok :: "contract_row list \<Rightarrow> grant list \<Rightarrow> bool" where
  "amendments_ok cs gs = (distinct (map gr_id gs) \<and> (\<forall>c \<in> set cs. ct_generation c = 1 \<or> (\<exists>g \<in> set gs. authorizes g c)))"

lemma amendments_more:
  assumes "amendments_ok cs gs" "\<forall>x \<in> set gs. gr_id x \<noteq> gr_id g" shows "amendments_ok cs (gs @ [g])"
  using assms by (auto simp: amendments_ok_def)

lemma mark_consumed_id [simp]: "gr_id (mark_consumed k g) = gr_id g"
  by (simp add: mark_consumed_def)

text \<open>Consuming an unused grant touches no used one.\<close>

lemma consume_keeps:
  assumes ok: "amendments_ok cs gs" and g: "g \<in> set gs" "\<not> gr_consumed g"
    and P: "\<And>x. P x \<Longrightarrow> gr_id x = gr_id g"
  shows "amendments_ok cs (update_where P (mark_consumed k) gs)"
    and "x \<in> set gs \<Longrightarrow> gr_consumed x \<Longrightarrow> x \<in> set (update_where P (mark_consumed k) gs)"
proof -
  have dist: "distinct (map gr_id gs)" using ok by (simp add: amendments_ok_def)
  have keep: "x \<in> set (update_where P (mark_consumed k) gs)" if x: "x \<in> set gs" "gr_consumed x" for x
  proof -
    have "\<not> P x" using P [of x] dist x g by (auto simp: distinct_map inj_on_def)
    then show ?thesis using x(1) by (auto simp: set_update_where image_iff intro!: bexI [of _ x])
  qed
  then show "x \<in> set gs \<Longrightarrow> gr_consumed x \<Longrightarrow> x \<in> set (update_where P (mark_consumed k) gs)" .
  have "\<exists>h \<in> set (update_where P (mark_consumed k) gs). authorizes h c" if "h \<in> set gs" "authorizes h c" for h c
    using keep [OF that(1)] that(2) by (auto simp: authorizes_def)
  moreover have "distinct (map gr_id (update_where P (mark_consumed k) gs))" using dist by (simp add: map_update_where)
  ultimately show "amendments_ok cs (update_where P (mark_consumed k) gs)" using ok unfolding amendments_ok_def by blast
qed

lemma amendments_step:
  assumes "change s s'" and ok: "amendments_ok (ex_contracts (fst s)) (fst (snd s))"
  shows "amendments_ok (ex_contracts (fst s')) (fst (snd s'))"
  using assms(1)
proof cases
  case (grant_created g gs e ds)
  then show ?thesis using amendments_more [of "ex_contracts e" gs g] ok by (simp add: grant_clash_def)
next
  case (grant_consumed g gs e ds k)
  then show ?thesis using consume_keeps(1) [of "ex_contracts e" gs g "\<lambda>x. gr_id x = gr_id g" k] ok by simp
next
  case (contract_created c e gs ds)
  then show ?thesis using ok by (auto simp: amendments_ok_def first_contract_def)
next
  case (amended c aid requested c' e g gs ds)
  let ?P = "\<lambda>x. gr_id x = gr_id g \<and> \<not> gr_consumed x"
  have ok': "amendments_ok (ex_contracts e) gs" using ok amended(1) by simp
  from consume_keeps(1) [OF ok' amended(5,7), of ?P "amendment_key aid"]
  have kept: "amendments_ok (ex_contracts e) (update_where ?P (mark_consumed (amendment_key aid)) gs)" by simp
  have "mark_consumed (amendment_key aid) g \<in> set (update_where ?P (mark_consumed (amendment_key aid)) gs)"
    using amended(5,7) by (auto simp: set_update_where image_iff intro!: bexI [of _ g])
  moreover have "authorizes (mark_consumed (amendment_key aid)  g) c'"
    using amended(3,6) by (simp add: authorizes_def mark_consumed_def amends_def successor_def same_contract_def)
  ultimately show ?thesis using kept amended(1,2) by (auto simp: amendments_ok_def)
qed (use ok in simp_all)

section \<open>Seals, states, checks and journals\<close>

definition seal_version :: "seal_row \<Rightarrow> string \<times> string \<times> int" where
  "seal_version s = (se_repo s, se_run s, se_contract_generation s)"

definition seals_ok :: "contract_row list \<Rightarrow> draft_row list \<Rightarrow> seal_row list \<Rightarrow> bool" where
  "seals_ok cs rs ss = (distinct (map seal_version ss) \<and> (\<forall>s \<in> set ss. \<exists>r \<in> set rs. \<exists>c \<in> set cs. sealed_from s r c))"

lemma seals_more: "seals_ok cs rs ss \<Longrightarrow> set cs \<subseteq> set cs' \<Longrightarrow> set rs \<subseteq> set rs' \<Longrightarrow> seals_ok cs' rs' ss"
  unfolding seals_ok_def by blast

lemma seals_step:
  assumes "change s s'" and ok: "seals_ok (ex_contracts (fst s)) (ex_drafts (fst s)) (ex_seals (fst s))"
  shows "seals_ok (ex_contracts (fst s')) (ex_drafts (fst s')) (ex_seals (fst s'))"
  using assms(1)
proof cases
  case (sealed e x r c gs ds)
  then show ?thesis using ok by (auto simp: seals_ok_def seal_version_def seal_clash_def newest_def image_iff)
qed (use ok in \<open>auto elim!: seals_more\<close>)

definition state_key :: "policy_state \<Rightarrow> string \<times> string" where
  "state_key st = (ps_repo st, ps_run st)"

definition final_stages :: "string list" where
  "final_stages = ''NEEDS_DECISION'' # ending_stages"

text \<open>A stage of a state either has moves, one of them to the cancellation, or is final.\<close>

definition known_stage :: "string \<Rightarrow> bool" where
  "known_stage x = (stage_move x ''CANCELLED'' \<or> x \<in> set final_stages)"

lemma stage_move_known: "stage_move a b \<Longrightarrow> known_stage b"
  by (auto simp: stage_move_def stage_moves_def known_stage_def final_stages_def ending_stages_def split: if_split_asm)

definition states_ok :: "seal_row list \<Rightarrow> policy_state list \<Rightarrow> bool" where
  "states_ok ss sts = (distinct (map state_key sts) \<and> (\<forall>st \<in> set sts. known_stage (ps_stage st) \<and> (\<exists>s \<in> set ss. seal_of_state s st)))"

lemma states_update:
  assumes "states_ok ss sts" and f: "\<And>s. state_key (f s) = state_key s \<and> (ps_acceptance (f s), ps_generation (f s)) = (ps_acceptance s, ps_generation s)"
    and stages: "\<And>s. known_stage (ps_stage s) \<Longrightarrow> known_stage (ps_stage (f s))"
  shows "states_ok ss (update_where P f sts)"
proof -
  have "seal_of_state x (f s) = seal_of_state x s" for x s using f [of s] by (auto simp: seal_of_state_def state_key_def)
  moreover have "map state_key (update_where P f sts) = map state_key sts" by (rule map_update_where) (use f in blast)
  ultimately show ?thesis using assms(1) stages by (auto simp: states_ok_def set_update_where)
qed

lemma states_step:
  assumes "change s s'" and ok: "states_ok (ex_seals (fst s)) (ex_states (fst s))"
  shows "states_ok (ex_seals (fst s')) (ex_states (fst s'))"
  using assms(1)
proof cases
  case (sealed e x r c gs ds)
  then show ?thesis using ok unfolding states_ok_def by auto
next
  case (initialized e st x gs ds)
  moreover have "known_stage ''SEALED''" by (simp add: known_stage_def stage_move_def stage_moves_def)
  ultimately show ?thesis using ok by (auto simp: states_ok_def state_key_def state_clash_def)
next
  case (candidate_bound repo run e st rows h gs ds)
  then show ?thesis using ok by (auto intro!: states_update simp: state_key_def)
next
  case (staged repo run e st new gs ds v)
  then show ?thesis using ok stage_move_known [OF staged(4)] by (auto intro!: states_update simp: state_key_def)
qed (use ok in simp_all)

definition journal_key :: "journal_row \<Rightarrow> string \<times> string \<times> string" where
  "journal_key j = (jr_repo j, jr_run j, jr_wave j)"

definition unsettled_in :: "journal_row \<Rightarrow> journal_row \<Rightarrow> bool" where
  "unsettled_in a b = ((jr_repo a, jr_run a, jr_preparation a) = (jr_repo b, jr_run b, jr_preparation b)
     \<and> jr_state a \<noteq> ''published'' \<and> jr_state b \<noteq> ''published'')"

definition journals_ok :: "journal_row list \<Rightarrow> bool" where
  "journals_ok js = (distinct (map journal_key js) \<and> (\<forall>a \<in> set js. \<forall>b \<in> set js. unsettled_in a b \<longrightarrow> a = b))"

lemma journals_update:
  assumes ok: "journals_ok js" and j: "j \<in> set js" "moves_journal j (f j)"
  shows "journals_ok (update_where (same_wave j) f js)"
proof -
  have dist: "distinct (map journal_key js)" using ok by (simp add: journals_ok_def)
  have only: "same_wave j x \<longleftrightarrow> x = j" if "x \<in> set js" for x
    using dist that j(1) by (auto simp: same_wave_def journal_key_def distinct_map inj_on_def)
  have rows: "update_where (same_wave j) f js = map (\<lambda>x. if x = j then f j else x) js"
    unfolding update_where_def by (intro map_cong refl) (use only in auto)
  have key: "journal_key (f j) = journal_key j" "(jr_repo (f j), jr_run (f j), jr_preparation (f j)) = (jr_repo j, jr_run j, jr_preparation j)"
    and open': "jr_state (f j) \<noteq> ''published'' \<Longrightarrow> jr_state j \<noteq> ''published''"
    using j(2) by (auto simp: moves_journal_def journal_core_def journal_key_def)
  have keys: "map journal_key (map (\<lambda>x. if x = j then f j else x) js) = map journal_key js" using key(1) by simp
  have same: "(if a = j then f j else a) = (if b = j then f j else b)"
    if "a \<in> set js" "b \<in> set js" "unsettled_in (if a = j then f j else a) (if b = j then f j else b)" for a b
  proof -
    have "unsettled_in a b" using that(3) key(2) open' by (auto simp: unsettled_in_def split: if_split_asm)
    then show ?thesis using ok that(1,2) by (auto simp: journals_ok_def)
  qed
  show ?thesis unfolding journals_ok_def rows keys set_map ball_simps
    by (intro conjI dist ballI impI) (rule same)
qed

lemma journals_step:
  assumes "change s s'" and ok: "journals_ok (ex_journals (fst s))" shows "journals_ok (ex_journals (fst s'))"
  using assms(1)
proof cases
  case (registered e j gs ds)
  have "\<not> unsettled_in a j" if "a \<in> set (ex_journals e)" for a
    using registered(3,5) that by (auto simp: unsettled_in_def journal_clash_def)
  moreover have "unsettled_in a b \<Longrightarrow> unsettled_in b a" for a b by (auto simp: unsettled_in_def)
  ultimately have "\<forall>a \<in> set (ex_journals e @ [j]). \<forall>b \<in> set (ex_journals e @ [j]). unsettled_in a b \<longrightarrow> a = b"
    using ok registered(1) by (auto simp: journals_ok_def)
  then show ?thesis using registered(1-3) ok by (auto simp: journals_ok_def journal_key_def journal_clash_def)
next
  case (journaled j e f gs ds)
  then show ?thesis using ok journals_update [of "ex_journals e" j f] by (auto dest: find_Some_in)
qed (use ok in simp_all)

section \<open>All invariants\<close>

definition policies_ok :: "policies \<Rightarrow> bool" where
  "policies_ok s = (case s of (e, gs, ds) \<Rightarrow> decisions_ok ds \<and> contracts_ok e \<and> obligations_ok (ex_contracts e) (ex_obligations e)
     \<and> amendments_ok (ex_contracts e) gs \<and> seals_ok (ex_contracts e) (ex_drafts e) (ex_seals e)
     \<and> states_ok (ex_seals e) (ex_states e) \<and> journals_ok (ex_journals e))"

lemma policies_step: "change s s' \<Longrightarrow> policies_ok s \<Longrightarrow> policies_ok s'"
  using decisions_step [of s s'] contracts_step [of s s'] obligations_step [of s s'] amendments_step [of s s'] seals_step [of s s']
    states_step [of s s'] journals_step [of s s']
  by (cases s; cases s') (simp add: policies_ok_def)

text \<open>What lasts: the logs grow at their ends, a state keeps its contract and moves along its stages, a journal row its contract.\<close>

definition state_moves :: "policy_state \<Rightarrow> policy_state \<Rightarrow> bool" where
  "state_moves a b = (state_key b = state_key a \<and> (ps_acceptance b, ps_generation b) = (ps_acceptance a, ps_generation a)
     \<and> stage_move\<^sup>*\<^sup>* (ps_stage a) (ps_stage b))"

definition journal_moves :: "journal_row \<Rightarrow> journal_row \<Rightarrow> bool" where
  "journal_moves a b = (journal_core b = journal_core a
     \<and> (jr_state a \<in> {''published'', ''quarantined''} \<longrightarrow> jr_state b = jr_state a))"

definition logs_grow :: "extension \<Rightarrow> extension \<Rightarrow> bool" where
  "logs_grow e e' = (prefix (ex_contracts e) (ex_contracts e') \<and> prefix (ex_drafts e) (ex_drafts e') \<and> prefix (ex_seals e) (ex_seals e')
     \<and> prefix (ex_receipts e) (ex_receipts e') \<and> prefix (ex_candidates e) (ex_candidates e') \<and> prefix (ex_checks e) (ex_checks e'))"

definition grows :: "policies \<Rightarrow> policies \<Rightarrow> bool" where
  "grows s s' = (logs_grow (fst s) (fst s') \<and> prefix (snd (snd s)) (snd (snd s'))
     \<and> (\<forall>a \<in> set (ex_states (fst s)). \<exists>b \<in> set (ex_states (fst s')). state_moves a b)
     \<and> (\<forall>a \<in> set (ex_journals (fst s)). \<exists>b \<in> set (ex_journals (fst s')). journal_moves a b))"

lemma moves_refl [simp]: "state_moves a a" "journal_moves j j" "logs_grow e e"
  by (simp_all add: state_moves_def journal_moves_def logs_grow_def)

lemma moves_trans:
  "state_moves a b \<Longrightarrow> state_moves b c \<Longrightarrow> state_moves a c"
  "journal_moves x y \<Longrightarrow> journal_moves y z \<Longrightarrow> journal_moves x z"
  "logs_grow e f \<Longrightarrow> logs_grow f g \<Longrightarrow> logs_grow e g"
  by (auto simp: state_moves_def journal_moves_def logs_grow_def intro: rtranclp_trans prefix_order.trans)

lemma grows_refl [simp]: "grows s s"
proof -
  have "\<exists>b \<in> set sts. state_moves a b" if "a \<in> set sts" for a sts by (rule bexI [of _ a]) (simp_all add: that)
  moreover have "\<exists>b \<in> set js. journal_moves a b" if "a \<in> set js" for a js by (rule bexI [of _ a]) (simp_all add: that)
  ultimately show ?thesis by (simp add: grows_def)
qed

lemma grows_trans: "grows s t \<Longrightarrow> grows t u \<Longrightarrow> grows s u"
  unfolding grows_def by (meson moves_trans prefix_order.trans)

text \<open>The row a statement on the key of a run updates.\<close>

lemma state_only:
  assumes "states_ok ss sts" "List.find (of_run repo run) sts = Some st" "a \<in> set sts"
  shows "of_run repo run a \<longleftrightarrow> a = st"
  using assms(1,3) find_Some_in [OF assms(2)] by (auto simp: states_ok_def of_run_def state_key_def distinct_map inj_on_def)

lemma states_grow:
  assumes "states_ok ss sts" "List.find (of_run repo run) sts = Some st" "state_moves st (f st)" "a \<in> set sts"
  shows "\<exists>b \<in> set (update_where (of_run repo run) f sts). state_moves a b"
proof -
  have "(if of_run repo run a then f a else a) \<in> set (update_where (of_run repo run) f sts)"
    using assms(4) by (simp add: set_update_where)
  moreover have "state_moves a (if of_run repo run a then f a else a)" using state_only [OF assms(1,2,4)] assms(3) by auto
  ultimately show ?thesis by blast
qed

lemma journals_grow:
  assumes ok: "journals_ok js" and j: "j \<in> set js" "moves_journal j (f j)" and a: "a \<in> set js"
  shows "\<exists>b \<in> set (update_where (same_wave j) f js). journal_moves a b"
proof -
  have "(if same_wave j a then f a else a) \<in> set (update_where (same_wave j) f js)" using a by (simp add: set_update_where)
  moreover have "same_wave j a \<longleftrightarrow> a = j"
    using ok a j(1) by (auto simp: journals_ok_def same_wave_def journal_key_def distinct_map inj_on_def)
  moreover have "journal_moves j (f j)" using j(2) by (auto simp: moves_journal_def journal_moves_def)
  ultimately show ?thesis by (metis moves_refl(2))
qed

lemma grows_step:
  assumes "change s s'" and ok: "policies_ok s" shows "grows s s'"
  using assms(1)
proof cases
  case (candidate_bound repo run e st rows h gs ds)
  have "states_ok (ex_seals e) (ex_states e)" using ok candidate_bound(1) by (simp add: policies_ok_def)
  from states_grow [OF this candidate_bound(3), of "\<lambda>s. s\<lparr>ps_candidate := h\<rparr>"]
  have "\<forall>a \<in> set (ex_states e). \<exists>b \<in> set (update_where (of_run repo run) (\<lambda>s. s\<lparr>ps_candidate := h\<rparr>) (ex_states e)). state_moves a b"
    by (simp add: state_moves_def state_key_def)
  then show ?thesis using candidate_bound(1,2,4) by (auto simp: grows_def logs_grow_def intro: moves_refl)
next
  case (staged repo run e st new gs ds v)
  have "states_ok (ex_seals e) (ex_states e)" using ok staged(1) by (simp add: policies_ok_def)
  moreover have "state_moves st (st\<lparr>ps_stage := new, ps_decision := v\<rparr>)"
    using staged(4) by (simp add: state_moves_def state_key_def r_into_rtranclp)
  ultimately have "\<forall>a \<in> set (ex_states e). \<exists>b \<in> set (update_where (of_run repo run) (\<lambda>s. s\<lparr>ps_stage := new, ps_decision := v\<rparr>) (ex_states e)). state_moves a b"
    using states_grow [OF _ staged(3), of _ "\<lambda>s. s\<lparr>ps_stage := new, ps_decision := v\<rparr>"] by blast
  then show ?thesis using staged(1,2) by (auto simp: grows_def logs_grow_def intro: moves_refl)
next
  case (journaled j e f gs ds)
  have "journals_ok (ex_journals e)" using ok journaled(1) by (simp add: policies_ok_def)
  from journals_grow [where f = f, OF this find_Some_in [OF journaled(3), THEN conjunct1] journaled(4)] journaled(1,2)
  show ?thesis by (auto simp: grows_def logs_grow_def intro: moves_refl)
qed (auto simp: grows_def logs_grow_def intro: moves_refl)

lemma runs_grow:
  assumes "change\<^sup>*\<^sup>* s s'" and "policies_ok s" shows "policies_ok s' \<and> grows s s'"
  using assms(1)
proof (induction rule: rtranclp_induct)
  case base then show ?case using assms(2) by simp
next
  case (step t u)
  then show ?case using policies_step [OF step.hyps(2)] grows_step [OF step.hyps(2)] grows_trans by blast
qed

text \<open>The final stages have no moves.\<close>

lemma stage_final:
  assumes "stage_move\<^sup>*\<^sup>* a b" "a \<in> set final_stages" shows "b = a"
  using assms(1)
proof (induction rule: rtranclp_induct)
  case (step y z) then show ?case using assms(2) by (auto simp: stage_move_def stage_moves_def final_stages_def ending_stages_def)
qed simp

end
