(* ===== verification/Policy_Contract.thy ===== *)
theory Policy_Contract
  imports Policy_Invariants Run_Scenario
begin

text \<open>
  What the acceptance contract, the frontend policy, the gates and the integration journal promise over
  all the runs of \<^theory_text>\<open>Run_Safety\<close>, and what a completion and a cancellation need.
\<close>

section \<open>Reachable policy tables\<close>

lemma empty_policies: "policies_ok (kept empty_db)"
  by (simp add: policies_ok_def kept_def empty_db_def empty_extension_def decisions_ok_def contracts_ok_def versions_ok_def
      obligations_ok_def latest_in_def amendments_ok_def seals_ok_def states_ok_def journals_ok_def)

lemma reachable_policies: "reachable d \<Longrightarrow> policies_ok (kept d)"
  unfolding reachable_def using runs_grow [OF runs_change empty_policies] by blast

lemma later_policies: "reachable d \<Longrightarrow> run_step\<^sup>*\<^sup>* d d' \<Longrightarrow> grows (kept d) (kept d')"
  using runs_grow [OF runs_change reachable_policies] by blast

lemma reachable_parts:
  assumes "reachable d"
  shows "decisions_ok (db_decisions d)" and "contracts_ok (db_tables d)"
    and "obligations_ok (ex_contracts (db_tables d)) (ex_obligations (db_tables d))"
    and "amendments_ok (ex_contracts (db_tables d)) (db_grants d)"
    and "seals_ok (ex_contracts (db_tables d)) (ex_drafts (db_tables d)) (ex_seals (db_tables d))"
    and "states_ok (ex_seals (db_tables d)) (ex_states (db_tables d))" and "journals_ok (ex_journals (db_tables d))"
  using reachable_policies [OF assms] by (simp_all add: policies_ok_def kept_def)

section \<open>The machine\<close>

text \<open>
  C8: the calls of the store refine the abstract machine of the policy: on the contract, draft, seal,
  receipt, candidate, check, journal, grant and decision tables, every run of any number of processes is a
  run of the machine, one of its changes for each call.
\<close>

theorem policy_machine_refined:
  assumes "run_step\<^sup>*\<^sup>* d d'" shows "change\<^sup>*\<^sup>* (kept d) (kept d')"
  using assms by (rule runs_change)

section \<open>Gates\<close>

text \<open>
  C12: the gates projected for a run are exactly the backed ones: a gate is open if and only if its latest
  decision is positive, current for the inputs at hand and unexpired, and everything it rests on, through
  all its dependencies, is so too; the memo, shared by the gates, never changes an answer.
\<close>

theorem gates_exact:
  assumes "reachable d" and "parse_utc now = Some n"
  shows "project_gates (PDict h) run repo now d = map (\<lambda>g. (g, case latest_decision (run_decisions repo run d) g of None \<Rightarrow> False
     | Some r \<Rightarrow> backed (current_decision (run_decisions repo run d) h n) (run_decisions repo run d) (de_id r))) gates"
  by (rule project_gates_backed [OF _ assms(2)])
    (use reachable_parts(1) [OF assms(1)] in \<open>simp add: decisions_ok_def run_decisions_def\<close>)

section \<open>Contracts\<close>

text \<open>
  C10: the versions of an acceptance contract form a chain: the first has no parent and no active
  obligation; every other one carries the hash of the version before it, keeps its requirements and its
  material, only adds obligations, and was bought with a grant of its own, consumed for exactly that parent.
\<close>

theorem contract_versions_chained:
  assumes "reachable d" and "c \<in> set (ex_contracts (db_tables d))"
  shows "ct_generation c = 1 \<and> ct_parent c = None \<and> ct_active c = [] \<or>
    1 < ct_generation c \<and>
    (\<exists>p \<in> set (ex_contracts (db_tables d)). ct_repo p = ct_repo c \<and> ct_run p = ct_run c \<and> ct_generation p = ct_generation c - 1 \<and>
       ct_parent c = Some (ct_hash p) \<and> ct_requirements p = ct_requirements c \<and> ct_material_hash p = ct_material_hash c \<and>
       set (ct_active p) \<subseteq> set (ct_active c)) \<and>
    (\<exists>g \<in> set (db_grants d). gr_consumed g \<and> gr_action g = ''acceptance-amend'' \<and> gr_repo g = ct_repo c \<and> gr_run g = ct_run c \<and>
       Some (gr_target g) = ct_parent c \<and> (\<exists>i. ct_amendment_id c = Some i \<and> gr_consume_key g = Some (''acceptance-amend:'' @ i)))"
proof (cases "ct_generation c = 1")
  case True
  then show ?thesis using contracts_okD(2) [OF reachable_parts(2) [OF assms(1)] assms(2)] by (simp add: linked_version_def)
next
  case False
  from contracts_okD(2) [OF reachable_parts(2) [OF assms(1)] assms(2)] False
  obtain p where "1 < ct_generation c" "p \<in> set (ex_contracts (db_tables d))" "parent_version p c"
    by (auto simp: linked_version_def)
  moreover obtain g where "g \<in> set (db_grants d)" "authorizes g c"
    using reachable_parts(4) [OF assms(1)] assms(2) False by (auto simp: amendments_ok_def)
  ultimately show ?thesis by (auto simp: parent_version_def same_contract_def authorizes_def amendment_key_def)
qed

text \<open>
  C15: the active obligations of a run are exactly those its latest contract names, and each of them rests
  on requirements that contract accepts.
\<close>

theorem obligations_of_latest_contract:
  assumes "reachable d" and "latest_contract repo run d = Some c"
  shows "set (ct_active c) = ob_id ` {x \<in> set (run_obligations repo run d). ob_status x = ''active''} \<and>
    (\<forall>x \<in> set (run_obligations repo run d). ob_status x = ''active'' \<longrightarrow>
       ob_requirements x \<noteq> [] \<and> set (ob_requirements x) \<subseteq> set (ct_requirements c))"
proof -
  from latest_contract_newest [OF assms(2)] have c: "latest_in c (ex_contracts (db_tables d))" "ct_repo c = repo" "ct_run c = run"
    by (simp_all add: newest_latest)
  note ok = reachable_parts(3) [OF assms(1)]
  from obligations_okD(3) [OF ok c(1)] obligations_okD(4) [OF ok c(1)] show ?thesis
    by (auto simp: run_obligations_def in_contract_def c(2,3))
qed

text \<open>
  C14: what is sealed stays sealed: a seal names a draft of the run and the contract version it was made
  for, no other seal is of that version, and in every later store it is still there, unchanged.
\<close>

theorem seal_is_final:
  assumes "reachable d" and "s \<in> set (ex_seals (db_tables d))" and "run_step\<^sup>*\<^sup>* d d'"
  shows "s \<in> set (ex_seals (db_tables d')) \<and>
    (\<exists>r \<in> set (ex_drafts (db_tables d')). (dr_repo r, dr_run r, dr_id r, dr_revision r, dr_hash r) =
       (se_repo s, se_run s, se_draft s, se_revision s, se_draft_hash s) \<and> dr_contract r = se_contract s) \<and>
    (\<exists>c \<in> set (ex_contracts (db_tables d')). (ct_repo c, ct_run c, ct_generation c, ct_hash c) =
       (se_repo s, se_run s, se_contract_generation s, se_contract s)) \<and>
    (\<forall>x \<in> set (ex_seals (db_tables d')). (se_repo x, se_run x, se_contract_generation x) =
       (se_repo s, se_run s, se_contract_generation s) \<longrightarrow> x = s)"
proof -
  from later_policies [OF assms(1,3)] have "prefix (ex_seals (db_tables d)) (ex_seals (db_tables d'))"
    by (simp add: grows_def logs_grow_def kept_def)
  then have s: "s \<in> set (ex_seals (db_tables d'))" using assms(2) by (auto simp: prefix_def)
  have ok: "seals_ok (ex_contracts (db_tables d')) (ex_drafts (db_tables d')) (ex_seals (db_tables d'))"
    by (rule reachable_parts(5) [OF reachable_steps [OF assms(1,3)]])
  then obtain r c where "r \<in> set (ex_drafts (db_tables d'))" "c \<in> set (ex_contracts (db_tables d'))" "sealed_from s r c"
    using s unfolding seals_ok_def by blast
  moreover have "x = s" if "x \<in> set (ex_seals (db_tables d'))" "seal_version x = seal_version s" for x
    using ok that s by (auto simp: seals_ok_def distinct_map inj_on_def)
  ultimately show ?thesis using s by (auto simp: sealed_from_def seal_version_def)
qed

section \<open>The frontend policy\<close>

text \<open>
  C11: the frontend policy of a run is its state machine and nothing else: whatever the processes do, its
  sealed contract and generation never change, its stage only moves along the declared moves, and a run
  that is done, cancelled, failed for want of a capability or waiting for a decision stays so.
\<close>

theorem frontend_policy_is_state_machine:
  assumes "reachable d" and "run_step\<^sup>*\<^sup>* d d'" and "policy_state_of tk d = Some st"
  shows "\<exists>st'. policy_state_of tk d' = Some st' \<and> ps_acceptance st' = ps_acceptance st \<and> ps_generation st' = ps_generation st \<and>
    stage_move\<^sup>*\<^sup>* (ps_stage st) (ps_stage st') \<and>
    (ps_stage st \<in> set final_stages \<longrightarrow> ps_stage st' = ps_stage st)"
proof -
  from assms(3) have st: "st \<in> set (ex_states (db_tables d))" "state_key st = (tk_repo tk, tk_run tk)"
    by (auto simp: policy_state_of_def state_key_def dest: find_Some_in)
  from later_policies [OF assms(1,2)] st(1) obtain st' where st': "st' \<in> set (ex_states (db_tables d'))" "state_moves st st'"
    by (auto simp: grows_def kept_def)
  have "states_ok (ex_seals (db_tables d')) (ex_states (db_tables d'))" by (rule reachable_parts(6) [OF reachable_steps [OF assms(1,2)]])
  then have "policy_state_of tk d' = Some st'"
    unfolding policy_state_of_def using st' st(2)
    by (intro find_unique) (auto simp: states_ok_def state_moves_def state_key_def distinct_map inj_on_def)
  then show ?thesis using st'(2) stage_final by (auto simp: state_moves_def)
qed

section \<open>The journal\<close>

text \<open>
  C16: a prepared workspace has at most one integration that is not published, and an integration that was
  published or quarantined stays so, with its contract, forever; the policy tables may be those of any
  reachable store, or any in which the invariant of these tables holds.
\<close>

theorem one_unsettled_integration:
  assumes "reachable d \<or> policies_ok (kept d)" and "a \<in> set (ex_journals (db_tables d))" and "run_step\<^sup>*\<^sup>* d d'"
  shows "\<exists>a' \<in> set (ex_journals (db_tables d')). jr_wave a' = jr_wave a \<and> jr_contract a' = jr_contract a \<and> jr_hash a' = jr_hash a \<and>
    (jr_state a \<in> {''published'', ''quarantined''} \<longrightarrow> jr_state a' = jr_state a) \<and>
    (\<forall>b \<in> set (ex_journals (db_tables d')). (jr_repo b, jr_run b, jr_preparation b) = (jr_repo a, jr_run a, jr_preparation a) \<longrightarrow>
       jr_state a' \<noteq> ''published'' \<longrightarrow> jr_state b \<noteq> ''published'' \<longrightarrow> b = a')"
proof -
  from assms(1) have "policies_ok (kept d)" using reachable_policies by blast
  then have later: "policies_ok (kept d')" "grows (kept d) (kept d')" using runs_grow [OF runs_change [OF assms(3)]] by simp_all
  from later(2) assms(2) obtain a' where a': "a' \<in> set (ex_journals (db_tables d'))" "journal_moves a a'"
    by (auto simp: grows_def kept_def)
  have "journals_ok (ex_journals (db_tables d'))" using later(1) by (simp add: policies_ok_def kept_def)
  then have "b = a'" if "b \<in> set (ex_journals (db_tables d'))" "unsettled_in b a'" for b
    using that a'(1) by (auto simp: journals_ok_def)
  then show ?thesis
    using a' by (intro bexI [of _ a']) (auto simp: journal_moves_def journal_core_def unsettled_in_def)
qed

end
