(* ===== verification/Stage_Contract.thy ===== *)
theory Stage_Contract
  imports Policy_Contract
begin

text \<open>
  What a completion requires, why a cancellation is never blocked, the walk over the candidates, and what
  the binding of a candidate does not look at.
\<close>

section \<open>Completion\<close>

lemma review_loop_found:
  "review_loop st reviews d prev rows = (found, m) \<Longrightarrow> found \<Longrightarrow> \<exists>r \<in> set rows. receipt_accepted st reviews d r"
  by (induction rows arbitrary: prev) (auto split: if_split_asm)

text \<open>
  A review that accepts the current candidate: a stored receipt the evidence check named, and what its
  text says.
\<close>

definition accepting_review :: "owner_token \<Rightarrow> policy_state \<Rightarrow> completion \<Rightarrow> db \<Rightarrow> bool" where
  "accepting_review tk st c d = (\<exists>row \<in> set (acceptance_receipts tk (ps_acceptance st) d).
     ar_hash row \<in> set (cp_reviews c) \<and> dict_get (ar_receipt row) ''role'' = PStr ''review'' \<and>
     dict_get (ar_receipt row) ''candidate_hash'' = PStr (ps_candidate st) \<and>
     dict_get (ar_receipt row) ''completion_status'' = PStr ''succeeded'' \<and>
     final_review (str_of (dict_get (ar_receipt row) ''intent_id'')) d)"

text \<open>A failed final review the run has repaired since: its candidate is an ancestor of the current one.\<close>

definition repaired_review :: "world \<Rightarrow> owner_token \<Rightarrow> policy_state \<Rightarrow> completion \<Rightarrow> db \<Rightarrow> bool" where
  "repaired_review w tk st c d = (\<exists>row \<in> set (acceptance_receipts tk (ps_acceptance st) d). \<exists>r.
     cp_repair c = Some (ar_hash row) \<and> stored_receipt w row = Inr r \<and> rr_role r = ''review'' \<and>
     rr_completion_status r = ''failed'' \<and>
     rr_candidate_hash r \<in> set (candidate_ancestors tk (ps_acceptance st) (ps_candidate st) d) \<and>
     final_review (rr_intent_id r) d \<and> receipt_execution w tk r d = Inr () \<and>
     post_repair_review w tk (ps_acceptance st) (ps_candidate st) d = Inr (Some (ar_hash row, r)))"

lemma failed_review_Some:
  "failed_review w tk as d rows = Inr (Some (h, r)) \<Longrightarrow> \<exists>row \<in> set rows. h = ar_hash row \<and> stored_receipt w row = Inr r \<and>
     rr_role r = ''review'' \<and> rr_completion_status r = ''failed'' \<and> rr_candidate_hash r \<in> set as \<and>
     final_review (rr_intent_id r) d \<and> receipt_execution w tk r d = Inr ()"
  by (induction rows) (auto split: if_split_asm)

lemma repaired_reviewI:
  assumes "post_repair_review w tk (ps_acceptance st) (ps_candidate st) d = Inr (Some (h, r))" and "Some h = cp_repair c"
  shows "repaired_review w tk st c d"
  using failed_review_Some [OF assms(1) [unfolded post_repair_review_def]] assms(1) assms(2) [symmetric]
  unfolding repaired_review_def by blast

lemma review_loop_accepting:
  "review_loop st (cp_reviews c) d prev (acceptance_receipts tk (ps_acceptance st) d) = (True, m) \<Longrightarrow> accepting_review tk st c d"
  using review_loop_found unfolding accepting_review_def receipt_accepted_def by blast

lemma completion_ready_Inr:
  assumes "completion_ready w tk c st d = Inr receipt"
  obtains row s where "seal_by_hash tk (ps_acceptance st) d = Some row" "seal_from_row w row = Inr s"
    "set (passed_checks tk st d) = set (frozen_checks (se_material s))"
    "\<not> list_ex (blocking_finding tk st) (ex_findings (db_tables d))"
    "accepting_review tk st c d \<or> repaired_review w tk st c d"
proof -
  obtain found m where loop: "review_loop st (cp_reviews c) d None (acceptance_receipts tk (ps_acceptance st) d) = (found, m)"
    by (cases "review_loop st (cp_reviews c) d None (acceptance_receipts tk (ps_acceptance st) d)")
  have review: "accepting_review tk st c d \<or> repaired_review w tk st c d"
    if "(if found then Inr () else bindR (post_repair_review w tk (ps_acceptance st) (ps_candidate st) d) (\<lambda>repair.
      if repair = None \<or> map_option fst repair \<noteq> cp_repair c then own_refuse k else Inr ())) = Inr u" for k u
    using that loop by (cases found) (auto split: if_split_asm dest: review_loop_accepting repaired_reviewI)
  from assms that review show ?thesis
    unfolding completion_ready_def case_option_refuse refuse_if_Inr bindR_eq_Inr loop Let_def prod.case
    by (elim exE conjE) blast
qed

lemma finish_done:
  assumes "finish_root w tk ''DONE'' receipt d = Inr d'"
  obtains a result where "root_activity tk d = Some a" "\<not> outstanding_below (ac_id a) d" "\<not> list_ex (launch_unsettled tk d) (db_intents d)"
    "\<exists>r. transition_activity_tx w tk \<lparr>tr_activity = ac_id a, tr_expected = ac_state a, tr_new = ''succeeded'',
       tr_result = result, tr_reason = PStr ''frontend DONE''\<rparr> d = Inr (r, d')"
  using assms by (auto simp: finish_root_def root_end_def split: option.split_asm if_split_asm)

lemma stage_done:
  assumes "stage_tx w tk e ''DONE'' v (Some c) d = Inr (r, d')"
  obtains st receipt d1 x where "policy_state_of tk d = Some st" "ps_stage st = e" "completion_ready w tk c st d = Inr receipt"
    "finish_root w tk ''DONE'' receipt d = Inr d1" "d' = update_state tk (\<lambda>s. s\<lparr>ps_stage := ''DONE'', ps_decision := x\<rparr>) d1"
  using assms unfolding stage_tx_def Let_def bindR_eq_Inr case_option_refuse refuse_if_Inr
  by (elim exE conjE) (auto simp: ending_stages_def)

lemma transition_moves:
  assumes "transition_activity_tx w tk t d = Inr (r, d')"
  obtains a where "a \<in> set (db_activities d')" "ac_id a = tr_activity t" "ac_state a = tr_new t"
proof -
  from assms show ?thesis
  proof (rule transition_tx_Inr)
    fix old revoked payload
    assume old: "assert_activity_binding w tk (tr_activity t) d = Inr old"
      and d': "d' = add_event ''activity_transition'' payload (update_activity (tr_activity t) (moved t old) (revoke_intents revoked d))"
    from old have "activity_of (tr_activity t) d = Some old" by (simp add: assert_binding_Inr)
    then have m: "old \<in> set (db_activities d)" "ac_id old = tr_activity t" by (auto simp: activity_of_def dest: find_Some_in)
    have "moved t old old \<in> set (db_activities d')"
      using m by (auto simp: d' update_activity_def revoke_intents_def set_update_where image_iff intro!: bexI [of _ old])
    then show ?thesis using m(2) by (intro that [of "moved t old old"]) (simp_all add: moved_def)
  qed
qed

lemma done_needs:
  assumes "stage_tx w tk expected ''DONE'' decision (Some c) d = Inr (st', d')" and "verify_completion w tk view = Inr c"
  shows "\<exists>st row s c a. policy_state_of tk d = Some st \<and> ps_stage st = expected \<and> verify_completion w tk view = Inr c \<and>
    cp_candidate c = ps_candidate st \<and> seal_by_hash tk (ps_acceptance st) d = Some row \<and> seal_from_row w row = Inr s \<and>
    set (passed_checks tk st d) = set (frozen_checks (se_material s)) \<and>
    (accepting_review tk st c d \<or> repaired_review w tk st c d) \<and>
    \<not> list_ex (blocking_finding tk st) (ex_findings (db_tables d)) \<and> \<not> list_ex (launch_unsettled tk d) (db_intents d) \<and>
    root_activity tk d = Some a \<and> \<not> outstanding_below (ac_id a) d \<and>
    (\<exists>a' \<in> set (db_activities d'). ac_id a' = ac_id a \<and> ac_state a' = ''succeeded'')"
  using assms(1)
proof (rule stage_done)
  fix st receipt d1 x
  assume st: "policy_state_of tk d = Some st" "ps_stage st = expected" and ready: "completion_ready w tk c st d = Inr receipt"
    and finish: "finish_root w tk ''DONE'' receipt d = Inr d1"
    and d': "d' = update_state tk (\<lambda>s. s\<lparr>ps_stage := ''DONE'', ps_decision := x\<rparr>) d1"
  have cand: "cp_candidate c = ps_candidate st" using ready by (auto simp: completion_ready_def split: if_split_asm)
  obtain a result r where root: "root_activity tk d = Some a" "\<not> outstanding_below (ac_id a) d" "\<not> list_ex (launch_unsettled tk d) (db_intents d)"
    and tr: "transition_activity_tx w tk \<lparr>tr_activity = ac_id a, tr_expected = ac_state a, tr_new = ''succeeded'',
       tr_result = result, tr_reason = PStr ''frontend DONE''\<rparr> d = Inr (r, d1)"
    using finish_done [OF finish] by metis
  from transition_moves [OF tr] have "\<exists>a' \<in> set (db_activities d'). ac_id a' = ac_id a \<and> ac_state a' = ''succeeded''"
    by (auto simp: d' update_state_def tables_update_def)
  with completion_ready_Inr [OF ready] st assms(2) cand root show ?thesis by metis
qed

text \<open>
  C9: a run is only ever done when everything is: it was in its final review, exactly the frozen checks of
  its sealed contract have passed for the current candidate, no contract failure or invariant violation is
  on record, every launch of the run is settled and every activity below the root is closed; the root has
  then succeeded. And it was reviewed, in one of the two ways the code admits: a final review of the
  current candidate succeeded (\<open>accepting_review\<close>), or, as after a repair, a final review of a strict
  ancestor of the current candidate was executed and failed (\<open>repaired_review\<close>); the repaired candidate
  itself need not be reviewed again.
\<close>

theorem done_requires_everything:
  "isl (fst (transition_frontend_policy w tk (expected, ''DONE'', decision, view) d)) \<or>
   (let (_, d') = transition_frontend_policy w tk (expected, ''DONE'', decision, view) d; d = install_policy d in
    \<exists>st row s c a. policy_state_of tk d = Some st \<and> ps_stage st = ''FINAL_REVIEW'' \<and> verify_completion w tk view = Inr c \<and>
    cp_candidate c = ps_candidate st \<and> seal_by_hash tk (ps_acceptance st) d = Some row \<and> seal_from_row w row = Inr s \<and>
    set (passed_checks tk st d) = set (frozen_checks (se_material s)) \<and>
    (accepting_review tk st c d \<or> repaired_review w tk st c d) \<and>
    \<not> list_ex (blocking_finding tk st) (ex_findings (db_tables d)) \<and> \<not> list_ex (launch_unsettled tk d) (db_intents d) \<and>
    root_activity tk d = Some a \<and> \<not> outstanding_below (ac_id a) d \<and>
    (\<exists>a' \<in> set (db_activities d'). ac_id a' = ac_id a \<and> ac_state a' = ''succeeded''))"
proof (cases "fst (transition_frontend_policy w tk (expected, ''DONE'', decision, view) d)")
  case (Inr st')
  let ?d = "install_policy d"
  obtain d' where run0: "transition_frontend_policy w tk (expected, ''DONE'', decision, view) d = (Inr st', d')"
    using Inr by (metis prod.collapse)
  then obtain c where move: "stage_move expected ''DONE''"
    and c: "verify_completion w tk view = Inr c" and run: "transaction (stage_tx w tk expected ''DONE'' decision (Some c)) ?d = (Inr st', d')"
    by (auto simp: transition_frontend_policy_def split: if_split_asm sum.split_asm)
  have fin: "expected = ''FINAL_REVIEW''" using move by (auto simp: stage_move_def stage_moves_def split: if_split_asm)
  from run have "stage_tx w tk expected ''DONE'' decision (Some c) ?d = Inr (st', d')"
    by (cases rule: transaction_cases [of "stage_tx w tk expected ''DONE'' decision (Some c)" ?d]) auto
  from done_needs [OF this c] show ?thesis unfolding run0 Let_def prod.case using fin by simp
qed simp

section \<open>Cancellation\<close>

lemma install_reads [simp]:
  "policy_state_of tk (install_policy d) = policy_state_of tk d" "fence w tk (install_policy d) = fence w tk d"
  "activity_of i (install_policy d) = activity_of i d" "root_activity tk (install_policy d) = root_activity tk d"
  by (simp_all add: policy_state_of_def root_activity_def context_of_def activity_of_def install_policy_def fence_def
      assert_owner_def held_reservations_def assert_migration_epoch_def split: option.split)

lemma transition_accepted:
  assumes "fence w tk d = Inr ()" "activity_of (tr_activity t) d = Some a" "ac_repo a = tk_repo tk" "ac_run a = tk_run tk"
    and "ac_state a \<notin> set terminal_states" "ac_state a = tr_expected t"
  shows "\<exists>r d'. transition_activity_tx w tk t d = Inr (r, d')"
proof -
  have "activity_of i (update_activity i f (revoke_intents ids d)) \<noteq> None" if "activity_of i d \<noteq> None" "\<And>x. ac_id (f x) = ac_id x" for i f ids
    using that by (simp add: activity_of_def update_activity_def revoke_intents_def find_update)
  then show ?thesis
    using assms by (auto simp: transition_activity_tx_def assert_activity_binding_def Let_def reread_def split: option.split)
qed

lemma cancel_root:
  assumes "fence w tk d = Inr ()" "root_activity tk d = Some a" "ac_repo a = tk_repo tk" "ac_run a = tk_run tk"
  obtains d' a' where "finish_root w tk ''CANCELLED'' None d = Inr d'" "kept d' = kept d"
    "a' \<in> set (db_activities d')" "ac_id a' = ac_id a" "ac_state a' \<in> set terminal_states"
proof -
  from assms(2) obtain i where i: "activity_of i d = Some a" by (auto simp: root_activity_def split: option.split_asm)
  then have "ac_id a = i" by (auto simp: activity_of_def dest: find_Some_in)
  with i have a: "activity_of (ac_id a) d = Some a" by simp
  then have mem: "a \<in> set (db_activities d)" by (auto simp: activity_of_def dest: find_Some_in)
  show ?thesis
  proof (cases "ac_state a \<in> set terminal_states")
    case True
    then show ?thesis using that [of d a] assms(2) mem by (simp add: finish_root_def)
  next
    case False
    let ?t = "\<lparr>tr_activity = ac_id a, tr_expected = ac_state a, tr_new = ''aborted'', tr_result = PNone,
        tr_reason = PStr ''frontend CANCELLED''\<rparr>"
    from transition_accepted [of w tk d ?t a] assms a False obtain r d' where tr: "transition_activity_tx w tk ?t d = Inr (r, d')" by auto
    from transition_moves [OF tr] obtain a' where a': "a' \<in> set (db_activities d')" "ac_id a' = ac_id a" "ac_state a' = ''aborted''" by auto
    have "finish_root w tk ''CANCELLED'' None d = Inr d'"
      using assms(2) False tr by (simp add: finish_root_def root_result_def root_end_def)
    then show ?thesis using that [OF _ transition_kept [OF tr] a'(1,2)] a'(3) by (simp add: terminal_states_def)
  qed
qed

lemma cancel_commits:
  assumes "policy_state_of tk d = Some st" and move: "stage_move (ps_stage st) ''CANCELLED''" and "fence w tk d = Inr ()"
    and "root_activity tk d = Some a" and "ac_repo a = tk_repo tk" and "ac_run a = tk_run tk"
  shows "\<exists>st' d'. transition_frontend_policy w tk (ps_stage st, ''CANCELLED'', PNone, view) d = (Inr st', d') \<and>
    ps_stage st' = ''CANCELLED'' \<and> policy_state_of tk d' = Some st' \<and>
    (\<exists>a' \<in> set (db_activities d'). ac_id a' = ac_id a \<and> ac_state a' \<in> set terminal_states)"
proof -
  let ?d = "install_policy d" and ?f = "\<lambda>s. s\<lparr>ps_stage := ''CANCELLED'', ps_decision := None\<rparr>"
  from cancel_root [of w tk ?d a] assms(3-6) obtain d1 a' where root: "finish_root w tk ''CANCELLED'' None ?d = Inr d1"
    "kept d1 = kept ?d" "a' \<in> set (db_activities d1)" "ac_id a' = ac_id a" "ac_state a' \<in> set terminal_states" by auto
  have owner: "assert_owner w tk ?d = Inr ()" using assms(3) fence_owner by simp
  have tables: "ex_states (db_tables d1) = ex_states (db_tables d)" using root(2) by (simp add: kept_eq)
  have run: "stage_tx w tk (ps_stage st) ''CANCELLED'' PNone None ?d = Inr (?f st, update_state tk ?f d1)"
    using assms(1) owner root(1) by (simp add: stage_tx_def ending_stages_def)
  have later: "policy_state_of tk (update_state tk ?f d1) = Some (?f st)"
    using assms(1) by (simp add: policy_state_of_def update_state_def tables_update_def tables find_update)
  have acts: "db_activities (update_state tk ?f d1) = db_activities d1" by (simp add: update_state_def tables_update_def)
  show ?thesis
    by (rule exI [of _ "?f st"], rule exI [of _ "update_state tk ?f d1"])
      (use move run later root(3-5) acts in \<open>auto simp: transition_frontend_policy_def transaction_def\<close>)
qed

text \<open>
  C17: a cancellation is never blocked by outstanding work: in every reachable store, whatever launches,
  checks, reviews or children are open, an owner that passes the full fence (accepted reservations and the
  migration epoch) can cancel a run that has a root activity of its own and a policy in no final stage; the
  policy is then cancelled and the root activity closed. These side conditions are the refusals of the
  code: a run without a root activity is refused with FRONTEND_ROOT_ACTIVITY_REQUIRED, and the move of an
  open root needs the fence.
\<close>

theorem cancellation_never_blocked:
  assumes "reachable d" and "policy_state_of tk d = Some st" and "ps_stage st \<notin> set final_stages" and "fence w tk d = Inr ()"
    and "root_activity tk d = Some a" and "ac_repo a = tk_repo tk" and "ac_run a = tk_run tk"
  shows "\<exists>st' d'. transition_frontend_policy w tk (ps_stage st, ''CANCELLED'', PNone, view) d = (Inr st', d') \<and>
    ps_stage st' = ''CANCELLED'' \<and> policy_state_of tk d' = Some st' \<and>
    (\<exists>a' \<in> set (db_activities d'). ac_id a' = ac_id a \<and> ac_state a' \<in> set terminal_states)"
proof (rule cancel_commits [OF assms(2) _ assms(4-7)])
  have "st \<in> set (ex_states (db_tables d))" using assms(2) by (auto simp: policy_state_of_def dest: find_Some_in)
  then have "known_stage (ps_stage st)" using reachable_parts(6) [OF assms(1)] by (simp add: states_ok_def)
  then show "stage_move (ps_stage st) ''CANCELLED''" using assms(3) by (simp add: known_stage_def)
qed

section \<open>The walk over the candidates\<close>

definition parent_edge :: "owner_token \<Rightarrow> string \<Rightarrow> db \<Rightarrow> string \<Rightarrow> string \<Rightarrow> bool" where
  "parent_edge tk a d x y = (parent_candidate tk a d x = Some y)"

lemma ancestors_walk:
  assumes "distinct seen" "start \<notin> set seen" "\<And>x. x \<in> set seen \<Longrightarrow> (parent_edge tk a d)\<^sup>+\<^sup>+ start x"
    and "c = start \<and> seen = [] \<or> c \<in> set seen"
    and "\<And>x y. x \<in> set (start # seen) \<Longrightarrow> x \<noteq> c \<Longrightarrow> parent_edge tk a d x y \<Longrightarrow> y \<in> set seen"
  shows "distinct (ancestors_from tk a d start seen c) \<and>
    set (ancestors_from tk a d start seen c) = {x. (parent_edge tk a d)\<^sup>+\<^sup>+ start x \<and> x \<noteq> start}"
  using assms
proof (induction tk a d start seen c rule: ancestors_from.induct)
  case (1 tk a d start seen c)
  have reach: "(parent_edge tk a d)\<^sup>*\<^sup>* start c" using "1.prems"(3,4) by (auto dest: tranclp_into_rtranclp)
  have closed: ?case if stop: "\<And>y. parent_edge tk a d c y \<Longrightarrow> y \<in> set (start # seen)"
    and result: "ancestors_from tk a d start seen c = seen"
  proof -
    have "y \<in> set (start # seen)" if "(parent_edge tk a d)\<^sup>*\<^sup>* start y" for y
      using that
    proof (induction rule: rtranclp_induct)
      case (step y z) then show ?case using "1.prems"(5) stop by (cases "y = c") auto
    qed simp
    then show ?thesis unfolding result using "1.prems"(1,2,3) by (auto dest: tranclp_into_rtranclp)
  qed
  show ?case
  proof (cases "parent_candidate tk a d c")
    case None
    then show ?thesis by (intro closed) (simp_all add: parent_edge_def ancestors_from.simps)
  next
    case (Some p)
    show ?thesis
    proof (cases "p = start \<or> p \<in> set seen")
      case True
      then show ?thesis using Some by (intro closed) (auto simp: parent_edge_def ancestors_from.simps)
    next
      case False
      have p: "(parent_edge tk a d)\<^sup>+\<^sup>+ start p" using reach Some by (simp add: parent_edge_def rtranclp_into_tranclp1)
      have ih: "distinct (ancestors_from tk a d start (seen @ [p]) p) \<and>
          set (ancestors_from tk a d start (seen @ [p]) p) = {x. (parent_edge tk a d)\<^sup>+\<^sup>+ start x \<and> x \<noteq> start}"
      proof (rule "1.IH" [OF Some False])
        fix x y assume x: "x \<in> set (start # (seen @ [p]))" "x \<noteq> p" "parent_edge tk a d x y"
        show "y \<in> set (seen @ [p])"
        proof (cases "x = c")
          case True then show ?thesis using x(3) Some by (simp add: parent_edge_def)
        next
          case False then show ?thesis using x "1.prems"(5) by auto
        qed
      qed (use "1.prems" False p in auto)
      then show ?thesis using Some False by (simp add: ancestors_from.simps [of tk a d start seen c])
    qed
  qed
qed

text \<open>
  C18: the walk over the ancestors of a candidate always ends, even over rows whose parents form a cycle,
  and yields each strict ancestor exactly once.
\<close>

theorem candidate_ancestors_exact:
  "distinct (candidate_ancestors tk a c d) \<and>
   set (candidate_ancestors tk a c d) = {x. (\<lambda>x y. parent_candidate tk a d x = Some y)\<^sup>+\<^sup>+ c x \<and> x \<noteq> c}"
proof -
  have "(\<lambda>x y. parent_candidate tk a d x = Some y) = parent_edge tk a d" by (simp add: parent_edge_def fun_eq_iff)
  then show ?thesis unfolding candidate_ancestors_def using ancestors_walk [of "[]" c tk a d c] by simp
qed

section \<open>Binding a candidate\<close>

definition set_stage :: "owner_token \<Rightarrow> string \<Rightarrow> db \<Rightarrow> db" where
  "set_stage tk x d = update_state tk (\<lambda>s. s\<lparr>ps_stage := x\<rparr>) d"

lemma set_stage_reads:
  "assert_owner w tk' (set_stage tk x d) = assert_owner w tk' d"
  "sealed_receipt_of tk' a h (set_stage tk x d) = sealed_receipt_of tk' a h d"
  "event_by_key k (set_stage tk x d) = event_by_key k d"
  "candidate_of tk' a c (set_stage tk x d) = candidate_of tk' a c d"
  "ex_candidates (db_tables (set_stage tk x d)) = ex_candidates (db_tables d)"
  "policy_state_of tk (set_stage tk x d) = map_option (\<lambda>s. s\<lparr>ps_stage := x\<rparr>) (policy_state_of tk d)"
  by (simp_all add: set_stage_def update_state_def tables_update_def assert_owner_def held_reservations_def sealed_receipt_of_def
      event_by_key_def event_at_def candidate_of_def policy_state_of_def find_update split: option.split)

lemma updates_commute:
  assumes "\<And>x. f (g x) = g (f x)" "\<And>x. P (f x) = P x" "\<And>x. P (g x) = P x"
  shows "update_where P f (update_where P g xs) = update_where P g (update_where P f xs)"
  using assms by (induction xs) simp_all

lemma bindR_if: "bindR (if c then m else n) k = (if c then bindR m k else bindR n k)"
  by simp

lemma set_stage_updates:
  "tables_update (\<lambda>e. e\<lparr>ex_candidates := rows\<rparr>) (set_stage tk x d) = set_stage tk x (tables_update (\<lambda>e. e\<lparr>ex_candidates := rows\<rparr>) d)"
  "update_state tk (\<lambda>s. s\<lparr>ps_candidate := h\<rparr>) (set_stage tk x d) = set_stage tk x (update_state tk (\<lambda>s. s\<lparr>ps_candidate := h\<rparr>) d)"
  by (simp_all add: set_stage_def update_state_def tables_update_def updates_commute [of "ps_candidate_update (\<lambda>_. h)" "ps_stage_update (\<lambda>_. x)"])

lemma set_stage_bind_row:
  "bind_row tk q (st\<lparr>ps_stage := x\<rparr>) p (set_stage tk x d) = bindR (bind_row tk q st p d) (\<lambda>d'. Inr (set_stage tk x d'))"
  by (simp add: bind_row_def set_stage_reads insert_row_def set_stage_updates own_refuse_def split: option.split)

text \<open>
  C38: binding a candidate never looks at the stage: with any other stage the call answers the same and
  changes the same rows, so also a run that is done or cancelled can be given another candidate.
\<close>

theorem candidate_binding_ignores_stage:
  "bind_candidate_tx w tk q before (update_state tk (\<lambda>s. s\<lparr>ps_stage := x\<rparr>) d) =
     bindR (bind_candidate_tx w tk q before d) (\<lambda>(st, d'). Inr (st\<lparr>ps_stage := x\<rparr>, update_state tk (\<lambda>s. s\<lparr>ps_stage := x\<rparr>) d'))"
proof (cases "assert_owner w tk d")
  case (Inr u)
  have swap: "s\<lparr>ps_candidate := h, ps_stage := y\<rparr> = s\<lparr>ps_stage := y, ps_candidate := h\<rparr>" for s :: policy_state and h y
    by (cases s) simp
  show ?thesis
    unfolding set_stage_def [symmetric]
    by (simp add: swap bind_candidate_tx_def set_stage_reads set_stage_bind_row set_stage_updates bindR_assoc bindR_if Inr
        own_refuse_def split: option.split cong: if_cong)
qed (simp add: bind_candidate_tx_def set_stage_reads(1) [unfolded set_stage_def])

end
