(* ===== verification/Policy_Scenario.thy ===== *)
theory Policy_Scenario
  imports Stage_Contract
begin

text \<open>
  A managed run from an empty store to its cancellation: an activity, the context and request rows of the
  run, a first contract, an executable draft of it, its seal, the frontend policy and one decision. Each
  state is reached by the modelled calls; the theorems on the policy tables are applied to them.
\<close>

definition hashing :: "(string \<Rightarrow> string) \<Rightarrow> world" where
  "hashing f = sample_world\<lparr>w_sha256 := f\<rparr>"

abbreviation policy_world :: world where
  "policy_world \<equiv> hashing (\<lambda>_. sample_digest)"

definition managed_context :: context_run where
  "managed_context = \<lparr>cr_repo = ''repo'', cr_run = ''run'', cr_objective = sample_digest, cr_scope = ''full'',
     cr_workspace_key = ''/w'', cr_state = ''active'', cr_activity = ''u0'', cr_writer = Some MANAGED_WRITER,
     cr_input = sample_digest, cr_request_key = Some ''req'', cr_request_digest = Some sample_digest, cr_preparation = None\<rparr>"

definition managed_request :: context_request where
  "managed_request = \<lparr>cq_repo = ''repo'', cq_key = ''req'', cq_digest = sample_digest, cq_run = ''run''\<rparr>"

text \<open>The tables of the run.\<close>

definition policy_db ::
  "(string \<times> pyval) list \<Rightarrow> bool \<Rightarrow> grant list \<Rightarrow> obligation_row list \<Rightarrow> contract_row list \<Rightarrow> draft_row list \<Rightarrow> seal_row list \<Rightarrow> policy_state list \<Rightarrow> db"
where
  "policy_db evs b gs os cs ds ss ps = made_db\<lparr>db_events := evs, db_context := Some [managed_context], db_policy_installed := b,
     db_grants := gs, db_tables := empty_extension\<lparr>ex_requests := [managed_request], ex_obligations := os, ex_contracts := cs, ex_drafts := ds, ex_seals := ss,
       ex_states := ps\<rparr>\<rparr>"

lemma policy_fence [simp]: "fence (hashing f) sample_token (policy_db evs b gs os cs ds ss ps) = Inr ()"
proof -
  let ?d = "policy_db evs b gs os cs ds ss ps"
  have frame: "db_reservations ?d = db_reservations sample_db" "db_migration ?d = None" by (simp_all add: policy_db_def made_db_eq)
  have "assert_owner (hashing f) sample_token ?d = assert_owner sample_world sample_token ?d"
    by (simp add: hashing_def assert_owner_def token_keys_def resource_keys_def)
  then show ?thesis using sample_fence [OF frame] frame(2) by (simp add: fence_def assert_migration_epoch_def)
qed

lemma policy_owner [simp]: "assert_owner (hashing f) sample_token (policy_db evs b gs os cs ds ss ps) = Inr ()"
  using policy_fence fence_owner by blast

lemma policy_tables [simp]:
  "ex_requests (db_tables (policy_db evs b gs os cs ds ss ps)) = [managed_request]"
  "ex_obligations (db_tables (policy_db evs b gs os cs ds ss ps)) = os" "db_grants (policy_db evs b gs os cs ds ss ps) = gs"
  "db_decisions (policy_db evs b gs os cs ds ss ps) = []"
  "ex_contracts (db_tables (policy_db evs b gs os cs ds ss ps)) = cs" "ex_drafts (db_tables (policy_db evs b gs os cs ds ss ps)) = ds"
  "ex_seals (db_tables (policy_db evs b gs os cs ds ss ps)) = ss" "ex_states (db_tables (policy_db evs b gs os cs ds ss ps)) = ps"
  "db_context (policy_db evs b gs os cs ds ss ps) = Some [managed_context]" "db_activities (policy_db evs b gs os cs ds ss ps) = [made_activity]"
  "db_events (policy_db evs b gs os cs ds ss ps) = evs" "install_context (policy_db evs b gs os cs ds ss ps) = policy_db evs b gs os cs ds ss ps"
  "install_policy (policy_db evs b gs os cs ds ss ps) = policy_db evs True gs os cs ds ss ps"
  by (simp_all add: policy_db_def made_db_eq install_context_def install_policy_def)


lemma policy_updates:
  "tables_update (\<lambda>e. e\<lparr>ex_obligations := os'\<rparr>) (policy_db evs b gs os cs ds ss ps) = policy_db evs b gs os' cs ds ss ps"
  "policy_db evs b gs os cs ds ss ps\<lparr>db_grants := gs'\<rparr> = policy_db evs b gs' os cs ds ss ps"
  "tables_update (\<lambda>e. e\<lparr>ex_contracts := cs'\<rparr>) (policy_db evs b gs os cs ds ss ps) = policy_db evs b gs os cs' ds ss ps"
  "tables_update (\<lambda>e. e\<lparr>ex_drafts := ds'\<rparr>) (policy_db evs b gs os cs ds ss ps) = policy_db evs b gs os cs ds' ss ps"
  "tables_update (\<lambda>e. e\<lparr>ex_seals := ss'\<rparr>) (policy_db evs b gs os cs ds ss ps) = policy_db evs b gs os cs ds ss' ps"
  "tables_update (\<lambda>e. e\<lparr>ex_states := ps'\<rparr>) (policy_db evs b gs os cs ds ss ps) = policy_db evs b gs os cs ds ss ps'"
  "tables_update (\<lambda>_. (db_tables (policy_db evs b gs os cs ds ss ps))\<lparr>ex_contracts := cs'\<rparr>) (policy_db evs b gs os cs ds ss ps)
     = policy_db evs b gs os cs' ds ss ps"
  "add_event t p (policy_db evs b gs os cs ds ss ps) = policy_db (evs @ [(t, p)]) b gs os cs ds ss ps"
  by (simp_all add: policy_db_def tables_update_def add_event_def)

section \<open>The contract\<close>

definition bound_material :: pydict where
  "bound_material = ingress_material managed_context"

lemma sample_lower: "lower_digest (PStr sample_digest)"
  by code_simp

lemma sample_valid: "valid_digest (PStr sample_digest)"
  using sample_lower by (simp add: lower_digest_def)

lemma scenario_identifiers:
  "is_identifier (PStr ''R1'')" "is_identifier (PStr ''repo'')" "is_identifier (PStr ''run'')" "is_identifier (PStr ''D1'')"
  "is_identifier (PStr ''C1'')" "is_identifier (PStr ''E1'')" "is_identifier (PStr ''pytest'')"
  by code_simp+

lemmas scenario_facts = scenario_identifiers sample_identifiers sample_lower sample_valid

lemmas scenario_eval = scenario_facts dict_has_keys_def dict_keys_def dict_get_def

lemma bound_material_eq:
  "bound_material = [(''repository_id'', PStr ''repo''), (''run_id'', PStr ''run''), (''objective_digest'', PStr sample_digest),
     (''input_digest'', PStr sample_digest), (''request_key'', PStr ''req''), (''request_digest'', PStr sample_digest)]"
  by (simp add: bound_material_def ingress_material_def managed_context_def opt_str_def)

definition bound_column :: pydict where
  "bound_column = [(''input_digest'', PStr sample_digest), (''objective_digest'', PStr sample_digest), (''repository_id'', PStr ''repo''),
     (''request_digest'', PStr sample_digest), (''request_key'', PStr ''req''), (''run_id'', PStr ''run'')]"

lemma bound_column: "json_column bound_material = bound_column"
  by (simp add: json_column_def bound_material_eq bound_column_def)

lemma scenario_binding [simp]: "acceptance_binding (hashing f) sample_token (policy_db evs b gs os cs ds ss ps) = Inr bound_material"
  by (simp add: acceptance_binding_def context_of_def managed_context_def managed_request_def Let_def
      flip: bound_material_def [unfolded managed_context_def])
    (simp add: bound_material_eq nonempty_str_def binding_digests_def scenario_eval, simp add: sample_digest_def)

definition contract_one :: contract_row where
  "contract_one = \<lparr>ct_repo = ''repo'', ct_run = ''run'', ct_generation = 1, ct_hash = sample_digest, ct_parent = None,
     ct_material = bound_column, ct_material_hash = sample_digest, ct_requirements = [''R1''], ct_active = [],
     ct_amendment_id = None, ct_amendment = None\<rparr>"

lemma scenario_sha [simp]: "w_sha256 (hashing f) = f"
  by (simp add: hashing_def)

lemma scenario_json:
  "json_encodable (PDict m) \<Longrightarrow> m \<noteq> [] \<Longrightarrow>
     acceptance_json (hashing f) code (PDict m) = Inr (m, json_dumps (PDict m), f (json_dumps (PDict m)))"
  by (simp add: acceptance_json_def)

lemma scenario_contract_hash:
  "json_encodable (PDict m) \<Longrightarrow> (case am of None \<Rightarrow> True | Some a \<Rightarrow> json_encodable (PDict a)) \<Longrightarrow>
     contract_hash (hashing f) n parent m reqs active aid am = Inr (f (json_dumps (contract_body n parent m reqs active aid am)))"
  by (auto simp: contract_hash_def contract_body_def scenario_json opt_str_def list_all_iff split: option.split)

lemma bound_binding: "check_binding_material (hashing f) CONTRACT_CORRUPT bound_column = Inr ()"
  by (simp add: check_binding_material_def scenario_json bound_column_def binding_fields_def binding_digests_def
      acceptance_identifier_def scenario_eval insert_commute)

lemma bound_encodable: "json_encodable (PDict bound_column)" "bound_column \<noteq> []" "json_column bound_column = bound_column"
  by (simp_all add: bound_column_def json_column_def)

definition body_one :: pyval where
  "body_one = contract_body 1 None bound_column [''R1''] [] None None"

lemma contract_one_read:
  assumes "f (json_dumps (PDict bound_column)) = sample_digest" "f (json_dumps body_one) = sample_digest"
  shows "contract_from_row (hashing f) contract_one = Inr contract_one"
proof -
  have "contract_hash (hashing f) 1 None bound_column [''R1''] [] None None = Inr sample_digest"
    using scenario_contract_hash [OF bound_encodable(1), of None f 1 None "[''R1'']" "[]" None] assms(2) by (simp add: body_one_def)
  then show ?thesis
    by (simp add: contract_from_row_def contract_one_def acceptance_ids_def acceptance_identifier_def scenario_eval
        scenario_json bound_encodable bound_binding assms(1) amendment_check_def del: json_encodable.simps)
qed

lemma contract_created:
  "\<exists>evs'. create_acceptance_contract policy_world sample_token (PList [PStr ''R1''], PNone) (policy_db evs b gs os [] [] [] []) =
     (Inr contract_one, policy_db evs' b gs os [contract_one] [] [] [])"
proof -
  have "json_encodable (PDict bound_material)" "bound_material \<noteq> []" by (simp_all add: bound_material_eq)
  then show ?thesis
    by (simp add: create_acceptance_contract_def acceptance_ids_def acceptance_identifier_def scenario_eval transaction_def
        create_contract_tx_def supplied_material_def latest_contract_def run_contracts_def scenario_json scenario_contract_hash contract_one_read
        insert_contract_def insert_row_def bound_column policy_updates contract_at_def Let_def
        flip: contract_one_def) (rule exI, rule refl)
qed


section \<open>The draft\<close>

definition criterion :: "(string \<times> pyval) list" where
  "criterion = [(''checks'', PList [PDict [(''id'', PStr ''C1''), (''kind'', PStr ''pytest''), (''locator'', PStr ''log'')]]),
     (''evidence_rules'', PList [PDict [(''id'', PStr ''E1''), (''kind'', PStr ''pytest''), (''required'', PBool True)]]),
     (''id'', PStr ''R1''), (''objective_clause'', PStr ''R1'')]"

text \<open>The criterion as the validator builds it again.\<close>

definition rebuilt :: "(string \<times> pyval) list" where
  "rebuilt = [(''id'', PStr ''R1''), (''objective_clause'', PStr ''R1''),
     (''checks'', PList [PDict [(''id'', PStr ''C1''), (''kind'', PStr ''pytest''), (''locator'', PStr ''log'')]]),
     (''evidence_rules'', PList [PDict [(''id'', PStr ''E1''), (''kind'', PStr ''pytest''), (''required'', PBool True)]])]"

definition material_with :: "(string \<times> pyval) list \<Rightarrow> pydict" where
  "material_with c = [(''candidate_hash'', PStr sample_digest), (''command_mode'', PStr ''run''), (''criteria'', PList [PDict c]),
     (''exclusions'', PList []), (''follow_up_policy'', PStr ''record-and-continue''), (''generation'', PInt 1),
     (''global_invariants'', PList []), (''objective_digest'', PStr sample_digest),
     (''required_review_dimensions'', PList [PStr ''correctness'']),
     (''runtime'', PDict [(''effective_hash'', PStr sample_digest), (''requested_hash'', PStr sample_digest)]),
     (''schema'', PStr POLICY_DRAFT_SCHEMA)]"

lemma material_accepted:
  "validate_draft_material H new (PDict (material_with criterion)) = Inr \<lparr>ad_material = material_with rebuilt,
     ad_material_json = json_dumps (PDict (material_with rebuilt)), ad_material_hash = H (json_dumps (PDict (material_with rebuilt)))\<rparr>"
  by (simp add: validate_draft_material_def canonical_def material_with_def criterion_def rebuilt_def identifier_list_def
      identifier_of_ok digest_ok sample_digest_ok scenario_eval POLICY_DRAFT_SCHEMA_def draft_fields_def insert_commute
      is_positive_int_def draft_criterion_def validate_rule_list_def rule_item_def rule_keys_def declared_roots_def
      RECEIPT_PROCESS_RESULT_ID_def validate_labeled_def)

lemma rebuilt_column: "json_column (material_with rebuilt) = material_with criterion"
  by (simp add: json_column_def material_with_def criterion_def rebuilt_def)

lemma column_text: "json_dumps (PDict (material_with criterion)) = json_dumps (PDict (material_with rebuilt))"
  unfolding json_dumps_def by (rule arg_cong [where f = json_raw]) (simp add: material_with_def criterion_def rebuilt_def)

definition draft_one :: draft_row where
  "draft_one = \<lparr>dr_repo = ''repo'', dr_run = ''run'', dr_id = ''D1'', dr_revision = 1, dr_generation = 1, dr_contract = sample_digest,
     dr_hash = sample_digest, dr_material = material_with criterion, dr_material_hash = sample_digest\<rparr>"

definition read_draft :: draft_row where
  "read_draft = draft_one\<lparr>dr_material := material_with rebuilt\<rparr>"

lemma scenario_hash [simp]: "acceptance_policy_hash policy_world kind body = sample_digest"
  by (simp add: acceptance_policy_hash_def)

lemma draft_one_read [simp]: "draft_from_row policy_world draft_one = Inr read_draft"
  by (simp add: draft_from_row_def draft_one_def read_draft_def material_accepted policy_reader_def column_text scenario_eval
      acceptance_identifier_def draft_hash_def)

lemmas constant_read = contract_one_read [of "\<lambda>_. sample_digest", OF refl refl]

lemma current_one:
  assumes "contract_from_row (hashing f) contract_one = Inr contract_one"
  shows "current_contract (hashing f) sample_token (policy_db evs b gs os [contract_one] ds ss ps) = Inr contract_one"
proof -
  have "ct_repo contract_one = ''repo''" "ct_run contract_one = ''run''" by (simp_all add: contract_one_def)
  then show ?thesis by (simp add: assms current_contract_def latest_contract_def run_contracts_def Let_def)
qed

lemma draft_created:
  "\<exists>evs'. create_acceptance_draft policy_world sample_token (PStr ''D1'', PInt 1, PStr sample_digest, PDict (material_with criterion))
     (policy_db evs b gs os [contract_one] [] [] []) = (Inr (read_draft, False), policy_db evs' b gs os [contract_one] [draft_one] [] [])"
proof -
  have scope: "dict_get (material_with rebuilt) ''objective_digest'' = dict_get bound_material ''objective_digest''"
    "dict_get (material_with rebuilt) ''generation'' = PInt 1" "criterion_ids (material_with rebuilt) = [''R1'']"
    by (simp_all add: material_with_def rebuilt_def bound_material_eq criterion_ids_def scenario_eval)
  have c: "ct_hash contract_one = sample_digest" "ct_generation contract_one = 1" "ct_requirements contract_one = [''R1'']"
    by (simp_all add: contract_one_def)
  have row: "new_draft policy_world sample_token ''D1'' 1 contract_one \<lparr>ad_material = material_with rebuilt,
      ad_material_json = t, ad_material_hash = sample_digest\<rparr> = draft_one" for t
    by (simp add: new_draft_def draft_hash_def rebuilt_column draft_one_def c Let_def)
  show ?thesis
    by (simp add: create_acceptance_draft_def draft_arguments_def acceptance_identifier_def scenario_facts is_positive_int_def
        policy_writer_def material_accepted current_one constant_read transaction_def draft_tx_def scope c row draft_at_def insert_row_def policy_updates
        Let_def flip: read_draft_def) (rule exI, rule refl)
qed

section \<open>The seal and the frontend policy\<close>

definition seal_one :: seal_row where
  "seal_one = \<lparr>se_repo = ''repo'', se_run = ''run'', se_generation = 1, se_draft = ''D1'', se_revision = 1, se_draft_hash = sample_digest,
     se_contract_generation = 1, se_contract = sample_digest, se_hash = sample_digest, se_material = material_with criterion,
     se_material_hash = sample_digest\<rparr>"

definition read_seal :: seal_row where
  "read_seal = seal_one\<lparr>se_material := material_with rebuilt\<rparr>"

lemma seal_one_read [simp]: "seal_from_row policy_world seal_one = Inr read_seal"
  by (simp add: seal_from_row_def seal_one_def read_seal_def material_accepted policy_reader_def column_text scenario_eval
      acceptance_identifier_def seal_hash_def)

lemma draft_one_at [simp]: "draft_at ''repo'' ''run'' ''D1'' 1 (policy_db evs b gs os cs [draft_one] ss ps) = Some draft_one"
  by (simp add: draft_at_def draft_one_def)

lemma draft_sealed:
  "\<exists>evs'. seal_acceptance_draft policy_world sample_token (PStr ''D1'', PInt 1, PStr sample_digest, \<lambda>_ _. Inr ())
     (policy_db evs b gs os [contract_one] [draft_one] [] []) =
       (Inr (read_seal, False), policy_db evs' b gs os [contract_one] [draft_one] [seal_one] [])"
proof -
  have c: "ct_hash contract_one = sample_digest" "ct_generation contract_one = 1" by (simp_all add: contract_one_def)
  have r: "dr_contract read_draft = sample_digest" "dr_generation read_draft = 1" "dr_hash read_draft = sample_digest"
    "dr_material read_draft = material_with rebuilt" by (simp_all add: read_draft_def draft_one_def)
  have row: "new_seal policy_world sample_token read_draft contract_one d = seal_one" if "ex_seals (db_tables d) = []" for d
    using that by (simp add: new_seal_def r c next_seal_def run_seals_def seal_hash_def rebuilt_column Let_def)
      (simp add: read_draft_def draft_one_def seal_one_def)
  have "seal_one\<lparr>se_material := material_with rebuilt\<rparr> = read_seal" by (simp add: read_seal_def)
  then show ?thesis
    by (simp add: seal_acceptance_draft_def draft_arguments_def acceptance_identifier_def scenario_facts is_positive_int_def
        current_one constant_read transaction_def seal_tx_def r c row run_seals_def insert_row_def policy_updates Let_def) (rule exI, rule refl)
qed

definition state_one :: policy_state where
  "state_one = \<lparr>ps_repo = ''repo'', ps_run = ''run'', ps_acceptance = sample_digest, ps_stage = ''SEALED'', ps_candidate = sample_digest,
     ps_generation = 1, ps_decision = None\<rparr>"

lemma policy_initialized:
  "\<exists>evs'. initialize_frontend_policy policy_world sample_token (PStr sample_digest, PStr ''SEALED'')
     (policy_db evs b gs os [contract_one] [draft_one] [seal_one] []) =
       (Inr state_one, policy_db evs' True gs os [contract_one] [draft_one] [seal_one] [state_one])"
proof -
  have seal: "seal_by_hash sample_token sample_digest (policy_db evs True gs os [contract_one] [draft_one] [seal_one] []) = Some seal_one"
    by (simp add: seal_by_hash_def run_seals_def seal_one_def)
  have checked: "check_sealed_draft policy_world read_seal (policy_db evs True gs os [contract_one] [draft_one] [seal_one] []) = Inr ()"
    by (simp add: check_sealed_draft_def read_seal_def seal_one_def) (simp add: read_draft_def draft_one_def py_eq_def)
  have new: "\<lparr>ps_repo = ''repo'', ps_run = ''run'', ps_acceptance = sample_digest, ps_stage = ''SEALED'',
      ps_candidate = str_of (dict_get (se_material read_seal) ''candidate_hash''), ps_generation = se_contract_generation read_seal,
      ps_decision = None\<rparr> = state_one"
    by (simp add: read_seal_def seal_one_def material_with_def state_one_def dict_get_def)
  show ?thesis
    by (simp add: initialize_frontend_policy_def scenario_facts transaction_def initialize_tx_def seal checked new
        policy_state_of_def insert_row_def policy_updates Let_def) (rule exI, rule refl)
qed


section \<open>An amendment\<close>

definition obligation_one :: obligation_row where
  "obligation_one = \<lparr>ob_repo = ''repo'', ob_run = ''run'', ob_id = ''O1'', ob_material = [(''x'', PInt 1)], ob_material_hash = sample_digest,
     ob_requirements = [''R1''], ob_status = ''proposed'', ob_created = 1, ob_activated = None\<rparr>"

definition amend_grant :: grant_request where
  "amend_grant = \<lparr>gq_action = ''acceptance-amend'', gq_target = sample_digest, gq_provenance = PNone,
     gq_expires = PStr ''2026-01-02T00:00:00Z'', gq_key = ''gk''\<rparr>"

definition grant_one :: grant where
  "grant_one = new_grant policy_world sample_token amend_grant"

definition body_two :: pyval where
  "body_two = contract_body 2 (Some sample_digest) bound_column [''R1''] [''O1''] (Some ''A1'') (Some [(''x'', PInt 1)])"

definition other_digest :: string where
  "other_digest = replicate 64 (CHR ''b'')"

text \<open>The hash tells the second version from all other texts.\<close>

definition amended_hash :: "string \<Rightarrow> string" where
  "amended_hash s = (if s = json_dumps body_two then other_digest else sample_digest)"

definition contract_two :: contract_row where
  "contract_two = contract_one\<lparr>ct_generation := 2, ct_hash := other_digest, ct_parent := Some sample_digest, ct_active := [''O1''],
     ct_amendment_id := Some ''A1'', ct_amendment := Some [(''x'', PInt 1)]\<rparr>"

lemma amendment_identifiers: "is_identifier (PStr ''O1'')" "is_identifier (PStr ''A1'')" "valid_digest (PStr other_digest)"
  "sample_digest \<noteq> other_digest"
  by code_simp+

lemma scenario_times: "parse_utc ''2026-01-01T00:00:00Z'' = Some 63902908800" "parse_utc ''2026-01-02T00:00:00Z'' = Some 63902995200"
  by code_simp+

lemma scenario_now [simp]: "w_now (hashing f) = ''2026-01-01T00:00:00Z''"
  by (simp add: hashing_def sample_world_def)

lemma scenario_uuid: "w_uuid (hashing f) 0 = ''u0''"
  by (simp add: hashing_def sample_world_def nat_str.simps char_of_def bit_0)

lemma obligation_proposed:
  "\<exists>evs'. append_proposed_obligation policy_world sample_token (PStr ''O1'', PList [PStr ''R1''], PDict [(''x'', PInt 1)])
     (policy_db evs b gs [] [contract_one] [] [] []) = (Inr obligation_one, policy_db evs' b gs [obligation_one] [contract_one] [] [] [])"
proof -
  have c: "ct_generation contract_one = 1" "ct_hash contract_one = sample_digest" by (simp_all add: contract_one_def)
  have row: "obligation_from_row policy_world obligation_one = Inr obligation_one"
    by (simp add: obligation_from_row_def obligation_one_def acceptance_ids_def acceptance_identifier_def scenario_facts
        amendment_identifiers scenario_json obligation_status_ok_def)
  have add: "tables_update (\<lambda>e. e\<lparr>ex_obligations := ex_obligations e @ [x]\<rparr>) (policy_db evs b gs [] cs ds ss ps) =
      policy_db evs b gs [x] cs ds ss ps" for x cs ds ss ps by (simp add: tables_update_def policy_db_def)
  have new: "\<lparr>ob_repo = ''repo'', ob_run = ''run'', ob_id = ''O1'', ob_material = json_column [(''x'', PInt 1)], ob_material_hash = sample_digest,
      ob_requirements = [''R1''], ob_status = ''proposed'', ob_created = 1, ob_activated = None\<rparr> = obligation_one"
    by (simp add: obligation_one_def json_column_def)
  show ?thesis
    by (simp add: append_proposed_obligation_def acceptance_ids_def acceptance_identifier_def scenario_facts amendment_identifiers
        scenario_json transaction_def propose_tx_def current_one constant_read obligation_of_def c new row add policy_updates Let_def)
      (rule exI, rule refl)
qed

lemma grant_created:
  "snd (create_grant policy_world sample_token amend_grant (policy_db evs b [] os cs ds ss ps)) = policy_db evs b [grant_one] os cs ds ss ps"
proof -
  have "gq_expires amend_grant = PStr ''2026-01-02T00:00:00Z''" by (simp add: amend_grant_def)
  then show ?thesis
    by (simp add: create_grant_def parse_utc_timestamp_def scenario_times MAX_GRANT_LIFETIME_def transaction_def create_grant_tx_def
        insert_row_def policy_updates flip: grant_one_def)
qed

lemma amended_hashes:
  "amended_hash (json_dumps (PDict bound_column)) = sample_digest" "amended_hash (json_dumps body_one) = sample_digest"
  "amended_hash (json_dumps body_two) = other_digest" "amended_hash (json_dumps (PDict [(''x'', PInt 1)])) = sample_digest"
  by (simp_all add: amended_hash_def json_dumps_inj body_two_def body_one_def contract_body_def bound_column_def opt_str_def)

lemma contract_two_read: "contract_from_row (hashing amended_hash) contract_two = Inr contract_two"
proof -
  have "contract_hash (hashing amended_hash) 2 (Some sample_digest) bound_column [''R1''] [''O1''] (Some ''A1'') (Some [(''x'', PInt 1)])
      = Inr other_digest"
    using scenario_contract_hash [OF bound_encodable(1), where am = "Some [(''x'', PInt 1)]" and f = amended_hash] amended_hashes(3)
    by (simp add: body_two_def)
  then show ?thesis
    by (simp add: contract_from_row_def contract_two_def contract_one_def acceptance_ids_def acceptance_identifier_def scenario_eval
        amendment_identifiers scenario_json bound_encodable bound_binding amended_hashes amendment_check_def opt_str_def
        del: json_encodable.simps) (simp add: scenario_json)
qed


definition activated_one :: obligation_row where
  "activated_one = activate_row 2 obligation_one"

definition used_grant :: grant where
  "used_grant = mark_consumed ''acceptance-amend:A1'' grant_one"

lemma contract_amended:
  "\<exists>evs'. amend_acceptance_contract (hashing amended_hash) sample_token
     (PStr ''A1'', PDict [(''x'', PInt 1)], PStr ''u0'', PList [PStr ''O1''])
     (policy_db evs b [grant_one] [obligation_one] [contract_one] [] [] []) =
       (Inr contract_two, policy_db evs' b [used_grant] [activated_one] [contract_one, contract_two] [] [] [])"
proof -
  let ?w = "hashing amended_hash" and ?m = "[(''x'', PInt 1)]"
  have c: "ct_hash contract_one = sample_digest" "ct_generation contract_one = 1" "ct_requirements contract_one = [''R1'']"
    "ct_active contract_one = []" "ct_material contract_one = bound_column" "ct_amendment_id contract_one = None"
    "ct_repo contract_one = ''repo''" "ct_run contract_one = ''run''"
    by (simp_all add: contract_one_def)
  have g: "gr_id grant_one = ''u0''" "gr_repo grant_one = ''repo''" "gr_run grant_one = ''run''" "gr_generation grant_one = 1"
    "gr_consumed grant_one = False" "gr_action grant_one = ''acceptance-amend''" "gr_target grant_one = sample_digest"
    "gr_expires grant_one = ''2026-01-02T00:00:00Z''"
    by (simp_all add: grant_one_def new_grant_def amend_grant_def scenario_uuid)
  have consumed: "consume_amendment_grant ?w sample_token (PStr ''u0'') sample_digest ''A1'' (policy_db evs b [grant_one] os cs ds ss ps) =
      Inr (policy_db evs b [used_grant] os cs ds ss ps)" for os cs ds ss ps
    by (simp add: consume_amendment_grant_def grant_by_id_def g expired_def scenario_times nonempty_str_def policy_updates
        amendment_key_def used_grant_def)
  have o1: "ob_repo obligation_one = ''repo''" "ob_run obligation_one = ''run''" "ob_id obligation_one = ''O1''"
    "ob_status obligation_one = ''proposed''" "ob_requirements obligation_one = [''R1'']" by (simp_all add: obligation_one_def)
  have row: "obligation_from_row ?w obligation_one = Inr obligation_one"
    by (simp add: obligation_from_row_def obligation_one_def acceptance_ids_def acceptance_identifier_def scenario_facts
        amendment_identifiers scenario_json obligation_status_ok_def amended_hashes)
  have current: "current_contract ?w sample_token (policy_db evs b gs os [contract_one] [] [] []) = Inr contract_one" for gs os
    by (rule current_one) (rule contract_one_read [OF amended_hashes(1,2)])
  have same: "py_eq (PDict bound_column) (PDict bound_material)"
    by (simp add: py_eq_def bound_column_def bound_material_eq)
  have hash: "contract_hash ?w 2 (Some sample_digest) bound_column [''R1''] [''O1''] (Some ''A1'') (Some ?m) = Inr other_digest"
    using scenario_contract_hash [OF bound_encodable(1), where am = "Some ?m" and f = amended_hash] amended_hashes(3)
    by (simp add: body_two_def)
  have json: "acceptance_json ?w k (PDict bound_column) = Inr (bound_column, json_dumps (PDict bound_column), sample_digest)" for k
    using scenario_json [OF bound_encodable(1,2)] amended_hashes(1) by simp
  have new: "\<lparr>ct_repo = ''repo'', ct_run = ''run'', ct_generation = 2, ct_hash = other_digest, ct_parent = Some sample_digest,
      ct_material = json_column bound_column, ct_material_hash = sample_digest, ct_requirements = [''R1''], ct_active = [''O1''],
      ct_amendment_id = Some ''A1'', ct_amendment = Some (json_column ?m)\<rparr> = contract_two"
    by (simp add: contract_two_def contract_one_def bound_encodable) (simp add: json_column_def)
  have act: "activate_proposals sample_token 2 [''O1''] ((db_tables (policy_db evs b gs [obligation_one] cs0 ds ss ps))\<lparr>ex_contracts := cs\<rparr>) =
      Inr ((db_tables (policy_db evs b gs [activated_one] cs0 ds ss ps))\<lparr>ex_contracts := cs\<rparr>)" for gs cs0 cs ds ss ps
    by (simp add: proposed_row_def o1 count_where_def activated_one_def policy_db_def)
  have put: "tables_update (\<lambda>_. (db_tables (policy_db evs b gs [activated_one] cs0 ds ss ps))\<lparr>ex_contracts := cs\<rparr>)
      (policy_db evs b gs os cs0 ds ss ps) = policy_db evs b gs [activated_one] cs ds ss ps" for gs os cs0 cs ds ss ps
    by (simp add: tables_update_def policy_db_def)
  have clash: "\<not> contract_clash contract_two contract_one"
    using amendment_identifiers(4) by (simp add: contract_clash_def contract_two_def contract_one_def)
  have two: "ct_repo contract_two = ''repo''" "ct_run contract_two = ''run''" "ct_generation contract_two = 2"
    by (simp_all add: contract_two_def contract_one_def)
  have insert: "\<exists>evs'. insert_contract ?w contract_two ''acceptance_contract_amended'' extra (activate_proposals sample_token 2 [''O1''])
      (policy_db evs b [used_grant] [obligation_one] [contract_one] [] [] []) =
        Inr (contract_two, policy_db evs' b [used_grant] [activated_one] [contract_one, contract_two] [] [] [])" for extra
    by (simp add: insert_contract_def insert_row_def clash act put policy_updates contract_at_def run_contracts_def two c
        contract_two_read del: activate_proposals.simps) (rule exI, rule refl)
  obtain evs' where "insert_contract ?w contract_two ''acceptance_contract_amended'' [(''parent_contract_hash'', PStr sample_digest),
      (''activated_obligation_ids'', PList [PStr ''O1''])] (activate_proposals sample_token 2 [''O1''])
      (policy_db evs b [used_grant] [obligation_one] [contract_one] [] [] []) =
        Inr (contract_two, policy_db evs' b [used_grant] [activated_one] [contract_one, contract_two] [] [] [])"
    using insert by blast
  then show ?thesis
    by (simp add: amend_acceptance_contract_def acceptance_ids_def acceptance_identifier_def scenario_facts amendment_identifiers
        scenario_json transaction_def amend_tx_def current same run_contracts_def c MAX_ACCEPTANCE_GENERATION_def consumed
        obligation_of_def o1 row json hash new Let_def del: activate_proposals.simps) (rule exI, rule refl)
qed

section \<open>The states are reachable\<close>

lemma context_reachable: "\<exists>evs. reachable (policy_db evs False [] [] [] [] [] [])"
proof -
  have "outside_step made_db (policy_db (db_events made_db) False [] [] [] [] [] [])"
    unfolding outside_step_def
    by (rule exI [of _ "Some [managed_context]"], rule exI [of _ None],
        rule exI [of _ "db_receipts made_db"], rule exI [of _ "db_qualified made_db"], rule exI [of _ "[managed_request]"],
        rule exI [of _ "[]"], rule exI [of _ "[]"], rule exI [of _ "[]"], rule db.equality)
      (simp_all add: policy_db_def made_db_eq empty_extension_def)
  then show ?thesis using reachable_step [OF made_reachable run_step.outside] by blast
qed

text \<open>A committed policy call with a known result leads to a reachable state.\<close>

lemma policy_reachable:
  assumes "reachable d" and "\<And>d. policy_call d (snd (f d))" and "\<exists>evs. f d = (r, h evs)"
  shows "\<exists>evs. reachable (h evs)"
  using reachable_step [OF assms(1) run_step.policy [OF assms(2)]] assms(3) by auto

lemma contract_reachable: "\<exists>evs. reachable (policy_db evs False [] [] [contract_one] [] [] [])"
proof -
  obtain evs where "reachable (policy_db evs False [] [] [] [] [] [])" using context_reachable by blast
  from policy_reachable [OF this policy_call.contract contract_created] show ?thesis .
qed

lemma initialized_reachable: "\<exists>evs. reachable (policy_db evs True [] [] [contract_one] [draft_one] [seal_one] [state_one])"
proof -
  obtain e1 where "reachable (policy_db e1 False [] [] [contract_one] [] [] [])" using contract_reachable by blast
  from policy_reachable [OF this policy_call.draft draft_created]
  obtain e2 where "reachable (policy_db e2 False [] [] [contract_one] [draft_one] [] [])" by blast
  from policy_reachable [OF this policy_call.seal draft_sealed]
  obtain e3 where "reachable (policy_db e3 False [] [] [contract_one] [draft_one] [seal_one] [])" by blast
  from policy_reachable [OF this policy_call.initialize policy_initialized] show ?thesis .
qed

lemma amended_reachable: "\<exists>evs. reachable (policy_db evs False [used_grant] [activated_one] [contract_one, contract_two] [] [] [])"
proof -
  obtain e1 where "reachable (policy_db e1 False [] [] [contract_one] [] [] [])" using contract_reachable by blast
  from policy_reachable [OF this policy_call.propose obligation_proposed]
  obtain e2 where "reachable (policy_db e2 False [] [obligation_one] [contract_one] [] [] [])" by blast
  from reachable_step [OF this run_step.policy [OF policy_call.grant [of _ policy_world sample_token amend_grant]]]
  have "reachable (policy_db e2 False [grant_one] [obligation_one] [contract_one] [] [] [])" by (simp add: grant_created)
  from policy_reachable [OF this policy_call.amend contract_amended] show ?thesis .
qed

section \<open>The witnesses\<close>

theorem contract_versions_chained_witness:
  "ct_generation contract_two = 2 \<and> ct_parent contract_two = Some (ct_hash contract_one) \<and>
     set (ct_active contract_one) \<subseteq> set (ct_active contract_two) \<and> gr_consumed used_grant \<and> gr_target used_grant = ct_hash contract_one"
proof -
  obtain evs where "reachable (policy_db evs False [used_grant] [activated_one] [contract_one, contract_two] [] [] [])"
    using amended_reachable by blast
  from contract_versions_chained [OF this, of contract_two] show ?thesis
    by (auto simp: contract_two_def contract_one_def)
qed

theorem obligations_of_latest_contract_witness:
  "\<exists>d. reachable d \<and> latest_contract ''repo'' ''run'' d = Some contract_two \<and> ct_active contract_two = [''O1''] \<and>
     ob_id ` {x \<in> set (run_obligations ''repo'' ''run'' d). ob_status x = ''active''} = {''O1''}"
proof -
  obtain evs where d: "reachable (policy_db evs False [used_grant] [activated_one] [contract_one, contract_two] [] [] [])" (is "reachable ?d")
    using amended_reachable by blast
  have "latest_contract ''repo'' ''run'' ?d = Some contract_two"
    by (simp add: latest_contract_def run_contracts_def Let_def contract_two_def contract_one_def)
  with obligations_of_latest_contract [OF d this] d show ?thesis by (intro exI [of _ ?d]) (simp add: contract_two_def)
qed

text \<open>The run is cancelled; its seal and its contract stay.\<close>

definition no_view :: completion_view where
  "no_view = \<lparr>cv_snapshot = sample_db, cv_chain = (\<lambda>_ _ _ _. Inr []), cv_head = (\<lambda>_. []), cv_entries = (\<lambda>_ _. [])\<rparr>"

lemma initialized_facts:
  "policy_state_of sample_token (policy_db evs True [] [] [contract_one] [draft_one] [seal_one] [state_one]) = Some state_one"
  "root_activity sample_token (policy_db evs True [] [] [contract_one] [draft_one] [seal_one] [state_one]) = Some made_activity"
  "ps_stage state_one = ''SEALED''"
  by (simp_all add: policy_state_of_def root_activity_def context_of_def managed_context_def activity_of_def state_one_def)

lemma seal_can_cancel: "stage_move ''SEALED'' ''CANCELLED''"
  by (simp add: stage_move_def stage_moves_def)

theorem cancellation_never_blocked_witness:
  "\<exists>d st' d'. reachable d \<and> policy_state_of sample_token d = Some state_one \<and>
     transition_frontend_policy policy_world sample_token (''SEALED'', ''CANCELLED'', PNone, no_view) d = (Inr st', d') \<and>
     ps_stage st' = ''CANCELLED''"
proof -
  obtain evs where d: "reachable (policy_db evs True [] [] [contract_one] [draft_one] [seal_one] [state_one])" (is "reachable ?d")
    using initialized_reachable by blast
  have "\<exists>st' d'. transition_frontend_policy policy_world sample_token (ps_stage state_one, ''CANCELLED'', PNone, no_view) ?d = (Inr st', d') \<and>
      ps_stage st' = ''CANCELLED'' \<and> policy_state_of sample_token d' = Some st' \<and>
      (\<exists>a' \<in> set (db_activities d'). ac_id a' = ac_id made_activity \<and> ac_state a' \<in> set terminal_states)"
    by (rule cancellation_never_blocked [OF d initialized_facts(1) _ _ initialized_facts(2)])
      (simp_all add: initialized_facts final_stages_def ending_stages_def)
  then show ?thesis using d initialized_facts by auto
qed

lemma cancelled_reached:
  "\<exists>d d' st'. reachable d \<and> run_step\<^sup>*\<^sup>* d d' \<and> policy_state_of sample_token d = Some state_one \<and> ex_seals (db_tables d) = [seal_one] \<and>
     policy_state_of sample_token d' = Some st' \<and> ps_stage st' = ''CANCELLED''"
proof -
  obtain evs where d: "reachable (policy_db evs True [] [] [contract_one] [draft_one] [seal_one] [state_one])" (is "reachable ?d")
    using initialized_reachable by blast
  have "\<exists>st' d'. transition_frontend_policy policy_world sample_token (ps_stage state_one, ''CANCELLED'', PNone, no_view) ?d = (Inr st', d') \<and>
      ps_stage st' = ''CANCELLED'' \<and> policy_state_of sample_token d' = Some st' \<and>
      (\<exists>a' \<in> set (db_activities d'). ac_id a' = ac_id made_activity \<and> ac_state a' \<in> set terminal_states)"
    by (rule cancel_commits [OF initialized_facts(1) _ _ initialized_facts(2)]) (simp_all add: initialized_facts seal_can_cancel)
  then obtain st' d' where c: "transition_frontend_policy policy_world sample_token (ps_stage state_one, ''CANCELLED'', PNone, no_view) ?d = (Inr st', d')"
    "ps_stage st' = ''CANCELLED''" "policy_state_of sample_token d' = Some st'" by blast
  have "run_step ?d d'"
    using run_step.policy [OF policy_call.transit_stage [of ?d policy_world sample_token "(ps_stage state_one, ''CANCELLED'', PNone, no_view)"]] c(1)
    by simp
  then have "run_step\<^sup>*\<^sup>* ?d d'" by (rule r_into_rtranclp)
  then show ?thesis using d c(2,3) initialized_facts(1)
    by (intro exI [of _ ?d] exI [of _ d'] exI [of _ st']) simp
qed

theorem seal_is_final_witness:
  "\<exists>d'. reachable d' \<and> seal_one \<in> set (ex_seals (db_tables d')) \<and>
     (\<exists>r \<in> set (ex_drafts (db_tables d')). dr_id r = ''D1'' \<and> dr_hash r = sample_digest)"
proof -
  obtain d d' where d: "reachable d" "run_step\<^sup>*\<^sup>* d d'" "ex_seals (db_tables d) = [seal_one]" using cancelled_reached by blast
  have "seal_one \<in> set (ex_seals (db_tables d))" using d(3) by simp
  from seal_is_final [OF d(1) this d(2)] reachable_steps [OF d(1,2)] show ?thesis
    by (intro exI [of _ d']) (auto simp: seal_one_def)
qed

theorem frontend_policy_is_state_machine_witness:
  "\<exists>d' st'. reachable d' \<and> policy_state_of sample_token d' = Some st' \<and> ps_acceptance st' = sample_digest \<and>
     stage_move\<^sup>*\<^sup>* ''SEALED'' ''CANCELLED'' \<and> ps_stage st' = ''CANCELLED''"
proof -
  obtain d d' st' where d: "reachable d" "run_step\<^sup>*\<^sup>* d d'" "policy_state_of sample_token d = Some state_one"
    "policy_state_of sample_token d' = Some st'" "ps_stage st' = ''CANCELLED''" using cancelled_reached by blast
  from frontend_policy_is_state_machine [OF d(1-3)] d(4,5) reachable_steps [OF d(1,2)] show ?thesis
    by (intro exI [of _ d'] exI [of _ st']) (simp add: state_one_def)
qed

theorem policy_machine_refined_witness:
  "change\<^sup>*\<^sup>* (kept empty_db) (empty_extension\<lparr>ex_requests := [managed_request], ex_obligations := [activated_one],
     ex_contracts := [contract_one, contract_two]\<rparr>, [used_grant], [])"
proof -
  obtain evs where d: "run_step\<^sup>*\<^sup>* empty_db (policy_db evs False [used_grant] [activated_one] [contract_one, contract_two] [] [] [])" (is "run_step\<^sup>*\<^sup>* _ ?d")
    using amended_reachable by (auto simp: reachable_def)
  have "kept ?d = (empty_extension\<lparr>ex_requests := [managed_request], ex_obligations := [activated_one],
     ex_contracts := [contract_one, contract_two]\<rparr>, [used_grant], [])"
    by (simp add: kept_def policy_db_def made_db_eq empty_extension_def)
  with policy_machine_refined [OF d] show ?thesis by simp
qed

definition open_decision :: decision_request where
  "open_decision = \<lparr>dq_gate = ''review_complete'', dq_status = PBool True,
     dq_hashes = PDict [(''candidate'', PStr ''c''), (''runtime'', PStr ''r''), (''config'', PStr ''k'')],
     dq_evidence = PDict [(''locator'', PStr ''l''), (''sha256'', PStr ''h'')], dq_provenance = PDict [],
     dq_dependencies = [], dq_expires = PStr ''2026-01-02T00:00:00Z''\<rparr>"

lemma decision_recorded:
  "record_decision policy_world sample_token open_decision (policy_db evs False [] [] [] [] [] []) =
    (Inr (new_decision policy_world sample_token open_decision True),
     policy_db evs False [] [] [] [] [] []\<lparr>db_decisions := [new_decision policy_world sample_token open_decision True]\<rparr>)"
  by (simp add: record_decision_def open_decision_def GATE_REQUIRED_HASHES_def has_hashes_def nonempty_str_def dict_get_def
      parse_utc_timestamp_def scenario_times has_evidence_def truthy_def transaction_def record_decision_tx_def dict_copy_def insert_row_def Let_def)

theorem gates_exact_witness:
  "\<exists>d n. reachable d \<and> parse_utc ''2026-01-01T00:00:00Z'' = Some n \<and> db_decisions d \<noteq> [] \<and>
     map_of (project_gates (PDict [(''candidate'', PStr ''c''), (''runtime'', PStr ''r''), (''config'', PStr ''k'')]) ''run'' ''repo''
       ''2026-01-01T00:00:00Z'' d) ''review_complete'' = Some True"
proof -
  obtain evs where "reachable (policy_db evs False [] [] [] [] [] [])" using context_reachable by blast
  from reachable_step [OF this run_step.policy [OF policy_call.decision [of _ policy_world sample_token open_decision]]]
  have d: "reachable (policy_db evs False [] [] [] [] [] []\<lparr>db_decisions := [new_decision policy_world sample_token open_decision True]\<rparr>)"
    (is "reachable ?d") by (simp add: decision_recorded)
  have "run_decisions ''repo'' ''run'' ?d = [new_decision policy_world sample_token open_decision True]"
    by (simp add: run_decisions_def new_decision_def)
  then have "map_of (project_gates (PDict [(''candidate'', PStr ''c''), (''runtime'', PStr ''r''), (''config'', PStr ''k'')]) ''run'' ''repo''
       ''2026-01-01T00:00:00Z'' ?d) ''review_complete'' = Some True"
    unfolding gates_exact [OF d scenario_times(1)]
    by (simp add: gates_def GATE_REQUIRED_HASHES_def latest_decision_def new_decision_def open_decision_def backed_iff [of _ _ "w_uuid _ _"]
        decision_of_def current_decision_def scenario_times hashes_match_def nonempty_str_def dict_get_def)
  then show ?thesis using d scenario_times(1) by (intro exI [of _ ?d] exI [of _ 63902908800]) simp
qed


text \<open>A pending integration and its quarantine.\<close>

definition pending_integration :: journal_row where
  "pending_integration = \<lparr>jr_repo = ''repo'', jr_run = ''run'', jr_preparation = ''p'', jr_wave = ''wave'', jr_activity = ''u0'',
     jr_event = 1, jr_intent = ''i'', jr_generation = 1, jr_ack = ''a'', jr_permit = ''m'', jr_contract = PDict [], jr_hash = ''h'',
     jr_state = ''pending'', jr_evidence = None, jr_publication = None\<rparr>"

definition journal_db :: db where
  "journal_db = made_db\<lparr>db_tables := empty_extension\<lparr>ex_journals := [pending_integration]\<rparr>\<rparr>"

theorem one_unsettled_integration_witness:
  "ex_journals (db_tables (snd (quarantine sample_world sample_token (''wave'', ''r'') journal_db))) =
     [pending_integration\<lparr>jr_state := ''quarantined''\<rparr>]"
proof -
  let ?d' = "snd (quarantine sample_world sample_token (''wave'', ''r'') journal_db)"
  have ok: "policies_ok (kept journal_db)"
    by (simp add: journal_db_def made_db_eq policies_ok_def kept_def empty_extension_def decisions_ok_def contracts_ok_def versions_ok_def
        obligations_ok_def latest_in_def amendments_ok_def seals_ok_def states_ok_def journals_ok_def unsettled_in_def)
  have "run_step journal_db ?d'" by (intro run_step.policy policy_call.quarantine_wave)
  then have steps: "run_step\<^sup>*\<^sup>* journal_db ?d'" by (rule r_into_rtranclp)
  have j: "pending_integration \<in> set (ex_journals (db_tables journal_db))" by (simp add: journal_db_def)
  have "assert_owner sample_world sample_token journal_db = Inr ()"
    using sample_fence [of journal_db] fence_owner [of sample_world sample_token journal_db] by (simp add: journal_db_def made_db_eq)
  then have "ex_journals (db_tables ?d') = [pending_integration\<lparr>jr_state := ''quarantined''\<rparr>]"
    by (simp add: quarantine_def transaction_def quarantine_tx_def journal_of_def run_journals_def journal_db_def pending_integration_def
        record_event_once_tx_def event_key_of_def update_journal_def tables_update_def made_db_eq add_event_def Let_def)
  with one_unsettled_integration [OF disjI2 [OF ok] j steps] show ?thesis by simp
qed

end
