(* ===== verification/Cohort_Scenario.thy ===== *)
theory Cohort_Scenario
  imports Cohort_Contract Policy_Scenario
begin

text \<open>
  A cohort of one launch from its reservation to its release, on the run of \<^theory_text>\<open>Run_Scenario\<close>, and
  the properties of the cohorts at its states.
\<close>

section \<open>The reservation\<close>

definition cohort_stage ::
  "(string \<times> pyval) list \<Rightarrow> event_key list \<Rightarrow> activity \<Rightarrow> run_limits \<Rightarrow> intent list \<Rightarrow> accounting list
     \<Rightarrow> cohort list \<Rightarrow> cohort_member list \<Rightarrow> db"
where
  "cohort_stage evs ks a l is acc cs ms = (stage evs ks a l is acc)\<lparr>db_cohorts := cs, db_members := ms\<rparr>"

lemma cohort_stage_sel [simp]:
  "db_reservations (cohort_stage evs ks a l is acc cs ms) = db_reservations sample_db" "db_migration (cohort_stage evs ks a l is acc cs ms) = None"
  "db_activities (cohort_stage evs ks a l is acc cs ms) = [a]" "db_limits (cohort_stage evs ks a l is acc cs ms) = [l]"
  "db_intents (cohort_stage evs ks a l is acc cs ms) = is" "db_accounting (cohort_stage evs ks a l is acc cs ms) = acc"
  "db_keys (cohort_stage evs ks a l is acc cs ms) = ks" "db_events (cohort_stage evs ks a l is acc cs ms) = evs"
  "db_policy_installed (cohort_stage evs ks a l is acc cs ms) = False" "db_cohorts (cohort_stage evs ks a l is acc cs ms) = cs"
  "db_members (cohort_stage evs ks a l is acc cs ms) = ms" "db_capacity (cohort_stage evs ks a l is acc cs ms) = []"
  "db_bindings (cohort_stage evs ks a l is acc cs ms) = []"
  by (simp_all add: cohort_stage_def)

lemma cohort_stage_upd:
  "cohort_stage evs ks a l is acc cs ms\<lparr>db_activities := [a']\<rparr> = cohort_stage evs ks a' l is acc cs ms"
  "cohort_stage evs ks a l is acc cs ms\<lparr>db_limits := [l']\<rparr> = cohort_stage evs ks a l' is acc cs ms"
  "cohort_stage evs ks a l is acc cs ms\<lparr>db_intents := is'\<rparr> = cohort_stage evs ks a l is' acc cs ms"
  "cohort_stage evs ks a l is acc cs ms\<lparr>db_accounting := acc'\<rparr> = cohort_stage evs ks a l is acc' cs ms"
  "cohort_stage evs ks a l is acc cs ms\<lparr>db_keys := ks'\<rparr> = cohort_stage evs ks' a l is acc cs ms"
  "cohort_stage evs ks a l is acc cs ms\<lparr>db_cohorts := cs'\<rparr> = cohort_stage evs ks a l is acc cs' ms"
  "cohort_stage evs ks a l is acc cs ms\<lparr>db_members := ms'\<rparr> = cohort_stage evs ks a l is acc cs ms'"
  "cohort_stage evs ks a l is acc cs ms\<lparr>db_cohorts := cs', db_members := ms'\<rparr> = cohort_stage evs ks a l is acc cs' ms'"
  "cohort_stage evs ks a l is acc cs ms\<lparr>db_members := ms', db_cohorts := cs'\<rparr> = cohort_stage evs ks a l is acc cs' ms'"
  "add_event t p (cohort_stage evs ks a l is acc cs ms) = cohort_stage (evs @ [(t, p)]) ks a l is acc cs ms"
  "install_context (cohort_stage evs ks a l is acc cs ms) = cohort_stage evs ks a l is acc cs ms"
  by (simp_all add: cohort_stage_def stage_def add_event_def install_context_def)

lemma cohort_stage_fence [simp]: "fence sample_world sample_token (cohort_stage evs ks a l is acc cs ms) = Inr ()"
  by (rule sample_fence) simp_all

lemma cohort_stage_owner [simp]: "assert_owner sample_world sample_token (cohort_stage evs ks a l is acc cs ms) = Inr ()"
  using cohort_stage_fence fence_owner by blast

lemma cohort_stage_activity [simp]: "activity_of i (cohort_stage evs ks a l is acc cs ms) = (if ac_id a = i then Some a else None)"
  by (simp add: activity_of_def)

lemma cohort_stage_limits [simp]: "limits_of sample_token (cohort_stage evs ks a l is acc cs ms) =
    (if rl_repo l = ''repo'' \<and> rl_run l = ''run'' then Some l else None)"
  by (simp add: limits_of_def limits_match_def)

lemma cohort_stage_ancestry [simp]: "assert_activity_ancestry tk (cohort_stage evs ks a l is acc cs ms) i = Inr ()"
  unfolding assert_activity_ancestry_def by (subst activity_ancestry.simps) (simp add: parent_of_def)

lemma cohort_stage_binding [simp]:
  "ac_id a = i \<Longrightarrow> ac_repo a = ''repo'' \<Longrightarrow> ac_run a = ''run'' \<Longrightarrow>
     assert_activity_binding sample_world sample_token i (cohort_stage evs ks a l is acc cs ms) = Inr a"
  by (simp add: assert_activity_binding_def)

definition cohort_member_request :: pyval where
  "cohort_member_request = PDict [(''activity_id'', PStr ''u0''), (''request_key'', PStr ''k''), (''request_payload'', PDict []),
     (''token_reservation'', PInt 10), (''runtime_receipt_sha256'', PStr sample_digest), (''managed_input_sha256'', PStr sample_digest)]"

definition member_item :: cohort_request where
  "member_item = \<lparr>mr_activity = ''u0'', mr_key = ''k'', mr_payload = [], mr_text = json_dumps (PDict []),
     mr_text_hash = json_dumps (PDict []), mr_tokens = 10, mr_receipt = sample_digest, mr_input = sample_digest\<rparr>"

definition cohort_hash :: string where
  "cohort_hash = json_dumps (PList [item_material member_item])"

lemma cohort_normalized:
  "normalize_cohort_requests sample_world [cohort_member_request] = Inr ([member_item], cohort_hash)"
  by (simp add: normalize_cohort_requests_def cohort_item_def cohort_member_request_def cohort_fields_def dict_has_keys_def dict_keys_def
      dict_get_def sample_lower valid_nonnegative_integer_def nonempty_str_def is_dict_def dict_of_def Let_def member_item_def cohort_hash_def)

definition first_cohort :: cohort_args where
  "first_cohort = \<lparr>ca_key = PStr ''c'', ca_members = [cohort_member_request], ca_guard = (\<lambda>d. Inr ()), ca_actions = PNone,
     ca_receipt = (\<lambda>d a x. Inr ())\<rparr>"

definition cohort_row :: "string \<Rightarrow> cohort" where
  "cohort_row st = \<lparr>co_id = ''u0'', co_repo = ''repo'', co_run = ''run'', co_key = ''c'', co_membership = cohort_hash,
     co_count = 1, co_state = st, co_generation = 1\<rparr>"

definition member_row :: "string option \<Rightarrow> ident option \<Rightarrow> cohort_member" where
  "member_row k x = \<lparr>cm_cohort = ''u0'', cm_ordinal = 0, cm_intent = ''u1'', cm_activity = ''u0'', cm_key = ''k'',
     cm_payload = json_dumps (PDict []), cm_payload_hash = json_dumps (PDict []), cm_tokens = 10, cm_receipt = sample_digest,
     cm_input = sample_digest, cm_ack = k, cm_child = x\<rparr>"

definition member_intent :: intent where
  "member_intent = first_intent\<lparr>in_id := ''u1''\<rparr>"

definition member_accounting :: accounting where
  "member_accounting = \<lparr>la_intent = ''u1'', la_repo = ''repo'', la_run = ''run'', la_reservation = 10, la_final = None\<rparr>"

lemma uuid_one: "w_uuid sample_world (Suc 0) = ''u1''"
  by (simp add: sample_world_def nat_str.simps char_of_def bit_0)

lemma member_written:
  "\<exists>evs' ks'. write_member sample_world sample_token ''u0'' PNone 0 member_item
       (cohort_stage evs ks bound_activity scenario_limits [] [] [cohort_row ''reserved''] [])
     = Inr (cohort_stage evs' ks' charged_activity scenario_limits [member_intent] [member_accounting]
         [cohort_row ''reserved''] [member_row None None])" if "ks = []"
  using that uuid_one
  by (simp add: write_member_def update_activity_def member_item_def bound_activity_def cohort_stage_upd Let_def insert_row_def
      new_intent_def next_ordinal_def accounting_row_def bind_member_def new_member_def record_event_once_tx_def event_key_of_def
      charged_activity_def member_intent_def first_intent_def member_accounting_def member_row_def)
    (rule exI, rule exI, rule refl)

definition cohort_db :: db where
  "cohort_db = snd (reserve_launch_cohort sample_world sample_token (first_cohort, \<lambda>s. s) limited_db)"

lemma limited_cohort_stage: "\<exists>evs. limited_db = cohort_stage evs [] bound_activity scenario_limits [] [] [] []"
proof -
  obtain evs where "limited_db = stage evs [] bound_activity scenario_limits [] []" using limited_db_eq by blast
  moreover have "stage evs [] bound_activity scenario_limits [] [] = cohort_stage evs [] bound_activity scenario_limits [] [] [] []"
    by (rule db.equality) (simp_all add: cohort_stage_def)
  ultimately show ?thesis by metis
qed

lemma cohort_committed:
  "\<exists>evs' ks'. reserve_cohort_tx sample_world sample_token ''c'' [member_item] cohort_hash first_cohort
       (cohort_stage evs [] bound_activity scenario_limits [] [] [] [])
     = Inr (Inr ''u0'', cohort_stage evs' ks' charged_activity charged_limits [member_intent] [member_accounting]
         [cohort_row ''reserved''] [member_row None None])"
proof -
  let ?d = "cohort_stage evs [] bound_activity scenario_limits [] [] [] []"
  obtain evs' ks' where member: "write_member sample_world sample_token ''u0'' PNone 0 member_item
       (cohort_stage evs [] bound_activity scenario_limits [] [] [cohort_row ''reserved''] [])
     = Inr (cohort_stage evs' ks' charged_activity scenario_limits [member_intent] [member_accounting]
         [cohort_row ''reserved''] [member_row None None])" using member_written by blast
  have allow: "cohort_allowance sample_token [member_item] ?d scenario_limits = Inr ()"
    by (simp add: cohort_allowance_def scenario_limits_def cohort_tokens_def member_item_def effective_worker_capacity_def
        capacity_of_def active_capacity_launch_count_def)
  have gate: "member_gate sample_world sample_token (ca_receipt first_cohort) ?d member_item = Inr ()"
    by (simp add: member_gate_def member_item_def first_cohort_def bound_activity_def terminal_states_def active_intents_def
        event_key_of_def)
  have row: "new_cohort sample_token ''u0'' ''c'' cohort_hash [member_item] = cohort_row ''reserved''"
    by (simp add: new_cohort_def cohort_row_def)
  have lim: "limits_of sample_token ?d = Some scenario_limits" by (simp add: scenario_limits_def)
  have charge: "update_limits sample_token (commit_cohort sample_token [member_item])
      (cohort_stage evs' ks' charged_activity scenario_limits is acc cs ms) = cohort_stage evs' ks' charged_activity charged_limits is acc cs ms"
    for "is" acc cs ms
    by (simp add: update_limits_def limits_match_def commit_cohort_def cohort_tokens_def member_item_def scenario_limits_def
        charged_limits_def cohort_stage_upd)
  have q: "ca_guard first_cohort = (\<lambda>d. Inr ())" "ca_actions first_cohort = PNone" by (simp_all add: first_cohort_def)
  have run: "rl_repo scenario_limits = ''repo''" "rl_run scenario_limits = ''run''" by (simp_all add: scenario_limits_def)
  show ?thesis
    by (simp add: reserve_cohort_tx_def incomplete_cohort_def run allow gate sample_uuid row insert_row_def cohort_stage_upd
        q member charge Let_def del: sample_world_sel)
      (rule exI, rule exI, rule refl)
qed

lemma cohort_reserved_stage:
  "\<exists>evs ks. reserve_launch_cohort sample_world sample_token (first_cohort, \<lambda>s. s) limited_db
     = (Inr \<lparr>lo_id = ''u0'', lo_key = ''c'', lo_state = ''reserved'', lo_members = [member_intent], lo_reused = False\<rparr>,
        cohort_stage evs ks charged_activity charged_limits [member_intent] [member_accounting]
          [cohort_row ''reserved''] [member_row None None])"
proof -
  obtain evs0 where l: "limited_db = cohort_stage evs0 [] bound_activity scenario_limits [] [] [] []"
    using limited_cohort_stage by blast
  obtain evs ks where tx: "reserve_cohort_tx sample_world sample_token ''c'' [member_item] cohort_hash first_cohort
       (cohort_stage evs0 [] bound_activity scenario_limits [] [] [] [])
     = Inr (Inr ''u0'', cohort_stage evs ks charged_activity charged_limits [member_intent] [member_accounting]
         [cohort_row ''reserved''] [member_row None None])" using cohort_committed by blast
  let ?d = "cohort_stage evs ks charged_activity charged_limits [member_intent] [member_accounting]
         [cohort_row ''reserved''] [member_row None None]"
  have q: "ca_key first_cohort = PStr ''c''" "ca_members first_cohort = [cohort_member_request]" "ca_actions first_cohort = PNone"
    by (simp_all add: first_cohort_def)
  have now: "parse_utc (w_now sample_world) = Some 63902908800" using scenario_times(1) by (simp add: sample_world_def)
  have pre: "preflight_policy_clock sample_world sample_token PNone PNone (cohort_stage evs0 [] bound_activity scenario_limits [] [] [] [])
      = (Inr (), cohort_stage evs0 [] bound_activity scenario_limits [] [] [] [])" by (simp add: preflight_policy_clock_def)
  have rows: "cohort_by_id ''u0'' ?d = Some (cohort_row ''reserved'')"
    "cohort_members ''u0'' ?d = [member_row None None]" "joined_intent ?d (member_row None None) = Some member_intent"
    by (simp_all add: cohort_by_id_def cohort_row_def cohort_members_def member_row_def joined_intent_def intent_of_def
        member_intent_def first_intent_def)
  have again: "launch_cohort_of (cohort_row ''reserved'') False ?d
      = Inr \<lparr>lo_id = ''u0'', lo_key = ''c'', lo_state = ''reserved'', lo_members = [member_intent], lo_reused = False\<rparr>"
    using rows by (simp add: launch_cohort_of_def cohort_row_def List.map_filter_def)
  show ?thesis
    by (simp add: reserve_launch_cohort_def q nonempty_str_def cohort_normalized valid_actions_def now l cohort_stage_upd pre
        transaction_def tx rows again) (rule exI, rule exI, rule refl)
qed

lemma cohort_db_eq:
  "\<exists>evs ks. cohort_db = cohort_stage evs ks charged_activity charged_limits [member_intent] [member_accounting]
     [cohort_row ''reserved''] [member_row None None]"
  using cohort_reserved_stage unfolding cohort_db_def by (metis snd_conv)

section \<open>The acknowledgement and the release\<close>

definition member_ack :: ack_request where
  "member_ack = \<lparr>aq_intent = ''u1'', aq_identity = sample_child, aq_cohort = Some ''u0'', aq_guard = (\<lambda>d. Inr ()),
     aq_seen = cohort_db, aq_seen_member = cohort_db\<rparr>"

definition acked_cohort_db :: db where
  "acked_cohort_db = snd (acknowledge_cohort_child sample_world sample_token member_ack cohort_db)"

definition acked_member :: intent where
  "acked_member = member_intent\<lparr>in_state := ''acknowledged'', in_child := Some sample_child, in_ack := Some ''u0''\<rparr>"

lemma acked_cohort_db_eq:
  "\<exists>evs ks. acked_cohort_db = cohort_stage evs ks charged_activity charged_limits [acked_member] [member_accounting]
     [cohort_row ''acknowledged''] [member_row (Some ''u0'') (Some sample_child)]"
proof -
  obtain evs ks where r: "cohort_db = cohort_stage evs ks charged_activity charged_limits [member_intent] [member_accounting]
     [cohort_row ''reserved''] [member_row None None]" using cohort_db_eq by blast
  have parent: "w_direct_parent sample_world c p = LIVE" for c p by (simp add: sample_world_def)
  show ?thesis
    using sample_uuid
    by (simp add: acked_cohort_db_def acknowledge_cohort_child_def acknowledge_child_def member_ack_def ack_observe_def r intent_of_def
        member_intent_def first_intent_def activity_state_def charged_activity_def bound_activity_def member_of_def member_row_def
        cohort_row_def terminal_states_def parent transaction_def ack_tx_def ack_cohort_def update_intent_def bind_child_def
        cohort_stage_upd Let_def acked_member_def)
      (rule exI, rule exI, rule refl)
qed

text \<open>A world in which the child is alive.\<close>

definition live_world :: world where
  "live_world = sample_world\<lparr>w_probe := (\<lambda>x. LIVE)\<rparr>"

definition cohort_permit :: release_request where
  "cohort_permit = \<lparr>rq_cohort = ''u0'', rq_guard = (\<lambda>d. Inr ()), rq_boot = PNone, rq_ns = PNone, rq_seen = (\<lambda>s. s),
     rq_readings = (\<lambda>k. (7, 9))\<rparr>"

definition released_cohort_db :: db where
  "released_cohort_db = snd (release_launch_cohort live_world sample_token cohort_permit acked_cohort_db)"

definition running_member :: intent where
  "running_member = acked_member\<lparr>in_state := ''released_to_execute'', in_permit := Some ''u0''\<rparr>"

lemma live_owner: "assert_owner live_world tk d = assert_owner sample_world tk d"
proof -
  have "resource_keys live_world r u ws sc ob = resource_keys sample_world r u ws sc ob" for r u ws sc ob
    by (simp add: resource_keys_def live_world_def)
  then show ?thesis by (simp add: assert_owner_def token_keys_def)
qed

lemma live_sel [simp]: "w_epoch_fence live_world = None" "w_uuid live_world = w_uuid sample_world" "w_self live_world = sample_ident"
  "w_liveness live_world = None" "w_probe live_world x = LIVE"
  by (simp_all add: live_world_def)

lemma live_binding [simp]:
  "ac_id a = i \<Longrightarrow> ac_repo a = ''repo'' \<Longrightarrow> ac_run a = ''run'' \<Longrightarrow>
     assert_activity_binding (live_world\<lparr>w_mono_ns := m, w_wall_ns := n\<rparr>) sample_token i (cohort_stage evs ks a l is acc cs ms) = Inr a"
proof -
  let ?w = "live_world\<lparr>w_mono_ns := m, w_wall_ns := n\<rparr>"
  have "resource_keys ?w r u ws sc ob = resource_keys live_world r u ws sc ob" for r u ws sc ob
    by (simp add: resource_keys_def)
  then have "assert_owner ?w sample_token d = assert_owner sample_world sample_token d" for d
    unfolding live_owner [symmetric] by (simp add: assert_owner_def token_keys_def)
  then have "fence ?w sample_token (cohort_stage evs ks a l is acc cs ms) = Inr ()"
    using cohort_stage_fence by (simp add: fence_def assert_migration_epoch_def)
  then show "ac_id a = i \<Longrightarrow> ac_repo a = ''repo'' \<Longrightarrow> ac_run a = ''run'' \<Longrightarrow>
     assert_activity_binding ?w sample_token i (cohort_stage evs ks a l is acc cs ms) = Inr a"
    by (simp add: assert_activity_binding_def)
qed

lemma clock_recorded:
  "\<exists>evs' ks'. record_launch_clock_tx w tk i k (cohort_stage evs ks a l is acc cs ms) = Inr (cohort_stage evs' ks' a l is acc cs ms)"
proof (cases "event_key_of i (launch_clock_key k) (cohort_stage evs ks a l is acc cs ms)")
  case None
  then show ?thesis
    by (simp add: record_launch_clock_tx_def record_event_once_tx_def Let_def cohort_stage_upd) (rule exI, rule exI, rule refl)
next
  case (Some e)
  then show ?thesis by (simp add: record_launch_clock_tx_def) (rule exI, rule exI, rule refl)
qed

definition member_seen :: member_view where
  "member_seen = \<lparr>mv_member = member_row (Some ''u0'') (Some sample_child), mv_intent = acked_member, mv_activity = ''pending''\<rparr>"

lemma cohort_released_stage:
  "\<exists>evs ks. release_launch_cohort live_world sample_token cohort_permit acked_cohort_db
     = (Inr [(''u0'', ''u1'')], cohort_stage evs ks running_activity charged_limits [running_member] [member_accounting]
          [cohort_row ''released_to_execute''] [member_row (Some ''u0'') (Some sample_child)])"
proof -
  obtain evs ks where r: "acked_cohort_db = cohort_stage evs ks charged_activity charged_limits [acked_member] [member_accounting]
     [cohort_row ''acknowledged''] [member_row (Some ''u0'') (Some sample_child)]" using acked_cohort_db_eq by blast
  let ?d = "cohort_stage evs ks charged_activity charged_limits [acked_member] [member_accounting]
     [cohort_row ''acknowledged''] [member_row (Some ''u0'') (Some sample_child)]"
  have sel: "in_id acked_member = ''u1''" "in_state acked_member = ''acknowledged''" "in_child acked_member = Some sample_child"
    "in_ack acked_member = Some ''u0''" "in_completion acked_member = None" "in_generation acked_member = 1"
    "ac_id charged_activity = ''u0''" "ac_state charged_activity = ''pending''" "ac_repo charged_activity = ''repo''"
    "ac_run charged_activity = ''run''"
    by (simp_all add: acked_member_def member_intent_def first_intent_def charged_activity_def bound_activity_def)
  have row: "cm_intent (member_row k x) = ''u1''" "cm_activity (member_row k x) = ''u0''" "cm_cohort (member_row k x) = ''u0''"
    "cm_ack (member_row k x) = k" "cm_child (member_row k x) = x" for k x
    by (simp_all add: member_row_def)
  have cohort: "co_id (cohort_row st) = ''u0''" "co_repo (cohort_row st) = ''repo''" "co_run (cohort_row st) = ''run''"
    "co_count (cohort_row st) = 1" "co_state (cohort_row st) = st" "co_generation (cohort_row st) = 1" for st
    by (simp_all add: cohort_row_def)
  have views: "member_views ''u0'' ?d = [member_seen]"
    by (simp add: member_views_def cohort_members_def row List.map_filter_def member_view_of_def intent_of_def sel member_seen_def)
  have child: "id_host sample_child = id_host sample_ident" "id_boot sample_child = id_boot sample_ident"
    by (simp_all add: sample_child_def sample_ident_def)
  have seen: "observe_cohort live_world sample_token ''u0'' ?d = Inr (Inr [member_seen])"
    by (simp add: observe_cohort_def cohort_by_id_def cohort views Let_def)
      (simp add: member_seen_def member_ended_def member_acknowledged_def member_alive_def row sel child live_world_def py_startswith_def)
  obtain evs1 ks1 where clock: "record_launch_clock_tx (live_world\<lparr>w_mono_ns := 7, w_wall_ns := 9\<rparr>) sample_token ''u0'' ''u1''
      (cohort_stage evs ks running_activity charged_limits [running_member] [member_accounting] [cohort_row ''acknowledged'']
        [member_row (Some ''u0'') (Some sample_child)])
     = Inr (cohort_stage evs1 ks1 running_activity charged_limits [running_member] [member_accounting] [cohort_row ''acknowledged'']
        [member_row (Some ''u0'') (Some sample_child)])" using clock_recorded by blast
  have rows: "activate sample_token charged_activity = running_activity" "release_intent ''u0'' acked_member = running_member"
    by (simp_all add: activate_def running_activity_def release_intent_def running_member_def charged_activity_def bound_activity_def
        made_activity_def)
  have one: "release_members live_world sample_token (\<lambda>k. (7, 9)) 0 [member_seen] ?d = Inr ([(''u0'', ''u1'')],
      cohort_stage evs1 ks1 running_activity charged_limits [running_member] [member_accounting] [cohort_row ''acknowledged'']
        [member_row (Some ''u0'') (Some sample_child)])"
    using sample_uuid
    by (simp add: release_member_def member_seen_def row sel update_activity_def cohort_stage_upd rows clock Let_def)
  have freed: "cohort_row ''acknowledged''\<lparr>co_state := ''released_to_execute''\<rparr> = cohort_row ''released_to_execute''"
    by (simp add: cohort_row_def)
  have q: "rq_cohort cohort_permit = ''u0''" "rq_guard cohort_permit = (\<lambda>d. Inr ())" "rq_seen cohort_permit = (\<lambda>s. s)"
    "rq_readings cohort_permit = (\<lambda>k. (7, 9))" by (simp_all add: cohort_permit_def)
  have tx: "\<exists>evs' ks'. release_cohort_tx live_world sample_token cohort_permit [member_seen] ?d = Inr (Inr [(''u0'', ''u1'')],
      cohort_stage evs' ks' running_activity charged_limits [running_member] [member_accounting]
          [cohort_row ''released_to_execute''] [member_row (Some ''u0'') (Some sample_child)])"
    by (simp add: release_cohort_tx_def q cohort_by_id_def cohort views one freed cohort_stage_upd Let_def del: release_members.simps) (rule exI, rule exI, rule refl)
  have own: "assert_owner live_world sample_token ?d = Inr ()" by (simp add: live_owner)
  from tx show ?thesis
    by (elim exE) (simp add: release_launch_cohort_def authorize_launch_cohort_def q r preflight_policy_clock_def own seen
        transaction_def, rule exI, rule exI, rule refl)
qed

lemma released_cohort_db_eq:
  "\<exists>evs ks. released_cohort_db = cohort_stage evs ks running_activity charged_limits [running_member] [member_accounting]
          [cohort_row ''released_to_execute''] [member_row (Some ''u0'') (Some sample_child)]"
  using cohort_released_stage unfolding released_cohort_db_def by (metis snd_conv)

section \<open>Reachability\<close>

lemma acked_cohort_reachable: "reachable acked_cohort_db"
proof -
  have "reachable cohort_db"
    unfolding cohort_db_def by (rule reachable_step [OF limited_reachable]) (rule run_step.cohort)
  then show ?thesis unfolding acked_cohort_db_def by (rule reachable_step) (rule run_step.member_ack)
qed

lemma released_cohort_reachable: "reachable released_cohort_db"
  unfolding released_cohort_db_def by (rule reachable_step [OF acked_cohort_reachable]) (rule run_step.cohort_release)

section \<open>The properties at the states of the scenario\<close>

theorem no_member_before_release_witness:
  "member_row (Some ''u0'') (Some sample_child) \<in> set (db_members released_cohort_db) \<and> running_member \<in> set (db_intents released_cohort_db)
   \<and> in_permit running_member = Some ''u0'' \<and> (\<exists>c \<in> set (db_cohorts released_cohort_db). co_state c = ''released_to_execute'')"
proof -
  obtain evs ks where r: "released_cohort_db = cohort_stage evs ks running_activity charged_limits [running_member] [member_accounting]
          [cohort_row ''released_to_execute''] [member_row (Some ''u0'') (Some sample_child)]" using released_cohort_db_eq by blast
  have m: "member_row (Some ''u0'') (Some sample_child) \<in> set (db_members released_cohort_db)" by (simp add: r)
  have i: "running_member \<in> set (db_intents released_cohort_db)" by (simp add: r)
  have p: "in_id running_member = cm_intent (member_row (Some ''u0'') (Some sample_child))" "in_permit running_member = Some ''u0''"
    by (simp_all add: running_member_def acked_member_def member_intent_def member_row_def)
  from no_member_before_release [OF released_cohort_reachable m i p(1)] p(2) m i show ?thesis by blast
qed

theorem cohort_released_as_a_whole_witness:
  "\<exists>ps d'. authorize_launch_cohort live_world sample_token cohort_permit acked_cohort_db = (Inr ps, d')
     \<and> map snd ps = map (\<lambda>v. cm_intent (mv_member v)) (member_views ''u0'' acked_cohort_db)
     \<and> db_intents d' = map (granted ps) (db_intents acked_cohort_db) \<and> db_intents d' \<noteq> db_intents acked_cohort_db"
proof -
  obtain evs0 ks0 where r: "acked_cohort_db = cohort_stage evs0 ks0 charged_activity charged_limits [acked_member] [member_accounting]
     [cohort_row ''acknowledged''] [member_row (Some ''u0'') (Some sample_child)]" using acked_cohort_db_eq by blast
  obtain d' where run: "authorize_launch_cohort live_world sample_token cohort_permit acked_cohort_db = (Inr [(''u0'', ''u1'')], d')"
    and d': "db_intents d' = [running_member]"
    using cohort_released_stage by (auto simp: release_launch_cohort_def)
  have moved: "db_intents d' \<noteq> db_intents acked_cohort_db" by (simp add: d' r running_member_def acked_member_def member_intent_def first_intent_def)
  have q: "rq_cohort cohort_permit = ''u0''" by (simp add: cohort_permit_def)
  from cohort_released_as_a_whole [where w = live_world and tk = sample_token and q = cohort_permit and d = acked_cohort_db] run moved show ?thesis
    by (auto simp: q launch_rows_def)
qed

theorem cohort_reserved_as_a_whole_witness:
  "\<exists>items new. db_intents cohort_db = db_intents limited_db @ new \<and> list_all2 (reserved_for sample_token) items new \<and> new = [member_intent]"
proof -
  obtain evs ks where r: "cohort_db = cohort_stage evs ks charged_activity charged_limits [member_intent] [member_accounting]
     [cohort_row ''reserved''] [member_row None None]" using cohort_db_eq by blast
  obtain evs0 where l: "limited_db = cohort_stage evs0 [] bound_activity scenario_limits [] [] [] []" using limited_cohort_stage by blast
  have moved: "launch_rows cohort_db \<noteq> launch_rows limited_db" by (simp add: r l launch_rows_def)
  have rows: "db_intents cohort_db = [member_intent]" "db_intents limited_db = []" by (simp_all add: r l)
  from cohort_reserved_as_a_whole [where w = sample_world and tk = sample_token and q = first_cohort and view = "\<lambda>s. s" and d = limited_db] moved show ?thesis
    unfolding cohort_db_def [symmetric] Let_def rows by auto
qed

end
