(* ===== verification/Completion_Scenario.thy ===== *)
theory Completion_Scenario
  imports Policy_Scenario
begin

text \<open>
  A run in its final review with everything completion asks for: a worker, the check of its result, a
  review of it, and the receipts of both; and its completion.
\<close>

section \<open>The run before its completion\<close>

definition run_evidence :: "(string \<times> pyval) list" where
  "run_evidence = [(''locator'', PStr ''/log''), (''sha256'', PStr sample_digest)]"

definition review_receipt :: pydict where
  "review_receipt = [(''schema'', PStr POLICY_RECEIPT_SCHEMA), (''role'', PStr ''review''),
     (''request_key'', PStr ''req''), (''activity_id'', PStr ''act''), (''intent_id'', PStr ''int''),
     (''fence_generation'', PInt 1), (''acceptance_hash'', PStr sample_digest),
     (''candidate_hash'', PStr sample_digest), (''runtime_hash'', PStr sample_digest),
     (''workspace_preparation_hash'', PStr sample_digest),
     (''evidence'', PList [PDict [(''id'', PStr ''e1''), (''sha256'', PStr sample_digest), (''locator'', PStr ''/log'')]]),
     (''completion_status'', PStr ''succeeded''),
     (''process_identity'', PDict [(''host_id'', PStr ''h''), (''boot_id'', PStr ''b''), (''pid'', PInt 7), (''start_token'', PStr ''t'')]),
     (''review_dimensions'', PList [PStr ''correctness''])]"

definition child_of :: "string \<Rightarrow> string \<Rightarrow> string \<Rightarrow> child_binding" where
  "child_of a parent role = \<lparr>cb_activity = a, cb_parent = parent, cb_role = role, cb_candidate = sample_digest, cb_contract = sample_digest,
     cb_runtime = sample_digest, cb_workspace = ''/w'', cb_preparation = Some ''wp''\<rparr>"

definition done_launch :: "string \<Rightarrow> string \<Rightarrow> string \<Rightarrow> intent" where
  "done_launch i a e = \<lparr>in_id = i, in_activity = a, in_ordinal = 1, in_state = ''completed_succeeded'', in_generation = 1, in_exempt = False,
     in_child = Some \<lparr>id_host = ''h'', id_boot = ''b'', id_pid = 7, id_start = ''t''\<rparr>, in_ack = Some ''k'', in_permit = Some ''p'',
     in_completion = Some ''succeeded'', in_evidence = Some e, in_usage = None\<rparr>"

definition done_activity :: "string \<Rightarrow> int \<Rightarrow> activity" where
  "done_activity a n = made_activity\<lparr>ac_id := a, ac_state := ''succeeded'', ac_revision := n, ac_request_key := a, ac_runtime := Some sample_digest\<rparr>"

definition dispatches :: "(string \<times> pyval) list" where
  "dispatches = [(''dispatch'', PDict [(''data'', PDict [(''intent_id'', PStr ''int'')])]),
     (''dispatch'', PDict [(''data'', PDict [(''intent_id'', PStr ''chk-1''), (''local_check_receipt_sha256'', PStr sample_digest),
        (''managed_input_sha256'', PStr sample_digest),
        (''request'', PDict [(''local_check_material'', PDict [(''candidate_hash'', PStr sample_digest)])])])])]"

definition review_state :: policy_state where
  "review_state = state_one\<lparr>ps_stage := ''FINAL_REVIEW''\<rparr>"

definition ready_tables :: extension where
  "ready_tables = empty_extension\<lparr>ex_requests := [managed_request], ex_contracts := [contract_one], ex_drafts := [draft_one],
     ex_seals := [seal_one], ex_states := [review_state],
     ex_workspaces := [\<lparr>ws_id = ''wp'', ws_repo = Some ''repo'', ws_run = ''run'', ws_path = ''/w'', ws_branch = ''b'', ws_base = ''base'',
       ws_common = ''/g'', ws_created = True, ws_generation = 1, ws_state = ''ready'', ws_parent = None, ws_activity = Some ''wk'',
       ws_role = None, ws_request = None, ws_manifest = PDict [(''entries'', PList [])], ws_record = PDict []\<rparr>],
     ex_locals := [\<lparr>lo_hash = sample_digest, lo_producer = ''chk'', lo_workspace = ''wp'', lo_acceptance = sample_digest, lo_check = ''C1'',
       lo_generation = 1, lo_material = [(''candidate_hash'', PStr sample_digest)]\<rparr>],
     ex_receipts := [\<lparr>ar_repo = ''repo'', ar_run = ''run'', ar_acceptance = sample_digest, ar_hash = sample_digest, ar_receipt = review_receipt\<rparr>],
     ex_checks := [\<lparr>cw_repo = ''repo'', cw_run = ''run'', cw_acceptance = sample_digest, cw_candidate = sample_digest, cw_id = ''C1'',
       cw_status = ''passed'', cw_evidence = [PDict run_evidence]\<rparr>]\<rparr>"

definition ready_db :: db where
  "ready_db = made_db\<lparr>db_events := dispatches, db_context := Some [managed_context], db_policy_installed := True,
     db_activities := [made_activity\<lparr>ac_state := ''active''\<rparr>, done_activity ''wk'' 2, done_activity ''chk'' 3, done_activity ''act'' 4],
     db_bindings := [child_of ''wk'' ''u0'' ''worker'', child_of ''chk'' ''wk'' ''inventory'', child_of ''act'' ''u0'' ''reviewer''],
     db_intents := [done_launch ''chk-1'' ''chk'' (json_dumps (PDict run_evidence)), done_launch ''int'' ''act'' (evidence_text (PDict run_evidence))],
     db_keys := [\<lparr>ek_activity = ''act'', ek_key = ''dispatch-request:req'', ek_hash = sample_digest, ek_event = 1\<rparr>,
       \<lparr>ek_activity = ''chk'', ek_key = ''dispatch-request:check'', ek_hash = sample_digest, ek_event = 2\<rparr>],
     db_actions := [\<lparr>pa_id = ''pa'', pa_repo = ''repo'', pa_run = ''run'', pa_action = ''final_review'', pa_logical = ''l'', pa_input = sample_digest,
       pa_cycle = None, pa_mutation = False, pa_state = ''attempted'', pa_attempts = 1, pa_receipt = None, pa_intent = Some ''int''\<rparr>],
     db_attempts := [(''pa'', ''int'')], db_tables := ready_tables\<rparr>"

definition ready_view :: completion_view where
  "ready_view = \<lparr>cv_snapshot = ready_db, cv_chain = (\<lambda>_ _ _ _. Inr []), cv_head = (\<lambda>_. ''base''), cv_entries = (\<lambda>_ _. [])\<rparr>"

section \<open>The evidence check\<close>

lemma ready_sel [simp]:
  "db_events ready_db = dispatches" "db_context ready_db = Some [managed_context]" "db_policy_installed ready_db"
  "db_activities ready_db = [made_activity\<lparr>ac_state := ''active''\<rparr>, done_activity ''wk'' 2, done_activity ''chk'' 3, done_activity ''act'' 4]"
  "db_bindings ready_db = [child_of ''wk'' ''u0'' ''worker'', child_of ''chk'' ''wk'' ''inventory'', child_of ''act'' ''u0'' ''reviewer'']"
  "db_intents ready_db = [done_launch ''chk-1'' ''chk'' (json_dumps (PDict run_evidence)), done_launch ''int'' ''act'' (evidence_text (PDict run_evidence))]"
  "db_tables ready_db = ready_tables" "db_attempts ready_db = [(''pa'', ''int'')]"
  by (simp_all add: ready_db_def)

definition accepted_receipt :: role_receipt where
  "accepted_receipt = \<lparr>rr_role = ''review'', rr_request_key = ''req'', rr_activity_id = ''act'', rr_intent_id = ''int'',
     rr_fence_generation = 1, rr_acceptance_hash = sample_digest, rr_candidate_hash = sample_digest, rr_runtime_hash = sample_digest,
     rr_workspace_preparation_hash = sample_digest,
     rr_evidence = [PDict [(''id'', PStr ''e1''), (''sha256'', PStr sample_digest), (''locator'', PStr ''/log'')]],
     rr_completion_status = ''succeeded'',
     rr_process_identity = [(''host_id'', PStr ''h''), (''boot_id'', PStr ''b''), (''pid'', PInt 7), (''start_token'', PStr ''t'')],
     rr_review_dimensions = [''correctness''], rr_receipt_json = json_dumps (PDict review_receipt), rr_receipt_hash = sample_digest\<rparr>"

lemma log_identifier: "is_identifier (PStr ''/log'')"
  by code_simp

lemma receipt_stored: "validate_role_receipt (\<lambda>_. sample_digest) [] (PDict review_receipt) = Inr accepted_receipt"
  unfolding accepted_receipt_def review_receipt_def
  by (simp add: validate_role_receipt_def receipt_eval log_identifier Let_def insert_commute)

lemma ready_lookups [simp]:
  "intent_of ''int'' ready_db = Some (done_launch ''int'' ''act'' (evidence_text (PDict run_evidence)))"
  "intent_of ''chk-1'' ready_db = Some (done_launch ''chk-1'' ''chk'' (json_dumps (PDict run_evidence)))"
  "activity_of ''act'' ready_db = Some (done_activity ''act'' 4)" "activity_of ''chk'' ready_db = Some (done_activity ''chk'' 3)"
  "binding_of ''act'' ready_db = Some (child_of ''act'' ''u0'' ''reviewer'')"
  "binding_of ''chk'' ready_db = Some (child_of ''chk'' ''wk'' ''inventory'')"
  "binding_of ''wk'' ready_db = Some (child_of ''wk'' ''u0'' ''worker'')"
  "policy_state_of sample_token ready_db = Some review_state"
  by (simp_all add: intent_of_def activity_of_def binding_of_def done_launch_def done_activity_def child_of_def made_activity_def
      policy_state_of_def ready_tables_def review_state_def state_one_def)

lemma review_is_final: "final_review ''int'' ready_db"
  by (simp add: final_review_def attempted_action_def ready_db_def List.map_filter_def)

lemma review_dispatched:
  "keyed_event ''act'' ''dispatch-request:req'' ready_db =
     Some (\<lparr>ek_activity = ''act'', ek_key = ''dispatch-request:req'', ek_hash = sample_digest, ek_event = 1\<rparr>,
       PDict [(''data'', PDict [(''intent_id'', PStr ''int'')])])"
  by (simp add: keyed_event_def event_key_of_def event_at_def ready_db_def dispatches_def)

lemma ready_workspace: "\<exists>s. workspace_by_id (Some ''wp'') ready_db = Some s \<and> ws_base s = ''base'' \<and> ws_manifest s = PDict [(''entries'', PList [])]"
  by (simp add: workspace_by_id_def ready_tables_def)

lemma launch_sel [simp]:
  "in_id (done_launch i a e) = i" "in_activity (done_launch i a e) = a" "in_state (done_launch i a e) = ''completed_succeeded''"
  "in_generation (done_launch i a e) = 1" "in_completion (done_launch i a e) = Some ''succeeded''" "in_evidence (done_launch i a e) = Some e"
  "in_ack (done_launch i a e) = Some ''k''"
  by (simp_all add: done_launch_def)

lemma child_sel [simp]:
  "cb_parent (child_of a p r) = p" "cb_role (child_of a p r) = r" "cb_candidate (child_of a p r) = sample_digest"
  "cb_contract (child_of a p r) = sample_digest" "cb_workspace (child_of a p r) = ''/w''" "cb_preparation (child_of a p r) = Some ''wp''"
  by (simp_all add: child_of_def)

lemma receipt_executed: "receipt_execution policy_world sample_token accepted_receipt ready_db = Inr ()"
proof -
  have "executed_launch sample_token accepted_receipt (done_launch ''int'' ''act'' e) (done_activity ''act'' 4) (child_of ''act'' ''u0'' ''reviewer'')" for e
    by (simp add: executed_launch_def accepted_receipt_def done_activity_def made_activity_def receipt_child_role_def)
  moreover have "py_eq (identity_dict (in_child (done_launch ''int'' ''act'' e))) (PDict (rr_process_identity accepted_receipt))" for e
    by (simp add: py_eq_def identity_dict_def done_launch_def accepted_receipt_def)
  moreover have "evidence_text (PDict run_evidence) = evidence_text (hd (rr_evidence accepted_receipt))"
    by (simp add: evidence_text_def run_evidence_def accepted_receipt_def dict_get_def)
  ultimately show ?thesis using ready_workspace review_dispatched
    by (auto simp: receipt_execution_def accepted_receipt_def preparation_hash_def item_def dict_get_def the_id_def)
qed

lemma review_accepted:
  "accepted_reviews policy_world sample_token review_state ready_db (acceptance_receipts sample_token sample_digest ready_db) =
     Inr [(sample_digest, accepted_receipt)]"
proof -
  have "acceptance_receipts sample_token sample_digest ready_db =
      [\<lparr>ar_repo = ''repo'', ar_run = ''run'', ar_acceptance = sample_digest, ar_hash = sample_digest, ar_receipt = review_receipt\<rparr>]"
    by (simp add: acceptance_receipts_def ready_tables_def)
  moreover have "rr_role accepted_receipt = ''review''" "rr_completion_status accepted_receipt = ''succeeded''"
    "rr_candidate_hash accepted_receipt = ps_candidate review_state" "rr_intent_id accepted_receipt = ''int''"
    by (simp_all add: accepted_receipt_def review_state_def state_one_def)
  ultimately show ?thesis by (simp add: stored_receipt_def receipt_stored review_is_final receipt_executed)
qed

section \<open>The check\<close>

lemma check_done:
  "check_execution sample_token sample_digest sample_digest ''C1'' ''passed'' [run_evidence] ready_db = Inr ''chk-1''"
proof -
  have launches: "check_launches sample_token sample_digest sample_digest ready_db =
      [(done_launch ''chk-1'' ''chk'' (json_dumps (PDict run_evidence)), child_of ''chk'' ''wk'' ''inventory'')]"
    by (simp add: check_launches_def done_activity_def made_activity_def List.map_filter_def)
  have events: "dispatch_events ''chk'' ready_db = [snd (dispatches ! 1)]"
    by (simp add: dispatch_events_def event_at_def ready_db_def dispatches_def List.map_filter_def) code_simp
  have settled: "check_settled ''passed'' [run_evidence] (done_launch ''chk-1'' ''chk'' (json_dumps (PDict run_evidence)))"
    by (simp add: check_settled_def given_id_def the_id_def json_dumps_def run_evidence_def)
  have "dispatch_match (done_launch ''chk-1'' ''chk'' e) (child_of ''chk'' ''wk'' ''inventory'') sample_digest sample_digest ''C1'' ready_db
      (snd (dispatches ! 1)) = Inr True" for e
    by (simp add: dispatch_match_def dispatches_def ready_tables_def item_def dict_get_def local_matches_def py_eq_def)
  then show ?thesis by (simp add: check_execution_def launches events settled)
qed

definition ready_completion :: completion where
  "ready_completion = \<lparr>cp_acceptance = sample_digest, cp_candidate = sample_digest, cp_generation = 1,
     cp_reviews = [sample_digest], cp_repair = None\<rparr>"

lemma review_state_sel [simp]:
  "ps_acceptance review_state = sample_digest" "ps_candidate review_state = sample_digest" "ps_generation review_state = 1"
  "ps_stage review_state = ''FINAL_REVIEW''"
  by (simp_all add: review_state_def state_one_def)

lemma ready_checks:
  "candidate_checks sample_token sample_digest sample_digest ready_db = [\<lparr>cw_repo = ''repo'', cw_run = ''run'', cw_acceptance = sample_digest,
     cw_candidate = sample_digest, cw_id = ''C1'', cw_status = ''passed'', cw_evidence = [PDict run_evidence]\<rparr>]"
  by (simp add: candidate_checks_def ready_tables_def)

lemma check_executed:
  "executed_check sample_token review_state ready_db (hd (candidate_checks sample_token sample_digest sample_digest ready_db)) =
     Inr ((''/w'', ''base'', PDict [(''entries'', PList [])]), [PDict run_evidence])"
  using ready_workspace by (auto simp: executed_check_def ready_checks check_evidence_def check_done checked_workspace_def)

lemma evidence_verified:
  "verified_evidence policy_world (PDict run_evidence) = Inr run_evidence"
  "verified_evidence policy_world (PDict [(''id'', PStr ''e1''), (''sha256'', PStr sample_digest), (''locator'', PStr ''/log'')]) =
     Inr [(''id'', PStr ''e1''), (''sha256'', PStr sample_digest), (''locator'', PStr ''/log'')]"
  by code_simp+

lemma ready_verified: "verify_completion policy_world sample_token ready_view = Inr ready_completion"
proof -
  have "recorded_integration sample_token review_state ready_db = Inr None"
    by (simp add: recorded_integration_def candidate_of_def ready_tables_def empty_extension_def)
  moreover have "same_workspace ready_view (''/w'', ''base'', PDict [(''entries'', PList [])]) = Inr ()"
    by (simp add: same_workspace_def ready_view_def manifest_entries_def item_def dict_get_def py_eq_def)
  ultimately show ?thesis using check_executed
    by (simp add: verify_completion_def ready_view_def ready_checks review_accepted review_evidence_def evidence_verified
        verify_integration_def accepted_receipt_def ready_completion_def Let_def)
qed

section \<open>The completion\<close>

lemma ready_complete: "completion_ready policy_world sample_token ready_completion review_state ready_db = Inr (Some review_receipt)"
proof -
  have seal: "seal_by_hash sample_token sample_digest ready_db = Some seal_one"
    by (simp add: seal_by_hash_def run_seals_def seal_one_def ready_tables_def)
  have checks: "passed_checks sample_token review_state ready_db = [''C1'']" by (simp add: passed_checks_def ready_checks)
  have frozen: "frozen_checks (se_material read_seal) = [''C1'']"
    by (simp add: frozen_checks_def read_seal_def seal_one_def material_with_def rebuilt_def dict_get_def)
  have rows: "acceptance_receipts sample_token sample_digest ready_db =
      [\<lparr>ar_repo = ''repo'', ar_run = ''run'', ar_acceptance = sample_digest, ar_hash = sample_digest, ar_receipt = review_receipt\<rparr>]"
    by (simp add: acceptance_receipts_def ready_tables_def)
  have "dict_get review_receipt ''role'' = PStr ''review''" "dict_get review_receipt ''candidate_hash'' = PStr sample_digest"
    "dict_get review_receipt ''completion_status'' = PStr ''succeeded''" "dict_get review_receipt ''intent_id'' = PStr ''int''"
    by (simp_all add: review_receipt_def dict_get_def)
  then have "receipt_accepted review_state [sample_digest] ready_db (hd (acceptance_receipts sample_token sample_digest ready_db))"
    by (simp add: receipt_accepted_def rows review_is_final)
  then show ?thesis
    by (simp add: completion_ready_def ready_completion_def seal checks frozen rows) (simp add: ready_tables_def empty_extension_def)
qed

lemma ready_root: "root_activity sample_token ready_db = Some (made_activity\<lparr>ac_state := ''active''\<rparr>)"
  by (simp add: root_activity_def context_of_def managed_context_def activity_of_def made_activity_def)

lemma ready_settled: "\<not> outstanding_below ''u0'' ready_db" "\<not> list_ex (launch_unsettled sample_token ready_db) (db_intents ready_db)"
  by (simp_all add: outstanding_below_def done_activity_def made_activity_def terminal_states_def launch_unsettled_def split: option.split)

lemma ready_owner: "fence policy_world sample_token ready_db = Inr ()" "assert_owner policy_world sample_token ready_db = Inr ()"
proof -
  have frame: "db_reservations ready_db = db_reservations sample_db" "db_migration ready_db = None" by (simp_all add: ready_db_def made_db_eq)
  have "assert_owner policy_world sample_token ready_db = assert_owner sample_world sample_token ready_db"
    by (simp add: hashing_def assert_owner_def token_keys_def resource_keys_def)
  then show "fence policy_world sample_token ready_db = Inr ()"
    using sample_fence [OF frame] frame(2) by (simp add: fence_def assert_migration_epoch_def)
  then show "assert_owner policy_world sample_token ready_db = Inr ()" using fence_owner by blast
qed

lemma ready_finishes: "\<exists>d'. finish_root policy_world sample_token ''DONE'' (Some review_receipt) ready_db = Inr d'"
proof -
  let ?r = "PDict [(''id'', PStr ''e1''), (''sha256'', PStr sample_digest), (''locator'', PStr ''/log'')]"
  let ?t = "\<lparr>tr_activity = ''u0'', tr_expected = ''active'', tr_new = ''succeeded'', tr_result = ?r, tr_reason = PStr ''frontend DONE''\<rparr>"
  have result: "root_result ''DONE'' (Some review_receipt) = Inr ?r" by (simp add: root_result_def review_receipt_def item_def dict_get_def)
  have root: "activity_of ''u0'' ready_db = Some (made_activity\<lparr>ac_state := ''active''\<rparr>)" by (simp add: activity_of_def made_activity_def)
  obtain r d' where "transition_activity_tx policy_world sample_token ?t ready_db = Inr (r, d')"
    using transition_accepted [OF ready_owner(1), of ?t "made_activity\<lparr>ac_state := ''active''\<rparr>"] root
    by (auto simp: made_activity_def terminal_states_def)
  moreover have "ac_id made_activity = ''u0''" by (simp add: made_activity_def)
  ultimately show ?thesis using ready_settled
    by (simp add: finish_root_def ready_root result root_end_def terminal_states_def)
qed

lemma ready_installed: "install_policy ready_db = ready_db"
  by (simp add: install_policy_def)

lemma ready_done:
  "\<exists>st d'. transition_frontend_policy policy_world sample_token (''FINAL_REVIEW'', ''DONE'', PNone, ready_view) ready_db = (Inr st, d') \<and>
     ps_stage st = ''DONE''"
proof -
  obtain d' where "finish_root policy_world sample_token ''DONE'' (Some review_receipt) ready_db = Inr d'" using ready_finishes by blast
  then have "stage_tx policy_world sample_token ''FINAL_REVIEW'' ''DONE'' PNone (Some ready_completion) ready_db =
      Inr (review_state\<lparr>ps_stage := ''DONE'', ps_decision := None\<rparr>, update_state sample_token (\<lambda>s. s\<lparr>ps_stage := ''DONE'', ps_decision := None\<rparr>) d')"
    by (simp add: stage_tx_def ready_owner ready_complete ending_stages_def)
  moreover have "stage_move ''FINAL_REVIEW'' ''DONE''" by (simp add: stage_move_def stage_moves_def)
  ultimately show ?thesis
    by (simp add: transition_frontend_policy_def ready_verified ready_installed transaction_def)
qed

text \<open>The completion of the run, and what the theorem says of it.\<close>

theorem done_requires_everything_witness:
  "\<exists>st d' c. transition_frontend_policy policy_world sample_token (''FINAL_REVIEW'', ''DONE'', PNone, ready_view) ready_db = (Inr st, d') \<and>
     ps_stage st = ''DONE'' \<and> verify_completion policy_world sample_token ready_view = Inr c \<and>
     (accepting_review sample_token review_state c ready_db \<or> repaired_review policy_world sample_token review_state c ready_db) \<and>
     (\<exists>a \<in> set (db_activities d'). ac_id a = ''u0'' \<and> ac_state a = ''succeeded'')"
proof -
  obtain st d' where run: "transition_frontend_policy policy_world sample_token (''FINAL_REVIEW'', ''DONE'', PNone, ready_view) ready_db = (Inr st, d')"
    "ps_stage st = ''DONE''" using ready_done by blast
  have root: "ac_id a = ''u0''" if "root_activity sample_token ready_db = Some a" for a
    using that by (auto simp: ready_root made_activity_def)
  have state: "s = review_state" if "policy_state_of sample_token ready_db = Some s" for s using that by simp
  from done_requires_everything [of policy_world sample_token "''FINAL_REVIEW''" PNone ready_view ready_db]
  obtain s c a where "policy_state_of sample_token ready_db = Some s" "verify_completion policy_world sample_token ready_view = Inr c"
    "accepting_review sample_token s c ready_db \<or> repaired_review policy_world sample_token s c ready_db"
    "root_activity sample_token ready_db = Some a" "\<exists>a' \<in> set (db_activities d'). ac_id a' = ac_id a \<and> ac_state a' = ''succeeded''"
    unfolding Let_def run(1) prod.case ready_installed fst_conv sum.disc by (elim disjE exE conjE FalseE) simp_all
  then show ?thesis using run root state by (intro exI [of _ st] exI [of _ d'] exI [of _ c]) simp
qed

end
