(* ===== verification/Spec2Isabelle.thy ===== *)
theory Spec2Isabelle
  imports Launch_Contract Admission_Scenario Prepaid_Scenario Cohort_Scenario Completion_Scenario
begin

text \<open>
  A verification development for the control authority of feature-fix-swarm
  (\<open>lib/run_state\<close>): the SQLite-backed store that decides which supervisor process owns a run, which
  activities and child processes it may start, what they may spend, and how a successor takes over
  after a crash.

  Parts and theories.

  \<^item> \<open>Prelude\<close>: results with errors (\<open>res\<close>), the table idioms (a table is the list of its rows in
    insertion order; \<open>SELECT ... fetchone\<close> is \<^const>\<open>List.find\<close>, \<open>UPDATE\<close> is \<open>update_where\<close>, \<open>INSERT\<close>
    is \<open>insert_row\<close> with the uniqueness constraints of the schema), Python string helpers.
  \<^item> \<open>Json\<close>: JSON-like values, \<open>json.dumps(sort_keys=True)\<close> and its injectivity on values whose floats carry the
    text Python gives a finite float (\<open>finite_floats\<close>).
  \<^item> \<open>Run_Policy\<close>: \<open>run_policy.py\<close>: tiers and allowances, the validators of drafts and role receipts,
    the lifecycle guard, finding classification, evidence reuse.
  \<^item> \<open>Store\<close>, \<open>Fence\<close>: the rows and the database record, transactions with rollback, the environment
    of a call (\<open>world\<close>: clock samples, process probes, fresh identifiers), the migration epoch, and the
    locale \<open>fenced_op\<close>: the contract of an operation behind the owner fence.
  \<^item> \<open>Ownership\<close>: \<open>ownership.py\<close>: \<open>reserve_resources\<close>, \<open>assert_owner\<close>, \<open>release_owner\<close>.
  \<^item> \<open>Policy_Budget\<close>, \<open>Policy_Limits\<close>: the policy budget of \<open>state.py\<close>: actions, union clock, waits, work
    intervals and the binding of launches to actions; the facts about them.
  \<^item> \<open>Activities\<close>, \<open>Activity_Life\<close>, \<open>Activity_Safety\<close>: bindings, run limits, capacity revisions; the
    life cycle of activities, idempotent events, retry debits; invariants.
  \<^item> \<open>Launch\<close>, \<open>Launch_Facts\<close>, \<open>Launch_Safety\<close>: reserve, acknowledge, authorize, recover, complete and the
    evidence of contained processes; what each of them does; the invariant \<open>launch_ok\<close>.
  \<^item> \<open>Run_Safety\<close>: one step relation \<open>run_step\<close> over every modelled call of every process,
    reachability from the empty store, and the theorems about reachable stores and histories.
  \<^item> \<open>Run_Scenario\<close>: one run from the empty store to a settled launch, at whose states the theorems are
    applied. \<open>Launch_Contract\<close>: what a caller of the launch interface may rely on.
  \<^item> \<open>Cohorts\<close>: the launches of several activities that are reserved, acknowledged and released together.
    \<open>Cohort_Facts\<close>, \<open>Cohort_Safety\<close>: what the calls change and keep, and their fence. \<open>Cohort_Gate\<close>: in
    every reachable store the launches of a cohort that is not released have no permit (\<open>gated\<close>).
    \<open>Cohort_Contract\<close>: reservation and release as a whole, and no member before the release;
    \<open>Cohort_Scenario\<close>: a cohort from its reservation over the reports of its children to its release.
  \<^item> \<open>Resources\<close>, \<open>Provider_Feedback\<close>: the demands and observations of \<open>resource_observation.py\<close>, the
    scheduler of \<open>resource_scheduler.py\<close>, the exploration bounds of \<open>provider_feedback.py\<close>.
  \<^item> \<open>Admission\<close>: \<open>managed_admission.py\<close>, the registry shared by all runs of a machine: enqueue, the turn
    order, the grant, binding and release, the reclaim of dead leases and the reconciliation.
    \<open>Admission_Safety\<close>: how rows change under every call (\<open>queue_step\<close>), and what the scheduler admits;
    \<open>Admission_Grants\<close>: the capacity bound; \<open>Admission_Contract\<close>: turns, retries, evidence, throttling
    (of the providers the candidates ask for, as the code looks at no others);
    \<open>Admission_Scenario\<close>: concrete runs for the witnesses and the findings.
  \<^item> \<open>Prepaid\<close>: \<open>resource_groups.py\<close>, the groups of leases that a parent launch prepays for its
    children, in the database of the queue. \<open>Prepaid_Safety\<close>: every call keeps the claims inside their
    slots (\<open>group_step\<close>), for plans as the package builds them (\<open>plan_ok\<close>: no child slot has the name of the
    parent slot, which the code addresses by its name); \<open>Prepaid_Contract\<close>: what no call undoes, closing and reserving;
    \<open>Prepaid_Scenario\<close>: a concrete group, and the crash after which it can never be closed. The retry of an
    expired group requeues its released leases; that is the one exception to the rule that no call of
    the queue revives an ended lease.

  \<^item> \<open>Grants\<close>: operator grants, decisions and the gate projection, with the memoised search of the code
    compared with the inductive \<open>backed\<close>. \<open>Acceptance\<close>, \<open>Seals\<close>: the versioned acceptance contract, its
    obligations and amendments, the executable drafts and their seals. \<open>Journal\<close>: \<open>integration_journal.py\<close>.
    \<open>Frontend\<close>: role receipts, the policy state, candidates, integrations, check results. \<open>Completion\<close>:
    \<open>frontend_completion.py\<close> and the stage transitions. \<open>Children\<close>: child activities.
  \<^item> \<open>Policy_Machine\<close>: the abstract machine of these tables (\<open>change\<close>): which rows may appear and which
    columns may move, and under which conditions. \<open>Table_Frame\<close>: the calls of the other components leave
    these tables alone. \<open>Policy_Frames\<close>: what the calls of this group leave alone, and their fence.
    \<open>Policy_Refine\<close>: every call is a change of the machine. \<open>Policy_Invariants\<close>: what the changes
    preserve and what only grows. \<open>Policy_Contract\<close>, \<open>Stage_Contract\<close>: the theorems about reachable
    stores, the completion, the cancellation and the walk over the candidates. \<open>Policy_Scenario\<close>: a run
    from an empty store over contract, grant, amendment, draft, seal, policy state and decision to its
    cancellation, at whose states the theorems are applied; \<open>Completion_Scenario\<close>: a run with everything
    a completion asks for, and its completion.

  Correspondence. An operation \<open>op(args, token)\<close> of \<open>ControlStore\<close> is a function
  \<open>op w tk args d\<close> from the environment, the capability, the arguments and the database to a result and
  the next database. The body of a \<open>with self.transaction()\<close> block is a function of its own
  (\<open>op_tx\<close>), and \<open>transaction\<close> undoes it when it refuses. Where the code reads in one transaction and
  writes in another, the database seen by the first is an argument, so that the theorems hold
  whatever other processes commit in between. Every raise and early return of the code is a branch
  with its code.

  Interfaces. \<open>fenced_op\<close> (operations behind the owner fence) is interpreted on the 49 modelled
  calls of an owner; the consequence for a superseded owner is \<open>superseded_owner_powerless\<close>.

  The admission queue is a database of its own; its operations take a \<open>queue_env\<close> (own identity, probes,
  clock samples, fresh ticket, ceilings) and what was read before the transaction as arguments.

  Bounds. \<open>reserve_resources\<close> retries three times as the code does. The other loops of the code are
  structural or terminate by a measure (the ancestry walk and the descendants query by the number of
  child bindings not visited yet). Integers are mathematical; the code itself refuses what SQLite
  cannot store.

  Not modelled. SQLite itself, file locks, anchors and schema validation; process spawning and
  signals; the file system; sampling the machine (/proc, cgroups, sysctl). The receipt validators of a launch and the admission guard are arguments
  of the definitions (\<open>launch_checks\<close>), as are the Git proof of a candidate chain, the head and the
  entries of a workspace. Qualification launches are not modelled; the manifest lists every part of the
  repository and its status.
\<close>

end
